(* ===== verification/Prelude.thy ===== *)
theory Prelude
  imports Main "HOL-Library.Monad_Syntax"
begin

text \<open>
  Shared vocabulary of the development: results with errors, the loop combinators the models
  use for the source's \<open>for\<close> loops, rounding up to a multiple, and the generic lemmas on lists and
  bits that several components need.
\<close>

section \<open>Collections of facts\<close>

named_theorems loop_simps \<open>unfolding of counting loops\<close>
named_theorems tree_simps \<open>node values of Merkle trees\<close>
named_theorems codec_simps \<open>lengths and round trips of byte encodings\<close>

section \<open>Results that may be an error\<close>

text \<open>A thrown \<open>Error(message)\<close> is the message; every other outcome is a value.\<close>

datatype error = Error string

type_synonym 'a result = "error + 'a"

abbreviation Throw :: "string \<Rightarrow> 'a result" where
  "Throw msg \<equiv> Inl (Error msg)"

abbreviation Ok :: "'a \<Rightarrow> 'a result" where
  "Ok x \<equiv> Inr x"

fun bind_result :: "'a result \<Rightarrow> ('a \<Rightarrow> 'b result) \<Rightarrow> 'b result" where
  "bind_result (Inl e) f = Inl e"
| "bind_result (Inr x) f = f x"

text \<open>Node's \<open>assert(condition, message)\<close>.\<close>

definition assert_that :: "bool \<Rightarrow> string \<Rightarrow> unit result" where
  "assert_that c msg = (if c then Ok () else Throw msg)"

lemma bind_result_Ok_iff [simp]:
  "bind_result m f = Inr y \<longleftrightarrow> (\<exists>x. m = Inr x \<and> f x = Inr y)"
  by (cases m) auto

lemma assert_that_Ok_iff [simp]: "assert_that c msg = Inr u \<longleftrightarrow> c"
  by (simp add: assert_that_def)

lemma assert_that_Error_iff [simp]: "assert_that c msg = Inl e \<longleftrightarrow> \<not> c \<and> e = Error msg"
  by (auto simp: assert_that_def)

lemma assert_that_True [simp]: "assert_that True msg = Ok ()"
  by (simp add: assert_that_def)

lemma assert_that_False [simp]: "assert_that False msg = Throw msg"
  by (simp add: assert_that_def)

lemma bind_result_cong [fundef_cong]:
  "m = m' \<Longrightarrow> (\<And>x. m' = Inr x \<Longrightarrow> f x = g x) \<Longrightarrow> bind_result m f = bind_result m' g"
  by (cases m') auto

text \<open>A \<open>for (const x of xs)\<close> loop over a state that may throw.\<close>

fun foldM :: "('a \<Rightarrow> 's \<Rightarrow> 's result) \<Rightarrow> 'a list \<Rightarrow> 's \<Rightarrow> 's result" where
  "foldM f [] s = Ok s"
| "foldM f (x # xs) s = bind_result (f x s) (foldM f xs)"

lemma foldM_append:
  "foldM f (xs @ ys) s = bind_result (foldM f xs s) (foldM f ys)"
  by (induction xs arbitrary: s) (simp_all, case_tac "f a s", simp_all)

text \<open>The loop rule: what every round keeps holds at the end, if the loop does not throw.\<close>

lemma foldM_invariant:
  assumes "foldM f xs s = Ok t" and "P s"
    and "\<And>x s s'. x \<in> set xs \<Longrightarrow> P s \<Longrightarrow> f x s = Ok s' \<Longrightarrow> P s'"
  shows "P t"
  using assms by (induction xs arbitrary: s) auto

text \<open>\<open>xs.map(f)\<close> for a function that may throw.\<close>

fun map_result :: "('a \<Rightarrow> 'b result) \<Rightarrow> 'a list \<Rightarrow> 'b list result" where
  "map_result f [] = Ok []"
| "map_result f (x # xs) = bind_result (f x) (\<lambda>y. bind_result (map_result f xs) (\<lambda>ys. Ok (y # ys)))"

lemma map_result_Ok_iff: "map_result f xs = Ok ys \<longleftrightarrow> list_all2 (\<lambda>x y. f x = Ok y) xs ys"
  by (induction xs arbitrary: ys) (auto simp: list_all2_Cons1)

lemma map_result_map: "(\<And>x. x \<in> set xs \<Longrightarrow> f x = Ok (g x)) \<Longrightarrow> map_result f xs = Ok (map g xs)"
  by (induction xs) auto

section \<open>Counting loops\<close>

text \<open>
  \<open>for (let level = 0; level < n; level += 1) s = body(level, s)\<close>. A property of the state after
  \<open>k\<close> rounds is proved by induction on \<open>k\<close>.
\<close>

definition for_upto :: "nat \<Rightarrow> (nat \<Rightarrow> 's \<Rightarrow> 's) \<Rightarrow> 's \<Rightarrow> 's" where
  "for_upto n body s = fold body [0..<n] s"

lemma for_upto_0 [loop_simps]: "for_upto 0 body s = s"
  by (simp add: for_upto_def)

lemma for_upto_Suc [loop_simps]: "for_upto (Suc n) body s = body n (for_upto n body s)"
  by (simp add: for_upto_def)

text \<open>Two loops over the same rounds whose states stay related.\<close>

lemma for_upto_rel:
  assumes "R 0 s t"
    and "\<And>k s t. k < n \<Longrightarrow> R k s t \<Longrightarrow> R (Suc k) (f k s) (g k t)"
  shows "R n (for_upto n f s) (for_upto n g t)"
proof -
  have "k \<le> n \<Longrightarrow> R k (for_upto k f s) (for_upto k g t)" for k
    using assms by (induction k) (simp_all add: loop_simps)
  then show ?thesis by simp
qed

lemma for_upto_invariant:
  assumes "P 0 s" and "\<And>k s. k < n \<Longrightarrow> P k s \<Longrightarrow> P (Suc k) (f k s)"
  shows "P n (for_upto n f s)"
  using for_upto_rel [where R = "\<lambda>k s _. P k s" and f = f and g = f and t = s] assms by blast

lemma nth_list_update_if:
  "j < length xs \<Longrightarrow> xs[i := x] ! j = (if i = j then x else xs ! j)"
  by (cases "i = j") auto

section \<open>Decimal numerals\<close>

text \<open>The decimal digits of a number, as a template string or \<open>toString()\<close> prints it.\<close>

fun decimal :: "nat \<Rightarrow> string" where
  "decimal n = (if n < 10 then [char_of (48 + n)] else decimal (n div 10) @ [char_of (48 + n mod 10)])"

declare decimal.simps [simp del]

section \<open>Rounding up\<close>

text \<open>\<open>Math.ceil(a / b)\<close> for non-negative integers.\<close>

definition ceil_div :: "nat \<Rightarrow> nat \<Rightarrow> nat" where
  "ceil_div a b = (a + b - 1) div b"

lemma ceil_div_0 [simp]: "0 < b \<Longrightarrow> ceil_div 0 b = 0"
  by (simp add: ceil_div_def)

lemma ceil_div_mult_ge: "0 < b \<Longrightarrow> a \<le> b * ceil_div a b"
proof -
  assume b: "0 < b"
  have "(a + b - 1) mod b < b" using b by simp
  moreover have "a + b - 1 = b * ((a + b - 1) div b) + (a + b - 1) mod b" by simp
  ultimately show ?thesis unfolding ceil_div_def by linarith
qed

lemma ceil_div_mult_less: "0 < b \<Longrightarrow> b * ceil_div a b < a + b"
proof -
  assume b: "0 < b"
  have "b * ((a + b - 1) div b) \<le> a + b - 1" by (rule times_div_less_eq_dividend)
  then show ?thesis unfolding ceil_div_def using b by linarith
qed

lemma ceil_div_step: "0 < b \<Longrightarrow> b < a \<Longrightarrow> ceil_div a b = Suc (ceil_div (a - b) b)"
proof -
  assume b: "0 < b" and a: "b < a"
  have "a + b - 1 = (a - b + b - 1) + b" using a b by simp
  then show ?thesis unfolding ceil_div_def using b by (metis div_add_self2 less_not_refl2 Suc_eq_plus1)
qed

lemma ceil_div_small: "0 < a \<Longrightarrow> a \<le> b \<Longrightarrow> ceil_div a b = 1"
  unfolding ceil_div_def by (auto simp: div_nat_eqI)

lemma ceil_div_ge_1: "0 < b \<Longrightarrow> 0 < a \<Longrightarrow> 1 \<le> ceil_div a b"
  unfolding ceil_div_def by (metis Suc_leI div_greater_zero_iff One_nat_def add_diff_assoc2 le_add2 less_Suc_eq_le Suc_pred)

section \<open>Node indices\<close>

text \<open>
  Trees number their nodes from the root, which is 1; the children of \<open>k\<close> are \<open>2k\<close> and \<open>2k + 1\<close>,
  so the leaf \<open>i\<close> of a tree of depth \<open>d\<close> is \<open>2^d OR i\<close>, its ancestor \<open>l\<close> levels up is that
  number shifted right by \<open>l\<close>, and the sibling of a node differs from it in the lowest bit.
\<close>

definition leaf_path :: "nat \<Rightarrow> nat \<Rightarrow> nat" where
  "leaf_path d i = Bit_Operations.or (push_bit d 1) i"

definition sibling_index :: "nat \<Rightarrow> nat" where
  "sibling_index k = Bit_Operations.xor 1 k"

lemma div_two_power_Suc: "(n::nat) div 2 ^ Suc l = n div 2 ^ l div 2"
  by (metis div_mult2_eq mult.commute power_Suc)

lemma div_two_power_succ_cases:
  "(n + 1) div 2 ^ l = n div 2 ^ l \<or> (n + 1) div 2 ^ l = n div 2 ^ l + 1" for n :: nat
  by (metis Suc_eq_plus1 div_Suc)

lemma leaf_path_add:
  assumes "i < 2 ^ d"
  shows "leaf_path d i = 2 ^ d + i"
proof -
  have "\<not> bit ((2::nat) ^ d) n \<or> \<not> bit i n" for n
    using assms by (cases "n = d") (auto simp: bit_exp_iff bit_iff_odd [of i])
  then show ?thesis
    by (simp add: leaf_path_def disjunctive_add)
qed

lemma even_leaf_path:
  assumes "l < d"
  shows "even (drop_bit l (leaf_path d i)) \<longleftrightarrow> even (i div 2 ^ l)"
proof -
  have "bit (leaf_path d i) l = bit i l"
    using assms by (simp add: leaf_path_def bit_or_iff bit_exp_iff)
  then show ?thesis
    by (simp add: bit_iff_odd_drop_bit drop_bit_eq_div)
qed

lemma drop_leaf_path:
  assumes "i < 2 ^ d" and "l \<le> d"
  shows "drop_bit l (leaf_path d i) = 2 ^ (d - l) + i div 2 ^ l"
proof -
  have "(2::nat) ^ d = 2 ^ l * 2 ^ (d - l)"
    using assms(2) by (simp flip: power_add)
  then have "(2 ^ d + i) div 2 ^ l = 2 ^ (d - l) + i div 2 ^ l"
    by (simp add: div_add1_eq)
  then show ?thesis by (simp add: leaf_path_add [OF assms(1)] drop_bit_eq_div)
qed

lemma sibling_index_even: "even k \<Longrightarrow> sibling_index k = k + 1"
  using one_xor_eq [of k] by (simp add: sibling_index_def)

lemma sibling_index_odd: "odd k \<Longrightarrow> sibling_index k = k - 1"
  using one_xor_eq [of k] by (simp add: sibling_index_def)

lemma sibling_index_sibling_index [simp]: "sibling_index (sibling_index k) = k"
  by (cases "even k") (simp_all add: sibling_index_even sibling_index_odd)

end
