(* ===== verification/Field.thy ===== *)
theory Field
  imports Prelude
begin

text \<open>
  The field classes of \<open>packages/babyjubjub/src/fp.ts\<close> and \<open>fr.ts\<close>. Both classes are the same code
  over two orders: a value is a big integer (class \<open>BN\<close>) that every constructor and operation
  brings back below the order. A value is modelled by its integer; the argument type
  \<open>F = number | string | BN | ...\<close> of the code by the integer it parses to.
\<close>

section \<open>Big integers\<close>

text \<open>\<open>BN.mod\<close> truncates: the remainder has the sign of the dividend.\<close>

definition bn_mod :: "int \<Rightarrow> int \<Rightarrow> int" where
  "bn_mod a b = sgn a * (\<bar>a\<bar> mod \<bar>b\<bar>)"

lemma bn_mod_nonneg: "0 \<le> a \<Longrightarrow> 0 < b \<Longrightarrow> bn_mod a b = a mod b"
  by (cases "a = 0") (simp_all add: bn_mod_def)

lemma bn_mod_neg: "a < 0 \<Longrightarrow> 0 < b \<Longrightarrow> bn_mod a b = - (- a mod b)"
  by (simp add: bn_mod_def)

section \<open>Elements over an order\<close>

text \<open>The constructor: \<open>n.mod(ORDER)\<close>, plus the order when \<open>n\<close> is negative.\<close>

definition ff_new :: "int \<Rightarrow> int \<Rightarrow> int" where
  "ff_new ord n = (if n < 0 then bn_mod n ord + ord else bn_mod n ord)"

definition ff_in_range :: "int \<Rightarrow> int \<Rightarrow> bool" where
  "ff_in_range ord x = (x < ord)"

definition ff_strict_from :: "int \<Rightarrow> int \<Rightarrow> int result" where
  "ff_strict_from ord x = (if \<not> ff_in_range ord x then Throw ''Not in range'' else Ok (ff_new ord x))"

definition ff_add_prefix_bit :: "int \<Rightarrow> nat \<Rightarrow> int result" where
  "ff_add_prefix_bit this bitLength =
     (let prefix = push_bit bitLength 1 in
      if prefix < this then Throw ''prefix bit is less than current value''
      else Ok (Bit_Operations.or prefix this))"

definition ff_valid :: "int \<Rightarrow> int \<Rightarrow> bool" where
  "ff_valid ord x \<longleftrightarrow> 0 \<le> x \<and> x < ord"

lemma ff_new_nonneg: "0 < ord \<Longrightarrow> 0 \<le> n \<Longrightarrow> ff_new ord n = n mod ord"
  by (simp add: ff_new_def bn_mod_nonneg)

lemma ff_new_id: "ff_valid ord n \<Longrightarrow> ff_new ord n = n"
  by (auto simp: ff_valid_def ff_new_nonneg)

lemma ff_new_neg:
  assumes "0 < ord" and "n < 0"
  shows "ff_new ord n = (if ord dvd n then ord else n mod ord)"
proof -
  have "- (- n mod ord) + ord = (if ord dvd n then ord else n mod ord)"
    unfolding zmod_zminus1_eq_if dvd_eq_mod_eq_0 by simp
  with assms show ?thesis unfolding ff_new_def by (simp only: bn_mod_neg if_True)
qed

text \<open>
  What the constructor returns: the residue, except that a negative multiple of the order gives
  the order itself.
\<close>

lemma ff_new_eq:
  "0 < ord \<Longrightarrow> ff_new ord n = (if n < 0 \<and> ord dvd n then ord else n mod ord)"
  by (cases "n < 0") (simp_all add: ff_new_neg ff_new_nonneg)

lemma ff_new_cong: "0 < ord \<Longrightarrow> ff_new ord n mod ord = n mod ord"
  by (metis dvd_imp_mod_0 mod_mod_trivial mod_self ff_new_eq)

lemma ff_new_valid: "0 < ord \<Longrightarrow> 0 \<le> n \<or> \<not> ord dvd n \<Longrightarrow> ff_valid ord (ff_new ord n)"
  by (cases "n < 0") (auto simp: ff_new_neg ff_new_nonneg ff_valid_def)

section \<open>Operations\<close>

text \<open>Every operation converts its argument, calls the big-integer operation and converts back.\<close>

definition ff_neg :: "int \<Rightarrow> int \<Rightarrow> int" where "ff_neg ord a = ff_new ord (- a)"
definition ff_add :: "int \<Rightarrow> int \<Rightarrow> int \<Rightarrow> int" where "ff_add ord a f = ff_new ord (a + ff_new ord f)"
definition ff_sub :: "int \<Rightarrow> int \<Rightarrow> int \<Rightarrow> int" where "ff_sub ord a f = ff_new ord (a - ff_new ord f)"
definition ff_mul :: "int \<Rightarrow> int \<Rightarrow> int \<Rightarrow> int" where "ff_mul ord a f = ff_new ord (a * ff_new ord f)"

lemma ff_valid_pos: "ff_valid ord a \<Longrightarrow> 0 < ord"
  by (auto simp: ff_valid_def)

lemma ff_add_eq: "ff_valid ord a \<Longrightarrow> ff_valid ord b \<Longrightarrow> ff_add ord a b = (a + b) mod ord"
  by (simp add: ff_add_def ff_new_id ff_valid_def ff_new_nonneg)

lemma ff_mul_eq: "ff_valid ord a \<Longrightarrow> ff_valid ord b \<Longrightarrow> ff_mul ord a b = (a * b) mod ord"
  by (simp add: ff_mul_def ff_new_id ff_valid_def ff_new_nonneg)

text \<open>The difference of two elements is never a negative multiple of the order.\<close>

lemma ff_valid_diff_no_multiple:
  assumes "ff_valid ord a" and "ff_valid ord b"
  shows "0 \<le> a - b \<or> \<not> ord dvd a - b"
proof (rule disjCI)
  assume "\<not> \<not> ord dvd a - b"
  then have "ord dvd b - a" by (metis dvd_minus_iff minus_diff_eq)
  then have "\<not> 0 < b - a"
    using assms zdvd_not_zless [of "b - a" ord] by (auto simp: ff_valid_def)
  then show "0 \<le> a - b" by simp
qed

lemma ff_sub_eq:
  assumes "ff_valid ord a" and "ff_valid ord b"
  shows "ff_sub ord a b = (a - b) mod ord"
  using ff_valid_diff_no_multiple [OF assms] ff_valid_pos [OF assms(1)]
  by (auto simp: ff_sub_def ff_new_id [OF assms(2)] ff_new_eq)

lemma ff_neg_eq:
  assumes "ff_valid ord a"
  shows "ff_neg ord a = - a mod ord"
  using ff_valid_diff_no_multiple [of ord 0 a] assms
  by (auto simp: ff_neg_def ff_new_eq ff_valid_def)

section \<open>The base field and the scalar field\<close>

definition FP_ORDER :: int where
  "FP_ORDER = 21888242871839275222246405745257275088548364400416034343698204186575808495617"

definition FR_ORDER :: int where
  "FR_ORDER = 2736030358979909402780800718157159386076813972158567259200215660948447373041"

lemma FP_ORDER_pos [simp]: "0 < FP_ORDER"
  by (simp add: FP_ORDER_def)

lemma FR_ORDER_pos [simp]: "0 < FR_ORDER"
  by (simp add: FR_ORDER_def)

lemma FP_ORDER_bits: "2 ^ 253 < FP_ORDER \<and> FP_ORDER < 2 ^ 254"
  by (simp add: FP_ORDER_def)

definition fp_new :: "int \<Rightarrow> int" where "fp_new n = ff_new FP_ORDER n"
definition fp_in_range :: "int \<Rightarrow> bool" where "fp_in_range x = ff_in_range FP_ORDER x"
definition fp_strict_from :: "int \<Rightarrow> int result" where "fp_strict_from x = ff_strict_from FP_ORDER x"
definition fp_add_prefix_bit :: "int \<Rightarrow> nat \<Rightarrow> int result" where
  "fp_add_prefix_bit this bitLength = ff_add_prefix_bit this bitLength"
definition fp_neg :: "int \<Rightarrow> int" where "fp_neg a = ff_neg FP_ORDER a"
definition fp_add :: "int \<Rightarrow> int \<Rightarrow> int" where "fp_add a f = ff_add FP_ORDER a f"
definition fp_sub :: "int \<Rightarrow> int \<Rightarrow> int" where "fp_sub a f = ff_sub FP_ORDER a f"
definition fp_mul :: "int \<Rightarrow> int \<Rightarrow> int" where "fp_mul a f = ff_mul FP_ORDER a f"

definition fr_new :: "int \<Rightarrow> int" where "fr_new n = ff_new FR_ORDER n"
definition fr_in_range :: "int \<Rightarrow> bool" where "fr_in_range x = ff_in_range FR_ORDER x"
definition fr_strict_from :: "int \<Rightarrow> int result" where "fr_strict_from x = ff_strict_from FR_ORDER x"
definition fr_neg :: "int \<Rightarrow> int" where "fr_neg a = ff_neg FR_ORDER a"
definition fr_add :: "int \<Rightarrow> int \<Rightarrow> int" where "fr_add a f = ff_add FR_ORDER a f"
definition fr_sub :: "int \<Rightarrow> int \<Rightarrow> int" where "fr_sub a f = ff_sub FR_ORDER a f"
definition fr_mul :: "int \<Rightarrow> int \<Rightarrow> int" where "fr_mul a f = ff_mul FR_ORDER a f"

abbreviation fp_valid :: "int \<Rightarrow> bool" where "fp_valid \<equiv> ff_valid FP_ORDER"
abbreviation fr_valid :: "int \<Rightarrow> bool" where "fr_valid \<equiv> ff_valid FR_ORDER"

lemma fp_new_valid: "0 \<le> n \<or> \<not> FP_ORDER dvd n \<Longrightarrow> fp_valid (fp_new n)"
  unfolding fp_new_def by (rule ff_new_valid) simp_all

lemma fp_new_id [simp]: "fp_valid n \<Longrightarrow> fp_new n = n"
  by (simp add: fp_new_def ff_new_id)

lemma fp_valid_0 [simp]: "fp_valid 0"
  by (simp add: ff_valid_def)

lemma fp_new_0 [simp]: "fp_new 0 = 0"
  by simp

section \<open>An interface for modular arithmetic\<close>

text \<open>
  What the users of a field class rely on: the operations stay below the order and compute the
  residue of the integer operation.
\<close>

locale modular_arithmetic =
  fixes ord :: int and add :: "int \<Rightarrow> int \<Rightarrow> int" and sub :: "int \<Rightarrow> int \<Rightarrow> int"
    and mul :: "int \<Rightarrow> int \<Rightarrow> int" and neg :: "int \<Rightarrow> int"
  assumes ord_pos: "0 < ord"
    and add_mod: "ff_valid ord a \<Longrightarrow> ff_valid ord b \<Longrightarrow> add a b = (a + b) mod ord"
    and sub_mod: "ff_valid ord a \<Longrightarrow> ff_valid ord b \<Longrightarrow> sub a b = (a - b) mod ord"
    and mul_mod: "ff_valid ord a \<Longrightarrow> ff_valid ord b \<Longrightarrow> mul a b = (a * b) mod ord"
    and neg_mod: "ff_valid ord a \<Longrightarrow> neg a = - a mod ord"
begin

lemma residue_valid: "ff_valid ord (n mod ord)"
  using ord_pos by (simp add: ff_valid_def)

lemma add_valid: "ff_valid ord a \<Longrightarrow> ff_valid ord b \<Longrightarrow> ff_valid ord (add a b)"
  by (simp add: add_mod residue_valid)

lemma sub_valid: "ff_valid ord a \<Longrightarrow> ff_valid ord b \<Longrightarrow> ff_valid ord (sub a b)"
  by (simp add: sub_mod residue_valid)

lemma mul_valid: "ff_valid ord a \<Longrightarrow> ff_valid ord b \<Longrightarrow> ff_valid ord (mul a b)"
  by (simp add: mul_mod residue_valid)

lemma neg_valid: "ff_valid ord a \<Longrightarrow> ff_valid ord (neg a)"
  by (simp add: neg_mod residue_valid)

lemma valid_mod: "ff_valid ord a \<Longrightarrow> a mod ord = a"
  by (simp add: ff_valid_def)

lemma add_assoc:
  "ff_valid ord a \<Longrightarrow> ff_valid ord b \<Longrightarrow> ff_valid ord c \<Longrightarrow> add (add a b) c = add a (add b c)"
  by (simp add: add_mod residue_valid mod_simps add.assoc)

lemma add_commute: "ff_valid ord a \<Longrightarrow> ff_valid ord b \<Longrightarrow> add a b = add b a"
  by (simp add: add_mod add.commute)

lemma mul_assoc:
  "ff_valid ord a \<Longrightarrow> ff_valid ord b \<Longrightarrow> ff_valid ord c \<Longrightarrow> mul (mul a b) c = mul a (mul b c)"
  by (simp add: mul_mod residue_valid mod_simps mult.assoc)

lemma distrib:
  "ff_valid ord a \<Longrightarrow> ff_valid ord b \<Longrightarrow> ff_valid ord c \<Longrightarrow>
    mul a (add b c) = add (mul a b) (mul a c)"
  by (simp add: mul_mod add_mod residue_valid mod_simps distrib_left)

lemma sub_add: "ff_valid ord a \<Longrightarrow> ff_valid ord b \<Longrightarrow> add (sub a b) b = a"
  by (simp add: add_mod sub_mod residue_valid mod_simps valid_mod)

lemma add_neg: "ff_valid ord a \<Longrightarrow> add a (neg a) = 0"
  by (simp add: add_mod neg_mod residue_valid mod_simps)

end

interpretation fp: modular_arithmetic FP_ORDER fp_add fp_sub fp_mul fp_neg
  by unfold_locales
    (simp_all add: fp_add_def fp_sub_def fp_mul_def fp_neg_def ff_add_eq ff_sub_eq ff_mul_eq ff_neg_eq)

interpretation fr: modular_arithmetic FR_ORDER fr_add fr_sub fr_mul fr_neg
  by unfold_locales
    (simp_all add: fr_add_def fr_sub_def fr_mul_def fr_neg_def ff_add_eq ff_sub_eq ff_mul_eq ff_neg_eq)

end
