(* ===== verification/Field_Ops.thy ===== *)
theory Field_Ops
  imports Field
begin

text \<open>
  The methods that the field classes of \<open>packages/babyjubjub/src/fp.ts\<close> and \<open>fr.ts\<close> override. Each
  converts its argument of type \<open>F\<close>, calls the inherited method of the big-integer package and makes
  an element of the result. The package itself is a parameter: for a method with its argument and the
  value of the receiver it yields the returned number and the value the receiver has afterwards.
\<close>

section \<open>Methods\<close>

datatype arith_method =
    ToTwos nat | FromTwos nat | Neg | Ineg | Abs | Iabs
  | Add int | Iadd int | Addn int | Iaddn int | Sub int | Isub int | Subn int | Isubn int
  | Mul int | Imul int | Muln int | Imuln int | Sqr | Isqr
  | Pow int | Div int | Divn int | Mod int | Umod int | DivRound int

datatype bits_method =
    Or int | Ior int | Uor int | Iuor int | And int | Iand int | Uand int | Iuand int | Andln int
  | Xor int | Ixor int | Uxor int | Iuxor int | Setn nat
  | Shln nat | Ishln nat | Ushln nat | Iushln nat | Shrn nat | Ishrn nat | Ushrn nat | Iushrn nat
  | Maskn nat | Imaskn nat | Bincn nat | Notn nat | Inotn nat | Gcd int

type_synonym 'm inherited = "'m \<Rightarrow> int \<Rightarrow> (int \<times> int) result"

text \<open>The method as it is passed on to the inherited one: arguments of type \<open>F\<close> are made elements,
  plain numbers are not.\<close>

fun arith_arg :: "int \<Rightarrow> arith_method \<Rightarrow> arith_method" where
  "arith_arg ord (Add f) = Add (ff_new ord f)"
| "arith_arg ord (Iadd f) = Iadd (ff_new ord f)"
| "arith_arg ord (Sub f) = Sub (ff_new ord f)"
| "arith_arg ord (Isub f) = Isub (ff_new ord f)"
| "arith_arg ord (Mul f) = Mul (ff_new ord f)"
| "arith_arg ord (Imul f) = Imul (ff_new ord f)"
| "arith_arg ord (Pow f) = Pow (ff_new ord f)"
| "arith_arg ord (Div f) = Div (ff_new ord f)"
| "arith_arg ord (Mod f) = Mod (ff_new ord f)"
| "arith_arg ord (Umod f) = Umod (ff_new ord f)"
| "arith_arg ord (DivRound f) = DivRound (ff_new ord f)"
| "arith_arg ord m = m"

fun bits_arg :: "int \<Rightarrow> bits_method \<Rightarrow> bits_method" where
  "bits_arg ord (Or f) = Or (ff_new ord f)"
| "bits_arg ord (Ior f) = Ior (ff_new ord f)"
| "bits_arg ord (Uor f) = Uor (ff_new ord f)"
| "bits_arg ord (Iuor f) = Iuor (ff_new ord f)"
| "bits_arg ord (And f) = And (ff_new ord f)"
| "bits_arg ord (Iand f) = Iand (ff_new ord f)"
| "bits_arg ord (Uand f) = Uand (ff_new ord f)"
| "bits_arg ord (Iuand f) = Iuand (ff_new ord f)"
| "bits_arg ord (Xor f) = Xor (ff_new ord f)"
| "bits_arg ord (Ixor f) = Ixor (ff_new ord f)"
| "bits_arg ord (Uxor f) = Uxor (ff_new ord f)"
| "bits_arg ord (Iuxor f) = Iuxor (ff_new ord f)"
| "bits_arg ord (Gcd f) = Gcd (ff_new ord f)"
| "bits_arg ord m = m"

text \<open>A call returns the new element and leaves in the receiver what the inherited method left there.\<close>

definition element_of :: "int \<Rightarrow> (int \<times> int) result \<Rightarrow> (int \<times> int) result" where
  "element_of ord r = bind_result r (\<lambda>(n, this). Ok (ff_new ord n, this))"

definition fp_arith :: "arith_method inherited \<Rightarrow> arith_method inherited" where
  "fp_arith super m this = element_of FP_ORDER (super (arith_arg FP_ORDER m) this)"

definition fp_bits :: "bits_method inherited \<Rightarrow> bits_method inherited" where
  "fp_bits super m this = element_of FP_ORDER (super (bits_arg FP_ORDER m) this)"

definition fr_arith :: "arith_method inherited \<Rightarrow> arith_method inherited" where
  "fr_arith super m this = element_of FR_ORDER (super (arith_arg FR_ORDER m) this)"

definition fr_bits :: "bits_method inherited \<Rightarrow> bits_method inherited" where
  "fr_bits super m this = element_of FR_ORDER (super (bits_arg FR_ORDER m) this)"

lemma element_of_Ok:
  "element_of ord r = Ok (n, this) \<longleftrightarrow> (\<exists>k. r = Ok (k, this) \<and> n = ff_new ord k)"
  by (cases r) (auto simp: element_of_def)

section \<open>What the package documents\<close>

text \<open>
  The documented behaviour of the methods on which the callers in the repository rely: sums,
  differences, products and opposites are those of the integers, and the variants that begin
  with \<open>i\<close> store the result in the receiver.
\<close>

definition documented :: "arith_method inherited \<Rightarrow> bool" where
  "documented super \<longleftrightarrow>
     (\<forall>a b. super Neg a = Ok (- a, a) \<and> super Sqr a = Ok (a * a, a) \<and>
       super (Add b) a = Ok (a + b, a) \<and> super (Iadd b) a = Ok (a + b, a + b) \<and>
       super (Sub b) a = Ok (a - b, a) \<and> super (Isub b) a = Ok (a - b, a - b) \<and>
       super (Mul b) a = Ok (a * b, a))"

lemma documentedD:
  assumes "documented super"
  shows "super Neg a = Ok (- a, a)" and "super Sqr a = Ok (a * a, a)"
    and "super (Add b) a = Ok (a + b, a)" and "super (Iadd b) a = Ok (a + b, a + b)"
    and "super (Sub b) a = Ok (a - b, a)" and "super (Isub b) a = Ok (a - b, a - b)"
    and "super (Mul b) a = Ok (a * b, a)"
  using assms unfolding documented_def by blast+

text \<open>An instance, with every other method refused.\<close>

fun integer_methods :: "arith_method inherited" where
  "integer_methods Neg a = Ok (- a, a)"
| "integer_methods Sqr a = Ok (a * a, a)"
| "integer_methods (Add b) a = Ok (a + b, a)"
| "integer_methods (Iadd b) a = Ok (a + b, a + b)"
| "integer_methods (Sub b) a = Ok (a - b, a)"
| "integer_methods (Isub b) a = Ok (a - b, a - b)"
| "integer_methods (Mul b) a = Ok (a * b, a)"
| "integer_methods m a = Throw ''not used''"

lemma integer_methods_documented: "documented integer_methods"
  by (simp add: documented_def)

section \<open>Expressions over elements\<close>

text \<open>An expression as callers chain the methods, its evaluation by calls, and its integer.\<close>

datatype ff_expr =
    E_from int | E_neg ff_expr | E_sqr ff_expr
  | E_add ff_expr ff_expr | E_sub ff_expr ff_expr | E_mul ff_expr ff_expr

definition returned :: "(int \<times> int) result \<Rightarrow> int result" where
  "returned r = bind_result r (\<lambda>(n, this). Ok n)"

fun fp_eval :: "arith_method inherited \<Rightarrow> ff_expr \<Rightarrow> int result" where
  "fp_eval super (E_from n) = Ok (fp_new n)"
| "fp_eval super (E_neg e) =
     bind_result (fp_eval super e) (\<lambda>a. returned (fp_arith super Neg a))"
| "fp_eval super (E_sqr e) =
     bind_result (fp_eval super e) (\<lambda>a. returned (fp_arith super Sqr a))"
| "fp_eval super (E_add e f) = bind_result (fp_eval super e) (\<lambda>a.
     bind_result (fp_eval super f) (\<lambda>b. returned (fp_arith super (Add b) a)))"
| "fp_eval super (E_sub e f) = bind_result (fp_eval super e) (\<lambda>a.
     bind_result (fp_eval super f) (\<lambda>b. returned (fp_arith super (Sub b) a)))"
| "fp_eval super (E_mul e f) = bind_result (fp_eval super e) (\<lambda>a.
     bind_result (fp_eval super f) (\<lambda>b. returned (fp_arith super (Mul b) a)))"

fun expr_int :: "ff_expr \<Rightarrow> int" where
  "expr_int (E_from n) = n"
| "expr_int (E_neg e) = - expr_int e"
| "expr_int (E_sqr e) = expr_int e * expr_int e"
| "expr_int (E_add e f) = expr_int e + expr_int f"
| "expr_int (E_sub e f) = expr_int e - expr_int f"
| "expr_int (E_mul e f) = expr_int e * expr_int f"

text \<open>The literals of an expression that are not negative multiples of the order.\<close>

fun literals_ok :: "ff_expr \<Rightarrow> bool" where
  "literals_ok (E_from n) \<longleftrightarrow> 0 \<le> n \<or> n mod FP_ORDER \<noteq> 0"
| "literals_ok (E_neg e) \<longleftrightarrow> literals_ok e"
| "literals_ok (E_sqr e) \<longleftrightarrow> literals_ok e"
| "literals_ok (E_add e f) \<longleftrightarrow> literals_ok e \<and> literals_ok f"
| "literals_ok (E_sub e f) \<longleftrightarrow> literals_ok e \<and> literals_ok f"
| "literals_ok (E_mul e f) \<longleftrightarrow> literals_ok e \<and> literals_ok f"

lemma fp_call_documented:
  assumes "documented super" and "fp_valid a" and "fp_valid b"
  shows "returned (fp_arith super Neg a) = Ok (fp_neg a)"
    and "returned (fp_arith super Sqr a) = Ok (fp_mul a a)"
    and "returned (fp_arith super (Add b) a) = Ok (fp_add a b)"
    and "returned (fp_arith super (Sub b) a) = Ok (fp_sub a b)"
    and "returned (fp_arith super (Mul b) a) = Ok (fp_mul a b)"
  using assms(2,3)
  by (simp_all add: returned_def fp_arith_def element_of_def documentedD [OF assms(1)] ff_new_id
      fp_neg_def ff_neg_def fp_mul_def ff_mul_def fp_add_def ff_add_def fp_sub_def ff_sub_def)

section \<open>Properties\<close>

text \<open>What a call makes of the outcome of the inherited method.\<close>

definition reduced_outcome :: "int \<Rightarrow> (int \<times> int) result \<Rightarrow> (int \<times> int) result \<Rightarrow> bool" where
  "reduced_outcome ord inherited outcome =
     (case (inherited, outcome) of
        (Inl e, Inl e') \<Rightarrow> e = e'
      | (Inr (k, this), Inr (n, this')) \<Rightarrow>
          this = this' \<and> 0 \<le> n \<and> n \<le> ord \<and> n mod ord = k mod ord \<and>
          (n = ord \<longleftrightarrow> k < 0 \<and> ord dvd k)
      | _ \<Rightarrow> False)"

lemma ff_new_bounds: "0 < ord \<Longrightarrow> 0 \<le> ff_new ord n \<and> ff_new ord n \<le> ord"
  by (simp add: ff_new_eq less_imp_le)

lemma reduced_outcome_element:
  assumes "0 < ord"
  shows "reduced_outcome ord r (element_of ord r)"
proof -
  have "(ff_new ord k = ord) = (k < 0 \<and> ord dvd k)" for k
    using pos_mod_bound [OF assms, of k] by (simp add: ff_new_eq [OF assms])
  with ff_new_bounds [OF assms] ff_new_cong [OF assms] show ?thesis
    by (cases r) (auto simp only: reduced_outcome_def element_of_def bind_result.simps prod.case
        sum.case split: prod.split)
qed

text \<open>C11: Whatever the inherited big-integer methods compute, the element that a method of the base
  field or of the scalar field returns lies between zero and the order, is congruent to the number
  that the inherited method computed, and equals the order exactly when that number is a negative
  multiple of the order; a method throws only when the inherited one does.\<close>

theorem field_methods_bounded:
  "reduced_outcome FP_ORDER (super_a (arith_arg FP_ORDER m) x) (fp_arith super_a m x) \<and>
   reduced_outcome FP_ORDER (super_b (bits_arg FP_ORDER k) x) (fp_bits super_b k x) \<and>
   reduced_outcome FR_ORDER (super_a (arith_arg FR_ORDER m) x) (fr_arith super_a m x) \<and>
   reduced_outcome FR_ORDER (super_b (bits_arg FR_ORDER k) x) (fr_bits super_b k x)"
  unfolding fp_arith_def fp_bits_def fr_arith_def fr_bits_def
  by (simp add: reduced_outcome_element)

text \<open>Over a big-integer package with the documented arithmetic, an expression of chained calls
  whose literals are not negative multiples of the order evaluates without an exception to the residue
  of its integer value.\<close>

theorem fp_eval_exact:
  assumes "documented super" and "literals_ok e"
  shows "fp_eval super e = Ok (expr_int e mod FP_ORDER)"
  using assms(2)
proof (induction e)
  case (E_from n)
  then show ?case by (auto simp: fp_new_def ff_new_eq dvd_eq_mod_eq_0)
qed (simp_all add: fp_call_documented [OF assms(1) fp.residue_valid fp.residue_valid]
    fp.neg_mod fp.mul_mod fp.add_mod fp.sub_mod fp.residue_valid mod_simps)

theorem fp_eval_exact_witness:
  "fp_eval integer_methods (E_sub (E_mul (E_from 3) (E_from 4)) (E_neg (E_sqr (E_from 5)))) = Ok 37"
  using fp_eval_exact [of integer_methods
      "E_sub (E_mul (E_from 3) (E_from 4)) (E_neg (E_sqr (E_from 5)))"]
  by (simp add: integer_methods_documented FP_ORDER_def)

end
