(* ===== verification/Bytes.thy ===== *)
theory Bytes
  imports Prelude "HOL-Library.Word"
begin

text \<open>
  Buffers, hexadecimal strings and the two queues of \<open>packages/utils/src/index.ts\<close> that the decoders
  read from. A buffer is a list of bytes, a hexadecimal string (without its prefix \<open>0x\<close>) the list
  of its digits.
\<close>

type_synonym byte = "8 word"
type_synonym digit = "4 word"

section \<open>Big-endian numbers\<close>

lemma unat_bound: "unat (w :: 'a::len word) < 2 ^ LENGTH('a)"
  by (rule unsigned_less)

lemma byte_bound: "unat (b :: 8 word) < 256"
  by (rule order_less_le_trans [OF unat_bound]) simp

fun be_bytes :: "nat \<Rightarrow> nat \<Rightarrow> byte list" where
  "be_bytes 0 n = []"
| "be_bytes (Suc k) n = be_bytes k (n div 256) @ [word_of_nat (n mod 256)]"

definition be_val :: "byte list \<Rightarrow> nat" where
  "be_val bs = foldl (\<lambda>a b. a * 256 + unat b) 0 bs"

lemma length_be_bytes [simp]: "length (be_bytes k n) = k"
  by (induction k n rule: be_bytes.induct) simp_all

lemma be_val_Nil [simp]: "be_val [] = 0"
  by (simp add: be_val_def)

lemma be_val_snoc [simp]: "be_val (bs @ [b]) = be_val bs * 256 + unat b"
  by (simp add: be_val_def)

lemma unat_byte_of_mod: "unat (word_of_nat (n mod 256) :: byte) = n mod 256"
  by (simp add: unat_of_nat)

lemma be_val_be_bytes [codec_simps]: "n < 256 ^ k \<Longrightarrow> be_val (be_bytes k n) = n"
proof (induction k n rule: be_bytes.induct)
  case (2 k n)
  then have "n div 256 < 256 ^ k" by (simp add: less_mult_imp_div_less mult.commute)
  then show ?case using "2.IH" by (simp add: unat_byte_of_mod)
qed simp

lemma be_val_bound: "be_val bs < 256 ^ length bs"
proof (induction bs rule: rev_induct)
  case (snoc b bs)
  have "unat b < 256" by (rule byte_bound)
  then show ?case using snoc by simp
qed simp

lemma be_bytes_inj: "be_bytes k m = be_bytes k n \<Longrightarrow> m < 256 ^ k \<Longrightarrow> n < 256 ^ k \<Longrightarrow> m = n"
  by (metis be_val_be_bytes)

lemma be_bytes_1 [simp]: "be_bytes (Suc 0) n = [word_of_nat (n mod 256)]"
  by simp

section \<open>Hexadecimal digits\<close>

definition byte_digits :: "byte \<Rightarrow> digit list" where
  "byte_digits b = [ucast (drop_bit 4 b), ucast b]"

definition digits_of :: "byte list \<Rightarrow> digit list" where
  "digits_of bs = concat (map byte_digits bs)"

definition hex_val :: "digit list \<Rightarrow> nat" where
  "hex_val ds = foldl (\<lambda>a d. a * 16 + unat d) 0 ds"

text \<open>\<open>Buffer.from(s, 'hex')\<close>: a last single digit is dropped.\<close>

fun bytes_of :: "digit list \<Rightarrow> byte list" where
  "bytes_of (a # b # ds) = word_of_nat (unat a * 16 + unat b) # bytes_of ds"
| "bytes_of _ = []"

lemma digits_of_Nil [simp]: "digits_of [] = []"
  by (simp add: digits_of_def)

lemma digits_of_Cons: "digits_of (b # bs) = byte_digits b @ digits_of bs"
  by (simp add: digits_of_def)

lemma digits_of_append [simp]: "digits_of (bs @ cs) = digits_of bs @ digits_of cs"
  by (simp add: digits_of_def)

lemma length_digits_of [simp]: "length (digits_of bs) = 2 * length bs"
  by (induction bs) (simp_all add: digits_of_Cons byte_digits_def)

lemma unat_byte_digits: "unat (ucast (drop_bit 4 b) :: digit) * 16 + unat (ucast b :: digit) = unat (b :: byte)"
proof -
  have "unat b < 256" by (rule byte_bound)
  then have "unat b div 16 < 16" by simp
  then show ?thesis
    by (simp add: unsigned_ucast_eq unsigned_drop_bit_eq drop_bit_eq_div [of 4 "unat b"] take_bit_eq_mod)
qed

lemma hex_val_append2: "hex_val (ds @ [a, b]) = hex_val ds * 256 + (unat a * 16 + unat b)"
  by (simp add: hex_val_def)

lemma hex_val_digits_of [codec_simps]: "hex_val (digits_of bs) = be_val bs"
proof (induction bs rule: rev_induct)
  case (snoc b bs)
  have "hex_val (digits_of bs @ byte_digits b) = hex_val (digits_of bs) * 256 + unat b"
    unfolding byte_digits_def hex_val_append2 unat_byte_digits ..
  then show ?case using snoc by (simp add: digits_of_Cons)
qed (simp add: hex_val_def)

lemma bytes_of_digits_of [codec_simps]: "bytes_of (digits_of bs) = bs"
proof (induction bs)
  case (Cons b bs)
  have "bytes_of (digits_of (b # bs)) = word_of_nat (unat b) # bytes_of (digits_of bs)"
    unfolding digits_of_Cons byte_digits_def by (simp only: append.simps bytes_of.simps unat_byte_digits)
  then show ?case using Cons by simp
qed simp

section \<open>Readers\<close>

text \<open>
  A decoder takes values from a queue, which it advances. The queue is threaded explicitly, and a
  decoder may throw.
\<close>

type_synonym ('q, 'a) reader = "'q \<Rightarrow> ('a \<times> 'q) result"

definition rd_return :: "'a \<Rightarrow> ('q, 'a) reader" where
  "rd_return x q = Ok (x, q)"

definition rd_bind :: "('q, 'a) reader \<Rightarrow> ('a \<Rightarrow> ('q, 'b) reader) \<Rightarrow> ('q, 'b) reader" where
  "rd_bind rd f q = bind_result (rd q) (\<lambda>(x, q'). f x q')"

text \<open>A loop that pushes one decoded element per round.\<close>

fun rd_times :: "nat \<Rightarrow> ('q, 'a) reader \<Rightarrow> ('q, 'a list) reader" where
  "rd_times 0 rd = rd_return []"
| "rd_times (Suc n) rd = rd_bind rd (\<lambda>x. rd_bind (rd_times n rd) (\<lambda>xs. rd_return (x # xs)))"

text \<open>
  \<open>reads holds rd bs x\<close>: from a queue that holds the bytes \<open>bs\<close> and more, \<open>rd\<close> decodes \<open>x\<close> and
  leaves exactly the rest.
\<close>

definition reads :: "('q \<Rightarrow> byte list \<Rightarrow> bool) \<Rightarrow> ('q, 'a) reader \<Rightarrow> byte list \<Rightarrow> 'a \<Rightarrow> bool" where
  "reads holds rd bs x \<longleftrightarrow>
     (\<forall>q rest. holds q (bs @ rest) \<longrightarrow> (\<exists>q'. rd q = Ok (x, q') \<and> holds q' rest))"

lemma readsI:
  assumes "\<And>q rest. holds q (bs @ rest) \<Longrightarrow> \<exists>q'. rd q = Ok (x, q') \<and> holds q' rest"
  shows "reads holds rd bs x"
  using assms unfolding reads_def by blast

lemma readsD:
  assumes "reads holds rd bs x" and "holds q (bs @ rest)"
  obtains q' where "rd q = Ok (x, q')" and "holds q' rest"
  using assms unfolding reads_def by blast

lemma reads_return: "reads holds (rd_return x) [] x"
  by (simp add: reads_def rd_return_def)

lemma reads_bind:
  assumes "reads holds rd bs x" and "reads holds (f x) cs y"
  shows "reads holds (rd_bind rd f) (bs @ cs) y"
proof (rule readsI)
  fix q rest assume "holds q ((bs @ cs) @ rest)"
  then have "holds q (bs @ (cs @ rest))" by simp
  then obtain q1 where "rd q = Ok (x, q1)" and "holds q1 (cs @ rest)"
    by (rule readsD [OF assms(1)])
  moreover from this(2) obtain q2 where "f x q1 = Ok (y, q2)" and "holds q2 rest"
    by (rule readsD [OF assms(2)])
  ultimately show "\<exists>q'. rd_bind rd f q = Ok (y, q') \<and> holds q' rest"
    by (simp add: rd_bind_def)
qed

lemma reads_bind_return:
  assumes "reads holds rd bs x" and "y = g x"
  shows "reads holds (rd_bind rd (\<lambda>x. rd_return (g x))) bs y"
  using reads_bind [OF assms(1), of "\<lambda>x. rd_return (g x)" "[]" y] assms(2)
  by (simp add: reads_return)

lemma reads_times:
  assumes "list_all2 (\<lambda>bs x. reads holds rd bs x) bss xs"
  shows "reads holds (rd_times (length xs) rd) (concat bss) xs"
  using assms
proof (induction rule: list_all2_induct)
  case Nil
  then show ?case by (simp add: reads_return)
next
  case (Cons bs bss x xs)
  have "reads holds (rd_bind (rd_times (length xs) rd) (\<lambda>ys. rd_return (x # ys))) (concat bss) (x # xs)"
    by (rule reads_bind_return [OF Cons(3)]) simp
  from reads_bind [OF Cons(1), of "\<lambda>y. rd_bind (rd_times (length xs) rd) (\<lambda>ys. rd_return (y # ys))", OF this]
  show ?case by simp
qed

section \<open>The queues\<close>

text \<open>\<open>Queue\<close>: \<open>buffer.slice\<close> clamps its bounds to the buffer.\<close>

record byte_queue =
  bq_buffer :: "byte list"
  bq_cursor :: nat

definition new_Queue :: "byte list \<Rightarrow> byte_queue" where
  "new_Queue buffer = \<lparr>bq_buffer = buffer, bq_cursor = 0\<rparr>"

definition queue_dequeue :: "nat \<Rightarrow> (byte_queue, byte list) reader" where
  "queue_dequeue n q =
     Ok (take n (drop (bq_cursor q) (bq_buffer q)), q\<lparr>bq_cursor := bq_cursor q + n\<rparr>)"

definition queue_holds :: "byte_queue \<Rightarrow> byte list \<Rightarrow> bool" where
  "queue_holds q bs \<longleftrightarrow> drop (bq_cursor q) (bq_buffer q) = bs"

lemma queue_holds_new: "queue_holds (new_Queue bs) bs"
  by (simp add: queue_holds_def new_Queue_def)

lemma queue_dequeue_reads: "length bs = n \<Longrightarrow> reads queue_holds (queue_dequeue n) bs bs"
  by (auto simp: reads_def queue_holds_def queue_dequeue_def add.commute simp flip: drop_drop)

text \<open>
  \<open>StringifiedHexQueue\<close>. A length that is not a number (the \<open>NaN\<close> of \<open>parseInt('')\<close>) makes the
  cursor \<open>NaN\<close>; then every slice is empty, except that \<open>slice(NaN)\<close> is the whole string.
\<close>

record hex_queue =
  hq_str :: "digit list"
  hq_cursor :: "nat option"

definition new_StringifiedHexQueue :: "digit list \<Rightarrow> hex_queue" where
  "new_StringifiedHexQueue str = \<lparr>hq_str = str, hq_cursor = Some 0\<rparr>"

definition hex_dequeue :: "nat option \<Rightarrow> (hex_queue, digit list) reader" where
  "hex_dequeue n q =
     Ok (case (hq_cursor q, n) of
           (Some c, Some k) \<Rightarrow> (take (2 * k) (drop c (hq_str q)), q\<lparr>hq_cursor := Some (c + 2 * k)\<rparr>)
         | _ \<Rightarrow> ([], q\<lparr>hq_cursor := None\<rparr>))"

text \<open>
  Numbers are doubles: an integer from \<open>2^53\<close> on is rounded to 53 significant bits, half to even.
\<close>

fun js_exponent :: "nat \<Rightarrow> nat" where
  "js_exponent n = (if n < 2 ^ 53 then 0 else Suc (js_exponent (n div 2)))"

declare js_exponent.simps [simp del]

definition js_number :: "nat \<Rightarrow> nat" where
  "js_number n =
     (let e = js_exponent n; q = n div 2 ^ e; r = 2 * (n mod 2 ^ e)
      in (if 2 ^ e < r \<or> (2 ^ e = r \<and> odd q) then q + 1 else q) * 2 ^ e)"

lemma js_number_exact [simp]: "n < 2 ^ 53 \<Longrightarrow> js_number n = n"
  by (simp add: js_number_def js_exponent.simps)

text \<open>\<open>dequeueToNumber\<close>: \<open>parseInt(dequeued, 16)\<close>, \<open>NaN\<close> for no digits.\<close>

definition hex_dequeueToNumber :: "nat \<Rightarrow> (hex_queue, nat option) reader" where
  "hex_dequeueToNumber n =
     rd_bind (hex_dequeue (Some n)) (\<lambda>ds. rd_return (if ds = [] then None else Some (js_number (hex_val ds))))"

definition hex_dequeueToBuffer :: "nat option \<Rightarrow> (hex_queue, byte list) reader" where
  "hex_dequeueToBuffer n = rd_bind (hex_dequeue n) (\<lambda>ds. rd_return (bytes_of ds))"

definition hex_dequeueAll :: "hex_queue \<Rightarrow> digit list" where
  "hex_dequeueAll q = (case hq_cursor q of Some c \<Rightarrow> drop c (hq_str q) | None \<Rightarrow> hq_str q)"

definition hex_dequeueAllToBuffer :: "hex_queue \<Rightarrow> byte list" where
  "hex_dequeueAllToBuffer q = bytes_of (hex_dequeueAll q)"

text \<open>
  The typed values of the package \<open>soltypes\<close> check their digits when they are made; that check is a
  parameter, which for the right number of digits yields the number.
\<close>

type_synonym soltypes = "nat \<Rightarrow> digit list \<Rightarrow> nat result"

definition soltypes_documented :: "soltypes \<Rightarrow> bool" where
  "soltypes_documented sol \<longleftrightarrow> (\<forall>n ds. length ds = 2 * n \<longrightarrow> sol n ds = Ok (hex_val ds))"

definition hex_dequeue_typed :: "soltypes \<Rightarrow> nat \<Rightarrow> (hex_queue, nat) reader" where
  "hex_dequeue_typed sol n =
     rd_bind (hex_dequeue (Some n)) (\<lambda>ds q. bind_result (sol n ds) (\<lambda>v. Ok (v, q)))"

definition hex_dequeueToAddress :: "soltypes \<Rightarrow> (hex_queue, 160 word) reader" where
  "hex_dequeueToAddress sol = rd_bind (hex_dequeue_typed sol 20) (\<lambda>v. rd_return (word_of_nat v))"

definition hex_dequeueToBytes32 :: "soltypes \<Rightarrow> (hex_queue, 256 word) reader" where
  "hex_dequeueToBytes32 sol = rd_bind (hex_dequeue_typed sol 32) (\<lambda>v. rd_return (word_of_nat v))"

definition hex_dequeueToUint256 :: "soltypes \<Rightarrow> (hex_queue, 256 word) reader" where
  "hex_dequeueToUint256 sol = hex_dequeueToBytes32 sol"

definition hex_holds :: "hex_queue \<Rightarrow> byte list \<Rightarrow> bool" where
  "hex_holds q bs \<longleftrightarrow> (\<exists>c. hq_cursor q = Some c \<and> drop c (hq_str q) = digits_of bs)"

lemma hex_holds_new: "hex_holds (new_StringifiedHexQueue (digits_of bs)) bs"
  by (simp add: hex_holds_def new_StringifiedHexQueue_def)

lemma hex_dequeue_reads:
  assumes "length bs = n"
  shows "reads hex_holds (hex_dequeue (Some n)) bs (digits_of bs)"
proof (rule readsI)
  fix q rest assume "hex_holds q (bs @ rest)"
  then obtain c where c: "hq_cursor q = Some c" "drop c (hq_str q) = digits_of bs @ digits_of rest"
    by (auto simp: hex_holds_def)
  have "drop (c + 2 * n) (hq_str q) = drop (2 * n) (drop c (hq_str q))"
    by (simp add: add.commute)
  also have "\<dots> = digits_of rest" unfolding c(2) using assms by simp
  finally show "\<exists>q'. hex_dequeue (Some n) q = Ok (digits_of bs, q') \<and> hex_holds q' rest"
    using c assms by (simp add: hex_dequeue_def hex_holds_def)
qed

lemma hex_dequeueToNumber_reads:
  assumes "length bs = n" and "bs \<noteq> []" and "be_val bs < 2 ^ 53"
  shows "reads hex_holds (hex_dequeueToNumber n) bs (Some (be_val bs))"
proof -
  have nonempty: "digits_of bs \<noteq> []"
    using assms(2) by (cases bs) (simp_all add: digits_of_Cons byte_digits_def)
  show ?thesis
    unfolding hex_dequeueToNumber_def
    by (rule reads_bind_return [OF hex_dequeue_reads [OF assms(1)]])
      (use assms(3) in \<open>simp add: nonempty hex_val_digits_of\<close>)
qed

lemma hex_dequeueToBuffer_reads:
  "length bs = n \<Longrightarrow> reads hex_holds (hex_dequeueToBuffer (Some n)) bs bs"
  unfolding hex_dequeueToBuffer_def
  by (rule reads_bind_return [OF hex_dequeue_reads]) (simp_all add: bytes_of_digits_of)

lemma hex_dequeueAll_holds: "hex_holds q bs \<Longrightarrow> hex_dequeueAll q = digits_of bs"
  by (auto simp: hex_holds_def hex_dequeueAll_def)

lemma hex_dequeue_typed_reads:
  assumes "soltypes_documented sol" and "length bs = n"
  shows "reads hex_holds (hex_dequeue_typed sol n) bs (be_val bs)"
proof -
  have "sol n (digits_of bs) = Ok (be_val bs)"
    using assms by (simp add: soltypes_documented_def hex_val_digits_of)
  then have "reads hex_holds (\<lambda>q. bind_result (sol n (digits_of bs)) (\<lambda>v. Ok (v, q))) [] (be_val bs)"
    by (simp add: reads_def)
  from reads_bind [OF hex_dequeue_reads [OF assms(2)], where f = "\<lambda>ds q. bind_result (sol n ds) (\<lambda>v. Ok (v, q))", OF this]
  show ?thesis unfolding hex_dequeue_typed_def by simp
qed

section \<open>Fixed-width values\<close>

text \<open>\<open>toBuffer()\<close> of an address, a 32-byte value or an unsigned integer: all bytes, big-endian.\<close>

definition address_bytes :: "160 word \<Rightarrow> byte list" where
  "address_bytes a = be_bytes 20 (unat a)"

definition word_bytes :: "256 word \<Rightarrow> byte list" where
  "word_bytes w = be_bytes 32 (unat w)"

lemma length_address_bytes [simp]: "length (address_bytes a) = 20"
  by (simp add: address_bytes_def)

lemma length_word_bytes [simp]: "length (word_bytes w) = 32"
  by (simp add: word_bytes_def)

lemma be_val_address_bytes [codec_simps]: "be_val (address_bytes a) = unat a"
  unfolding address_bytes_def
  by (rule be_val_be_bytes, rule order_less_le_trans [OF unat_bound]) simp

lemma be_val_word_bytes [codec_simps]: "be_val (word_bytes w) = unat w"
  unfolding word_bytes_def
  by (rule be_val_be_bytes, rule order_less_le_trans [OF unat_bound]) simp

lemma word_bytes_inj [simp]: "word_bytes v = word_bytes w \<longleftrightarrow> v = w"
  by (metis be_val_word_bytes word_unat_eq_iff)

lemma address_bytes_inj [simp]: "address_bytes v = address_bytes w \<longleftrightarrow> v = w"
  by (metis be_val_address_bytes word_unat_eq_iff)

lemma hex_dequeueToAddress_reads:
  assumes "soltypes_documented sol"
  shows "reads hex_holds (hex_dequeueToAddress sol) (address_bytes a) a"
  unfolding hex_dequeueToAddress_def
  by (rule reads_bind_return [OF hex_dequeue_typed_reads [OF assms]])
    (simp_all add: be_val_address_bytes)

lemma hex_dequeueToBytes32_reads:
  assumes "soltypes_documented sol"
  shows "reads hex_holds (hex_dequeueToBytes32 sol) (word_bytes w) w"
  unfolding hex_dequeueToBytes32_def
  by (rule reads_bind_return [OF hex_dequeue_typed_reads [OF assms]])
    (simp_all add: be_val_word_bytes)

lemma hex_dequeueToUint256_reads:
  assumes "soltypes_documented sol"
  shows "reads hex_holds (hex_dequeueToUint256 sol) (word_bytes w) w"
  unfolding hex_dequeueToUint256_def by (rule hex_dequeueToBytes32_reads [OF assms])

section \<open>Building buffers\<close>

text \<open>\<open>Buffer.concat\<close> of parts that are computed in order, the first of which to throw ends it.\<close>

fun buffer_concat :: "byte list result list \<Rightarrow> byte list result" where
  "buffer_concat [] = Ok []"
| "buffer_concat (r # rs) = bind_result r (\<lambda>bs. bind_result (buffer_concat rs) (\<lambda>cs. Ok (bs @ cs)))"

lemma buffer_concat_append:
  "buffer_concat (rs @ rs') =
     bind_result (buffer_concat rs) (\<lambda>bs. bind_result (buffer_concat rs') (\<lambda>cs. Ok (bs @ cs)))"
proof (induction rs)
  case Nil
  show ?case by (cases "buffer_concat rs'") simp_all
next
  case (Cons r rs)
  then show ?case
    by (cases r; cases "buffer_concat rs"; cases "buffer_concat rs'") simp_all
qed

lemma buffer_concat_map_Ok:
  "list_all (\<lambda>x. f x = Ok (g x)) xs \<Longrightarrow> buffer_concat (map f xs) = Ok (concat (map g xs))"
  by (induction xs) simp_all

text \<open>An array element that does not exist is \<open>undefined\<close>; calling a method on it throws.\<close>

definition element_at :: "'a list \<Rightarrow> nat \<Rightarrow> 'a result" where
  "element_at xs i = (if i < length xs then Ok (xs ! i) else Throw ''Cannot read property of undefined'')"

end
