(* ===== verification/Zk_Tx.thy ===== *)
theory Zk_Tx
  imports Bytes Field
begin

text \<open>
  The transaction of \<open>packages/transaction/src/zk-tx.ts\<close>: its data, its binary form, its hash, its
  public signals and its memo. Field elements are their integers.
\<close>

section \<open>Data\<close>

record zk_inflow =
  in_nullifier :: int
  in_root :: int

record public_data =
  pd_to :: int
  pd_eth :: int
  pd_tokenAddr :: int
  pd_erc20Amount :: int
  pd_nft :: int
  pd_fee :: int

record zk_outflow =
  out_note :: int
  out_type :: int
  out_data :: "public_data option"

record snark =
  pi_a :: "int list"
  pi_b :: "int list list"
  pi_c :: "int list"

record memo =
  memo_version :: nat
  memo_data :: "byte list"

record zk_tx =
  tx_inflow :: "zk_inflow list"
  tx_outflow :: "zk_outflow list"
  tx_fee :: int
  tx_proof :: "snark option"
  tx_swap :: "int option"
  tx_memo :: "memo option"
  cache_hash :: "(256 word) option"
  cache_size :: "nat option"

definition new_ZkTx ::
  "zk_inflow list \<Rightarrow> zk_outflow list \<Rightarrow> int \<Rightarrow> snark option \<Rightarrow> int option \<Rightarrow> memo option \<Rightarrow> zk_tx" where
  "new_ZkTx inflow outflow fee proof swap memo =
     \<lparr>tx_inflow = inflow, tx_outflow = outflow, tx_fee = fee, tx_proof = proof, tx_swap = swap,
      tx_memo = memo, cache_hash = None, cache_size = None\<rparr>"

text \<open>Types of outflows.\<close>

definition UTXO :: int where "UTXO = 0"
definition WITHDRAWAL :: int where "WITHDRAWAL = 1"
definition MIGRATION :: int where "MIGRATION = 2"

lemmas outflow_types = UTXO_def WITHDRAWAL_def MIGRATION_def

section \<open>Encoding\<close>

text \<open>\<open>toBuffer('be', len)\<close> throws for a number with more bytes.\<close>

definition toBuffer :: "nat \<Rightarrow> int \<Rightarrow> byte list result" where
  "toBuffer len x =
     (if nat x < 256 ^ len then Ok (be_bytes len (nat x))
      else Throw ''byte array longer than desired length'')"

definition fromBuffer :: "byte list \<Rightarrow> int" where
  "fromBuffer bs = fp_new (int (be_val bs))"

definition at_toBuffer :: "int list \<Rightarrow> nat \<Rightarrow> byte list result" where
  "at_toBuffer xs i = bind_result (element_at xs i) (toBuffer 32)"

definition at2_toBuffer :: "int list list \<Rightarrow> nat \<Rightarrow> nat \<Rightarrow> byte list result" where
  "at2_toBuffer xss i j = bind_result (element_at xss i) (\<lambda>xs. at_toBuffer xs j)"

definition encode_inflow :: "zk_inflow \<Rightarrow> byte list result" where
  "encode_inflow i = buffer_concat [toBuffer 32 (in_root i), toBuffer 32 (in_nullifier i)]"

definition encode_data :: "public_data \<Rightarrow> byte list result" where
  "encode_data d = buffer_concat
     [toBuffer 20 (pd_to d), toBuffer 32 (pd_eth d), toBuffer 20 (pd_tokenAddr d),
      toBuffer 32 (pd_erc20Amount d), toBuffer 32 (pd_nft d), toBuffer 32 (pd_fee d)]"

definition encode_outflow :: "zk_outflow \<Rightarrow> byte list result" where
  "encode_outflow o' = buffer_concat
     [toBuffer 32 (out_note o'), toBuffer 1 (out_type o'),
      case out_data o' of Some d \<Rightarrow> encode_data d | None \<Rightarrow> Ok []]"

text \<open>The second group's points are written with reversed coordinates.\<close>

definition encode_proof :: "snark \<Rightarrow> byte list result" where
  "encode_proof p = buffer_concat
     [at_toBuffer (pi_a p) 0, at_toBuffer (pi_a p) 1,
      at2_toBuffer (pi_b p) 0 1, at2_toBuffer (pi_b p) 0 0,
      at2_toBuffer (pi_b p) 1 1, at2_toBuffer (pi_b p) 1 0,
      at_toBuffer (pi_c p) 0, at_toBuffer (pi_c p) 1]"

text \<open>\<open>Uint8Array.from([n])\<close> keeps the lowest byte.\<close>

definition uint8 :: "nat \<Rightarrow> byte list" where
  "uint8 n = [word_of_nat n]"

definition encode_swap :: "int option \<Rightarrow> byte list result" where
  "encode_swap swap = (case swap of Some s \<Rightarrow> toBuffer 32 s | None \<Rightarrow> Ok [])"

definition memo_switch :: "zk_tx \<Rightarrow> (nat \<times> byte list) result" where
  "memo_switch tx =
     (let switch = (if tx_swap tx \<noteq> None then 1 else 0) in
      case tx_memo tx of
        None \<Rightarrow> Ok (switch, [])
      | Some m \<Rightarrow>
          if memo_version m = 1 then Ok (switch + 2, memo_data m)
          else if memo_version m = 2 then
            bind_result (toBuffer 2 (fp_new (int (length (memo_data m)))))
              (\<lambda>len. Ok (switch + 4, len @ memo_data m))
          else Ok (switch, []))"

definition zkTx_encode :: "zk_tx \<Rightarrow> byte list result" where
  "zkTx_encode tx =
     (case tx_proof tx of
        None \<Rightarrow> Throw ''SNARK does not exist''
      | Some p \<Rightarrow> bind_result (memo_switch tx) (\<lambda>(switch, memo). buffer_concat
          ([Ok (uint8 (length (tx_inflow tx)))] @ map encode_inflow (tx_inflow tx) @
           [Ok (uint8 (length (tx_outflow tx)))] @ map encode_outflow (tx_outflow tx) @
           [toBuffer 32 (tx_fee tx), encode_proof p, Ok (uint8 switch), encode_swap (tx_swap tx),
            Ok memo])))"

section \<open>Size\<close>

definition zkTx_size :: "zk_tx \<Rightarrow> (nat \<times> zk_tx) result" where
  "zkTx_size tx =
     (case cache_size tx of
        Some (Suc n) \<Rightarrow> Ok (Suc n, tx)
      | _ \<Rightarrow> bind_result (zkTx_encode tx)
          (\<lambda>bs. Ok (length bs, tx\<lparr>cache_size := Some (length bs)\<rparr>)))"

section \<open>Hash\<close>

text \<open>The hash function is the parameter \<open>keccak\<close> (\<open>soliditySha3Raw\<close> of the hexadecimal string).\<close>

definition packed_inflow :: "zk_inflow \<Rightarrow> byte list result" where
  "packed_inflow i = buffer_concat [toBuffer 32 (in_root i), toBuffer 32 (in_nullifier i)]"

definition packed_outflow :: "zk_outflow \<Rightarrow> byte list result" where
  "packed_outflow o' =
     (if out_type o' = UTXO then toBuffer 32 (out_note o')
      else case out_data o' of
        None \<Rightarrow> Throw ''Withdrawal or Migration should have data''
      | Some d \<Rightarrow> buffer_concat
          [toBuffer 32 (out_note o'), toBuffer 20 (pd_to d), toBuffer 32 (pd_eth d),
           toBuffer 20 (pd_tokenAddr d), toBuffer 32 (pd_erc20Amount d), toBuffer 32 (pd_nft d),
           toBuffer 32 (pd_fee d)])"

definition packed_tx :: "zk_tx \<Rightarrow> snark \<Rightarrow> byte list result" where
  "packed_tx tx p = buffer_concat
     (map packed_inflow (tx_inflow tx) @ map packed_outflow (tx_outflow tx) @
      [case tx_swap tx of Some s \<Rightarrow> toBuffer 32 s | None \<Rightarrow> Ok (be_bytes 32 0),
       at_toBuffer (pi_a p) 0, at_toBuffer (pi_a p) 1,
       at2_toBuffer (pi_b p) 0 1, at2_toBuffer (pi_b p) 0 0,
       at2_toBuffer (pi_b p) 1 1, at2_toBuffer (pi_b p) 1 0,
       at_toBuffer (pi_c p) 0, at_toBuffer (pi_c p) 1,
       toBuffer 32 (tx_fee tx)])"

definition zkTx_hash :: "(byte list \<Rightarrow> 256 word) \<Rightarrow> zk_tx \<Rightarrow> (256 word \<times> zk_tx) result" where
  "zkTx_hash keccak tx =
     (case tx_proof tx of
        None \<Rightarrow> Throw ''SNARK is empty''
      | Some p \<Rightarrow>
          (case cache_hash tx of
             Some h \<Rightarrow> Ok (h, tx)
           | None \<Rightarrow> bind_result (packed_tx tx p)
               (\<lambda>bs. Ok (keccak bs, tx\<lparr>cache_hash := Some (keccak bs)\<rparr>))))"

section \<open>Public signals\<close>

definition data_or_zero :: "(public_data \<Rightarrow> int) \<Rightarrow> zk_outflow \<Rightarrow> int" where
  "data_or_zero f o' = (case out_data o' of Some d \<Rightarrow> f d | None \<Rightarrow> 0)"

definition zkTx_signals :: "zk_tx \<Rightarrow> int list" where
  "zkTx_signals tx =
     map in_root (tx_inflow tx) @ map in_nullifier (tx_inflow tx) @
     map out_note (tx_outflow tx) @ map out_type (tx_outflow tx) @
     map (data_or_zero pd_to) (tx_outflow tx) @ map (data_or_zero pd_eth) (tx_outflow tx) @
     map (data_or_zero pd_tokenAddr) (tx_outflow tx) @
     map (data_or_zero pd_erc20Amount) (tx_outflow tx) @
     map (data_or_zero pd_nft) (tx_outflow tx) @ map (data_or_zero pd_fee) (tx_outflow tx) @
     [tx_fee tx, case tx_swap tx of Some s \<Rightarrow> s | None \<Rightarrow> 0]"

definition circomProof :: "zk_tx \<Rightarrow> snark result" where
  "circomProof tx =
     (case tx_proof tx of
        None \<Rightarrow> Throw ''Does not have SNARK proof''
      | Some p \<Rightarrow> Ok \<lparr>pi_a = pi_a p @ [1], pi_b = pi_b p @ [[1, 0]], pi_c = pi_c p @ [1]\<rparr>)"

section \<open>Decoding\<close>

text \<open>
  The two decoders of transactions, \<open>ZkTx.decode\<close> over a queue of bytes and \<open>deserializeTxsFrom\<close>
  over a queue of hexadecimal digits, read the same fields in the same order. They are the same
  reader over three operations: a field element of so many bytes, a number, a buffer.
\<close>

type_synonym 'q fp_reader = "nat \<Rightarrow> ('q, int) reader"
type_synonym 'q num_reader = "nat \<Rightarrow> ('q, nat option) reader"
type_synonym 'q buf_reader = "nat option \<Rightarrow> ('q, byte list) reader"

definition read_inflow :: "'q fp_reader \<Rightarrow> ('q, zk_inflow) reader" where
  "read_inflow fp =
     rd_bind (fp 32) (\<lambda>root. rd_bind (fp 32) (\<lambda>nf. rd_return \<lparr>in_nullifier = nf, in_root = root\<rparr>))"

definition read_data :: "'q fp_reader \<Rightarrow> ('q, public_data) reader" where
  "read_data fp =
     rd_bind (fp 20) (\<lambda>to. rd_bind (fp 32) (\<lambda>eth. rd_bind (fp 20) (\<lambda>token.
     rd_bind (fp 32) (\<lambda>amount. rd_bind (fp 32) (\<lambda>nft. rd_bind (fp 32) (\<lambda>fee.
       rd_return \<lparr>pd_to = to, pd_eth = eth, pd_tokenAddr = token, pd_erc20Amount = amount,
         pd_nft = nft, pd_fee = fee\<rparr>))))))"

definition read_outflow :: "'q fp_reader \<Rightarrow> ('q, zk_outflow) reader" where
  "read_outflow fp =
     rd_bind (fp 32) (\<lambda>note. rd_bind (fp 1) (\<lambda>ty.
       if ty \<noteq> 0
       then rd_bind (read_data fp) (\<lambda>d. rd_return \<lparr>out_note = note, out_type = ty, out_data = Some d\<rparr>)
       else rd_return \<lparr>out_note = note, out_type = ty, out_data = None\<rparr>))"

definition read_proof :: "'q fp_reader \<Rightarrow> ('q, snark) reader" where
  "read_proof fp =
     rd_bind (fp 32) (\<lambda>a0. rd_bind (fp 32) (\<lambda>a1.
     rd_bind (fp 32) (\<lambda>b0. rd_bind (fp 32) (\<lambda>b1.
     rd_bind (fp 32) (\<lambda>b2. rd_bind (fp 32) (\<lambda>b3.
     rd_bind (fp 32) (\<lambda>c0. rd_bind (fp 32) (\<lambda>c1.
       rd_return \<lparr>pi_a = [a0, a1], pi_b = [rev [b0, b1], rev [b2, b3]], pi_c = [c0, c1]\<rparr>))))))))"

text \<open>A count that is not a number makes the loop condition false at once.\<close>

definition count_of :: "nat option \<Rightarrow> nat" where
  "count_of n = (case n of Some k \<Rightarrow> k | None \<Rightarrow> 0)"

definition read_swap :: "'q fp_reader \<Rightarrow> nat \<Rightarrow> ('q, int option) reader" where
  "read_swap fp ind =
     (if bit ind 0 then rd_bind (fp 32) (\<lambda>s. rd_return (Some s)) else rd_return None)"

definition read_memo :: "'q num_reader \<Rightarrow> 'q buf_reader \<Rightarrow> nat \<Rightarrow> ('q, memo option) reader" where
  "read_memo num buf ind =
     (if bit ind 1 then
        rd_bind (buf (Some 81)) (\<lambda>bs. rd_return (Some \<lparr>memo_version = 1, memo_data = bs\<rparr>))
      else if bit ind 2 then
        rd_bind (num 2) (\<lambda>len. rd_bind (buf len) (\<lambda>bs.
          rd_return (Some \<lparr>memo_version = 2, memo_data = bs\<rparr>)))
      else rd_return None)"

definition read_tx :: "'q fp_reader \<Rightarrow> 'q num_reader \<Rightarrow> 'q buf_reader \<Rightarrow> ('q, zk_tx) reader" where
  "read_tx fp num buf =
     rd_bind (num 1) (\<lambda>nIn. rd_bind (rd_times (count_of nIn) (read_inflow fp)) (\<lambda>inflow.
     rd_bind (num 1) (\<lambda>nOut. rd_bind (rd_times (count_of nOut) (read_outflow fp)) (\<lambda>outflow.
     rd_bind (fp 32) (\<lambda>fee. rd_bind (read_proof fp) (\<lambda>proof.
     rd_bind (num 1) (\<lambda>ind. rd_bind (read_swap fp (count_of ind)) (\<lambda>swap.
     rd_bind (read_memo num buf (count_of ind)) (\<lambda>memo.
       rd_return (new_ZkTx inflow outflow fee (Some proof) swap memo))))))))))"

text \<open>The operations on the queue of bytes.\<close>

definition queue_fp :: "byte_queue fp_reader" where
  "queue_fp n = rd_bind (queue_dequeue n) (\<lambda>bs. rd_return (fromBuffer bs))"

definition queue_num :: "byte_queue num_reader" where
  "queue_num n =
     rd_bind (queue_dequeue n) (\<lambda>bs. rd_return (if bs = [] then None else Some (be_val bs)))"

text \<open>After a length that is not a number nothing more is read from this queue.\<close>

definition queue_buf :: "byte_queue buf_reader" where
  "queue_buf n = (case n of Some k \<Rightarrow> queue_dequeue k | None \<Rightarrow> rd_return [])"

definition zkTx_decode :: "byte list \<Rightarrow> zk_tx result" where
  "zkTx_decode buff =
     bind_result (read_tx queue_fp queue_num queue_buf (new_Queue buff))
       (\<lambda>(tx, q). Ok (tx\<lparr>cache_size := Some (length buff)\<rparr>))"

section \<open>Memos\<close>

record prepay_info =
  prepayFeeInEth :: int
  prepayFeeInToken :: int
  expiration :: "nat option"
  prepay_signature :: "byte list"

text \<open>\<open>Array(n / 81)\<close> throws for a length that is not a natural number.\<close>

definition chunks_81 :: "byte list \<Rightarrow> byte list list result" where
  "chunks_81 bs =
     (if length bs mod 81 \<noteq> 0 then Throw ''Invalid array length''
      else Ok (map (\<lambda>i. take 81 (drop (i * 81) bs)) [0..<length bs div 81]))"

definition hex_fp :: "hex_queue fp_reader" where
  "hex_fp n = rd_bind (hex_dequeue (Some n)) (\<lambda>ds. rd_return (fp_new (int (hex_val ds))))"

text \<open>The padding to skip, \<open>81 - (sigLength % 81)\<close>.\<close>

definition padding_81 :: "nat \<Rightarrow> nat" where
  "padding_81 n = 81 - n mod 81"

definition read_prepay :: "(hex_queue, prepay_info) reader" where
  "read_prepay =
     rd_bind (hex_dequeue (Some 4)) (\<lambda>_.
     rd_bind (hex_fp 32) (\<lambda>eth. rd_bind (hex_fp 32) (\<lambda>token.
     rd_bind (hex_dequeueToNumber 8) (\<lambda>expires. rd_bind (hex_dequeueToNumber 9) (\<lambda>sigLength.
     rd_bind (hex_dequeueToBuffer sigLength) (\<lambda>signature.
     rd_bind (hex_dequeue (map_option padding_81 sigLength)) (\<lambda>_.
       rd_return \<lparr>prepayFeeInEth = eth, prepayFeeInToken = token, expiration = expires,
         prepay_signature = signature\<rparr>)))))))"

text \<open>
  The selectors \<open>V2_MEMO_DEFAULT_ABI\<close> and \<open>V2_MEMO_WITHDRAW_SIG_ABI\<close> are computed by the ABI
  package, and the four bytes are checked by \<open>soltypes\<close>: both are parameters.
\<close>

definition V2_MEMO_DEFAULT_ABI_ZERO :: nat where "V2_MEMO_DEFAULT_ABI_ZERO = 0"
definition V2_MEMO_WITHDRAW_SIG_ABI_ZERO :: nat where "V2_MEMO_WITHDRAW_SIG_ABI_ZERO = 1"

definition parse_memo_v2 ::
  "soltypes \<Rightarrow> nat \<Rightarrow> nat \<Rightarrow> byte list \<Rightarrow> (byte list list \<times> prepay_info option) result" where
  "parse_memo_v2 sol default_abi withdraw_abi d =
     bind_result (sol 4 (digits_of (take 4 d))) (\<lambda>memoSig.
       if memoSig = default_abi \<or> memoSig = V2_MEMO_DEFAULT_ABI_ZERO then
         (if length d < 4 then Throw ''Invalid array length''
          else bind_result (chunks_81 (drop 4 d)) (\<lambda>notes. Ok (notes, None)))
       else if memoSig = withdraw_abi \<or> memoSig = V2_MEMO_WITHDRAW_SIG_ABI_ZERO then
         bind_result (read_prepay (new_StringifiedHexQueue (digits_of d))) (\<lambda>(info, q).
         bind_result (chunks_81 (hex_dequeueAllToBuffer q)) (\<lambda>notes. Ok (notes, Some info)))
       else Throw ''Unrecognized v2 memo signature'')"

definition parseMemo ::
  "soltypes \<Rightarrow> nat \<Rightarrow> nat \<Rightarrow> zk_tx \<Rightarrow> (byte list list \<times> prepay_info option) result" where
  "parseMemo sol default_abi withdraw_abi tx =
     (case tx_memo tx of
        None \<Rightarrow> Ok ([], None)
      | Some m \<Rightarrow>
          if memo_version m = 1 then Ok ([memo_data m], None)
          else if memo_version m \<noteq> 2 then Throw ''Unrecognized memo version''
          else parse_memo_v2 sol default_abi withdraw_abi (memo_data m))"

end
