(* ===== verification/Zk_Tx_Proofs.thy ===== *)
theory Zk_Tx_Proofs
  imports Zk_Tx
begin

text \<open>
  The reader of transactions inverts the encoders of their parts, over any queue whose three operations
  read the bytes they are asked for. The two queues of the code are instances.
\<close>

section \<open>Encoded numbers\<close>

lemma toBuffer_Ok: "toBuffer len x = Ok bs \<longleftrightarrow> nat x < 256 ^ len \<and> bs = be_bytes len (nat x)"
  by (auto simp: toBuffer_def)

lemma toBuffer_length: "toBuffer len x = Ok bs \<Longrightarrow> length bs = len"
  by (simp add: toBuffer_Ok)

lemma fp_valid_below: "fp_valid x \<Longrightarrow> nat x < 256 ^ 32"
  by (simp add: ff_valid_def FP_ORDER_def nat_less_iff)

lemma fp_valid_toBuffer: "fp_valid x \<Longrightarrow> toBuffer 32 x = Ok (be_bytes 32 (nat x))"
  using fp_valid_below unfolding toBuffer_def by simp

lemma fromBuffer_toBuffer: "toBuffer len x = Ok bs \<Longrightarrow> fp_valid x \<Longrightarrow> fromBuffer bs = x"
  by (auto simp: toBuffer_Ok fromBuffer_def be_val_be_bytes ff_valid_def fp_new_def ff_new_nonneg)

lemma uint8_byte: "n < 256 \<Longrightarrow> uint8 n = be_bytes 1 n"
  by (simp add: uint8_def)

section \<open>Well-formed transactions\<close>

fun data_ok :: "public_data \<Rightarrow> bool" where
  "data_ok d \<longleftrightarrow> fp_valid (pd_to d) \<and> fp_valid (pd_eth d) \<and> fp_valid (pd_tokenAddr d) \<and>
     fp_valid (pd_erc20Amount d) \<and> fp_valid (pd_nft d) \<and> fp_valid (pd_fee d) \<and>
     pd_to d < 2 ^ 160 \<and> pd_tokenAddr d < 2 ^ 160"

definition inflow_ok :: "zk_inflow \<Rightarrow> bool" where
  "inflow_ok i \<longleftrightarrow> fp_valid (in_root i) \<and> fp_valid (in_nullifier i)"

definition outflow_ok :: "zk_outflow \<Rightarrow> bool" where
  "outflow_ok o' \<longleftrightarrow> fp_valid (out_note o') \<and> 0 \<le> out_type o' \<and> out_type o' < 256 \<and>
     (case out_data o' of None \<Rightarrow> out_type o' = 0 | Some d \<Rightarrow> out_type o' \<noteq> 0 \<and> data_ok d)"

definition proof_ok :: "snark \<Rightarrow> bool" where
  "proof_ok p \<longleftrightarrow> length (pi_a p) = 2 \<and> length (pi_b p) = 2 \<and> length (pi_c p) = 2 \<and>
     list_all fp_valid (pi_a p) \<and> list_all fp_valid (pi_c p) \<and>
     list_all (\<lambda>xs. length xs = 2 \<and> list_all fp_valid xs) (pi_b p)"

definition memo_ok :: "memo option \<Rightarrow> bool" where
  "memo_ok m \<longleftrightarrow> (case m of None \<Rightarrow> True
     | Some m \<Rightarrow> (memo_version m = 1 \<and> length (memo_data m) = 81) \<or>
                  (memo_version m = 2 \<and> length (memo_data m) < 65536))"

definition option_ok :: "('a \<Rightarrow> bool) \<Rightarrow> 'a option \<Rightarrow> bool" where
  "option_ok P x = (case x of None \<Rightarrow> True | Some y \<Rightarrow> P y)"

text \<open>
  A proven transaction with counts that fit a byte, elements in the field, addresses of 160 bits, public
  data for exactly the outflows that leave the layer, and a memo of a known version.
\<close>

definition tx_ok :: "zk_tx \<Rightarrow> bool" where
  "tx_ok tx \<longleftrightarrow> length (tx_inflow tx) < 256 \<and> length (tx_outflow tx) < 256 \<and>
     list_all inflow_ok (tx_inflow tx) \<and> list_all outflow_ok (tx_outflow tx) \<and>
     fp_valid (tx_fee tx) \<and> (case tx_proof tx of None \<Rightarrow> False | Some p \<Rightarrow> proof_ok p) \<and>
     option_ok fp_valid (tx_swap tx) \<and> memo_ok (tx_memo tx)"

text \<open>The bytes of well-formed parts.\<close>

abbreviation fp_bytes :: "int \<Rightarrow> byte list" where "fp_bytes x \<equiv> be_bytes 32 (nat x)"

definition data_bytes :: "public_data \<Rightarrow> byte list" where
  "data_bytes d = be_bytes 20 (nat (pd_to d)) @ fp_bytes (pd_eth d) @
     be_bytes 20 (nat (pd_tokenAddr d)) @ fp_bytes (pd_erc20Amount d) @ fp_bytes (pd_nft d) @
     fp_bytes (pd_fee d)"

definition inflow_bytes :: "zk_inflow \<Rightarrow> byte list" where
  "inflow_bytes i = fp_bytes (in_root i) @ fp_bytes (in_nullifier i)"

definition outflow_bytes :: "zk_outflow \<Rightarrow> byte list" where
  "outflow_bytes o' = fp_bytes (out_note o') @ be_bytes 1 (nat (out_type o')) @
     (case out_data o' of None \<Rightarrow> [] | Some d \<Rightarrow> data_bytes d)"

definition proof_bytes :: "snark \<Rightarrow> byte list" where
  "proof_bytes p = fp_bytes (pi_a p ! 0) @ fp_bytes (pi_a p ! 1) @
     fp_bytes (pi_b p ! 0 ! 1) @ fp_bytes (pi_b p ! 0 ! 0) @
     fp_bytes (pi_b p ! 1 ! 1) @ fp_bytes (pi_b p ! 1 ! 0) @
     fp_bytes (pi_c p ! 0) @ fp_bytes (pi_c p ! 1)"

definition swap_bytes :: "int option \<Rightarrow> byte list" where
  "swap_bytes s = (case s of None \<Rightarrow> [] | Some x \<Rightarrow> fp_bytes x)"

definition memo_bytes :: "memo option \<Rightarrow> byte list" where
  "memo_bytes m = (case m of None \<Rightarrow> []
     | Some m \<Rightarrow> (if memo_version m = 1 then memo_data m
                  else be_bytes 2 (length (memo_data m)) @ memo_data m))"

definition indicator_of :: "int option \<Rightarrow> memo option \<Rightarrow> nat" where
  "indicator_of s m = (if s \<noteq> None then 1 else 0) +
     (case m of None \<Rightarrow> 0 | Some m \<Rightarrow> if memo_version m = 1 then 2 else 4)"

definition tx_bytes :: "zk_tx \<Rightarrow> byte list" where
  "tx_bytes tx = be_bytes 1 (length (tx_inflow tx)) @ concat (map inflow_bytes (tx_inflow tx)) @
     be_bytes 1 (length (tx_outflow tx)) @ concat (map outflow_bytes (tx_outflow tx)) @
     fp_bytes (tx_fee tx) @ proof_bytes (the (tx_proof tx)) @
     be_bytes 1 (indicator_of (tx_swap tx) (tx_memo tx)) @ swap_bytes (tx_swap tx) @
     memo_bytes (tx_memo tx)"

lemma indicator_bits:
  "bit (indicator_of s m) 0 = (s \<noteq> None)"
  "bit (indicator_of s m) 1 = (\<exists>m'. m = Some m' \<and> memo_version m' = 1)"
  "bit (indicator_of s m) 2 = (\<exists>m'. m = Some m' \<and> memo_version m' \<noteq> 1)"
  by (auto simp: indicator_of_def bit_iff_odd split: option.splits)

lemmas indicator_bits' = indicator_bits indicator_bits(2) [unfolded One_nat_def]

lemma indicator_less: "indicator_of s m < 256"
  by (simp add: indicator_of_def split: option.splits)

section \<open>Encoders on well-formed parts\<close>

lemma encode_inflow_ok: "inflow_ok i \<Longrightarrow> encode_inflow i = Ok (inflow_bytes i)"
  by (simp add: inflow_ok_def encode_inflow_def inflow_bytes_def fp_valid_toBuffer)

lemma address_toBuffer: "0 \<le> x \<Longrightarrow> x < 2 ^ 160 \<Longrightarrow> toBuffer 20 x = Ok (be_bytes 20 (nat x))"
  unfolding toBuffer_def by (simp add: nat_less_iff)

lemma encode_data_ok: "data_ok d \<Longrightarrow> encode_data d = Ok (data_bytes d)"
  by (simp add: encode_data_def data_bytes_def fp_valid_toBuffer address_toBuffer ff_valid_def)

lemma type_toBuffer: "0 \<le> x \<Longrightarrow> x < 256 \<Longrightarrow> toBuffer 1 x = Ok (be_bytes 1 (nat x))"
  by (simp add: toBuffer_def nat_less_iff)

lemma encode_outflow_ok: "outflow_ok o' \<Longrightarrow> encode_outflow o' = Ok (outflow_bytes o')"
  unfolding outflow_ok_def encode_outflow_def outflow_bytes_def
  by (auto simp: fp_valid_toBuffer type_toBuffer encode_data_ok simp del: data_ok.simps
      be_bytes_1 be_bytes.simps One_nat_def split: option.splits)

lemma element_at_nth: "i < length xs \<Longrightarrow> element_at xs i = Ok (xs ! i)"
  by (simp add: element_at_def)

lemma proof_ok_valid:
  assumes "proof_ok p"
  shows "i < 2 \<Longrightarrow> at_toBuffer (pi_a p) i = Ok (fp_bytes (pi_a p ! i))"
    and "i < 2 \<Longrightarrow> at_toBuffer (pi_c p) i = Ok (fp_bytes (pi_c p ! i))"
    and "i < 2 \<Longrightarrow> j < 2 \<Longrightarrow> at2_toBuffer (pi_b p) i j = Ok (fp_bytes (pi_b p ! i ! j))"
  using assms
  by (auto simp: proof_ok_def at_toBuffer_def at2_toBuffer_def element_at_nth list_all_length
      fp_valid_toBuffer)

lemma encode_proof_ok: "proof_ok p \<Longrightarrow> encode_proof p = Ok (proof_bytes p)"
  by (simp add: encode_proof_def proof_bytes_def proof_ok_valid)

lemma encode_swap_ok: "option_ok fp_valid s \<Longrightarrow> encode_swap s = Ok (swap_bytes s)"
  by (auto simp: option_ok_def encode_swap_def swap_bytes_def fp_valid_toBuffer split: option.splits)

lemma memo_switch_ok:
  assumes "memo_ok (tx_memo tx)"
  shows "memo_switch tx = Ok (indicator_of (tx_swap tx) (tx_memo tx), memo_bytes (tx_memo tx))"
proof -
  have "toBuffer 2 (fp_new (int n)) = Ok (be_bytes 2 n)" if "n < 65536" for n
  proof -
    have "fp_new (int n) = int n" using that by (intro fp_new_id) (simp add: ff_valid_def FP_ORDER_def)
    then show ?thesis using that by (simp add: toBuffer_def)
  qed
  then show ?thesis
    using assms
    by (auto simp: memo_switch_def memo_ok_def indicator_of_def memo_bytes_def Let_def
        simp del: be_bytes.simps split: option.splits)
qed

lemma zkTx_encode_ok:
  assumes "tx_ok tx"
  shows "zkTx_encode tx = Ok (tx_bytes tx)"
proof -
  from assms obtain p where p: "tx_proof tx = Some p" "proof_ok p"
    by (auto simp: tx_ok_def split: option.splits)
  have "list_all (\<lambda>i. encode_inflow i = Ok (inflow_bytes i)) (tx_inflow tx)"
    "list_all (\<lambda>i. encode_outflow i = Ok (outflow_bytes i)) (tx_outflow tx)"
    using assms by (auto simp: tx_ok_def encode_inflow_ok encode_outflow_ok elim: list.pred_mono_strong)
  note parts = this [THEN buffer_concat_map_Ok] encode_proof_ok [OF p(2)]
  have "memo_ok (tx_memo tx)" "option_ok fp_valid (tx_swap tx)" "fp_valid (tx_fee tx)"
    "length (tx_inflow tx) < 256" "length (tx_outflow tx) < 256"
    using assms by (simp_all add: tx_ok_def)
  then show ?thesis
    using p by (simp add: zkTx_encode_def memo_switch_ok buffer_concat_append parts encode_swap_ok
        fp_valid_toBuffer uint8_byte indicator_less tx_bytes_def del: be_bytes.simps be_bytes_1 One_nat_def)
qed

section \<open>The reader\<close>

locale tx_reader =
  fixes holds :: "'q \<Rightarrow> byte list \<Rightarrow> bool" and fp :: "'q fp_reader"
    and num :: "'q num_reader" and buf :: "'q buf_reader"
  assumes fp_reads: "length bs = n \<Longrightarrow> reads holds (fp n) bs (fromBuffer bs)"
    and num_reads: "length bs = n \<Longrightarrow> 0 < n \<Longrightarrow> n \<le> 2 \<Longrightarrow> reads holds (num n) bs (Some (be_val bs))"
    and buf_reads: "length bs = n \<Longrightarrow> reads holds (buf (Some n)) bs bs"
begin

lemma element_reads: "nat x < 256 ^ n \<Longrightarrow> fp_valid x \<Longrightarrow> reads holds (fp n) (be_bytes n (nat x)) x"
  using fp_reads [of "be_bytes n (nat x)" n] fromBuffer_toBuffer [of n x "be_bytes n (nat x)"]
  by (simp add: toBuffer_def)

lemma fp32_reads: "fp_valid x \<Longrightarrow> reads holds (fp 32) (fp_bytes x) x"
  by (rule element_reads [OF fp_valid_below])

lemma fp20_reads: "fp_valid x \<Longrightarrow> x < 2 ^ 160 \<Longrightarrow> reads holds (fp 20) (be_bytes 20 (nat x)) x"
  by (rule element_reads) (simp_all add: ff_valid_def nat_less_iff)

lemma num1_reads: "n < 256 \<Longrightarrow> reads holds (num 1) (be_bytes 1 n) (Some n)"
  using num_reads [of "be_bytes 1 n" 1] by (simp add: be_val_be_bytes del: be_bytes.simps be_bytes_1 One_nat_def)

lemma num2_reads: "n < 65536 \<Longrightarrow> reads holds (num 2) (be_bytes 2 n) (Some n)"
  using num_reads [of "be_bytes 2 n" 2] by (simp add: be_val_be_bytes del: be_bytes.simps)

lemma read_inflow_reads: "inflow_ok i \<Longrightarrow> reads holds (read_inflow fp) (inflow_bytes i) i"
  unfolding inflow_bytes_def read_inflow_def inflow_ok_def
  by (rule reads_bind [OF fp32_reads] reads_bind_return [OF fp32_reads] | simp)+

lemma read_data_reads: "data_ok d \<Longrightarrow> reads holds (read_data fp) (data_bytes d) d"
  unfolding data_bytes_def read_data_def data_ok.simps
  by (rule reads_bind [OF fp20_reads] reads_bind [OF fp32_reads] reads_bind_return [OF fp32_reads] | simp)+

lemma read_outflow_reads:
  assumes "outflow_ok o'"
  shows "reads holds (read_outflow fp) (outflow_bytes o') o'"
proof -
  have nv: "fp_valid (out_note o')" and ty: "0 \<le> out_type o'" "out_type o' < 256"
    using assms by (simp_all add: outflow_ok_def)
  have "fp_valid (out_type o')" "nat (out_type o') < 256 ^ 1"
    using ty by (simp_all add: ff_valid_def FP_ORDER_def nat_less_iff)
  note type_reads = element_reads [OF this(2,1)]
  show ?thesis
  proof (cases "out_data o'")
    case None
    then have "out_type o' = 0" using assms by (simp add: outflow_ok_def)
    moreover from this None have "o' = \<lparr>out_note = out_note o', out_type = 0, out_data = None\<rparr>"
      by simp
    with reads_return have "reads holds (rd_return
        \<lparr>out_note = out_note o', out_type = 0, out_data = None\<rparr>) [] o'" by metis
    ultimately show ?thesis
      using None unfolding outflow_bytes_def read_outflow_def
      by (intro reads_bind [OF fp32_reads [OF nv]])
        (rule reads_bind [OF type_reads], simp)
  next
    case (Some d)
    then have d: "out_type o' \<noteq> 0" "data_ok d" using assms by (simp_all add: outflow_ok_def)
    have "reads holds (rd_bind (read_data fp) (\<lambda>d. rd_return
        \<lparr>out_note = out_note o', out_type = out_type o', out_data = Some d\<rparr>)) (data_bytes d) o'"
      by (rule reads_bind_return [OF read_data_reads [OF d(2)]]) (simp add: Some)
    with Some d(1) show ?thesis
      unfolding outflow_bytes_def read_outflow_def
      by (intro reads_bind [OF fp32_reads [OF nv]])
        (rule reads_bind [OF type_reads], simp)
  qed
qed

lemma read_proof_reads:
  assumes "proof_ok p"
  shows "reads holds (read_proof fp) (proof_bytes p) p"
proof -
  obtain a0 a1 b0 b1 b2 b3 c0 c1
    where p: "p = \<lparr>pi_a = [a0, a1], pi_b = [[b0, b1], [b2, b3]], pi_c = [c0, c1]\<rparr>"
    using assms by (cases p) (auto simp: proof_ok_def numeral_2_eq_2 length_Suc_conv)
  have valid: "fp_valid a0" "fp_valid a1" "fp_valid b0" "fp_valid b1" "fp_valid b2" "fp_valid b3"
    "fp_valid c0" "fp_valid c1"
    using assms by (simp_all add: p proof_ok_def)
  have bytes: "proof_bytes p = fp_bytes a0 @ fp_bytes a1 @ fp_bytes b1 @ fp_bytes b0 @
      fp_bytes b3 @ fp_bytes b2 @ fp_bytes c0 @ fp_bytes c1"
    by (simp add: proof_bytes_def p)
  show ?thesis
    unfolding bytes read_proof_def
    by (rule valid reads_bind [OF fp32_reads] reads_bind_return [OF fp32_reads] | simp add: p)+
qed

lemma read_swap_reads:
  assumes "option_ok fp_valid s"
  shows "reads holds (read_swap fp (indicator_of s m)) (swap_bytes s) s"
proof (cases s)
  case None
  then show ?thesis by (simp add: read_swap_def indicator_bits' swap_bytes_def reads_return)
next
  case (Some x)
  then have "fp_valid x" using assms by (simp add: option_ok_def)
  then have "reads holds (rd_bind (fp 32) (\<lambda>s. rd_return (Some s))) (fp_bytes x) (Some x)"
    by (rule reads_bind_return [OF fp32_reads]) simp
  then show ?thesis using Some by (simp add: read_swap_def indicator_bits' swap_bytes_def)
qed

lemma read_memo_reads:
  assumes "memo_ok m"
  shows "reads holds (read_memo num buf (indicator_of s m)) (memo_bytes m) m"
proof (cases m)
  case None
  then show ?thesis by (simp add: read_memo_def indicator_bits' memo_bytes_def reads_return)
next
  case (Some m')
  let ?d = "memo_data m'"
  from assms Some consider "memo_version m' = 1" "length ?d = 81"
    | "memo_version m' = 2" "length ?d < 65536" by (auto simp: memo_ok_def)
  then show ?thesis
  proof cases
    case 1
    have "reads holds (rd_bind (buf (Some 81)) (\<lambda>bs. rd_return (Some \<lparr>memo_version = 1, memo_data = bs\<rparr>)))
        ?d (Some m')"
      by (rule reads_bind_return [OF buf_reads [OF 1(2)]]) (use 1 in \<open>simp add: memo.equality\<close>)
    with 1 Some show ?thesis by (simp add: read_memo_def indicator_bits' memo_bytes_def)
  next
    case 2
    have buf: "reads holds (rd_bind (buf (Some (length ?d)))
        (\<lambda>bs. rd_return (Some \<lparr>memo_version = 2, memo_data = bs\<rparr>))) ?d (Some m')"
      by (rule reads_bind_return [OF buf_reads [OF refl]]) (use 2 in \<open>simp add: memo.equality\<close>)
    have "reads holds (rd_bind (num 2) (\<lambda>len. rd_bind (buf len)
        (\<lambda>bs. rd_return (Some \<lparr>memo_version = 2, memo_data = bs\<rparr>))))
        (be_bytes 2 (length ?d) @ ?d) (Some m')"
      by (rule reads_bind [OF num2_reads [OF 2(2)]], rule buf)
    with 2(1) Some show ?thesis
      by (simp add: read_memo_def indicator_bits' memo_bytes_def del: be_bytes.simps)
  qed
qed

lemma reads_list:
  assumes "list_all P xs" and "\<And>x. P x \<Longrightarrow> reads holds rd (f x) x"
  shows "reads holds (rd_times (length xs) rd) (concat (map f xs)) xs"
  by (rule reads_times) (use assms in \<open>auto simp: list_all2_conv_all_nth list_all_length\<close>)

theorem read_tx_reads:
  assumes "tx_ok tx"
  shows "reads holds (read_tx fp num buf) (tx_bytes tx) (tx\<lparr>cache_hash := None, cache_size := None\<rparr>)"
proof -
  obtain p where p: "tx_proof tx = Some p" "proof_ok p"
    using assms by (auto simp: tx_ok_def split: option.splits)
  have tx: "length (tx_inflow tx) < 256" "length (tx_outflow tx) < 256"
    "list_all inflow_ok (tx_inflow tx)" "list_all outflow_ok (tx_outflow tx)"
    "fp_valid (tx_fee tx)" "option_ok fp_valid (tx_swap tx)" "memo_ok (tx_memo tx)"
    using assms by (simp_all add: tx_ok_def)
  let ?ind = "indicator_of (tx_swap tx) (tx_memo tx)"
  have "reads holds (rd_times (count_of (Some (length (tx_inflow tx)))) (read_inflow fp))
      (concat (map inflow_bytes (tx_inflow tx))) (tx_inflow tx)"
    unfolding count_of_def option.case by (rule reads_list [OF tx(3) read_inflow_reads])
  moreover have "reads holds (rd_times (count_of (Some (length (tx_outflow tx)))) (read_outflow fp))
      (concat (map outflow_bytes (tx_outflow tx))) (tx_outflow tx)"
    unfolding count_of_def option.case by (rule reads_list [OF tx(4) read_outflow_reads])
  moreover have "reads holds (read_swap fp (count_of (Some ?ind))) (swap_bytes (tx_swap tx)) (tx_swap tx)"
    unfolding count_of_def option.case by (rule read_swap_reads [OF tx(6)])
  moreover have "reads holds (read_memo num buf (count_of (Some ?ind))) (memo_bytes (tx_memo tx)) (tx_memo tx)"
    unfolding count_of_def option.case by (rule read_memo_reads [OF tx(7)])
  moreover have "tx\<lparr>cache_hash := None, cache_size := None\<rparr> =
      new_ZkTx (tx_inflow tx) (tx_outflow tx) (tx_fee tx) (Some p) (tx_swap tx) (tx_memo tx)"
    by (cases tx) (use p in \<open>simp add: new_ZkTx_def\<close>)
  ultimately show ?thesis
    unfolding tx_bytes_def read_tx_def p option.sel
    by (intro reads_bind [OF num1_reads] reads_bind [OF fp32_reads] reads_bind [OF read_proof_reads]
        reads_bind reads_bind_return tx p indicator_less)
qed

end

interpretation byte_reader: tx_reader queue_holds queue_fp queue_num queue_buf
proof unfold_locales
  fix bs :: "byte list" and n assume n: "length bs = n"
  show "reads queue_holds (queue_fp n) bs (fromBuffer bs)"
    unfolding queue_fp_def by (rule reads_bind_return [OF queue_dequeue_reads [OF n] refl])
  show "reads queue_holds (queue_buf (Some n)) bs bs"
    unfolding queue_buf_def option.case by (rule queue_dequeue_reads [OF n])
  assume "0 < n" "n \<le> 2"
  with n show "reads queue_holds (queue_num n) bs (Some (be_val bs))"
    unfolding queue_num_def by (intro reads_bind_return [OF queue_dequeue_reads [OF n]]) auto
qed

interpretation hex_reader: tx_reader hex_holds hex_fp hex_dequeueToNumber hex_dequeueToBuffer
proof unfold_locales
  fix bs :: "byte list" and n assume n: "length bs = n"
  show "reads hex_holds (hex_fp n) bs (fromBuffer bs)"
    unfolding hex_fp_def
    by (rule reads_bind_return [OF hex_dequeue_reads [OF n]]) (simp add: fromBuffer_def hex_val_digits_of)
  show "reads hex_holds (hex_dequeueToBuffer (Some n)) bs bs"
    by (rule hex_dequeueToBuffer_reads [OF n])
  assume "0 < n" "n \<le> 2"
  then have "(256::nat) ^ length bs \<le> 256 ^ 2" using n by (intro power_increasing) auto
  with be_val_bound [of bs] have "be_val bs < 2 ^ 53" by simp
  with n \<open>0 < n\<close> show "reads hex_holds (hex_dequeueToNumber n) bs (Some (be_val bs))"
    by (intro hex_dequeueToNumber_reads) auto
qed

end
