(* ===== verification/Zk_Memo.thy ===== *)
theory Zk_Memo
  imports Zk_Tx_Proofs
begin

text \<open>
  The memos that \<open>buildZkTx\<close> of \<open>packages/zk-wizard/src/zk-wizard.ts\<close> writes, read back by
  \<open>ZkTx.parseMemo\<close>. The encrypted notes are given; verifying the prepay signature is left to the
  packages that do it.
\<close>

section \<open>Writing\<close>

definition build_memo_v2 :: "byte list list \<Rightarrow> memo" where
  "build_memo_v2 encrypted =
     \<lparr>memo_version = 2, memo_data = be_bytes 4 V2_MEMO_DEFAULT_ABI_ZERO @ concat encrypted\<rparr>"

definition prepay_data :: "int \<Rightarrow> int \<Rightarrow> nat \<Rightarrow> byte list \<Rightarrow> byte list result" where
  "prepay_data feeInEth feeInToken expires signature = buffer_concat
     [toBuffer 32 (fp_new feeInEth), toBuffer 32 (fp_new feeInToken),
      toBuffer 8 (fp_new (int expires)), toBuffer 9 (fp_new (int (length signature))),
      Ok signature, Ok (replicate (padding_81 (length signature)) 0)]"

definition build_memo_prepay ::
  "int \<Rightarrow> int \<Rightarrow> nat \<Rightarrow> byte list \<Rightarrow> byte list list \<Rightarrow> memo result" where
  "build_memo_prepay feeInEth feeInToken expires signature encrypted =
     bind_result (prepay_data feeInEth feeInToken expires signature) (\<lambda>prepay.
       Ok \<lparr>memo_version = 2,
           memo_data = be_bytes 4 V2_MEMO_WITHDRAW_SIG_ABI_ZERO @ prepay @ concat encrypted\<rparr>)"

section \<open>Chunks\<close>

lemma length_concat_81: "list_all (\<lambda>n. length n = 81) encrypted \<Longrightarrow> length (concat encrypted) = 81 * length encrypted"
  by (induction encrypted) simp_all

lemma drop_concat_81:
  "list_all (\<lambda>n. length n = 81) encrypted \<Longrightarrow> drop (i * 81) (concat encrypted) = concat (drop i encrypted)"
proof (induction i arbitrary: encrypted)
  case (Suc i)
  then show ?case
  proof (cases encrypted)
    case (Cons n ns)
    with Suc.prems have "length n = 81" "list_all (\<lambda>n. length n = 81) ns" by simp_all
    then show ?thesis using Suc.IH [of ns] Cons by simp
  qed simp
qed simp

lemma chunks_81_concat:
  assumes "list_all (\<lambda>n. length n = 81) encrypted"
  shows "chunks_81 (concat encrypted) = Ok encrypted"
proof -
  have "map (\<lambda>i. take 81 (drop (i * 81) (concat encrypted))) [0..<length encrypted] = encrypted"
  proof (rule nth_equalityI)
    fix i assume "i < length (map (\<lambda>i. take 81 (drop (i * 81) (concat encrypted))) [0..<length encrypted])"
    then have i: "i < length encrypted" by simp
    then have "drop i encrypted = encrypted ! i # drop (Suc i) encrypted" by (rule Cons_nth_drop_Suc [symmetric])
    moreover have "length (encrypted ! i) = 81" using assms i by (simp add: list_all_length)
    ultimately show "map (\<lambda>i. take 81 (drop (i * 81) (concat encrypted))) [0..<length encrypted] ! i = encrypted ! i"
      using i by (simp add: drop_concat_81 [OF assms])
  qed simp
  then show ?thesis by (simp add: chunks_81_def length_concat_81 [OF assms])
qed

section \<open>Reading back\<close>

lemma fp_new_small: "n < 2 ^ 200 \<Longrightarrow> fp_new (int n) = int n"
  by (intro fp_new_id) (simp add: ff_valid_def FP_ORDER_def)

lemma small_toBuffer: "n < 256 ^ k \<Longrightarrow> n < 2 ^ 200 \<Longrightarrow> toBuffer k (fp_new (int n)) = Ok (be_bytes k n)"
  by (simp add: toBuffer_def fp_new_small)

lemma number_reads:
  assumes "n < 256 ^ k" and "n < 2 ^ 53" and "0 < k"
  shows "reads hex_holds (hex_dequeueToNumber k) (be_bytes k n) (Some n)"
proof -
  have "be_bytes k n \<noteq> []" using assms(3) by (cases k) simp_all
  from hex_dequeueToNumber_reads [OF length_be_bytes this] show ?thesis
    using assms by (simp add: be_val_be_bytes)
qed

definition prepay_bytes :: "int \<Rightarrow> int \<Rightarrow> nat \<Rightarrow> byte list \<Rightarrow> byte list" where
  "prepay_bytes eth token expires signature = fp_bytes eth @ fp_bytes token @ be_bytes 8 expires @
     be_bytes 9 (length signature) @ signature @ replicate (padding_81 (length signature)) 0"

lemma prepay_data_ok:
  assumes "fp_valid eth" and "fp_valid token" and "expires < 2 ^ 53" and "length signature < 2 ^ 53"
  shows "prepay_data eth token expires signature = Ok (prepay_bytes eth token expires signature)"
  using assms by (simp add: prepay_data_def prepay_bytes_def fp_valid_toBuffer small_toBuffer
      del: be_bytes.simps)

lemma read_prepay_reads:
  assumes "fp_valid eth" and "fp_valid token" and "expires < 2 ^ 53" and "length signature < 2 ^ 53"
  shows "reads hex_holds read_prepay (be_bytes 4 n @ prepay_bytes eth token expires signature)
    \<lparr>prepayFeeInEth = eth, prepayFeeInToken = token, expiration = Some expires,
     prepay_signature = signature\<rparr>"
proof -
  have "reads hex_holds (hex_dequeue (map_option padding_81 (Some (length signature))))
      (replicate (padding_81 (length signature)) 0)
      (digits_of (replicate (padding_81 (length signature)) 0))"
    by (simp add: hex_dequeue_reads)
  note pad = reads_bind_return [OF this]
  show ?thesis
    unfolding read_prepay_def prepay_bytes_def
    by (rule reads_bind [OF hex_dequeue_reads] reads_bind [OF hex_reader.fp32_reads]
        reads_bind [OF number_reads] reads_bind [OF hex_dequeueToBuffer_reads] pad assms refl
        length_be_bytes | (use assms in simp; fail))+
qed

lemma parse_memo_v2_default:
  assumes "soltypes_documented sol" and "list_all (\<lambda>n. length n = 81) encrypted"
  shows "parse_memo_v2 sol default_abi withdraw_abi (memo_data (build_memo_v2 encrypted)) = Ok (encrypted, None)"
proof -
  have "hex_val (digits_of (be_bytes 4 0)) = 0"
    unfolding hex_val_digits_of by (rule be_val_be_bytes) simp
  then have "sol 4 (digits_of (be_bytes 4 0)) = Ok 0"
    using assms(1) by (simp add: soltypes_documented_def del: be_bytes.simps)
  then show ?thesis
    using chunks_81_concat [OF assms(2)]
    by (simp add: parse_memo_v2_def build_memo_v2_def V2_MEMO_DEFAULT_ABI_ZERO_def del: be_bytes.simps)
qed

lemma parse_memo_v2_prepay:
  assumes "soltypes_documented sol" and "list_all (\<lambda>n. length n = 81) encrypted" and "default_abi \<noteq> 1"
    and args: "fp_valid eth" "fp_valid token" "expires < 2 ^ 53" "length signature < 2 ^ 53"
  shows "parse_memo_v2 sol default_abi withdraw_abi
      (be_bytes 4 V2_MEMO_WITHDRAW_SIG_ABI_ZERO @ prepay_bytes eth token expires signature @ concat encrypted) =
    Ok (encrypted, Some \<lparr>prepayFeeInEth = eth, prepayFeeInToken = token, expiration = Some expires,
      prepay_signature = signature\<rparr>)"
    (is "parse_memo_v2 _ _ _ ?d = _")
proof -
  have "hex_val (digits_of (be_bytes 4 1)) = 1"
    unfolding hex_val_digits_of by (rule be_val_be_bytes) simp
  then have sig: "sol 4 (digits_of (take 4 ?d)) = Ok 1"
    using assms(1) by (simp add: soltypes_documented_def V2_MEMO_WITHDRAW_SIG_ABI_ZERO_def del: be_bytes.simps)
  have "hex_holds (new_StringifiedHexQueue (digits_of ?d))
      ((be_bytes 4 V2_MEMO_WITHDRAW_SIG_ABI_ZERO @ prepay_bytes eth token expires signature) @ concat encrypted)"
    using hex_holds_new [of ?d] by (simp del: be_bytes.simps)
  then obtain q where "read_prepay (new_StringifiedHexQueue (digits_of ?d)) =
      Ok (\<lparr>prepayFeeInEth = eth, prepayFeeInToken = token, expiration = Some expires,
        prepay_signature = signature\<rparr>, q)" and q: "hex_holds q (concat encrypted)"
    by (rule readsD [OF read_prepay_reads [OF args]])
  moreover have "hex_dequeueAllToBuffer q = concat encrypted"
    by (simp add: hex_dequeueAllToBuffer_def hex_dequeueAll_holds [OF q] bytes_of_digits_of)
  ultimately show ?thesis
    using sig assms(3) chunks_81_concat [OF assms(2)]
    by (simp add: parse_memo_v2_def V2_MEMO_DEFAULT_ABI_ZERO_def V2_MEMO_WITHDRAW_SIG_ABI_ZERO_def
        del: be_bytes.simps)
qed

text \<open>C15: The memos of the second version that the wizard writes are parsed to what was written: the
  encrypted notes, and with a prepay request its two fees, its expiration and its signature, for every
  length of the signature.\<close>

theorem memo_roundtrip:
  assumes "soltypes_documented sol" and "list_all (\<lambda>n. length n = 81) encrypted" and "default_abi \<noteq> 1"
    and "fp_valid eth" and "fp_valid token" and "expires < 2 ^ 53" and "length signature < 2 ^ 53"
  shows "parseMemo sol default_abi withdraw_abi (tx\<lparr>tx_memo := Some (build_memo_v2 encrypted)\<rparr>) =
      Ok (encrypted, None) \<and>
    bind_result (build_memo_prepay eth token expires signature encrypted)
      (\<lambda>m. parseMemo sol default_abi withdraw_abi (tx\<lparr>tx_memo := Some m\<rparr>)) =
      Ok (encrypted, Some \<lparr>prepayFeeInEth = eth, prepayFeeInToken = token, expiration = Some expires,
        prepay_signature = signature\<rparr>)"
  using parse_memo_v2_default [OF assms(1,2)] parse_memo_v2_prepay [OF assms] prepay_data_ok [OF assms(4-)]
  by (simp add: parseMemo_def build_memo_prepay_def build_memo_v2_def)

theorem memo_roundtrip_witness:
  "bind_result (build_memo_prepay 5 6 1700000000 (replicate 65 9) [replicate 81 1, replicate 81 2])
    (\<lambda>m. parseMemo (\<lambda>n ds. Ok (hex_val ds)) 1111 2222 (new_ZkTx [] [] 0 None None None \<lparr>tx_memo := Some m\<rparr>)) =
   Ok ([replicate 81 1, replicate 81 2], Some \<lparr>prepayFeeInEth = 5, prepayFeeInToken = 6,
     expiration = Some 1700000000, prepay_signature = replicate 65 9\<rparr>)"
  by (rule memo_roundtrip [THEN conjunct2])
    (simp_all add: soltypes_documented_def ff_valid_def FP_ORDER_def)

end
