(* ===== verification/Note.thy ===== *)
theory Note
  imports Zk_Tx
begin

text \<open>
  Notes of \<open>packages/transaction/src\<close>: \<open>note.ts\<close>, \<open>utxo.ts\<close>, \<open>withdrawal.ts\<close>, \<open>migration.ts\<close>, the token
  registry \<open>tokens.ts\<close> and the sums of \<open>note-sum.ts\<close>. The type of owners is a parameter, with
  what the code takes from an owner; the hash functions and the cipher are those of packages.
\<close>

section \<open>Notes\<close>

record asset =
  as_eth :: int
  as_tokenAddr :: int
  as_erc20Amount :: int
  as_nft :: int

datatype note_status =
    NON_INCLUDED | UNSPENT | SPENDING | SPENT
  | WAITING_FINALIZATION | WITHDRAWABLE | TRANSFERRED | WITHDRAWN

text \<open>The three classes of notes; the last two carry whom they are for and the fee.\<close>

datatype note_class = Utxo_class | Withdrawal_class int int | Migration_class int int

record 'o zk_note =
  owner :: 'o
  salt :: int
  asset_of :: asset
  note_class :: note_class
  status :: note_status

fun class_type :: "note_class \<Rightarrow> int" where
  "class_type Utxo_class = UTXO"
| "class_type (Withdrawal_class to fee) = WITHDRAWAL"
| "class_type (Migration_class to fee) = MIGRATION"

definition outflowType :: "'o zk_note \<Rightarrow> int" where
  "outflowType n = class_type (note_class n)"

fun public_fee :: "note_class \<Rightarrow> int" where
  "public_fee Utxo_class = 0"
| "public_fee (Withdrawal_class to fee) = fee"
| "public_fee (Migration_class to fee) = fee"

abbreviation eth_of :: "'o zk_note \<Rightarrow> int" where "eth_of n \<equiv> as_eth (asset_of n)"
abbreviation tokenAddr_of :: "'o zk_note \<Rightarrow> int" where "tokenAddr_of n \<equiv> as_tokenAddr (asset_of n)"
abbreviation erc20_of :: "'o zk_note \<Rightarrow> int" where "erc20_of n \<equiv> as_erc20Amount (asset_of n)"
abbreviation nft_of :: "'o zk_note \<Rightarrow> int" where "nft_of n \<equiv> as_nft (asset_of n)"

definition assetHash :: "(int list \<Rightarrow> int) \<Rightarrow> 'o zk_note \<Rightarrow> int" where
  "assetHash poseidon n = fp_new (poseidon [eth_of n, tokenAddr_of n, erc20_of n, nft_of n])"

definition note_hash :: "(int list \<Rightarrow> int) \<Rightarrow> ('o \<Rightarrow> int) \<Rightarrow> 'o zk_note \<Rightarrow> int" where
  "note_hash poseidon spendingPubKey n =
     fp_new (poseidon [spendingPubKey (owner n), salt n, assetHash poseidon n])"

definition Utxo_from :: "'o zk_note \<Rightarrow> 'o zk_note" where
  "Utxo_from n = n\<lparr>note_class := Utxo_class, status := NON_INCLUDED\<rparr>"

definition Withdrawal_from :: "'o zk_note \<Rightarrow> int \<Rightarrow> int \<Rightarrow> 'o zk_note" where
  "Withdrawal_from n to fee = n\<lparr>note_class := Withdrawal_class (fp_new to) (fp_new fee), status := NON_INCLUDED\<rparr>"

definition Migration_from :: "'o zk_note \<Rightarrow> int \<Rightarrow> int \<Rightarrow> 'o zk_note" where
  "Migration_from n to fee = n\<lparr>note_class := Migration_class (fp_new to) (fp_new fee), status := NON_INCLUDED\<rparr>"

definition toWithdrawal :: "int \<Rightarrow> int \<Rightarrow> 'o zk_note \<Rightarrow> 'o zk_note" where
  "toWithdrawal to fee u = u\<lparr>note_class := Withdrawal_class (fp_new to) (fp_new fee), status := NON_INCLUDED\<rparr>"

definition toMigration :: "int \<Rightarrow> int \<Rightarrow> 'o zk_note \<Rightarrow> 'o zk_note" where
  "toMigration to fee u = u\<lparr>note_class := Migration_class (fp_new to) (fp_new fee), status := NON_INCLUDED\<rparr>"

definition note_data :: "int \<Rightarrow> int \<Rightarrow> 'o zk_note \<Rightarrow> public_data" where
  "note_data to fee n = \<lparr>pd_to = to, pd_eth = eth_of n, pd_tokenAddr = tokenAddr_of n,
     pd_erc20Amount = erc20_of n, pd_nft = nft_of n, pd_fee = fee\<rparr>"

definition toZkOutflow :: "(int list \<Rightarrow> int) \<Rightarrow> ('o \<Rightarrow> int) \<Rightarrow> 'o zk_note \<Rightarrow> zk_outflow" where
  "toZkOutflow poseidon spk n =
     \<lparr>out_note = note_hash poseidon spk n, out_type = fp_new (outflowType n),
      out_data = (case note_class n of
        Utxo_class \<Rightarrow> None
      | Withdrawal_class to fee \<Rightarrow> Some (note_data to fee n)
      | Migration_class to fee \<Rightarrow> Some (note_data to fee n))\<rparr>"

definition withdrawalHash :: "(byte list \<Rightarrow> 256 word) \<Rightarrow> int \<Rightarrow> public_data \<Rightarrow> (256 word) result" where
  "withdrawalHash keccak note d = bind_result
     (buffer_concat [toBuffer 32 note, toBuffer 20 (pd_to d), toBuffer 32 (pd_eth d),
        toBuffer 20 (pd_tokenAddr d), toBuffer 32 (pd_erc20Amount d), toBuffer 32 (pd_nft d),
        toBuffer 32 (pd_fee d)])
     (\<lambda>bs. Ok (keccak bs))"

text \<open>New notes; without a salt a random one of 16 bytes is drawn.\<close>

definition salt_or :: "int option \<Rightarrow> int \<Rightarrow> int" where
  "salt_or s random = (case s of Some x \<Rightarrow> fp_new x | None \<Rightarrow> fp_new random)"

definition newEtherNote :: "'o \<Rightarrow> int \<Rightarrow> int option \<Rightarrow> int \<Rightarrow> 'o zk_note" where
  "newEtherNote own eth s random = Utxo_from
     \<lparr>owner = own, salt = salt_or s random,
      asset_of = \<lparr>as_eth = fp_new eth, as_tokenAddr = 0, as_erc20Amount = 0, as_nft = 0\<rparr>,
      note_class = Utxo_class, status = NON_INCLUDED\<rparr>"

definition newERC20Note :: "'o \<Rightarrow> int \<Rightarrow> int \<Rightarrow> int \<Rightarrow> int option \<Rightarrow> int \<Rightarrow> 'o zk_note" where
  "newERC20Note own eth tokenAddr erc20Amount s random = Utxo_from
     \<lparr>owner = own, salt = salt_or s random,
      asset_of = \<lparr>as_eth = fp_new eth, as_tokenAddr = fp_new tokenAddr,
        as_erc20Amount = fp_new erc20Amount, as_nft = 0\<rparr>,
      note_class = Utxo_class, status = NON_INCLUDED\<rparr>"

definition newNFTNote :: "'o \<Rightarrow> int \<Rightarrow> int \<Rightarrow> int \<Rightarrow> int option \<Rightarrow> int \<Rightarrow> 'o zk_note" where
  "newNFTNote own eth tokenAddr nft s random = Utxo_from
     \<lparr>owner = own, salt = salt_or s random,
      asset_of = \<lparr>as_eth = fp_new eth, as_tokenAddr = fp_new tokenAddr, as_erc20Amount = 0,
        as_nft = fp_new nft\<rparr>,
      note_class = Utxo_class, status = NON_INCLUDED\<rparr>"

definition utxo_nullifier_static :: "(int list \<Rightarrow> int) \<Rightarrow> int \<Rightarrow> int \<Rightarrow> int" where
  "utxo_nullifier_static poseidon nullifierSeed leafIndex = fp_new (poseidon [nullifierSeed, leafIndex])"

text \<open>\<open>derive\<close> is the viewing public key of a seed, \<open>Point.BASE8.mul(seed)\<close>.\<close>

definition utxo_nullifier ::
  "(int list \<Rightarrow> int) \<Rightarrow> ('o \<Rightarrow> 'p) \<Rightarrow> (int \<Rightarrow> 'p) \<Rightarrow> int \<Rightarrow> int \<Rightarrow> 'o zk_note \<Rightarrow> int result" where
  "utxo_nullifier poseidon viewingPubKey derive nullifierSeed leafIndex u =
     (if viewingPubKey (owner u) \<noteq> derive nullifierSeed
      then Throw ''Given nullifier does not match utxo's owner address''
      else Ok (fp_new (poseidon [nullifierSeed, leafIndex])))"

section \<open>Token registry\<close>

record token_registry =
  reg_blockNumber :: nat
  erc20s :: "int list"
  erc721s :: "int list"

definition getTokenId :: "int \<Rightarrow> int" where
  "getTokenId addr = addr mod 256"

definition addERC20 :: "int list \<Rightarrow> token_registry \<Rightarrow> token_registry" where
  "addERC20 addrs r = r\<lparr>erc20s := erc20s r @ addrs\<rparr>"

definition addERC721 :: "int list \<Rightarrow> token_registry \<Rightarrow> token_registry" where
  "addERC721 addrs r = r\<lparr>erc721s := erc721s r @ addrs\<rparr>"

definition token_candidates :: "int list \<Rightarrow> int \<Rightarrow> int list result" where
  "token_candidates addrs tokenId =
     (if 256 \<le> tokenId then Throw ''Token identifier should have 8 bit value''
      else Ok (map fp_new (filter (\<lambda>a. a mod 256 = tokenId) addrs)))"

definition getErc20Addresses :: "token_registry \<Rightarrow> int \<Rightarrow> int list result" where
  "getErc20Addresses r tokenId = token_candidates (erc20s r) tokenId"

definition getErc721Addresses :: "token_registry \<Rightarrow> int \<Rightarrow> int list result" where
  "getErc721Addresses r tokenId = token_candidates (erc721s r) tokenId"

section \<open>Encrypted notes\<close>

text \<open>
  The parameters of the elliptic curve and the cipher: \<open>shared pub sec\<close> is the encoded product of a
  public point and a secret scalar, \<open>public sec\<close> the encoded point of a secret, \<open>decode\<close> its decoder,
  \<open>chacha key bytes\<close> the stream cipher, which encrypts and decrypts alike.
\<close>

record 'p note_crypto =
  shared :: "'p \<Rightarrow> int \<Rightarrow> byte list"
  public :: "int \<Rightarrow> byte list"
  decode_point :: "byte list \<Rightarrow> 'p result"
  chacha :: "byte list \<Rightarrow> byte list \<Rightarrow> byte list"

definition encrypted_value :: "'o zk_note \<Rightarrow> int" where
  "encrypted_value u =
     (if 0 < eth_of u then eth_of u else if 0 < erc20_of u then erc20_of u else nft_of u)"

definition utxo_encrypt ::
  "'p note_crypto \<Rightarrow> ('o \<Rightarrow> 'p) \<Rightarrow> int \<Rightarrow> 'o zk_note \<Rightarrow> byte list result" where
  "utxo_encrypt C viewingPubKey ephemeralSecretKey u =
     bind_result (buffer_concat
       [toBuffer 16 (salt u), toBuffer 1 (fp_new (getTokenId (tokenAddr_of u))),
        toBuffer 32 (encrypted_value u)]) (\<lambda>secret.
     Ok (public C ephemeralSecretKey @
         chacha C (shared C (viewingPubKey (owner u)) ephemeralSecretKey) secret))"

text \<open>The first candidate note whose hash is the one looked for. A memo that is too short has no token
  identifier (here \<open>-1\<close>), which equals that of no token.\<close>

definition first_match :: "('o zk_note \<Rightarrow> int) \<Rightarrow> int \<Rightarrow> 'o zk_note list \<Rightarrow> 'o zk_note option" where
  "first_match h utxoHash candidates = find (\<lambda>n. utxoHash = h n) candidates"

definition utxo_decrypt ::
  "'p note_crypto \<Rightarrow> (int list \<Rightarrow> int) \<Rightarrow> ('o \<Rightarrow> int) \<Rightarrow> (int \<Rightarrow> int \<Rightarrow> 'o) \<Rightarrow>
   int \<Rightarrow> byte list \<Rightarrow> int \<Rightarrow> int \<Rightarrow> token_registry \<Rightarrow> 'o zk_note option result" where
  "utxo_decrypt C poseidon spk zkAddress utxoHash memo spendingPubKey viewingKey registry =
     bind_result (decode_point C (take 32 memo)) (\<lambda>ephemeralPubKey.
       let decrypted = chacha C (shared C ephemeralPubKey viewingKey) (take 49 (drop 32 memo));
           salt = Some (fromBuffer (take 16 decrypted));
           tokenIdentifier = (if length decrypted \<le> 16 then - 1 else uint (decrypted ! 16));
           value = fromBuffer (take 32 (drop 17 decrypted));
           own = zkAddress spendingPubKey viewingKey;
           h = note_hash poseidon spk;
           etherNote = newEtherNote own value salt 0
       in if utxoHash = h etherNote then Ok (Some etherNote)
          else
            bind_result (getErc20Addresses registry tokenIdentifier) (\<lambda>erc20Addresses.
              case first_match h utxoHash (map (\<lambda>a. newERC20Note own 0 a value salt 0) erc20Addresses) of
                Some n \<Rightarrow> Ok (Some n)
              | None \<Rightarrow>
                  bind_result (getErc721Addresses registry tokenIdentifier) (\<lambda>erc721Addresses.
                    Ok (first_match h utxoHash
                      (map (\<lambda>a. newNFTNote own 0 a value salt 0) erc721Addresses)))))"

section \<open>Sums\<close>

text \<open>The objects keyed by addresses are association lists in the order in which keys were added.\<close>

record note_sum =
  sum_eth :: int
  sum_erc20 :: "(int \<times> int) list"
  sum_erc721 :: "(int \<times> int list) list"

fun put :: "int \<Rightarrow> 'v \<Rightarrow> (int \<times> 'v) list \<Rightarrow> (int \<times> 'v) list" where
  "put k v [] = [(k, v)]"
| "put k v ((k', v') # kvs) = (if k = k' then (k, v) # kvs else (k', v') # put k v kvs)"

definition get_or :: "'v \<Rightarrow> (int \<times> 'v) list \<Rightarrow> int \<Rightarrow> 'v" where
  "get_or d kvs k = (case map_of kvs k of Some v \<Rightarrow> v | None \<Rightarrow> d)"

definition etherFrom :: "'o zk_note list \<Rightarrow> int" where
  "etherFrom ns = foldl (\<lambda>sum n. fp_add sum (eth_of n)) 0 ns"

definition erc20_step :: "(int \<times> int) list \<Rightarrow> 'o zk_note \<Rightarrow> (int \<times> int) list" where
  "erc20_step erc20 n =
     (if erc20_of n \<noteq> 0 \<and> nft_of n = 0
      then put (tokenAddr_of n) (fp_add (get_or 0 erc20 (tokenAddr_of n)) (erc20_of n)) erc20
      else erc20)"

definition erc20From :: "'o zk_note list \<Rightarrow> (int \<times> int) list" where
  "erc20From ns = foldl erc20_step [] ns"

definition nft_step :: "(int \<times> int list) list \<Rightarrow> 'o zk_note \<Rightarrow> (int \<times> int list) list" where
  "nft_step erc721 n =
     (if erc20_of n = 0 \<and> nft_of n \<noteq> 0
      then put (tokenAddr_of n) (get_or [] erc721 (tokenAddr_of n) @ [nft_of n]) erc721
      else erc721)"

definition nftsFrom :: "'o zk_note list \<Rightarrow> (int \<times> int list) list" where
  "nftsFrom ns = foldl nft_step [] ns"

definition Sum_from :: "'o zk_note list \<Rightarrow> note_sum" where
  "Sum_from ns = \<lparr>sum_eth = etherFrom ns, sum_erc20 = erc20From ns, sum_erc721 = nftsFrom ns\<rparr>"

definition getERC20 :: "note_sum \<Rightarrow> int \<Rightarrow> int" where
  "getERC20 s addr = get_or 0 (sum_erc20 s) addr"

definition getNFTs :: "note_sum \<Rightarrow> int \<Rightarrow> int list" where
  "getNFTs s addr = get_or [] (sum_erc721 s) addr"

end
