(* ===== verification/Utils.thy ===== *)
theory Utils
  imports Bytes
begin

text \<open>
  Helpers of \<open>packages/utils/src/index.ts\<close> that the transaction builder, the block codec and the
  validators call: the size estimate of a transaction, the Merkle root of a list of hashes, buffers
  from numbers, merged deposits.
\<close>

section \<open>Size estimate\<close>

definition txSizeCalculator :: "nat \<Rightarrow> nat \<Rightarrow> nat \<Rightarrow> bool \<Rightarrow> bool \<Rightarrow> nat" where
  "txSizeCalculator inflowNum outflowNum crossLayerOutflowNum hasSwap noMemo =
     1 + inflowNum * 32 + inflowNum * 32 +
     1 + outflowNum * 32 + outflowNum * 1 +
     crossLayerOutflowNum * 20 + crossLayerOutflowNum * 32 + crossLayerOutflowNum * 20 +
     crossLayerOutflowNum * 32 + crossLayerOutflowNum * 32 + crossLayerOutflowNum * 32 +
     1 + (if hasSwap then 32 else 0) + (if noMemo then 0 else 81) + 256"

section \<open>Root of a list of hashes\<close>

text \<open>
  \<open>sha\<close> stands for \<open>soliditySha3Raw\<close> of two 32-byte values. A last node without a partner is hashed
  with itself.
\<close>

fun pair_up :: "('h \<Rightarrow> 'h \<Rightarrow> 'h) \<Rightarrow> 'h list \<Rightarrow> 'h list" where
  "pair_up sha (a # b # hs) = sha a b # pair_up sha hs"
| "pair_up sha [a] = [sha a a]"
| "pair_up sha [] = []"

lemma length_pair_up [simp]: "length (pair_up sha hs) = (length hs + 1) div 2"
  by (induction sha hs rule: pair_up.induct) simp_all

function hashes_root :: "('h \<Rightarrow> 'h \<Rightarrow> 'h) \<Rightarrow> 'h \<Rightarrow> 'h list \<Rightarrow> 'h" where
  "hashes_root sha zeroBytes hashes =
     (case hashes of
        [] \<Rightarrow> zeroBytes
      | [h] \<Rightarrow> h
      | _ \<Rightarrow> hashes_root sha zeroBytes (pair_up sha hashes))"
  by pat_completeness auto
termination
  by (relation "measure (\<lambda>(sha, z, hs). length hs)") auto

declare hashes_root.simps [simp del]

section \<open>Buffers from numbers\<close>

text \<open>\<open>numToBuffer(n, len)\<close> for a number: the hexadecimal form, padded to the length.\<close>

definition numToBuffer :: "nat \<Rightarrow> nat \<Rightarrow> byte list result" where
  "numToBuffer n len =
     (if n < 256 ^ len then Ok (be_bytes len n) else Throw ''Exceeds the given buffer size'')"

section \<open>Merged deposits\<close>

text \<open>
  The running hash starts from the empty string, here \<open>None\<close>; \<open>sha_str\<close> is \<open>soliditySha3Raw\<close> of the
  previous result and a note. The fee is summed without a bound and made a 256-bit number at the end.
\<close>

definition merge_hash :: "('h option \<Rightarrow> 'n \<Rightarrow> 'h) \<Rightarrow> 'n list \<Rightarrow> 'h option" where
  "merge_hash sha_str notes = foldl (\<lambda>merged note. Some (sha_str merged note)) None notes"

lemma merge_hash_snoc [simp]: "merge_hash f (ns @ [n]) = Some (f (merge_hash f ns) n)"
  by (simp add: merge_hash_def)

end
