(* ===== verification/Tx_Builder.thy ===== *)
theory Tx_Builder
  imports Note Utils
begin

text \<open>
  \<open>TxBuilder\<close> of \<open>packages/transaction/src/tx-builder.ts\<close> and \<open>SwapTxBuilder\<close>: the notes an account
  provides, the notes it sends, and the raw transaction built from them. Provided notes are objects
  whose identity matters to \<open>indexOf\<close>; an object is a note with its number. The sort of the engine is
  a parameter: the comparison functions of the code never return zero.
\<close>

section \<open>State\<close>

type_synonym 'o obj = "nat \<times> 'o zk_note"

record 'o tx_builder =
  spendables :: "'o obj list"
  sendings :: "'o zk_note list"
  feePerByte :: int
  bld_swap :: "int option"
  changeTo :: 'o

definition new_TxBuilder :: "'o \<Rightarrow> 'o tx_builder" where
  "new_TxBuilder own =
     \<lparr>spendables = [], sendings = [], feePerByte = 0, bld_swap = None, changeTo = own\<rparr>"

definition weiPerByte :: "int \<Rightarrow> 'o tx_builder \<Rightarrow> 'o tx_builder" where
  "weiPerByte val b = b\<lparr>feePerByte := fp_new val\<rparr>"

definition provide :: "'o obj list \<Rightarrow> 'o tx_builder \<Rightarrow> 'o tx_builder" where
  "provide utxos b = b\<lparr>spendables := spendables b @ utxos\<rparr>"

definition spendable :: "'o tx_builder \<Rightarrow> note_sum" where
  "spendable b = Sum_from (map snd (spendables b))"

definition send_note :: "'o zk_note \<Rightarrow> (int \<times> int) option \<Rightarrow> (int \<times> int) option \<Rightarrow> 'o tx_builder \<Rightarrow> 'o tx_builder" where
  "send_note n withdrawal migration b = b\<lparr>sendings := sendings b @
     [case withdrawal of
        Some (to, fee) \<Rightarrow> Withdrawal_from n to fee
      | None \<Rightarrow> (case migration of Some (to, fee) \<Rightarrow> Migration_from n to fee | None \<Rightarrow> n)]\<rparr>"

definition sendEther ::
  "int \<Rightarrow> 'o \<Rightarrow> (int \<times> int) option \<Rightarrow> (int \<times> int) option \<Rightarrow> int \<Rightarrow> 'o tx_builder \<Rightarrow> 'o tx_builder result" where
  "sendEther eth to withdrawal migration random b =
     (if withdrawal \<noteq> None \<and> migration \<noteq> None
      then Throw ''You should have only one value of withdrawalTo or migrationTo''
      else Ok (send_note (newEtherNote to eth None random) withdrawal migration b))"

definition sendERC20 ::
  "int \<Rightarrow> int \<Rightarrow> 'o \<Rightarrow> int option \<Rightarrow> (int \<times> int) option \<Rightarrow> (int \<times> int) option \<Rightarrow> int \<Rightarrow> 'o tx_builder \<Rightarrow> 'o tx_builder" where
  "sendERC20 tokenAddr erc20Amount to eth withdrawal migration random b =
     send_note (newERC20Note to (case eth of Some e \<Rightarrow> e | None \<Rightarrow> 0) tokenAddr erc20Amount None random)
       withdrawal migration b"

definition sendNFT ::
  "int \<Rightarrow> int \<Rightarrow> 'o \<Rightarrow> int option \<Rightarrow> (int \<times> int) option \<Rightarrow> (int \<times> int) option \<Rightarrow> int \<Rightarrow> 'o tx_builder \<Rightarrow> 'o tx_builder" where
  "sendNFT tokenAddr nft to eth withdrawal migration random b =
     send_note (newNFTNote to (case eth of Some e \<Rightarrow> e | None \<Rightarrow> 0) tokenAddr nft None random)
       withdrawal migration b"

section \<open>Swaps\<close>

text \<open>The swap builder sends with a given salt and expects one note for itself.\<close>

definition swap_sendEther :: "int \<Rightarrow> 'o \<Rightarrow> int \<Rightarrow> 'o tx_builder \<Rightarrow> 'o tx_builder" where
  "swap_sendEther eth to s b = send_note (newEtherNote to eth (Some s) 0) None None b"

definition swap_sendERC20 :: "int \<Rightarrow> int \<Rightarrow> 'o \<Rightarrow> int \<Rightarrow> 'o tx_builder \<Rightarrow> 'o tx_builder" where
  "swap_sendERC20 tokenAddr erc20Amount to s b =
     send_note (newERC20Note to 0 tokenAddr erc20Amount (Some s) 0) None None b"

definition swap_sendNFT :: "int \<Rightarrow> int \<Rightarrow> 'o \<Rightarrow> int \<Rightarrow> 'o tx_builder \<Rightarrow> 'o tx_builder" where
  "swap_sendNFT tokenAddr nft to s b = send_note (newNFTNote to 0 tokenAddr nft (Some s) 0) None None b"

definition receiveEther :: "('o zk_note \<Rightarrow> int) \<Rightarrow> int \<Rightarrow> int \<Rightarrow> 'o tx_builder \<Rightarrow> 'o tx_builder" where
  "receiveEther h amount s b = b\<lparr>bld_swap := Some (h (newEtherNote (changeTo b) amount (Some s) 0))\<rparr>"

definition receiveERC20 :: "('o zk_note \<Rightarrow> int) \<Rightarrow> int \<Rightarrow> int \<Rightarrow> int \<Rightarrow> 'o tx_builder \<Rightarrow> 'o tx_builder" where
  "receiveERC20 h tokenAddr erc20Amount s b =
     b\<lparr>bld_swap := Some (h (newERC20Note (changeTo b) 0 tokenAddr erc20Amount (Some s) 0))\<rparr>"

definition receiveNFT :: "('o zk_note \<Rightarrow> int) \<Rightarrow> int \<Rightarrow> int \<Rightarrow> int \<Rightarrow> 'o tx_builder \<Rightarrow> 'o tx_builder" where
  "receiveNFT h tokenAddr nft s b =
     b\<lparr>bld_swap := Some (h (newNFTNote (changeTo b) 0 tokenAddr nft (Some s) 0))\<rparr>"

section \<open>Building\<close>

text \<open>The two local arrays of \<open>build\<close>.\<close>

record 'o selection =
  sel_spendables :: "'o obj list"
  sel_spendings :: "'o obj list"

abbreviation spending_sum :: "'o selection \<Rightarrow> note_sum" where
  "spending_sum s \<equiv> Sum_from (map snd (sel_spendings s))"

text \<open>
  \<open>spendings.push(...spendables.splice(spendables.indexOf(utxo), 1))\<close>. When the object is no longer
  there the index is \<open>-1\<close>, which splices the last element.
\<close>

fun splice_obj :: "nat \<Rightarrow> 'o obj list \<Rightarrow> ('o obj list \<times> 'o obj list) option" where
  "splice_obj i [] = None"
| "splice_obj i (u # us) =
     (if fst u = i then Some ([u], us) else map_option (\<lambda>(x, rest). (x, u # rest)) (splice_obj i us))"

definition move :: "'o obj \<Rightarrow> 'o selection \<Rightarrow> 'o selection" where
  "move u s =
     (case splice_obj (fst u) (sel_spendables s) of
        Some (x, rest) \<Rightarrow> s\<lparr>sel_spendables := rest, sel_spendings := sel_spendings s @ x\<rparr>
      | None \<Rightarrow>
          (if sel_spendables s = [] then s
           else s\<lparr>sel_spendables := butlast (sel_spendables s),
                  sel_spendings := sel_spendings s @ [last (sel_spendables s)]\<rparr>))"

text \<open>Notes of one token, smallest first, until the amount is reached.\<close>

fun take_erc20 :: "int \<Rightarrow> int \<Rightarrow> 'o obj list \<Rightarrow> 'o selection \<Rightarrow> 'o selection" where
  "take_erc20 addr target [] s = s"
| "take_erc20 addr target (u # us) s =
     (if getERC20 (spending_sum s) addr < target then take_erc20 addr target us (move u s) else s)"

type_synonym 'o sorter = "('o obj \<Rightarrow> int) \<Rightarrow> 'o obj list \<Rightarrow> 'o obj list"

definition select_erc20 ::
  "'o sorter \<Rightarrow> 'o obj list \<Rightarrow> int \<times> int \<Rightarrow> 'o selection \<Rightarrow> 'o selection result" where
  "select_erc20 srt all entry s =
     (case entry of (addr, target) \<Rightarrow>
       let same = srt (\<lambda>u. erc20_of (snd u)) (filter (\<lambda>u. tokenAddr_of (snd u) = addr) all);
           s' = take_erc20 addr target same s in
       if getERC20 (spending_sum s') addr < target then Throw ''Not enough ERC20 token'' else Ok s')"

definition select_nfts ::
  "'o sorter \<Rightarrow> (int list \<Rightarrow> int list) \<Rightarrow> 'o obj list \<Rightarrow> int \<times> int list \<Rightarrow> 'o selection \<Rightarrow> 'o selection result" where
  "select_nfts srt srt_ints all entry s =
     (case entry of (addr, nfts) \<Rightarrow>
       let sendingNFTs = srt_ints nfts;
           found = filter (\<lambda>u. tokenAddr_of (snd u) = addr \<and> nft_of (snd u) \<in> set sendingNFTs) all in
       if length sendingNFTs \<noteq> length found then Throw ''Not enough NFTs''
       else
         let found = srt (\<lambda>u. nft_of (snd u)) found in
         if map (\<lambda>u. nft_of (snd u)) found \<noteq> sendingNFTs then Throw ''Failed to find the exact NFT''
         else Ok (fold move found s))"

fun select_all :: "('e \<Rightarrow> 's \<Rightarrow> 's result) \<Rightarrow> 'e list \<Rightarrow> 's \<Rightarrow> 's result" where
  "select_all f [] s = Ok s"
| "select_all f (e # es) s = bind_result (f e s) (select_all f es)"

text \<open>The change notes; \<open>random\<close> numbers the salts drawn for them.\<close>

definition erc20_changes :: "(nat \<Rightarrow> int) \<Rightarrow> 'o \<Rightarrow> note_sum \<Rightarrow> note_sum \<Rightarrow> 'o zk_note list" where
  "erc20_changes random own spending sending =
     foldl (\<lambda>changes (addr, _).
       let change = fp_sub (getERC20 spending addr) (getERC20 sending addr) in
       if change \<noteq> 0 then changes @ [newERC20Note own 0 addr change None (random (length changes))]
       else changes) [] (sum_erc20 spending)"

definition extraNFTs :: "note_sum \<Rightarrow> note_sum \<Rightarrow> (int \<times> int) list" where
  "extraNFTs spending sending =
     concat (map (\<lambda>(addr, nfts). map (\<lambda>nft. (addr, nft))
       (filter (\<lambda>nft. nft \<notin> set (getNFTs sending addr)) nfts)) (sum_erc721 spending))"

definition nft_changes :: "(nat \<Rightarrow> int) \<Rightarrow> 'o \<Rightarrow> (int \<times> int) list \<Rightarrow> 'o zk_note list \<Rightarrow> 'o zk_note list" where
  "nft_changes random own extra changes =
     foldl (\<lambda>changes (addr, nft). changes @ [newNFTNote own 0 addr nft None (random (length changes))])
       changes extra"

text \<open>The fee and the Ether required, for the notes selected so far.\<close>

definition getTxFee :: "'o tx_builder \<Rightarrow> nat \<Rightarrow> nat \<Rightarrow> int" where
  "getTxFee b numSpendings numChanges = fp_new (feePerByte b * int (txSizeCalculator numSpendings
     (length (sendings b) + numChanges + 1)
     (length (filter (\<lambda>n. outflowType n \<noteq> UTXO) (sendings b))) (bld_swap b \<noteq> None) False))"

definition l1Fee :: "'o tx_builder \<Rightarrow> int" where
  "l1Fee b = foldl (\<lambda>acc n. fp_add acc (public_fee (note_class n))) 0
     (filter (\<lambda>n. note_class n \<noteq> Utxo_class) (sendings b))"

definition getRequiredETH :: "'o tx_builder \<Rightarrow> nat \<Rightarrow> nat \<Rightarrow> int" where
  "getRequiredETH b numSpendings numChanges =
     fp_add (fp_add (etherFrom (sendings b)) (getTxFee b numSpendings numChanges)) (l1Fee b)"

text \<open>
  \<open>while (getRequiredETH().gte(spent))\<close>: the largest remaining note is taken from the end of the sorted
  list, here its reverse; notes without Ether are dropped.
\<close>

fun take_eth :: "'o tx_builder \<Rightarrow> nat \<Rightarrow> 'o obj list \<Rightarrow> 'o obj list \<Rightarrow> 'o obj list result" where
  "take_eth b numChanges rest spendings =
     (if etherFrom (map snd spendings) \<le> getRequiredETH b (length spendings) numChanges then
        (case rest of
           [] \<Rightarrow> Throw ''Not enough Ether''
         | u # us \<Rightarrow> take_eth b numChanges us (if 0 < eth_of (snd u) then spendings @ [u] else spendings))
      else Ok spendings)"

declare take_eth.simps [simp del]

record 'o raw_tx =
  raw_inflow :: "'o obj list"
  raw_outflow :: "'o zk_note list"
  raw_swap :: "int option"
  raw_fee :: int
  raw_withdrawals :: "'o zk_note list"

definition balanced :: "note_sum \<Rightarrow> note_sum \<Rightarrow> int \<Rightarrow> int \<Rightarrow> unit result" where
  "balanced inflowSum outflowSum finalFee l1 =
     (if sum_eth inflowSum \<noteq> fp_add (fp_add (sum_eth outflowSum) finalFee) l1
      then Throw ''inflow != outflow''
      else if list_ex (\<lambda>(addr, _). getERC20 inflowSum addr \<noteq> getERC20 outflowSum addr) (sum_erc20 inflowSum)
      then Throw ''erc20 in-out is different''
      else if list_ex (\<lambda>(addr, _). getNFTs inflowSum addr \<noteq> getNFTs outflowSum addr) (sum_erc721 inflowSum)
      then Throw ''nft in-out is different''
      else Ok ())"

definition finish_build :: "(nat \<Rightarrow> int) \<Rightarrow> 'o tx_builder \<Rightarrow> 'o zk_note list \<Rightarrow> 'o obj list \<Rightarrow> 'o raw_tx result" where
  "finish_build random b changes spendings =
     (let spent = etherFrom (map snd spendings);
          required = getRequiredETH b (length spendings) (length changes);
          finalFee = getTxFee b (length spendings) (length changes);
          changeETH = fp_sub spent required;
          changes = (if changeETH \<noteq> 0
            then changes @ [newEtherNote (changeTo b) changeETH None (random (length changes))]
            else changes);
          outflow = sendings b @ changes in
      if spent < required then Throw ''not enough eth''
      else bind_result (balanced (Sum_from (map snd spendings)) (Sum_from outflow) finalFee (l1Fee b))
        (\<lambda>_. Ok \<lparr>raw_inflow = spendings, raw_outflow = outflow, raw_swap = bld_swap b, raw_fee = finalFee,
          raw_withdrawals = filter (\<lambda>n. outflowType n = WITHDRAWAL) (sendings b)\<rparr>))"

definition build ::
  "'o sorter \<Rightarrow> (int list \<Rightarrow> int list) \<Rightarrow> (nat \<Rightarrow> int) \<Rightarrow> 'o tx_builder \<Rightarrow> 'o raw_tx result" where
  "build srt srt_ints random b =
     (let sendingAmount = Sum_from (sendings b) in
      bind_result (select_all (select_erc20 srt (spendables b)) (sum_erc20 sendingAmount)
        \<lparr>sel_spendables = spendables b, sel_spendings = []\<rparr>) (\<lambda>s.
      bind_result (select_all (select_nfts srt srt_ints (spendables b)) (sum_erc721 sendingAmount) s) (\<lambda>s.
        let changes20 = erc20_changes random (changeTo b) (spending_sum s) sendingAmount;
            changes = nft_changes random (changeTo b) (extraNFTs (spending_sum s) sendingAmount) changes20 in
        bind_result (take_eth b (length changes)
          (rev (srt (\<lambda>u. eth_of (snd u)) (sel_spendables s))) (sel_spendings s))
          (finish_build random b changes))))"

end
