(* ===== verification/Tx_Builder_Proofs.thy ===== *)
theory Tx_Builder_Proofs
  imports Tx_Builder "HOL-Library.Multiset"
begin

text \<open>
  What the transaction builder guarantees of the raw transactions it returns, and when it returns one.
\<close>

section \<open>Sums of notes\<close>

lemma fp_add_mod: "0 \<le> a \<Longrightarrow> 0 \<le> b \<Longrightarrow> fp_add a b = (a + b) mod FP_ORDER"
  by (simp add: fp_add_def ff_add_def ff_new_nonneg mod_simps)

lemma fp_mod_valid [simp]: "fp_valid (n mod FP_ORDER)"
  by (rule fp.residue_valid)

lemma fp_valid_nonneg: "fp_valid n \<Longrightarrow> 0 \<le> n"
  by (simp add: ff_valid_def)

definition note_ok :: "'o zk_note \<Rightarrow> bool" where
  "note_ok n \<longleftrightarrow> fp_valid (eth_of n) \<and> fp_valid (tokenAddr_of n) \<and> fp_valid (erc20_of n) \<and>
     fp_valid (nft_of n) \<and> fp_valid (public_fee (note_class n))"

lemma note_okD:
  assumes "note_ok n"
  shows "0 \<le> eth_of n" and "0 \<le> erc20_of n" and "0 \<le> public_fee (note_class n)"
  using assms by (simp_all add: note_ok_def ff_valid_def)

definition total_of :: "('o zk_note \<Rightarrow> int) \<Rightarrow> 'o zk_note list \<Rightarrow> int" where
  "total_of f ns = sum_list (map f ns)"

lemma total_simps [simp]:
  "total_of f [] = 0" "total_of f (n # ns) = f n + total_of f ns" "total_of f (ns @ ms) = total_of f ns + total_of f ms"
  by (simp_all add: total_of_def)

lemma total_nonneg: "(\<And>n. n \<in> set ns \<Longrightarrow> 0 \<le> f n) \<Longrightarrow> 0 \<le> total_of f ns"
  by (induction ns) simp_all

lemma foldl_fp_add:
  assumes "\<And>n. n \<in> set ns \<Longrightarrow> 0 \<le> f n"
  shows "foldl (\<lambda>acc n. fp_add acc (f n)) 0 ns = total_of f ns mod FP_ORDER"
  using assms
proof (induction ns rule: rev_induct)
  case (snoc n ns)
  then have "0 \<le> f n" "0 \<le> total_of f ns mod FP_ORDER" by simp_all
  with snoc show ?case by (simp add: fp_add_mod mod_simps)
qed simp

lemma etherFrom_total: "list_all note_ok ns \<Longrightarrow> etherFrom ns = total_of eth_of ns mod FP_ORDER"
  unfolding etherFrom_def by (rule foldl_fp_add) (auto simp: list_all_iff dest: note_okD)

lemma etherFrom_snoc: "etherFrom (ns @ [n]) = fp_add (etherFrom ns) (eth_of n)"
  by (simp add: etherFrom_def)

text \<open>Association lists.\<close>

lemma get_or_put [simp]: "get_or d (put k v kvs) j = (if j = k then v else get_or d kvs j)"
  by (induction k v kvs rule: put.induct) (auto simp: get_or_def)

lemma keys_put [simp]: "fst ` set (put k v kvs) = insert k (fst ` set kvs)"
  by (induction k v kvs rule: put.induct) auto

lemma get_or_absent: "k \<notin> fst ` set kvs \<Longrightarrow> get_or d kvs k = d"
  by (simp add: get_or_def map_of_eq_None_iff [THEN iffD2])

lemma set_put: "set (put k v kvs) \<subseteq> insert (k, v) (set kvs)"
  by (induction k v kvs rule: put.induct) auto

lemma get_or_nfts: "get_or [] kvs k = [] \<or> (k, get_or [] kvs k) \<in> set kvs"
  by (auto simp: get_or_def dest: map_of_SomeD split: option.splits)

definition counts_erc20 :: "int \<Rightarrow> 'o zk_note \<Rightarrow> int" where
  "counts_erc20 addr n = (if erc20_of n \<noteq> 0 \<and> nft_of n = 0 \<and> tokenAddr_of n = addr then erc20_of n else 0)"

lemma erc20From_snoc: "erc20From (ns @ [n]) = erc20_step (erc20From ns) n"
  by (simp add: erc20From_def)

lemma erc20_total:
  "list_all note_ok ns \<Longrightarrow> getERC20 (Sum_from ns) addr = total_of (counts_erc20 addr) ns mod FP_ORDER"
proof (induction ns rule: rev_induct)
  case Nil
  then show ?case by (simp add: getERC20_def Sum_from_def erc20From_def get_or_def)
next
  case (snoc n ns)
  then have "0 \<le> erc20_of n" by (simp add: note_okD)
  with snoc show ?case
    by (auto simp: getERC20_def Sum_from_def erc20From_snoc erc20_step_def counts_erc20_def fp_add_mod
        mod_simps)
qed

lemma erc20_keys_mono: "fst ` set (erc20From ns) \<subseteq> fst ` set (erc20From (ns @ ms))"
proof (induction ms rule: rev_induct)
  case (snoc m ms)
  then show ?case
    unfolding append_assoc [symmetric] erc20From_snoc by (auto simp: erc20_step_def)
qed simp

text \<open>The NFTs of one address, in the order of the notes.\<close>

definition is_nft :: "int \<Rightarrow> 'o zk_note \<Rightarrow> bool" where
  "is_nft addr n \<longleftrightarrow> erc20_of n = 0 \<and> nft_of n \<noteq> 0 \<and> tokenAddr_of n = addr"

definition nfts_of :: "int \<Rightarrow> 'o zk_note list \<Rightarrow> int list" where
  "nfts_of addr ns = map nft_of (filter (is_nft addr) ns)"

lemma nfts_of_append [simp]: "nfts_of addr (ns @ ms) = nfts_of addr ns @ nfts_of addr ms"
  by (simp add: nfts_of_def)

lemma nftsFrom_Nil [simp]: "nftsFrom [] = []"
  by (simp add: nftsFrom_def)

lemma nftsFrom_snoc: "nftsFrom (ns @ [n]) = nft_step (nftsFrom ns) n"
  by (simp add: nftsFrom_def)

lemma getNFTs_eq: "getNFTs (Sum_from ns) addr = nfts_of addr ns"
  by (induction ns rule: rev_induct)
    (auto simp: getNFTs_def Sum_from_def nftsFrom_snoc nft_step_def nfts_of_def is_nft_def get_or_def [of "[]" "[]"])

lemma nft_keys: "fst ` set (nftsFrom ns) = {addr. \<exists>n\<in>set ns. is_nft addr n}"
  by (induction ns rule: rev_induct) (auto simp: nftsFrom_snoc nft_step_def is_nft_def)

lemma nfts_of_empty: "nfts_of addr ns = [] \<longleftrightarrow> addr \<notin> fst ` set (nftsFrom ns)"
  by (auto simp: nft_keys nfts_of_def filter_empty_conv)

lemma getERC20_absent: "addr \<notin> fst ` set (sum_erc20 s) \<Longrightarrow> getERC20 s addr = 0"
  by (simp add: getERC20_def get_or_absent)

section \<open>Selections\<close>

definition pool :: "'o selection \<Rightarrow> 'o obj multiset" where
  "pool s = mset (sel_spendables s) + mset (sel_spendings s)"

definition extends :: "'o selection \<Rightarrow> 'o selection \<Rightarrow> bool" where
  "extends s s' \<longleftrightarrow> pool s' = pool s \<and> (\<exists>us. sel_spendings s' = sel_spendings s @ us)"

lemma extends_refl [simp]: "extends s s"
  by (simp add: extends_def)

lemma extends_trans: "extends s t \<Longrightarrow> extends t u \<Longrightarrow> extends s u"
  by (auto simp: extends_def)

lemma splice_obj_mset: "splice_obj i us = Some (x, rest) \<Longrightarrow> mset us = mset x + mset rest"
  by (induction i us arbitrary: x rest rule: splice_obj.induct) (auto split: if_splits)

lemma extends_move: "extends s (move u s)"
proof (cases "splice_obj (fst u) (sel_spendables s)")
  case None
  have "mset us = add_mset (last us) (mset (butlast us))" if "us \<noteq> []" for us :: "'a obj list"
    using arg_cong [OF append_butlast_last_id [OF that], of mset] by simp
  then show ?thesis using None by (auto simp: move_def extends_def pool_def)
next
  case (Some p)
  then show ?thesis
    by (cases p) (auto simp: move_def extends_def pool_def dest: splice_obj_mset)
qed

lemma extends_take_erc20: "extends s (take_erc20 addr target us s)"
proof (induction us arbitrary: s)
  case (Cons u us)
  show ?case using extends_trans [OF extends_move Cons.IH] by simp
qed simp

lemma select_erc20_ok:
  assumes "select_erc20 srt all (addr, target) s = Ok s'"
  shows "extends s s' \<and> target \<le> getERC20 (spending_sum s') addr"
  using assms extends_take_erc20 by (auto simp: select_erc20_def Let_def split: if_splits)

lemma extends_fold_move: "extends s (fold move us s)"
proof (induction us arbitrary: s)
  case (Cons u us)
  show ?case using extends_trans [OF extends_move Cons.IH] by simp
qed simp

lemma select_nfts_ok: "select_nfts srt srt_ints all e s = Ok s' \<Longrightarrow> extends s s'"
  by (auto simp: select_nfts_def Let_def extends_fold_move split: if_splits prod.splits)

lemma select_all_extends:
  assumes "\<And>e s s'. f e s = Ok s' \<Longrightarrow> extends s s'" and "select_all f es s = Ok s'"
  shows "extends s s'"
  using assms(2)
proof (induction es arbitrary: s)
  case (Cons e es)
  then obtain t where "f e s = Ok t" "select_all f es t = Ok s'"
    by (cases "f e s") auto
  then show ?case using Cons.IH assms(1) extends_trans by blast
qed simp

text \<open>Once a token is among the spent ones it stays there.\<close>

lemma extends_keys:
  "extends s s' \<Longrightarrow> fst ` set (sum_erc20 (spending_sum s)) \<subseteq> fst ` set (sum_erc20 (spending_sum s'))"
proof -
  assume "extends s s'"
  then obtain us where us: "sel_spendings s' = sel_spendings s @ us" by (auto simp: extends_def)
  show ?thesis
    using erc20_keys_mono [of "map snd (sel_spendings s)" "map snd us"] by (simp add: Sum_from_def us)
qed

lemma select_all_erc20_keys:
  assumes "select_all (select_erc20 srt all) es s = Ok s'" and "(addr, target) \<in> set es" and "0 < target"
  shows "addr \<in> fst ` set (sum_erc20 (spending_sum s'))"
  using assms(1,2)
proof (induction es arbitrary: s)
  case (Cons e es)
  then obtain t where t: "select_erc20 srt all e s = Ok t" "select_all (select_erc20 srt all) es t = Ok s'"
    by (cases "select_erc20 srt all e s") auto
  show ?case
  proof (cases "e = (addr, target)")
    case True
    then have "0 < getERC20 (spending_sum t) addr"
      using select_erc20_ok [of srt all addr target s t] t(1) assms(3) by auto
    then have "addr \<in> fst ` set (sum_erc20 (spending_sum t))"
      using getERC20_absent by fastforce
    moreover have "extends t s'"
      by (rule select_all_extends [OF _ t(2)]) (metis prod.collapse select_erc20_ok)
    ultimately show ?thesis using extends_keys by blast
  next
    case False
    then show ?thesis using Cons t by auto
  qed
qed simp

text \<open>
  Provided notes: an object number belongs to one note, and a note is of one asset.
\<close>

definition objs_ok :: "'o obj list \<Rightarrow> bool" where
  "objs_ok us \<longleftrightarrow> (\<forall>u\<in>set us. note_ok (snd u) \<and> (erc20_of (snd u) = 0 \<or> nft_of (snd u) = 0)) \<and>
     (\<forall>u\<in>set us. \<forall>v\<in>set us. fst u = fst v \<longrightarrow> u = v)"

lemma splice_obj_found:
  "u \<in> set us \<Longrightarrow> \<exists>v rest. splice_obj (fst u) us = Some ([v], rest) \<and> v \<in> set us \<and> fst v = fst u"
  by (induction us) auto

lemma pool_set: "pool s = mset us \<Longrightarrow> set (sel_spendables s) \<union> set (sel_spendings s) = set us"
  unfolding pool_def by (metis set_mset_mset set_mset_union)

text \<open>A note that is moved is among the spent ones, also when it was moved before.\<close>

lemma move_spends:
  assumes "pool s = mset all" and "objs_ok all" and "u \<in> set all"
  shows "u \<in> set (sel_spendings (move u s))"
proof (cases "u \<in> set (sel_spendables s)")
  case True
  from splice_obj_found [OF this] obtain v rest where v: "splice_obj (fst u) (sel_spendables s) = Some ([v], rest)"
    "v \<in> set (sel_spendables s)" "fst v = fst u" by blast
  have "v \<in> set all" using v(2) pool_set [OF assms(1)] by blast
  with v(3) assms(2,3) have "v = u" unfolding objs_ok_def by blast
  with v(1) show ?thesis by (simp add: move_def)
next
  case False
  then have "u \<in> set (sel_spendings s)" using assms(3) pool_set [OF assms(1)] by blast
  moreover obtain us where "sel_spendings (move u s) = sel_spendings s @ us"
    using extends_move [of s u] by (auto simp: extends_def)
  ultimately show ?thesis by simp
qed

lemma fold_move_spends:
  assumes "pool s = mset all" and "objs_ok all" and "set us \<subseteq> set all"
  shows "set us \<subseteq> set (sel_spendings (fold move us s))"
  using assms
proof (induction us arbitrary: s)
  case (Cons u us)
  have step: "pool (move u s) = mset all" using extends_move [of s u] Cons.prems(1) by (simp add: extends_def)
  obtain vs where "sel_spendings (fold move us (move u s)) = sel_spendings (move u s) @ vs"
    using extends_fold_move [of "move u s" us] by (auto simp: extends_def)
  with move_spends [OF Cons.prems(1,2), of u] Cons.IH [OF step Cons.prems(2)] Cons.prems(3) show ?case by auto
qed simp

lemma select_nfts_keys:
  assumes run: "select_nfts srt srt_ints all (addr, nfts) s = Ok s'"
    and pool: "pool s = mset all" "objs_ok all" and perm: "\<And>f xs. mset (srt f xs) = mset xs" "\<And>xs. mset (srt_ints xs) = mset xs"
    and nfts: "nfts \<noteq> []" "0 \<notin> set nfts"
  shows "addr \<in> fst ` set (nftsFrom (map snd (sel_spendings s')))"
proof -
  let ?found = "filter (\<lambda>u. tokenAddr_of (snd u) = addr \<and> nft_of (snd u) \<in> set nfts) all"
  have set: "set (srt_ints nfts) = set nfts" "length (srt_ints nfts) = length nfts"
    using perm(2) [of nfts] by (metis set_mset_mset, metis size_mset)
  have moved: "s' = fold move (srt (\<lambda>u. nft_of (snd u)) ?found) s" and len: "length ?found = length nfts"
    using run by (auto simp: select_nfts_def Let_def set split: if_splits)
  then obtain u where u: "u \<in> set ?found" using nfts(1) by (cases ?found) auto
  have same: "set (srt f us) = set us" for f us using perm(1) [of f us] by (metis set_mset_mset)
  have "set (srt (\<lambda>u. nft_of (snd u)) ?found) \<subseteq> set (sel_spendings s')"
    unfolding moved by (rule fold_move_spends [OF pool]) (auto simp: same)
  then have "u \<in> set (sel_spendings s')" using u same by auto
  moreover have "is_nft addr (snd u)"
    using u nfts(2) pool(2) by (auto simp: is_nft_def objs_ok_def)
  ultimately show ?thesis by (force simp: nft_keys)
qed

lemma nft_entries:
  "(addr, nfts) \<in> set (nftsFrom ns) \<Longrightarrow> nfts \<noteq> [] \<and> 0 \<notin> set nfts"
proof (induction ns arbitrary: addr nfts rule: rev_induct)
  case (snoc n ns)
  let ?old = "nftsFrom ns" and ?t = "tokenAddr_of n"
  have "(addr, nfts) \<in> set ?old \<or> nft_of n \<noteq> 0 \<and> (addr, nfts) = (?t, get_or [] ?old ?t @ [nft_of n])"
    using snoc.prems set_put [of ?t "get_or [] ?old ?t @ [nft_of n]" ?old]
    unfolding nftsFrom_snoc nft_step_def by (auto split: if_splits)
  then show ?case using snoc.IH [of addr nfts] snoc.IH [of ?t "get_or [] ?old ?t"] get_or_nfts [of ?old ?t] by auto
qed simp

lemma extends_nft_keys:
  "extends s s' \<Longrightarrow> fst ` set (nftsFrom (map snd (sel_spendings s))) \<subseteq> fst ` set (nftsFrom (map snd (sel_spendings s')))"
  by (auto simp: extends_def nft_keys)

lemma select_all_nft_keys:
  assumes "select_all (select_nfts srt srt_ints all) es s = Ok s'" and "(addr, nfts) \<in> set es"
    and "pool s = mset all" "objs_ok all" and perm: "\<And>f xs. mset (srt f xs) = mset xs" "\<And>xs. mset (srt_ints xs) = mset xs"
    and "nfts \<noteq> []" "0 \<notin> set nfts"
  shows "addr \<in> fst ` set (nftsFrom (map snd (sel_spendings s')))"
  using assms(1-3)
proof (induction es arbitrary: s)
  case (Cons e es)
  then obtain t where t: "select_nfts srt srt_ints all e s = Ok t" "select_all (select_nfts srt srt_ints all) es t = Ok s'"
    by (cases "select_nfts srt srt_ints all e s") auto
  have ext: "extends s t" "extends t s'"
    by (rule select_nfts_ok [OF t(1)]) (rule select_all_extends [OF _ t(2)], rule select_nfts_ok)
  show ?case
  proof (cases "e = (addr, nfts)")
    case True
    from select_nfts_keys [OF t(1) [unfolded True] Cons.prems(3) assms(4) perm assms(7,8)] extends_nft_keys [OF ext(2)]
    show ?thesis by blast
  next
    case False
    show ?thesis by (rule Cons.IH [OF t(2)]) (use Cons.prems False ext(1) in \<open>auto simp: extends_def\<close>)
  qed
qed simp

section \<open>Ether\<close>

lemma take_eth_ok:
  assumes "take_eth b k rest spendings = Ok r"
  shows "mset r \<subseteq># mset spendings + mset rest \<and> (\<exists>us. r = spendings @ us) \<and>
    getRequiredETH b (length r) k < etherFrom (map snd r)"
  using assms
proof (induction b k rest spendings rule: take_eth.induct)
  case (1 b k rest spendings)
  show ?case
  proof (cases "etherFrom (map snd spendings) \<le> getRequiredETH b (length spendings) k")
    case False
    then show ?thesis using 1(2) by (simp add: take_eth.simps [of b k rest spendings])
  next
    case True
    then obtain u us where u: "rest = u # us"
      using 1(2) by (cases rest) (simp_all add: take_eth.simps [of b k "[]" spendings])
    let ?next = "if 0 < eth_of (snd u) then spendings @ [u] else spendings"
    have "take_eth b k us ?next = Ok r"
      using 1(2) True u by (simp add: take_eth.simps [of b k "u # us" spendings])
    from 1(1) [OF True u this]
    have IH: "mset r \<subseteq># mset ?next + mset us" "\<exists>vs. r = ?next @ vs"
      "getRequiredETH b (length r) k < etherFrom (map snd r)" by blast+
    have "mset ?next + mset us \<subseteq># mset spendings + mset rest" by (simp add: u)
    with IH(1) have "mset r \<subseteq># mset spendings + mset rest" by (rule subset_mset.order_trans)
    moreover have "\<exists>us. r = spendings @ us" using IH(2) by auto
    ultimately show ?thesis using IH(3) by blast
  qed
qed

section \<open>Change notes\<close>

lemma new_notes_ok [simp]:
  "0 \<le> eth \<Longrightarrow> note_ok (newEtherNote own eth s r)"
  "0 \<le> eth \<Longrightarrow> 0 \<le> t \<Longrightarrow> 0 \<le> a \<Longrightarrow> note_ok (newERC20Note own eth t a s r)"
  "0 \<le> eth \<Longrightarrow> 0 \<le> t \<Longrightarrow> 0 \<le> a \<Longrightarrow> note_ok (newNFTNote own eth t a s r)"
  by (simp_all add: note_ok_def newEtherNote_def newERC20Note_def newNFTNote_def Utxo_from_def fp_new_valid)

definition change_for :: "'o \<Rightarrow> 'o zk_note \<Rightarrow> bool" where
  "change_for own n \<longleftrightarrow> owner n = own \<and> note_class n = Utxo_class"

lemma new_notes_change [simp]:
  "change_for own (newEtherNote own eth s r)"
  "change_for own (newERC20Note own eth t a s r)"
  "change_for own (newNFTNote own eth t a s r)"
  by (simp_all add: change_for_def newEtherNote_def newERC20Note_def newNFTNote_def Utxo_from_def)

lemma foldl_appends:
  assumes "\<And>e acc. e \<in> set es \<Longrightarrow> \<exists>ns. step acc e = acc @ ns \<and> list_all P ns"
  shows "\<exists>ns. foldl step acc es = acc @ ns \<and> list_all P ns"
  using assms
proof (induction es arbitrary: acc)
  case (Cons e es)
  obtain ns where ns: "step acc e = acc @ ns" "list_all P ns" using Cons.prems [of e acc] by auto
  have "\<exists>ms. foldl step (acc @ ns) es = (acc @ ns) @ ms \<and> list_all P ms"
    by (rule Cons.IH) (use Cons.prems in simp)
  with ns show ?case by (metis append_assoc foldl_Cons list_all_append)
qed simp

text \<open>A change note is well-formed, owned by the sender, and of a token only if that token is spent.\<close>

definition change_ok :: "'o \<Rightarrow> int set \<Rightarrow> int set \<Rightarrow> 'o zk_note \<Rightarrow> bool" where
  "change_ok own tokens nfts n \<longleftrightarrow>
     note_ok n \<and> change_for own n \<and> (erc20_of n = 0 \<or> tokenAddr_of n \<in> tokens) \<and>
     (nft_of n = 0 \<or> tokenAddr_of n \<in> nfts)"

lemma fp_sub_valid: "fp_valid a \<Longrightarrow> fp_valid b \<Longrightarrow> fp_valid (fp_sub a b)"
  by (rule fp.sub_valid)

lemma getERC20_valid: "list_all note_ok ns \<Longrightarrow> fp_valid (getERC20 (Sum_from ns) addr)"
  by (simp add: erc20_total)

lemma erc20_changes_ok:
  assumes "list_all note_ok ns" and "list_all note_ok ms"
    and "\<And>addr. addr \<in> fst ` set (erc20From ns) \<Longrightarrow> fp_valid addr"
  shows "list_all (change_ok own (fst ` set (erc20From ns)) N) (erc20_changes random own (Sum_from ns) (Sum_from ms))"
proof -
  let ?P = "change_ok own (fst ` set (erc20From ns)) N"
  have "?P (newERC20Note own 0 addr (fp_sub (getERC20 (Sum_from ns) addr) (getERC20 (Sum_from ms) addr)) None r)"
    if "addr \<in> fst ` set (erc20From ns)" for addr r
  proof -
    have "fp_valid addr" by (rule assms(3) [OF that])
    moreover have "fp_valid (fp_sub (getERC20 (Sum_from ns) addr) (getERC20 (Sum_from ms) addr))"
      by (intro fp_sub_valid getERC20_valid assms)
    ultimately show ?thesis
      using that by (simp add: change_ok_def fp_valid_nonneg) (simp add: newERC20Note_def Utxo_from_def)
  qed
  note new = this
  have "\<exists>l. erc20_changes random own (Sum_from ns) (Sum_from ms) = [] @ l \<and> list_all ?P l"
    unfolding erc20_changes_def
  proof (rule foldl_appends)
    fix e acc assume "e \<in> set (sum_erc20 (Sum_from ns))"
    then have "fst e \<in> fst ` set (erc20From ns)" by (simp add: Sum_from_def)
    then show "\<exists>l. (case e of (addr, x) \<Rightarrow>
        let change = fp_sub (getERC20 (Sum_from ns) addr) (getERC20 (Sum_from ms) addr) in
        if change \<noteq> 0 then acc @ [newERC20Note own 0 addr change None (random (length acc))] else acc) =
        acc @ l \<and> list_all ?P l"
      using new [of "fst e" "random (length acc)"] by (cases e) (simp add: Let_def)
  qed
  then show ?thesis by auto
qed

lemma erc20_keys_valid: "list_all note_ok ns \<Longrightarrow> addr \<in> fst ` set (erc20From ns) \<Longrightarrow> fp_valid addr"
proof (induction ns rule: rev_induct)
  case (snoc n ns)
  then show ?case by (auto simp: erc20From_snoc erc20_step_def note_ok_def split: if_splits)
qed (simp add: erc20From_def)

lemma nft_entries_valid:
  "list_all note_ok ns \<Longrightarrow> (addr, nfts) \<in> set (nftsFrom ns) \<Longrightarrow> fp_valid addr \<and> list_all fp_valid nfts"
proof (induction ns arbitrary: addr nfts rule: rev_induct)
  case (snoc n ns)
  let ?old = "nftsFrom ns" and ?t = "tokenAddr_of n"
  have ok: "note_ok n" "list_all note_ok ns" using snoc.prems by simp_all
  have old: "list_all fp_valid (get_or [] ?old ?t)"
    using get_or_nfts [of ?old ?t] snoc.IH [OF ok(2)] by auto
  have "nftsFrom (ns @ [n]) = nft_step ?old n" by (simp add: nftsFrom_def)
  then have "(addr, nfts) \<in> set ?old \<or> (addr, nfts) = (?t, get_or [] ?old ?t @ [nft_of n])"
    using snoc.prems(2) set_put [of ?t "get_or [] ?old ?t @ [nft_of n]" ?old]
    unfolding nft_step_def by (auto split: if_splits)
  then show ?case using snoc.IH [OF ok(2)] old ok(1) by (auto simp: note_ok_def)
qed (simp add: nftsFrom_def)

lemma extra_valid:
  assumes "list_all note_ok ns" and "(addr, nft) \<in> set (extraNFTs (Sum_from ns) sending)"
  shows "fp_valid addr \<and> fp_valid nft"
  using assms(2) nft_entries_valid [OF assms(1)]
  by (fastforce simp: extraNFTs_def Sum_from_def list_all_iff)

lemma nft_changes_ok:
  fixes changes :: "'o zk_note list"
  assumes "list_all note_ok ns" and "list_all (change_ok own K N) changes" and "fst ` set (nftsFrom ns) \<subseteq> N"
  shows "list_all (change_ok own K N) (nft_changes random own (extraNFTs (Sum_from ns) sending) changes)"
proof -
  have "\<exists>l. nft_changes random own (extraNFTs (Sum_from ns) sending) changes = changes @ l \<and>
      list_all (change_ok own K N) l"
    unfolding nft_changes_def
  proof (rule foldl_appends)
    fix e and acc :: "'o zk_note list" assume e: "e \<in> set (extraNFTs (Sum_from ns) sending)"
    obtain addr nft where "e = (addr, nft)" by (cases e)
    with extra_valid [OF assms(1)] e have "fp_valid addr" "fp_valid nft" by auto
    moreover have "addr \<in> N" using e \<open>e = _\<close> assms(3) by (force simp: extraNFTs_def Sum_from_def)
    ultimately have "change_ok own K N (newNFTNote own 0 addr nft None (random (length acc)))"
      by (simp add: change_ok_def fp_valid_nonneg) (simp add: newNFTNote_def Utxo_from_def)
    then show "\<exists>l. (case e of (addr, nft) \<Rightarrow>
        acc @ [newNFTNote own 0 addr nft None (random (length acc))]) = acc @ l \<and> list_all (change_ok own K N) l"
      using \<open>e = _\<close> by simp
  qed
  then show ?thesis using assms(2) by auto
qed

section \<open>Finishing\<close>

lemma l1Fee_total:
  assumes "list_all note_ok (sendings b)"
  shows "l1Fee b = total_of (\<lambda>n. public_fee (note_class n)) (sendings b) mod FP_ORDER"
proof -
  have "l1Fee b = total_of (\<lambda>n. public_fee (note_class n))
      (filter (\<lambda>n. note_class n \<noteq> Utxo_class) (sendings b)) mod FP_ORDER"
    unfolding l1Fee_def by (rule foldl_fp_add) (use assms in \<open>auto simp: list_all_iff dest: note_okD\<close>)
  moreover have "total_of (\<lambda>n. public_fee (note_class n)) (filter (\<lambda>n. note_class n \<noteq> Utxo_class) ns) =
      total_of (\<lambda>n. public_fee (note_class n)) ns" for ns :: "'a zk_note list"
    by (induction ns) auto
  ultimately show ?thesis by simp
qed

lemma getTxFee_valid: "fp_valid (feePerByte b) \<Longrightarrow> fp_valid (getTxFee b m k)"
  by (simp add: getTxFee_def fp_new_valid fp_valid_nonneg)

lemma getRequiredETH_valid:
  assumes "list_all note_ok (sendings b)" and "fp_valid (feePerByte b)"
  shows "fp_valid (getRequiredETH b m k)"
  unfolding getRequiredETH_def
  using assms by (intro fp.add_valid getTxFee_valid) (simp_all add: etherFrom_total l1Fee_total)

lemma total_map_cong: "(\<And>n. n \<in> set ns \<Longrightarrow> f n = g n) \<Longrightarrow> total_of f ns = total_of g ns"
  by (induction ns) simp_all

lemma finish_build_ok:
  assumes "finish_build random b changes spendings = Ok raw"
    and "getRequiredETH b (length spendings) (length changes) < etherFrom (map snd spendings)"
    and ok: "list_all note_ok (map snd spendings)" "list_all note_ok (sendings b)" "fp_valid (feePerByte b)"
    and changes: "list_all (change_ok (changeTo b) K N) changes"
  shows "raw_inflow raw = spendings \<and>
    (\<exists>extra. raw_outflow raw = sendings b @ extra \<and> list_all (change_ok (changeTo b) K N) extra \<and>
      extra \<noteq> [] \<and> 0 < eth_of (last extra)) \<and>
    raw_fee raw = getTxFee b (length spendings) (length changes) \<and>
    balanced (Sum_from (map snd spendings)) (Sum_from (raw_outflow raw)) (raw_fee raw) (l1Fee b) = Ok ()"
proof -
  let ?spent = "etherFrom (map snd spendings)" and ?req = "getRequiredETH b (length spendings) (length changes)"
  have valid: "fp_valid ?spent" "fp_valid ?req"
    by (simp add: etherFrom_total [OF ok(1)]) (rule getRequiredETH_valid [OF ok(2,3)])
  have diff: "fp_sub ?spent ?req = ?spent - ?req"
    using assms(2) valid by (simp add: fp.sub_mod) (simp add: ff_valid_def)
  let ?eth = "newEtherNote (changeTo b) (?spent - ?req) None (random (length changes))"
  have new: "change_ok (changeTo b) K N ?eth" "eth_of ?eth = ?spent - ?req"
  proof -
    have "fp_valid (?spent - ?req)" using assms(2) valid by (simp add: ff_valid_def)
    then show "eth_of ?eth = ?spent - ?req" by (simp add: newEtherNote_def Utxo_from_def)
    show "change_ok (changeTo b) K N ?eth"
      using assms(2) by (simp add: change_ok_def) (simp add: newEtherNote_def Utxo_from_def)
  qed
  let ?out = "sendings b @ changes @ [?eth]"
  have "bind_result (balanced (Sum_from (map snd spendings)) (Sum_from ?out)
      (getTxFee b (length spendings) (length changes)) (l1Fee b))
      (\<lambda>_. Ok \<lparr>raw_inflow = spendings, raw_outflow = ?out, raw_swap = bld_swap b,
        raw_fee = getTxFee b (length spendings) (length changes),
        raw_withdrawals = filter (\<lambda>n. outflowType n = WITHDRAWAL) (sendings b)\<rparr>) = Ok raw"
    using assms(1,2) diff by (simp add: finish_build_def Let_def)
  then have raw: "raw_inflow raw = spendings" "raw_outflow raw = ?out"
      "raw_fee raw = getTxFee b (length spendings) (length changes)"
    and bal: "balanced (Sum_from (map snd spendings)) (Sum_from ?out) (raw_fee raw) (l1Fee b) = Ok ()"
    by (cases "balanced (Sum_from (map snd spendings)) (Sum_from ?out)
        (getTxFee b (length spendings) (length changes)) (l1Fee b)", auto)+
  show ?thesis
  proof (intro conjI exI)
    show "raw_outflow raw = sendings b @ (changes @ [?eth])" by (simp add: raw)
    show "list_all (change_ok (changeTo b) K N) (changes @ [?eth])" using changes new by simp
    show "0 < eth_of (last (changes @ [?eth]))" using new(2) assms(2) by simp
  qed (use raw bal in simp_all)
qed

section \<open>Balance\<close>

lemma balanced_Ok:
  assumes "balanced i out fee l1 = Ok ()"
  shows "sum_eth i = fp_add (fp_add (sum_eth out) fee) l1"
    and "addr \<in> fst ` set (sum_erc20 i) \<Longrightarrow> getERC20 i addr = getERC20 out addr"
    and "addr \<in> fst ` set (sum_erc721 i) \<Longrightarrow> getNFTs i addr = getNFTs out addr"
  using assms by (auto simp: balanced_def list_ex_iff split: if_splits)

lemma counts_erc20_change:
  assumes "list_all (change_ok own K N) ns" and "addr \<notin> K"
  shows "total_of (counts_erc20 addr) ns = 0"
  using assms by (induction ns) (auto simp: counts_erc20_def change_ok_def)

lemma change_ok_notes: "list_all (change_ok own K N) ns \<Longrightarrow> list_all note_ok ns \<and> list_all (change_for own) ns"
  by (auto simp: list_all_iff change_ok_def)

lemma notes_of_subset:
  assumes "list_all (\<lambda>u. note_ok (snd u)) us" and "mset vs \<subseteq># mset us"
  shows "list_all note_ok (map snd vs)"
proof -
  have "set vs \<subseteq> set us" using set_mset_mono [OF assms(2)] by simp
  then have "note_ok (snd v)" if "v \<in> set vs" for v using that assms(1) by (auto simp: list_all_iff)
  then show ?thesis by (simp add: list_all_iff)
qed

lemma build_stages:
  assumes build: "build srt srt_ints random b = Ok raw"
    and perm: "\<And>f xs. mset (srt f xs) = mset xs"
    and perm_ints: "\<And>xs. mset (srt_ints xs) = mset xs"
    and objs: "objs_ok (spendables b)" and ok: "list_all note_ok (sendings b)" "fp_valid (feePerByte b)"
  obtains K N extra where "mset (raw_inflow raw) \<subseteq># mset (spendables b)"
    and "raw_outflow raw = sendings b @ extra" and "list_all (change_ok (changeTo b) K N) extra"
    and "extra \<noteq> []" and "0 < eth_of (last extra)" and "fp_valid (raw_fee raw)"
    and "balanced (Sum_from (map snd (raw_inflow raw))) (Sum_from (raw_outflow raw)) (raw_fee raw) (l1Fee b) = Ok ()"
    and "K \<subseteq> fst ` set (erc20From (map snd (raw_inflow raw)))"
    and "\<And>addr. 0 < getERC20 (Sum_from (sendings b)) addr \<Longrightarrow>
      addr \<in> fst ` set (erc20From (map snd (raw_inflow raw)))"
    and "N \<subseteq> fst ` set (nftsFrom (map snd (raw_inflow raw)))"
    and "fst ` set (nftsFrom (sendings b)) \<subseteq> fst ` set (nftsFrom (map snd (raw_inflow raw)))"
proof -
  have each: "list_all (\<lambda>u. note_ok (snd u)) (spendables b)" using objs by (auto simp: objs_ok_def list_all_iff)
  let ?start = "\<lparr>sel_spendables = spendables b, sel_spendings = []\<rparr>"
  let ?sending = "Sum_from (sendings b)"
  obtain s1 where s1: "select_all (select_erc20 srt (spendables b)) (sum_erc20 ?sending) ?start = Ok s1"
    using build by (cases "select_all (select_erc20 srt (spendables b)) (sum_erc20 ?sending) ?start")
      (simp_all add: build_def Let_def)
  obtain s2 where s2: "select_all (select_nfts srt srt_ints (spendables b)) (sum_erc721 ?sending) s1 = Ok s2"
    using build s1 by (cases "select_all (select_nfts srt srt_ints (spendables b)) (sum_erc721 ?sending) s1")
      (simp_all add: build_def Let_def)
  let ?c20 = "erc20_changes random (changeTo b) (spending_sum s2) ?sending"
  let ?changes = "nft_changes random (changeTo b) (extraNFTs (spending_sum s2) ?sending) ?c20"
  let ?rest = "rev (srt (\<lambda>u. eth_of (snd u)) (sel_spendables s2))"
  obtain r where r: "take_eth b (length ?changes) ?rest (sel_spendings s2) = Ok r"
    and fin: "finish_build random b ?changes r = Ok raw"
    using build s1 s2 by (cases "take_eth b (length ?changes) ?rest (sel_spendings s2)")
      (simp_all add: build_def Let_def)
  have e1: "extends ?start s1"
    by (rule select_all_extends [OF _ s1]) (metis prod.collapse select_erc20_ok)
  have e2: "extends s1 s2"
    by (rule select_all_extends [OF _ s2]) (rule select_nfts_ok)
  have pool2: "mset (sel_spendables s2) + mset (sel_spendings s2) = mset (spendables b)"
    using extends_trans [OF e1 e2] by (simp add: extends_def pool_def)
  have "mset r \<subseteq># mset (sel_spendings s2) + mset ?rest"
    and rus: "\<exists>us. r = sel_spendings s2 @ us"
    and more: "getRequiredETH b (length r) (length ?changes) < etherFrom (map snd r)"
    using take_eth_ok [OF r] by blast+
  then have sub: "mset r \<subseteq># mset (spendables b)" using perm pool2 by (simp add: add.commute)
  have ok_r: "list_all note_ok (map snd r)" by (rule notes_of_subset [OF each sub])
  have "mset (sel_spendings s2) \<subseteq># mset (spendables b)" unfolding pool2 [symmetric] by simp
  then have ok_s2: "list_all note_ok (map snd (sel_spendings s2))" by (rule notes_of_subset [OF each])
  let ?K = "fst ` set (erc20From (map snd (sel_spendings s2)))"
  let ?N = "fst ` set (nftsFrom (map snd (sel_spendings s2)))"
  have changes: "list_all (change_ok (changeTo b) ?K ?N) ?changes"
    by (rule nft_changes_ok [OF ok_s2 erc20_changes_ok [OF ok_s2 ok(1) erc20_keys_valid [OF ok_s2]] order_refl])
  have keys: "?K \<subseteq> fst ` set (erc20From (map snd r))"
  proof -
    obtain us where "r = sel_spendings s2 @ us" using rus ..
    then show ?thesis using erc20_keys_mono [of "map snd (sel_spendings s2)" "map snd us"] by simp
  qed
  have nft_keys: "?N \<subseteq> fst ` set (nftsFrom (map snd r))" using rus by (auto simp: nft_keys)
  note F = finish_build_ok [OF fin more ok_r ok changes]
  then have inflow: "raw_inflow raw = r" by blast
  obtain extra where extra: "raw_outflow raw = sendings b @ extra"
    "list_all (change_ok (changeTo b) ?K ?N) extra" "extra \<noteq> []" "0 < eth_of (last extra)"
    using F by blast
  have fee: "fp_valid (raw_fee raw)" using F getTxFee_valid [OF ok(2)] by simp
  have "addr \<in> fst ` set (erc20From (map snd r))" if pos: "0 < getERC20 ?sending addr" for addr
  proof -
    have "(addr, getERC20 ?sending addr) \<in> set (sum_erc20 ?sending)"
      using pos by (auto simp: getERC20_def get_or_def dest: map_of_SomeD split: option.splits)
    from select_all_erc20_keys [OF s1 this pos] have "addr \<in> fst ` set (sum_erc20 (spending_sum s1))" .
    then have "addr \<in> ?K" using extends_keys [OF e2] by (auto simp: Sum_from_def)
    then show ?thesis using keys by blast
  qed
  moreover have "fst ` set (nftsFrom (sendings b)) \<subseteq> fst ` set (nftsFrom (map snd r))"
  proof clarify
    fix addr nfts assume entry: "(addr, nfts) \<in> set (nftsFrom (sendings b))"
    have "pool s1 = mset (spendables b)" using e1 by (simp add: extends_def pool_def)
    from select_all_nft_keys [OF s2 _ this objs perm perm_ints, of addr nfts] entry nft_entries [OF entry] nft_keys
    show "fst (addr, nfts) \<in> fst ` set (nftsFrom (map snd r))" by (auto simp: Sum_from_def)
  qed
  ultimately show thesis
    using that [of extra ?K ?N] sub extra fee F keys nft_keys unfolding inflow by blast
qed

lemma build_nfts:
  assumes extra: "out = sendings b @ extra" "list_all (change_ok own K N) extra"
    and bal: "balanced (Sum_from ins) (Sum_from out) fee l1 = Ok ()"
    and keys: "N \<subseteq> fst ` set (nftsFrom ins)" "fst ` set (nftsFrom (sendings b)) \<subseteq> fst ` set (nftsFrom ins)"
  shows "nfts_of addr ins = nfts_of addr out"
proof (cases "addr \<in> fst ` set (nftsFrom ins)")
  case True
  then show ?thesis using balanced_Ok(3) [OF bal, of addr] unfolding getNFTs_eq by (simp add: Sum_from_def)
next
  case False
  then have "nfts_of addr (sendings b) = []" using keys(2) by (auto simp: nfts_of_empty)
  moreover have "nfts_of addr extra = []"
    using False keys(1) extra(2) by (auto simp: nfts_of_def filter_empty_conv list_all_iff change_ok_def is_nft_def)
  moreover have "nfts_of addr ins = []" using False by (simp add: nfts_of_empty)
  ultimately show ?thesis by (simp add: extra(1))
qed

text \<open>C18: A raw transaction that the builder returns from provided notes of one asset each spends provided
  notes only, each at most once, sends what was asked for and returns the rest in new notes of the
  sender, the last of which is a positive amount of Ether. Ether in and out balance with the transaction
  fee and the fees for the layer below, and so does every ERC20 token, modulo the order of the field; the
  NFTs of every address that the spent notes hold are those of the new notes, one by one and in the same
  order, so that none is dropped, doubled or made up.\<close>

theorem build_conserves:
  assumes build: "build srt srt_ints random b = Ok raw"
    and perm: "\<And>f xs. mset (srt f xs) = mset xs" "\<And>xs. mset (srt_ints xs) = mset xs"
    and objs: "objs_ok (spendables b)" and ok: "list_all note_ok (sendings b)" "fp_valid (feePerByte b)"
  shows "mset (raw_inflow raw) \<subseteq># mset (spendables b) \<and>
    (\<exists>extra. raw_outflow raw = sendings b @ extra \<and> list_all (change_for (changeTo b)) extra \<and>
      extra \<noteq> [] \<and> 0 < eth_of (last extra)) \<and>
    total_of eth_of (map snd (raw_inflow raw)) mod FP_ORDER =
      (total_of eth_of (raw_outflow raw) + raw_fee raw +
       total_of (\<lambda>n. public_fee (note_class n)) (sendings b)) mod FP_ORDER \<and>
    total_of (counts_erc20 addr) (map snd (raw_inflow raw)) mod FP_ORDER =
      total_of (counts_erc20 addr) (raw_outflow raw) mod FP_ORDER \<and>
    nfts_of addr (map snd (raw_inflow raw)) = nfts_of addr (raw_outflow raw)"
proof -
  obtain K N extra where sub: "mset (raw_inflow raw) \<subseteq># mset (spendables b)"
    and extra: "raw_outflow raw = sendings b @ extra" "list_all (change_ok (changeTo b) K N) extra"
      "extra \<noteq> []" "0 < eth_of (last extra)"
    and fee: "fp_valid (raw_fee raw)"
    and bal: "balanced (Sum_from (map snd (raw_inflow raw))) (Sum_from (raw_outflow raw)) (raw_fee raw) (l1Fee b) = Ok ()"
    and keys: "K \<subseteq> fst ` set (erc20From (map snd (raw_inflow raw)))"
      "\<And>addr. 0 < getERC20 (Sum_from (sendings b)) addr \<Longrightarrow>
        addr \<in> fst ` set (erc20From (map snd (raw_inflow raw)))"
    and nft: "N \<subseteq> fst ` set (nftsFrom (map snd (raw_inflow raw)))"
      "fst ` set (nftsFrom (sendings b)) \<subseteq> fst ` set (nftsFrom (map snd (raw_inflow raw)))"
    by (rule build_stages [OF build perm objs ok]) blast
  have each: "list_all (\<lambda>u. note_ok (snd u)) (spendables b)" using objs by (auto simp: objs_ok_def list_all_iff)
  have ok_in: "list_all note_ok (map snd (raw_inflow raw))" by (rule notes_of_subset [OF each sub])
  have ok_out: "list_all note_ok (raw_outflow raw)"
    using ok(1) extra(1) change_ok_notes [OF extra(2)] by simp
  have "0 \<le> raw_fee raw" using fee by (simp add: ff_valid_def)
  then have eth: "total_of eth_of (map snd (raw_inflow raw)) mod FP_ORDER =
      (total_of eth_of (raw_outflow raw) + raw_fee raw +
       total_of (\<lambda>n. public_fee (note_class n)) (sendings b)) mod FP_ORDER"
    using balanced_Ok(1) [OF bal] etherFrom_total [OF ok_in] etherFrom_total [OF ok_out] l1Fee_total [OF ok(1)]
    by (simp add: Sum_from_def fp_add_mod mod_simps)
  have erc20: "total_of (counts_erc20 addr) (map snd (raw_inflow raw)) mod FP_ORDER =
      total_of (counts_erc20 addr) (raw_outflow raw) mod FP_ORDER"
  proof (cases "addr \<in> fst ` set (erc20From (map snd (raw_inflow raw)))")
    case True
    then show ?thesis
      using balanced_Ok(2) [OF bal, of addr] erc20_total [OF ok_in] erc20_total [OF ok_out]
      by (simp add: Sum_from_def)
  next
    case False
    have "total_of (counts_erc20 addr) extra = 0"
      by (rule counts_erc20_change [OF extra(2)]) (use False keys(1) in blast)
    moreover have "getERC20 (Sum_from (sendings b)) addr = 0"
      using False keys(2) [of addr] getERC20_valid [OF ok(1), of addr] by (force simp: ff_valid_def)
    moreover have "getERC20 (Sum_from (map snd (raw_inflow raw))) addr = 0"
      by (rule getERC20_absent) (use False in \<open>simp add: Sum_from_def\<close>)
    ultimately show ?thesis
      using erc20_total [OF ok_in, of addr] erc20_total [OF ok(1), of addr] extra(1) by simp
  qed
  show ?thesis
    using sub extra eth erc20 change_ok_notes [OF extra(2)] build_nfts [OF extra(1,2) bal nft] by blast
qed

end
