(* ===== verification/Tx_Builder_Ether.thy ===== *)
theory Tx_Builder_Ether
  imports Tx_Builder_Proofs
begin

text \<open>
  When the builder returns a transaction. The loop that collects Ether ends: when the notes are worth more
  than what is sent and all fees it collects enough, and only the check of the tokens can refuse the
  transaction; when they are worth no more than what is sent and the fees for the layer below there is not
  enough Ether. For a builder without tokens the transaction is returned.
\<close>

definition pure_ether :: "'o zk_note \<Rightarrow> bool" where
  "pure_ether n \<longleftrightarrow> erc20_of n = 0 \<and> nft_of n = 0"

lemma pure_ether_sums:
  "list_all pure_ether ns \<Longrightarrow> erc20From ns = [] \<and> nftsFrom ns = []"
  by (induction ns rule: rev_induct)
    (simp_all add: erc20From_def nftsFrom_def erc20_step_def nft_step_def pure_ether_def)

text \<open>The two stages of \<open>build\<close> before the loop: the notes selected for tokens, and the change notes for tokens.\<close>

definition token_selection ::
  "'o sorter \<Rightarrow> (int list \<Rightarrow> int list) \<Rightarrow> 'o tx_builder \<Rightarrow> 'o selection result" where
  "token_selection srt srt_ints b =
     bind_result (select_all (select_erc20 srt (spendables b)) (sum_erc20 (Sum_from (sendings b)))
       \<lparr>sel_spendables = spendables b, sel_spendings = []\<rparr>)
     (select_all (select_nfts srt srt_ints (spendables b)) (sum_erc721 (Sum_from (sendings b))))"

definition token_changes :: "(nat \<Rightarrow> int) \<Rightarrow> 'o tx_builder \<Rightarrow> 'o selection \<Rightarrow> 'o zk_note list" where
  "token_changes random b s =
     nft_changes random (changeTo b) (extraNFTs (spending_sum s) (Sum_from (sendings b)))
       (erc20_changes random (changeTo b) (spending_sum s) (Sum_from (sendings b)))"

lemma build_stages_eq:
  "build srt srt_ints random b =
     bind_result (token_selection srt srt_ints b) (\<lambda>s.
     bind_result (take_eth b (length (token_changes random b s))
       (rev (srt (\<lambda>u. eth_of (snd u)) (sel_spendables s))) (sel_spendings s))
     (finish_build random b (token_changes random b s)))"
  by (cases "select_all (select_erc20 srt (spendables b)) (sum_erc20 (Sum_from (sendings b)))
      \<lparr>sel_spendables = spendables b, sel_spendings = []\<rparr>")
    (simp_all add: build_def token_selection_def token_changes_def Let_def)

lemma selection_pool:
  assumes "token_selection srt srt_ints b = Ok s"
  shows "mset (sel_spendables s) + mset (sel_spendings s) = mset (spendables b)"
proof -
  from assms obtain s1 where
    s1: "select_all (select_erc20 srt (spendables b)) (sum_erc20 (Sum_from (sendings b)))
       \<lparr>sel_spendables = spendables b, sel_spendings = []\<rparr> = Ok s1"
    and s2: "select_all (select_nfts srt srt_ints (spendables b)) (sum_erc721 (Sum_from (sendings b))) s1 = Ok s"
    by (auto simp: token_selection_def)
  have "extends \<lparr>sel_spendables = spendables b, sel_spendings = []\<rparr> s1"
    by (rule select_all_extends [OF _ s1]) (metis prod.collapse select_erc20_ok)
  moreover have "extends s1 s" by (rule select_all_extends [OF _ s2]) (rule select_nfts_ok)
  ultimately show ?thesis by (simp add: extends_def pool_def)
qed

text \<open>The change notes for tokens carry no Ether.\<close>

lemma token_changes_eth: "list_all (\<lambda>n. eth_of n = 0) (token_changes random b s)"
proof -
  have new: "eth_of (newERC20Note own 0 t a sl r) = 0" "eth_of (newNFTNote own 0 t a sl r) = 0" for own :: 'a and t a sl r
    by (simp_all add: newERC20Note_def newNFTNote_def Utxo_from_def)
  let ?P = "\<lambda>n :: 'a zk_note. eth_of n = 0"
  let ?c = "erc20_changes random (changeTo b) (spending_sum s) (Sum_from (sendings b))"
  have "\<exists>l. ?c = [] @ l \<and> list_all ?P l"
    unfolding erc20_changes_def by (rule foldl_appends) (auto simp: Let_def new)
  moreover have "\<exists>l. token_changes random b s = ?c @ l \<and> list_all ?P l"
    unfolding token_changes_def nft_changes_def by (rule foldl_appends) (auto simp: new)
  ultimately show ?thesis by auto
qed

text \<open>The integers that the field elements of the builder stand for, with \<open>k\<close> change notes for tokens.\<close>

definition fee_for :: "'o tx_builder \<Rightarrow> nat \<Rightarrow> nat \<Rightarrow> int" where
  "fee_for b m k = feePerByte b * int (txSizeCalculator m (length (sendings b) + k + 1)
     (length (filter (\<lambda>n. outflowType n \<noteq> UTXO) (sendings b))) (bld_swap b \<noteq> None) False)"

definition asked :: "'o tx_builder \<Rightarrow> int" where
  "asked b = total_of eth_of (sendings b) + total_of (\<lambda>n. public_fee (note_class n)) (sendings b)"

definition builder_ok :: "'o tx_builder \<Rightarrow> nat \<Rightarrow> bool" where
  "builder_ok b k \<longleftrightarrow>
     list_all (\<lambda>u. note_ok (snd u)) (spendables b) \<and> list_all note_ok (sendings b) \<and> fp_valid (feePerByte b) \<and>
     total_of eth_of (map snd (spendables b)) < FP_ORDER \<and>
     asked b + fee_for b (length (spendables b)) k < FP_ORDER"

lemma fee_for_mono: "0 \<le> feePerByte b \<Longrightarrow> m \<le> m' \<Longrightarrow> fee_for b m k \<le> fee_for b m' k"
  unfolding fee_for_def by (rule mult_left_mono) (simp_all add: txSizeCalculator_def)

lemma totals_nonneg:
  assumes "list_all note_ok ns"
  shows "0 \<le> total_of eth_of ns" and "0 \<le> total_of (\<lambda>n. public_fee (note_class n)) ns"
  using assms by (auto intro!: total_nonneg simp: list_all_iff dest: note_okD)

lemma required_exact:
  assumes "builder_ok b k" and "m \<le> length (spendables b)"
  shows "getRequiredETH b m k = asked b + fee_for b m k" and "getTxFee b m k = fee_for b m k"
    and "l1Fee b = total_of (\<lambda>n. public_fee (note_class n)) (sendings b)"
    and "etherFrom (sendings b) = total_of eth_of (sendings b)"
    and "0 \<le> fee_for b m k" and "asked b + fee_for b m k < FP_ORDER"
proof -
  have ok: "list_all note_ok (sendings b)" and fee: "0 \<le> feePerByte b"
    and bound: "asked b + fee_for b (length (spendables b)) k < FP_ORDER"
    using assms(1) by (simp_all add: builder_ok_def ff_valid_def)
  note nonneg = totals_nonneg [OF ok]
  show 0: "0 \<le> fee_for b m k" by (simp add: fee_for_def fee)
  show less: "asked b + fee_for b m k < FP_ORDER"
    using fee_for_mono [OF fee assms(2)] bound by (meson add_left_mono dual_order.strict_trans2 linorder_not_less)
  then have small: "total_of eth_of (sendings b) < FP_ORDER" "fee_for b m k < FP_ORDER"
    "total_of (\<lambda>n. public_fee (note_class n)) (sendings b) < FP_ORDER"
    "total_of eth_of (sendings b) + fee_for b m k < FP_ORDER"
    using nonneg 0 by (simp_all add: asked_def)
  show fee_eq: "getTxFee b m k = fee_for b m k"
    using 0 small(2) by (simp add: getTxFee_def fee_for_def ff_valid_def)
  show l1: "l1Fee b = total_of (\<lambda>n. public_fee (note_class n)) (sendings b)"
    using l1Fee_total [OF ok] nonneg small by simp
  show eth: "etherFrom (sendings b) = total_of eth_of (sendings b)"
    using etherFrom_total [OF ok] nonneg small by simp
  show "getRequiredETH b m k = asked b + fee_for b m k"
    using nonneg 0 small less
    by (simp add: getRequiredETH_def fee_eq l1 eth fp_add_mod asked_def)
qed

text \<open>What is collected: the notes with Ether, in some order.\<close>

lemma take_eth_collects:
  assumes "list_all note_ok (map snd (spendings @ rest))"
    and "total_of eth_of (map snd (spendings @ rest)) < FP_ORDER"
    and "getRequiredETH b (length spendings + length (filter (\<lambda>u. 0 < eth_of (snd u)) rest)) k <
      total_of eth_of (map snd (spendings @ rest))"
  shows "\<exists>r. take_eth b k rest spendings = Ok r"
  using assms
proof (induction b k rest spendings rule: take_eth.induct)
  case (1 b k rest spendings)
  show ?case
  proof (cases "etherFrom (map snd spendings) \<le> getRequiredETH b (length spendings) k")
    case False
    then show ?thesis by (simp add: take_eth.simps [of b k rest spendings])
  next
    case True
    show ?thesis
    proof (cases rest)
      case Nil
      have "list_all note_ok (map snd spendings)" using 1(2) Nil by simp
      then have "etherFrom (map snd spendings) = total_of eth_of (map snd spendings)"
        using etherFrom_total totals_nonneg(1) 1(3) Nil by fastforce
      then show ?thesis using 1(4) True Nil by simp
    next
      case (Cons u us)
      let ?next = "if 0 < eth_of (snd u) then spendings @ [u] else spendings"
      have "eth_of (snd u) = 0" if "\<not> 0 < eth_of (snd u)"
        using 1(2) that note_okD(1) [of "snd u"] Cons by simp
      then have "\<exists>r. take_eth b k us ?next = Ok r"
        by (intro 1(1) [OF True Cons]) (use 1(2-4) Cons in auto)
      then show ?thesis using True Cons by (simp add: take_eth.simps [of b k "u # us" spendings])
    qed
  qed
qed

lemma take_eth_refuses:
  assumes "list_all note_ok (map snd (spendings @ rest))"
    and "total_of eth_of (map snd (spendings @ rest)) < FP_ORDER"
    and "\<And>m. m \<le> length (spendings @ rest) \<Longrightarrow>
      total_of eth_of (map snd (spendings @ rest)) \<le> getRequiredETH b m k"
  shows "take_eth b k rest spendings = Throw ''Not enough Ether''"
  using assms
proof (induction b k rest spendings rule: take_eth.induct)
  case (1 b k rest spendings)
  have ok: "list_all note_ok (map snd spendings)" "list_all note_ok (map snd rest)" using 1(2) by simp_all
  have "etherFrom (map snd spendings) \<le> total_of eth_of (map snd (spendings @ rest))"
    using etherFrom_total [OF ok(1)] totals_nonneg(1) [OF ok(1)] totals_nonneg(1) [OF ok(2)] 1(3) by simp
  also have "\<dots> \<le> getRequiredETH b (length spendings) k" by (rule 1(4)) simp
  finally have True: "etherFrom (map snd spendings) \<le> getRequiredETH b (length spendings) k" .
  show ?case
  proof (cases rest)
    case Nil
    then show ?thesis using True by (simp add: take_eth.simps [of b k "[]" spendings])
  next
    case (Cons u us)
    let ?next = "if 0 < eth_of (snd u) then spendings @ [u] else spendings"
    have "eth_of (snd u) = 0" if "\<not> 0 < eth_of (snd u)"
      using ok(2) that note_okD(1) [of "snd u"] Cons by simp
    then have "take_eth b k us ?next = Throw ''Not enough Ether''"
      by (intro 1(1) [OF True Cons]) (use 1(2-4) Cons in \<open>auto simp: add.assoc\<close>)
    then show ?thesis using True Cons by (simp add: take_eth.simps [of b k "u # us" spendings])
  qed
qed

text \<open>With enough Ether collected only the check of the tokens is left.\<close>

lemma etherFrom_no_eth: "list_all (\<lambda>n. eth_of n = 0) ms \<Longrightarrow> list_all note_ok ns \<Longrightarrow> etherFrom (ns @ ms) = etherFrom ns"
proof (induction ms rule: rev_induct)
  case (snoc m ms)
  then have "fp_valid (etherFrom ns)" by (simp add: etherFrom_total)
  then have "fp_add (etherFrom ns) 0 = etherFrom ns" by (simp add: fp_add_mod fp_valid_nonneg) (simp add: ff_valid_def)
  with snoc show ?case using etherFrom_snoc [of "ns @ ms" m] by simp
qed simp

lemma finish_ether:
  assumes b: "builder_ok b (length changes)" and sub: "mset r \<subseteq># mset (spendables b)"
    and more: "getRequiredETH b (length r) (length changes) < etherFrom (map snd r)"
    and changes: "list_all (\<lambda>n. eth_of n = 0) changes"
  shows "(\<exists>raw. finish_build random b changes r = Ok raw) \<or>
    finish_build random b changes r = Throw ''erc20 in-out is different'' \<or>
    finish_build random b changes r = Throw ''nft in-out is different''"
    and "list_all pure_ether (map snd r) \<Longrightarrow> \<exists>raw. finish_build random b changes r = Ok raw"
proof -
  let ?k = "length changes"
  have len: "length r \<le> length (spendables b)" using size_mset_mono [OF sub] by simp
  note req = required_exact [OF b len]
  have ok: "list_all note_ok (sendings b)" using b by (simp add: builder_ok_def)
  have ok_r: "list_all note_ok (map snd r)"
    using b notes_of_subset [OF _ sub] by (simp add: builder_ok_def)
  let ?spent = "etherFrom (map snd r)" and ?req = "asked b + fee_for b (length r) ?k"
  have less: "?req < ?spent" using more req(1) by simp
  have spent: "fp_valid ?spent" by (simp add: etherFrom_total [OF ok_r])
  note nonneg = totals_nonneg [OF ok]
  have valid: "fp_valid ?req" "fp_valid (?spent - ?req)"
    using req(5,6) nonneg less spent by (simp_all add: asked_def ff_valid_def)
  have diff: "fp_sub ?spent ?req = ?spent - ?req"
    using fp.sub_mod [OF spent valid(1)] valid(2) by (simp add: ff_valid_def)
  let ?eth = "newEtherNote (changeTo b) (?spent - ?req) None (random ?k)"
  let ?out = "sendings b @ changes @ [?eth]"
  have eth: "eth_of ?eth = ?spent - ?req"
    using valid(2) by (simp add: newEtherNote_def Utxo_from_def)
  have out: "etherFrom ?out = fp_add (etherFrom (sendings b)) (?spent - ?req)"
    using etherFrom_snoc [of "sendings b @ changes" ?eth] etherFrom_no_eth [OF changes ok] eth by simp
  have small: "total_of eth_of (sendings b) + (?spent - ?req) < FP_ORDER"
    "total_of eth_of (sendings b) + (?spent - ?req) + fee_for b (length r) ?k < FP_ORDER"
    using spent nonneg req(5) by (simp_all add: asked_def ff_valid_def)
  have bal: "?spent = fp_add (fp_add (etherFrom ?out) (fee_for b (length r) ?k)) (l1Fee b)"
    using out req(3,4,5) nonneg small less spent
    by (simp add: fp_add_mod asked_def ff_valid_def)
  have fin: "finish_build random b changes r =
      bind_result (balanced (Sum_from (map snd r)) (Sum_from ?out) (fee_for b (length r) ?k) (l1Fee b))
        (\<lambda>_. Ok \<lparr>raw_inflow = r, raw_outflow = ?out, raw_swap = bld_swap b, raw_fee = fee_for b (length r) ?k,
          raw_withdrawals = filter (\<lambda>n. outflowType n = WITHDRAWAL) (sendings b)\<rparr>)"
    using less by (simp add: finish_build_def Let_def req(1,2) diff)
  have eths: "sum_eth (Sum_from (map snd r)) = ?spent" "sum_eth (Sum_from ?out) = etherFrom ?out"
    by (simp_all add: Sum_from_def)
  show "(\<exists>raw. finish_build random b changes r = Ok raw) \<or>
    finish_build random b changes r = Throw ''erc20 in-out is different'' \<or>
    finish_build random b changes r = Throw ''nft in-out is different''"
    unfolding fin balanced_def eths using bal by simp
  show "\<exists>raw. finish_build random b changes r = Ok raw" if "list_all pure_ether (map snd r)"
  proof -
    have "sum_erc20 (Sum_from (map snd r)) = []" "sum_erc721 (Sum_from (map snd r)) = []"
      using pure_ether_sums [OF that] by (simp_all add: Sum_from_def)
    then show ?thesis unfolding fin balanced_def eths using bal by simp
  qed
qed

text \<open>What the notes provided are worth, in the order in which the loop sees them.\<close>

lemma total_mset:
  assumes "mset us = mset vs"
  shows "total_of eth_of (map snd us) = total_of eth_of (map snd vs)"
proof -
  have "sum_mset (image_mset (\<lambda>u. eth_of (snd u)) (mset us)) = sum_mset (image_mset (\<lambda>u. eth_of (snd u)) (mset vs))"
    unfolding assms ..
  then show ?thesis by (simp add: total_of_def sum_mset_sum_list o_def flip: mset_map)
qed

text \<open>C19: When the notes for the tokens that are sent are there, the loop of the builder that collects
  Ether ends and counts the Ether of the notes already taken. Without overflow, the builder does not
  lack Ether whenever the provided notes are worth more than what is sent, the fees for the layer below
  and the transaction fee for spending the selected notes and all others with Ether: it returns a
  transaction, for which only the check that tokens balance can be left to fail, and never fails for
  notes without tokens. Whenever the provided notes are worth no more than what is sent and the fees for
  the layer below, it throws that there is not enough Ether; so the exact amount is refused even when no
  transaction fee is charged.\<close>

theorem build_ether_decides:
  assumes sel: "token_selection srt srt_ints b = Ok s"
    and b: "builder_ok b (length (token_changes random b s))"
    and perm: "\<And>f xs. mset (srt f xs) = mset xs"
  shows "(asked b + fee_for b (length (sel_spendings s) + length (filter (\<lambda>u. 0 < eth_of (snd u)) (sel_spendables s)))
        (length (token_changes random b s)) < total_of eth_of (map snd (spendables b)) \<longrightarrow>
      ((\<exists>raw. build srt srt_ints random b = Ok raw) \<or>
       build srt srt_ints random b = Throw ''erc20 in-out is different'' \<or>
       build srt srt_ints random b = Throw ''nft in-out is different'') \<and>
      (list_all (\<lambda>u. pure_ether (snd u)) (spendables b) \<longrightarrow> (\<exists>raw. build srt srt_ints random b = Ok raw))) \<and>
    (total_of eth_of (map snd (spendables b)) \<le> asked b \<longrightarrow>
      build srt srt_ints random b = Throw ''Not enough Ether'')"
proof -
  let ?rest = "rev (srt (\<lambda>u. eth_of (snd u)) (sel_spendables s))" and ?changes = "token_changes random b s"
  have rest: "mset ?rest = mset (sel_spendables s)" by (simp add: perm)
  have all: "mset (sel_spendings s @ ?rest) = mset (spendables b)"
    using selection_pool [OF sel] rest by (simp add: add.commute)
  have len: "length (sel_spendings s @ ?rest) = length (spendables b)" by (rule mset_eq_length [OF all])
  have "mset (filter P ?rest) = mset (filter P (sel_spendables s))" for P using rest by simp
  then have pos: "length (filter P ?rest) = length (filter P (sel_spendables s))" for P by (metis size_mset)
  have tot: "total_of eth_of (map snd (sel_spendings s @ ?rest)) = total_of eth_of (map snd (spendables b))"
    by (rule total_mset [OF all])
  have ok: "list_all note_ok (map snd (sel_spendings s @ ?rest))"
    by (rule notes_of_subset [where us = "spendables b"]) (use b all in \<open>auto simp: builder_ok_def\<close>)
  have small: "total_of eth_of (map snd (sel_spendings s @ ?rest)) < FP_ORDER"
    using b unfolding tot by (simp add: builder_ok_def)
  have build: "build srt srt_ints random b = bind_result (take_eth b (length ?changes) ?rest (sel_spendings s))
      (finish_build random b ?changes)"
    by (simp add: build_stages_eq sel)
  have rich: "((\<exists>raw. build srt srt_ints random b = Ok raw) \<or>
       build srt srt_ints random b = Throw ''erc20 in-out is different'' \<or>
       build srt srt_ints random b = Throw ''nft in-out is different'') \<and>
      (list_all (\<lambda>u. pure_ether (snd u)) (spendables b) \<longrightarrow> (\<exists>raw. build srt srt_ints random b = Ok raw))"
    if more: "asked b + fee_for b (length (sel_spendings s) + length (filter (\<lambda>u. 0 < eth_of (snd u)) (sel_spendables s)))
        (length ?changes) < total_of eth_of (map snd (spendables b))"
  proof -
    have le: "length (sel_spendings s) + length (filter (\<lambda>u. 0 < eth_of (snd u)) (sel_spendables s)) \<le> length (spendables b)"
      using len pos [of "\<lambda>u. 0 < eth_of (snd u)"] length_filter_le [of "\<lambda>u. 0 < eth_of (snd u)" ?rest] by simp
    have "\<exists>r. take_eth b (length ?changes) ?rest (sel_spendings s) = Ok r"
      by (rule take_eth_collects [OF ok small]) (use more tot pos required_exact(1) [OF b le] in simp)
    then obtain r where r: "take_eth b (length ?changes) ?rest (sel_spendings s) = Ok r" ..
    have sub: "mset r \<subseteq># mset (spendables b)" and enough: "getRequiredETH b (length r) (length ?changes) < etherFrom (map snd r)"
      using take_eth_ok [OF r] all by simp_all
    have "list_all pure_ether (map snd r)" if "list_all (\<lambda>u. pure_ether (snd u)) (spendables b)"
      using that set_mset_mono [OF sub] by (auto simp: list_all_iff)
    with finish_ether [OF b sub enough token_changes_eth, of random] show ?thesis by (auto simp: build r)
  qed
  have poor: "build srt srt_ints random b = Throw ''Not enough Ether''"
    if "total_of eth_of (map snd (spendables b)) \<le> asked b"
  proof -
    have "take_eth b (length ?changes) ?rest (sel_spendings s) = Throw ''Not enough Ether''"
    proof (rule take_eth_refuses [OF ok small])
      fix m assume "m \<le> length (sel_spendings s @ ?rest)"
      then have "m \<le> length (spendables b)" using len by simp
      from required_exact(1,5) [OF b this] that
      show "total_of eth_of (map snd (sel_spendings s @ ?rest)) \<le> getRequiredETH b m (length ?changes)" unfolding tot by linarith
    qed
    then show ?thesis by (simp add: build)
  qed
  show ?thesis using rich poor by blast
qed

section \<open>A sample\<close>

text \<open>Two notes with Ether and one of a token; a part of the token and most of the Ether are sent.\<close>

definition sample_builder :: "nat tx_builder" where
  "sample_builder = \<lparr>
     spendables = [(0, newERC20Note 7 600 3 50 (Some 1) 0), (1, newEtherNote 7 500 (Some 2) 0)],
     sendings = [newEtherNote 8 1000 (Some 3) 0, newERC20Note 8 0 3 20 (Some 4) 0],
     feePerByte = 0, bld_swap = None, changeTo = 7\<rparr>"

lemma sample_selection:
  "token_selection (\<lambda>f xs. sort_key f xs) sort sample_builder = Ok
     \<lparr>sel_spendables = [(1, newEtherNote 7 500 (Some 2) 0)], sel_spendings = [(0, newERC20Note 7 600 3 50 (Some 1) 0)]\<rparr>"
  by code_simp

lemma sample_changes:
  "token_changes (\<lambda>_. 9) sample_builder
     \<lparr>sel_spendables = [(1, newEtherNote 7 500 (Some 2) 0)], sel_spendings = [(0, newERC20Note 7 600 3 50 (Some 1) 0)]\<rparr> =
     [newERC20Note 7 0 3 30 None 9]"
  by code_simp

lemma sample_builder_ok: "builder_ok sample_builder 1" "objs_ok (spendables sample_builder)"
  by code_simp code_simp

lemma sample_totals:
  "total_of eth_of (map snd (spendables sample_builder)) = 1100" "asked sample_builder = 1000"
  "fee_for sample_builder m k = 0"
  by (code_simp, code_simp, simp add: sample_builder_def fee_for_def)

text \<open>Here the tokens balance.\<close>

theorem build_ether_decides_witness:
  "(\<exists>raw. build (\<lambda>f xs. sort_key f xs) sort (\<lambda>_. 9) sample_builder = Ok raw) \<or>
   build (\<lambda>f xs. sort_key f xs) sort (\<lambda>_. 9) sample_builder = Throw ''erc20 in-out is different'' \<or>
   build (\<lambda>f xs. sort_key f xs) sort (\<lambda>_. 9) sample_builder = Throw ''nft in-out is different''"
proof -
  have "builder_ok sample_builder (length (token_changes (\<lambda>_. 9) sample_builder
     \<lparr>sel_spendables = [(1, newEtherNote 7 500 (Some 2) 0)], sel_spendings = [(0, newERC20Note 7 600 3 50 (Some 1) 0)]\<rparr>))"
    by (simp only: sample_changes) (use sample_builder_ok(1) in simp)
  from build_ether_decides [OF sample_selection this] show ?thesis by (simp add: sample_totals)
qed

lemma sample_builds: "\<exists>raw. build (\<lambda>f xs. sort_key f xs) sort (\<lambda>_. 9) sample_builder = Ok raw"
proof -
  have "case build (\<lambda>f xs. sort_key f xs) sort (\<lambda>_. 9) sample_builder of Inl e \<Rightarrow> False | Inr raw \<Rightarrow> True" by code_simp
  then show ?thesis by (simp split: sum.splits)
qed

theorem build_conserves_witness:
  "\<exists>raw. build (\<lambda>f xs. sort_key f xs) sort (\<lambda>_. 9) sample_builder = Ok raw \<and>
    mset (raw_inflow raw) \<subseteq># mset (spendables sample_builder) \<and>
    total_of (counts_erc20 3) (map snd (raw_inflow raw)) mod FP_ORDER =
      total_of (counts_erc20 3) (raw_outflow raw) mod FP_ORDER \<and>
    nfts_of 3 (map snd (raw_inflow raw)) = nfts_of 3 (raw_outflow raw)"
proof -
  obtain raw where raw: "build (\<lambda>f xs. sort_key f xs) sort (\<lambda>_. 9) sample_builder = Ok raw"
    using sample_builds by blast
  have ok: "list_all note_ok (sendings sample_builder)" "fp_valid (feePerByte sample_builder)"
    using sample_builder_ok(1) by (simp_all add: builder_ok_def)
  from build_conserves [OF raw _ _ sample_builder_ok(2) ok, of 3] raw show ?thesis by simp
qed

end
