(* ===== verification/Tx_Pool.thy ===== *)
theory Tx_Pool
  imports Zk_Tx Utils
begin

text \<open>
  \<open>TxMemPool\<close> of \<open>packages/coordinator/src/tx-pool.ts\<close>: the transactions waiting for a block, those
  queued with a proposal, and the rows of the database that survive a restart. \<open>hash\<close> and \<open>sz\<close> are
  the hash and the size of a proven transaction, \<open>srt\<close> the sort of the engine by fee (the comparison
  function of the code never returns zero), \<open>rootOf\<close> the root of a list of hashes. Objects keyed by hashes
  are association lists in insertion order.
\<close>

section \<open>Rows\<close>

record 'h tx_row =
  txr_hash :: 'h
  txr_blockHash :: string
  txr_challenged :: bool
  txr_slashed :: bool

record block_row =
  blr_hash :: string
  blr_verified :: bool

text \<open>A row of \<open>PendingTx\<close>. The schema has the version and the data of the memo, but no column \<open>memo\<close>.\<close>

record 'h pending_row =
  pr_hash :: 'h
  pr_fee :: int
  pr_proof :: "snark option"
  pr_memoVersion :: "nat option"
  pr_memoData :: "byte list option"
  pr_swap :: "int option"
  pr_inflow :: "zk_inflow list"
  pr_outflow :: "zk_outflow list"

record 'h pool_db =
  db_Tx :: "'h tx_row list"
  db_Block :: "block_row list"
  db_PendingTx :: "'h pending_row list"

record 'h tx_pool =
  pool_queued :: "('h \<times> zk_tx list) list"
  pool_txs :: "('h \<times> zk_tx) list"
  pool_db :: "'h pool_db"

definition new_TxMemPool :: "'h pool_db \<Rightarrow> 'h tx_pool" where
  "new_TxMemPool db = \<lparr>pool_queued = [], pool_txs = [], pool_db = db\<rparr>"

text \<open>Objects: assignment keeps the place of a key, \<open>delete\<close> removes it.\<close>

fun obj_put :: "'k \<Rightarrow> 'v \<Rightarrow> ('k \<times> 'v) list \<Rightarrow> ('k \<times> 'v) list" where
  "obj_put k v [] = [(k, v)]"
| "obj_put k v ((k', v') # kvs) = (if k = k' then (k, v) # kvs else (k', v') # obj_put k v kvs)"

definition obj_delete :: "'k \<Rightarrow> ('k \<times> 'v) list \<Rightarrow> ('k \<times> 'v) list" where
  "obj_delete k kvs = filter (\<lambda>kv. fst kv \<noteq> k) kvs"

section \<open>Operations\<close>

definition verifiedTx :: "'h list \<Rightarrow> 'h pool_db \<Rightarrow> 'h list" where
  "verifiedTx hashes db =
     (let includedTxs = filter (\<lambda>r. txr_hash r \<in> set hashes) (db_Tx db);
          blocks = filter (\<lambda>b. blr_hash b \<in> set (map txr_blockHash includedTxs)) (db_Block db);
          blocksByHash = foldl (\<lambda>acc b. obj_put (blr_hash b) b acc) [] blocks in
      map txr_hash (filter (\<lambda>r. \<not> txr_challenged r \<and> \<not> txr_slashed r \<and>
        (case map_of blocksByHash (txr_blockHash r) of Some b \<Rightarrow> blr_verified b | None \<Rightarrow> False)) includedTxs))"

definition row_of :: "(zk_tx \<Rightarrow> 'h) \<Rightarrow> zk_tx \<Rightarrow> 'h pending_row" where
  "row_of hash tx = \<lparr>pr_hash = hash tx, pr_fee = tx_fee tx, pr_proof = tx_proof tx,
     pr_memoVersion = map_option memo_version (tx_memo tx),
     pr_memoData = map_option memo_data (tx_memo tx), pr_swap = tx_swap tx,
     pr_inflow = tx_inflow tx, pr_outflow = tx_outflow tx\<rparr>"

text \<open>An upsert with an empty update: a row that exists stays.\<close>

definition store_row :: "(zk_tx \<Rightarrow> 'h) \<Rightarrow> zk_tx \<Rightarrow> 'h pending_row list \<Rightarrow> 'h pending_row list" where
  "store_row hash tx rows = (if hash tx \<in> set (map pr_hash rows) then rows else rows @ [row_of hash tx])"

definition storePendingTx :: "(zk_tx \<Rightarrow> 'h) \<Rightarrow> zk_tx list \<Rightarrow> 'h tx_pool \<Rightarrow> 'h tx_pool" where
  "storePendingTx hash txs p =
     p\<lparr>pool_db := (pool_db p)\<lparr>db_PendingTx := fold (store_row hash) txs (db_PendingTx (pool_db p))\<rparr>\<rparr>"

definition pendingNum :: "'h tx_pool \<Rightarrow> nat" where
  "pendingNum p = length (pool_txs p)"

definition pendingTxs :: "'h tx_pool \<Rightarrow> zk_tx list" where
  "pendingTxs p = map snd (pool_txs p)"

definition addToTxPool :: "(zk_tx \<Rightarrow> 'h) \<Rightarrow> zk_tx list \<Rightarrow> 'h tx_pool \<Rightarrow> 'h tx_pool" where
  "addToTxPool hash txs p =
     storePendingTx hash txs (p\<lparr>pool_txs := fold (\<lambda>tx. obj_put (hash tx) tx) txs (pool_txs p)\<rparr>)"

text \<open>
  After a restart the rows are parsed. The parser looks for a field \<open>memo\<close>, which the rows do not have.
  \<open>hashesToDrop[tx.hash]\<close> indexes an array by a string and is always \<open>undefined\<close>: no row is skipped.
\<close>

definition parse_row :: "'h pending_row \<Rightarrow> zk_tx" where
  "parse_row r = new_ZkTx (pr_inflow r) (pr_outflow r) (pr_fee r) (pr_proof r) (pr_swap r) None"

definition loadPendingTx :: "(zk_tx \<Rightarrow> 'h) \<Rightarrow> 'h tx_pool \<Rightarrow> 'h tx_pool" where
  "loadPendingTx hash p =
     (let db = pool_db p; rows = db_PendingTx db;
          hashesToDrop = verifiedTx (map pr_hash rows) db;
          db' = db\<lparr>db_PendingTx := filter (\<lambda>r. pr_hash r \<notin> set hashesToDrop) rows\<rparr> in
      p\<lparr>pool_db := db',
        pool_txs := fold (\<lambda>r. obj_put (hash (parse_row r)) (parse_row r)) rows (pool_txs p)\<rparr>)"

definition prunePendingTx :: "'h tx_pool \<Rightarrow> 'h tx_pool" where
  "prunePendingTx p = p\<lparr>pool_txs :=
     fold obj_delete (verifiedTx (map fst (pool_txs p)) (pool_db p)) (pool_txs p)\<rparr>"

definition removeFromTxPool :: "(zk_tx \<Rightarrow> 'h) \<Rightarrow> zk_tx list \<Rightarrow> 'h tx_pool \<Rightarrow> 'h tx_pool" where
  "removeFromTxPool hash txs p = p\<lparr>pool_txs := fold (\<lambda>tx. obj_delete (hash tx)) txs (pool_txs p)\<rparr>"

definition markAsIncluded :: "('h list \<Rightarrow> 'h) \<Rightarrow> (zk_tx \<Rightarrow> 'h) \<Rightarrow> zk_tx list \<Rightarrow> 'h tx_pool \<Rightarrow> 'h tx_pool" where
  "markAsIncluded rootOf hash txs p =
     removeFromTxPool hash txs (p\<lparr>pool_queued := obj_put (rootOf (map hash txs)) txs (pool_queued p)\<rparr>)"

definition drop_queued :: "'h \<Rightarrow> 'h tx_pool \<Rightarrow> 'h tx_pool" where
  "drop_queued txRoot p = p\<lparr>pool_queued := obj_delete txRoot (pool_queued p)\<rparr>"

definition revert :: "(zk_tx \<Rightarrow> 'h) \<Rightarrow> 'h \<Rightarrow> 'h tx_pool \<Rightarrow> 'h tx_pool" where
  "revert hash txRoot p =
     (let p' = (case map_of (pool_queued p) txRoot of
                  Some txs \<Rightarrow> fold (\<lambda>tx. addToTxPool hash [tx]) txs p
                | None \<Rightarrow> p) in
      p'\<lparr>pool_queued := obj_delete txRoot (pool_queued p')\<rparr>)"

section \<open>Picking\<close>

definition getSortedTxs :: "(zk_tx list \<Rightarrow> zk_tx list) \<Rightarrow> 'h tx_pool \<Rightarrow> zk_tx list" where
  "getSortedTxs srt p = srt (map snd (pool_txs p))"

datatype pending_entry = Single zk_tx | Paired zk_tx zk_tx

definition swaps_with :: "zk_tx \<Rightarrow> zk_tx \<Rightarrow> bool" where
  "swaps_with alices bobs \<longleftrightarrow>
     (case (tx_swap alices, tx_swap bobs) of
        (Some noteForAlice, Some noteForBob) \<Rightarrow>
          list_ex (\<lambda>o'. out_note o' = noteForAlice) (tx_outflow bobs) \<and>
          list_ex (\<lambda>o'. out_note o' = noteForBob) (tx_outflow alices)
      | _ \<Rightarrow> False)"

text \<open>The loop over the object of swaps: its first key is Alice, the partner is the first that fits.\<close>

function pair_swaps :: "(zk_tx \<Rightarrow> 'h) \<Rightarrow> ('h \<times> zk_tx) list \<Rightarrow> pending_entry list" where
  "pair_swaps hash [] = []"
| "pair_swaps hash ((h, alices) # rest) =
     (case find (swaps_with alices) (map snd rest) of
        Some bobs \<Rightarrow> Paired alices bobs # pair_swaps hash (obj_delete (hash bobs) rest)
      | None \<Rightarrow> pair_swaps hash rest)"
  by pat_completeness auto
termination
  by (relation "measure (\<lambda>(hash, kvs). length kvs)") (auto simp: obj_delete_def le_imp_less_Suc)

text \<open>Sizes are charged against what is available, \<open>None\<close> for the number infinity.\<close>

definition at_least :: "int option \<Rightarrow> int \<Rightarrow> bool" where
  "at_least available n = (case available of None \<Rightarrow> True | Some a \<Rightarrow> n \<le> a)"

definition entry_txs :: "pending_entry \<Rightarrow> zk_tx list" where
  "entry_txs e = (case e of Single tx \<Rightarrow> [tx] | Paired a b \<Rightarrow> [a, b])"

definition entry_size :: "(zk_tx \<Rightarrow> nat) \<Rightarrow> pending_entry \<Rightarrow> nat" where
  "entry_size sz e = (case e of Single tx \<Rightarrow> sz tx | Paired a b \<Rightarrow> sz a + sz b)"

definition entry_fee :: "pending_entry \<Rightarrow> int" where
  "entry_fee e = (case e of Single tx \<Rightarrow> tx_fee tx | Paired a b \<Rightarrow> fp_add (tx_fee a) (tx_fee b))"

fun pick :: "(zk_tx \<Rightarrow> nat) \<Rightarrow> int \<Rightarrow> int option \<Rightarrow> pending_entry list \<Rightarrow> zk_tx list" where
  "pick sz price available [] = []"
| "pick sz price available (e # es) =
     (if \<not> at_least available 1 then []
      else
        let n = int (entry_size sz e) in
        if at_least available n \<and> price * n \<le> entry_fee e
        then entry_txs e @ pick sz price (map_option (\<lambda>a. a - n) available) es
        else pick sz price available es)"

definition pending_entries :: "(zk_tx list \<Rightarrow> zk_tx list) \<Rightarrow> (zk_tx \<Rightarrow> 'h) \<Rightarrow> 'h tx_pool \<Rightarrow> pending_entry list" where
  "pending_entries srt hash p =
     (let sorted = getSortedTxs srt p;
          swapTxs = foldl (\<lambda>acc tx. obj_put (hash tx) tx acc) [] (filter (\<lambda>tx. tx_swap tx \<noteq> None) sorted) in
      pair_swaps hash swapTxs @ map Single (filter (\<lambda>tx. tx_swap tx = None) sorted))"

definition pickTxs ::
  "(zk_tx list \<Rightarrow> zk_tx list) \<Rightarrow> (zk_tx \<Rightarrow> 'h) \<Rightarrow> (zk_tx \<Rightarrow> nat) \<Rightarrow> int option \<Rightarrow> int \<Rightarrow> 'h tx_pool \<Rightarrow> zk_tx list \<times> 'h tx_pool" where
  "pickTxs srt hash sz maxBytes minPricePerByte p =
     (let p' = prunePendingTx p in
      (pick sz minPricePerByte maxBytes (rev (pending_entries srt hash p')), p'))"

end
