(* ===== verification/Tx_Pool_Proofs.thy ===== *)
theory Tx_Pool_Proofs
  imports Tx_Pool "HOL-Library.Multiset" "HOL-Library.Sublist"
begin

text \<open>
  The pool. First the objects keyed by hashes, then the pairing of swaps and the picking by size and
  fee, then the way of a transaction from the pool into the queue and back, and what a restart keeps.
\<close>

section \<open>Objects\<close>

lemma obj_put_keys: "fst ` set (obj_put k v kvs) = insert k (fst ` set kvs)"
  by (induction k v kvs rule: obj_put.induct) auto

lemma obj_put_distinct: "distinct (map fst kvs) \<Longrightarrow> distinct (map fst (obj_put k v kvs))"
proof (induction k v kvs rule: obj_put.induct)
  case (2 k v k' v' kvs)
  then show ?case using obj_put_keys[of k v kvs] by (auto simp: image_def set_eq_iff)
qed simp

lemma obj_put_set:
  "distinct (map fst kvs) \<Longrightarrow> set (obj_put k v kvs) = insert (k, v) {kv \<in> set kvs. fst kv \<noteq> k}"
  by (induction k v kvs rule: obj_put.induct) (auto simp: image_iff)

lemma obj_put_fresh: "k \<notin> fst ` set kvs \<Longrightarrow> obj_put k v kvs = kvs @ [(k, v)]"
  by (induction k v kvs rule: obj_put.induct) auto

lemma obj_put_lookup: "map_of (obj_put k v kvs) = (map_of kvs)(k \<mapsto> v)"
  by (induction k v kvs rule: obj_put.induct) auto

lemma obj_delete_set [simp]: "set (obj_delete k kvs) = {kv \<in> set kvs. fst kv \<noteq> k}"
  by (simp add: obj_delete_def)

lemma obj_delete_lookup: "map_of (obj_delete k kvs) = (map_of kvs)(k := None)"
  by (induction kvs) (auto simp: obj_delete_def)

lemma obj_delete_distinct: "distinct (map fst kvs) \<Longrightarrow> distinct (map fst (obj_delete k kvs))"
  by (simp add: obj_delete_def distinct_map_filter)

lemma obj_delete_put: "obj_delete k (obj_put k v kvs) = obj_delete k kvs"
  by (induction k v kvs rule: obj_put.induct) (auto simp: obj_delete_def)

lemma fold_obj_delete: "fold obj_delete ks kvs = filter (\<lambda>kv. fst kv \<notin> set ks) kvs"
  by (induction ks arbitrary: kvs) (auto simp: obj_delete_def intro!: filter_cong)

text \<open>The keys of the pool are the hashes of its transactions, each once.\<close>

definition keyed :: "('a \<Rightarrow> 'h) \<Rightarrow> ('h \<times> 'a) list \<Rightarrow> bool" where
  "keyed key kvs \<longleftrightarrow> distinct (map fst kvs) \<and> (\<forall>kv\<in>set kvs. fst kv = key (snd kv))"

lemma keyed_Nil [simp]: "keyed key []"
  by (simp add: keyed_def)

lemma keyed_put: "keyed key kvs \<Longrightarrow> keyed key (obj_put (key v) v kvs)"
  by (auto simp: keyed_def obj_put_distinct obj_put_set)

lemma keyed_filter: "keyed key kvs \<Longrightarrow> keyed key (filter P kvs)"
  by (auto simp: keyed_def distinct_map_filter)

lemma keyed_delete: "keyed key kvs \<Longrightarrow> keyed key (obj_delete k kvs)"
  by (simp add: obj_delete_def keyed_filter)

lemma keyed_fold_put: "keyed key kvs \<Longrightarrow> keyed key (fold (\<lambda>v. obj_put (key v) v) vs kvs)"
  by (induction vs arbitrary: kvs) (auto simp: keyed_put)

lemma keyed_hashes: "keyed key kvs \<Longrightarrow> map fst kvs = map key (map snd kvs)"
  by (auto simp: keyed_def)

lemma keyed_distinct: "keyed key kvs \<Longrightarrow> distinct (map key (map snd kvs))"
  using keyed_hashes[of key kvs] by (metis keyed_def)

lemma keyed_ConsD: "keyed key ((k, v) # kvs) \<Longrightarrow> keyed key kvs \<and> k = key v \<and> key v \<notin> fst ` set kvs"
  by (force simp: keyed_def)

lemma fold_put_fresh:
  assumes "distinct (map key vs)" and "key ` set vs \<inter> fst ` set kvs = {}"
  shows "foldl (\<lambda>acc v. obj_put (key v) v acc) kvs vs = kvs @ map (\<lambda>v. (key v, v)) vs"
  using assms by (induction vs arbitrary: kvs) (auto simp: obj_put_fresh)

section \<open>Picking\<close>

definition entry_fits :: "pending_entry \<Rightarrow> bool" where
  "entry_fits e = (case e of Single tx \<Rightarrow> tx_swap tx = None | Paired a b \<Rightarrow> swaps_with a b)"

definition entries_txs :: "pending_entry list \<Rightarrow> zk_tx list" where
  "entries_txs es = concat (map entry_txs es)"

lemma entries_txs_simps [simp]:
  "entries_txs [] = []" "entries_txs (e # es) = entry_txs e @ entries_txs es"
  "entries_txs (es @ es') = entries_txs es @ entries_txs es'"
  "entries_txs (map Single txs) = txs"
  by (simp_all add: entries_txs_def entry_txs_def comp_def)

lemma entry_txs_simps [simp]: "entry_txs (Single tx) = [tx]" "entry_txs (Paired a b) = [a, b]"
  by (simp_all add: entry_txs_def)

lemma pair_swaps_txs:
  "keyed hash kvs \<Longrightarrow>
     set (entries_txs (pair_swaps hash kvs)) \<subseteq> snd ` set kvs \<and>
     distinct (map hash (entries_txs (pair_swaps hash kvs))) \<and>
     (\<forall>e\<in>set (pair_swaps hash kvs). entry_fits e)"
proof (induction hash kvs rule: pair_swaps.induct)
  case (2 hash h alices rest)
  from keyed_ConsD[OF 2(3)] have rest: "keyed hash rest"
    and alice: "hash alices \<notin> fst ` set rest" by auto
  show ?case
  proof (cases "find (swaps_with alices) (map snd rest)")
    case None
    then have "set (entries_txs (pair_swaps hash rest)) \<subseteq> snd ` set rest \<and>
        distinct (map hash (entries_txs (pair_swaps hash rest))) \<and>
        (\<forall>e\<in>set (pair_swaps hash rest). entry_fits e)"
      using 2(1)[OF None rest] by blast
    then show ?thesis using None by auto
  next
    case (Some bobs)
    let ?left = "obj_delete (hash bobs) rest"
    have bob: "swaps_with alices bobs" "bobs \<in> snd ` set rest"
      using Some by (auto simp: find_Some_iff dest: nth_mem)
    have ih: "set (entries_txs (pair_swaps hash ?left)) \<subseteq> snd ` set ?left"
        "distinct (map hash (entries_txs (pair_swaps hash ?left)))"
        "\<forall>e\<in>set (pair_swaps hash ?left). entry_fits e"
      using 2(2)[OF Some keyed_delete[OF rest]] by blast+
    have hashes: "hash tx \<in> fst ` set rest \<and> hash tx \<noteq> hash bobs"
      if "tx \<in> set (entries_txs (pair_swaps hash ?left))" for tx
      using that ih(1) rest by (force simp: keyed_def)
    have in_rest: "hash bobs \<in> fst ` set rest" using bob(2) rest by (force simp: keyed_def)
    then have "hash alices \<noteq> hash bobs" using alice by metis
    moreover have "(hash alices, x) \<notin> set rest" for x using alice by force
    ultimately have "distinct (map hash (entries_txs (pair_swaps hash ((h, alices) # rest))))"
      using Some ih(2) hashes alice in_rest by (auto dest!: hashes)
    moreover have "set (entries_txs (pair_swaps hash ((h, alices) # rest))) \<subseteq> snd ` set ((h, alices) # rest)"
      using Some ih(1) bob(2) by auto
    moreover have "\<forall>e\<in>set (pair_swaps hash ((h, alices) # rest)). entry_fits e"
      using Some ih(3) bob(1) by (simp add: entry_fits_def)
    ultimately show ?thesis by blast
  qed
qed simp

text \<open>What is picked is a sublist of the entries, each paid for, within what is available.\<close>

lemma pick_entries:
  "\<exists>chosen. pick sz price available es = entries_txs chosen \<and> subseq chosen es \<and>
     (\<forall>e\<in>set chosen. price * int (entry_size sz e) \<le> entry_fee e) \<and>
     (\<forall>a. available = Some a \<longrightarrow> (\<Sum>e\<leftarrow>chosen. int (entry_size sz e)) \<le> max 0 a)"
proof (induction sz price available es rule: pick.induct)
  case (1 sz price available)
  show ?case by (rule exI[of _ "[]"]) simp
next
  case (2 sz price available e es)
  let ?n = "int (entry_size sz e)"
  consider (stop) "\<not> at_least available 1"
    | (take) "at_least available 1" "at_least available ?n \<and> price * ?n \<le> entry_fee e"
    | (skip) "at_least available 1" "\<not> (at_least available ?n \<and> price * ?n \<le> entry_fee e)" by blast
  then show ?case
  proof cases
    case stop
    then show ?thesis by (intro exI[of _ "[]"]) (simp add: Let_def)
  next
    case take
    from 2(1)[of ?n] take obtain chosen where chosen:
      "pick sz price (map_option (\<lambda>a. a - ?n) available) es = entries_txs chosen" "subseq chosen es"
      "\<forall>e\<in>set chosen. price * int (entry_size sz e) \<le> entry_fee e"
      "\<forall>a. map_option (\<lambda>a. a - ?n) available = Some a \<longrightarrow> (\<Sum>e\<leftarrow>chosen. int (entry_size sz e)) \<le> max 0 a"
      by auto
    have "(\<Sum>e\<leftarrow>(e # chosen). int (entry_size sz e)) \<le> max 0 a" if "available = Some a" for a
      using that chosen(4) take(2) by (auto simp: at_least_def)
    with chosen take show ?thesis by (intro exI[of _ "e # chosen"]) (simp add: Let_def)
  next
    case skip
    from 2(2)[of ?n] skip obtain chosen where
      "pick sz price available es = entries_txs chosen" "subseq chosen es"
      "\<forall>e\<in>set chosen. price * int (entry_size sz e) \<le> entry_fee e"
      "\<forall>a. available = Some a \<longrightarrow> (\<Sum>e\<leftarrow>chosen. int (entry_size sz e)) \<le> max 0 a" by auto
    with skip show ?thesis by (intro exI[of _ chosen]) (auto simp: Let_def)
  qed
qed

lemma entry_size_sum: "int (entry_size sz e) = (\<Sum>tx\<leftarrow>entry_txs e. int (sz tx))"
  by (cases e) (simp_all add: entry_size_def)

lemma entries_size_sum: "(\<Sum>e\<leftarrow>es. int (entry_size sz e)) = (\<Sum>tx\<leftarrow>entries_txs es. int (sz tx))"
  by (induction es) (simp_all add: entry_size_sum)

lemma subseq_entries_distinct:
  "subseq es es' \<Longrightarrow> distinct (map hash (entries_txs es')) \<Longrightarrow>
     distinct (map hash (entries_txs es)) \<and> set (entries_txs es) \<subseteq> set (entries_txs es')"
  by (induction es es' rule: list_emb.induct) auto

lemma subseq_subset: "subseq xs ys \<Longrightarrow> set xs \<subseteq> set ys"
  by (induction xs ys rule: list_emb.induct) auto

lemma mset_distinct_map: "mset xs = mset ys \<Longrightarrow> distinct (map f xs) = distinct (map f ys)"
  by (metis mset_eq_imp_distinct_iff mset_map)

lemma entries_txs_rev: "mset (entries_txs (rev es)) = mset (entries_txs es)"
  by (induction es) auto

lemma entries_txs_rev_set: "set (entries_txs (rev es)) = set (entries_txs es)"
  by (metis entries_txs_rev set_mset_mset)

lemma pending_entries_txs:
  assumes srt: "\<forall>xs. mset (srt xs) = mset xs" and pool: "keyed hash (pool_txs p)"
  shows "set (entries_txs (pending_entries srt hash p)) \<subseteq> set (pendingTxs p)"
    and "distinct (map hash (entries_txs (pending_entries srt hash p)))"
    and "\<forall>e\<in>set (pending_entries srt hash p). entry_fits e"
proof -
  let ?sorted = "getSortedTxs srt p"
  let ?swaps = "filter (\<lambda>tx. tx_swap tx \<noteq> None) ?sorted"
  let ?obj = "map (\<lambda>tx. (hash tx, tx)) ?swaps"
  have mem: "set ?sorted = set (pendingTxs p)"
    unfolding getSortedTxs_def pendingTxs_def by (metis srt set_mset_mset)
  have dist: "distinct (map hash ?sorted)"
    using mset_distinct_map[of "srt (map snd (pool_txs p))" "map snd (pool_txs p)" hash] srt keyed_distinct[OF pool]
    by (simp add: getSortedTxs_def)
  have obj: "foldl (\<lambda>acc tx. obj_put (hash tx) tx acc) [] ?swaps = ?obj"
    using fold_put_fresh[of hash ?swaps "[]"] dist by (simp add: distinct_map_filter)
  have "map fst ?obj = map hash ?swaps" by simp
  then have "distinct (map fst ?obj)" using dist by (simp only: distinct_map_filter)
  then have "keyed hash ?obj" by (auto simp: keyed_def)
  note pairs = pair_swaps_txs[OF this]
  have "snd ` set ?obj = set ?swaps" by force
  with pairs have sub: "set (entries_txs (pair_swaps hash ?obj)) \<subseteq> set ?swaps" by simp
  have eq: "pending_entries srt hash p = pair_swaps hash ?obj @ map Single (filter (\<lambda>tx. tx_swap tx = None) ?sorted)"
    unfolding pending_entries_def Let_def obj ..
  show "set (entries_txs (pending_entries srt hash p)) \<subseteq> set (pendingTxs p)"
    using sub mem by (auto simp: eq)
  have "hash tx \<noteq> hash tx'" if "tx \<in> set (entries_txs (pair_swaps hash ?obj))"
    "tx' \<in> set ?sorted" "tx_swap tx' = None" for tx tx'
  proof
    assume eq: "hash tx = hash tx'"
    from that(1) sub have tx: "tx \<in> set ?sorted" "tx_swap tx \<noteq> None" by auto
    have "inj_on hash (set ?sorted)" using dist by (simp add: distinct_map)
    from inj_onD[OF this eq tx(1) that(2)] tx(2) that(3) show False by simp
  qed
  then show "distinct (map hash (entries_txs (pending_entries srt hash p)))"
    using pairs dist by (auto simp: eq distinct_map_filter)
  show "\<forall>e\<in>set (pending_entries srt hash p). entry_fits e"
    using pairs by (auto simp: eq entry_fits_def)
qed

lemma prune_pool: "pool_txs (prunePendingTx p) =
    filter (\<lambda>kv. fst kv \<notin> set (verifiedTx (map fst (pool_txs p)) (pool_db p))) (pool_txs p)"
  by (simp add: prunePendingTx_def fold_obj_delete)

text \<open>C20: What the pool gives the block generator, for any sort by fee that rearranges the pool: distinct
  transactions of the pool, none of them included in a verified block, that fit into the bytes
  available; they are single transactions without a swap, each paying the price for its own bytes, and
  pairs of swaps that give each other the note asked for and together pay the price for their bytes.
\<close>

theorem pickTxs_sound:
  assumes srt: "\<forall>xs. mset (srt xs) = mset xs" and pool: "keyed hash (pool_txs p)"
    and picked: "pickTxs srt hash sz maxBytes price p = (txs, p')"
  shows "distinct (map hash txs) \<and> set txs \<subseteq> set (pendingTxs p) \<and>
    hash ` set txs \<inter> set (verifiedTx (map fst (pool_txs p)) (pool_db p)) = {} \<and>
    (\<forall>n. maxBytes = Some n \<longrightarrow> (\<Sum>tx\<leftarrow>txs. int (sz tx)) \<le> max 0 n) \<and>
    (\<exists>es. txs = concat (map entry_txs es) \<and>
      (\<forall>e\<in>set es. (case e of Single tx \<Rightarrow> tx_swap tx = None \<and> price * int (sz tx) \<le> tx_fee tx
         | Paired a b \<Rightarrow> swaps_with a b \<and> price * int (sz a + sz b) \<le> fp_add (tx_fee a) (tx_fee b))))"
proof -
  let ?p = "prunePendingTx p"
  let ?gone = "set (verifiedTx (map fst (pool_txs p)) (pool_db p))"
  have key: "keyed hash (pool_txs ?p)" by (simp add: prune_pool keyed_filter pool)
  note entries = pending_entries_txs[OF srt key]
  have txs: "txs = pick sz price maxBytes (rev (pending_entries srt hash ?p))"
    using picked unfolding pickTxs_def Let_def prod.inject by (elim conjE) (erule sym)
  have "\<exists>es. txs = entries_txs es \<and> subseq es (rev (pending_entries srt hash ?p)) \<and>
     (\<forall>e\<in>set es. price * int (entry_size sz e) \<le> entry_fee e) \<and>
     (\<forall>a. maxBytes = Some a \<longrightarrow> (\<Sum>e\<leftarrow>es. int (entry_size sz e)) \<le> max 0 a)"
    unfolding txs by (rule pick_entries)
  then obtain es where es: "txs = entries_txs es" "subseq es (rev (pending_entries srt hash ?p))"
    "\<forall>e\<in>set es. price * int (entry_size sz e) \<le> entry_fee e"
    "\<forall>a. maxBytes = Some a \<longrightarrow> (\<Sum>e\<leftarrow>es. int (entry_size sz e)) \<le> max 0 a"
    by (elim exE conjE)
  have "distinct (map hash (entries_txs (rev (pending_entries srt hash ?p))))"
    using mset_distinct_map[OF entries_txs_rev] entries(2) by blast
  from subseq_entries_distinct[OF es(2) this] entries(1)
  have dist: "distinct (map hash txs)" and sub: "set txs \<subseteq> set (pendingTxs ?p)"
    unfolding es(1) entries_txs_rev_set by blast+
  have gone: "tx \<in> set (pendingTxs p) \<and> hash tx \<notin> ?gone" if "tx \<in> set (pendingTxs ?p)" for tx
  proof -
    from that obtain kv where kv: "kv \<in> set (pool_txs p)" "fst kv \<notin> ?gone" "snd kv = tx"
      by (auto simp: pendingTxs_def prune_pool)
    with pool have "fst kv = hash tx" by (auto simp: keyed_def)
    with kv show ?thesis by (force simp: pendingTxs_def)
  qed
  have "set es \<subseteq> set (pending_entries srt hash ?p)"
    using subseq_subset[OF es(2)] by simp
  then have fits: "\<forall>e\<in>set es. entry_fits e" using entries(3) by blast
  have "\<forall>e\<in>set es. (case e of Single tx \<Rightarrow> tx_swap tx = None \<and> price * int (sz tx) \<le> tx_fee tx
         | Paired a b \<Rightarrow> swaps_with a b \<and> price * int (sz a + sz b) \<le> fp_add (tx_fee a) (tx_fee b))"
  proof
    fix e assume "e \<in> set es"
    with fits es(3) have "entry_fits e" "price * int (entry_size sz e) \<le> entry_fee e" by simp_all
    then show "case e of Single tx \<Rightarrow> tx_swap tx = None \<and> price * int (sz tx) \<le> tx_fee tx
         | Paired a b \<Rightarrow> swaps_with a b \<and> price * int (sz a + sz b) \<le> fp_add (tx_fee a) (tx_fee b)"
      by (cases e) (simp_all add: entry_fits_def entry_size_def entry_fee_def)
  qed
  moreover have "\<forall>n. maxBytes = Some n \<longrightarrow> (\<Sum>tx\<leftarrow>txs. int (sz tx)) \<le> max 0 n"
    using es(4) by (simp add: entries_size_sum es(1))
  moreover have "txs = concat (map entry_txs es)" by (simp add: es(1) entries_txs_def)
  moreover have "set txs \<subseteq> set (pendingTxs p)" using sub gone by blast
  moreover have "hash ` set txs \<inter> ?gone = {}" using sub gone by blast
  ultimately show ?thesis using dist by blast
qed

section \<open>Histories\<close>

text \<open>
  The calls of the coordinator in any order; rows of the synchronised blocks change between them. The
  second component collects the hashes that were given up: dropped with a proposal, or found in a
  verified block.
\<close>

datatype 'h pool_call = Add_call "zk_tx list" | Pick_call "int option" int | Include_call "zk_tx list"
  | Drop_call 'h | Revert_call 'h | Rows_call "'h tx_row list" "block_row list"

definition queued_hashes :: "(zk_tx \<Rightarrow> 'h) \<Rightarrow> 'h \<Rightarrow> 'h tx_pool \<Rightarrow> 'h set" where
  "queued_hashes hash txRoot p =
     (case map_of (pool_queued p) txRoot of Some txs \<Rightarrow> hash ` set txs | None \<Rightarrow> {})"

fun pool_call_step ::
  "(zk_tx list \<Rightarrow> zk_tx list) \<Rightarrow> (zk_tx \<Rightarrow> 'h) \<Rightarrow> (zk_tx \<Rightarrow> nat) \<Rightarrow> ('h list \<Rightarrow> 'h) \<Rightarrow>
     'h pool_call \<Rightarrow> 'h tx_pool \<times> 'h set \<Rightarrow> 'h tx_pool \<times> 'h set" where
  "pool_call_step srt hash sz rootOf (Add_call txs) (p, gone) = (addToTxPool hash txs p, gone)"
| "pool_call_step srt hash sz rootOf (Pick_call n price) (p, gone) =
     (snd (pickTxs srt hash sz n price p),
      gone \<union> set (verifiedTx (map fst (pool_txs p)) (pool_db p)))"
| "pool_call_step srt hash sz rootOf (Include_call txs) (p, gone) = (markAsIncluded rootOf hash txs p, gone)"
| "pool_call_step srt hash sz rootOf (Drop_call r) (p, gone) =
     (drop_queued r p, gone \<union> queued_hashes hash r p)"
| "pool_call_step srt hash sz rootOf (Revert_call r) (p, gone) = (revert hash r p, gone)"
| "pool_call_step srt hash sz rootOf (Rows_call txrows blocks) (p, gone) =
     (p\<lparr>pool_db := (pool_db p)\<lparr>db_Tx := txrows, db_Block := blocks\<rparr>\<rparr>, gone)"

definition added :: "(zk_tx \<Rightarrow> 'h) \<Rightarrow> 'h pool_call list \<Rightarrow> 'h set" where
  "added hash calls = (\<Union>c\<in>set calls. case c of Add_call txs \<Rightarrow> hash ` set txs | _ \<Rightarrow> {})"

definition known :: "(zk_tx \<Rightarrow> 'h) \<Rightarrow> 'h tx_pool \<Rightarrow> 'h set" where
  "known hash p = hash ` set (pendingTxs p) \<union> (\<Union>r. queued_hashes hash r p)"

definition stored :: "'h tx_pool \<Rightarrow> bool" where
  "stored p \<longleftrightarrow> fst ` set (pool_txs p) \<subseteq> pr_hash ` set (db_PendingTx (pool_db p))"

text \<open>What is queued under a root is a list that hashes to it.\<close>

definition queue_rooted :: "(zk_tx \<Rightarrow> 'h) \<Rightarrow> ('h list \<Rightarrow> 'h) \<Rightarrow> zk_tx list set \<Rightarrow> 'h tx_pool \<Rightarrow> bool" where
  "queue_rooted hash rootOf included p \<longleftrightarrow>
     (\<forall>r txs. map_of (pool_queued p) r = Some txs \<longrightarrow> r = rootOf (map hash txs) \<and> txs \<in> included)"

lemma keyed_pending: "keyed hash (pool_txs p) \<Longrightarrow> hash ` set (pendingTxs p) = fst ` set (pool_txs p)"
  by (force simp: keyed_def pendingTxs_def)

lemma fold_put_keys: "fst ` set (fold (\<lambda>v. obj_put (key v) v) vs kvs) = key ` set vs \<union> fst ` set kvs"
  by (induction vs arbitrary: kvs) (auto simp: obj_put_keys)

lemma fold_store_rows: "pr_hash ` set (fold (store_row hash) txs rows) = hash ` set txs \<union> pr_hash ` set rows"
  by (induction txs arbitrary: rows) (auto simp: store_row_def row_of_def image_def)

lemma pool_simps [simp]:
  "pool_txs (addToTxPool hash txs p) = fold (\<lambda>tx. obj_put (hash tx) tx) txs (pool_txs p)"
  "pool_queued (addToTxPool hash txs p) = pool_queued p"
  "pool_txs (removeFromTxPool hash txs p) = filter (\<lambda>kv. fst kv \<notin> hash ` set txs) (pool_txs p)"
  "pool_queued (removeFromTxPool hash txs p) = pool_queued p"
  "pool_db (removeFromTxPool hash txs p) = pool_db p"
  "pool_queued (prunePendingTx p) = pool_queued p" "pool_db (prunePendingTx p) = pool_db p"
proof -
  have "fold (\<lambda>tx. obj_delete (hash tx)) txs kvs = filter (\<lambda>kv. fst kv \<notin> hash ` set txs) kvs" for kvs :: "('a \<times> zk_tx) list"
    by (induction txs arbitrary: kvs) (auto simp: obj_delete_def intro!: filter_cong)
  then show "pool_txs (removeFromTxPool hash txs p) = filter (\<lambda>kv. fst kv \<notin> hash ` set txs) (pool_txs p)"
    by (simp add: removeFromTxPool_def)
qed (simp_all add: addToTxPool_def storePendingTx_def removeFromTxPool_def prunePendingTx_def)

lemma addToTxPool_rows:
  "pr_hash ` set (db_PendingTx (pool_db (addToTxPool hash txs p))) = hash ` set txs \<union> pr_hash ` set (db_PendingTx (pool_db p))"
  by (simp add: addToTxPool_def storePendingTx_def fold_store_rows)

lemma fold_addToTxPool:
  "pool_txs (fold (\<lambda>tx. addToTxPool hash [tx]) txs p) = fold (\<lambda>tx. obj_put (hash tx) tx) txs (pool_txs p)"
  "pool_queued (fold (\<lambda>tx. addToTxPool hash [tx]) txs p) = pool_queued p"
  "pr_hash ` set (db_PendingTx (pool_db (fold (\<lambda>tx. addToTxPool hash [tx]) txs p))) =
     hash ` set txs \<union> pr_hash ` set (db_PendingTx (pool_db p))"
  by (induction txs arbitrary: p) (auto simp: addToTxPool_rows)

lemma prune_keys: "fst ` set (pool_txs (prunePendingTx p)) =
    fst ` set (pool_txs p) - set (verifiedTx (map fst (pool_txs p)) (pool_db p))"
  by (auto simp: prune_pool)

lemma pick_state: "snd (pickTxs srt hash sz n price p) = prunePendingTx p"
  by (simp add: pickTxs_def Let_def)

lemma revert_pool:
  "pool_txs (revert hash r p) = (case map_of (pool_queued p) r of
     Some txs \<Rightarrow> fold (\<lambda>tx. obj_put (hash tx) tx) txs (pool_txs p) | None \<Rightarrow> pool_txs p)"
  "pool_queued (revert hash r p) = obj_delete r (pool_queued p)"
  by (simp_all add: revert_def Let_def fold_addToTxPool split: option.split)

lemma revert_rows:
  "pr_hash ` set (db_PendingTx (pool_db (revert hash r p))) =
     queued_hashes hash r p \<union> pr_hash ` set (db_PendingTx (pool_db p))"
  by (simp add: revert_def Let_def fold_addToTxPool queued_hashes_def split: option.split)

definition held :: "(zk_tx \<Rightarrow> 'h) \<Rightarrow> 'h tx_pool \<Rightarrow> 'h set" where
  "held hash p = fst ` set (pool_txs p) \<union> (\<Union>r. queued_hashes hash r p)"

lemma held_known: "keyed hash (pool_txs p) \<Longrightarrow> held hash p = known hash p"
  by (simp add: held_def known_def keyed_pending)

lemma queued_hashes_delete:
  "pool_queued p' = obj_delete r (pool_queued p) \<Longrightarrow>
     queued_hashes hash r' p' = (if r' = r then {} else queued_hashes hash r' p)"
  by (simp add: queued_hashes_def obj_delete_lookup)

lemma queued_hashes_put:
  "pool_queued p' = obj_put r txs (pool_queued p) \<Longrightarrow>
     queued_hashes hash r' p' = (if r' = r then hash ` set txs else queued_hashes hash r' p)"
  by (simp add: queued_hashes_def obj_put_lookup)

lemma queued_hashes_same: "pool_queued p' = pool_queued p \<Longrightarrow> queued_hashes hash r p' = queued_hashes hash r p"
  by (simp add: queued_hashes_def)

lemma held_subset:
  assumes "\<And>x. x \<in> fst ` set (pool_txs p) \<Longrightarrow> x \<in> B" and "\<And>r x. x \<in> queued_hashes hash r p \<Longrightarrow> x \<in> B"
  shows "held hash p \<subseteq> B"
  using assms unfolding held_def by blast

lemma held_pool: "x \<in> fst ` set (pool_txs p) \<Longrightarrow> x \<in> held hash p"
  by (simp add: held_def)

lemma held_queue: "x \<in> queued_hashes hash r p \<Longrightarrow> x \<in> held hash p"
  unfolding held_def by blast

lemma held_add: "held hash (addToTxPool hash txs p) = hash ` set txs \<union> held hash p"
proof -
  have "queued_hashes hash r (addToTxPool hash txs p) = queued_hashes hash r p" for r
    by (rule queued_hashes_same) simp
  then show ?thesis by (simp add: held_def fold_put_keys Un_assoc)
qed

lemma held_prune: "held hash p \<subseteq> held hash (prunePendingTx p) \<union> set (verifiedTx (map fst (pool_txs p)) (pool_db p))"
proof (rule held_subset)
  fix x assume "x \<in> fst ` set (pool_txs p)"
  then show "x \<in> held hash (prunePendingTx p) \<union> set (verifiedTx (map fst (pool_txs p)) (pool_db p))"
    using held_pool[of x "prunePendingTx p" hash] unfolding prune_keys by blast
next
  fix r x assume "x \<in> queued_hashes hash r p"
  then have "x \<in> queued_hashes hash r (prunePendingTx p)" by (simp add: queued_hashes_def)
  then show "x \<in> held hash (prunePendingTx p) \<union> set (verifiedTx (map fst (pool_txs p)) (pool_db p))"
    by (intro UnI1 held_queue)
qed

lemma held_delete:
  assumes queue: "pool_queued p' = obj_delete r (pool_queued p)"
    and pool: "fst ` set (pool_txs p) \<subseteq> fst ` set (pool_txs p')"
  shows "held hash p \<subseteq> held hash p' \<union> queued_hashes hash r p"
proof (rule held_subset)
  fix x assume "x \<in> fst ` set (pool_txs p)"
  with pool show "x \<in> held hash p' \<union> queued_hashes hash r p" using held_pool[of x p' hash] by blast
next
  fix r' x assume x: "x \<in> queued_hashes hash r' p"
  show "x \<in> held hash p' \<union> queued_hashes hash r p"
  proof (cases "r' = r")
    case False
    with x have "x \<in> queued_hashes hash r' p'" by (simp add: queued_hashes_delete[OF queue])
    then show ?thesis by (intro UnI1 held_queue)
  qed (use x in simp)
qed

lemma held_drop: "held hash p \<subseteq> held hash (drop_queued r p) \<union> queued_hashes hash r p"
  by (rule held_delete) (simp_all add: drop_queued_def)

lemma revert_keys: "fst ` set (pool_txs (revert hash r p)) = queued_hashes hash r p \<union> fst ` set (pool_txs p)"
  by (simp add: revert_pool fold_put_keys queued_hashes_def split: option.split)

lemma held_revert: "held hash p \<subseteq> held hash (revert hash r p)"
proof -
  have "held hash p \<subseteq> held hash (revert hash r p) \<union> queued_hashes hash r p"
    by (rule held_delete) (simp_all only: revert_pool(2) revert_keys Un_upper2)
  moreover have "queued_hashes hash r p \<subseteq> held hash (revert hash r p)"
    using held_pool[of _ "revert hash r p" hash] unfolding revert_keys by blast
  ultimately show ?thesis by blast
qed

lemma include_queue:
  "queued_hashes hash r (markAsIncluded rootOf hash txs p) =
     (if r = rootOf (map hash txs) then hash ` set txs else queued_hashes hash r p)"
  by (rule queued_hashes_put) (simp add: markAsIncluded_def)

lemma include_keys:
  "fst ` set (pool_txs (markAsIncluded rootOf hash txs p)) = fst ` set (pool_txs p) - hash ` set txs"
  by (auto simp: markAsIncluded_def) 

lemma held_include:
  assumes same: "\<And>ys. map_of (pool_queued p) (rootOf (map hash txs)) = Some ys \<Longrightarrow> hash ` set ys = hash ` set txs"
  shows "held hash p \<subseteq> held hash (markAsIncluded rootOf hash txs p)"
proof (rule held_subset)
  fix x assume x: "x \<in> fst ` set (pool_txs p)"
  show "x \<in> held hash (markAsIncluded rootOf hash txs p)"
  proof (cases "x \<in> hash ` set txs")
    case True
    then have "x \<in> queued_hashes hash (rootOf (map hash txs)) (markAsIncluded rootOf hash txs p)"
      by (simp add: include_queue)
    then show ?thesis by (rule held_queue)
  next
    case False
    with x show ?thesis by (intro held_pool) (simp only: include_keys Diff_iff not_False_eq_True simp_thms)
  qed
next
  fix r x assume x: "x \<in> queued_hashes hash r p"
  have "queued_hashes hash (rootOf (map hash txs)) p \<subseteq> hash ` set txs"
    using same by (simp add: queued_hashes_def split: option.split)
  with x have "x \<in> queued_hashes hash r (markAsIncluded rootOf hash txs p)"
    by (auto simp: include_queue)
  then show "x \<in> held hash (markAsIncluded rootOf hash txs p)" by (rule held_queue)
qed

definition pool_inv ::
  "(zk_tx \<Rightarrow> 'h) \<Rightarrow> ('h list \<Rightarrow> 'h) \<Rightarrow> zk_tx list set \<Rightarrow> 'h set \<Rightarrow> 'h tx_pool \<times> 'h set \<Rightarrow> bool" where
  "pool_inv hash rootOf inc A s \<longleftrightarrow>
     keyed hash (pool_txs (fst s)) \<and> stored (fst s) \<and> queue_rooted hash rootOf inc (fst s) \<and>
     A \<subseteq> held hash (fst s) \<union> snd s"

lemma pool_invI:
  "keyed hash (pool_txs p) \<Longrightarrow> stored p \<Longrightarrow> queue_rooted hash rootOf inc p \<Longrightarrow>
     A \<subseteq> held hash p \<union> gone \<Longrightarrow> pool_inv hash rootOf inc A (p, gone)"
  by (simp add: pool_inv_def)

lemma queue_rooted_delete:
  "queue_rooted hash rootOf inc p \<Longrightarrow> pool_queued p' = obj_delete r (pool_queued p) \<Longrightarrow> queue_rooted hash rootOf inc p'"
  by (auto simp: queue_rooted_def obj_delete_lookup split: if_splits)

lemma queue_rooted_same:
  "queue_rooted hash rootOf inc p \<Longrightarrow> pool_queued p' = pool_queued p \<Longrightarrow> queue_rooted hash rootOf inc p'"
  by (simp add: queue_rooted_def)

definition collision_free :: "(zk_tx \<Rightarrow> 'h) \<Rightarrow> ('h list \<Rightarrow> 'h) \<Rightarrow> zk_tx list set \<Rightarrow> bool" where
  "collision_free hash rootOf inc \<longleftrightarrow> (\<forall>xs\<in>inc. \<forall>ys\<in>inc.
     rootOf (map hash xs) = rootOf (map hash ys) \<longrightarrow> hash ` set xs = hash ` set ys)"

lemma pool_call_step_inv:
  assumes inv: "pool_inv hash rootOf inc A (p, gone)"
    and roots: "collision_free hash rootOf inc"
    and inc: "\<forall>txs. c = Include_call txs \<longrightarrow> txs \<in> inc"
  shows "pool_inv hash rootOf inc (A \<union> added hash [c]) (pool_call_step srt hash sz rootOf c (p, gone))"
proof -
  from inv have key: "keyed hash (pool_txs p)" and st: "stored p"
    and q: "queue_rooted hash rootOf inc p" and A: "A \<subseteq> held hash p \<union> gone"
    by (simp_all add: pool_inv_def)
  have kept: "pool_inv hash rootOf inc (A \<union> added hash [c]) (p', gone')"
    if "added hash [c] \<subseteq> held hash p'" "keyed hash (pool_txs p')" "stored p'" "queue_rooted hash rootOf inc p'"
      "held hash p \<subseteq> held hash p' \<union> gone'" "gone \<subseteq> gone'" for p' gone'
    using that A by (intro pool_invI) blast+
  show ?thesis
  proof (cases c)
    case (Add_call txs)
    have "added hash [c] \<subseteq> held hash (addToTxPool hash txs p)"
      by (simp add: Add_call added_def held_add)
    moreover have "keyed hash (pool_txs (addToTxPool hash txs p))" by (simp add: keyed_fold_put[OF key])
    moreover have "stored (addToTxPool hash txs p)"
      using st unfolding stored_def addToTxPool_rows pool_simps fold_put_keys by blast
    moreover have "queue_rooted hash rootOf inc (addToTxPool hash txs p)" by (rule queue_rooted_same[OF q]) simp
    moreover have "held hash p \<subseteq> held hash (addToTxPool hash txs p) \<union> gone" unfolding held_add by blast
    ultimately show ?thesis using kept[of "addToTxPool hash txs p" gone] by (simp only: Add_call pool_call_step.simps subset_refl)
  next
    case (Pick_call n price)
    have "keyed hash (pool_txs (prunePendingTx p))" by (simp add: prune_pool keyed_filter[OF key])
    moreover have "stored (prunePendingTx p)"
      using st unfolding stored_def prune_keys pool_simps by blast
    moreover have "queue_rooted hash rootOf inc (prunePendingTx p)" by (rule queue_rooted_same[OF q]) simp
    moreover have "held hash p \<subseteq> held hash (prunePendingTx p) \<union> (gone \<union> set (verifiedTx (map fst (pool_txs p)) (pool_db p)))"
      using held_prune[of hash p] by blast
    moreover have "added hash [c] = {}" by (simp add: Pick_call added_def)
    ultimately show ?thesis
      using kept[of "prunePendingTx p" "gone \<union> set (verifiedTx (map fst (pool_txs p)) (pool_db p))"]
      by (simp add: Pick_call pick_state)
  next
    case (Include_call txs)
    let ?p = "markAsIncluded rootOf hash txs p"
    have "txs \<in> inc" using inc Include_call by simp
    then have same: "hash ` set ys = hash ` set txs"
      if "map_of (pool_queued p) (rootOf (map hash txs)) = Some ys" for ys
      using that q roots unfolding queue_rooted_def collision_free_def by blast
    have "queue_rooted hash rootOf inc ?p"
      using q \<open>txs \<in> inc\<close> by (simp add: queue_rooted_def markAsIncluded_def obj_put_lookup)
    moreover have "stored ?p"
      using st unfolding stored_def include_keys by (auto simp: markAsIncluded_def)
    moreover have "keyed hash (pool_txs ?p)" by (simp add: markAsIncluded_def keyed_filter[OF key])
    moreover have "held hash p \<subseteq> held hash ?p \<union> gone" using held_include[OF same] by blast
    ultimately show ?thesis using kept[of ?p gone] by (simp add: Include_call added_def)
  next
    case (Drop_call r)
    have "stored (drop_queued r p)" using st by (simp add: stored_def drop_queued_def)
    moreover have "keyed hash (pool_txs (drop_queued r p))" using key by (simp add: drop_queued_def)
    moreover have "queue_rooted hash rootOf inc (drop_queued r p)"
      by (rule queue_rooted_delete[OF q, of _ r]) (simp add: drop_queued_def)
    moreover have "held hash p \<subseteq> held hash (drop_queued r p) \<union> (gone \<union> queued_hashes hash r p)"
      using held_drop[of hash p r] by blast
    ultimately show ?thesis
      using kept[of "drop_queued r p" "gone \<union> queued_hashes hash r p"] by (simp add: Drop_call added_def)
  next
    case (Revert_call r)
    have "keyed hash (pool_txs (revert hash r p))"
      using key by (simp add: revert_pool keyed_fold_put split: option.split)
    moreover have "stored (revert hash r p)"
      using st unfolding stored_def revert_rows revert_keys by blast
    moreover have "queue_rooted hash rootOf inc (revert hash r p)"
      by (rule queue_rooted_delete[OF q revert_pool(2)])
    moreover have "held hash p \<subseteq> held hash (revert hash r p) \<union> gone" using held_revert[of hash p r] by blast
    ultimately show ?thesis using kept[of "revert hash r p" gone] by (simp add: Revert_call added_def)
  next
    case (Rows_call txrows blocks)
    then show ?thesis using key st q A
      by (simp add: added_def pool_inv_def stored_def queue_rooted_def held_def queued_hashes_def)
  qed
qed

lemma pool_calls_inv:
  assumes "pool_inv hash rootOf inc A s"
    and "collision_free hash rootOf inc"
    and "\<forall>txs. Include_call txs \<in> set calls \<longrightarrow> txs \<in> inc"
  shows "pool_inv hash rootOf inc (A \<union> added hash calls) (fold (pool_call_step srt hash sz rootOf) calls s)"
  using assms(1,3)
proof (induction calls arbitrary: s A)
  case (Cons c calls)
  have "pool_inv hash rootOf inc (A \<union> added hash [c]) (pool_call_step srt hash sz rootOf c (fst s, snd s))"
    using Cons.prems assms(2) by (intro pool_call_step_inv) auto
  from Cons.IH[OF this] Cons.prems(2) have
    "pool_inv hash rootOf inc (A \<union> added hash [c] \<union> added hash calls)
       (fold (pool_call_step srt hash sz rootOf) (c # calls) s)" by simp
  moreover have "A \<union> added hash [c] \<union> added hash calls = A \<union> added hash (c # calls)"
    by (auto simp: added_def)
  ultimately show ?case by simp
qed (simp add: added_def)

text \<open>C21: In every history of the pool that starts empty and whose roots collide only for proposals with
  the same transactions, the pool stays keyed by the hashes of its transactions, every waiting
  transaction has its row in the database, and every transaction ever added is waiting or queued with a
  proposal, unless it was dropped with a proposal or found in a verified block.
\<close>

theorem pool_loses_nothing:
  assumes run: "fold (pool_call_step srt hash sz rootOf) calls (new_TxMemPool db, {}) = (p, gone)"
    and roots: "\<forall>xs ys. Include_call xs \<in> set calls \<and> Include_call ys \<in> set calls \<and>
      rootOf (map hash xs) = rootOf (map hash ys) \<longrightarrow> hash ` set xs = hash ` set ys"
  shows "keyed hash (pool_txs p) \<and>
    hash ` set (pendingTxs p) \<subseteq> pr_hash ` set (db_PendingTx (pool_db p)) \<and>
    added hash calls \<subseteq> hash ` set (pendingTxs p) \<union>
      {hash tx | tx r txs. map_of (pool_queued p) r = Some txs \<and> tx \<in> set txs} \<union> gone"
proof -
  let ?inc = "{txs. Include_call txs \<in> set calls}"
  have "pool_inv hash rootOf ?inc {} (new_TxMemPool db, {})"
    by (simp add: pool_inv_def new_TxMemPool_def stored_def queue_rooted_def)
  moreover have "collision_free hash rootOf ?inc" using roots unfolding collision_free_def by blast
  ultimately have "pool_inv hash rootOf ?inc ({} \<union> added hash calls) (fold (pool_call_step srt hash sz rootOf) calls (new_TxMemPool db, {}))"
    by (rule pool_calls_inv) simp
  then have inv: "pool_inv hash rootOf ?inc (added hash calls) (p, gone)" by (simp add: run)
  then have key: "keyed hash (pool_txs p)" by (simp add: pool_inv_def)
  have queued: "(\<Union>r. queued_hashes hash r p) \<subseteq> {hash tx | tx r txs. map_of (pool_queued p) r = Some txs \<and> tx \<in> set txs}"
    unfolding queued_hashes_def by (fastforce split: option.splits)
  have "added hash calls \<subseteq> held hash p \<union> gone" using inv by (simp add: pool_inv_def)
  then have "added hash calls \<subseteq> fst ` set (pool_txs p) \<union>
      {hash tx | tx r txs. map_of (pool_queued p) r = Some txs \<and> tx \<in> set txs} \<union> gone"
    using queued unfolding held_def by blast
  then show ?thesis using inv by (simp add: keyed_pending[OF key] pool_inv_def stored_def)
qed

section \<open>Restart\<close>

text \<open>
  A pool that is built again from the rows has no memos: the row keeps the version and the data, the
  parser looks for another field.
\<close>

lemma parse_row_memo: "tx_memo (parse_row (row_of hash tx)) = None"
  by (simp add: parse_row_def new_ZkTx_def)

lemma fold_put_snd: "\<forall>kv\<in>set kvs. P (snd kv) \<Longrightarrow> \<forall>r\<in>set rows. P (f r) \<Longrightarrow>
    \<forall>kv\<in>set (fold (\<lambda>r. obj_put (g r) (f r)) rows kvs). P (snd kv)"
proof (induction rows arbitrary: kvs)
  case (Cons r rows)
  have put: "\<forall>kv\<in>set (obj_put k v kvs). P (snd kv)" if "P v" for k v
    using Cons.prems(1) that by (induction k v kvs rule: obj_put.induct) auto
  have "P (f r)" using Cons.prems(2) by simp
  from Cons.IH[OF put[OF this]] Cons.prems(2) show ?case by (simp add: fold_Cons del: ball_simps)
qed simp

lemma loadPendingTx_loses_memos:
  assumes "tx \<in> set (pendingTxs (loadPendingTx hash (new_TxMemPool db)))"
  shows "tx_memo tx = None"
proof -
  have "\<forall>r\<in>set rows. tx_memo (parse_row r) = None" for rows :: "'a pending_row list"
    by (simp add: parse_row_def new_ZkTx_def)
  from fold_put_snd[where P = "\<lambda>tx. tx_memo tx = None" and kvs = "[]" and g = "\<lambda>r. hash (parse_row r)", OF _ this]
  have "\<forall>kv\<in>set (fold (\<lambda>r. obj_put (hash (parse_row r)) (parse_row r)) (db_PendingTx db) []). tx_memo (snd kv) = None"
    by (metis empty_iff list.set(1))
  moreover from assms obtain kv where "tx = snd kv" "kv \<in> set (fold (\<lambda>r. obj_put (hash (parse_row r)) (parse_row r)) (db_PendingTx db) [])"
    unfolding loadPendingTx_def new_TxMemPool_def pendingTxs_def Let_def by auto
  ultimately show ?thesis by (simp only:)
qed

section \<open>Witnesses\<close>

definition sample_tx :: "int \<Rightarrow> int option \<Rightarrow> int \<Rightarrow> zk_tx" where
  "sample_tx fee swap out = new_ZkTx [] [\<lparr>out_note = out, out_type = UTXO, out_data = None\<rparr>] fee None swap None"

definition sample_pool :: "int tx_pool" where
  "sample_pool = addToTxPool tx_fee [sample_tx 5 None 1, sample_tx 900 (Some 3) 2, sample_tx 1000 None 4, sample_tx 800 (Some 2) 3]
     (new_TxMemPool \<lparr>db_Tx = [], db_Block = [], db_PendingTx = []\<rparr>)"

lemma sample_pool_keyed: "keyed tx_fee (pool_txs sample_pool)"
  unfolding sample_pool_def pool_simps by (rule keyed_fold_put) (simp add: new_TxMemPool_def)

lemma pickTxs_sound_witness:
  "set (fst (pickTxs (sort_key tx_fee) tx_fee (\<lambda>_. 10) (Some 30) 20 sample_pool)) \<subseteq> set (pendingTxs sample_pool)"
proof -
  have "\<forall>xs. mset (sort_key tx_fee xs) = mset xs" by simp
  from pickTxs_sound[OF this sample_pool_keyed prod.collapse[symmetric]] show ?thesis by blast
qed

text \<open>On the sample the best paid pair and the best paid single transaction are taken.\<close>

lemma pick_sample:
  "map tx_fee (fst (pickTxs (\<lambda>xs. xs) tx_fee (\<lambda>_. 10) (Some 30) 20 sample_pool)) = [1000, 900, 800]"
  by code_simp

lemma pool_loses_nothing_witness:
  "\<exists>p gone. fold (pool_call_step (sort_key tx_fee) tx_fee (\<lambda>_. 10) sum_list)
     [Add_call [sample_tx 5 None 1, sample_tx 7 None 2], Include_call [sample_tx 5 None 1], Drop_call 5]
     (new_TxMemPool \<lparr>db_Tx = [], db_Block = [], db_PendingTx = []\<rparr>, {}) = (p, gone) \<and> keyed tx_fee (pool_txs p)"
proof -
  let ?calls = "[Add_call [sample_tx 5 None 1, sample_tx 7 None 2], Include_call [sample_tx 5 None 1], Drop_call 5]"
  have "\<forall>xs ys. Include_call xs \<in> set ?calls \<and> Include_call ys \<in> set ?calls \<and>
      sum_list (map tx_fee xs) = sum_list (map tx_fee ys) \<longrightarrow> tx_fee ` set xs = tx_fee ` set ys" by simp
  from pool_loses_nothing[OF prod.collapse[symmetric] this] show ?thesis by (intro exI conjI) (rule prod.collapse[symmetric], blast)
qed

end
