(* ===== verification/Block_Codec.thy ===== *)
theory Block_Codec
  imports Zk_Tx_Proofs Utils
begin

text \<open>
  Blocks of \<open>packages/core/src/block\<close>: header, body, their binary form and its decoder, the hashes of
  their parts. Addresses, 32-byte values and unsigned integers of \<open>soltypes\<close> are words of their width;
  a hexadecimal string is the list of its digits.
\<close>

section \<open>Data\<close>

record mass_deposit =
  md_merged :: "256 word"
  md_fee :: "256 word"

record migration_asset =
  ma_eth :: "256 word"
  ma_token :: "160 word"
  ma_amount :: "256 word"

record mass_migration =
  mm_destination :: "160 word"
  mm_asset :: migration_asset
  mm_depositForDest :: mass_deposit

record header =
  proposer :: "160 word"
  parentBlock :: "256 word"
  hd_fee :: "256 word"
  utxoRoot :: "256 word"
  utxoIndex :: "256 word"
  nullifierRoot :: "256 word"
  withdrawalRoot :: "256 word"
  withdrawalIndex :: "256 word"
  txRoot :: "256 word"
  depositRoot :: "256 word"
  migrationRoot :: "256 word"

record block_body =
  body_txs :: "zk_tx list"
  massDeposits :: "mass_deposit list"
  massMigrations :: "mass_migration list"

record finalization =
  proposalChecksum :: "256 word"
  fin_header :: header
  fin_massDeposits :: "mass_deposit list"

section \<open>Serialisation\<close>

definition serializeHeader :: "header \<Rightarrow> byte list" where
  "serializeHeader h =
     address_bytes (proposer h) @ word_bytes (parentBlock h) @ word_bytes (hd_fee h) @
     word_bytes (utxoRoot h) @ word_bytes (utxoIndex h) @ word_bytes (nullifierRoot h) @
     word_bytes (withdrawalRoot h) @ word_bytes (withdrawalIndex h) @ word_bytes (txRoot h) @
     word_bytes (depositRoot h) @ word_bytes (migrationRoot h)"

definition ser_outflow :: "zk_outflow \<Rightarrow> byte list result" where
  "ser_outflow o' = buffer_concat
     [toBuffer 32 (out_note o'), toBuffer 1 (out_type o'),
      case out_data o' of
        Some d \<Rightarrow> encode_data d
      | None \<Rightarrow> if out_type o' \<noteq> 0 then Throw ''public data should exist'' else Ok []]"

definition ser_memo :: "memo option \<Rightarrow> byte list result" where
  "ser_memo m =
     (case m of
        None \<Rightarrow> Ok []
      | Some m \<Rightarrow>
          if memo_version m = 1 then
            (if length (memo_data m) \<noteq> 81 then Throw ''Memo field should have 81 bytes''
             else Ok (memo_data m))
          else if memo_version m = 2 then
            buffer_concat [toBuffer 2 (fp_new (int (length (memo_data m)))), Ok (memo_data m)]
          else Throw ''Unsupported version'')"

definition tx_indicator :: "zk_tx \<Rightarrow> nat" where
  "tx_indicator tx =
     (let version = map_option memo_version (tx_memo tx) in
      Bit_Operations.or (if tx_swap tx \<noteq> None then 1 else 0)
        (Bit_Operations.or (if version = Some 1 then 2 else 0) (if version = Some 2 then 4 else 0)))"

definition serialize_tx :: "zk_tx \<Rightarrow> byte list result" where
  "serialize_tx tx = buffer_concat
     ([numToBuffer (length (tx_inflow tx)) 1] @ map encode_inflow (tx_inflow tx) @
      [numToBuffer (length (tx_outflow tx)) 1] @ map ser_outflow (tx_outflow tx) @
      [toBuffer 32 (tx_fee tx),
       case tx_proof tx of None \<Rightarrow> Throw ''SNARK proof should exist'' | Some p \<Rightarrow> encode_proof p,
       Ok (uint8 (tx_indicator tx)), encode_swap (tx_swap tx), ser_memo (tx_memo tx)])"

definition serializeTxs :: "zk_tx list \<Rightarrow> byte list result" where
  "serializeTxs txs = buffer_concat (numToBuffer (length txs) 2 # map serialize_tx txs)"

definition massDeposit_bytes :: "mass_deposit \<Rightarrow> byte list" where
  "massDeposit_bytes d = word_bytes (md_merged d) @ word_bytes (md_fee d)"

definition serializeMassDeposits :: "mass_deposit list \<Rightarrow> byte list result" where
  "serializeMassDeposits ds =
     buffer_concat (numToBuffer (length ds) 1 # map (\<lambda>d. Ok (massDeposit_bytes d)) ds)"

definition massMigration_bytes :: "mass_migration \<Rightarrow> byte list" where
  "massMigration_bytes m =
     address_bytes (mm_destination m) @ word_bytes (ma_eth (mm_asset m)) @
     address_bytes (ma_token (mm_asset m)) @ word_bytes (ma_amount (mm_asset m)) @
     word_bytes (md_merged (mm_depositForDest m)) @ word_bytes (md_fee (mm_depositForDest m))"

definition serializeMassMigrations :: "mass_migration list \<Rightarrow> byte list result" where
  "serializeMassMigrations ms =
     buffer_concat (numToBuffer (length ms) 1 # map (\<lambda>m. Ok (massMigration_bytes m)) ms)"

definition serializeBody :: "block_body \<Rightarrow> byte list result" where
  "serializeBody b = buffer_concat
     [serializeTxs (body_txs b), serializeMassDeposits (massDeposits b),
      serializeMassMigrations (massMigrations b)]"

definition serializeFinalization :: "finalization \<Rightarrow> byte list result" where
  "serializeFinalization f = buffer_concat
     [Ok (word_bytes (proposalChecksum f)), Ok (serializeHeader (fin_header f)),
      serializeMassDeposits (fin_massDeposits f)]"

section \<open>Hashes\<close>

definition headerHash :: "(byte list \<Rightarrow> 256 word) \<Rightarrow> header \<Rightarrow> 256 word" where
  "headerHash keccak h = keccak
     (address_bytes (proposer h) @ word_bytes (parentBlock h) @ word_bytes (hd_fee h) @
      word_bytes (utxoRoot h) @ word_bytes (utxoIndex h) @ word_bytes (nullifierRoot h) @
      word_bytes (withdrawalRoot h) @ word_bytes (withdrawalIndex h) @ word_bytes (txRoot h) @
      word_bytes (depositRoot h) @ word_bytes (migrationRoot h))"

definition massDepositHash :: "(byte list \<Rightarrow> 256 word) \<Rightarrow> mass_deposit \<Rightarrow> 256 word" where
  "massDepositHash keccak d = keccak (word_bytes (md_merged d) @ word_bytes (md_fee d))"

definition massMigrationHash :: "(byte list \<Rightarrow> 256 word) \<Rightarrow> mass_migration \<Rightarrow> 256 word" where
  "massMigrationHash keccak m = keccak
     (address_bytes (mm_destination m) @ word_bytes (ma_eth (mm_asset m)) @
      address_bytes (ma_token (mm_asset m)) @ word_bytes (ma_amount (mm_asset m)) @
      word_bytes (md_merged (mm_depositForDest m)) @ word_bytes (md_fee (mm_depositForDest m)))"

section \<open>Deserialisation\<close>

definition read_header :: "soltypes \<Rightarrow> (hex_queue, header) reader" where
  "read_header sol =
     rd_bind (hex_dequeueToAddress sol) (\<lambda>prop. rd_bind (hex_dequeueToBytes32 sol) (\<lambda>parent.
     rd_bind (hex_dequeueToUint256 sol) (\<lambda>fee. rd_bind (hex_dequeueToUint256 sol) (\<lambda>ur.
     rd_bind (hex_dequeueToUint256 sol) (\<lambda>ui. rd_bind (hex_dequeueToBytes32 sol) (\<lambda>nr.
     rd_bind (hex_dequeueToUint256 sol) (\<lambda>wr. rd_bind (hex_dequeueToUint256 sol) (\<lambda>wi.
     rd_bind (hex_dequeueToBytes32 sol) (\<lambda>tr. rd_bind (hex_dequeueToBytes32 sol) (\<lambda>dr.
     rd_bind (hex_dequeueToBytes32 sol) (\<lambda>mr. rd_return
       \<lparr>proposer = prop, parentBlock = parent, hd_fee = fee, utxoRoot = ur, utxoIndex = ui,
        nullifierRoot = nr, withdrawalRoot = wr, withdrawalIndex = wi, txRoot = tr,
        depositRoot = dr, migrationRoot = mr\<rparr>)))))))))))"

text \<open>Each step makes a queue of the string that the step before has left.\<close>

definition run_reader :: "(hex_queue, 'a) reader \<Rightarrow> digit list \<Rightarrow> ('a \<times> digit list) result" where
  "run_reader rd rawData =
     bind_result (rd (new_StringifiedHexQueue rawData)) (\<lambda>(x, q). Ok (x, hex_dequeueAll q))"

definition deserializeHeaderFrom :: "soltypes \<Rightarrow> digit list \<Rightarrow> (header \<times> digit list) result" where
  "deserializeHeaderFrom sol = run_reader (read_header sol)"

definition read_counted :: "nat \<Rightarrow> (hex_queue, 'a) reader \<Rightarrow> (hex_queue, 'a list) reader" where
  "read_counted bytes rd = rd_bind (hex_dequeueToNumber bytes) (\<lambda>n. rd_times (count_of n) rd)"

definition deserializeTxsFrom :: "digit list \<Rightarrow> (zk_tx list \<times> digit list) result" where
  "deserializeTxsFrom =
     run_reader (read_counted 2 (read_tx hex_fp hex_dequeueToNumber hex_dequeueToBuffer))"

definition read_massDeposit :: "soltypes \<Rightarrow> (hex_queue, mass_deposit) reader" where
  "read_massDeposit sol =
     rd_bind (hex_dequeueToBytes32 sol) (\<lambda>merged. rd_bind (hex_dequeueToUint256 sol) (\<lambda>fee.
       rd_return \<lparr>md_merged = merged, md_fee = fee\<rparr>))"

definition deserializeMassDeposits :: "soltypes \<Rightarrow> digit list \<Rightarrow> (mass_deposit list \<times> digit list) result" where
  "deserializeMassDeposits sol = run_reader (read_counted 1 (read_massDeposit sol))"

definition read_massMigration :: "soltypes \<Rightarrow> (hex_queue, mass_migration) reader" where
  "read_massMigration sol =
     rd_bind (hex_dequeueToAddress sol) (\<lambda>dest. rd_bind (hex_dequeueToUint256 sol) (\<lambda>eth.
     rd_bind (hex_dequeueToAddress sol) (\<lambda>token. rd_bind (hex_dequeueToUint256 sol) (\<lambda>amount.
     rd_bind (hex_dequeueToBytes32 sol) (\<lambda>merged. rd_bind (hex_dequeueToUint256 sol) (\<lambda>fee.
       rd_return \<lparr>mm_destination = dest,
         mm_asset = \<lparr>ma_eth = eth, ma_token = token, ma_amount = amount\<rparr>,
         mm_depositForDest = \<lparr>md_merged = merged, md_fee = fee\<rparr>\<rparr>))))))"

definition deserializeMassMigrations :: "soltypes \<Rightarrow> digit list \<Rightarrow> (mass_migration list \<times> digit list) result" where
  "deserializeMassMigrations sol = run_reader (read_counted 1 (read_massMigration sol))"

section \<open>Blocks\<close>

record block_bootstrap =
  utxoTreeIndex :: "256 word"
  utxoBootstrap :: "256 word list"
  withdrawalTreeIndex :: "256 word"
  withdrawalBootstrap :: "256 word list"

record block =
  bl_hash :: "256 word"
  bl_verified :: "bool option"
  bl_slashed :: "bool option"
  bl_header :: header
  bl_body :: block_body
  bl_bootstrap :: "block_bootstrap option"

definition serializeBlock :: "block \<Rightarrow> byte list result" where
  "serializeBlock b = buffer_concat [Ok (serializeHeader (bl_header b)), serializeBody (bl_body b)]"

definition checksum :: "(byte list \<Rightarrow> 256 word) \<Rightarrow> block \<Rightarrow> 256 word result" where
  "checksum keccak b = bind_result (serializeBlock b) (\<lambda>bs. Ok (keccak bs))"

definition getFinalization :: "(byte list \<Rightarrow> 256 word) \<Rightarrow> block \<Rightarrow> finalization result" where
  "getFinalization keccak b = bind_result (checksum keccak b) (\<lambda>c.
     Ok \<lparr>proposalChecksum = c, fin_header = bl_header b, fin_massDeposits = massDeposits (bl_body b)\<rparr>)"

definition Block_from :: "(byte list \<Rightarrow> 256 word) \<Rightarrow> soltypes \<Rightarrow> digit list \<Rightarrow> bool option \<Rightarrow> block result" where
  "Block_from keccak sol rawData verified =
     bind_result (deserializeHeaderFrom sol rawData) (\<lambda>(header, rest1).
     bind_result (deserializeTxsFrom rest1) (\<lambda>(txs, rest2).
     bind_result (deserializeMassDeposits sol rest2) (\<lambda>(deposits, rest3).
     bind_result (deserializeMassMigrations sol rest3) (\<lambda>(migrations, rest4).
       Ok \<lparr>bl_hash = headerHash keccak header, bl_verified = verified, bl_slashed = None,
           bl_header = header,
           bl_body = \<lparr>body_txs = txs, massDeposits = deposits, massMigrations = migrations\<rparr>,
           bl_bootstrap = None\<rparr>))))"

text \<open>
  The calldata of a proposal: a selector of four bytes and ABI-encoded parameters, the first of which
  is the block. Selectors and decoder are those of the ABI package.
\<close>

definition Block_fromTx ::
  "(byte list \<Rightarrow> 256 word) \<Rightarrow> soltypes \<Rightarrow> (string \<Rightarrow> digit list) \<Rightarrow>
   (string list \<Rightarrow> digit list \<Rightarrow> digit list result) \<Rightarrow> digit list \<Rightarrow> bool option \<Rightarrow> block result" where
  "Block_fromTx keccak sol encodeSignature decodeFirst txInput verified =
     bind_result (hex_dequeue (Some 4) (new_StringifiedHexQueue txInput)) (\<lambda>(selector, queue).
       let data = hex_dequeueAll queue in
       if selector = encodeSignature ''propose(bytes)'' then
         bind_result (decodeFirst [''bytes''] data) (\<lambda>d. Block_from keccak sol d verified)
       else if selector = encodeSignature ''safePropose(bytes,bytes32,bytes32[])'' then
         bind_result (decodeFirst [''bytes'', ''bytes32'', ''bytes32[]''] data)
           (\<lambda>d. Block_from keccak sol d verified)
       else Throw ''Unrecognized selector'')"

end
