(* ===== verification/Zk_Tx_Properties.thy ===== *)
theory Zk_Tx_Properties
  imports Zk_Tx_Proofs Utils
begin

text \<open>
  What the binary form of a transaction promises: it can be read back, the hash commits to everything
  but the memo and the kind of an outflow, the size is the estimate plus the fee field, and the memos
  the wizard writes are parsed to what went into them.
\<close>

section \<open>A sample\<close>

definition sample_tx :: zk_tx where
  "sample_tx = new_ZkTx
     [\<lparr>in_nullifier = 11, in_root = 12\<rparr>]
     [\<lparr>out_note = 21, out_type = 0, out_data = None\<rparr>,
      \<lparr>out_note = 22, out_type = 1, out_data = Some \<lparr>pd_to = 31, pd_eth = 32, pd_tokenAddr = 33,
         pd_erc20Amount = 34, pd_nft = 35, pd_fee = 36\<rparr>\<rparr>]
     41 (Some \<lparr>pi_a = [1, 2], pi_b = [[3, 4], [5, 6]], pi_c = [7, 8]\<rparr>) (Some 51)
     (Some \<lparr>memo_version = 1, memo_data = replicate 81 7\<rparr>)"

lemma sample_tx_ok: "tx_ok sample_tx"
  by (simp add: sample_tx_def new_ZkTx_def tx_ok_def inflow_ok_def outflow_ok_def proof_ok_def
      option_ok_def memo_ok_def ff_valid_def FP_ORDER_def)

section \<open>Round trip\<close>

text \<open>C12: A well-formed transaction is encoded without an exception, and decoding the bytes gives the
  transaction back, with its size remembered and no hash remembered.\<close>

theorem zkTx_roundtrip:
  assumes "tx_ok tx"
  shows "\<exists>bs. zkTx_encode tx = Ok bs \<and>
    zkTx_decode bs = Ok (tx\<lparr>cache_hash := None, cache_size := Some (length bs)\<rparr>)"
proof -
  have "queue_holds (new_Queue (tx_bytes tx)) (tx_bytes tx @ [])"
    by (simp add: queue_holds_new)
  then obtain q where "read_tx queue_fp queue_num queue_buf (new_Queue (tx_bytes tx)) =
      Ok (tx\<lparr>cache_hash := None, cache_size := None\<rparr>, q)"
    by (rule readsD [OF byte_reader.read_tx_reads [OF assms]])
  then show ?thesis
    by (simp add: zkTx_encode_ok [OF assms] zkTx_decode_def)
qed

theorem zkTx_roundtrip_witness:
  "\<exists>bs. zkTx_encode sample_tx = Ok bs \<and>
    zkTx_decode bs = Ok (sample_tx\<lparr>cache_hash := None, cache_size := Some (length bs)\<rparr>)"
  by (rule zkTx_roundtrip [OF sample_tx_ok])

section \<open>The hash\<close>

text \<open>What the hash is computed from, and the part of the shape that is not written.\<close>

definition hashed_content ::
  "zk_tx \<Rightarrow> zk_inflow list \<times> (int \<times> public_data option) list \<times> int \<times> snark option \<times> int" where
  "hashed_content tx = (tx_inflow tx, map (\<lambda>o'. (out_note o', out_data o')) (tx_outflow tx),
     (case tx_swap tx of Some s \<Rightarrow> s | None \<Rightarrow> 0), tx_proof tx, tx_fee tx)"

definition same_shape :: "zk_tx \<Rightarrow> zk_tx \<Rightarrow> bool" where
  "same_shape tx tx' \<longleftrightarrow> length (tx_inflow tx) = length (tx_inflow tx') \<and>
     map (\<lambda>o'. out_data o' = None) (tx_outflow tx) = map (\<lambda>o'. out_data o' = None) (tx_outflow tx')"

definition packed_outflow_bytes :: "int \<times> public_data option \<Rightarrow> byte list" where
  "packed_outflow_bytes p = fp_bytes (fst p) @ (case snd p of None \<Rightarrow> [] | Some d \<Rightarrow> data_bytes d)"

definition swap_value :: "zk_tx \<Rightarrow> int" where
  "swap_value tx = (case tx_swap tx of Some s \<Rightarrow> s | None \<Rightarrow> 0)"

definition packed_bytes :: "zk_tx \<Rightarrow> byte list" where
  "packed_bytes tx = concat (map inflow_bytes (tx_inflow tx)) @
     concat (map packed_outflow_bytes (map (\<lambda>o'. (out_note o', out_data o')) (tx_outflow tx))) @
     fp_bytes (swap_value tx) @ proof_bytes (the (tx_proof tx)) @ fp_bytes (tx_fee tx)"

lemma packed_outflow_ok:
  assumes "outflow_ok o'"
  shows "packed_outflow o' = Ok (packed_outflow_bytes (out_note o', out_data o'))"
proof (cases "out_data o'")
  case None
  with assms show ?thesis
    by (simp add: outflow_ok_def packed_outflow_def packed_outflow_bytes_def UTXO_def fp_valid_toBuffer)
next
  case (Some d)
  then have "out_type o' \<noteq> 0" "data_ok d" "fp_valid (out_note o')"
    using assms by (simp_all add: outflow_ok_def)
  moreover from this(2) have "encode_data d = Ok (data_bytes d)" by (rule encode_data_ok)
  ultimately show ?thesis
    using Some by (simp add: packed_outflow_def packed_outflow_bytes_def UTXO_def fp_valid_toBuffer
        address_toBuffer ff_valid_def data_bytes_def)
qed

lemma packed_tx_ok:
  assumes "tx_ok tx" and "tx_proof tx = Some p"
  shows "packed_tx tx p = Ok (packed_bytes tx)"
proof -
  have "list_all (\<lambda>i. packed_inflow i = Ok (inflow_bytes i)) (tx_inflow tx)"
    "list_all (\<lambda>o'. packed_outflow o' = Ok (packed_outflow_bytes (out_note o', out_data o'))) (tx_outflow tx)"
    using assms encode_inflow_ok
    by (auto simp: tx_ok_def packed_outflow_ok packed_inflow_def encode_inflow_def elim: list.pred_mono_strong)
  note parts = this [THEN buffer_concat_map_Ok]
  have "proof_ok p" "option_ok fp_valid (tx_swap tx)" "fp_valid (tx_fee tx)"
    using assms by (simp_all add: tx_ok_def)
  then show ?thesis
    by (auto simp: packed_tx_def buffer_concat_append parts proof_ok_valid packed_bytes_def o_def
        fp_valid_toBuffer proof_bytes_def assms(2) option_ok_def swap_value_def split: option.splits)
qed

lemma fp_bytes_inj: "fp_valid x \<Longrightarrow> fp_valid y \<Longrightarrow> fp_bytes x = fp_bytes y \<longleftrightarrow> x = y"
  by (metis be_bytes_inj fp_valid_below eq_nat_nat_iff ff_valid_def)

lemma address_bytes_eq:
  "0 \<le> x \<Longrightarrow> x < 2 ^ 160 \<Longrightarrow> 0 \<le> y \<Longrightarrow> y < 2 ^ 160 \<Longrightarrow>
    be_bytes 20 (nat x) = be_bytes 20 (nat y) \<longleftrightarrow> x = y"
  using be_bytes_inj [of 20 "nat x" "nat y"] by (auto simp: nat_less_iff)

lemma data_bytes_inj:
  assumes "data_ok d" and "data_ok e" and "data_bytes d = data_bytes e"
  shows "d = e"
proof (rule public_data.equality)
  show "pd_to d = pd_to e" "pd_eth d = pd_eth e" "pd_tokenAddr d = pd_tokenAddr e"
    "pd_erc20Amount d = pd_erc20Amount e" "pd_nft d = pd_nft e" "pd_fee d = pd_fee e"
    using assms by (simp_all add: data_bytes_def fp_bytes_inj address_bytes_eq ff_valid_def)
qed simp

lemma inflow_bytes_inj:
  assumes "inflow_ok i" and "inflow_ok j" and "inflow_bytes i = inflow_bytes j"
  shows "i = j"
  using assms by (intro zk_inflow.equality) (simp_all add: inflow_bytes_def inflow_ok_def fp_bytes_inj)

lemma proof_bytes_inj:
  assumes "proof_ok p" and "proof_ok q" and "proof_bytes p = proof_bytes q"
  shows "p = q"
proof -
  have "queue_holds (new_Queue (proof_bytes p)) (proof_bytes p @ [])" by (simp add: queue_holds_new)
  then obtain u v where "read_proof queue_fp (new_Queue (proof_bytes p)) = Ok (p, u)"
    and "read_proof queue_fp (new_Queue (proof_bytes p)) = Ok (q, v)"
    using byte_reader.read_proof_reads [OF assms(1)] byte_reader.read_proof_reads [OF assms(2)] assms(3)
    by (metis readsD)
  then show ?thesis by simp
qed

lemma concat_map_inj:
  assumes "length xs = length ys" and "concat (map f xs) = concat (map f ys)"
    and "\<And>i. i < length xs \<Longrightarrow> length (f (xs ! i)) = length (f (ys ! i))"
    and "\<And>i. i < length xs \<Longrightarrow> f (xs ! i) = f (ys ! i) \<Longrightarrow> xs ! i = ys ! i"
  shows "xs = ys"
proof -
  have "map f xs = map f ys"
    by (rule concat_injective) (use assms in \<open>auto simp: set_zip\<close>)
  then show ?thesis
    using assms(1,4) by (metis nth_equalityI nth_map)
qed

lemma length_concat_same:
  assumes "length xs = length ys" and "\<And>i. i < length xs \<Longrightarrow> length (f (xs ! i)) = length (f (ys ! i))"
  shows "length (concat (map f xs)) = length (concat (map f ys))"
  using assms by (simp add: length_concat o_def sum_list_sum_nth)

lemma length_packed_parts:
  "length (inflow_bytes i) = 64" "length (data_bytes d) = 168"
  "length (packed_outflow_bytes p) = 32 + (if snd p = None then 0 else 168)"
  by (simp_all add: inflow_bytes_def data_bytes_def packed_outflow_bytes_def split: option.splits)

lemma same_shape_outflow:
  assumes "same_shape tx tx'"
  shows "length (tx_outflow tx) = length (tx_outflow tx')"
    and "i < length (tx_outflow tx) \<Longrightarrow>
      (out_data (tx_outflow tx ! i) = None) = (out_data (tx_outflow tx' ! i) = None)"
proof -
  have eq: "map (\<lambda>o'. out_data o' = None) (tx_outflow tx) = map (\<lambda>o'. out_data o' = None) (tx_outflow tx')"
    using assms by (simp add: same_shape_def)
  then show len: "length (tx_outflow tx) = length (tx_outflow tx')" by (rule map_eq_imp_length_eq)
  assume "i < length (tx_outflow tx)"
  with len arg_cong [OF eq, of "\<lambda>l. l ! i"]
  show "(out_data (tx_outflow tx ! i) = None) = (out_data (tx_outflow tx' ! i) = None)" by simp
qed

lemma append5_inj:
  "length a = length a' \<Longrightarrow> length b = length b' \<Longrightarrow> length c = length c' \<Longrightarrow> length d = length d' \<Longrightarrow>
    a @ b @ c @ d @ e = a' @ b' @ c' @ d' @ e' \<Longrightarrow> a = a' \<and> b = b' \<and> c = c' \<and> d = d' \<and> e = e'"
  by simp

lemma packed_bytes_inj:
  assumes ok: "tx_ok tx" "tx_ok tx'" and shape: "same_shape tx tx'"
    and eq: "packed_bytes tx = packed_bytes tx'"
  shows "hashed_content tx = hashed_content tx'"
proof -
  let ?outs = "\<lambda>tx. map (\<lambda>o'. (out_note o', out_data o')) (tx_outflow tx)"
  obtain p p' where p: "tx_proof tx = Some p" "proof_ok p" "tx_proof tx' = Some p'" "proof_ok p'"
    using ok by (auto simp: tx_ok_def split: option.splits)
  note outs = same_shape_outflow [OF shape]
  have ins: "length (tx_inflow tx) = length (tx_inflow tx')" using shape by (simp add: same_shape_def)
  have lengths: "length (concat (map inflow_bytes (tx_inflow tx))) = length (concat (map inflow_bytes (tx_inflow tx')))"
    "length (concat (map packed_outflow_bytes (?outs tx))) =
      length (concat (map packed_outflow_bytes (?outs tx')))"
    "length (fp_bytes (swap_value tx)) = length (fp_bytes (swap_value tx'))"
    "length (proof_bytes p) = length (proof_bytes p')"
    using length_concat_same [OF ins, of inflow_bytes]
      length_concat_same [of "?outs tx" "?outs tx'" packed_outflow_bytes] outs
    by (simp_all add: length_packed_parts proof_bytes_def)
  have "concat (map inflow_bytes (tx_inflow tx)) @ concat (map packed_outflow_bytes (?outs tx)) @
      fp_bytes (swap_value tx) @ proof_bytes p @ fp_bytes (tx_fee tx) =
    concat (map inflow_bytes (tx_inflow tx')) @ concat (map packed_outflow_bytes (?outs tx')) @
      fp_bytes (swap_value tx') @ proof_bytes p' @ fp_bytes (tx_fee tx')"
    using eq by (simp add: packed_bytes_def p)
  note parts = append5_inj [OF lengths this]
  have valid: "fp_valid (swap_value tx)" "fp_valid (swap_value tx')" "fp_valid (tx_fee tx)" "fp_valid (tx_fee tx')"
    using ok by (auto simp: tx_ok_def option_ok_def swap_value_def split: option.splits)
  have "tx_inflow tx = tx_inflow tx'"
    by (rule concat_map_inj [OF ins parts [THEN conjunct1]])
      (use ok ins inflow_bytes_inj in \<open>auto simp: length_packed_parts tx_ok_def list_all_length\<close>)
  moreover have "?outs tx = ?outs tx'"
  proof (rule concat_map_inj [OF _ parts [THEN conjunct2, THEN conjunct1]])
    fix i assume "i < length (?outs tx)"
    then have i: "i < length (tx_outflow tx)" "i < length (tx_outflow tx')" using outs(1) by simp_all
    have o_ok: "outflow_ok (tx_outflow tx ! i)" "outflow_ok (tx_outflow tx' ! i)"
      using ok i by (simp_all add: tx_ok_def list_all_length)
    show "length (packed_outflow_bytes (?outs tx ! i)) = length (packed_outflow_bytes (?outs tx' ! i))"
      using i outs(2) by (simp add: length_packed_parts)
    assume "packed_outflow_bytes (?outs tx ! i) = packed_outflow_bytes (?outs tx' ! i)"
    then show "?outs tx ! i = ?outs tx' ! i"
      using i outs(2) [OF i(1)] o_ok
      by (auto simp: packed_outflow_bytes_def outflow_ok_def fp_bytes_inj data_bytes_inj
          simp del: data_ok.simps split: option.splits)
  qed (use outs(1) in simp)
  ultimately show ?thesis
    using parts valid p proof_bytes_inj [OF p(2,4)]
    by (simp add: hashed_content_def fp_bytes_inj flip: swap_value_def)
qed

text \<open>C13: What the hash of a transaction covers. For two well-formed proven transactions of the same
  shape whose hashes are not cached, the hash is Keccak of the packed bytes, and the packed bytes of the
  two are equal exactly when they agree in inflows, notes, public data, swap note, proof and fee. So
  equal hashes of transactions that differ in one of these come from this pair of different inputs of
  Keccak, and a memo, or the kind of an outflow with public data, is not covered at all.\<close>

theorem zkTx_hash_commits:
  assumes "tx_ok tx" and "tx_ok tx'" and "same_shape tx tx'"
    and "cache_hash tx = None" and "cache_hash tx' = None"
  shows "\<exists>p p' bs bs'. tx_proof tx = Some p \<and> packed_tx tx p = Ok bs \<and>
    tx_proof tx' = Some p' \<and> packed_tx tx' p' = Ok bs' \<and>
    (bs = bs' \<longleftrightarrow> hashed_content tx = hashed_content tx') \<and>
    (\<forall>keccak. map_sum id fst (zkTx_hash keccak tx) = Ok (keccak bs) \<and>
      map_sum id fst (zkTx_hash keccak tx') = Ok (keccak bs'))"
proof -
  obtain p p' where p: "tx_proof tx = Some p" "tx_proof tx' = Some p'"
    using assms by (auto simp: tx_ok_def split: option.splits)
  have packed: "packed_tx tx p = Ok (packed_bytes tx)" "packed_tx tx' p' = Ok (packed_bytes tx')"
    using p assms by (simp_all add: packed_tx_ok)
  have "packed_bytes tx = packed_bytes tx'" if "hashed_content tx = hashed_content tx'"
    using that by (auto simp: hashed_content_def packed_bytes_def simp flip: swap_value_def)
  with packed_bytes_inj [OF assms(1-3)]
  have "packed_bytes tx = packed_bytes tx' \<longleftrightarrow> hashed_content tx = hashed_content tx'" by blast
  moreover have "map_sum id fst (zkTx_hash keccak tx) = Ok (keccak (packed_bytes tx)) \<and>
      map_sum id fst (zkTx_hash keccak tx') = Ok (keccak (packed_bytes tx'))" for keccak
    using p assms packed by (simp add: zkTx_hash_def)
  ultimately show ?thesis using p packed by blast
qed

theorem zkTx_hash_commits_witness:
  "(\<forall>keccak. map_sum id fst (zkTx_hash keccak sample_tx) = map_sum id fst (zkTx_hash keccak (sample_tx\<lparr>tx_memo := None\<rparr>))) \<and>
   (\<exists>bs bs'. bs \<noteq> bs' \<and> (\<forall>keccak. map_sum id fst (zkTx_hash keccak sample_tx) = Ok (keccak bs) \<and>
      map_sum id fst (zkTx_hash keccak (sample_tx\<lparr>tx_fee := 1\<rparr>)) = Ok (keccak bs')))"
proof
  have "tx_ok (sample_tx\<lparr>tx_memo := None\<rparr>)" "same_shape sample_tx (sample_tx\<lparr>tx_memo := None\<rparr>)"
    "cache_hash sample_tx = None" "cache_hash (sample_tx\<lparr>tx_memo := None\<rparr>) = None"
    "hashed_content sample_tx = hashed_content (sample_tx\<lparr>tx_memo := None\<rparr>)"
    using sample_tx_ok
    by (simp_all add: tx_ok_def memo_ok_def same_shape_def sample_tx_def new_ZkTx_def hashed_content_def)
  with zkTx_hash_commits [OF sample_tx_ok this(1-4)]
  show "\<forall>keccak. map_sum id fst (zkTx_hash keccak sample_tx) = map_sum id fst (zkTx_hash keccak (sample_tx\<lparr>tx_memo := None\<rparr>))"
    by auto
next
  have "tx_ok (sample_tx\<lparr>tx_fee := 1\<rparr>)" "same_shape sample_tx (sample_tx\<lparr>tx_fee := 1\<rparr>)"
    "cache_hash sample_tx = None" "cache_hash (sample_tx\<lparr>tx_fee := 1\<rparr>) = None"
    "hashed_content sample_tx \<noteq> hashed_content (sample_tx\<lparr>tx_fee := 1\<rparr>)"
    using sample_tx_ok
    by (simp_all add: tx_ok_def memo_ok_def same_shape_def sample_tx_def new_ZkTx_def hashed_content_def
        ff_valid_def FP_ORDER_def)
  with zkTx_hash_commits [OF sample_tx_ok this(1-4)]
  show "\<exists>bs bs'. bs \<noteq> bs' \<and> (\<forall>keccak. map_sum id fst (zkTx_hash keccak sample_tx) = Ok (keccak bs) \<and>
      map_sum id fst (zkTx_hash keccak (sample_tx\<lparr>tx_fee := 1\<rparr>)) = Ok (keccak bs'))" by blast
qed

section \<open>The size\<close>

definition leaving :: "zk_tx \<Rightarrow> nat" where
  "leaving tx = length (filter (\<lambda>o'. out_data o' \<noteq> None) (tx_outflow tx))"

lemma length_outflows:
  "length (concat (map outflow_bytes os)) = 33 * length os + 168 * length (filter (\<lambda>o'. out_data o' \<noteq> None) os)"
  by (induction os) (auto simp: outflow_bytes_def length_packed_parts split: option.splits)

lemma length_inflows: "length (concat (map inflow_bytes is)) = 64 * length is"
  by (induction "is") (simp_all add: length_packed_parts)

text \<open>C14: The size of a well-formed transaction exceeds the estimate that fees are computed from by the
  32 bytes of the fee field, and, with a memo of the second version, by what that memo and its two
  length bytes exceed 81 bytes.\<close>

theorem zkTx_size_exceeds_estimate:
  assumes "tx_ok tx" and "cache_size tx = None"
  shows "\<exists>n. zkTx_size tx = Ok (n, tx\<lparr>cache_size := Some n\<rparr>) \<and>
    int n = int (txSizeCalculator (length (tx_inflow tx)) (length (tx_outflow tx)) (leaving tx)
        (tx_swap tx \<noteq> None) (tx_memo tx = None)) + 32 +
      (case tx_memo tx of None \<Rightarrow> 0
       | Some m \<Rightarrow> if memo_version m = 1 then 0 else 2 + int (length (memo_data m)) - 81)"
proof -
  have "zkTx_size tx = Ok (length (tx_bytes tx), tx\<lparr>cache_size := Some (length (tx_bytes tx))\<rparr>)"
    by (simp add: zkTx_size_def assms(2) zkTx_encode_ok [OF assms(1)])
  moreover have "memo_ok (tx_memo tx)" using assms(1) by (simp add: tx_ok_def)
  ultimately show ?thesis
    by (auto simp: tx_bytes_def length_inflows length_outflows proof_bytes_def swap_bytes_def
        memo_bytes_def memo_ok_def txSizeCalculator_def leaving_def simp del: be_bytes.simps be_bytes_1
        split: option.splits)
qed

theorem zkTx_size_exceeds_estimate_witness:
  "\<exists>tx. zkTx_size sample_tx = Ok (txSizeCalculator 1 2 1 True False + 32, tx)"
  using zkTx_size_exceeds_estimate [OF sample_tx_ok]
  by (auto simp: sample_tx_def new_ZkTx_def leaving_def txSizeCalculator_def)

end
