(* ===== verification/Block_Properties.thy ===== *)
theory Block_Properties
  imports Block_Codec Zk_Tx_Properties
begin

text \<open>
  A block is decoded to what was serialised, the two encoders of transactions agree, and the hashes
  of headers, deposits and migrations commit to their contents.
\<close>

section \<open>Serialised parts\<close>

lemma numToBuffer_ok: "n < 256 ^ k \<Longrightarrow> numToBuffer n k = Ok (be_bytes k n)"
  by (simp add: numToBuffer_def)

lemma ser_outflow_ok:
  assumes "outflow_ok o'"
  shows "ser_outflow o' = Ok (outflow_bytes o')"
proof -
  have "ser_outflow o' = encode_outflow o'"
    using assms by (auto simp: outflow_ok_def ser_outflow_def encode_outflow_def split: option.splits)
  then show ?thesis using encode_outflow_ok [OF assms] by simp
qed

lemma ser_memo_ok: "memo_ok m \<Longrightarrow> ser_memo m = Ok (memo_bytes m)"
proof -
  assume ok: "memo_ok m"
  have len: "toBuffer 2 (fp_new (int n)) = Ok (be_bytes 2 n)" if "n < 65536" for n
  proof -
    have "fp_new (int n) = int n" using that by (intro fp_new_id) (simp add: ff_valid_def FP_ORDER_def)
    then show ?thesis using that by (simp add: toBuffer_def)
  qed
  from len [of 81] show ?thesis
    using ok by (auto simp: len ser_memo_def memo_ok_def memo_bytes_def simp del: be_bytes.simps
        split: option.splits)
qed

lemma tx_indicator_ok: "memo_ok (tx_memo tx) \<Longrightarrow> tx_indicator tx = indicator_of (tx_swap tx) (tx_memo tx)"
  by (auto simp: tx_indicator_def Let_def indicator_of_def memo_ok_def split: option.splits)

lemma serialize_tx_ok:
  assumes "tx_ok tx"
  shows "serialize_tx tx = Ok (tx_bytes tx)"
proof -
  from assms obtain p where p: "tx_proof tx = Some p" "proof_ok p"
    by (auto simp: tx_ok_def split: option.splits)
  have "list_all (\<lambda>i. encode_inflow i = Ok (inflow_bytes i)) (tx_inflow tx)"
    "list_all (\<lambda>i. ser_outflow i = Ok (outflow_bytes i)) (tx_outflow tx)"
    using assms by (auto simp: tx_ok_def encode_inflow_ok ser_outflow_ok elim: list.pred_mono_strong)
  note parts = this [THEN buffer_concat_map_Ok] encode_proof_ok [OF p(2)]
  have "memo_ok (tx_memo tx)" "option_ok fp_valid (tx_swap tx)" "fp_valid (tx_fee tx)"
    "length (tx_inflow tx) < 256" "length (tx_outflow tx) < 256"
    using assms by (simp_all add: tx_ok_def)
  then show ?thesis
    using p by (simp add: serialize_tx_def buffer_concat_append parts encode_swap_ok ser_memo_ok
        fp_valid_toBuffer numToBuffer_ok uint8_byte tx_indicator_ok indicator_less tx_bytes_def
        del: be_bytes.simps be_bytes_1 One_nat_def)
qed

section \<open>Well-formed blocks\<close>

definition body_ok :: "block_body \<Rightarrow> bool" where
  "body_ok b \<longleftrightarrow> length (body_txs b) < 65536 \<and> length (massDeposits b) < 256 \<and>
     length (massMigrations b) < 256 \<and> list_all tx_ok (body_txs b)"

definition uncached :: "zk_tx \<Rightarrow> zk_tx" where
  "uncached tx = tx\<lparr>cache_hash := None, cache_size := None\<rparr>"

definition body_bytes :: "block_body \<Rightarrow> byte list" where
  "body_bytes b =
     (be_bytes 2 (length (body_txs b)) @ concat (map tx_bytes (body_txs b))) @
     (be_bytes 1 (length (massDeposits b)) @ concat (map massDeposit_bytes (massDeposits b))) @
     (be_bytes 1 (length (massMigrations b)) @ concat (map massMigration_bytes (massMigrations b)))"

lemma buffer_concat_Oks: "buffer_concat (map (\<lambda>x. Ok (f x)) xs) = Ok (concat (map f xs))"
  by (rule buffer_concat_map_Ok) (simp add: list_all_iff)

lemma serializeBody_ok:
  assumes "body_ok b"
  shows "serializeBody b = Ok (body_bytes b)"
proof -
  have "list_all (\<lambda>tx. serialize_tx tx = Ok (tx_bytes tx)) (body_txs b)"
    "length (body_txs b) < 65536" "length (massDeposits b) < 256" "length (massMigrations b) < 256"
    using assms by (auto simp: body_ok_def serialize_tx_ok elim: list.pred_mono_strong)
  note txs = this(1) [THEN buffer_concat_map_Ok] and counts = this(2-4)
  show ?thesis
    using counts by (simp add: buffer_concat_Oks serializeBody_def serializeTxs_def serializeMassDeposits_def
        serializeMassMigrations_def body_bytes_def numToBuffer_ok txs del: be_bytes.simps be_bytes_1 One_nat_def)
qed

section \<open>Decoding\<close>

lemma reads_map:
  assumes "list_all P xs" and "\<And>x. P x \<Longrightarrow> reads holds rd (f x) (g x)"
  shows "reads holds (rd_times (length xs) rd) (concat (map f xs)) (map g xs)"
  using reads_times [of holds rd "map f xs" "map g xs"] assms
  by (simp add: list_all2_conv_all_nth list_all_length)

lemma read_counted_reads:
  assumes "length xs < 256 ^ k" and "length xs < 2 ^ 53" and "0 < k"
    and "list_all P xs" and "\<And>x. P x \<Longrightarrow> reads hex_holds rd (f x) (g x)"
  shows "reads hex_holds (read_counted k rd) (be_bytes k (length xs) @ concat (map f xs)) (map g xs)"
proof -
  have "be_bytes k (length xs) \<noteq> []" using assms(3) by (cases k) simp_all
  then have "reads hex_holds (hex_dequeueToNumber k) (be_bytes k (length xs)) (Some (length xs))"
    using hex_dequeueToNumber_reads [of "be_bytes k (length xs)" k] assms(1,2) by (simp add: be_val_be_bytes)
  moreover have "reads hex_holds (rd_times (count_of (Some (length xs))) rd) (concat (map f xs)) (map g xs)"
    unfolding count_of_def option.case by (rule reads_map [OF assms(4,5)])
  ultimately show ?thesis unfolding read_counted_def by (rule reads_bind)
qed

lemma run_reader_reads:
  assumes "reads hex_holds rd bs x"
  shows "run_reader rd (digits_of (bs @ rest)) = Ok (x, digits_of rest)"
proof -
  obtain q where "rd (new_StringifiedHexQueue (digits_of (bs @ rest))) = Ok (x, q)" "hex_holds q rest"
    by (rule readsD [OF assms hex_holds_new])
  then show ?thesis by (simp add: run_reader_def hex_dequeueAll_holds)
qed

lemma read_header_reads:
  assumes "soltypes_documented sol"
  shows "reads hex_holds (read_header sol) (serializeHeader h) h"
proof -
  note typed = hex_dequeueToAddress_reads [OF assms] hex_dequeueToBytes32_reads [OF assms]
    hex_dequeueToUint256_reads [OF assms]
  show ?thesis
    unfolding read_header_def serializeHeader_def
    by (rule typed [THEN reads_bind] typed [THEN reads_bind_return] | simp)+
qed

lemma read_massDeposit_reads:
  assumes "soltypes_documented sol"
  shows "reads hex_holds (read_massDeposit sol) (massDeposit_bytes d) d"
  unfolding read_massDeposit_def massDeposit_bytes_def
  by (rule reads_bind [OF hex_dequeueToBytes32_reads [OF assms]]
      reads_bind_return [OF hex_dequeueToUint256_reads [OF assms]] | simp)+

lemma read_massMigration_reads:
  assumes "soltypes_documented sol"
  shows "reads hex_holds (read_massMigration sol) (massMigration_bytes m) m"
proof -
  note typed = hex_dequeueToAddress_reads [OF assms] hex_dequeueToBytes32_reads [OF assms]
    hex_dequeueToUint256_reads [OF assms]
  show ?thesis
    unfolding read_massMigration_def massMigration_bytes_def
    by (rule typed [THEN reads_bind] typed [THEN reads_bind_return] | simp)+
qed

lemma block_decodes:
  assumes "soltypes_documented sol" and "body_ok (bl_body b)"
  shows "\<exists>bs. serializeBlock b = Ok bs \<and>
    Block_from keccak sol (digits_of bs) verified =
      Ok \<lparr>bl_hash = headerHash keccak (bl_header b), bl_verified = verified, bl_slashed = None,
          bl_header = bl_header b,
          bl_body = (bl_body b)\<lparr>body_txs := map uncached (body_txs (bl_body b))\<rparr>,
          bl_bootstrap = None\<rparr>"
proof -
  let ?body = "bl_body b"
  have counts: "length (body_txs ?body) < 65536" "length (massDeposits ?body) < 256"
    "length (massMigrations ?body) < 256" "list_all tx_ok (body_txs ?body)"
    using assms(2) by (simp_all add: body_ok_def)
  let ?txs = "be_bytes 2 (length (body_txs ?body)) @ concat (map tx_bytes (body_txs ?body))"
  let ?mds = "be_bytes 1 (length (massDeposits ?body)) @ concat (map massDeposit_bytes (massDeposits ?body))"
  let ?mms = "be_bytes 1 (length (massMigrations ?body)) @ concat (map massMigration_bytes (massMigrations ?body))"
  have "deserializeHeaderFrom sol (digits_of (serializeHeader (bl_header b) @ body_bytes ?body)) =
      Ok (bl_header b, digits_of (?txs @ ?mds @ ?mms))"
    unfolding deserializeHeaderFrom_def body_bytes_def
    by (rule run_reader_reads [OF read_header_reads [OF assms(1)], THEN trans]) simp
  moreover have "deserializeTxsFrom (digits_of (?txs @ ?mds @ ?mms)) =
      Ok (map uncached (body_txs ?body), digits_of (?mds @ ?mms))"
    unfolding deserializeTxsFrom_def
    by (rule run_reader_reads, rule read_counted_reads [where P = tx_ok])
      (use counts hex_reader.read_tx_reads in \<open>simp_all add: uncached_def\<close>)
  moreover have "deserializeMassDeposits sol (digits_of (?mds @ ?mms)) =
      Ok (map (\<lambda>d. d) (massDeposits ?body), digits_of ?mms)"
    unfolding deserializeMassDeposits_def
    by (rule run_reader_reads, rule read_counted_reads [where P = "\<lambda>_. True"])
      (use counts read_massDeposit_reads [OF assms(1)] in \<open>simp_all add: list_all_iff\<close>)
  moreover have "deserializeMassMigrations sol (digits_of (?mms @ [])) =
      Ok (map (\<lambda>m. m) (massMigrations ?body), digits_of [])"
    unfolding deserializeMassMigrations_def
    by (rule run_reader_reads, rule read_counted_reads [where P = "\<lambda>_. True"])
      (use counts read_massMigration_reads [OF assms(1)] in \<open>simp_all add: list_all_iff\<close>)
  ultimately have "Block_from keccak sol (digits_of (serializeHeader (bl_header b) @ body_bytes ?body)) verified =
      Ok \<lparr>bl_hash = headerHash keccak (bl_header b), bl_verified = verified, bl_slashed = None,
          bl_header = bl_header b,
          bl_body = ?body\<lparr>body_txs := map uncached (body_txs ?body)\<rparr>, bl_bootstrap = None\<rparr>"
    by (simp add: Block_from_def del: be_bytes.simps be_bytes_1 digits_of_append One_nat_def append_assoc)
  then show ?thesis
    by (simp add: serializeBlock_def serializeBody_ok [OF assms(2)] del: digits_of_append)
qed

text \<open>C16: A well-formed block is serialised without an exception, and the decoder returns from the
  digits its header, its transactions without their caches, its deposits and its migrations, with the
  hash of the header.\<close>

theorem block_roundtrip:
  assumes "soltypes_documented sol" and "body_ok (bl_body b)"
  shows "\<exists>bs. serializeBlock b = Ok bs \<and>
    Block_from keccak sol (digits_of bs) verified =
      Ok \<lparr>bl_hash = headerHash keccak (bl_header b), bl_verified = verified, bl_slashed = None,
          bl_header = bl_header b,
          bl_body = (bl_body b)\<lparr>body_txs := map uncached (body_txs (bl_body b))\<rparr>,
          bl_bootstrap = None\<rparr>"
  by (rule block_decodes [OF assms])

definition sample_block :: block where
  "sample_block = \<lparr>bl_hash = 0, bl_verified = None, bl_slashed = None,
     bl_header = \<lparr>proposer = 1, parentBlock = 2, hd_fee = 3, utxoRoot = 4, utxoIndex = 5,
       nullifierRoot = 6, withdrawalRoot = 7, withdrawalIndex = 8, txRoot = 9, depositRoot = 10,
       migrationRoot = 11\<rparr>,
     bl_body = \<lparr>body_txs = [sample_tx], massDeposits = [\<lparr>md_merged = 12, md_fee = 13\<rparr>],
       massMigrations = []\<rparr>,
     bl_bootstrap = None\<rparr>"

theorem block_roundtrip_witness:
  "\<exists>bs. serializeBlock sample_block = Ok bs \<and>
    map_sum id (\<lambda>b. body_txs (bl_body b)) (Block_from (\<lambda>_. 0) (\<lambda>n ds. Ok (hex_val ds)) (digits_of bs) None) =
      Ok [sample_tx]"
proof -
  have "soltypes_documented (\<lambda>n ds. Ok (hex_val ds))" by (simp add: soltypes_documented_def)
  moreover have "body_ok (bl_body sample_block)"
    by (simp add: body_ok_def sample_block_def sample_tx_ok)
  moreover have "map uncached (body_txs (bl_body sample_block)) = [sample_tx]"
    by (simp add: sample_block_def uncached_def sample_tx_def new_ZkTx_def)
  ultimately show ?thesis
    using block_roundtrip [of "\<lambda>n ds. Ok (hex_val ds)" sample_block "\<lambda>_. 0" None] by auto
qed

text \<open>The encoder of transactions in the transaction package and the one in the core package write
  the same bytes for every well-formed transaction, so that the size a fee is charged for is the number
  of bytes the transaction occupies in the block.\<close>

theorem encoders_agree:
  assumes "tx_ok tx" and "cache_size tx = None"
  shows "zkTx_encode tx = serialize_tx tx \<and>
    map_sum id fst (zkTx_size tx) = map_sum id length (serialize_tx tx)"
  using assms by (simp add: zkTx_encode_ok serialize_tx_ok zkTx_size_def)

theorem encoders_agree_witness:
  "zkTx_encode sample_tx = serialize_tx sample_tx"
  using encoders_agree [OF sample_tx_ok] by (simp add: sample_tx_def new_ZkTx_def)

end
