(* ===== verification/Block_Data.thy ===== *)
theory Block_Data
  imports Block_Properties
begin

text \<open>
  The forms in which blocks and headers are handed to the validators, and their conversions:
  \<open>packages/core/src/validator/utils.ts\<close>.
\<close>

datatype 'a data_form = Hex_string "digit list" | Raw_buffer "byte list" | Instance 'a

definition blockDataToHexString :: "block data_form \<Rightarrow> digit list result" where
  "blockDataToHexString data =
     (case data of
        Hex_string ds \<Rightarrow> Ok ds
      | Raw_buffer bs \<Rightarrow> Ok (digits_of bs)
      | Instance b \<Rightarrow> bind_result (serializeBlock b) (\<lambda>bs. Ok (digits_of bs)))"

definition blockDataToBlock ::
  "(byte list \<Rightarrow> 256 word) \<Rightarrow> soltypes \<Rightarrow> block data_form \<Rightarrow> block result" where
  "blockDataToBlock keccak sol data =
     (case data of
        Hex_string ds \<Rightarrow> Block_from keccak sol ds None
      | Raw_buffer bs \<Rightarrow> Block_from keccak sol (digits_of bs) None
      | Instance b \<Rightarrow> Ok b)"

definition headerDataToHexString :: "header data_form \<Rightarrow> digit list" where
  "headerDataToHexString data =
     (case data of
        Hex_string ds \<Rightarrow> ds
      | Raw_buffer bs \<Rightarrow> digits_of bs
      | Instance h \<Rightarrow> digits_of (serializeHeader h))"

definition headerDataToHeader :: "soltypes \<Rightarrow> header data_form \<Rightarrow> header result" where
  "headerDataToHeader sol data =
     (case data of
        Instance h \<Rightarrow> Ok h
      | _ \<Rightarrow> bind_result (read_header sol (new_StringifiedHexQueue (headerDataToHexString data)))
          (\<lambda>(h, _). Ok h))"

text \<open>Every form of a header yields the header.\<close>

lemma header_forms:
  assumes "soltypes_documented sol"
    and "data \<in> {Instance h, Raw_buffer (serializeHeader h), Hex_string (digits_of (serializeHeader h))}"
  shows "headerDataToHeader sol data = Ok h" and "headerDataToHexString data = digits_of (serializeHeader h)"
proof -
  show "headerDataToHexString data = digits_of (serializeHeader h)"
    using assms(2) by (auto simp: headerDataToHexString_def)
  have "hex_holds (new_StringifiedHexQueue (digits_of (serializeHeader h))) (serializeHeader h @ [])"
    using hex_holds_new [of "serializeHeader h"] by simp
  then obtain q where "read_header sol (new_StringifiedHexQueue (digits_of (serializeHeader h))) = Ok (h, q)"
    by (rule readsD [OF read_header_reads [OF assms(1)]])
  then show "headerDataToHeader sol data = Ok h"
    using assms(2) by (auto simp: headerDataToHeader_def headerDataToHexString_def)
qed

end
