(* ===== verification/Block_Cache.thy ===== *)
theory Block_Cache
  imports Prelude
begin

text \<open>
  \<open>BlockCache\<close> of \<open>packages/database/src/block-cache.ts\<close>: writes that belong to a block of the layer
  below wait in memory until that block has enough confirmations.

  The operations are asynchronous. A new header starts a run over the pending operations that awaits
  every write, so other calls, and other runs, take place between two rounds of its loop. The model is
  a step relation with explicit arrays: \<open>push\<close> changes the array that a run may be iterating over,
  \<open>filter\<close> makes a new one. Pending operations are objects; their identity is a number.
\<close>

section \<open>Operations\<close>

datatype operation_type = UPSERT | CREATE | UPDATE | TRANSACTION | DELETE

record 'v transaction_operation =
  to_collection :: string
  to_type :: operation_type
  to_where :: "'v option"
  to_create :: "'v option"
  to_update :: "'v option"

record 'v pending_operation =
  op_id :: nat
  op_blockNumber :: int
  op_blockHash :: string
  op_collection :: string
  op_type :: operation_type
  op_where :: "'v option"
  op_create :: "'v option"
  op_update :: "'v option"
  op_transaction :: "'v transaction_operation list option"

text \<open>The calls on the database.\<close>

datatype 'v db_call =
    Call_create string "'v option"
  | Call_upsert string "'v option" "'v option" "'v option"
  | Call_update string "'v option" "'v option"
  | Call_delete string "'v option"
  | Call_transaction "'v db_call list"

fun transaction_call :: "'v transaction_operation \<Rightarrow> 'v db_call result" where
  "transaction_call op =
     (case to_type op of
        CREATE \<Rightarrow> Ok (Call_create (to_collection op) (to_create op))
      | UPSERT \<Rightarrow> Ok (Call_upsert (to_collection op) (to_where op) (to_create op) (to_update op))
      | UPDATE \<Rightarrow> Ok (Call_update (to_collection op) (to_where op) (to_update op))
      | DELETE \<Rightarrow> Ok (Call_delete (to_collection op) (to_where op))
      | TRANSACTION \<Rightarrow> Throw ''Unrecognized transaction operation type'')"

fun transaction_calls :: "'v transaction_operation list \<Rightarrow> 'v db_call list result" where
  "transaction_calls [] = Ok []"
| "transaction_calls (op # ops) = bind_result (transaction_call op) (\<lambda>c.
     bind_result (transaction_calls ops) (\<lambda>cs. Ok (c # cs)))"

definition writeChange :: "'v pending_operation \<Rightarrow> 'v db_call result" where
  "writeChange op =
     (case op_type op of
        CREATE \<Rightarrow> Ok (Call_create (op_collection op) (op_create op))
      | UPSERT \<Rightarrow> Ok (Call_upsert (op_collection op) (op_where op) (op_create op) (op_update op))
      | UPDATE \<Rightarrow> Ok (Call_update (op_collection op) (op_where op) (op_update op))
      | TRANSACTION \<Rightarrow>
          (case op_transaction op of
             None \<Rightarrow> Ok (Call_transaction [])
           | Some ops \<Rightarrow> bind_result (transaction_calls ops) (\<lambda>cs. Ok (Call_transaction cs)))
      | DELETE \<Rightarrow> Ok (Call_delete (op_collection op) (op_where op)))"

section \<open>State\<close>

text \<open>A run of \<open>writeChangesIfNeeded\<close>: the array it iterates over, its position, what it has written.\<close>

record write_run =
  run_array :: nat
  run_index :: nat
  run_docsToRemove :: "nat list"

text \<open>
  \<open>arrays\<close> is the store of arrays, \<open>pendingOperations\<close> the reference held by the cache. \<open>written\<close> logs
  the operations handed to the database with the height of that moment, \<open>enqueued\<close> the operations ever
  pushed, \<open>dropped\<close> those taken away by clearing their block; the three are not in the program.
\<close>

record 'v block_cache =
  arrays :: "'v pending_operation list list"
  pendingOperations :: nat
  currentBlockNumber :: int
  confirmations :: int
  runs :: "write_run list"
  next_id :: nat
  written :: "('v pending_operation \<times> int) list"
  enqueued :: "'v pending_operation list"
  dropped :: "'v pending_operation list"

definition new_BlockCache :: "int \<Rightarrow> 'v block_cache" where
  "new_BlockCache confs =
     \<lparr>arrays = [[]], pendingOperations = 0, currentBlockNumber = 0, confirmations = confs, runs = [],
      next_id = 0, written = [], enqueued = [], dropped = []\<rparr>"

definition pending :: "'v block_cache \<Rightarrow> 'v pending_operation list" where
  "pending c = arrays c ! pendingOperations c"

text \<open>\<open>this.pendingOperations = this.pendingOperations.filter(P)\<close>.\<close>

definition filter_pending :: "('v pending_operation \<Rightarrow> bool) \<Rightarrow> 'v block_cache \<Rightarrow> 'v block_cache" where
  "filter_pending P c = c\<lparr>arrays := arrays c @ [filter P (pending c)], pendingOperations := length (arrays c)\<rparr>"

definition push_pending :: "'v pending_operation \<Rightarrow> 'v block_cache \<Rightarrow> 'v block_cache" where
  "push_pending op c =
     c\<lparr>arrays := (arrays c)[pendingOperations c := pending c @ [op]], enqueued := enqueued c @ [op]\<rparr>"

section \<open>Operations of the cache\<close>

text \<open>\<open>blockNumber()\<close> asks the node when no header was seen; \<open>chain\<close> is the answer.\<close>

definition blockNumber :: "int \<Rightarrow> 'v block_cache \<Rightarrow> 'v block_cache" where
  "blockNumber chain c = (if currentBlockNumber c = 0 then c\<lparr>currentBlockNumber := chain\<rparr> else c)"

definition clearChangesForBlockHash :: "string \<Rightarrow> 'v block_cache \<Rightarrow> 'v block_cache" where
  "clearChangesForBlockHash h c =
     (filter_pending (\<lambda>op. op_blockHash op \<noteq> h) c)
       \<lparr>dropped := dropped c @ filter (\<lambda>op. op_blockHash op = h) (pending c)\<rparr>"

text \<open>A header: the height, and a run that starts.\<close>

definition newBlockHeader :: "int \<Rightarrow> 'v block_cache \<Rightarrow> 'v block_cache" where
  "newBlockHeader n c = c\<lparr>currentBlockNumber := n,
     runs := runs c @ [\<lparr>run_array = pendingOperations c, run_index = 0, run_docsToRemove = []\<rparr>]\<rparr>"

definition too_young :: "'v block_cache \<Rightarrow> 'v pending_operation \<Rightarrow> bool" where
  "too_young c op \<longleftrightarrow> currentBlockNumber c - op_blockNumber op < confirmations c"

text \<open>
  One round of the loop of \<open>writeChangesIfNeeded\<close> in the run \<open>k\<close>: a young operation is skipped, an old
  one is written (\<open>succeeds\<close> tells whether the database accepts it). After the last round the written
  operations are filtered out of what is pending then.
\<close>

definition run_round :: "nat \<Rightarrow> bool \<Rightarrow> 'v block_cache \<Rightarrow> 'v block_cache" where
  "run_round k succeeds c =
     (let r = runs c ! k; arr = arrays c ! run_array r in
      if run_index r < length arr then
        (let op = arr ! run_index r; r' = r\<lparr>run_index := run_index r + 1\<rparr> in
         if too_young c op then c\<lparr>runs := (runs c)[k := r']\<rparr>
         else
           (case writeChange op of
              Inl _ \<Rightarrow> c\<lparr>runs := (runs c)[k := r']\<rparr>
            | Inr _ \<Rightarrow>
                if succeeds
                then c\<lparr>written := written c @ [(op, currentBlockNumber c)],
                       runs := (runs c)[k := r'\<lparr>run_docsToRemove := run_docsToRemove r @ [op_id op]\<rparr>]\<rparr>
                else c\<lparr>runs := (runs c)[k := r']\<rparr>))
      else
        (filter_pending (\<lambda>op. op_id op \<notin> set (run_docsToRemove r)) c)
          \<lparr>runs := take k (runs c) @ drop (Suc k) (runs c)\<rparr>)"

text \<open>
  The common part of \<open>upsertCache\<close>, \<open>updateCache\<close> and \<open>transactionCache\<close>: written at once when confirmed
  or when no confirmations are asked for, else kept. A write that fails throws to the caller.
\<close>

definition store_operation :: "int \<Rightarrow> bool \<Rightarrow> 'v pending_operation \<Rightarrow> 'v block_cache \<Rightarrow> 'v block_cache" where
  "store_operation chain succeeds op c =
     (let c = (blockNumber chain c)\<lparr>next_id := Suc (next_id c)\<rparr>; op = op\<lparr>op_id := next_id c - 1\<rparr> in
      if confirmations c = 0 \<or> confirmations c \<le> currentBlockNumber c - op_blockNumber op then
        (case writeChange op of
           Inl _ \<Rightarrow> c
         | Inr _ \<Rightarrow> if succeeds then c\<lparr>written := written c @ [(op, currentBlockNumber c)]\<rparr> else c)
      else push_pending op c)"

definition upsertCache ::
  "int \<Rightarrow> bool \<Rightarrow> string \<Rightarrow> 'v option \<times> 'v option \<times> 'v option \<Rightarrow> int \<Rightarrow> string \<Rightarrow> 'v block_cache \<Rightarrow> 'v block_cache" where
  "upsertCache chain succeeds coll options bn bh =
     (case options of (wh, create, update) \<Rightarrow>
        store_operation chain succeeds
          \<lparr>op_id = 0, op_blockNumber = bn, op_blockHash = bh, op_collection = coll, op_type = UPSERT,
           op_where = wh, op_create = create, op_update = update, op_transaction = None\<rparr>)"

definition updateCache ::
  "int \<Rightarrow> bool \<Rightarrow> string \<Rightarrow> 'v option \<times> 'v option \<Rightarrow> int \<Rightarrow> string \<Rightarrow> 'v block_cache \<Rightarrow> 'v block_cache" where
  "updateCache chain succeeds coll options bn bh =
     (case options of (wh, update) \<Rightarrow>
        store_operation chain succeeds
          \<lparr>op_id = 0, op_blockNumber = bn, op_blockHash = bh, op_collection = coll, op_type = UPDATE,
           op_where = wh, op_create = None, op_update = update, op_transaction = None\<rparr>)"

definition transactionCache ::
  "int \<Rightarrow> bool \<Rightarrow> 'v transaction_operation list \<Rightarrow> int \<Rightarrow> string \<Rightarrow> 'v block_cache \<Rightarrow> 'v block_cache" where
  "transactionCache chain succeeds operations bn bh =
     store_operation chain succeeds
       \<lparr>op_id = 0, op_blockNumber = bn, op_blockHash = bh, op_collection = [], op_type = TRANSACTION,
        op_where = None, op_create = None, op_update = None, op_transaction = Some operations\<rparr>"

section \<open>Behaviours\<close>

inductive cache_step :: "'v block_cache \<Rightarrow> 'v block_cache \<Rightarrow> bool" where
  header: "cache_step c (newBlockHeader n c)"
| round: "k < length (runs c) \<Longrightarrow> cache_step c (run_round k succeeds c)"
| clear: "cache_step c (clearChangesForBlockHash h c)"
| upsert: "cache_step c (upsertCache chain succeeds coll options bn bh c)"
| update: "cache_step c (updateCache chain succeeds coll opts bn bh c)"
| transact: "cache_step c (transactionCache chain succeeds ops bn bh c)"

text \<open>All interleavings, from an empty cache.\<close>

inductive cache_reaches :: "int \<Rightarrow> 'v block_cache \<Rightarrow> bool" for confs where
  start: "cache_reaches confs (new_BlockCache confs)"
| step: "cache_reaches confs c \<Longrightarrow> cache_step c c' \<Longrightarrow> cache_reaches confs c'"

text \<open>Those in which headers and clearings wait for the run in progress.\<close>

inductive serial_step :: "'v block_cache \<Rightarrow> 'v block_cache \<Rightarrow> bool" where
  s_header: "runs c = [] \<Longrightarrow> serial_step c (newBlockHeader n c)"
| s_clear: "runs c = [] \<Longrightarrow> serial_step c (clearChangesForBlockHash h c)"
| s_round: "k < length (runs c) \<Longrightarrow> serial_step c (run_round k succeeds c)"
| s_upsert: "serial_step c (upsertCache chain succeeds coll options bn bh c)"
| s_update: "serial_step c (updateCache chain succeeds coll opts bn bh c)"
| s_transact: "serial_step c (transactionCache chain succeeds ops bn bh c)"

inductive serial_reaches :: "int \<Rightarrow> 'v block_cache \<Rightarrow> bool" for confs where
  s_start: "serial_reaches confs (new_BlockCache confs)"
| s_step: "serial_reaches confs c \<Longrightarrow> serial_step c c' \<Longrightarrow> serial_reaches confs c'"

inductive_cases cache_stepE: "cache_step c c'"
inductive_cases serial_stepE: "serial_step c c'"

end
