(* ===== verification/Block_Cache_Proofs.thy ===== *)
theory Block_Cache_Proofs
  imports Block_Cache
begin

text \<open>
  Invariants of the block cache: over all interleavings nothing is written early and nothing is lost,
  and when runs do not overlap with headers and clearings nothing is written twice or after it was
  cleared. Two short executions show that the last two fail otherwise.
\<close>

section \<open>All interleavings\<close>

abbreviation written_ops :: "'v block_cache \<Rightarrow> 'v pending_operation set" where
  "written_ops c \<equiv> fst ` set (written c)"

definition confirmed_at :: "int \<Rightarrow> 'v pending_operation \<times> int \<Rightarrow> bool" where
  "confirmed_at confs w \<longleftrightarrow> confs = 0 \<or> confs \<le> snd w - op_blockNumber (fst w)"

definition stored_ok :: "'v block_cache \<Rightarrow> bool" where
  "stored_ok c \<longleftrightarrow> pendingOperations c < length (arrays c) \<and>
     (\<forall>r\<in>set (runs c). run_array r < length (arrays c)) \<and>
     (\<forall>arr\<in>set (arrays c). set arr \<subseteq> set (enqueued c)) \<and>
     (\<forall>op\<in>set (enqueued c). op_id op < next_id c) \<and> inj_on op_id (set (enqueued c))"

definition docs_ok :: "'v block_cache \<Rightarrow> bool" where
  "docs_ok c \<longleftrightarrow> (\<forall>r\<in>set (runs c). \<forall>i\<in>set (run_docsToRemove r).
     \<exists>op\<in>written_ops c. op \<in> set (enqueued c) \<and> op_id op = i)"

definition cache_inv :: "int \<Rightarrow> 'v block_cache \<Rightarrow> bool" where
  "cache_inv confs c \<longleftrightarrow> confirmations c = confs \<and> stored_ok c \<and> docs_ok c \<and>
     (\<forall>w\<in>set (written c). confirmed_at confs w) \<and>
     set (enqueued c) \<subseteq> set (pending c) \<union> written_ops c \<union> set (dropped c)"

lemmas cache_inv_defs = cache_inv_def stored_ok_def docs_ok_def

lemma pending_in_arrays: "stored_ok c \<Longrightarrow> pending c \<in> set (arrays c)"
  by (simp add: stored_ok_def pending_def)

lemma pending_filter [simp]:
  "pending (filter_pending P c) = filter P (pending c)"
  "pending (c\<lparr>runs := rs\<rparr>) = pending c" "pending (c\<lparr>written := ws\<rparr>) = pending c"
  "pending (c\<lparr>dropped := ds\<rparr>) = pending c" "pending (c\<lparr>next_id := i\<rparr>) = pending c"
  "pending (c\<lparr>currentBlockNumber := n\<rparr>) = pending c"
  by (simp_all add: pending_def filter_pending_def)

lemma stored_ok_filter:
  assumes "stored_ok c"
  shows "stored_ok (filter_pending P c)"
proof -
  have "set (filter P (pending c)) \<subseteq> set (enqueued c)"
    using assms pending_in_arrays [OF assms] by (auto simp: stored_ok_def)
  then show ?thesis using assms by (auto simp: stored_ok_def filter_pending_def less_Suc_eq)
qed

lemma cache_inv_start: "cache_inv confs (new_BlockCache confs)"
  by (simp add: cache_inv_defs new_BlockCache_def pending_def)

lemma cache_inv_header: "cache_inv confs c \<Longrightarrow> cache_inv confs (newBlockHeader n c)"
  by (auto simp: cache_inv_defs newBlockHeader_def)

lemma cache_inv_clear:
  assumes "cache_inv confs c"
  shows "cache_inv confs (clearChangesForBlockHash h c)"
proof -
  have "stored_ok (filter_pending (\<lambda>op. op_blockHash op \<noteq> h) c)"
    using assms by (intro stored_ok_filter) (simp add: cache_inv_def)
  then show ?thesis
    using assms
    by (auto simp: cache_inv_def clearChangesForBlockHash_def docs_ok_def stored_ok_def)
      (auto simp: filter_pending_def)
qed

lemma blockNumber_facts [simp]:
  "arrays (blockNumber n c) = arrays c" "pendingOperations (blockNumber n c) = pendingOperations c"
  "runs (blockNumber n c) = runs c" "next_id (blockNumber n c) = next_id c"
  "written (blockNumber n c) = written c" "enqueued (blockNumber n c) = enqueued c"
  "dropped (blockNumber n c) = dropped c" "confirmations (blockNumber n c) = confirmations c"
  by (simp_all add: blockNumber_def)

lemma cache_inv_cong:
  assumes "cache_inv confs c" and "arrays c' = arrays c" and "pendingOperations c' = pendingOperations c"
    and "runs c' = runs c" and "next_id c \<le> next_id c'" and "written c' = written c @ ws"
    and "enqueued c' = enqueued c" and "dropped c' = dropped c" and "confirmations c' = confirmations c"
    and "list_all (confirmed_at confs) ws"
  shows "cache_inv confs c'"
proof -
  have "stored_ok c'"
    using assms(1-5,7) order_less_le_trans [OF _ assms(5)] unfolding cache_inv_def stored_ok_def by auto
  moreover have "docs_ok c'"
  proof -
    have sub: "written_ops c \<subseteq> written_ops c'" using assms(6) by auto
    have "docs_ok c" using assms(1) by (simp add: cache_inv_def)
    then have "\<exists>op\<in>written_ops c'. op \<in> set (enqueued c) \<and> op_id op = i"
      if "r \<in> set (runs c)" and "i \<in> set (run_docsToRemove r)" for r i
      using that sub unfolding docs_ok_def by blast
    then show ?thesis unfolding docs_ok_def assms(4,7) by blast
  qed
  moreover have "pending c' = pending c" using assms(2,3) by (simp add: pending_def)
  ultimately show ?thesis
    using assms(1,6-10) unfolding cache_inv_def by (auto simp: list_all_iff)
qed

lemma pending_push:
  "stored_ok c \<Longrightarrow> pending (push_pending op c) = pending c @ [op]"
  by (simp add: pending_def push_pending_def stored_ok_def)

lemma stored_ok_push:
  assumes "stored_ok c" and "op_id op < next_id c" and "op_id op \<notin> op_id ` set (enqueued c)"
  shows "stored_ok (push_pending op c)"
proof -
  have "set (pending c) \<subseteq> set (enqueued c)"
    using assms(1) pending_in_arrays [OF assms(1)] by (simp add: stored_ok_def)
  then have "set arr \<subseteq> set (enqueued c) \<union> {op}" if "arr \<in> set ((arrays c)[pendingOperations c := pending c @ [op]])" for arr
    using that assms(1) set_update_subset_insert [of "arrays c" "pendingOperations c" "pending c @ [op]"]
    unfolding stored_ok_def by fastforce
  then show ?thesis
    using assms by (auto simp: stored_ok_def push_pending_def)
qed

lemma cache_inv_push:
  assumes "cache_inv confs c" and "op_id op < next_id c" and "op_id op \<notin> op_id ` set (enqueued c)"
  shows "cache_inv confs (push_pending op c)"
proof -
  have ok: "stored_ok c" using assms(1) by (simp add: cache_inv_def)
  have "docs_ok (push_pending op c)"
    using assms(1) by (fastforce simp: cache_inv_def docs_ok_def push_pending_def)
  then show ?thesis
    using assms(1) stored_ok_push [OF ok assms(2,3)]
    by (auto simp: cache_inv_def pending_push [OF ok]) (auto simp: push_pending_def)
qed

lemma fresh_id:
  assumes "cache_inv confs c"
  shows "next_id c \<notin> op_id ` set (enqueued c)"
  using assms by (auto simp: cache_inv_def stored_ok_def)

lemma cache_inv_store:
  assumes "cache_inv confs c"
  shows "cache_inv confs (store_operation chain succeeds op c)"
proof -
  let ?c = "(blockNumber chain c)\<lparr>next_id := Suc (next_id c)\<rparr>" and ?op = "op\<lparr>op_id := next_id c\<rparr>"
  have inv: "cache_inv confs ?c"
    by (rule cache_inv_cong [OF assms, where ws = "[]"]) simp_all
  have confs: "confirmations c = confs" using assms by (simp add: cache_inv_def)
  have "cache_inv confs (push_pending ?op ?c)"
    using fresh_id [OF assms] by (intro cache_inv_push [OF inv]) simp_all
  moreover have "cache_inv confs (?c\<lparr>written := written ?c @ [(?op, currentBlockNumber ?c)]\<rparr>)"
    if "confs = 0 \<or> confs \<le> currentBlockNumber ?c - op_blockNumber op"
    by (rule cache_inv_cong [OF inv, where ws = "[(?op, currentBlockNumber ?c)]"])
      (use that in \<open>simp_all add: confirmed_at_def\<close>)
  ultimately show ?thesis
    using inv by (auto simp: store_operation_def Let_def confs split: sum.splits)
qed

lemma set_drop_run: "set (take k rs @ drop (Suc k) rs) \<subseteq> set rs"
  by (auto dest: in_set_takeD in_set_dropD)

lemma run_update_ok:
  assumes "cache_inv confs c" and "k < length (runs c)" and "run_array r = run_array (runs c ! k)"
    and "\<And>i. i \<in> set (run_docsToRemove r) \<Longrightarrow>
      \<exists>op\<in>written_ops c. op \<in> set (enqueued c) \<and> op_id op = i"
  shows "cache_inv confs (c\<lparr>runs := (runs c)[k := r]\<rparr>)"
proof -
  let ?c = "c\<lparr>runs := (runs c)[k := r]\<rparr>"
  have k: "runs c ! k \<in> set (runs c)" using assms(2) by simp
  have sub: "q \<in> set ((runs c)[k := r]) \<Longrightarrow> q = r \<or> q \<in> set (runs c)" for q
    using set_update_subset_insert [of "runs c" k r] by auto
  have "stored_ok ?c"
  proof -
    have "run_array q < length (arrays c)" if "q \<in> set ((runs c)[k := r])" for q
      using sub [OF that] k assms(1,3) unfolding cache_inv_def stored_ok_def by auto
    then show ?thesis using assms(1) unfolding cache_inv_def stored_ok_def by simp
  qed
  moreover have "docs_ok ?c"
  proof -
    have "\<exists>op\<in>written_ops c. op \<in> set (enqueued c) \<and> op_id op = i"
      if q: "q \<in> set ((runs c)[k := r])" and i: "i \<in> set (run_docsToRemove q)" for q i
      using sub [OF q] i assms(1,4) unfolding cache_inv_def docs_ok_def by auto
    then show ?thesis unfolding docs_ok_def by simp
  qed
  ultimately show ?thesis using assms(1) unfolding cache_inv_def by simp
qed

lemma run_skips_ok:
  assumes "cache_inv confs c" and "k < length (runs c)"
  shows "cache_inv confs (c\<lparr>runs := (runs c)[k := (runs c ! k)\<lparr>run_index := i\<rparr>]\<rparr>)"
proof (rule run_update_ok [OF assms])
  fix j assume "j \<in> set (run_docsToRemove ((runs c ! k)\<lparr>run_index := i\<rparr>))"
  then show "\<exists>op\<in>written_ops c. op \<in> set (enqueued c) \<and> op_id op = j"
    using assms nth_mem [OF assms(2)] unfolding cache_inv_def docs_ok_def by auto
qed simp

lemma run_writes_ok:
  assumes "cache_inv confs c" and "k < length (runs c)"
    and "op \<in> set (enqueued c)" and "confirmed_at confs (op, h)"
  shows "cache_inv confs (c\<lparr>written := written c @ [(op, h)], runs := (runs c)[k := (runs c ! k)\<lparr>run_index := i,
      run_docsToRemove := run_docsToRemove (runs c ! k) @ [op_id op]\<rparr>]\<rparr>)"
proof -
  let ?c = "c\<lparr>written := written c @ [(op, h)]\<rparr>"
  have inv: "cache_inv confs ?c"
    by (rule cache_inv_cong [OF assms(1), where ws = "[(op, h)]"]) (use assms(4) in simp_all)
  have "cache_inv confs (?c\<lparr>runs := (runs ?c)[k := (runs c ! k)\<lparr>run_index := i,
      run_docsToRemove := run_docsToRemove (runs c ! k) @ [op_id op]\<rparr>]\<rparr>)"
  proof (rule run_update_ok [OF inv])
    fix j assume "j \<in> set (run_docsToRemove ((runs c ! k)\<lparr>run_index := i,
      run_docsToRemove := run_docsToRemove (runs c ! k) @ [op_id op]\<rparr>))"
    then have "j = op_id op \<or> j \<in> set (run_docsToRemove (runs c ! k))" by auto
    then show "\<exists>op\<in>written_ops ?c. op \<in> set (enqueued ?c) \<and> op_id op = j"
      using assms(1,3) nth_mem [OF assms(2)] unfolding cache_inv_def docs_ok_def by fastforce
  qed (use assms(2) in simp_all)
  then show ?thesis by simp
qed

lemma run_finish_ok:
  assumes "cache_inv confs c" and "k < length (runs c)"
  shows "cache_inv confs ((filter_pending (\<lambda>op. op_id op \<notin> set (run_docsToRemove (runs c ! k))) c)
    \<lparr>runs := take k (runs c) @ drop (Suc k) (runs c)\<rparr>)"
proof -
  let ?D = "set (run_docsToRemove (runs c ! k))"
  let ?c = "filter_pending (\<lambda>op. op_id op \<notin> ?D) c"
  have ok: "stored_ok c" "docs_ok c" using assms(1) by (simp_all add: cache_inv_def)
  have stored: "stored_ok (?c\<lparr>runs := take k (runs c) @ drop (Suc k) (runs c)\<rparr>)"
    using stored_ok_filter [OF ok(1)] set_drop_run [of k "runs c"]
    by (auto simp: stored_ok_def filter_pending_def)
  have docs: "docs_ok (?c\<lparr>runs := take k (runs c) @ drop (Suc k) (runs c)\<rparr>)"
    using ok(2) set_drop_run [of k "runs c"] by (auto simp: docs_ok_def filter_pending_def)
  have "op \<in> written_ops c" if pend: "op \<in> set (pending c)" and doc: "op_id op \<in> ?D" for op
  proof -
    obtain op' where "op' \<in> written_ops c" "op' \<in> set (enqueued c)" "op_id op' = op_id op"
      using ok(2) doc assms(2) unfolding docs_ok_def by (metis nth_mem)
    moreover have "op \<in> set (enqueued c)"
      using ok(1) pend pending_in_arrays [OF ok(1)] by (auto simp: stored_ok_def)
    ultimately show ?thesis
      using ok(1) unfolding stored_ok_def by (metis inj_onD)
  qed
  then have "set (enqueued c) \<subseteq> {op \<in> set (pending c). op_id op \<notin> ?D} \<union> written_ops c \<union> set (dropped c)"
    using assms(1) unfolding cache_inv_def by blast
  then show ?thesis
    using assms(1) stored docs unfolding cache_inv_def
    by (simp add: set_filter) (simp add: filter_pending_def)
qed

lemma cache_inv_round:
  assumes "cache_inv confs c" and "k < length (runs c)"
  shows "cache_inv confs (run_round k succeeds c)"
proof (cases "run_index (runs c ! k) < length (arrays c ! run_array (runs c ! k))")
  case False
  then show ?thesis using run_finish_ok [OF assms] by (simp add: run_round_def Let_def)
next
  case True
  let ?op = "arrays c ! run_array (runs c ! k) ! run_index (runs c ! k)"
  have "run_array (runs c ! k) < length (arrays c)"
    using assms by (auto simp: cache_inv_def stored_ok_def)
  then have "?op \<in> set (enqueued c)"
    using assms(1) True unfolding cache_inv_def stored_ok_def by (meson nth_mem subsetD)
  moreover have "confirmed_at confs (?op, currentBlockNumber c)" if "\<not> too_young c ?op"
    using that assms(1) by (simp add: too_young_def confirmed_at_def cache_inv_def)
  ultimately show ?thesis
    using True run_skips_ok [OF assms] run_writes_ok [OF assms]
    by (auto simp: run_round_def Let_def split: sum.splits)
qed

lemma cache_inv_reaches: "cache_reaches confs c \<Longrightarrow> cache_inv confs c"
proof (induction rule: cache_reaches.induct)
  case start
  show ?case by (rule cache_inv_start)
next
  case (step c c')
  from step(2,3) show ?case
    by (cases rule: cache_step.cases)
      (auto simp: cache_inv_header cache_inv_round cache_inv_clear upsertCache_def updateCache_def
        transactionCache_def cache_inv_store split: prod.splits)
qed

section \<open>Runs that do not overlap\<close>

abbreviation pids :: "'v block_cache \<Rightarrow> nat list" where "pids c \<equiv> map op_id (pending c)"
abbreviation wids :: "'v block_cache \<Rightarrow> nat list" where "wids c \<equiv> map (\<lambda>w. op_id (fst w)) (written c)"
abbreviation dids :: "'v block_cache \<Rightarrow> nat list" where "dids c \<equiv> map op_id (dropped c)"

definition run_ok :: "'v block_cache \<Rightarrow> bool" where
  "run_ok c \<longleftrightarrow>
     (case runs c of
        [] \<Rightarrow> set (pids c) \<inter> set (wids c) = {}
      | r # rs \<Rightarrow> rs = [] \<and> run_array r = pendingOperations c \<and>
          set (run_docsToRemove r) \<subseteq> set (take (run_index r) (pids c)) \<and>
          set (pids c) \<inter> set (wids c) \<subseteq> set (run_docsToRemove r))"

definition ids_ok :: "'v block_cache \<Rightarrow> bool" where
  "ids_ok c \<longleftrightarrow> pendingOperations c < length (arrays c) \<and>
     (\<forall>i\<in>set (pids c) \<union> set (wids c) \<union> set (dids c). i < next_id c) \<and>
     distinct (wids c) \<and> distinct (pids c) \<and>
     set (dids c) \<inter> set (wids c) = {} \<and> set (dids c) \<inter> set (pids c) = {}"

lemma serial_start: "ids_ok (new_BlockCache confs) \<and> run_ok (new_BlockCache confs)"
  by (simp add: ids_ok_def run_ok_def new_BlockCache_def pending_def)

lemma serial_header:
  assumes "ids_ok c" and "run_ok c" and "runs c = []"
  shows "ids_ok (newBlockHeader n c) \<and> run_ok (newBlockHeader n c)"
proof -
  have "pending (newBlockHeader n c) = pending c" by (simp add: newBlockHeader_def)
  then show ?thesis using assms by (simp add: ids_ok_def run_ok_def) (simp add: newBlockHeader_def)
qed

lemma filter_pending_sel [simp]:
  "written (filter_pending P c) = written c" "dropped (filter_pending P c) = dropped c"
  "runs (filter_pending P c) = runs c" "next_id (filter_pending P c) = next_id c"
  "pendingOperations (filter_pending P c) < length (arrays (filter_pending P c))"
  by (simp_all add: filter_pending_def)

lemma distinct_map_filters:
  "distinct (map f xs) \<Longrightarrow> set (map f (filter P xs)) \<inter> set (map f (filter (\<lambda>x. \<not> P x) xs)) = {}"
  by (induction xs) auto

lemma nth_not_in_take: "distinct xs \<Longrightarrow> i < length xs \<Longrightarrow> xs ! i \<notin> set (take i xs)"
  by (induction xs arbitrary: i) (auto simp: nth_Cons' take_Cons')

lemma serial_clear:
  assumes "ids_ok c" and "run_ok c" and "runs c = []"
  shows "ids_ok (clearChangesForBlockHash h c) \<and> run_ok (clearChangesForBlockHash h c)"
proof -
  let ?c = "clearChangesForBlockHash h c"
  let ?keep = "map op_id (filter (\<lambda>op. op_blockHash op \<noteq> h) (pending c))"
  let ?drop = "map op_id (filter (\<lambda>op. op_blockHash op = h) (pending c))"
  have sel: "pids ?c = ?keep" "wids ?c = wids c" "dids ?c = dids c @ ?drop" "next_id ?c = next_id c"
    "runs ?c = []" "pendingOperations ?c < length (arrays ?c)"
    using assms(3) by (simp_all add: clearChangesForBlockHash_def)
  have disj: "set (pids c) \<inter> set (wids c) = {}" using assms(2,3) by (simp add: run_ok_def)
  have ids: "distinct (wids c)" "distinct (pids c)" "set (dids c) \<inter> set (wids c) = {}"
    "set (dids c) \<inter> set (pids c) = {}" "\<forall>i\<in>set (pids c) \<union> set (wids c) \<union> set (dids c). i < next_id c"
    using assms(1) unfolding ids_ok_def by simp_all
  have sub: "set ?keep \<subseteq> set (pids c)" "set ?drop \<subseteq> set (pids c)" by auto
  have "distinct ?keep" using ids(2) by (rule distinct_map_filter)
  moreover have "set ?keep \<inter> set ?drop = {}"
    using distinct_map_filters [OF ids(2), of "\<lambda>op. op_blockHash op \<noteq> h"] by simp
  ultimately have "ids_ok ?c"
    unfolding ids_ok_def sel set_append using ids sub disj sel(6) by blast
  moreover have "run_ok ?c"
    unfolding run_ok_def sel list.case using sub(1) disj by blast
  ultimately show ?thesis ..
qed

lemma ids_ok_fresh:
  assumes "ids_ok c" and "run_ok c" and "c' = c\<lparr>currentBlockNumber := n, next_id := Suc (next_id c)\<rparr>"
  shows "ids_ok c'" and "run_ok c'" and "next_id c \<notin> set (pids c')" and "next_id c \<notin> set (wids c')"
    and "next_id c \<notin> set (dids c')"
  using assms by (auto simp: ids_ok_def run_ok_def less_Suc_eq split: list.splits)

lemma serial_push:
  assumes "ids_ok c" and "run_ok c" and "op_id op < next_id c"
    and "op_id op \<notin> set (pids c) \<union> set (wids c) \<union> set (dids c)"
  shows "ids_ok (push_pending op c) \<and> run_ok (push_pending op c)"
proof -
  have p: "pending (push_pending op c) = pending c @ [op]"
    using assms(1) by (simp add: pending_def push_pending_def ids_ok_def)
  have "ids_ok (push_pending op c)"
    using assms unfolding ids_ok_def p by (auto simp: push_pending_def)
  moreover have "run_ok (push_pending op c)"
    using assms unfolding run_ok_def p by (auto simp: push_pending_def split: list.splits)
  ultimately show ?thesis ..
qed

lemma serial_write:
  assumes "ids_ok c" and "run_ok c" and "op_id op < next_id c"
    and "op_id op \<notin> set (pids c) \<union> set (wids c) \<union> set (dids c)"
  shows "ids_ok (c\<lparr>written := written c @ [(op, h)]\<rparr>) \<and> run_ok (c\<lparr>written := written c @ [(op, h)]\<rparr>)"
  using assms by (auto simp: ids_ok_def run_ok_def split: list.splits)

lemma blockNumber_next:
  "(blockNumber n c)\<lparr>next_id := i\<rparr> =
     c\<lparr>currentBlockNumber := currentBlockNumber (blockNumber n c), next_id := i\<rparr>"
  by (simp add: blockNumber_def)

lemma serial_store:
  assumes "ids_ok c" and "run_ok c"
  shows "ids_ok (store_operation chain succeeds op c) \<and> run_ok (store_operation chain succeeds op c)"
proof -
  let ?c = "(blockNumber chain c)\<lparr>next_id := Suc (next_id c)\<rparr>" and ?op = "op\<lparr>op_id := next_id c\<rparr>"
  note fresh = ids_ok_fresh [OF assms blockNumber_next]
  have "next_id c < next_id ?c" by simp
  then have "op_id ?op < next_id ?c"
    and "op_id ?op \<notin> set (pids ?c) \<union> set (wids ?c) \<union> set (dids ?c)"
    using fresh(3-5) by simp_all
  note id = this
  note push = serial_push [OF fresh(1,2) id] and wr = serial_write [OF fresh(1,2) id]
  show ?thesis
    using push wr fresh(1,2) by (auto simp: store_operation_def Let_def split: sum.splits)
qed

lemma serial_round:
  assumes "ids_ok c" and "run_ok c" and "k < length (runs c)"
  shows "ids_ok (run_round k succeeds c) \<and> run_ok (run_round k succeeds c)"
proof -
  from assms(2,3) obtain r where r: "runs c = [r]" "run_array r = pendingOperations c"
    "set (run_docsToRemove r) \<subseteq> set (take (run_index r) (pids c))"
    "set (pids c) \<inter> set (wids c) \<subseteq> set (run_docsToRemove r)"
    by (cases "runs c") (auto simp: run_ok_def)
  have k: "k = 0" using assms(3) r(1) by simp
  have arr: "arrays c ! pendingOperations c = pending c" by (simp add: pending_def)
  show ?thesis
  proof (cases "run_index r < length (pending c)")
    case False
    then have eq: "run_round k succeeds c =
        (filter_pending (\<lambda>op. op_id op \<notin> set (run_docsToRemove r)) c)\<lparr>runs := []\<rparr>"
      by (simp add: run_round_def Let_def k r arr)
    let ?c = "run_round k succeeds c"
    have sel: "pids ?c = map op_id (filter (\<lambda>op. op_id op \<notin> set (run_docsToRemove r)) (pending c))"
      "wids ?c = wids c" "dids ?c = dids c" "next_id ?c = next_id c" "runs ?c = []"
      "pendingOperations ?c < length (arrays ?c)"
      unfolding eq by simp_all
    have keep: "set (pids ?c) = set (pids c) - set (run_docsToRemove r)" unfolding sel by auto
    have ids: "distinct (wids c)" "distinct (pids c)" "set (dids c) \<inter> set (wids c) = {}"
      "set (dids c) \<inter> set (pids c) = {}" "\<forall>i\<in>set (pids c) \<union> set (wids c) \<union> set (dids c). i < next_id c"
      using assms(1) unfolding ids_ok_def by simp_all
    have "distinct (pids ?c)" unfolding sel using ids(2) by (rule distinct_map_filter)
    then have "ids_ok ?c" unfolding ids_ok_def keep sel(2-4) using ids sel(6) by blast
    moreover have "run_ok ?c" unfolding run_ok_def sel(5) list.case keep sel(2) using r(4) by blast
    ultimately show ?thesis ..
  next
    case True
    let ?op = "pending c ! run_index r"
    let ?r = "r\<lparr>run_index := run_index r + 1\<rparr>"
    let ?w = "?r\<lparr>run_docsToRemove := run_docsToRemove r @ [op_id ?op]\<rparr>"
    have id: "op_id ?op \<in> set (pids c)" using True by simp
    have "op_id ?op \<notin> set (take (run_index r) (pids c))"
    proof -
      have "distinct (pids c)" using assms(1) by (simp add: ids_ok_def)
      from nth_not_in_take [OF this, of "run_index r"] show ?thesis using True by simp
    qed
    then have new: "op_id ?op \<notin> set (wids c)" using r(3,4) id by blast
    have "set (take (run_index r) (pids c)) \<subseteq> set (take (run_index r + 1) (pids c))"
      by (rule set_take_subset_set_take) simp
    moreover have "op_id ?op \<in> set (take (run_index r + 1) (pids c))"
      using True by (simp add: take_Suc_conv_app_nth)
    ultimately have docs: "set (run_docsToRemove r) \<subseteq> set (take (run_index r + 1) (pids c))"
      "set (run_docsToRemove r @ [op_id ?op]) \<subseteq> set (take (run_index r + 1) (pids c))"
      using r(3) by (auto simp only: set_append list.set Un_insert_right Un_empty_right)
    have "ids_ok (c\<lparr>runs := [?r]\<rparr>)" "run_ok (c\<lparr>runs := [?r]\<rparr>)"
      using assms(1) r(2,4) docs(1) by (simp_all add: ids_ok_def run_ok_def)
    moreover have "ids_ok (c\<lparr>written := written c @ [(?op, h)], runs := [?w]\<rparr>)" for h
    proof -
      have "op_id ?op < next_id c" "op_id ?op \<notin> set (dids c)"
        using assms(1) id unfolding ids_ok_def by blast+
      then show ?thesis using assms(1) new unfolding ids_ok_def by simp
    qed
    moreover have "run_ok (c\<lparr>written := written c @ [(?op, h)], runs := [?w]\<rparr>)" for h
      using r(2,4) docs(2) by (auto simp: run_ok_def)
    ultimately show ?thesis
      using True unfolding run_round_def by (simp add: Let_def k r(1,2) arr split: sum.splits)
  qed
qed

lemma serial_inv: "serial_reaches confs c \<Longrightarrow> ids_ok c \<and> run_ok c"
proof (induction rule: serial_reaches.induct)
  case s_start
  show ?case by (rule serial_start)
next
  case (s_step c c')
  then have inv: "ids_ok c" "run_ok c" by simp_all
  from s_step(2) show ?case
    by (cases rule: serial_step.cases)
      (auto simp: serial_header [OF inv] serial_clear [OF inv] serial_round [OF inv] upsertCache_def
        updateCache_def transactionCache_def serial_store [OF inv] split: prod.splits)
qed

lemma serial_reaches_all: "serial_reaches confs c \<Longrightarrow> cache_reaches confs c"
proof (induction rule: serial_reaches.induct)
  case s_start
  show ?case by (rule cache_reaches.start)
next
  case (s_step c c')
  have "cache_step c c'"
    using s_step(2) by (cases rule: serial_step.cases) (auto intro: cache_step.intros)
  with s_step(3) show ?case by (rule cache_reaches.step)
qed

section \<open>Properties\<close>

text \<open>C17: Whatever the order in which headers, writes, clearings and new operations interleave, an
  operation reaches the database only when its block has the configured number of confirmations at
  that moment, and an operation that was kept is still pending, was written, or was taken away because
  its block was cleared.\<close>

theorem block_cache_no_early_write_no_loss:
  assumes "cache_reaches confs c"
  shows "list_all (\<lambda>(op, h). confs = 0 \<or> confs \<le> h - op_blockNumber op) (written c) \<and>
    set (enqueued c) \<subseteq> set (pending c) \<union> fst ` set (written c) \<union> set (dropped c)"
  using cache_inv_reaches [OF assms] by (auto simp: cache_inv_def list_all_iff confirmed_at_def)

text \<open>When headers and clearings do not arrive while a run is in progress, no operation is
  written twice, and an operation that was taken away by clearing its block is never written.\<close>

theorem block_cache_serial_exactly_once:
  assumes "serial_reaches confs c"
  shows "distinct (map (\<lambda>w. op_id (fst w)) (written c)) \<and>
    set (map op_id (dropped c)) \<inter> set (map (\<lambda>w. op_id (fst w)) (written c)) = {}"
  using serial_inv [OF assms] by (simp add: ids_ok_def)

section \<open>Executions\<close>

definition kept_op :: "unit pending_operation" where
  "kept_op = \<lparr>op_id = 0, op_blockNumber = 1, op_blockHash = ''a'', op_collection = ''Header'',
     op_type = UPSERT, op_where = None, op_create = None, op_update = None, op_transaction = None\<rparr>"

text \<open>One operation is kept at height 1; with one confirmation it is written at height 2.\<close>

definition kept_cache :: "unit block_cache" where
  "kept_cache = upsertCache 1 True ''Header'' (None, None, None) 1 ''a'' (new_BlockCache 1)"

definition written_cache :: "unit block_cache" where
  "written_cache = run_round 0 True (run_round 0 True (newBlockHeader 2 kept_cache))"

lemmas cache_evals = kept_cache_def written_cache_def upsertCache_def store_operation_def blockNumber_def
  new_BlockCache_def push_pending_def pending_def newBlockHeader_def run_round_def Let_def too_young_def
  writeChange_def filter_pending_def clearChangesForBlockHash_def kept_op_def

lemma serial_written: "serial_reaches 1 written_cache"
proof -
  have "serial_reaches 1 kept_cache" unfolding kept_cache_def
    by (rule serial_reaches.s_step [OF serial_reaches.s_start serial_step.s_upsert])
  then have "serial_reaches 1 (newBlockHeader 2 kept_cache)"
    by (rule serial_reaches.s_step) (rule serial_step.s_header, simp add: cache_evals)
  then have "serial_reaches 1 (run_round 0 True (newBlockHeader 2 kept_cache))"
    by (rule serial_reaches.s_step) (rule serial_step.s_round, simp add: cache_evals)
  then show ?thesis unfolding written_cache_def
    by (rule serial_reaches.s_step) (rule serial_step.s_round, simp add: cache_evals)
qed

theorem block_cache_no_early_write_no_loss_witness:
  "list_all (\<lambda>(op, h). 1 \<le> h - op_blockNumber op) (written written_cache) \<and>
    written written_cache = [(kept_op, 2)] \<and> pending written_cache = []"
  using block_cache_no_early_write_no_loss [OF serial_reaches_all [OF serial_written]]
  by (simp add: cache_evals)

theorem block_cache_serial_exactly_once_witness:
  "distinct (map (\<lambda>w. op_id (fst w)) (written written_cache)) \<and>
    map (\<lambda>w. op_id (fst w)) (written written_cache) = [0]"
  using block_cache_serial_exactly_once [OF serial_written] by (simp add: cache_evals)

text \<open>Two headers in a row start two runs over the same array, and the operation is written twice.\<close>

lemma overlapping_runs_write_twice:
  "\<exists>c. cache_reaches 1 c \<and> written c = [(kept_op, 3), (kept_op, 3)]"
proof -
  let ?c1 = "newBlockHeader 3 (newBlockHeader 2 kept_cache)"
  let ?c = "run_round 1 True (run_round 0 True ?c1)"
  have "cache_reaches 1 kept_cache" unfolding kept_cache_def
    by (rule cache_reaches.step [OF cache_reaches.start cache_step.upsert])
  then have "cache_reaches 1 ?c1"
    by (blast intro: cache_reaches.step cache_step.header)
  then have "cache_reaches 1 (run_round 0 True ?c1)"
    by (rule cache_reaches.step) (rule cache_step.round, simp add: cache_evals)
  then have "cache_reaches 1 ?c"
    by (rule cache_reaches.step) (rule cache_step.round, simp add: cache_evals)
  moreover have "written ?c = [(kept_op, 3), (kept_op, 3)]" by (simp add: cache_evals)
  ultimately show ?thesis by blast
qed

text \<open>A block is cleared while a run is in progress: the run still iterates over the old array.\<close>

lemma cleared_while_running_written:
  "\<exists>c. cache_reaches 1 c \<and> dropped c = [kept_op] \<and> written c = [(kept_op, 2)]"
proof -
  let ?c1 = "clearChangesForBlockHash ''a'' (newBlockHeader 2 kept_cache)"
  let ?c = "run_round 0 True ?c1"
  have "cache_reaches 1 kept_cache" unfolding kept_cache_def
    by (rule cache_reaches.step [OF cache_reaches.start cache_step.upsert])
  then have "cache_reaches 1 ?c1"
    by (blast intro: cache_reaches.step cache_step.header cache_step.clear)
  then have "cache_reaches 1 ?c"
    by (rule cache_reaches.step) (rule cache_step.round, simp add: cache_evals)
  moreover have "dropped ?c = [kept_op]" "written ?c = [(kept_op, 2)]" by (simp_all add: cache_evals)
  ultimately show ?thesis by blast
qed

end
