(* ===== verification/Hasher.thy ===== *)
theory Hasher
  imports Field
begin

text \<open>
  \<open>packages/tree/src/hasher.ts\<close>: the hash of two children and the roots of the empty trees of every
  depth, and the mathematical Merkle tree that the tree components are verified against.
\<close>

section \<open>Hashers\<close>

record 'a hasher =
  parentOf :: "'a \<Rightarrow> 'a \<Rightarrow> 'a"
  preHash :: "'a list"

definition getPreHash :: "'a \<Rightarrow> ('a \<Rightarrow> 'a \<Rightarrow> 'a) \<Rightarrow> nat \<Rightarrow> 'a list" where
  "getPreHash zero parent depth =
     for_upto depth (\<lambda>level hashes. hashes @ [parent (last hashes) (last hashes)]) [zero]"

definition genesisRoot :: "'a hasher \<Rightarrow> 'a" where
  "genesisRoot h = last (preHash h)"

text \<open>
  \<open>soliditySha3\<close> of two 32-byte words is a parameter; where it returns \<open>null\<close>, the code parses
  the empty hexadecimal string, which is 0. \<open>poseidon\<close> of two field elements is a parameter too.
\<close>

definition keccakHasher :: "(int \<Rightarrow> int \<Rightarrow> int option) \<Rightarrow> nat \<Rightarrow> int hasher" where
  "keccakHasher soliditySha3 depth =
     (let parent = (\<lambda>left right. case soliditySha3 left right of None \<Rightarrow> 0 | Some v \<Rightarrow> v) in
      \<lparr>parentOf = parent, preHash = getPreHash 0 parent depth\<rparr>)"

definition poseidonHasher :: "(int list \<Rightarrow> int) \<Rightarrow> nat \<Rightarrow> int hasher" where
  "poseidonHasher poseidon depth =
     (let parent = (\<lambda>left right. fp_new (poseidon [left, right])) in
      \<lparr>parentOf = parent, preHash = getPreHash 0 parent depth\<rparr>)"

text \<open>Both are a parent function with the pre-hashed values it gives.\<close>

definition hasher_of :: "'a \<Rightarrow> ('a \<Rightarrow> 'a \<Rightarrow> 'a) \<Rightarrow> nat \<Rightarrow> 'a hasher" where
  "hasher_of zero parent depth = \<lparr>parentOf = parent, preHash = getPreHash zero parent depth\<rparr>"

lemma keccakHasher_of:
  "keccakHasher sha3 depth =
    hasher_of 0 (\<lambda>left right. case sha3 left right of None \<Rightarrow> 0 | Some v \<Rightarrow> v) depth"
  by (simp add: keccakHasher_def hasher_of_def Let_def)

lemma poseidonHasher_of:
  "poseidonHasher poseidon depth = hasher_of 0 (\<lambda>left right. fp_new (poseidon [left, right])) depth"
  by (simp add: poseidonHasher_def hasher_of_def Let_def)

lemma parentOf_hasher_of [simp]: "parentOf (hasher_of zero p depth) = p"
  by (simp add: hasher_of_def)

lemma getPreHash_spec:
  "length (getPreHash zero parent depth) = depth + 1 \<and> getPreHash zero parent depth ! 0 = zero \<and>
   (\<forall>l < depth. getPreHash zero parent depth ! Suc l =
      parent (getPreHash zero parent depth ! l) (getPreHash zero parent depth ! l))"
proof (induction depth)
  case 0
  show ?case by (simp add: getPreHash_def loop_simps)
next
  case (Suc d)
  let ?ph = "getPreHash zero parent d"
  have step: "getPreHash zero parent (Suc d) = ?ph @ [parent (last ?ph) (last ?ph)]"
    by (simp add: getPreHash_def loop_simps)
  have "last ?ph = ?ph ! d"
    using Suc.IH by (metis add_diff_cancel_right' last_conv_nth length_0_conv add_is_0 zero_neq_one)
  with Suc.IH show ?case
    unfolding step by (auto simp: nth_append less_Suc_eq)
qed

lemmas getPreHash_facts =
  getPreHash_spec [THEN conjunct1] getPreHash_spec [THEN conjunct2, THEN conjunct1]
  getPreHash_spec [THEN conjunct2, THEN conjunct2, rule_format]

lemma getPreHash_prefix:
  fixes zero :: 'a
  shows "d \<le> e \<Longrightarrow> l \<le> d \<Longrightarrow> getPreHash zero parent d ! l = getPreHash zero parent e ! l"
proof (induction l)
  case 0
  then show ?case by (simp add: getPreHash_facts)
next
  case (Suc l)
  then show ?case by (simp add: getPreHash_facts)
qed

text \<open>
  A free hash for witnesses: terms, with the pair of the children as their parent. It has no
  collisions by construction.
\<close>

datatype term_hash = HLeaf nat | HNode term_hash term_hash

definition term_hasher :: "nat \<Rightarrow> term_hash hasher" where
  "term_hasher depth = hasher_of (HLeaf 0) HNode depth"

section \<open>Merkle trees\<close>

text \<open>
  The value of the node number \<open>j\<close>, counted from the left, of the level \<open>l\<close> above the leaves,
  over a leaf assignment \<open>f\<close>. The root of a tree of depth \<open>d\<close> is the node 0 of the level \<open>d\<close>.
\<close>

fun mnode :: "('a \<Rightarrow> 'a \<Rightarrow> 'a) \<Rightarrow> (nat \<Rightarrow> 'a) \<Rightarrow> nat \<Rightarrow> nat \<Rightarrow> 'a" where
  "mnode parent f 0 j = f j"
| "mnode parent f (Suc l) j = parent (mnode parent f l (2 * j)) (mnode parent f l (2 * j + 1))"

text \<open>The node numbers of the siblings on the way from the leaf \<open>i\<close> to the root.\<close>

definition sib_pos :: "nat \<Rightarrow> nat" where
  "sib_pos j = (if even j then j + 1 else j - 1)"

lemma div2_block:
  fixes i :: nat
  shows "i div 2 ^ Suc l = j \<longleftrightarrow> i div 2 ^ l = 2 * j \<or> i div 2 ^ l = 2 * j + 1"
  unfolding div_two_power_Suc by auto

lemma mnode_cong:
  "(\<And>i. i div 2 ^ l = j \<Longrightarrow> f i = g i) \<Longrightarrow> mnode parent f l j = mnode parent g l j"
proof (induction l arbitrary: j)
  case 0
  then show ?case by simp
next
  case (Suc l)
  have "mnode parent f l (2 * j) = mnode parent g l (2 * j)"
    by (rule Suc.IH, rule Suc.prems) (simp only: div2_block simp_thms)
  moreover have "mnode parent f l (2 * j + 1) = mnode parent g l (2 * j + 1)"
    by (rule Suc.IH, rule Suc.prems) (simp only: div2_block simp_thms)
  ultimately show ?case by simp
qed

lemma mnode_update_other [tree_simps]:
  "i div 2 ^ l \<noteq> j \<Longrightarrow> mnode parent (f(i := x)) l j = mnode parent f l j"
  by (rule mnode_cong) auto

text \<open>A node is the parent of a path node and its sibling, in the order the parity says.\<close>

lemma mnode_step:
  "mnode parent f (Suc l) (q div 2) =
     (if even q then parent (mnode parent f l q) (mnode parent f l (sib_pos q))
      else parent (mnode parent f l (sib_pos q)) (mnode parent f l q))"
  by (auto simp: sib_pos_def elim!: evenE oddE)

text \<open>The same tree over groups of \<open>2 ^ s\<close> leaves.\<close>

lemma mnode_group:
  "mnode parent (mnode parent f s) l j = mnode parent f (s + l) j"
  by (induction l arbitrary: j) simp_all

text \<open>Hashing the first and second halves of two leaf assignments injectively.\<close>

lemma mnode_inj:
  assumes inj: "\<And>a b c d. parent a b = parent c d \<Longrightarrow> a = c \<and> b = d"
    and "mnode parent f l j = mnode parent g l j" and "i div 2 ^ l = j"
  shows "f i = g i"
  using assms(2,3)
proof (induction l arbitrary: j)
  case 0
  then show ?case by simp
next
  case (Suc l)
  have "mnode parent f l (2 * j) = mnode parent g l (2 * j) \<and>
      mnode parent f l (2 * j + 1) = mnode parent g l (2 * j + 1)"
    by (rule inj) (rule Suc.prems(1) [unfolded mnode.simps])
  moreover have "i div 2 ^ l = 2 * j \<or> i div 2 ^ l = 2 * j + 1"
    using Suc.prems(2) unfolding div2_block .
  ultimately show ?case using Suc.IH by blast
qed

section \<open>The interface of a hasher\<close>

text \<open>
  What the trees rely on: \<open>preHash\<close> lists the roots of the empty trees of depth 0 up to the
  depth of the tree.
\<close>

locale prehashed =
  fixes h :: "'a hasher" and zero :: 'a and depth :: nat
  assumes preHash_length: "length (preHash h) = depth + 1"
    and preHash_0: "preHash h ! 0 = zero"
    and preHash_Suc: "l < depth \<Longrightarrow> preHash h ! Suc l = parentOf h (preHash h ! l) (preHash h ! l)"
begin

lemma genesisRoot_eq: "genesisRoot h = preHash h ! depth"
  unfolding genesisRoot_def using preHash_length
  by (metis add_diff_cancel_right' add_eq_0_iff_both_eq_0 last_conv_nth list.size(3) zero_neq_one)

lemma mnode_empty:
  "l \<le> depth \<Longrightarrow> (\<And>i. i div 2 ^ l = j \<Longrightarrow> f i = zero) \<Longrightarrow> mnode (parentOf h) f l j = preHash h ! l"
proof (induction l arbitrary: j)
  case 0
  then show ?case by (simp add: preHash_0)
next
  case (Suc l)
  have "mnode (parentOf h) f l (2 * j) = preHash h ! l"
    by (rule Suc.IH, use Suc.prems(1) in simp, rule Suc.prems(2)) (simp only: div2_block simp_thms)
  moreover have "mnode (parentOf h) f l (2 * j + 1) = preHash h ! l"
    by (rule Suc.IH, use Suc.prems(1) in simp, rule Suc.prems(2)) (simp only: div2_block simp_thms)
  ultimately show ?case using Suc.prems(1) by (simp add: preHash_Suc)
qed

lemma genesisRoot_empty_tree: "genesisRoot h = mnode (parentOf h) (\<lambda>_. zero) depth 0"
  by (simp add: genesisRoot_eq mnode_empty)

end

interpretation standard: prehashed "hasher_of zero p depth" zero depth for zero p depth
  by unfold_locales (simp_all add: hasher_of_def getPreHash_facts)

interpretation keccak: prehashed "keccakHasher sha3 depth" 0 depth for sha3 depth
  unfolding keccakHasher_of by (rule standard.prehashed_axioms)

interpretation poseidon: prehashed "poseidonHasher pos depth" 0 depth for pos depth
  unfolding poseidonHasher_of by (rule standard.prehashed_axioms)

end
