(* ===== verification/Merkle_Proof.thy ===== *)
theory Merkle_Proof
  imports Hasher
begin

text \<open>
  \<open>packages/tree/src/merkle-proof.ts\<close>: the root a proof leads to, its verification, and the check of
  the proof of the first empty leaf that bootstraps a light tree.
\<close>

section \<open>Operations\<close>

record 'a merkle_proof =
  mp_root :: 'a
  mp_index :: nat
  mp_leaf :: 'a
  mp_siblings :: "'a list"

text \<open>The loop over the siblings; the path is halved in every round.\<close>

fun merkleRoot :: "'a hasher \<Rightarrow> nat \<Rightarrow> 'a \<Rightarrow> 'a list \<Rightarrow> 'a" where
  "merkleRoot h path node [] = node"
| "merkleRoot h path node (sibling # siblings) =
     merkleRoot h (drop_bit 1 path)
       (if even path then parentOf h node sibling else parentOf h sibling node) siblings"

definition verifyProof :: "'a hasher \<Rightarrow> 'a merkle_proof \<Rightarrow> bool" where
  "verifyProof h p = (merkleRoot h (mp_index p) (mp_leaf p) (mp_siblings p) = mp_root p)"

text \<open>The loop of \<open>startingLeafProof\<close>, which returns false at the first wrong right sibling.\<close>

fun right_siblings_empty :: "'a hasher \<Rightarrow> nat \<Rightarrow> nat \<Rightarrow> 'a list \<Rightarrow> bool" where
  "right_siblings_empty h i path [] = True"
| "right_siblings_empty h i path (sibling # siblings) =
     (if even path \<and> sibling \<noteq> preHash h ! i then False
      else right_siblings_empty h (i + 1) (drop_bit 1 path) siblings)"

definition startingLeafProof :: "'a hasher \<Rightarrow> 'a \<Rightarrow> nat \<Rightarrow> 'a list \<Rightarrow> bool" where
  "startingLeafProof h r index siblings =
     (if \<not> right_siblings_empty h 0 index siblings then False
      else verifyProof h \<lparr>mp_root = r, mp_index = index, mp_leaf = preHash h ! 0,
        mp_siblings = siblings\<rparr>)"

section \<open>Completeness and binding\<close>

lemma drop_bit_1_div: "drop_bit (Suc 0) (n::nat) = n div 2"
  by (simp add: drop_bit_eq_div)

text \<open>Climbing from a node of level \<open>k\<close> past its true siblings reaches its ancestor.\<close>

lemma merkleRoot_from_level:
  assumes "\<And>l. l < length S \<Longrightarrow> S ! l = mnode (parentOf h) f (k + l) (sib_pos (q div 2 ^ l))"
  shows "merkleRoot h q (mnode (parentOf h) f k q) S =
    mnode (parentOf h) f (k + length S) (q div 2 ^ length S)"
  using assms
proof (induction S arbitrary: k q)
  case Nil
  then show ?case by simp
next
  case (Cons s S)
  have s: "s = mnode (parentOf h) f k (sib_pos q)"
    using Cons.prems [of 0] by simp
  have "merkleRoot h (q div 2) (mnode (parentOf h) f (Suc k) (q div 2)) S =
      mnode (parentOf h) f (Suc k + length S) (q div 2 div 2 ^ length S)"
  proof (rule Cons.IH)
    fix l assume "l < length S"
    then show "S ! l = mnode (parentOf h) f (Suc k + l) (sib_pos (q div 2 div 2 ^ l))"
      using Cons.prems [of "Suc l"] by (simp add: div_mult2_eq)
  qed
  then show ?case
    using mnode_step [of "parentOf h" f k q]
    by (simp add: drop_bit_1_div s div_mult2_eq)
qed

lemma merkleRoot_mnode:
  assumes "length S = d" and "i < 2 ^ d"
    and "\<And>l. l < d \<Longrightarrow> S ! l = mnode (parentOf h) f l (sib_pos (i div 2 ^ l))"
  shows "merkleRoot h i (f i) S = mnode (parentOf h) f d 0"
  using merkleRoot_from_level [of S h f 0 i] assms by simp

lemma merkleRoot_inj:
  assumes inj: "\<And>a b c e. parentOf h a b = parentOf h c e \<Longrightarrow> a = c \<and> b = e"
    and "length S = length T" and "merkleRoot h i x S = merkleRoot h i y T"
  shows "x = y \<and> S = T"
  using assms(2,3)
proof (induction S T arbitrary: i x y rule: list_induct2)
  case Nil
  then show ?case by simp
next
  case (Cons s S t T)
  let ?u = "if even i then parentOf h x s else parentOf h s x"
  let ?v = "if even i then parentOf h y t else parentOf h t y"
  have "?u = ?v \<and> S = T"
    by (rule Cons.IH [of "i div 2"]) (use Cons.prems in \<open>simp add: drop_bit_1_div\<close>)
  then have "S = T" and eq: "?u = ?v" by blast+
  moreover have "x = y \<and> s = t"
  proof (cases "even i")
    case True
    then show ?thesis using eq by (simp, blast dest: inj)
  next
    case False
    then show ?thesis using eq by (simp, blast dest: inj)
  qed
  ultimately show ?case by simp
qed

lemma right_siblings_empty_iff:
  "right_siblings_empty h k path S \<longleftrightarrow>
     (\<forall>l < length S. even (path div 2 ^ l) \<longrightarrow> S ! l = preHash h ! (k + l))"
proof (induction S arbitrary: k path)
  case Nil
  then show ?case by simp
next
  case (Cons s S)
  have "(\<forall>l < length (s # S). even (path div 2 ^ l) \<longrightarrow> (s # S) ! l = preHash h ! (k + l)) \<longleftrightarrow>
      (even path \<longrightarrow> s = preHash h ! k) \<and>
      (\<forall>l < length S. even (path div 2 div 2 ^ l) \<longrightarrow> S ! l = preHash h ! (Suc k + l))"
    by (simp add: All_less_Suc2 div_mult2_eq)
  then show ?case by (auto simp: Cons.IH drop_bit_1_div)
qed

lemma startingLeafProof_iff:
  "startingLeafProof h r i S \<longleftrightarrow>
     (\<forall>l < length S. even (i div 2 ^ l) \<longrightarrow> S ! l = preHash h ! l) \<and>
     merkleRoot h i (preHash h ! 0) S = r"
  by (simp add: startingLeafProof_def right_siblings_empty_iff verifyProof_def)

section \<open>The frontier of a tree\<close>

text \<open>
  What a tree that only knows its latest siblings remembers: the siblings that stand left of the path of
  the next leaf \<open>n\<close>. Nothing is said of the other levels, where the code keeps older values.
\<close>

definition frontier :: "('a \<Rightarrow> 'a \<Rightarrow> 'a) \<Rightarrow> (nat \<Rightarrow> 'a) \<Rightarrow> nat \<Rightarrow> 'a list \<Rightarrow> bool" where
  "frontier parent f n S \<longleftrightarrow>
     (\<forall>l < length S. odd (n div 2 ^ l) \<longrightarrow> S ! l = mnode parent f l (n div 2 ^ l - 1))"

text \<open>
  After at least one append, every level holds the left child on the path of the last leaf.
\<close>

definition last_left :: "('a \<Rightarrow> 'a \<Rightarrow> 'a) \<Rightarrow> (nat \<Rightarrow> 'a) \<Rightarrow> nat \<Rightarrow> 'a list \<Rightarrow> bool" where
  "last_left parent f n S \<longleftrightarrow>
     (\<forall>l < length S. 0 < n \<longrightarrow> S ! l = mnode parent f l (2 * ((n - 1) div 2 ^ Suc l)))"

lemma odd_div_pred:
  fixes n :: nat
  assumes "odd (n div 2 ^ l)"
  shows "2 * ((n - 1) div 2 ^ Suc l) = n div 2 ^ l - 1"
proof -
  define p where "p = (n - 1) div 2 ^ l"
  define q where "q = n div 2 ^ l"
  have "0 < n" using assms by (cases n) auto
  then have "q = p \<or> q = p + 1"
    using div_two_power_succ_cases [of "n - 1" l] by (simp add: p_def q_def)
  moreover have "odd q" using assms by (simp add: q_def)
  ultimately have "2 * (p div 2) = q - 1" by presburger
  then show ?thesis unfolding div_two_power_Suc by (simp add: p_def q_def)
qed

lemma last_left_frontier:
  assumes "0 < n" and "last_left parent f n S"
  shows "frontier parent f n S"
  unfolding frontier_def
proof (intro allI impI)
  fix l assume "l < length S" and "odd (n div 2 ^ l)"
  then show "S ! l = mnode parent f l (n div 2 ^ l - 1)"
    using assms odd_div_pred [of n l] unfolding last_left_def by metis
qed

lemma frontier_0 [simp]: "frontier parent f 0 S"
  by (simp add: frontier_def)

lemma last_left_0 [simp]: "last_left parent f 0 S"
  by (simp add: last_left_def)

end
