(* ===== verification/Tree_Store.thy ===== *)
theory Tree_Store
  imports Merkle_Proof "HOL-Library.AList"
begin

text \<open>
  What the trees keep outside their own fields: the tables \<open>TreeNode\<close> and \<open>LightTree\<close> of the database,
  the writes a database transaction collects, and the in-memory cache of
  \<open>packages/tree/src/utils/tree-cache.ts\<close>. A node is found by the id of its tree and its node index;
  the hexadecimal key \<open>0x...\<close> of the code is the number it spells.
\<close>

section \<open>Tables and writes\<close>

type_synonym node_key = "string \<times> nat"

record 'a light_row =
  lr_root :: 'a
  lr_index :: nat
  lr_siblings :: "'a list"
  lr_start :: nat
  lr_end :: nat

text \<open>
  A row of the table \<open>Bootstrap\<close> has the hash of its block, which may be null, and the siblings of
  the two trees; the table \<open>Block\<close> is the list of the hashes it holds.
\<close>

record 'a bootstrap_row =
  br_blockHash :: "string option"
  br_utxoBootstrap :: "'a list"
  br_withdrawalBootstrap :: "'a list"

record 'a tree_db =
  tree_nodes :: "node_key \<rightharpoonup> 'a"
  light_rows :: "nat \<rightharpoonup> 'a light_row"
  bootstrap_rows :: "'a bootstrap_row list"
  block_rows :: "string list"

text \<open>
  \<open>upsert\<close>: the row is changed where it exists and created otherwise. The snapshot update of a light
  tree leaves the column \<open>start\<close> alone. A bootstrap row is looked up by the hash of its block, but is
  created from the two lists of siblings alone, so that the hash of the new row is null.
\<close>

datatype 'a db_op =
    Upsert_Node string nat 'a
  | Upsert_Snapshot nat 'a nat "'a list" nat
  | Upsert_Light nat "'a light_row"
  | Upsert_Bootstrap string "'a list" "'a list"
  | Create_Bootstrap "'a list" "'a list"
  | Upsert_Block string

fun apply_op :: "'a db_op \<Rightarrow> 'a tree_db \<Rightarrow> 'a tree_db" where
  "apply_op (Upsert_Node treeId k v) db = db\<lparr>tree_nodes := (tree_nodes db)((treeId, k) \<mapsto> v)\<rparr>"
| "apply_op (Upsert_Snapshot species r i sibs e) db =
     db\<lparr>light_rows := (light_rows db)(species \<mapsto>
       (case light_rows db species of
          None \<Rightarrow> \<lparr>lr_root = r, lr_index = i, lr_siblings = sibs, lr_start = 0, lr_end = e\<rparr>
        | Some row \<Rightarrow> row\<lparr>lr_root := r, lr_index := i, lr_siblings := sibs, lr_end := e\<rparr>))\<rparr>"
| "apply_op (Upsert_Light species row) db = db\<lparr>light_rows := (light_rows db)(species \<mapsto> row)\<rparr>"
| "apply_op (Upsert_Bootstrap header u w) db = db\<lparr>bootstrap_rows :=
     (if list_ex (\<lambda>r. br_blockHash r = Some header) (bootstrap_rows db)
      then map (\<lambda>r. if br_blockHash r = Some header
             then r\<lparr>br_utxoBootstrap := u, br_withdrawalBootstrap := w\<rparr> else r) (bootstrap_rows db)
      else bootstrap_rows db @
        [\<lparr>br_blockHash = None, br_utxoBootstrap = u, br_withdrawalBootstrap = w\<rparr>])\<rparr>"
| "apply_op (Create_Bootstrap u w) db = db\<lparr>bootstrap_rows := bootstrap_rows db @
     [\<lparr>br_blockHash = None, br_utxoBootstrap = u, br_withdrawalBootstrap = w\<rparr>]\<rparr>"
| "apply_op (Upsert_Block header) db = db\<lparr>block_rows := List.insert header (block_rows db)\<rparr>"

text \<open>Committing a transaction applies its writes in order.\<close>

definition commit :: "'a db_op list \<Rightarrow> 'a tree_db \<Rightarrow> 'a tree_db" where
  "commit ops db = fold apply_op ops db"

lemma commit_Nil [simp]: "commit [] db = db"
  by (simp add: commit_def)

lemma commit_Cons [simp]: "commit (p # ops) db = commit ops (apply_op p db)"
  by (simp add: commit_def)

lemma commit_append [simp]: "commit (ops @ ops') db = commit ops' (commit ops db)"
  by (simp add: commit_def)

text \<open>Node writes of one tree, as a lookup.\<close>

lemma commit_nodes:
  assumes "distinct (map fst kvs)"
  shows "tree_nodes (commit (map (\<lambda>(k, v). Upsert_Node treeId k v) kvs) db) =
    (\<lambda>key. if fst key = treeId then (case map_of kvs (snd key) of
        Some v \<Rightarrow> Some v | None \<Rightarrow> tree_nodes db key) else tree_nodes db key)"
  using assms
proof (induction kvs arbitrary: db)
  case Nil
  then show ?case by (auto simp: fun_eq_iff)
next
  case (Cons p kvs)
  obtain k v where p: "p = (k, v)" by (cases p)
  have "map_of kvs k = None"
    using Cons.prems p by (simp add: map_of_eq_None_iff)
  with Cons p show ?case
    by (auto simp: fun_eq_iff split: option.splits)
qed

lemma commit_nodes_light_rows:
  "light_rows (commit (map (\<lambda>(k, v). Upsert_Node treeId k v) kvs) db) = light_rows db"
  by (induction kvs arbitrary: db) auto

section \<open>The tree cache\<close>

record 'a tree_cache =
  tc_enabled :: bool
  tc_nodes :: "node_key \<rightharpoonup> 'a"

definition new_tree_cache :: "'a tree_cache" where
  "new_tree_cache = \<lparr>tc_enabled = False, tc_nodes = Map.empty\<rparr>"

definition cacheNode :: "string \<Rightarrow> nat \<Rightarrow> 'a \<Rightarrow> 'a tree_cache \<Rightarrow> 'a tree_cache" where
  "cacheNode treeId k v c =
     (if \<not> tc_enabled c then c else c\<lparr>tc_nodes := (tc_nodes c)((treeId, k) \<mapsto> v)\<rparr>)"

definition cache_enable :: "'a tree_cache \<Rightarrow> 'a tree_cache" where
  "cache_enable c = c\<lparr>tc_enabled := True\<rparr>"

definition cache_disable :: "'a tree_cache \<Rightarrow> 'a tree_cache" where
  "cache_disable c = c\<lparr>tc_enabled := False\<rparr>"

definition cache_clear :: "'a tree_cache \<Rightarrow> 'a tree_cache" where
  "cache_clear c = c\<lparr>tc_nodes := Map.empty\<rparr>"

text \<open>
  The siblings of a leaf that are known: first the cached ones, when the cache is enabled, then
  those the database has among the rest.
\<close>

definition getCachedSiblings ::
    "'a tree_cache \<Rightarrow> 'a tree_db \<Rightarrow> nat \<Rightarrow> string \<Rightarrow> nat \<Rightarrow> (nat \<times> 'a) list result" where
  "getCachedSiblings c db depth treeId leafIndex =
     (let leafPath = leaf_path depth leafIndex in
      if leafPath \<le> leafIndex then Throw ''Leaf index is out of range''
      else
        let siblingIndexes = map (\<lambda>level. sibling_index (drop_bit level leafPath)) [0..<depth];
            inMemoryNodes =
              (if tc_enabled c
               then List.map_filter (\<lambda>k. map_option (Pair k) (tc_nodes c (treeId, k))) siblingIndexes
               else []);
            uncached =
              filter (\<lambda>k. if \<not> tc_enabled c then True else tc_nodes c (treeId, k) = None)
                siblingIndexes;
            cachedSiblings =
              List.map_filter (\<lambda>k. map_option (Pair k) (tree_nodes db (treeId, k))) uncached
        in Ok (inMemoryNodes @ cachedSiblings))"

text \<open>What a reader sees under a key: the cache, when it is enabled, over the database.\<close>

definition visible :: "'a tree_cache \<Rightarrow> 'a tree_db \<Rightarrow> node_key \<rightharpoonup> 'a" where
  "visible c db key =
     (case (if tc_enabled c then tc_nodes c key else None) of
        Some v \<Rightarrow> Some v | None \<Rightarrow> tree_nodes db key)"

text \<open>A later entry for a key overrides an earlier one, as in the loop that fills a JS object.\<close>

lemma map_of_rev_map_filter_Pair:
  "map_of (rev (List.map_filter (\<lambda>k. map_option (Pair k) (m k)) ks)) k =
    (if k \<in> set ks then m k else None)"
  by (induction ks) (auto simp: List.map_filter_simps map_add_def split: option.splits if_splits)

lemma getCachedSiblings_visible:
  assumes "getCachedSiblings c db d treeId i = Ok found"
  shows "map_of (rev found) k =
    (if k \<in> (\<lambda>level. sibling_index (drop_bit level (leaf_path d i))) ` {..<d}
     then visible c db (treeId, k) else None)"
proof -
  let ?ks = "map (\<lambda>level. sibling_index (drop_bit level (leaf_path d i))) [0..<d]"
  define mem where "mem = (if tc_enabled c
      then List.map_filter (\<lambda>k. map_option (Pair k) (tc_nodes c (treeId, k))) ?ks else [])"
  define unc where
    "unc = filter (\<lambda>k. if \<not> tc_enabled c then True else tc_nodes c (treeId, k) = None) ?ks"
  define dbs where "dbs = List.map_filter (\<lambda>k. map_option (Pair k) (tree_nodes db (treeId, k))) unc"
  have found: "found = mem @ dbs"
    using assms unfolding getCachedSiblings_def mem_def unc_def dbs_def
    by (simp add: Let_def split: if_splits)
  have mem: "map_of (rev mem) k = (if tc_enabled c \<and> k \<in> set ?ks then tc_nodes c (treeId, k) else None)"
    unfolding mem_def by (simp add: map_of_rev_map_filter_Pair)
  have dbs: "map_of (rev dbs) k = (if k \<in> set unc then tree_nodes db (treeId, k) else None)"
    unfolding dbs_def by (rule map_of_rev_map_filter_Pair)
  have "set ?ks = (\<lambda>level. sibling_index (drop_bit level (leaf_path d i))) ` {..<d}"
    by (auto simp: atLeast0LessThan)
  moreover have "map_of (rev found) k = (if k \<in> set ?ks then visible c db (treeId, k) else None)"
    unfolding found visible_def rev_append map_add_def map_of_append
    by (auto simp: map_add_def mem dbs unc_def split: option.splits)
  ultimately show ?thesis by simp
qed

text \<open>
  The range check of the trees: a leaf index is refused exactly when its bit \<open>d\<close> is set, which is
  every index of \<open>2^d ..< 2^(d+1)\<close>, but not every larger one.
\<close>

lemma leaf_path_out_of_range: "leaf_path d i \<le> i \<longleftrightarrow> bit i d"
proof
  assume "bit i d"
  have "leaf_path d i = i"
    unfolding leaf_path_def
    by (rule bit_eqI) (use \<open>bit i d\<close> in \<open>auto simp: bit_or_iff bit_exp_iff\<close>)
  then show "leaf_path d i \<le> i" by simp
next
  assume le: "leaf_path d i \<le> i"
  show "bit i d"
  proof (rule ccontr)
    assume "\<not> bit i d"
    then have "\<not> bit ((2::nat) ^ d) n \<or> \<not> bit i n" for n
      by (cases "n = d") (auto simp: bit_exp_iff)
    then have "leaf_path d i = 2 ^ d + i"
      by (simp add: leaf_path_def disjunctive_add)
    with le show False by simp
  qed
qed

lemma leaf_path_in_range: "i < 2 ^ d \<Longrightarrow> \<not> leaf_path d i \<le> i"
  by (simp add: leaf_path_add)

end
