(* ===== verification/Rollup_Tree.thy ===== *)
theory Rollup_Tree
  imports Tree_Store
begin

text \<open>
  \<open>packages/tree/src/light-rollup-tree.ts\<close>: the append-only trees of UTXOs and withdrawals, which keep
  one sibling per level and, for the leaves they track (or for all of them, in full-sync mode),
  the nodes a Merkle proof needs. The class is generic in the hash type; leaf indices are natural
  numbers.
\<close>

section \<open>State\<close>

record 'a leaf =
  lf_hash :: 'a
  lf_shouldTrack :: bool

record tree_metadata =
  md_id :: string
  md_species :: nat
  md_start :: nat
  md_end :: nat

record 'a tree_data =
  td_root :: 'a
  td_index :: nat
  td_siblings :: "'a list"

record 'a tree_config =
  tg_hasher :: "'a hasher"
  tg_forceUpdate :: bool
  tg_fullSync :: bool

record 'a light_tree =
  lt_species :: nat
  lt_metadata :: tree_metadata
  lt_data :: "'a tree_data"
  lt_config :: "'a tree_config"
  lt_depth :: nat

definition new_light_tree ::
    "nat \<Rightarrow> tree_metadata \<Rightarrow> 'a tree_data \<Rightarrow> 'a tree_config \<Rightarrow> 'a light_tree" where
  "new_light_tree species metadata dat config =
     \<lparr>lt_species = species, lt_metadata = metadata, lt_data = dat, lt_config = config,
      lt_depth = length (td_siblings dat)\<rparr>"

definition lt_root :: "'a light_tree \<Rightarrow> 'a" where
  "lt_root t = td_root (lt_data t)"

definition maxSize :: "'a light_tree \<Rightarrow> nat" where
  "maxSize t = push_bit (lt_depth t) 1"

definition latestLeafIndex :: "'a light_tree \<Rightarrow> nat" where
  "latestLeafIndex t = td_index (lt_data t)"

definition lt_siblings :: "'a light_tree \<Rightarrow> 'a list" where
  "lt_siblings t = take (lt_depth t) (td_siblings (lt_data t))"

section \<open>Appending\<close>

text \<open>One level of the climb from the new leaf at \<open>index\<close> to the root.\<close>

definition climb_level ::
    "'a hasher \<Rightarrow> nat \<Rightarrow> nat \<Rightarrow> nat \<Rightarrow> 'a \<times> 'a list \<Rightarrow> 'a \<times> 'a list" where
  "climb_level h depth index level = (\<lambda>(node, latestSiblings).
     let pathIndex = drop_bit level (leaf_path depth index) in
     if even pathIndex
     then (parentOf h node (preHash h ! level), latestSiblings[level := node])
     else (parentOf h (latestSiblings ! level) node, latestSiblings))"

text \<open>\<open>dryAppend\<close>: the root, index and siblings the leaves would lead to; nothing is stored.\<close>

fun dry_append_loop ::
    "'a hasher \<Rightarrow> nat \<Rightarrow> 'a leaf list \<Rightarrow> 'a tree_data \<Rightarrow> 'a tree_data" where
  "dry_append_loop h depth [] s = s"
| "dry_append_loop h depth (item # items) s =
     (let (node, sibs) =
        for_upto depth (climb_level h depth (td_index s)) (lf_hash item, td_siblings s)
      in dry_append_loop h depth items
        \<lparr>td_root = node, td_index = td_index s + 1, td_siblings = sibs\<rparr>)"

definition dryAppend :: "'a light_tree \<Rightarrow> 'a leaf list \<Rightarrow> 'a tree_data" where
  "dryAppend t items =
     dry_append_loop (tg_hasher (lt_config t)) (lt_depth t) items
       \<lparr>td_root = lt_root t, td_index = latestLeafIndex t, td_siblings = lt_siblings t\<rparr>"

text \<open>
  \<open>shouldTrack\<close>: the node is a sibling on the path of a tracked leaf. The path is cut to the
  level of the node by comparing bit lengths.
\<close>

fun bit_length :: "nat \<Rightarrow> nat" where
  "bit_length n = (if n = 0 then 0 else bit_length (n div 2) + 1)"

declare bit_length.simps [simp del]

definition shouldTrack :: "nat \<Rightarrow> nat list \<Rightarrow> nat \<Rightarrow> bool" where
  "shouldTrack depth trackingLeaves nodeIndex =
     list_ex (\<lambda>leaf.
       let leafIndex = leaf_path depth leaf;
           pathIndex = drop_bit (bit_length leafIndex - bit_length nodeIndex) leafIndex
       in Bit_Operations.xor pathIndex nodeIndex = 1) trackingLeaves"

text \<open>One level of the climb of \<open>_append\<close>, which also collects the nodes to store.\<close>

definition append_level ::
    "'a hasher \<Rightarrow> nat \<Rightarrow> bool \<Rightarrow> nat list \<Rightarrow> nat \<Rightarrow> nat \<Rightarrow>
     'a \<times> 'a list \<times> (nat \<times> 'a) list \<Rightarrow> 'a \<times> 'a list \<times> (nat \<times> 'a) list" where
  "append_level h depth fullSync tracking index level = (\<lambda>(node, latestSiblings, cached).
     let pathIndex = drop_bit level (leaf_path depth index);
         cached = (if fullSync \<or> shouldTrack depth tracking pathIndex
                   then AList.update pathIndex node cached else cached);
         cached = (if 0 < index then
             let prevPathIndex = drop_bit level (leaf_path depth (index - 1));
                 prevSibIndex = sibling_index prevPathIndex
             in if even prevSibIndex \<and> (fullSync \<or> shouldTrack depth tracking prevSibIndex)
                then AList.update prevSibIndex (latestSiblings ! level) cached else cached
           else cached)
     in if even pathIndex
        then (parentOf h node (preHash h ! level), latestSiblings[level := node], cached)
        else (parentOf h (latestSiblings ! level) node, latestSiblings, cached))"

record 'a append_state =
  as_root :: 'a
  as_siblings :: "'a list"
  as_cached :: "(nat \<times> 'a) list"
  as_tracking :: "nat list"

definition append_leaf ::
    "'a hasher \<Rightarrow> nat \<Rightarrow> bool \<Rightarrow> nat \<Rightarrow> 'a leaf \<Rightarrow> 'a append_state \<Rightarrow> 'a append_state" where
  "append_leaf h depth fullSync index leaf s =
     (let tracking = (if lf_shouldTrack leaf then as_tracking s @ [index] else as_tracking s);
          (node, sibs, cached) =
            for_upto depth (append_level h depth fullSync tracking index)
              (lf_hash leaf, as_siblings s, as_cached s)
      in \<lparr>as_root = node, as_siblings = sibs, as_cached = cached, as_tracking = tracking\<rparr>)"

text \<open>The loop over the leaves: the leaf number \<open>i\<close> goes to the index \<open>start + i\<close>.\<close>

fun append_loop ::
    "'a hasher \<Rightarrow> nat \<Rightarrow> bool \<Rightarrow> nat \<Rightarrow> 'a leaf list \<Rightarrow> 'a append_state \<Rightarrow> 'a append_state" where
  "append_loop h depth fullSync index [] s = s"
| "append_loop h depth fullSync index (leaf # leaves) s =
     append_loop h depth fullSync (index + 1) leaves (append_leaf h depth fullSync index leaf s)"

text \<open>
  \<open>_append\<close>: the new tree, the new cache, the writes handed to the transaction and the backup its
  error handler restores. \<open>tracked\<close> is what \<open>indexesOfTrackingLeaves\<close> returned.
\<close>

record 'a append_outcome =
  ao_tree :: "'a light_tree"
  ao_cache :: "'a tree_cache"
  ao_ops :: "'a db_op list"
  ao_result :: "'a tree_data"

definition append_run :: "'a light_tree \<Rightarrow> nat list \<Rightarrow> 'a leaf list \<Rightarrow> 'a append_state" where
  "append_run t tracked leaves =
     append_loop (tg_hasher (lt_config t)) (lt_depth t) (tg_fullSync (lt_config t))
       (latestLeafIndex t) leaves
       \<lparr>as_root = lt_root t, as_siblings = lt_siblings t, as_cached = [], as_tracking = tracked\<rparr>"

definition tree_append ::
    "'a light_tree \<Rightarrow> 'a tree_cache \<Rightarrow> nat list \<Rightarrow> 'a leaf list \<Rightarrow> 'a append_outcome" where
  "tree_append t cache tracked leaves =
     (let s = append_run t tracked leaves;
          end_index = latestLeafIndex t + length leaves;
          dat = \<lparr>td_root = as_root s, td_index = end_index, td_siblings = as_siblings s\<rparr>;
          t' = t\<lparr>lt_data := dat, lt_metadata := (lt_metadata t)\<lparr>md_end := end_index\<rparr>\<rparr>;
          treeId = md_id (lt_metadata t)
      in \<lparr>ao_tree = t',
          ao_cache = fold (\<lambda>(k, v). cacheNode treeId k v) (as_cached s) cache,
          ao_ops = Upsert_Snapshot (lt_species t) (as_root s) end_index (as_siblings s) end_index
            # map (\<lambda>(k, v). Upsert_Node treeId k v) (as_cached s),
          ao_result = dat\<rparr>)"

text \<open>The handler registered with \<open>db.onError\<close> puts the backed up data and metadata back.\<close>

definition append_rollback :: "'a light_tree \<Rightarrow> 'a light_tree \<Rightarrow> 'a light_tree" where
  "append_rollback before t = t\<lparr>lt_data := lt_data before, lt_metadata := lt_metadata before\<rparr>"

section \<open>Proofs\<close>

text \<open>The proof of the next, still empty leaf: right siblings are replaced by empty subtrees.\<close>

definition getStartingLeafProof :: "'a light_tree \<Rightarrow> 'a tree_data" where
  "getStartingLeafProof t =
     (let index = latestLeafIndex t;
          siblings = snd (for_upto (lt_depth t) (\<lambda>i (path, siblings).
            (drop_bit 1 path,
             if even path then siblings[i := preHash (tg_hasher (lt_config t)) ! i] else siblings))
            (index, td_siblings (lt_data t)))
      in \<lparr>td_root = lt_root t, td_index = index, td_siblings = siblings\<rparr>)"

definition sibling_cache ::
    "'a light_tree \<Rightarrow> 'a tree_cache \<Rightarrow> 'a tree_db \<Rightarrow> nat \<Rightarrow> (nat \<rightharpoonup> 'a) result" where
  "sibling_cache t c db leafIndex =
     bind_result (getCachedSiblings c db (lt_depth t) (md_id (lt_metadata t)) leafIndex)
       (\<lambda>cachedSiblings.
         if leafIndex < md_start (lt_metadata t) \<or> md_end (lt_metadata t) \<le> leafIndex
         then Throw ''not in range'' else Ok (map_of (rev cachedSiblings)))"

definition tree_getSiblings ::
    "'a light_tree \<Rightarrow> 'a tree_cache \<Rightarrow> 'a tree_db \<Rightarrow> nat \<Rightarrow> 'a list result" where
  "tree_getSiblings t c db leafIndex =
     bind_result (sibling_cache t c db leafIndex) (\<lambda>cached.
       Ok (map (\<lambda>level.
         let pathNodeIndex = drop_bit level (leaf_path (lt_depth t) leafIndex);
             siblingNodeIndex = sibling_index pathNodeIndex;
             usePreHashed =
               drop_bit level (leaf_path (lt_depth t) (md_end (lt_metadata t))) < siblingNodeIndex
         in if usePreHashed then preHash (tg_hasher (lt_config t)) ! level
            else case cached siblingNodeIndex of
                None \<Rightarrow> preHash (tg_hasher (lt_config t)) ! level
              | Some v \<Rightarrow> v)
         [0..<lt_depth t]))"

text \<open>
  \<open>_merkleProof\<close>. Without an index the leaf is looked up by its value; \<open>candidates\<close> is what
  the query \<open>TreeNode where value = hash\<close> returns, cut to \<open>limit: 1\<close>.
\<close>

definition tree_merkleProof ::
    "'a light_tree \<Rightarrow> 'a tree_cache \<Rightarrow> 'a tree_db \<Rightarrow> nat list \<Rightarrow> 'a \<Rightarrow> nat option \<Rightarrow>
     'a merkle_proof result" where
  "tree_merkleProof t c db candidates hash index =
     bind_result
       (case index of
          Some i \<Rightarrow> Ok i
        | None \<Rightarrow> (case take 1 candidates of
              [] \<Rightarrow> Throw ''Leaf does not exist.''
            | [k] \<Rightarrow> Ok (Bit_Operations.xor k (push_bit (lt_depth t) 1))
            | _ \<Rightarrow> Throw ''Multiple leaves exist for same hash.''))
       (\<lambda>leafIndex.
         bind_result (tree_getSiblings t c db leafIndex) (\<lambda>siblings.
           let p = \<lparr>mp_root = lt_root t, mp_index = leafIndex, mp_leaf = hash, mp_siblings = siblings\<rparr>
           in if \<not> verifyProof (tg_hasher (lt_config t)) p
              then Throw ''Created invalid merkle proof'' else Ok p))"

text \<open>
  \<open>initTreeFromDatabase\<close>: bootstrapping from the proof of an empty leaf.
\<close>

definition initTreeFromDatabase ::
    "'a tree_db \<Rightarrow> nat \<Rightarrow> tree_metadata \<Rightarrow> 'a tree_data \<Rightarrow> 'a tree_config \<Rightarrow>
     ('a tree_db \<times> tree_metadata) result" where
  "initTreeFromDatabase db species metadata dat config =
     (if \<not> startingLeafProof (tg_hasher config) (td_root dat) (td_index dat) (td_siblings dat)
      then Throw ''bootstrapped with invalid merkle proof''
      else if \<not> tg_forceUpdate config \<and>
          td_index dat \<le> (case light_rows db species of None \<Rightarrow> 0 | Some row \<Rightarrow> lr_index row)
      then Throw ''Bootstrap is behind the database. Use forceUpdate config''
      else
        let tree = \<lparr>lr_root = td_root dat, lr_index = td_index dat, lr_siblings = td_siblings dat,
              lr_start = td_index dat, lr_end = td_index dat\<rparr>;
            db' = apply_op (Upsert_Light species tree) db
        in case light_rows db' species of
            None \<Rightarrow> Throw ''newTree''
          | Some row \<Rightarrow> Ok (db', metadata\<lparr>md_start := lr_start row, md_end := lr_end row\<rparr>))"

end
