(* ===== verification/Rollup_Append.thy ===== *)
theory Rollup_Append
  imports Rollup_Tree
begin

text \<open>
  What appending does, against the mathematical tree: the climb of a new leaf recomputes exactly the
  nodes above it, keeps the frontier of the next leaf, and, together with the stored nodes, is enough
  for the Merkle proofs of the leaves the tree tracks.
\<close>

section \<open>The climb of one leaf\<close>

text \<open>Leaves from \<open>n\<close> on are empty.\<close>

definition empty_from :: "'a \<Rightarrow> nat \<Rightarrow> (nat \<Rightarrow> 'a) \<Rightarrow> bool" where
  "empty_from zero n f \<longleftrightarrow> (\<forall>i \<ge> n. f i = zero)"

lemma empty_from_update: "empty_from zero n f \<Longrightarrow> empty_from zero (n + 1) (f(n := x))"
  by (auto simp: empty_from_def)

lemma empty_from_mono: "empty_from zero n f \<Longrightarrow> n \<le> m \<Longrightarrow> empty_from zero m f"
  by (auto simp: empty_from_def)

text \<open>The state after \<open>k\<close> levels of the climb of a leaf at \<open>n\<close>, over the new leaves \<open>g\<close>.\<close>

definition climbed ::
    "('a \<Rightarrow> 'a \<Rightarrow> 'a) \<Rightarrow> (nat \<Rightarrow> 'a) \<Rightarrow> nat \<Rightarrow> 'a list \<Rightarrow> nat \<Rightarrow> 'a \<times> 'a list \<Rightarrow> bool" where
  "climbed parent g n S k s \<longleftrightarrow>
     fst s = mnode parent g k (n div 2 ^ k) \<and> length (snd s) = length S \<and>
     (\<forall>l < length S. snd s ! l =
        (if l < k \<and> even (n div 2 ^ l) then mnode parent g l (n div 2 ^ l) else S ! l))"

lemma climbed_0: "climbed parent g n S 0 (g n, S)"
  by (simp add: climbed_def)

lemma div_two_power_ge:
  fixes i n :: nat
  shows "n div 2 ^ k < i div 2 ^ k \<Longrightarrow> n < i"
  by (metis div_le_mono leD leI)

context prehashed
begin

lemma right_empty:
  assumes "empty_from zero (n + 1) g" and "k \<le> depth" and "n div 2 ^ k < j"
  shows "mnode (parentOf h) g k j = preHash h ! k"
proof (rule mnode_empty [OF assms(2)])
  fix i assume "i div 2 ^ k = j"
  with assms(3) have "n < i" by (auto intro: div_two_power_ge)
  with assms(1) show "g i = zero" by (simp add: empty_from_def)
qed

lemma climbed_step:
  assumes "climbed (parentOf h) (f(n := x)) n S k s" and "k < depth" and "length S = depth"
    and empty: "empty_from zero n f" and front: "frontier (parentOf h) f n S"
  shows "climbed (parentOf h) (f(n := x)) n S (Suc k) (climb_level h depth n k s)"
proof -
  let ?g = "f(n := x)"
  let ?q = "n div 2 ^ k"
  obtain node sibs where s: "s = (node, sibs)" by (cases s)
  have node: "node = mnode (parentOf h) ?g k ?q" and len: "length sibs = depth"
    and sibs: "\<And>l. l < depth \<Longrightarrow> sibs ! l =
      (if l < k \<and> even (n div 2 ^ l) then mnode (parentOf h) ?g l (n div 2 ^ l) else S ! l)"
    using assms(1,3) by (simp_all add: s climbed_def)
  have q: "n div 2 ^ Suc k = ?q div 2" by (rule div_two_power_Suc)
  show ?thesis
  proof (cases "even ?q")
    case True
    have right: "mnode (parentOf h) ?g k (sib_pos ?q) = preHash h ! k"
      by (rule right_empty [of n]) (use True \<open>k < depth\<close> empty in
        \<open>simp_all add: sib_pos_def empty_from_update [simplified]\<close>)
    have "climb_level h depth n k s = (parentOf h node (preHash h ! k), sibs[k := node])"
      using True \<open>k < depth\<close> by (simp add: climb_level_def s Let_def even_leaf_path)
    moreover have "parentOf h node (preHash h ! k) = mnode (parentOf h) ?g (Suc k) (?q div 2)"
      using True mnode_step [of "parentOf h" ?g k ?q] by (simp add: node right)
    ultimately show ?thesis
      unfolding climbed_def q using True \<open>k < depth\<close> len sibs assms(3)
      by (auto simp: nth_list_update node less_Suc_eq)
  next
    case False
    have "S ! k = mnode (parentOf h) f k (?q - 1)"
      using front False \<open>k < depth\<close> assms(3) by (simp add: frontier_def)
    moreover have "mnode (parentOf h) ?g k (?q - 1) = mnode (parentOf h) f k (?q - 1)"
      using False by (intro mnode_update_other) (cases ?q, auto)
    ultimately have left: "sibs ! k = mnode (parentOf h) ?g k (sib_pos ?q)"
      using False \<open>k < depth\<close> sibs [of k] by (simp add: sib_pos_def)
    have "climb_level h depth n k s = (parentOf h (sibs ! k) node, sibs)"
      using False \<open>k < depth\<close> by (simp add: climb_level_def s Let_def even_leaf_path)
    moreover have "parentOf h (sibs ! k) node = mnode (parentOf h) ?g (Suc k) (?q div 2)"
      using False mnode_step [of "parentOf h" ?g k ?q] by (simp add: node left)
    ultimately show ?thesis
      unfolding climbed_def q using False len sibs assms(3) by (auto simp: less_Suc_eq)
  qed
qed

lemma climbed_loop:
  assumes "length S = depth" and "empty_from zero n f" and "frontier (parentOf h) f n S"
    and "k \<le> depth"
  shows "climbed (parentOf h) (f(n := x)) n S k (for_upto k (climb_level h depth n) (x, S))"
proof (rule for_upto_invariant)
  show "climbed (parentOf h) (f(n := x)) n S 0 (x, S)"
    using climbed_0 [of "parentOf h" "f(n := x)" n S] by simp
next
  fix l s assume "l < k" and "climbed (parentOf h) (f(n := x)) n S l s"
  with assms show "climbed (parentOf h) (f(n := x)) n S (Suc l) (climb_level h depth n l s)"
    by (intro climbed_step) auto
qed

text \<open>After the climb the tree knows the left siblings of the path of the new leaf itself.\<close>

lemma climbed_last_left:
  assumes "climbed (parentOf h) (f(n := x)) n S depth (r, S')" and "length S = depth"
    and "frontier (parentOf h) f n S"
  shows "last_left (parentOf h) (f(n := x)) (n + 1) S'"
  unfolding last_left_def
proof (intro allI impI)
  fix l assume "l < length S'"
  then have l: "l < depth" using assms(1,2) by (simp add: climbed_def)
  let ?q = "n div 2 ^ l"
  have S': "S' ! l = (if even ?q then mnode (parentOf h) (f(n := x)) l ?q else S ! l)"
    using assms(1,2) l by (simp add: climbed_def)
  have pos: "2 * ((n + 1 - 1) div 2 ^ Suc l) = (if even ?q then ?q else ?q - 1)"
    unfolding div_two_power_Suc by (auto elim!: oddE)
  show "S' ! l = mnode (parentOf h) (f(n := x)) l (2 * ((n + 1 - 1) div 2 ^ Suc l))"
  proof (cases "even ?q")
    case True
    then show ?thesis unfolding pos by (simp add: S')
  next
    case False
    have "S ! l = mnode (parentOf h) f l (?q - 1)"
      using assms(2,3) False l by (simp add: frontier_def)
    moreover have "mnode (parentOf h) (f(n := x)) l (?q - 1) = mnode (parentOf h) f l (?q - 1)"
      using False by (intro mnode_update_other) (cases ?q, auto)
    ultimately show ?thesis unfolding pos using False by (simp add: S')
  qed
qed

end

section \<open>Trees that represent a leaf assignment\<close>

text \<open>
  The data of a tree with \<open>n\<close> leaves \<open>f\<close>: the root is the root of the tree over \<open>f\<close>, padded with
  the empty leaf, and the siblings hold the frontier.
\<close>

definition represents ::
    "'a hasher \<Rightarrow> 'a \<Rightarrow> nat \<Rightarrow> (nat \<Rightarrow> 'a) \<Rightarrow> 'a tree_data \<Rightarrow> bool" where
  "represents h zero depth f dat \<longleftrightarrow>
     td_index dat \<le> 2 ^ depth \<and> length (td_siblings dat) = depth \<and>
     empty_from zero (td_index dat) f \<and> td_root dat = mnode (parentOf h) f depth 0 \<and>
     frontier (parentOf h) f (td_index dat) (td_siblings dat)"

text \<open>Writing a list of leaves from an index on.\<close>

fun append_leaves :: "(nat \<Rightarrow> 'a) \<Rightarrow> nat \<Rightarrow> 'a list \<Rightarrow> nat \<Rightarrow> 'a" where
  "append_leaves f n [] = f"
| "append_leaves f n (x # xs) = append_leaves (f(n := x)) (n + 1) xs"

lemma append_leaves_nth:
  "append_leaves f n xs i = (if n \<le> i \<and> i < n + length xs then xs ! (i - n) else f i)"
proof (induction xs arbitrary: f n)
  case Nil
  then show ?case by auto
next
  case (Cons x xs)
  show ?case
    unfolding append_leaves.simps Cons.IH by (auto simp: nth_Cons' Suc_diff_le)
qed

lemma append_leaves_append:
  "append_leaves f n (xs @ ys) = append_leaves (append_leaves f n xs) (n + length xs) ys"
  by (induction xs arbitrary: f n) simp_all

text \<open>Appending empty leaves after the last leaf changes no leaf.\<close>

lemma append_leaves_padding:
  "empty_from zero n f \<Longrightarrow> append_leaves f n (replicate k zero) = f"
  by (rule ext) (auto simp: append_leaves_nth empty_from_def)

context prehashed
begin

lemma represents_genesis:
  assumes "length S = depth"
  shows "represents h zero depth (\<lambda>_. zero)
    \<lparr>td_root = genesisRoot h, td_index = 0, td_siblings = S\<rparr>"
  using assms by (simp add: represents_def empty_from_def genesisRoot_empty_tree)

lemma represents_climb:
  assumes "represents h zero depth f dat" and "td_index dat < 2 ^ depth"
    and "for_upto depth (climb_level h depth (td_index dat)) (x, td_siblings dat) = (r, S')"
  shows "represents h zero depth (f(td_index dat := x))
      \<lparr>td_root = r, td_index = td_index dat + 1, td_siblings = S'\<rparr>"
    and "last_left (parentOf h) (f(td_index dat := x)) (td_index dat + 1) S'"
proof -
  let ?n = "td_index dat"
  have climbed: "climbed (parentOf h) (f(?n := x)) ?n (td_siblings dat) depth (r, S')"
    using climbed_loop [of "td_siblings dat" ?n f depth x] assms by (simp add: represents_def)
  then show last: "last_left (parentOf h) (f(?n := x)) (?n + 1) S'"
    by (rule climbed_last_left) (use assms(1) in \<open>simp_all add: represents_def\<close>)
  have "r = mnode (parentOf h) (f(?n := x)) depth 0"
    using climbed assms(2) by (simp add: climbed_def)
  moreover have "frontier (parentOf h) (f(?n := x)) (?n + 1) S'"
    by (rule last_left_frontier [OF _ last]) simp
  ultimately show "represents h zero depth (f(?n := x))
      \<lparr>td_root = r, td_index = ?n + 1, td_siblings = S'\<rparr>"
    using assms climbed
    by (simp add: represents_def climbed_def empty_from_update [simplified])
qed

lemma dry_append_loop_represents:
  assumes "represents h zero depth f dat" and "td_index dat + length items \<le> 2 ^ depth"
  shows "represents h zero depth (append_leaves f (td_index dat) (map lf_hash items))
      (dry_append_loop h depth items dat)
    \<and> td_index (dry_append_loop h depth items dat) = td_index dat + length items"
  using assms
proof (induction items arbitrary: f dat)
  case Nil
  then show ?case by simp
next
  case (Cons item items)
  obtain r S' where climb:
    "for_upto depth (climb_level h depth (td_index dat)) (lf_hash item, td_siblings dat) = (r, S')"
    by fastforce
  have "represents h zero depth (f(td_index dat := lf_hash item))
      \<lparr>td_root = r, td_index = td_index dat + 1, td_siblings = S'\<rparr>"
    by (rule represents_climb(1) [OF Cons.prems(1) _ climb]) (use Cons.prems(2) in simp)
  from Cons.IH [OF this] show ?case
    using Cons.prems(2) by (simp add: climb fun_upd_def)
qed

end

end
