(* ===== verification/Rollup_Tracking.thy ===== *)
theory Rollup_Tracking
  imports Rollup_Append
begin

text \<open>
  Which nodes an append stores, and why the tree can later prove the leaves it tracks: the right
  siblings of a tracked leaf are stored as they fill, its left siblings when the next leaf arrives.
\<close>

section \<open>Node keys\<close>

definition node_key :: "nat \<Rightarrow> nat \<Rightarrow> nat \<Rightarrow> nat" where
  "node_key d l j = 2 ^ (d - l) + j"

lemma node_key_path: "i < 2 ^ d \<Longrightarrow> l \<le> d \<Longrightarrow> drop_bit l (leaf_path d i) = node_key d l (i div 2 ^ l)"
  by (simp add: drop_leaf_path node_key_def)

lemma sib_pos_sib_pos [simp]: "sib_pos (sib_pos q) = q"
  by (auto simp: sib_pos_def)

lemma sib_pos_bound: "l < d \<Longrightarrow> q < 2 ^ (d - l) \<Longrightarrow> sib_pos q < 2 ^ (d - l)"
proof -
  assume l: "l < d" and q: "q < 2 ^ (d - l)"
  obtain m :: nat where m: "2 ^ (d - l) = 2 * m" using l by (cases "d - l") auto
  show ?thesis using q unfolding sib_pos_def m by (cases "even q") (auto elim!: evenE oddE)
qed

lemma div_bound: "i < 2 ^ d \<Longrightarrow> l \<le> d \<Longrightarrow> i div 2 ^ l < 2 ^ (d - l)" for i :: nat
  by (simp add: less_mult_imp_div_less flip: power_add)

lemma sibling_node_key: "l < d \<Longrightarrow> sibling_index (node_key d l q) = node_key d l (sib_pos q)"
proof -
  assume "l < d"
  then have "even (2 ^ (d - l) :: nat)" by simp
  then show ?thesis
    by (cases "even q") (auto simp: node_key_def sib_pos_def sibling_index_even sibling_index_odd
        dest: odd_pos)
qed

lemma even_node_key: "l < d \<Longrightarrow> even (node_key d l q) \<longleftrightarrow> even q"
  by (simp add: node_key_def)

lemma bit_length_node: "j < 2 ^ k \<Longrightarrow> bit_length (2 ^ k + j) = k + 1"
proof (induction k arbitrary: j)
  case 0
  then show ?case by (simp add: bit_length.simps)
next
  case (Suc k)
  have "(2 ^ Suc k + j) div 2 = 2 ^ k + j div 2" by simp
  with Suc.IH [of "j div 2"] Suc.prems show ?case
    by (subst bit_length.simps) simp
qed

lemma node_key_inj:
  assumes "l \<le> d" and "l' \<le> d" and "j < 2 ^ (d - l)" and "j' < 2 ^ (d - l')"
  shows "node_key d l j = node_key d l' j' \<longleftrightarrow> l = l' \<and> j = j'"
proof
  assume eq: "node_key d l j = node_key d l' j'"
  then have "bit_length (2 ^ (d - l) + j) = bit_length (2 ^ (d - l') + j')"
    by (simp add: node_key_def)
  then have "d - l = d - l'" using assms(3,4) by (simp add: bit_length_node)
  with assms(1,2) eq show "l = l' \<and> j = j'" by (simp add: node_key_def)
qed simp

lemma xor_eq_1_iff: "Bit_Operations.xor a b = (1::nat) \<longleftrightarrow> b = sibling_index a"
proof
  assume "Bit_Operations.xor a b = 1"
  then have "Bit_Operations.xor a (Bit_Operations.xor a b) = Bit_Operations.xor a 1" by simp
  then show "b = sibling_index a"
    by (simp add: xor.assoc [symmetric] sibling_index_def xor.commute)
next
  assume "b = sibling_index a"
  then show "Bit_Operations.xor a b = 1"
    by (simp add: sibling_index_def xor.commute [of _ a] flip: xor.assoc)
qed

text \<open>\<open>shouldTrack\<close> says what its comment says: the node is a sibling on the path of a tracked leaf.\<close>

lemma shouldTrack_iff:
  assumes "l < d" and "j < 2 ^ (d - l)" and "\<forall>t \<in> set tracking. t < 2 ^ d"
  shows "shouldTrack d tracking (node_key d l j) \<longleftrightarrow> (\<exists>t \<in> set tracking. j = sib_pos (t div 2 ^ l))"
proof -
  have "Bit_Operations.xor
        (drop_bit (bit_length (leaf_path d t) - bit_length (node_key d l j)) (leaf_path d t))
        (node_key d l j) = 1 \<longleftrightarrow> j = sib_pos (t div 2 ^ l)"
    if "t \<in> set tracking" for t
  proof -
    have t: "t < 2 ^ d" using assms(3) that by blast
    have "bit_length (leaf_path d t) - bit_length (node_key d l j) = l"
      using t assms(1,2) by (simp add: leaf_path_add node_key_def bit_length_node)
    then show ?thesis
      using t assms(1,2)
      by (simp only: xor_eq_1_iff node_key_path order_less_imp_le sibling_node_key)
        (auto simp: node_key_inj sib_pos_bound div_bound)
  qed
  then show ?thesis
    unfolding shouldTrack_def list_ex_iff Let_def by blast
qed

section \<open>What one leaf stores\<close>

text \<open>
  The stored nodes after the first \<open>k\<close> levels, starting from \<open>M\<close>: on every level the node of the path
  and the left sibling of the path of the previous leaf, where they are wanted.
\<close>

definition stored_after ::
    "nat \<Rightarrow> (nat \<Rightarrow> bool) \<Rightarrow> ('a \<Rightarrow> 'a \<Rightarrow> 'a) \<Rightarrow> (nat \<Rightarrow> 'a) \<Rightarrow> nat \<Rightarrow> 'a list \<Rightarrow> (nat \<rightharpoonup> 'a) \<Rightarrow> nat \<Rightarrow>
     (nat \<rightharpoonup> 'a) \<Rightarrow> bool" where
  "stored_after d wanted parent g n S M k M' \<longleftrightarrow>
     (\<forall>l < d. \<forall>j < 2 ^ (d - l). M' (node_key d l j) =
       (if l < k \<and> wanted (node_key d l j) \<and> 0 < n \<and> odd ((n - 1) div 2 ^ l) \<and>
           j = (n - 1) div 2 ^ l - 1
        then Some (S ! l)
        else if l < k \<and> wanted (node_key d l j) \<and> j = n div 2 ^ l
        then Some (mnode parent g l j)
        else M (node_key d l j)))"

lemma map_add_update: "M ++ map_of (AList.update k v al) = (M ++ map_of al)(k \<mapsto> v)"
  by (simp add: update_conv')

text \<open>The three components of a level, with the node keys of the level written out.\<close>

lemma append_level_eq:
  assumes "n < 2 ^ d" and "k < d"
    and wanted: "\<And>j. wanted (node_key d k j) = (fullSync \<or> shouldTrack d tracking (node_key d k j))"
  shows "append_level h d fullSync tracking n k (node, sibs, cached) =
    (let q = n div 2 ^ k; q' = (n - 1) div 2 ^ k;
         c1 = (if wanted (node_key d k q) then AList.update (node_key d k q) node cached else cached);
         c2 = (if 0 < n \<and> odd q' \<and> wanted (node_key d k (q' - 1))
               then AList.update (node_key d k (q' - 1)) (sibs ! k) c1 else c1);
         (node', sibs') = climb_level h d n k (node, sibs)
     in (node', sibs', c2))"
proof -
  let ?q' = "(n - 1) div 2 ^ k"
  have path: "drop_bit k (leaf_path d n) = node_key d k (n div 2 ^ k)"
    using assms(1,2) by (simp add: node_key_path)
  have prev: "sibling_index (drop_bit k (leaf_path d (n - 1))) = node_key d k (sib_pos ?q')"
    using assms(1,2) by (simp add: node_key_path sibling_node_key)
  have "even (node_key d k (sib_pos ?q')) \<longleftrightarrow> odd ?q'"
    using assms(2) by (auto simp: even_node_key sib_pos_def)
  moreover have "odd ?q' \<Longrightarrow> sib_pos ?q' = ?q' - 1"
    by (simp add: sib_pos_def)
  ultimately show ?thesis
    unfolding append_level_def climb_level_def Let_def split path prev
    by (auto simp: wanted)
qed

text \<open>The climb of \<open>_append\<close> is the climb of \<open>dryAppend\<close>.\<close>

lemma append_level_climb:
  "\<exists>cached'. append_level h d fullSync tracking n k (node, sibs, cached) =
     (fst (climb_level h d n k (node, sibs)), snd (climb_level h d n k (node, sibs)), cached')"
  unfolding append_level_def climb_level_def Let_def split by auto

lemma append_climb:
  "\<exists>cached'. for_upto k (append_level h d fullSync tracking n) (x, S, cached) =
     (fst (for_upto k (climb_level h d n) (x, S)), snd (for_upto k (climb_level h d n) (x, S)), cached')"
proof (induction k)
  case 0
  show ?case by (simp add: loop_simps)
next
  case (Suc k)
  obtain node sibs where climb: "for_upto k (climb_level h d n) (x, S) = (node, sibs)" by fastforce
  with Suc.IH obtain c where
    "for_upto k (append_level h d fullSync tracking n) (x, S, cached) = (node, sibs, c)"
    by auto
  then show ?case
    using append_level_climb [of h d fullSync tracking n k node sibs c] by (simp add: loop_simps climb)
qed

context prehashed
begin

lemma stored_after_step:
  assumes "stored_after depth wanted (parentOf h) g n S M k (M0 ++ map_of cached)"
    and "k < depth" and "n < 2 ^ depth"
    and wanted: "\<And>j. wanted (node_key depth k j) =
      (fullSync \<or> shouldTrack depth tracking (node_key depth k j))"
    and node: "node = mnode (parentOf h) g k (n div 2 ^ k)" and sib: "sibs ! k = S ! k"
    and level: "append_level h depth fullSync tracking n k (node, sibs, cached) = (node', sibs', cached')"
  shows "stored_after depth wanted (parentOf h) g n S M (Suc k) (M0 ++ map_of cached')"
  unfolding stored_after_def
proof (intro allI impI)
  fix l j :: nat assume l: "l < depth" and j: "j < 2 ^ (depth - l)"
  let ?q = "n div 2 ^ k" and ?q' = "(n - 1) div 2 ^ k"
  have q: "?q < 2 ^ (depth - k)" and q': "?q' < 2 ^ (depth - k)"
    using assms(2,3) by (simp_all add: div_bound)
  have q'1: "?q' - 1 < 2 ^ (depth - k)" using q' by simp
  note keys = node_key_inj [OF less_imp_le [OF l] less_imp_le [OF \<open>k < depth\<close>] j]
  have old: "(M0 ++ map_of cached) (node_key depth l j) =
      (if l < k \<and> wanted (node_key depth l j) \<and> 0 < n \<and> odd ((n - 1) div 2 ^ l) \<and>
           j = (n - 1) div 2 ^ l - 1 then Some (S ! l)
       else if l < k \<and> wanted (node_key depth l j) \<and> j = n div 2 ^ l
       then Some (mnode (parentOf h) g l j) else M (node_key depth l j))"
    using assms(1) l j unfolding stored_after_def by blast
  define c1 where "c1 = (if wanted (node_key depth k ?q)
      then AList.update (node_key depth k ?q) node cached else cached)"
  define m1 where "m1 = M0 ++ map_of c1"
  have cached': "cached' = (if 0 < n \<and> odd ?q' \<and> wanted (node_key depth k (?q' - 1))
      then AList.update (node_key depth k (?q' - 1)) (sibs ! k) c1 else c1)"
    using level append_level_eq [of n depth k wanted fullSync tracking h node sibs cached,
      OF assms(3,2) wanted]
    unfolding c1_def Let_def by (cases "climb_level h depth n k (node, sibs)") simp
  have m2: "M0 ++ map_of cached' = (if 0 < n \<and> odd ?q' \<and> wanted (node_key depth k (?q' - 1))
      then m1(node_key depth k (?q' - 1) \<mapsto> S ! k) else m1)"
    unfolding cached' m1_def by (simp add: map_add_update sib)
  have m1: "m1 = (if wanted (node_key depth k ?q)
      then (M0 ++ map_of cached)(node_key depth k ?q \<mapsto> node) else M0 ++ map_of cached)"
    unfolding m1_def c1_def by (simp add: map_add_update)
  define K where "K = node_key depth l j"
  define old_K where "old_K = (M0 ++ map_of cached) K"
  have K1: "K = node_key depth k ?q \<longleftrightarrow> l = k \<and> j = ?q"
    unfolding K_def by (rule keys [OF q])
  have K2: "K = node_key depth k (?q' - 1) \<longleftrightarrow> l = k \<and> j = ?q' - 1"
    unfolding K_def by (rule keys [OF q'1])
  have m1_K: "m1 K = (if wanted (node_key depth k ?q) \<and> K = node_key depth k ?q
      then Some node else old_K)"
    by (simp add: m1 old_K_def)
  have m2_K: "(M0 ++ map_of cached') K =
      (if 0 < n \<and> odd ?q' \<and> wanted (node_key depth k (?q' - 1)) \<and> K = node_key depth k (?q' - 1)
       then Some (S ! k) else m1 K)"
    by (simp only: m2 fun_upd_apply split: if_split) simp
  have C1: "wanted (node_key depth k ?q) \<and> K = node_key depth k ?q \<longleftrightarrow>
      l = k \<and> wanted K \<and> j = ?q"
    using K1 by metis
  have C2: "0 < n \<and> odd ?q' \<and> wanted (node_key depth k (?q' - 1)) \<and> K = node_key depth k (?q' - 1) \<longleftrightarrow>
      l = k \<and> wanted K \<and> 0 < n \<and> odd ?q' \<and> j = ?q' - 1"
    using K2 by metis
  have new_K: "(M0 ++ map_of cached') K =
      (if l = k \<and> wanted K \<and> 0 < n \<and> odd ?q' \<and> j = ?q' - 1 then Some (S ! k)
       else if l = k \<and> wanted K \<and> j = ?q then Some node else old_K)"
    unfolding m2_K m1_K C1 C2 ..
  show "(M0 ++ map_of cached') (node_key depth l j) =
      (if l < Suc k \<and> wanted (node_key depth l j) \<and> 0 < n \<and> odd ((n - 1) div 2 ^ l) \<and>
           j = (n - 1) div 2 ^ l - 1 then Some (S ! l)
       else if l < Suc k \<and> wanted (node_key depth l j) \<and> j = n div 2 ^ l
       then Some (mnode (parentOf h) g l j) else M (node_key depth l j))"
  proof (cases "l = k")
    case True
    then have "old_K = M K" using old by (simp add: old_K_def K_def)
    with True show ?thesis
      unfolding K_def [symmetric] new_K by (simp add: node)
  next
    case False
    then have "l < Suc k \<longleftrightarrow> l < k" by auto
    with False old show ?thesis
      unfolding K_def [symmetric] new_K old_K_def by simp
  qed
qed

lemma stored_after_loop:
  assumes "length S = depth" and "empty_from zero n f" and "frontier (parentOf h) f n S"
    and "n < 2 ^ depth" and "k \<le> depth"
    and wanted: "\<And>l j. l < depth \<Longrightarrow> wanted (node_key depth l j) =
      (fullSync \<or> shouldTrack depth tracking (node_key depth l j))"
    and "for_upto k (append_level h depth fullSync tracking n) (x, S, cached) = (r, S', cached')"
  shows "stored_after depth wanted (parentOf h) (f(n := x)) n S (M0 ++ map_of cached) k
    (M0 ++ map_of cached')"
  using assms(5,7)
proof (induction k arbitrary: r S' cached')
  case 0
  then show ?case by (simp add: loop_simps stored_after_def)
next
  case (Suc k)
  obtain node sibs c where before:
    "for_upto k (append_level h depth fullSync tracking n) (x, S, cached) = (node, sibs, c)"
    by (metis prod_cases3)
  have climb: "for_upto k (climb_level h depth n) (x, S) = (node, sibs)"
    using append_climb [of k h depth fullSync tracking n x S cached] before by auto
  have "climbed (parentOf h) (f(n := x)) n S k (node, sibs)"
    using climbed_loop [of S n f k x] assms(1-3) Suc.prems(1) by (simp add: climb)
  then have node: "node = mnode (parentOf h) (f(n := x)) k (n div 2 ^ k)" and sib: "sibs ! k = S ! k"
    using Suc.prems(1) assms(1) by (simp_all add: climbed_def)
  have IH: "stored_after depth wanted (parentOf h) (f(n := x)) n S (M0 ++ map_of cached) k
      (M0 ++ map_of c)"
    by (rule Suc.IH [OF _ before]) (use Suc.prems(1) in simp)
  have level: "append_level h depth fullSync tracking n k (node, sibs, c) = (r, S', cached')"
    using Suc.prems(2) before by (simp add: loop_simps)
  have k: "k < depth" using Suc.prems(1) by simp
  show ?case
    by (rule stored_after_step [OF IH k assms(4) wanted [OF k] node sib level])
qed

end

end
