(* ===== verification/Nullifier_Tree.thy ===== *)
theory Nullifier_Tree
  imports Rollup_Tracking
begin

text \<open>
  \<open>packages/tree/src/nullifier-tree.ts\<close>: the sparse Merkle tree of used nullifiers. A leaf is filled
  (1) or empty (0); a node that is not in the table is the root of an empty tree.
\<close>

section \<open>State\<close>

datatype smt_leaf = EMPTY | FILLED

text \<open>\<open>toBN\<close> of the enumeration.\<close>

fun toBN_leaf :: "smt_leaf \<Rightarrow> 'a::zero_neq_one" where
  "toBN_leaf EMPTY = 0"
| "toBN_leaf FILLED = 1"

text \<open>The free hash has the two leaf values as well.\<close>

instantiation term_hash :: zero_neq_one
begin

definition zero_term_hash :: term_hash where "zero_term_hash = HLeaf 0"

definition one_term_hash :: term_hash where "one_term_hash = HLeaf 1"

instance
  by standard (simp add: zero_term_hash_def one_term_hash_def)

end

record smt_update =
  su_index :: nat
  su_val :: smt_leaf

record 'a nullifier_tree =
  nl_depth :: nat
  nl_hasher :: "'a hasher"
  nl_rootNode :: "'a option"

definition NULLIFIER_TREE_ID :: string where
  "NULLIFIER_TREE_ID = ''nullifier-tree''"

definition new_nullifier_tree :: "'a hasher \<Rightarrow> nat \<Rightarrow> 'a nullifier_tree result" where
  "new_nullifier_tree h depth =
     (if length (preHash h) \<le> depth then Throw ''Hasher should have enough prehashed values''
      else Ok \<lparr>nl_depth = depth, nl_hasher = h, nl_rootNode = None\<rparr>)"

text \<open>\<open>getRootNode\<close> reads the field, then the table, then the genesis root, and remembers it.\<close>

definition getRootNode :: "'a tree_db \<Rightarrow> 'a nullifier_tree \<Rightarrow> 'a \<times> 'a nullifier_tree" where
  "getRootNode db t =
     (case nl_rootNode t of
        Some r \<Rightarrow> (r, t)
      | None \<Rightarrow>
          let r = (case tree_nodes db (NULLIFIER_TREE_ID, 1) of
                Some v \<Rightarrow> v | None \<Rightarrow> genesisRoot (nl_hasher t))
          in (r, t\<lparr>nl_rootNode := Some r\<rparr>))"

text \<open>
  \<open>findUsedNullifier\<close>: the query names node indices and the filled value but no tree, so the rows
  of every tree of the table, here the list \<open>treeIds\<close>, can match.
\<close>

definition findUsedNullifier ::
    "'a::zero_neq_one tree_db \<Rightarrow> string list \<Rightarrow> 'a nullifier_tree \<Rightarrow> nat list \<Rightarrow> nat list" where
  "findUsedNullifier db treeIds t nullifiers =
     (let nodeIndices = map (leaf_path (nl_depth t)) nullifiers in
      concat (map (\<lambda>treeId.
        map (\<lambda>k. k - push_bit (nl_depth t) 1)
          (filter (\<lambda>k. case tree_nodes db (treeId, k) of
              None \<Rightarrow> False | Some v \<Rightarrow> v = toBN_leaf FILLED)
            (remdups nodeIndices))) treeIds))"

section \<open>Updating\<close>

text \<open>The stored siblings of the paths of all leaves; only the committed table is asked.\<close>

definition getSiblingNodes :: "'a tree_db \<Rightarrow> 'a nullifier_tree \<Rightarrow> nat list \<Rightarrow> (nat \<rightharpoonup> 'a)" where
  "getSiblingNodes db t leafIndices =
     (let nodeIndices = concat (map (\<lambda>i. map (\<lambda>level.
            sibling_index (drop_bit level (leaf_path (nl_depth t) i))) [0..<nl_depth t]) leafIndices)
      in (\<lambda>k. if k \<in> set nodeIndices then tree_nodes db (NULLIFIER_TREE_ID, k) else None))"

definition smt_getSibling ::
    "'a hasher \<Rightarrow> nat \<Rightarrow> (nat \<times> 'a) list \<Rightarrow> (nat \<rightharpoonup> 'a) \<Rightarrow> nat \<Rightarrow> 'a" where
  "smt_getSibling h depth updatedNodes siblingNodes path =
     (let sibIndex = sibling_index path in
      case map_of updatedNodes sibIndex of
        Some v \<Rightarrow> v
      | None \<Rightarrow> (case siblingNodes sibIndex of
            Some v \<Rightarrow> v
          | None \<Rightarrow> preHash h ! (depth - (bit_length path - 1))))"

definition smt_level ::
    "'a hasher \<Rightarrow> nat \<Rightarrow> (nat \<rightharpoonup> 'a) \<Rightarrow> nat \<Rightarrow> nat \<Rightarrow> 'a \<times> (nat \<times> 'a) list \<Rightarrow>
     'a \<times> (nat \<times> 'a) list" where
  "smt_level h depth siblingNodes leafNodeIndex level = (\<lambda>(node, updatedNodes).
     let pathIndex = drop_bit level leafNodeIndex;
         updatedNodes = AList.update pathIndex node updatedNodes;
         sibling = smt_getSibling h depth updatedNodes siblingNodes pathIndex
     in (if even pathIndex then parentOf h node sibling else parentOf h sibling node,
         updatedNodes))"

definition smt_leaf_step ::
    "'a::zero_neq_one hasher \<Rightarrow> nat \<Rightarrow> (nat \<rightharpoonup> 'a) \<Rightarrow> bool \<Rightarrow> smt_update \<Rightarrow> 'a \<times> (nat \<times> 'a) list \<Rightarrow>
     ('a \<times> (nat \<times> 'a) list) result" where
  "smt_leaf_step h depth siblingNodes strictUpdate leaf = (\<lambda>(newRoot, updatedNodes).
     let leafNodeIndex = leaf_path depth (su_index leaf) in
     if leafNodeIndex \<le> su_index leaf then Throw ''Leaf index is out of range''
     else
       let (node, updatedNodes) =
         for_upto depth (smt_level h depth siblingNodes leafNodeIndex)
           (toBN_leaf (su_val leaf), updatedNodes)
       in if strictUpdate \<and> newRoot = node
          then Throw (''Leaf '' @ decimal (su_index leaf) @ '' is not changing the root.'')
          else Ok (node, updatedNodes))"

definition smt_dryRun ::
    "'a::zero_neq_one tree_db \<Rightarrow> 'a nullifier_tree \<Rightarrow> smt_update list \<Rightarrow> bool \<Rightarrow>
     ((nat \<times> 'a) list \<times> 'a) result" where
  "smt_dryRun db t leaves strictUpdate =
     (let siblingNodes = getSiblingNodes db t (map su_index leaves) in
      bind_result
        (foldM (smt_leaf_step (nl_hasher t) (nl_depth t) siblingNodes strictUpdate) leaves
          (fst (getRootNode db t), []))
        (\<lambda>(newRoot, updatedNodes). Ok (AList.update 1 newRoot updatedNodes, newRoot)))"

text \<open>\<open>update\<close>: the new root, the tree, the cache and the writes handed to the transaction.\<close>

record 'a smt_outcome =
  so_root :: 'a
  so_tree :: "'a nullifier_tree"
  so_cache :: "'a tree_cache"
  so_ops :: "'a db_op list"

definition smt_update_leaves ::
    "'a::zero_neq_one tree_db \<Rightarrow> 'a tree_cache \<Rightarrow> 'a nullifier_tree \<Rightarrow> smt_update list \<Rightarrow> bool \<Rightarrow>
     'a smt_outcome result" where
  "smt_update_leaves db cache t leaves strictUpdate =
     bind_result (smt_dryRun db t leaves strictUpdate) (\<lambda>(updatedNodes, newRoot).
       Ok \<lparr>so_root = newRoot, so_tree = t\<lparr>nl_rootNode := Some newRoot\<rparr>,
         so_cache = fold (\<lambda>(k, v). cacheNode NULLIFIER_TREE_ID k v) updatedNodes cache,
         so_ops = map (\<lambda>(k, v). Upsert_Node NULLIFIER_TREE_ID k v) updatedNodes\<rparr>)"

text \<open>The handler of \<open>db.onError\<close> puts the root from before the update back.\<close>

definition smt_rollback :: "'a tree_db \<Rightarrow> 'a nullifier_tree \<Rightarrow> 'a nullifier_tree \<Rightarrow> 'a nullifier_tree" where
  "smt_rollback db before t = t\<lparr>nl_rootNode := Some (fst (getRootNode db before))\<rparr>"

definition nullify ::
    "'a::zero_neq_one tree_db \<Rightarrow> 'a tree_cache \<Rightarrow> 'a nullifier_tree \<Rightarrow> nat list \<Rightarrow>
     'a smt_outcome result" where
  "nullify db cache t leaves =
     smt_update_leaves db cache t (map (\<lambda>i. \<lparr>su_index = i, su_val = FILLED\<rparr>) leaves) True"

definition recover ::
    "'a::zero_neq_one tree_db \<Rightarrow> 'a tree_cache \<Rightarrow> 'a nullifier_tree \<Rightarrow> nat list \<Rightarrow>
     'a smt_outcome result" where
  "recover db cache t leaves =
     smt_update_leaves db cache t (map (\<lambda>i. \<lparr>su_index = i, su_val = EMPTY\<rparr>) leaves) True"

definition dryRunNullify ::
    "'a::zero_neq_one tree_db \<Rightarrow> 'a nullifier_tree \<Rightarrow> nat list \<Rightarrow> 'a result" where
  "dryRunNullify db t leaves =
     bind_result (smt_dryRun db t (map (\<lambda>i. \<lparr>su_index = i, su_val = FILLED\<rparr>) leaves) True)
       (\<lambda>(_, newRoot). Ok newRoot)"

section \<open>Proofs\<close>

definition smt_getSiblings ::
    "'a tree_db \<Rightarrow> 'a tree_cache \<Rightarrow> 'a nullifier_tree \<Rightarrow> nat \<Rightarrow> 'a list result" where
  "smt_getSiblings db cache t index =
     bind_result (getCachedSiblings cache db (nl_depth t) NULLIFIER_TREE_ID index)
       (\<lambda>cachedSiblings. Ok (map (\<lambda>level.
          case map_of (rev cachedSiblings)
              (sibling_index (drop_bit level (leaf_path (nl_depth t) index))) of
            Some v \<Rightarrow> v | None \<Rightarrow> preHash (nl_hasher t) ! level) [0..<nl_depth t]))"

definition smt_proof ::
    "'a::zero_neq_one tree_db \<Rightarrow> 'a tree_cache \<Rightarrow> 'a nullifier_tree \<Rightarrow> smt_leaf \<Rightarrow> string \<Rightarrow> nat \<Rightarrow>
     'a merkle_proof result" where
  "smt_proof db cache t leaf msg index =
     bind_result (smt_getSiblings db cache t index) (\<lambda>siblings.
       let p = \<lparr>mp_root = fst (getRootNode db t), mp_index = index, mp_leaf = toBN_leaf leaf,
             mp_siblings = siblings\<rparr>
       in if \<not> verifyProof (nl_hasher t) p then Throw msg else Ok p)"

definition getInclusionProof ::
    "'a::zero_neq_one tree_db \<Rightarrow> 'a tree_cache \<Rightarrow> 'a nullifier_tree \<Rightarrow> nat \<Rightarrow>
     'a merkle_proof result" where
  "getInclusionProof db cache t index =
     smt_proof db cache t FILLED ''Generated invalid inclusion proof'' index"

definition getNonInclusionProof ::
    "'a::zero_neq_one tree_db \<Rightarrow> 'a tree_cache \<Rightarrow> 'a nullifier_tree \<Rightarrow> nat \<Rightarrow>
     'a merkle_proof result" where
  "getNonInclusionProof db cache t index =
     smt_proof db cache t EMPTY ''Generated invalid non inclusion proof'' index"

end
