(* ===== verification/Rollup_Proofs.thy ===== *)
theory Rollup_Proofs
  imports Rollup_Tracking
begin

text \<open>
  The invariant of a light tree between appends, over its data and the nodes a reader sees, and what
  follows from it: every append keeps it, and the Merkle proof of a leaf whose siblings are stored is
  found and verifies.
\<close>

section \<open>The stored nodes of a tree\<close>

text \<open>Nothing is stored at or right of the next leaf.\<close>

definition nothing_beyond :: "nat \<Rightarrow> nat \<Rightarrow> (nat \<rightharpoonup> 'a) \<Rightarrow> bool" where
  "nothing_beyond d n M \<longleftrightarrow>
     (\<forall>l < d. \<forall>j < 2 ^ (d - l). n \<le> j * 2 ^ l \<longrightarrow> M (node_key d l j) = None)"

text \<open>All siblings of the leaf \<open>t\<close> that cover a leaf are stored with their values.\<close>

definition siblings_stored ::
    "nat \<Rightarrow> ('a \<Rightarrow> 'a \<Rightarrow> 'a) \<Rightarrow> (nat \<Rightarrow> 'a) \<Rightarrow> nat \<Rightarrow> (nat \<rightharpoonup> 'a) \<Rightarrow> nat \<Rightarrow> bool" where
  "siblings_stored d parent f n M t \<longleftrightarrow>
     (\<forall>l < d. sib_pos (t div 2 ^ l) * 2 ^ l < n \<longrightarrow>
        M (node_key d l (sib_pos (t div 2 ^ l))) = Some (mnode parent f l (sib_pos (t div 2 ^ l))))"

text \<open>The same for the right siblings only: what holds of the leaf that was appended last.\<close>

definition right_stored ::
    "nat \<Rightarrow> ('a \<Rightarrow> 'a \<Rightarrow> 'a) \<Rightarrow> (nat \<Rightarrow> 'a) \<Rightarrow> nat \<Rightarrow> (nat \<rightharpoonup> 'a) \<Rightarrow> nat \<Rightarrow> bool" where
  "right_stored d parent f n M t \<longleftrightarrow>
     (\<forall>l < d. even (t div 2 ^ l) \<longrightarrow> (t div 2 ^ l + 1) * 2 ^ l < n \<longrightarrow>
        M (node_key d l (t div 2 ^ l + 1)) = Some (mnode parent f l (t div 2 ^ l + 1)))"

definition tracks ::
    "nat \<Rightarrow> ('a \<Rightarrow> 'a \<Rightarrow> 'a) \<Rightarrow> nat \<Rightarrow> (nat \<Rightarrow> 'a) \<Rightarrow> nat \<Rightarrow> 'a list \<Rightarrow> (nat \<rightharpoonup> 'a) \<Rightarrow> nat set \<Rightarrow> bool" where
  "tracks d parent start f n S M T \<longleftrightarrow>
     (start < n \<longrightarrow> last_left parent f n S) \<and> nothing_beyond d n M \<and>
     (\<forall>t \<in> T. start \<le> t \<longrightarrow> t < n \<longrightarrow>
        right_stored d parent f n M t \<and> (t + 1 < n \<longrightarrow> siblings_stored d parent f n M t))"

lemma block_start: "(i::nat) div 2 ^ l * 2 ^ l \<le> i"
  by (simp add: div_times_less_eq_dividend)

lemma block_iff: "j * 2 ^ l \<le> n \<and> n < (j + 1) * 2 ^ l \<longleftrightarrow> n div 2 ^ l = (j::nat)"
proof
  assume "j * 2 ^ l \<le> n \<and> n < (j + 1) * 2 ^ l"
  then show "n div 2 ^ l = j"
    by (intro div_nat_eqI) (auto simp: mult.commute)
next
  assume "n div 2 ^ l = j"
  then show "j * 2 ^ l \<le> n \<and> n < (j + 1) * 2 ^ l"
    by (metis Suc_eq_plus1 block_start dividend_less_div_times mult.commute mult_Suc
        add.commute zero_less_numeral zero_less_power)
qed

lemma block_le_iff: "j * 2 ^ l \<le> n \<longleftrightarrow> (j::nat) \<le> n div 2 ^ l"
  by (simp add: less_eq_div_iff_mult_less_eq)

context prehashed
begin

text \<open>The next leaf writes no node right of itself.\<close>

lemma nothing_beyond_step:
  assumes "stored_after depth wanted (parentOf h) g n S M depth M'"
    and "nothing_beyond depth n M"
  shows "nothing_beyond depth (n + 1) M'"
  unfolding nothing_beyond_def
proof (intro allI impI)
  fix l j :: nat assume l: "l < depth" "j < 2 ^ (depth - l)" and beyond: "n + 1 \<le> j * 2 ^ l"
  then have "n div 2 ^ l < j"
    by (metis Suc_eq_plus1 Suc_le_lessD block_le_iff not_less)
  moreover have "(n - 1) div 2 ^ l - 1 \<le> n div 2 ^ l"
    by (meson diff_le_self div_le_mono le_trans)
  moreover have "M (node_key depth l j) = None"
    using assms(2) l beyond unfolding nothing_beyond_def by auto
  ultimately show "M' (node_key depth l j) = None"
    using assms(1) l unfolding stored_after_def by auto
qed

text \<open>A stored node of a block that the next leaf does not touch stays as it is.\<close>

lemma stored_after_keep:
  assumes "stored_after depth wanted (parentOf h) (f(n := x)) n S M depth M'"
    and l: "l < depth" "j < 2 ^ (depth - l)" and other: "n div 2 ^ l \<noteq> j"
    and val: "M (node_key depth l j) = Some (mnode (parentOf h) f l j)"
    and left: "0 < n \<Longrightarrow> odd ((n - 1) div 2 ^ l) \<Longrightarrow> j = (n - 1) div 2 ^ l - 1 \<Longrightarrow>
      S ! l = mnode (parentOf h) f l j"
  shows "M' (node_key depth l j) = Some (mnode (parentOf h) (f(n := x)) l j)"
proof -
  have "mnode (parentOf h) (f(n := x)) l j = mnode (parentOf h) f l j"
    using other by (rule mnode_update_other)
  then show ?thesis
    using assms(1) l other val left unfolding stored_after_def by auto
qed

lemma right_stored_step:
  assumes after: "stored_after depth wanted (parentOf h) (f(n := x)) n S M depth M'"
    and t: "t < n" and n: "n < 2 ^ depth" and right: "right_stored depth (parentOf h) f n M t"
    and wanted: "\<And>l. l < depth \<Longrightarrow> wanted (node_key depth l (sib_pos (t div 2 ^ l)))"
  shows "right_stored depth (parentOf h) (f(n := x)) (n + 1) M' t"
  unfolding right_stored_def
proof (intro allI impI)
  fix l assume l: "l < depth" and even: "even (t div 2 ^ l)"
    and less: "(t div 2 ^ l + 1) * 2 ^ l < n + 1"
  let ?s = "t div 2 ^ l + 1"
  have s: "?s = sib_pos (t div 2 ^ l)" using even by (simp add: sib_pos_def)
  have "t < 2 ^ depth" using t n by simp
  then have bound: "?s < 2 ^ (depth - l)"
    unfolding s using l by (intro sib_pos_bound) (simp_all add: div_bound)
  have odd: "odd ?s" using even by simp
  have not_left: "\<not> (odd q \<and> ?s = q - 1)" for q using odd by (cases q) auto
  show "M' (node_key depth l ?s) = Some (mnode (parentOf h) (f(n := x)) l ?s)"
  proof (cases "n div 2 ^ l = ?s")
    case True
    moreover have "wanted (node_key depth l ?s)" using wanted [OF l] s by simp
    ultimately show ?thesis
      using after l bound not_left unfolding stored_after_def by auto
  next
    case False
    with less have "?s * 2 ^ l < n"
      by (metis Suc_eq_plus1 block_le_iff le_neq_implies_less less_Suc_eq_le nonzero_mult_div_cancel_right
          power_not_zero zero_neq_numeral)
    then have "M (node_key depth l ?s) = Some (mnode (parentOf h) f l ?s)"
      using right l even unfolding right_stored_def by blast
    with after l bound False show ?thesis
      by (rule stored_after_keep) (use not_left in blast)
  qed
qed

text \<open>The left siblings of the previous leaf are stored with the next one; those of older leaves stay.\<close>

lemma siblings_stored_step:
  assumes after: "stored_after depth wanted (parentOf h) (f(n := x)) n S M depth M'"
    and t: "t < n" and n: "n < 2 ^ depth" and len: "length S = depth"
    and ready: "right_stored depth (parentOf h) f n M t"
      "t + 1 < n \<Longrightarrow> siblings_stored depth (parentOf h) f n M t"
    and wanted: "\<And>l. l < depth \<Longrightarrow> wanted (node_key depth l (sib_pos (t div 2 ^ l)))"
    and last: "last_left (parentOf h) f n S"
  shows "siblings_stored depth (parentOf h) (f(n := x)) (n + 1) M' t"
  unfolding siblings_stored_def
proof (intro allI impI)
  fix l assume l: "l < depth" and less: "sib_pos (t div 2 ^ l) * 2 ^ l < n + 1"
  let ?s = "sib_pos (t div 2 ^ l)"
  have "t < 2 ^ depth" using t n by simp
  then have bound: "?s < 2 ^ (depth - l)"
    using l by (intro sib_pos_bound) (simp_all add: div_bound)
  show "M' (node_key depth l ?s) = Some (mnode (parentOf h) (f(n := x)) l ?s)"
  proof (cases "even (t div 2 ^ l)")
    case True
    have "right_stored depth (parentOf h) (f(n := x)) (n + 1) M' t"
      by (rule right_stored_step [OF after t n ready(1) wanted])
    with True l less show ?thesis unfolding right_stored_def by (simp add: sib_pos_def)
  next
    case False
    have s: "?s = t div 2 ^ l - 1" using False by (simp add: sib_pos_def)
    have pos: "0 < t div 2 ^ l" using False by (simp add: odd_pos)
    have "t div 2 ^ l \<le> n div 2 ^ l" using t by (intro div_le_mono) simp
    with s pos have other: "n div 2 ^ l \<noteq> ?s" by linarith
    have left: "S ! l = mnode (parentOf h) f l ((n - 1) div 2 ^ l - 1)" if "odd ((n - 1) div 2 ^ l)"
    proof -
      have "2 * ((n - 1) div 2 ^ Suc l) = (n - 1) div 2 ^ l - 1"
        using that unfolding div_two_power_Suc by (auto elim!: oddE)
      moreover have "S ! l = mnode (parentOf h) f l (2 * ((n - 1) div 2 ^ Suc l))"
        using last l len t unfolding last_left_def by (metis less_nat_zero_code neq0_conv)
      ultimately show ?thesis by simp
    qed
    show ?thesis
    proof (cases "t + 1 < n")
      case True
      have "?s * 2 ^ l \<le> t" using s block_le_iff [of ?s l t] by simp
      with t have "?s * 2 ^ l < n" by simp
      with True ready(2) l have "M (node_key depth l ?s) = Some (mnode (parentOf h) f l ?s)"
        unfolding siblings_stored_def by blast
      with after l bound other show ?thesis
        by (rule stored_after_keep) (use left in simp)
    next
      case False
      with t have prev: "n - 1 = t" and "0 < n" by auto
      have "M' (node_key depth l ?s) = Some (S ! l)"
        using after l bound wanted [OF l] \<open>0 < n\<close> \<open>odd (t div 2 ^ l)\<close> s
        unfolding stored_after_def prev by simp
      moreover have "S ! l = mnode (parentOf h) f l ?s"
        using left \<open>odd (t div 2 ^ l)\<close> unfolding prev s by blast
      moreover have "mnode (parentOf h) (f(n := x)) l ?s = mnode (parentOf h) f l ?s"
        using other by (rule mnode_update_other)
      ultimately show ?thesis by simp
    qed
  qed
qed

text \<open>One appended leaf keeps the invariant, for the tracked leaves and possibly the new one.\<close>

lemma tracks_step:
  assumes rep: "represents h zero depth f dat" and n: "td_index dat < 2 ^ depth"
    and inv: "tracks depth (parentOf h) start f (td_index dat) (td_siblings dat) M T"
    and start: "start \<le> td_index dat"
    and after: "stored_after depth wanted (parentOf h) (f(td_index dat := x)) (td_index dat)
      (td_siblings dat) M depth M'"
    and climb: "for_upto depth (climb_level h depth (td_index dat)) (x, td_siblings dat) = (r, S')"
    and wanted: "\<And>t l. t \<in> T' \<Longrightarrow> l < depth \<Longrightarrow> wanted (node_key depth l (sib_pos (t div 2 ^ l)))"
    and T': "T' \<subseteq> insert (td_index dat) T"
  shows "tracks depth (parentOf h) start (f(td_index dat := x)) (td_index dat + 1) S' M' T'"
proof -
  let ?n = "td_index dat"
  have last: "last_left (parentOf h) (f(?n := x)) (?n + 1) S'"
    by (rule represents_climb(2) [OF rep n climb])
  have beyond: "nothing_beyond depth (?n + 1) M'"
    by (rule nothing_beyond_step [OF after]) (use inv in \<open>simp add: tracks_def\<close>)
  have len: "length (td_siblings dat) = depth" using rep by (simp add: represents_def)
  have "right_stored depth (parentOf h) (f(?n := x)) (?n + 1) M' t \<and>
      (t + 1 < ?n + 1 \<longrightarrow> siblings_stored depth (parentOf h) (f(?n := x)) (?n + 1) M' t)"
    if t: "t \<in> T'" and "start \<le> t" and "t < ?n + 1" for t
  proof (cases "t = ?n")
    case True
    have "right_stored depth (parentOf h) (f(?n := x)) (?n + 1) M' ?n"
      unfolding right_stored_def
    proof (intro allI impI)
      fix l assume "(?n div 2 ^ l + 1) * 2 ^ l < ?n + 1"
      then have False using block_iff [of "?n div 2 ^ l" l ?n] by simp
      then show "M' (node_key depth l (?n div 2 ^ l + 1)) =
          Some (mnode (parentOf h) (f(?n := x)) l (?n div 2 ^ l + 1))" ..
    qed
    with True show ?thesis by simp
  next
    case False
    with that T' have "t \<in> T" and less: "t < ?n" by auto
    with inv \<open>start \<le> t\<close> have ready: "right_stored depth (parentOf h) f ?n M t"
        "t + 1 < ?n \<Longrightarrow> siblings_stored depth (parentOf h) f ?n M t"
      and old_last: "last_left (parentOf h) f ?n (td_siblings dat)"
      unfolding tracks_def by auto
    show ?thesis
      using right_stored_step [OF after less n ready(1) wanted [OF t]]
        siblings_stored_step [OF after less n len ready wanted [OF t] old_last] by blast
  qed
  with last beyond show ?thesis unfolding tracks_def by blast
qed

end

end
