(* ===== verification/Rollup_Sync.thy ===== *)
theory Rollup_Sync
  imports Rollup_Proofs
begin

text \<open>
  The invariant of a light tree over whole appends, with the database and the cache, and the Merkle
  proofs it gives.
\<close>

section \<open>Appending a list of leaves\<close>

text \<open>In full-sync mode every node of a non-empty subtree is stored.\<close>

definition all_stored ::
    "nat \<Rightarrow> ('a \<Rightarrow> 'a \<Rightarrow> 'a) \<Rightarrow> (nat \<Rightarrow> 'a) \<Rightarrow> nat \<Rightarrow> (nat \<rightharpoonup> 'a) \<Rightarrow> bool" where
  "all_stored d parent f n M \<longleftrightarrow>
     (\<forall>l < d. \<forall>j < 2 ^ (d - l). j * 2 ^ l < n \<longrightarrow>
        M (node_key d l j) = Some (mnode parent f l j))"

text \<open>The data of the tree in the middle of an append.\<close>

abbreviation running :: "nat \<Rightarrow> 'a append_state \<Rightarrow> 'a tree_data" where
  "running n s \<equiv> \<lparr>td_root = as_root s, td_index = n, td_siblings = as_siblings s\<rparr>"

text \<open>The leaves whose proofs the append keeps: the tracked ones, or all in full-sync mode.\<close>

definition kept :: "bool \<Rightarrow> nat list \<Rightarrow> nat set" where
  "kept fullSync tracking = (if fullSync then UNIV else set tracking)"

lemma shouldTrack_sibling:
  assumes "t \<in> set tracking" and "\<forall>t \<in> set tracking. t < 2 ^ d" and "l < d"
  shows "shouldTrack d tracking (node_key d l (sib_pos (t div 2 ^ l)))"
proof -
  have "t < 2 ^ d" using assms(1,2) by blast
  then have "sib_pos (t div 2 ^ l) < 2 ^ (d - l)"
    using assms(3) by (intro sib_pos_bound) (simp_all add: div_bound)
  with assms show ?thesis by (auto simp: shouldTrack_iff)
qed

context prehashed
begin

lemma all_stored_step:
  assumes after: "stored_after depth (\<lambda>_. True) (parentOf h) (f(n := x)) n S M depth M'"
    and len: "length S = depth" and last: "0 < n \<Longrightarrow> last_left (parentOf h) f n S"
    and all: "all_stored depth (parentOf h) f n M"
  shows "all_stored depth (parentOf h) (f(n := x)) (n + 1) M'"
  unfolding all_stored_def
proof (intro allI impI)
  fix l j :: nat assume l: "l < depth" "j < 2 ^ (depth - l)" and less: "j * 2 ^ l < n + 1"
  show "M' (node_key depth l j) = Some (mnode (parentOf h) (f(n := x)) l j)"
  proof (cases "n div 2 ^ l = j")
    case True
    have "\<not> (odd ((n - 1) div 2 ^ l) \<and> j = (n - 1) div 2 ^ l - 1)"
      using True div_le_mono [of "n - 1" n "2 ^ l"] odd_pos [of "(n - 1) div 2 ^ l"] by auto
    with after l True show ?thesis unfolding stored_after_def by auto
  next
    case False
    have "j * 2 ^ l < n" using less False block_start [of n l] 
      by (metis Suc_eq_plus1 less_Suc_eq nonzero_mult_div_cancel_right power_not_zero zero_neq_numeral)
    with all l have "M (node_key depth l j) = Some (mnode (parentOf h) f l j)"
      unfolding all_stored_def by blast
    with after l False show ?thesis
    proof (rule stored_after_keep)
      assume "0 < n" and odd: "odd ((n - 1) div 2 ^ l)" and j: "j = (n - 1) div 2 ^ l - 1"
      have "2 * ((n - 1) div 2 ^ Suc l) = j"
        using odd unfolding j div_two_power_Suc by (auto elim!: oddE)
      with last [OF \<open>0 < n\<close>] \<open>0 < n\<close> l len show "S ! l = mnode (parentOf h) f l j"
        unfolding last_left_def by auto
    qed
  qed
qed

text \<open>One leaf.\<close>

lemma append_leaf_sync:
  assumes rep: "represents h zero depth f (running n s)" and n: "n < 2 ^ depth" and start: "start \<le> n"
    and inv: "tracks depth (parentOf h) start f n (as_siblings s) (M0 ++ map_of (as_cached s))
      (kept fullSync (as_tracking s))"
    and tracking: "\<forall>t \<in> set (as_tracking s). t < 2 ^ depth"
    and s': "s' = append_leaf h depth fullSync n leaf s"
  shows "represents h zero depth (f(n := lf_hash leaf)) (running (n + 1) s')"
    and "tracks depth (parentOf h) start (f(n := lf_hash leaf)) (n + 1) (as_siblings s')
      (M0 ++ map_of (as_cached s')) (kept fullSync (as_tracking s'))"
    and "\<forall>t \<in> set (as_tracking s'). t < 2 ^ depth"
    and "fullSync \<Longrightarrow> start = 0 \<Longrightarrow>
      all_stored depth (parentOf h) f n (M0 ++ map_of (as_cached s)) \<Longrightarrow>
      all_stored depth (parentOf h) (f(n := lf_hash leaf)) (n + 1) (M0 ++ map_of (as_cached s'))"
proof -
  define tracking where
    "tracking = (if lf_shouldTrack leaf then as_tracking s @ [n] else as_tracking s)"
  obtain r S' c where loop: "for_upto depth (append_level h depth fullSync tracking n)
      (lf_hash leaf, as_siblings s, as_cached s) = (r, S', c)"
    by (metis prod_cases3)
  have s'_eq: "s' = \<lparr>as_root = r, as_siblings = S', as_cached = c, as_tracking = tracking\<rparr>"
    using loop by (simp add: s' append_leaf_def tracking_def Let_def)
  have climb: "for_upto depth (climb_level h depth n) (lf_hash leaf, as_siblings s) = (r, S')"
    using append_climb [of depth h depth fullSync tracking n "lf_hash leaf" "as_siblings s"
      "as_cached s"] loop by auto
  show tracking': "\<forall>t \<in> set (as_tracking s'). t < 2 ^ depth"
    using tracking n by (auto simp: s'_eq tracking_def)
  define wanted where "wanted k = (fullSync \<or> shouldTrack depth tracking k)" for k
  have after: "stored_after depth wanted (parentOf h) (f(n := lf_hash leaf)) n (as_siblings s)
      (M0 ++ map_of (as_cached s)) depth (M0 ++ map_of c)"
    by (rule stored_after_loop [OF _ _ _ n le_refl _ loop])
      (use rep in \<open>simp_all add: represents_def wanted_def\<close>)
  show "represents h zero depth (f(n := lf_hash leaf)) (running (n + 1) s')"
    using represents_climb(1) [OF rep, of "lf_hash leaf" r S'] n climb by (simp add: s'_eq)
  show "tracks depth (parentOf h) start (f(n := lf_hash leaf)) (n + 1) (as_siblings s')
      (M0 ++ map_of (as_cached s')) (kept fullSync (as_tracking s'))"
  proof -
    have "wanted (node_key depth l (sib_pos (t div 2 ^ l)))"
      if "t \<in> kept fullSync tracking" and "l < depth" for t l
      using that tracking' shouldTrack_sibling [of t tracking depth l]
      by (auto simp: wanted_def kept_def s'_eq split: if_splits)
    moreover have "kept fullSync tracking \<subseteq> insert n (kept fullSync (as_tracking s))"
      by (auto simp: kept_def tracking_def)
    ultimately show ?thesis
      using tracks_step [OF rep, of start "M0 ++ map_of (as_cached s)" _ wanted "lf_hash leaf"
        "M0 ++ map_of c" r S' "kept fullSync tracking"] n inv start after climb
      by (simp add: s'_eq)
  qed
  show "all_stored depth (parentOf h) (f(n := lf_hash leaf)) (n + 1) (M0 ++ map_of (as_cached s'))"
    if "fullSync" and "start = 0" and "all_stored depth (parentOf h) f n (M0 ++ map_of (as_cached s))"
  proof -
    have "wanted = (\<lambda>_. True)" using that(1) by (simp add: wanted_def fun_eq_iff)
    then show ?thesis
      unfolding s'_eq append_state.simps
      using all_stored_step [of f n "lf_hash leaf" "as_siblings s" _ "M0 ++ map_of c"] after rep inv that
      by (auto simp: represents_def tracks_def)
  qed
qed

text \<open>All leaves.\<close>

lemma append_loop_sync:
  assumes "represents h zero depth f (running n s)" and "n + length leaves \<le> 2 ^ depth" and "start \<le> n"
    and "tracks depth (parentOf h) start f n (as_siblings s) (M0 ++ map_of (as_cached s))
      (kept fullSync (as_tracking s))"
    and "\<forall>t \<in> set (as_tracking s). t < 2 ^ depth"
    and "s' = append_loop h depth fullSync n leaves s"
  shows "represents h zero depth (append_leaves f n (map lf_hash leaves)) (running (n + length leaves) s') \<and>
    tracks depth (parentOf h) start (append_leaves f n (map lf_hash leaves)) (n + length leaves)
      (as_siblings s') (M0 ++ map_of (as_cached s')) (kept fullSync (as_tracking s')) \<and>
    (fullSync \<longrightarrow> start = 0 \<longrightarrow>
      all_stored depth (parentOf h) f n (M0 ++ map_of (as_cached s)) \<longrightarrow>
      all_stored depth (parentOf h) (append_leaves f n (map lf_hash leaves)) (n + length leaves)
        (M0 ++ map_of (as_cached s')))"
  using assms
proof (induction leaves arbitrary: f n s)
  case Nil
  then show ?case by simp
next
  case (Cons leaf leaves)
  let ?s1 = "append_leaf h depth fullSync n leaf s"
  have n: "n < 2 ^ depth" using Cons.prems(2) by simp
  note one = append_leaf_sync [OF Cons.prems(1) n Cons.prems(3,4,5) refl, of leaf]
  have IH: "represents h zero depth (append_leaves (f(n := lf_hash leaf)) (n + 1) (map lf_hash leaves))
        (running (n + 1 + length leaves) s') \<and>
      tracks depth (parentOf h) start (append_leaves (f(n := lf_hash leaf)) (n + 1) (map lf_hash leaves))
        (n + 1 + length leaves) (as_siblings s') (M0 ++ map_of (as_cached s'))
        (kept fullSync (as_tracking s')) \<and>
      (fullSync \<longrightarrow> start = 0 \<longrightarrow>
        all_stored depth (parentOf h) (f(n := lf_hash leaf)) (n + 1) (M0 ++ map_of (as_cached ?s1)) \<longrightarrow>
        all_stored depth (parentOf h)
          (append_leaves (f(n := lf_hash leaf)) (n + 1) (map lf_hash leaves))
          (n + 1 + length leaves) (M0 ++ map_of (as_cached s')))"
    by (rule Cons.IH [OF one(1) _ _ one(2,3)]) (use Cons.prems in simp_all)
  have idx: "n + 1 + length leaves = n + length (leaf # leaves)" by simp
  show ?case
    using IH one(4) unfolding idx append_leaves.simps list.map by blast
qed

end

text \<open>The collected nodes are a map: every key is listed once.\<close>

lemma append_level_distinct:
  "distinct (map fst (snd (snd s))) \<Longrightarrow>
    distinct (map fst (snd (snd (append_level h depth fullSync tracking n k s))))"
  by (cases s) (simp add: append_level_def Let_def distinct_update)

lemma append_leaf_distinct:
  assumes "distinct (map fst (as_cached s))"
  shows "distinct (map fst (as_cached (append_leaf h depth fullSync n leaf s)))"
proof -
  define tracking where
    "tracking = (if lf_shouldTrack leaf then as_tracking s @ [n] else as_tracking s)"
  obtain r S' c where loop: "for_upto depth (append_level h depth fullSync tracking n)
      (lf_hash leaf, as_siblings s, as_cached s) = (r, S', c)"
    by (metis prod_cases3)
  have "distinct (map fst (snd (snd (for_upto depth (append_level h depth fullSync tracking n)
      (lf_hash leaf, as_siblings s, as_cached s)))))"
    by (rule for_upto_invariant [where P = "\<lambda>_ s. distinct (map fst (snd (snd s)))"])
      (use assms in \<open>simp_all add: append_level_distinct\<close>)
  with loop show ?thesis
    by (simp add: append_leaf_def tracking_def Let_def)
qed

lemma append_loop_distinct:
  "distinct (map fst (as_cached s)) \<Longrightarrow>
    distinct (map fst (as_cached (append_loop h depth fullSync n leaves s)))"
  by (induction leaves arbitrary: n s) (simp_all add: append_leaf_distinct)

section \<open>The tree, the database and the cache\<close>

text \<open>The nodes of a tree that a reader sees.\<close>

definition seen_nodes :: "'a light_tree \<Rightarrow> 'a tree_cache \<Rightarrow> 'a tree_db \<Rightarrow> nat \<rightharpoonup> 'a" where
  "seen_nodes t c db k = visible c db (md_id (lt_metadata t), k)"

text \<open>
  The invariant: the data represent the leaves \<open>f\<close>, the metadata agree with them, and the proofs
  of the leaves in \<open>T\<close> can be found among the nodes a reader sees.
\<close>

definition tree_inv ::
    "'a \<Rightarrow> (nat \<Rightarrow> 'a) \<Rightarrow> nat set \<Rightarrow> 'a light_tree \<Rightarrow> (nat \<rightharpoonup> 'a) \<Rightarrow> bool" where
  "tree_inv zero f T t M \<longleftrightarrow>
     represents (tg_hasher (lt_config t)) zero (lt_depth t) f (lt_data t) \<and>
     md_end (lt_metadata t) = td_index (lt_data t) \<and>
     md_start (lt_metadata t) \<le> td_index (lt_data t) \<and>
     tracks (lt_depth t) (parentOf (tg_hasher (lt_config t))) (md_start (lt_metadata t)) f
       (td_index (lt_data t)) (td_siblings (lt_data t)) M T"

text \<open>The leaves a tree is asked to keep provable by an append of \<open>leaves\<close>.\<close>

definition tracked_leaves :: "'a light_tree \<Rightarrow> nat list \<Rightarrow> 'a leaf list \<Rightarrow> nat set" where
  "tracked_leaves t tracked leaves =
     kept (tg_fullSync (lt_config t)) (as_tracking (append_run t tracked leaves))"

lemma fold_cacheNode:
  "tc_nodes (fold (\<lambda>(k, v). cacheNode treeId k v) kvs c) key =
     (if tc_enabled c \<and> fst key = treeId then
        (case map_of (rev kvs) (snd key) of Some v \<Rightarrow> Some v | None \<Rightarrow> tc_nodes c key)
      else tc_nodes c key)
   \<and> tc_enabled (fold (\<lambda>(k, v). cacheNode treeId k v) kvs c) = tc_enabled c"
proof (induction kvs arbitrary: c)
  case Nil
  then show ?case by simp
next
  case (Cons p kvs)
  then show ?case
    by (cases p; cases key) (auto simp: cacheNode_def map_add_def split: option.splits)
qed

lemma lt_siblings_eq: "length (td_siblings (lt_data t)) = lt_depth t \<Longrightarrow>
    lt_siblings t = td_siblings (lt_data t)"
  by (simp add: lt_siblings_def)

context prehashed
begin

text \<open>What an append does to a tree that satisfies the invariant.\<close>

lemma append_run_sync:
  assumes tree: "tg_hasher (lt_config t) = h" "lt_depth t = depth"
    and inv: "tree_inv zero f (kept (tg_fullSync (lt_config t)) tracked) t M"
    and room: "latestLeafIndex t + length leaves \<le> 2 ^ depth"
    and tracked: "\<forall>i \<in> set tracked. i < 2 ^ depth"
  shows "tree_inv zero (append_leaves f (latestLeafIndex t) (map lf_hash leaves))
      (tracked_leaves t tracked leaves) (ao_tree (tree_append t c tracked leaves))
      (M ++ map_of (as_cached (append_run t tracked leaves)))"
    and "tg_fullSync (lt_config t) \<Longrightarrow> md_start (lt_metadata t) = 0 \<Longrightarrow>
      all_stored depth (parentOf h) f (latestLeafIndex t) M \<Longrightarrow>
      all_stored depth (parentOf h) (append_leaves f (latestLeafIndex t) (map lf_hash leaves))
        (latestLeafIndex t + length leaves) (M ++ map_of (as_cached (append_run t tracked leaves)))"
proof -
  let ?s = "\<lparr>as_root = lt_root t, as_siblings = lt_siblings t, as_cached = [], as_tracking = tracked\<rparr>"
  let ?s' = "append_run t tracked leaves"
  have sibs: "lt_siblings t = td_siblings (lt_data t)"
    by (rule lt_siblings_eq) (use inv tree in \<open>simp add: tree_inv_def represents_def\<close>)
  have "running (latestLeafIndex t) ?s = lt_data t"
    by (cases "lt_data t") (simp add: lt_root_def latestLeafIndex_def sibs)
  then have rep: "represents h zero depth f (running (latestLeafIndex t) ?s)"
    using inv tree by (simp add: tree_inv_def)
  have run: "?s' = append_loop h depth (tg_fullSync (lt_config t)) (latestLeafIndex t) leaves ?s"
    by (simp add: append_run_def tree)
  note all = append_loop_sync [OF rep room, of "md_start (lt_metadata t)" M
      "tg_fullSync (lt_config t)" ?s', OF _ _ _ run]
  have start: "md_start (lt_metadata t) \<le> latestLeafIndex t"
    using inv by (simp add: tree_inv_def latestLeafIndex_def)
  have tracks: "tracks depth (parentOf h) (md_start (lt_metadata t)) f (latestLeafIndex t)
      (as_siblings ?s) (M ++ map_of (as_cached ?s)) (kept (tg_fullSync (lt_config t)) (as_tracking ?s))"
    using inv tree by (simp add: tree_inv_def latestLeafIndex_def sibs)
  note outcome = all [OF start tracks, simplified append_state.simps, OF tracked]
  show "tree_inv zero (append_leaves f (latestLeafIndex t) (map lf_hash leaves))
      (tracked_leaves t tracked leaves) (ao_tree (tree_append t c tracked leaves))
      (M ++ map_of (as_cached ?s'))"
    using outcome tree start
    by (simp add: tree_inv_def tree_append_def Let_def tracked_leaves_def)
  show "all_stored depth (parentOf h) (append_leaves f (latestLeafIndex t) (map lf_hash leaves))
        (latestLeafIndex t + length leaves) (M ++ map_of (as_cached ?s'))"
    if "tg_fullSync (lt_config t)" and "md_start (lt_metadata t) = 0"
      and "all_stored depth (parentOf h) f (latestLeafIndex t) M"
    using outcome that by simp
qed

end

text \<open>After the commit a reader sees the collected nodes over the old ones.\<close>

lemma append_committed_nodes:
  assumes "\<not> tc_enabled c" and "\<not> tc_enabled c'"
  shows "seen_nodes t c' (commit (ao_ops (tree_append t c tracked leaves)) db) =
    seen_nodes t c db ++ map_of (as_cached (append_run t tracked leaves))"
proof -
  let ?kvs = "as_cached (append_run t tracked leaves)"
  have "distinct (map fst ?kvs)"
    unfolding append_run_def by (rule append_loop_distinct) simp
  then show ?thesis
    using assms
    by (auto simp: fun_eq_iff seen_nodes_def visible_def tree_append_def Let_def commit_nodes
        map_add_def split: option.splits)
qed

text \<open>Inside the transaction an enabled cache shows them before the commit.\<close>

lemma append_cached_nodes:
  assumes "tc_enabled c"
  shows "seen_nodes t (ao_cache (tree_append t c tracked leaves)) db =
    seen_nodes t c db ++ map_of (as_cached (append_run t tracked leaves))"
proof -
  let ?kvs = "as_cached (append_run t tracked leaves)"
  have "distinct (map fst ?kvs)"
    unfolding append_run_def by (rule append_loop_distinct) simp
  then have "map_of (rev ?kvs) = map_of ?kvs"
    using map_of_inject_set [of "rev ?kvs" ?kvs] by (simp flip: rev_map)
  then show ?thesis
    using assms
    by (auto simp: fun_eq_iff seen_nodes_def visible_def tree_append_def Let_def fold_cacheNode
        map_add_def split: option.splits)
qed

end
