(* ===== verification/Rollup_Merkle.thy ===== *)
theory Rollup_Merkle
  imports Rollup_Sync
begin

text \<open>
  The proofs a light tree hands out: the Merkle proof of a leaf, the proof of the next empty leaf, and
  the agreement of the dry run with the append.
\<close>

section \<open>Merkle proofs\<close>

context prehashed
begin

lemma block_empty:
  assumes "empty_from zero n f" and "k \<le> depth" and "n \<le> j * 2 ^ k"
  shows "mnode (parentOf h) f k j = preHash h ! k"
proof (rule mnode_empty [OF assms(2)])
  fix i assume "i div 2 ^ k = j"
  then have "j * 2 ^ k \<le> i" by (simp add: block_le_iff)
  with assms(3) assms(1) show "f i = zero" by (simp add: empty_from_def)
qed

lemma all_stored_siblings:
  assumes "all_stored depth (parentOf h) f n M" and "i < 2 ^ depth"
  shows "siblings_stored depth (parentOf h) f n M i"
  unfolding siblings_stored_def
proof (intro allI impI)
  fix l assume l: "l < depth" and "sib_pos (i div 2 ^ l) * 2 ^ l < n"
  moreover have "sib_pos (i div 2 ^ l) < 2 ^ (depth - l)"
    using l assms(2) by (intro sib_pos_bound div_bound) auto
  ultimately show "M (node_key depth l (sib_pos (i div 2 ^ l))) =
      Some (mnode (parentOf h) f l (sib_pos (i div 2 ^ l)))"
    using assms(1) unfolding all_stored_def by blast
qed

text \<open>One level of \<open>_getSiblings\<close> finds the sibling or knows that its subtree is empty.\<close>

lemma found_sibling:
  assumes stored: "siblings_stored depth (parentOf h) f n M i" and beyond: "nothing_beyond depth n M"
    and empty: "empty_from zero n f" and n: "n < 2 ^ depth" and i: "i < 2 ^ depth" and l: "l < depth"
  shows "(if drop_bit l (leaf_path depth n) < sibling_index (drop_bit l (leaf_path depth i))
      then preHash h ! l
      else case M (sibling_index (drop_bit l (leaf_path depth i))) of
          None \<Rightarrow> preHash h ! l | Some v \<Rightarrow> v) =
    mnode (parentOf h) f l (sib_pos (i div 2 ^ l))"
proof -
  let ?s = "sib_pos (i div 2 ^ l)"
  have path: "drop_bit l (leaf_path depth n) = node_key depth l (n div 2 ^ l)"
    using n l by (simp add: node_key_path)
  have sib: "sibling_index (drop_bit l (leaf_path depth i)) = node_key depth l ?s"
    using i l by (simp add: node_key_path sibling_node_key)
  have bound: "?s < 2 ^ (depth - l)"
    using i l by (intro sib_pos_bound div_bound) auto
  have less: "node_key depth l (n div 2 ^ l) < node_key depth l ?s \<longleftrightarrow> n div 2 ^ l < ?s"
    by (simp add: node_key_def)
  show ?thesis
  proof (cases "?s * 2 ^ l < n")
    case True
    then have "\<not> n div 2 ^ l < ?s" by (simp add: block_le_iff [symmetric] not_less less_imp_le)
    moreover have "M (node_key depth l ?s) = Some (mnode (parentOf h) f l ?s)"
      using stored l True unfolding siblings_stored_def by blast
    ultimately show ?thesis unfolding path sib less by simp
  next
    case False
    then have ge: "n \<le> ?s * 2 ^ l" by simp
    have "mnode (parentOf h) f l ?s = preHash h ! l"
      by (rule block_empty [OF empty _ ge]) (use l in simp)
    moreover have "M (node_key depth l ?s) = None"
      using beyond l bound ge unfolding nothing_beyond_def by blast
    ultimately show ?thesis unfolding path sib by simp
  qed
qed

lemma getSiblings_found:
  assumes tree: "tg_hasher (lt_config t) = h" "lt_depth t = depth"
    and n: "md_end (lt_metadata t) = n" "n < 2 ^ depth"
    and range: "md_start (lt_metadata t) \<le> i" "i < n"
    and stored: "siblings_stored depth (parentOf h) f n (seen_nodes t c db) i"
    and beyond: "nothing_beyond depth n (seen_nodes t c db)" and empty: "empty_from zero n f"
  shows "tree_getSiblings t c db i =
    Ok (map (\<lambda>l. mnode (parentOf h) f l (sib_pos (i div 2 ^ l))) [0..<depth])"
proof -
  have i: "i < 2 ^ depth" using range n by simp
  obtain found where found: "getCachedSiblings c db depth (md_id (lt_metadata t)) i = Ok found"
    using leaf_path_in_range [OF i] by (simp add: getCachedSiblings_def Let_def)
  have lookup: "map_of (rev found) (sibling_index (drop_bit l (leaf_path depth i))) =
      seen_nodes t c db (sibling_index (drop_bit l (leaf_path depth i)))" if "l < depth" for l
    using that unfolding getCachedSiblings_visible [OF found] seen_nodes_def by auto
  have cache: "sibling_cache t c db i = Ok (map_of (rev found))"
    using range n by (simp add: sibling_cache_def tree found)
  have "(let pathNodeIndex = drop_bit l (leaf_path depth i);
         siblingNodeIndex = sibling_index pathNodeIndex;
         usePreHashed = drop_bit l (leaf_path depth n) < siblingNodeIndex
       in if usePreHashed then preHash h ! l
          else case map_of (rev found) siblingNodeIndex of
              None \<Rightarrow> preHash h ! l | Some v \<Rightarrow> v) =
      mnode (parentOf h) f l (sib_pos (i div 2 ^ l))" if "l < depth" for l
    unfolding Let_def lookup [OF that] by (rule found_sibling [OF stored beyond empty n(2) i that])
  then show ?thesis
    unfolding tree_getSiblings_def cache bind_result.simps tree n by (auto intro!: map_cong)
qed

text \<open>So the Merkle proof of the true leaf is handed out.\<close>

lemma merkleProof_found:
  assumes "tree_getSiblings t c db i =
      Ok (map (\<lambda>l. mnode (parentOf h) f l (sib_pos (i div 2 ^ l))) [0..<depth])"
    and "tg_hasher (lt_config t) = h" and "lt_root t = mnode (parentOf h) f depth 0"
    and "i < 2 ^ depth"
  shows "tree_merkleProof t c db candidates (f i) (Some i) =
    Ok \<lparr>mp_root = lt_root t, mp_index = i, mp_leaf = f i,
      mp_siblings = map (\<lambda>l. mnode (parentOf h) f l (sib_pos (i div 2 ^ l))) [0..<depth]\<rparr>"
proof -
  have "merkleRoot h i (f i) (map (\<lambda>l. mnode (parentOf h) f l (sib_pos (i div 2 ^ l))) [0..<depth]) =
      mnode (parentOf h) f depth 0"
    by (rule merkleRoot_mnode) (use assms(4) in auto)
  with assms show ?thesis
    by (simp add: tree_merkleProof_def verifyProof_def)
qed

section \<open>The proof of the next leaf\<close>

lemma starting_siblings:
  fixes n :: nat
  shows "for_upto k (\<lambda>i (path, siblings).
      (drop_bit 1 path, if even path then siblings[i := preHash h ! i] else siblings)) (n, S) =
    (n div 2 ^ k, map (\<lambda>l. if l < k \<and> even (n div 2 ^ l) then preHash h ! l else S ! l)
      [0..<length S])"
proof (induction k)
  case 0
  then show ?case by (simp add: loop_simps map_nth)
next
  case (Suc k)
  show ?case
    unfolding for_upto_Suc Suc.IH div_two_power_Suc
    by (auto simp: drop_bit_1_div less_Suc_eq nth_list_update_if intro!: nth_equalityI)
qed

lemma getStartingLeafProof_siblings:
  assumes "tg_hasher (lt_config t) = h" and "lt_depth t = depth"
    and rep: "represents h zero depth f (lt_data t)"
  shows "length (td_siblings (getStartingLeafProof t)) = depth \<and>
    (\<forall>l < depth. td_siblings (getStartingLeafProof t) ! l =
      mnode (parentOf h) f l (sib_pos (td_index (lt_data t) div 2 ^ l)))"
proof -
  let ?n = "td_index (lt_data t)" and ?S = "td_siblings (lt_data t)"
  define S' where "S' = map (\<lambda>l. if l < depth \<and> even (?n div 2 ^ l) then preHash h ! l else ?S ! l)
    [0..<length ?S]"
  have S': "td_siblings (getStartingLeafProof t) = S'"
    unfolding getStartingLeafProof_def Let_def latestLeafIndex_def assms(1,2)
      starting_siblings snd_conv S'_def tree_data.simps ..
  have empty: "empty_from zero ?n f" and front: "frontier (parentOf h) f ?n ?S"
    and lenS: "length ?S = depth"
    using rep by (simp_all add: represents_def)
  have "S' ! l = mnode (parentOf h) f l (sib_pos (?n div 2 ^ l))" if l: "l < depth" for l
  proof (cases "even (?n div 2 ^ l)")
    case True
    have "mnode (parentOf h) f l (?n div 2 ^ l + 1) = preHash h ! l"
      by (rule right_empty [of ?n]) (use l empty_from_mono [OF empty, of "?n + 1"] in auto)
    with True l lenS show ?thesis by (simp add: S'_def sib_pos_def)
  next
    case False
    with front l lenS show ?thesis by (simp add: S'_def sib_pos_def frontier_def)
  qed
  then show ?thesis unfolding S' by (simp add: S'_def lenS)
qed

text \<open>True siblings of an index from which on the tree is empty pass the check of a starting leaf.\<close>

lemma startingLeafProof_mnode:
  assumes len: "length S = depth" and n: "n < 2 ^ depth" and empty: "empty_from zero n f"
    and sibs: "\<And>l. l < depth \<Longrightarrow> S ! l = mnode (parentOf h) f l (sib_pos (n div 2 ^ l))"
  shows "startingLeafProof h (mnode (parentOf h) f depth 0) n S"
proof -
  have "merkleRoot h n (f n) S = mnode (parentOf h) f depth 0"
    by (rule merkleRoot_mnode [OF len n sibs])
  moreover have "f n = preHash h ! 0"
    using empty by (simp add: empty_from_def preHash_0)
  moreover have "S ! l = preHash h ! l" if l: "l < depth" and "even (n div 2 ^ l)" for l
  proof -
    have "mnode (parentOf h) f l (n div 2 ^ l + 1) = preHash h ! l"
      by (rule right_empty [of n]) (use l empty_from_mono [OF empty, of "n + 1"] in auto)
    with that show ?thesis by (simp add: sibs sib_pos_def)
  qed
  ultimately show ?thesis
    unfolding startingLeafProof_iff by (simp add: len)
qed

lemma getStartingLeafProof_accepted:
  assumes "tg_hasher (lt_config t) = h" and "lt_depth t = depth"
    and rep: "represents h zero depth f (lt_data t)" and n: "td_index (lt_data t) < 2 ^ depth"
  shows "startingLeafProof h (td_root (getStartingLeafProof t)) (td_index (getStartingLeafProof t))
    (td_siblings (getStartingLeafProof t))"
proof -
  have "td_root (getStartingLeafProof t) = mnode (parentOf h) f depth 0"
    and "td_index (getStartingLeafProof t) = td_index (lt_data t)"
    using rep by (simp_all add: getStartingLeafProof_def Let_def lt_root_def latestLeafIndex_def
        represents_def)
  then show ?thesis
    using startingLeafProof_mnode [of _ "td_index (lt_data t)" f]
      getStartingLeafProof_siblings [OF assms(1-3)] rep n
    by (simp add: represents_def)
qed

end

section \<open>The dry run\<close>

lemma dry_append_loop_append_loop:
  "td_index dat = n \<Longrightarrow> td_root dat = as_root s \<Longrightarrow> td_siblings dat = as_siblings s \<Longrightarrow>
    dry_append_loop h depth leaves dat =
      (let s' = append_loop h depth fullSync n leaves s
       in \<lparr>td_root = as_root s', td_index = n + length leaves, td_siblings = as_siblings s'\<rparr>)"
proof (induction leaves arbitrary: dat n s)
  case Nil
  then show ?case by simp
next
  case (Cons leaf leaves)
  obtain r S where climb: "for_upto depth (climb_level h depth n) (lf_hash leaf, as_siblings s) = (r, S)"
    by fastforce
  then have one: "as_root (append_leaf h depth fullSync n leaf s) = r \<and>
      as_siblings (append_leaf h depth fullSync n leaf s) = S"
    using append_climb [of depth h depth fullSync
        "if lf_shouldTrack leaf then as_tracking s @ [n] else as_tracking s" n "lf_hash leaf"
        "as_siblings s" "as_cached s"]
    by (auto simp: append_leaf_def Let_def)
  have "dry_append_loop h depth leaves \<lparr>td_root = r, td_index = n + 1, td_siblings = S\<rparr> =
      (let s' = append_loop h depth fullSync (n + 1) leaves (append_leaf h depth fullSync n leaf s)
       in \<lparr>td_root = as_root s', td_index = n + 1 + length leaves, td_siblings = as_siblings s'\<rparr>)"
    by (rule Cons.IH) (simp_all add: one)
  with Cons.prems climb show ?case by (simp add: Let_def)
qed

lemma dryAppend_tree_append: "dryAppend t leaves = ao_result (tree_append t c tracked leaves)"
  unfolding dryAppend_def tree_append_def append_run_def Let_def
  by (subst dry_append_loop_append_loop [where n = "latestLeafIndex t"
        and fullSync = "tg_fullSync (lt_config t)"
        and s = "\<lparr>as_root = lt_root t, as_siblings = lt_siblings t, as_cached = [],
          as_tracking = tracked\<rparr>"])
    (simp_all add: Let_def)

end
