(* ===== verification/Rollup_History.thy ===== *)
theory Rollup_History
  imports Rollup_Merkle
begin

text \<open>
  The life of a light tree: it starts from a state that represents some leaves (the genesis, or a
  bootstrap from an accepted proof of the next empty leaf) and grows by committed appends. The properties
  of the tree are stated for every state it can reach.
\<close>

section \<open>Bootstrapping\<close>

context prehashed
begin

text \<open>A leaf right of \<open>n\<close> is below an even node of the path of \<open>n\<close>, as its right sibling.\<close>

lemma right_of_path:
  fixes n i :: nat
  assumes "n < i" and "i < 2 ^ d"
  obtains l where "l < d" "even (n div 2 ^ l)" "i div 2 ^ l = n div 2 ^ l + 1"
  using assms
proof (induction d arbitrary: i n thesis)
  case 0
  then show ?case by auto
next
  case (Suc d)
  show ?case
  proof (cases "even n \<and> i = n + 1")
    case True
    then show ?thesis using Suc.prems(1) [of 0] by simp
  next
    case False
    with Suc.prems(2) have "n div 2 < i div 2"
      by presburger
    moreover have "i div 2 < 2 ^ d" using Suc.prems(3) by auto
    ultimately obtain l where "l < d" "even (n div 2 div 2 ^ l)" "i div 2 div 2 ^ l = n div 2 div 2 ^ l + 1"
      using Suc.IH by blast
    then show ?thesis
      using Suc.prems(1) [of "Suc l"] by (simp add: div_mult2_eq)
  qed
qed

lemma starting_proof_represents:
  assumes inj: "\<And>a b a' b'. parentOf h a b = parentOf h a' b' \<Longrightarrow> a = a' \<and> b = b'"
    and accepted: "startingLeafProof h (td_root dat) (td_index dat) (td_siblings dat)"
    and len: "length (td_siblings dat) = depth" and n: "td_index dat < 2 ^ depth"
    and root: "td_root dat = mnode (parentOf h) f depth 0" and outside: "empty_from zero (2 ^ depth) f"
  shows "represents h zero depth f dat"
proof -
  let ?n = "td_index dat" and ?S = "td_siblings dat"
  let ?T = "map (\<lambda>l. mnode (parentOf h) f l (sib_pos (?n div 2 ^ l))) [0..<depth]"
  have right: "\<And>l. l < depth \<Longrightarrow> even (?n div 2 ^ l) \<Longrightarrow> ?S ! l = preHash h ! l"
    and climb: "merkleRoot h ?n (preHash h ! 0) ?S = td_root dat"
    using accepted len unfolding startingLeafProof_iff by auto
  have "merkleRoot h ?n (f ?n) ?T = mnode (parentOf h) f depth 0"
    by (rule merkleRoot_mnode) (use n in auto)
  then have "f ?n = preHash h ! 0 \<and> ?T = ?S"
    by (intro merkleRoot_inj [where S = ?T and T = ?S and i = ?n and h = h, OF inj]) (use climb root len in auto)
  then have fn: "f ?n = zero" and "?S = ?T" by (simp_all add: preHash_0)
  then have S: "?S ! l = mnode (parentOf h) f l (sib_pos (?n div 2 ^ l))" if "l < depth" for l
    using that by simp
  have "f i = zero" if "?n \<le> i" for i
  proof (cases "i = ?n \<or> 2 ^ depth \<le> i")
    case True
    with fn outside show ?thesis by (auto simp: empty_from_def)
  next
    case False
    with that have "?n < i" and "i < 2 ^ depth" by auto
    then obtain l where l: "l < depth" "even (?n div 2 ^ l)" "i div 2 ^ l = ?n div 2 ^ l + 1"
      by (rule right_of_path)
    have "mnode (parentOf h) f l (i div 2 ^ l) = mnode (parentOf h) (\<lambda>_. zero) l (i div 2 ^ l)"
      using S [OF l(1)] right [OF l(1,2)] l by (simp add: sib_pos_def mnode_empty)
    from mnode_inj [OF inj this] show ?thesis by simp
  qed
  moreover have "frontier (parentOf h) f ?n ?S"
    unfolding frontier_def using S len by (auto simp: sib_pos_def)
  ultimately show ?thesis
    using len n root by (simp add: represents_def empty_from_def)
qed

end

section \<open>Reachable states\<close>

text \<open>
  \<open>tree_history h zero sync f T t db\<close>: the tree \<open>t\<close> with the committed database \<open>db\<close> holds the
  leaves \<open>f\<close> and was asked all along to keep the leaves \<open>T\<close> provable. Every append runs inside a
  database transaction, its writes are committed, and it tracks only leaves that were tracked before or
  are marked now. Between the appends other parts of the program may write anything but the nodes of
  this tree.
\<close>

inductive tree_history ::
    "'a hasher \<Rightarrow> 'a \<Rightarrow> bool \<Rightarrow> (nat \<Rightarrow> 'a) \<Rightarrow> nat set \<Rightarrow> 'a light_tree \<Rightarrow> 'a tree_db \<Rightarrow> bool"
  for h :: "'a hasher" and zero :: 'a and sync :: bool where
  start: "tg_hasher (lt_config t) = h \<Longrightarrow> tg_fullSync (lt_config t) = sync \<Longrightarrow>
    represents h zero (lt_depth t) f (lt_data t) \<Longrightarrow>
    md_start (lt_metadata t) = latestLeafIndex t \<Longrightarrow> md_end (lt_metadata t) = latestLeafIndex t \<Longrightarrow>
    (\<And>k. tree_nodes db (md_id (lt_metadata t), k) = None) \<Longrightarrow>
    tree_history h zero sync f UNIV t db"
| grow: "tree_history h zero sync f T t db \<Longrightarrow>
    kept sync tracked \<subseteq> T \<Longrightarrow> (\<forall>i \<in> set tracked. i < 2 ^ lt_depth t) \<Longrightarrow>
    latestLeafIndex t + length leaves \<le> 2 ^ lt_depth t \<Longrightarrow>
    out = tree_append t new_tree_cache tracked leaves \<Longrightarrow>
    tree_history h zero sync (append_leaves f (latestLeafIndex t) (map lf_hash leaves))
      (tracked_leaves t tracked leaves)
      (ao_tree out) (commit (ao_ops out) db)"
| elsewhere: "tree_history h zero sync f T t db \<Longrightarrow>
    (\<And>k. tree_nodes db' (md_id (lt_metadata t), k) = tree_nodes db (md_id (lt_metadata t), k)) \<Longrightarrow>
    tree_history h zero sync f T t db'"

inductive_cases tree_historyE: "tree_history h zero sync f T t db"

lemma tree_inv_mono: "tree_inv zero f T t M \<Longrightarrow> T' \<subseteq> T \<Longrightarrow> tree_inv zero f T' t M"
  unfolding tree_inv_def tracks_def by blast

lemma seen_nodes_new_cache: "seen_nodes t new_tree_cache db k = tree_nodes db (md_id (lt_metadata t), k)"
  by (simp add: seen_nodes_def visible_def new_tree_cache_def)

lemma tree_append_fields:
  "lt_depth (ao_tree (tree_append t c tracked leaves)) = lt_depth t"
  "lt_config (ao_tree (tree_append t c tracked leaves)) = lt_config t"
  "md_id (lt_metadata (ao_tree (tree_append t c tracked leaves))) = md_id (lt_metadata t)"
  "md_start (lt_metadata (ao_tree (tree_append t c tracked leaves))) = md_start (lt_metadata t)"
  "md_end (lt_metadata (ao_tree (tree_append t c tracked leaves))) = latestLeafIndex t + length leaves"
  "latestLeafIndex (ao_tree (tree_append t c tracked leaves)) = latestLeafIndex t + length leaves"
  by (simp_all add: tree_append_def Let_def latestLeafIndex_def)

lemma seen_nodes_append:
  "seen_nodes (ao_tree (tree_append t c tracked leaves)) c' db = seen_nodes t c' db"
  by (simp add: seen_nodes_def fun_eq_iff tree_append_fields)


lemma tree_history_inv:
  assumes "tree_history h zero sync f T t db" and "prehashed h zero (lt_depth t)"
  shows "tg_hasher (lt_config t) = h \<and> tg_fullSync (lt_config t) = sync \<and>
    tree_inv zero f T t (seen_nodes t new_tree_cache db)"
  using assms
proof induction
  case (start t f db)
  then show ?case
    by (auto simp: tree_inv_def tracks_def nothing_beyond_def seen_nodes_new_cache latestLeafIndex_def)
next
  case (grow f T t db tracked leaves out)
  from grow.prems have pre: "prehashed h zero (lt_depth t)"
    by (simp add: grow.hyps tree_append_fields)
  note before = grow.IH [OF pre]
  have "tree_inv zero (append_leaves f (latestLeafIndex t) (map lf_hash leaves))
      (tracked_leaves t tracked leaves) (ao_tree out)
      (seen_nodes t new_tree_cache db ++ map_of (as_cached (append_run t tracked leaves)))"
    unfolding grow.hyps
    by (rule prehashed.append_run_sync(1) [OF pre]) (use before grow.hyps tree_inv_mono in auto)
  moreover have "seen_nodes (ao_tree out) new_tree_cache (commit (ao_ops out) db) =
      seen_nodes t new_tree_cache db ++ map_of (as_cached (append_run t tracked leaves))"
    unfolding grow.hyps seen_nodes_append
    by (rule append_committed_nodes) (simp_all add: new_tree_cache_def)
  ultimately show ?case
    using before by (simp add: grow.hyps tree_append_fields)
next
  case (elsewhere f T t db db')
  have "seen_nodes t new_tree_cache db' = seen_nodes t new_tree_cache db"
    using elsewhere.hyps(2) by (simp add: fun_eq_iff seen_nodes_new_cache)
  with elsewhere show ?case by simp
qed

text \<open>A tree in full-sync mode that started empty has every node.\<close>

lemma tree_history_all_stored:
  assumes "tree_history h zero sync f T t db" and "sync" and "prehashed h zero (lt_depth t)"
    and "md_start (lt_metadata t) = 0"
  shows "all_stored (lt_depth t) (parentOf h) f (latestLeafIndex t) (seen_nodes t new_tree_cache db)"
  using assms
proof induction
  case (start t f db)
  then show ?case by (simp add: all_stored_def)
next
  case (grow f T t db tracked leaves out)
  from grow.prems have pre: "prehashed h zero (lt_depth t)" and zero_start: "md_start (lt_metadata t) = 0"
    by (simp_all add: grow.hyps tree_append_fields)
  note before = tree_history_inv [OF grow.hyps(1) pre]
  have "seen_nodes (ao_tree out) new_tree_cache (commit (ao_ops out) db) =
      seen_nodes t new_tree_cache db ++ map_of (as_cached (append_run t tracked leaves))"
    unfolding grow.hyps seen_nodes_append
    by (rule append_committed_nodes) (simp_all add: new_tree_cache_def)
  moreover have "all_stored (lt_depth t) (parentOf h)
      (append_leaves f (latestLeafIndex t) (map lf_hash leaves)) (latestLeafIndex t + length leaves)
      (seen_nodes t new_tree_cache db ++ map_of (as_cached (append_run t tracked leaves)))"
    by (rule prehashed.append_run_sync(2) [OF pre])
      (use before grow.hyps grow.prems(1) zero_start grow.IH [OF grow.prems(1) pre zero_start] tree_inv_mono in auto)
  ultimately show ?case by (simp add: grow.hyps tree_append_fields)
next
  case (elsewhere f T t db db')
  have "seen_nodes t new_tree_cache db' = seen_nodes t new_tree_cache db"
    using elsewhere.hyps(2) by (simp add: fun_eq_iff seen_nodes_new_cache)
  with elsewhere show ?case by simp
qed


section \<open>Properties\<close>

text \<open>The invariant of a history over the hashers of the trees.\<close>

lemma history_facts:
  assumes "tree_history (hasher_of zero p (lt_depth t)) zero sync f T t db"
  shows "tg_hasher (lt_config t) = hasher_of zero p (lt_depth t)"
    and "tg_fullSync (lt_config t) = sync"
    and "represents (hasher_of zero p (lt_depth t)) zero (lt_depth t) f (lt_data t)"
    and "md_end (lt_metadata t) = latestLeafIndex t"
    and "tracks (lt_depth t) p (md_start (lt_metadata t)) f (latestLeafIndex t)
      (td_siblings (lt_data t)) (seen_nodes t new_tree_cache db) T"
    and "lt_root t = mnode p f (lt_depth t) 0"
proof -
  have "tg_hasher (lt_config t) = hasher_of zero p (lt_depth t) \<and>
      tg_fullSync (lt_config t) = sync \<and> tree_inv zero f T t (seen_nodes t new_tree_cache db)"
    by (rule tree_history_inv [OF assms standard.prehashed_axioms])
  then have hasher: "tg_hasher (lt_config t) = hasher_of zero p (lt_depth t)"
    and sync: "tg_fullSync (lt_config t) = sync"
    and inv: "tree_inv zero f T t (seen_nodes t new_tree_cache db)"
    by blast+
  show "tg_hasher (lt_config t) = hasher_of zero p (lt_depth t)" by (rule hasher)
  show "tg_fullSync (lt_config t) = sync" by (rule sync)
  show rep: "represents (hasher_of zero p (lt_depth t)) zero (lt_depth t) f (lt_data t)"
    and "md_end (lt_metadata t) = latestLeafIndex t"
    and "tracks (lt_depth t) p (md_start (lt_metadata t)) f (latestLeafIndex t)
      (td_siblings (lt_data t)) (seen_nodes t new_tree_cache db) T"
    using inv unfolding tree_inv_def hasher latestLeafIndex_def parentOf_hasher_of by blast+
  show "lt_root t = mnode p f (lt_depth t) 0"
    using rep by (simp add: represents_def lt_root_def)
qed

lemma history_provable:
  assumes hist: "tree_history (hasher_of zero p (lt_depth t)) zero sync f T t db"
    and range: "md_start (lt_metadata t) \<le> i" "i < latestLeafIndex t"
    and room: "latestLeafIndex t < 2 ^ lt_depth t"
    and stored: "siblings_stored (lt_depth t) p f (latestLeafIndex t)
      (seen_nodes t new_tree_cache db) i"
  shows "tree_merkleProof t new_tree_cache db candidates (f i) (Some i) =
    Ok \<lparr>mp_root = mnode p f (lt_depth t) 0, mp_index = i, mp_leaf = f i,
      mp_siblings = map (\<lambda>l. mnode p f l (sib_pos (i div 2 ^ l))) [0..<lt_depth t]\<rparr>"
proof -
  note facts = history_facts [OF hist]
  have beyond: "nothing_beyond (lt_depth t) (latestLeafIndex t) (seen_nodes t new_tree_cache db)"
    using facts(5) by (simp add: tracks_def)
  have empty: "empty_from zero (latestLeafIndex t) f"
    using facts(3) by (simp add: represents_def latestLeafIndex_def)
  have sibs: "tree_getSiblings t new_tree_cache db i =
      Ok (map (\<lambda>l. mnode p f l (sib_pos (i div 2 ^ l))) [0..<lt_depth t])"
    by (rule standard.getSiblings_found [OF facts(1) refl facts(4) room range _ beyond empty,
          unfolded parentOf_hasher_of, OF stored])
  have "i < 2 ^ lt_depth t" using range room by simp
  with standard.merkleProof_found [unfolded parentOf_hasher_of, OF sibs facts(1) facts(6)] facts(6)
  show ?thesis by simp
qed

text \<open>The dry run represents the tree with the new leaves.\<close>

lemma dryAppend_represents:
  assumes "tg_hasher (lt_config t) = hasher_of zero p (lt_depth t)"
    and "represents (hasher_of zero p (lt_depth t)) zero (lt_depth t) f (lt_data t)"
    and "latestLeafIndex t + length leaves \<le> 2 ^ lt_depth t"
  shows "represents (hasher_of zero p (lt_depth t)) zero (lt_depth t)
      (append_leaves f (latestLeafIndex t) (map lf_hash leaves)) (dryAppend t leaves) \<and>
    td_index (dryAppend t leaves) = latestLeafIndex t + length leaves"
proof -
  have "lt_siblings t = td_siblings (lt_data t)"
    by (rule lt_siblings_eq) (use assms(2) in \<open>simp add: represents_def\<close>)
  then have dry: "dryAppend t leaves =
      dry_append_loop (hasher_of zero p (lt_depth t)) (lt_depth t) leaves (lt_data t)"
    by (cases "lt_data t") (simp add: dryAppend_def assms(1) lt_root_def latestLeafIndex_def)
  show ?thesis
    using standard.dry_append_loop_represents [OF assms(2)] assms(3)
    unfolding latestLeafIndex_def dry by blast
qed

text \<open>C1: A tree that is not full can prove the leaves it was asked to track. In every state with
  less than 2 ^ depth leaves that a tree reaches by committed appends, the Merkle proof of a tracked leaf
  that is not the last one and does not lie before the start of the tree is handed out, with the
  siblings of the mathematical tree and the tree's current root. A full tree is excluded: it refuses
  the proof of its first leaf.\<close>

theorem tracked_leaf_provable:
  assumes "tree_history (hasher_of zero p (lt_depth t)) zero sync f T t db"
    and "i \<in> T" and "md_start (lt_metadata t) \<le> i" and "i + 1 < latestLeafIndex t"
    and "latestLeafIndex t < 2 ^ lt_depth t"
  shows "tree_merkleProof t new_tree_cache db candidates (f i) (Some i) =
    Ok \<lparr>mp_root = lt_root t, mp_index = i, mp_leaf = f i,
      mp_siblings = map (\<lambda>l. mnode p f l (sib_pos (i div 2 ^ l))) [0..<lt_depth t]\<rparr>"
proof -
  have "siblings_stored (lt_depth t) p f (latestLeafIndex t) (seen_nodes t new_tree_cache db) i"
    using history_facts(5) [OF assms(1)] assms(2-4) unfolding tracks_def by simp
  with history_provable [OF assms(1,3) _ assms(5)] assms(4) show ?thesis
    unfolding history_facts(6) [OF assms(1)] by simp
qed

text \<open>a full-sync tree that started empty proves every leaf it holds, the last one included.\<close>

theorem full_sync_leaf_provable:
  assumes "tree_history (hasher_of zero p (lt_depth t)) zero True f T t db"
    and "md_start (lt_metadata t) = 0" and "i < latestLeafIndex t"
    and "latestLeafIndex t < 2 ^ lt_depth t"
  shows "tree_merkleProof t new_tree_cache db candidates (f i) (Some i) =
    Ok \<lparr>mp_root = lt_root t, mp_index = i, mp_leaf = f i,
      mp_siblings = map (\<lambda>l. mnode p f l (sib_pos (i div 2 ^ l))) [0..<lt_depth t]\<rparr>"
proof -
  have "all_stored (lt_depth t) p f (latestLeafIndex t) (seen_nodes t new_tree_cache db)"
    using tree_history_all_stored [OF assms(1) _ standard.prehashed_axioms assms(2)]
    unfolding parentOf_hasher_of by blast
  moreover have "i < 2 ^ lt_depth t" using assms(3,4) by simp
  ultimately have
    "siblings_stored (lt_depth t) p f (latestLeafIndex t) (seen_nodes t new_tree_cache db) i"
    by (rule standard.all_stored_siblings [unfolded parentOf_hasher_of])
  with history_provable [OF assms(1) _ assms(3,4)] assms(2) show ?thesis
    unfolding history_facts(6) [OF assms(1)] by simp
qed

text \<open>C2: appending computes the root of the tree with the new leaves written after the old ones,
  whatever it was asked to track, and keeps the siblings the next append needs.\<close>

theorem append_root_correct:
  assumes "tg_hasher (lt_config t) = hasher_of zero p (lt_depth t)"
    and "represents (hasher_of zero p (lt_depth t)) zero (lt_depth t) f (lt_data t)"
    and "latestLeafIndex t + length leaves \<le> 2 ^ lt_depth t"
  shows "td_root (ao_result (tree_append t c tracked leaves)) =
      mnode p (append_leaves f (latestLeafIndex t) (map lf_hash leaves)) (lt_depth t) 0 \<and>
    td_index (ao_result (tree_append t c tracked leaves)) = latestLeafIndex t + length leaves \<and>
    represents (hasher_of zero p (lt_depth t)) zero (lt_depth t)
      (append_leaves f (latestLeafIndex t) (map lf_hash leaves))
      (lt_data (ao_tree (tree_append t c tracked leaves)))"
proof -
  have dat: "lt_data (ao_tree (tree_append t c tracked leaves)) =
      ao_result (tree_append t c tracked leaves)"
    by (simp add: tree_append_def Let_def)
  show ?thesis
    using dryAppend_represents [OF assms]
    unfolding dat dryAppend_tree_append [of t leaves c tracked] represents_def parentOf_hasher_of
    by blast
qed

text \<open>C3: the dry run predicts the append: root, index and siblings are those the append leads to,
  for every tree, cache and list of tracked leaves.\<close>

theorem dry_append_predicts_append:
  "dryAppend t leaves = ao_result (tree_append t c tracked leaves)"
  by (rule dryAppend_tree_append)

text \<open>C4: no false membership. Where the parent function has no collisions, a proof that verifies
  against the root of the tree has the leaf and the siblings that the tree has at its index.\<close>

theorem verified_leaf_is_member:
  assumes "\<And>a b a' b'. p a b = p a' b' \<Longrightarrow> a = a' \<and> b = b'"
    and "tree_history (hasher_of zero p (lt_depth t)) zero sync f T t db"
    and "verifyProof (hasher_of zero p (lt_depth t)) prf" and "mp_root prf = lt_root t"
    and "length (mp_siblings prf) = lt_depth t" and "mp_index prf < 2 ^ lt_depth t"
  shows "mp_leaf prf = f (mp_index prf) \<and>
    mp_siblings prf = map (\<lambda>l. mnode p f l (sib_pos (mp_index prf div 2 ^ l))) [0..<lt_depth t]"
proof -
  let ?h = "hasher_of zero p (lt_depth t)"
  let ?S = "map (\<lambda>l. mnode p f l (sib_pos (mp_index prf div 2 ^ l))) [0..<lt_depth t]"
  have "merkleRoot ?h (mp_index prf) (f (mp_index prf)) ?S = mnode (parentOf ?h) f (lt_depth t) 0"
    by (rule merkleRoot_mnode) (use assms(6) in auto)
  then have "merkleRoot ?h (mp_index prf) (mp_leaf prf) (mp_siblings prf) =
      merkleRoot ?h (mp_index prf) (f (mp_index prf)) ?S"
    using assms(3,4) history_facts(6) [OF assms(2)] by (simp add: verifyProof_def)
  moreover have "length (mp_siblings prf) = length ?S" using assms(5) by simp
  ultimately show ?thesis
    using merkleRoot_inj [where h = ?h, unfolded parentOf_hasher_of, OF assms(1)] by blast
qed

text \<open>the proof of the next leaf that a tree publishes is accepted by the check of a
  bootstrapping node.\<close>

theorem published_starting_leaf_accepted:
  assumes "tree_history (hasher_of zero p (lt_depth t)) zero sync f T t db"
    and "latestLeafIndex t < 2 ^ lt_depth t"
  shows "startingLeafProof (hasher_of zero p (lt_depth t)) (td_root (getStartingLeafProof t))
      (td_index (getStartingLeafProof t)) (td_siblings (getStartingLeafProof t)) \<and>
    td_root (getStartingLeafProof t) = lt_root t \<and>
    td_index (getStartingLeafProof t) = latestLeafIndex t"
  using standard.getStartingLeafProof_accepted [OF history_facts(1) [OF assms(1)] refl
      history_facts(3) [OF assms(1)]] assms(2)
  by (simp add: latestLeafIndex_def getStartingLeafProof_def Let_def)

text \<open>C5: bootstrapping is sound. Without collisions of the parent function, data that pass the
  check of a starting leaf against the root of a tree represent that tree: the leaves from the index
  on are empty, and the siblings are the frontier that further appends need.\<close>

theorem accepted_bootstrap_represents:
  assumes "\<And>a b a' b'. p a b = p a' b' \<Longrightarrow> a = a' \<and> b = b'"
    and "initTreeFromDatabase db species metadata dat config = Ok (db', metadata')"
    and "tg_hasher config = hasher_of zero p (length (td_siblings dat))"
    and "td_index dat < 2 ^ length (td_siblings dat)"
    and "td_root dat = mnode p f (length (td_siblings dat)) 0"
    and "empty_from zero (2 ^ length (td_siblings dat)) f"
  shows "represents (hasher_of zero p (length (td_siblings dat))) zero (length (td_siblings dat)) f dat \<and>
    md_start metadata' = td_index dat \<and> md_end metadata' = td_index dat"
proof -
  have "startingLeafProof (hasher_of zero p (length (td_siblings dat))) (td_root dat) (td_index dat)
      (td_siblings dat)"
    using assms(2,3) by (simp add: initTreeFromDatabase_def split: if_splits)
  then have "represents (hasher_of zero p (length (td_siblings dat))) zero (length (td_siblings dat))
      f dat"
    using standard.starting_proof_represents [where p = p, unfolded parentOf_hasher_of,
        OF assms(1) _ refl assms(4-6)] by blast
  moreover have "md_start metadata' = td_index dat \<and> md_end metadata' = td_index dat"
    using assms(2) by (auto simp: initTreeFromDatabase_def Let_def split: if_splits)
  ultimately show ?thesis ..
qed

text \<open>C40: With a collision-free parent function a full tree that started empty can no longer prove its
  first leaf when the second one is not empty: the bound for empty subtrees overflows into the depth bit,
  the sibling is taken for empty, and the proof is refused.\<close>

theorem full_tree_refuses_first_leaf:
  assumes "\<And>a b a' b'. p a b = p a' b' \<Longrightarrow> a = a' \<and> b = b'"
    and "tree_history (hasher_of zero p (lt_depth t)) zero sync f T t db"
    and "md_start (lt_metadata t) = 0" and "0 < lt_depth t"
    and "latestLeafIndex t = 2 ^ lt_depth t" and "f 1 \<noteq> zero"
  shows "tree_merkleProof t new_tree_cache db candidates (f 0) (Some 0) =
    Throw ''Created invalid merkle proof''"
proof -
  let ?h = "hasher_of zero p (lt_depth t)"
  note facts = history_facts [OF assms(2)]
  obtain found where found:
    "getCachedSiblings new_tree_cache db (lt_depth t) (md_id (lt_metadata t)) 0 = Ok found"
    using leaf_path_in_range [of 0 "lt_depth t"] by (simp add: getCachedSiblings_def Let_def)
  then have cache: "sibling_cache t new_tree_cache db 0 = Ok (map_of (rev found))"
    using facts(4) assms(3,5) by (simp add: sibling_cache_def)
  then obtain S where S: "tree_getSiblings t new_tree_cache db 0 = Ok S" "length S = lt_depth t"
    by (simp add: tree_getSiblings_def)
  have end_path: "leaf_path (lt_depth t) (2 ^ lt_depth t) = 2 ^ lt_depth t"
    by (simp add: leaf_path_def)
  have sib: "sibling_index (leaf_path (lt_depth t) 0) = 2 ^ lt_depth t + 1"
    using assms(4) by (simp add: leaf_path_def sibling_index_even)
  have S0: "S ! 0 = zero"
    using S(1) assms(4,5) facts(1,4)
    by (auto simp: tree_getSiblings_def cache Let_def end_path sib standard.preHash_0)
  let ?T = "map (\<lambda>l. mnode p f l (sib_pos (0 div 2 ^ l))) [0..<lt_depth t]"
  have root: "merkleRoot ?h 0 (f 0) ?T = lt_root t"
    unfolding facts(6) by (rule merkleRoot_mnode [where h = ?h, unfolded parentOf_hasher_of]) auto
  have "?T ! 0 = f 1" using assms(4) by (simp add: sib_pos_def)
  with S0 assms(6) have "S \<noteq> ?T" by auto
  have "merkleRoot ?h 0 (f 0) S \<noteq> lt_root t"
  proof
    assume "merkleRoot ?h 0 (f 0) S = lt_root t"
    with root have "merkleRoot ?h 0 (f 0) S = merkleRoot ?h 0 (f 0) ?T" by simp
    with merkleRoot_inj [where h = ?h, unfolded parentOf_hasher_of, OF assms(1)] S(2)
    have "S = ?T" by (metis (no_types, lifting) length_map length_upt minus_nat.diff_0)
    with \<open>S \<noteq> ?T\<close> show False ..
  qed
  then show ?thesis
    by (simp add: tree_merkleProof_def S(1) verifyProof_def facts(1))
qed

section \<open>Witnesses\<close>

text \<open>A tree of depth 2 over the free hash, an append of three leaves of which the first is
  tracked, and an append of four, which fills it.\<close>

definition sample_tree :: "bool \<Rightarrow> term_hash light_tree" where
  "sample_tree sync = new_light_tree 0 \<lparr>md_id = ''utxo'', md_species = 0, md_start = 0, md_end = 0\<rparr>
     \<lparr>td_root = genesisRoot (term_hasher 2), td_index = 0, td_siblings = [HLeaf 0, HLeaf 0]\<rparr>
     \<lparr>tg_hasher = term_hasher 2, tg_forceUpdate = True, tg_fullSync = sync\<rparr>"

definition sample_leaves :: "term_hash leaf list" where
  "sample_leaves = [\<lparr>lf_hash = HLeaf 5, lf_shouldTrack = True\<rparr>,
     \<lparr>lf_hash = HLeaf 6, lf_shouldTrack = False\<rparr>, \<lparr>lf_hash = HLeaf 7, lf_shouldTrack = False\<rparr>,
     \<lparr>lf_hash = HLeaf 8, lf_shouldTrack = False\<rparr>]"

definition sample_db :: "term_hash tree_db" where
  "sample_db = \<lparr>tree_nodes = Map.empty, light_rows = Map.empty,
    bootstrap_rows = [], block_rows = []\<rparr>"

definition sample_out :: "bool \<Rightarrow> nat \<Rightarrow> term_hash append_outcome" where
  "sample_out sync k = tree_append (sample_tree sync) new_tree_cache [] (take k sample_leaves)"

lemma sample_fields [simp]:
  "lt_depth (sample_tree sync) = 2" "latestLeafIndex (sample_tree sync) = 0"
  "md_start (lt_metadata (sample_tree sync)) = 0" "length sample_leaves = 4"
  "lt_depth (ao_tree (sample_out sync k)) = 2"
  "md_start (lt_metadata (ao_tree (sample_out sync k))) = 0"
  "latestLeafIndex (ao_tree (sample_out sync k)) = min k 4"
  by (simp_all add: sample_tree_def new_light_tree_def latestLeafIndex_def sample_leaves_def
      sample_out_def tree_append_def Let_def min.commute)

lemma sample_represents:
  "represents (hasher_of (HLeaf 0) HNode 2) (HLeaf 0) 2 (\<lambda>_. HLeaf 0) (lt_data (sample_tree sync))"
  using standard.represents_genesis [of "[HLeaf 0, HLeaf 0]" 2 "HLeaf 0" HNode]
  by (simp add: sample_tree_def new_light_tree_def term_hasher_def)

lemma sample_start: "tree_history (hasher_of (HLeaf 0) HNode 2) (HLeaf 0) sync (\<lambda>_. HLeaf 0) UNIV
    (sample_tree sync) sample_db"
  by (rule tree_history.start)
    (simp_all add: sample_represents, simp_all add: sample_tree_def new_light_tree_def
      term_hasher_def sample_db_def latestLeafIndex_def)

lemma sample_history: "k \<le> 4 \<Longrightarrow>
    tree_history (hasher_of (HLeaf 0) HNode 2) (HLeaf 0) sync
      (append_leaves (\<lambda>_. HLeaf 0) 0 (map lf_hash (take k sample_leaves)))
      (tracked_leaves (sample_tree sync) [] (take k sample_leaves)) (ao_tree (sample_out sync k))
      (commit (ao_ops (sample_out sync k)) sample_db)"
  using tree_history.grow [OF sample_start, of sync "[]" "take k sample_leaves" "sample_out sync k"]
  by (simp add: sample_out_def)

lemma append_leaf_tracking:
  "as_tracking (append_leaf h d sync n leaf s) =
    (if lf_shouldTrack leaf then as_tracking s @ [n] else as_tracking s)"
  by (simp add: append_leaf_def Let_def split: prod.splits)

lemma sample_tracked: "0 \<in> tracked_leaves (sample_tree sync) [] (take 3 sample_leaves)"
  by (simp add: tracked_leaves_def append_run_def sample_leaves_def kept_def append_leaf_tracking
      numeral_3_eq_3)

lemma HNode_inj: "HNode a b = HNode a' b' \<Longrightarrow> a = a' \<and> b = b'"
  by simp

theorem tracked_leaf_provable_witness:
  "\<exists>prf. tree_merkleProof (ao_tree (sample_out False 3)) new_tree_cache
     (commit (ao_ops (sample_out False 3)) sample_db) [] (HLeaf 5) (Some 0) = Ok prf"
  using tracked_leaf_provable [of "HLeaf 0" HNode "ao_tree (sample_out False 3)" False
      "append_leaves (\<lambda>_. HLeaf 0) 0 (map lf_hash (take 3 sample_leaves))"
      "tracked_leaves (sample_tree False) [] (take 3 sample_leaves)"
      "commit (ao_ops (sample_out False 3)) sample_db" 0 "[]"]
    sample_history [of 3 False] sample_tracked [of False]
  by (simp add: append_leaves_nth sample_leaves_def)

theorem full_sync_leaf_provable_witness:
  "\<exists>prf. tree_merkleProof (ao_tree (sample_out True 3)) new_tree_cache
     (commit (ao_ops (sample_out True 3)) sample_db) [] (HLeaf 7) (Some 2) = Ok prf"
  using full_sync_leaf_provable [of "HLeaf 0" HNode "ao_tree (sample_out True 3)"
      "append_leaves (\<lambda>_. HLeaf 0) 0 (map lf_hash (take 3 sample_leaves))"
      "tracked_leaves (sample_tree True) [] (take 3 sample_leaves)"
      "commit (ao_ops (sample_out True 3)) sample_db" 2 "[]"]
    sample_history [of 3 True]
  by (simp add: append_leaves_nth sample_leaves_def)

theorem append_root_correct_witness:
  "td_root (ao_result (sample_out False 3)) =
     HNode (HNode (HLeaf 5) (HLeaf 6)) (HNode (HLeaf 7) (HLeaf 0))"
  using append_root_correct [of "sample_tree False" "HLeaf 0" HNode "\<lambda>_. HLeaf 0"
      "take 3 sample_leaves" new_tree_cache "[]"] sample_represents [of False]
  by (simp add: sample_out_def, simp add: sample_tree_def new_light_tree_def term_hasher_def
      append_leaves_nth sample_leaves_def numeral_2_eq_2)

theorem verified_leaf_is_member_witness:
  "append_leaves (\<lambda>_. HLeaf 0) 0 (map lf_hash (take 3 sample_leaves)) 1 = HLeaf 6"
  using verified_leaf_is_member [of HNode "HLeaf 0" "ao_tree (sample_out False 3)" False
      "append_leaves (\<lambda>_. HLeaf 0) 0 (map lf_hash (take 3 sample_leaves))"
      "tracked_leaves (sample_tree False) [] (take 3 sample_leaves)"
      "commit (ao_ops (sample_out False 3)) sample_db"
      "\<lparr>mp_root = lt_root (ao_tree (sample_out False 3)), mp_index = 1, mp_leaf = HLeaf 6,
        mp_siblings = [HLeaf 5, HNode (HLeaf 7) (HLeaf 0)]\<rparr>"]
    sample_history [of 3 False] history_facts(6) [of "HLeaf 0" HNode "ao_tree (sample_out False 3)"]
  by (simp add: verifyProof_def drop_bit_1_div append_leaves_nth sample_leaves_def numeral_2_eq_2)

theorem published_starting_leaf_accepted_witness:
  "startingLeafProof (hasher_of (HLeaf 0) HNode 2)
     (lt_root (ao_tree (sample_out False 3))) 3
     (td_siblings (getStartingLeafProof (ao_tree (sample_out False 3))))"
  using published_starting_leaf_accepted [of "HLeaf 0" HNode "ao_tree (sample_out False 3)" False
      "append_leaves (\<lambda>_. HLeaf 0) 0 (map lf_hash (take 3 sample_leaves))"
      "tracked_leaves (sample_tree False) [] (take 3 sample_leaves)"
      "commit (ao_ops (sample_out False 3)) sample_db"]
    sample_history [of 3 False] by (auto simp del: One_nat_def)

text \<open>Bootstrapping the empty tree of depth 2.\<close>

theorem accepted_bootstrap_represents_witness:
  "\<exists>db' md'. initTreeFromDatabase sample_db 0 (lt_metadata (sample_tree False))
      \<lparr>td_root = genesisRoot (term_hasher 2), td_index = 0,
        td_siblings = [HLeaf 0, HNode (HLeaf 0) (HLeaf 0)]\<rparr>
      (lt_config (sample_tree False)) = Ok (db', md') \<and> md_end md' = 0"
proof -
  let ?dat = "\<lparr>td_root = genesisRoot (term_hasher 2), td_index = 0,
        td_siblings = [HLeaf 0, HNode (HLeaf 0) (HLeaf 0)]\<rparr>"
  let ?config = "lt_config (sample_tree False)"
  have pre: "preHash (term_hasher 2) = [HLeaf 0, HNode (HLeaf 0) (HLeaf 0),
      HNode (HNode (HLeaf 0) (HLeaf 0)) (HNode (HLeaf 0) (HLeaf 0))]"
    by (simp add: term_hasher_def hasher_of_def getPreHash_def numeral_2_eq_2 loop_simps)
  have config: "?config = \<lparr>tg_hasher = term_hasher 2, tg_forceUpdate = True, tg_fullSync = False\<rparr>"
    by (simp add: sample_tree_def new_light_tree_def)
  have root: "genesisRoot (term_hasher 2) =
      HNode (HNode (HLeaf 0) (HLeaf 0)) (HNode (HLeaf 0) (HLeaf 0))"
    by (simp add: genesisRoot_def pre)
  have parent: "parentOf (term_hasher 2) = HNode" by (simp add: term_hasher_def)
  obtain db' md' where boot: "initTreeFromDatabase sample_db 0 (lt_metadata (sample_tree False)) ?dat
      ?config = Ok (db', md')"
    by (simp add: initTreeFromDatabase_def config startingLeafProof_iff pre root parent less_Suc_eq
        Let_def)
  have hasher: "tg_hasher ?config = hasher_of (HLeaf 0) HNode (length (td_siblings ?dat))"
    by (simp add: config term_hasher_def numeral_2_eq_2)
  have tree: "td_root ?dat = mnode HNode (\<lambda>_. HLeaf 0) (length (td_siblings ?dat)) 0"
    by (simp add: root)
  have "md_end md' = 0"
    using accepted_bootstrap_represents [OF HNode_inj boot hasher _ tree]
    by (simp add: empty_from_def)
  with boot show ?thesis by blast
qed

theorem full_tree_refuses_first_leaf_witness:
  "tree_merkleProof (ao_tree (sample_out True 4)) new_tree_cache
     (commit (ao_ops (sample_out True 4)) sample_db) [] (HLeaf 5) (Some 0) =
   Throw ''Created invalid merkle proof''"
  using full_tree_refuses_first_leaf [of HNode "HLeaf 0" "ao_tree (sample_out True 4)" True
      "append_leaves (\<lambda>_. HLeaf 0) 0 (map lf_hash (take 4 sample_leaves))"
      "tracked_leaves (sample_tree True) [] (take 4 sample_leaves)"
      "commit (ao_ops (sample_out True 4)) sample_db" "[]"]
    sample_history [of 4 True]
  by (simp add: append_leaves_nth sample_leaves_def)

end
