(* ===== verification/Grove.thy ===== *)
theory Grove
  imports Nullifier_Tree Rollup_History
begin

text \<open>
  \<open>packages/tree/src/grove.ts\<close> with \<open>utxo-tree.ts\<close> and \<open>withdrawal-tree.ts\<close>: the UTXO tree, the withdrawal
  tree and the nullifier tree of a node, the patch of a block that is applied to them, the dry run of a
  patch that a proposer uses, and the Merkle proofs of notes. Field elements and big integers are values
  of the hash type.
\<close>

section \<open>State\<close>

record 'a grove_config =
  gc_utxoTreeDepth :: nat
  gc_withdrawalTreeDepth :: nat
  gc_nullifierTreeDepth :: nat
  gc_utxoSubTreeSize :: nat
  gc_withdrawalSubTreeSize :: nat
  gc_utxoHasher :: "'a hasher"
  gc_withdrawalHasher :: "'a hasher"
  gc_nullifierHasher :: "'a hasher"
  gc_fullSync :: bool
  gc_forceUpdate :: bool
  gc_zkAddressesToObserve :: "string list"
  gc_addressesToObserve :: "string list"

record 'a grove_patch =
  gp_header :: "string option"
  gp_utxos :: "'a leaf list"
  gp_withdrawals :: "'a leaf list"
  gp_nullifiers :: "nat list"

record 'a grove_snapshot =
  gs_utxoTreeIndex :: nat
  gs_utxoTreeRoot :: 'a
  gs_withdrawalTreeIndex :: nat
  gs_withdrawalTreeRoot :: 'a
  gs_nullifierTreeRoot :: "'a option"

record 'a grove =
  gr_config :: "'a grove_config"
  gr_utxoTree :: "'a light_tree option"
  gr_withdrawalTree :: "'a light_tree option"
  gr_nullifierTree :: "'a nullifier_tree option"
  gr_treeCache :: "'a tree_cache"

text \<open>The columns of the tables \<open>Utxo\<close> and \<open>Withdrawal\<close> that the trees read.\<close>

record 'a utxo_row =
  ur_hash :: 'a
  ur_owner :: string
  ur_index :: "nat option"
  ur_treeId :: "string option"

record 'a withdrawal_row =
  wr_hash :: 'a
  wr_withdrawalHash :: 'a
  wr_to :: string
  wr_prepayer :: "string option"
  wr_index :: "nat option"
  wr_treeId :: "string option"

definition SPECIES_UTXO :: nat where "SPECIES_UTXO = 0"
definition SPECIES_WITHDRAWAL :: nat where "SPECIES_WITHDRAWAL = 1"

definition new_grove :: "'a grove_config \<Rightarrow> 'a grove" where
  "new_grove config = \<lparr>gr_config = config, gr_utxoTree = None, gr_withdrawalTree = None,
     gr_nullifierTree = None, gr_treeCache = new_tree_cache\<rparr>"

section \<open>The leaves to track\<close>

definition utxo_indexesOfTrackingLeaves ::
    "'a utxo_row list \<Rightarrow> string list \<Rightarrow> 'a light_tree \<Rightarrow> nat list" where
  "utxo_indexesOfTrackingLeaves rows keys t =
     List.map_filter ur_index
       (filter (\<lambda>r. ur_treeId r = Some (md_id (lt_metadata t)) \<and> ur_owner r \<in> set keys) rows)"

definition withdrawal_indexesOfTrackingLeaves ::
    "'a withdrawal_row list \<Rightarrow> string list \<Rightarrow> 'a light_tree \<Rightarrow> nat list" where
  "withdrawal_indexesOfTrackingLeaves rows keys t =
     List.map_filter wr_index
       (filter (\<lambda>r. wr_treeId r = Some (md_id (lt_metadata t)) \<and>
          (wr_to r \<in> set keys \<or> (case wr_prepayer r of None \<Rightarrow> False | Some a \<Rightarrow> a \<in> set keys))) rows)"

definition setZkAddressesToObserve :: "string list \<Rightarrow> 'a grove \<Rightarrow> 'a grove" where
  "setZkAddressesToObserve addresses g =
     g\<lparr>gr_config := (gr_config g)\<lparr>gc_zkAddressesToObserve := addresses\<rparr>\<rparr>"

definition setAddressesToObserve :: "string list \<Rightarrow> 'a grove \<Rightarrow> 'a grove" where
  "setAddressesToObserve addresses g =
     g\<lparr>gr_config := (gr_config g)\<lparr>gc_addressesToObserve := addresses\<rparr>\<rparr>"

section \<open>Applying a patch\<close>

text \<open>The leaves are padded with empty ones up to a multiple of the size of a subtree.\<close>

definition pad_leaves :: "nat \<Rightarrow> 'a::zero \<Rightarrow> 'a leaf list \<Rightarrow> 'a leaf list" where
  "pad_leaves subTreeSize z items =
     (let totalItemLen = subTreeSize * ceil_div (length items) subTreeSize in
      items @ replicate (totalItemLen - length items) \<lparr>lf_hash = z, lf_shouldTrack = False\<rparr>)"

definition append_padded ::
    "nat \<Rightarrow> string \<Rightarrow> 'a::zero light_tree option \<Rightarrow> 'a tree_cache \<Rightarrow> nat list \<Rightarrow> 'a leaf list \<Rightarrow>
     'a append_outcome result" where
  "append_padded subTreeSize msg tree cache tracked items =
     (case tree of
        None \<Rightarrow> Throw ''Grove is not initialized''
      | Some t \<Rightarrow>
          if latestLeafIndex t + subTreeSize * ceil_div (length items) subTreeSize \<le> maxSize t
          then Ok (tree_append t cache tracked (pad_leaves subTreeSize 0 items))
          else Throw msg)"

definition appendUTXOs ::
    "'a::zero grove \<Rightarrow> nat list \<Rightarrow> 'a leaf list \<Rightarrow> 'a append_outcome result" where
  "appendUTXOs g tracked utxos =
     append_padded (gc_utxoSubTreeSize (gr_config g)) ''utxo tree flushes.'' (gr_utxoTree g)
       (gr_treeCache g) tracked utxos"

definition appendWithdrawals ::
    "'a::zero grove \<Rightarrow> nat list \<Rightarrow> 'a leaf list \<Rightarrow> 'a append_outcome result" where
  "appendWithdrawals g tracked withdrawals =
     append_padded (gc_withdrawalSubTreeSize (gr_config g)) ''withdrawal tree flushes''
       (gr_withdrawalTree g) (gr_treeCache g) tracked withdrawals"

text \<open>Only a node that manages the nullifier tree marks nullifiers.\<close>

definition markAsNullified ::
    "'a::zero_neq_one tree_db \<Rightarrow> 'a grove \<Rightarrow> nat list \<Rightarrow> ('a grove \<times> 'a db_op list) result" where
  "markAsNullified db g nullifiers =
     (case gr_nullifierTree g of
        None \<Rightarrow> Ok (g, [])
      | Some t \<Rightarrow> bind_result (nullify db (gr_treeCache g) t nullifiers) (\<lambda>out.
          Ok (g\<lparr>gr_nullifierTree := Some (so_tree out), gr_treeCache := so_cache out\<rparr>, so_ops out)))"

definition recordBootstrap :: "'a light_tree \<Rightarrow> 'a light_tree \<Rightarrow> string option \<Rightarrow> 'a db_op list" where
  "recordBootstrap utxoTree withdrawalTree header =
     (let u = td_siblings (lt_data utxoTree); w = td_siblings (lt_data withdrawalTree) in
      case header of
        Some hash \<Rightarrow> [Upsert_Bootstrap hash u w, Upsert_Block hash]
      | None \<Rightarrow> [Create_Bootstrap u w])"

text \<open>
  \<open>applyGrovePatch\<close>: \<open>utxos\<close> and \<open>withdrawals\<close> are the rows of the two tables; the result is the
  grove and the writes handed to the transaction. An error leaves the transaction to its error handlers.
\<close>

definition applyGrovePatch ::
    "'a::zero_neq_one tree_db \<Rightarrow> 'a utxo_row list \<Rightarrow> 'a withdrawal_row list \<Rightarrow> 'a grove \<Rightarrow>
     'a grove_patch \<Rightarrow> ('a grove \<times> 'a db_op list) result" where
  "applyGrovePatch db utxoRows withdrawalRows g patch =
     bind_result (appendUTXOs g
         (case gr_utxoTree g of None \<Rightarrow> [] | Some t \<Rightarrow>
            utxo_indexesOfTrackingLeaves utxoRows (gc_zkAddressesToObserve (gr_config g)) t)
         (gp_utxos patch)) (\<lambda>utxo.
       let g = g\<lparr>gr_utxoTree := Some (ao_tree utxo), gr_treeCache := ao_cache utxo\<rparr> in
     bind_result (appendWithdrawals g
         (case gr_withdrawalTree g of None \<Rightarrow> [] | Some t \<Rightarrow>
            withdrawal_indexesOfTrackingLeaves withdrawalRows (gc_addressesToObserve (gr_config g)) t)
         (gp_withdrawals patch)) (\<lambda>withdrawal.
       let g = g\<lparr>gr_withdrawalTree := Some (ao_tree withdrawal), gr_treeCache := ao_cache withdrawal\<rparr> in
     bind_result (markAsNullified db g (gp_nullifiers patch)) (\<lambda>(g, nullifierOps).
       Ok (g, ao_ops utxo @ ao_ops withdrawal @ nullifierOps @
         (if gc_fullSync (gr_config g)
          then recordBootstrap (ao_tree utxo) (ao_tree withdrawal) (gp_header patch) else [])))))"

text \<open>
  \<open>applyGrovePatch\<close> as the transaction that fails sees it: the grove at the point where the method
  throws or returns, with the handlers that the trees have registered with \<open>db.onError\<close> up to there.
  \<open>_append\<close> and \<open>update\<close> register theirs just before they change the tree; a \<open>nullify\<close> that throws
  has loaded the root of its tree already.
\<close>

definition undo_utxos :: "'a light_tree \<Rightarrow> 'a grove \<Rightarrow> 'a grove" where
  "undo_utxos before g = g\<lparr>gr_utxoTree := map_option (append_rollback before) (gr_utxoTree g)\<rparr>"

definition undo_withdrawals :: "'a light_tree \<Rightarrow> 'a grove \<Rightarrow> 'a grove" where
  "undo_withdrawals before g =
     g\<lparr>gr_withdrawalTree := map_option (append_rollback before) (gr_withdrawalTree g)\<rparr>"

definition undo_nullifiers :: "'a tree_db \<Rightarrow> 'a nullifier_tree \<Rightarrow> 'a grove \<Rightarrow> 'a grove" where
  "undo_nullifiers db before g =
     g\<lparr>gr_nullifierTree := map_option (smt_rollback db before) (gr_nullifierTree g)\<rparr>"

definition nullify_stop ::
    "'a::zero_neq_one tree_db \<Rightarrow> nat list \<Rightarrow> 'a grove \<Rightarrow> 'a grove \<times> ('a grove \<Rightarrow> 'a grove) list" where
  "nullify_stop db nullifiers g =
     (case gr_nullifierTree g of
        None \<Rightarrow> (g, [])
      | Some t \<Rightarrow>
          (case nullify db (gr_treeCache g) t nullifiers of
             Inl e \<Rightarrow> (g\<lparr>gr_nullifierTree := Some (snd (getRootNode db t))\<rparr>, [])
           | Inr out \<Rightarrow> (g\<lparr>gr_nullifierTree := Some (so_tree out), gr_treeCache := so_cache out\<rparr>,
               [undo_nullifiers db t])))"

definition withdrawals_stop ::
    "'a::zero_neq_one tree_db \<Rightarrow> 'a withdrawal_row list \<Rightarrow> 'a grove_patch \<Rightarrow> 'a grove \<Rightarrow>
     'a grove \<times> ('a grove \<Rightarrow> 'a grove) list" where
  "withdrawals_stop db withdrawalRows patch g =
     (case gr_withdrawalTree g of
        None \<Rightarrow> (g, [])
      | Some t \<Rightarrow>
          (case appendWithdrawals g
               (withdrawal_indexesOfTrackingLeaves withdrawalRows (gc_addressesToObserve (gr_config g)) t)
               (gp_withdrawals patch) of
             Inl e \<Rightarrow> (g, [])
           | Inr out \<Rightarrow>
               let (g', undos) = nullify_stop db (gp_nullifiers patch)
                 (g\<lparr>gr_withdrawalTree := Some (ao_tree out), gr_treeCache := ao_cache out\<rparr>)
               in (g', undo_withdrawals t # undos)))"

definition applyGrovePatch_stop ::
    "'a::zero_neq_one tree_db \<Rightarrow> 'a utxo_row list \<Rightarrow> 'a withdrawal_row list \<Rightarrow> 'a grove \<Rightarrow>
     'a grove_patch \<Rightarrow> 'a grove \<times> ('a grove \<Rightarrow> 'a grove) list" where
  "applyGrovePatch_stop db utxoRows withdrawalRows g patch =
     (case gr_utxoTree g of
        None \<Rightarrow> (g, [])
      | Some t \<Rightarrow>
          (case appendUTXOs g
               (utxo_indexesOfTrackingLeaves utxoRows (gc_zkAddressesToObserve (gr_config g)) t)
               (gp_utxos patch) of
             Inl e \<Rightarrow> (g, [])
           | Inr out \<Rightarrow>
               let (g', undos) = withdrawals_stop db withdrawalRows patch
                 (g\<lparr>gr_utxoTree := Some (ao_tree out), gr_treeCache := ao_cache out\<rparr>)
               in (g', undo_utxos t # undos)))"

text \<open>The handlers run in the order in which they were registered.\<close>

definition run_handlers :: "('a grove \<Rightarrow> 'a grove) list \<Rightarrow> 'a grove \<Rightarrow> 'a grove" where
  "run_handlers handlers g = fold (\<lambda>h g. h g) handlers g"

section \<open>Dry runs\<close>

definition untracked :: "'a leaf list \<Rightarrow> 'a leaf list" where
  "untracked items = map (\<lambda>leaf. leaf\<lparr>lf_shouldTrack := False\<rparr>) items"

text \<open>\<open>dryPatch\<close>: the indices count the padding, the roots come from the leaves without it.\<close>

definition dryPatch ::
    "'a::zero_neq_one tree_db \<Rightarrow> 'a grove \<Rightarrow> 'a grove_patch \<Rightarrow> 'a grove_snapshot result" where
  "dryPatch db g patch =
     (case (gr_utxoTree g, gr_withdrawalTree g) of
        (Some ut, Some wt) \<Rightarrow>
          let utxoResult = dryAppend ut (untracked (gp_utxos patch));
              withdrawalResult = dryAppend wt (untracked (gp_withdrawals patch))
          in bind_result
            (case gr_nullifierTree g of
               None \<Rightarrow> Ok None
             | Some nt \<Rightarrow> bind_result (dryRunNullify db nt (gp_nullifiers patch)) (\<lambda>r. Ok (Some r)))
            (\<lambda>nullifierRoot.
              let utxoFixedSizeLen = gc_utxoSubTreeSize (gr_config g) *
                    ceil_div (length (gp_utxos patch)) (gc_utxoSubTreeSize (gr_config g));
                  withdrawalFixedSizeLen = gc_withdrawalSubTreeSize (gr_config g) *
                    ceil_div (length (gp_withdrawals patch)) (gc_withdrawalSubTreeSize (gr_config g))
              in Ok \<lparr>gs_utxoTreeIndex =
                   td_index utxoResult + utxoFixedSizeLen - length (gp_utxos patch),
                 gs_utxoTreeRoot = td_root utxoResult,
                 gs_withdrawalTreeIndex =
                   td_index withdrawalResult + withdrawalFixedSizeLen - length (gp_withdrawals patch),
                 gs_withdrawalTreeRoot = td_root withdrawalResult,
                 gs_nullifierTreeRoot = nullifierRoot\<rparr>)
      | _ \<Rightarrow> Throw ''TypeError'')"

definition getSnapshot :: "'a::zero_neq_one tree_db \<Rightarrow> 'a grove \<Rightarrow> 'a grove_snapshot result" where
  "getSnapshot db g =
     dryPatch db g \<lparr>gp_header = None, gp_utxos = [], gp_withdrawals = [], gp_nullifiers = []\<rparr>"

section \<open>Merkle proofs of notes\<close>

text \<open>Known siblings overwrite the pre-hashed ones at the level that the length of their index gives.\<close>

fun place_siblings :: "nat \<Rightarrow> (nat \<times> 'a) list \<Rightarrow> 'a \<times> 'a list \<Rightarrow> 'a \<times> 'a list" where
  "place_siblings depth [] s = s"
| "place_siblings depth ((k, v) # found) (r, siblings) =
     (let level = 1 + depth - max 1 (bit_length k) in
      if level = depth then place_siblings depth found (v, siblings)
      else place_siblings depth found (r, siblings[level := v]))"

definition note_proof ::
    "'a tree_cache \<Rightarrow> 'a tree_db \<Rightarrow> 'a hasher \<Rightarrow> nat \<Rightarrow> 'a light_tree \<Rightarrow> string \<Rightarrow> nat \<Rightarrow> 'a \<Rightarrow>
     'a merkle_proof result" where
  "note_proof cache db h depth t msg index hash =
     bind_result (getCachedSiblings cache db depth (md_id (lt_metadata t)) index) (\<lambda>cachedSiblings.
       let (r, siblings) = place_siblings depth cachedSiblings (lt_root t, butlast (preHash h));
           p = \<lparr>mp_root = r, mp_index = index, mp_leaf = hash, mp_siblings = siblings\<rparr>
       in if \<not> verifyProof h p then Throw msg else Ok p)"

definition utxoMerkleProof ::
    "'a tree_db \<Rightarrow> 'a utxo_row list \<Rightarrow> 'a grove \<Rightarrow> 'a \<Rightarrow> 'a merkle_proof result" where
  "utxoMerkleProof db rows g hash =
     (case find (\<lambda>r. ur_hash r = hash) rows of
        None \<Rightarrow> Throw ''Failed to find the utxo''
      | Some utxo \<Rightarrow>
          (case ur_index utxo of
             None \<Rightarrow> Throw ''It is not included in a block yet''
           | Some index \<Rightarrow>
               (case gr_utxoTree g of
                  None \<Rightarrow> Throw ''TypeError''
                | Some t \<Rightarrow> note_proof (gr_treeCache g) db (gc_utxoHasher (gr_config g))
                    (gc_utxoTreeDepth (gr_config g)) t ''Failed to generate utxo merkle proof'' index
                    (ur_hash utxo))))"

definition withdrawalMerkleProof ::
    "'a tree_db \<Rightarrow> 'a withdrawal_row list \<Rightarrow> 'a grove \<Rightarrow> 'a \<Rightarrow> nat option \<Rightarrow> 'a merkle_proof result" where
  "withdrawalMerkleProof db rows g noteHash index =
     (case find (\<lambda>r. wr_withdrawalHash r = noteHash) rows of
        None \<Rightarrow> Throw ''Failed to find the withdrawal''
      | Some withdrawal \<Rightarrow>
          (case (case index of Some i \<Rightarrow> Some i | None \<Rightarrow> wr_index withdrawal) of
             None \<Rightarrow> Throw ''It is not included in a block yet''
           | Some leafIndex \<Rightarrow>
               (case gr_withdrawalTree g of
                  None \<Rightarrow> Throw ''TypeError''
                | Some t \<Rightarrow> note_proof (gr_treeCache g) db (gc_withdrawalHasher (gr_config g))
                    (gc_withdrawalTreeDepth (gr_config g)) t
                    ''Failed to generate withdrawal merkle proof'' leafIndex noteHash)))"

section \<open>Starting the trees\<close>

text \<open>The tree of a row of the table; \<open>treeId\<close> is the id the database gave the row.\<close>

definition tree_from ::
    "string \<Rightarrow> nat \<Rightarrow> 'a light_row \<Rightarrow> 'a tree_config \<Rightarrow> 'a light_tree" where
  "tree_from treeId species row config =
     new_light_tree species
       \<lparr>md_id = treeId, md_species = species, md_start = lr_start row, md_end = lr_end row\<rparr>
       \<lparr>td_root = lr_root row, td_index = lr_index row, td_siblings = lr_siblings row\<rparr> config"

definition bootstrap_tree ::
    "'a::zero tree_db \<Rightarrow> string \<Rightarrow> nat \<Rightarrow> 'a hasher \<Rightarrow> 'a tree_config \<Rightarrow> 'a merkle_proof option \<Rightarrow>
     ('a tree_db \<times> 'a light_row \<times> 'a light_tree) result" where
  "bootstrap_tree db treeId species h config prf =
     bind_result
       (case prf of
          Some p \<Rightarrow>
            if \<not> startingLeafProof h (mp_root p) (mp_index p) (mp_siblings p)
            then Throw ''Invalid starting leaf proof''
            else Ok (mp_root p, mp_index p, mp_siblings p)
        | None \<Rightarrow> Ok (genesisRoot h, 0, butlast (preHash h)))
       (\<lambda>(r, index, siblings).
         let row = \<lparr>lr_root = r, lr_index = index, lr_siblings = siblings, lr_start = index,
               lr_end = index\<rparr>
         in Ok (apply_op (Upsert_Light species row) db, row, tree_from treeId species row config))"

definition grove_tree_config :: "'a grove_config \<Rightarrow> 'a hasher \<Rightarrow> 'a tree_config" where
  "grove_tree_config config h =
     \<lparr>tg_hasher = h, tg_forceUpdate = gc_forceUpdate config, tg_fullSync = gc_fullSync config\<rparr>"

definition bootstrapUtxoTree ::
    "'a::zero tree_db \<Rightarrow> string \<Rightarrow> 'a grove_config \<Rightarrow> 'a merkle_proof option \<Rightarrow>
     ('a tree_db \<times> 'a light_row \<times> 'a light_tree) result" where
  "bootstrapUtxoTree db treeId config prf =
     bootstrap_tree db treeId SPECIES_UTXO (gc_utxoHasher config)
       (grove_tree_config config (gc_utxoHasher config)) prf"

definition bootstrapWithdrawalTree ::
    "'a::zero tree_db \<Rightarrow> string \<Rightarrow> 'a grove_config \<Rightarrow> 'a merkle_proof option \<Rightarrow>
     ('a tree_db \<times> 'a light_row \<times> 'a light_tree) result" where
  "bootstrapWithdrawalTree db treeId config prf =
     bootstrap_tree db treeId SPECIES_WITHDRAWAL (gc_withdrawalHasher config)
       (grove_tree_config config (gc_withdrawalHasher config)) prf"

definition applyBootstrap ::
    "'a::zero tree_db \<Rightarrow> string \<Rightarrow> string \<Rightarrow> 'a grove \<Rightarrow> 'a merkle_proof \<Rightarrow> 'a merkle_proof \<Rightarrow>
     ('a tree_db \<times> 'a grove) result" where
  "applyBootstrap db utxoId withdrawalId g utxoProof withdrawalProof =
     bind_result (bootstrapUtxoTree db utxoId (gr_config g) (Some utxoProof)) (\<lambda>(db, _, ut).
     bind_result (bootstrapWithdrawalTree db withdrawalId (gr_config g) (Some withdrawalProof))
       (\<lambda>(db, _, wt). Ok (db, g\<lparr>gr_utxoTree := Some ut, gr_withdrawalTree := Some wt\<rparr>)))"

definition grove_init ::
    "'a::zero tree_db \<Rightarrow> string \<Rightarrow> string \<Rightarrow> 'a grove \<Rightarrow> ('a tree_db \<times> 'a grove) result" where
  "grove_init db utxoId withdrawalId g =
     (let config = gr_config g in
      bind_result (case light_rows db SPECIES_UTXO of
          Some row \<Rightarrow> Ok (db, row)
        | None \<Rightarrow> bind_result (bootstrapUtxoTree db utxoId config None) (\<lambda>(db, row, _). Ok (db, row)))
        (\<lambda>(db, urow).
      bind_result (case light_rows db SPECIES_WITHDRAWAL of
          Some row \<Rightarrow> Ok (db, row)
        | None \<Rightarrow> bind_result (bootstrapWithdrawalTree db withdrawalId config None)
            (\<lambda>(db, row, _). Ok (db, row)))
        (\<lambda>(db, wrow).
      bind_result (new_nullifier_tree (gc_nullifierHasher config) (gc_nullifierTreeDepth config))
        (\<lambda>nt. Ok (db, g\<lparr>
          gr_utxoTree := Some (tree_from utxoId SPECIES_UTXO urow
            (grove_tree_config config (gc_utxoHasher config))),
          gr_withdrawalTree := Some (tree_from withdrawalId SPECIES_WITHDRAWAL wrow
            (grove_tree_config config (gc_withdrawalHasher config))),
          gr_nullifierTree := Some nt\<rparr>)))))"

end
