(* ===== verification/Nullifier_Proofs.thy ===== *)
theory Nullifier_Proofs
  imports Nullifier_Tree Rollup_Merkle
begin

text \<open>
  The nullifier tree against the set of used nullifiers: its nodes are those of the mathematical tree
  whose leaves say which nullifiers are used.
\<close>

section \<open>Nodes of a sparse tree\<close>

definition used_leaf :: "nat set \<Rightarrow> nat \<Rightarrow> 'a::zero_neq_one" where
  "used_leaf S i = (if i \<in> S then 1 else 0)"

text \<open>A node map agrees with the tree over \<open>f\<close>: what is missing is the root of an empty subtree.\<close>

definition sparse_node :: "'a hasher \<Rightarrow> nat \<Rightarrow> (nat \<rightharpoonup> 'a) \<Rightarrow> nat \<Rightarrow> nat \<Rightarrow> 'a" where
  "sparse_node h d M l j =
     (case M (node_key d l j) of Some v \<Rightarrow> v | None \<Rightarrow> preHash h ! l)"

definition sparse_nodes :: "'a hasher \<Rightarrow> nat \<Rightarrow> (nat \<Rightarrow> 'a) \<Rightarrow> (nat \<rightharpoonup> 'a) \<Rightarrow> bool" where
  "sparse_nodes h d f M \<longleftrightarrow>
     (\<forall>l < d. \<forall>j < 2 ^ (d - l). sparse_node h d M l j = mnode (parentOf h) f l j)"

lemma sparse_node_upd:
  assumes "l \<le> d" and "l' \<le> d" and "j < 2 ^ (d - l)" and "j' < 2 ^ (d - l')"
  shows "sparse_node h d (M(node_key d l' j' \<mapsto> v)) l j =
    (if l = l' \<and> j = j' then v else sparse_node h d M l j)"
  using assms by (auto simp: sparse_node_def node_key_inj)

lemma sib_pos_neq: "sib_pos q \<noteq> q"
  by (cases q) (auto simp: sib_pos_def)

text \<open>The interface: a hasher whose empty leaf is 0.\<close>

locale smt_hasher = prehashed h 0 depth
  for h :: "'a::zero_neq_one hasher" and depth
begin

text \<open>Reading a sibling during the update reads the combined node map.\<close>

lemma smt_getSibling_sparse:
  assumes "i < 2 ^ depth" and "l < depth"
    and stored: "SN (node_key depth l (sib_pos (i div 2 ^ l))) =
      M (node_key depth l (sib_pos (i div 2 ^ l)))"
  shows "smt_getSibling h depth U SN (drop_bit l (leaf_path depth i)) =
    sparse_node h depth (M ++ map_of U) l (sib_pos (i div 2 ^ l))"
proof -
  have path: "drop_bit l (leaf_path depth i) = node_key depth l (i div 2 ^ l)"
    using assms(1,2) by (simp add: node_key_path)
  have "bit_length (node_key depth l (i div 2 ^ l)) = depth - l + 1"
    unfolding node_key_def by (rule bit_length_node) (use assms(1,2) in \<open>simp add: div_bound\<close>)
  then have "depth - (bit_length (node_key depth l (i div 2 ^ l)) - 1) = l"
    using assms(2) by simp
  then show ?thesis
    using assms(2) stored unfolding smt_getSibling_def Let_def path sibling_node_key [OF assms(2)]
    by (simp add: sparse_node_def map_add_def split: option.splits)
qed

text \<open>After \<open>k\<close> levels the nodes of the path below \<open>k\<close> are those of the new leaves \<open>g\<close>.\<close>

definition smt_climbed ::
    "(nat \<Rightarrow> 'a) \<Rightarrow> (nat \<Rightarrow> 'a) \<Rightarrow> (nat \<rightharpoonup> 'a) \<Rightarrow> nat \<Rightarrow> nat \<Rightarrow> 'a \<times> (nat \<times> 'a) list \<Rightarrow> bool" where
  "smt_climbed f g M i k s \<longleftrightarrow>
     fst s = mnode (parentOf h) g k (i div 2 ^ k) \<and>
     (\<forall>l < depth. \<forall>j < 2 ^ (depth - l). sparse_node h depth (M ++ map_of (snd s)) l j =
        (if l < k \<and> j = i div 2 ^ l then mnode (parentOf h) g l j else mnode (parentOf h) f l j))"

lemma smt_level_climbed:
  assumes climbed: "smt_climbed f (f(i := x)) M i k s" and i: "i < 2 ^ depth" and k: "k < depth"
    and stored: "\<And>l. l < depth \<Longrightarrow> SN (node_key depth l (sib_pos (i div 2 ^ l))) =
      M (node_key depth l (sib_pos (i div 2 ^ l)))"
  shows "smt_climbed f (f(i := x)) M i (Suc k) (smt_level h depth SN (leaf_path depth i) k s)"
proof -
  let ?g = "f(i := x)" and ?q = "i div 2 ^ k"
  obtain node U where s: "s = (node, U)" by (cases s)
  have node: "node = mnode (parentOf h) ?g k ?q"
    and nodes: "\<And>l j. l < depth \<Longrightarrow> j < 2 ^ (depth - l) \<Longrightarrow>
      sparse_node h depth (M ++ map_of U) l j =
        (if l < k \<and> j = i div 2 ^ l then mnode (parentOf h) ?g l j else mnode (parentOf h) f l j)"
    using climbed by (simp_all add: s smt_climbed_def)
  have path: "drop_bit k (leaf_path depth i) = node_key depth k ?q"
    using i k by (simp add: node_key_path)
  have q: "?q < 2 ^ (depth - k)" and sib: "sib_pos ?q < 2 ^ (depth - k)"
    using i k by (simp_all add: div_bound sib_pos_bound)
  define U' where "U' = AList.update (node_key depth k ?q) node U"
  have new: "sparse_node h depth (M ++ map_of U') l j =
      (if l = k \<and> j = ?q then node else sparse_node h depth (M ++ map_of U) l j)"
    if "l < depth" "j < 2 ^ (depth - l)" for l j
    unfolding U'_def map_add_update using that k q by (intro sparse_node_upd) auto
  have other: "sib_pos ?q \<noteq> ?q" by (rule sib_pos_neq)
  have "smt_getSibling h depth U' SN (node_key depth k ?q) =
      sparse_node h depth (M ++ map_of U') k (sib_pos ?q)"
    using smt_getSibling_sparse [where SN = SN and M = M and U = U', OF i k stored [OF k]]
    unfolding path .
  also have "\<dots> = mnode (parentOf h) f k (sib_pos ?q)"
    using new [OF k sib] nodes [OF k sib] other by simp
  also have "\<dots> = mnode (parentOf h) ?g k (sib_pos ?q)"
    using other by (simp add: mnode_update_other)
  finally have sibling: "smt_getSibling h depth U' SN (node_key depth k ?q) =
      mnode (parentOf h) ?g k (sib_pos ?q)" .
  have "smt_level h depth SN (leaf_path depth i) k s =
      (if even ?q then parentOf h node (mnode (parentOf h) ?g k (sib_pos ?q))
       else parentOf h (mnode (parentOf h) ?g k (sib_pos ?q)) node, U')"
    unfolding smt_level_def s split Let_def path U'_def [symmetric] sibling
    using k by (simp add: even_node_key)
  moreover have "mnode (parentOf h) ?g (Suc k) (i div 2 ^ Suc k) =
      (if even ?q then parentOf h node (mnode (parentOf h) ?g k (sib_pos ?q))
       else parentOf h (mnode (parentOf h) ?g k (sib_pos ?q)) node)"
    unfolding div_two_power_Suc mnode_step node ..
  ultimately show ?thesis
    unfolding smt_climbed_def using new nodes node by (auto simp: less_Suc_eq)
qed

text \<open>One leaf of a batch.\<close>

lemma smt_leaf_loop:
  assumes nodes: "sparse_nodes h depth f (M ++ map_of U)" and i: "i < 2 ^ depth"
    and stored: "\<And>l. l < depth \<Longrightarrow> SN (node_key depth l (sib_pos (i div 2 ^ l))) =
      M (node_key depth l (sib_pos (i div 2 ^ l)))"
    and loop: "for_upto depth (smt_level h depth SN (leaf_path depth i)) (x, U) = (node, U')"
  shows "node = mnode (parentOf h) (f(i := x)) depth 0"
    and "sparse_nodes h depth (f(i := x)) (M ++ map_of U')"
proof -
  have "smt_climbed f (f(i := x)) M i depth
      (for_upto depth (smt_level h depth SN (leaf_path depth i)) (x, U))"
  proof (rule for_upto_invariant [where P = "smt_climbed f (f(i := x)) M i"])
    show "smt_climbed f (f(i := x)) M i 0 (x, U)"
      using nodes by (simp add: smt_climbed_def sparse_nodes_def)
  next
    fix k s assume "k < depth" and "smt_climbed f (f(i := x)) M i k s"
    then show "smt_climbed f (f(i := x)) M i (Suc k) (smt_level h depth SN (leaf_path depth i) k s)"
      by (intro smt_level_climbed [where SN = SN and M = M] i stored)
  qed
  then have climbed: "smt_climbed f (f(i := x)) M i depth (node, U')"
    by (simp only: loop)
  show "node = mnode (parentOf h) (f(i := x)) depth 0"
    using climbed i by (simp add: smt_climbed_def)
  show "sparse_nodes h depth (f(i := x)) (M ++ map_of U')"
    unfolding sparse_nodes_def
  proof (intro allI impI)
    fix l j :: nat assume l: "l < depth" "j < 2 ^ (depth - l)"
    then have "sparse_node h depth (M ++ map_of U') l j =
        (if j = i div 2 ^ l then mnode (parentOf h) (f(i := x)) l j else mnode (parentOf h) f l j)"
      using climbed by (simp add: smt_climbed_def)
    then show "sparse_node h depth (M ++ map_of U') l j = mnode (parentOf h) (f(i := x)) l j"
      by (auto simp: mnode_update_other)
  qed
qed

end

interpretation smt_standard: smt_hasher "hasher_of 0 p depth" depth for p depth
  by unfold_locales (simp_all add: standard.preHash_length standard.preHash_0 standard.preHash_Suc)

interpretation smt_keccak: smt_hasher "keccakHasher sha3 depth" depth for sha3 depth
  by unfold_locales (simp_all add: keccak.preHash_length keccak.preHash_0 keccak.preHash_Suc)

end
