(* ===== verification/Nullifier_History.thy ===== *)
theory Nullifier_History
  imports Nullifier_Proofs
begin

text \<open>
  Whole batches of the nullifier tree: which batches succeed, what they write, and what the proofs of the
  tree then show.
\<close>

section \<open>Batches\<close>

definition set_leaf :: "smt_update \<Rightarrow> (nat \<Rightarrow> 'a::zero_neq_one) \<Rightarrow> nat \<Rightarrow> 'a" where
  "set_leaf u f = f(su_index u := toBN_leaf (su_val u))"

text \<open>Every leaf of the batch changes the leaf it is written to.\<close>

fun changing :: "(nat \<Rightarrow> 'a::zero_neq_one) \<Rightarrow> smt_update list \<Rightarrow> bool" where
  "changing f [] = True"
| "changing f (u # us) = (f (su_index u) \<noteq> toBN_leaf (su_val u) \<and> changing (set_leaf u f) us)"

definition siblings_known :: "nat \<Rightarrow> (nat \<rightharpoonup> 'a) \<Rightarrow> (nat \<rightharpoonup> 'a) \<Rightarrow> nat \<Rightarrow> bool" where
  "siblings_known d SN M i \<longleftrightarrow> (\<forall>l < d. SN (node_key d l (sib_pos (i div 2 ^ l))) =
     M (node_key d l (sib_pos (i div 2 ^ l))))"

lemma smt_level_distinct:
  "distinct (map fst (snd s)) \<Longrightarrow> distinct (map fst (snd (smt_level h d SN path k s)))"
  by (cases s) (simp add: smt_level_def Let_def distinct_update)

lemma smt_levels_distinct:
  "distinct (map fst U) \<Longrightarrow>
    distinct (map fst (snd (for_upto n (smt_level h d SN path) (x, U))))"
  by (rule for_upto_invariant [where P = "\<lambda>_ s. distinct (map fst (snd s))"])
    (simp_all add: smt_level_distinct)

context smt_hasher
begin

lemma smt_leaf_step_cases:
  assumes nodes: "sparse_nodes h depth f (M ++ map_of U)" and i: "su_index u < 2 ^ depth"
    and known: "siblings_known depth SN M (su_index u)" and dist: "distinct (map fst U)"
  shows "\<exists>U'. smt_leaf_step h depth SN strict u (r, U) =
      (if strict \<and> r = mnode (parentOf h) (set_leaf u f) depth 0
       then Throw (''Leaf '' @ decimal (su_index u) @ '' is not changing the root.'')
       else Ok (mnode (parentOf h) (set_leaf u f) depth 0, U')) \<and>
    sparse_nodes h depth (set_leaf u f) (M ++ map_of U') \<and> distinct (map fst U')"
proof -
  obtain node U' where loop: "for_upto depth (smt_level h depth SN (leaf_path depth (su_index u)))
      (toBN_leaf (su_val u), U) = (node, U')"
    by fastforce
  have stored: "\<And>l. l < depth \<Longrightarrow> SN (node_key depth l (sib_pos (su_index u div 2 ^ l))) =
      M (node_key depth l (sib_pos (su_index u div 2 ^ l)))"
    using known by (simp add: siblings_known_def)
  note leaf = smt_leaf_loop [OF nodes i stored loop, folded set_leaf_def]
  have "distinct (map fst U')"
    using smt_levels_distinct [OF dist, of depth h depth SN "leaf_path depth (su_index u)"
      "toBN_leaf (su_val u)"] loop by simp
  with leaf show ?thesis
    using leaf_path_in_range [OF i] by (auto simp: smt_leaf_step_def Let_def loop)
qed

text \<open>What a batch that succeeds has computed.\<close>

lemma smt_batch_ok:
  assumes "foldM (smt_leaf_step h depth SN strict) us (r, U) = Ok (r', U')"
    and "r = mnode (parentOf h) f depth 0" and "sparse_nodes h depth f (M ++ map_of U)"
    and "\<forall>u \<in> set us. su_index u < 2 ^ depth \<and> siblings_known depth SN M (su_index u)"
    and "distinct (map fst U)"
  shows "r' = mnode (parentOf h) (fold set_leaf us f) depth 0 \<and>
    sparse_nodes h depth (fold set_leaf us f) (M ++ map_of U') \<and> distinct (map fst U') \<and>
    (strict \<longrightarrow> changing f us)"
  using assms
proof (induction us arbitrary: f r U)
  case Nil
  then show ?case by simp
next
  case (Cons u us)
  obtain U1 where step: "smt_leaf_step h depth SN strict u (r, U) =
      (if strict \<and> r = mnode (parentOf h) (set_leaf u f) depth 0
       then Throw (''Leaf '' @ decimal (su_index u) @ '' is not changing the root.'')
       else Ok (mnode (parentOf h) (set_leaf u f) depth 0, U1))"
    and U1: "sparse_nodes h depth (set_leaf u f) (M ++ map_of U1)" "distinct (map fst U1)"
    using smt_leaf_step_cases [OF Cons.prems(3), of u SN strict r] Cons.prems(4,5) by auto
  have "\<not> (strict \<and> r = mnode (parentOf h) (set_leaf u f) depth 0) \<and>
      foldM (smt_leaf_step h depth SN strict) us
        (mnode (parentOf h) (set_leaf u f) depth 0, U1) = Ok (r', U')"
    using Cons.prems(1) unfolding foldM.simps step by (simp split: if_splits)
  then have differs: "strict \<Longrightarrow> r \<noteq> mnode (parentOf h) (set_leaf u f) depth 0"
    and run: "foldM (smt_leaf_step h depth SN strict) us
        (mnode (parentOf h) (set_leaf u f) depth 0, U1) = Ok (r', U')"
    by blast+
  have "f (su_index u) \<noteq> toBN_leaf (su_val u)" if strict
    using differs [OF that] Cons.prems(2) by (metis fun_upd_triv set_leaf_def)
  with Cons.IH [OF run refl U1(1) _ U1(2)] Cons.prems(4) show ?case by simp
qed

text \<open>Without collisions a batch that changes every leaf succeeds.\<close>

lemma smt_batch_runs:
  assumes inj: "\<And>a b a' b'. parentOf h a b = parentOf h a' b' \<Longrightarrow> a = a' \<and> b = b'"
    and "changing f us" and "r = mnode (parentOf h) f depth 0"
    and "sparse_nodes h depth f (M ++ map_of U)"
    and "\<forall>u \<in> set us. su_index u < 2 ^ depth \<and> siblings_known depth SN M (su_index u)"
    and "distinct (map fst U)"
  shows "\<exists>s. foldM (smt_leaf_step h depth SN strict) us (r, U) = Ok s"
  using assms(2-6)
proof (induction us arbitrary: f r U)
  case Nil
  then show ?case by simp
next
  case (Cons u us)
  obtain U1 where step: "smt_leaf_step h depth SN strict u (r, U) =
      (if strict \<and> r = mnode (parentOf h) (set_leaf u f) depth 0
       then Throw (''Leaf '' @ decimal (su_index u) @ '' is not changing the root.'')
       else Ok (mnode (parentOf h) (set_leaf u f) depth 0, U1))"
    and U1: "sparse_nodes h depth (set_leaf u f) (M ++ map_of U1)" "distinct (map fst U1)"
    using smt_leaf_step_cases [OF Cons.prems(3), of u SN strict r] Cons.prems(4,5) by auto
  have "r \<noteq> mnode (parentOf h) (set_leaf u f) depth 0"
  proof
    assume "r = mnode (parentOf h) (set_leaf u f) depth 0"
    then have eq: "mnode (parentOf h) f depth 0 = mnode (parentOf h) (set_leaf u f) depth 0"
      using Cons.prems(2) by simp
    have "su_index u div 2 ^ depth = 0" using Cons.prems(4) by simp
    with mnode_inj [OF inj eq] have "f (su_index u) = set_leaf u f (su_index u)" by blast
    with Cons.prems(1) show False by (simp add: set_leaf_def)
  qed
  moreover have "\<exists>s. foldM (smt_leaf_step h depth SN strict) us
      (mnode (parentOf h) (set_leaf u f) depth 0, U1) = Ok s"
    by (rule Cons.IH [OF _ refl U1(1) _ U1(2)]) (use Cons.prems(1,4) in simp_all)
  ultimately show ?case unfolding foldM.simps step by simp
qed

end

section \<open>Trees that represent a set of used nullifiers\<close>

definition committed_nodes :: "'a tree_db \<Rightarrow> nat \<rightharpoonup> 'a" where
  "committed_nodes db k = tree_nodes db (NULLIFIER_TREE_ID, k)"

definition nl_inv ::
    "('a::zero_neq_one \<Rightarrow> 'a \<Rightarrow> 'a) \<Rightarrow> 'a nullifier_tree \<Rightarrow> 'a tree_db \<Rightarrow> nat set \<Rightarrow> bool" where
  "nl_inv p t db S \<longleftrightarrow>
     nl_hasher t = hasher_of 0 p (nl_depth t) \<and> S \<subseteq> {..<2 ^ nl_depth t} \<and>
     fst (getRootNode db t) = mnode p (used_leaf S) (nl_depth t) 0 \<and>
     sparse_nodes (hasher_of 0 p (nl_depth t)) (nl_depth t) (used_leaf S) (committed_nodes db)"

lemma siblings_known_getSiblingNodes:
  assumes "\<forall>i \<in> set is. i < 2 ^ nl_depth t" and "i \<in> set is"
  shows "siblings_known (nl_depth t) (getSiblingNodes db t is) (committed_nodes db) i"
  unfolding siblings_known_def
proof (intro allI impI)
  fix l assume l: "l < nl_depth t"
  let ?k = "node_key (nl_depth t) l (sib_pos (i div 2 ^ l))"
  have "?k = sibling_index (drop_bit l (leaf_path (nl_depth t) i))"
    using assms l by (simp add: node_key_path sibling_node_key)
  then have "?k \<in> set (concat (map (\<lambda>i. map (\<lambda>level.
      sibling_index (drop_bit level (leaf_path (nl_depth t) i))) [0..<nl_depth t]) is))"
    using assms(2) l by (auto intro!: bexI [of _ i] imageI)
  then show "getSiblingNodes db t is ?k = committed_nodes db ?k"
    by (simp add: getSiblingNodes_def committed_nodes_def Let_def)
qed

lemma used_leaf_fill:
  "set_leaf \<lparr>su_index = i, su_val = FILLED\<rparr> (used_leaf S) = used_leaf (insert i S)"
  by (auto simp: set_leaf_def used_leaf_def fun_eq_iff)

lemma fold_fill:
  "fold set_leaf (map (\<lambda>i. \<lparr>su_index = i, su_val = FILLED\<rparr>) is) (used_leaf S) =
    used_leaf (S \<union> set is)"
  by (induction "is" arbitrary: S) (simp_all add: used_leaf_fill)

lemma changing_fill:
  "changing (used_leaf S :: nat \<Rightarrow> 'a::zero_neq_one)
      (map (\<lambda>i. \<lparr>su_index = i, su_val = FILLED\<rparr>) is) \<longleftrightarrow>
    distinct is \<and> set is \<inter> S = {}"
proof (induction "is" arbitrary: S)
  case Nil
  then show ?case by simp
next
  case (Cons i "is")
  have "(used_leaf S i :: 'a) \<noteq> 1 \<longleftrightarrow> i \<notin> S" by (simp add: used_leaf_def)
  with Cons.IH [of "insert i S"] show ?case
    by (auto simp: used_leaf_fill)
qed

lemma used_leaf_clear:
  "set_leaf \<lparr>su_index = i, su_val = EMPTY\<rparr> (used_leaf S) = used_leaf (S - {i})"
  by (auto simp: set_leaf_def used_leaf_def fun_eq_iff)

lemma fold_clear:
  "fold set_leaf (map (\<lambda>i. \<lparr>su_index = i, su_val = EMPTY\<rparr>) is) (used_leaf S) =
    used_leaf (S - set is)"
proof (induction "is" arbitrary: S)
  case Nil
  then show ?case by simp
next
  case (Cons i "is")
  have "S - set (i # is) = S - {i} - set is" by auto
  with Cons.IH [of "S - {i}"] show ?case by (simp only: list.map fold_simps used_leaf_clear)
qed

lemma changing_clear:
  "changing (used_leaf S :: nat \<Rightarrow> 'a::zero_neq_one)
      (map (\<lambda>i. \<lparr>su_index = i, su_val = EMPTY\<rparr>) is) \<longleftrightarrow>
    distinct is \<and> set is \<subseteq> S"
proof (induction "is" arbitrary: S)
  case Nil
  then show ?case by simp
next
  case (Cons i "is")
  have "(used_leaf S i :: 'a) \<noteq> 0 \<longleftrightarrow> i \<in> S" by (simp add: used_leaf_def)
  with Cons.IH [of "S - {i}"] show ?case
    by (auto simp: used_leaf_clear)
qed


section \<open>What a batch does\<close>

lemma committed_after:
  assumes "distinct (map fst U)"
  shows "committed_nodes (commit (map (\<lambda>(k, v). Upsert_Node NULLIFIER_TREE_ID k v) U) db) =
    committed_nodes db ++ map_of U"
  using commit_nodes [OF assms, of NULLIFIER_TREE_ID db]
  by (auto simp: committed_nodes_def fun_eq_iff map_add_def split: option.splits)

text \<open>The entry of the root does not touch the other nodes.\<close>

lemma sparse_nodes_root:
  assumes "sparse_nodes h d f M"
  shows "sparse_nodes h d f (M(1 \<mapsto> v))"
  unfolding sparse_nodes_def
proof (intro allI impI)
  fix l j :: nat assume l: "l < d" "j < 2 ^ (d - l)"
  have "node_key d l j \<noteq> node_key d d 0"
    using l by (subst node_key_inj) auto
  then have "node_key d l j \<noteq> 1" by (simp add: node_key_def)
  then show "sparse_node h d (M(1 \<mapsto> v)) l j = mnode (parentOf h) f l j"
    using assms l by (simp add: sparse_node_def sparse_nodes_def)
qed

text \<open>An accepted batch leads to the tree over the changed leaves; only a batch that changes every
  leaf is accepted.\<close>

lemma update_accepted:
  fixes p :: "'a::zero_neq_one \<Rightarrow> 'a \<Rightarrow> 'a"
  assumes inv: "nl_inv p t db S" and range: "\<forall>u \<in> set us. su_index u < 2 ^ nl_depth t"
    and run: "smt_update_leaves db c t us strict = Ok out"
    and leaves: "fold set_leaf us (used_leaf S :: nat \<Rightarrow> 'a) = used_leaf S'" and S': "S' \<subseteq> {..<2 ^ nl_depth t}"
  shows "so_root out = mnode p (used_leaf S') (nl_depth t) 0"
    and "nl_inv p (so_tree out) (commit (so_ops out) db) S'"
    and "nl_depth (so_tree out) = nl_depth t"
    and "strict \<Longrightarrow> changing (used_leaf S :: nat \<Rightarrow> 'a) us"
proof -
  let ?h = "hasher_of 0 p (nl_depth t)"
  let ?SN = "getSiblingNodes db t (map su_index us)"
  have h: "nl_hasher t = ?h" and root: "fst (getRootNode db t) = mnode p (used_leaf S) (nl_depth t) 0"
    and nodes: "sparse_nodes ?h (nl_depth t) (used_leaf S) (committed_nodes db)"
    using inv by (simp_all add: nl_inv_def)
  obtain r U where batch: "foldM (smt_leaf_step ?h (nl_depth t) ?SN strict) us
        (fst (getRootNode db t), []) = Ok (r, U)"
    and out: "out = \<lparr>so_root = r, so_tree = t\<lparr>nl_rootNode := Some r\<rparr>,
         so_cache = fold (\<lambda>(k, v). cacheNode NULLIFIER_TREE_ID k v) (AList.update 1 r U) c,
         so_ops = map (\<lambda>(k, v). Upsert_Node NULLIFIER_TREE_ID k v) (AList.update 1 r U)\<rparr>"
    using run by (auto simp: smt_update_leaves_def smt_dryRun_def h)
  have "\<forall>u \<in> set us. su_index u < 2 ^ nl_depth t \<and>
      siblings_known (nl_depth t) ?SN (committed_nodes db) (su_index u)"
    using range siblings_known_getSiblingNodes [of "map su_index us" t _ db] by auto
  from smt_standard.smt_batch_ok [unfolded parentOf_hasher_of, OF batch root _ this] nodes
  have r: "r = mnode p (used_leaf S') (nl_depth t) 0"
    and nodes': "sparse_nodes ?h (nl_depth t) (used_leaf S') (committed_nodes db ++ map_of U)"
    and dist: "distinct (map fst U)" and "strict \<Longrightarrow> changing (used_leaf S :: nat \<Rightarrow> 'a) us"
    by (simp_all add: leaves)
  show "so_root out = mnode p (used_leaf S') (nl_depth t) 0" by (simp add: out r)
  show "nl_depth (so_tree out) = nl_depth t" by (simp add: out)
  show "strict \<Longrightarrow> changing (used_leaf S :: nat \<Rightarrow> 'a) us" by fact
  have "distinct (map fst (AList.update 1 r U))" using dist by (rule distinct_update)
  then have "committed_nodes (commit (so_ops out) db) =
      (committed_nodes db ++ map_of U)(1 \<mapsto> r)"
    unfolding out smt_outcome.simps by (simp only: committed_after map_add_update)
  then show "nl_inv p (so_tree out) (commit (so_ops out) db) S'"
    using sparse_nodes_root [OF nodes', of r] S' r
    by (simp add: nl_inv_def out h getRootNode_def)
qed

lemma update_runs:
  fixes p :: "'a::zero_neq_one \<Rightarrow> 'a \<Rightarrow> 'a"
  assumes inj: "\<And>a b a' b'. p a b = p a' b' \<Longrightarrow> a = a' \<and> b = b'"
    and inv: "nl_inv p t db S" and range: "\<forall>u \<in> set us. su_index u < 2 ^ nl_depth t"
    and changing: "changing (used_leaf S :: nat \<Rightarrow> 'a) us"
  shows "\<exists>out. smt_update_leaves db c t us strict = Ok out"
proof -
  let ?h = "hasher_of 0 p (nl_depth t)"
  let ?SN = "getSiblingNodes db t (map su_index us)"
  have h: "nl_hasher t = ?h" and root: "fst (getRootNode db t) = mnode p (used_leaf S) (nl_depth t) 0"
    and nodes: "sparse_nodes ?h (nl_depth t) (used_leaf S) (committed_nodes db)"
    using inv by (simp_all add: nl_inv_def)
  have "\<forall>u \<in> set us. su_index u < 2 ^ nl_depth t \<and>
      siblings_known (nl_depth t) ?SN (committed_nodes db) (su_index u)"
    using range siblings_known_getSiblingNodes [of "map su_index us" t _ db] by auto
  from smt_standard.smt_batch_runs [unfolded parentOf_hasher_of, OF inj changing root _ this, of "[]"]
    nodes obtain s where "foldM (smt_leaf_step ?h (nl_depth t) ?SN strict) us
        (fst (getRootNode db t), []) = Ok s"
    by fastforce
  then show ?thesis
    by (cases s) (simp add: smt_update_leaves_def smt_dryRun_def h)
qed

lemma not_Ok_iff: "(\<forall>y. m \<noteq> Inr y) \<longleftrightarrow> (\<exists>msg. m = Throw msg)"
  by (cases m) (auto, metis error.exhaust)


section \<open>Proofs of the tree\<close>

text \<open>The siblings the tree finds are those of the mathematical tree.\<close>

lemma smt_getSiblings_found:
  fixes p :: "'a::zero_neq_one \<Rightarrow> 'a \<Rightarrow> 'a"
  assumes inv: "nl_inv p t db S" and i: "i < 2 ^ nl_depth t"
  shows "smt_getSiblings db new_tree_cache t i =
    Ok (map (\<lambda>l. mnode p (used_leaf S) l (sib_pos (i div 2 ^ l))) [0..<nl_depth t])"
proof -
  obtain found where found: "getCachedSiblings new_tree_cache db (nl_depth t) NULLIFIER_TREE_ID i = Ok found"
    using leaf_path_in_range [OF i] by (simp add: getCachedSiblings_def Let_def)
  have h: "nl_hasher t = hasher_of 0 p (nl_depth t)"
    and nodes: "sparse_nodes (hasher_of 0 p (nl_depth t)) (nl_depth t) (used_leaf S) (committed_nodes db)"
    using inv by (simp_all add: nl_inv_def)
  have "(case map_of (rev found) (sibling_index (drop_bit l (leaf_path (nl_depth t) i))) of
        Some v \<Rightarrow> v | None \<Rightarrow> preHash (nl_hasher t) ! l) =
      mnode p (used_leaf S) l (sib_pos (i div 2 ^ l))" if l: "l < nl_depth t" for l
  proof -
    let ?k = "sibling_index (drop_bit l (leaf_path (nl_depth t) i))"
    have "map_of (rev found) ?k = committed_nodes db ?k"
      using l unfolding getCachedSiblings_visible [OF found]
      by (auto simp: committed_nodes_def visible_def new_tree_cache_def)
    moreover have "?k = node_key (nl_depth t) l (sib_pos (i div 2 ^ l))"
      using i l by (simp add: node_key_path sibling_node_key)
    moreover have "sib_pos (i div 2 ^ l) < 2 ^ (nl_depth t - l)"
      using i l by (simp add: sib_pos_bound div_bound)
    ultimately show ?thesis
      using nodes l unfolding sparse_nodes_def sparse_node_def parentOf_hasher_of h by metis
  qed
  then show ?thesis
    by (simp add: smt_getSiblings_def found)
qed

lemma smt_proof_iff:
  fixes p :: "'a::zero_neq_one \<Rightarrow> 'a \<Rightarrow> 'a"
  assumes inj: "\<And>a b a' b'. p a b = p a' b' \<Longrightarrow> a = a' \<and> b = b'"
    and inv: "nl_inv p t db S" and i: "i < 2 ^ nl_depth t"
  shows "smt_proof db new_tree_cache t leaf msg i =
    (if toBN_leaf leaf = (used_leaf S i :: 'a)
     then Ok \<lparr>mp_root = mnode p (used_leaf S) (nl_depth t) 0, mp_index = i, mp_leaf = toBN_leaf leaf,
       mp_siblings = map (\<lambda>l. mnode p (used_leaf S) l (sib_pos (i div 2 ^ l))) [0..<nl_depth t]\<rparr>
     else Throw msg)"
proof -
  let ?h = "hasher_of 0 p (nl_depth t)"
  let ?S = "map (\<lambda>l. mnode p (used_leaf S) l (sib_pos (i div 2 ^ l))) [0..<nl_depth t]"
  have h: "nl_hasher t = ?h"
    and root: "fst (getRootNode db t) = mnode p (used_leaf S) (nl_depth t) 0"
    using inv by (simp_all add: nl_inv_def)
  have true_leaf: "merkleRoot ?h i (used_leaf S i) ?S = mnode p (used_leaf S) (nl_depth t) 0"
    by (rule merkleRoot_mnode [where h = ?h, unfolded parentOf_hasher_of]) (use i in auto)
  have "merkleRoot ?h i (toBN_leaf leaf) ?S = mnode p (used_leaf S) (nl_depth t) 0 \<longleftrightarrow>
      toBN_leaf leaf = (used_leaf S i :: 'a)"
  proof
    assume "merkleRoot ?h i (toBN_leaf leaf) ?S = mnode p (used_leaf S) (nl_depth t) 0"
    with true_leaf have "merkleRoot ?h i (toBN_leaf leaf) ?S = merkleRoot ?h i (used_leaf S i) ?S"
      by simp
    with merkleRoot_inj [where h = ?h, unfolded parentOf_hasher_of, OF inj]
    show "toBN_leaf leaf = (used_leaf S i :: 'a)" by blast
  qed (use true_leaf in simp)
  then show ?thesis
    by (simp add: smt_proof_def smt_getSiblings_found [OF inv i] verifyProof_def h root)
qed

section \<open>Properties\<close>

text \<open>The empty tree.\<close>

lemma nl_inv_empty:
  fixes p :: "'a::zero_neq_one \<Rightarrow> 'a \<Rightarrow> 'a"
  assumes "nl_hasher t = hasher_of 0 p (nl_depth t)" and "nl_rootNode t = None"
    and "\<And>k. tree_nodes db (NULLIFIER_TREE_ID, k) = None"
  shows "nl_inv p t db {}"
proof -
  have empty: "used_leaf {} = (\<lambda>_. 0)" by (simp add: used_leaf_def fun_eq_iff)
  have "mnode p (\<lambda>_. 0) l j = preHash (hasher_of 0 p (nl_depth t)) ! l" if "l \<le> nl_depth t" for l j
    using standard.mnode_empty [of l "nl_depth t" j "\<lambda>_. 0" 0 p] that by simp
  then show ?thesis
    using assms standard.genesisRoot_empty_tree [of 0 p "nl_depth t"]
    by (simp add: nl_inv_def getRootNode_def Let_def empty sparse_nodes_def sparse_node_def committed_nodes_def)
qed

text \<open>C6: fresh nullifiers are accepted. Without collisions, a batch of distinct nullifiers none of
  which is used is accepted; the new root is that of the tree with these leaves filled, and the
  committed tree represents the larger set.\<close>

theorem nullify_fresh:
  fixes p :: "'a::zero_neq_one \<Rightarrow> 'a \<Rightarrow> 'a"
  assumes "\<And>a b a' b'. p a b = p a' b' \<Longrightarrow> a = a' \<and> b = b'"
    and "nl_inv p t db S" and "distinct ns" and "set ns \<inter> S = {}" and "set ns \<subseteq> {..<2 ^ nl_depth t}"
  shows "\<exists>out. nullify db c t ns = Ok out \<and>
    so_root out = mnode p (used_leaf (S \<union> set ns)) (nl_depth t) 0 \<and>
    nl_inv p (so_tree out) (commit (so_ops out) db) (S \<union> set ns)"
proof -
  let ?us = "map (\<lambda>i. \<lparr>su_index = i, su_val = FILLED\<rparr>) ns"
  have range: "\<forall>u \<in> set ?us. su_index u < 2 ^ nl_depth t" using assms(5) by auto
  have "changing (used_leaf S :: nat \<Rightarrow> 'a) ?us" using assms(3,4) by (simp add: changing_fill)
  from update_runs [OF assms(1,2) range this] obtain out
    where out: "smt_update_leaves db c t ?us True = Ok out" by blast
  moreover have "S \<union> set ns \<subseteq> {..<2 ^ nl_depth t}" using assms(2,5) by (simp add: nl_inv_def)
  ultimately show ?thesis
    using update_accepted(1,2) [OF assms(2) range out fold_fill] by (simp add: nullify_def)
qed

text \<open>C7: no double spend. A batch that contains a used nullifier, or the same nullifier twice, is
  refused, whatever the hash.\<close>

theorem nullify_used_refused:
  fixes p :: "'a::zero_neq_one \<Rightarrow> 'a \<Rightarrow> 'a"
  assumes "nl_inv p t db S" and "set ns \<subseteq> {..<2 ^ nl_depth t}"
    and "\<not> (distinct ns \<and> set ns \<inter> S = {})"
  shows "\<exists>msg. nullify db c t ns = Throw msg"
proof -
  let ?us = "map (\<lambda>i. \<lparr>su_index = i, su_val = FILLED\<rparr>) ns"
  have range: "\<forall>u \<in> set ?us. su_index u < 2 ^ nl_depth t" using assms(2) by auto
  have "S \<union> set ns \<subseteq> {..<2 ^ nl_depth t}" using assms(1,2) by (simp add: nl_inv_def)
  then have "smt_update_leaves db c t ?us True \<noteq> Ok out" for out
    using update_accepted(4) [OF assms(1) range _ fold_fill] assms(3)
    by (metis (no_types, lifting) changing_fill)
  then show ?thesis unfolding nullify_def not_Ok_iff [symmetric] by blast
qed

text \<open>The dry run returns the root that the update leads to, and refuses what it refuses.\<close>

theorem dryRunNullify_predicts_nullify:
  "dryRunNullify db t ns = bind_result (nullify db c t ns) (\<lambda>out. Ok (so_root out))"
  by (cases "smt_dryRun db t (map (\<lambda>i. \<lparr>su_index = i, su_val = FILLED\<rparr>) ns) True")
    (auto simp: dryRunNullify_def nullify_def smt_update_leaves_def)

text \<open>an inclusion proof is handed out exactly for the used nullifiers and a non-inclusion
  proof exactly for the others.\<close>

theorem inclusion_proofs_decide_use:
  fixes p :: "'a::zero_neq_one \<Rightarrow> 'a \<Rightarrow> 'a"
  assumes "\<And>a b a' b'. p a b = p a' b' \<Longrightarrow> a = a' \<and> b = b'"
    and "nl_inv p t db S" and "i < 2 ^ nl_depth t"
  shows "((\<exists>prf. getInclusionProof db new_tree_cache t i = Ok prf) \<longleftrightarrow> i \<in> S) \<and>
    ((\<exists>prf. getNonInclusionProof db new_tree_cache t i = Ok prf) \<longleftrightarrow> i \<notin> S)"
proof -
  have decide: "(\<exists>prf. smt_proof db new_tree_cache t leaf msg i = Ok prf) \<longleftrightarrow>
      toBN_leaf leaf = (used_leaf S i :: 'a)" for leaf msg
    using smt_proof_iff [OF assms, of leaf msg] by simp
  show ?thesis
    unfolding getInclusionProof_def getNonInclusionProof_def decide by (simp add: used_leaf_def)
qed

text \<open>Recovering a committed batch restores the root and the set of used nullifiers from
  before it.\<close>

theorem recover_undoes_nullify:
  fixes p :: "'a::zero_neq_one \<Rightarrow> 'a \<Rightarrow> 'a"
  assumes "\<And>a b a' b'. p a b = p a' b' \<Longrightarrow> a = a' \<and> b = b'"
    and "nl_inv p t db S" and "set ns \<subseteq> {..<2 ^ nl_depth t}"
    and "nullify db c t ns = Ok out"
  shows "\<exists>out'. recover (commit (so_ops out) db) c' (so_tree out) ns = Ok out' \<and>
    so_root out' = fst (getRootNode db t) \<and>
    nl_inv p (so_tree out') (commit (so_ops out') (commit (so_ops out) db)) S"
proof -
  let ?us = "map (\<lambda>i. \<lparr>su_index = i, su_val = FILLED\<rparr>) ns"
  let ?vs = "map (\<lambda>i. \<lparr>su_index = i, su_val = EMPTY\<rparr>) ns"
  let ?db = "commit (so_ops out) db" and ?t = "so_tree out"
  have range: "\<forall>u \<in> set ?us. su_index u < 2 ^ nl_depth t" using assms(3) by auto
  have S: "S \<union> set ns \<subseteq> {..<2 ^ nl_depth t}" using assms(2,3) by (simp add: nl_inv_def)
  note first = update_accepted [OF assms(2) range assms(4) [unfolded nullify_def] fold_fill S]
  have fresh: "distinct ns \<and> set ns \<inter> S = {}" using first(4) by (simp add: changing_fill)
  then have restored: "S \<union> set ns - set ns = S" by auto
  have range': "\<forall>u \<in> set ?vs. su_index u < 2 ^ nl_depth ?t" using assms(3) by (auto simp: first(3))
  have "changing (used_leaf (S \<union> set ns) :: nat \<Rightarrow> 'a) ?vs"
    using fresh by (simp add: changing_clear)
  from update_runs [OF assms(1) first(2) range' this] obtain out'
    where out': "smt_update_leaves ?db c' ?t ?vs True = Ok out'" by blast
  have "S \<subseteq> {..<2 ^ nl_depth ?t}" using S by (simp add: first(3))
  note second = update_accepted(1,2) [OF first(2) range' out' fold_clear [of ns "S \<union> set ns", unfolded restored] this]
  have "fst (getRootNode db t) = mnode p (used_leaf S) (nl_depth t) 0"
    using assms(2) by (simp add: nl_inv_def)
  with out' second show ?thesis by (simp add: recover_def first(3))
qed

text \<open>among the nullifiers asked for, the used ones are found, where the table holds no other
  tree.\<close>

theorem findUsedNullifier_exact:
  fixes p :: "'a::zero_neq_one \<Rightarrow> 'a \<Rightarrow> 'a"
  assumes "nl_inv p t db S" and "0 < nl_depth t" and "set ns \<subseteq> {..<2 ^ nl_depth t}"
  shows "set (findUsedNullifier db [NULLIFIER_TREE_ID] t ns) = set ns \<inter> S"
proof -
  have key: "leaf_path (nl_depth t) i = node_key (nl_depth t) 0 i" if "i \<in> set ns" for i
    using assms(3) that node_key_path [of i "nl_depth t" 0] by auto
  have filled: "(case tree_nodes db (NULLIFIER_TREE_ID, leaf_path (nl_depth t) i) of
      None \<Rightarrow> False | Some v \<Rightarrow> v = toBN_leaf FILLED) \<longleftrightarrow> i \<in> S" if "i \<in> set ns" for i
  proof -
    have "sparse_node (hasher_of 0 p (nl_depth t)) (nl_depth t) (committed_nodes db) 0 i = used_leaf S i"
      using assms that by (auto simp: nl_inv_def sparse_nodes_def)
    then show ?thesis
      unfolding key [OF that] sparse_node_def committed_nodes_def standard.preHash_0
      by (auto simp: used_leaf_def split: option.splits if_splits)
  qed
  have minus: "leaf_path (nl_depth t) i - 2 ^ nl_depth t = i" if "i \<in> set ns" for i
    using assms(3) that by (auto simp: leaf_path_add)
  show ?thesis
    unfolding findUsedNullifier_def Let_def
    by (force simp: filled minus push_bit_of_1 simp del: toBN_leaf.simps)
qed


section \<open>Witnesses\<close>

text \<open>An empty tree of depth 2 over the free hash.\<close>

definition sample_smt :: "term_hash nullifier_tree" where
  "sample_smt = \<lparr>nl_depth = 2, nl_hasher = hasher_of 0 HNode 2, nl_rootNode = None\<rparr>"

definition sample_smt_db :: "term_hash tree_db" where
  "sample_smt_db = \<lparr>tree_nodes = Map.empty, light_rows = Map.empty,
    bootstrap_rows = [], block_rows = []\<rparr>"

lemma sample_smt_inv: "nl_inv HNode sample_smt sample_smt_db {}"
  by (rule nl_inv_empty) (simp_all add: sample_smt_def sample_smt_db_def)

lemma sample_smt_depth [simp]: "nl_depth sample_smt = 2"
  by (simp add: sample_smt_def)

lemma HNode_injective: "HNode a b = HNode a' b' \<Longrightarrow> a = a' \<and> b = b'"
  by simp

lemma sample_range [simp]: "{1, 3} \<subseteq> {..<(2::nat) ^ 2}" "{1} \<subseteq> {..<(2::nat) ^ 2}"
  by auto

theorem nullify_fresh_witness:
  "\<exists>out. nullify sample_smt_db new_tree_cache sample_smt [1, 3] = Ok out \<and>
     so_root out = HNode (HNode 0 1) (HNode 0 1)"
  using nullify_fresh [OF HNode_injective sample_smt_inv, of "[1, 3]" new_tree_cache]
  by (auto simp: used_leaf_def numeral_2_eq_2 numeral_3_eq_3)

theorem nullify_used_refused_witness:
  "\<exists>msg. nullify sample_smt_db new_tree_cache sample_smt [1, 1] = Throw msg"
  using nullify_used_refused [OF sample_smt_inv, of "[1, 1]" new_tree_cache] by simp

theorem inclusion_proofs_decide_use_witness:
  "(\<nexists>prf. getInclusionProof sample_smt_db new_tree_cache sample_smt 2 = Ok prf) \<and>
   (\<exists>prf. getNonInclusionProof sample_smt_db new_tree_cache sample_smt 2 = Ok prf)"
  using inclusion_proofs_decide_use [OF HNode_injective sample_smt_inv, of 2] by simp

theorem recover_undoes_nullify_witness:
  "\<exists>out out'. nullify sample_smt_db new_tree_cache sample_smt [1, 3] = Ok out \<and>
     recover (commit (so_ops out) sample_smt_db) new_tree_cache (so_tree out) [1, 3] = Ok out' \<and>
     so_root out' = fst (getRootNode sample_smt_db sample_smt)"
proof -
  obtain out where out: "nullify sample_smt_db new_tree_cache sample_smt [1, 3] = Ok out"
    unfolding nullify_def
    using update_runs [OF HNode_injective sample_smt_inv,
        of "map (\<lambda>i. \<lparr>su_index = i, su_val = FILLED\<rparr>) [1, 3]" new_tree_cache True]
      changing_fill [of "{}" "[1, 3]"] by auto
  from recover_undoes_nullify [OF HNode_injective sample_smt_inv _ this, of new_tree_cache] out
  show ?thesis by auto
qed

theorem findUsedNullifier_exact_witness:
  "findUsedNullifier sample_smt_db [NULLIFIER_TREE_ID] sample_smt [1] = []"
  using findUsedNullifier_exact [OF sample_smt_inv, of "[1]"] by simp

end
