(* ===== verification/Grove_Proofs.thy ===== *)
theory Grove_Proofs
  imports Grove Nullifier_History
begin

text \<open>
  The grove over whole patches: applying a patch keeps the invariants of the three trees, the dry run
  predicts its result, and the notes the node tracks have their Merkle proofs.
\<close>

section \<open>Padding\<close>

lemma pad_leaves_hashes:
  "map lf_hash (pad_leaves sz z items) =
    map lf_hash items @ replicate (sz * ceil_div (length items) sz - length items) z"
  by (simp add: pad_leaves_def Let_def map_replicate_const)

lemma length_pad_leaves: "0 < sz \<Longrightarrow> length (pad_leaves sz z items) = sz * ceil_div (length items) sz"
  using ceil_div_mult_ge [of sz "length items"] by (simp add: pad_leaves_def Let_def)

lemma append_padding:
  assumes "empty_from z n f"
  shows "append_leaves f n (xs @ replicate k z) = append_leaves f n xs"
proof -
  have "empty_from z (n + length xs) (append_leaves f n xs)"
    using assms by (auto simp: empty_from_def append_leaves_nth)
  then show ?thesis by (simp add: append_leaves_append append_leaves_padding)
qed

lemma untracked_hashes [simp]: "map lf_hash (untracked items) = map lf_hash items"
  by (simp add: untracked_def)

lemma untracked_length [simp]: "length (untracked items) = length items"
  by (simp add: untracked_def)

text \<open>The append of the padded leaves ends where the dry run of the leaves says.\<close>

lemma append_padded_dry:
  assumes tree: "tg_hasher (lt_config t) = hasher_of 0 p (lt_depth t)"
    and rep: "represents (hasher_of 0 p (lt_depth t)) 0 (lt_depth t) f (lt_data t)"
    and sz: "0 < sz" and run: "append_padded sz msg (Some t) c tracked items = Ok out"
  shows "td_root (dryAppend t (untracked items)) = lt_root (ao_tree out)"
    and "td_index (dryAppend t (untracked items)) + sz * ceil_div (length items) sz - length items =
      latestLeafIndex (ao_tree out)"
proof -
  let ?pad = "pad_leaves sz 0 items"
  have out: "out = tree_append t c tracked ?pad"
    and room: "latestLeafIndex t + sz * ceil_div (length items) sz \<le> 2 ^ lt_depth t"
    using run by (auto simp: append_padded_def maxSize_def split: if_splits)
  have ge: "length items \<le> sz * ceil_div (length items) sz" by (rule ceil_div_mult_ge [OF sz])
  have "empty_from 0 (latestLeafIndex t) f"
    using rep by (simp add: represents_def latestLeafIndex_def)
  then have same: "append_leaves f (latestLeafIndex t) (map lf_hash ?pad) =
      append_leaves f (latestLeafIndex t) (map lf_hash items)"
    by (simp add: pad_leaves_hashes append_padding)
  have padded: "td_root (dryAppend t ?pad) =
      mnode p (append_leaves f (latestLeafIndex t) (map lf_hash items)) (lt_depth t) 0"
    using dryAppend_represents [OF tree rep, of ?pad] room
    by (simp add: length_pad_leaves [OF sz] represents_def same)
  have plain: "td_root (dryAppend t (untracked items)) =
      mnode p (append_leaves f (latestLeafIndex t) (map lf_hash items)) (lt_depth t) 0"
    "td_index (dryAppend t (untracked items)) = latestLeafIndex t + length items"
    using dryAppend_represents [OF tree rep, of "untracked items"] room ge
    by (simp_all add: represents_def)
  have "lt_data (ao_tree out) = dryAppend t ?pad"
    unfolding out dryAppend_tree_append [of t ?pad c tracked] by (simp add: tree_append_def Let_def)
  with padded plain show "td_root (dryAppend t (untracked items)) = lt_root (ao_tree out)"
    by (simp add: lt_root_def)
  show "td_index (dryAppend t (untracked items)) + sz * ceil_div (length items) sz - length items =
      latestLeafIndex (ao_tree out)"
    using plain(2) ge by (simp add: out tree_append_fields length_pad_leaves [OF sz])
qed

section \<open>Writes of other trees\<close>

fun writes_nodes_of :: "string \<Rightarrow> 'a db_op \<Rightarrow> bool" where
  "writes_nodes_of treeId (Upsert_Node i k v) = (i = treeId)"
| "writes_nodes_of treeId _ = False"

lemma commit_other:
  "\<forall>p \<in> set ops. \<not> writes_nodes_of treeId p \<Longrightarrow>
    tree_nodes (commit ops db) (treeId, k) = tree_nodes db (treeId, k)"
proof (induction ops arbitrary: db)
  case Nil
  then show ?case by simp
next
  case (Cons p ops)
  then have "tree_nodes (apply_op p db) (treeId, k) = tree_nodes db (treeId, k)"
    by (cases p) auto
  with Cons show ?case by simp
qed

lemma commit_cong:
  assumes "\<And>k. tree_nodes db (treeId, k) = tree_nodes db' (treeId, k)"
  shows "tree_nodes (commit ops db) (treeId, k) = tree_nodes (commit ops db') (treeId, k)"
  using assms
proof (induction ops arbitrary: db db')
  case Nil
  then show ?case by simp
next
  case (Cons p ops)
  have "tree_nodes (apply_op p db) (treeId, k) = tree_nodes (apply_op p db') (treeId, k)" for k
    using Cons.prems by (cases p) auto
  from Cons.IH [OF this] show ?case by simp
qed

lemma tree_append_writes:
  "\<forall>p \<in> set (ao_ops (tree_append t c tracked leaves)). treeId \<noteq> md_id (lt_metadata t) \<longrightarrow>
    \<not> writes_nodes_of treeId p"
  by (auto simp: tree_append_def Let_def)

lemma update_writes:
  assumes "smt_update_leaves db c t us strict = Ok out"
  shows "\<forall>p \<in> set (so_ops out). treeId \<noteq> NULLIFIER_TREE_ID \<longrightarrow> \<not> writes_nodes_of treeId p"
  using assms by (auto simp: smt_update_leaves_def)

lemma recordBootstrap_writes: "\<forall>p \<in> set (recordBootstrap ut wt header). \<not> writes_nodes_of treeId p"
  by (auto simp: recordBootstrap_def Let_def split: option.splits)

lemma tree_append_cache_irrelevant:
  "ao_tree (tree_append t c tracked leaves) = ao_tree (tree_append t c' tracked leaves)"
  "ao_ops (tree_append t c tracked leaves) = ao_ops (tree_append t c' tracked leaves)"
  by (simp_all add: tree_append_def Let_def)

lemma nl_inv_cong:
  assumes "nl_inv p t db S" and "\<And>k. tree_nodes db' (NULLIFIER_TREE_ID, k) = tree_nodes db (NULLIFIER_TREE_ID, k)"
  shows "nl_inv p t db' S"
proof -
  have "committed_nodes db' = committed_nodes db"
    using assms(2) by (simp add: committed_nodes_def fun_eq_iff)
  moreover have "getRootNode db' t = getRootNode db t"
    using assms(2) by (simp add: getRootNode_def split: option.splits)
  ultimately show ?thesis using assms(1) by (simp add: nl_inv_def)
qed


section \<open>The invariant of a grove\<close>

text \<open>
  The UTXO tree holds the leaves \<open>fu\<close> and can prove those in \<open>Tu\<close>, the withdrawal tree likewise, and
  the nullifier tree holds the used nullifiers \<open>S\<close>.
\<close>

definition grove_inv ::
    "('a::zero_neq_one \<Rightarrow> 'a \<Rightarrow> 'a) \<Rightarrow> ('a \<Rightarrow> 'a \<Rightarrow> 'a) \<Rightarrow> ('a \<Rightarrow> 'a \<Rightarrow> 'a) \<Rightarrow> 'a grove \<Rightarrow>
     'a light_tree \<Rightarrow> 'a light_tree \<Rightarrow> 'a nullifier_tree \<Rightarrow> 'a tree_db \<Rightarrow>
     (nat \<Rightarrow> 'a) \<Rightarrow> nat set \<Rightarrow> (nat \<Rightarrow> 'a) \<Rightarrow> nat set \<Rightarrow> nat set \<Rightarrow> bool" where
  "grove_inv pu pw pn g ut wt nt db fu Tu fw Tw S \<longleftrightarrow>
     gr_utxoTree g = Some ut \<and> gr_withdrawalTree g = Some wt \<and> gr_nullifierTree g = Some nt \<and>
     tree_history (hasher_of 0 pu (lt_depth ut)) 0 (gc_fullSync (gr_config g)) fu Tu ut db \<and>
     tree_history (hasher_of 0 pw (lt_depth wt)) 0 (gc_fullSync (gr_config g)) fw Tw wt db \<and>
     nl_inv pn nt db S \<and>
     distinct [md_id (lt_metadata ut), md_id (lt_metadata wt), NULLIFIER_TREE_ID] \<and>
     0 < gc_utxoSubTreeSize (gr_config g) \<and> 0 < gc_withdrawalSubTreeSize (gr_config g)"

text \<open>One tree through a whole patch: its own writes and those of the others.\<close>

lemma history_through_patch:
  assumes hist: "tree_history (hasher_of 0 p (lt_depth t)) 0 sync f T t db" and sz: "0 < sz"
    and run: "append_padded sz msg (Some t) c tracked items = Ok out"
    and tracked: "kept sync tracked \<subseteq> T" "\<forall>i \<in> set tracked. i < 2 ^ lt_depth t"
    and before: "\<forall>q \<in> set ops1. \<not> writes_nodes_of (md_id (lt_metadata t)) q"
    and after: "\<forall>q \<in> set ops2. \<not> writes_nodes_of (md_id (lt_metadata t)) q"
  shows "tree_history (hasher_of 0 p (lt_depth (ao_tree out))) 0 sync
      (append_leaves f (latestLeafIndex t) (map lf_hash items))
      (tracked_leaves t tracked (pad_leaves sz 0 items)) (ao_tree out)
      (commit (ops1 @ ao_ops out @ ops2) db)"
proof -
  let ?pad = "pad_leaves sz 0 items" and ?db1 = "commit ops1 db"
  have out: "out = tree_append t c tracked ?pad"
    and room: "latestLeafIndex t + length ?pad \<le> 2 ^ lt_depth t"
    using run by (auto simp: append_padded_def maxSize_def length_pad_leaves [OF sz] split: if_splits)
  have "tree_history (hasher_of 0 p (lt_depth t)) 0 sync f T t ?db1"
    by (rule tree_history.elsewhere [OF hist]) (rule commit_other [OF before])
  from tree_history.grow [OF this tracked room refl]
  have own: "tree_history (hasher_of 0 p (lt_depth t)) 0 sync
      (append_leaves f (latestLeafIndex t) (map lf_hash ?pad)) (tracked_leaves t tracked ?pad)
      (ao_tree out) (commit (ao_ops out) ?db1)"
    unfolding out tree_append_cache_irrelevant [of t c tracked ?pad new_tree_cache] .
  have same: "append_leaves f (latestLeafIndex t) (map lf_hash ?pad) =
      append_leaves f (latestLeafIndex t) (map lf_hash items)"
    using history_facts(3) [OF hist]
    by (simp add: pad_leaves_hashes append_padding represents_def latestLeafIndex_def)
  have rest: "tree_nodes (commit ops2 (commit (ao_ops out) ?db1)) (md_id (lt_metadata (ao_tree out)), k) =
      tree_nodes (commit (ao_ops out) ?db1) (md_id (lt_metadata (ao_tree out)), k)" for k
    using commit_other [OF after] by (simp add: out tree_append_fields)
  have "lt_depth (ao_tree out) = lt_depth t" by (simp add: out tree_append_fields)
  then show ?thesis
    using tree_history.elsewhere [OF own rest] unfolding same commit_append by simp
qed

text \<open>The steps of a patch that succeeded.\<close>

lemma applyGrovePatch_steps:
  assumes "applyGrovePatch db ur wr g patch = Ok (g', ops)"
    and "gr_utxoTree g = Some ut" and "gr_withdrawalTree g = Some wt" and "gr_nullifierTree g = Some nt"
  obtains uout wout nout boot where
    "append_padded (gc_utxoSubTreeSize (gr_config g)) ''utxo tree flushes.'' (Some ut) (gr_treeCache g)
      (utxo_indexesOfTrackingLeaves ur (gc_zkAddressesToObserve (gr_config g)) ut) (gp_utxos patch) =
      Ok uout"
    "append_padded (gc_withdrawalSubTreeSize (gr_config g)) ''withdrawal tree flushes'' (Some wt)
      (ao_cache uout) (withdrawal_indexesOfTrackingLeaves wr (gc_addressesToObserve (gr_config g)) wt)
      (gp_withdrawals patch) = Ok wout"
    "nullify db (ao_cache wout) nt (gp_nullifiers patch) = Ok nout"
    "gr_config g' = gr_config g" "gr_utxoTree g' = Some (ao_tree uout)"
    "gr_withdrawalTree g' = Some (ao_tree wout)" "gr_nullifierTree g' = Some (so_tree nout)"
    "ops = ao_ops uout @ ao_ops wout @ so_ops nout @ boot"
    "\<And>treeId q. q \<in> set boot \<Longrightarrow> \<not> writes_nodes_of treeId q"
proof -
  obtain uout where u: "append_padded (gc_utxoSubTreeSize (gr_config g)) ''utxo tree flushes.''
      (Some ut) (gr_treeCache g)
      (utxo_indexesOfTrackingLeaves ur (gc_zkAddressesToObserve (gr_config g)) ut) (gp_utxos patch) =
      Ok uout"
    using assms by (auto simp: applyGrovePatch_def appendUTXOs_def)
  obtain wout where w: "append_padded (gc_withdrawalSubTreeSize (gr_config g))
      ''withdrawal tree flushes'' (Some wt) (ao_cache uout)
      (withdrawal_indexesOfTrackingLeaves wr (gc_addressesToObserve (gr_config g)) wt)
      (gp_withdrawals patch) = Ok wout"
    using assms u by (auto simp: applyGrovePatch_def appendUTXOs_def appendWithdrawals_def Let_def)
  obtain nout where n: "nullify db (ao_cache wout) nt (gp_nullifiers patch) = Ok nout"
    using assms u w
    by (auto simp: applyGrovePatch_def appendUTXOs_def appendWithdrawals_def markAsNullified_def Let_def)
  define boot where "boot = (if gc_fullSync (gr_config g)
      then recordBootstrap (ao_tree uout) (ao_tree wout) (gp_header patch) else [])"
  have "(g', ops) = (g\<lparr>gr_utxoTree := Some (ao_tree uout), gr_withdrawalTree := Some (ao_tree wout),
      gr_nullifierTree := Some (so_tree nout), gr_treeCache := so_cache nout\<rparr>,
      ao_ops uout @ ao_ops wout @ so_ops nout @ boot)"
    using assms u w n
    by (simp add: applyGrovePatch_def appendUTXOs_def appendWithdrawals_def markAsNullified_def Let_def
        boot_def)
  then show thesis
    using recordBootstrap_writes [of "ao_tree uout" "ao_tree wout" "gp_header patch"]
    by (intro that [OF u w n, of boot]) (auto simp: boot_def split: if_splits)
qed

lemma grove_patch_inv:
  assumes inv: "grove_inv pu pw pn g ut wt nt db fu Tu fw Tw S"
    and run: "applyGrovePatch db ur wr g patch = Ok (g', ops)"
    and tu: "tu = utxo_indexesOfTrackingLeaves ur (gc_zkAddressesToObserve (gr_config g)) ut"
      "kept (gc_fullSync (gr_config g)) tu \<subseteq> Tu" "\<forall>i \<in> set tu. i < 2 ^ lt_depth ut"
    and tw: "tw = withdrawal_indexesOfTrackingLeaves wr (gc_addressesToObserve (gr_config g)) wt"
      "kept (gc_fullSync (gr_config g)) tw \<subseteq> Tw" "\<forall>i \<in> set tw. i < 2 ^ lt_depth wt"
    and nulls: "set (gp_nullifiers patch) \<subseteq> {..<2 ^ nl_depth nt}"
  shows "\<exists>ut' wt' nt'. grove_inv pu pw pn g' ut' wt' nt' (commit ops db)
      (append_leaves fu (latestLeafIndex ut) (map lf_hash (gp_utxos patch)))
      (tracked_leaves ut tu (pad_leaves (gc_utxoSubTreeSize (gr_config g)) 0 (gp_utxos patch)))
      (append_leaves fw (latestLeafIndex wt) (map lf_hash (gp_withdrawals patch)))
      (tracked_leaves wt tw (pad_leaves (gc_withdrawalSubTreeSize (gr_config g)) 0 (gp_withdrawals patch)))
      (S \<union> set (gp_nullifiers patch)) \<and>
      lt_depth ut' = lt_depth ut \<and> lt_depth wt' = lt_depth wt \<and> nl_depth nt' = nl_depth nt \<and>
      gr_config g' = gr_config g"
proof -
  note parts = inv [unfolded grove_inv_def]
  have hu: "tree_history (hasher_of 0 pu (lt_depth ut)) 0 (gc_fullSync (gr_config g)) fu Tu ut db"
    and hw: "tree_history (hasher_of 0 pw (lt_depth wt)) 0 (gc_fullSync (gr_config g)) fw Tw wt db"
    and hn: "nl_inv pn nt db S" and ids: "md_id (lt_metadata ut) \<noteq> md_id (lt_metadata wt)"
      "md_id (lt_metadata ut) \<noteq> NULLIFIER_TREE_ID" "md_id (lt_metadata wt) \<noteq> NULLIFIER_TREE_ID"
    and sizes: "0 < gc_utxoSubTreeSize (gr_config g)" "0 < gc_withdrawalSubTreeSize (gr_config g)"
    using parts by simp_all
  obtain uout wout nout boot where
    u: "append_padded (gc_utxoSubTreeSize (gr_config g)) ''utxo tree flushes.'' (Some ut)
      (gr_treeCache g) tu (gp_utxos patch) = Ok uout"
    and w: "append_padded (gc_withdrawalSubTreeSize (gr_config g)) ''withdrawal tree flushes''
      (Some wt) (ao_cache uout) tw (gp_withdrawals patch) = Ok wout"
    and n: "nullify db (ao_cache wout) nt (gp_nullifiers patch) = Ok nout"
    and g': "gr_config g' = gr_config g" "gr_utxoTree g' = Some (ao_tree uout)"
      "gr_withdrawalTree g' = Some (ao_tree wout)" "gr_nullifierTree g' = Some (so_tree nout)"
    and ops: "ops = ao_ops uout @ ao_ops wout @ so_ops nout @ boot"
    and boot: "\<And>treeId q. q \<in> set boot \<Longrightarrow> \<not> writes_nodes_of treeId q"
    unfolding tu(1) tw(1) using applyGrovePatch_steps [OF run] parts by metis
  have uout: "uout = tree_append ut (gr_treeCache g) tu (pad_leaves (gc_utxoSubTreeSize (gr_config g)) 0
      (gp_utxos patch))"
    and wout: "wout = tree_append wt (ao_cache uout) tw (pad_leaves
      (gc_withdrawalSubTreeSize (gr_config g)) 0 (gp_withdrawals patch))"
    using u w by (auto simp: append_padded_def split: if_splits)
  have range: "\<forall>x \<in> set (map (\<lambda>i. \<lparr>su_index = i, su_val = FILLED\<rparr>) (gp_nullifiers patch)).
      su_index x < 2 ^ nl_depth nt"
    using nulls by auto
  have S': "S \<union> set (gp_nullifiers patch) \<subseteq> {..<2 ^ nl_depth nt}"
    using hn nulls by (simp add: nl_inv_def)
  note n' = n [unfolded nullify_def]
  have wn: "\<not> writes_nodes_of i q" if "q \<in> set (so_ops nout)" "i \<noteq> NULLIFIER_TREE_ID" for i q
    using update_writes [OF n'] that by blast
  have wu: "\<not> writes_nodes_of i q" if "q \<in> set (ao_ops uout)" "i \<noteq> md_id (lt_metadata ut)" for i q
    using tree_append_writes that unfolding uout by blast
  have ww: "\<not> writes_nodes_of i q" if "q \<in> set (ao_ops wout)" "i \<noteq> md_id (lt_metadata wt)" for i q
    using tree_append_writes that unfolding wout by blast
  have "tree_history (hasher_of 0 pu (lt_depth (ao_tree uout))) 0 (gc_fullSync (gr_config g))
      (append_leaves fu (latestLeafIndex ut) (map lf_hash (gp_utxos patch)))
      (tracked_leaves ut tu (pad_leaves (gc_utxoSubTreeSize (gr_config g)) 0 (gp_utxos patch)))
      (ao_tree uout) (commit ([] @ ao_ops uout @ (ao_ops wout @ so_ops nout @ boot)) db)"
    by (rule history_through_patch [OF hu sizes(1) u tu(2,3)]) (use ids ww wn boot in auto)
  moreover have "tree_history (hasher_of 0 pw (lt_depth (ao_tree wout))) 0 (gc_fullSync (gr_config g))
      (append_leaves fw (latestLeafIndex wt) (map lf_hash (gp_withdrawals patch)))
      (tracked_leaves wt tw (pad_leaves (gc_withdrawalSubTreeSize (gr_config g)) 0 (gp_withdrawals patch)))
      (ao_tree wout) (commit (ao_ops uout @ ao_ops wout @ (so_ops nout @ boot)) db)"
    by (rule history_through_patch [OF hw sizes(2) w tw(2,3)]) (use ids wu wn boot in auto)
  moreover have "nl_inv pn (so_tree nout) (commit ops db) (S \<union> set (gp_nullifiers patch))"
  proof (rule nl_inv_cong)
    show "nl_inv pn (so_tree nout) (commit (so_ops nout) db) (S \<union> set (gp_nullifiers patch))"
      by (rule update_accepted(2) [OF hn range n' fold_fill S'])
    fix k
    have "tree_nodes (commit (ao_ops uout @ ao_ops wout) db) (NULLIFIER_TREE_ID, k) =
        tree_nodes db (NULLIFIER_TREE_ID, k)" for k
      by (rule commit_other) (use ids wu ww in auto)
    then have "tree_nodes (commit (so_ops nout) (commit (ao_ops uout @ ao_ops wout) db))
        (NULLIFIER_TREE_ID, k) = tree_nodes (commit (so_ops nout) db) (NULLIFIER_TREE_ID, k)"
      by (rule commit_cong)
    then show "tree_nodes (commit ops db) (NULLIFIER_TREE_ID, k) =
        tree_nodes (commit (so_ops nout) db) (NULLIFIER_TREE_ID, k)"
      using boot by (simp add: ops commit_other)
  qed
  ultimately show ?thesis
    using ids sizes g' update_accepted(3) [OF hn range n' fold_fill S'] by (simp add: grove_inv_def ops uout wout tree_append_fields)
qed

section \<open>Properties\<close>

text \<open>C9: a patch keeps the grove consistent. Applying and committing a patch leads to a grove whose
  trees hold the old leaves followed by the new ones, prove the leaves they track, and whose nullifier
  set has grown by the nullifiers of the patch.\<close>

theorem grove_patch_invariant:
  assumes inv: "grove_inv pu pw pn g ut wt nt db fu Tu fw Tw S"
    and run: "applyGrovePatch db ur wr g patch = Ok (g', ops)"
    and tu: "tu = utxo_indexesOfTrackingLeaves ur (gc_zkAddressesToObserve (gr_config g)) ut"
      "kept (gc_fullSync (gr_config g)) tu \<subseteq> Tu" "\<forall>i \<in> set tu. i < 2 ^ lt_depth ut"
    and tw: "tw = withdrawal_indexesOfTrackingLeaves wr (gc_addressesToObserve (gr_config g)) wt"
      "kept (gc_fullSync (gr_config g)) tw \<subseteq> Tw" "\<forall>i \<in> set tw. i < 2 ^ lt_depth wt"
    and nulls: "set (gp_nullifiers patch) \<subseteq> {..<2 ^ nl_depth nt}"
  shows "\<exists>ut' wt' nt'. grove_inv pu pw pn g' ut' wt' nt' (commit ops db)
      (append_leaves fu (latestLeafIndex ut) (map lf_hash (gp_utxos patch)))
      (tracked_leaves ut tu (pad_leaves (gc_utxoSubTreeSize (gr_config g)) 0 (gp_utxos patch)))
      (append_leaves fw (latestLeafIndex wt) (map lf_hash (gp_withdrawals patch)))
      (tracked_leaves wt tw (pad_leaves (gc_withdrawalSubTreeSize (gr_config g)) 0 (gp_withdrawals patch)))
      (S \<union> set (gp_nullifiers patch))"
  using grove_patch_inv [OF assms] by blast

end
