(* ===== verification/Grove_Properties.thy ===== *)
theory Grove_Properties
  imports Grove_Proofs
begin

text \<open>
  What the grove promises to its users: the prediction of a patch, the Merkle proofs of notes, the first
  state, and what the bootstrap table really holds.
\<close>

section \<open>Placing siblings\<close>

text \<open>The level at which a found node is placed is the level of its key.\<close>

lemma node_key_level_of:
  assumes "l < d" and "j < 2 ^ (d - l)"
  shows "1 + d - max 1 (bit_length (node_key d l j)) = l"
proof -
  have "bit_length (node_key d l j) = d - l + 1"
    unfolding node_key_def by (rule bit_length_node [OF assms(2)])
  with assms(1) show ?thesis by simp
qed

lemma place_siblings_levels:
  assumes "\<forall>(k, v) \<in> set found. \<exists>l < d. k = key l"
    and "\<And>l. l < d \<Longrightarrow> 1 + d - max 1 (bit_length (key l)) = l" and "length S = d"
  shows "place_siblings d found (r, S) =
    (r, map (\<lambda>l. case map_of (rev found) (key l) of Some v \<Rightarrow> v | None \<Rightarrow> S ! l) [0..<d])"
  using assms(1,3)
proof (induction found arbitrary: S)
  case Nil
  then have "S = map (nth S) [0..<d]" by (metis map_nth)
  then show ?case by simp
next
  case (Cons kv found)
  obtain k v where kv: "kv = (k, v)" by (cases kv)
  with Cons.prems obtain l where l: "l < d" "k = key l" by auto
  have level: "1 + d - max 1 (bit_length k) = l" using assms(2) [OF l(1)] l(2) by simp
  have inj: "key l' = k \<longleftrightarrow> l' = l" if "l' < d" for l'
    using assms(2) [OF that] level l(2) by metis
  have "place_siblings d (kv # found) (r, S) = place_siblings d found (r, S[l := v])"
    using l(1) unfolding kv place_siblings.simps Let_def level by simp
  also have "\<dots> = (r, map (\<lambda>l'. case map_of (rev found) (key l') of Some w \<Rightarrow> w
      | None \<Rightarrow> S[l := v] ! l') [0..<d])"
    by (rule Cons.IH) (use Cons.prems in auto)
  also have "\<dots> = (r, map (\<lambda>l'. case map_of (rev (kv # found)) (key l') of Some w \<Rightarrow> w
      | None \<Rightarrow> S ! l') [0..<d])"
    using Cons.prems(2) inj
    by (auto simp: kv nth_list_update_if map_add_def split: option.splits)
  finally show ?case .
qed

text \<open>So the proof of a note has the stored siblings, and empty subtrees elsewhere.\<close>

lemma note_proof_found:
  assumes inv: "represents (hasher_of 0 p d) 0 d f (lt_data t)" and d: "lt_depth t = d"
    and beyond: "nothing_beyond d (latestLeafIndex t) (seen_nodes t c db)"
    and stored: "siblings_stored d p f (latestLeafIndex t) (seen_nodes t c db) i"
    and i: "i < 2 ^ d"
  shows "note_proof c db (hasher_of 0 p d) d t msg i (f i) =
    Ok \<lparr>mp_root = lt_root t, mp_index = i, mp_leaf = f i,
      mp_siblings = map (\<lambda>l. mnode p f l (sib_pos (i div 2 ^ l))) [0..<d]\<rparr>"
proof -
  let ?h = "hasher_of 0 p d" and ?n = "latestLeafIndex t"
  define key where "key l = node_key d l (sib_pos (i div 2 ^ l))" for l
  have bound: "sib_pos (i div 2 ^ l) < 2 ^ (d - l)" if "l < d" for l
    using i that by (intro sib_pos_bound div_bound) auto
  have key: "sibling_index (drop_bit l (leaf_path d i)) = key l" if "l < d" for l
    using i that by (simp add: key_def node_key_path sibling_node_key)
  have level: "1 + d - max 1 (bit_length (key l)) = l" if "l < d" for l
    unfolding key_def by (rule node_key_level_of [OF that bound [OF that]])
  obtain found where found: "getCachedSiblings c db d (md_id (lt_metadata t)) i = Ok found"
    using leaf_path_in_range [OF i] by (simp add: getCachedSiblings_def Let_def)
  have img: "(\<lambda>level. sibling_index (drop_bit level (leaf_path d i))) ` {..<d} = key ` {..<d}"
    by (rule image_cong) (simp_all add: key)
  have look: "map_of (rev found) k = (if k \<in> key ` {..<d} then seen_nodes t c db k else None)" for k
    unfolding getCachedSiblings_visible [OF found, of k] img seen_nodes_def ..
  have keys: "\<forall>(k, v) \<in> set found. \<exists>l < d. k = key l"
  proof clarify
    fix k v assume "(k, v) \<in> set found"
    then have "map_of (rev found) k \<noteq> None" by (metis map_of_eq_None_iff fst_conv image_eqI set_rev)
    then have "k \<in> key ` {..<d}" unfolding look by (simp split: if_splits)
    then show "\<exists>l < d. k = key l" by auto
  qed
  have look_key: "map_of (rev found) (key l) = seen_nodes t c db (key l)" if "l < d" for l
    unfolding look using that by simp
  have len: "length (butlast (preHash ?h)) = d" by (simp add: standard.preHash_length)
  have value_eq: "(case map_of (rev found) (key l) of Some v \<Rightarrow> v | None \<Rightarrow> butlast (preHash ?h) ! l) =
      mnode p f l (sib_pos (i div 2 ^ l))" if l: "l < d" for l
  proof (cases "sib_pos (i div 2 ^ l) * 2 ^ l < ?n")
    case True
    then have "seen_nodes t c db (key l) = Some (mnode p f l (sib_pos (i div 2 ^ l)))"
      using stored l unfolding siblings_stored_def key_def by blast
    then show ?thesis by (simp add: look_key [OF l])
  next
    case False
    then have ge: "?n \<le> sib_pos (i div 2 ^ l) * 2 ^ l" by simp
    have "seen_nodes t c db (key l) = None"
      using beyond l bound [OF l] ge unfolding nothing_beyond_def key_def by blast
    moreover have "empty_from 0 ?n f" using inv by (simp add: represents_def latestLeafIndex_def)
    then have "mnode p f l (sib_pos (i div 2 ^ l)) = preHash ?h ! l"
      using standard.block_empty [where p = p and depth = d and k = l, OF _ _ ge] l by simp
    ultimately show ?thesis using l len by (simp add: look_key [OF l] nth_butlast)
  qed
  have placed: "place_siblings d found (lt_root t, butlast (preHash ?h)) =
      (lt_root t, map (\<lambda>l. mnode p f l (sib_pos (i div 2 ^ l))) [0..<d])"
    using place_siblings_levels [where r = "lt_root t", OF keys level len] value_eq by simp
  have "merkleRoot ?h i (f i) (map (\<lambda>l. mnode p f l (sib_pos (i div 2 ^ l))) [0..<d]) = mnode p f d 0"
    by (rule merkleRoot_mnode [where h = ?h, unfolded parentOf_hasher_of]) (use i in auto)
  moreover have "lt_root t = mnode p f d 0" using inv by (simp add: represents_def lt_root_def)
  ultimately show ?thesis
    unfolding note_proof_def found bind_result.simps placed Let_def split verifyProof_def by simp
qed

section \<open>The first state\<close>

text \<open>The row of an empty tree, and the tree made from it.\<close>

definition genesis_row :: "'a hasher \<Rightarrow> 'a light_row" where
  "genesis_row h = \<lparr>lr_root = genesisRoot h, lr_index = 0, lr_siblings = butlast (preHash h),
     lr_start = 0, lr_end = 0\<rparr>"

lemma genesis_tree_history:
  fixes p :: "'a::zero_neq_one \<Rightarrow> 'a \<Rightarrow> 'a"
  assumes t: "t = tree_from i sp (genesis_row (hasher_of 0 p d)) (grove_tree_config config (hasher_of 0 p d))"
    and nodes: "\<And>k. tree_nodes db (i, k) = None"
  shows "tree_history (hasher_of 0 p d) 0 (gc_fullSync config) (\<lambda>_. 0) UNIV t db \<and> lt_depth t = d \<and>
    latestLeafIndex t = 0 \<and> md_id (lt_metadata t) = i"
proof -
  have len: "length (butlast (preHash (hasher_of 0 p d))) = d" by (simp add: standard.preHash_length)
  have depth: "lt_depth t = d"
    by (simp add: t tree_from_def new_light_tree_def genesis_row_def standard.preHash_length)
  have rep: "represents (hasher_of 0 p d) 0 (lt_depth t) (\<lambda>_. 0) (lt_data t)"
    unfolding depth using standard.represents_genesis [OF len, of 0 p]
    by (simp add: t tree_from_def new_light_tree_def genesis_row_def)
  have "tree_history (hasher_of 0 p d) 0 (gc_fullSync config) (\<lambda>_. 0) UNIV t db"
    by (rule tree_history.start [OF _ _ rep])
      (simp_all add: t tree_from_def new_light_tree_def genesis_row_def grove_tree_config_def
        latestLeafIndex_def nodes)
  with depth show ?thesis
    by (simp add: t tree_from_def new_light_tree_def genesis_row_def latestLeafIndex_def)
qed

section \<open>Properties\<close>

lemma dryPatch_of_patch:
  assumes inv: "grove_inv pu pw pn g ut wt nt db fu Tu fw Tw S"
    and run: "applyGrovePatch db ur wr g patch = Ok (g', ops)"
  shows "\<exists>ut' wt' nt' r. gr_utxoTree g' = Some ut' \<and> gr_withdrawalTree g' = Some wt' \<and>
    gr_nullifierTree g' = Some nt' \<and> nl_rootNode nt' = Some r \<and>
    dryPatch db g patch = Ok \<lparr>gs_utxoTreeIndex = latestLeafIndex ut', gs_utxoTreeRoot = lt_root ut',
      gs_withdrawalTreeIndex = latestLeafIndex wt', gs_withdrawalTreeRoot = lt_root wt',
      gs_nullifierTreeRoot = Some r\<rparr>"
proof -
  note parts = inv [unfolded grove_inv_def]
  have hu: "tree_history (hasher_of 0 pu (lt_depth ut)) 0 (gc_fullSync (gr_config g)) fu Tu ut db"
    and hw: "tree_history (hasher_of 0 pw (lt_depth wt)) 0 (gc_fullSync (gr_config g)) fw Tw wt db"
    and sizes: "0 < gc_utxoSubTreeSize (gr_config g)" "0 < gc_withdrawalSubTreeSize (gr_config g)"
    using parts by simp_all
  obtain uout wout nout tu tw c where
    u: "append_padded (gc_utxoSubTreeSize (gr_config g)) ''utxo tree flushes.'' (Some ut)
      (gr_treeCache g) tu (gp_utxos patch) = Ok uout"
    and w: "append_padded (gc_withdrawalSubTreeSize (gr_config g)) ''withdrawal tree flushes''
      (Some wt) (ao_cache uout) tw (gp_withdrawals patch) = Ok wout"
    and n: "nullify db c nt (gp_nullifiers patch) = Ok nout"
    and g': "gr_utxoTree g' = Some (ao_tree uout)" "gr_withdrawalTree g' = Some (ao_tree wout)"
      "gr_nullifierTree g' = Some (so_tree nout)"
    using applyGrovePatch_steps [OF run] parts by metis
  note utxo = append_padded_dry [OF history_facts(1,3) [OF hu] sizes(1) u]
  note withdrawal = append_padded_dry [OF history_facts(1,3) [OF hw] sizes(2) w]
  have "dryRunNullify db nt (gp_nullifiers patch) = Ok (so_root nout)"
    using n by (auto simp: nullify_def dryRunNullify_def smt_update_leaves_def)
  moreover have "nl_rootNode (so_tree nout) = Some (so_root nout)"
    using n by (auto simp: nullify_def smt_update_leaves_def)
  ultimately show ?thesis
    using g' parts by (simp add: dryPatch_def Let_def utxo withdrawal)
qed

text \<open>C10: the dry run of a patch predicts the patch. Where a patch is applied, the dry run before it
  returns the indices and roots of the three trees after it; the padding that the patch adds changes the
  indices and no root.\<close>

theorem dryPatch_predicts_patch:
  assumes inv: "grove_inv pu pw pn g ut wt nt db fu Tu fw Tw S"
    and run: "applyGrovePatch db ur wr g patch = Ok (g', ops)"
  shows "\<exists>ut' wt' nt' r. gr_utxoTree g' = Some ut' \<and> gr_withdrawalTree g' = Some wt' \<and>
    gr_nullifierTree g' = Some nt' \<and> nl_rootNode nt' = Some r \<and>
    dryPatch db g patch = Ok \<lparr>gs_utxoTreeIndex = latestLeafIndex ut', gs_utxoTreeRoot = lt_root ut',
      gs_withdrawalTreeIndex = latestLeafIndex wt', gs_withdrawalTreeRoot = lt_root wt',
      gs_nullifierTreeRoot = Some r\<rparr>"
  by (rule dryPatch_of_patch [OF inv run])

text \<open>the notes a grove tracks have their Merkle proof, as long as they are not the last leaf,
  also when the tree is full.\<close>

theorem utxoMerkleProof_of_tracked:
  assumes inv: "grove_inv pu pw pn g ut wt nt db fu Tu fw Tw S"
    and config: "gc_utxoHasher (gr_config g) = hasher_of 0 pu (lt_depth ut)"
      "gc_utxoTreeDepth (gr_config g) = lt_depth ut" "gr_treeCache g = new_tree_cache"
    and row: "find (\<lambda>r. ur_hash r = hash) rows = Some utxo" "ur_index utxo = Some i"
      "ur_hash utxo = fu i"
    and tracked: "i \<in> Tu" "md_start (lt_metadata ut) \<le> i" "i + 1 < latestLeafIndex ut"
  shows "utxoMerkleProof db rows g hash =
    Ok \<lparr>mp_root = lt_root ut, mp_index = i, mp_leaf = fu i,
      mp_siblings = map (\<lambda>l. mnode pu fu l (sib_pos (i div 2 ^ l))) [0..<lt_depth ut]\<rparr>"
proof -
  have hist: "tree_history (hasher_of 0 pu (lt_depth ut)) 0 (gc_fullSync (gr_config g)) fu Tu ut db"
    and ut: "gr_utxoTree g = Some ut"
    using inv by (simp_all add: grove_inv_def)
  note facts = history_facts [OF hist]
  have beyond: "nothing_beyond (lt_depth ut) (latestLeafIndex ut) (seen_nodes ut new_tree_cache db)"
    and stored: "siblings_stored (lt_depth ut) pu fu (latestLeafIndex ut)
      (seen_nodes ut new_tree_cache db) i"
    using facts(5) tracked unfolding tracks_def by simp_all
  have "latestLeafIndex ut \<le> 2 ^ lt_depth ut"
    using facts(3) by (simp add: represents_def latestLeafIndex_def)
  then have "i < 2 ^ lt_depth ut" using tracked(3) by simp
  from note_proof_found [OF facts(3) refl beyond stored this] show ?thesis
    by (simp add: utxoMerkleProof_def row ut config)
qed

text \<open>a new grove over an empty database starts with empty trees, and satisfies the invariant.\<close>

theorem grove_init_establishes_invariant:
  assumes rows: "light_rows db SPECIES_UTXO = None" "light_rows db SPECIES_WITHDRAWAL = None"
    and nodes: "\<And>key. tree_nodes db key = None"
    and hashers: "gc_utxoHasher config = hasher_of 0 pu du" "gc_withdrawalHasher config = hasher_of 0 pw dw"
      "gc_nullifierHasher config = hasher_of 0 pn (gc_nullifierTreeDepth config)"
    and ids: "distinct [utxoId, withdrawalId, NULLIFIER_TREE_ID]"
    and sizes: "0 < gc_utxoSubTreeSize config" "0 < gc_withdrawalSubTreeSize config"
  shows "\<exists>db' g ut wt nt. grove_init db utxoId withdrawalId (new_grove config) = Ok (db', g) \<and>
    lt_depth ut = du \<and> lt_depth wt = dw \<and> latestLeafIndex ut = 0 \<and> latestLeafIndex wt = 0 \<and>
    grove_inv pu pw pn g ut wt nt db' (\<lambda>_. 0) UNIV (\<lambda>_. 0) UNIV {}"
proof -
  define db' where "db' = apply_op (Upsert_Light SPECIES_WITHDRAWAL (genesis_row (gc_withdrawalHasher config)))
      (apply_op (Upsert_Light SPECIES_UTXO (genesis_row (gc_utxoHasher config))) db)"
  define ut where "ut = tree_from utxoId SPECIES_UTXO (genesis_row (gc_utxoHasher config))
      (grove_tree_config config (gc_utxoHasher config))"
  define wt where "wt = tree_from withdrawalId SPECIES_WITHDRAWAL
      (genesis_row (gc_withdrawalHasher config)) (grove_tree_config config (gc_withdrawalHasher config))"
  define nt where "nt = \<lparr>nl_depth = gc_nullifierTreeDepth config,
      nl_hasher = gc_nullifierHasher config, nl_rootNode = None\<rparr>"
  define g where "g = (new_grove config)\<lparr>gr_utxoTree := Some ut, gr_withdrawalTree := Some wt,
      gr_nullifierTree := Some nt\<rparr>"
  have species: "SPECIES_WITHDRAWAL \<noteq> SPECIES_UTXO"
    by (simp add: SPECIES_WITHDRAWAL_def SPECIES_UTXO_def)
  have "new_nullifier_tree (gc_nullifierHasher config) (gc_nullifierTreeDepth config) = Ok nt"
    by (simp add: new_nullifier_tree_def nt_def hashers standard.preHash_length)
  then have init: "grove_init db utxoId withdrawalId (new_grove config) = Ok (db', g)"
    using rows species
    by (simp add: grove_init_def new_grove_def bootstrapUtxoTree_def bootstrapWithdrawalTree_def
        bootstrap_tree_def Let_def db'_def ut_def wt_def g_def genesis_row_def)
  have nodes': "tree_nodes db' key = None" for key by (simp add: db'_def nodes)
  note su = genesis_tree_history [OF ut_def [unfolded hashers] nodes']
    and sw = genesis_tree_history [OF wt_def [unfolded hashers] nodes']
  have "nl_inv pn nt db' {}"
    by (rule nl_inv_empty) (simp_all add: nt_def hashers nodes')
  then have "grove_inv pu pw pn g ut wt nt db' (\<lambda>_. 0) UNIV (\<lambda>_. 0) UNIV {}"
    using su sw ids sizes by (simp add: grove_inv_def g_def new_grove_def)
  moreover have "lt_depth ut = du \<and> lt_depth wt = dw \<and> latestLeafIndex ut = 0 \<and> latestLeafIndex wt = 0"
    using su sw by simp
  ultimately show ?thesis using init by blast
qed

text \<open>the bootstrap rows that patches record are never linked to their block: from a database
  without such rows no patch makes one that can be found by the hash of a block.\<close>

theorem bootstrap_rows_never_linked:
  assumes "list_all (\<lambda>r. br_blockHash r = None) (bootstrap_rows db)"
  shows "list_all (\<lambda>r. br_blockHash r = None)
    (bootstrap_rows (commit (recordBootstrap ut wt header) db))"
  using assms by (cases header) (auto simp: recordBootstrap_def Let_def list_ex_iff list_all_iff)


section \<open>Witnesses\<close>

text \<open>A full-sync grove over the free hash whose UTXO tree holds \<open>k\<close> leaves.\<close>

definition sample_config :: "term_hash grove_config" where
  "sample_config = \<lparr>gc_utxoTreeDepth = 2, gc_withdrawalTreeDepth = 2, gc_nullifierTreeDepth = 2,
     gc_utxoSubTreeSize = 2, gc_withdrawalSubTreeSize = 2, gc_utxoHasher = hasher_of 0 HNode 2,
     gc_withdrawalHasher = hasher_of 0 HNode 2, gc_nullifierHasher = hasher_of 0 HNode 2,
     gc_fullSync = True, gc_forceUpdate = True, gc_zkAddressesToObserve = [], gc_addressesToObserve = []\<rparr>"

definition sample_wt :: "term_hash light_tree" where
  "sample_wt = tree_from ''withdrawal'' SPECIES_WITHDRAWAL (genesis_row (hasher_of 0 HNode 2))
     (grove_tree_config sample_config (hasher_of 0 HNode 2))"

definition sample_grove :: "nat \<Rightarrow> term_hash grove" where
  "sample_grove k = \<lparr>gr_config = sample_config, gr_utxoTree = Some (ao_tree (sample_out True k)),
     gr_withdrawalTree = Some sample_wt, gr_nullifierTree = Some sample_smt,
     gr_treeCache = new_tree_cache\<rparr>"

definition sample_grove_db :: "nat \<Rightarrow> term_hash tree_db" where
  "sample_grove_db k = commit (ao_ops (sample_out True k)) sample_db"

abbreviation sample_leaves_upto :: "nat \<Rightarrow> nat \<Rightarrow> term_hash" where
  "sample_leaves_upto k \<equiv> append_leaves (\<lambda>_. 0) 0 (map lf_hash (take k sample_leaves))"

definition sample_patch :: "term_hash grove_patch" where
  "sample_patch = \<lparr>gp_header = None, gp_utxos = [\<lparr>lf_hash = HLeaf 9, lf_shouldTrack = False\<rparr>],
     gp_withdrawals = [], gp_nullifiers = [1]\<rparr>"

lemma sample_utxo_id: "md_id (lt_metadata (ao_tree (sample_out sync k))) = ''utxo''"
  by (simp add: sample_out_def tree_append_fields sample_tree_def new_light_tree_def)

lemma sample_grove_nodes:
  assumes "i \<noteq> ''utxo''"
  shows "tree_nodes (sample_grove_db k) (i, n) = None"
proof -
  have "\<forall>q \<in> set (ao_ops (sample_out True k)). \<not> writes_nodes_of i q"
    using tree_append_writes assms unfolding sample_out_def
    by (metis sample_out_def sample_utxo_id tree_append_fields(3))
  from commit_other [OF this] show ?thesis
    by (simp add: sample_grove_db_def sample_db_def)
qed

lemma sample_grove_inv:
  assumes "k \<le> 4"
  shows "grove_inv HNode HNode HNode (sample_grove k) (ao_tree (sample_out True k)) sample_wt sample_smt
    (sample_grove_db k) (sample_leaves_upto k) UNIV (\<lambda>_. 0) UNIV {}"
proof -
  have zero: "HLeaf 0 = 0" by (simp add: zero_term_hash_def)
  have "tracked_leaves (sample_tree True) [] (take k sample_leaves) = UNIV"
    by (simp add: tracked_leaves_def kept_def sample_tree_def new_light_tree_def)
  then have "tree_history (hasher_of 0 HNode 2) 0 True (sample_leaves_upto k) UNIV
      (ao_tree (sample_out True k)) (sample_grove_db k)"
    using sample_history [OF assms, of True] by (simp add: zero sample_grove_db_def)
  moreover have "tree_history (hasher_of 0 HNode 2) 0 True (\<lambda>_. 0) UNIV sample_wt (sample_grove_db k) \<and>
      lt_depth sample_wt = 2 \<and> latestLeafIndex sample_wt = 0 \<and> md_id (lt_metadata sample_wt) = ''withdrawal''"
    using genesis_tree_history [OF sample_wt_def, of "sample_grove_db k"] sample_grove_nodes
    by (simp add: sample_config_def)
  moreover have "nl_inv HNode sample_smt (sample_grove_db k) {}"
    by (rule nl_inv_empty)
      (simp_all add: sample_smt_def NULLIFIER_TREE_ID_def sample_grove_nodes)
  ultimately show ?thesis
    by (simp add: grove_inv_def sample_grove_def sample_config_def sample_utxo_id NULLIFIER_TREE_ID_def)
qed

lemma sample_patch_runs:
  "\<exists>g' ops. applyGrovePatch (sample_grove_db 2) [] [] (sample_grove 2) sample_patch = Ok (g', ops)"
proof -
  have inv: "nl_inv HNode sample_smt (sample_grove_db 2) {}"
    using sample_grove_inv [of 2] by (simp add: grove_inv_def)
  have nullify: "\<exists>out. nullify (sample_grove_db 2) c sample_smt [1] = Ok out" for c
    unfolding nullify_def
    using update_runs [OF HNode_injective inv, of "map (\<lambda>i. \<lparr>su_index = i, su_val = FILLED\<rparr>) [1]" c True]
      changing_fill [of "{}" "[1]"] by auto
  have depth: "lt_depth sample_wt = 2" "latestLeafIndex sample_wt = 0"
    by (simp_all add: sample_wt_def tree_from_def new_light_tree_def genesis_row_def latestLeafIndex_def
        standard.preHash_length)
  show ?thesis
    using nullify
    by (force simp: applyGrovePatch_def appendUTXOs_def appendWithdrawals_def append_padded_def
        sample_grove_def sample_config_def sample_patch_def markAsNullified_def maxSize_def Let_def depth
        ceil_div_small)
qed

theorem grove_patch_invariant_witness:
  "\<exists>g' ops ut' wt' nt' Tu Tw. applyGrovePatch (sample_grove_db 2) [] [] (sample_grove 2) sample_patch = Ok (g', ops) \<and>
     grove_inv HNode HNode HNode g' ut' wt' nt' (commit ops (sample_grove_db 2))
       (append_leaves (sample_leaves_upto 2) 2 [HLeaf 9]) Tu (\<lambda>_. 0) Tw {1}"
proof -
  obtain g' ops where run:
    "applyGrovePatch (sample_grove_db 2) [] [] (sample_grove 2) sample_patch = Ok (g', ops)"
    using sample_patch_runs by blast
  have patch: "gp_utxos sample_patch = [\<lparr>lf_hash = HLeaf 9, lf_shouldTrack = False\<rparr>]"
    "gp_withdrawals sample_patch = []" "gp_nullifiers sample_patch = [1]"
    by (simp_all add: sample_patch_def)
  have index: "latestLeafIndex (ao_tree (sample_out True 2)) = 2" by simp
  show ?thesis
    using grove_patch_invariant [OF sample_grove_inv run refl _ _ refl] run
    by (simp add: patch index utxo_indexesOfTrackingLeaves_def withdrawal_indexesOfTrackingLeaves_def
        List.map_filter_simps) blast
qed

theorem dryPatch_predicts_patch_witness:
  "\<exists>g' ops snap. applyGrovePatch (sample_grove_db 2) [] [] (sample_grove 2) sample_patch = Ok (g', ops) \<and>
     dryPatch (sample_grove_db 2) (sample_grove 2) sample_patch = Ok snap \<and>
     gs_utxoTreeRoot snap = lt_root (the (gr_utxoTree g'))"
proof -
  obtain g' ops where run:
    "applyGrovePatch (sample_grove_db 2) [] [] (sample_grove 2) sample_patch = Ok (g', ops)"
    using sample_patch_runs by blast
  from dryPatch_predicts_patch [OF sample_grove_inv run] run show ?thesis by auto
qed

theorem utxoMerkleProof_of_tracked_witness:
  "\<exists>prf. utxoMerkleProof (sample_grove_db 4)
     [\<lparr>ur_hash = HLeaf 5, ur_owner = ''alice'', ur_index = Some 0, ur_treeId = Some ''utxo''\<rparr>]
     (sample_grove 4) (HLeaf 5) = Ok prf"
proof -
  have start: "md_start (lt_metadata (ao_tree (sample_out True 4))) = 0" by simp
  have leaf: "append_leaves (\<lambda>_. 0) 0 (map lf_hash sample_leaves) 0 = HLeaf 5"
    by (simp add: append_leaves_nth sample_leaves_def)
  show ?thesis
    using utxoMerkleProof_of_tracked [OF sample_grove_inv, of 4 "HLeaf 5"
        "[\<lparr>ur_hash = HLeaf 5, ur_owner = ''alice'', ur_index = Some 0, ur_treeId = Some ''utxo''\<rparr>]"
        "\<lparr>ur_hash = HLeaf 5, ur_owner = ''alice'', ur_index = Some 0, ur_treeId = Some ''utxo''\<rparr>" 0]
    by (simp add: sample_grove_def sample_config_def leaf)
qed

theorem grove_init_establishes_invariant_witness:
  "\<exists>db' g. grove_init (sample_db :: term_hash tree_db) ''utxo'' ''withdrawal'' (new_grove sample_config) =
     Ok (db', g)"
  using grove_init_establishes_invariant [of sample_db sample_config HNode 2 HNode 2 HNode
      "''utxo''" "''withdrawal''"]
  by (auto simp: sample_db_def sample_config_def NULLIFIER_TREE_ID_def)

theorem bootstrap_rows_never_linked_witness:
  "bootstrap_rows (commit (recordBootstrap sample_wt sample_wt (Some ''block'')) (sample_db :: term_hash tree_db)) \<noteq> [] \<and>
   list_all (\<lambda>r. br_blockHash r = None)
     (bootstrap_rows (commit (recordBootstrap sample_wt sample_wt (Some ''block'')) sample_db))"
  using bootstrap_rows_never_linked [of sample_db sample_wt sample_wt "Some ''block''"]
  by (simp add: sample_db_def recordBootstrap_def Let_def)

end
