(* ===== verification/Merkle_Tree_Sol.thy ===== *)
theory Merkle_Tree_Sol
  imports Rollup_History
begin

text \<open>
  \<open>packages/tree/src/utils/merkle-tree-sol.ts\<close>: the TypeScript twin of the Merkle tree library of the
  contracts, which the off-chain validators run. Leaves are appended one by one or as subtrees of
  \<open>2 ^ subTreeDepth\<close> leaves.
\<close>

section \<open>Single leaves\<close>

definition sol_appendLeaf ::
    "'a hasher \<Rightarrow> nat \<Rightarrow> 'a \<Rightarrow> 'a list \<Rightarrow> 'a \<times> nat \<times> 'a list" where
  "sol_appendLeaf h index leaf siblings =
     (let (node, nextSiblings) =
        for_upto (length siblings) (\<lambda>level (node, nextSiblings).
          if even (drop_bit level index)
          then (parentOf h node (preHash h ! level), nextSiblings[level := node])
          else (parentOf h (siblings ! level) node, nextSiblings[level := siblings ! level]))
        (leaf, siblings)
      in (node, index + 1, nextSiblings))"

text \<open>A left sibling must not be the root of an empty tree, which the light tree does not ask.\<close>

fun sol_starting_levels :: "'a hasher \<Rightarrow> nat \<Rightarrow> nat \<Rightarrow> 'a \<Rightarrow> 'a list \<Rightarrow> 'a option" where
  "sol_starting_levels h index level node [] = Some node"
| "sol_starting_levels h index level node (sibling # siblings) =
     (if even (drop_bit level index)
      then if sibling \<noteq> preHash h ! level then None
        else sol_starting_levels h index (level + 1) (parentOf h node (preHash h ! level)) siblings
      else if sibling = preHash h ! level then None
        else sol_starting_levels h index (level + 1) (parentOf h sibling node) siblings)"

definition sol_startingLeafProof :: "'a hasher \<Rightarrow> 'a \<Rightarrow> nat \<Rightarrow> 'a list \<Rightarrow> bool" where
  "sol_startingLeafProof h r index siblings =
     (case sol_starting_levels h index 0 (preHash h ! 0) siblings of
        None \<Rightarrow> False | Some node \<Rightarrow> r = node)"

definition sol_merkleRoot :: "'a hasher \<Rightarrow> 'a \<Rightarrow> nat \<Rightarrow> 'a list \<Rightarrow> 'a" where
  "sol_merkleRoot h leaf index siblings =
     for_upto (length siblings) (\<lambda>level node.
       if even (drop_bit level index) then parentOf h node (siblings ! level)
       else parentOf h (siblings ! level) node) leaf"

definition sol_merkleProof :: "'a hasher \<Rightarrow> 'a \<Rightarrow> 'a \<Rightarrow> nat \<Rightarrow> 'a list \<Rightarrow> bool" where
  "sol_merkleProof h r leaf index siblings = (sol_merkleRoot h leaf index siblings = r)"

fun sol_append_loop :: "'a hasher \<Rightarrow> 'a list \<Rightarrow> 'a \<times> nat \<times> 'a list \<Rightarrow> 'a \<times> nat \<times> 'a list" where
  "sol_append_loop h [] s = s"
| "sol_append_loop h (leaf # leaves) (r, index, siblings) =
     sol_append_loop h leaves (sol_appendLeaf h index leaf siblings)"

definition sol_append :: "'a hasher \<Rightarrow> 'a \<Rightarrow> nat \<Rightarrow> 'a list \<Rightarrow> 'a list \<Rightarrow> 'a result" where
  "sol_append h startingRoot index leaves initialSiblings =
     bind_result (assert_that (length (preHash h) = length initialSiblings + 1)
       ''Submitted invalid length of siblings'') (\<lambda>_.
     bind_result (assert_that (sol_startingLeafProof h startingRoot index initialSiblings)
       ''Invalid merkle proof of starting leaf node'') (\<lambda>_.
     Ok (fst (sol_append_loop h leaves (startingRoot, index, initialSiblings)))))"

section \<open>Subtrees\<close>

text \<open>
  \<open>subTreeRoot\<close>: the array \<open>nodes\<close> has \<open>2 * treeSize\<close> entries, undefined at first; a level is
  filled from the right to the left. A leaf beyond the given ones is undefined as well.
\<close>

definition sub_tree_node ::
    "'a hasher \<Rightarrow> nat \<Rightarrow> 'a list \<Rightarrow> nat \<Rightarrow> nat \<Rightarrow> nat \<Rightarrow> 'a option list \<Rightarrow> 'a option list result" where
  "sub_tree_node h treeSize leaves level emptyNode nodeIndex nodes =
     (if nodeIndex \<le> emptyNode then
        if level = 0 then
          Ok (nodes[nodeIndex := (if nodeIndex - treeSize < length leaves
            then Some (leaves ! (nodeIndex - treeSize)) else None)])
        else
          (case nodes ! (2 * nodeIndex) of
             None \<Rightarrow> Throw ''left child not exist''
           | Some leftNode \<Rightarrow>
              (case nodes ! (2 * nodeIndex + 1) of
                 None \<Rightarrow> Throw ''right child not exist''
               | Some rightNode \<Rightarrow> Ok (nodes[nodeIndex := Some (parentOf h leftNode rightNode)])))
      else Ok (nodes[nodeIndex := Some (preHash h ! level)]))"

definition sub_tree_level ::
    "'a hasher \<Rightarrow> nat \<Rightarrow> 'a list \<Rightarrow> nat \<Rightarrow> 'a option list \<times> nat \<Rightarrow> ('a option list \<times> nat) result" where
  "sub_tree_level h treeSize leaves level = (\<lambda>(nodes, emptyNode).
     let leftMostOfTheFloor = drop_bit level treeSize in
     bind_result (foldM (sub_tree_node h treeSize leaves level emptyNode)
        (rev [leftMostOfTheFloor..<2 * leftMostOfTheFloor]) nodes)
      (\<lambda>nodes. Ok (nodes, drop_bit 1 emptyNode)))"

definition subTreeRoot :: "'a hasher \<Rightarrow> nat \<Rightarrow> 'a list \<Rightarrow> 'a result" where
  "subTreeRoot h subTreeDepth leaves =
     (let treeSize = push_bit subTreeDepth 1 in
      bind_result (assert_that (length leaves \<le> treeSize) ''Overflowed'') (\<lambda>_.
      bind_result (foldM (sub_tree_level h treeSize leaves) [0..<subTreeDepth + 1]
          (replicate (2 * treeSize) None, treeSize + length leaves)) (\<lambda>(nodes, _).
        case nodes ! 1 of
          None \<Rightarrow> Throw ''Root node is not computed''
        | Some rootNode \<Rightarrow> Ok rootNode)))"

text \<open>The climb from the root of the subtree, over the levels above it.\<close>

definition sub_tree_climb ::
    "'a hasher \<Rightarrow> nat \<Rightarrow> 'a list \<Rightarrow> nat \<Rightarrow> nat \<times> 'a \<times> 'a list \<Rightarrow> nat \<times> 'a \<times> 'a list" where
  "sub_tree_climb h subTreeDepth siblings level = (\<lambda>(path, node, nextSiblings).
     if even path
     then (drop_bit 1 path, parentOf h node (preHash h ! (level + subTreeDepth)),
       nextSiblings[level := node])
     else (drop_bit 1 path, parentOf h (siblings ! level) node,
       nextSiblings[level := siblings ! level]))"

definition appendSubTree ::
    "'a hasher \<Rightarrow> nat \<Rightarrow> nat \<Rightarrow> 'a list \<Rightarrow> 'a list \<Rightarrow> ('a \<times> nat \<times> 'a list) result" where
  "appendSubTree h index subTreeDepth leaves siblings =
     bind_result (assert_that (length leaves \<le> push_bit subTreeDepth 1) ''Overflowed'') (\<lambda>_.
     bind_result (subTreeRoot h subTreeDepth leaves) (\<lambda>r.
       let (path, node, nextSiblings) =
         for_upto (length siblings) (sub_tree_climb h subTreeDepth siblings)
           (drop_bit subTreeDepth index, r, siblings)
       in Ok (node, index + push_bit subTreeDepth 1, nextSiblings)))"

fun empty_sub_tree_levels :: "'a hasher \<Rightarrow> nat \<Rightarrow> nat \<Rightarrow> nat \<Rightarrow> 'a list \<Rightarrow> bool" where
  "empty_sub_tree_levels h subTreeDepth level path [] = True"
| "empty_sub_tree_levels h subTreeDepth level path (sibling # siblings) =
     (if even path \<and> sibling \<noteq> preHash h ! (level + subTreeDepth) then False
      else if odd path \<and> sibling = preHash h ! (level + subTreeDepth) then False
      else empty_sub_tree_levels h subTreeDepth (level + 1) (drop_bit 1 path) siblings)"

definition emptySubTreeProof :: "'a hasher \<Rightarrow> 'a \<Rightarrow> nat \<Rightarrow> nat \<Rightarrow> 'a list \<Rightarrow> bool" where
  "emptySubTreeProof h r index subTreeDepth subTreeSiblings =
     (let subTreePath = drop_bit subTreeDepth index in
      if \<not> empty_sub_tree_levels h subTreeDepth 0 subTreePath subTreeSiblings then False
      else sol_merkleProof h r (preHash h ! subTreeDepth) subTreePath subTreeSiblings)"

text \<open>\<open>splitToSubTrees\<close>: every subtree starts full of empty leaves and is overwritten in order.\<close>

definition split_step ::
    "nat \<Rightarrow> 'a \<Rightarrow> 'a list list \<times> nat \<times> nat \<Rightarrow> 'a list list \<times> nat \<times> nat" where
  "split_step subTreeSize leaf = (\<lambda>(subTrees, index, subTreeIndex).
     (subTrees[subTreeIndex := (subTrees ! subTreeIndex)[index := leaf]],
      if index < subTreeSize - 1 then (index + 1, subTreeIndex) else (0, subTreeIndex + 1)))"

definition splitToSubTrees :: "'a hasher \<Rightarrow> 'a list \<Rightarrow> nat \<Rightarrow> 'a list list" where
  "splitToSubTrees h leaves subTreeDepth =
     (let subTreeSize = push_bit subTreeDepth 1;
          numOfSubTrees = ceil_div (length leaves) subTreeSize;
          subTrees = replicate numOfSubTrees (replicate subTreeSize (preHash h ! 0))
      in fst (fold (split_step subTreeSize) leaves (subTrees, 0, 0)))"

definition appendAsSubTrees ::
    "'a hasher \<Rightarrow> 'a \<Rightarrow> nat \<Rightarrow> nat \<Rightarrow> 'a list \<Rightarrow> 'a list \<Rightarrow> 'a result" where
  "appendAsSubTrees h startingRoot index subTreeDepth leaves subTreeSiblings =
     bind_result (assert_that (index mod push_bit subTreeDepth 1 = 0) ''Cannot merge subtree'') (\<lambda>_.
     bind_result (assert_that (length (preHash h) = subTreeDepth + length subTreeSiblings + 1)
       ''Should submit subtree's siblings'') (\<lambda>_.
     bind_result (assert_that (emptySubTreeProof h startingRoot index subTreeDepth subTreeSiblings)
       ''Insertion is not allowed.'') (\<lambda>_.
     bind_result (foldM (\<lambda>subTree (_, nextIndex, nextSiblings).
         appendSubTree h nextIndex subTreeDepth subTree nextSiblings)
         (splitToSubTrees h leaves subTreeDepth) (startingRoot, index, subTreeSiblings))
       (\<lambda>(nextRoot, _, _). Ok nextRoot))))"

section \<open>The climb\<close>

text \<open>Both implementations of the root of a proof agree.\<close>

lemma sol_merkleRoot_eq: "sol_merkleRoot h x i S = merkleRoot h i x S"
proof -
  let ?step = "\<lambda>level node. if even (drop_bit level i) then parentOf h node (S ! level)
       else parentOf h (S ! level) node"
  have "k \<le> length S \<Longrightarrow> merkleRoot h (i div 2 ^ k) (for_upto k ?step x) (drop k S) = merkleRoot h i x S"
    for k
  proof (induction k)
    case 0
    then show ?case by (simp add: loop_simps)
  next
    case (Suc k)
    then have "drop k S = S ! k # drop (Suc k) S" by (simp add: Cons_nth_drop_Suc)
    with Suc show ?case
      unfolding div_two_power_Suc by (simp add: loop_simps drop_bit_eq_div split: if_splits)
  qed
  from this [of "length S"] show ?thesis by (simp add: sol_merkleRoot_def)
qed

end
