(* ===== verification/Smt_Sol.thy ===== *)
theory Smt_Sol
  imports Nullifier_History Merkle_Tree_Sol "HOL-Library.Countable"
begin

text \<open>
  \<open>packages/tree/src/utils/smt-sol.ts\<close>: the TypeScript twin of the sparse Merkle tree library, which
  the off-chain validators run over nullifier trees. The module pins its two leaf values to constants
  (the keccak hashes of \<open>'exist'\<close> and of 0), asserted when it is loaded.
\<close>

section \<open>The library\<close>

definition EXISBN :: int where
  "EXISBN = 0xb0b4e07bb5592f3d3821b2c1331b436763d7be555cf452d6c6836f74d5201e85"

definition NON_EXISBN :: int where
  "NON_EXISBN = 0x290decd9548b62a8d60345a988386fc84ba6bc95484008f6362f93160ef3e563"

definition smt_calculateRoot :: "int hasher \<Rightarrow> nat \<Rightarrow> int \<Rightarrow> int list \<Rightarrow> int result" where
  "smt_calculateRoot h leaf v siblings =
     bind_result (assert_that (length siblings = length (preHash h) - 1) ''Invalid length of siblings'')
       (\<lambda>_. Ok (for_upto (length siblings) (\<lambda>i cursor.
          if even (drop_bit i leaf) then parentOf h cursor (siblings ! i)
          else parentOf h (siblings ! i) cursor) v))"

definition smt_merkleProof :: "int hasher \<Rightarrow> int \<Rightarrow> nat \<Rightarrow> int \<Rightarrow> int list \<Rightarrow> bool result" where
  "smt_merkleProof h r leaf v siblings =
     bind_result (smt_calculateRoot h leaf v siblings) (\<lambda>calculatedRoot. Ok (r = calculatedRoot))"

definition smt_inclusionProof :: "int hasher \<Rightarrow> int \<Rightarrow> nat \<Rightarrow> int list \<Rightarrow> bool result" where
  "smt_inclusionProof h r leaf siblings = smt_merkleProof h r leaf EXISBN siblings"

definition smt_nonInclusionProof :: "int hasher \<Rightarrow> int \<Rightarrow> nat \<Rightarrow> int list \<Rightarrow> bool result" where
  "smt_nonInclusionProof h r leaf siblings = smt_merkleProof h r leaf NON_EXISBN siblings"

definition smt_fill :: "int hasher \<Rightarrow> int \<Rightarrow> nat \<Rightarrow> int list \<Rightarrow> int result" where
  "smt_fill h prevRoot leaf siblings =
     bind_result (smt_nonInclusionProof h prevRoot leaf siblings) (\<lambda>ok.
     bind_result (assert_that ok ''Already filled'') (\<lambda>_.
     bind_result (smt_calculateRoot h leaf EXISBN siblings) (\<lambda>nextRoot.
     bind_result (assert_that (nextRoot \<noteq> prevRoot) ''Already filled leaf'') (\<lambda>_.
     Ok nextRoot))))"

text \<open>The assertion on the lengths has no message of its own.\<close>

definition smt_batchFill :: "int hasher \<Rightarrow> int \<Rightarrow> nat list \<Rightarrow> int list list \<Rightarrow> int result" where
  "smt_batchFill h prevRoot leaves siblings =
     bind_result (assert_that (length leaves = length siblings) ''AssertionError'') (\<lambda>_.
       foldM (\<lambda>(leaf, sibs) r. smt_fill h r leaf sibs) (zip leaves siblings) prevRoot)"

section \<open>What a fill shows\<close>

lemma smt_calculateRoot_eq:
  "smt_calculateRoot h leaf v siblings =
    (if length siblings = length (preHash h) - 1 then Ok (merkleRoot h leaf v siblings)
     else Throw ''Invalid length of siblings'')"
proof -
  have "for_upto (length siblings) (\<lambda>i cursor.
          if even (drop_bit i leaf) then parentOf h cursor (siblings ! i)
          else parentOf h (siblings ! i) cursor) v = merkleRoot h leaf v siblings"
    using sol_merkleRoot_eq [of h v leaf siblings] unfolding sol_merkleRoot_def .
  then show ?thesis by (simp add: smt_calculateRoot_def)
qed

lemma smt_fill_Ok_iff:
  "smt_fill h r leaf siblings = Ok r' \<longleftrightarrow>
     length siblings = length (preHash h) - 1 \<and> r = merkleRoot h leaf NON_EXISBN siblings \<and>
     r' = merkleRoot h leaf EXISBN siblings \<and> r' \<noteq> r"
  by (auto simp: smt_fill_def smt_nonInclusionProof_def smt_merkleProof_def smt_calculateRoot_eq)

text \<open>Without collisions an accepted fill turns a leaf from the absent to the present value.\<close>

lemma smt_fill_sound:
  assumes inj: "\<And>a b a' b'. parentOf h a b = parentOf h a' b' \<Longrightarrow> a = a' \<and> b = b'"
    and len: "length (preHash h) = d + 1" and i: "i < 2 ^ d"
    and r: "r = mnode (parentOf h) f d 0" and run: "smt_fill h r i siblings = Ok r'"
  shows "f i = NON_EXISBN \<and> r' = mnode (parentOf h) (f(i := EXISBN)) d 0"
proof -
  let ?S = "\<lambda>f. map (\<lambda>l. mnode (parentOf h) f l (sib_pos (i div 2 ^ l))) [0..<d]"
  have "length siblings = d" and absent: "r = merkleRoot h i NON_EXISBN siblings"
    and present: "r' = merkleRoot h i EXISBN siblings"
    using run len by (auto simp: smt_fill_Ok_iff)
  have climb: "merkleRoot h i (g i) (?S g) = mnode (parentOf h) g d 0" for g
    by (rule merkleRoot_mnode) (use i in auto)
  have "merkleRoot h i NON_EXISBN siblings = merkleRoot h i (f i) (?S f)"
    using absent r climb [of f] by simp
  then have eq: "NON_EXISBN = f i \<and> siblings = ?S f"
    by (intro merkleRoot_inj [OF inj]) (use \<open>length siblings = d\<close> in auto)
  have "?S (f(i := EXISBN)) = ?S f"
    by (auto intro!: mnode_update_other simp: sib_pos_neq [symmetric])
  with climb [of "f(i := EXISBN)"] present eq show ?thesis by simp
qed


definition fill_all :: "nat list \<Rightarrow> (nat \<Rightarrow> int) \<Rightarrow> nat \<Rightarrow> int" where
  "fill_all leaves f i = (if i \<in> set leaves then EXISBN else f i)"

lemma fill_all_Cons: "fill_all (i # leaves) f = fill_all leaves (f(i := EXISBN))"
  by (auto simp: fill_all_def fun_eq_iff)

lemma EXISBN_distinct: "EXISBN \<noteq> NON_EXISBN" "NON_EXISBN \<noteq> 0" "NON_EXISBN \<noteq> 1"
  by (simp_all add: EXISBN_def NON_EXISBN_def)

lemma smt_fills_sound:
  assumes inj: "\<And>a b a' b'. parentOf h a b = parentOf h a' b' \<Longrightarrow> a = a' \<and> b = b'"
    and len: "length (preHash h) = d + 1"
    and "length leaves = length siblings" and "\<forall>i \<in> set leaves. i < 2 ^ d"
    and "r = mnode (parentOf h) f d 0"
    and "foldM (\<lambda>(leaf, sibs) r. smt_fill h r leaf sibs) (zip leaves siblings) r = Ok r'"
  shows "distinct leaves \<and> (\<forall>i \<in> set leaves. f i = NON_EXISBN) \<and>
    r' = mnode (parentOf h) (fill_all leaves f) d 0"
  using assms(3-6)
proof (induction leaves siblings arbitrary: r f rule: list_induct2)
  case Nil
  then show ?case by (simp add: fill_all_def)
next
  case (Cons i leaves S siblings)
  obtain r1 where fill: "smt_fill h r i S = Ok r1"
    and rest: "foldM (\<lambda>(leaf, sibs) r. smt_fill h r leaf sibs) (zip leaves siblings) r1 = Ok r'"
    using Cons.prems(3) by auto
  have i: "i < 2 ^ d" using Cons.prems(1) by simp
  note one = smt_fill_sound [OF inj len i Cons.prems(2) fill]
  have later: "\<forall>k \<in> set leaves. k < 2 ^ d" using Cons.prems(1) by simp
  have "distinct leaves \<and> (\<forall>k \<in> set leaves. (f(i := EXISBN)) k = NON_EXISBN) \<and>
    r' = mnode (parentOf h) (fill_all leaves (f(i := EXISBN))) d 0"
    by (rule Cons.IH [OF later conjunct2 [OF one] rest])
  moreover from this have "i \<notin> set leaves" using EXISBN_distinct(1) by auto
  moreover from calculation have "\<forall>k \<in> set leaves. f k = NON_EXISBN" by (metis fun_upd_apply)
  ultimately show ?case using one by (simp add: fill_all_Cons)
qed

section \<open>Properties\<close>

text \<open>C8: a batch fill is sound. Without collisions, filling a list of leaves succeeds only where
  every leaf holds the absent value and no leaf is listed twice, and gives the root with all of them
  present.\<close>

theorem batchFill_sound:
  assumes "\<And>a b a' b'. p a b = p a' b' \<Longrightarrow> a = a' \<and> b = b'"
    and "\<forall>i \<in> set leaves. i < 2 ^ d"
    and "smt_batchFill (hasher_of zero p d) (mnode p f d 0) leaves siblings = Ok r'"
  shows "distinct leaves \<and> (\<forall>i \<in> set leaves. f i = NON_EXISBN) \<and>
    r' = mnode p (fill_all leaves f) d 0"
proof -
  have len: "length leaves = length siblings"
    and run: "foldM (\<lambda>(leaf, sibs) r. smt_fill (hasher_of zero p d) r leaf sibs) (zip leaves siblings)
      (mnode p f d 0) = Ok r'"
    using assms(3) by (auto simp: smt_batchFill_def)
  have pre: "length (preHash (hasher_of zero p d)) = d + 1" by (rule standard.preHash_length)
  show ?thesis
    by (rule smt_fills_sound [where h = "hasher_of zero p d", unfolded parentOf_hasher_of,
          OF assms(1) pre len assms(2) refl run])
qed

text \<open>The library cannot be used on the node's nullifier tree. The two disagree on the leaf
  values, so without collisions no leaf of a nullifier tree can be filled, with whatever siblings.\<close>

theorem fill_refuses_nullifier_tree:
  assumes "\<And>a b a' b'. p a b = p a' b' \<Longrightarrow> a = a' \<and> b = b'"
    and "nl_inv p t db S" and "i < 2 ^ nl_depth t"
  shows "\<exists>msg. smt_fill (nl_hasher t) (fst (getRootNode db t)) i siblings = Throw msg"
proof -
  have h: "nl_hasher t = hasher_of 0 p (nl_depth t)"
    and root: "fst (getRootNode db t) = mnode p (used_leaf S) (nl_depth t) 0"
    using assms(2) by (simp_all add: nl_inv_def)
  have pre: "length (preHash (hasher_of 0 p (nl_depth t))) = nl_depth t + 1"
    by (rule standard.preHash_length)
  have "smt_fill (nl_hasher t) (fst (getRootNode db t)) i siblings \<noteq> Ok r'" for r'
    using smt_fill_sound [where h = "hasher_of 0 p (nl_depth t)", unfolded parentOf_hasher_of,
        OF assms(1) pre assms(3) root, of siblings r'] EXISBN_distinct
    by (auto simp: h used_leaf_def split: if_splits)
  then show ?thesis unfolding not_Ok_iff [symmetric] by blast
qed

section \<open>Witnesses\<close>

text \<open>A pairing of integers, as a hash without collisions.\<close>

definition pair_hash :: "int \<Rightarrow> int \<Rightarrow> int" where
  "pair_hash a b = int (to_nat (a, b))"

lemma pair_hash_inj: "pair_hash a b = pair_hash a' b' \<Longrightarrow> a = a' \<and> b = b'"
  by (simp add: pair_hash_def)

lemma sample_fill:
  "smt_batchFill (hasher_of 0 pair_hash 1) (mnode pair_hash (\<lambda>_. NON_EXISBN) 1 0) [1] [[NON_EXISBN]] =
    Ok (pair_hash NON_EXISBN EXISBN)"
proof -
  have "smt_fill (hasher_of 0 pair_hash 1) (pair_hash NON_EXISBN NON_EXISBN) 1 [NON_EXISBN] =
      Ok (pair_hash NON_EXISBN EXISBN)"
    using EXISBN_distinct(1) pair_hash_inj [of NON_EXISBN EXISBN NON_EXISBN NON_EXISBN]
    by (auto simp: smt_fill_Ok_iff standard.preHash_length)
  then show ?thesis by (simp add: smt_batchFill_def)
qed

theorem batchFill_sound_witness:
  "pair_hash NON_EXISBN EXISBN = mnode pair_hash (fill_all [1] (\<lambda>_. NON_EXISBN)) 1 0"
  using batchFill_sound [OF pair_hash_inj _ sample_fill] by simp

theorem fill_refuses_nullifier_tree_witness:
  "\<exists>msg. smt_fill (hasher_of 0 pair_hash 1) (mnode pair_hash (\<lambda>_. 0) 1 0) 0 [0] = Throw msg"
proof -
  let ?t = "\<lparr>nl_depth = 1, nl_hasher = hasher_of 0 pair_hash 1, nl_rootNode = None\<rparr>"
  let ?db = "\<lparr>tree_nodes = Map.empty, light_rows = Map.empty,
    bootstrap_rows = [], block_rows = []\<rparr>"
  have inv: "nl_inv pair_hash ?t ?db {}" by (rule nl_inv_empty) simp_all
  then have "fst (getRootNode ?db ?t) = mnode pair_hash (\<lambda>_. 0) 1 0"
    by (simp add: nl_inv_def used_leaf_def)
  with fill_refuses_nullifier_tree [OF pair_hash_inj inv, of 0 "[0]"] show ?thesis by simp
qed

end
