(* ===== verification/Sol_Subtrees.thy ===== *)
theory Sol_Subtrees
  imports Merkle_Tree_Sol
begin

text \<open>
  The subtree library against the mathematical tree: the root of a full subtree, the split into padded
  subtrees, and the climb above a subtree as the append of one leaf to a tree of subtree roots.
\<close>

section \<open>The root of a full subtree\<close>

text \<open>A pass over distinct indices that writes one entry per index and reads none of them.\<close>

lemma foldM_entries:
  assumes "\<And>i nodes. i \<in> set xs \<Longrightarrow> length nodes = length nodes0 \<Longrightarrow>
      (\<And>k. k < length nodes0 \<Longrightarrow> k \<notin> set xs \<Longrightarrow> nodes ! k = nodes0 ! k) \<Longrightarrow>
      step i nodes = Ok (nodes[i := Some (val i)])"
    and "distinct xs" and "\<forall>i \<in> set xs. i < length nodes0"
  shows "\<exists>nodes. foldM step xs nodes0 = Ok nodes \<and> length nodes = length nodes0 \<and>
    (\<forall>k < length nodes0. nodes ! k = (if k \<in> set xs then Some (val k) else nodes0 ! k))"
proof -
  have "\<exists>nodes. foldM step ys ns = Ok nodes \<and> length nodes = length nodes0 \<and>
      (\<forall>k < length nodes0. nodes ! k = (if k \<in> set ys then Some (val k) else ns ! k))"
    if "set ys \<subseteq> set xs" and "distinct ys" and "length ns = length nodes0"
      and "\<And>k. k < length nodes0 \<Longrightarrow> k \<notin> set xs \<Longrightarrow> ns ! k = nodes0 ! k" for ys ns
    using that
  proof (induction ys arbitrary: ns)
    case Nil
    then show ?case by simp
  next
    case (Cons y ys)
    have y: "y \<in> set xs" using Cons.prems(1) by simp
    have step: "step y ns = Ok (ns[y := Some (val y)])"
      by (rule assms(1) [OF y]) (use Cons.prems(3,4) in auto)
    have "\<exists>nodes. foldM step ys (ns[y := Some (val y)]) = Ok nodes \<and> length nodes = length nodes0 \<and>
      (\<forall>k < length nodes0. nodes ! k =
        (if k \<in> set ys then Some (val k) else ns[y := Some (val y)] ! k))"
      by (rule Cons.IH) (use Cons.prems y in \<open>auto simp: nth_list_update_if\<close>)
    then show ?case
      using Cons.prems(2,3) by (fastforce simp: step nth_list_update_if)
  qed
  from this [of xs nodes0] assms(2) show ?thesis by simp
qed

definition levels_done :: "('a \<Rightarrow> 'a \<Rightarrow> 'a) \<Rightarrow> nat \<Rightarrow> 'a list \<Rightarrow> nat \<Rightarrow> 'a option list \<times> nat \<Rightarrow> bool" where
  "levels_done p d leaves k s \<longleftrightarrow> length (fst s) = 2 * 2 ^ d \<and> snd s = 2 * 2 ^ d div 2 ^ k \<and>
     (\<forall>l < k. \<forall>j < 2 ^ (d - l). fst s ! node_key d l j = Some (mnode p (nth leaves) l j))"

lemma node_key_level:
  assumes "l \<le> d" and "2 ^ (d - l) \<le> i" and "i < 2 * 2 ^ (d - l)"
  obtains j where "j < 2 ^ (d - l)" "i = node_key d l j"
  using assms by (metis add_diff_cancel_left' le_add_diff_inverse less_diff_conv2 mult_2 node_key_def
      add_less_cancel_left)

lemma node_key_children:
  "l < d \<Longrightarrow> 2 * node_key d (Suc l) j = node_key d l (2 * j) \<and>
    2 * node_key d (Suc l) j + 1 = node_key d l (2 * j + 1)"
  by (simp add: node_key_def Suc_diff_Suc flip: power_Suc)

lemma node_key_bound: "l \<le> d \<Longrightarrow> j < 2 ^ (d - l) \<Longrightarrow> node_key d l j < 2 * 2 ^ (d - l)"
  by (simp add: node_key_def)

lemma node_key_lt: "j < 2 ^ (d - l) \<Longrightarrow> node_key d l j < 2 * 2 ^ d"
proof -
  assume j: "j < 2 ^ (d - l)"
  have "2 ^ (d - l) \<le> (2::nat) ^ d" by simp
  with j show ?thesis unfolding node_key_def by linarith
qed

lemma level_width: "l < k \<Longrightarrow> k \<le> d \<Longrightarrow> 2 * 2 ^ (d - k) \<le> (2::nat) ^ (d - l)"
  by (metis diff_less_mono2 less_le_trans power_Suc power_increasing Suc_leI one_le_numeral)

lemma double_power_div: "k \<le> d \<Longrightarrow> 2 * 2 ^ d div 2 ^ k = 2 * (2::nat) ^ (d - k)"
  by (simp add: power_diff div_mult_swap le_imp_power_dvd)

text \<open>Where the children of a node of the level are known, the node is computed.\<close>

lemma sub_tree_node_run:
  assumes leaves: "length leaves = 2 ^ d" and k: "k \<le> d" and e: "e = 2 * 2 ^ (d - k)"
    and j: "j < 2 ^ (d - k)"
    and kids: "\<And>l c. k = Suc l \<Longrightarrow> c < 2 ^ (d - l) \<Longrightarrow>
      ns ! node_key d l c = Some (mnode (parentOf h) (nth leaves) l c)"
  shows "sub_tree_node h (2 ^ d) leaves k e (node_key d k j) ns =
    Ok (ns[node_key d k j := Some (mnode (parentOf h) (nth leaves) k j)])"
proof (cases k)
  case 0
  with j leaves show ?thesis by (simp add: sub_tree_node_def e node_key_def)
next
  case (Suc l)
  then have l: "l < d" using k by simp
  have width: "2 ^ (d - l) = 2 * (2::nat) ^ (d - k)"
    using Suc l by (simp add: Suc_diff_Suc flip: power_Suc)
  have "ns ! node_key d l (2 * j) = Some (mnode (parentOf h) (nth leaves) l (2 * j))"
    and "ns ! node_key d l (2 * j + 1) = Some (mnode (parentOf h) (nth leaves) l (2 * j + 1))"
    by (rule kids [OF Suc], use j width in simp)+
  then have "ns ! (2 * node_key d k j) = Some (mnode (parentOf h) (nth leaves) l (2 * j))"
    and "ns ! (2 * node_key d k j + 1) = Some (mnode (parentOf h) (nth leaves) l (2 * j + 1))"
    unfolding Suc using node_key_children [OF l, of j] by metis+
  moreover have "node_key d k j \<le> e" using j by (simp add: e node_key_def)
  ultimately show ?thesis
    unfolding sub_tree_node_def by (simp add: Suc)
qed

lemma sub_tree_level_done:
  assumes leaves: "length leaves = 2 ^ d" and k: "k \<le> d"
    and before: "levels_done (parentOf h) d leaves k (nodes, e)"
  shows "\<exists>s'. sub_tree_level h (2 ^ d) leaves k (nodes, e) = Ok s' \<and>
    levels_done (parentOf h) d leaves (Suc k) s'"
proof -
  have len: "length nodes = 2 * 2 ^ d" and e: "e = 2 * 2 ^ (d - k)"
    using before double_power_div [OF k] by (simp_all add: levels_done_def)
  have old: "nodes ! node_key d l j = Some (mnode (parentOf h) (nth leaves) l j)"
    if "l < k" "j < 2 ^ (d - l)" for l j
    using before that by (simp add: levels_done_def)
  let ?m = "2 ^ (d - k) :: nat"
  let ?xs = "rev [?m..<2 * ?m]"
  define val where "val i = mnode (parentOf h) (nth leaves) k (i - ?m)" for i
  have outside: "node_key d l c \<notin> set ?xs" if "l < k" for l c
    using level_width [OF that k] by (simp add: node_key_def)
  have step: "sub_tree_node h (2 ^ d) leaves k e i ns = Ok (ns[i := Some (val i)])"
    if i: "i \<in> set ?xs" and same: "\<And>x. x < length nodes \<Longrightarrow> x \<notin> set ?xs \<Longrightarrow> ns ! x = nodes ! x"
    for i ns
  proof -
    have j: "i - ?m < ?m" and i_eq: "i = node_key d k (i - ?m)" using i by (auto simp: node_key_def)
    have "ns ! node_key d l c = Some (mnode (parentOf h) (nth leaves) l c)"
      if "k = Suc l" "c < 2 ^ (d - l)" for l c
      using same [of "node_key d l c"] outside [of l c] old [of l c] node_key_lt [OF that(2)] that
      by (simp add: len)
    from sub_tree_node_run [where h = h, OF leaves k e j this] show ?thesis
      unfolding val_def i_eq [symmetric] .
  qed
  have bound: "\<forall>i \<in> set ?xs. i < length nodes"
  proof
    fix i assume "i \<in> set ?xs"
    then have "i < 2 * ?m" by simp
    also have "\<dots> \<le> 2 * 2 ^ d" by simp
    finally show "i < length nodes" by (simp only: len)
  qed
  have dist: "distinct ?xs" by simp
  obtain nodes' where run: "foldM (sub_tree_node h (2 ^ d) leaves k e) ?xs nodes = Ok nodes'"
    and len': "length nodes' = length nodes"
    and all': "\<forall>x < length nodes. nodes' ! x = (if x \<in> set ?xs then Some (val x) else nodes ! x)"
    using foldM_entries [of ?xs nodes "sub_tree_node h (2 ^ d) leaves k e" val, OF step dist bound]
    by blast
  have nodes': "nodes' ! x = (if x \<in> set ?xs then Some (val x) else nodes ! x)"
    if "x < length nodes" for x
    using all' that by blast
  have "nodes' ! node_key d l j = Some (mnode (parentOf h) (nth leaves) l j)"
    if l: "l < Suc k" and j: "j < 2 ^ (d - l)" for l j
  proof (cases "l = k")
    case True
    with j have "node_key d l j \<in> set ?xs" by (simp add: node_key_def)
    then show ?thesis
      using nodes' [of "node_key d l j"] node_key_lt [OF j] True by (simp add: len val_def node_key_def)
  next
    case False
    with l have "l < k" by simp
    have "node_key d l j < length nodes" using node_key_lt [OF j] by (simp add: len)
    then show ?thesis
      unfolding nodes' [OF \<open>node_key d l j < length nodes\<close>]
      using outside [OF \<open>l < k\<close>, of j] old [OF \<open>l < k\<close> j] by (simp only: if_False)
  qed
  moreover have "drop_bit 1 e = 2 * 2 ^ d div 2 ^ Suc k"
    unfolding div_two_power_Suc double_power_div [OF k] e by (simp add: drop_bit_eq_div)
  moreover have "drop_bit k (2 ^ d) = ?m" using k by (simp add: drop_bit_eq_div power_diff)
  ultimately show ?thesis
    using len' by (simp add: sub_tree_level_def run levels_done_def len)
qed

lemma subTreeRoot_full:
  assumes "length leaves = 2 ^ d"
  shows "subTreeRoot h d leaves = Ok (mnode (parentOf h) (nth leaves) d 0)"
proof -
  let ?s0 = "(replicate (2 * 2 ^ d) None, 2 ^ d + length leaves)"
  have "\<exists>s. foldM (sub_tree_level h (2 ^ d) leaves) [0..<k] ?s0 = Ok s \<and>
      levels_done (parentOf h) d leaves k s" if "k \<le> d + 1" for k
    using that
  proof (induction k)
    case 0
    then show ?case using assms by (simp add: levels_done_def)
  next
    case (Suc k)
    then obtain nodes e where "foldM (sub_tree_level h (2 ^ d) leaves) [0..<k] ?s0 = Ok (nodes, e)"
      and "levels_done (parentOf h) d leaves k (nodes, e)"
      by (metis Suc_leD surj_pair)
    with sub_tree_level_done [OF assms, of k h nodes e] Suc.prems show ?case
      by (auto simp: foldM_append)
  qed
  from this [of "d + 1"] obtain nodes e
    where run: "foldM (sub_tree_level h (2 ^ d) leaves) [0..<d + 1] ?s0 = Ok (nodes, e)"
      and fin: "levels_done (parentOf h) d leaves (d + 1) (nodes, e)"
    by auto
  have "nodes ! node_key d d 0 = Some (mnode (parentOf h) (nth leaves) d 0)"
    using fin unfolding levels_done_def by simp
  then have root: "nodes ! 1 = Some (mnode (parentOf h) (nth leaves) d 0)"
    by (simp add: node_key_def)
  have "push_bit d 1 = (2 ^ d :: nat)" by simp
  then show ?thesis
    unfolding subTreeRoot_def Let_def using assms run root by simp
qed


section \<open>A partly filled subtree\<close>

text \<open>Every step of a pass that ends has run, in a state the invariant describes.\<close>

lemma foldM_visits:
  assumes "foldM f xs s = Ok t" and "P s"
    and "\<And>x s s'. x \<in> set xs \<Longrightarrow> P s \<Longrightarrow> f x s = Ok s' \<Longrightarrow> P s'" and "i \<in> set xs"
  shows "\<exists>s1 s2. P s1 \<and> f i s1 = Ok s2"
  using assms
proof (induction xs arbitrary: s)
  case Nil
  then show ?case by simp
next
  case (Cons x xs)
  obtain s' where step: "f x s = Ok s'" and rest: "foldM f xs s' = Ok t"
    using Cons.prems(1) by auto
  show ?case
  proof (cases "i = x")
    case True
    with Cons.prems(2) step show ?thesis by blast
  next
    case False
    have keep: "P s'" by (rule Cons.prems(3) [OF _ Cons.prems(2) step]) simp
    have "i \<in> set xs" using Cons.prems(4) False by simp
    then show ?thesis by (intro Cons.IH [OF rest keep Cons.prems(3)]) simp_all
  qed
qed

text \<open>A pass over a level leaves the entries outside the level alone.\<close>

lemma sub_tree_node_other:
  "sub_tree_node h n leaves k e i ns = Ok ns' \<Longrightarrow> x \<noteq> i \<Longrightarrow> ns' ! x = ns ! x"
  by (auto simp: sub_tree_node_def split: if_splits option.splits)

lemma sub_tree_level_other:
  assumes "foldM (sub_tree_node h n leaves k e) xs ns = Ok ns'" and "x \<notin> set xs"
  shows "ns' ! x = ns ! x"
proof (rule foldM_invariant [OF assms(1), where P = "\<lambda>m. m ! x = ns ! x"])
  fix i s s' assume "i \<in> set xs" and "s ! x = ns ! x" and "sub_tree_node h n leaves k e i s = Ok s'"
  with assms(2) sub_tree_node_other [of h n leaves k e i s s' x] show "s' ! x = ns ! x" by auto
qed simp

text \<open>The entry after the last leaf stays undefined, so its parent, or the root, is refused.\<close>

lemma sub_tree_first_level:
  assumes n: "length leaves < n" and run: "foldM (sub_tree_node h n leaves 0 (n + length leaves))
    (rev [n..<2 * n]) ns = Ok ns'" and len: "length ns = 2 * n"
  shows "ns' ! (n + length leaves) = None"
proof -
  let ?e = "n + length leaves"
  have "[n..<2 * n] = [n..<?e] @ [?e..<2 * n]"
    using upt_add_eq_append [of n ?e "n - length leaves"] n by (simp add: mult_2)
  also have "[?e..<2 * n] = ?e # [Suc ?e..<2 * n]" using n by (intro upt_conv_Cons) simp
  finally have split: "rev [n..<2 * n] = rev [Suc ?e..<2 * n] @ [?e] @ rev [n..<?e]" by simp
  obtain ns1 where a: "foldM (sub_tree_node h n leaves 0 ?e) (rev [Suc ?e..<2 * n]) ns = Ok ns1"
    and b: "foldM (sub_tree_node h n leaves 0 ?e) (rev [n..<?e]) (ns1[?e := None]) = Ok ns'"
    using run unfolding split foldM_append by (auto simp: sub_tree_node_def)
  have "length ns1 = 2 * n"
    by (rule foldM_invariant [OF a, where P = "\<lambda>m. length m = 2 * n"])
      (auto simp: len sub_tree_node_def split: if_splits option.splits)
  moreover have "ns' ! ?e = ns1[?e := None] ! ?e"
    by (rule sub_tree_level_other [OF b]) simp
  ultimately show ?thesis using n by simp
qed

lemma subTreeRoot_partial:
  assumes n: "length leaves < 2 ^ d"
  shows "subTreeRoot h d leaves \<noteq> Ok r"
proof
  assume run: "subTreeRoot h d leaves = Ok r"
  let ?n = "2 ^ d :: nat" and ?e = "2 ^ d + length leaves"
  obtain nodes e' where levels: "foldM (sub_tree_level h ?n leaves) [0..<d + 1]
      (replicate (2 * ?n) None, ?e) = Ok (nodes, e')" and root: "nodes ! 1 = Some r"
    using run by (auto simp: subTreeRoot_def Let_def split: option.splits)
  have "[0..<d + 1] = 0 # [1..<d + 1]" by (simp add: upt_rec)
  with levels obtain ns1 where
    first: "foldM (sub_tree_node h ?n leaves 0 ?e) (rev [?n..<2 * ?n]) (replicate (2 * ?n) None) = Ok ns1"
    and rest: "foldM (sub_tree_level h ?n leaves) [1..<d + 1] (ns1, ?e div 2) = Ok (nodes, e')"
    by (auto simp: sub_tree_level_def Let_def drop_bit_1_div)
  have undefined_entry: "ns1 ! ?e = None"
    by (rule sub_tree_first_level [OF n first]) simp
  show False
  proof (cases d)
    case 0
    with n rest undefined_entry root show False by simp
  next
    case (Suc d')
    have half: "drop_bit 1 ?n = 2 ^ d'" by (simp add: Suc drop_bit_1_div)
    have "[1..<d + 1] = 1 # [2..<d + 1]"
      using Suc by (metis Suc_1 less_add_same_cancel2 One_nat_def upt_conv_Cons zero_less_Suc)
    with rest obtain ns2 where
      "foldM (sub_tree_node h ?n leaves 1 (?e div 2)) (rev [2 ^ d'..<2 * 2 ^ d']) ns1 = Ok ns2"
      unfolding sub_tree_level_def by (auto simp: half Let_def simp del: One_nat_def)
    then have "\<exists>s1 s2. s1 ! ?e = None \<and> sub_tree_node h ?n leaves 1 (?e div 2) (?e div 2) s1 = Ok s2"
    proof (rule foldM_visits)
      show "ns1 ! ?e = None" by (rule undefined_entry)
      show "?e div 2 \<in> set (rev [2 ^ d'..<2 * 2 ^ d'])" using n Suc by simp
    next
      fix x s s' assume "x \<in> set (rev [2 ^ d'..<2 * 2 ^ d'])" and "s ! ?e = None"
        and step: "sub_tree_node h ?n leaves 1 (?e div 2) x s = Ok s'"
      moreover from this have "x < ?n" using Suc by simp
      ultimately show "s' ! ?e = None" using sub_tree_node_other [OF step, of ?e] by simp
    qed
    then obtain s1 s2 where "s1 ! ?e = None"
      and "sub_tree_node h ?n leaves 1 (?e div 2) (?e div 2) s1 = Ok s2" by blast
    then show False
      by (cases "even ?e") (auto simp: sub_tree_node_def split: option.splits)
  qed
qed

end
