(* ===== verification/Sol_Append.thy ===== *)
theory Sol_Append
  imports Sol_Subtrees
begin

text \<open>
  Appending in subtrees is appending the padded leaves: a subtree is one leaf of the tree whose leaves
  are the roots of the subtrees.
\<close>

section \<open>The split into subtrees\<close>

definition sub_chunk :: "'a \<Rightarrow> nat \<Rightarrow> 'a list \<Rightarrow> nat \<Rightarrow> 'a list" where
  "sub_chunk zero sz xs i =
     map (\<lambda>j. if i * sz + j < length xs then xs ! (i * sz + j) else zero) [0..<sz]"

lemma sub_chunk_snoc:
  assumes "0 < sz"
  shows "sub_chunk zero sz (xs @ [x]) i =
    (if i = length xs div sz then (sub_chunk zero sz xs i)[length xs mod sz := x]
     else sub_chunk zero sz xs i)"
proof (rule nth_equalityI)
  show "length (sub_chunk zero sz (xs @ [x]) i) = length (if i = length xs div sz
      then (sub_chunk zero sz xs i)[length xs mod sz := x] else sub_chunk zero sz xs i)"
    by (simp add: sub_chunk_def)
next
  fix j assume "j < length (sub_chunk zero sz (xs @ [x]) i)"
  then have j: "j < sz" by (simp add: sub_chunk_def)
  have pos: "i * sz + j = length xs \<longleftrightarrow> i = length xs div sz \<and> j = length xs mod sz"
  proof
    assume eq: "i * sz + j = length xs"
    show "i = length xs div sz \<and> j = length xs mod sz"
      using j by (simp add: eq [symmetric])
  qed simp
  show "sub_chunk zero sz (xs @ [x]) i ! j = (if i = length xs div sz
      then (sub_chunk zero sz xs i)[length xs mod sz := x] else sub_chunk zero sz xs i) ! j"
    using j pos by (auto simp: sub_chunk_def nth_append nth_list_update_if)
qed

lemma split_fold:
  assumes sz: "0 < sz" and "length xs \<le> N * sz"
  shows "fold (split_step sz) xs (replicate N (replicate sz zero), 0, 0) =
    (map (sub_chunk zero sz xs) [0..<N], length xs mod sz, length xs div sz)"
  using assms(2)
proof (induction xs rule: rev_induct)
  case Nil
  have "sub_chunk zero sz [] i = replicate sz zero" for i
    by (simp add: sub_chunk_def map_replicate_const)
  then show ?case by (simp add: map_replicate_const)
next
  case (snoc x xs)
  let ?q = "length xs div sz" and ?r = "length xs mod sz"
  have q: "?q < N" using snoc.prems sz by (simp add: div_less_iff_less_mult)
  have upd: "(map (sub_chunk zero sz xs) [0..<N])[?q := (sub_chunk zero sz xs ?q)[?r := x]] =
      map (sub_chunk zero sz (xs @ [x])) [0..<N]"
    using sz by (intro nth_equalityI) (auto simp: nth_list_update_if sub_chunk_snoc)
  have next_pos: "(if ?r < sz - 1 then (?r + 1, ?q) else (0, ?q + 1)) =
      (Suc (length xs) mod sz, Suc (length xs) div sz)"
  proof (cases "?r < sz - 1")
    case True
    then have "Suc ?r \<noteq> sz" by simp
    with True show ?thesis by (simp add: mod_Suc div_Suc)
  next
    case False
    moreover have "?r < sz" using sz by simp
    ultimately have "Suc ?r = sz" by simp
    then show ?thesis by (simp add: mod_Suc div_Suc)
  qed
  have "fold (split_step sz) (xs @ [x]) (replicate N (replicate sz zero), 0, 0) =
      split_step sz x (map (sub_chunk zero sz xs) [0..<N], ?r, ?q)"
    using snoc by simp
  also have "\<dots> = (map (sub_chunk zero sz (xs @ [x])) [0..<N], Suc (length xs) mod sz,
      Suc (length xs) div sz)"
    using q unfolding split_step_def split next_pos by (simp add: upd del: upt_Suc)
  finally show ?case by simp
qed

lemma splitToSubTrees_eq:
  "splitToSubTrees h leaves s =
    map (sub_chunk (preHash h ! 0) (2 ^ s) leaves) [0..<ceil_div (length leaves) (2 ^ s)]"
  using split_fold [of "2 ^ s" leaves "ceil_div (length leaves) (2 ^ s)" "preHash h ! 0"]
    ceil_div_mult_ge [of "2 ^ s" "length leaves"]
  by (simp add: splitToSubTrees_def Let_def mult.commute)

section \<open>One subtree\<close>

text \<open>The hasher of the tree of subtree roots.\<close>

definition above :: "nat \<Rightarrow> 'a hasher \<Rightarrow> 'a hasher" where
  "above s h = \<lparr>parentOf = parentOf h, preHash = drop s (preHash h)\<rparr>"

lemma parentOf_above [simp]: "parentOf (above s h) = parentOf h"
  by (simp add: above_def)

lemma sub_tree_climb_eq:
  assumes "k \<le> length siblings" and "s + length siblings < length (preHash h)"
  shows "for_upto k (sub_tree_climb h s siblings) (n, x, siblings) =
    (n div 2 ^ k, for_upto k (climb_level (above s h) (length siblings) n) (x, siblings)) \<and>
   (\<forall>l. k \<le> l \<longrightarrow> snd (for_upto k (climb_level (above s h) (length siblings) n) (x, siblings)) ! l =
      siblings ! l)"
  using assms(1)
proof (induction k)
  case 0
  then show ?case by (simp add: loop_simps)
next
  case (Suc k)
  obtain node sibs where climb:
    "for_upto k (climb_level (above s h) (length siblings) n) (x, siblings) = (node, sibs)"
    by fastforce
  then have IH: "for_upto k (sub_tree_climb h s siblings) (n, x, siblings) = (n div 2 ^ k, node, sibs)"
    and same: "\<And>l. k \<le> l \<Longrightarrow> sibs ! l = siblings ! l"
    using Suc by simp_all
  have k: "k < length siblings" using Suc.prems by simp
  have "sibs[k := siblings ! k] = sibs"
    using same [of k] by (metis le_refl list_update_id)
  moreover have "preHash h ! (k + s) = preHash (above s h) ! k"
    using assms(2) k by (simp add: above_def add.commute)
  ultimately show ?case
    using k same unfolding for_upto_Suc IH climb
    by (auto simp: sub_tree_climb_def climb_level_def Let_def even_leaf_path div_two_power_Suc
        drop_bit_1_div simp del: power_Suc)
qed

lemma appendSubTree_full:
  assumes "length leaves = 2 ^ s" and "s + length siblings < length (preHash h)"
  shows "appendSubTree h index s leaves siblings =
    (let (node, sibs) = for_upto (length siblings)
        (climb_level (above s h) (length siblings) (index div 2 ^ s))
        (mnode (parentOf h) (nth leaves) s 0, siblings)
     in Ok (node, index + 2 ^ s, sibs))"
  using sub_tree_climb_eq [OF le_refl assms(2), of "index div 2 ^ s"
      "mnode (parentOf h) (nth leaves) s 0"] assms(1)
  by (simp add: appendSubTree_def subTreeRoot_full Let_def drop_bit_eq_div split: prod.splits)

lemma climb_levels_length:
  "length (snd (for_upto k (climb_level h d n) (x, S))) = length S"
  by (induction k) (auto simp: loop_simps climb_level_def Let_def split: prod.splits)

text \<open>So a list of subtrees is a list of leaves of the tree above.\<close>

lemma append_subtrees_dry:
  assumes "\<forall>c \<in> set chunks. length c = 2 ^ s" and "length S = d" and "s + d < length (preHash h)"
    and "index = q * 2 ^ s"
  shows "foldM (\<lambda>subTree (_, nextIndex, nextSiblings).
        appendSubTree h nextIndex s subTree nextSiblings) chunks (r, index, S) =
    (let dat = dry_append_loop (above s h) d
        (map (\<lambda>c. \<lparr>lf_hash = mnode (parentOf h) (nth c) s 0, lf_shouldTrack = False\<rparr>) chunks)
        \<lparr>td_root = r, td_index = q, td_siblings = S\<rparr>
     in Ok (td_root dat, td_index dat * 2 ^ s, td_siblings dat))"
  using assms
proof (induction chunks arbitrary: r index q S)
  case Nil
  then show ?case by simp
next
  case (Cons c chunks)
  obtain node sibs where climb: "for_upto d (climb_level (above s h) d q)
      (mnode (parentOf h) (nth c) s 0, S) = (node, sibs)"
    by fastforce
  then have len: "length sibs = d"
    using climb_levels_length [of d "above s h" d q "mnode (parentOf h) (nth c) s 0" S] Cons.prems(2)
    by simp
  have "appendSubTree h index s c S = Ok (node, (q + 1) * 2 ^ s, sibs)"
    using appendSubTree_full [of c s S h index] Cons.prems climb by simp
  with Cons.IH [OF _ len, of "(q + 1) * 2 ^ s" "q + 1" node] Cons.prems climb show ?case
    by simp
qed


section \<open>The leaves of the subtrees\<close>

lemma mnode_shift:
  "l \<le> L \<Longrightarrow> mnode p f l (j + c * 2 ^ (L - l)) = mnode p (\<lambda>i. f (i + c * 2 ^ L)) l j"
proof (induction l arbitrary: j)
  case 0
  then show ?case by simp
next
  case (Suc l)
  have width: "2 ^ (L - l) = 2 * (2::nat) ^ (L - Suc l)"
    using Suc.prems by (simp add: Suc_diff_Suc flip: power_Suc)
  have "mnode p f l (2 * (j + c * 2 ^ (L - Suc l))) = mnode p (\<lambda>i. f (i + c * 2 ^ L)) l (2 * j)"
    using Suc.IH [of "2 * j"] Suc.prems by (simp add: width algebra_simps)
  moreover have "mnode p f l (2 * (j + c * 2 ^ (L - Suc l)) + 1) =
      mnode p (\<lambda>i. f (i + c * 2 ^ L)) l (2 * j + 1)"
    using Suc.IH [of "2 * j + 1"] Suc.prems by (simp add: width algebra_simps)
  ultimately show ?case by simp
qed

lemma mnode_chunk:
  assumes "length c = 2 ^ s" and "\<And>k. k < 2 ^ s \<Longrightarrow> g (j * 2 ^ s + k) = c ! k"
  shows "mnode p g s j = mnode p (nth c) s 0"
proof -
  have "mnode p g s j = mnode p (\<lambda>i. g (i + j * 2 ^ s)) s 0"
    using mnode_shift [of s s p g 0 j] by simp
  also have "\<dots> = mnode p (nth c) s 0"
    by (rule mnode_cong) (use assms(2) in \<open>auto simp: add.commute div_eq_0_iff\<close>)
  finally show ?thesis .
qed

lemma append_subtree_roots:
  assumes empty: "empty_from zero (q * 2 ^ s) f"
  shows "append_leaves (mnode p f s) q (map (\<lambda>c. mnode p (nth c) s 0)
      (map (sub_chunk zero (2 ^ s) leaves) [0..<ceil_div (length leaves) (2 ^ s)])) =
    mnode p (append_leaves f (q * 2 ^ s) leaves) s"
proof
  fix j
  let ?N = "ceil_div (length leaves) (2 ^ s)"
  let ?g = "append_leaves f (q * 2 ^ s) leaves"
  have N: "length leaves \<le> 2 ^ s * ?N" by (rule ceil_div_mult_ge) simp
  show "append_leaves (mnode p f s) q (map (\<lambda>c. mnode p (nth c) s 0)
      (map (sub_chunk zero (2 ^ s) leaves) [0..<?N])) j = mnode p ?g s j"
  proof (cases "q \<le> j \<and> j < q + ?N")
    case True
    let ?c = "sub_chunk zero (2 ^ s) leaves (j - q)"
    have "?g (j * 2 ^ s + k) = ?c ! k" if k: "k < 2 ^ s" for k
    proof -
      have pos: "j * 2 ^ s + k - q * 2 ^ s = (j - q) * 2 ^ s + k" and "q * 2 ^ s \<le> j * 2 ^ s + k"
        using True by (simp_all add: diff_mult_distrib trans_le_add1)
      moreover have "f (j * 2 ^ s + k) = zero"
        using empty \<open>q * 2 ^ s \<le> j * 2 ^ s + k\<close> by (simp add: empty_from_def)
      ultimately show ?thesis
        using k by (auto simp: append_leaves_nth sub_chunk_def)
    qed
    then have "mnode p ?g s j = mnode p (nth ?c) s 0"
      by (intro mnode_chunk) (simp_all add: sub_chunk_def)
    moreover have "j - q < ?N" using True by (auto simp: less_diff_conv2)
    ultimately show ?thesis using True by (simp add: append_leaves_nth)
  next
    case False
    have "mnode p ?g s j = mnode p f s j"
    proof (rule mnode_cong)
      fix i assume i: "i div 2 ^ s = j"
      show "?g i = f i"
      proof (cases "j < q")
        case True
        with i have "i < q * 2 ^ s" by (metis block_le_iff leD leI)
        then show ?thesis by (simp add: append_leaves_nth)
      next
        case False
        with \<open>\<not> (q \<le> j \<and> j < q + ?N)\<close> have "q + ?N \<le> j" by simp
        then have "(q + ?N) * 2 ^ s \<le> i" using i by (simp only: block_le_iff)
        with N show ?thesis by (simp add: append_leaves_nth algebra_simps)
      qed
    qed
    with False show ?thesis by (auto simp: append_leaves_nth)
  qed
qed

section \<open>The checks\<close>

lemma empty_sub_tree_levels_iff:
  "empty_sub_tree_levels h s k path S \<longleftrightarrow>
     (\<forall>l < length S. (even (path div 2 ^ l) \<longrightarrow> S ! l = preHash h ! (k + l + s)) \<and>
       (odd (path div 2 ^ l) \<longrightarrow> S ! l \<noteq> preHash h ! (k + l + s)))"
proof (induction S arbitrary: k path)
  case Nil
  then show ?case by simp
next
  case (Cons sib S)
  have "empty_sub_tree_levels h s k path (sib # S) \<longleftrightarrow>
      (even path \<longrightarrow> sib = preHash h ! (k + s)) \<and> (odd path \<longrightarrow> sib \<noteq> preHash h ! (k + s)) \<and>
      empty_sub_tree_levels h s (Suc k) (path div 2) S"
    by (simp add: drop_bit_1_div)
  then show ?case
    unfolding Cons.IH by (simp add: All_less_Suc2 div_mult2_eq)
qed

lemma emptySubTreeProof_iff:
  assumes "s + length S < length (preHash h)"
  shows "emptySubTreeProof h r (q * 2 ^ s) s S \<longleftrightarrow>
    startingLeafProof (above s h) r q S \<and>
    (\<forall>l < length S. odd (q div 2 ^ l) \<longrightarrow> S ! l \<noteq> preHash h ! (l + s))"
proof -
  have up: "preHash (above s h) ! l = preHash h ! (l + s)" if "l < length S" for l
    using assms that by (simp add: above_def add.commute)
  have zero: "preHash (above s h) ! 0 = preHash h ! s"
    using assms by (simp add: above_def)
  have root: "merkleRoot (above s h) q x S = merkleRoot h q x S" for x
    by (induction S arbitrary: q x) (simp_all)
  have path: "drop_bit s (q * 2 ^ s) = q" by (simp add: drop_bit_eq_div)
  show ?thesis
    unfolding emptySubTreeProof_def Let_def path empty_sub_tree_levels_iff startingLeafProof_iff
      sol_merkleProof_def sol_merkleRoot_eq zero root
    using up by auto
qed


section \<open>Appending subtrees\<close>

context prehashed
begin

lemma prehashed_above:
  assumes "s + d = depth"
  shows "prehashed (above s h) (preHash h ! s) d"
proof
  have len: "s \<le> length (preHash h)" using assms by (simp add: preHash_length)
  show "length (preHash (above s h)) = d + 1" using assms by (simp add: above_def preHash_length)
  show "preHash (above s h) ! 0 = preHash h ! s" using len by (simp add: above_def)
  show "preHash (above s h) ! Suc l =
      parentOf (above s h) (preHash (above s h) ! l) (preHash (above s h) ! l)" if "l < d" for l
    using that assms len preHash_Suc [of "s + l"] by (simp add: above_def)
qed

text \<open>With a frontier of subtrees the library computes the root of the tree with the leaves written
  behind the old ones.\<close>

lemma append_subtrees_root:
  assumes d: "s + d = depth" and len: "length S = d" and empty: "empty_from zero (q * 2 ^ s) f"
    and rep: "represents (above s h) (preHash h ! s) d (mnode (parentOf h) f s)
      \<lparr>td_root = r, td_index = q, td_siblings = S\<rparr>"
    and room: "q + ceil_div (length leaves) (2 ^ s) \<le> 2 ^ d"
    and accepted: "emptySubTreeProof h r (q * 2 ^ s) s S"
  shows "appendAsSubTrees h r (q * 2 ^ s) s leaves S =
    Ok (mnode (parentOf h) (append_leaves f (q * 2 ^ s) leaves) depth 0)"
proof -
  let ?chunks = "splitToSubTrees h leaves s"
  let ?items = "map (\<lambda>c. \<lparr>lf_hash = mnode (parentOf h) (nth c) s 0, lf_shouldTrack = False\<rparr>) ?chunks"
  let ?dat = "\<lparr>td_root = r, td_index = q, td_siblings = S\<rparr>"
  have chunks: "?chunks = map (sub_chunk zero (2 ^ s) leaves) [0..<ceil_div (length leaves) (2 ^ s)]"
    by (simp add: splitToSubTrees_eq preHash_0)
  have "map lf_hash ?items = map (\<lambda>c. mnode (parentOf h) (nth c) s 0) ?chunks" by simp
  then have leaves: "append_leaves (mnode (parentOf h) f s) q (map lf_hash ?items) =
      mnode (parentOf h) (append_leaves f (q * 2 ^ s) leaves) s"
    using append_subtree_roots [OF empty, of "parentOf h" leaves] unfolding chunks by metis
  have full: "\<forall>c \<in> set ?chunks. length c = 2 ^ s" by (auto simp: chunks sub_chunk_def)
  have above_len: "s + d < length (preHash h)" using d by (simp add: preHash_length)
  have "represents (above s h) (preHash h ! s) d
      (append_leaves (mnode (parentOf h) f s) q (map lf_hash ?items))
      (dry_append_loop (above s h) d ?items ?dat)"
    using prehashed.dry_append_loop_represents [OF prehashed_above [OF d] rep, of ?items] room
    by (simp add: chunks)
  then have "td_root (dry_append_loop (above s h) d ?items ?dat) =
      mnode (parentOf h) (append_leaves f (q * 2 ^ s) leaves) depth 0"
    unfolding represents_def leaves by (simp add: mnode_group d)
  then show ?thesis
    using append_subtrees_dry [OF full len above_len refl, of r q] accepted len d
    by (simp add: appendAsSubTrees_def Let_def preHash_length)
qed

end


section \<open>Properties\<close>

text \<open>the root of a subtree is computed exactly for full subtrees: a partly filled one and an
  overflowing one are refused, a full one gives the root of the mathematical tree.\<close>

theorem subTreeRoot_exact:
  "subTreeRoot h d leaves = Ok r \<longleftrightarrow>
     length leaves = 2 ^ d \<and> r = mnode (parentOf h) (nth leaves) d 0"
proof (cases "length leaves" "2 ^ d :: nat" rule: linorder_cases)
  case less
  then show ?thesis using subTreeRoot_partial [OF less, of h r] by simp
next
  case equal
  then show ?thesis by (auto simp: subTreeRoot_full)
next
  case greater
  then show ?thesis by (simp add: subTreeRoot_def Let_def)
qed

text \<open>An accepted subtree append is sound. Without collisions, appending in subtrees to a root
  succeeds only where the tree is empty from the index on, and then gives the root of the tree with
  the leaves written there.\<close>

theorem appendAsSubTrees_sound:
  assumes inj: "\<And>a b a' b'. p a b = p a' b' \<Longrightarrow> a = a' \<and> b = b'"
    and r: "r = mnode p f d 0" and outside: "empty_from zero (2 ^ d) f"
    and room: "q + ceil_div (length leaves) (2 ^ s) \<le> 2 ^ (d - s)" and q: "q < 2 ^ (d - s)"
    and run: "appendAsSubTrees (hasher_of zero p d) r (q * 2 ^ s) s leaves S = Ok r'"
  shows "empty_from zero (q * 2 ^ s) f \<and>
    r' = mnode p (append_leaves f (q * 2 ^ s) leaves) d 0"
proof -
  let ?h = "hasher_of zero p d"
  have d: "s + length S = d" and accepted: "emptySubTreeProof ?h r (q * 2 ^ s) s S"
    using run by (auto simp: appendAsSubTrees_def standard.preHash_length)
  have above_len: "s + length S < length (preHash ?h)" using d by (simp add: standard.preHash_length)
  have start: "startingLeafProof (above s ?h) r q S"
    using accepted unfolding emptySubTreeProof_iff [OF above_len] by blast
  have empty_root: "mnode p (\<lambda>_. zero) s j = preHash ?h ! s" for j
    using standard.mnode_empty [where p = p and depth = d and zero = zero, unfolded parentOf_hasher_of] d
    by simp
  have outer: "empty_from (preHash ?h ! s) (2 ^ length S) (mnode p f s)"
    unfolding empty_from_def
  proof (intro allI impI)
    fix j assume j: "2 ^ length S \<le> (j :: nat)"
    have "(2 ^ length S * 2 ^ s :: nat) \<le> j * 2 ^ s" by (rule mult_le_mono1 [OF j])
    then have le: "2 ^ d \<le> j * 2 ^ s" using d by (simp add: power_add [symmetric] add.commute)
    have "mnode p f s j = mnode p (\<lambda>_. zero) s j"
    proof (rule mnode_cong)
      fix i assume "i div 2 ^ s = j"
      then have "j * 2 ^ s \<le> i" by (simp add: block_le_iff)
      with le outside show "f i = zero" by (simp add: empty_from_def)
    qed
    then show "mnode p f s j = preHash ?h ! s" by (simp add: empty_root)
  qed
  have top: "r = mnode p (mnode p f s) (length S) 0" using r d by (simp add: mnode_group)
  have q': "q < 2 ^ length S" using q d by auto
  have rep: "represents (above s ?h) (preHash ?h ! s) (length S) (mnode p f s)
      \<lparr>td_root = r, td_index = q, td_siblings = S\<rparr>"
    by (rule prehashed.starting_proof_represents [OF standard.prehashed_above [OF d],
          where dat = "\<lparr>td_root = r, td_index = q, td_siblings = S\<rparr>" and f = "mnode p f s",
          unfolded parentOf_above parentOf_hasher_of tree_data.simps,
          OF inj start refl q' top outer])
  have empty: "empty_from zero (q * 2 ^ s) f"
    unfolding empty_from_def
  proof (intro allI impI)
    fix i assume "q * 2 ^ s \<le> i"
    then have "q \<le> i div 2 ^ s" by (simp add: block_le_iff)
    then have "mnode p f s (i div 2 ^ s) = mnode p (\<lambda>_. zero) s (i div 2 ^ s)"
      using rep by (simp add: represents_def empty_from_def empty_root)
    from mnode_inj [OF inj this] show "f i = zero" by simp
  qed
  have room': "q + ceil_div (length leaves) (2 ^ s) \<le> 2 ^ length S" using room d by auto
  from standard.append_subtrees_root [unfolded parentOf_hasher_of, OF d refl empty rep room' accepted]
  show ?thesis using run empty by simp
qed

text \<open>The published proof of a tree, seen from the level of the subtrees.\<close>

lemma own_proof_siblings:
  assumes hist: "tree_history (hasher_of zero p (lt_depth t)) zero sync f T t db"
    and index: "latestLeafIndex t = q * 2 ^ s" and s: "s \<le> lt_depth t"
  shows "length (drop s (td_siblings (getStartingLeafProof t))) = lt_depth t - s"
    and "l < lt_depth t - s \<Longrightarrow> drop s (td_siblings (getStartingLeafProof t)) ! l =
      mnode p (mnode p f s) l (sib_pos (q div 2 ^ l))"
proof -
  let ?d = "lt_depth t" and ?h = "hasher_of zero p (lt_depth t)" and ?S = "td_siblings (getStartingLeafProof t)"
  note facts = history_facts [OF hist]
  have lenS: "length ?S = ?d" and S': "\<And>l. l < ?d \<Longrightarrow> ?S ! l = mnode p f l (sib_pos (q * 2 ^ s div 2 ^ l))"
    using standard.getStartingLeafProof_siblings [OF facts(1) refl facts(3)] index
    by (simp_all add: latestLeafIndex_def)
  show "length (drop s ?S) = ?d - s" by (simp add: lenS)
  have shift: "q * 2 ^ s div 2 ^ (s + l) = q div 2 ^ l" for l
    by (simp add: power_add div_mult2_eq)
  show "drop s ?S ! l = mnode p (mnode p f s) l (sib_pos (q div 2 ^ l))" if "l < ?d - s"
    using that S' [of "s + l"] lenS by (simp add: shift mnode_group)
qed

lemma own_proof_root:
  assumes hist: "tree_history (hasher_of zero p (lt_depth t)) zero sync f T t db" and s: "s \<le> lt_depth t"
  shows "lt_root t = mnode p (mnode p f s) (lt_depth t - s) 0"
  using history_facts(6) [OF hist] s by (simp add: mnode_group)

lemma own_proof_empty:
  assumes hist: "tree_history (hasher_of zero p (lt_depth t)) zero sync f T t db"
    and index: "latestLeafIndex t = q * 2 ^ s" and s: "s \<le> lt_depth t"
  shows "empty_from zero (q * 2 ^ s) f"
    and "empty_from (preHash (hasher_of zero p (lt_depth t)) ! s) q (mnode p f s)"
proof -
  show empty: "empty_from zero (q * 2 ^ s) f"
    using history_facts(3) [OF hist] index by (simp add: represents_def latestLeafIndex_def)
  show "empty_from (preHash (hasher_of zero p (lt_depth t)) ! s) q (mnode p f s)"
    unfolding empty_from_def
    using standard.block_empty [where p = p and depth = "lt_depth t" and k = s, OF empty,
        unfolded parentOf_hasher_of] s by simp
qed

text \<open>It is accepted where no left subtree on the path is empty.\<close>

lemma own_proof_accepted:
  assumes hist: "tree_history (hasher_of zero p (lt_depth t)) zero sync f T t db"
    and index: "latestLeafIndex t = q * 2 ^ s" and s: "s \<le> lt_depth t" and q: "q < 2 ^ (lt_depth t - s)"
    and filled: "\<And>l. l < lt_depth t - s \<Longrightarrow> odd (q div 2 ^ l) \<Longrightarrow>
      mnode p f (l + s) (q div 2 ^ l - 1) \<noteq> mnode p (\<lambda>_. zero) (l + s) 0"
  shows "emptySubTreeProof (hasher_of zero p (lt_depth t)) (lt_root t) (latestLeafIndex t) s
      (drop s (td_siblings (getStartingLeafProof t)))"
proof -
  let ?d = "lt_depth t" and ?h = "hasher_of zero p (lt_depth t)"
  let ?D = "drop s (td_siblings (getStartingLeafProof t))"
  note lenD = own_proof_siblings(1) [OF hist index s] and drop = own_proof_siblings(2) [OF hist index s]
  have sum: "s + (?d - s) = ?d" using s by simp
  have up: "prehashed (above s ?h) (preHash ?h ! s) (?d - s)" by (rule standard.prehashed_above [OF sum])
  have start: "startingLeafProof (above s ?h) (lt_root t) q ?D"
    unfolding own_proof_root [OF hist s]
    by (rule prehashed.startingLeafProof_mnode [OF up lenD q own_proof_empty(2) [OF hist index s],
          unfolded parentOf_above parentOf_hasher_of]) (rule drop)
  have "s + length ?D < length (preHash ?h)" using s lenD by (simp add: standard.preHash_length)
  moreover have "?D ! l \<noteq> preHash ?h ! (l + s)"
    if l: "l < ?d - s" and odd: "odd (q div 2 ^ l)" for l
  proof -
    have "preHash ?h ! (l + s) = mnode p (\<lambda>_. zero) (l + s) 0"
      using standard.mnode_empty [where p = p and depth = ?d and l = "l + s" and j = 0
        and f = "\<lambda>_. zero" and zero = zero] l by simp
    then show ?thesis
      using drop [OF l] filled [OF l odd] odd by (simp add: mnode_group sib_pos_def add.commute)
  qed
  ultimately show ?thesis using start lenD unfolding index by (simp add: emptySubTreeProof_iff)
qed

text \<open>Where it is accepted, the subtree append and the dry run give the same root.\<close>

lemma own_proof_append:
  assumes hist: "tree_history (hasher_of zero p (lt_depth t)) zero sync f T t db"
    and index: "latestLeafIndex t = q * 2 ^ s" and s: "s \<le> lt_depth t"
    and room: "q + ceil_div (length items) (2 ^ s) \<le> 2 ^ (lt_depth t - s)"
    and accepted: "emptySubTreeProof (hasher_of zero p (lt_depth t)) (lt_root t) (latestLeafIndex t) s
      (drop s (td_siblings (getStartingLeafProof t)))"
  shows "appendAsSubTrees (hasher_of zero p (lt_depth t)) (lt_root t) (latestLeafIndex t) s
      (map lf_hash items) (drop s (td_siblings (getStartingLeafProof t))) =
    Ok (td_root (dryAppend t items))"
proof -
  let ?d = "lt_depth t" and ?h = "hasher_of zero p (lt_depth t)" and ?n = "latestLeafIndex t"
  let ?D = "drop s (td_siblings (getStartingLeafProof t))"
  note facts = history_facts [OF hist]
  note lenD = own_proof_siblings(1) [OF hist index s] and drop = own_proof_siblings(2) [OF hist index s]
  note empty = own_proof_empty [OF hist index s]
  have width: "2 ^ (?d - s) * 2 ^ s = (2 ^ ?d :: nat)" using s by (simp flip: power_add)
  have sum: "s + (?d - s) = ?d" using s by simp
  have front: "frontier p (mnode p f s) q ?D"
    unfolding frontier_def lenD using drop by (auto simp only: sib_pos_def if_False)
  have rep_up: "represents (above s ?h) (preHash ?h ! s) (?d - s) (mnode p f s)
      \<lparr>td_root = lt_root t, td_index = q, td_siblings = ?D\<rparr>"
    using lenD empty(2) own_proof_root [OF hist s] front room by (simp add: represents_def)
  have room': "q + ceil_div (length (map lf_hash items)) (2 ^ s) \<le> 2 ^ (?d - s)" using room by simp
  have "?n + length items \<le> (q + ceil_div (length items) (2 ^ s)) * 2 ^ s"
    using ceil_div_mult_ge [of "2 ^ s" "length items"] by (simp add: index algebra_simps)
  also have "\<dots> \<le> 2 ^ ?d" using room width by (metis mult_le_mono1)
  finally have "td_root (dryAppend t items) =
      mnode p (append_leaves f (q * 2 ^ s) (map lf_hash items)) ?d 0"
    using dryAppend_represents [OF facts(1,3), of items] by (simp add: represents_def index)
  with standard.append_subtrees_root [unfolded parentOf_hasher_of, OF sum lenD empty(1) rep_up room'
      accepted [unfolded index]]
  show ?thesis by (simp add: index)
qed

text \<open>Validators and proposers agree. For every tree the node can reach, the validators'
  subtree append over the tree's own published proof returns the root that the proposer's dry run
  returns, provided no left subtree on the path is empty.\<close>

theorem appendAsSubTrees_agrees_with_dryAppend:
  assumes hist: "tree_history (hasher_of zero p (lt_depth t)) zero sync f T t db"
    and index: "latestLeafIndex t = q * 2 ^ s" and s: "s \<le> lt_depth t"
    and room: "q + ceil_div (length items) (2 ^ s) \<le> 2 ^ (lt_depth t - s)"
    and q: "q < 2 ^ (lt_depth t - s)"
    and filled: "\<And>l. l < lt_depth t - s \<Longrightarrow> odd (q div 2 ^ l) \<Longrightarrow>
      mnode p f (l + s) (q div 2 ^ l - 1) \<noteq> mnode p (\<lambda>_. zero) (l + s) 0"
  shows "appendAsSubTrees (hasher_of zero p (lt_depth t)) (lt_root t) (latestLeafIndex t) s
      (map lf_hash items) (drop s (td_siblings (getStartingLeafProof t))) =
    Ok (td_root (dryAppend t items))"
  by (rule own_proof_append [OF hist index s room own_proof_accepted [OF hist index s q filled]])

section \<open>Witnesses\<close>

lemma sample_subtree_run:
  "appendAsSubTrees (hasher_of (HLeaf 0) HNode 2)
     (HNode (HNode (HLeaf 5) (HLeaf 6)) (HNode (HLeaf 0) (HLeaf 0))) 2 1 [HLeaf 7]
     [HNode (HLeaf 5) (HLeaf 6)] =
   Ok (HNode (HNode (HLeaf 5) (HLeaf 6)) (HNode (HLeaf 7) (HLeaf 0)))"
  by code_simp

theorem appendAsSubTrees_sound_witness:
  "HNode (HNode (HLeaf 5) (HLeaf 6)) (HNode (HLeaf 7) (HLeaf 0)) =
     mnode HNode (append_leaves (\<lambda>i. if i < 2 then HLeaf (5 + i) else HLeaf 0) 2 [HLeaf 7]) 2 0"
proof -
  let ?f = "\<lambda>i. if i < 2 then HLeaf (5 + i) else HLeaf 0"
  have "HNode (HNode (HLeaf 5) (HLeaf 6)) (HNode (HLeaf 0) (HLeaf 0)) = mnode HNode ?f 2 0"
    by (simp add: numeral_2_eq_2)
  from appendAsSubTrees_sound [OF HNode_inj this, of "HLeaf 0" 1 "[HLeaf 7]" 1 "[HNode (HLeaf 5) (HLeaf 6)]"]
    sample_subtree_run
  show ?thesis by (simp add: empty_from_def ceil_div_small)
qed

theorem appendAsSubTrees_agrees_with_dryAppend_witness:
  "appendAsSubTrees (hasher_of (HLeaf 0) HNode 2) (lt_root (ao_tree (sample_out False 2))) 2 1 [HLeaf 7]
      (drop 1 (td_siblings (getStartingLeafProof (ao_tree (sample_out False 2))))) =
    Ok (td_root (dryAppend (ao_tree (sample_out False 2))
      [\<lparr>lf_hash = HLeaf 7, lf_shouldTrack = False\<rparr>]))"
  using appendAsSubTrees_agrees_with_dryAppend [of "HLeaf 0" HNode "ao_tree (sample_out False 2)" False
      "append_leaves (\<lambda>_. HLeaf 0) 0 (map lf_hash (take 2 sample_leaves))"
      "tracked_leaves (sample_tree False) [] (take 2 sample_leaves)"
      "commit (ao_ops (sample_out False 2)) sample_db" 1 1
      "[\<lparr>lf_hash = HLeaf 7, lf_shouldTrack = False\<rparr>]"]
    sample_history [of 2 False]
  by (simp add: ceil_div_small append_leaves_nth sample_leaves_def)

end
