(* ===== verification/Mass_Migration.thy ===== *)
theory Mass_Migration
  imports Block_Codec Utils
begin

text \<open>
  The mass migrations of a block: \<open>getMassMigrations\<close> of \<open>packages/core/src/block/utils.ts\<close> and
  \<open>mergeDeposits\<close> of \<open>packages/utils/src/index.ts\<close>. Constructors of typed values and hashes of the
  packages \<open>soltypes\<close> and \<open>web3-utils\<close> are parameters.
\<close>

section \<open>Parameters\<close>

text \<open>
  \<open>sol_address\<close> is \<open>Address.from\<close> of the hexadecimal form of a number, \<open>sol_uint256\<close> is
  \<open>Uint256.from\<close> of a decimal, \<open>sol_empty\<close> is \<open>Bytes32.from('')\<close>; \<open>sha3_pair\<close> and \<open>sha3_first\<close> are
  \<open>soliditySha3Raw\<close> of two 32-byte values and of the empty string and a 32-byte value.
\<close>

record sol_lib =
  sol_address :: "int \<Rightarrow> (160 word) result"
  sol_uint256 :: "int \<Rightarrow> (256 word) result"
  sol_empty :: "(256 word) result"
  sha3_pair :: "256 word \<Rightarrow> 256 word \<Rightarrow> 256 word"
  sha3_first :: "256 word \<Rightarrow> 256 word"

text \<open>
  What the code relies on: numbers that fit are kept, and the empty string is hashed as the number zero,
  which is how \<open>web3-utils\<close> reads it.
\<close>

definition sol_lib_documented :: "sol_lib \<Rightarrow> bool" where
  "sol_lib_documented L \<longleftrightarrow>
     (\<forall>x. 0 \<le> x \<and> x < 2 ^ 160 \<longrightarrow> sol_address L x = Ok (word_of_int x)) \<and>
     (\<forall>x. 0 \<le> x \<and> x < 2 ^ 256 \<longrightarrow> sol_uint256 L x = Ok (word_of_int x)) \<and>
     (\<forall>x. sha3_first L x = sha3_pair L 0 x)"

section \<open>Lists\<close>

text \<open>\<open>xs.filter((v, i, self) => self.indexOf(v) === i)\<close>: the first occurrence of every value.\<close>

fun firsts :: "'a list \<Rightarrow> 'a list" where
  "firsts [] = []"
| "firsts (x # xs) = x # filter (\<lambda>y. y \<noteq> x) (firsts xs)"

lemma set_firsts [simp]: "set (firsts xs) = set xs"
  by (induction xs) auto

lemma distinct_firsts [simp]: "distinct (firsts xs)"
  by (induction xs) auto

section \<open>Merged deposits\<close>

definition mergeDeposits :: "sol_lib \<Rightarrow> (256 word \<times> 256 word) list \<Rightarrow> mass_deposit result" where
  "mergeDeposits L deposits =
     (let merged = merge_hash (\<lambda>m x. case m of None \<Rightarrow> sha3_first L x | Some h \<Rightarrow> sha3_pair L h x)
            (map fst deposits);
          fee = foldl (\<lambda>fee d. fee + uint (snd d)) 0 deposits in
      bind_result (case merged of None \<Rightarrow> sol_empty L | Some h \<Rightarrow> Ok h) (\<lambda>merged.
      bind_result (sol_uint256 L fee) (\<lambda>fee. Ok \<lparr>md_merged = merged, md_fee = fee\<rparr>)))"

section \<open>Mass migrations\<close>

text \<open>\<open>toUint256\<close> and \<open>toBytes32\<close> of a field element, which has at most 254 bits.\<close>

definition fp_word :: "int \<Rightarrow> 256 word" where
  "fp_word x = word_of_int x"

definition goes_to :: "160 word \<Rightarrow> 160 word \<Rightarrow> zk_outflow \<Rightarrow> bool" where
  "goes_to destination token note \<longleftrightarrow>
     (case out_data note of
        None \<Rightarrow> False
      | Some d \<Rightarrow> pd_to d = uint destination \<and> pd_tokenAddr d = uint token)"

definition data_field :: "(public_data \<Rightarrow> int) \<Rightarrow> zk_outflow \<Rightarrow> int" where
  "data_field f note = (case out_data note of None \<Rightarrow> 0 | Some d \<Rightarrow> f d)"

definition getMassMigrationForToken ::
  "sol_lib \<Rightarrow> 160 word \<Rightarrow> 160 word \<Rightarrow> zk_outflow list \<Rightarrow> mass_migration result" where
  "getMassMigrationForToken L destination token migratingNotes =
     (let notes = filter (goes_to destination token) migratingNotes;
          eth = fp_word (foldl (\<lambda>acc note. fp_add acc (data_field pd_eth note)) 0 notes);
          amount = fp_word (foldl (\<lambda>acc note. fp_add acc (data_field pd_erc20Amount note)) 0 notes) in
      bind_result (mergeDeposits L
        (map (\<lambda>note. (fp_word (out_note note), fp_word (data_field pd_fee note))) notes))
        (\<lambda>depositForDest. Ok \<lparr>mm_destination = destination,
           mm_asset = \<lparr>ma_eth = eth, ma_token = token, ma_amount = amount\<rparr>,
           mm_depositForDest = depositForDest\<rparr>))"

text \<open>The destinations and tokens; \<open>Address.from(undefined)\<close> throws.\<close>

definition addresses_of :: "sol_lib \<Rightarrow> (public_data \<Rightarrow> int) \<Rightarrow> zk_outflow list \<Rightarrow> (160 word) list result" where
  "addresses_of L f notes =
     map_result (\<lambda>addr. case addr of None \<Rightarrow> Throw ''TypeError'' | Some a \<Rightarrow> sol_address L a)
       (firsts (map (\<lambda>note. map_option f (out_data note)) notes))"

definition migrating_notes :: "zk_tx list \<Rightarrow> zk_outflow list" where
  "migrating_notes txs = filter (\<lambda>out. out_type out = MIGRATION) (concat (map tx_outflow txs))"

definition getMassMigrations :: "sol_lib \<Rightarrow> zk_tx list \<Rightarrow> mass_migration list result" where
  "getMassMigrations L txs =
     (let migratingNotes = migrating_notes txs in
      bind_result (addresses_of L pd_tokenAddr migratingNotes) (\<lambda>tokens.
      bind_result (addresses_of L pd_to migratingNotes) (\<lambda>destinations.
        map_result (\<lambda>(dest, token). getMassMigrationForToken L dest token migratingNotes)
          (concat (map (\<lambda>dest. map (\<lambda>token. (dest, token)) tokens) destinations)))))"

end
