(* ===== verification/Layer2.thy ===== *)
theory Layer2
  imports Mass_Migration Note Grove "HOL-Library.Option_ord" "HOL-Library.Product_Lexorder"
begin

text \<open>
  \<open>L2Chain\<close> of \<open>packages/core/src/context/layer2.ts\<close>: what a node reads of the second layer from its
  database, the deposits that wait for a block, the check of a submitted transaction, and the patch of
  the trees that a block stands for. Hashes in rows are words, other texts are strings.
\<close>

section \<open>Rows\<close>

record deposit_row =
  dp_note :: int
  dp_fee :: int
  dp_queuedAt :: nat
  dp_blockNumber :: nat
  dp_transactionIndex :: nat
  dp_logIndex :: nat
  dp_includedIn :: "(256 word) option"
  dp_ownerAddress :: "string option"
  dp_from :: "string option"

record mass_deposit_row =
  mdr_index :: nat
  mdr_merged :: "256 word"
  mdr_fee :: "256 word"
  mdr_blockNumber :: nat
  mdr_includedIn :: "(256 word) option"

record proposal_row =
  pp_hash :: "256 word"
  pp_proposalNum :: "nat option"
  pp_canonicalNum :: "nat option"
  pp_proposalData :: "string option"
  pp_verified :: "bool option"
  pp_finalized :: "bool option"
  pp_isUncle :: "bool option"
  pp_proposedAt :: "nat option"
  pp_proposalTx :: "string option"
  pp_timestamp :: "nat option"

record token_row =
  tk_address :: string
  tk_isERC20 :: bool
  tk_isERC721 :: bool
  tk_blockNumber :: nat
  tk_identifier :: nat

record slash_row =
  sl_hash :: "256 word"
  sl_proposer :: string
  sl_reason :: string
  sl_executionTx :: string
  sl_slashedAt :: nat

text \<open>
  Rows of the tables of notes, with the columns beyond those the trees read, and of the tables of
  transactions. Amounts and hashes in decimal are numbers here.
\<close>

record utxo_doc = "int utxo_row" +
  ud_eth :: "int option"
  ud_salt :: "int option"
  ud_tokenAddr :: "int option"
  ud_erc20Amount :: "int option"
  ud_nft :: "int option"
  ud_status :: "note_status option"
  ud_nullifier :: "int option"
  ud_usedAt :: "(256 word) option"
  ud_depositedAt :: "nat option"

record withdrawal_doc = "int withdrawal_row" +
  wd_eth :: int
  wd_tokenAddr :: int
  wd_erc20Amount :: int
  wd_nft :: int
  wd_fee :: int
  wd_status :: "note_status option"
  wd_includedIn :: "(256 word) option"
  wd_siblings :: "int list option"

record tx_doc =
  td_hash :: "256 word"
  td_blockHash :: "256 word"
  td_inflowCount :: nat
  td_outflowCount :: nat
  td_fee :: int
  td_challenged :: bool
  td_slashed :: bool
  td_senderAddress :: "string option"
  td_receiverAddress :: "string option"
  td_tokenAddr :: "int option"
  td_erc20Amount :: "int option"
  td_eth :: "int option"

record instant_doc =
  id_signature :: "byte list"
  id_withdrawalHash :: int
  id_prepayFeeInEth :: int
  id_prepayFeeInToken :: int
  id_expiration :: "nat option"
  id_prepayer :: int

record l2_db =
  l2_MassDeposit :: "mass_deposit_row list"
  l2_Deposit :: "deposit_row list"
  l2_Proposal :: "proposal_row list"
  l2_Header :: "(256 word \<times> header) list"
  l2_Block :: "(256 word) list"
  l2_Slash :: "slash_row list"
  l2_TokenRegistry :: "token_row list"
  l2_Utxo :: "utxo_doc list"
  l2_Withdrawal :: "withdrawal_doc list"
  l2_InstantWithdrawal :: "instant_doc list"
  l2_Tx :: "tx_doc list"
  l2_PendingTx :: "(256 word) list"
  l2_PendingDeposit :: "int list"

text \<open>
  Parameters: the hash function, the constructors of typed values, the ABI decoder, \<open>JSON.parse\<close> of a
  stored proposal with its calldata, the forms of hashes and addresses as strings.
\<close>

record l2_lib =
  lib_keccak :: "byte list \<Rightarrow> 256 word"
  lib_soltypes :: soltypes
  lib_encodeSignature :: "string \<Rightarrow> digit list"
  lib_decodeFirst :: "string list \<Rightarrow> digit list \<Rightarrow> digit list result"
  lib_parseTx :: "string \<Rightarrow> digit list result"
  lib_hash_str :: "256 word \<Rightarrow> string"
  lib_dec_str :: "int \<Rightarrow> string"
  lib_addr_str :: "int \<Rightarrow> string"
  lib_addr_of :: "string \<Rightarrow> int"

section \<open>Blocks and proposals\<close>

definition order_asc :: "('r \<Rightarrow> 'k::linorder) \<Rightarrow> 'r list \<Rightarrow> 'r list" where
  "order_asc key rows = sort_key key rows"

definition order_desc :: "('r \<Rightarrow> 'k::linorder) \<Rightarrow> 'r list \<Rightarrow> 'r list" where
  "order_desc key rows = rev (sort_key key rows)"

definition first_row :: "'r list \<Rightarrow> 'r option" where
  "first_row rows = (case rows of [] \<Rightarrow> None | r # _ \<Rightarrow> Some r)"

definition latestBlock :: "l2_db \<Rightarrow> (256 word) result" where
  "latestBlock db =
     (case first_row (order_desc pp_proposalNum
        (filter (\<lambda>p. pp_verified p = Some True \<and> pp_isUncle p = None) (l2_Proposal db))) of
        None \<Rightarrow> Throw ''no verified proposal''
      | Some p \<Rightarrow> Ok (pp_hash p))"

text \<open>A genesis row without its header row would give a block without a header: here an error.\<close>

definition genesis_block :: "l2_db \<Rightarrow> proposal_row \<Rightarrow> block result" where
  "genesis_block db p =
     (case map_of (l2_Header db) (pp_hash p) of
        None \<Rightarrow> Throw ''TypeError''
      | Some h \<Rightarrow> Ok \<lparr>bl_hash = pp_hash p, bl_verified = pp_verified p, bl_slashed = None,
          bl_header = h, bl_body = \<lparr>body_txs = [], massDeposits = [], massMigrations = []\<rparr>,
          bl_bootstrap = None\<rparr>)"

definition stored_block :: "l2_lib \<Rightarrow> string \<Rightarrow> bool option \<Rightarrow> block result" where
  "stored_block L proposalData verified =
     bind_result (lib_parseTx L proposalData) (\<lambda>txInput.
       Block_fromTx (lib_keccak L) (lib_soltypes L) (lib_encodeSignature L) (lib_decodeFirst L) txInput verified)"

definition proposal_block :: "l2_lib \<Rightarrow> l2_db \<Rightarrow> proposal_row \<Rightarrow> block option result" where
  "proposal_block L db p =
     (if pp_proposalNum p = Some 0 then bind_result (genesis_block db p) (\<lambda>b. Ok (Some b))
      else
        (case pp_proposalData p of
           None \<Rightarrow> Ok None
         | Some data \<Rightarrow> bind_result (stored_block L data (Some (pp_verified p = Some True))) (\<lambda>b. Ok (Some b))))"

definition getBlockByNumber :: "l2_lib \<Rightarrow> l2_db \<Rightarrow> nat \<Rightarrow> block option result" where
  "getBlockByNumber L db blockNum =
     (case filter (\<lambda>p. pp_proposalNum p = Some blockNum) (l2_Proposal db) of
        [] \<Rightarrow> Ok None
      | p # _ \<Rightarrow> proposal_block L db p)"

text \<open>By hash an empty text counts as missing, by number it is parsed.\<close>

definition getBlock :: "l2_lib \<Rightarrow> l2_db \<Rightarrow> 256 word \<Rightarrow> block option result" where
  "getBlock L db hash =
     (case find (\<lambda>p. pp_hash p = hash) (l2_Proposal db) of
        None \<Rightarrow> Ok None
      | Some p \<Rightarrow>
          if pp_proposalNum p \<noteq> Some 0 \<and> pp_proposalData p = Some [] then Ok None
          else proposal_block L db p)"

definition getProposalByNumber :: "l2_db \<Rightarrow> nat \<Rightarrow> proposal_row option" where
  "getProposalByNumber db n = first_row (filter (\<lambda>p. pp_proposalNum p = Some n) (l2_Proposal db))"

definition getProposalByCanonicalNumber :: "l2_db \<Rightarrow> nat \<Rightarrow> proposal_row option" where
  "getProposalByCanonicalNumber db n = first_row (filter (\<lambda>p. pp_canonicalNum p = Some n) (l2_Proposal db))"

definition getProposal :: "l2_db \<Rightarrow> 256 word \<Rightarrow> proposal_row option" where
  "getProposal db hash = find (\<lambda>p. pp_hash p = hash) (l2_Proposal db)"

definition getTxByHash :: "l2_db \<Rightarrow> 256 word \<Rightarrow> tx_doc option" where
  "getTxByHash db hash = find (\<lambda>r. td_hash r = hash) (l2_Tx db)"

record unprocessed =
  un_parent :: header
  un_block :: block
  un_proposal :: proposal_row

definition getOldestUnprocessedBlock :: "l2_lib \<Rightarrow> l2_db \<Rightarrow> unprocessed option result" where
  "getOldestUnprocessedBlock L db =
     (case first_row (order_asc pp_proposalNum
        (filter (\<lambda>p. pp_verified p = None \<and> pp_isUncle p = None) (l2_Proposal db))) of
        None \<Rightarrow> Ok None
      | Some p \<Rightarrow>
          if pp_proposalData p = None \<or> pp_proposalData p = Some [] \<or>
             pp_proposalNum p = None \<or> pp_proposalNum p = Some 0 then Ok None
          else if pp_hash p \<notin> set (l2_Block db) then Throw ''Its parent block is not processed yet''
          else
            (case map_of (l2_Header db) (pp_hash p) of
               None \<Rightarrow> Throw ''TypeError''
             | Some h \<Rightarrow>
                 (case map_of (l2_Header db) (parentBlock h) of
                    None \<Rightarrow> Throw ''Parent header does not exist.''
                  | Some parent \<Rightarrow>
                      bind_result (stored_block L (the (pp_proposalData p)) None) (\<lambda>b.
                        Ok (Some \<lparr>un_parent = parent, un_block = b, un_proposal = p\<rparr>)))))"

definition isUncleBlock :: "l2_db \<Rightarrow> 256 word \<Rightarrow> nat \<Rightarrow> bool" where
  "isUncleBlock db parent proposalNum =
     (let blockHashes = map fst (filter (\<lambda>(hash, h). parentBlock h = parent) (l2_Header db));
          canonical = filter (\<lambda>p. pp_verified p = Some True \<and> pp_hash p \<in> set blockHashes \<and>
            (case pp_proposalNum p of None \<Rightarrow> False | Some n \<Rightarrow> n < proposalNum)) (l2_Proposal db) in
      0 < length canonical)"

section \<open>Deposits\<close>

definition deposit_position :: "deposit_row \<Rightarrow> nat \<times> nat \<times> nat" where
  "deposit_position d = (dp_blockNumber d, dp_transactionIndex d, dp_logIndex d)"

definition getDeposits :: "l2_db \<Rightarrow> mass_deposit list \<Rightarrow> deposit_row list result" where
  "getDeposits db mds =
     (let massDepositObjects = order_asc mdr_blockNumber
            (filter (\<lambda>r. \<lparr>md_merged = mdr_merged r, md_fee = mdr_fee r\<rparr> \<in> set mds) (l2_MassDeposit db)) in
      if length massDepositObjects \<noteq> length mds then Throw ''Failed to find the mass deposit''
      else Ok (sort_key deposit_position
        (filter (\<lambda>d. dp_queuedAt d \<in> set (map mdr_index massDepositObjects)) (l2_Deposit db))))"

record pending_mass_deposits =
  pm_massDeposits :: "mass_deposit list"
  pm_leaves :: "int list"
  pm_totalFee :: int
  pm_calldataSize :: nat

text \<open>
  The comparison throws for two deposits at the same position, which every sort compares once they are
  neighbours in the order.
\<close>

definition getPendingMassDeposits :: "l2_db \<Rightarrow> pending_mass_deposits result" where
  "getPendingMassDeposits db =
     (let commits = sort_key mdr_index (filter (\<lambda>r. mdr_includedIn r = None) (l2_MassDeposit db));
          pendingDeposits = filter (\<lambda>d. dp_queuedAt d \<in> set (map mdr_index commits)) (l2_Deposit db) in
      if \<not> distinct (map deposit_position pendingDeposits) then Throw ''Deposits must be ordered''
      else
        let sorted = sort_key deposit_position pendingDeposits in
        Ok \<lparr>pm_massDeposits = map (\<lambda>r. \<lparr>md_merged = mdr_merged r, md_fee = mdr_fee r\<rparr>) commits,
            pm_leaves = map (\<lambda>d. fp_new (dp_note d)) sorted,
            pm_totalFee = fp_add 0 (foldl (\<lambda>prev d. fp_add prev (dp_fee d)) 0 sorted),
            pm_calldataSize = length commits\<rparr>)"

section \<open>Submitted transactions\<close>

text \<open>The registered token is looked up by the decimal form of its address.\<close>

definition valid_outflow :: "l2_lib \<Rightarrow> l2_db \<Rightarrow> zk_outflow \<Rightarrow> bool" where
  "valid_outflow L db out =
     (if out_type out = UTXO then out_data out = None
      else if out_type out = MIGRATION then
        (case out_data out of
           None \<Rightarrow> False
         | Some d \<Rightarrow>
             if pd_nft d \<noteq> 0 then False
             else if pd_tokenAddr d = 0 \<and> pd_erc20Amount d \<noteq> 0 then False
             else if pd_tokenAddr d \<noteq> 0 then
               (case find (\<lambda>r. tk_address r = lib_dec_str L (pd_tokenAddr d)) (l2_TokenRegistry db) of
                  None \<Rightarrow> False
                | Some registeredInfo \<Rightarrow> tk_isERC20 registeredInfo)
             else True)
      else True)"

definition isValidTx :: "(zk_tx \<Rightarrow> bool) \<Rightarrow> l2_lib \<Rightarrow> l2_db \<Rightarrow> zk_tx \<Rightarrow> bool" where
  "isValidTx verifyTx L db tx \<longleftrightarrow> verifyTx tx \<and> list_all (valid_outflow L db) (tx_outflow tx)"

section \<open>Bootstrap\<close>

text \<open>
  The rows that \<open>applyBootstrap\<close> creates, with the error that ends it; the primary key of every table is
  the hash. The bootstrap of the grove is started before and not awaited, see \<open>applyBootstrap\<close> of the
  grove.
\<close>

definition create_row :: "bool \<Rightarrow> 's \<Rightarrow> 's \<Rightarrow> ('s \<Rightarrow> 's \<times> unit result) \<Rightarrow> 's \<times> unit result" where
  "create_row exists old new rest =
     (if exists then (old, Throw ''UNIQUE constraint failed'') else rest new)"

definition layer2_applyBootstrap :: "l2_db \<Rightarrow> block \<Rightarrow> proposal_row \<Rightarrow> l2_db \<times> unit result" where
  "layer2_applyBootstrap db b proposal =
     (let hash = bl_hash b in
      if hash \<in> set (l2_Block db) then (db, Ok ())
      else
        create_row False db (db\<lparr>l2_Block := l2_Block db @ [hash]\<rparr>) (\<lambda>db.
        create_row (pp_hash proposal \<in> pp_hash ` set (l2_Proposal db)) db
          (db\<lparr>l2_Proposal := l2_Proposal db @ [proposal]\<rparr>) (\<lambda>db.
        create_row (hash \<in> fst ` set (l2_Header db)) db
          (db\<lparr>l2_Header := l2_Header db @ [(hash, bl_header b)]\<rparr>) (\<lambda>db. (db, Ok ())))))"

section \<open>The patch of a block\<close>

text \<open>The new leaves of one transaction, in order: notes, and withdrawals with their hash.\<close>

definition utxo_notes :: "zk_tx list \<Rightarrow> int list" where
  "utxo_notes txs = map out_note (filter (\<lambda>out. out_type out = UTXO) (concat (map tx_outflow txs)))"

definition withdrawal_outflows :: "zk_tx list \<Rightarrow> zk_outflow list" where
  "withdrawal_outflows txs = filter (\<lambda>out. out_type out = WITHDRAWAL) (concat (map tx_outflow txs))"

definition outflow_withdrawal :: "l2_lib \<Rightarrow> string \<Rightarrow> zk_outflow \<Rightarrow> (int \<times> 256 word) result" where
  "outflow_withdrawal L msg out =
     (case out_data out of
        None \<Rightarrow> Throw msg
      | Some d \<Rightarrow> bind_result (withdrawalHash (lib_keccak L) (out_note out) d)
          (\<lambda>h. Ok (out_note out, h)))"

definition tx_nullifiers :: "zk_tx list \<Rightarrow> int list" where
  "tx_nullifiers txs = map in_nullifier (concat (map tx_inflow txs))"

definition getGrovePatch :: "l2_lib \<Rightarrow> l2_db \<Rightarrow> block \<Rightarrow> int grove_patch result" where
  "getGrovePatch L db b =
     bind_result (getDeposits db (massDeposits (bl_body b))) (\<lambda>deposits.
     bind_result (map_result (outflow_withdrawal L ''Withdrawal should have public data'')
         (withdrawal_outflows (body_txs (bl_body b)))) (\<lambda>withdrawalHashes.
       let utxoHashes = map (\<lambda>d. fp_new (dp_note d)) deposits @ utxo_notes (body_txs (bl_body b));
           myUtxoList = filter (\<lambda>r. ur_hash r \<in> set utxoHashes \<and> ur_treeId r = None) (l2_Utxo db);
           myWithdrawalList = filter (\<lambda>r. wr_hash r \<in> set (map fst withdrawalHashes) \<and> wr_treeId r = None)
             (l2_Withdrawal db);
           shouldTrack = set (map ur_hash myUtxoList) \<union> set (map wr_hash myWithdrawalList) in
       Ok \<lparr>gp_header = Some (lib_hash_str L (bl_hash b)),
         gp_utxos = map (\<lambda>h. \<lparr>lf_hash = h, lf_shouldTrack = h \<in> shouldTrack\<rparr>) utxoHashes,
         gp_withdrawals = map (\<lambda>(noteHash, h).
           \<lparr>lf_hash = uint h, lf_shouldTrack = noteHash \<in> shouldTrack\<rparr>) withdrawalHashes,
         gp_nullifiers = map nat (tx_nullifiers (body_txs (bl_body b)))\<rparr>))"

section \<open>Registered tokens\<close>

definition register_token :: "l2_lib \<Rightarrow> token_row \<Rightarrow> token_registry \<Rightarrow> token_registry" where
  "register_token L row reg =
     (let addr = lib_addr_of L (tk_address row);
          reg = (if tk_isERC20 row \<and> addr \<notin> set (erc20s reg) then addERC20 [addr] reg
                 else if tk_isERC721 row \<and> addr \<notin> set (erc721s reg) then addERC721 [addr] reg
                 else reg) in
      if reg_blockNumber reg < tk_blockNumber row then reg\<lparr>reg_blockNumber := tk_blockNumber row\<rparr> else reg)"

definition getTokenRegistry :: "l2_lib \<Rightarrow> l2_db \<Rightarrow> token_registry \<Rightarrow> token_registry" where
  "getTokenRegistry L db reg =
     fold (register_token L) (filter (\<lambda>r. reg_blockNumber reg \<le> tk_blockNumber r) (l2_TokenRegistry db)) reg"

end
