(* ===== verification/Validators.thy ===== *)
theory Validators
  imports Layer2 Merkle_Tree_Sol Smt_Sol
begin

text \<open>
  The off-chain validators of \<open>packages/core/src/validator/offchain\<close>: every check of a block that may
  give a reason to slash it, with \<open>code.ts\<close>. The library keccak and poseidon hashers of the validators
  are parameters. Transactions and rows that are indexed out of range end in a \<open>TypeError\<close>.
\<close>

section \<open>Reasons\<close>

datatype code = D1 | H1 | H2 | H3 | H4 | H5 | M1 | M2 | M3 | M4 | M5 | M6 | M7 | N1 | S1 | S2
  | T1 | T2 | T3 | T4 | T5 | T6 | T7 | T8 | T9 | T10 | U1 | U2 | U3 | W1 | W2 | W3

fun CODE :: "code \<Rightarrow> string" where
  "CODE D1 = ''This deposit queue is not committed.''"
| "CODE H1 = ''Header has invalid deposit root.''"
| "CODE H2 = ''Header has invalid transaction root.''"
| "CODE H3 = ''Header has invalid migration root.''"
| "CODE H4 = ''Header has invalid total fee value.''"
| "CODE H5 = ''Parent block is a slashed block.''"
| "CODE M1 = ''Duplicated MassMigration ids exist.''"
| "CODE M2 = ''MassMigration is carrying invalid amount of ETH.''"
| "CODE M3 = ''MassMigration is carrying invalid amount of token.''"
| "CODE M4 = ''MassMigration is carrying invalid merged leaves value.''"
| "CODE M5 = ''Aggregated migration fee is not correct.''"
| "CODE M6 = ''Only registered ERC20 tokens are supported for mass migration.''"
| "CODE M7 = ''MassMigration for the given migration output does not exist.''"
| "CODE N1 = ''Nullifier root is different.''"
| "CODE S1 = ''Unsupported transaction type.''"
| "CODE S2 = ''Transaction is including an invalid snark proof.''"
| "CODE T1 = ''An inflow is referencing an invalid UTXO root.''"
| "CODE T2 = ''An outflow has an invalid type. Only 0, 1, and 2 are allowed.''"
| "CODE T3 = ''UTXO type of outflow cannot have public data.''"
| "CODE T4 = ''Transaction is including unregistered token.''"
| "CODE T5 = ''This note cannot have NFT field.''"
| "CODE T6 = ''This note cannot have ERC20 field.''"
| "CODE T7 = ''ZK SNARK Circuit does not support NFT which id is 0.''"
| "CODE T8 = ''Atomic swap transaction allows only 1 counterpart transaction.''"
| "CODE T9 = ''Transaction is using an already spent nullifier.''"
| "CODE T10 = ''Some transactions in the block are trying to use a same nullifier.''"
| "CODE U1 = ''The updated number of total UTXO is not correct.''"
| "CODE U2 = ''The updated number of total UTXO is exceeding the maximum value.''"
| "CODE U3 = ''The updated utxo tree root is not correct.''"
| "CODE W1 = ''The updated number of total Withdarawls is not correct.''"
| "CODE W2 = ''The updated number of total Withdrawals is exceeding the maximum value.''"
| "CODE W3 = ''The updated withdrawal tree root is not correct.''"

record validation =
  slashable :: bool
  reason :: "code option"

abbreviation slash_if :: "bool \<Rightarrow> code \<Rightarrow> validation" where
  "slash_if c r \<equiv> \<lparr>slashable = c, reason = Some r\<rparr>"

abbreviation not_slashable :: validation where
  "not_slashable \<equiv> \<lparr>slashable = False, reason = None\<rparr>"

section \<open>The node\<close>

record chain_config =
  cf_utxoTreeDepth :: nat
  cf_utxoSubTreeDepth :: nat
  cf_utxoSubTreeSize :: nat
  cf_withdrawalTreeDepth :: nat
  cf_withdrawalSubTreeDepth :: nat
  cf_withdrawalSubTreeSize :: nat
  cf_nullifierTreeDepth :: nat
  cf_referenceDepth :: nat

text \<open>\<open>L2Chain\<close> as the validators see it, with the hashers and the verifier they build from it.\<close>

record layer2 =
  la_config :: chain_config
  la_db :: l2_db
  la_lib :: l2_lib
  la_sol :: sol_lib
  la_hasVK :: "nat \<Rightarrow> nat \<Rightarrow> bool"
  la_verifyTx :: "zk_tx \<Rightarrow> bool"
  la_utxoHasher :: "int hasher"
  la_withdrawalHasher :: "int hasher"
  la_nullifierHasher :: "int hasher"

definition block_tx :: "block \<Rightarrow> nat \<Rightarrow> zk_tx result" where
  "block_tx b i = (let txs = body_txs (bl_body b) in
     if i < length txs then Ok (txs ! i) else Throw ''TypeError'')"

definition block_migration :: "block \<Rightarrow> nat \<Rightarrow> mass_migration result" where
  "block_migration b i = (let ms = massMigrations (bl_body b) in
     if i < length ms then Ok (ms ! i) else Throw ''TypeError'')"

section \<open>Deposits and header\<close>

definition validateMassDeposit :: "layer2 \<Rightarrow> block \<Rightarrow> nat \<Rightarrow> validation result" where
  "validateMassDeposit la b i =
     (let ds = massDeposits (bl_body b) in
      if i < length ds then
        bind_result (getDeposits (la_db la) [ds ! i]) (\<lambda>stored. Ok (slash_if (length stored = 0) D1))
      else Throw ''TypeError'')"

definition words_root :: "layer2 \<Rightarrow> (256 word) list \<Rightarrow> 256 word" where
  "words_root la = hashes_root (sha3_pair (la_sol la)) 0"

definition validateDepositRoot :: "layer2 \<Rightarrow> block \<Rightarrow> validation result" where
  "validateDepositRoot la b = Ok (slash_if
     (depositRoot (bl_header b) \<noteq>
        words_root la (map (massDepositHash (lib_keccak (la_lib la))) (massDeposits (bl_body b)))) H1)"

definition tx_hashes :: "layer2 \<Rightarrow> zk_tx list \<Rightarrow> (256 word) list result" where
  "tx_hashes la txs =
     map_result (\<lambda>tx. bind_result (zkTx_hash (lib_keccak (la_lib la)) tx) (\<lambda>(h, _). Ok h)) txs"

definition validateTxRoot :: "layer2 \<Rightarrow> block \<Rightarrow> validation result" where
  "validateTxRoot la b = bind_result (tx_hashes la (body_txs (bl_body b))) (\<lambda>hs.
     Ok (slash_if (txRoot (bl_header b) \<noteq> words_root la hs) H2))"

definition validateMigrationRoot :: "layer2 \<Rightarrow> block \<Rightarrow> validation result" where
  "validateMigrationRoot la b = Ok (slash_if
     (migrationRoot (bl_header b) \<noteq>
        words_root la (map (massMigrationHash (lib_keccak (la_lib la))) (massMigrations (bl_body b)))) H3)"

definition validateTotalFee :: "block \<Rightarrow> validation result" where
  "validateTotalFee b =
     (let fee = foldl (\<lambda>fee d. fee + uint (md_fee d)) 0 (massDeposits (bl_body b));
          fee = foldl (\<lambda>fee tx. fee + tx_fee tx) fee (body_txs (bl_body b)) in
      Ok (slash_if (fee \<noteq> uint (hd_fee (bl_header b))) H4))"

text \<open>The reason given is that of a wrong fee.\<close>

definition validateParentBlock :: "layer2 \<Rightarrow> block \<Rightarrow> validation result" where
  "validateParentBlock la b =
     Ok (slash_if (parentBlock (bl_header b) \<in> sl_hash ` set (l2_Slash (la_db la))) H4)"

section \<open>Mass migrations\<close>

definition validateDuplicatedMigrations :: "block \<Rightarrow> nat \<Rightarrow> nat \<Rightarrow> validation result" where
  "validateDuplicatedMigrations b i j =
     bind_result (block_migration b i) (\<lambda>m1. bind_result (block_migration b j) (\<lambda>m2.
       Ok (slash_if (mm_destination m1 = mm_destination m2 \<and>
         ma_token (mm_asset m1) = ma_token (mm_asset m2)) M1)))"

text \<open>The outflows of every type that go to the destination with the token.\<close>

definition migration_outflows :: "block \<Rightarrow> mass_migration \<Rightarrow> zk_outflow list" where
  "migration_outflows b m =
     filter (goes_to (mm_destination m) (ma_token (mm_asset m))) (concat (map tx_outflow (body_txs (bl_body b))))"

definition outflow_sum :: "(public_data \<Rightarrow> int) \<Rightarrow> zk_outflow list \<Rightarrow> int" where
  "outflow_sum f outs = foldl (\<lambda>acc out. acc + data_field f out) 0 outs"

definition validateEthMigration :: "block \<Rightarrow> nat \<Rightarrow> validation result" where
  "validateEthMigration b i = bind_result (block_migration b i) (\<lambda>m.
     Ok (slash_if (outflow_sum pd_eth (migration_outflows b m) \<noteq> uint (ma_eth (mm_asset m))) M2))"

definition validateERC20Migration :: "block \<Rightarrow> nat \<Rightarrow> validation result" where
  "validateERC20Migration b i = bind_result (block_migration b i) (\<lambda>m.
     Ok (slash_if (outflow_sum pd_erc20Amount (migration_outflows b m) \<noteq> uint (ma_amount (mm_asset m))) M3))"

text \<open>Equal values are slashed.\<close>

definition validateMergedLeaves :: "layer2 \<Rightarrow> block \<Rightarrow> nat \<Rightarrow> validation result" where
  "validateMergedLeaves la b i = bind_result (block_migration b i) (\<lambda>m.
     let merged = foldl (\<lambda>merged out. sha3_pair (la_sol la) merged (fp_word (out_note out))) 0
           (migration_outflows b m) in
     Ok (slash_if (md_merged (mm_depositForDest m) = merged) M4))"

definition validateMigrationFee :: "block \<Rightarrow> nat \<Rightarrow> validation result" where
  "validateMigrationFee b i = bind_result (block_migration b i) (\<lambda>m.
     Ok (slash_if (uint (md_fee (mm_depositForDest m)) \<noteq> outflow_sum pd_fee (migration_outflows b m)) M5))"

definition registered :: "layer2 \<Rightarrow> int \<Rightarrow> token_row option" where
  "registered la addr =
     find (\<lambda>r. tk_address r = lib_addr_str (la_lib la) addr) (l2_TokenRegistry (la_db la))"

definition validateTokenRegistration :: "layer2 \<Rightarrow> block \<Rightarrow> nat \<Rightarrow> validation result" where
  "validateTokenRegistration la b i = bind_result (block_migration b i) (\<lambda>m.
     let token = ma_token (mm_asset m) in
     Ok (slash_if (token \<noteq> 0 \<and>
       (case registered la (uint token) of None \<Rightarrow> True | Some r \<Rightarrow> \<not> tk_isERC20 r)) M6))"

definition validateMissedMassMigration :: "block \<Rightarrow> nat \<Rightarrow> nat \<Rightarrow> validation result" where
  "validateMissedMassMigration b txIndex outflowIndex =
     bind_result (block_tx b txIndex) (\<lambda>tx.
       if outflowIndex < length (tx_outflow tx) then
         let out = tx_outflow tx ! outflowIndex in
         if out_type out = MIGRATION then
           (case out_data out of
              None \<Rightarrow> Throw ''Destination does not exist.''
            | Some d \<Rightarrow>
                Ok (slash_if (find (\<lambda>mm. pd_to d = uint (mm_destination mm) \<and>
                  pd_tokenAddr d = uint (ma_token (mm_asset mm))) (massMigrations (bl_body b)) = None) M7))
         else Ok (slash_if False M7)
       else Throw ''TypeError'')"

section \<open>Trees\<close>

definition prev_header_ok :: "layer2 \<Rightarrow> block \<Rightarrow> header \<Rightarrow> unit result" where
  "prev_header_ok la b parent =
     assert_that (parentBlock (bl_header b) = headerHash (lib_keccak (la_lib la)) parent) ''Invalid prev header''"

text \<open>
  \<open>checkSubmittedDeposits\<close>: the deposits are merged until the hash of the next mass deposit is reached.
  Reading beyond the given deposits throws.
\<close>

fun merge_until :: "sol_lib \<Rightarrow> 256 word \<Rightarrow> 256 word \<Rightarrow> (256 word) list \<Rightarrow> ((256 word) list) result" where
  "merge_until L target merged deposits =
     (if target = merged then Ok deposits
      else
        (case deposits of
           [] \<Rightarrow> Throw ''TypeError''
         | d # ds \<Rightarrow> merge_until L target (sha3_pair L merged d) ds))"

declare merge_until.simps [simp del]

definition checkSubmittedDeposits :: "sol_lib \<Rightarrow> block \<Rightarrow> (256 word) list \<Rightarrow> bool result" where
  "checkSubmittedDeposits L b deposits =
     bind_result (foldM (\<lambda>md rest. merge_until L (md_merged md) 0 rest) (massDeposits (bl_body b)) deposits)
       (\<lambda>rest. Ok (rest = []))"

definition deposits_ok :: "layer2 \<Rightarrow> block \<Rightarrow> (256 word) list \<Rightarrow> unit result" where
  "deposits_ok la b deposits = bind_result (checkSubmittedDeposits (la_sol la) b deposits)
     (\<lambda>ok. assert_that ok ''Submitted invalid deposit data'')"

definition validateUTXOIndex :: "layer2 \<Rightarrow> block \<Rightarrow> header \<Rightarrow> (256 word) list \<Rightarrow> validation result" where
  "validateUTXOIndex la b parent deposits =
     bind_result (deposits_ok la b deposits) (\<lambda>_.
     bind_result (prev_header_ok la b parent) (\<lambda>_.
       if 2 ^ cf_utxoTreeDepth (la_config la) < uint (utxoIndex (bl_header b)) then Ok (slash_if True U2)
       else
         let numOfUtxos = length deposits + length (utxo_notes (body_txs (bl_body b)));
             size = cf_utxoSubTreeSize (la_config la);
             nextIndex = uint (utxoIndex parent) + int (size * ceil_div numOfUtxos size) in
         Ok (slash_if (uint (utxoIndex (bl_header b)) \<noteq> nextIndex) U1)))"

definition validateUTXORoot ::
  "layer2 \<Rightarrow> block \<Rightarrow> header \<Rightarrow> (256 word) list \<Rightarrow> (256 word) list \<Rightarrow> validation result" where
  "validateUTXORoot la b parent deposits subTreeSiblings =
     bind_result (deposits_ok la b deposits) (\<lambda>_.
     bind_result (prev_header_ok la b parent) (\<lambda>_.
     bind_result (appendAsSubTrees (la_utxoHasher la) (fp_new (uint (utxoRoot parent)))
         (nat (fp_new (uint (utxoIndex parent)))) (cf_utxoSubTreeDepth (la_config la))
         (map (\<lambda>d. fp_new (uint d)) deposits @ utxo_notes (body_txs (bl_body b)))
         (map (\<lambda>s. fp_new (uint s)) subTreeSiblings)) (\<lambda>computedRoot.
       Ok (slash_if (computedRoot \<noteq> uint (utxoRoot (bl_header b))) U3))))"

definition validateWithdrawalIndex :: "layer2 \<Rightarrow> block \<Rightarrow> header \<Rightarrow> validation result" where
  "validateWithdrawalIndex la b parent =
     bind_result (prev_header_ok la b parent) (\<lambda>_.
       if 2 ^ cf_withdrawalTreeDepth (la_config la) < uint (withdrawalIndex (bl_header b))
       then Ok (slash_if True W2)
       else
         let numOfWithdrawals = length (withdrawal_outflows (body_txs (bl_body b)));
             size = cf_withdrawalSubTreeSize (la_config la);
             nextIndex = uint (withdrawalIndex parent) + int (size * ceil_div numOfWithdrawals size) in
         Ok (slash_if (uint (withdrawalIndex (bl_header b)) \<noteq> nextIndex) W1))"

definition validateWithdrawalRoot ::
  "layer2 \<Rightarrow> block \<Rightarrow> header \<Rightarrow> (256 word) list \<Rightarrow> validation result" where
  "validateWithdrawalRoot la b parent subTreeSiblings =
     bind_result (prev_header_ok la b parent) (\<lambda>_.
     bind_result (map_result (outflow_withdrawal (la_lib la) ''AssertionError'')
         (withdrawal_outflows (body_txs (bl_body b)))) (\<lambda>newWithdrawals.
     bind_result (appendAsSubTrees (la_withdrawalHasher la) (uint (withdrawalRoot parent))
         (nat (uint (withdrawalIndex parent))) (cf_withdrawalSubTreeDepth (la_config la))
         (map (\<lambda>(_, h). uint h) newWithdrawals) (map uint subTreeSiblings)) (\<lambda>computedRoot.
       Ok (slash_if (computedRoot \<noteq> uint (withdrawalRoot (bl_header b))) W3))))"

text \<open>Equal roots are slashed.\<close>

definition validateNullifierRollUp ::
  "layer2 \<Rightarrow> block \<Rightarrow> header \<Rightarrow> nat \<Rightarrow> (256 word) list list \<Rightarrow> validation result" where
  "validateNullifierRollUp la b parent numOfNullifiers siblingsArr =
     bind_result (prev_header_ok la b parent) (\<lambda>_.
       let nullifiers = tx_nullifiers (body_txs (bl_body b)) in
     bind_result (assert_that (numOfNullifiers = length nullifiers) ''Invalid numOfNullifier'') (\<lambda>_.
     bind_result (smt_batchFill (la_nullifierHasher la) (uint (nullifierRoot parent)) (map nat nullifiers)
         (map (map uint) siblingsArr)) (\<lambda>computedRoot.
       Ok (slash_if (computedRoot = uint (nullifierRoot (bl_header b))) N1))))"

section \<open>Transactions\<close>

text \<open>The walk along the parents, from the block itself.\<close>

fun recent_ref :: "l2_db \<Rightarrow> nat \<Rightarrow> 256 word \<Rightarrow> 256 word \<Rightarrow> bool result" where
  "recent_ref db 0 hash inclusionRef = Ok False"
| "recent_ref db (Suc n) hash inclusionRef =
     (if hash \<notin> set (l2_Block db) then Ok False
      else if hash \<in> sl_hash ` set (l2_Slash db) then Ok False
      else
        (case map_of (l2_Header db) hash of
           None \<Rightarrow> Throw ''TypeError''
         | Some h \<Rightarrow>
             if inclusionRef = utxoRoot h then Ok True else recent_ref db n (parentBlock h) inclusionRef))"

definition isValidRef :: "layer2 \<Rightarrow> 256 word \<Rightarrow> 256 word \<Rightarrow> bool result" where
  "isValidRef la blockHash inclusionRef =
     (let db = la_db la;
          headers = map fst (filter (\<lambda>(_, h). utxoRoot h = inclusionRef) (l2_Header db));
          finalized = filter (\<lambda>p. pp_finalized p = Some True \<and> pp_hash p \<in> set headers) (l2_Proposal db) in
      if 0 < length finalized then Ok True
      else recent_ref db (cf_referenceDepth (la_config la)) blockHash inclusionRef)"

definition validateInclusion :: "layer2 \<Rightarrow> block \<Rightarrow> nat \<Rightarrow> nat \<Rightarrow> validation result" where
  "validateInclusion la b txIndex inflowIndex =
     bind_result (block_tx b txIndex) (\<lambda>tx.
       if inflowIndex < length (tx_inflow tx) then
         bind_result (isValidRef la (headerHash (lib_keccak (la_lib la)) (bl_header b))
             (fp_word (in_root (tx_inflow tx ! inflowIndex)))) (\<lambda>ok. Ok (slash_if (\<not> ok) T1))
       else Throw ''TypeError'')"

definition empty_data :: "public_data option \<Rightarrow> bool" where
  "empty_data d =
     (case d of
        None \<Rightarrow> True
      | Some d \<Rightarrow> pd_to d = 0 \<and> pd_eth d = 0 \<and> pd_tokenAddr d = 0 \<and> pd_erc20Amount d = 0 \<and>
          pd_nft d = 0 \<and> pd_fee d = 0)"

text \<open>One round of the loop; \<open>!undefined\<close> is true where the public data are missing.\<close>

definition outflow_reason :: "layer2 \<Rightarrow> zk_outflow \<Rightarrow> code option" where
  "outflow_reason la out =
     (if 2 < out_type out then Some T2
      else if out_type out = 0 then (if empty_data (out_data out) then None else Some T3)
      else
        (case out_data out of
           None \<Rightarrow> Some T5
         | Some d \<Rightarrow>
             if pd_tokenAddr d \<noteq> 0 then
               (case registered la (pd_tokenAddr d) of
                  None \<Rightarrow> Some T4
                | Some r \<Rightarrow>
                    if tk_isERC20 r then (if pd_nft d \<noteq> 0 then Some T5 else None)
                    else if tk_isERC721 r then
                      (if pd_erc20Amount d \<noteq> 0 then Some T6 else if pd_nft d = 0 then Some T7 else None)
                    else None)
             else if pd_nft d \<noteq> 0 then Some T5
             else if pd_erc20Amount d \<noteq> 0 then Some T6
             else None))"

fun first_reason :: "layer2 \<Rightarrow> zk_outflow list \<Rightarrow> code option" where
  "first_reason la [] = None"
| "first_reason la (out # outs) =
     (case outflow_reason la out of Some r \<Rightarrow> Some r | None \<Rightarrow> first_reason la outs)"

definition validateOutflow :: "layer2 \<Rightarrow> block \<Rightarrow> nat \<Rightarrow> validation result" where
  "validateOutflow la b txIndex = bind_result (block_tx b txIndex) (\<lambda>tx.
     Ok (case first_reason la (tx_outflow tx) of None \<Rightarrow> not_slashable | Some r \<Rightarrow> slash_if True r))"

definition includeSwapNote :: "zk_tx \<Rightarrow> int \<Rightarrow> bool" where
  "includeSwapNote tx expected \<longleftrightarrow>
     (case tx_swap tx of
        None \<Rightarrow> False
      | Some s \<Rightarrow> if s = 0 then False else list_ex (\<lambda>out. out_note out = expected) (tx_outflow tx))"

definition validateAtomicSwap :: "block \<Rightarrow> nat \<Rightarrow> validation result" where
  "validateAtomicSwap b txIndex = bind_result (block_tx b txIndex) (\<lambda>txA.
     case tx_swap txA of
       None \<Rightarrow> Throw ''This tx does not have atomic swap''
     | Some swapA \<Rightarrow>
         Ok (if list_ex (\<lambda>txB. case tx_swap txB of
               None \<Rightarrow> False
             | Some swapB \<Rightarrow> includeSwapNote txA swapB \<and> includeSwapNote txB swapA) (body_txs (bl_body b))
           then not_slashable else slash_if True T8))"

text \<open>
  The parent is \<open>None\<close> for an argument without a nullifier root, which throws inside the \<open>try\<close> block.
\<close>

definition validateUsedNullifier ::
  "layer2 \<Rightarrow> block \<Rightarrow> header option \<Rightarrow> nat \<Rightarrow> nat \<Rightarrow> (256 word) list \<Rightarrow> validation result" where
  "validateUsedNullifier la b parent txIndex inflowIndex siblings =
     bind_result (block_tx b txIndex) (\<lambda>tx.
       if inflowIndex < length (tx_inflow tx) then
         Ok (case bind_result (case parent of None \<Rightarrow> Throw ''TypeError'' | Some p \<Rightarrow> Ok (uint (nullifierRoot p)))
               (\<lambda>prevRoot. smt_fill (la_nullifierHasher la) prevRoot
                 (nat (in_nullifier (tx_inflow tx ! inflowIndex))) (map uint siblings)) of
               Inl _ \<Rightarrow> slash_if True T9
             | Inr _ \<Rightarrow> not_slashable)
       else Throw ''TypeError'')"

definition validateDuplicatedNullifier :: "block \<Rightarrow> int \<Rightarrow> validation result" where
  "validateDuplicatedNullifier b nullifier =
     Ok (if 2 \<le> length (filter (\<lambda>n. n = nullifier) (tx_nullifiers (body_txs (bl_body b))))
         then slash_if True T10 else not_slashable)"

definition validateSNARK :: "layer2 \<Rightarrow> block \<Rightarrow> nat \<Rightarrow> validation result" where
  "validateSNARK la b txIndex = bind_result (block_tx b txIndex) (\<lambda>tx.
     Ok (if \<not> la_hasVK la (length (tx_inflow tx)) (length (tx_outflow tx)) then slash_if True S1
         else slash_if (\<not> la_verifyTx la tx) S2))"

end
