(* ===== verification/Validator_Calls.thy ===== *)
theory Validator_Calls
  imports Validators
begin

text \<open>
  \<open>ValidatorBase\<close> of \<open>packages/core/src/validator/validator.ts\<close> with the validators of full and light
  nodes (\<open>fullnode-validator.ts\<close>, \<open>lightnode-validator.ts\<close>): the checks that are called for a block, and
  how their results decide. The on-chain validators are calls of contracts and a parameter.
\<close>

section \<open>Calls\<close>

datatype fn_call =
    DepositRoot_call | MigrationRoot_call | TxRoot_call | TotalFee_call
  | MassDeposit_call nat
  | DuplicatedMigrations_call nat nat | EthMigration_call nat | ERC20Migration_call nat
  | MergedLeaves_call nat | MigrationFee_call nat | TokenRegistration_call nat
  | MissedMassMigration_call nat nat
  | NullifierRollUp_call nat "(256 word) list list"
  | UTXOIndex_call "(256 word) list" | UTXORoot_call "(256 word) list" "(256 word) list"
  | WithdrawalIndex_call | WithdrawalRoot_call "(256 word) list"
  | Inclusion_call nat nat | Outflow_call nat | AtomicSwap_call nat
  | UsedNullifier_call nat nat "(256 word) list"
  | DuplicatedNullifier_call nat | SNARK_call nat

text \<open>
  \<open>offchainValidator[name](...args)\<close>. The call of \<open>validateUsedNullifier\<close> passes the function
  \<open>headerHash\<close> where the parent header belongs, and \<open>validateDuplicatedNullifier\<close> gets the index of the
  transaction as the nullifier.
\<close>

fun offchain :: "layer2 \<Rightarrow> block \<Rightarrow> header \<Rightarrow> fn_call \<Rightarrow> validation result" where
  "offchain la b parent DepositRoot_call = validateDepositRoot la b"
| "offchain la b parent MigrationRoot_call = validateMigrationRoot la b"
| "offchain la b parent TxRoot_call = validateTxRoot la b"
| "offchain la b parent TotalFee_call = validateTotalFee b"
| "offchain la b parent (MassDeposit_call i) = validateMassDeposit la b i"
| "offchain la b parent (DuplicatedMigrations_call i j) = validateDuplicatedMigrations b i j"
| "offchain la b parent (EthMigration_call i) = validateEthMigration b i"
| "offchain la b parent (ERC20Migration_call i) = validateERC20Migration b i"
| "offchain la b parent (MergedLeaves_call i) = validateMergedLeaves la b i"
| "offchain la b parent (MigrationFee_call i) = validateMigrationFee b i"
| "offchain la b parent (TokenRegistration_call i) = validateTokenRegistration la b i"
| "offchain la b parent (MissedMassMigration_call i j) = validateMissedMassMigration b i j"
| "offchain la b parent (NullifierRollUp_call n siblings) = validateNullifierRollUp la b parent n siblings"
| "offchain la b parent (UTXOIndex_call deposits) = validateUTXOIndex la b parent deposits"
| "offchain la b parent (UTXORoot_call deposits siblings) = validateUTXORoot la b parent deposits siblings"
| "offchain la b parent WithdrawalIndex_call = validateWithdrawalIndex la b parent"
| "offchain la b parent (WithdrawalRoot_call siblings) = validateWithdrawalRoot la b parent siblings"
| "offchain la b parent (Inclusion_call i j) = validateInclusion la b i j"
| "offchain la b parent (Outflow_call i) = validateOutflow la b i"
| "offchain la b parent (AtomicSwap_call i) = validateAtomicSwap b i"
| "offchain la b parent (UsedNullifier_call i j siblings) = validateUsedNullifier la b None i j siblings"
| "offchain la b parent (DuplicatedNullifier_call i) = validateDuplicatedNullifier b (int i)"
| "offchain la b parent (SNARK_call i) = validateSNARK la b i"

section \<open>The checks of a block\<close>

text \<open>The node: the second layer, its trees, their database, and the ids of the trees in it.\<close>

record node =
  nd_layer2 :: layer2
  nd_grove :: "int grove"
  nd_trees :: "int tree_db"
  nd_treeIds :: "string list"

definition validateHeader :: "fn_call list" where
  "validateHeader = [DepositRoot_call, MigrationRoot_call, TxRoot_call, TotalFee_call]"

definition validateMassDeposits :: "block \<Rightarrow> fn_call list" where
  "validateMassDeposits b = map MassDeposit_call [0..<length (massDeposits (bl_body b))]"

definition validateMassMigration :: "block \<Rightarrow> fn_call list" where
  "validateMassMigration b =
     (let is = [0..<length (massMigrations (bl_body b))]; txs = body_txs (bl_body b) in
      concat (map (\<lambda>i. map (DuplicatedMigrations_call i) is) is) @
      map EthMigration_call is @ map ERC20Migration_call is @ map MergedLeaves_call is @
      map MigrationFee_call is @ map TokenRegistration_call is @
      concat (map (\<lambda>i. map (MissedMassMigration_call i) [0..<length (tx_outflow (txs ! i))]) [0..<length txs]))"

definition validateNullifierTree :: "node \<Rightarrow> block \<Rightarrow> header \<Rightarrow> fn_call list result" where
  "validateNullifierTree nd b parent =
     (case gr_nullifierTree (nd_grove nd) of
        None \<Rightarrow> Throw ''Only full node can run this validation''
      | Some nt \<Rightarrow>
          bind_result (assert_that (uint (nullifierRoot parent) = fst (getRootNode (nd_trees nd) nt))
            ''Nullifier tree root mismatch'') (\<lambda>_.
          let nullifiers = map nat (tx_nullifiers (body_txs (bl_body b))) in
          bind_result (dryRunNullify (nd_trees nd) nt nullifiers) (\<lambda>newRoot.
          if newRoot = uint (nullifierRoot (bl_header b)) then Ok []
          else
            bind_result (map_result (\<lambda>n.
                bind_result (getNonInclusionProof (nd_trees nd) (gr_treeCache (nd_grove nd)) nt n) (\<lambda>prf.
                  if mp_root prf \<noteq> uint (nullifierRoot parent) then Throw ''Node has different nullifier root''
                  else Ok (map word_of_int (mp_siblings prf)))) nullifiers) (\<lambda>siblings.
              Ok [NullifierRollUp_call (length siblings) siblings]))))"

definition validateUtxoTree :: "node \<Rightarrow> block \<Rightarrow> header \<Rightarrow> fn_call list result" where
  "validateUtxoTree nd b parent =
     bind_result (getDeposits (la_db (nd_layer2 nd)) (massDeposits (bl_body b))) (\<lambda>retrieved.
       let deposits = map (\<lambda>d. fp_word (fp_new (dp_note d))) retrieved in
       (case gr_utxoTree (nd_grove nd) of
          None \<Rightarrow> Throw ''TypeError''
        | Some t \<Rightarrow>
            let startingLeafProof = getStartingLeafProof t in
            if uint (utxoRoot parent) \<noteq> td_root startingLeafProof \<or>
               uint (utxoIndex parent) \<noteq> int (td_index startingLeafProof)
            then Throw ''Utxo tree is returning invalid starting leaf proof.''
            else Ok [UTXOIndex_call deposits,
              UTXORoot_call deposits (map fp_word
                (drop (cf_utxoSubTreeDepth (la_config (nd_layer2 nd))) (td_siblings startingLeafProof)))]))"

definition validateWithdrawalTree :: "node \<Rightarrow> header \<Rightarrow> fn_call list result" where
  "validateWithdrawalTree nd parent =
     (case gr_withdrawalTree (nd_grove nd) of
        None \<Rightarrow> Throw ''TypeError''
      | Some t \<Rightarrow>
          let startingLeafProof = getStartingLeafProof t in
          if uint (withdrawalRoot parent) \<noteq> td_root startingLeafProof \<or>
             uint (withdrawalIndex parent) \<noteq> int (td_index startingLeafProof)
          then Throw ''Withdrawal tree is returning invalid starting leaf proof.''
          else Ok [WithdrawalIndex_call,
            WithdrawalRoot_call (map word_of_int
              (drop (cf_withdrawalSubTreeDepth (la_config (nd_layer2 nd))) (td_siblings startingLeafProof)))])"

text \<open>The proofs for used nullifiers, for one inflow.\<close>

definition used_nullifier_call ::
  "node \<Rightarrow> header \<Rightarrow> nat list \<Rightarrow> zk_tx list \<Rightarrow> nat \<times> nat \<Rightarrow> fn_call list result" where
  "used_nullifier_call nd parent usedNullifiers txs = (\<lambda>(i, j).
     let nullifier = nat (in_nullifier (tx_inflow (txs ! i) ! j)) in
     (case gr_nullifierTree (nd_grove nd) of
        None \<Rightarrow> Ok []
      | Some nt \<Rightarrow>
          if nullifier \<in> set usedNullifiers then
            bind_result (getInclusionProof (nd_trees nd) (gr_treeCache (nd_grove nd)) nt nullifier) (\<lambda>prf.
              if mp_root prf \<noteq> uint (nullifierRoot parent) then Throw ''Node has different nullifier root''
              else Ok [UsedNullifier_call i j (map word_of_int (mp_siblings prf))])
          else Ok []))"

definition validateTx :: "node \<Rightarrow> block \<Rightarrow> header \<Rightarrow> fn_call list result" where
  "validateTx nd b parent =
     (let txs = body_txs (bl_body b);
          usedNullifiers = (case gr_nullifierTree (nd_grove nd) of
            None \<Rightarrow> []
          | Some nt \<Rightarrow> findUsedNullifier (nd_trees nd) (nd_treeIds nd) nt (map nat (tx_nullifiers txs)));
          is = [0..<length txs];
          inflows = concat (map (\<lambda>i. map (\<lambda>j. (i, j)) [0..<length (tx_inflow (txs ! i))]) is) in
      bind_result (map_result (used_nullifier_call nd parent usedNullifiers txs) inflows) (\<lambda>used.
        Ok (map (\<lambda>(i, j). Inclusion_call i j) inflows @ map Outflow_call is @
          map AtomicSwap_call (filter (\<lambda>i. tx_swap (txs ! i) \<noteq> None) is) @ concat used @
          map DuplicatedNullifier_call is @ map SNARK_call is)))"

section \<open>Decisions\<close>

text \<open>A full node asks the contracts as well; \<open>onchain\<close> is their answer to a call.\<close>

definition execute_full ::
  "(fn_call \<Rightarrow> validation result) \<Rightarrow> (fn_call \<Rightarrow> validation result) \<Rightarrow> fn_call list \<Rightarrow> validation result" where
  "execute_full off onchain fnCalls =
     bind_result (map_result off fnCalls) (\<lambda>offchainResult.
     bind_result (map_result onchain fnCalls) (\<lambda>onchainResult.
       if list_all (\<lambda>(r, r'). slashable r = slashable r' \<and> \<not> slashable r) (zip offchainResult onchainResult)
       then Ok not_slashable
       else
         (case find slashable onchainResult of
            Some r \<Rightarrow> Ok r
          | None \<Rightarrow>
              (case find slashable offchainResult of
                 Some r \<Rightarrow> Ok r
               | None \<Rightarrow> Throw ''Unknown validation error''))))"

definition execute_light ::
  "(fn_call \<Rightarrow> validation result) \<Rightarrow> (fn_call \<Rightarrow> validation result) \<Rightarrow> fn_call list \<Rightarrow> validation result" where
  "execute_light off onchain fnCalls =
     bind_result (map_result off fnCalls) (\<lambda>offchainResult.
       (case find (\<lambda>(c, r). slashable r) (zip fnCalls offchainResult) of
          None \<Rightarrow> Ok not_slashable
        | Some (fnCall, _) \<Rightarrow> bind_result (onchain fnCall) (\<lambda>_. Ok \<lparr>slashable = True, reason = None\<rparr>)))"

definition decide :: "(fn_call list \<Rightarrow> validation result) \<Rightarrow> fn_call list result list \<Rightarrow> validation result" where
  "decide execute groups =
     bind_result (map_result (\<lambda>g. g) groups) (\<lambda>validationCalls.
     bind_result (map_result execute validationCalls) (\<lambda>validationResults.
       Ok (case find slashable validationResults of Some r \<Rightarrow> r | None \<Rightarrow> not_slashable)))"

definition full_groups :: "node \<Rightarrow> header \<Rightarrow> block \<Rightarrow> fn_call list result list" where
  "full_groups nd parent b =
     [Ok validateHeader, Ok (validateMassDeposits b), Ok (validateMassMigration b),
      validateNullifierTree nd b parent, validateUtxoTree nd b parent,
      validateWithdrawalTree nd parent, validateTx nd b parent]"

definition light_groups :: "node \<Rightarrow> header \<Rightarrow> block \<Rightarrow> fn_call list result list" where
  "light_groups nd parent b =
     [Ok validateHeader, Ok (validateMassDeposits b), Ok (validateMassMigration b),
      validateUtxoTree nd b parent, validateWithdrawalTree nd parent, validateTx nd b parent]"

definition full_validate ::
  "(fn_call \<Rightarrow> validation result) \<Rightarrow> node \<Rightarrow> header \<Rightarrow> block \<Rightarrow> validation result" where
  "full_validate onchain nd parent b =
     decide (execute_full (offchain (nd_layer2 nd) b parent) onchain) (full_groups nd parent b)"

definition light_validate ::
  "(fn_call \<Rightarrow> validation result) \<Rightarrow> node \<Rightarrow> header \<Rightarrow> block \<Rightarrow> validation result" where
  "light_validate onchain nd parent b =
     decide (execute_light (offchain (nd_layer2 nd) b parent) onchain) (light_groups nd parent b)"

end
