(* ===== verification/Validator_Proofs.thy ===== *)
theory Validator_Proofs
  imports Validator_Calls
begin

text \<open>
  What the decisions of the two validators have in common, as a contract of the way calls are executed:
  a block that is not slashed has passed every off-chain check, and one that passes every check on and
  off the chain is not slashed.
\<close>

section \<open>Executing calls\<close>

lemma map_result_Ok_set: "map_result f xs = Ok ys \<Longrightarrow> x \<in> set xs \<Longrightarrow> \<exists>y \<in> set ys. f x = Ok y"
  by (induction xs arbitrary: ys) auto

lemma map_result_length: "map_result f xs = Ok ys \<Longrightarrow> length ys = length xs"
  by (induction xs arbitrary: ys) auto

lemma map_result_nth: "map_result f xs = Ok ys \<Longrightarrow> i < length xs \<Longrightarrow> f (xs ! i) = Ok (ys ! i)"
  using list_all2_nthD [of _ xs ys i] by (auto simp: map_result_Ok_iff)

lemma map_result_all:
  "\<forall>x\<in>set xs. \<exists>y. f x = Ok y \<and> P y \<Longrightarrow> \<exists>ys. map_result f xs = Ok ys \<and> (\<forall>y\<in>set ys. P y)"
  by (induction xs) auto

lemma find_none_all: "\<forall>x\<in>set xs. \<not> P x \<Longrightarrow> find P xs = None"
  by (simp add: find_None_iff)

lemma map_result_self: "\<forall>g\<in>set gs. \<exists>c. g = Ok c \<and> P c \<Longrightarrow> \<exists>cs. map_result (\<lambda>g. g) gs = Ok cs \<and> (\<forall>c\<in>set cs. P c)"
  by (rule map_result_all)

lemma in_concat_map: "x \<in> set xs \<Longrightarrow> y \<in> set (f x) \<Longrightarrow> y \<in> set (concat (map f xs))"
  by auto

lemma duplicates_called:
  assumes "massMigrations (bl_body b) \<noteq> []"
  shows "DuplicatedMigrations_call 0 0 \<in> set (validateMassMigration b)"
proof -
  have zero: "0 \<in> set [0..<length (massMigrations (bl_body b))]" using assms by simp
  show ?thesis
    unfolding validateMassMigration_def Let_def set_append
    by (rule UnI1, rule in_concat_map [OF zero], unfold set_map, rule imageI, rule zero)
qed

lemma self_duplicate:
  assumes "massMigrations (bl_body b) \<noteq> []"
  shows "validateDuplicatedMigrations b 0 0 = Ok (slash_if True M1)"
  using assms by (simp add: validateDuplicatedMigrations_def block_migration_def Let_def)

locale executor =
  fixes execute :: "(fn_call \<Rightarrow> validation result) \<Rightarrow> (fn_call \<Rightarrow> validation result) \<Rightarrow> fn_call list \<Rightarrow> validation result"
  assumes passes: "execute off on calls = Ok r \<Longrightarrow> \<not> slashable r \<Longrightarrow> c \<in> set calls \<Longrightarrow>
      \<exists>v. off c = Ok v \<and> \<not> slashable v"
    and accepts: "(\<And>c. c \<in> set calls \<Longrightarrow> \<exists>v. off c = Ok v \<and> \<not> slashable v) \<Longrightarrow>
      (\<And>c. c \<in> set calls \<Longrightarrow> \<exists>v. on c = Ok v \<and> \<not> slashable v) \<Longrightarrow> execute off on calls = Ok not_slashable"
begin

lemma decide_passes:
  assumes run: "decide (execute off on) groups = Ok r" and ok: "\<not> slashable r" and g: "g \<in> set groups"
  shows "\<exists>calls. g = Ok calls \<and> (\<forall>c\<in>set calls. \<exists>v. off c = Ok v \<and> \<not> slashable v)"
proof -
  obtain css rs where css: "map_result (\<lambda>g. g) groups = Ok css"
    and rs: "map_result (execute off on) css = Ok rs"
    and r: "r = (case find slashable rs of Some r \<Rightarrow> r | None \<Rightarrow> not_slashable)"
    using run by (auto simp: decide_def)
  have none: "\<not> slashable v" if "v \<in> set rs" for v
    using ok r that by (cases "find slashable rs") (auto simp: find_None_iff find_Some_iff)
  from map_result_Ok_set [OF css g] obtain calls where calls: "calls \<in> set css" "g = Ok calls" ..
  from map_result_Ok_set [OF rs calls(1)] obtain v where v: "v \<in> set rs" "execute off on calls = Ok v" ..
  show ?thesis using calls(2) passes [OF v(2) none [OF v(1)]] by blast
qed

lemma decide_accepts:
  assumes groups: "\<And>g. g \<in> set groups \<Longrightarrow> \<exists>calls. g = Ok calls \<and>
      (\<forall>c\<in>set calls. (\<exists>v. off c = Ok v \<and> \<not> slashable v) \<and> (\<exists>v. on c = Ok v \<and> \<not> slashable v))"
  shows "decide (execute off on) groups = Ok not_slashable"
proof -
  let ?pass = "\<lambda>calls. \<forall>c\<in>set calls. (\<exists>v. off c = Ok v \<and> \<not> slashable v) \<and> (\<exists>v. on c = Ok v \<and> \<not> slashable v)"
  have "\<forall>g\<in>set groups. \<exists>calls. g = Ok calls \<and> ?pass calls" by (rule ballI) (rule groups)
  from map_result_self [OF this] obtain css where css: "map_result (\<lambda>g. g) groups = Ok css" "\<forall>calls\<in>set css. ?pass calls"
    by (elim exE conjE)
  have "execute off on calls = Ok not_slashable" if "calls \<in> set css" for calls
  proof (rule accepts)
    fix c assume c: "c \<in> set calls"
    note all = css(2) [rule_format, OF that c]
    show "\<exists>v. off c = Ok v \<and> \<not> slashable v" by (rule all [THEN conjunct1])
    show "\<exists>v. on c = Ok v \<and> \<not> slashable v" by (rule all [THEN conjunct2])
  qed
  then have "map_result (execute off on) css = Ok (map (\<lambda>_. not_slashable) css)"
    by (rule map_result_map)
  moreover have "find slashable (map (\<lambda>_. not_slashable) css) = None" by (rule find_none_all) simp
  ultimately show ?thesis unfolding decide_def css(1) by simp
qed

text \<open>The duplicate check compares every mass migration with itself.\<close>

lemma slashes_mass_migrations:
  assumes run: "decide (execute (offchain la b parent) on) groups = Ok r"
    and g: "Ok (validateMassMigration b) \<in> set groups" and some: "massMigrations (bl_body b) \<noteq> []"
  shows "slashable r"
proof (rule ccontr)
  assume "\<not> slashable r"
  from decide_passes [OF run this g]
  have pass: "\<forall>c\<in>set (validateMassMigration b). \<exists>v. offchain la b parent c = Ok v \<and> \<not> slashable v" by simp
  have "DuplicatedMigrations_call 0 0 \<in> set (validateMassMigration b)"
    using some by (rule duplicates_called)
  with pass obtain v where "validateDuplicatedMigrations b 0 0 = Ok v" "\<not> slashable v" by auto
  then show False unfolding self_duplicate [OF some] by auto
qed

end

lemma execute_full_passes:
  assumes "execute_full off on calls = Ok r" "\<not> slashable r" "c \<in> set calls"
  shows "\<exists>v. off c = Ok v \<and> \<not> slashable v"
proof -
  obtain rs rs' where rs: "map_result off calls = Ok rs" "map_result on calls = Ok rs'"
    and r: "(if list_all (\<lambda>(r, r'). slashable r = slashable r' \<and> \<not> slashable r) (zip rs rs')
       then Ok not_slashable
       else (case find slashable rs' of
            Some r \<Rightarrow> Ok r
          | None \<Rightarrow> (case find slashable rs of
                 Some r \<Rightarrow> Ok r
               | None \<Rightarrow> Throw ''Unknown validation error''))) = Ok r"
    using assms(1) by (auto simp: execute_full_def)
  obtain i where i: "i < length calls" "c = calls ! i" using assms(3) by (auto simp: in_set_conv_nth)
  have len: "length rs = length calls" "length rs' = length calls" using rs map_result_length by auto
  have c: "off c = Ok (rs ! i)" using map_result_nth [OF rs(1) i(1)] i(2) by simp
  have "\<not> slashable (rs ! i)"
  proof (cases "list_all (\<lambda>(r, r'). slashable r = slashable r' \<and> \<not> slashable r) (zip rs rs')")
    case True
    have "(rs ! i, rs' ! i) \<in> set (zip rs rs')" using i len by (auto simp: set_zip)
    with True show ?thesis by (auto simp: list_all_iff)
  next
    case False
    with r assms(2) show ?thesis by (auto simp: find_Some_iff split: option.splits)
  qed
  with c show ?thesis by blast
qed

lemma execute_full_accepts:
  assumes off: "\<And>c. c \<in> set calls \<Longrightarrow> \<exists>v. off c = Ok v \<and> \<not> slashable v"
    and on: "\<And>c. c \<in> set calls \<Longrightarrow> \<exists>v. on c = Ok v \<and> \<not> slashable v"
  shows "execute_full off on calls = Ok not_slashable"
proof -
  obtain rs where rs: "map_result off calls = Ok rs" "\<forall>v\<in>set rs. \<not> slashable v"
    using map_result_all [of calls off "\<lambda>v. \<not> slashable v"] off by blast
  obtain rs' where rs': "map_result on calls = Ok rs'" "\<forall>v\<in>set rs'. \<not> slashable v"
    using map_result_all [of calls on "\<lambda>v. \<not> slashable v"] on by blast
  have "list_all (\<lambda>(r, r'). slashable r = slashable r' \<and> \<not> slashable r) (zip rs rs')"
    using rs(2) rs'(2) by (auto simp: list_all_iff dest: set_zip_leftD set_zip_rightD)
  then show ?thesis by (simp add: execute_full_def rs(1) rs'(1))
qed

interpretation full: executor execute_full
  by unfold_locales (fact execute_full_passes execute_full_accepts)+

lemma execute_light_passes:
  assumes "execute_light off on calls = Ok r" "\<not> slashable r" "c \<in> set calls"
  shows "\<exists>v. off c = Ok v \<and> \<not> slashable v"
proof -
  obtain rs where rs: "map_result off calls = Ok rs" using assms(1) by (auto simp: execute_light_def)
  obtain i where i: "i < length calls" "c = calls ! i" using assms(3) by (auto simp: in_set_conv_nth)
  have "(c, rs ! i) \<in> set (zip calls rs)"
    using i map_result_length [OF rs] by (auto simp: set_zip)
  moreover have "find (\<lambda>(c, r). slashable r) (zip calls rs) = None"
    using assms(1,2) rs by (auto simp: execute_light_def split: option.splits)
  ultimately have "\<not> slashable (rs ! i)" by (auto simp: find_None_iff)
  then show ?thesis using map_result_nth [OF rs i(1)] i(2) by auto
qed

lemma execute_light_accepts:
  assumes off: "\<And>c. c \<in> set calls \<Longrightarrow> \<exists>v. off c = Ok v \<and> \<not> slashable v"
  shows "execute_light off on calls = Ok not_slashable"
proof -
  obtain rs where rs: "map_result off calls = Ok rs" "\<forall>v\<in>set rs. \<not> slashable v"
    using map_result_all [of calls off "\<lambda>v. \<not> slashable v"] off by blast
  have "find (\<lambda>(c, r). slashable r) (zip calls rs) = None"
    using rs(2) by (intro find_none_all) (auto dest: set_zip_rightD)
  with rs(1) show ?thesis by (simp add: execute_light_def)
qed

interpretation light: executor execute_light
  by unfold_locales (fact execute_light_passes, rule execute_light_accepts)

end
