(* ===== verification/Validator_Soundness.thy ===== *)
theory Validator_Soundness
  imports Validator_Proofs Grove_Properties Sol_Append
begin

text \<open>
  What a validated block says of the state after it: the roots and indices of its header are those that
  the trees of the node have once the patch of the block is applied to them.
\<close>

section \<open>Consistent nodes\<close>

text \<open>
  The trees satisfy their invariant and the hashers and sizes of the validators are those of the trees.
  The UTXO tree is hashed to field elements, the withdrawal tree to 256-bit numbers.
\<close>

definition utxo_sizes_ok :: "(int \<Rightarrow> int \<Rightarrow> int) \<Rightarrow> node \<Rightarrow> int light_tree \<Rightarrow> bool" where
  "utxo_sizes_ok pu nd ut \<longleftrightarrow>
     (let la = nd_layer2 nd; cf = la_config la in
      la_utxoHasher la = hasher_of 0 pu (lt_depth ut) \<and> cf_utxoTreeDepth cf = lt_depth ut \<and>
      cf_utxoSubTreeSize cf = 2 ^ cf_utxoSubTreeDepth cf \<and>
      gc_utxoSubTreeSize (gr_config (nd_grove nd)) = 2 ^ cf_utxoSubTreeDepth cf \<and>
      0 < cf_utxoSubTreeDepth cf \<and> cf_utxoSubTreeDepth cf \<le> lt_depth ut \<and> 2 ^ lt_depth ut < FP_ORDER \<and>
      (\<forall>a b. 0 \<le> pu a b \<and> pu a b < FP_ORDER) \<and> (\<forall>d\<in>set (l2_Deposit (la_db la)). 0 \<le> dp_note d))"

definition withdrawal_sizes_ok :: "(int \<Rightarrow> int \<Rightarrow> int) \<Rightarrow> node \<Rightarrow> int light_tree \<Rightarrow> bool" where
  "withdrawal_sizes_ok pw nd wt \<longleftrightarrow>
     (let la = nd_layer2 nd; cf = la_config la in
      la_withdrawalHasher la = hasher_of 0 pw (lt_depth wt) \<and> cf_withdrawalTreeDepth cf = lt_depth wt \<and>
      cf_withdrawalSubTreeSize cf = 2 ^ cf_withdrawalSubTreeDepth cf \<and>
      gc_withdrawalSubTreeSize (gr_config (nd_grove nd)) = 2 ^ cf_withdrawalSubTreeDepth cf \<and>
      0 < cf_withdrawalSubTreeDepth cf \<and> cf_withdrawalSubTreeDepth cf \<le> lt_depth wt \<and>
      (\<forall>a b. 0 \<le> pw a b \<and> pw a b < 2 ^ 256))"

section \<open>One tree\<close>

lemma own_proof_checked:
  assumes hist: "tree_history (hasher_of zero p (lt_depth t)) zero sync f T t db" and s: "s \<le> lt_depth t"
    and room: "latestLeafIndex t + 2 ^ s * ceil_div (length items) (2 ^ s) \<le> 2 ^ lt_depth t"
    and run: "appendAsSubTrees (hasher_of zero p (lt_depth t)) (lt_root t) (latestLeafIndex t) s
      (map lf_hash items) (drop s (td_siblings (getStartingLeafProof t))) = Ok r"
  shows "r = td_root (dryAppend t items)"
proof -
  let ?q = "latestLeafIndex t div 2 ^ s"
  have mult: "latestLeafIndex t mod 2 ^ s = 0"
    and accepted: "emptySubTreeProof (hasher_of zero p (lt_depth t)) (lt_root t) (latestLeafIndex t) s
      (drop s (td_siblings (getStartingLeafProof t)))"
    using run by (auto simp: appendAsSubTrees_def)
  from mult have index: "latestLeafIndex t = ?q * 2 ^ s" by (metis add.right_neutral div_mult_mod_eq)
  have "(?q + ceil_div (length items) (2 ^ s)) * 2 ^ s \<le> 2 ^ (lt_depth t - s) * 2 ^ s"
    using room index s by (simp add: algebra_simps flip: power_add)
  then have "?q + ceil_div (length items) (2 ^ s) \<le> 2 ^ (lt_depth t - s)" by simp
  from own_proof_append [OF hist index s this accepted] run show ?thesis by simp
qed

text \<open>Nodes above the leaves are values of the hash function.\<close>

lemma mnode_range:
  assumes "\<forall>a b. P (p a b)" and "0 < l"
  shows "P (mnode p f l j)"
  using assms by (cases l) auto

lemma own_proof_range:
  assumes hist: "tree_history (hasher_of zero p (lt_depth t)) zero sync f T t db" and s: "s \<le> lt_depth t" "0 < s"
    and range: "\<forall>a b. P (p a b)"
  shows "P (lt_root t)" and "\<forall>x \<in> set (drop s (td_siblings (getStartingLeafProof t))). P x"
proof -
  show "P (lt_root t)" using history_facts(6) [OF hist] mnode_range [OF range] s by simp
  let ?S = "td_siblings (getStartingLeafProof t)"
  have S: "length ?S = lt_depth t" "\<And>l. l < lt_depth t \<Longrightarrow> ?S ! l = mnode p f l (sib_pos (latestLeafIndex t div 2 ^ l))"
    using standard.getStartingLeafProof_siblings [OF history_facts(1) [OF hist] refl history_facts(3) [OF hist]]
    by (simp_all add: latestLeafIndex_def)
  show "\<forall>x \<in> set (drop s ?S). P x"
  proof
    fix x assume "x \<in> set (drop s ?S)"
    then obtain i where "i < lt_depth t - s" "x = ?S ! (s + i)"
      using S(1) by (auto simp: in_set_conv_nth)
    then have "x = mnode p f (s + i) (sib_pos (latestLeafIndex t div 2 ^ (s + i)))" using S(2) by simp
    then show "P x" using mnode_range [OF range, of "s + i"] s(2) by simp
  qed
qed

lemma latestLeafIndex_le:
  assumes "tree_history (hasher_of zero p (lt_depth t)) zero sync f T t db"
  shows "latestLeafIndex t \<le> 2 ^ lt_depth t"
  using history_facts(3) [OF assms] by (simp add: represents_def latestLeafIndex_def)

section \<open>Words and field elements\<close>

lemma uint_fp_word: "0 \<le> x \<Longrightarrow> x < 2 ^ 256 \<Longrightarrow> uint (fp_word x) = x"
  by (simp add: fp_word_def uint_word_of_int)

lemma FP_ORDER_256: "FP_ORDER < 2 ^ 256"
  by (simp add: FP_ORDER_def)

lemma uint_fp_word_field: "0 \<le> x \<Longrightarrow> x < FP_ORDER \<Longrightarrow> fp_new (uint (fp_word x)) = x"
  using FP_ORDER_256 by (simp add: uint_fp_word ff_valid_def)

lemma fp_new_note: "0 \<le> x \<Longrightarrow> fp_new (uint (fp_word (fp_new x))) = fp_new x"
  using fp_new_valid [of x] by (intro uint_fp_word_field) (simp_all add: ff_valid_def)

lemma map_word_field: "\<forall>x\<in>set xs. 0 \<le> x \<and> x < FP_ORDER \<Longrightarrow> map (\<lambda>s. fp_new (uint s)) (map fp_word xs) = xs"
  by (induction xs) (simp_all add: uint_fp_word_field)

lemma map_word_256: "\<forall>x\<in>set xs. 0 \<le> x \<and> x < 2 ^ 256 \<Longrightarrow> map uint (map word_of_int xs :: (256 word) list) = xs"
  by (induction xs) (simp_all add: uint_word_of_int)

section \<open>Accepted trees\<close>

text \<open>The leaves of a block, as the patch and the validators list them.\<close>

definition block_utxos :: "deposit_row list \<Rightarrow> block \<Rightarrow> int list" where
  "block_utxos deposits b = map (\<lambda>d. fp_new (dp_note d)) deposits @ utxo_notes (body_txs (bl_body b))"

lemma getDeposits_rows: "getDeposits db mds = Ok ds \<Longrightarrow> set ds \<subseteq> set (l2_Deposit db)"
  by (auto simp: getDeposits_def Let_def split: if_splits)

lemma utxo_accepted:
  assumes hist: "tree_history (hasher_of 0 pu (lt_depth ut)) 0 sync fu Tu ut db"
    and ok: "utxo_sizes_ok pu nd ut" and tree: "gr_utxoTree (nd_grove nd) = Some ut"
    and ds: "getDeposits (la_db (nd_layer2 nd)) (massDeposits (bl_body b)) = Ok ds"
    and calls: "validateUtxoTree nd b parent = Ok calls"
    and pass: "\<forall>c\<in>set calls. \<exists>v. offchain (nd_layer2 nd) b parent c = Ok v \<and> \<not> slashable v"
    and items: "map lf_hash items = block_utxos ds b"
  shows "uint (utxoRoot (bl_header b)) = td_root (dryAppend ut items)"
    and "uint (utxoIndex (bl_header b)) =
      int (latestLeafIndex ut + 2 ^ cf_utxoSubTreeDepth (la_config (nd_layer2 nd)) *
        ceil_div (length items) (2 ^ cf_utxoSubTreeDepth (la_config (nd_layer2 nd))))"
    and "latestLeafIndex ut + 2 ^ cf_utxoSubTreeDepth (la_config (nd_layer2 nd)) *
        ceil_div (length items) (2 ^ cf_utxoSubTreeDepth (la_config (nd_layer2 nd))) \<le> 2 ^ lt_depth ut"
proof -
  let ?la = "nd_layer2 nd" let ?s = "cf_utxoSubTreeDepth (la_config ?la)"
  let ?deposits = "map (\<lambda>d. fp_word (fp_new (dp_note d))) ds"
  let ?D = "drop ?s (td_siblings (getStartingLeafProof ut))"
  have cfg: "la_utxoHasher ?la = hasher_of 0 pu (lt_depth ut)" "cf_utxoTreeDepth (la_config ?la) = lt_depth ut"
    "cf_utxoSubTreeSize (la_config ?la) = 2 ^ ?s" "0 < ?s" "?s \<le> lt_depth ut" "2 ^ lt_depth ut < FP_ORDER"
    "\<forall>a b. 0 \<le> pu a b \<and> pu a b < FP_ORDER" "\<forall>d\<in>set (l2_Deposit (la_db ?la)). 0 \<le> dp_note d"
    using ok by (simp_all add: utxo_sizes_ok_def Let_def)
  have start: "td_root (getStartingLeafProof ut) = lt_root ut" "td_index (getStartingLeafProof ut) = latestLeafIndex ut"
    by (simp_all add: getStartingLeafProof_def Let_def)
  have parent: "uint (utxoRoot parent) = lt_root ut" "uint (utxoIndex parent) = int (latestLeafIndex ut)"
    and eq: "calls = [UTXOIndex_call ?deposits, UTXORoot_call ?deposits (map fp_word ?D)]"
    using calls by (auto simp: validateUtxoTree_def ds tree start Let_def split: if_splits)
  have dep_notes: "map (\<lambda>d. fp_new (uint d)) ?deposits = map (\<lambda>d. fp_new (dp_note d)) ds"
    using getDeposits_rows [OF ds] cfg(8) by (auto simp: fp_new_note subset_iff)
  have len: "length ds + length (utxo_notes (body_txs (bl_body b))) = length items"
    using arg_cong [OF items, of length] by (simp add: block_utxos_def)
  obtain v where v: "validateUTXOIndex ?la b parent ?deposits = Ok v" "\<not> slashable v"
    using pass eq by auto
  then show index: "uint (utxoIndex (bl_header b)) = int (latestLeafIndex ut + 2 ^ ?s * ceil_div (length items) (2 ^ ?s))"
    by (auto simp: validateUTXOIndex_def Let_def cfg parent len split: if_splits)
  have "uint (utxoIndex (bl_header b)) \<le> 2 ^ lt_depth ut"
    using v by (auto simp: validateUTXOIndex_def Let_def cfg split: if_splits)
  then show room: "latestLeafIndex ut + 2 ^ ?s * ceil_div (length items) (2 ^ ?s) \<le> 2 ^ lt_depth ut"
    unfolding index by (metis of_nat_le_iff of_nat_numeral of_nat_power)
  have "int (latestLeafIndex ut) \<le> int (2 ^ lt_depth ut)"
    unfolding of_nat_le_iff by (rule latestLeafIndex_le [OF hist])
  also have "\<dots> < FP_ORDER" using cfg(6) by (simp only: of_nat_power of_nat_numeral)
  finally have idx: "nat (fp_new (uint (utxoIndex parent))) = latestLeafIndex ut"
    unfolding parent by (simp add: ff_valid_def)
  have root: "fp_new (uint (utxoRoot parent)) = lt_root ut"
    using own_proof_range(1) [OF hist cfg(5,4,7)] by (simp add: parent ff_valid_def)
  have sibs: "map (\<lambda>s. fp_new (uint s)) (map fp_word ?D) = ?D"
    by (rule map_word_field) (rule own_proof_range(2) [OF hist cfg(5,4,7)])
  obtain w where w: "validateUTXORoot ?la b parent ?deposits (map fp_word ?D) = Ok w" "\<not> slashable w"
    using pass eq by auto
  have "appendAsSubTrees (hasher_of 0 pu (lt_depth ut)) (lt_root ut) (latestLeafIndex ut) ?s (map lf_hash items) ?D =
      Ok (uint (utxoRoot (bl_header b)))"
    using w unfolding validateUTXORoot_def dep_notes idx root sibs cfg(1) items block_utxos_def by auto
  from own_proof_checked [OF hist cfg(5) room this]
  show "uint (utxoRoot (bl_header b)) = td_root (dryAppend ut items)" .
qed

lemma withdrawal_accepted:
  assumes hist: "tree_history (hasher_of 0 pw (lt_depth wt)) 0 sync fw Tw wt db"
    and ok: "withdrawal_sizes_ok pw nd wt" and tree: "gr_withdrawalTree (nd_grove nd) = Some wt"
    and calls: "validateWithdrawalTree nd parent = Ok calls"
    and pass: "\<forall>c\<in>set calls. \<exists>v. offchain (nd_layer2 nd) b parent c = Ok v \<and> \<not> slashable v"
    and ws: "map_result (outflow_withdrawal (la_lib (nd_layer2 nd)) msg) (withdrawal_outflows (body_txs (bl_body b))) = Ok ws"
    and items: "map lf_hash items = map (\<lambda>(_, h). uint h) ws"
  shows "uint (withdrawalRoot (bl_header b)) = td_root (dryAppend wt items)"
    and "uint (withdrawalIndex (bl_header b)) =
      int (latestLeafIndex wt + 2 ^ cf_withdrawalSubTreeDepth (la_config (nd_layer2 nd)) *
        ceil_div (length items) (2 ^ cf_withdrawalSubTreeDepth (la_config (nd_layer2 nd))))"
    and "latestLeafIndex wt + 2 ^ cf_withdrawalSubTreeDepth (la_config (nd_layer2 nd)) *
        ceil_div (length items) (2 ^ cf_withdrawalSubTreeDepth (la_config (nd_layer2 nd))) \<le> 2 ^ lt_depth wt"
proof -
  let ?la = "nd_layer2 nd" let ?s = "cf_withdrawalSubTreeDepth (la_config ?la)"
  let ?D = "drop ?s (td_siblings (getStartingLeafProof wt))"
  have cfg: "la_withdrawalHasher ?la = hasher_of 0 pw (lt_depth wt)" "cf_withdrawalTreeDepth (la_config ?la) = lt_depth wt"
    "cf_withdrawalSubTreeSize (la_config ?la) = 2 ^ ?s" "0 < ?s" "?s \<le> lt_depth wt"
    "\<forall>a b. 0 \<le> pw a b \<and> pw a b < 2 ^ 256"
    using ok by (simp_all add: withdrawal_sizes_ok_def Let_def)
  have start: "td_root (getStartingLeafProof wt) = lt_root wt" "td_index (getStartingLeafProof wt) = latestLeafIndex wt"
    by (simp_all add: getStartingLeafProof_def Let_def)
  have parent: "uint (withdrawalRoot parent) = lt_root wt" "uint (withdrawalIndex parent) = int (latestLeafIndex wt)"
    and eq: "calls = [WithdrawalIndex_call, WithdrawalRoot_call (map word_of_int ?D)]"
    using calls by (auto simp: validateWithdrawalTree_def tree start Let_def split: if_splits)
  have len: "length (withdrawal_outflows (body_txs (bl_body b))) = length items"
    using arg_cong [OF items, of length] map_result_length [OF ws] by simp
  obtain v where v: "validateWithdrawalIndex ?la b parent = Ok v" "\<not> slashable v"
    using pass eq by auto
  then show index: "uint (withdrawalIndex (bl_header b)) = int (latestLeafIndex wt + 2 ^ ?s * ceil_div (length items) (2 ^ ?s))"
    by (auto simp: validateWithdrawalIndex_def Let_def cfg parent len split: if_splits)
  have "uint (withdrawalIndex (bl_header b)) \<le> 2 ^ lt_depth wt"
    using v by (auto simp: validateWithdrawalIndex_def Let_def cfg split: if_splits)
  then show room: "latestLeafIndex wt + 2 ^ ?s * ceil_div (length items) (2 ^ ?s) \<le> 2 ^ lt_depth wt"
    unfolding index by (metis of_nat_le_iff of_nat_numeral of_nat_power)
  have idx: "nat (uint (withdrawalIndex parent)) = latestLeafIndex wt" by (simp add: parent)
  have sibs: "map uint (map word_of_int ?D :: (256 word) list) = ?D"
    by (rule map_word_256) (rule own_proof_range(2) [OF hist cfg(5,4,6)])
  obtain w where w: "validateWithdrawalRoot ?la b parent (map word_of_int ?D) = Ok w" "\<not> slashable w"
    using pass eq by auto
  obtain ws' where ws': "map_result (outflow_withdrawal (la_lib ?la) ''AssertionError'')
      (withdrawal_outflows (body_txs (bl_body b))) = Ok ws'"
    and append: "appendAsSubTrees (hasher_of 0 pw (lt_depth wt)) (lt_root wt) (latestLeafIndex wt) ?s
      (map (\<lambda>(_, h). uint h) ws') ?D = Ok (uint (withdrawalRoot (bl_header b)))"
    using w unfolding validateWithdrawalRoot_def idx sibs cfg(1) parent(1) by auto
  have "ws' = ws"
  proof (rule nth_equalityI)
    show "length ws' = length ws" using map_result_length [OF ws] map_result_length [OF ws'] by simp
    fix i assume "i < length ws'"
    then have i: "i < length (withdrawal_outflows (body_txs (bl_body b)))" using map_result_length [OF ws'] by simp
    show "ws' ! i = ws ! i"
      using map_result_nth [OF ws i] map_result_nth [OF ws' i] by (auto simp: outflow_withdrawal_def split: option.splits)
  qed
  from own_proof_checked [OF hist cfg(5) room append [unfolded this items [symmetric]]]
  show "uint (withdrawalRoot (bl_header b)) = td_root (dryAppend wt items)" .
qed

text \<open>
  The nullifiers: the dry run gives the root of the header. Otherwise the roll-up would be replayed by
  the library, which without collisions cannot fill a leaf of the tree.
\<close>

lemma nullifiers_accepted:
  assumes inj: "\<And>a b a' b'. pn a b = pn a' b' \<Longrightarrow> a = a' \<and> b = b'"
    and inv: "nl_inv pn nt (nd_trees nd) S" and tree: "gr_nullifierTree (nd_grove nd) = Some nt"
    and hasher: "la_nullifierHasher (nd_layer2 nd) = hasher_of 0 pn (nl_depth nt)"
    and some: "tx_nullifiers (body_txs (bl_body b)) \<noteq> []"
    and range: "\<forall>n \<in> set (tx_nullifiers (body_txs (bl_body b))). 0 \<le> n \<and> n < 2 ^ nl_depth nt"
    and calls: "validateNullifierTree nd b parent = Ok calls"
    and pass: "\<forall>c\<in>set calls. \<exists>v. offchain (nd_layer2 nd) b parent c = Ok v \<and> \<not> slashable v"
  shows "dryRunNullify (nd_trees nd) nt (map nat (tx_nullifiers (body_txs (bl_body b)))) =
    Ok (uint (nullifierRoot (bl_header b)))"
proof -
  let ?ns = "tx_nullifiers (body_txs (bl_body b))"
  obtain newRoot where parent: "uint (nullifierRoot parent) = fst (getRootNode (nd_trees nd) nt)"
    and new: "dryRunNullify (nd_trees nd) nt (map nat ?ns) = Ok newRoot"
    using calls by (auto simp: validateNullifierTree_def tree Let_def)
  have "newRoot = uint (nullifierRoot (bl_header b))"
  proof (rule ccontr)
    assume "newRoot \<noteq> uint (nullifierRoot (bl_header b))"
    then obtain siblings where eq: "calls = [NullifierRollUp_call (length siblings) siblings]"
      using calls new by (auto simp: validateNullifierTree_def tree Let_def)
    then obtain r where batch: "smt_batchFill (hasher_of 0 pn (nl_depth nt)) (fst (getRootNode (nd_trees nd) nt))
        (map nat ?ns) (map (map uint) siblings) = Ok r"
      using pass by (auto simp: validateNullifierRollUp_def Let_def hasher parent)
    obtain n ns where ns: "?ns = n # ns" using some by (cases ?ns) auto
    with batch obtain sibs r' where fill:
      "smt_fill (hasher_of 0 pn (nl_depth nt)) (fst (getRootNode (nd_trees nd) nt)) (nat n) sibs = Ok r'"
      by (cases siblings) (auto simp: smt_batchFill_def)
    have root: "fst (getRootNode (nd_trees nd) nt) = mnode pn (used_leaf S) (nl_depth nt) 0"
      using inv by (simp add: nl_inv_def)
    have small: "nat n < 2 ^ nl_depth nt" using range ns by (simp add: nat_less_iff)
    have "used_leaf S (nat n) = NON_EXISBN"
      using smt_fill_sound [where h = "hasher_of 0 pn (nl_depth nt)", unfolded parentOf_hasher_of,
        OF inj standard.preHash_length small root fill] by blast
    then show False using EXISBN_distinct by (auto simp: used_leaf_def split: if_splits)
  qed
  with new show ?thesis by simp
qed

section \<open>Accepted blocks\<close>

lemma hashes_untracked: "map lf_hash (untracked items) = map lf_hash items"
  by (simp add: untracked_def)

lemma getGrovePatch_parts:
  assumes "getGrovePatch L db b = Ok patch"
  obtains ds ws where "getDeposits db (massDeposits (bl_body b)) = Ok ds"
    and "map_result (outflow_withdrawal L ''Withdrawal should have public data'')
      (withdrawal_outflows (body_txs (bl_body b))) = Ok ws"
    and "map lf_hash (gp_utxos patch) = block_utxos ds b"
    and "map lf_hash (gp_withdrawals patch) = map (\<lambda>(_, h). uint h) ws"
    and "gp_nullifiers patch = map nat (tx_nullifiers (body_txs (bl_body b)))"
  using assms by (auto simp: getGrovePatch_def Let_def block_utxos_def comp_def case_prod_beta)

lemma dry_index:
  assumes hist: "tree_history (hasher_of 0 p (lt_depth t)) 0 sync f T t db"
    and room: "latestLeafIndex t + sz * ceil_div (length items) sz \<le> 2 ^ lt_depth t" and sz: "0 < sz"
  shows "td_index (dryAppend t items) + sz * ceil_div (length items) sz - length items =
    latestLeafIndex t + sz * ceil_div (length items) sz"
proof -
  have ge: "length items \<le> sz * ceil_div (length items) sz" by (rule ceil_div_mult_ge [OF sz])
  with room have "latestLeafIndex t + length items \<le> 2 ^ lt_depth t" by simp
  from dryAppend_represents [OF history_facts(1,3) [OF hist] this] ge show ?thesis by simp
qed

text \<open>
  The trees after the patch, from the dry run of the patch and the checks of the two append-only trees.
\<close>

lemma accepted_trees:
  assumes inv: "grove_inv pu pw pn (nd_grove nd) ut wt nt (nd_trees nd) fu Tu fw Tw S"
    and sizes: "utxo_sizes_ok pu nd ut" "withdrawal_sizes_ok pw nd wt"
    and groups: "\<And>g. g \<in> {validateUtxoTree nd b parent, validateWithdrawalTree nd parent} \<Longrightarrow>
      \<exists>calls. g = Ok calls \<and> (\<forall>c\<in>set calls. \<exists>v. offchain (nd_layer2 nd) b parent c = Ok v \<and> \<not> slashable v)"
    and patch: "getGrovePatch (la_lib (nd_layer2 nd)) (la_db (nd_layer2 nd)) b = Ok patch"
    and run: "applyGrovePatch (nd_trees nd) ur wr ((nd_grove nd)\<lparr>gr_treeCache := c\<rparr>) patch = Ok (g', ops)"
  shows "\<exists>ut' wt' nt' r. gr_utxoTree g' = Some ut' \<and> gr_withdrawalTree g' = Some wt' \<and>
    gr_nullifierTree g' = Some nt' \<and> nl_rootNode nt' = Some r \<and>
    uint (utxoRoot (bl_header b)) = lt_root ut' \<and> uint (utxoIndex (bl_header b)) = int (latestLeafIndex ut') \<and>
    uint (withdrawalRoot (bl_header b)) = lt_root wt' \<and>
    uint (withdrawalIndex (bl_header b)) = int (latestLeafIndex wt') \<and>
    dryRunNullify (nd_trees nd) nt (map nat (tx_nullifiers (body_txs (bl_body b)))) = Ok r"
proof -
  note parts = inv [unfolded grove_inv_def]
  have hu: "tree_history (hasher_of 0 pu (lt_depth ut)) 0 (gc_fullSync (gr_config (nd_grove nd))) fu Tu ut (nd_trees nd)"
    and hw: "tree_history (hasher_of 0 pw (lt_depth wt)) 0 (gc_fullSync (gr_config (nd_grove nd))) fw Tw wt (nd_trees nd)"
    and trees: "gr_utxoTree (nd_grove nd) = Some ut" "gr_withdrawalTree (nd_grove nd) = Some wt"
      "gr_nullifierTree (nd_grove nd) = Some nt"
    using parts by simp_all
  from getGrovePatch_parts [OF patch] obtain ds ws where
    ds: "getDeposits (la_db (nd_layer2 nd)) (massDeposits (bl_body b)) = Ok ds"
    and ws: "map_result (outflow_withdrawal (la_lib (nd_layer2 nd)) ''Withdrawal should have public data'')
      (withdrawal_outflows (body_txs (bl_body b))) = Ok ws"
    and gp: "map lf_hash (untracked (gp_utxos patch)) = block_utxos ds b"
      "map lf_hash (untracked (gp_withdrawals patch)) = map (\<lambda>(_, h). uint h) ws"
      "gp_nullifiers patch = map nat (tx_nullifiers (body_txs (bl_body b)))"
    unfolding hashes_untracked by metis
  obtain ucalls where "validateUtxoTree nd b parent = Ok ucalls"
    "\<forall>c\<in>set ucalls. \<exists>v. offchain (nd_layer2 nd) b parent c = Ok v \<and> \<not> slashable v"
    using groups [of "validateUtxoTree nd b parent"] by auto
  note u = utxo_accepted [OF hu sizes(1) trees(1) ds this gp(1)]
  obtain wcalls where "validateWithdrawalTree nd parent = Ok wcalls"
    "\<forall>c\<in>set wcalls. \<exists>v. offchain (nd_layer2 nd) b parent c = Ok v \<and> \<not> slashable v"
    using groups [of "validateWithdrawalTree nd parent"] by auto
  note w = withdrawal_accepted [OF hw sizes(2) trees(2) this ws gp(2)]
  have inv': "grove_inv pu pw pn ((nd_grove nd)\<lparr>gr_treeCache := c\<rparr>) ut wt nt (nd_trees nd) fu Tu fw Tw S"
    using inv by (simp add: grove_inv_def)
  have same: "dryPatch (nd_trees nd) ((nd_grove nd)\<lparr>gr_treeCache := c\<rparr>) patch = dryPatch (nd_trees nd) (nd_grove nd) patch"
  proof -
    have "gr_utxoTree ((nd_grove nd)\<lparr>gr_treeCache := c\<rparr>) = gr_utxoTree (nd_grove nd)"
      "gr_withdrawalTree ((nd_grove nd)\<lparr>gr_treeCache := c\<rparr>) = gr_withdrawalTree (nd_grove nd)"
      "gr_nullifierTree ((nd_grove nd)\<lparr>gr_treeCache := c\<rparr>) = gr_nullifierTree (nd_grove nd)"
      "gr_config ((nd_grove nd)\<lparr>gr_treeCache := c\<rparr>) = gr_config (nd_grove nd)" by simp_all
    then show ?thesis unfolding dryPatch_def by (simp only:)
  qed
  from dryPatch_of_patch [OF inv' run, unfolded same] obtain ut' wt' nt' r where
    after: "gr_utxoTree g' = Some ut'" "gr_withdrawalTree g' = Some wt'" "gr_nullifierTree g' = Some nt'" "nl_rootNode nt' = Some r"
    and dry: "dryPatch (nd_trees nd) (nd_grove nd) patch = Ok \<lparr>gs_utxoTreeIndex = latestLeafIndex ut', gs_utxoTreeRoot = lt_root ut',
      gs_withdrawalTreeIndex = latestLeafIndex wt', gs_withdrawalTreeRoot = lt_root wt',
      gs_nullifierTreeRoot = Some r\<rparr>" by blast
  have sz: "gc_utxoSubTreeSize (gr_config (nd_grove nd)) = 2 ^ cf_utxoSubTreeDepth (la_config (nd_layer2 nd))"
    "gc_withdrawalSubTreeSize (gr_config (nd_grove nd)) = 2 ^ cf_withdrawalSubTreeDepth (la_config (nd_layer2 nd))"
    using sizes by (simp_all add: utxo_sizes_ok_def withdrawal_sizes_ok_def Let_def)
  have lens: "length (untracked (gp_utxos patch)) = length (gp_utxos patch)"
    "length (untracked (gp_withdrawals patch)) = length (gp_withdrawals patch)" by (simp_all add: untracked_def)
  have "lt_root ut' = td_root (dryAppend ut (untracked (gp_utxos patch)))"
    "lt_root wt' = td_root (dryAppend wt (untracked (gp_withdrawals patch)))"
    "latestLeafIndex ut' = latestLeafIndex ut + 2 ^ cf_utxoSubTreeDepth (la_config (nd_layer2 nd)) *
      ceil_div (length (gp_utxos patch)) (2 ^ cf_utxoSubTreeDepth (la_config (nd_layer2 nd)))"
    "latestLeafIndex wt' = latestLeafIndex wt + 2 ^ cf_withdrawalSubTreeDepth (la_config (nd_layer2 nd)) *
      ceil_div (length (gp_withdrawals patch)) (2 ^ cf_withdrawalSubTreeDepth (la_config (nd_layer2 nd)))"
    "dryRunNullify (nd_trees nd) nt (map nat (tx_nullifiers (body_txs (bl_body b)))) = Ok r"
    using dry dry_index [OF hu u(3)] dry_index [OF hw w(3)]
    by (auto simp: dryPatch_def trees Let_def sz gp(3) lens)
  with after u(1,2) w(1,2) show ?thesis by (simp add: lens)
qed

section \<open>Properties\<close>

lemma full_groups_pass:
  assumes "full_validate onchain nd parent b = Ok v" and "\<not> slashable v" and "g \<in> set (full_groups nd parent b)"
  shows "\<exists>calls. g = Ok calls \<and> (\<forall>c\<in>set calls. \<exists>v. offchain (nd_layer2 nd) b parent c = Ok v \<and> \<not> slashable v)"
  using full.decide_passes [OF assms(1) [unfolded full_validate_def] assms(2,3)] .

lemma full_validate_trees:
  assumes inv: "grove_inv pu pw pn (nd_grove nd) ut wt nt (nd_trees nd) fu Tu fw Tw S"
    and sizes: "utxo_sizes_ok pu nd ut" "withdrawal_sizes_ok pw nd wt"
      "la_nullifierHasher (nd_layer2 nd) = hasher_of 0 pn (nl_depth nt)"
    and inj: "\<And>a b a' b'. pn a b = pn a' b' \<Longrightarrow> a = a' \<and> b = b'"
    and range: "\<forall>n \<in> set (tx_nullifiers (body_txs (bl_body b))). 0 \<le> n \<and> n < 2 ^ nl_depth nt"
    and accepted: "full_validate onchain nd parent b = Ok v" "\<not> slashable v"
    and patch: "getGrovePatch (la_lib (nd_layer2 nd)) (la_db (nd_layer2 nd)) b = Ok patch"
    and run: "applyGrovePatch (nd_trees nd) ur wr ((nd_grove nd)\<lparr>gr_treeCache := c\<rparr>) patch = Ok (g', ops)"
  shows "\<exists>ut' wt' nt' r. gr_utxoTree g' = Some ut' \<and> gr_withdrawalTree g' = Some wt' \<and>
    gr_nullifierTree g' = Some nt' \<and> nl_rootNode nt' = Some r \<and>
    uint (utxoRoot (bl_header b)) = lt_root ut' \<and> uint (utxoIndex (bl_header b)) = int (latestLeafIndex ut') \<and>
    uint (withdrawalRoot (bl_header b)) = lt_root wt' \<and>
    uint (withdrawalIndex (bl_header b)) = int (latestLeafIndex wt') \<and>
    (tx_nullifiers (body_txs (bl_body b)) \<noteq> [] \<longrightarrow> uint (nullifierRoot (bl_header b)) = r)"
proof -
  note pass = full_groups_pass [OF accepted]
  have nl: "nl_inv pn nt (nd_trees nd) S" "gr_nullifierTree (nd_grove nd) = Some nt"
    using inv by (simp_all add: grove_inv_def)
  obtain calls where calls: "validateNullifierTree nd b parent = Ok calls"
    "\<forall>c\<in>set calls. \<exists>v. offchain (nd_layer2 nd) b parent c = Ok v \<and> \<not> slashable v"
    using pass [of "validateNullifierTree nd b parent"] by (auto simp: full_groups_def)
  have groups: "\<exists>calls. g = Ok calls \<and> (\<forall>c\<in>set calls. \<exists>v. offchain (nd_layer2 nd) b parent c = Ok v \<and> \<not> slashable v)"
    if "g \<in> {validateUtxoTree nd b parent, validateWithdrawalTree nd parent}" for g
    using pass [of g] that by (auto simp: full_groups_def)
  from accepted_trees [OF inv sizes(1,2) groups patch run] obtain ut' wt' nt' r where
    trees: "gr_utxoTree g' = Some ut'" "gr_withdrawalTree g' = Some wt'" "gr_nullifierTree g' = Some nt'" "nl_rootNode nt' = Some r"
    "uint (utxoRoot (bl_header b)) = lt_root ut'" "uint (utxoIndex (bl_header b)) = int (latestLeafIndex ut')"
    "uint (withdrawalRoot (bl_header b)) = lt_root wt'" "uint (withdrawalIndex (bl_header b)) = int (latestLeafIndex wt')"
    and dry: "dryRunNullify (nd_trees nd) nt (map nat (tx_nullifiers (body_txs (bl_body b)))) = Ok r"
    by blast
  have "uint (nullifierRoot (bl_header b)) = r" if "tx_nullifiers (body_txs (bl_body b)) \<noteq> []"
    using nullifiers_accepted [OF inj nl sizes(3) that range calls] dry by simp
  with trees show ?thesis by blast
qed

text \<open>C22: full validation is sound. When a full node whose trees are consistent does not slash a block,
  whatever the contracts answer, then after the patch of the block is applied the roots and indices of
  the UTXO tree and of the withdrawal tree are those of its header, and so is the root of the nullifier
  tree if the block spends anything. For a block that spends nothing the stated nullifier root is not
  checked: the comparison for this case is inverted. The hash of the nullifier tree is collision-free and
  the nullifiers are leaves of the tree.\<close>

theorem full_validate_sound:
  assumes inv: "grove_inv pu pw pn (nd_grove nd) ut wt nt (nd_trees nd) fu Tu fw Tw S"
    and sizes: "utxo_sizes_ok pu nd ut" "withdrawal_sizes_ok pw nd wt"
      "la_nullifierHasher (nd_layer2 nd) = hasher_of 0 pn (nl_depth nt)"
    and inj: "\<And>a b a' b'. pn a b = pn a' b' \<Longrightarrow> a = a' \<and> b = b'"
    and range: "\<forall>n \<in> set (tx_nullifiers (body_txs (bl_body b))). 0 \<le> n \<and> n < 2 ^ nl_depth nt"
    and accepted: "full_validate onchain nd parent b = Ok v" "\<not> slashable v"
    and patch: "getGrovePatch (la_lib (nd_layer2 nd)) (la_db (nd_layer2 nd)) b = Ok patch"
    and run: "applyGrovePatch (nd_trees nd) ur wr (nd_grove nd) patch = Ok (g', ops)"
  shows "\<exists>ut' wt' nt' r. gr_utxoTree g' = Some ut' \<and> gr_withdrawalTree g' = Some wt' \<and>
    gr_nullifierTree g' = Some nt' \<and> nl_rootNode nt' = Some r \<and>
    uint (utxoRoot (bl_header b)) = lt_root ut' \<and> uint (utxoIndex (bl_header b)) = int (latestLeafIndex ut') \<and>
    uint (withdrawalRoot (bl_header b)) = lt_root wt' \<and>
    uint (withdrawalIndex (bl_header b)) = int (latestLeafIndex wt') \<and>
    (tx_nullifiers (body_txs (bl_body b)) \<noteq> [] \<longrightarrow> uint (nullifierRoot (bl_header b)) = r)"
proof -
  have "applyGrovePatch (nd_trees nd) ur wr ((nd_grove nd)\<lparr>gr_treeCache := gr_treeCache (nd_grove nd)\<rparr>) patch = Ok (g', ops)"
    by (simp add: run)
  from full_validate_trees [OF inv sizes inj range accepted patch this] show ?thesis .
qed

text \<open>C23: no block with a mass migration is accepted. The check for duplicates compares every mass
  migration with itself, so that the full and the light validator slash the block, whatever it holds and
  whatever the contracts answer, unless the validation ends in an error.\<close>

theorem mass_migrations_slashed:
  assumes "massMigrations (bl_body b) \<noteq> []"
  shows "(\<forall>v. full_validate onchain nd parent b = Ok v \<longrightarrow> slashable v) \<and>
    (\<forall>v. light_validate onchain nd parent b = Ok v \<longrightarrow> slashable v)"
  using full.slashes_mass_migrations [OF _ _ assms, of "nd_layer2 nd" parent onchain "full_groups nd parent b"]
    light.slashes_mass_migrations [OF _ _ assms, of "nd_layer2 nd" parent onchain "light_groups nd parent b"]
  by (simp add: full_validate_def light_validate_def full_groups_def light_groups_def)

lemma light_runs:
  assumes off: "\<And>g. g \<in> set groups \<Longrightarrow> \<exists>calls. g = Ok calls \<and> (\<forall>c\<in>set calls. \<exists>v. off c = Ok v)"
    and on: "\<And>c. \<exists>v. on c = Ok v"
  shows "\<exists>v. decide (execute_light off on) groups = Ok v"
proof -
  have run: "\<exists>v. execute_light off on calls = Ok v" if "\<forall>c\<in>set calls. \<exists>v. off c = Ok v" for calls
  proof -
    from map_result_all [of calls off "\<lambda>_. True"] that obtain rs where "map_result off calls = Ok rs" by auto
    moreover have "\<exists>v. bind_result (on c) (\<lambda>_. Ok w) = Ok v" for c and w :: validation using on [of c] by auto
    ultimately show ?thesis by (auto simp: execute_light_def split: option.splits)
  qed
  have "\<forall>g\<in>set groups. \<exists>calls. g = Ok calls \<and> (\<forall>c\<in>set calls. \<exists>v. off c = Ok v)" using off by blast
  from map_result_self [OF this] obtain css where css: "map_result (\<lambda>g. g) groups = Ok css"
    "\<forall>calls\<in>set css. \<forall>c\<in>set calls. \<exists>v. off c = Ok v" by blast
  with run map_result_all [of css "execute_light off on" "\<lambda>_. True"] show ?thesis
    by (auto simp: decide_def)
qed

section \<open>Witnesses\<close>

text \<open>
  A full node with empty trees of depth 2 (1 for nullifiers), toy hash functions, and a block with one
  transaction that spends the nullifier 1 and makes the note 5.
\<close>


definition demo_pair :: "int \<Rightarrow> int \<Rightarrow> int" where
  "demo_pair a b = int (prod_encode (int_encode a, int_encode b))"

definition demo_hash :: "int \<Rightarrow> int \<Rightarrow> int" where "demo_hash a b = (a + 2 * b) mod 1009"

definition demo_config :: "int grove_config" where
  "demo_config = \<lparr>gc_utxoTreeDepth = 2, gc_withdrawalTreeDepth = 2, gc_nullifierTreeDepth = 1,
     gc_utxoSubTreeSize = 2, gc_withdrawalSubTreeSize = 2, gc_utxoHasher = hasher_of 0 demo_hash 2,
     gc_withdrawalHasher = hasher_of 0 demo_hash 2, gc_nullifierHasher = hasher_of 0 demo_pair 1,
     gc_fullSync = True, gc_forceUpdate = True, gc_zkAddressesToObserve = [], gc_addressesToObserve = []\<rparr>"

definition demo_db :: "int tree_db" where
  "demo_db = \<lparr>tree_nodes = Map.empty, light_rows = Map.empty, bootstrap_rows = [], block_rows = []\<rparr>"

definition demo_tree :: "string \<Rightarrow> nat \<Rightarrow> int light_tree" where
  "demo_tree i species = tree_from i species (genesis_row (hasher_of 0 demo_hash 2))
     (grove_tree_config demo_config (hasher_of 0 demo_hash 2))"

definition demo_smt :: "int nullifier_tree" where
  "demo_smt = \<lparr>nl_depth = 1, nl_hasher = hasher_of 0 demo_pair 1, nl_rootNode = None\<rparr>"

definition demo_grove :: "int grove" where
  "demo_grove = \<lparr>gr_config = demo_config, gr_utxoTree = Some (demo_tree ''utxo'' SPECIES_UTXO),
     gr_withdrawalTree = Some (demo_tree ''withdrawal'' SPECIES_WITHDRAWAL),
     gr_nullifierTree = Some demo_smt, gr_treeCache = new_tree_cache\<rparr>"

definition demo_parent :: header where
  "demo_parent = \<lparr>proposer = 0, parentBlock = 0, hd_fee = 0, utxoRoot = 0, utxoIndex = 0, nullifierRoot = 0,
     withdrawalRoot = 0, withdrawalIndex = 0, txRoot = 0, depositRoot = 0, migrationRoot = 0\<rparr>"

definition demo_tx :: zk_tx where
  "demo_tx = (new_ZkTx [\<lparr>in_nullifier = 1, in_root = 0\<rparr>] [\<lparr>out_note = 5, out_type = UTXO, out_data = None\<rparr>]
     3 (Some \<lparr>pi_a = [], pi_b = [], pi_c = []\<rparr>) None None)\<lparr>cache_hash := Some 0\<rparr>"

definition demo_block :: block where
  "demo_block = \<lparr>bl_hash = 0, bl_verified = None, bl_slashed = None,
     bl_header = demo_parent\<lparr>hd_fee := 3, utxoRoot := 5, utxoIndex := 2, nullifierRoot := 3\<rparr>,
     bl_body = \<lparr>body_txs = [demo_tx], massDeposits = [], massMigrations = []\<rparr>, bl_bootstrap = None\<rparr>"

definition demo_l2_db :: l2_db where
  "demo_l2_db = \<lparr>l2_MassDeposit = [], l2_Deposit = [], l2_Proposal = [], l2_Header = [(0, demo_parent)], l2_Block = [0],
     l2_Slash = [], l2_TokenRegistry = [], l2_Utxo = [], l2_Withdrawal = [],
     l2_InstantWithdrawal = [], l2_Tx = [], l2_PendingTx = [],
     l2_PendingDeposit = []\<rparr>"

definition demo_layer2 :: layer2 where
  "demo_layer2 = \<lparr>la_config = \<lparr>cf_utxoTreeDepth = 2, cf_utxoSubTreeDepth = 1, cf_utxoSubTreeSize = 2,
       cf_withdrawalTreeDepth = 2, cf_withdrawalSubTreeDepth = 1, cf_withdrawalSubTreeSize = 2,
       cf_nullifierTreeDepth = 1, cf_referenceDepth = 1\<rparr>,
     la_db = demo_l2_db, 
     la_lib = \<lparr>lib_keccak = \<lambda>_. 0, lib_soltypes = \<lambda>_ _. Ok 0, lib_encodeSignature = \<lambda>_. [],
       lib_decodeFirst = \<lambda>_ xs. Ok xs, lib_parseTx = \<lambda>_. Ok [], lib_hash_str = \<lambda>_. [], lib_dec_str = \<lambda>_. [],
       lib_addr_str = \<lambda>_. [], lib_addr_of = \<lambda>_. 0\<rparr>,
     la_sol = \<lparr>sol_address = \<lambda>x. Ok (word_of_int x), sol_uint256 = \<lambda>x. Ok (word_of_int x), sol_empty = Ok 0,
       sha3_pair = \<lambda>_ _. 0, sha3_first = \<lambda>_. 0\<rparr>,
     la_hasVK = \<lambda>_ _. True, la_verifyTx = \<lambda>_. True, la_utxoHasher = hasher_of 0 demo_hash 2,
     la_withdrawalHasher = hasher_of 0 demo_hash 2, la_nullifierHasher = hasher_of 0 demo_pair 1\<rparr>"

definition demo_node :: node where
  "demo_node = \<lparr>nd_layer2 = demo_layer2, nd_grove = demo_grove, nd_trees = demo_db, nd_treeIds = []\<rparr>"

lemma demo_header: "bl_header demo_block = demo_parent\<lparr>hd_fee := 3, utxoRoot := 5, utxoIndex := 2, nullifierRoot := 3\<rparr>"
  by (simp add: demo_block_def)

lemma demo_body: "body_txs (bl_body demo_block) = [demo_tx]" "massDeposits (bl_body demo_block) = []" "massMigrations (bl_body demo_block) = []"
  by (simp_all add: demo_block_def)

lemma hashes_root_small: "hashes_root sha z [] = z" "hashes_root sha z [h] = h"
  by (subst hashes_root.simps, simp)+

lemma demo_node_layer2: "nd_layer2 demo_node = demo_layer2" "nd_grove demo_node = demo_grove"
   "nd_trees demo_node = demo_db" "nd_treeIds demo_node = []"
  by (simp_all add: demo_node_def)

lemma demo_deposit_root: "validateDepositRoot demo_layer2 demo_block = Ok (slash_if False H1)"
  by (simp add: validateDepositRoot_def demo_header demo_body words_root_def demo_layer2_def hashes_root_small demo_parent_def)

lemma demo_migration_root: "validateMigrationRoot demo_layer2 demo_block = Ok (slash_if False H3)"
  by (simp add: validateMigrationRoot_def demo_header demo_body words_root_def demo_layer2_def hashes_root_small demo_parent_def)

lemma demo_tx_root: "validateTxRoot demo_layer2 demo_block = Ok (slash_if False H2)"
  by (simp add: validateTxRoot_def demo_header demo_body words_root_def demo_layer2_def hashes_root_small demo_parent_def tx_hashes_def zkTx_hash_def demo_tx_def new_ZkTx_def)

lemma demo_total_fee: "validateTotalFee demo_block = Ok (slash_if False H4)"
  by (simp add: validateTotalFee_def demo_header demo_body demo_tx_def new_ZkTx_def)

lemma demo_prev_header: "prev_header_ok demo_layer2 demo_block demo_parent = Ok ()"
  by (simp add: prev_header_ok_def demo_header demo_layer2_def headerHash_def demo_parent_def)

lemma demo_deposits: "deposits_ok demo_layer2 demo_block [] = Ok ()"
  by (simp add: deposits_ok_def checkSubmittedDeposits_def demo_body)

lemma demo_leaves: "utxo_notes [demo_tx] = [5]" "withdrawal_outflows [demo_tx] = []" "tx_nullifiers [demo_tx] = [1]"
  by (simp_all add: utxo_notes_def withdrawal_outflows_def tx_nullifiers_def demo_tx_def new_ZkTx_def outflow_types)

lemma demo_utxo_index: "validateUTXOIndex demo_layer2 demo_block demo_parent [] = Ok (slash_if False U1)"
  unfolding validateUTXOIndex_def demo_deposits demo_prev_header bind_result.simps
  by (simp add: demo_header demo_body demo_leaves demo_layer2_def demo_parent_def Let_def ceil_div_def)

lemma demo_utxo_root: "validateUTXORoot demo_layer2 demo_block demo_parent [] [0] = Ok (slash_if False U3)"
  unfolding validateUTXORoot_def demo_deposits demo_prev_header bind_result.simps demo_header demo_body demo_leaves
  by (simp add: demo_layer2_def demo_parent_def Let_def ff_valid_def FP_ORDER_def) code_simp

lemma demo_withdrawal_index: "validateWithdrawalIndex demo_layer2 demo_block demo_parent = Ok (slash_if False W1)"
  unfolding validateWithdrawalIndex_def demo_prev_header bind_result.simps
  by (simp add: demo_header demo_body demo_leaves demo_layer2_def demo_parent_def Let_def)

lemma demo_withdrawal_root: "validateWithdrawalRoot demo_layer2 demo_block demo_parent [0] = Ok (slash_if False W3)"
  unfolding validateWithdrawalRoot_def demo_prev_header bind_result.simps demo_header demo_body demo_leaves
  by (simp add: demo_layer2_def demo_parent_def Let_def) code_simp

lemma demo_block_tx: "block_tx demo_block 0 = Ok demo_tx"
  by (simp add: block_tx_def demo_body)

lemma demo_inclusion: "validateInclusion demo_layer2 demo_block 0 0 = Ok (slash_if False T1)"
  by (simp add: validateInclusion_def demo_block_tx isValidRef_def demo_layer2_def demo_l2_db_def headerHash_def demo_tx_def
    new_ZkTx_def fp_word_def demo_parent_def)

lemma demo_outflow: "validateOutflow demo_layer2 demo_block 0 = Ok not_slashable"
  by (simp add: validateOutflow_def demo_block_tx demo_tx_def new_ZkTx_def outflow_reason_def UTXO_def empty_data_def)

lemma demo_duplicated: "validateDuplicatedNullifier demo_block 0 = Ok not_slashable"
  by (simp add: validateDuplicatedNullifier_def demo_body demo_leaves)

lemma demo_snark: "validateSNARK demo_layer2 demo_block 0 = Ok (slash_if False S2)"
  by (simp add: validateSNARK_def demo_block_tx demo_layer2_def)

lemma demo_nullifier_calls: "validateNullifierTree demo_node demo_block demo_parent = Ok []"
  unfolding validateNullifierTree_def
  by (simp add: demo_node_def demo_grove_def demo_header demo_body demo_leaves demo_parent_def) code_simp

lemma demo_trees: "gr_utxoTree demo_grove = Some (demo_tree ''utxo'' SPECIES_UTXO)"
  "gr_withdrawalTree demo_grove = Some (demo_tree ''withdrawal'' SPECIES_WITHDRAWAL)"
  "gr_nullifierTree demo_grove = Some demo_smt"
  by (simp_all add: demo_grove_def)

lemma demo_start: "getStartingLeafProof (demo_tree i sp) = \<lparr>td_root = 0, td_index = 0, td_siblings = [0, 0]\<rparr>"
  unfolding demo_tree_def demo_config_def by code_simp

lemma demo_utxo_calls: "validateUtxoTree demo_node demo_block demo_parent = Ok [UTXOIndex_call [], UTXORoot_call [] [0]]"
  by (simp add: validateUtxoTree_def demo_node_layer2 demo_trees demo_start demo_body demo_parent_def fp_word_def
     getDeposits_def order_asc_def demo_layer2_def demo_l2_db_def)

lemma demo_withdrawal_calls: "validateWithdrawalTree demo_node demo_parent = Ok [WithdrawalIndex_call, WithdrawalRoot_call [0]]"
  by (simp add: validateWithdrawalTree_def demo_node_layer2 demo_trees demo_start demo_parent_def demo_layer2_def)

lemma demo_tx_calls: "validateTx demo_node demo_block demo_parent = Ok [Inclusion_call 0 0, Outflow_call 0, DuplicatedNullifier_call 0, SNARK_call 0]"
  by (simp add: validateTx_def demo_body demo_tx_def new_ZkTx_def used_nullifier_call_def demo_node_def demo_grove_def findUsedNullifier_def)

lemma demo_migration_calls: "validateMassMigration demo_block = [MissedMassMigration_call 0 0]"
  by (simp add: validateMassMigration_def demo_body demo_tx_def new_ZkTx_def)

lemma demo_missed_migration: "validateMissedMassMigration demo_block 0 0 = Ok (slash_if False M7)"
  by (simp add: validateMissedMassMigration_def demo_block_tx demo_tx_def new_ZkTx_def outflow_types)

lemma demo_accepted: "full_validate (\<lambda>_. Ok not_slashable) demo_node demo_parent demo_block = Ok not_slashable"
  unfolding full_validate_def
  by (rule full.decide_accepts)
    (auto simp: full_groups_def validateHeader_def validateMassDeposits_def demo_body demo_migration_calls demo_nullifier_calls demo_utxo_calls demo_withdrawal_calls demo_tx_calls
      demo_deposit_root demo_migration_root demo_tx_root demo_total_fee demo_utxo_index demo_utxo_root demo_withdrawal_index demo_withdrawal_root demo_inclusion demo_outflow demo_duplicated demo_snark demo_missed_migration demo_node_layer2)

lemma demo_pair_inj: "demo_pair a b = demo_pair a' b' \<Longrightarrow> a = a' \<and> b = b'"
  by (simp add: demo_pair_def prod_encode_eq int_encode_eq)

lemma demo_inv:
  "grove_inv demo_hash demo_hash demo_pair (nd_grove demo_node) (demo_tree ''utxo'' SPECIES_UTXO)
     (demo_tree ''withdrawal'' SPECIES_WITHDRAWAL) demo_smt (nd_trees demo_node) (\<lambda>_. 0) UNIV (\<lambda>_. 0) UNIV {}"
proof -
  have nodes: "tree_nodes demo_db k = None" for k by (simp add: demo_db_def)
  note hist = genesis_tree_history [OF demo_tree_def nodes]
  have "nl_inv demo_pair demo_smt demo_db {}"
    by (rule nl_inv_empty) (simp_all add: demo_smt_def nodes)
  then show ?thesis
    using hist [of "''utxo''" SPECIES_UTXO] hist [of "''withdrawal''" SPECIES_WITHDRAWAL]
    by (simp add: grove_inv_def demo_node_layer2 demo_trees NULLIFIER_TREE_ID_def) (simp add: demo_grove_def demo_config_def)
qed

lemma demo_depth: "lt_depth (demo_tree i sp) = 2"
  using genesis_tree_history [OF demo_tree_def, of demo_db] by (simp add: demo_db_def)

definition demo_patch :: "int grove_patch" where
  "demo_patch = \<lparr>gp_header = Some [], gp_utxos = [\<lparr>lf_hash = 5, lf_shouldTrack = False\<rparr>], gp_withdrawals = [], gp_nullifiers = [1]\<rparr>"

lemma demo_getGrovePatch: "getGrovePatch (la_lib (nd_layer2 demo_node)) (la_db (nd_layer2 demo_node)) demo_block = Ok demo_patch"
  by (simp add: getGrovePatch_def getDeposits_def order_asc_def demo_body demo_leaves demo_node_layer2 demo_layer2_def demo_l2_db_def demo_patch_def)

lemma demo_run: "\<exists>g' ops. applyGrovePatch (nd_trees demo_node) [] [] (nd_grove demo_node) demo_patch = Ok (g', ops)"
proof -
  have "(case applyGrovePatch demo_db [] [] demo_grove demo_patch of Inr _ \<Rightarrow> True | Inl _ \<Rightarrow> False)"
    by code_simp
  then show ?thesis unfolding demo_node_layer2 by (auto split: sum.splits)
qed

theorem full_validate_sound_witness:
  "\<exists>g' ops ut' wt' nt'. full_validate (\<lambda>_. Ok not_slashable) demo_node demo_parent demo_block = Ok not_slashable \<and>
     applyGrovePatch (nd_trees demo_node) [] [] (nd_grove demo_node) demo_patch = Ok (g', ops) \<and>
     gr_utxoTree g' = Some ut' \<and> gr_withdrawalTree g' = Some wt' \<and> gr_nullifierTree g' = Some nt' \<and>
     lt_root ut' = 5 \<and> latestLeafIndex ut' = 2 \<and> lt_root wt' = 0 \<and> nl_rootNode nt' = Some 3"
proof -
  obtain g' ops where run: "applyGrovePatch (nd_trees demo_node) [] [] (nd_grove demo_node) demo_patch = Ok (g', ops)"
    using demo_run by blast
  have sizes: "utxo_sizes_ok demo_hash demo_node (demo_tree ''utxo'' SPECIES_UTXO)"
    "withdrawal_sizes_ok demo_hash demo_node (demo_tree ''withdrawal'' SPECIES_WITHDRAWAL)"
    by (simp_all add: utxo_sizes_ok_def withdrawal_sizes_ok_def demo_node_layer2 demo_depth demo_layer2_def demo_grove_def demo_l2_db_def
        demo_config_def FP_ORDER_def demo_hash_def Let_def) (smt (verit) pos_mod_bound pos_mod_sign)+
  have hasher: "la_nullifierHasher (nd_layer2 demo_node) = hasher_of 0 demo_pair (nl_depth demo_smt)"
    by (simp add: demo_node_layer2 demo_layer2_def demo_smt_def)
  have range: "\<forall>n \<in> set (tx_nullifiers (body_txs (bl_body demo_block))). 0 \<le> n \<and> n < 2 ^ nl_depth demo_smt"
    by (simp add: demo_body demo_leaves demo_smt_def)
  have ok: "\<not> slashable not_slashable" by simp
  from full_validate_sound [OF demo_inv sizes hasher demo_pair_inj range demo_accepted ok demo_getGrovePatch run] run demo_accepted
  show ?thesis by (auto simp: demo_header demo_body demo_leaves demo_parent_def)
qed

definition demo_migration :: mass_migration where
  "demo_migration = \<lparr>mm_destination = 7, mm_asset = \<lparr>ma_eth = 1, ma_token = 0, ma_amount = 0\<rparr>,
     mm_depositForDest = \<lparr>md_merged = 5, md_fee = 0\<rparr>\<rparr>"

definition demo_migration_block :: block where
  "demo_migration_block = demo_block\<lparr>bl_header := demo_parent,
     bl_body := \<lparr>body_txs = [], massDeposits = [], massMigrations = [demo_migration]\<rparr>\<rparr>"

lemma demo_migration_parts:
  "bl_header demo_migration_block = demo_parent"
  "bl_body demo_migration_block = \<lparr>body_txs = [], massDeposits = [], massMigrations = [demo_migration]\<rparr>"
  by (simp_all add: demo_migration_block_def)

lemma demo_migration_indices:
  "validateUTXOIndex demo_layer2 demo_migration_block demo_parent [] = Ok (slash_if False U1)"
  "validateWithdrawalIndex demo_layer2 demo_migration_block demo_parent = Ok (slash_if False W1)"
  by (simp_all add: validateUTXOIndex_def validateWithdrawalIndex_def deposits_ok_def checkSubmittedDeposits_def
      prev_header_ok_def demo_migration_parts demo_layer2_def headerHash_def demo_parent_def Let_def
      utxo_notes_def withdrawal_outflows_def)

lemma demo_migration_roots:
  "validateUTXORoot demo_layer2 demo_migration_block demo_parent [] [0] = Ok (slash_if False U3)"
  "validateWithdrawalRoot demo_layer2 demo_migration_block demo_parent [0] = Ok (slash_if False W3)"
  by (simp add: validateUTXORoot_def deposits_ok_def checkSubmittedDeposits_def prev_header_ok_def
      demo_migration_parts demo_layer2_def headerHash_def demo_parent_def utxo_notes_def ff_valid_def FP_ORDER_def,
      code_simp)
    (simp add: validateWithdrawalRoot_def prev_header_ok_def demo_migration_parts demo_layer2_def headerHash_def
      demo_parent_def withdrawal_outflows_def, code_simp)

lemma demo_migration_light:
  "\<exists>v. light_validate (\<lambda>_. Ok not_slashable) demo_node demo_parent demo_migration_block = Ok v"
proof -
  have g5: "validateUtxoTree demo_node demo_migration_block demo_parent = Ok [UTXOIndex_call [], UTXORoot_call [] [0]]"
    by (simp add: validateUtxoTree_def demo_node_layer2 demo_trees demo_start demo_migration_parts demo_parent_def
        fp_word_def getDeposits_def order_asc_def demo_layer2_def demo_l2_db_def)
  have g7: "validateTx demo_node demo_migration_block demo_parent = Ok []"
    by (simp add: validateTx_def demo_migration_parts)
  have g3: "validateMassMigration demo_migration_block = [DuplicatedMigrations_call 0 0, EthMigration_call 0,
      ERC20Migration_call 0, MergedLeaves_call 0, MigrationFee_call 0, TokenRegistration_call 0]"
    by (simp add: validateMassMigration_def demo_migration_parts)
  have tx: "tx_hashes demo_layer2 [] = Ok []" by (simp add: tx_hashes_def)
  show ?thesis
    unfolding light_validate_def
    by (rule light_runs)
      (auto simp: light_groups_def validateHeader_def validateMassDeposits_def g3 g5 g7 demo_withdrawal_calls
        demo_migration_indices demo_migration_roots demo_migration_parts demo_node_layer2
        validateDepositRoot_def validateMigrationRoot_def validateTxRoot_def tx validateTotalFee_def
        validateDuplicatedMigrations_def validateEthMigration_def validateERC20Migration_def
        validateMergedLeaves_def validateMigrationFee_def validateTokenRegistration_def block_migration_def Let_def)
qed

theorem mass_migrations_slashed_witness:
  "\<exists>v. light_validate (\<lambda>_. Ok not_slashable) demo_node demo_parent demo_migration_block = Ok v \<and> slashable v"
  using mass_migrations_slashed [of demo_migration_block "\<lambda>_. Ok not_slashable" demo_node demo_parent]
    demo_migration_light by (auto simp: demo_migration_parts)

end
