(* ===== verification/Block_Generator.thy ===== *)
theory Block_Generator
  imports Validator_Calls Tx_Pool
begin

text \<open>
  \<open>BlockGenerator\<close> of \<open>packages/coordinator/src/middlewares/default/block-generator.ts\<close>: how a coordinator
  makes the next block from the pending deposits, the transactions it picks from the pool, and a dry run
  on its trees. Hash, size and sort of pool transactions are the parameters of the pool.
\<close>

section \<open>The context\<close>

text \<open>What \<open>CoordinatorContext\<close> holds for the generator; the full node is a value of its own.\<close>

record 'h coordinator =
  co_gasPrice :: "int option"
  co_maxBytes :: int
  co_priceMultiplier :: int
  co_address :: "160 word"
  co_isSynced :: bool
  co_txPool :: "'h tx_pool"

section \<open>Dry runs\<close>

definition generator_patch :: "l2_lib \<Rightarrow> pending_mass_deposits \<Rightarrow> zk_tx list \<Rightarrow> int grove_patch result" where
  "generator_patch L pending txs =
     bind_result (map_result (outflow_withdrawal L ''No withdrawal public data'') (withdrawal_outflows txs))
       (\<lambda>withdrawals. Ok
         \<lparr>gp_header = None,
          gp_utxos = map (\<lambda>hash. \<lparr>lf_hash = hash, lf_shouldTrack = False\<rparr>) (pm_leaves pending @ utxo_notes txs),
          gp_withdrawals = map (\<lambda>(_, hash). \<lparr>lf_hash = uint hash, lf_shouldTrack = False\<rparr>) withdrawals,
          gp_nullifiers = map nat (tx_nullifiers txs)\<rparr>)"

text \<open>The \<open>catch\<close> turns every error into a run that is not ok, here \<open>None\<close>.\<close>

definition dryRun :: "node \<Rightarrow> pending_mass_deposits \<Rightarrow> zk_tx list \<Rightarrow> int grove_snapshot option" where
  "dryRun nd pending txs =
     (case bind_result (generator_patch (la_lib (nd_layer2 nd)) pending txs) (dryPatch (nd_trees nd) (nd_grove nd)) of
        Inl _ \<Rightarrow> None
      | Inr expectedGrove \<Rightarrow> Some expectedGrove)"

text \<open>Transactions that break the dry run of those before them are left out.\<close>

fun checked_txs :: "node \<Rightarrow> pending_mass_deposits \<Rightarrow> zk_tx list \<Rightarrow> zk_tx list \<Rightarrow> zk_tx list" where
  "checked_txs nd pending txs [] = txs"
| "checked_txs nd pending txs (tx # rest) =
     checked_txs nd pending (if dryRun nd pending (txs @ [tx]) = None then txs else txs @ [tx]) rest"

section \<open>The block\<close>

definition aggregated_fee :: "pending_mass_deposits \<Rightarrow> zk_tx list \<Rightarrow> int" where
  "aggregated_fee pending txs =
     fp_add (fp_add 0 (pm_totalFee pending)) (foldl fp_add 0 (map tx_fee txs))"

definition new_header ::
  "layer2 \<Rightarrow> 160 word \<Rightarrow> 256 word \<Rightarrow> int \<Rightarrow> int grove_snapshot \<Rightarrow> int \<Rightarrow> (256 word) list \<Rightarrow> mass_deposit list \<Rightarrow>
   mass_migration list \<Rightarrow> header" where
  "new_header la address latest fee expectedGrove nullifierTreeRoot txHashes mds mms =
     \<lparr>proposer = address, parentBlock = latest, hd_fee = fp_word fee,
      utxoRoot = fp_word (gs_utxoTreeRoot expectedGrove),
      utxoIndex = fp_word (int (gs_utxoTreeIndex expectedGrove)),
      nullifierRoot = word_of_int nullifierTreeRoot,
      withdrawalRoot = word_of_int (gs_withdrawalTreeRoot expectedGrove),
      withdrawalIndex = word_of_int (int (gs_withdrawalTreeIndex expectedGrove)),
      txRoot = words_root la txHashes,
      depositRoot = words_root la (map (massDepositHash (lib_keccak (la_lib la))) mds),
      migrationRoot = words_root la (map (massMigrationHash (lib_keccak (la_lib la))) mms)\<rparr>"

text \<open>From the picked transactions on.\<close>

definition block_of_txs ::
  "node \<Rightarrow> 160 word \<Rightarrow> bool \<Rightarrow> pending_mass_deposits \<Rightarrow> zk_tx list \<Rightarrow> block result" where
  "block_of_txs nd address isSynced pending picked =
     (let la = nd_layer2 nd; txs = checked_txs nd pending [] picked in
      case dryRun nd pending txs of
        None \<Rightarrow> Throw ''Unexpected grove patch failure in block proposal''
      | Some expectedGrove \<Rightarrow>
          bind_result (assert_that isSynced ''Layer 2 chain is not synced yet.'') (\<lambda>_.
          bind_result (latestBlock (la_db la)) (\<lambda>latest.
          bind_result (getMassMigrations (la_sol la) txs) (\<lambda>mms.
          case gs_nullifierTreeRoot expectedGrove of
            None \<Rightarrow> Throw ''Grove does not have the nullifier tree. Use full node option''
          | Some nullifierTreeRoot \<Rightarrow>
              bind_result (tx_hashes la txs) (\<lambda>txHashes.
              let header = new_header la address latest (aggregated_fee pending txs) expectedGrove
                    nullifierTreeRoot txHashes (pm_massDeposits pending) mms in
              Ok \<lparr>bl_hash = headerHash (lib_keccak (la_lib la)) header, bl_verified = None, bl_slashed = None,
                  bl_header = header,
                  bl_body = \<lparr>body_txs = txs, massDeposits = pm_massDeposits pending, massMigrations = mms\<rparr>,
                  bl_bootstrap = None\<rparr>)))))"

definition genBlock ::
  "(zk_tx list \<Rightarrow> zk_tx list) \<Rightarrow> (zk_tx \<Rightarrow> 'h) \<Rightarrow> (zk_tx \<Rightarrow> nat) \<Rightarrow> node \<Rightarrow> 'h coordinator \<Rightarrow>
   block result \<times> 'h coordinator" where
  "genBlock srt hash sz nd c =
     (case co_gasPrice c of
        None \<Rightarrow> (Throw ''coordinator.js: Gas price is not synced'', c)
      | Some gasPrice \<Rightarrow>
          (case getPendingMassDeposits (la_db (nd_layer2 nd)) of
             Inl e \<Rightarrow> (Inl e, c)
           | Inr pending \<Rightarrow>
               let consumedBytes = 32 + pm_calldataSize pending;
                   (picked, txPool) = pickTxs srt hash sz (Some (co_maxBytes c - int consumedBytes))
                     (gasPrice * co_priceMultiplier c) (co_txPool c)
               in (block_of_txs nd (co_address c) (co_isSynced c) pending picked, c\<lparr>co_txPool := txPool\<rparr>)))"

end
