(* ===== verification/Generator_Proofs.thy ===== *)
theory Generator_Proofs
  imports Block_Generator Validator_Soundness "HOL-Library.Multiset"
begin

text \<open>
  The block a coordinator generates passes the validation of nodes that have the same trees and the same
  deposits, as far as this depends on the coordinator: the checks of the header, of the deposits and of
  the three trees.
\<close>

section \<open>Deposits\<close>

text \<open>
  What the synchronisation keeps of the deposits of the first layer: a mass deposit is told by its hash
  and fee, has a deposit, and its fee is that of its deposits.
\<close>

definition deposit_tables_ok :: "l2_db \<Rightarrow> bool" where
  "deposit_tables_ok db \<longleftrightarrow>
     distinct (map mdr_index (l2_MassDeposit db)) \<and>
     distinct (map (\<lambda>r. \<lparr>md_merged = mdr_merged r, md_fee = mdr_fee r\<rparr>) (l2_MassDeposit db)) \<and>
     (\<forall>r\<in>set (l2_MassDeposit db).
        uint (mdr_fee r) = (\<Sum>d\<leftarrow>filter (\<lambda>d. dp_queuedAt d = mdr_index r) (l2_Deposit db). dp_fee d) \<and>
        (\<exists>d\<in>set (l2_Deposit db). dp_queuedAt d = mdr_index r)) \<and>
     (\<forall>d\<in>set (l2_Deposit db). 0 \<le> dp_note d \<and> 0 \<le> dp_fee d)"

lemma sum_list_sort_key: "(\<Sum>x\<leftarrow>sort_key k xs. g x) = (\<Sum>x\<leftarrow>xs. g x :: int)"
  by (metis mset_map mset_sort sum_mset_sum_list)

lemma sum_by_index:
  fixes g :: "'a \<Rightarrow> int"
  assumes "distinct is"
  shows "(\<Sum>i\<leftarrow>is. \<Sum>d\<leftarrow>filter (\<lambda>d. f d = i) ds. g d) = (\<Sum>d\<leftarrow>filter (\<lambda>d. f d \<in> set is) ds. g d)"
  using assms
proof (induction "is")
  case (Cons i "is")
  have "(\<Sum>d\<leftarrow>filter (\<lambda>d. f d = i) ds. g d) + (\<Sum>d\<leftarrow>filter (\<lambda>d. f d \<in> set is) ds. g d) =
      (\<Sum>d\<leftarrow>filter (\<lambda>d. f d \<in> set (i # is)) ds. g d)"
    using Cons.prems by (induction ds) auto
  with Cons show ?case by simp
qed simp

lemma sort_key_eq_Nil [simp]: "sort_key k xs = [] \<longleftrightarrow> xs = []"
  by (metis length_0_conv length_sort)

lemma filter_single: "distinct xs \<Longrightarrow> x \<in> set xs \<Longrightarrow> filter (\<lambda>y. y = x) xs = [x]"
  by (induction xs) (auto simp: filter_empty_conv)

text \<open>The deposits found for the mass deposits of some rows are those queued at the rows.\<close>

lemma getDeposits_of_rows:
  assumes ok: "deposit_tables_ok db"
    and rows: "mset rows = mset (filter P (l2_MassDeposit db))"
  shows "getDeposits db (map (\<lambda>r. \<lparr>md_merged = mdr_merged r, md_fee = mdr_fee r\<rparr>) rows) =
    Ok (sort_key deposit_position (filter (\<lambda>d. dp_queuedAt d \<in> mdr_index ` set rows) (l2_Deposit db)))"
proof -
  let ?md = "\<lambda>r. \<lparr>md_merged = mdr_merged r, md_fee = mdr_fee r\<rparr>"
  have inj: "inj_on ?md (set (l2_MassDeposit db))"
    using ok by (simp add: deposit_tables_ok_def distinct_map)
  have set_rows: "set rows = {r \<in> set (l2_MassDeposit db). P r}"
    using arg_cong [OF rows, of set_mset] by simp
  have same: "filter (\<lambda>r. ?md r \<in> set (map ?md rows)) (l2_MassDeposit db) = filter P (l2_MassDeposit db)"
  proof (rule filter_cong [OF refl])
    fix r assume "r \<in> set (l2_MassDeposit db)"
    with inj set_rows show "?md r \<in> set (map ?md rows) = P r"
      unfolding set_map by (metis (no_types, lifting) inj_on_image_mem_iff mem_Collect_eq subsetI)
  qed
  have "length (filter P (l2_MassDeposit db)) = length rows"
    by (rule mset_eq_length [OF rows [symmetric]])
  then show ?thesis
    unfolding getDeposits_def same using set_rows by (simp add: order_asc_def Let_def image_image)
qed

lemma pending_found:
  assumes ok: "deposit_tables_ok db" and pending: "getPendingMassDeposits db = Ok pending"
  obtains ds where "getDeposits db (pm_massDeposits pending) = Ok ds"
    and "pm_leaves pending = map (\<lambda>d. fp_new (dp_note d)) ds"
    and "pm_totalFee pending = fp_add 0 (foldl (\<lambda>prev d. fp_add prev (dp_fee d)) 0 ds)"
    and "(\<Sum>md\<leftarrow>pm_massDeposits pending. uint (md_fee md)) = (\<Sum>d\<leftarrow>ds. dp_fee d)"
    and "\<And>md. md \<in> set (pm_massDeposits pending) \<Longrightarrow> \<exists>s. getDeposits db [md] = Ok s \<and> s \<noteq> []"
proof -
  let ?md = "\<lambda>r. \<lparr>md_merged = mdr_merged r, md_fee = mdr_fee r\<rparr>"
  define commits where "commits = sort_key mdr_index (filter (\<lambda>r. mdr_includedIn r = None) (l2_MassDeposit db))"
  define ds where "ds = sort_key deposit_position
    (filter (\<lambda>d. dp_queuedAt d \<in> mdr_index ` set commits) (l2_Deposit db))"
  have commits: "mset commits = mset (filter (\<lambda>r. mdr_includedIn r = None) (l2_MassDeposit db))"
    by (simp add: commits_def)
  have sub: "set commits \<subseteq> set (l2_MassDeposit db)" by (auto simp: commits_def)
  have fields: "pm_massDeposits pending = map ?md commits" "pm_leaves pending = map (\<lambda>d. fp_new (dp_note d)) ds"
    "pm_totalFee pending = fp_add 0 (foldl (\<lambda>prev d. fp_add prev (dp_fee d)) 0 ds)"
    using pending by (auto simp: getPendingMassDeposits_def Let_def ds_def commits_def split: if_splits)
  have found: "getDeposits db (pm_massDeposits pending) = Ok ds"
    unfolding fields(1) getDeposits_of_rows [OF ok commits] ds_def ..
  have "distinct (map mdr_index (filter (\<lambda>r. mdr_includedIn r = None) (l2_MassDeposit db)))"
    using ok by (simp add: deposit_tables_ok_def distinct_map_filter)
  then have dist: "distinct (map mdr_index commits)"
    using mset_eq_imp_distinct_iff [of "map mdr_index commits"
        "map mdr_index (filter (\<lambda>r. mdr_includedIn r = None) (l2_MassDeposit db))"]
    unfolding mset_map commits by blast
  have rows: "uint (mdr_fee r) = (\<Sum>d\<leftarrow>filter (\<lambda>d. dp_queuedAt d = mdr_index r) (l2_Deposit db). dp_fee d)"
    "\<exists>d\<in>set (l2_Deposit db). dp_queuedAt d = mdr_index r" if "r \<in> set commits" for r
    using ok that sub by (auto simp: deposit_tables_ok_def)
  have "(\<Sum>md\<leftarrow>pm_massDeposits pending. uint (md_fee md)) = (\<Sum>r\<leftarrow>commits. uint (mdr_fee r))"
    by (simp add: fields(1) comp_def)
  also have "\<dots> = (\<Sum>r\<leftarrow>commits. \<Sum>d\<leftarrow>filter (\<lambda>d. dp_queuedAt d = mdr_index r) (l2_Deposit db). dp_fee d)"
    by (intro arg_cong [of _ _ sum_list] map_cong refl) (use rows(1) in blast)
  also have "\<dots> = (\<Sum>i\<leftarrow>map mdr_index commits. \<Sum>d\<leftarrow>filter (\<lambda>d. dp_queuedAt d = i) (l2_Deposit db). dp_fee d)"
    by (simp add: comp_def)
  also have "\<dots> = (\<Sum>d\<leftarrow>ds. dp_fee d)"
    unfolding sum_by_index [OF dist] ds_def sum_list_sort_key by simp
  finally have fee: "(\<Sum>md\<leftarrow>pm_massDeposits pending. uint (md_fee md)) = (\<Sum>d\<leftarrow>ds. dp_fee d)" .
  have one: "\<exists>s. getDeposits db [md] = Ok s \<and> s \<noteq> []" if md: "md \<in> set (pm_massDeposits pending)" for md
  proof -
    obtain r where r: "r \<in> set commits" "md = ?md r" using md unfolding fields(1) by auto
    have "distinct (l2_MassDeposit db)" using ok by (simp add: deposit_tables_ok_def distinct_map)
    then have "mset [r] = mset (filter (\<lambda>x. x = r) (l2_MassDeposit db))"
      using r(1) sub by (subst filter_single) auto
    from getDeposits_of_rows [OF ok this] rows(2) [OF r(1)] show ?thesis
      by (auto simp: r(2) filter_empty_conv)
  qed
  show ?thesis by (rule that [OF found fields(2,3) fee one])
qed

text \<open>
  What the contract promises of its queue: the deposits of an earlier mass deposit come first, and the hash
  of a mass deposit is that of its deposits, merged one by one in their order. That no shorter run of
  them merges to the same hash is the freeness from collisions that the validators rely on.
\<close>

definition queued_at :: "l2_db \<Rightarrow> nat \<Rightarrow> deposit_row list" where
  "queued_at db i = sort_key deposit_position (filter (\<lambda>d. dp_queuedAt d = i) (l2_Deposit db))"

definition merge_all :: "sol_lib \<Rightarrow> 256 word \<Rightarrow> (256 word) list \<Rightarrow> 256 word" where
  "merge_all L = foldl (sha3_pair L)"

definition leaf_words :: "deposit_row list \<Rightarrow> (256 word) list" where
  "leaf_words = map (\<lambda>d. fp_word (fp_new (dp_note d)))"

definition deposit_queue_ok :: "sol_lib \<Rightarrow> l2_db \<Rightarrow> bool" where
  "deposit_queue_ok L db \<longleftrightarrow>
     (\<forall>d\<in>set (l2_Deposit db). \<forall>d'\<in>set (l2_Deposit db).
        dp_queuedAt d < dp_queuedAt d' \<longrightarrow> deposit_position d < deposit_position d') \<and>
     (\<forall>r\<in>set (l2_MassDeposit db).
        let leaves = leaf_words (queued_at db (mdr_index r)) in
        mdr_merged r = merge_all L 0 leaves \<and>
        (\<forall>k<length leaves. merge_all L 0 (take k leaves) \<noteq> merge_all L 0 leaves))"

lemma merge_until_all:
  assumes "target = merge_all L m leaves" and "\<forall>k<length leaves. merge_all L m (take k leaves) \<noteq> target"
  shows "merge_until L target m (leaves @ rest) = Ok rest"
  using assms
proof (induction leaves arbitrary: m)
  case Nil
  then show ?case by (simp add: merge_until.simps merge_all_def)
next
  case (Cons l leaves)
  have "m \<noteq> target" using Cons.prems(2) by (force simp: merge_all_def)
  moreover have "merge_until L target (sha3_pair L m l) (leaves @ rest) = Ok rest"
  proof (rule Cons.IH)
    show "target = merge_all L (sha3_pair L m l) leaves" using Cons.prems(1) by (simp add: merge_all_def)
    show "\<forall>k<length leaves. merge_all L (sha3_pair L m l) (take k leaves) \<noteq> target"
    proof (intro allI impI)
      fix k assume "k < length leaves"
      with Cons.prems(2) [rule_format, of "Suc k"]
      show "merge_all L (sha3_pair L m l) (take k leaves) \<noteq> target" by (simp add: merge_all_def)
    qed
  qed
  ultimately show ?case using merge_until.simps [of L target m "l # leaves @ rest"] by simp
qed

text \<open>The deposits of several mass deposits in their order are those of one after those of the other.\<close>

lemma queue_mset:
  assumes "distinct is"
  shows "mset (concat (map (queued_at db) is)) = mset (filter (\<lambda>d. dp_queuedAt d \<in> set is) (l2_Deposit db))"
  using assms
proof (induction "is")
  case (Cons i "is")
  have "mset (filter (\<lambda>d. dp_queuedAt d = i) ds) + mset (filter (\<lambda>d. dp_queuedAt d \<in> set is) ds) =
      mset (filter (\<lambda>d. dp_queuedAt d \<in> set (i # is)) ds)" for ds
    using Cons.prems by (induction ds) auto
  with Cons show ?case by (simp add: queued_at_def)
qed simp

lemma queued_at_set: "set (queued_at db i) = {d \<in> set (l2_Deposit db). dp_queuedAt d = i}"
  by (simp add: queued_at_def)

lemma queue_sorted:
  assumes "\<forall>d\<in>set (l2_Deposit db). \<forall>d'\<in>set (l2_Deposit db). dp_queuedAt d < dp_queuedAt d' \<longrightarrow> deposit_position d < deposit_position d'"
    and "sorted is" and "distinct is"
  shows "sorted (map deposit_position (concat (map (queued_at db) is)))"
  using assms(2,3)
proof (induction "is")
  case (Cons i "is")
  have "deposit_position d \<le> deposit_position d'"
    if "d \<in> set (queued_at db i)" "j \<in> set is" "d' \<in> set (queued_at db j)" for d d' j
  proof -
    have "i < j" using Cons.prems that(2) by (auto simp: less_le)
    then show ?thesis using assms(1) that(1,3) by (force simp: queued_at_set intro: less_imp_le)
  qed
  moreover have "sorted (map deposit_position (queued_at db i))" by (simp add: queued_at_def)
  ultimately show ?case using Cons by (auto simp: sorted_append)
qed simp

lemma queue_in_order:
  assumes "deposit_queue_ok L db" and "sorted is" and "distinct is"
    and "distinct (map deposit_position (filter (\<lambda>d. dp_queuedAt d \<in> set is) (l2_Deposit db)))"
  shows "sort_key deposit_position (filter (\<lambda>d. dp_queuedAt d \<in> set is) (l2_Deposit db)) = concat (map (queued_at db) is)"
proof (rule sort_key_inj_key_eq)
  show "mset (filter (\<lambda>d. dp_queuedAt d \<in> set is) (l2_Deposit db)) = mset (concat (map (queued_at db) is))"
    by (simp only: queue_mset [OF assms(3)])
  show "inj_on deposit_position (set (filter (\<lambda>d. dp_queuedAt d \<in> set is) (l2_Deposit db)))"
    using assms(4) by (simp add: distinct_map)
  show "sorted (map deposit_position (concat (map (queued_at db) is)))"
    by (rule queue_sorted) (use assms(1-3) in \<open>simp_all add: deposit_queue_ok_def\<close>)
qed

text \<open>The merged hashes of the pending mass deposits are those of the leaves the generator adds.\<close>

lemma merge_rows:
  assumes "deposit_queue_ok L db" and "set rows \<subseteq> set (l2_MassDeposit db)"
  shows "foldM (\<lambda>md rest. merge_until L (md_merged md) 0 rest)
      (map (\<lambda>r. \<lparr>md_merged = mdr_merged r, md_fee = mdr_fee r\<rparr>) rows)
      (leaf_words (concat (map (\<lambda>r. queued_at db (mdr_index r)) rows))) = Ok []"
  using assms(2)
proof (induction rows)
  case (Cons r rows)
  let ?leaves = "leaf_words (queued_at db (mdr_index r))"
  have "mdr_merged r = merge_all L 0 ?leaves" "\<forall>k<length ?leaves. merge_all L 0 (take k ?leaves) \<noteq> mdr_merged r"
    using assms(1) Cons.prems by (auto simp: deposit_queue_ok_def Let_def)
  from merge_until_all [OF this] Cons show ?case by (simp add: leaf_words_def)
qed (simp add: leaf_words_def)

lemma pending_merged:
  assumes tables: "deposit_tables_ok db" "deposit_queue_ok L db" and pending: "getPendingMassDeposits db = Ok pending"
    and ds: "getDeposits db (pm_massDeposits pending) = Ok ds"
  shows "foldM (\<lambda>md rest. merge_until L (md_merged md) 0 rest) (pm_massDeposits pending) (leaf_words ds) = Ok []"
proof -
  let ?md = "\<lambda>r. \<lparr>md_merged = mdr_merged r, md_fee = mdr_fee r\<rparr>"
  define commits where "commits = sort_key mdr_index (filter (\<lambda>r. mdr_includedIn r = None) (l2_MassDeposit db))"
  have commits: "mset commits = mset (filter (\<lambda>r. mdr_includedIn r = None) (l2_MassDeposit db))"
    by (simp add: commits_def)
  have sub: "set commits \<subseteq> set (l2_MassDeposit db)" by (auto simp: commits_def)
  have fields: "pm_massDeposits pending = map ?md commits"
    and dist: "distinct (map deposit_position (filter (\<lambda>d. dp_queuedAt d \<in> set (map mdr_index commits)) (l2_Deposit db)))"
    using pending by (auto simp: getPendingMassDeposits_def Let_def commits_def split: if_splits)
  have "distinct (map mdr_index (filter (\<lambda>r. mdr_includedIn r = None) (l2_MassDeposit db)))"
    using tables(1) by (simp add: deposit_tables_ok_def distinct_map_filter)
  then have idx: "distinct (map mdr_index commits)" "sorted (map mdr_index commits)"
    using mset_eq_imp_distinct_iff [of "map mdr_index commits"
        "map mdr_index (filter (\<lambda>r. mdr_includedIn r = None) (l2_MassDeposit db))"]
    unfolding mset_map commits by (blast, simp add: commits_def)
  have "ds = sort_key deposit_position (filter (\<lambda>d. dp_queuedAt d \<in> set (map mdr_index commits)) (l2_Deposit db))"
    using ds unfolding fields getDeposits_of_rows [OF tables(1) commits] by simp
  also have "\<dots> = concat (map (queued_at db) (map mdr_index commits))"
    by (rule queue_in_order [OF tables(2) idx(2,1) dist])
  finally have "ds = concat (map (\<lambda>r. queued_at db (mdr_index r)) commits)" by (simp add: comp_def)
  with merge_rows [OF tables(2) sub] show ?thesis by (simp add: fields)
qed

section \<open>Fees\<close>

lemma fold_fp_add:
  assumes "\<forall>x\<in>set xs. 0 \<le> x" and "0 \<le> a" and "a + sum_list xs < FP_ORDER"
  shows "foldl fp_add a xs = a + sum_list xs"
  using assms
proof (induction xs arbitrary: a)
  case (Cons x xs)
  have "0 \<le> sum_list xs" using Cons.prems(1) by (intro sum_list_nonneg) auto
  then have "fp_add a x = a + x"
    using Cons.prems by (simp add: fp_add_def ff_add_def ff_new_nonneg)
  with Cons show ?case by (simp add: algebra_simps)
qed simp

lemma foldl_sum: "foldl (\<lambda>acc x. acc + g x) a xs = (a::int) + (\<Sum>x\<leftarrow>xs. g x)"
  by (induction xs arbitrary: a) (simp_all add: algebra_simps)

text \<open>Below the order the fee of the header is the sum of the fees.\<close>

lemma aggregated_fee_sum:
  assumes total: "pm_totalFee pending = fp_add 0 (foldl (\<lambda>prev d. fp_add prev (dp_fee d)) 0 ds)"
    and nonneg: "\<forall>d\<in>set ds. 0 \<le> dp_fee d" "\<forall>tx\<in>set txs. 0 \<le> tx_fee tx"
    and small: "(\<Sum>d\<leftarrow>ds. dp_fee d) + (\<Sum>tx\<leftarrow>txs. tx_fee tx) < FP_ORDER"
  shows "aggregated_fee pending txs = (\<Sum>d\<leftarrow>ds. dp_fee d) + (\<Sum>tx\<leftarrow>txs. tx_fee tx)"
proof -
  have pos: "0 \<le> (\<Sum>d\<leftarrow>ds. dp_fee d)" "0 \<le> (\<Sum>tx\<leftarrow>txs. tx_fee tx)"
    using nonneg by (auto intro!: sum_list_nonneg)
  have "foldl (\<lambda>prev d. fp_add prev (dp_fee d)) 0 ds = foldl fp_add 0 (map dp_fee ds)" by (simp add: foldl_map)
  also have "\<dots> = (\<Sum>d\<leftarrow>ds. dp_fee d)" using fold_fp_add [of "map dp_fee ds" 0] nonneg(1) small pos by auto
  finally have deposits: "foldl (\<lambda>prev d. fp_add prev (dp_fee d)) 0 ds = (\<Sum>d\<leftarrow>ds. dp_fee d)" .
  have "foldl fp_add 0 (map tx_fee txs) = (\<Sum>tx\<leftarrow>txs. tx_fee tx)"
    using fold_fp_add [of "map tx_fee txs" 0] nonneg(2) small pos by auto
  with deposits show ?thesis
    unfolding aggregated_fee_def total using small pos
    by (simp add: fp_add_def ff_add_def ff_new_nonneg)
qed

section \<open>Mass migrations\<close>

text \<open>Without a mass migration no outflow migrates.\<close>

lemma map_result_eq_Nil: "map_result f xs = Ok [] \<longleftrightarrow> xs = []"
  by (cases xs) auto

lemma addresses_of_Nil: "addresses_of L f outs = Ok [] \<longleftrightarrow> outs = []"
  by (cases outs) (auto simp: addresses_of_def split: option.splits)

lemma no_migrations:
  assumes "getMassMigrations L txs = Ok []" and "tx \<in> set txs" and "out \<in> set (tx_outflow tx)"
  shows "out_type out \<noteq> MIGRATION"
proof -
  obtain tokens destinations where
    "addresses_of L pd_tokenAddr (migrating_notes txs) = Ok tokens" "addresses_of L pd_to (migrating_notes txs) = Ok destinations"
    "concat (map (\<lambda>dest. map (\<lambda>token. (dest, token)) tokens) destinations) = []"
    using assms(1) by (auto simp: getMassMigrations_def Let_def map_result_eq_Nil)
  then have "migrating_notes txs = []"
    by (cases tokens; cases destinations) (auto simp: addresses_of_Nil)
  then show ?thesis using assms(2,3) by (auto simp: migrating_notes_def filter_empty_conv)
qed

section \<open>The generated block\<close>

lemma genBlock_block:
  assumes "genBlock srt hash sz nd c = (Ok b, c')"
  obtains pending txs snap r mms latest hashes
  where "getPendingMassDeposits (la_db (nd_layer2 nd)) = Ok pending"
    and "dryRun nd pending txs = Some snap" and "gs_nullifierTreeRoot snap = Some r"
    and "latestBlock (la_db (nd_layer2 nd)) = Ok latest"
    and "getMassMigrations (la_sol (nd_layer2 nd)) txs = Ok mms" and "tx_hashes (nd_layer2 nd) txs = Ok hashes"
    and "bl_header b = new_header (nd_layer2 nd) (co_address c) latest (aggregated_fee pending txs) snap r hashes
      (pm_massDeposits pending) mms"
    and "bl_body b = \<lparr>body_txs = txs, massDeposits = pm_massDeposits pending, massMigrations = mms\<rparr>"
proof -
  from assms obtain pending picked where p: "getPendingMassDeposits (la_db (nd_layer2 nd)) = Ok pending"
    "block_of_txs nd (co_address c) (co_isSynced c) pending picked = Ok b"
    by (auto simp: genBlock_def Let_def split: option.splits sum.splits prod.splits)
  define txs where "txs = checked_txs nd pending [] picked"
  from p(2) obtain snap r mms latest hashes where parts: "dryRun nd pending txs = Some snap"
    "gs_nullifierTreeRoot snap = Some r" "latestBlock (la_db (nd_layer2 nd)) = Ok latest"
    "getMassMigrations (la_sol (nd_layer2 nd)) txs = Ok mms" "tx_hashes (nd_layer2 nd) txs = Ok hashes"
    "bl_header b = new_header (nd_layer2 nd) (co_address c) latest (aggregated_fee pending txs) snap r hashes
      (pm_massDeposits pending) mms"
    "bl_body b = \<lparr>body_txs = txs, massDeposits = pm_massDeposits pending, massMigrations = mms\<rparr>"
    by (auto simp: block_of_txs_def Let_def txs_def [symmetric] split: option.splits)
  show ?thesis by (rule that [OF p(1) parts])
qed

section \<open>Trees\<close>

text \<open>The tree ends at a subtree, is not full, and no left subtree on the way is empty.\<close>

definition ready_for_subtrees :: "(int \<Rightarrow> int \<Rightarrow> int) \<Rightarrow> (nat \<Rightarrow> int) \<Rightarrow> nat \<Rightarrow> int light_tree \<Rightarrow> bool" where
  "ready_for_subtrees p f s t \<longleftrightarrow>
     latestLeafIndex t mod 2 ^ s = 0 \<and> latestLeafIndex t < 2 ^ lt_depth t \<and>
     (\<forall>l < lt_depth t - s. odd (latestLeafIndex t div 2 ^ s div 2 ^ l) \<longrightarrow>
        mnode p f (l + s) (latestLeafIndex t div 2 ^ s div 2 ^ l - 1) \<noteq> mnode p (\<lambda>_. 0) (l + s) 0)"

definition next_index :: "nat \<Rightarrow> int light_tree \<Rightarrow> nat \<Rightarrow> nat" where
  "next_index s t n = latestLeafIndex t + 2 ^ s * ceil_div n (2 ^ s)"

lemma subtrees_appended:
  assumes hist: "tree_history (hasher_of 0 p (lt_depth t)) 0 sync f T t db" and s: "s \<le> lt_depth t"
    and ready: "ready_for_subtrees p f s t" and room: "next_index s t (length items) \<le> 2 ^ lt_depth t"
  shows "appendAsSubTrees (hasher_of 0 p (lt_depth t)) (lt_root t) (latestLeafIndex t) s (map lf_hash items)
    (drop s (td_siblings (getStartingLeafProof t))) = Ok (td_root (dryAppend t items))"
proof -
  let ?q = "latestLeafIndex t div 2 ^ s"
  have index: "latestLeafIndex t = ?q * 2 ^ s"
    using ready by (metis add.right_neutral div_mult_mod_eq ready_for_subtrees_def)
  have pow: "2 ^ lt_depth t = 2 ^ (lt_depth t - s) * (2 ^ s :: nat)" using s by (simp flip: power_add)
  have "?q * 2 ^ s < 2 ^ (lt_depth t - s) * 2 ^ s"
    using ready unfolding ready_for_subtrees_def index [symmetric] pow [symmetric] by simp
  then have q: "?q < 2 ^ (lt_depth t - s)" by simp
  have "(?q + ceil_div (length items) (2 ^ s)) * 2 ^ s \<le> 2 ^ (lt_depth t - s) * 2 ^ s"
    using room index pow by (simp add: next_index_def algebra_simps)
  then have "?q + ceil_div (length items) (2 ^ s) \<le> 2 ^ (lt_depth t - s)" by simp
  from own_proof_append [OF hist index s this own_proof_accepted [OF hist index s q]] ready
  show ?thesis by (simp add: ready_for_subtrees_def)
qed

lemma dry_root_range:
  assumes hist: "tree_history (hasher_of 0 p (lt_depth t)) 0 sync f T t db" and depth: "0 < lt_depth t"
    and room: "next_index s t (length items) \<le> 2 ^ lt_depth t" and range: "\<forall>a b. P (p a b)"
  shows "P (td_root (dryAppend t items))"
proof -
  have "length items \<le> 2 ^ s * ceil_div (length items) (2 ^ s)" by (rule ceil_div_mult_ge) simp
  with room have "latestLeafIndex t + length items \<le> 2 ^ lt_depth t" by (simp add: next_index_def)
  from dryAppend_represents [OF history_facts(1,3) [OF hist] this]
  show ?thesis using mnode_range [OF range depth] by (simp add: represents_def)
qed

lemma utxo_generated:
  assumes hist: "tree_history (hasher_of 0 pu (lt_depth ut)) 0 sync fu Tu ut db"
    and ok: "utxo_sizes_ok pu nd ut" and tree: "gr_utxoTree (nd_grove nd) = Some ut"
    and ready: "ready_for_subtrees pu fu (cf_utxoSubTreeDepth (la_config (nd_layer2 nd))) ut"
    and ds: "getDeposits (la_db (nd_layer2 nd)) (massDeposits (bl_body b)) = Ok ds"
    and merged: "deposits_ok (nd_layer2 nd) b (map (\<lambda>d. fp_word (fp_new (dp_note d))) ds) = Ok ()"
    and prev: "prev_header_ok (nd_layer2 nd) b parent = Ok ()"
    and parent: "uint (utxoRoot parent) = lt_root ut" "uint (utxoIndex parent) = int (latestLeafIndex ut)"
    and items: "map lf_hash items = block_utxos ds b"
    and room: "next_index (cf_utxoSubTreeDepth (la_config (nd_layer2 nd))) ut (length items) \<le> 2 ^ lt_depth ut"
    and header: "utxoRoot (bl_header b) = fp_word (td_root (dryAppend ut items))"
      "utxoIndex (bl_header b) =
        fp_word (int (next_index (cf_utxoSubTreeDepth (la_config (nd_layer2 nd))) ut (length items)))"
  shows "\<exists>calls. validateUtxoTree nd b parent = Ok calls \<and>
    (\<forall>c\<in>set calls. \<exists>v. offchain (nd_layer2 nd) b parent c = Ok v \<and> \<not> slashable v)"
proof -
  let ?la = "nd_layer2 nd" let ?s = "cf_utxoSubTreeDepth (la_config ?la)"
  let ?deposits = "map (\<lambda>d. fp_word (fp_new (dp_note d))) ds"
  let ?D = "drop ?s (td_siblings (getStartingLeafProof ut))"
  have cfg: "la_utxoHasher ?la = hasher_of 0 pu (lt_depth ut)" "cf_utxoTreeDepth (la_config ?la) = lt_depth ut"
    "cf_utxoSubTreeSize (la_config ?la) = 2 ^ ?s" "0 < ?s" "?s \<le> lt_depth ut" "2 ^ lt_depth ut < FP_ORDER"
    "\<forall>a b. 0 \<le> pu a b \<and> pu a b < FP_ORDER" "\<forall>d\<in>set (l2_Deposit (la_db ?la)). 0 \<le> dp_note d"
    using ok by (simp_all add: utxo_sizes_ok_def Let_def)
  have depth: "0 < lt_depth ut" using cfg(4,5) by simp
  have calls: "validateUtxoTree nd b parent = Ok [UTXOIndex_call ?deposits, UTXORoot_call ?deposits (map fp_word ?D)]"
    by (simp add: validateUtxoTree_def ds tree Let_def parent getStartingLeafProof_def)
  have small: "int n < FP_ORDER" if "n \<le> 2 ^ lt_depth ut" for n
  proof -
    have "int n \<le> int (2 ^ lt_depth ut)" using that by (simp only: of_nat_le_iff)
    also have "\<dots> < FP_ORDER" using cfg(6) by (simp only: of_nat_power of_nat_numeral)
    finally show ?thesis .
  qed
  have uindex: "uint (utxoIndex (bl_header b)) = int (next_index ?s ut (length items))"
    unfolding header(2) using small [OF room] FP_ORDER_256 by (intro uint_fp_word) auto
  have bound: "\<not> 2 ^ lt_depth ut < uint (utxoIndex (bl_header b))"
    unfolding uindex using room by (metis not_less of_nat_le_iff of_nat_numeral of_nat_power)
  have len: "length ds + length (utxo_notes (body_txs (bl_body b))) = length items"
    using arg_cong [OF items, of length] by (simp add: block_utxos_def)
  have index: "validateUTXOIndex ?la b parent ?deposits = Ok (slash_if False U1)"
    using bound by (simp add: validateUTXOIndex_def merged prev cfg parent uindex len Let_def next_index_def)
  have dep_notes: "map (\<lambda>d. fp_new (uint d)) ?deposits = map (\<lambda>d. fp_new (dp_note d)) ds"
    using getDeposits_rows [OF ds] cfg(8) by (auto simp: fp_new_note subset_iff)
  have idx: "nat (fp_new (uint (utxoIndex parent))) = latestLeafIndex ut"
    unfolding parent using small [OF latestLeafIndex_le [OF hist]] by (simp add: ff_valid_def)
  have root: "fp_new (uint (utxoRoot parent)) = lt_root ut"
    using own_proof_range(1) [OF hist cfg(5,4,7)] by (simp add: parent ff_valid_def)
  have sibs: "map (\<lambda>s. fp_new (uint s)) (map fp_word ?D) = ?D"
    by (rule map_word_field) (rule own_proof_range(2) [OF hist cfg(5,4,7)])
  have r: "0 \<le> td_root (dryAppend ut items) \<and> td_root (dryAppend ut items) < FP_ORDER"
    by (rule dry_root_range [OF hist depth room cfg(7)])
  then have hroot: "uint (utxoRoot (bl_header b)) = td_root (dryAppend ut items)"
    unfolding header(1) using FP_ORDER_256 by (intro uint_fp_word) auto
  have "validateUTXORoot ?la b parent ?deposits (map fp_word ?D) = Ok (slash_if False U3)"
    unfolding validateUTXORoot_def merged prev bind_result.simps dep_notes idx root sibs cfg(1)
    using subtrees_appended [OF hist cfg(5) ready room] unfolding items block_utxos_def by (simp add: hroot)
  with index calls show ?thesis by simp
qed

lemma uint_word_256: "0 \<le> x \<Longrightarrow> x < 2 ^ 256 \<Longrightarrow> uint (word_of_int x :: 256 word) = x"
  by (simp add: uint_word_of_int)

lemma withdrawal_generated:
  assumes hist: "tree_history (hasher_of 0 pw (lt_depth wt)) 0 sync fw Tw wt db"
    and ok: "withdrawal_sizes_ok pw nd wt" "lt_depth wt < 256" and tree: "gr_withdrawalTree (nd_grove nd) = Some wt"
    and ready: "ready_for_subtrees pw fw (cf_withdrawalSubTreeDepth (la_config (nd_layer2 nd))) wt"
    and prev: "prev_header_ok (nd_layer2 nd) b parent = Ok ()"
    and parent: "uint (withdrawalRoot parent) = lt_root wt" "uint (withdrawalIndex parent) = int (latestLeafIndex wt)"
    and ws: "map_result (outflow_withdrawal (la_lib (nd_layer2 nd)) ''AssertionError'')
      (withdrawal_outflows (body_txs (bl_body b))) = Ok ws"
    and items: "map lf_hash items = map (\<lambda>(_, h). uint h) ws"
    and room: "next_index (cf_withdrawalSubTreeDepth (la_config (nd_layer2 nd))) wt (length items) \<le> 2 ^ lt_depth wt"
    and header: "withdrawalRoot (bl_header b) = word_of_int (td_root (dryAppend wt items))"
      "withdrawalIndex (bl_header b) =
        word_of_int (int (next_index (cf_withdrawalSubTreeDepth (la_config (nd_layer2 nd))) wt (length items)))"
  shows "\<exists>calls. validateWithdrawalTree nd parent = Ok calls \<and>
    (\<forall>c\<in>set calls. \<exists>v. offchain (nd_layer2 nd) b parent c = Ok v \<and> \<not> slashable v)"
proof -
  let ?la = "nd_layer2 nd" let ?s = "cf_withdrawalSubTreeDepth (la_config ?la)"
  let ?D = "drop ?s (td_siblings (getStartingLeafProof wt))"
  have cfg: "la_withdrawalHasher ?la = hasher_of 0 pw (lt_depth wt)" "cf_withdrawalTreeDepth (la_config ?la) = lt_depth wt"
    "cf_withdrawalSubTreeSize (la_config ?la) = 2 ^ ?s" "0 < ?s" "?s \<le> lt_depth wt"
    "\<forall>a b. 0 \<le> pw a b \<and> pw a b < 2 ^ 256"
    using ok by (simp_all add: withdrawal_sizes_ok_def Let_def)
  have depth: "0 < lt_depth wt" using cfg(4,5) by simp
  have calls: "validateWithdrawalTree nd parent = Ok [WithdrawalIndex_call, WithdrawalRoot_call (map word_of_int ?D)]"
    by (simp add: validateWithdrawalTree_def tree Let_def parent getStartingLeafProof_def)
  have "int (next_index ?s wt (length items)) \<le> int (2 ^ lt_depth wt)" using room by (simp only: of_nat_le_iff)
  also have "\<dots> < 2 ^ 256" using ok(2) by (simp only: of_nat_power of_nat_numeral power_strict_increasing)
  finally have "int (next_index ?s wt (length items)) < 2 ^ 256" .
  then have uindex: "uint (withdrawalIndex (bl_header b)) = int (next_index ?s wt (length items))"
    unfolding header(2) by (intro uint_word_256) simp_all
  have bound: "\<not> 2 ^ lt_depth wt < uint (withdrawalIndex (bl_header b))"
    unfolding uindex using room by (metis not_less of_nat_le_iff of_nat_numeral of_nat_power)
  have len: "length (withdrawal_outflows (body_txs (bl_body b))) = length items"
    using arg_cong [OF items, of length] map_result_length [OF ws] by simp
  have index: "validateWithdrawalIndex ?la b parent = Ok (slash_if False W1)"
    using bound by (simp add: validateWithdrawalIndex_def prev cfg parent uindex len Let_def next_index_def)
  have sibs: "map uint (map word_of_int ?D :: (256 word) list) = ?D"
    by (rule map_word_256) (rule own_proof_range(2) [OF hist cfg(5,4,6)])
  have r: "0 \<le> td_root (dryAppend wt items) \<and> td_root (dryAppend wt items) < 2 ^ 256"
    by (rule dry_root_range [OF hist depth room cfg(6)])
  then have hroot: "uint (withdrawalRoot (bl_header b)) = td_root (dryAppend wt items)"
    unfolding header(1) by (intro uint_word_256) simp_all
  have idx: "nat (uint (withdrawalIndex parent)) = latestLeafIndex wt" by (simp add: parent)
  have "validateWithdrawalRoot ?la b parent (map word_of_int ?D) = Ok (slash_if False W3)"
    unfolding validateWithdrawalRoot_def prev bind_result.simps ws idx parent(1) sibs cfg(1)
    using subtrees_appended [OF hist cfg(5) ready room] unfolding items by (simp add: hroot)
  with index calls show ?thesis by simp
qed

text \<open>The dry run of the nullifier tree gives a node of the tree over the grown set.\<close>

lemma nullifier_root_range:
  assumes inv: "nl_inv pn nt db S" and depth: "0 < nl_depth nt" and range: "\<forall>a b. P (pn a b)"
    and ns: "\<forall>n\<in>set ns. n < 2 ^ nl_depth nt" and run: "dryRunNullify db nt ns = Ok r"
  shows "P r"
proof -
  let ?us = "map (\<lambda>i. \<lparr>su_index = i, su_val = FILLED\<rparr>) ns"
  obtain out where out: "smt_update_leaves db new_tree_cache nt ?us True = Ok out" "so_root out = r"
    using run by (auto simp: dryRunNullify_def smt_update_leaves_def)
  have "S \<union> set ns \<subseteq> {..<2 ^ nl_depth nt}" using inv ns by (auto simp: nl_inv_def)
  then have "so_root out = mnode pn (used_leaf (S \<union> set ns)) (nl_depth nt) 0"
    by (intro update_accepted(1) [OF inv _ out(1) fold_fill]) (use ns in auto)
  then have r: "r = mnode pn (used_leaf (S \<union> set ns)) (nl_depth nt) 0" using out(2) by simp
  show ?thesis unfolding r by (rule mnode_range [OF range depth])
qed

section \<open>The dry run as the header states it\<close>

text \<open>A header describes trees: its roots and indices are theirs.\<close>

definition header_matches :: "header \<Rightarrow> int light_tree \<Rightarrow> int light_tree \<Rightarrow> int \<Rightarrow> bool" where
  "header_matches h ut wt r \<longleftrightarrow>
     uint (utxoRoot h) = lt_root ut \<and> uint (utxoIndex h) = int (latestLeafIndex ut) \<and>
     uint (withdrawalRoot h) = lt_root wt \<and> uint (withdrawalIndex h) = int (latestLeafIndex wt) \<and>
     uint (nullifierRoot h) = r"

lemma withdrawal_message:
  assumes "map_result (outflow_withdrawal L msg) outs = Ok ws"
  shows "map_result (outflow_withdrawal L msg') outs = Ok ws"
  using assms
  by (induction outs arbitrary: ws) (auto simp: outflow_withdrawal_def split: option.splits)

lemma dryRun_parts:
  assumes run: "dryRun nd pending txs = Some snap"
    and trees: "gr_utxoTree (nd_grove nd) = Some ut" "gr_withdrawalTree (nd_grove nd) = Some wt"
      "gr_nullifierTree (nd_grove nd) = Some nt"
  obtains ui wi ws where
    "map_result (outflow_withdrawal (la_lib (nd_layer2 nd)) ''AssertionError'') (withdrawal_outflows txs) = Ok ws"
    and "map lf_hash ui = pm_leaves pending @ utxo_notes txs" and "map lf_hash wi = map (\<lambda>(_, h). uint h) ws"
    and "gs_utxoTreeRoot snap = td_root (dryAppend ut ui)" and "gs_withdrawalTreeRoot snap = td_root (dryAppend wt wi)"
    and "gs_utxoTreeIndex snap = td_index (dryAppend ut ui) +
      gc_utxoSubTreeSize (gr_config (nd_grove nd)) * ceil_div (length ui) (gc_utxoSubTreeSize (gr_config (nd_grove nd))) - length ui"
    and "gs_withdrawalTreeIndex snap = td_index (dryAppend wt wi) +
      gc_withdrawalSubTreeSize (gr_config (nd_grove nd)) * ceil_div (length wi) (gc_withdrawalSubTreeSize (gr_config (nd_grove nd))) - length wi"
    and "\<exists>r. dryRunNullify (nd_trees nd) nt (map nat (tx_nullifiers txs)) = Ok r \<and> gs_nullifierTreeRoot snap = Some r"
proof -
  obtain patch where patch: "generator_patch (la_lib (nd_layer2 nd)) pending txs = Ok patch"
    and dry: "dryPatch (nd_trees nd) (nd_grove nd) patch = Ok snap"
    using run by (auto simp: dryRun_def split: sum.splits)
  obtain ws where ws: "map_result (outflow_withdrawal (la_lib (nd_layer2 nd)) ''No withdrawal public data'')
      (withdrawal_outflows txs) = Ok ws"
    and fields: "map lf_hash (gp_utxos patch) = pm_leaves pending @ utxo_notes txs"
      "map lf_hash (gp_withdrawals patch) = map (\<lambda>(_, h). uint h) ws"
      "gp_nullifiers patch = map nat (tx_nullifiers txs)"
    using patch by (auto simp: generator_patch_def comp_def case_prod_beta)
  have hashes: "map lf_hash (untracked (gp_utxos patch)) = pm_leaves pending @ utxo_notes txs"
    "map lf_hash (untracked (gp_withdrawals patch)) = map (\<lambda>(_, h). uint h) ws"
    unfolding hashes_untracked by (fact fields)+
  show ?thesis
    by (rule that [OF withdrawal_message [OF ws] hashes])
      (use dry fields(3) in \<open>auto simp: dryPatch_def trees Let_def untracked_def\<close>)
qed

lemma header_matches_parts:
  assumes "header_matches h ut wt r"
  shows "uint (utxoRoot h) = lt_root ut" and "uint (utxoIndex h) = int (latestLeafIndex ut)"
    and "uint (withdrawalRoot h) = lt_root wt" and "uint (withdrawalIndex h) = int (latestLeafIndex wt)"
    and "uint (nullifierRoot h) = r"
  using assms by (simp_all add: header_matches_def)

section \<open>The groups of checks\<close>

abbreviation passes_calls :: "layer2 \<Rightarrow> block \<Rightarrow> header \<Rightarrow> fn_call list result \<Rightarrow> bool" where
  "passes_calls la b parent g \<equiv> \<exists>calls. g = Ok calls \<and>
     (\<forall>c\<in>set calls. \<exists>v. offchain la b parent c = Ok v \<and> \<not> slashable v)"

lemma header_generated:
  assumes "bl_header b = new_header la address latest (aggregated_fee pending txs) snap r hashes mds mms"
    and "bl_body b = \<lparr>body_txs = txs, massDeposits = mds, massMigrations = mms\<rparr>" and "tx_hashes la txs = Ok hashes"
    and fee: "aggregated_fee pending txs = (\<Sum>md\<leftarrow>mds. uint (md_fee md)) + (\<Sum>tx\<leftarrow>txs. tx_fee tx)"
      "0 \<le> aggregated_fee pending txs" "aggregated_fee pending txs < FP_ORDER"
  shows "passes_calls la b parent (Ok validateHeader)"
  using assms uint_fp_word [OF fee(2) less_trans [OF fee(3) FP_ORDER_256]]
  by (simp add: validateHeader_def validateDepositRoot_def validateMigrationRoot_def validateTxRoot_def
      validateTotalFee_def new_header_def foldl_sum Let_def)

lemma mass_deposits_found:
  assumes "\<And>md. md \<in> set (massDeposits (bl_body b)) \<Longrightarrow> \<exists>s. getDeposits (la_db la) [md] = Ok s \<and> s \<noteq> []"
  shows "passes_calls la b parent (Ok (validateMassDeposits b))"
proof -
  have "\<exists>v. validateMassDeposit la b i = Ok v \<and> \<not> slashable v" if "i < length (massDeposits (bl_body b))" for i
    using assms [OF nth_mem [OF that]] that by (auto simp: validateMassDeposit_def Let_def)
  then show ?thesis by (auto simp: validateMassDeposits_def)
qed

lemma no_migration_missed:
  assumes none: "massMigrations (bl_body b) = []"
    and types: "\<And>tx out. tx \<in> set (body_txs (bl_body b)) \<Longrightarrow> out \<in> set (tx_outflow tx) \<Longrightarrow> out_type out \<noteq> MIGRATION"
  shows "passes_calls la b parent (Ok (validateMassMigration b))"
proof -
  have "validateMissedMassMigration b i j = Ok (slash_if False M7)"
    if "i < length (body_txs (bl_body b))" "j < length (tx_outflow (body_txs (bl_body b) ! i))" for i j
    using types [OF nth_mem [OF that(1)] nth_mem [OF that(2)]] that
    by (simp add: validateMissedMassMigration_def block_tx_def Let_def)
  then show ?thesis by (auto simp: validateMassMigration_def none Let_def)
qed

lemma nullifiers_generated:
  assumes "gr_nullifierTree (nd_grove nd) = Some nt" and "uint (nullifierRoot parent) = fst (getRootNode (nd_trees nd) nt)"
    and "dryRunNullify (nd_trees nd) nt (map nat (tx_nullifiers (body_txs (bl_body b)))) = Ok r"
    and "nullifierRoot (bl_header b) = word_of_int r" and "0 \<le> r \<and> r < 2 ^ 256"
  shows "passes_calls la b parent (validateNullifierTree nd b parent)"
  using assms by (simp add: validateNullifierTree_def uint_word_256)

section \<open>The properties\<close>

text \<open>
  A coordinator that is ready: its trees are consistent, the parent header describes them, both
  append-only trees can take another subtree and the deposit tables are consistent.
\<close>

definition ready_to_generate ::
  "(int \<Rightarrow> int \<Rightarrow> int) \<Rightarrow> (int \<Rightarrow> int \<Rightarrow> int) \<Rightarrow> (int \<Rightarrow> int \<Rightarrow> int) \<Rightarrow> (nat \<Rightarrow> int) \<Rightarrow> (nat \<Rightarrow> int) \<Rightarrow> node \<Rightarrow> header \<Rightarrow>
   int light_tree \<Rightarrow> int light_tree \<Rightarrow> int nullifier_tree \<Rightarrow> bool" where
  "ready_to_generate pu pw pn fu fw nd parent ut wt nt \<longleftrightarrow>
     (\<exists>Tu Tw S. grove_inv pu pw pn (nd_grove nd) ut wt nt (nd_trees nd) fu Tu fw Tw S) \<and>
     utxo_sizes_ok pu nd ut \<and> withdrawal_sizes_ok pw nd wt \<and> lt_depth wt < 256 \<and> 0 < nl_depth nt \<and>
     (\<forall>a b. 0 \<le> pn a b \<and> pn a b < 2 ^ 256) \<and>
     ready_for_subtrees pu fu (cf_utxoSubTreeDepth (la_config (nd_layer2 nd))) ut \<and>
     ready_for_subtrees pw fw (cf_withdrawalSubTreeDepth (la_config (nd_layer2 nd))) wt \<and>
     header_matches parent ut wt (fst (getRootNode (nd_trees nd) nt)) \<and> deposit_tables_ok (la_db (nd_layer2 nd))"

text \<open>
  What the generator does not check of a block: that its leaves fit into the trees, that its nullifiers are
  leaves of theirs, and that its fees add up below the order of the field.
\<close>

definition block_fits ::
  "chain_config \<Rightarrow> deposit_row list \<Rightarrow> block \<Rightarrow> int light_tree \<Rightarrow> int light_tree \<Rightarrow> int nullifier_tree \<Rightarrow> bool" where
  "block_fits cf ds b ut wt nt \<longleftrightarrow>
     (let txs = body_txs (bl_body b) in
      next_index (cf_utxoSubTreeDepth cf) ut (length (block_utxos ds b)) \<le> 2 ^ lt_depth ut \<and>
      next_index (cf_withdrawalSubTreeDepth cf) wt (length (withdrawal_outflows txs)) \<le> 2 ^ lt_depth wt \<and>
      (\<forall>n\<in>set (tx_nullifiers txs). 0 \<le> n \<and> n < 2 ^ nl_depth nt) \<and>
      (\<forall>tx\<in>set txs. 0 \<le> tx_fee tx) \<and> (\<Sum>d\<leftarrow>ds. dp_fee d) + (\<Sum>tx\<leftarrow>txs. tx_fee tx) < FP_ORDER)"

text \<open>The trees of a dry run that fits, as the three groups of checks see them.\<close>

lemma dry_run_passes:
  assumes ready: "ready_to_generate pu pw pn fu fw nd parent ut wt nt"
    and ds: "getDeposits (la_db (nd_layer2 nd)) (massDeposits (bl_body b)) = Ok ds"
    and leaves: "pm_leaves pending = map (\<lambda>d. fp_new (dp_note d)) ds"
    and run: "dryRun nd pending (body_txs (bl_body b)) = Some snap" and r: "gs_nullifierTreeRoot snap = Some r"
    and hd: "bl_header b = new_header (nd_layer2 nd) address latest fee snap r hashes mds mms"
    and fits: "block_fits (la_config (nd_layer2 nd)) ds b ut wt nt"
    and merged: "deposits_ok (nd_layer2 nd) b (map (\<lambda>d. fp_word (fp_new (dp_note d))) ds) = Ok ()"
    and prev: "prev_header_ok (nd_layer2 nd) b parent = Ok ()"
  shows "passes_calls (nd_layer2 nd) b parent (validateNullifierTree nd b parent)"
    and "passes_calls (nd_layer2 nd) b parent (validateUtxoTree nd b parent)"
    and "passes_calls (nd_layer2 nd) b parent (validateWithdrawalTree nd parent)"
proof -
  obtain Tu Tw S where inv: "grove_inv pu pw pn (nd_grove nd) ut wt nt (nd_trees nd) fu Tu fw Tw S"
    and sizes: "utxo_sizes_ok pu nd ut" "withdrawal_sizes_ok pw nd wt" "lt_depth wt < 256" "0 < nl_depth nt"
    and pn: "\<forall>a b. 0 \<le> pn a b \<and> pn a b < 2 ^ 256"
    and ru: "ready_for_subtrees pu fu (cf_utxoSubTreeDepth (la_config (nd_layer2 nd))) ut"
    and rw: "ready_for_subtrees pw fw (cf_withdrawalSubTreeDepth (la_config (nd_layer2 nd))) wt"
    and matches: "header_matches parent ut wt (fst (getRootNode (nd_trees nd) nt))"
    using ready unfolding ready_to_generate_def by blast
  note parts = inv [unfolded grove_inv_def]
  have hu: "tree_history (hasher_of 0 pu (lt_depth ut)) 0 (gc_fullSync (gr_config (nd_grove nd))) fu Tu ut (nd_trees nd)"
    and hw: "tree_history (hasher_of 0 pw (lt_depth wt)) 0 (gc_fullSync (gr_config (nd_grove nd))) fw Tw wt (nd_trees nd)"
    and nl: "nl_inv pn nt (nd_trees nd) S"
    and trees: "gr_utxoTree (nd_grove nd) = Some ut" "gr_withdrawalTree (nd_grove nd) = Some wt"
      "gr_nullifierTree (nd_grove nd) = Some nt"
    using parts by simp_all
  let ?s = "cf_utxoSubTreeDepth (la_config (nd_layer2 nd))" and ?sw = "cf_withdrawalSubTreeDepth (la_config (nd_layer2 nd))"
  have sz: "gc_utxoSubTreeSize (gr_config (nd_grove nd)) = 2 ^ ?s" "gc_withdrawalSubTreeSize (gr_config (nd_grove nd)) = 2 ^ ?sw"
    using sizes by (simp_all add: utxo_sizes_ok_def withdrawal_sizes_ok_def Let_def)
  from dryRun_parts [OF run trees] obtain ui wi ws where
    ws: "map_result (outflow_withdrawal (la_lib (nd_layer2 nd)) ''AssertionError'')
      (withdrawal_outflows (body_txs (bl_body b))) = Ok ws"
    and ui: "map lf_hash ui = block_utxos ds b" and wi: "map lf_hash wi = map (\<lambda>(_, h). uint h) ws"
    and snap: "gs_utxoTreeRoot snap = td_root (dryAppend ut ui)" "gs_withdrawalTreeRoot snap = td_root (dryAppend wt wi)"
      "gs_utxoTreeIndex snap = td_index (dryAppend ut ui) + 2 ^ ?s * ceil_div (length ui) (2 ^ ?s) - length ui"
      "gs_withdrawalTreeIndex snap = td_index (dryAppend wt wi) + 2 ^ ?sw * ceil_div (length wi) (2 ^ ?sw) - length wi"
    and nullified: "dryRunNullify (nd_trees nd) nt (map nat (tx_nullifiers (body_txs (bl_body b)))) = Ok r"
    unfolding block_utxos_def leaves [symmetric] sz using r by (metis option.inject)
  have lens: "length (block_utxos ds b) = length ui" "length (withdrawal_outflows (body_txs (bl_body b))) = length wi"
    using arg_cong [OF ui, of length] arg_cong [OF wi, of length] map_result_length [OF ws] by simp_all
  have room: "next_index ?s ut (length ui) \<le> 2 ^ lt_depth ut" "next_index ?sw wt (length wi) \<le> 2 ^ lt_depth wt"
    and range: "\<forall>n\<in>set (map nat (tx_nullifiers (body_txs (bl_body b)))). n < 2 ^ nl_depth nt"
    using fits by (auto simp: block_fits_def lens Let_def nat_less_iff)
  have idx: "gs_utxoTreeIndex snap = next_index ?s ut (length ui)" "gs_withdrawalTreeIndex snap = next_index ?sw wt (length wi)"
    unfolding snap next_index_def
    by (rule dry_index [OF hu room(1) [unfolded next_index_def]], simp)
      (rule dry_index [OF hw room(2) [unfolded next_index_def]], simp)
  have hd: "utxoRoot (bl_header b) = fp_word (td_root (dryAppend ut ui))"
    "utxoIndex (bl_header b) = fp_word (int (next_index ?s ut (length ui)))"
    "withdrawalRoot (bl_header b) = word_of_int (td_root (dryAppend wt wi))"
    "withdrawalIndex (bl_header b) = word_of_int (int (next_index ?sw wt (length wi)))"
    "nullifierRoot (bl_header b) = word_of_int r"
    by (simp_all add: hd new_header_def snap(1,2) idx)
  note m = header_matches_parts [OF matches]
  show "passes_calls (nd_layer2 nd) b parent (validateNullifierTree nd b parent)"
    by (rule nullifiers_generated [OF trees(3) m(5) nullified hd(5)])
      (rule nullifier_root_range [OF nl sizes(4) pn range nullified])
  show "passes_calls (nd_layer2 nd) b parent (validateUtxoTree nd b parent)"
    by (rule utxo_generated [OF hu sizes(1) trees(1) ru ds merged prev m(1,2) ui room(1) hd(1,2)])
  show "passes_calls (nd_layer2 nd) b parent (validateWithdrawalTree nd parent)"
    by (rule withdrawal_generated [OF hw sizes(2,3) trees(2) rw prev m(3,4) ws wi room(2) hd(3,4)])
qed

text \<open>
  The validating node: that of the coordinator with other tables (those of the new block are filled), of
  which the tables of deposits are the same.
\<close>

definition with_db :: "node \<Rightarrow> l2_db \<Rightarrow> node" where
  "with_db nd db = nd\<lparr>nd_layer2 := (nd_layer2 nd)\<lparr>la_db := db\<rparr>\<rparr>"

definition same_deposits :: "l2_db \<Rightarrow> l2_db \<Rightarrow> bool" where
  "same_deposits db db' \<longleftrightarrow> l2_Deposit db' = l2_Deposit db \<and> l2_MassDeposit db' = l2_MassDeposit db"

lemma with_db_simps [simp]:
  "nd_grove (with_db nd db) = nd_grove nd" "nd_trees (with_db nd db) = nd_trees nd"
  "nd_treeIds (with_db nd db) = nd_treeIds nd" "nd_layer2 (with_db nd db) = (nd_layer2 nd)\<lparr>la_db := db\<rparr>"
  by (simp_all add: with_db_def)

lemma same_getDeposits:
  assumes "same_deposits db db'"
  shows "getDeposits db' mds = getDeposits db mds"
  using assms unfolding same_deposits_def getDeposits_def by (simp add: Let_def)

lemma ready_with_db:
  assumes "same_deposits (la_db (nd_layer2 nd)) db'" and "ready_to_generate pu pw pn fu fw nd parent ut wt nt"
  shows "ready_to_generate pu pw pn fu fw (with_db nd db') parent ut wt nt"
  using assms
  by (simp add: ready_to_generate_def utxo_sizes_ok_def withdrawal_sizes_ok_def same_deposits_def deposit_tables_ok_def Let_def)

lemma parts_with_db:
  "dryRun (with_db nd db) pending txs = dryRun nd pending txs"
  "words_root (la\<lparr>la_db := db\<rparr>) = words_root la" "tx_hashes (la\<lparr>la_db := db\<rparr>) = tx_hashes la"
  "prev_header_ok (la\<lparr>la_db := db\<rparr>) = prev_header_ok la" "deposits_ok (la\<lparr>la_db := db\<rparr>) = deposits_ok la"
  "new_header (la\<lparr>la_db := db\<rparr>) = new_header la"
  by (simp_all add: dryRun_def words_root_def tx_hashes_def prev_header_ok_def deposits_ok_def new_header_def fun_eq_iff)

text \<open>C24: A coordinator that is ready generates blocks that are accepted. Let the tables of deposits be those
  that the contract promises (each mass deposit has the merged hash and the fee of its deposits, in their
  order, and earlier mass deposits have earlier deposits), the given parent header that of the block the new
  one names as parent, the leaves, nullifiers and fees of the block fit, nothing migrate, its
  transactions pass their own checks, and the contracts approve of every call that the same check of the node
  approves. Then a full and a light node with the same trees and deposits find no reason to slash the
  block: the header is that of its body, all deposits are found and merge to the hashes in the body in the
  order of the body, and the dry run of the generator gave the roots the validators compute.\<close>

theorem generated_block_accepted:
  assumes ready: "ready_to_generate pu pw pn fu fw nd parent ut wt nt"
    and gen: "genBlock srt hash sz nd c = (Ok b, c')"
    and db: "same_deposits (la_db (nd_layer2 nd)) db'"
    and latest: "parentBlock (bl_header b) = headerHash (lib_keccak (la_lib (nd_layer2 nd))) parent"
    and ds: "getDeposits db' (massDeposits (bl_body b)) = Ok ds"
    and queue: "deposit_queue_ok (la_sol (nd_layer2 nd)) (la_db (nd_layer2 nd))"
    and fits: "block_fits (la_config (nd_layer2 nd)) ds b ut wt nt"
    and stay: "massMigrations (bl_body b) = []"
    and txs: "passes_calls (nd_layer2 (with_db nd db')) b parent (validateTx (with_db nd db') b parent)"
    and onchain: "\<And>call v. offchain (nd_layer2 (with_db nd db')) b parent call = Ok v \<Longrightarrow> \<not> slashable v \<Longrightarrow>
      \<exists>v'. onchain call = Ok v' \<and> \<not> slashable v'"
  shows "full_validate onchain (with_db nd db') parent b = Ok not_slashable \<and>
    light_validate onchain (with_db nd db') parent b = Ok not_slashable"
proof -
  let ?nd = "with_db nd db'"
  from genBlock_block [OF gen] obtain pending txs snap r mms latest' hashes where
    pending: "getPendingMassDeposits (la_db (nd_layer2 nd)) = Ok pending"
    and run: "dryRun nd pending txs = Some snap" "gs_nullifierTreeRoot snap = Some r"
    and mms: "getMassMigrations (la_sol (nd_layer2 nd)) txs = Ok mms" and hashes: "tx_hashes (nd_layer2 nd) txs = Ok hashes"
    and hd: "bl_header b = new_header (nd_layer2 nd) (co_address c) latest' (aggregated_fee pending txs) snap r hashes
      (pm_massDeposits pending) mms"
    and body: "bl_body b = \<lparr>body_txs = txs, massDeposits = pm_massDeposits pending, massMigrations = mms\<rparr>" .
  have tables: "deposit_tables_ok (la_db (nd_layer2 nd))" using ready by (simp add: ready_to_generate_def)
  obtain ds' where found: "getDeposits (la_db (nd_layer2 nd)) (pm_massDeposits pending) = Ok ds'"
    "pm_leaves pending = map (\<lambda>d. fp_new (dp_note d)) ds'"
    "pm_totalFee pending = fp_add 0 (foldl (\<lambda>prev d. fp_add prev (dp_fee d)) 0 ds')"
    "(\<Sum>md\<leftarrow>pm_massDeposits pending. uint (md_fee md)) = (\<Sum>d\<leftarrow>ds'. dp_fee d)"
    "\<And>md. md \<in> set (pm_massDeposits pending) \<Longrightarrow> \<exists>s. getDeposits (la_db (nd_layer2 nd)) [md] = Ok s \<and> s \<noteq> []"
    by (rule pending_found [OF tables pending]) (rule that)
  have same: "ds' = ds" using ds found(1) by (simp add: same_getDeposits [OF db] body)
  have merged: "deposits_ok (nd_layer2 nd) b (map (\<lambda>d. fp_word (fp_new (dp_note d))) ds) = Ok ()"
    using pending_merged [OF tables queue pending found(1)]
    by (simp add: deposits_ok_def checkSubmittedDeposits_def body same leaf_words_def)
  have nonneg: "\<forall>d\<in>set ds. 0 \<le> dp_fee d" "\<forall>tx\<in>set txs. 0 \<le> tx_fee tx"
    using getDeposits_rows [OF found(1)] tables fits
    by (auto simp: same deposit_tables_ok_def block_fits_def body Let_def)
  have small: "(\<Sum>d\<leftarrow>ds. dp_fee d) + (\<Sum>tx\<leftarrow>txs. tx_fee tx) < FP_ORDER"
    using fits by (simp add: block_fits_def body Let_def)
  note fee = aggregated_fee_sum [OF found(3) [unfolded same] nonneg small]
  have pos: "0 \<le> (\<Sum>d\<leftarrow>ds. dp_fee d) + (\<Sum>tx\<leftarrow>txs. tx_fee tx)"
    using nonneg by (intro add_nonneg_nonneg sum_list_nonneg) auto
  have header: "passes_calls (nd_layer2 ?nd) b parent (Ok validateHeader)"
    unfolding with_db_simps
  proof (rule header_generated)
    show "bl_header b = new_header ((nd_layer2 nd)\<lparr>la_db := db'\<rparr>) (co_address c) latest' (aggregated_fee pending txs)
        snap r hashes (pm_massDeposits pending) mms" by (simp add: hd parts_with_db)
    show "tx_hashes ((nd_layer2 nd)\<lparr>la_db := db'\<rparr>) txs = Ok hashes" using hashes by (simp add: parts_with_db)
    show "aggregated_fee pending txs = (\<Sum>md\<leftarrow>pm_massDeposits pending. uint (md_fee md)) + (\<Sum>tx\<leftarrow>txs. tx_fee tx)"
      unfolding fee found(4) same ..
  qed (use body fee pos small in simp_all)
  have mass: "passes_calls (nd_layer2 ?nd) b parent (Ok (validateMassDeposits b))"
    by (rule mass_deposits_found) (use found(5) in \<open>simp add: body same_getDeposits [OF db]\<close>)
  have missed: "passes_calls (nd_layer2 ?nd) b parent (Ok (validateMassMigration b))"
    by (rule no_migration_missed [OF stay]) (use no_migrations mms stay in \<open>auto simp: body\<close>)
  have prev: "prev_header_ok (nd_layer2 ?nd) b parent = Ok ()"
    using latest by (simp add: prev_header_ok_def)
  note trees = dry_run_passes [OF ready_with_db [OF db ready], where b = b and ds = ds and pending = pending]
  have "passes_calls (nd_layer2 ?nd) b parent g" if "g \<in> set (full_groups ?nd parent b) \<union> set (light_groups ?nd parent b)" for g
    using that header mass missed txs trees [OF _ _ _ run(2) _ _ _ prev]
      ds found(2) run(1) hd fits merged
    by (auto simp: full_groups_def light_groups_def body parts_with_db same)
  then show ?thesis
    unfolding full_validate_def light_validate_def
    by (intro conjI full.decide_accepts light.decide_accepts) (metis UnI1 onchain, metis UnI2 onchain)
qed

section \<open>Witness\<close>

text \<open>
  A coordinator with the empty trees of the validators' witness, a pending deposit of the note 7, and the
  transaction of that witness in its pool. The nullifiers are hashed by a bounded function here.
\<close>

definition gen_smt :: "int nullifier_tree" where
  "gen_smt = \<lparr>nl_depth = 1, nl_hasher = hasher_of 0 demo_hash 1, nl_rootNode = None\<rparr>"

definition gen_db :: l2_db where
  "gen_db = demo_l2_db\<lparr>
     l2_MassDeposit := [\<lparr>mdr_index = 0, mdr_merged = 7, mdr_fee = 2, mdr_blockNumber = 1, mdr_includedIn = None\<rparr>],
     l2_Deposit := [\<lparr>dp_note = 7, dp_fee = 2, dp_queuedAt = 0, dp_blockNumber = 1, dp_transactionIndex = 0, dp_logIndex = 0, dp_includedIn = None,
       dp_ownerAddress = None, dp_from = None\<rparr>],
     l2_Proposal := [\<lparr>pp_hash = 0, pp_proposalNum = Some 0, pp_canonicalNum = Some 0, pp_proposalData = None,
       pp_verified = Some True, pp_finalized = None, pp_isUncle = None, pp_proposedAt = None,
       pp_proposalTx = None, pp_timestamp = None\<rparr>]\<rparr>"

definition gen_node :: node where
  "gen_node = \<lparr>nd_layer2 = demo_layer2\<lparr>la_db := gen_db, la_sol := (la_sol demo_layer2)\<lparr>sha3_pair := \<lambda>a b. b\<rparr>,
       la_nullifierHasher := hasher_of 0 demo_hash 1\<rparr>,
     nd_grove = demo_grove\<lparr>gr_nullifierTree := Some gen_smt\<rparr>, nd_trees = demo_db, nd_treeIds = []\<rparr>"

definition gen_coordinator :: "nat coordinator" where
  "gen_coordinator = \<lparr>co_gasPrice = Some 0, co_maxBytes = 1000, co_priceMultiplier = 1, co_address = 9, co_isSynced = True,
     co_txPool = \<lparr>pool_queued = [], pool_txs = [(1, demo_tx)],
       pool_db = \<lparr>db_Tx = [], db_Block = [], db_PendingTx = []\<rparr>\<rparr>\<rparr>"


definition gen_pending :: pending_mass_deposits where
  "gen_pending = \<lparr>pm_massDeposits = [\<lparr>md_merged = 7, md_fee = 2\<rparr>], pm_leaves = [7], pm_totalFee = 2, pm_calldataSize = 1\<rparr>"

lemma gen_node_parts: "nd_layer2 gen_node = demo_layer2\<lparr>la_db := gen_db, la_sol := (la_sol demo_layer2)\<lparr>sha3_pair := \<lambda>a b. b\<rparr>,
       la_nullifierHasher := hasher_of 0 demo_hash 1\<rparr>"
  "nd_grove gen_node = demo_grove\<lparr>gr_nullifierTree := Some gen_smt\<rparr>" "nd_trees gen_node = demo_db" "nd_treeIds gen_node = []"
  by (simp_all add: gen_node_def)

lemma gen_layer2: "la_db (nd_layer2 gen_node) = gen_db" "lib_keccak (la_lib (nd_layer2 gen_node)) = (\<lambda>_. 0)"
  by (simp_all add: gen_node_def demo_layer2_def)

lemma gen_co: "co_gasPrice gen_coordinator = Some 0" "co_maxBytes gen_coordinator = 1000" "co_priceMultiplier gen_coordinator = 1"
  "co_address gen_coordinator = 9" "co_isSynced gen_coordinator" "gen_coordinator\<lparr>co_txPool := co_txPool gen_coordinator\<rparr> = gen_coordinator"
  by (simp_all add: gen_coordinator_def)

lemma gen_pending_found: "getPendingMassDeposits gen_db = Ok gen_pending"
  by (simp add: getPendingMassDeposits_def gen_db_def gen_pending_def Let_def fp_add_def ff_add_def ff_new_nonneg ff_valid_def FP_ORDER_def)

lemma gen_pick: "pickTxs (\<lambda>x. x) (\<lambda>_. 1::nat) (\<lambda>_. 10) (Some (1000 - int (32 + 1))) (0 * 1) (co_txPool gen_coordinator) =
   ([demo_tx], co_txPool gen_coordinator)"
  by (simp add: pickTxs_def gen_coordinator_def Let_def prunePendingTx_def verifiedTx_def pending_entries_def getSortedTxs_def
    pendingTxs_def demo_tx_def new_ZkTx_def at_least_def entry_size_def entry_fee_def entry_txs_def)

lemma gen_patch: "generator_patch (la_lib demo_layer2) gen_pending [demo_tx] = Ok \<lparr>gp_header = None,
   gp_utxos = [\<lparr>lf_hash = 7, lf_shouldTrack = False\<rparr>, \<lparr>lf_hash = 5, lf_shouldTrack = False\<rparr>], gp_withdrawals = [], gp_nullifiers = [1]\<rparr>"
  by (simp add: generator_patch_def demo_leaves gen_pending_def)

lemma gen_dry: "dryRun gen_node gen_pending [demo_tx] = Some \<lparr>gs_utxoTreeIndex = 2, gs_utxoTreeRoot = 17, gs_withdrawalTreeIndex = 0,
  gs_withdrawalTreeRoot = 0, gs_nullifierTreeRoot = Some 2\<rparr>"
proof -
  have "dryPatch demo_db (demo_grove\<lparr>gr_nullifierTree := Some gen_smt\<rparr>) \<lparr>gp_header = None,
   gp_utxos = [\<lparr>lf_hash = 7, lf_shouldTrack = False\<rparr>, \<lparr>lf_hash = 5, lf_shouldTrack = False\<rparr>], gp_withdrawals = [], gp_nullifiers = [1]\<rparr> = 
   Ok \<lparr>gs_utxoTreeIndex = 2, gs_utxoTreeRoot = 17, gs_withdrawalTreeIndex = 0,
  gs_withdrawalTreeRoot = 0, gs_nullifierTreeRoot = Some 2\<rparr>"
   by code_simp
   then show ?thesis by (simp add: dryRun_def gen_node_parts gen_patch)
qed


definition gen_header :: header where
  "gen_header = \<lparr>proposer = 9, parentBlock = 0, hd_fee = 5, utxoRoot = 17, utxoIndex = 2, nullifierRoot = 2,
     withdrawalRoot = 0, withdrawalIndex = 0, txRoot = 0, depositRoot = 0, migrationRoot = 0\<rparr>"

definition gen_block :: block where
  "gen_block = \<lparr>bl_hash = 0, bl_verified = None, bl_slashed = None, bl_header = gen_header,
     bl_body = \<lparr>body_txs = [demo_tx], massDeposits = [\<lparr>md_merged = 7, md_fee = 2\<rparr>], massMigrations = []\<rparr>,
     bl_bootstrap = None\<rparr>"

lemma gen_tx_hash: "tx_hashes (nd_layer2 gen_node) [demo_tx] = Ok [0]"
  by (simp add: tx_hashes_def zkTx_hash_def demo_tx_def new_ZkTx_def)

lemma gen_fee: "aggregated_fee gen_pending [demo_tx] = 5"
  by (simp add: aggregated_fee_def gen_pending_def demo_tx_def new_ZkTx_def fp_add_def ff_add_def ff_new_nonneg FP_ORDER_def)

lemma gen_block_made:
  "genBlock (\<lambda>x. x) (\<lambda>_. 1) (\<lambda>_. 10) gen_node gen_coordinator = (Ok gen_block, gen_coordinator)"
proof -
  have checked: "checked_txs gen_node gen_pending [] [demo_tx] = [demo_tx]"
    by (simp add: gen_dry)
  have none: "getMassMigrations (la_sol (nd_layer2 gen_node)) [demo_tx] = Ok []"
    by (simp add: getMassMigrations_def migrating_notes_def demo_tx_def new_ZkTx_def outflow_types addresses_of_def)
  have latest: "latestBlock gen_db = Ok 0"
    by (simp add: latestBlock_def gen_db_def order_desc_def first_row_def)
  have header: "new_header (nd_layer2 gen_node) 9 0 5 \<lparr>gs_utxoTreeIndex = 2, gs_utxoTreeRoot = 17, gs_withdrawalTreeIndex = 0,
     gs_withdrawalTreeRoot = 0, gs_nullifierTreeRoot = Some 2\<rparr> 2 [0] [\<lparr>md_merged = 7, md_fee = 2\<rparr>] [] = gen_header"
    by (simp add: new_header_def gen_header_def words_root_def gen_node_parts demo_layer2_def hashes_root_small massDepositHash_def fp_word_def)
  have "block_of_txs gen_node 9 True gen_pending [demo_tx] = Ok gen_block"
    unfolding block_of_txs_def Let_def checked gen_dry
    using header by (simp add: none gen_tx_hash gen_fee latest gen_layer2 gen_block_def)
      (simp add: gen_pending_def gen_header_def headerHash_def)
  moreover have "pm_calldataSize gen_pending = 1" by (simp add: gen_pending_def)
  ultimately show ?thesis
    using gen_pick by (simp add: genBlock_def Let_def gen_layer2 gen_pending_found gen_co)
qed

lemma gen_body: "body_txs (bl_body gen_block) = [demo_tx]" "massDeposits (bl_body gen_block) = [\<lparr>md_merged = 7, md_fee = 2\<rparr>]"
  "massMigrations (bl_body gen_block) = []" "bl_header gen_block = gen_header"
  by (simp_all add: gen_block_def)

lemma gen_tx_passes: "passes_calls (nd_layer2 gen_node) gen_block demo_parent (validateTx gen_node gen_block demo_parent)"
proof -
  have "validateTx gen_node gen_block demo_parent =
      Ok [Inclusion_call 0 0, Outflow_call 0, DuplicatedNullifier_call 0, SNARK_call 0]"
    by (simp add: validateTx_def gen_body demo_tx_def new_ZkTx_def used_nullifier_call_def gen_node_def demo_grove_def
        findUsedNullifier_def)
  moreover have "validateInclusion (nd_layer2 gen_node) gen_block 0 0 = Ok (slash_if False T1)"
    by (simp add: validateInclusion_def block_tx_def gen_body isValidRef_def gen_layer2)
      (auto simp: gen_node_def demo_layer2_def gen_db_def demo_l2_db_def demo_tx_def new_ZkTx_def fp_word_def demo_parent_def headerHash_def)
  moreover have "validateOutflow (nd_layer2 gen_node) gen_block 0 = Ok not_slashable"
    by (simp add: validateOutflow_def block_tx_def gen_body demo_tx_def new_ZkTx_def outflow_reason_def UTXO_def empty_data_def)
  moreover have "validateDuplicatedNullifier gen_block 0 = Ok not_slashable"
    by (simp add: validateDuplicatedNullifier_def gen_body demo_leaves)
  moreover have "validateSNARK (nd_layer2 gen_node) gen_block 0 = Ok (slash_if False S2)"
    by (simp add: validateSNARK_def block_tx_def gen_body gen_node_def demo_layer2_def)
  ultimately show ?thesis by simp
qed

lemma gen_index: "latestLeafIndex (demo_tree i sp) = 0" "lt_root (demo_tree i sp) = 0"
  using demo_start [of i sp] by (simp_all add: getStartingLeafProof_def Let_def)

lemma gen_ready: "ready_to_generate demo_hash demo_hash demo_hash (\<lambda>_. 0) (\<lambda>_. 0) gen_node demo_parent
   (demo_tree ''utxo'' SPECIES_UTXO) (demo_tree ''withdrawal'' SPECIES_WITHDRAWAL) gen_smt"
proof -
  have nodes: "tree_nodes demo_db k = None" for k by (simp add: demo_db_def)
  note hist = genesis_tree_history [OF demo_tree_def nodes]
  have nl: "nl_inv demo_hash gen_smt demo_db {}"
    by (rule nl_inv_empty) (simp_all add: gen_smt_def nodes)
  then have inv: "grove_inv demo_hash demo_hash demo_hash (nd_grove gen_node) (demo_tree ''utxo'' SPECIES_UTXO)
     (demo_tree ''withdrawal'' SPECIES_WITHDRAWAL) gen_smt (nd_trees gen_node) (\<lambda>_. 0) UNIV (\<lambda>_. 0) UNIV {}"
    using hist [of "''utxo''" SPECIES_UTXO] hist [of "''withdrawal''" SPECIES_WITHDRAWAL]
    by (simp add: grove_inv_def gen_node_def demo_trees NULLIFIER_TREE_ID_def) (simp add: demo_grove_def demo_config_def)
  have range: "0 \<le> demo_hash a b" "demo_hash a b < 1009" for a b by (simp_all add: demo_hash_def)
  have sizes: "utxo_sizes_ok demo_hash gen_node (demo_tree ''utxo'' SPECIES_UTXO)"
    "withdrawal_sizes_ok demo_hash gen_node (demo_tree ''withdrawal'' SPECIES_WITHDRAWAL)"
    using range by (simp_all add: utxo_sizes_ok_def withdrawal_sizes_ok_def gen_node_def demo_depth demo_layer2_def demo_grove_def
        gen_db_def demo_config_def FP_ORDER_def Let_def) (smt (verit))+
  have "fst (getRootNode demo_db gen_smt) = mnode demo_hash (used_leaf {}) 1 0"
    using nl by (simp add: nl_inv_def gen_smt_def)
  then have root: "fst (getRootNode demo_db gen_smt) = 0"
    by (simp add: demo_hash_def used_leaf_def)
  have "header_matches demo_parent (demo_tree ''utxo'' SPECIES_UTXO) (demo_tree ''withdrawal'' SPECIES_WITHDRAWAL)
      (fst (getRootNode (nd_trees gen_node) gen_smt))"
    by (simp add: header_matches_def demo_parent_def gen_index root gen_node_parts)
  moreover have "deposit_tables_ok gen_db" by (simp add: deposit_tables_ok_def gen_db_def)
  moreover have "demo_hash a b < 2 ^ 256" for a b using range(2) [of a b] by simp
  ultimately show ?thesis
    unfolding ready_to_generate_def using inv sizes range(1)
    by (auto simp: demo_depth gen_layer2 ready_for_subtrees_def gen_index) (simp add: gen_smt_def)
qed

theorem generated_block_accepted_witness:
  "genBlock (\<lambda>x. x) (\<lambda>_. 1) (\<lambda>_. 10) gen_node gen_coordinator = (Ok gen_block, gen_coordinator) \<and>
   full_validate (\<lambda>_. Ok not_slashable) gen_node demo_parent gen_block = Ok not_slashable \<and>
   light_validate (\<lambda>_. Ok not_slashable) gen_node demo_parent gen_block = Ok not_slashable"
proof -
  have self: "with_db gen_node gen_db = gen_node" by (simp add: with_db_def gen_node_def)
  have same: "same_deposits (la_db (nd_layer2 gen_node)) gen_db" by (simp add: same_deposits_def gen_layer2)
  have parent: "parentBlock (bl_header gen_block) = headerHash (lib_keccak (la_lib (nd_layer2 gen_node))) demo_parent"
    by (simp add: gen_body gen_header_def gen_layer2 headerHash_def)
  let ?d = "\<lparr>dp_note = 7, dp_fee = 2, dp_queuedAt = 0, dp_blockNumber = 1, dp_transactionIndex = 0, dp_logIndex = 0, dp_includedIn = None,
       dp_ownerAddress = None, dp_from = None\<rparr>"
  have ds: "getDeposits gen_db (massDeposits (bl_body gen_block)) = Ok [?d]"
    by (simp add: getDeposits_def gen_body gen_db_def order_asc_def Let_def)
  have queue: "deposit_queue_ok (la_sol (nd_layer2 gen_node)) (la_db (nd_layer2 gen_node))"
    by (simp add: deposit_queue_ok_def gen_layer2)
      (simp add: gen_db_def gen_node_parts queued_at_def leaf_words_def merge_all_def ff_valid_def FP_ORDER_def fp_word_def Let_def)
  have fits: "block_fits (la_config (nd_layer2 gen_node)) [?d] gen_block (demo_tree ''utxo'' SPECIES_UTXO)
      (demo_tree ''withdrawal'' SPECIES_WITHDRAWAL) gen_smt"
  proof -
    have "la_config (nd_layer2 gen_node) = la_config demo_layer2" by (simp add: gen_node_def)
    moreover have "cf_utxoSubTreeDepth (la_config demo_layer2) = 1" "cf_withdrawalSubTreeDepth (la_config demo_layer2) = 1"
      by (simp_all add: demo_layer2_def)
    moreover have "tx_fee demo_tx = 3" by (simp add: demo_tx_def new_ZkTx_def)
    ultimately show ?thesis
      by (simp add: block_fits_def gen_body demo_leaves next_index_def demo_depth block_utxos_def gen_index ceil_div_def
        Let_def gen_smt_def FP_ORDER_def)
  qed
  have txs: "passes_calls (nd_layer2 (with_db gen_node gen_db)) gen_block demo_parent
      (validateTx (with_db gen_node gen_db) gen_block demo_parent)"
    unfolding self by (rule gen_tx_passes)
  show ?thesis
    using generated_block_accepted [OF gen_ready gen_block_made same parent ds queue fits gen_body(3)
        txs, of "\<lambda>_. Ok not_slashable"] gen_block_made
    by (simp add: self)
qed

end
