(* ===== verification/Zk_Keys.thy ===== *)
theory Zk_Keys
  imports Note
begin

text \<open>
  Points of the curve, addresses and viewing keys: \<open>packages/babyjubjub/src/point.ts\<close>,
  \<open>packages/transaction/src/zk-address.ts\<close>, \<open>packages/account/src/viewer.ts\<close> and the tracker of a node,
  \<open>packages/core/src/node/tracker.ts\<close>.
\<close>

section \<open>Little-endian numbers\<close>

definition le_buffer :: "nat \<Rightarrow> int \<Rightarrow> byte list result" where
  "le_buffer len x = bind_result (toBuffer len x) (\<lambda>bs. Ok (rev bs))"

definition le_val :: "byte list \<Rightarrow> nat" where
  "le_val bs = be_val (rev bs)"

lemma le_buffer_val: "le_buffer len x = Ok bs \<Longrightarrow> length bs = len \<and> le_val bs = nat x"
  by (auto simp: le_buffer_def toBuffer_def le_val_def be_val_be_bytes split: if_splits)

lemma le_buffer_Ok: "nat x < 256 ^ len \<Longrightarrow> \<exists>bs. le_buffer len x = Ok bs"
  by (simp add: le_buffer_def toBuffer_def)

section \<open>Points\<close>

text \<open>
  The curve of \<open>circomlib\<close> and the modular arithmetic of \<open>bn.js\<close>: membership, products with scalars,
  the generator, the two coefficients, square roots and inverses modulo the order.
\<close>

record curve_lib =
  inCurve :: "int \<times> int \<Rightarrow> bool"
  mulPointEscalar :: "int \<times> int \<Rightarrow> int \<Rightarrow> int \<times> int"
  addPoint :: "int \<times> int \<Rightarrow> int \<times> int \<Rightarrow> int \<times> int"
  Base8 :: "int \<times> int"
  coeff_A :: int
  coeff_D :: int
  redSqrt :: "int \<Rightarrow> int result"
  redInvm :: "int \<Rightarrow> int"

record point =
  px :: int
  py :: int

definition new_Point :: "curve_lib \<Rightarrow> int \<Rightarrow> int \<Rightarrow> point result" where
  "new_Point C x y =
     (if \<not> inCurve C (x, y) then Throw ''Given point is not on the Babyjubjub curve''
      else Ok \<lparr>px = x, py = y\<rparr>)"

definition Point_from :: "curve_lib \<Rightarrow> int \<Rightarrow> int \<Rightarrow> point result" where
  "Point_from C x y = new_Point C (fp_new x) (fp_new y)"

definition fromY :: "curve_lib \<Rightarrow> int \<Rightarrow> bool \<Rightarrow> point result" where
  "fromY C y xOdd =
     (let redY = fp_new y; y2 = (redY * redY) mod FP_ORDER;
          numerator = (1 - y2) mod FP_ORDER;
          denominator = redInvm C ((fp_new (coeff_A C) - (fp_new (coeff_D C) * y2) mod FP_ORDER) mod FP_ORDER) in
      bind_result (redSqrt C ((numerator * denominator) mod FP_ORDER)) (\<lambda>x.
        if odd x = xOdd then Point_from C x y else Point_from C (- x) y))"

definition Point_decode :: "curve_lib \<Rightarrow> byte list \<Rightarrow> point result" where
  "Point_decode C packed =
     (if length packed \<noteq> 32 then Throw ''invalid length''
      else
        let oddX = bit (packed ! 31) 7;
            yBuff = packed[31 := and (packed ! 31) 127];
            y = le_val yBuff
        in fromY C (int y) oddX)"

definition Point_encode :: "point \<Rightarrow> byte list result" where
  "Point_encode P =
     bind_result (le_buffer 32 (py P)) (\<lambda>buff.
       if bit (buff ! 31) 7 then Throw ''The MSB of the final octet should be zero''
       else Ok (if odd (px P) then buff[31 := or (buff ! 31) 128] else buff))"

definition Point_toHex :: "point \<Rightarrow> digit list result" where
  "Point_toHex P =
     bind_result (Point_encode P) (\<lambda>encoded.
       if length encoded \<noteq> 32 then Throw ''Expected 32 bytes'' else Ok (digits_of encoded))"

definition Point_add :: "curve_lib \<Rightarrow> point \<Rightarrow> point \<Rightarrow> point result" where
  "Point_add C p q = (let r = addPoint C (px p, py p) (px q, py q) in Point_from C (fst r) (snd r))"

definition Point_mul :: "curve_lib \<Rightarrow> point \<Rightarrow> int \<Rightarrow> point result" where
  "Point_mul C p n = (let r = mulPointEscalar C (px p, py p) (fr_new n) in Point_from C (fst r) (snd r))"

definition Point_eq :: "point \<Rightarrow> point \<Rightarrow> bool result" where
  "Point_eq p q = bind_result (Point_toHex q) (\<lambda>b. bind_result (Point_toHex p) (\<lambda>a. Ok (b = a)))"

definition Point_generate :: "curve_lib \<Rightarrow> int \<Rightarrow> point result" where
  "Point_generate C n = Point_mul C \<lparr>px = fst (Base8 C), py = snd (Base8 C)\<rparr> (fr_new n)"

section \<open>Addresses\<close>

text \<open>\<open>bs58\<close> and the hash function are parameters.\<close>

record address_lib =
  base58_encode :: "byte list \<Rightarrow> string"
  base58_decode :: "string \<Rightarrow> byte list result"
  keccak256 :: "byte list \<Rightarrow> 256 word"
  soliditySha3Raw :: "string \<Rightarrow> 256 word"
  poseidon_hash :: "int list \<Rightarrow> int"

record zk_address =
  PubSK :: int
  viewing_N :: point
  address_text :: string

definition new_ZkAddress :: "curve_lib \<Rightarrow> address_lib \<Rightarrow> string \<Rightarrow> zk_address result" where
  "new_ZkAddress C L addr =
     bind_result (base58_decode L addr) (\<lambda>decoded.
       if length decoded \<noteq> 68 then Throw ''Invalid address data. It should have 68 bytes''
       else
         let checksum = take 4 (word_bytes (keccak256 L (take 64 decoded))) in
         if checksum \<noteq> drop 64 decoded then Throw ''Checksum does not match''
         else bind_result (Point_decode C (take 32 (drop 32 decoded))) (\<lambda>N.
           Ok \<lparr>PubSK = fp_new (int (le_val (take 32 decoded))), viewing_N = N, address_text = addr\<rparr>))"

definition ZkAddress_toBuffer :: "address_lib \<Rightarrow> zk_address \<Rightarrow> byte list result" where
  "ZkAddress_toBuffer L a = base58_decode L (address_text a)"

definition ZkAddress_fromBuffer :: "curve_lib \<Rightarrow> address_lib \<Rightarrow> byte list \<Rightarrow> zk_address result" where
  "ZkAddress_fromBuffer C L d = new_ZkAddress C L (base58_encode L d)"

definition ZkAddress_from :: "curve_lib \<Rightarrow> address_lib \<Rightarrow> int \<Rightarrow> point \<Rightarrow> zk_address result" where
  "ZkAddress_from C L sk N =
     bind_result (le_buffer 32 sk) (\<lambda>a. bind_result (Point_encode N) (\<lambda>b.
       let payload = a @ b in
       bind_result (assert_that (length payload = 64) ''AssertionError'') (\<lambda>_.
         let checksum = take 4 (word_bytes (keccak256 L payload)) in
         new_ZkAddress C L (base58_encode L (payload @ checksum)))))"

section \<open>Viewing keys\<close>

record zk_viewer =
  vw_A :: point
  vw_v :: int
  vw_zkAddress :: zk_address

definition new_ZkViewer :: "curve_lib \<Rightarrow> address_lib \<Rightarrow> point \<Rightarrow> int \<Rightarrow> zk_viewer result" where
  "new_ZkViewer C L A v =
     bind_result (Point_mul C \<lparr>px = fst (Base8 C), py = snd (Base8 C)\<rparr> v) (\<lambda>V.
     bind_result (ZkAddress_from C L (fp_new (poseidon_hash L [px A, py A, v])) V) (\<lambda>addr.
       Ok \<lparr>vw_A = A, vw_v = v, vw_zkAddress = addr\<rparr>))"

text \<open>\<open>soliditySha3Raw(...).slice(-8)\<close>: the last four bytes of the hash.\<close>

definition address_hash :: "address_lib \<Rightarrow> zk_address \<Rightarrow> byte list" where
  "address_hash L a = drop 28 (word_bytes (soliditySha3Raw L (address_text a)))"

definition encodeViewingKey :: "address_lib \<Rightarrow> zk_viewer \<Rightarrow> digit list" where
  "encodeViewingKey L w =
     digits_of (be_bytes 32 (nat (px (vw_A w))) @ be_bytes 32 (nat (py (vw_A w))) @
       be_bytes 32 (nat (vw_v w)) @ address_hash L (vw_zkAddress w))"

definition ZkViewer_from :: "curve_lib \<Rightarrow> address_lib \<Rightarrow> digit list \<Rightarrow> zk_viewer result" where
  "ZkViewer_from C L encoded =
     (let buff = bytes_of encoded;
          slice = (\<lambda>a b. take (b - a) (drop a buff));
          Ax = fp_new (int (be_val (slice 0 32)));
          Ay = fp_new (int (be_val (slice 32 64)));
          v = fr_new (int (be_val (slice 64 92)));
          addressHash = slice 92 96 in
      bind_result (Point_from C Ax Ay) (\<lambda>A.
      bind_result (new_ZkViewer C L A v) (\<lambda>viewer.
        if addressHash \<noteq> address_hash L (vw_zkAddress viewer)
        then Throw ''Invalid encoding. The last 4 bytes should be the hash of the retrieved address''
        else Ok viewer)))"

text \<open>
  Decryption of the notes of a transaction; \<open>attempt\<close> is \<open>Utxo.decrypt\<close> with the keys of the viewer,
  whose errors are caught for each outflow.
\<close>

fun tryDecodeNote :: "(zk_outflow \<Rightarrow> 'n option result) \<Rightarrow> zk_outflow list \<Rightarrow> 'n option" where
  "tryDecodeNote attempt [] = None"
| "tryDecodeNote attempt (outflow # outflows) =
     (case attempt outflow of
        Inr (Some n) \<Rightarrow> Some n
      | _ \<Rightarrow> tryDecodeNote attempt outflows)"

definition viewer_decrypt ::
  "(byte list \<Rightarrow> zk_outflow \<Rightarrow> 'n option result) \<Rightarrow> byte list list result \<Rightarrow> zk_tx \<Rightarrow> 'n list result" where
  "viewer_decrypt attempt encryptedNotes tx =
     bind_result encryptedNotes (\<lambda>encrypted.
     bind_result (foldM (\<lambda>bytes found.
         if length bytes \<noteq> 81 then Throw ''Expected a single encrypted note with 81 bytes''
         else Ok (case tryDecodeNote (attempt bytes) (tx_outflow tx) of Some n \<Rightarrow> found @ [n] | None \<Rightarrow> found))
       encrypted []) Ok)"

section \<open>Tracked accounts\<close>

text \<open>A row of the table \<open>Tracker\<close> and the tracker over it; an empty text counts as missing.\<close>

record tracker_row =
  tr_viewer :: "digit list option"
  tr_address :: "(160 word) option"

record tracker =
  tr_rows :: "tracker_row list"
  withdrawalTrackers :: "(160 word) list"
  transferTrackers :: "zk_viewer list"

definition new_Tracker :: "tracker_row list \<Rightarrow> tracker" where
  "new_Tracker rows = \<lparr>tr_rows = rows, withdrawalTrackers = [], transferTrackers = []\<rparr>"

definition tracker_refresh :: "curve_lib \<Rightarrow> address_lib \<Rightarrow> tracker \<Rightarrow> tracker result" where
  "tracker_refresh C L t =
     bind_result (foldM (\<lambda>row (l2Accounts, l1Accounts).
         bind_result (case tr_viewer row of
             None \<Rightarrow> Ok l2Accounts
           | Some text \<Rightarrow> if text = [] then Ok l2Accounts
               else bind_result (ZkViewer_from C L text) (\<lambda>w. Ok (l2Accounts @ [w]))) (\<lambda>l2.
         Ok (l2, case tr_address row of None \<Rightarrow> l1Accounts | Some a \<Rightarrow> l1Accounts @ [a])))
       (tr_rows t) ([], []))
     (\<lambda>(l2Accounts, l1Accounts). Ok (t\<lparr>withdrawalTrackers := l1Accounts, transferTrackers := l2Accounts\<rparr>))"

definition addWithdrawalTracker :: "(160 word) list \<Rightarrow> tracker \<Rightarrow> tracker" where
  "addWithdrawalTracker accounts t =
     (let unregistered = filter (\<lambda>a. a \<notin> set (withdrawalTrackers t)) accounts in
      t\<lparr>withdrawalTrackers := withdrawalTrackers t @ unregistered,
        tr_rows := fold (\<lambda>a rows. if list_ex (\<lambda>r. tr_address r = Some a) rows then rows
          else rows @ [\<lparr>tr_viewer = None, tr_address = Some a\<rparr>]) unregistered (tr_rows t)\<rparr>)"

definition addUtxoTracker :: "address_lib \<Rightarrow> zk_viewer list \<Rightarrow> tracker \<Rightarrow> tracker" where
  "addUtxoTracker L accounts t =
     (let unregistered = filter (\<lambda>w. address_text (vw_zkAddress w) \<notin>
            (\<lambda>u. address_text (vw_zkAddress u)) ` set (transferTrackers t)) accounts in
      t\<lparr>transferTrackers := transferTrackers t @ unregistered,
        tr_rows := fold (\<lambda>w rows. let text = encodeViewingKey L w in
          if list_ex (\<lambda>r. tr_viewer r = Some text) rows then rows
          else rows @ [\<lparr>tr_viewer = Some text, tr_address = None\<rparr>]) unregistered (tr_rows t)\<rparr>)"

definition addAccounts :: "address_lib \<Rightarrow> (zk_viewer \<times> 160 word) list \<Rightarrow> tracker \<Rightarrow> tracker" where
  "addAccounts L accounts t =
     addUtxoTracker L (map fst accounts) (addWithdrawalTracker (map snd accounts) t)"

end
