(* ===== verification/Zk_Keys_Proofs.thy ===== *)
theory Zk_Keys_Proofs
  imports Zk_Keys
begin

text \<open>
  Points and addresses survive their encodings. Viewing keys do not: the decoder reads the scalar from
  the wrong bytes.
\<close>

section \<open>The last byte\<close>

lemma be_bytes_Cons: "be_bytes (Suc k) n = word_of_nat (n div 256 ^ k mod 256) # be_bytes k n"
proof (induction k arbitrary: n)
  case (Suc k)
  have "be_bytes (Suc (Suc k)) n = be_bytes (Suc k) (n div 256) @ [word_of_nat (n mod 256)]" by simp
  also have "\<dots> = word_of_nat (n div 256 div 256 ^ k mod 256) # be_bytes k (n div 256) @ [word_of_nat (n mod 256)]"
    unfolding Suc.IH by simp
  finally show ?case by (simp add: div_mult2_eq)
qed simp

lemma le_last_byte:
  assumes "le_buffer 32 x = Ok bs" and "x < FP_ORDER"
  shows "\<not> bit (bs ! 31) 7"
proof -
  let ?b = "nat x div 256 ^ 31 mod 256"
  have bs: "bs = rev (be_bytes 32 (nat x))" using assms(1) by (auto simp: le_buffer_def toBuffer_def split: if_splits)
  have "be_bytes (Suc 31) (nat x) = word_of_nat ?b # be_bytes 31 (nat x)" by (rule be_bytes_Cons)
  then have "be_bytes 32 (nat x) = word_of_nat ?b # be_bytes 31 (nat x)" by (simp del: be_bytes.simps)
  then have last: "bs ! 31 = word_of_nat ?b" by (simp add: bs nth_append del: be_bytes.simps)
  have "nat x < 64 * 256 ^ 31" using assms(2) by (simp add: FP_ORDER_def)
  then have "nat x div 256 ^ 31 < 64" by (simp add: less_mult_imp_div_less)
  then have small: "?b < 64" by (rule le_less_trans [OF mod_less_eq_dividend])
  then have u: "unat (bs ! 31) = ?b" unfolding last by (simp add: unat_of_nat)
  then have "uint (bs ! 31) = int ?b" by (metis uint_nat)
  then have "bit (uint (bs ! 31)) 7 \<longleftrightarrow> odd (int ?b div 2 ^ 7)" by (simp only: bit_iff_odd)
  also have "int ?b div 2 ^ 7 = 0" using small by (intro div_pos_pos_trivial) auto
  finally show ?thesis by (simp add: bit_uint_iff)
qed

text \<open>Setting and clearing the top bit.\<close>

lemma top_bit:
  assumes "\<not> bit (b :: byte) 7"
  shows "bit (or b 128) 7" and "and (or b 128) 127 = b" and "and b 127 = b"
proof -
  have top: "bit (128::byte) n \<longleftrightarrow> n = 7" for n
  proof -
    have "(128::byte) = push_bit 7 1" by simp
    then show ?thesis by (simp only: bit_push_bit_iff) (auto simp: bit_1_iff)
  qed
  have low: "bit (127::byte) n \<longleftrightarrow> n < 7" for n
  proof -
    have "(127::byte) = mask 7" by (simp add: mask_eq_exp_minus_1)
    then show ?thesis by (simp only: bit_mask_iff) auto
  qed
  have less: "n < 8 \<Longrightarrow> bit b n \<Longrightarrow> n < 7" for n using assms by (cases "n = 7") auto
  show "bit (or b 128) 7" unfolding bit_or_iff top by simp
  show "and (or b 128) 127 = b" "and b 127 = b"
    by (rule bit_word_eqI, unfold bit_or_iff bit_and_iff top low, use less in auto)+
qed

section \<open>Points\<close>

text \<open>
  What \<open>circomlib\<close> and \<open>bn.js\<close> document, at the point in question: the point satisfies the equation of
  the curve, the inverse of the denominator is one, and a square root of the square is one of the two.
\<close>

definition curve_at :: "curve_lib \<Rightarrow> point \<Rightarrow> bool" where
  "curve_at C P \<longleftrightarrow>
     (let x = px P; y = py P; a = fp_new (coeff_A C); d = fp_new (coeff_D C); y2 = (y * y) mod FP_ORDER;
          den = (a - (d * y2) mod FP_ORDER) mod FP_ORDER; s = redSqrt C ((x * x) mod FP_ORDER) in
      fp_valid x \<and> fp_valid y \<and> inCurve C (x, y) \<and>
      (a * (x * x) + y * y) mod FP_ORDER = (1 + d * (x * x) * (y * y)) mod FP_ORDER \<and>
      (den * redInvm C den) mod FP_ORDER = 1 \<and>
      (s = Ok x \<or> x \<noteq> 0 \<and> s = Ok (FP_ORDER - x)))"

lemma curve_square:
  fixes a d i p x y2 yy :: int
  assumes curve: "(a * (x * x) + yy) mod p = (1 + d * (x * x) * yy) mod p"
    and inv: "(((a - (d * (yy mod p)) mod p) mod p) * i) mod p = 1 mod p"
  shows "(((1 - yy mod p) mod p) * i) mod p = (x * x) mod p"
proof -
  have "p dvd (a * (x * x) + yy) - (1 + d * (x * x) * yy)" using curve by (simp add: mod_eq_dvd_iff)
  then have c: "p dvd x * x * (a - d * yy) - (1 - yy)" by (simp add: algebra_simps)
  have "((a - d * yy) * i) mod p = 1 mod p" using inv by (simp add: mod_simps)
  then have "p dvd (a - d * yy) * i - 1" by (simp add: mod_eq_dvd_iff)
  then have "p dvd x * x * ((a - d * yy) * i - 1)" by simp
  moreover have "p dvd (x * x * (a - d * yy) - (1 - yy)) * i" using c by simp
  ultimately have "p dvd x * x * ((a - d * yy) * i - 1) - (x * x * (a - d * yy) - (1 - yy)) * i" by (rule dvd_diff)
  then have "p dvd (1 - yy) * i - x * x" by (simp add: algebra_simps)
  then have "((1 - yy) * i) mod p = (x * x) mod p" by (simp add: mod_eq_dvd_iff)
  then show ?thesis by (simp add: mod_simps)
qed

lemma odd_order: "odd FP_ORDER"
  by (simp add: FP_ORDER_def)

lemma FP_pos: "0 < FP_ORDER"
  by (simp add: FP_ORDER_def)

lemma fromY_point:
  assumes "curve_at C P"
  shows "fromY C (py P) (odd (px P)) = Ok P"
proof -
  let ?x = "px P" and ?y = "py P" and ?a = "fp_new (coeff_A C)" and ?d = "fp_new (coeff_D C)"
  let ?y2 = "(?y * ?y) mod FP_ORDER"
  let ?den = "(?a - (?d * ?y2) mod FP_ORDER) mod FP_ORDER"
  have valid: "fp_valid ?x" "fp_valid ?y" and on: "inCurve C (?x, ?y)"
    and curve: "(?a * (?x * ?x) + ?y * ?y) mod FP_ORDER = (1 + ?d * (?x * ?x) * (?y * ?y)) mod FP_ORDER"
    and inv: "(?den * redInvm C ?den) mod FP_ORDER = 1"
    and root: "redSqrt C ((?x * ?x) mod FP_ORDER) = Ok ?x \<or>
      ?x \<noteq> 0 \<and> redSqrt C ((?x * ?x) mod FP_ORDER) = Ok (FP_ORDER - ?x)"
    using assms by (simp_all add: curve_at_def Let_def)
  have y: "fp_new ?y = ?y" "fp_new ?x = ?x" using valid by simp_all
  have one: "1 mod FP_ORDER = 1" by (simp add: FP_ORDER_def)
  have "(((1 - ?y2) mod FP_ORDER) * redInvm C ?den) mod FP_ORDER = (?x * ?x) mod FP_ORDER"
    by (rule curve_square [OF curve]) (simp only: inv one)
  then have step: "fromY C ?y parity = bind_result (redSqrt C ((?x * ?x) mod FP_ORDER))
      (\<lambda>x. if odd x = parity then Point_from C x ?y else Point_from C (- x) ?y)" for parity
    by (simp add: fromY_def y Let_def)
  have here: "Point_from C ?x ?y = Ok P" using on y by (simp add: Point_from_def new_Point_def)
  have "fp_new (- (FP_ORDER - ?x)) = ?x" if "?x \<noteq> 0"
  proof -
    have lt: "- (FP_ORDER - ?x) < 0" and x: "?x mod FP_ORDER = ?x" using valid by (simp_all add: ff_valid_def)
    have "- (FP_ORDER - ?x) mod FP_ORDER = ?x" using x by (simp add: mod_simps)
    moreover from this have "\<not> FP_ORDER dvd - (FP_ORDER - ?x)" using that by (simp add: dvd_eq_mod_eq_0)
    ultimately show ?thesis using ff_new_neg [OF FP_pos lt] by (simp only: fp_new_def if_False)
  qed
  then have there: "?x \<noteq> 0 \<Longrightarrow> Point_from C (- (FP_ORDER - ?x)) ?y = Ok P"
    using on y by (simp add: Point_from_def new_Point_def)
  have "odd (FP_ORDER - ?x) \<noteq> odd ?x" using odd_order by simp
  with root show ?thesis unfolding step by (elim disjE conjE) (simp_all only: bind_result.simps here there if_True if_False simp_thms)
qed

lemma field_fits: "fp_valid x \<Longrightarrow> nat x < 256 ^ 32"
  by (simp add: ff_valid_def FP_ORDER_def nat_less_iff)

lemma point_decode_encode:
  assumes "curve_at C P"
  shows "\<exists>bs. Point_encode P = Ok bs \<and> length bs = 32 \<and> Point_decode C bs = Ok P"
proof -
  have valid: "fp_valid (py P)" using assms by (simp add: curve_at_def Let_def)
  have "nat (py P) < 256 ^ 32" by (rule field_fits [OF valid])
  then obtain buff where buff: "le_buffer 32 (py P) = Ok buff" using le_buffer_Ok by blast
  have len: "length buff = 32" and y: "int (le_val buff) = py P" using le_buffer_val [OF buff] valid
    by (simp_all add: ff_valid_def)
  have clear: "\<not> bit (buff ! 31) 7" using le_last_byte [OF buff] valid by (simp add: ff_valid_def)
  note top = top_bit [OF clear]
  have same: "buff[31 := buff ! 31] = buff" by simp
  let ?bs = "if odd (px P) then buff[31 := or (buff ! 31) 128] else buff"
  have enc: "Point_encode P = Ok ?bs" using buff clear by (simp add: Point_encode_def)
  have "Point_decode C ?bs = fromY C (py P) (odd (px P))"
    using clear top len y same by (simp add: Point_decode_def)
  with enc len show ?thesis using fromY_point [OF assms] by auto
qed

section \<open>Addresses\<close>

definition base58_documented :: "address_lib \<Rightarrow> bool" where
  "base58_documented L \<longleftrightarrow> (\<forall>bs. base58_decode L (base58_encode L bs) = Ok bs)"

lemma address_from:
  assumes lib: "base58_documented L" and at: "curve_at C N" and sk: "fp_valid sk"
  shows "\<exists>a. ZkAddress_from C L sk N = Ok a \<and> PubSK a = sk \<and> viewing_N a = N \<and>
    new_ZkAddress C L (address_text a) = Ok a"
proof -
  have "nat sk < 256 ^ 32" by (rule field_fits [OF sk])
  then obtain a where a: "le_buffer 32 sk = Ok a" using le_buffer_Ok by blast
  note len = le_buffer_val [OF a]
  from point_decode_encode [OF at] obtain b where b: "Point_encode N = Ok b" "length b = 32" "Point_decode C b = Ok N"
    by blast
  define adr where "adr = base58_encode L ((a @ b) @ take 4 (word_bytes (keccak256 L (a @ b))))"
  have "new_ZkAddress C L adr = Ok \<lparr>PubSK = sk, viewing_N = N, address_text = adr\<rparr>"
    using lib len b sk by (simp add: new_ZkAddress_def adr_def base58_documented_def Let_def ff_valid_def)
  moreover have "ZkAddress_from C L sk N = new_ZkAddress C L adr"
    using a b len by (simp add: ZkAddress_from_def adr_def Let_def)
  ultimately show ?thesis by simp
qed

section \<open>Viewing keys\<close>

text \<open>The fields of an encoded viewer, as the decoder cuts them.\<close>

lemma be_bytes_split: "be_bytes (a + b) n = be_bytes a (n div 256 ^ b) @ be_bytes b (n mod 256 ^ b)"
proof (induction b arbitrary: n)
  case (Suc b)
  have "be_bytes (a + Suc b) n = be_bytes (a + b) (n div 256) @ [word_of_nat (n mod 256)]" by simp
  also have "\<dots> = be_bytes a (n div 256 div 256 ^ b) @ be_bytes b (n div 256 mod 256 ^ b) @ [word_of_nat (n mod 256)]"
    unfolding Suc.IH by simp
  also have "n div 256 div 256 ^ b = n div 256 ^ Suc b" by (simp add: div_mult2_eq)
  also have "be_bytes b (n div 256 mod 256 ^ b) @ [word_of_nat (n mod 256)] = be_bytes (Suc b) (n mod 256 ^ Suc b)"
    by (simp add: mod_mult2_eq div_mult2_eq)
  finally show ?case .
qed simp

lemma be_val_take:
  assumes "n < 256 ^ 32"
  shows "be_val (take 28 (be_bytes 32 n)) = n div 2 ^ 32" and "be_val (be_bytes 4 (n mod 2 ^ 32)) = n mod 2 ^ 32"
    and "drop 28 (be_bytes 32 n) = be_bytes 4 (n mod 2 ^ 32)"
proof -
  have "n div 256 ^ 4 < 256 ^ 28" using assms by (simp add: less_mult_imp_div_less)
  then show "be_val (take 28 (be_bytes 32 n)) = n div 2 ^ 32"
    using be_bytes_split [of 28 4 n] by (simp add: be_val_be_bytes del: be_bytes.simps)
  show "be_val (be_bytes 4 (n mod 2 ^ 32)) = n mod 2 ^ 32" by (rule be_val_be_bytes) simp
  show "drop 28 (be_bytes 32 n) = be_bytes 4 (n mod 2 ^ 32)"
    using be_bytes_split [of 28 4 n] by (simp del: be_bytes.simps)
qed

definition viewer_fields_ok :: "zk_viewer \<Rightarrow> bool" where
  "viewer_fields_ok w \<longleftrightarrow> fp_valid (px (vw_A w)) \<and> fp_valid (py (vw_A w)) \<and> fr_valid (vw_v w)"

lemma fr_fits: "fr_valid v \<Longrightarrow> nat v < 256 ^ 32"
  by (simp add: ff_valid_def FR_ORDER_def nat_less_iff)

lemma length_address_hash [simp]: "length (address_hash L a) = 4"
  by (simp add: address_hash_def)

lemma decode_encoded:
  assumes ok: "viewer_fields_ok w"
  shows "ZkViewer_from C L (encodeViewingKey L w) =
    bind_result (Point_from C (px (vw_A w)) (py (vw_A w))) (\<lambda>A.
    bind_result (new_ZkViewer C L A (vw_v w div 2 ^ 32)) (\<lambda>w'.
      if be_bytes 4 (nat (vw_v w) mod 2 ^ 32) \<noteq> address_hash L (vw_zkAddress w')
      then Throw ''Invalid encoding. The last 4 bytes should be the hash of the retrieved address''
      else Ok w'))"
proof -
  let ?v = "be_bytes 32 (nat (vw_v w))"
  have valid: "fp_valid (px (vw_A w))" "fp_valid (py (vw_A w))" "fr_valid (vw_v w)"
    using ok by (simp_all add: viewer_fields_ok_def)
  have xy: "fp_new (int (be_val (be_bytes 32 (nat (px (vw_A w)))))) = px (vw_A w)"
    "fp_new (int (be_val (be_bytes 32 (nat (py (vw_A w)))))) = py (vw_A w)"
    using valid(1,2) field_fits by (simp_all add: be_val_be_bytes ff_valid_def del: be_bytes.simps)
  note v = be_val_take [OF fr_fits [OF valid(3)]]
  have nonneg: "0 \<le> vw_v w" using valid(3) by (simp add: ff_valid_def)
  have v28: "int (be_val (take 28 ?v)) = vw_v w div 2 ^ 32"
    unfolding v(1) using nonneg by (simp add: nat_div_distrib zdiv_int)
  have "vw_v w div 2 ^ 32 \<le> vw_v w" using nonneg zdiv_mono2 [of "vw_v w" 1 "2 ^ 32"] by simp
  then have red: "fr_new (vw_v w div 2 ^ 32) = vw_v w div 2 ^ 32"
    unfolding fr_new_def using valid(3) nonneg by (intro ff_new_id) (simp add: ff_valid_def pos_imp_zdiv_nonneg_iff)
  show ?thesis
    by (simp add: ZkViewer_from_def encodeViewingKey_def bytes_of_digits_of Let_def xy v28 red [simplified] v(3) [simplified]
        del: be_bytes.simps digits_of_append)
qed

lemma decoded_viewer:
  assumes ok: "viewer_fields_ok w" and run: "ZkViewer_from C L (encodeViewingKey L w) = Ok w'"
  shows "vw_v w' = vw_v w div 2 ^ 32" and "vw_A w' = vw_A w"
    and "int (be_val (address_hash L (vw_zkAddress w'))) = vw_v w mod 2 ^ 32"
proof -
  have valid: "fp_valid (px (vw_A w))" "fp_valid (py (vw_A w))" "fr_valid (vw_v w)"
    using ok by (simp_all add: viewer_fields_ok_def)
  from run [unfolded decode_encoded [OF ok]] obtain A where A: "Point_from C (px (vw_A w)) (py (vw_A w)) = Ok A"
    "new_ZkViewer C L A (vw_v w div 2 ^ 32) = Ok w'" "be_bytes 4 (nat (vw_v w) mod 2 ^ 32) = address_hash L (vw_zkAddress w')"
    by (auto simp del: be_bytes.simps split: if_splits)
  have "A = vw_A w" using A(1) valid(1,2) by (auto simp: Point_from_def new_Point_def split: if_splits)
  with A(2) show "vw_A w' = vw_A w" "vw_v w' = vw_v w div 2 ^ 32" by (auto simp: new_ZkViewer_def)
  have "0 \<le> vw_v w" using valid(3) by (simp add: ff_valid_def)
  then show "int (be_val (address_hash L (vw_zkAddress w'))) = vw_v w mod 2 ^ 32"
    unfolding A(3) [symmetric] be_val_take(2) [OF fr_fits [OF valid(3)]] by (simp add: zmod_int)
qed

lemma refresh_one:
  "tracker_refresh C L (addUtxoTracker L [w] (new_Tracker [])) =
     bind_result (ZkViewer_from C L (encodeViewingKey L w)) (\<lambda>w'.
       Ok ((addUtxoTracker L [w] (new_Tracker []))\<lparr>withdrawalTrackers := [], transferTrackers := [w']\<rparr>))"
proof -
  have "encodeViewingKey L w \<noteq> []" by (simp add: encodeViewingKey_def digits_of_Cons byte_digits_def del: be_bytes.simps)
      (metis Suc_neq_Zero length_0_conv length_be_bytes length_digits_of mult_is_0 numeral_2_eq_2 zero_neq_numeral)
  then show ?thesis
    by (cases "ZkViewer_from C L (encodeViewingKey L w)") (auto simp: tracker_refresh_def addUtxoTracker_def new_Tracker_def Let_def)
qed

section \<open>Properties\<close>

text \<open>an address keeps its keys. Where the curve library and base 58 do what they document, the
  address of a spending key and a point exists, holds both, and is read back from its text.\<close>

theorem address_roundtrip:
  assumes "base58_documented L" and "curve_at C N" and "fp_valid sk"
  shows "\<exists>a. ZkAddress_from C L sk N = Ok a \<and> PubSK a = sk \<and> viewing_N a = N \<and>
    new_ZkAddress C L (address_text a) = Ok a \<and>
    (\<forall>d. ZkAddress_toBuffer L a = Ok d \<longrightarrow> length d = 68)"
proof -
  from address_from [OF assms] obtain a where a: "ZkAddress_from C L sk N = Ok a" "PubSK a = sk"
    "viewing_N a = N" "new_ZkAddress C L (address_text a) = Ok a" by blast
  have "length d = 68" if "ZkAddress_toBuffer L a = Ok d" for d
    using a(4) that by (auto simp: new_ZkAddress_def ZkAddress_toBuffer_def split: if_splits)
  with a show ?thesis by blast
qed

text \<open>A tracked account is lost when the tracker is read back. The encoding of a viewer has the 32
  bytes of its scalar before the checksum, the decoder takes 28 of them and compares the last four with
  the checksum: refreshing a tracker that stored one account throws, or it yields a viewer whose scalar
  is that of the account without its last four bytes.\<close>

theorem refresh_loses_viewer:
  assumes "viewer_fields_ok w" and "0 < vw_v w"
  shows "case tracker_refresh C L (addUtxoTracker L [w] (new_Tracker [])) of
      Inl e \<Rightarrow> True
    | Inr t \<Rightarrow> \<exists>w'. transferTrackers t = [w'] \<and> vw_v w' = vw_v w div 2 ^ 32 \<and> vw_v w' \<noteq> vw_v w \<and>
        int (be_val (address_hash L (vw_zkAddress w'))) = vw_v w mod 2 ^ 32"
proof (cases "ZkViewer_from C L (encodeViewingKey L w)")
  case (Inr w')
  have "vw_v w div 2 ^ 32 < vw_v w" using assms(2) by (intro int_div_less_self) auto
  with decoded_viewer [OF assms(1) Inr] Inr show ?thesis by (simp add: refresh_one)
qed (simp add: refresh_one)

section \<open>Witnesses\<close>

text \<open>
  A toy curve of two points: the neutral element and the base point of \<open>circomlib\<close> would need its real
  arithmetic, so that the coefficients here are those of the equation that the points \<open>(0, 1)\<close> solve.
\<close>

definition toy_curve :: curve_lib where
  "toy_curve = \<lparr>inCurve = (\<lambda>(x, y). x = 0 \<and> y = 1), mulPointEscalar = (\<lambda>p n. p), addPoint = (\<lambda>p q. p),
     Base8 = (0, 1), coeff_A = 3, coeff_D = 2, redSqrt = Ok, redInvm = id\<rparr>"

definition toy_addresses :: address_lib where
  "toy_addresses = \<lparr>base58_encode = map (\<lambda>b. char_of (unat b)), base58_decode = (\<lambda>s. Ok (map (\<lambda>c. word_of_nat (of_char c)) s)),
     keccak256 = (\<lambda>_. 5), soliditySha3Raw = (\<lambda>_. 7), poseidon_hash = (\<lambda>_. 9)\<rparr>"

lemma toy_base58: "base58_documented toy_addresses"
proof -
  have "word_of_nat (of_char (char_of (unat b) :: char)) = b" for b :: byte
    using byte_bound [of b] by simp
  then show ?thesis by (simp add: base58_documented_def toy_addresses_def comp_def)
qed

lemma small_field: "0 \<le> x \<Longrightarrow> x < 100 \<Longrightarrow> fp_valid x"
  by (simp add: ff_valid_def FP_ORDER_def)

lemma toy_valid: "fp_valid 9" "fp_valid 0" "fp_valid 1" "curve_at toy_curve \<lparr>px = 0, py = 1\<rparr>"
proof -
  show small: "fp_valid 9" "fp_valid 0" "fp_valid 1" by (simp_all add: small_field)
  have "fp_new 3 = 3" "fp_new 2 = 2" "1 mod FP_ORDER = 1" "2 mod FP_ORDER = 2"
    using small_field [of 3] small_field [of 2] small by (simp_all add: ff_valid_def)
  then show "curve_at toy_curve \<lparr>px = 0, py = 1\<rparr>"
    using small by (simp add: curve_at_def toy_curve_def)
qed

theorem address_roundtrip_witness:
  "\<exists>a. ZkAddress_from toy_curve toy_addresses 9 \<lparr>px = 0, py = 1\<rparr> = Ok a \<and> PubSK a = 9 \<and>
     new_ZkAddress toy_curve toy_addresses (address_text a) = Ok a"
  using address_roundtrip [OF toy_base58 toy_valid(4,1)] by (elim exE conjE) (intro exI conjI)

definition toy_viewer :: zk_viewer where
  "toy_viewer = \<lparr>vw_A = \<lparr>px = 0, py = 1\<rparr>, vw_v = 7 * 2 ^ 32 + 7,
     vw_zkAddress = \<lparr>PubSK = 9, viewing_N = \<lparr>px = 0, py = 1\<rparr>, address_text = []\<rparr>\<rparr>"

theorem refresh_loses_viewer_witness:
  "case tracker_refresh toy_curve toy_addresses (addUtxoTracker toy_addresses [toy_viewer] (new_Tracker [])) of
     Inl e \<Rightarrow> False | Inr t \<Rightarrow> map vw_v (transferTrackers t) = [7]"
proof -
  have ok: "viewer_fields_ok toy_viewer" "0 < vw_v toy_viewer"
    by (simp_all add: viewer_fields_ok_def toy_viewer_def ff_valid_def FP_ORDER_def FR_ORDER_def)
  obtain a where a: "ZkAddress_from toy_curve toy_addresses 9 \<lparr>px = 0, py = 1\<rparr> = Ok a"
    using address_from [OF toy_base58 toy_valid(4,1)] by (elim exE conjE)
  have P: "Point_from toy_curve 0 1 = Ok \<lparr>px = 0, py = 1\<rparr>"
    using toy_valid by (simp add: Point_from_def new_Point_def) (simp add: toy_curve_def)
  have made: "new_ZkViewer toy_curve toy_addresses \<lparr>px = 0, py = 1\<rparr> 7 =
      Ok \<lparr>vw_A = \<lparr>px = 0, py = 1\<rparr>, vw_v = 7, vw_zkAddress = a\<rparr>"
    using P a toy_valid by (simp add: new_ZkViewer_def Point_mul_def) (simp add: toy_curve_def toy_addresses_def)
  have "word_bytes 7 = be_bytes 32 7" by (simp add: word_bytes_def del: be_bytes.simps)
  then have "address_hash toy_addresses a = be_bytes 4 7"
    using be_val_take(3) [of 7] by (simp add: address_hash_def toy_addresses_def del: be_bytes.simps)
  then have "ZkViewer_from toy_curve toy_addresses (encodeViewingKey toy_addresses toy_viewer) =
      Ok \<lparr>vw_A = \<lparr>px = 0, py = 1\<rparr>, vw_v = 7, vw_zkAddress = a\<rparr>"
    unfolding decode_encoded [OF ok(1)] using P made by (simp add: toy_viewer_def del: be_bytes.simps)
  then have "case tracker_refresh toy_curve toy_addresses (addUtxoTracker toy_addresses [toy_viewer] (new_Tracker [])) of
     Inl e \<Rightarrow> False | Inr t \<Rightarrow> True" by (simp add: refresh_one)
  with refresh_loses_viewer [OF ok, where C = toy_curve and L = toy_addresses] show ?thesis
    by (auto simp: toy_viewer_def split: sum.splits)
qed

end
