(* ===== verification/Block_Processor.thy ===== *)
theory Block_Processor
  imports Validator_Calls Zk_Keys "HOL-Library.List_Lexorder" "HOL-Library.Char_ord"
begin

text \<open>
  \<open>BlockProcessor\<close> of \<open>packages/core/src/node/block-processor.ts\<close>: how a node works through the proposals,
  one after another: it drops uncles, validates blocks, saves what it learns of its accounts, applies
  the patch of a block to its trees, and numbers the canonical blocks.
\<close>

section \<open>Writes\<close>

text \<open>
  A transaction collects writes, which are executed together when its operation has ended: reads in the
  operation see the tables as they were. An update takes the rows to update and what becomes of a row.
\<close>

datatype l2_write =
    Update_Proposal "proposal_row \<Rightarrow> bool" "proposal_row \<Rightarrow> proposal_row"
  | Update_MassDeposit "mass_deposit_row \<Rightarrow> bool" "mass_deposit_row \<Rightarrow> mass_deposit_row"
  | Update_Deposit "deposit_row \<Rightarrow> bool" "deposit_row \<Rightarrow> deposit_row"
  | Create_Tx tx_doc
  | Update_Tx "tx_doc \<Rightarrow> bool" "tx_doc \<Rightarrow> tx_doc"
  | Delete_PendingTx "256 word \<Rightarrow> bool"
  | Update_Utxo "utxo_doc \<Rightarrow> bool" "utxo_doc \<Rightarrow> utxo_doc"
  | Upsert_Utxo utxo_doc
  | Update_Withdrawal "withdrawal_doc \<Rightarrow> bool" "withdrawal_doc \<Rightarrow> withdrawal_doc"
  | Upsert_Withdrawal withdrawal_doc
  | Upsert_InstantWithdrawal instant_doc
  | Tree_Write "int db_op"

definition update_rows :: "('r \<Rightarrow> bool) \<Rightarrow> ('r \<Rightarrow> 'r) \<Rightarrow> 'r list \<Rightarrow> 'r list" where
  "update_rows cond f rows = map (\<lambda>r. if cond r then f r else r) rows"

definition upsert_row :: "('r \<Rightarrow> bool) \<Rightarrow> ('r \<Rightarrow> 'r) \<Rightarrow> 'r \<Rightarrow> 'r list \<Rightarrow> 'r list" where
  "upsert_row same f r rows = (if list_ex same rows then update_rows same f rows else rows @ [r])"

text \<open>What an upsert sets of a row that exists: the columns of the saved object.\<close>

definition set_utxo :: "utxo_doc \<Rightarrow> utxo_doc \<Rightarrow> utxo_doc" where
  "set_utxo new r = new\<lparr>ur_treeId := ur_treeId r, ud_depositedAt := ud_depositedAt r\<rparr>"

definition set_withdrawal :: "withdrawal_doc \<Rightarrow> withdrawal_doc \<Rightarrow> withdrawal_doc" where
  "set_withdrawal new r = new\<lparr>wr_prepayer := wr_prepayer r, wr_index := wr_index r, wr_treeId := wr_treeId r,
     wd_status := wd_status r, wd_siblings := wd_siblings r\<rparr>"

fun exec_write :: "l2_write \<Rightarrow> l2_db \<times> int tree_db \<Rightarrow> (l2_db \<times> int tree_db) result" where
  "exec_write (Update_Proposal c f) (db, t) = Ok (db\<lparr>l2_Proposal := update_rows c f (l2_Proposal db)\<rparr>, t)"
| "exec_write (Update_MassDeposit c f) (db, t) = Ok (db\<lparr>l2_MassDeposit := update_rows c f (l2_MassDeposit db)\<rparr>, t)"
| "exec_write (Update_Deposit c f) (db, t) = Ok (db\<lparr>l2_Deposit := update_rows c f (l2_Deposit db)\<rparr>, t)"
| "exec_write (Create_Tx d) (db, t) =
     (if td_hash d \<in> td_hash ` set (l2_Tx db) then Throw ''UNIQUE constraint failed''
      else Ok (db\<lparr>l2_Tx := l2_Tx db @ [d]\<rparr>, t))"
| "exec_write (Update_Tx c f) (db, t) = Ok (db\<lparr>l2_Tx := update_rows c f (l2_Tx db)\<rparr>, t)"
| "exec_write (Delete_PendingTx c) (db, t) = Ok (db\<lparr>l2_PendingTx := filter (\<lambda>h. \<not> c h) (l2_PendingTx db)\<rparr>, t)"
| "exec_write (Update_Utxo c f) (db, t) = Ok (db\<lparr>l2_Utxo := update_rows c f (l2_Utxo db)\<rparr>, t)"
| "exec_write (Upsert_Utxo r) (db, t) =
     Ok (db\<lparr>l2_Utxo := upsert_row (\<lambda>u. ur_hash u = ur_hash r) (set_utxo r) r (l2_Utxo db)\<rparr>, t)"
| "exec_write (Update_Withdrawal c f) (db, t) = Ok (db\<lparr>l2_Withdrawal := update_rows c f (l2_Withdrawal db)\<rparr>, t)"
| "exec_write (Upsert_Withdrawal r) (db, t) =
     Ok (db\<lparr>l2_Withdrawal := upsert_row (\<lambda>u. wr_hash u = wr_hash r) (set_withdrawal r) r (l2_Withdrawal db)\<rparr>, t)"
| "exec_write (Upsert_InstantWithdrawal r) (db, t) =
     Ok (db\<lparr>l2_InstantWithdrawal :=
       upsert_row (\<lambda>u. id_signature u = id_signature r) (\<lambda>_. r) r (l2_InstantWithdrawal db)\<rparr>, t)"
| "exec_write (Tree_Write w) (db, t) = Ok (db, apply_op w t)"

definition exec_writes :: "l2_write list \<Rightarrow> l2_db \<times> int tree_db \<Rightarrow> (l2_db \<times> int tree_db) result" where
  "exec_writes ws dbs = foldM exec_write ws dbs"

section \<open>The processor\<close>

datatype processor_event =
    Slash_event validation block
  | Processed_event nat "block option"

text \<open>
  The node with the registry its second layer keeps, the tracker, the last announced number (\<open>-1\<close> at
  first, nothing when no proposal was processed), and the events emitted so far.
\<close>

record processor =
  pc_node :: node
  pc_registry :: token_registry
  pc_tracker :: tracker
  pc_lastEmitted :: "int option"
  pc_events :: "processor_event list"

record processor_lib =
  pl_curve :: curve_lib
  pl_address :: address_lib
  pl_crypto :: "point note_crypto"
  pl_default_abi :: nat
  pl_withdraw_abi :: nat

abbreviation pc_db :: "processor \<Rightarrow> l2_db" where
  "pc_db p \<equiv> la_db (nd_layer2 (pc_node p))"

abbreviation pc_lib :: "processor \<Rightarrow> l2_lib" where
  "pc_lib p \<equiv> la_lib (nd_layer2 (pc_node p))"

definition set_dbs :: "l2_db \<times> int tree_db \<Rightarrow> node \<Rightarrow> node" where
  "set_dbs dbs nd = nd\<lparr>nd_layer2 := (nd_layer2 nd)\<lparr>la_db := fst dbs\<rparr>, nd_trees := snd dbs\<rparr>"

text \<open>A transaction of the writes of an operation: all are executed, or none.\<close>

definition transaction :: "l2_write list result \<Rightarrow> processor \<Rightarrow> processor result" where
  "transaction ws p =
     bind_result ws (\<lambda>ws. bind_result (exec_writes ws (pc_db p, nd_trees (pc_node p)))
       (\<lambda>dbs. Ok (p\<lparr>pc_node := set_dbs dbs (pc_node p)\<rparr>)))"

section \<open>Saving transactions\<close>

definition tx_hash :: "l2_lib \<Rightarrow> zk_tx \<Rightarrow> (256 word) result" where
  "tx_hash L tx = bind_result (zkTx_hash (lib_keccak L) tx) (\<lambda>(h, _). Ok h)"

definition tx_writes :: "l2_lib \<Rightarrow> block \<Rightarrow> bool \<Rightarrow> zk_tx \<Rightarrow> l2_write list result" where
  "tx_writes L b challenged tx = bind_result (tx_hash L tx) (\<lambda>h.
     Ok [Create_Tx \<lparr>td_hash = h, td_blockHash = bl_hash b, td_inflowCount = length (tx_inflow tx),
           td_outflowCount = length (tx_outflow tx), td_fee = tx_fee tx, td_challenged = challenged,
           td_slashed = False, td_senderAddress = None, td_receiverAddress = None, td_tokenAddr = None,
           td_erc20Amount = None, td_eth = None\<rparr>,
         Delete_PendingTx (\<lambda>k. k = h)])"

definition saveTransactions :: "l2_lib \<Rightarrow> block \<Rightarrow> bool \<Rightarrow> l2_write list result" where
  "saveTransactions L b challenged =
     bind_result (map_result (tx_writes L b challenged) (body_txs (bl_body b))) (\<lambda>wss. Ok (concat wss))"

section \<open>Notes of tracked accounts\<close>

type_synonym owned_note = "zk_address zk_note"

definition account_decrypt ::
  "processor_lib \<Rightarrow> l2_lib \<Rightarrow> token_registry \<Rightarrow> zk_viewer \<Rightarrow> zk_tx \<Rightarrow> owned_note list result" where
  "account_decrypt P L reg account tx =
     viewer_decrypt (\<lambda>memo outflow.
         bind_result (Point_mul (pl_curve P) \<lparr>px = fst (Base8 (pl_curve P)), py = snd (Base8 (pl_curve P))\<rparr>
             (vw_v account)) (\<lambda>V.
         bind_result (ZkAddress_from (pl_curve P) (pl_address P) (PubSK (vw_zkAddress account)) V) (\<lambda>own.
           utxo_decrypt (pl_crypto P) (poseidon_hash (pl_address P)) PubSK (\<lambda>_ _. own) (out_note outflow) memo
             (PubSK (vw_zkAddress account)) (vw_v account) reg)))
       (bind_result (parseMemo (lib_soltypes L) (pl_default_abi P) (pl_withdraw_abi P) tx) (\<lambda>(notes, _). Ok notes))
       tx"

text \<open>The amounts of the decrypted notes: the first token, ether, and the sum of that token.\<close>

definition note_amounts :: "owned_note list \<Rightarrow> int option \<times> int \<times> int" where
  "note_amounts decrypted =
     foldl (\<lambda>(tokenAddress, ethAmount, tokenAmount) n.
       let tokenAddress = (if tokenAddress = None \<and> tokenAddr_of n \<noteq> 0 then Some (tokenAddr_of n) else tokenAddress) in
       (tokenAddress, ethAmount + eth_of n,
        if tokenAddress = Some (tokenAddr_of n) then tokenAmount + erc20_of n else tokenAmount))
     (None, 0, 0) decrypted"

definition or_zero :: "int option \<Rightarrow> int" where
  "or_zero x = (case x of Some v \<Rightarrow> v | None \<Rightarrow> 0)"

definition determineTxOwnership ::
  "l2_lib \<Rightarrow> l2_db \<Rightarrow> zk_tx \<Rightarrow> zk_viewer \<Rightarrow> owned_note list \<Rightarrow> l2_write list result" where
  "determineTxOwnership L db tx knownReceiver decryptedNotes =
     (if list_ex (\<lambda>out. out_type out = WITHDRAWAL) (tx_outflow tx) then Ok []
      else
        let nullifiers = map in_nullifier (tx_inflow tx);
            inflows = filter (\<lambda>r. case ud_nullifier r of None \<Rightarrow> False | Some n \<Rightarrow> n \<in> set nullifiers) (l2_Utxo db);
            (tokenAddress, ethAmount, tokenAmount) = note_amounts decryptedNotes;
            me = address_text (vw_zkAddress knownReceiver) in
        if length inflows \<noteq> length (tx_inflow tx) then
          bind_result (tx_hash L tx) (\<lambda>h. Ok [Update_Tx (\<lambda>r. td_hash r = h)
            (\<lambda>r. r\<lparr>td_receiverAddress := Some me, td_tokenAddr := Some (or_zero tokenAddress),
              td_eth := Some ethAmount, td_erc20Amount := Some tokenAmount\<rparr>)])
        else if list_ex (\<lambda>n. nft_of n \<noteq> 0) decryptedNotes then Ok []
        else if 1 < card (set (map (\<lambda>n. address_text (owner n)) decryptedNotes)) then Ok []
        else
          let tokenAmountSent = (\<Sum>r\<leftarrow>inflows. if tokenAddress = Some (fp_new (or_zero (ud_tokenAddr r)))
                then fp_new (or_zero (ud_erc20Amount r)) else 0);
              ethAmountSent = (\<Sum>r\<leftarrow>inflows. fp_new (or_zero (ud_eth r)));
              selfTx = (tokenAmountSent = tokenAmount \<and> ethAmountSent - tx_fee tx = ethAmount) in
          bind_result (tx_hash L tx) (\<lambda>h. Ok [Update_Tx (\<lambda>r. td_hash r = h)
            (\<lambda>r. r\<lparr>td_senderAddress := Some me, td_receiverAddress := (if selfTx then Some me else None),
              td_tokenAddr := Some (or_zero tokenAddress), td_erc20Amount := Some (tokenAmountSent - tokenAmount),
              td_eth := Some (ethAmountSent - fp_new (tx_fee tx) - ethAmount)\<rparr>)]))"

text \<open>Every account tries every transaction with a memo; the writes of the ownership come first.\<close>

definition decrypt_step ::
  "processor_lib \<Rightarrow> l2_lib \<Rightarrow> l2_db \<Rightarrow> token_registry \<Rightarrow> zk_tx \<Rightarrow> zk_viewer \<Rightarrow> owned_note list \<times> l2_write list \<Rightarrow>
   (owned_note list \<times> l2_write list) result" where
  "decrypt_step P L db reg tx account = (\<lambda>(myUtxos, ws).
     bind_result (account_decrypt P L reg account tx) (\<lambda>decrypted.
       if decrypted = [] then Ok (myUtxos, ws)
       else bind_result (determineTxOwnership L db tx account decrypted) (\<lambda>ws'.
         Ok (myUtxos @ decrypted, ws @ ws'))))"

definition decrypt_all ::
  "processor_lib \<Rightarrow> l2_lib \<Rightarrow> l2_db \<Rightarrow> token_registry \<Rightarrow> zk_viewer list \<Rightarrow> zk_tx list \<Rightarrow>
   (owned_note list \<times> l2_write list) result" where
  "decrypt_all P L db reg accounts txs =
     foldM (\<lambda>tx. foldM (decrypt_step P L db reg tx) accounts) (filter (\<lambda>tx. tx_memo tx \<noteq> None) txs) ([], [])"

text \<open>The position of a note among the new leaves; without it the assertion fails.\<close>

fun find_index :: "('a \<Rightarrow> bool) \<Rightarrow> 'a list \<Rightarrow> nat option" where
  "find_index c [] = None"
| "find_index c (x # xs) = (if c x then Some 0 else map_option Suc (find_index c xs))"

definition order_in :: "('a \<Rightarrow> bool) \<Rightarrow> 'a list \<Rightarrow> nat result" where
  "order_in c xs = (case find_index c xs of None \<Rightarrow> Throw ''AssertionError'' | Some i \<Rightarrow> Ok i)"

definition leaf_number :: "256 word \<Rightarrow> nat \<Rightarrow> nat" where
  "leaf_number startingIndex orderInArr = nat (fp_new (uint startingIndex + int orderInArr))"

fun same_viewing_key :: "point \<Rightarrow> zk_viewer list \<Rightarrow> zk_viewer option result" where
  "same_viewing_key k [] = Ok None"
| "same_viewing_key k (t # ts) =
     bind_result (Point_eq (viewing_N (vw_zkAddress t)) k) (\<lambda>eq.
       if eq then Ok (Some t) else same_viewing_key k ts)"

definition my_utxo_row ::
  "processor_lib \<Rightarrow> zk_viewer list \<Rightarrow> header \<Rightarrow> int leaf list \<Rightarrow> owned_note \<Rightarrow> utxo_doc result" where
  "my_utxo_row P trackers prevHeader utxos n =
     (let poseidon = poseidon_hash (pl_address P); h = note_hash poseidon PubSK n in
      bind_result (order_in (\<lambda>leaf. lf_hash leaf = fp_new h) utxos) (\<lambda>orderInArr.
        let index = leaf_number (utxoIndex prevHeader) orderInArr in
      bind_result (same_viewing_key (viewing_N (owner n)) trackers) (\<lambda>viewer.
        case viewer of
          None \<Rightarrow> Throw ''Cannot create nullifier''
        | Some viewer \<Rightarrow>
            Ok \<lparr>ur_hash = h, ur_owner = address_text (owner n), ur_index = Some index, ur_treeId = None,
                ud_eth = Some (eth_of n), ud_salt = Some (salt n), ud_tokenAddr = Some (tokenAddr_of n),
                ud_erc20Amount = Some (erc20_of n), ud_nft = Some (nft_of n), ud_status = Some UNSPENT,
                ud_nullifier = Some (utxo_nullifier_static poseidon (vw_v viewer) (int index)),
                ud_usedAt = None, ud_depositedAt = None\<rparr>)))"

definition decryptMyUtxos ::
  "processor_lib \<Rightarrow> l2_lib \<Rightarrow> l2_db \<Rightarrow> token_registry \<Rightarrow> zk_viewer list \<Rightarrow> header \<Rightarrow> int leaf list \<Rightarrow>
   zk_tx list \<Rightarrow> l2_write list result" where
  "decryptMyUtxos P L db reg accounts prevHeader utxos txs =
     bind_result (decrypt_all P L db reg accounts txs) (\<lambda>(myUtxos, ws).
     bind_result (map_result (my_utxo_row P accounts prevHeader utxos) myUtxos) (\<lambda>inputs.
       Ok (ws @ map Upsert_Utxo inputs)))"

section \<open>Withdrawals\<close>

definition withdrawal_row_of ::
  "l2_lib \<Rightarrow> 256 word \<Rightarrow> zk_outflow \<Rightarrow> public_data \<Rightarrow> int \<Rightarrow> withdrawal_doc result" where
  "withdrawal_row_of L blockHash out d fee =
     bind_result (withdrawalHash (lib_keccak L) (out_note out) d) (\<lambda>h.
       Ok \<lparr>wr_hash = out_note out, wr_withdrawalHash = uint h, wr_to = lib_addr_str L (pd_to d),
           wr_prepayer = None, wr_index = None, wr_treeId = None, wd_eth = pd_eth d,
           wd_tokenAddr = pd_tokenAddr d, wd_erc20Amount = pd_erc20Amount d, wd_nft = pd_nft d, wd_fee = fee,
           wd_status = None, wd_includedIn = Some blockHash, wd_siblings = None\<rparr>)"

text \<open>The withdrawal of a transaction with exactly one, and what its memo offers a prepayer.\<close>

definition only_one :: "'a list \<Rightarrow> 'a option" where
  "only_one xs = (if length xs = 1 then Some (hd xs) else None)"

definition instant_of :: "withdrawal_doc \<Rightarrow> prepay_info \<Rightarrow> instant_doc" where
  "instant_of row info =
     \<lparr>id_signature = prepay_signature info, id_withdrawalHash = wr_withdrawalHash row,
      id_prepayFeeInEth = prepayFeeInEth info, id_prepayFeeInToken = prepayFeeInToken info,
      id_expiration = expiration info, id_prepayer = 0\<rparr>"

definition instant_writes :: "processor_lib \<Rightarrow> l2_lib \<Rightarrow> 256 word \<Rightarrow> zk_tx \<Rightarrow> l2_write list result" where
  "instant_writes P L blockHash tx =
     bind_result (parseMemo (lib_soltypes L) (pl_default_abi P) (pl_withdraw_abi P) tx) (\<lambda>(_, prepayInfo).
       case only_one (filter (\<lambda>out. out_type out = WITHDRAWAL) (tx_outflow tx)) of
         None \<Rightarrow> Ok []
       | Some outflow \<Rightarrow>
           (case out_data outflow of
              None \<Rightarrow> Throw ''Withdrawal does not have public data''
            | Some d \<Rightarrow>
                bind_result (withdrawal_row_of L blockHash outflow d (tx_fee tx)) (\<lambda>row.
                  Ok (Upsert_Withdrawal row #
                    map (Upsert_InstantWithdrawal \<circ> instant_of row) (case prepayInfo of None \<Rightarrow> [] | Some info \<Rightarrow> [info])))))"

definition saveWithdrawals ::
  "processor_lib \<Rightarrow> l2_lib \<Rightarrow> block \<Rightarrow> (160 word) list \<Rightarrow> l2_write list result" where
  "saveWithdrawals P L b accounts =
     (let txs = body_txs (bl_body b);
          withdrawalTxs = filter (\<lambda>tx. list_ex (\<lambda>out. out_type out = WITHDRAWAL) (tx_outflow tx)) txs;
          mine = List.map_filter (\<lambda>out. case out_data out of
              None \<Rightarrow> None
            | Some d \<Rightarrow>
                if lib_addr_str L (pd_to d) \<in> (\<lambda>a. lib_addr_str L (uint a)) ` set accounts then Some (out, d) else None)
            (withdrawal_outflows txs) in
      bind_result (map_result (instant_writes P L (bl_hash b)) withdrawalTxs) (\<lambda>instant.
      bind_result (map_result (\<lambda>(out, d). withdrawal_row_of L (bl_hash b) out d (pd_fee d)) mine) (\<lambda>rows.
        Ok (concat instant @ map Upsert_Withdrawal rows))))"

section \<open>Patches\<close>

record block_patch =
  bp_block :: "256 word"
  bp_treePatch :: "int grove_patch"
  bp_massDeposits :: "(256 word) list"
  bp_header :: header
  bp_prevHeader :: header
  bp_noteHashes :: "int list"

definition makePatch :: "l2_lib \<Rightarrow> l2_db \<Rightarrow> header \<Rightarrow> block \<Rightarrow> block_patch result" where
  "makePatch L db parent b =
     bind_result (getGrovePatch L db b) (\<lambda>treePatch.
       Ok \<lparr>bp_block = bl_hash b, bp_treePatch = treePatch,
           bp_massDeposits = map (massDepositHash (lib_keccak L)) (massDeposits (bl_body b)),
           bp_header = bl_header b, bp_prevHeader = parent,
           bp_noteHashes = map out_note (withdrawal_outflows (body_txs (bl_body b)))\<rparr>)"

definition markUsedUtxosAsNullified :: "nat list \<Rightarrow> 256 word \<Rightarrow> l2_write" where
  "markUsedUtxosAsNullified nullifiers blockHash =
     Update_Utxo (\<lambda>r. case ud_nullifier r of None \<Rightarrow> False | Some n \<Rightarrow> n \<in> set (map int nullifiers))
       (\<lambda>r. r\<lparr>ud_status := Some SPENT, ud_usedAt := Some blockHash\<rparr>)"

definition markNewUtxosAsUnspent :: "int list \<Rightarrow> l2_write" where
  "markNewUtxosAsUnspent utxos = Update_Utxo (\<lambda>r. ur_hash r \<in> set utxos) (\<lambda>r. r\<lparr>ud_status := Some UNSPENT\<rparr>)"

definition markNewWithdrawalsAsUnfinalized :: "int list \<Rightarrow> l2_write" where
  "markNewWithdrawalsAsUnfinalized noteHashes =
     Update_Withdrawal (\<lambda>r. wr_hash r \<in> set noteHashes) (\<lambda>r. r\<lparr>wd_status := Some WAITING_FINALIZATION\<rparr>)"

text \<open>For every hash the first candidate in the order of the indices as texts.\<close>

definition markMassDepositsAsIncludedIn ::
  "l2_lib \<Rightarrow> l2_db \<Rightarrow> (256 word) list \<Rightarrow> 256 word \<Rightarrow> l2_write list result" where
  "markMassDepositsAsIncludedIn L db massDepositHashes blockHash =
     (let asMassDeposit = (\<lambda>r. \<lparr>md_merged = mdr_merged r, md_fee = mdr_fee r\<rparr>);
          candidates = sort_key (\<lambda>r. decimal (mdr_index r)) (filter (\<lambda>r. mdr_includedIn r = None) (l2_MassDeposit db));
          found = List.map_filter (\<lambda>hash. find (\<lambda>r. hash = massDepositHash (lib_keccak L) (asMassDeposit r)) candidates)
            massDepositHashes in
      if found = [] then Ok []
      else
        bind_result (getDeposits db (map asMassDeposit found)) (\<lambda>deposits.
          Ok [Update_MassDeposit (\<lambda>r. mdr_index r \<in> mdr_index ` set found) (\<lambda>r. r\<lparr>mdr_includedIn := Some blockHash\<rparr>),
              Update_Deposit (\<lambda>d. dp_note d \<in> dp_note ` set deposits) (\<lambda>d. d\<lparr>dp_includedIn := Some blockHash\<rparr>)]))"

definition updateMyUtxos ::
  "processor_lib \<Rightarrow> l2_db \<Rightarrow> zk_viewer list \<Rightarrow> block_patch \<Rightarrow> l2_write list result" where
  "updateMyUtxos P db accounts patch =
     (let utxos = gp_utxos (bp_treePatch patch);
          texts = map (\<lambda>a. address_text (vw_zkAddress a)) accounts;
          myStoredUtxos = filter (\<lambda>r. ur_hash r \<in> lf_hash ` set utxos \<and> ur_owner r \<in> set texts) (l2_Utxo db) in
      map_result (\<lambda>r.
        bind_result (order_in (\<lambda>leaf. lf_hash leaf = fp_new (ur_hash r)) utxos) (\<lambda>orderInArr.
          let index = leaf_number (utxoIndex (bp_prevHeader patch)) orderInArr in
          case find (\<lambda>a. address_text (vw_zkAddress a) = ur_owner r) accounts of
            None \<Rightarrow> Throw ''Cannot create nullifier''
          | Some viewer \<Rightarrow>
              let nullifier = utxo_nullifier_static (poseidon_hash (pl_address P)) (vw_v viewer) (int index) in
              Ok (Update_Utxo (\<lambda>u. ur_hash u = ur_hash r)
                (\<lambda>u. u\<lparr>ur_index := Some index, ud_nullifier := Some nullifier\<rparr>)))) myStoredUtxos)"

definition trees_withdrawals :: "l2_db \<Rightarrow> int withdrawal_row list" where
  "trees_withdrawals db = map withdrawal_row.truncate (l2_Withdrawal db)"

definition trees_utxos :: "l2_db \<Rightarrow> int utxo_row list" where
  "trees_utxos db = map utxo_row.truncate (l2_Utxo db)"

text \<open>The Merkle proofs come from the patched grove.\<close>

definition updateMyWithdrawals ::
  "l2_lib \<Rightarrow> l2_db \<Rightarrow> int tree_db \<Rightarrow> int grove \<Rightarrow> (160 word) list \<Rightarrow> block_patch \<Rightarrow> l2_write list result" where
  "updateMyWithdrawals L db trees g accounts patch =
     (let withdrawals = gp_withdrawals (bp_treePatch patch);
          myStoredWithdrawals = filter (\<lambda>r. wr_hash r \<in> set (bp_noteHashes patch) \<and>
            wr_to r \<in> (\<lambda>a. lib_addr_str L (uint a)) ` set accounts) (l2_Withdrawal db) in
      map_result (\<lambda>r.
        bind_result (order_in (\<lambda>w. wr_withdrawalHash r = lf_hash w) withdrawals) (\<lambda>orderInArr.
          let index = nat (uint (withdrawalIndex (bp_prevHeader patch))) + orderInArr in
          bind_result (withdrawalMerkleProof trees (trees_withdrawals db) g
              (lf_hash (withdrawals ! orderInArr)) (Some index)) (\<lambda>merkleProof.
            Ok (Update_Withdrawal (\<lambda>u. wr_hash u = wr_hash r)
              (\<lambda>u. u\<lparr>wr_index := Some index, wd_includedIn := Some (bp_block patch),
                wd_siblings := Some (mp_siblings merkleProof)\<rparr>))))) myStoredWithdrawals)"

text \<open>The writes of the patch and the patched grove.\<close>

definition applyPatch ::
  "processor_lib \<Rightarrow> node \<Rightarrow> tracker \<Rightarrow> block_patch \<Rightarrow> (l2_write list \<times> int grove) result" where
  "applyPatch P nd tracked patch =
     (let db = la_db (nd_layer2 nd); L = la_lib (nd_layer2 nd); treePatch = bp_treePatch patch in
      bind_result (markMassDepositsAsIncludedIn L db (bp_massDeposits patch) (bp_block patch)) (\<lambda>included.
      bind_result (applyGrovePatch (nd_trees nd) (trees_utxos db) (trees_withdrawals db) (nd_grove nd) treePatch)
        (\<lambda>(g, ops).
      bind_result (updateMyUtxos P db (transferTrackers tracked) patch) (\<lambda>utxoWrites.
      bind_result (updateMyWithdrawals L db (nd_trees nd) g (withdrawalTrackers tracked) patch) (\<lambda>withdrawalWrites.
        Ok (markUsedUtxosAsNullified (gp_nullifiers treePatch) (bp_block patch) # included @
            [markNewUtxosAsUnspent (map lf_hash (gp_utxos treePatch)),
             markNewWithdrawalsAsUnfinalized (bp_noteHashes patch)] @
            map Tree_Write ops @ utxoWrites @ withdrawalWrites, g))))))"

section \<open>One block\<close>

definition emit :: "processor_event \<Rightarrow> processor \<Rightarrow> processor" where
  "emit e p = p\<lparr>pc_events := pc_events p @ [e]\<rparr>"

definition set_grove :: "int grove \<Rightarrow> processor \<Rightarrow> processor" where
  "set_grove g p = p\<lparr>pc_node := (pc_node p)\<lparr>nd_grove := g\<rparr>\<rparr>"

text \<open>The cache of the trees is switched on and emptied before, off and emptied after the transaction.\<close>

definition start_cache :: "'a grove \<Rightarrow> 'a grove" where
  "start_cache g = g\<lparr>gr_treeCache := cache_clear (cache_enable (gr_treeCache g))\<rparr>"

definition stop_cache :: "'a grove \<Rightarrow> 'a grove" where
  "stop_cache g = g\<lparr>gr_treeCache := cache_clear (cache_disable (gr_treeCache g))\<rparr>"

definition drop_uncle :: "block \<Rightarrow> processor \<Rightarrow> processor result" where
  "drop_uncle b = transaction (Ok
     [Update_Proposal (\<lambda>r. pp_hash r = bl_hash b) (\<lambda>r. r\<lparr>pp_isUncle := Some True\<rparr>),
      Update_MassDeposit (\<lambda>r. mdr_includedIn r = Some (bl_hash b)) (\<lambda>r. r\<lparr>mdr_includedIn := None\<rparr>)])"

definition slash_block :: "block \<Rightarrow> validation \<Rightarrow> processor \<Rightarrow> processor result" where
  "slash_block b v p =
     bind_result (transaction (bind_result (saveTransactions (pc_lib p) b True) (\<lambda>txWrites.
       Ok ([Update_Proposal (\<lambda>r. pp_hash r = bl_hash b) (\<lambda>r. r\<lparr>pp_verified := Some False\<rparr>),
            Update_MassDeposit (\<lambda>r. mdr_includedIn r = Some (bl_hash b)) (\<lambda>r. r\<lparr>mdr_includedIn := None\<rparr>)] @
           txWrites))) p) (\<lambda>p. Ok (emit (Slash_event v b) p))"

text \<open>
  The transaction of a block that is not slashed: its writes and the grove that the patch leads to. The
  trees change in memory before the writes are executed.
\<close>

definition block_writes ::
  "processor_lib \<Rightarrow> token_registry \<Rightarrow> block_patch \<Rightarrow> block \<Rightarrow> processor \<Rightarrow> (l2_write list \<times> int grove) result" where
  "block_writes P reg patch b p =
     (let nd = pc_node p; L = pc_lib p; db = pc_db p; tracked = pc_tracker p in
      bind_result (saveTransactions L b False) (\<lambda>txWrites.
      bind_result (decryptMyUtxos P L db reg (transferTrackers tracked) (bp_prevHeader patch)
          (gp_utxos (bp_treePatch patch)) (body_txs (bl_body b))) (\<lambda>utxoWrites.
      bind_result (saveWithdrawals P L b (withdrawalTrackers tracked)) (\<lambda>withdrawalWrites.
      bind_result (applyPatch P (nd\<lparr>nd_grove := start_cache (nd_grove nd)\<rparr>) tracked patch) (\<lambda>(patchWrites, g).
        Ok (txWrites @ utxoWrites @ withdrawalWrites @ patchWrites @
            [Update_Proposal (\<lambda>r. pp_hash r = bl_hash b) (\<lambda>r. r\<lparr>pp_verified := Some True, pp_isUncle := None\<rparr>)],
            g))))))"

text \<open>
  The same transaction up to the point where it throws: the trees as they are then, with the handlers
  that \<open>db.onError\<close> has collected.
\<close>

definition block_stop ::
  "processor_lib \<Rightarrow> token_registry \<Rightarrow> block_patch \<Rightarrow> block \<Rightarrow> processor \<Rightarrow>
   int grove \<times> (int grove \<Rightarrow> int grove) list" where
  "block_stop P reg patch b p =
     (let nd = pc_node p; L = pc_lib p; db = pc_db p; tracked = pc_tracker p; g = start_cache (nd_grove nd) in
      case bind_result (saveTransactions L b False) (\<lambda>_.
           bind_result (decryptMyUtxos P L db reg (transferTrackers tracked) (bp_prevHeader patch)
             (gp_utxos (bp_treePatch patch)) (body_txs (bl_body b))) (\<lambda>_.
           bind_result (saveWithdrawals P L b (withdrawalTrackers tracked)) (\<lambda>_.
             markMassDepositsAsIncludedIn L db (bp_massDeposits patch) (bp_block patch)))) of
        Inl e \<Rightarrow> (g, [])
      | Inr _ \<Rightarrow> applyGrovePatch_stop (nd_trees nd) (trees_utxos db) (trees_withdrawals db) g (bp_treePatch patch))"

text \<open>
  \<open>execAndCallback\<close>: when the callback throws or the writes fail, the handlers of \<open>db.onError\<close> run on
  the trees as they are; in any case the cache is switched off and emptied last.
\<close>

definition accept_block :: "processor_lib \<Rightarrow> header \<Rightarrow> block \<Rightarrow> processor \<Rightarrow> processor \<times> unit result" where
  "accept_block P parent b p =
     (let reg = getTokenRegistry (pc_lib p) (pc_db p) (pc_registry p);
          p = p\<lparr>pc_registry := reg\<rparr> in
      case makePatch (pc_lib p) (pc_db p) parent b of
        Inl e \<Rightarrow> (p, Inl e)
      | Inr patch \<Rightarrow>
          (case bind_result (block_writes P reg patch b p) (\<lambda>(ws, g).
                  bind_result (transaction (Ok ws) p) (\<lambda>p. Ok (set_grove (stop_cache g) p))) of
             Inl e \<Rightarrow>
               let (g, handlers) = block_stop P reg patch b p
               in (set_grove (stop_cache (run_handlers handlers g)) p, Inl e)
           | Inr p \<Rightarrow> (p, Ok ())))"

type_synonym block_validator = "node \<Rightarrow> header \<Rightarrow> block \<Rightarrow> validation result"

definition on_error :: "processor \<Rightarrow> processor result \<Rightarrow> processor \<times> unit result" where
  "on_error p r = (case r of Inl e \<Rightarrow> (p, Inl e) | Inr p' \<Rightarrow> (p', Ok ()))"

definition processBlock ::
  "processor_lib \<Rightarrow> block_validator \<Rightarrow> unprocessed \<Rightarrow> processor \<Rightarrow> processor \<times> nat result" where
  "processBlock P validate u p =
     (let parent = un_parent u; b = un_block u; proposal = un_proposal u; num = pp_proposalNum proposal in
      if num = None \<or> num = Some 0 \<or> pp_proposedAt proposal = None \<or> pp_proposedAt proposal = Some 0
      then (p, Throw ''Invalid proposal data'')
      else
        let (p, result) =
          (if isUncleBlock (pc_db p) (parentBlock (bl_header b)) (the num) then on_error p (drop_uncle b p)
           else
             (case validate (pc_node p) parent b of
                Inl e \<Rightarrow> (p, Inl e)
              | Inr v \<Rightarrow> if slashable v then on_error p (slash_block b v p) else accept_block P parent b p))
        in (p, bind_result result (\<lambda>_. Ok (the num))))"

section \<open>Canonical numbers\<close>

definition set_canonical :: "256 word \<Rightarrow> nat \<Rightarrow> l2_db \<Rightarrow> l2_db" where
  "set_canonical h n db = db\<lparr>l2_Proposal :=
     update_rows (\<lambda>r. pp_hash r = h) (\<lambda>r. r\<lparr>pp_canonicalNum := Some n\<rparr>) (l2_Proposal db)\<rparr>"

definition calcCanonicalBlockHeight :: "l2_lib \<Rightarrow> nat \<Rightarrow> l2_db \<Rightarrow> l2_db result" where
  "calcCanonicalBlockHeight L proposalNum db =
     (case filter (\<lambda>r. pp_proposalNum r = Some proposalNum) (l2_Proposal db) of
        [proposal] \<Rightarrow>
          if proposalNum = 0 then Ok (set_canonical (pp_hash proposal) 0 db)
          else
            (case pp_proposalData proposal of
               None \<Rightarrow> Ok db
             | Some calldata \<Rightarrow>
                 if calldata = [] then Ok db
                 else
                   bind_result (stored_block L calldata None) (\<lambda>b.
                     case getProposal db (parentBlock (bl_header b)) of
                       None \<Rightarrow> Throw ''Unable to find parent proposal''
                     | Some parent \<Rightarrow>
                         (case pp_canonicalNum parent of
                            None \<Rightarrow> Throw ''Expected canonicalNum to exist!''
                          | Some n \<Rightarrow> Ok (set_canonical (pp_hash proposal) (n + 1) db))))
      | _ \<Rightarrow> Throw ''Did not find one proposal for number'')"

text \<open>The numbers are set one by one, so that those before an error stay.\<close>

fun canonical_loop :: "l2_lib \<Rightarrow> nat list \<Rightarrow> l2_db \<Rightarrow> l2_db \<times> unit result" where
  "canonical_loop L [] db = (db, Ok ())"
| "canonical_loop L (x # xs) db =
     (case calcCanonicalBlockHeight L x db of
        Inl e \<Rightarrow> (db, Inl e)
      | Inr db' \<Rightarrow> canonical_loop L xs db')"

definition calcCanonicalBlockHeights :: "l2_lib \<Rightarrow> nat \<Rightarrow> l2_db \<Rightarrow> l2_db \<times> unit result" where
  "calcCanonicalBlockHeights L latestProcessed db =
     (case first_row (order_asc pp_proposalNum (filter (\<lambda>r. pp_canonicalNum r = None \<and>
          (pp_proposalData r \<noteq> None \<or> pp_proposalNum r = Some 0)) (l2_Proposal db))) of
        None \<Rightarrow> (db, Ok ())
      | Some r \<Rightarrow>
          (case pp_proposalNum r of
             None \<Rightarrow> (db, Throw ''Proposal number is null'')
           | Some start \<Rightarrow>
               canonical_loop L [start..<Suc (min (length (l2_Proposal db)) latestProcessed)] db))"

definition number_blocks :: "nat \<Rightarrow> processor \<Rightarrow> processor \<times> unit result" where
  "number_blocks latestProcessed p =
     (let (db, r) = calcCanonicalBlockHeights (pc_lib p) latestProcessed (pc_db p) in
      (p\<lparr>pc_node := set_dbs (db, nd_trees (pc_node p)) (pc_node p)\<rparr>, r))"

section \<open>The loop\<close>

definition latest_processed :: "l2_db \<Rightarrow> proposal_row option" where
  "latest_processed db = first_row (order_desc pp_proposalNum
     (filter (\<lambda>r. pp_verified r \<noteq> None \<or> pp_isUncle r \<noteq> None) (l2_Proposal db)))"

text \<open>Nothing is left to process: the last number is announced once.\<close>

definition finish_round :: "processor \<Rightarrow> processor" where
  "finish_round p =
     (let latest = (case latest_processed (pc_db p) of None \<Rightarrow> None | Some r \<Rightarrow> pp_proposalNum r);
          num = (case latest of None \<Rightarrow> 0 | Some n \<Rightarrow> n);
          (p, numbered) = number_blocks num p in
      case numbered of
        Inl _ \<Rightarrow> p
      | Inr _ \<Rightarrow>
          if pc_lastEmitted p \<noteq> map_option int latest
          then emit (Processed_event num None) (p\<lparr>pc_lastEmitted := map_option int latest\<rparr>) else p)"

text \<open>One round, and whether the loop goes on: an error ends it.\<close>

definition process_round :: "processor_lib \<Rightarrow> block_validator \<Rightarrow> processor \<Rightarrow> processor \<times> bool" where
  "process_round P validate p =
     (case getOldestUnprocessedBlock (pc_lib p) (pc_db p) of
        Inl _ \<Rightarrow> (p, False)
      | Inr None \<Rightarrow> (finish_round p, False)
      | Inr (Some u) \<Rightarrow>
          (case processBlock P validate u p of
             (p, Inl _) \<Rightarrow> (p, False)
           | (p, Inr num) \<Rightarrow>
               (case number_blocks num p of
                  (p, Inl _) \<Rightarrow> (p, False)
                | (p, Inr _) \<Rightarrow> (emit (Processed_event num (Some (un_block u))) p, True))))"

partial_function (option) processBlocks :: "processor_lib \<Rightarrow> block_validator \<Rightarrow> processor \<Rightarrow> processor option" where
  "processBlocks P validate p =
     (let r = process_round P validate p in
      if snd r then processBlocks P validate (fst r) else Some (fst r))"

end
