(* ===== verification/Processor_Writes.thy ===== *)
theory Processor_Writes
  imports Block_Processor Generator_Proofs
begin

text \<open>
  What the writes of the block processor do to each table, and that a failed transaction does nothing.
\<close>

section \<open>Effects on the tables\<close>

fun proposal_effect :: "l2_write \<Rightarrow> proposal_row list \<Rightarrow> proposal_row list" where
  "proposal_effect (Update_Proposal c f) rows = update_rows c f rows"
| "proposal_effect _ rows = rows"

fun utxo_effect :: "l2_write \<Rightarrow> utxo_doc list \<Rightarrow> utxo_doc list" where
  "utxo_effect (Update_Utxo c f) rows = update_rows c f rows"
| "utxo_effect (Upsert_Utxo r) rows = upsert_row (\<lambda>u. ur_hash u = ur_hash r) (set_utxo r) r rows"
| "utxo_effect _ rows = rows"

fun withdrawal_effect :: "l2_write \<Rightarrow> withdrawal_doc list \<Rightarrow> withdrawal_doc list" where
  "withdrawal_effect (Update_Withdrawal c f) rows = update_rows c f rows"
| "withdrawal_effect (Upsert_Withdrawal r) rows = upsert_row (\<lambda>u. wr_hash u = wr_hash r) (set_withdrawal r) r rows"
| "withdrawal_effect _ rows = rows"

fun deposit_effect :: "l2_write \<Rightarrow> deposit_row list \<Rightarrow> deposit_row list" where
  "deposit_effect (Update_Deposit c f) rows = update_rows c f rows"
| "deposit_effect _ rows = rows"

fun tree_effect :: "l2_write \<Rightarrow> int tree_db \<Rightarrow> int tree_db" where
  "tree_effect (Tree_Write w) t = apply_op w t"
| "tree_effect _ t = t"

lemma exec_writes_Nil [simp]: "exec_writes [] dbs = Ok dbs"
  by (simp add: exec_writes_def)

lemma exec_writes_Cons [simp]: "exec_writes (w # ws) dbs = bind_result (exec_write w dbs) (exec_writes ws)"
  by (cases "exec_write w dbs") (simp_all add: exec_writes_def)

lemma exec_write_effects:
  assumes "exec_write w (db, t) = Ok (db', t')"
  shows "l2_Proposal db' = proposal_effect w (l2_Proposal db)" and "l2_Utxo db' = utxo_effect w (l2_Utxo db)"
    and "l2_Withdrawal db' = withdrawal_effect w (l2_Withdrawal db)"
    and "l2_Deposit db' = deposit_effect w (l2_Deposit db)" and "t' = tree_effect w t"
    and "l2_Header db' = l2_Header db" and "l2_Block db' = l2_Block db" and "l2_Slash db' = l2_Slash db"
    and "l2_TokenRegistry db' = l2_TokenRegistry db"
  using assms by (cases w; auto split: if_splits)+

lemma exec_writes_effects:
  assumes "exec_writes ws (db, t) = Ok (db', t')"
  shows "l2_Proposal db' = fold proposal_effect ws (l2_Proposal db)" and "l2_Utxo db' = fold utxo_effect ws (l2_Utxo db)"
    and "l2_Withdrawal db' = fold withdrawal_effect ws (l2_Withdrawal db)"
    and "l2_Deposit db' = fold deposit_effect ws (l2_Deposit db)" and "t' = fold tree_effect ws t"
    and "l2_Header db' = l2_Header db" and "l2_Block db' = l2_Block db" and "l2_Slash db' = l2_Slash db"
    and "l2_TokenRegistry db' = l2_TokenRegistry db"
proof (atomize (full), insert assms, induction ws arbitrary: db t)
  case (Cons w ws)
  then obtain db1 t1 where step: "exec_write w (db, t) = Ok (db1, t1)" and rest: "exec_writes ws (db1, t1) = Ok (db', t')"
    by auto
  from Cons.IH [OF rest] exec_write_effects [OF step] show ?case by simp
qed simp

text \<open>Created transactions are new.\<close>

lemma exec_writes_keeps_txs:
  assumes "exec_writes ws (db, t) = Ok (db', t')" and "\<forall>c f. Update_Tx c f \<in> set ws \<longrightarrow> (\<forall>r. td_hash (f r) = td_hash r)"
  shows "td_hash ` set (l2_Tx db) \<subseteq> td_hash ` set (l2_Tx db') \<and>
    (\<forall>d. Create_Tx d \<in> set ws \<longrightarrow> td_hash d \<notin> td_hash ` set (l2_Tx db))"
  using assms
proof (induction ws arbitrary: db t)
  case (Cons w ws)
  then obtain db1 t1 where step: "exec_write w (db, t) = Ok (db1, t1)" and rest: "exec_writes ws (db1, t1) = Ok (db', t')"
    by auto
  have upd: "\<forall>c f. Update_Tx c f \<in> set ws \<longrightarrow> (\<forall>r. td_hash (f r) = td_hash r)"
    using Cons.prems(2) by simp
  have "td_hash ` set (l2_Tx db) \<subseteq> td_hash ` set (l2_Tx db1)"
  proof (cases w)
    case (Update_Tx c f)
    then have "\<forall>r. td_hash (f r) = td_hash r" using Cons.prems(2) by simp
    then have "map td_hash (update_rows c f (l2_Tx db)) = map td_hash (l2_Tx db)" by (simp add: update_rows_def)
    then have "td_hash ` set (update_rows c f (l2_Tx db)) = td_hash ` set (l2_Tx db)" by (metis set_map)
    with Update_Tx step show ?thesis by auto
  qed (use step in \<open>auto split: if_splits\<close>)
  then have kept: "h \<in> td_hash ` set (l2_Tx db) \<Longrightarrow> h \<in> td_hash ` set (l2_Tx db1)" for h by (rule subsetD)
  have new: "w = Create_Tx d \<Longrightarrow> td_hash d \<notin> td_hash ` set (l2_Tx db)" for d
    using step by (auto split: if_splits)
  note IH = Cons.IH [OF rest upd]
  show ?case
  proof (intro conjI allI impI subsetI)
    show "h \<in> td_hash ` set (l2_Tx db')" if "h \<in> td_hash ` set (l2_Tx db)" for h
      using IH kept [OF that] by blast
    show "td_hash d \<notin> td_hash ` set (l2_Tx db)" if "Create_Tx d \<in> set (w # ws)" for d
    proof (cases "w = Create_Tx d")
      case False
      then have "td_hash d \<notin> td_hash ` set (l2_Tx db1)" using that IH by auto
      then show ?thesis using kept by blast
    qed (rule new)
  qed
qed simp

section \<open>Transactions\<close>

lemma transaction_run:
  assumes "transaction (Ok ws) p = Ok p'"
  shows "\<exists>db' t'. exec_writes ws (pc_db p, nd_trees (pc_node p)) = Ok (db', t') \<and>
    p' = p\<lparr>pc_node := set_dbs (db', t') (pc_node p)\<rparr>"
  using assms by (auto simp: transaction_def)

lemma set_dbs_simps [simp]:
  "la_db (nd_layer2 (set_dbs dbs nd)) = fst dbs" "nd_trees (set_dbs dbs nd) = snd dbs"
  "la_lib (nd_layer2 (set_dbs dbs nd)) = la_lib (nd_layer2 nd)" "nd_grove (set_dbs dbs nd) = nd_grove nd"
  "la_config (nd_layer2 (set_dbs dbs nd)) = la_config (nd_layer2 nd)"
  "la_utxoHasher (nd_layer2 (set_dbs dbs nd)) = la_utxoHasher (nd_layer2 nd)"
  "la_withdrawalHasher (nd_layer2 (set_dbs dbs nd)) = la_withdrawalHasher (nd_layer2 nd)"
  "la_nullifierHasher (nd_layer2 (set_dbs dbs nd)) = la_nullifierHasher (nd_layer2 nd)"
  by (simp_all add: set_dbs_def)

section \<open>The writes of a block\<close>

text \<open>The kinds of writes of each step.\<close>

lemma map_result_back:
  assumes "map_result f xs = Ok ys" and "y \<in> set ys"
  shows "\<exists>x\<in>set xs. f x = Ok y"
  using assms by (induction xs arbitrary: ys) auto

lemma saveTransactions_writes:
  assumes "saveTransactions L b c = Ok ws" and "w \<in> set ws"
  shows "(\<exists>d. w = Create_Tx d) \<or> (\<exists>k. w = Delete_PendingTx k)"
proof -
  obtain wss ws' where wss: "map_result (tx_writes L b c) (body_txs (bl_body b)) = Ok wss" "ws' \<in> set wss" "w \<in> set ws'"
    using assms by (auto simp: saveTransactions_def)
  from map_result_back [OF wss(1,2)] wss(3) show ?thesis by (auto simp: tx_writes_def)
qed

lemma saveTransactions_creates:
  assumes run: "saveTransactions L b c = Ok ws" and tx: "tx \<in> set (body_txs (bl_body b))" and h: "tx_hash L tx = Ok h"
  shows "\<exists>d. Create_Tx d \<in> set ws \<and> td_hash d = h"
proof -
  obtain wss where wss: "map_result (tx_writes L b c) (body_txs (bl_body b)) = Ok wss" "ws = concat wss"
    using run by (auto simp: saveTransactions_def)
  from map_result_Ok_set [OF wss(1) tx] obtain y where y: "y \<in> set wss" "tx_writes L b c tx = Ok y" by blast
  then obtain d where "Create_Tx d \<in> set y" "td_hash d = h" using h by (fastforce simp: tx_writes_def)
  with y(1) wss(2) show ?thesis by auto
qed

lemma ownership_writes:
  assumes "determineTxOwnership L db tx acc ns = Ok ws" and "w \<in> set ws"
  shows "\<exists>c f. w = Update_Tx c f \<and> (\<forall>r. td_hash (f r) = td_hash r)"
  using assms by (auto simp: determineTxOwnership_def Let_def split: if_splits prod.splits)

definition tx_updates :: "l2_write list \<Rightarrow> bool" where
  "tx_updates ws \<longleftrightarrow> (\<forall>w\<in>set ws. \<exists>c f. w = Update_Tx c f \<and> (\<forall>r. td_hash (f r) = td_hash r))"

lemma decrypt_step_writes:
  assumes "decrypt_step P L db reg tx acc s = Ok s'" and "tx_updates (snd s)"
  shows "tx_updates (snd s')"
  using assms ownership_writes
  by (auto simp: decrypt_step_def tx_updates_def case_prod_beta split: if_splits)

lemma decrypt_all_writes:
  assumes "decrypt_all P L db reg accounts txs = Ok s"
  shows "tx_updates (snd s)"
  using assms unfolding decrypt_all_def
proof (rule foldM_invariant)
  show "tx_updates (snd ([], []))" by (simp add: tx_updates_def)
  show "tx_updates (snd t)" if "tx_updates (snd s)" "foldM (decrypt_step P L db reg tx) accounts s = Ok t" for tx s t
    using that(2) by (rule foldM_invariant [where P = "\<lambda>s. tx_updates (snd s)"]) (use that(1) decrypt_step_writes in blast)+
qed

definition tx_kind :: "l2_write \<Rightarrow> bool" where
  "tx_kind w \<longleftrightarrow> (\<exists>d. w = Create_Tx d) \<or> (\<exists>k. w = Delete_PendingTx k)"

definition note_kind :: "l2_write \<Rightarrow> bool" where
  "note_kind w \<longleftrightarrow> (\<exists>c f. w = Update_Tx c f \<and> (\<forall>r. td_hash (f r) = td_hash r)) \<or>
     (\<exists>r. w = Upsert_Utxo r \<and> ur_treeId r = None)"

definition withdrawal_kind :: "l2_write \<Rightarrow> bool" where
  "withdrawal_kind w \<longleftrightarrow> (\<exists>r. w = Upsert_Withdrawal r \<and> wr_treeId r = None \<and> wr_index r = None) \<or>
     (\<exists>r. w = Upsert_InstantWithdrawal r)"

definition patch_kind :: "l2_write \<Rightarrow> bool" where
  "patch_kind w \<longleftrightarrow> (\<exists>c f. w = Update_Utxo c f \<and> (\<forall>r. ur_treeId (f r) = ur_treeId r \<and> ur_hash (f r) = ur_hash r)) \<or>
     (\<exists>c f. w = Update_MassDeposit c f) \<or> (\<exists>c f. w = Update_Deposit c f \<and> (\<forall>r. dp_note (f r) = dp_note r)) \<or>
     (\<exists>c f. w = Update_Withdrawal c f \<and> (\<forall>r. wr_treeId (f r) = wr_treeId r \<and> wr_hash (f r) = wr_hash r)) \<or>
     (\<exists>t. w = Tree_Write t)"

lemma decryptMyUtxos_kind:
  assumes "decryptMyUtxos P L db reg accounts prev utxos txs = Ok ws" and "w \<in> set ws"
  shows "note_kind w"
proof -
  obtain ns ws1 inputs where parts: "decrypt_all P L db reg accounts txs = Ok (ns, ws1)"
    "map_result (my_utxo_row P accounts prev utxos) ns = Ok inputs" "ws = ws1 @ map Upsert_Utxo inputs"
    using assms(1) by (auto simp: decryptMyUtxos_def)
  from decrypt_all_writes [OF parts(1)] have "w \<in> set ws1 \<Longrightarrow> note_kind w" by (auto simp: tx_updates_def note_kind_def)
  moreover have "ur_treeId r = None" if "r \<in> set inputs" for r
    using map_result_back [OF parts(2) that] by (auto simp: my_utxo_row_def Let_def split: option.splits)
  ultimately show ?thesis using assms(2) parts(3) by (auto simp: note_kind_def)
qed

lemma withdrawal_row_of_fields:
  "withdrawal_row_of L h out d fee = Ok r \<Longrightarrow> wr_treeId r = None \<and> wr_index r = None \<and> wr_hash r = out_note out \<and>
     wd_siblings r = None"
  by (auto simp: withdrawal_row_of_def)

lemma instant_writes_kind:
  assumes "instant_writes P L h tx = Ok ws" and "w \<in> set ws"
  shows "withdrawal_kind w"
proof -
  have "ws = [] \<or> (\<exists>row out d fee infos. withdrawal_row_of L h out d fee = Ok row \<and>
      ws = Upsert_Withdrawal row # map (Upsert_InstantWithdrawal \<circ> instant_of row) infos)"
  proof (cases "only_one (filter (\<lambda>out. out_type out = WITHDRAWAL) (tx_outflow tx))")
    case (Some outflow)
    with assms(1) show ?thesis by (cases "out_data outflow") (auto simp: instant_writes_def)
  qed (use assms(1) in \<open>auto simp: instant_writes_def\<close>)
  with assms(2) show ?thesis by (auto simp: withdrawal_kind_def withdrawal_row_of_def)
qed

lemma saveWithdrawals_kind:
  assumes "saveWithdrawals P L b accounts = Ok ws" and "w \<in> set ws"
  shows "withdrawal_kind w"
proof -
  obtain instant rows outs where parts: "map_result (instant_writes P L (bl_hash b))
      (filter (\<lambda>tx. list_ex (\<lambda>out. out_type out = WITHDRAWAL) (tx_outflow tx)) (body_txs (bl_body b))) = Ok instant"
    "map_result (\<lambda>(out, d). withdrawal_row_of L (bl_hash b) out d (pd_fee d)) outs = Ok rows"
    "ws = concat instant @ map Upsert_Withdrawal rows"
    using assms(1) by (auto simp: saveWithdrawals_def Let_def)
  have "withdrawal_kind w" if "x \<in> set instant" "w \<in> set x" for x
    using map_result_back [OF parts(1) that(1)] instant_writes_kind that(2) by blast
  moreover have "wr_treeId r = None \<and> wr_index r = None" if "r \<in> set rows" for r
    using map_result_back [OF parts(2) that] withdrawal_row_of_fields by fastforce
  ultimately show ?thesis using assms(2) parts(3) by (auto simp: withdrawal_kind_def)
qed

lemma applyPatch_parts:
  assumes "applyPatch P nd tracked patch = Ok (ws, g)"
  obtains included ops uw ww where
    "markMassDepositsAsIncludedIn (la_lib (nd_layer2 nd)) (la_db (nd_layer2 nd)) (bp_massDeposits patch) (bp_block patch) = Ok included"
    and "applyGrovePatch (nd_trees nd) (trees_utxos (la_db (nd_layer2 nd))) (trees_withdrawals (la_db (nd_layer2 nd)))
      (nd_grove nd) (bp_treePatch patch) = Ok (g, ops)"
    and "updateMyUtxos P (la_db (nd_layer2 nd)) (transferTrackers tracked) patch = Ok uw"
    and "updateMyWithdrawals (la_lib (nd_layer2 nd)) (la_db (nd_layer2 nd)) (nd_trees nd) g (withdrawalTrackers tracked) patch = Ok ww"
    and "ws = markUsedUtxosAsNullified (gp_nullifiers (bp_treePatch patch)) (bp_block patch) # included @
      [markNewUtxosAsUnspent (map lf_hash (gp_utxos (bp_treePatch patch))),
       markNewWithdrawalsAsUnfinalized (bp_noteHashes patch)] @ map Tree_Write ops @ uw @ ww"
  using assms by (auto simp: applyPatch_def Let_def)

lemma applyPatch_kind:
  assumes run: "applyPatch P nd tracked patch = Ok (ws, g)" and w: "w \<in> set ws"
  shows "patch_kind w"
proof -
  from applyPatch_parts [OF run] obtain included ops uw ww where parts:
    "markMassDepositsAsIncludedIn (la_lib (nd_layer2 nd)) (la_db (nd_layer2 nd)) (bp_massDeposits patch) (bp_block patch) = Ok included"
    "updateMyUtxos P (la_db (nd_layer2 nd)) (transferTrackers tracked) patch = Ok uw"
    "updateMyWithdrawals (la_lib (nd_layer2 nd)) (la_db (nd_layer2 nd)) (nd_trees nd) g (withdrawalTrackers tracked) patch = Ok ww"
    "ws = markUsedUtxosAsNullified (gp_nullifiers (bp_treePatch patch)) (bp_block patch) # included @
      [markNewUtxosAsUnspent (map lf_hash (gp_utxos (bp_treePatch patch))),
       markNewWithdrawalsAsUnfinalized (bp_noteHashes patch)] @ map Tree_Write ops @ uw @ ww" by metis
  have "patch_kind x" if "x \<in> set included" for x
    using parts(1) that by (auto simp: markMassDepositsAsIncludedIn_def Let_def patch_kind_def split: if_splits)
  moreover have "patch_kind x" if "x \<in> set uw" for x
    using map_result_back [OF parts(2) [unfolded updateMyUtxos_def Let_def] that]
    by (auto simp: patch_kind_def split: option.splits)
  moreover have "patch_kind x" if "x \<in> set ww" for x
    using map_result_back [OF parts(3) [unfolded updateMyWithdrawals_def Let_def] that] by (auto simp: patch_kind_def)
  moreover have "patch_kind (markUsedUtxosAsNullified ns h)" "patch_kind (markNewUtxosAsUnspent us)"
    "patch_kind (markNewWithdrawalsAsUnfinalized us)" "patch_kind (Tree_Write t)" for ns h us t
    by (simp_all add: patch_kind_def markUsedUtxosAsNullified_def markNewUtxosAsUnspent_def markNewWithdrawalsAsUnfinalized_def)
  ultimately show ?thesis using w unfolding parts(4) by auto
qed

lemma block_writes_parts:
  assumes "block_writes P reg patch b p = Ok (ws, g)"
  obtains tw uw ww pw where "saveTransactions (pc_lib p) b False = Ok tw"
    and "decryptMyUtxos P (pc_lib p) (pc_db p) reg (transferTrackers (pc_tracker p)) (bp_prevHeader patch)
      (gp_utxos (bp_treePatch patch)) (body_txs (bl_body b)) = Ok uw"
    and "saveWithdrawals P (pc_lib p) b (withdrawalTrackers (pc_tracker p)) = Ok ww"
    and "applyPatch P ((pc_node p)\<lparr>nd_grove := start_cache (nd_grove (pc_node p))\<rparr>) (pc_tracker p) patch = Ok (pw, g)"
    and "ws = tw @ uw @ ww @ pw @
      [Update_Proposal (\<lambda>r. pp_hash r = bl_hash b) (\<lambda>r. r\<lparr>pp_verified := Some True, pp_isUncle := None\<rparr>)]"
  using assms by (auto simp: block_writes_def Let_def)

text \<open>An accepted block changes its proposal only, and no row is bound to a tree.\<close>

lemma fold_proposal_effect:
  assumes "\<forall>w\<in>set ws. tx_kind w \<or> note_kind w \<or> withdrawal_kind w \<or> patch_kind w"
  shows "fold proposal_effect ws rows = rows"
  using assms
  by (induction ws arbitrary: rows) (auto simp: tx_kind_def note_kind_def withdrawal_kind_def patch_kind_def)

lemma block_writes_kinds:
  assumes "block_writes P reg patch b p = Ok (ws, g)"
  obtains ws0 where "ws = ws0 @
      [Update_Proposal (\<lambda>r. pp_hash r = bl_hash b) (\<lambda>r. r\<lparr>pp_verified := Some True, pp_isUncle := None\<rparr>)]"
    and "\<forall>w\<in>set ws0. tx_kind w \<or> note_kind w \<or> withdrawal_kind w \<or> patch_kind w"
proof -
  from block_writes_parts [OF assms] obtain tw uw ww pw where parts: "saveTransactions (pc_lib p) b False = Ok tw"
    "decryptMyUtxos P (pc_lib p) (pc_db p) reg (transferTrackers (pc_tracker p)) (bp_prevHeader patch)
      (gp_utxos (bp_treePatch patch)) (body_txs (bl_body b)) = Ok uw"
    "saveWithdrawals P (pc_lib p) b (withdrawalTrackers (pc_tracker p)) = Ok ww"
    "applyPatch P ((pc_node p)\<lparr>nd_grove := start_cache (nd_grove (pc_node p))\<rparr>) (pc_tracker p) patch = Ok (pw, g)"
    "ws = tw @ uw @ ww @ pw @
      [Update_Proposal (\<lambda>r. pp_hash r = bl_hash b) (\<lambda>r. r\<lparr>pp_verified := Some True, pp_isUncle := None\<rparr>)]" by metis
  show ?thesis
    by (rule that [of "tw @ uw @ ww @ pw"])
      (use parts(5) saveTransactions_writes [OF parts(1)] decryptMyUtxos_kind [OF parts(2)] saveWithdrawals_kind [OF parts(3)]
        applyPatch_kind [OF parts(4)] in \<open>auto simp: tx_kind_def\<close>)
qed

end
