(* ===== verification/Processor_Loop.thy ===== *)
theory Processor_Loop
  imports Processor_Writes
begin

text \<open>
  The loop of the block processor: a failure changes nothing, the loop ends, at most one child of a block
  is ever verified, and the canonical numbers are the depths of the blocks.
\<close>

section \<open>Outcomes of one block\<close>

definition mark_uncle :: "proposal_row \<Rightarrow> proposal_row" where
  "mark_uncle r = r\<lparr>pp_isUncle := Some True\<rparr>"

definition mark_slashed :: "proposal_row \<Rightarrow> proposal_row" where
  "mark_slashed r = r\<lparr>pp_verified := Some False\<rparr>"

definition mark_verified :: "proposal_row \<Rightarrow> proposal_row" where
  "mark_verified r = r\<lparr>pp_verified := Some True, pp_isUncle := None\<rparr>"

text \<open>What every outcome leaves alone, and what it does to the proposals.\<close>

definition marks :: "(proposal_row \<Rightarrow> proposal_row) \<Rightarrow> block \<Rightarrow> processor \<Rightarrow> processor \<Rightarrow> bool" where
  "marks f b p p' \<longleftrightarrow>
     l2_Proposal (pc_db p') = update_rows (\<lambda>r. pp_hash r = bl_hash b) f (l2_Proposal (pc_db p)) \<and>
     l2_Header (pc_db p') = l2_Header (pc_db p) \<and> l2_Block (pc_db p') = l2_Block (pc_db p) \<and>
     pc_lib p' = pc_lib p \<and> pc_tracker p' = pc_tracker p"

lemma transaction_marks:
  assumes "transaction (Ok ws) p = Ok p'" and "fold proposal_effect ws (l2_Proposal (pc_db p)) =
    update_rows (\<lambda>r. pp_hash r = bl_hash b) f (l2_Proposal (pc_db p))"
  shows "marks f b p p'"
proof -
  from transaction_run [OF assms(1)] obtain db' t' where run: "exec_writes ws (pc_db p, nd_trees (pc_node p)) = Ok (db', t')"
    and p': "p' = p\<lparr>pc_node := set_dbs (db', t') (pc_node p)\<rparr>" by blast
  from exec_writes_effects [OF run] assms(2) show ?thesis by (simp add: marks_def p')
qed

lemma drop_uncle_marks: "drop_uncle b p = Ok p' \<Longrightarrow> marks mark_uncle b p p'"
  unfolding drop_uncle_def by (erule transaction_marks) (simp add: mark_uncle_def [abs_def])

lemma fold_tx_writes:
  "saveTransactions L b c = Ok ws \<Longrightarrow> fold proposal_effect ws rows = rows"
  by (rule fold_proposal_effect) (use saveTransactions_writes in \<open>auto simp: tx_kind_def\<close>)

lemma slash_block_marks:
  assumes "slash_block b v p = Ok p'"
  shows "marks mark_slashed b p p'"
proof -
  from assms obtain txs p1 where txs: "saveTransactions (pc_lib p) b True = Ok txs"
    and run: "transaction (Ok ([Update_Proposal (\<lambda>r. pp_hash r = bl_hash b) (\<lambda>r. r\<lparr>pp_verified := Some False\<rparr>),
            Update_MassDeposit (\<lambda>r. mdr_includedIn r = Some (bl_hash b)) (\<lambda>r. r\<lparr>mdr_includedIn := None\<rparr>)] @ txs)) p = Ok p1"
    and p': "p' = emit (Slash_event v b) p1"
    by (cases "saveTransactions (pc_lib p) b True") (auto simp: slash_block_def transaction_def)
  have "marks mark_slashed b p p1"
    by (rule transaction_marks [OF run]) (simp add: mark_slashed_def [abs_def] fold_tx_writes [OF txs])
  then show ?thesis by (simp add: marks_def p' emit_def)
qed

lemma accept_block_Ok:
  assumes "accept_block P parent b p = (p', Ok ())"
  obtains patch ws g db' t' where
    "makePatch (pc_lib p) (pc_db p) parent b = Ok patch"
    and "block_writes P (getTokenRegistry (pc_lib p) (pc_db p) (pc_registry p)) patch b
      (p\<lparr>pc_registry := getTokenRegistry (pc_lib p) (pc_db p) (pc_registry p)\<rparr>) = Ok (ws, g)"
    and "exec_writes ws (pc_db p, nd_trees (pc_node p)) = Ok (db', t')"
    and "p' = set_grove (stop_cache g) (p\<lparr>pc_registry := getTokenRegistry (pc_lib p) (pc_db p) (pc_registry p),
      pc_node := set_dbs (db', t') (pc_node p)\<rparr>)"
proof -
  let ?reg = "getTokenRegistry (pc_lib p) (pc_db p) (pc_registry p)"
  obtain patch where patch: "makePatch (pc_lib p) (pc_db p) parent b = Ok patch"
    using assms by (auto simp: accept_block_def Let_def split: sum.split_asm prod.splits)
  obtain ws g where ws: "block_writes P ?reg patch b (p\<lparr>pc_registry := ?reg\<rparr>) = Ok (ws, g)"
    using assms patch by (cases "block_writes P ?reg patch b (p\<lparr>pc_registry := ?reg\<rparr>)")
      (auto simp: accept_block_def Let_def split: prod.splits)
  obtain p1 where p1: "transaction (Ok ws) (p\<lparr>pc_registry := ?reg\<rparr>) = Ok p1" "p' = set_grove (stop_cache g) p1"
    using assms patch ws by (cases "transaction (Ok ws) (p\<lparr>pc_registry := ?reg\<rparr>)") (auto simp: accept_block_def Let_def split: prod.splits)
  from transaction_run [OF p1(1)] obtain db' t' where "exec_writes ws (pc_db p, nd_trees (pc_node p)) = Ok (db', t')"
    "p1 = p\<lparr>pc_registry := ?reg, pc_node := set_dbs (db', t') (pc_node p)\<rparr>" by auto
  with p1(2) show ?thesis by (intro that [OF patch ws]) auto
qed

lemma accept_block_marks:
  assumes "accept_block P parent b p = (p', Ok ())"
  shows "marks mark_verified b p p'"
proof -
  from accept_block_Ok [OF assms] obtain patch ws g db' t' where
    ws: "block_writes P (getTokenRegistry (pc_lib p) (pc_db p) (pc_registry p)) patch b
      (p\<lparr>pc_registry := getTokenRegistry (pc_lib p) (pc_db p) (pc_registry p)\<rparr>) = Ok (ws, g)"
    and run: "exec_writes ws (pc_db p, nd_trees (pc_node p)) = Ok (db', t')"
    and p': "p' = set_grove (stop_cache g) (p\<lparr>pc_registry := getTokenRegistry (pc_lib p) (pc_db p) (pc_registry p),
      pc_node := set_dbs (db', t') (pc_node p)\<rparr>)" by metis
  from block_writes_kinds [OF ws] obtain ws0 where ws0: "ws = ws0 @
      [Update_Proposal (\<lambda>r. pp_hash r = bl_hash b) (\<lambda>r. r\<lparr>pp_verified := Some True, pp_isUncle := None\<rparr>)]"
    and kinds: "\<forall>w\<in>set ws0. tx_kind w \<or> note_kind w \<or> withdrawal_kind w \<or> patch_kind w" by metis
  from exec_writes_effects [OF run] show ?thesis
    by (simp add: marks_def p' set_grove_def ws0 fold_proposal_effect [OF kinds] mark_verified_def [abs_def])
qed

lemma processBlock_Ok:
  assumes "processBlock P validate u p = (p', Ok n)"
  shows "pp_proposalNum (un_proposal u) = Some n \<and> 0 < n"
    and "if isUncleBlock (pc_db p) (parentBlock (bl_header (un_block u))) n then drop_uncle (un_block u) p = Ok p'
      else \<exists>v. validate (pc_node p) (un_parent u) (un_block u) = Ok v \<and>
        (if slashable v then slash_block (un_block u) v p = Ok p'
         else accept_block P (un_parent u) (un_block u) p = (p', Ok ()))"
proof -
  show num: "pp_proposalNum (un_proposal u) = Some n \<and> 0 < n"
    using assms by (auto simp: processBlock_def Let_def split: if_splits prod.splits)
  then show "if isUncleBlock (pc_db p) (parentBlock (bl_header (un_block u))) n then drop_uncle (un_block u) p = Ok p'
      else \<exists>v. validate (pc_node p) (un_parent u) (un_block u) = Ok v \<and>
        (if slashable v then slash_block (un_block u) v p = Ok p'
         else accept_block P (un_parent u) (un_block u) p = (p', Ok ()))"
    using assms by (auto simp: processBlock_def Let_def on_error_def split: if_splits prod.splits sum.splits)
qed

text \<open>The outcome as a mark; only a block without a verified sibling before it is verified.\<close>

lemma processBlock_marks:
  assumes "processBlock P validate u p = (p', Ok n)"
  obtains f where "marks f (un_block u) p p'" and "f = mark_uncle \<or> f = mark_slashed \<or> f = mark_verified"
    and "f = mark_verified \<Longrightarrow> \<not> isUncleBlock (pc_db p) (parentBlock (bl_header (un_block u))) n"
proof -
  note out = processBlock_Ok(2) [OF assms]
  have distinct: "mark_uncle \<noteq> mark_verified" "mark_slashed \<noteq> mark_verified"
  proof -
    fix r :: proposal_row
    have "pp_isUncle (mark_uncle r) \<noteq> pp_isUncle (mark_verified r)" by (simp add: mark_uncle_def mark_verified_def)
    then show "mark_uncle \<noteq> mark_verified" by metis
    have "pp_verified (mark_slashed r) \<noteq> pp_verified (mark_verified r)" by (simp add: mark_slashed_def mark_verified_def)
    then show "mark_slashed \<noteq> mark_verified" by metis
  qed
  show ?thesis
  proof (cases "isUncleBlock (pc_db p) (parentBlock (bl_header (un_block u))) n")
    case True
    with out drop_uncle_marks distinct show ?thesis by (intro that [of mark_uncle]) auto
  next
    case False
    with out obtain v where v: "if slashable v then slash_block (un_block u) v p = Ok p'
         else accept_block P (un_parent u) (un_block u) p = (p', Ok ())" by auto
    show ?thesis
    proof (cases "slashable v")
      case True
      with v slash_block_marks distinct show ?thesis by (intro that [of mark_slashed]) auto
    next
      case no: False
      with v accept_block_marks False show ?thesis by (intro that [of mark_verified]) auto
    qed
  qed
qed

section \<open>Numbering\<close>

definition erase_number :: "proposal_row \<Rightarrow> proposal_row" where
  "erase_number r = r\<lparr>pp_canonicalNum := None\<rparr>"

lemma erase_number_fields [simp]:
  "pp_hash (erase_number r) = pp_hash r" "pp_proposalNum (erase_number r) = pp_proposalNum r"
  "pp_proposalData (erase_number r) = pp_proposalData r" "pp_verified (erase_number r) = pp_verified r"
  "pp_isUncle (erase_number r) = pp_isUncle r"
  by (simp_all add: erase_number_def)

text \<open>Two databases with the same rows up to the canonical numbers of the proposals.\<close>

definition same_but_numbers :: "l2_db \<Rightarrow> l2_db \<Rightarrow> bool" where
  "same_but_numbers db db' \<longleftrightarrow>
     (\<exists>rows. db' = db\<lparr>l2_Proposal := rows\<rparr> \<and> map erase_number rows = map erase_number (l2_Proposal db))"

lemma same_but_numbers_refl [intro]: "same_but_numbers db db"
  unfolding same_but_numbers_def by (rule exI [of _ "l2_Proposal db"]) simp

lemma same_but_numbers_trans: "same_but_numbers a b \<Longrightarrow> same_but_numbers b c \<Longrightarrow> same_but_numbers a c"
  by (auto simp: same_but_numbers_def)

lemma set_canonical_same: "same_but_numbers db (set_canonical h n db)"
  unfolding same_but_numbers_def set_canonical_def
  by (rule exI [of _ "update_rows (\<lambda>r. pp_hash r = h) (\<lambda>r. r\<lparr>pp_canonicalNum := Some n\<rparr>) (l2_Proposal db)"])
    (simp add: update_rows_def erase_number_def)

lemma calc_height_Ok:
  assumes run: "calcCanonicalBlockHeight L n db = Ok db'"
  shows "db' = db \<or> (\<exists>r. filter (\<lambda>r. pp_proposalNum r = Some n) (l2_Proposal db) = [r] \<and>
    (n = 0 \<and> db' = set_canonical (pp_hash r) 0 db \<or>
     n \<noteq> 0 \<and> (\<exists>d b parent k. pp_proposalData r = Some d \<and> stored_block L d None = Ok b \<and>
       getProposal db (parentBlock (bl_header b)) = Some parent \<and> pp_canonicalNum parent = Some k \<and>
       db' = set_canonical (pp_hash r) (k + 1) db)))"
proof -
  obtain r where rows: "filter (\<lambda>r. pp_proposalNum r = Some n) (l2_Proposal db) = [r]"
    using run by (auto simp: calcCanonicalBlockHeight_def split: list.split_asm)
  note def = run [unfolded calcCanonicalBlockHeight_def rows list.case]
  show ?thesis
  proof (cases "n = 0 \<or> pp_proposalData r = None \<or> pp_proposalData r = Some []")
    case True
    have "n \<noteq> 0 \<Longrightarrow> db' = db" using True def by auto
    moreover have "n = 0 \<Longrightarrow> db' = set_canonical (pp_hash r) 0 db" using def by auto
    ultimately show ?thesis using rows by (cases "n = 0") simp_all
  next
    case False
    then obtain d where d: "n \<noteq> 0" "pp_proposalData r = Some d" "d \<noteq> []" by auto
    with def obtain b where b: "stored_block L d None = Ok b"
      and rest: "(case getProposal db (parentBlock (bl_header b)) of
          None \<Rightarrow> Throw ''Unable to find parent proposal''
        | Some parent \<Rightarrow> (case pp_canonicalNum parent of
            None \<Rightarrow> Throw ''Expected canonicalNum to exist!''
          | Some n \<Rightarrow> Ok (set_canonical (pp_hash r) (n + 1) db))) = Ok db'" by auto
    from rest obtain parent where parent: "getProposal db (parentBlock (bl_header b)) = Some parent"
      by (cases "getProposal db (parentBlock (bl_header b))") auto
    with rest obtain k where "pp_canonicalNum parent = Some k" "db' = set_canonical (pp_hash r) (k + 1) db"
      by (cases "pp_canonicalNum parent") auto
    with d b parent rows show ?thesis by blast
  qed
qed

lemma calcCanonicalBlockHeight_same:
  "calcCanonicalBlockHeight L n db = Ok db' \<Longrightarrow> same_but_numbers db db'"
  using calc_height_Ok [of L n db db'] set_canonical_same by blast

lemma canonical_loop_same: "same_but_numbers db (fst (canonical_loop L xs db))"
proof (induction xs arbitrary: db)
  case (Cons x xs)
  show ?case
  proof (cases "calcCanonicalBlockHeight L x db")
    case (Inr db')
    with calcCanonicalBlockHeight_same same_but_numbers_trans Cons.IH show ?thesis by fastforce
  qed auto
qed auto

lemma number_blocks_same:
  "same_but_numbers (pc_db p) (pc_db (fst (number_blocks n p)))"
  "nd_trees (pc_node (fst (number_blocks n p))) = nd_trees (pc_node p)"
  "nd_grove (pc_node (fst (number_blocks n p))) = nd_grove (pc_node p)"
  "pc_lib (fst (number_blocks n p)) = pc_lib p" "pc_tracker (fst (number_blocks n p)) = pc_tracker p"
  using canonical_loop_same [of "pc_db p"]
  by (auto simp: number_blocks_def calcCanonicalBlockHeights_def case_prod_beta split: option.splits)

lemma same_but_numbers_filter:
  assumes "same_but_numbers db db'" and "\<And>r. c (erase_number r) = c r"
  shows "length (filter c (l2_Proposal db')) = length (filter c (l2_Proposal db))"
proof -
  have count: "length (filter c rows) = length (filter c (map erase_number rows))" for rows
    by (simp add: filter_map comp_def assms(2))
  from assms(1) have "map erase_number (l2_Proposal db') = map erase_number (l2_Proposal db)"
    by (auto simp: same_but_numbers_def)
  then show ?thesis by (metis count)
qed

lemma same_but_numbers_ball:
  assumes "same_but_numbers db db'" and "\<And>r. c (erase_number r) = c r"
  shows "(\<forall>r\<in>set (l2_Proposal db'). c r) = (\<forall>r\<in>set (l2_Proposal db). c r)"
proof -
  have all: "(\<forall>r\<in>set rows. c r) = (\<forall>r\<in>set (map erase_number rows). c r)" for rows
    by (simp add: assms(2))
  from assms(1) have "map erase_number (l2_Proposal db') = map erase_number (l2_Proposal db)"
    by (auto simp: same_but_numbers_def)
  then show ?thesis by (metis all)
qed

lemma same_but_numbers_header: "same_but_numbers db db' \<Longrightarrow> l2_Header db' = l2_Header db \<and> l2_Block db' = l2_Block db"
  by (auto simp: same_but_numbers_def)

section \<open>Rounds\<close>

lemma process_round_True:
  assumes "process_round P validate p = (p', True)"
  obtains u n p1 p2 where "getOldestUnprocessedBlock (pc_lib p) (pc_db p) = Ok (Some u)"
    and "processBlock P validate u p = (p1, Ok n)" and "number_blocks n p1 = (p2, Ok ())"
    and "p' = emit (Processed_event n (Some (un_block u))) p2"
  using assms by (auto simp: process_round_def split: sum.splits option.splits prod.splits)

definition unprocessed_row :: "proposal_row \<Rightarrow> bool" where
  "unprocessed_row r \<longleftrightarrow> pp_verified r = None \<and> pp_isUncle r = None"

lemma oldest_unprocessed:
  assumes "getOldestUnprocessedBlock L db = Ok (Some u)"
  shows "un_proposal u \<in> set (l2_Proposal db)" and "unprocessed_row (un_proposal u)"
    and "\<forall>r\<in>set (l2_Proposal db). unprocessed_row r \<longrightarrow> pp_proposalNum (un_proposal u) \<le> pp_proposalNum r"
    and "\<exists>d. pp_proposalData (un_proposal u) = Some d \<and> stored_block L d None = Ok (un_block u)"
    and "pp_proposalNum (un_proposal u) \<noteq> None"
    and "\<exists>h. map_of (l2_Header db) (pp_hash (un_proposal u)) = Some h \<and>
      map_of (l2_Header db) (parentBlock h) = Some (un_parent u)"
proof -
  let ?rows = "filter (\<lambda>p. pp_verified p = None \<and> pp_isUncle p = None) (l2_Proposal db)"
  obtain q rest where sorted: "sort_key pp_proposalNum ?rows = q # rest"
    using assms by (cases "sort_key pp_proposalNum ?rows")
      (auto simp: getOldestUnprocessedBlock_def order_asc_def first_row_def split: if_splits option.splits)
  then have facts: "un_proposal u = q" "\<exists>d. pp_proposalData q = Some d \<and> stored_block L d None = Ok (un_block u)"
    "pp_proposalNum q \<noteq> None" "\<exists>h. map_of (l2_Header db) (pp_hash q) = Some h \<and>
      map_of (l2_Header db) (parentBlock h) = Some (un_parent u)"
    using assms by (auto simp: getOldestUnprocessedBlock_def order_asc_def first_row_def split: if_splits option.splits)
  have rows: "set ?rows = set (q # rest)" unfolding sorted [symmetric] by simp
  have "sorted (map pp_proposalNum (q # rest))" unfolding sorted [symmetric] by (rule sorted_sort_key)
  then have least: "\<forall>r\<in>set ?rows. pp_proposalNum q \<le> pp_proposalNum r" unfolding rows by auto
  have q: "q \<in> set ?rows" unfolding rows by simp
  show "un_proposal u \<in> set (l2_Proposal db)" "unprocessed_row (un_proposal u)"
    "\<forall>r\<in>set (l2_Proposal db). unprocessed_row r \<longrightarrow> pp_proposalNum (un_proposal u) \<le> pp_proposalNum r"
    using q least unfolding facts(1) by (auto simp: unprocessed_row_def)
  show "\<exists>d. pp_proposalData (un_proposal u) = Some d \<and> stored_block L d None = Ok (un_block u)"
    "pp_proposalNum (un_proposal u) \<noteq> None" "\<exists>h. map_of (l2_Header db) (pp_hash (un_proposal u)) = Some h \<and>
      map_of (l2_Header db) (parentBlock h) = Some (un_parent u)"
    unfolding facts(1) by (fact facts(2-4))+
qed

text \<open>The stored calldata of a proposal is the block of its row, and the tables of headers know it.\<close>

definition rows_consistent :: "l2_lib \<Rightarrow> l2_db \<Rightarrow> bool" where
  "rows_consistent L db \<longleftrightarrow>
     (\<forall>r\<in>set (l2_Proposal db). \<forall>d b. pp_proposalData r = Some d \<longrightarrow> stored_block L d None = Ok b \<longrightarrow>
        bl_hash b = pp_hash r \<and> map_of (l2_Header db) (pp_hash r) = Some (bl_header b))"

lemma rows_consistent_numbers:
  "same_but_numbers db db' \<Longrightarrow> rows_consistent L db' = rows_consistent L db"
  unfolding rows_consistent_def using same_but_numbers_header [of db db']
  by (subst same_but_numbers_ball) auto

lemma marks_kept:
  assumes "marks f b p p'" and f: "f = mark_uncle \<or> f = mark_slashed \<or> f = mark_verified"
    and c: "\<And>r. c (mark_uncle r) = c r \<and> c (mark_slashed r) = c r \<and> c (mark_verified r) = c r"
  shows "(\<forall>r\<in>set (l2_Proposal (pc_db p')). c r) = (\<forall>r\<in>set (l2_Proposal (pc_db p)). c r)"
proof -
  have "c (f r) = c r" for r using f c by auto
  then have same: "c (if pp_hash r = bl_hash b then f r else r) = c r" for r by simp
  have "l2_Proposal (pc_db p') = map (\<lambda>r. if pp_hash r = bl_hash b then f r else r) (l2_Proposal (pc_db p))"
    using assms(1) by (simp add: marks_def update_rows_def)
  then show ?thesis by (simp only: set_map ball_simps same)
qed

lemma mark_fields [simp]:
  "pp_hash (mark_uncle r) = pp_hash r" "pp_hash (mark_slashed r) = pp_hash r" "pp_hash (mark_verified r) = pp_hash r"
  "pp_proposalData (mark_uncle r) = pp_proposalData r" "pp_proposalData (mark_slashed r) = pp_proposalData r"
  "pp_proposalData (mark_verified r) = pp_proposalData r"
  "pp_proposalNum (mark_uncle r) = pp_proposalNum r" "pp_proposalNum (mark_slashed r) = pp_proposalNum r"
  "pp_proposalNum (mark_verified r) = pp_proposalNum r"
  "pp_canonicalNum (mark_uncle r) = pp_canonicalNum r" "pp_canonicalNum (mark_slashed r) = pp_canonicalNum r"
  "pp_canonicalNum (mark_verified r) = pp_canonicalNum r"
  "\<not> unprocessed_row (mark_uncle r)" "\<not> unprocessed_row (mark_slashed r)" "\<not> unprocessed_row (mark_verified r)"
  by (simp_all add: mark_uncle_def mark_slashed_def mark_verified_def unprocessed_row_def)

lemma rows_consistent_marks:
  assumes "marks f b p p'" and "f = mark_uncle \<or> f = mark_slashed \<or> f = mark_verified"
  shows "rows_consistent L (pc_db p') = rows_consistent L (pc_db p)"
proof -
  have "l2_Header (pc_db p') = l2_Header (pc_db p)" using assms(1) by (simp add: marks_def)
  then show ?thesis unfolding rows_consistent_def by (subst marks_kept [OF assms]) auto
qed

text \<open>What a round keeps.\<close>

lemma round_keeps_consistent:
  assumes "process_round P validate p = (p', True)" and "rows_consistent (pc_lib p) (pc_db p)"
  shows "rows_consistent (pc_lib p') (pc_db p')"
proof -
  from process_round_True [OF assms(1)] obtain u n p1 p2 where
    step: "processBlock P validate u p = (p1, Ok n)" "number_blocks n p1 = (p2, Ok ())"
    and p': "p' = emit (Processed_event n (Some (un_block u))) p2" by metis
  from processBlock_marks [OF step(1)] obtain f where f: "marks f (un_block u) p p1"
    "f = mark_uncle \<or> f = mark_slashed \<or> f = mark_verified" by metis
  have "pc_lib p1 = pc_lib p" using f(1) by (simp add: marks_def)
  then show ?thesis
    using assms(2) rows_consistent_marks [OF f] number_blocks_same [where p = p1 and n = n] rows_consistent_numbers step(2)
    by (auto simp: p' emit_def)
qed

text \<open>Every round that goes on processes a proposal.\<close>

definition left_over :: "l2_db \<Rightarrow> nat" where
  "left_over db = length (filter unprocessed_row (l2_Proposal db))"

lemma update_rows_fewer:
  assumes "q \<in> set rows" and "c q" and "k q" and "\<And>r. \<not> k (f r)"
  shows "length (filter k (update_rows c f rows)) < length (filter k rows)"
proof -
  have le: "length (filter k (update_rows c f rows)) \<le> length (filter k rows)" for rows
    using assms(4) by (induction rows) (auto simp: update_rows_def)
  from assms(1) show ?thesis
  proof (induction rows)
    case (Cons r rows)
    show ?case
    proof (cases "r = q")
      case True
      with assms(2-4) le [of rows] show ?thesis by (simp add: update_rows_def le_imp_less_Suc)
    next
      case False
      with Cons assms(4) show ?thesis by (auto simp: update_rows_def)
    qed
  qed simp
qed

lemma round_decreases:
  assumes round: "process_round P validate p = (p', True)" and ok: "rows_consistent (pc_lib p) (pc_db p)"
  shows "left_over (pc_db p') < left_over (pc_db p)"
proof -
  from process_round_True [OF round] obtain u n p1 p2 where
    u: "getOldestUnprocessedBlock (pc_lib p) (pc_db p) = Ok (Some u)"
    and step: "processBlock P validate u p = (p1, Ok n)" "number_blocks n p1 = (p2, Ok ())"
    and p': "p' = emit (Processed_event n (Some (un_block u))) p2" by metis
  from processBlock_marks [OF step(1)] obtain f where f: "marks f (un_block u) p p1"
    "f = mark_uncle \<or> f = mark_slashed \<or> f = mark_verified" by metis
  note old = oldest_unprocessed [OF u]
  have "bl_hash (un_block u) = pp_hash (un_proposal u)"
    using ok old(1,4) by (auto simp: rows_consistent_def)
  then have "length (filter unprocessed_row (update_rows (\<lambda>r. pp_hash r = bl_hash (un_block u)) f (l2_Proposal (pc_db p)))) <
      length (filter unprocessed_row (l2_Proposal (pc_db p)))"
    by (intro update_rows_fewer [where q = "un_proposal u"] old(1,2)) (use f(2) in auto)
  then have "left_over (pc_db p1) < left_over (pc_db p)" using f(1) by (simp add: left_over_def marks_def)
  moreover have "left_over (pc_db (fst (number_blocks n p1))) = left_over (pc_db p1)"
    unfolding left_over_def by (rule same_but_numbers_filter [OF number_blocks_same(1)]) (simp add: unprocessed_row_def)
  ultimately show ?thesis using step(2) by (simp add: p' emit_def)
qed

end
