(* ===== verification/Processor_Demo.thy ===== *)
theory Processor_Demo
  imports Processor_Loop Block_Properties Validator_Soundness
begin

text \<open>
  A small chain on which the theorems on the block processor are applied: a genesis block and two
  proposals on top of it with the same transaction.
\<close>

section \<open>The library of the example\<close>

text \<open>
  Words are read from digits as documented; a hash is the byte at position 19, in a header the last one
  of the proposer. The calldata of a proposal is an empty selector and the serialised block.
\<close>

definition chain_header :: "160 word \<Rightarrow> header" where
  "chain_header a = \<lparr>proposer = a, parentBlock = 0, hd_fee = 3, utxoRoot = 4, utxoIndex = 5, nullifierRoot = 6,
     withdrawalRoot = 7, withdrawalIndex = 8, txRoot = 9, depositRoot = 10, migrationRoot = 11\<rparr>"

definition chain_block :: "160 word \<Rightarrow> block" where
  "chain_block a = \<lparr>bl_hash = ucast a, bl_verified = None, bl_slashed = None, bl_header = chain_header a,
     bl_body = \<lparr>body_txs = [sample_tx], massDeposits = [], massMigrations = []\<rparr>, bl_bootstrap = None\<rparr>"

definition chain_keccak :: "byte list \<Rightarrow> 256 word" where
  "chain_keccak bs = ucast (bs ! 19)"

definition chain_lib :: l2_lib where
  "chain_lib = \<lparr>lib_keccak = chain_keccak, lib_soltypes = \<lambda>n ds. Ok (hex_val ds), lib_encodeSignature = \<lambda>_. replicate 8 0,
     lib_decodeFirst = \<lambda>_ ds. Ok ds,
     lib_parseTx = \<lambda>s. bind_result (serializeBlock (chain_block (if s = ''1'' then 1 else 2)))
       (\<lambda>bs. Ok (replicate 8 0 @ digits_of bs)),
     lib_hash_str = \<lambda>_. [], lib_dec_str = \<lambda>_. [], lib_addr_str = \<lambda>_. [], lib_addr_of = \<lambda>_. 0\<rparr>"

lemma chain_lib_parts: "lib_keccak chain_lib = chain_keccak" "lib_encodeSignature chain_lib = (\<lambda>_. replicate 8 0)"
  "lib_decodeFirst chain_lib = (\<lambda>_ ds. Ok ds)" "lib_soltypes chain_lib = (\<lambda>n ds. Ok (hex_val ds))"
  by (simp_all add: chain_lib_def)

lemma be_bytes_last: "be_bytes 20 n ! 19 = word_of_nat (n mod 256)"
proof -
  have "be_bytes (Suc 19) n = be_bytes 19 (n div 256) @ [word_of_nat (n mod 256)]" by (rule be_bytes.simps)
  then show ?thesis by (simp add: nth_append)
qed

lemma chain_hash: "headerHash chain_keccak (chain_header 1) = 1" "headerHash chain_keccak (chain_header 2) = 2"
  by (simp_all add: headerHash_def chain_keccak_def chain_header_def nth_append address_bytes_def be_bytes_last)

lemma sample_tx_plain: "uncached sample_tx = sample_tx"
  by (simp add: uncached_def sample_tx_def new_ZkTx_def)

lemma chain_stored:
  assumes "a = 1 \<and> s = ''1'' \<or> a = 2 \<and> s = ''2''"
  shows "stored_block chain_lib s v = Ok ((chain_block a)\<lparr>bl_verified := v\<rparr>)"
proof -
  have "soltypes_documented (\<lambda>n ds. Ok (hex_val ds))" by (simp add: soltypes_documented_def)
  moreover have "body_ok (bl_body (chain_block a))" by (simp add: body_ok_def chain_block_def sample_tx_ok)
  ultimately obtain bs where bs: "serializeBlock (chain_block a) = Ok bs"
    "Block_from chain_keccak (\<lambda>n ds. Ok (hex_val ds)) (digits_of bs) v =
      Ok \<lparr>bl_hash = headerHash chain_keccak (chain_header a), bl_verified = v, bl_slashed = None,
        bl_header = chain_header a, bl_body = bl_body (chain_block a), bl_bootstrap = None\<rparr>"
    using block_decodes [of "\<lambda>n ds. Ok (hex_val ds)" "chain_block a" chain_keccak v]
    by (auto simp: chain_block_def sample_tx_plain)
  have input: "lib_parseTx chain_lib s = Ok (replicate 8 0 @ digits_of bs)"
    using assms bs(1) by (auto simp: chain_lib_def)
  have selector: "hex_dequeue (Some 4) (new_StringifiedHexQueue (replicate 8 0 @ digits_of bs)) =
      Ok (replicate 8 0, \<lparr>hq_str = replicate 8 0 @ digits_of bs, hq_cursor = Some 8\<rparr>)"
    by (simp add: hex_dequeue_def new_StringifiedHexQueue_def)
  have rest: "hex_dequeueAll \<lparr>hq_str = replicate 8 0 @ digits_of bs, hq_cursor = Some 8\<rparr> = digits_of bs"
    by (simp add: hex_dequeueAll_def)
  have "headerHash chain_keccak (chain_header a) = ucast a" using assms chain_hash by auto
  then show ?thesis
    by (simp add: stored_block_def input Block_fromTx_def selector rest chain_lib_parts bs(2))
      (simp add: chain_block_def)
qed

lemma chain_tx_hash: "\<exists>h. tx_hash chain_lib sample_tx = Ok h"
proof -
  obtain p where p: "tx_proof sample_tx = Some p" by (simp add: sample_tx_def new_ZkTx_def)
  from packed_tx_ok [OF sample_tx_ok p] p show ?thesis
    by (simp add: tx_hash_def zkTx_hash_def) (simp add: sample_tx_def new_ZkTx_def)
qed

section \<open>The node of the example\<close>

definition chain_row :: "256 word \<Rightarrow> nat \<Rightarrow> string option \<Rightarrow> bool option \<Rightarrow> proposal_row" where
  "chain_row h n d v = \<lparr>pp_hash = h, pp_proposalNum = Some n, pp_canonicalNum = None, pp_proposalData = d,
     pp_verified = v, pp_finalized = None, pp_isUncle = None, pp_proposedAt = Some 1, pp_proposalTx = None,
     pp_timestamp = None\<rparr>"

definition chain_rows :: "bool option \<Rightarrow> proposal_row list" where
  "chain_rows v = [chain_row 0 0 None (Some True), chain_row 1 1 (Some ''1'') v, chain_row 2 2 (Some ''2'') None]"

definition chain_headers :: "(256 word \<times> header) list" where
  "chain_headers = [(0, (chain_header 0)\<lparr>parentBlock := 99\<rparr>), (1, chain_header 1), (2, chain_header 2)]"

definition chain_db :: "bool option \<Rightarrow> tx_doc list \<Rightarrow> l2_db" where
  "chain_db v txs = \<lparr>l2_MassDeposit = [], l2_Deposit = [], l2_Proposal = chain_rows v,
     l2_Header = chain_headers, l2_Block = [0, 1, 2], l2_Slash = [], l2_TokenRegistry = [], l2_Utxo = [],
     l2_Withdrawal = [], l2_InstantWithdrawal = [], l2_Tx = txs, l2_PendingTx = [],
     l2_PendingDeposit = []\<rparr>"

definition chain_processor :: "bool option \<Rightarrow> tx_doc list \<Rightarrow> processor" where
  "chain_processor v txs = \<lparr>pc_node = \<lparr>nd_layer2 = demo_layer2\<lparr>la_db := chain_db v txs, la_lib := chain_lib\<rparr>,
       nd_grove = demo_grove, nd_trees = demo_db, nd_treeIds = []\<rparr>,
     pc_registry = \<lparr>reg_blockNumber = 0, erc20s = [], erc721s = []\<rparr>, pc_tracker = new_Tracker [],
     pc_lastEmitted = Some (-1), pc_events = []\<rparr>"

lemma chain_processor_parts: "pc_db (chain_processor v txs) = chain_db v txs" "pc_lib (chain_processor v txs) = chain_lib"
  "nd_trees (pc_node (chain_processor v txs)) = demo_db" "pc_events (chain_processor v txs) = []"
  by (simp_all add: chain_processor_def)

lemma chain_db_parts: "l2_Proposal (chain_db v txs) = chain_rows v" "l2_Header (chain_db v txs) = chain_headers"
  "l2_Tx (chain_db v txs) = txs" "l2_Block (chain_db v txs) = [0, 1, 2]" "l2_MassDeposit (chain_db v txs) = []"
  by (simp_all add: chain_db_def)

lemma chain_block_parts: "body_txs (bl_body (chain_block a)) = [sample_tx]" "bl_hash (chain_block a) = ucast a"
  "bl_header (chain_block a) = chain_header a" "parentBlock (chain_header a) = 0"
  by (simp_all add: chain_block_def chain_header_def)

lemmas chain_row_simps = chain_rows_def chain_row_def

lemma chain_consistent: "rows_consistent chain_lib (chain_db v txs)"
proof -
  have "stored_block chain_lib ''1'' None = Ok (chain_block 1)" "stored_block chain_lib ''2'' None = Ok (chain_block 2)"
    using chain_stored [of 1 "''1''" None] chain_stored [of 2 "''2''" None] by (simp_all add: chain_block_def)
  then show ?thesis
    by (simp add: rows_consistent_def chain_db_parts chain_row_simps chain_headers_def chain_block_parts)
qed

definition chain_unprocessed :: "nat \<Rightarrow> unprocessed" where
  "chain_unprocessed n = \<lparr>un_parent = (chain_header 0)\<lparr>parentBlock := 99\<rparr>, un_block = chain_block (of_nat n),
     un_proposal = chain_row (of_nat n) n (Some (if n = 1 then ''1'' else ''2'')) None\<rparr>"

lemma chain_oldest:
  "getOldestUnprocessedBlock chain_lib (chain_db None txs) = Ok (Some (chain_unprocessed 1))"
  "getOldestUnprocessedBlock chain_lib (chain_db (Some False) txs) = Ok (Some (chain_unprocessed 2))"
  using chain_stored [of 1 "''1''" None] chain_stored [of 2 "''2''" None]
  by (simp_all add: getOldestUnprocessedBlock_def order_asc_def first_row_def chain_db_parts chain_row_simps
      chain_headers_def chain_header_def chain_unprocessed_def chain_block_def)

lemma chain_not_uncle: "\<not> isUncleBlock (chain_db None txs) 0 1" "\<not> isUncleBlock (chain_db (Some False) txs) 0 2"
  by (simp_all add: isUncleBlock_def chain_db_parts chain_row_simps chain_headers_def chain_header_def)

text \<open>The first proposal is slashed: its transaction is saved.\<close>

lemma chain_slashed:
  obtains q' d where "slash_block (chain_block 1) v (chain_processor None []) = Ok q'"
    and "pc_db q' = chain_db (Some False) [d]" and "pc_lib q' = chain_lib"
proof -
  obtain h where h: "tx_hash chain_lib sample_tx = Ok h" using chain_tx_hash by blast
  let ?p = "chain_processor None []"
  obtain d where save: "saveTransactions chain_lib (chain_block 1) True = Ok [Create_Tx d, Delete_PendingTx (\<lambda>k. k = h)]"
    by (simp add: saveTransactions_def chain_block_parts tx_writes_def h)
  let ?ws = "[Update_Proposal (\<lambda>r. pp_hash r = bl_hash (chain_block 1)) (\<lambda>r. r\<lparr>pp_verified := Some False\<rparr>),
            Update_MassDeposit (\<lambda>r. mdr_includedIn r = Some (bl_hash (chain_block 1))) (\<lambda>r. r\<lparr>mdr_includedIn := None\<rparr>),
            Create_Tx d, Delete_PendingTx (\<lambda>k. k = h)]"
  have "exec_writes ?ws (chain_db None [], demo_db) = Ok (chain_db (Some False) [d], demo_db)"
    by (simp add: chain_db_def chain_row_simps update_rows_def chain_block_parts)
  then have "transaction (Ok ?ws) ?p = Ok (?p\<lparr>pc_node := set_dbs (chain_db (Some False) [d], demo_db) (pc_node ?p)\<rparr>)"
    by (simp add: transaction_def chain_processor_parts del: exec_writes_Cons)
  then have "slash_block (chain_block 1) v ?p =
      Ok (emit (Slash_event v (chain_block 1)) (?p\<lparr>pc_node := set_dbs (chain_db (Some False) [d], demo_db) (pc_node ?p)\<rparr>))"
    by (simp add: slash_block_def chain_processor_parts save)
  then show thesis by (rule that) (simp_all add: emit_def chain_processor_parts)
qed

end
