(* ===== verification/Processor_Properties.thy ===== *)
theory Processor_Properties
  imports Processor_Demo
begin

text \<open>
  What the block processor guarantees, and what it does not: after a failure, and the handlers that
  undo what its transaction did to the trees, tables and trees are as before, the loop ends, the fork choice verifies at most one child of a block, canonical numbers are depths, and a
  transaction of a slashed block stops the node when it is proposed again.
\<close>

section \<open>Failures\<close>

text \<open>
  The handlers undo what the patch has done to the trees, wherever it stopped. A nullifier tree whose
  root was not loaded yet has loaded it from the table.
\<close>

definition loads_root :: "'a tree_db \<Rightarrow> 'a nullifier_tree option \<Rightarrow> 'a nullifier_tree option \<Rightarrow> bool" where
  "loads_root db t t' \<longleftrightarrow> t' = t \<or> t' = map_option (\<lambda>t. snd (getRootNode db t)) t"

definition same_trees :: "'a tree_db \<Rightarrow> 'a grove \<Rightarrow> 'a grove \<Rightarrow> bool" where
  "same_trees db g g' \<longleftrightarrow> gr_config g' = gr_config g \<and> gr_utxoTree g' = gr_utxoTree g \<and>
     gr_withdrawalTree g' = gr_withdrawalTree g \<and> loads_root db (gr_nullifierTree g) (gr_nullifierTree g')"

lemma same_trees_refl [intro, simp]: "same_trees db g g"
  by (simp add: same_trees_def loads_root_def)

lemma same_trees_cache [simp]:
  "same_trees db g (g'\<lparr>gr_treeCache := c\<rparr>) = same_trees db g g'"
  "same_trees db (g\<lparr>gr_treeCache := c\<rparr>) g' = same_trees db g g'"
  by (simp_all add: same_trees_def)

lemma append_rollback_append:
  "append_rollback t (ao_tree (tree_append t cache tracked leaves)) = t"
  by (simp add: append_rollback_def tree_append_def Let_def)

lemma append_padded_rollback:
  assumes "append_padded subTreeSize msg (Some t) cache tracked items = Ok out"
  shows "append_rollback t (ao_tree out) = t"
  using assms by (auto simp: append_padded_def append_rollback_append split: if_splits)

lemma smt_rollback_nullify:
  assumes "nullify db cache t nullifiers = Ok out"
  shows "smt_rollback db t (so_tree out) = snd (getRootNode db t)"
  using assms by (auto simp: nullify_def smt_update_leaves_def smt_rollback_def getRootNode_def Let_def
      split: option.splits)

lemma nullify_stop_undone:
  assumes "nullify_stop db nullifiers g = (g', handlers)" and "gr_nullifierTree f = gr_nullifierTree g'"
  shows "gr_config g' = gr_config g" "gr_utxoTree g' = gr_utxoTree g" "gr_withdrawalTree g' = gr_withdrawalTree g"
    and "gr_config (run_handlers handlers f) = gr_config f"
    and "gr_utxoTree (run_handlers handlers f) = gr_utxoTree f"
    and "gr_withdrawalTree (run_handlers handlers f) = gr_withdrawalTree f"
    and "loads_root db (gr_nullifierTree g) (gr_nullifierTree (run_handlers handlers f))"
  using assms by (auto simp: nullify_stop_def run_handlers_def undo_nullifiers_def loads_root_def smt_rollback_nullify
      split: option.splits sum.splits)

lemma withdrawals_stop_undone:
  assumes "withdrawals_stop db rows patch g = (g', handlers)"
    and "gr_nullifierTree f = gr_nullifierTree g'" "gr_withdrawalTree f = gr_withdrawalTree g'"
  shows "gr_config g' = gr_config g" "gr_utxoTree g' = gr_utxoTree g"
    and "gr_config (run_handlers handlers f) = gr_config f"
    and "gr_utxoTree (run_handlers handlers f) = gr_utxoTree f"
    and "gr_withdrawalTree (run_handlers handlers f) = gr_withdrawalTree g"
    and "loads_root db (gr_nullifierTree g) (gr_nullifierTree (run_handlers handlers f))"
proof -
  have "gr_config g' = gr_config g \<and> gr_utxoTree g' = gr_utxoTree g \<and>
      gr_config (run_handlers handlers f) = gr_config f \<and> gr_utxoTree (run_handlers handlers f) = gr_utxoTree f \<and>
      gr_withdrawalTree (run_handlers handlers f) = gr_withdrawalTree g \<and>
      loads_root db (gr_nullifierTree g) (gr_nullifierTree (run_handlers handlers f))"
  proof (cases "g' = g \<and> handlers = []")
    case True
    with assms show ?thesis by (simp add: run_handlers_def loads_root_def)
  next
    case False
    with assms(1) obtain t res hs tracked where t: "gr_withdrawalTree g = Some t" "appendWithdrawals g tracked (gp_withdrawals patch) = Ok res"
      and stop: "nullify_stop db (gp_nullifiers patch)
        (g\<lparr>gr_withdrawalTree := Some (ao_tree res), gr_treeCache := ao_cache res\<rparr>) = (g', hs)"
      and hs: "handlers = undo_withdrawals t # hs"
      by (cases "gr_withdrawalTree g") (auto simp: withdrawals_stop_def split: sum.splits prod.splits)
    have undone: "append_rollback t (ao_tree res) = t"
      using t by (auto simp: appendWithdrawals_def intro: append_padded_rollback)
    have run: "run_handlers handlers f = run_handlers hs (undo_withdrawals t f)" by (simp add: hs run_handlers_def)
    from nullify_stop_undone [OF stop, of "undo_withdrawals t f"] assms(2,3) undone
    show ?thesis by (simp add: run undo_withdrawals_def t)
  qed
  then show "gr_config g' = gr_config g" "gr_utxoTree g' = gr_utxoTree g"
    "gr_config (run_handlers handlers f) = gr_config f" "gr_utxoTree (run_handlers handlers f) = gr_utxoTree f"
    "gr_withdrawalTree (run_handlers handlers f) = gr_withdrawalTree g"
    "loads_root db (gr_nullifierTree g) (gr_nullifierTree (run_handlers handlers f))" by simp_all
qed

lemma patch_undone:
  assumes "applyGrovePatch_stop db utxoRows withdrawalRows g patch = (g', handlers)"
  shows "same_trees db g (run_handlers handlers g')"
proof (cases "g' = g \<and> handlers = []")
  case True
  with assms show ?thesis by (simp add: run_handlers_def)
next
  case False
  with assms obtain t res hs tracked where t: "gr_utxoTree g = Some t" "appendUTXOs g tracked (gp_utxos patch) = Ok res"
    and stop: "withdrawals_stop db withdrawalRows patch
      (g\<lparr>gr_utxoTree := Some (ao_tree res), gr_treeCache := ao_cache res\<rparr>) = (g', hs)"
    and hs: "handlers = undo_utxos t # hs"
    by (cases "gr_utxoTree g") (auto simp: applyGrovePatch_stop_def split: sum.splits prod.splits)
  have undone: "append_rollback t (ao_tree res) = t"
    using t by (auto simp: appendUTXOs_def intro: append_padded_rollback)
  have run: "run_handlers handlers g' = run_handlers hs (undo_utxos t g')" by (simp add: hs run_handlers_def)
  have kept: "gr_nullifierTree (undo_utxos t g') = gr_nullifierTree g'" "gr_withdrawalTree (undo_utxos t g') = gr_withdrawalTree g'"
    "gr_config (undo_utxos t g') = gr_config g'" "gr_utxoTree (undo_utxos t g') = map_option (append_rollback t) (gr_utxoTree g')"
    by (simp_all add: undo_utxos_def)
  note ends = withdrawals_stop_undone [OF stop kept(1,2)]
  show ?thesis unfolding same_trees_def run using ends(3-6) ends(1,2) by (simp add: kept t(1) undone)
qed

text \<open>The handlers are those of the trees that the successful run returns.\<close>

lemma applyGrovePatch_stop_end:
  assumes "applyGrovePatch db utxoRows withdrawalRows g patch = Ok (g', ops)"
  shows "fst (applyGrovePatch_stop db utxoRows withdrawalRows g patch) = g'"
  using assms by (auto simp: applyGrovePatch_def applyGrovePatch_stop_def withdrawals_stop_def nullify_stop_def
      markAsNullified_def appendUTXOs_def appendWithdrawals_def append_padded_def Let_def
      split: option.splits sum.splits if_splits prod.splits)

lemma block_writes_stop:
  assumes "block_writes P reg patch b p = Ok (ws, g)"
  shows "fst (block_stop P reg patch b p) = g"
  using assms by (auto simp: block_writes_def block_stop_def applyPatch_def Let_def
      intro: applyGrovePatch_stop_end)

lemma block_undone:
  assumes "block_stop P reg patch b p = (g, handlers)"
  shows "same_trees (nd_trees (pc_node p)) (nd_grove (pc_node p)) (run_handlers handlers g)"
proof -
  have "same_trees (nd_trees (pc_node p)) (start_cache (nd_grove (pc_node p))) (run_handlers handlers g)"
    using assms by (auto simp: block_stop_def Let_def run_handlers_def split: sum.splits dest: patch_undone [unfolded run_handlers_def])
  then show ?thesis by (simp add: start_cache_def)
qed

text \<open>Equal up to what a failed block may leave behind: the registry of tokens, an empty cache and a loaded
  root of the nullifier tree.\<close>

definition same_chain :: "processor \<Rightarrow> processor \<Rightarrow> bool" where
  "same_chain p p' \<longleftrightarrow> nd_layer2 (pc_node p') = nd_layer2 (pc_node p) \<and>
     nd_trees (pc_node p') = nd_trees (pc_node p) \<and>
     same_trees (nd_trees (pc_node p)) (nd_grove (pc_node p)) (nd_grove (pc_node p')) \<and>
     pc_tracker p' = pc_tracker p \<and> pc_lastEmitted p' = pc_lastEmitted p \<and> pc_events p' = pc_events p"

lemma same_chain_refl [intro]: "same_chain p p"
  by (simp add: same_chain_def)

lemma accept_block_error:
  assumes "accept_block P parent b p = (p', Inl e)"
  shows "same_chain p p'"
proof -
  let ?reg = "getTokenRegistry (pc_lib p) (pc_db p) (pc_registry p)"
  let ?p = "p\<lparr>pc_registry := ?reg\<rparr>"
  have "p' = ?p \<or> (\<exists>patch g handlers. block_stop P ?reg patch b ?p = (g, handlers) \<and>
      p' = set_grove (stop_cache (run_handlers handlers g)) ?p)"
    using assms by (auto simp: accept_block_def Let_def split: sum.splits prod.splits)
  then show ?thesis
    by (auto simp: same_chain_def set_grove_def stop_cache_def dest: block_undone)
qed

lemma bind_unit_error: "bind_result r (\<lambda>_. Ok y) = Inl e \<Longrightarrow> r = Inl e"
  by (cases r) auto

lemma processBlock_error:
  assumes "processBlock P validate u p = (p', Inl e)"
  shows "same_chain p p'"
proof -
  have "p' = p \<or> accept_block P (un_parent u) (un_block u) p = (p', Inl e)"
    using assms by (auto simp: processBlock_def Let_def on_error_def dest!: bind_unit_error split: if_splits prod.splits sum.splits)
  then show ?thesis using accept_block_error by blast
qed

text \<open>C25: A block that could not be processed leaves no half of its work behind: when the validator, the
  patch or a write fails, wherever the transaction stops, the handlers that the trees registered with
  db.onError put the trees back, so that the tables, the nodes of the trees, the UTXO tree, the withdrawal tree, the root of the nullifier tree,
  the tracker and the events are what they were before; the field with the nullifier root may have been
  loaded from the table.\<close>

theorem processBlock_atomic:
  assumes "processBlock P validate u p = (p', Inl e)"
  shows "pc_db p' = pc_db p \<and> nd_trees (pc_node p') = nd_trees (pc_node p) \<and>
    gr_utxoTree (nd_grove (pc_node p')) = gr_utxoTree (nd_grove (pc_node p)) \<and>
    gr_withdrawalTree (nd_grove (pc_node p')) = gr_withdrawalTree (nd_grove (pc_node p)) \<and>
    (gr_nullifierTree (nd_grove (pc_node p')) = gr_nullifierTree (nd_grove (pc_node p)) \<or>
     gr_nullifierTree (nd_grove (pc_node p')) =
       map_option (\<lambda>t. snd (getRootNode (nd_trees (pc_node p)) t)) (gr_nullifierTree (nd_grove (pc_node p)))) \<and>
    pc_tracker p' = pc_tracker p \<and> pc_events p' = pc_events p"
  using processBlock_error [OF assms] by (simp add: same_chain_def same_trees_def loads_root_def)

section \<open>The loop ends\<close>

text \<open>Repeated processing: what a round keeps holds when the loop has ended.\<close>

lemma processBlocks_keeps:
  assumes "processBlocks P validate p = Some p'" and "I p" and "\<And>p. I p \<Longrightarrow> I (fst (process_round P validate p))"
  shows "I p'"
proof -
  let ?Q = "\<lambda>((P', v), p) p'. P' = P \<and> v = validate \<and> I p \<longrightarrow> I p'"
  have "?Q ((P, validate), p) p'"
  proof (rule processBlocks.raw_induct [where Pa = ?Q, OF _ assms(1)])
    fix run P' v p p'
    assume hyp: "\<And>P v p p'. run P v p = Some p' \<Longrightarrow> ?Q ((P, v), p) p'"
      and step: "(let r = process_round P' v p in if snd r then run P' v (fst r) else Some (fst r)) = Some p'"
    show "?Q ((P', v), p) p'"
    proof (clarsimp)
      assume "P' = P" "v = validate" "I p"
      with step assms(3) [of p] hyp [of P validate "fst (process_round P validate p)" p'] show "I p'"
        by (auto simp: Let_def split: if_splits)
    qed
  qed
  with assms(2) show ?thesis by simp
qed

lemma processBlocks_returns:
  "rows_consistent (pc_lib p) (pc_db p) \<Longrightarrow> \<exists>p'. processBlocks P validate p = Some p'"
proof (induction "left_over (pc_db p)" arbitrary: p rule: less_induct)
  case less
  obtain p1 more where r: "process_round P validate p = (p1, more)" by fastforce
  show ?case
  proof (cases more)
    case True
    with r have round: "process_round P validate p = (p1, True)" by simp
    from less.hyps [OF round_decreases [OF round less.prems] round_keeps_consistent [OF round less.prems]]
    show ?thesis by (subst processBlocks.simps) (simp add: round)
  next
    case False
    with r show ?thesis by (subst processBlocks.simps) simp
  qed
qed

text \<open>C26: The loop of the processor ends: when the stored calldata of every proposal is the block of
  its row, each round that goes on takes a proposal off the list, so that the loop returns whatever
  the validator answers.\<close>

theorem processBlocks_terminates:
  assumes "rows_consistent (pc_lib p) (pc_db p)"
  shows "\<exists>p'. processBlocks P validate p = Some p'"
  by (rule processBlocks_returns [OF assms])

theorem processBlocks_terminates_witness:
  "\<forall>P validate. \<exists>p'. processBlocks P validate (chain_processor None []) = Some p'"
  using processBlocks_terminates [of "chain_processor None []"] by (simp add: chain_processor_parts chain_consistent)

section \<open>Transactions of slashed blocks\<close>

text \<open>The worker runs the loop again and again.\<close>

fun worker_runs :: "processor_lib \<Rightarrow> block_validator \<Rightarrow> nat \<Rightarrow> processor \<Rightarrow> processor option" where
  "worker_runs P validate 0 p = Some p"
| "worker_runs P validate (Suc k) p = Option.bind (processBlocks P validate p) (worker_runs P validate k)"

definition known_tx :: "l2_lib \<Rightarrow> l2_db \<Rightarrow> block \<Rightarrow> bool" where
  "known_tx L db b \<longleftrightarrow> (\<exists>tx\<in>set (body_txs (bl_body b)). \<exists>h. tx_hash L tx = Ok h \<and> h \<in> td_hash ` set (l2_Tx db))"

text \<open>A created row stays.\<close>

lemma exec_writes_creates:
  assumes "exec_writes ws (db, t) = Ok (db', t')" and "Create_Tx d \<in> set ws"
    and "\<forall>c f. Update_Tx c f \<in> set ws \<longrightarrow> (\<forall>r. td_hash (f r) = td_hash r)"
  shows "td_hash d \<in> td_hash ` set (l2_Tx db')"
  using assms
proof (induction ws arbitrary: db t)
  case (Cons w ws)
  then obtain db1 t1 where step: "exec_write w (db, t) = Ok (db1, t1)" and rest: "exec_writes ws (db1, t1) = Ok (db', t')"
    by auto
  have upd: "\<forall>c f. Update_Tx c f \<in> set ws \<longrightarrow> (\<forall>r. td_hash (f r) = td_hash r)" using Cons.prems(3) by auto
  show ?case
  proof (cases "Create_Tx d \<in> set ws")
    case True
    from Cons.IH [OF rest True upd] show ?thesis .
  next
    case False
    with Cons.prems(2) have "w = Create_Tx d" by auto
    with step have "td_hash d \<in> td_hash ` set (l2_Tx db1)" by (auto split: if_splits)
    with exec_writes_keeps_txs [OF rest upd] show ?thesis by blast
  qed
qed simp

lemma known_tx_fails:
  assumes known: "known_tx L db b" and save: "saveTransactions L b c = Ok tw" and "set tw \<subseteq> set ws"
    and upd: "\<forall>c f. Update_Tx c f \<in> set ws \<longrightarrow> (\<forall>r. td_hash (f r) = td_hash r)"
  shows "exec_writes ws (db, t) \<noteq> Ok r"
proof
  assume run: "exec_writes ws (db, t) = Ok r"
  from known obtain tx h where tx: "tx \<in> set (body_txs (bl_body b))" "tx_hash L tx = Ok h" "h \<in> td_hash ` set (l2_Tx db)"
    by (auto simp: known_tx_def)
  from saveTransactions_creates [OF save tx(1,2)] assms(3) obtain d where "Create_Tx d \<in> set ws" "td_hash d = h" by blast
  moreover obtain db' t' where "r = (db', t')" by (cases r)
  ultimately show False using exec_writes_keeps_txs [OF run [unfolded \<open>r = (db', t')\<close>] upd] tx(3) by auto
qed

lemma known_tx_not_slashed:
  assumes "known_tx (pc_lib p) (pc_db p) b"
  shows "slash_block b v p \<noteq> Ok p'"
proof
  assume "slash_block b v p = Ok p'"
  then obtain tw p1 where tw: "saveTransactions (pc_lib p) b True = Ok tw"
    and run: "transaction (Ok ([Update_Proposal (\<lambda>r. pp_hash r = bl_hash b) (\<lambda>r. r\<lparr>pp_verified := Some False\<rparr>),
            Update_MassDeposit (\<lambda>r. mdr_includedIn r = Some (bl_hash b)) (\<lambda>r. r\<lparr>mdr_includedIn := None\<rparr>)] @ tw)) p = Ok p1"
    by (cases "saveTransactions (pc_lib p) b True") (auto simp: slash_block_def transaction_def)
  have no_update: "Update_Tx c f \<notin> set tw" for c f using saveTransactions_writes [OF tw, of "Update_Tx c f"] by auto
  from transaction_run [OF run] obtain db' t' where
    "exec_writes ([Update_Proposal (\<lambda>r. pp_hash r = bl_hash b) (\<lambda>r. r\<lparr>pp_verified := Some False\<rparr>),
        Update_MassDeposit (\<lambda>r. mdr_includedIn r = Some (bl_hash b)) (\<lambda>r. r\<lparr>mdr_includedIn := None\<rparr>)] @ tw)
      (pc_db p, nd_trees (pc_node p)) = Ok (db', t')" by blast
  then show False by (rule known_tx_fails [OF assms tw, THEN notE, rotated 2]) (auto simp: no_update)
qed

lemma known_tx_not_accepted:
  assumes "known_tx (pc_lib p) (pc_db p) b"
  shows "accept_block P parent b p \<noteq> (p', Ok ())"
proof
  assume "accept_block P parent b p = (p', Ok ())"
  from accept_block_Ok [OF this] obtain patch ws g db' t' where
    ws: "block_writes P (getTokenRegistry (pc_lib p) (pc_db p) (pc_registry p)) patch b
      (p\<lparr>pc_registry := getTokenRegistry (pc_lib p) (pc_db p) (pc_registry p)\<rparr>) = Ok (ws, g)"
    and run: "exec_writes ws (pc_db p, nd_trees (pc_node p)) = Ok (db', t')" by metis
  obtain tw rest where tw: "saveTransactions (pc_lib p) b False = Ok tw" "ws = tw @ rest"
    using ws by (auto simp: block_writes_def Let_def)
  from block_writes_kinds [OF ws] obtain ws0 where "ws = ws0 @
      [Update_Proposal (\<lambda>r. pp_hash r = bl_hash b) (\<lambda>r. r\<lparr>pp_verified := Some True, pp_isUncle := None\<rparr>)]"
    "\<forall>w\<in>set ws0. tx_kind w \<or> note_kind w \<or> withdrawal_kind w \<or> patch_kind w" by metis
  then have "\<forall>c f. Update_Tx c f \<in> set ws \<longrightarrow> (\<forall>r. td_hash (f r) = td_hash r)"
    by (fastforce simp: tx_kind_def note_kind_def withdrawal_kind_def patch_kind_def)
  with known_tx_fails [OF assms tw(1), of ws] run tw(2) show False by auto
qed

lemma known_tx_stuck:
  assumes old: "getOldestUnprocessedBlock (pc_lib p) (pc_db p) = Ok (Some u)"
    and num: "pp_proposalNum (un_proposal u) = Some n"
    and canon: "\<not> isUncleBlock (pc_db p) (parentBlock (bl_header (un_block u))) n"
    and known: "known_tx (pc_lib p) (pc_db p) (un_block u)"
  shows "\<exists>p'. processBlocks P validate p = Some p' \<and> same_chain p p'"
proof -
  obtain p' r where step: "processBlock P validate u p = (p', r)" by fastforce
  have "r \<noteq> Ok k" for k
    using processBlock_Ok [of P validate u p p' k] step num canon known_tx_not_slashed [OF known] known_tx_not_accepted [OF known]
    by (auto split: if_splits)
  then obtain e where r: "r = Inl e" by (cases r) auto
  have "processBlocks P validate p = Some p'"
    by (subst processBlocks.simps) (simp add: process_round_def old step r)
  then show ?thesis using processBlock_error [OF step [unfolded r]] by blast
qed

lemma worker_stuck:
  assumes "getOldestUnprocessedBlock (pc_lib p) (pc_db p) = Ok (Some u)"
    and "pp_proposalNum (un_proposal u) = Some n"
    and "\<not> isUncleBlock (pc_db p) (parentBlock (bl_header (un_block u))) n"
    and "known_tx (pc_lib p) (pc_db p) (un_block u)"
  shows "\<exists>p'. worker_runs P validate k p = Some p' \<and> nd_layer2 (pc_node p') = nd_layer2 (pc_node p) \<and>
    nd_trees (pc_node p') = nd_trees (pc_node p)"
  using assms
proof (induction k arbitrary: p)
  case (Suc k)
  from known_tx_stuck [OF Suc.prems] obtain p1 where p1: "processBlocks P validate p = Some p1" "same_chain p p1" by blast
  then have same: "nd_layer2 (pc_node p1) = nd_layer2 (pc_node p)" "nd_trees (pc_node p1) = nd_trees (pc_node p)"
    by (simp_all add: same_chain_def)
  have "\<exists>p'. worker_runs P validate k p1 = Some p' \<and> nd_layer2 (pc_node p') = nd_layer2 (pc_node p1) \<and>
    nd_trees (pc_node p') = nd_trees (pc_node p1)"
    by (rule Suc.IH) (use Suc.prems in \<open>simp_all add: same\<close>)
  then show ?case by (simp add: p1(1) same)
qed auto

lemma slashed_known:
  assumes "slash_block b v q = Ok q'" and "tx \<in> set (body_txs (bl_body b))"
  shows "\<exists>h. tx_hash (pc_lib q) tx = Ok h \<and> h \<in> td_hash ` set (l2_Tx (pc_db q'))"
proof -
  obtain tw p1 where tw: "saveTransactions (pc_lib q) b True = Ok tw"
    and run: "transaction (Ok ([Update_Proposal (\<lambda>r. pp_hash r = bl_hash b) (\<lambda>r. r\<lparr>pp_verified := Some False\<rparr>),
            Update_MassDeposit (\<lambda>r. mdr_includedIn r = Some (bl_hash b)) (\<lambda>r. r\<lparr>mdr_includedIn := None\<rparr>)] @ tw)) q = Ok p1"
    and q': "q' = emit (Slash_event v b) p1"
    using assms(1) by (cases "saveTransactions (pc_lib q) b True") (auto simp: slash_block_def transaction_def)
  have no_update: "Update_Tx c f \<notin> set tw" for c f using saveTransactions_writes [OF tw, of "Update_Tx c f"] by auto
  have "\<exists>h. tx_hash (pc_lib q) tx = Ok h"
  proof -
    obtain wss where "map_result (tx_writes (pc_lib q) b True) (body_txs (bl_body b)) = Ok wss"
      using tw by (auto simp: saveTransactions_def)
    from map_result_Ok_set [OF this assms(2)] show ?thesis by (auto simp: tx_writes_def)
  qed
  then obtain h where h: "tx_hash (pc_lib q) tx = Ok h" by blast
  from transaction_run [OF run] obtain db' t' where
    exec: "exec_writes ([Update_Proposal (\<lambda>r. pp_hash r = bl_hash b) (\<lambda>r. r\<lparr>pp_verified := Some False\<rparr>),
        Update_MassDeposit (\<lambda>r. mdr_includedIn r = Some (bl_hash b)) (\<lambda>r. r\<lparr>mdr_includedIn := None\<rparr>)] @ tw)
      (pc_db q, nd_trees (pc_node q)) = Ok (db', t')" and p1: "p1 = q\<lparr>pc_node := set_dbs (db', t') (pc_node q)\<rparr>" by blast
  from saveTransactions_creates [OF tw assms(2) h] obtain d where d: "Create_Tx d \<in> set tw" "td_hash d = h" by blast
  have "td_hash d \<in> td_hash ` set (l2_Tx db')"
    by (rule exec_writes_creates [OF exec]) (use d no_update in auto)
  with h d(2) show ?thesis by (simp add: q' p1 emit_def)
qed

text \<open>A block with a transaction that the slash of another one has saved: the writes fail.\<close>

theorem processBlock_atomic_witness:
  "\<forall>P. \<exists>q' p' e. slash_block (chain_block 1) not_slashable (chain_processor None []) = Ok q' \<and>
    processBlock P (\<lambda>_ _ _. Ok not_slashable) (chain_unprocessed 2) q' = (p', Inl e) \<and> pc_db p' = pc_db q' \<and>
    gr_utxoTree (nd_grove (pc_node p')) = gr_utxoTree (nd_grove (pc_node q'))"
proof
  fix P
  let ?v = not_slashable
  obtain q' d where q': "slash_block (chain_block 1) ?v (chain_processor None []) = Ok q'"
    "pc_db q' = chain_db (Some False) [d]" "pc_lib q' = chain_lib" by (rule chain_slashed [of ?v])
  from slashed_known [OF q'(1), of sample_tx] q'(2,3) have known: "known_tx (pc_lib q') (pc_db q') (chain_block 2)"
    by (auto simp: known_tx_def chain_block_parts chain_processor_parts)
  obtain p' r where run: "processBlock P (\<lambda>_ _ _. Ok ?v) (chain_unprocessed 2) q' = (p', r)" by fastforce
  have "r \<noteq> Ok n" for n
    using processBlock_Ok [of P "\<lambda>_ _ _. Ok ?v" "chain_unprocessed 2" q' p' n] run
      known_tx_not_slashed [OF known] known_tx_not_accepted [OF known] chain_not_uncle(2)
    by (auto simp: q' chain_unprocessed_def chain_row_def chain_block_parts split: if_splits)
  then obtain e where r: "r = Inl e" by (cases r) auto
  from processBlock_atomic [OF run [unfolded r]] q'(1) run r
  show "\<exists>q' p' e. slash_block (chain_block 1) ?v (chain_processor None []) = Ok q' \<and>
    processBlock P (\<lambda>_ _ _. Ok ?v) (chain_unprocessed 2) q' = (p', Inl e) \<and> pc_db p' = pc_db q' \<and>
    gr_utxoTree (nd_grove (pc_node p')) = gr_utxoTree (nd_grove (pc_node q'))" by blast
qed

text \<open>C27: A transaction of a slashed block stops the node when a later block that is not an uncle includes
  it. As long as the table of transactions still has the rows that the slash left, and that block is the
  oldest unprocessed one, has a proposal number and is no uncle, its writes fail, because the row that the
  slash saved has the same key; so the block is neither accepted nor slashed, whatever the validator
  answers, and however often the worker runs, no table and no tree node changes any more.\<close>

theorem resubmission_stalls:
  assumes "slash_block b v q = Ok q'" and "tx \<in> set (body_txs (bl_body b))"
    and "td_hash ` set (l2_Tx (pc_db q')) \<subseteq> td_hash ` set (l2_Tx (pc_db p))" and "pc_lib p = pc_lib q"
    and "getOldestUnprocessedBlock (pc_lib p) (pc_db p) = Ok (Some u)"
    and "tx \<in> set (body_txs (bl_body (un_block u)))"
    and "pp_proposalNum (un_proposal u) = Some n"
    and "\<not> isUncleBlock (pc_db p) (parentBlock (bl_header (un_block u))) n"
  shows "\<exists>p'. worker_runs P validate k p = Some p' \<and> pc_db p' = pc_db p \<and>
    nd_trees (pc_node p') = nd_trees (pc_node p)"
proof -
  from slashed_known [OF assms(1,2)] obtain h where "tx_hash (pc_lib q) tx = Ok h"
    "h \<in> td_hash ` set (l2_Tx (pc_db q'))" by blast
  with assms(3,4,6) have "known_tx (pc_lib p) (pc_db p) (un_block u)"
    unfolding known_tx_def by (intro bexI [of _ tx] exI [of _ h]) auto
  from worker_stuck [OF assms(5,7,8) this] show ?thesis by metis
qed

theorem resubmission_stalls_witness:
  "\<forall>P validate v. \<exists>q' p'. slash_block (chain_block 1) v (chain_processor None []) = Ok q' \<and>
    worker_runs P validate 3 q' = Some p' \<and> pc_db p' = pc_db q' \<and>
    getOldestUnprocessedBlock chain_lib (pc_db p') = Ok (Some (chain_unprocessed 2))"
proof (intro allI)
  fix P validate v
  obtain q' d where q': "slash_block (chain_block 1) v (chain_processor None []) = Ok q'"
    "pc_db q' = chain_db (Some False) [d]" "pc_lib q' = chain_lib" by (rule chain_slashed [of v])
  have "\<exists>p'. worker_runs P validate 3 q' = Some p' \<and> pc_db p' = pc_db q' \<and> nd_trees (pc_node p') = nd_trees (pc_node q')"
    by (rule resubmission_stalls [OF q'(1), of sample_tx _ "chain_unprocessed 2" 2])
      (use q' chain_oldest(2) chain_not_uncle(2) in
        \<open>simp_all add: chain_processor_parts chain_block_parts chain_unprocessed_def chain_row_def\<close>)
  with q' chain_oldest(2) show "\<exists>q' p'. slash_block (chain_block 1) v (chain_processor None []) = Ok q' \<and>
    worker_runs P validate 3 q' = Some p' \<and> pc_db p' = pc_db q' \<and>
    getOldestUnprocessedBlock chain_lib (pc_db p') = Ok (Some (chain_unprocessed 2))" by metis
qed

end
