(* ===== verification/Processor_Forks.thy ===== *)
theory Processor_Forks
  imports Processor_Properties
begin

text \<open>
  The fork choice of the block processor, and the canonical numbers it gives to the proposals.
\<close>

section \<open>A round, for invariants\<close>

lemma round_outcome:
  assumes "process_round P validate p = (p', goes_on)"
  obtains p1 where "p1 = p \<or> (\<exists>u n. getOldestUnprocessedBlock (pc_lib p) (pc_db p) = Ok (Some u) \<and>
      processBlock P validate u p = (p1, Ok n))"
    and "nd_layer2 (pc_node p') = nd_layer2 (pc_node p1) \<or>
      (\<exists>k. nd_layer2 (pc_node p') = nd_layer2 (pc_node (fst (number_blocks k p1))))"
proof -
  consider (none) e where "getOldestUnprocessedBlock (pc_lib p) (pc_db p) = Inl e"
    | (all) "getOldestUnprocessedBlock (pc_lib p) (pc_db p) = Ok None"
    | (one) u where "getOldestUnprocessedBlock (pc_lib p) (pc_db p) = Ok (Some u)"
    by (metis option.exhaust sum.exhaust)
  then show thesis
  proof cases
    case none
    with assms that [of p] show thesis by (auto simp: process_round_def)
  next
    case all
    with assms have "p' = finish_round p" by (simp add: process_round_def)
    then have "\<exists>k. nd_layer2 (pc_node p') = nd_layer2 (pc_node (fst (number_blocks k p)))"
      by (auto simp: finish_round_def Let_def emit_def split: prod.splits sum.splits if_splits option.splits) (metis fst_conv)+
    with that [of p] show thesis by auto
  next
    case one
    obtain p1 r where step: "processBlock P validate u p = (p1, r)" by fastforce
    show thesis
    proof (cases r)
      case (Inl e)
      with assms one step have "p' = p1" by (simp add: process_round_def)
      with processBlock_error [OF step [unfolded Inl]] that [of p] show thesis by (auto simp: same_chain_def)
    next
      case (Inr n)
      obtain p2 s where numbered: "number_blocks n p1 = (p2, s)" by fastforce
      with assms one step Inr have "p' = p2 \<or> p' = emit (Processed_event n (Some (un_block u))) p2"
        by (auto simp: process_round_def split: sum.splits)
      then have "nd_layer2 (pc_node p') = nd_layer2 (pc_node (fst (number_blocks n p1)))" by (auto simp: numbered emit_def)
      with that [of p1] one step Inr show thesis by blast
    qed
  qed
qed

text \<open>An invariant of the tables that processing the oldest block and numbering keep holds after a round.\<close>

lemma round_keeps:
  assumes start: "I (pc_lib p) (pc_db p)"
    and block: "\<And>p u n p1. I (pc_lib p) (pc_db p) \<Longrightarrow> getOldestUnprocessedBlock (pc_lib p) (pc_db p) = Ok (Some u) \<Longrightarrow>
      processBlock P validate u p = (p1, Ok n) \<Longrightarrow> I (pc_lib p) (pc_db p1)"
    and number: "\<And>p k. I (pc_lib p) (pc_db p) \<Longrightarrow> I (pc_lib p) (pc_db (fst (number_blocks k p)))"
  shows "I (pc_lib p) (pc_db (fst (process_round P validate p))) \<and> pc_lib (fst (process_round P validate p)) = pc_lib p"
proof -
  obtain p' goes_on where round: "process_round P validate p = (p', goes_on)" by fastforce
  from round_outcome [OF this] obtain p1 where
    p1: "p1 = p \<or> (\<exists>u n. getOldestUnprocessedBlock (pc_lib p) (pc_db p) = Ok (Some u) \<and> processBlock P validate u p = (p1, Ok n))"
    and p': "nd_layer2 (pc_node p') = nd_layer2 (pc_node p1) \<or>
      (\<exists>k. nd_layer2 (pc_node p') = nd_layer2 (pc_node (fst (number_blocks k p1))))" by metis
  have lib: "pc_lib p1 = pc_lib p" using p1 processBlock_marks by (metis marks_def)
  have one: "I (pc_lib p) (pc_db p1)" using p1 start block by auto
  with number [of p1] lib have numbered: "I (pc_lib p) (pc_db (fst (number_blocks k p1)))" for k by simp
  have "pc_lib p' = pc_lib p" using p' number_blocks_same(4) [where p = p1] lib by auto
  moreover have "I (pc_lib p) (pc_db p')" using p' one numbered by auto
  ultimately show ?thesis unfolding round by simp
qed

lemma chain_invariant:
  assumes run: "processBlocks P validate p = Some p'" and start: "I (pc_lib p) (pc_db p)"
    and block: "\<And>p u n p1. I (pc_lib p) (pc_db p) \<Longrightarrow> getOldestUnprocessedBlock (pc_lib p) (pc_db p) = Ok (Some u) \<Longrightarrow>
      processBlock P validate u p = (p1, Ok n) \<Longrightarrow> I (pc_lib p) (pc_db p1)"
    and number: "\<And>p k. I (pc_lib p) (pc_db p) \<Longrightarrow> I (pc_lib p) (pc_db (fst (number_blocks k p)))"
  shows "I (pc_lib p') (pc_db p')"
  using run start
proof (rule processBlocks_keeps [where I = "\<lambda>p. I (pc_lib p) (pc_db p)"])
  fix q :: processor assume "I (pc_lib q) (pc_db q)"
  from round_keeps [of I q P validate, OF this block number]
  show "I (pc_lib (fst (process_round P validate q))) (pc_db (fst (process_round P validate q)))" by auto
qed

section \<open>Forks\<close>

definition verified_row :: "proposal_row \<Rightarrow> bool" where
  "verified_row r \<longleftrightarrow> pp_verified r = Some True"

text \<open>
  The order of processing: a verified proposal has a number, and every proposal still to be processed has
  a larger one. At most one child of a block is verified.
\<close>

definition oldest_first :: "proposal_row list \<Rightarrow> bool" where
  "oldest_first rows \<longleftrightarrow> (\<forall>r\<in>set rows. \<forall>s\<in>set rows. verified_row r \<longrightarrow>
     pp_proposalNum r \<noteq> None \<and> (unprocessed_row s \<longrightarrow> pp_proposalNum r < pp_proposalNum s))"

definition one_verified_child :: "(256 word \<times> header) list \<Rightarrow> proposal_row list \<Rightarrow> bool" where
  "one_verified_child headers rows \<longleftrightarrow> (\<forall>r\<in>set rows. \<forall>s\<in>set rows. \<forall>h k. verified_row r \<and> verified_row s \<and>
     map_of headers (pp_hash r) = Some h \<and> map_of headers (pp_hash s) = Some k \<and> parentBlock h = parentBlock k \<longrightarrow>
     pp_hash r = pp_hash s)"

definition distinct_rows :: "proposal_row list \<Rightarrow> bool" where
  "distinct_rows rows \<longleftrightarrow> distinct (map pp_hash rows) \<and>
     (\<forall>r\<in>set rows. \<forall>s\<in>set rows. pp_proposalNum r \<noteq> None \<and> pp_proposalNum r = pp_proposalNum s \<longrightarrow>
       pp_hash r = pp_hash s)"

definition fork_inv :: "l2_lib \<Rightarrow> l2_db \<Rightarrow> bool" where
  "fork_inv L db \<longleftrightarrow> rows_consistent L db \<and> distinct_rows (l2_Proposal db) \<and> oldest_first (l2_Proposal db) \<and>
     one_verified_child (l2_Header db) (l2_Proposal db)"

lemma erase_kinds [simp]: "verified_row (erase_number r) = verified_row r" "unprocessed_row (erase_number r) = unprocessed_row r"
  by (simp_all add: verified_row_def unprocessed_row_def)

lemma row_properties_erase:
  "oldest_first (map erase_number rows) = oldest_first rows"
  "one_verified_child headers (map erase_number rows) = one_verified_child headers rows"
  "distinct_rows (map erase_number rows) = distinct_rows rows"
  by (simp_all add: oldest_first_def one_verified_child_def distinct_rows_def comp_def)

lemma fork_inv_numbers:
  assumes "same_but_numbers db db'"
  shows "fork_inv L db' = fork_inv L db"
proof -
  from assms have "map erase_number (l2_Proposal db') = map erase_number (l2_Proposal db)" by (auto simp: same_but_numbers_def)
  then show ?thesis
    unfolding fork_inv_def rows_consistent_numbers [OF assms]
    using same_but_numbers_header [OF assms] row_properties_erase by metis
qed

text \<open>Marking the oldest unprocessed proposal.\<close>

lemma marked_rows:
  assumes "distinct (map pp_hash rows)" and "q \<in> set rows" and "pp_hash q = h"
    and f: "f = mark_uncle \<or> f = mark_slashed \<or> f = mark_verified"
    and r: "r \<in> set (update_rows (\<lambda>r. pp_hash r = h) f rows)"
  shows "r = f q \<or> (r \<in> set rows \<and> pp_hash r \<noteq> h)"
proof -
  from r obtain r0 where "r0 \<in> set rows" "r = (if pp_hash r0 = h then f r0 else r0)" by (auto simp: update_rows_def)
  moreover have "r0 = q" if "pp_hash r0 = h"
    using assms(1-3) that \<open>r0 \<in> set rows\<close> by (metis distinct_map inj_onD)
  ultimately show ?thesis by (cases "pp_hash r0 = h") auto
qed

lemma mark_kinds [simp]:
  "pp_verified (mark_uncle r) = pp_verified r" "verified_row (mark_verified r)" "\<not> verified_row (mark_slashed r)"
  by (simp_all add: mark_uncle_def mark_verified_def mark_slashed_def verified_row_def)

lemma uncle_of_sibling:
  assumes "s \<in> set (l2_Proposal db)" and "verified_row s" and "map_of (l2_Header db) (pp_hash s) = Some k"
    and "parentBlock k = parent" and "pp_proposalNum s = Some m" and "m < n"
  shows "isUncleBlock db parent n"
proof -
  have "(pp_hash s, k) \<in> set (filter (\<lambda>(hash, h). parentBlock h = parent) (l2_Header db))"
    using map_of_SomeD [OF assms(3)] assms(4) by simp
  then have "pp_hash s \<in> set (map fst (filter (\<lambda>(hash, h). parentBlock h = parent) (l2_Header db)))"
    unfolding set_map by (metis fst_conv imageI)
  then show ?thesis
    using assms(1,2,5,6) by (auto simp: isUncleBlock_def Let_def verified_row_def filter_empty_conv intro!: bexI [of _ s])
qed

lemma processBlock_fork_inv:
  assumes inv: "fork_inv (pc_lib p) (pc_db p)"
    and u: "getOldestUnprocessedBlock (pc_lib p) (pc_db p) = Ok (Some u)"
    and step: "processBlock P validate u p = (p1, Ok n)"
  shows "fork_inv (pc_lib p) (pc_db p1)"
proof -
  from processBlock_marks [OF step] obtain f where f: "marks f (un_block u) p p1"
    "f = mark_uncle \<or> f = mark_slashed \<or> f = mark_verified"
    "f = mark_verified \<Longrightarrow> \<not> isUncleBlock (pc_db p) (parentBlock (bl_header (un_block u))) n" by metis
  let ?rows = "l2_Proposal (pc_db p)" and ?q = "un_proposal u" and ?H = "l2_Header (pc_db p)"
  note old = oldest_unprocessed [OF u]
  from inv have ok: "rows_consistent (pc_lib p) (pc_db p)" and dist: "distinct_rows ?rows"
    and first: "oldest_first ?rows" and one: "one_verified_child ?H ?rows" by (simp_all add: fork_inv_def)
  have hash: "bl_hash (un_block u) = pp_hash ?q" and head: "map_of ?H (pp_hash ?q) = Some (bl_header (un_block u))"
    using ok old(1,4) by (auto simp: rows_consistent_def)
  have rows': "l2_Proposal (pc_db p1) = update_rows (\<lambda>r. pp_hash r = pp_hash ?q) f ?rows"
    and H': "l2_Header (pc_db p1) = ?H" using f(1) by (simp_all add: marks_def hash)
  have num: "pp_proposalNum ?q = Some n" using processBlock_Ok(1) [OF step] by simp
  have fq: "pp_hash (f ?q) = pp_hash ?q" "pp_proposalNum (f ?q) = Some n" "\<not> unprocessed_row (f ?q)"
    using f(2) num by auto
  have "\<not> verified_row (mark_uncle ?q)" using old(2) by (simp add: verified_row_def unprocessed_row_def)
  with f(2) have fv: "verified_row (f ?q) \<Longrightarrow> f = mark_verified" by auto
  have dh: "distinct (map pp_hash ?rows)" using dist by (simp add: distinct_rows_def)
  have member: "r = f ?q \<or> (r \<in> set ?rows \<and> pp_hash r \<noteq> pp_hash ?q)" if "r \<in> set (l2_Proposal (pc_db p1))" for r
    using marked_rows [OF dh old(1) refl f(2)] that unfolding rows' by blast
  have "rows_consistent (pc_lib p) (pc_db p1)" using rows_consistent_marks [OF f(1,2)] ok by simp
  moreover have "distinct_rows (l2_Proposal (pc_db p1))"
  proof -
    have "map pp_hash (l2_Proposal (pc_db p1)) = map pp_hash ?rows"
      using f(2) by (auto simp: rows' update_rows_def)
    moreover have "pp_hash r = pp_hash s" if "r \<in> set (l2_Proposal (pc_db p1))" "s \<in> set (l2_Proposal (pc_db p1))"
      "pp_proposalNum r \<noteq> None" "pp_proposalNum r = pp_proposalNum s" for r s
      using member [OF that(1)] member [OF that(2)] that(3,4) dist old(1) num fq(1,2) unfolding distinct_rows_def by metis
    then have "\<forall>r\<in>set (l2_Proposal (pc_db p1)). \<forall>s\<in>set (l2_Proposal (pc_db p1)).
        pp_proposalNum r \<noteq> None \<and> pp_proposalNum r = pp_proposalNum s \<longrightarrow> pp_hash r = pp_hash s" by blast
    ultimately show ?thesis using dh unfolding distinct_rows_def by (simp only:)
  qed
  moreover have "oldest_first (l2_Proposal (pc_db p1))"
    unfolding oldest_first_def
  proof (intro ballI impI)
    fix r s assume rs: "r \<in> set (l2_Proposal (pc_db p1))" "s \<in> set (l2_Proposal (pc_db p1))" "verified_row r"
    show "pp_proposalNum r \<noteq> None \<and> (unprocessed_row s \<longrightarrow> pp_proposalNum r < pp_proposalNum s)"
    proof (cases "r = f ?q")
      case True
      have "Some n < pp_proposalNum s" if "unprocessed_row s"
      proof -
        from member [OF rs(2)] fq(3) that have s: "s \<in> set ?rows" "pp_hash s \<noteq> pp_hash ?q" by auto
        have "Some n \<le> pp_proposalNum s" using old(3) s(1) that num by metis
        moreover have "pp_proposalNum s \<noteq> Some n"
        proof
          assume "pp_proposalNum s = Some n"
          then have "pp_hash s = pp_hash ?q" using dist s(1) old(1) num unfolding distinct_rows_def by (metis option.distinct(1))
          with s(2) show False by simp
        qed
        ultimately show ?thesis by (simp add: order.strict_iff_order)
      qed
      with True fq(2) show ?thesis by simp
    next
      case False
      with member [OF rs(1)] have r: "r \<in> set ?rows" by simp
      from member [OF rs(2)] fq(3) have "unprocessed_row s \<Longrightarrow> s \<in> set ?rows" by auto
      with first r rs(3) show ?thesis unfolding oldest_first_def by blast
    qed
  qed
  moreover have "one_verified_child ?H (l2_Proposal (pc_db p1))"
  proof -
    have new: "pp_hash s = pp_hash ?q" if "verified_row (f ?q)" "s \<in> set ?rows" "verified_row s" "map_of ?H (pp_hash s) = Some k"
      "parentBlock k = parentBlock (bl_header (un_block u))" for s k
    proof -
      have "pp_proposalNum s \<noteq> None" "pp_proposalNum s < pp_proposalNum ?q"
        using first that(2,3) old(1,2) unfolding oldest_first_def by blast+
      then obtain m where m: "pp_proposalNum s = Some m" "m < n" by (auto simp: num)
      have "isUncleBlock (pc_db p) (parentBlock (bl_header (un_block u))) n"
        by (rule uncle_of_sibling [OF that(2-5) m])
      with f(3) fv that(1) show ?thesis by blast
    qed
    show ?thesis
      unfolding one_verified_child_def
    proof (intro ballI allI impI)
      fix r s h k assume r: "r \<in> set (l2_Proposal (pc_db p1))" and s: "s \<in> set (l2_Proposal (pc_db p1))"
        and hk: "verified_row r \<and> verified_row s \<and> map_of ?H (pp_hash r) = Some h \<and> map_of ?H (pp_hash s) = Some k \<and>
          parentBlock h = parentBlock k"
      from member [OF r] member [OF s] show "pp_hash r = pp_hash s"
      proof (elim disjE)
        assume "r = f ?q" "s = f ?q" then show ?thesis by simp
      next
        assume "r = f ?q" "s \<in> set ?rows \<and> pp_hash s \<noteq> pp_hash ?q"
        moreover from this(1) hk head fq(1) have "h = bl_header (un_block u)" by simp
        ultimately show ?thesis using new [of s k] hk fq(1) by simp
      next
        assume "r \<in> set ?rows \<and> pp_hash r \<noteq> pp_hash ?q" "s = f ?q"
        moreover from this(2) hk head fq(1) have "k = bl_header (un_block u)" by simp
        ultimately show ?thesis using new [of r h] hk fq(1) by simp
      next
        assume "r \<in> set ?rows \<and> pp_hash r \<noteq> pp_hash ?q" "s \<in> set ?rows \<and> pp_hash s \<noteq> pp_hash ?q"
        then show ?thesis using hk one [unfolded one_verified_child_def, rule_format, of r s h k] by simp
      qed
    qed
  qed
  ultimately show ?thesis by (simp add: fork_inv_def H')
qed

text \<open>C28: The fork choice: the processor works through the proposals in their order and never verifies a
  second child of a block, whatever the validator answers and wherever the loop stops; a block that has
  a verified sibling with a smaller number only becomes an uncle.\<close>

theorem fork_choice:
  assumes "processBlocks P validate p = Some p'" and "fork_inv (pc_lib p) (pc_db p)"
  shows "fork_inv (pc_lib p') (pc_db p')"
  using assms
  by (rule chain_invariant) (use processBlock_fork_inv fork_inv_numbers number_blocks_same(1) in blast)+

theorem fork_choice_witness:
  "\<forall>P validate. \<exists>p'. processBlocks P validate (chain_processor None []) = Some p' \<and> fork_inv (pc_lib p') (pc_db p')"
proof (intro allI)
  fix P validate
  have start: "fork_inv (pc_lib (chain_processor None [])) (pc_db (chain_processor None []))"
    by (simp add: fork_inv_def chain_processor_parts chain_consistent chain_db_parts chain_row_simps distinct_rows_def
        oldest_first_def one_verified_child_def verified_row_def unprocessed_row_def)
  obtain p' where run: "processBlocks P validate (chain_processor None []) = Some p'"
    using processBlocks_returns [of "chain_processor None []"] by (auto simp: chain_processor_parts chain_consistent)
  from fork_choice [OF run start] run show "\<exists>p'. processBlocks P validate (chain_processor None []) = Some p' \<and>
      fork_inv (pc_lib p') (pc_db p')" by blast
qed

end
