(* ===== verification/Processor_Numbers.thy ===== *)
theory Processor_Numbers
  imports Processor_Forks
begin

text \<open>
  Canonical numbers: what the processor writes is the distance of a block to the genesis block along the
  parents of the proposed headers, and once it has ended without an error no processed block lacks it
  whose number is at most the number of proposals.
\<close>

section \<open>Depth\<close>

text \<open>The specification: the length of the chain of parents from a proposal down to the genesis.\<close>

inductive chain_depth :: "l2_lib \<Rightarrow> l2_db \<Rightarrow> 256 word \<Rightarrow> nat \<Rightarrow> bool" for L db where
  genesis: "r \<in> set (l2_Proposal db) \<Longrightarrow> pp_proposalNum r = Some 0 \<Longrightarrow> chain_depth L db (pp_hash r) 0"
| child: "r \<in> set (l2_Proposal db) \<Longrightarrow> pp_proposalNum r = Some n \<Longrightarrow> n \<noteq> 0 \<Longrightarrow> pp_proposalData r = Some d \<Longrightarrow>
    stored_block L d None = Ok b \<Longrightarrow> chain_depth L db (parentBlock (bl_header b)) k \<Longrightarrow>
    chain_depth L db (pp_hash r) (Suc k)"

lemma chain_depth_unique:
  assumes "distinct (map pp_hash (l2_Proposal db))"
  shows "chain_depth L db h k \<Longrightarrow> chain_depth L db h k' \<Longrightarrow> k' = k"
proof (induction arbitrary: k' rule: chain_depth.induct)
  case (genesis r)
  note outer = genesis
  from genesis(3) show ?case
  proof (cases rule: chain_depth.cases)
    case (child s n)
    then have "s = r" using assms outer(1) by (metis distinct_map inj_onD)
    with child outer(2) show ?thesis by simp
  qed
next
  case (child r n d b k)
  from child.prems show ?case
  proof (cases rule: chain_depth.cases)
    case (genesis s)
    then have "s = r" using assms child(1) by (metis distinct_map inj_onD)
    with genesis child(2,3) show ?thesis by simp
  next
    case inner: (child s n' d' b' j)
    then have "s = r" using assms child(1) by (metis distinct_map inj_onD)
    with inner child(4,5) have "chain_depth L db (parentBlock (bl_header b)) j" by simp
    from child.IH [OF this] inner show ?thesis by simp
  qed
qed

text \<open>It only depends on the columns that neither the outcome of a block nor the numbering changes.\<close>

definition chain_columns :: "proposal_row \<Rightarrow> 256 word \<times> nat option \<times> string option" where
  "chain_columns r = (pp_hash r, pp_proposalNum r, pp_proposalData r)"

lemma chain_depth_columns:
  assumes "chain_depth L db h k" and same: "chain_columns ` set (l2_Proposal db) = chain_columns ` set (l2_Proposal db')"
  shows "chain_depth L db' h k"
  using assms(1)
proof (induction rule: chain_depth.induct)
  case (genesis r)
  then have "chain_columns r \<in> chain_columns ` set (l2_Proposal db')" using same by (metis imageI)
  then obtain s where "s \<in> set (l2_Proposal db')" "chain_columns s = chain_columns r" by (metis imageE)
  with genesis chain_depth.genesis [of s db' L] show ?case by (simp add: chain_columns_def)
next
  case (child r n d b k)
  then have "chain_columns r \<in> chain_columns ` set (l2_Proposal db')" using same by (metis imageI)
  then obtain s where "s \<in> set (l2_Proposal db')" "chain_columns s = chain_columns r" by (metis imageE)
  with child chain_depth.child [of s db' n d L b k] show ?case by (simp add: chain_columns_def)
qed

lemma columns_erase [simp]: "chain_columns (erase_number r) = chain_columns r"
  by (simp add: chain_columns_def)

lemma same_but_numbers_columns:
  assumes "same_but_numbers db db'"
  shows "chain_columns ` set (l2_Proposal db') = chain_columns ` set (l2_Proposal db)"
proof -
  have "chain_columns ` set rows = chain_columns ` set (map erase_number rows)" for rows by (auto simp: image_image)
  moreover have "map erase_number (l2_Proposal db') = map erase_number (l2_Proposal db)"
    using assms by (auto simp: same_but_numbers_def)
  ultimately show ?thesis by metis
qed

lemma same_but_numbers_hashes:
  assumes "same_but_numbers db db'"
  shows "map pp_hash (l2_Proposal db') = map pp_hash (l2_Proposal db)"
proof -
  have "map pp_hash rows = map pp_hash (map erase_number rows)" for rows by simp
  moreover have "map erase_number (l2_Proposal db') = map erase_number (l2_Proposal db)"
    using assms by (auto simp: same_but_numbers_def)
  ultimately show ?thesis by metis
qed

section \<open>The numbers are depths\<close>

definition numbers_ok :: "l2_lib \<Rightarrow> l2_db \<Rightarrow> bool" where
  "numbers_ok L db \<longleftrightarrow>
     (\<forall>r\<in>set (l2_Proposal db). \<forall>k. pp_canonicalNum r = Some k \<longrightarrow> chain_depth L db (pp_hash r) k)"

lemma set_canonical_ok:
  assumes "numbers_ok L db" and depth: "chain_depth L db h n"
  shows "numbers_ok L (set_canonical h n db)"
proof -
  note same = same_but_numbers_columns [OF set_canonical_same [of db h n], symmetric]
  have rows: "r = s\<lparr>pp_canonicalNum := Some n\<rparr> \<and> pp_hash s = h \<or> r = s" if "r \<in> set (l2_Proposal (set_canonical h n db))"
    "s \<in> set (l2_Proposal db)" "r = (if pp_hash s = h then s\<lparr>pp_canonicalNum := Some n\<rparr> else s)" for r s
    using that(3) by (auto split: if_splits)
  show ?thesis
    unfolding numbers_ok_def
  proof (intro ballI allI impI)
    fix r k assume r: "r \<in> set (l2_Proposal (set_canonical h n db))" "pp_canonicalNum r = Some k"
    then obtain s where s: "s \<in> set (l2_Proposal db)" "r = (if pp_hash s = h then s\<lparr>pp_canonicalNum := Some n\<rparr> else s)"
      by (auto simp: set_canonical_def update_rows_def)
    then have "chain_depth L db (pp_hash r) k"
      using assms r(2) by (cases "pp_hash s = h") (auto simp: numbers_ok_def)
    then show "chain_depth L (set_canonical h n db) (pp_hash r) k" by (rule chain_depth_columns) (rule same)
  qed
qed

lemma only_row: "filter c rows = [r] \<Longrightarrow> r \<in> set rows \<and> c r"
  by (metis filter_eq_Cons_iff in_set_conv_decomp)

lemma calc_height_numbers:
  assumes run: "calcCanonicalBlockHeight L n db = Ok db'" and ok: "numbers_ok L db"
  shows "numbers_ok L db'"
  using calc_height_Ok [OF run]
proof (elim disjE exE conjE)
  fix r assume row: "filter (\<lambda>r. pp_proposalNum r = Some n) (l2_Proposal db) = [r]" and db': "n = 0" "db' = set_canonical (pp_hash r) 0 db"
  from row have "r \<in> set (l2_Proposal db) \<and> pp_proposalNum r = Some n" by (rule only_row)
  with db' chain_depth.genesis [of r db L] show ?thesis using set_canonical_ok [OF ok] by simp
next
  fix r d b parent k
  assume row: "filter (\<lambda>r. pp_proposalNum r = Some n) (l2_Proposal db) = [r]" and n: "n \<noteq> 0"
    and b: "pp_proposalData r = Some d" "stored_block L d None = Ok b"
    and parent: "getProposal db (parentBlock (bl_header b)) = Some parent" "pp_canonicalNum parent = Some k"
    and db': "db' = set_canonical (pp_hash r) (k + 1) db"
  from row have r: "r \<in> set (l2_Proposal db) \<and> pp_proposalNum r = Some n" by (rule only_row)
  from parent(1) have "parent \<in> set (l2_Proposal db)" "pp_hash parent = parentBlock (bl_header b)"
    by (auto simp: getProposal_def find_Some_iff)
  with parent(2) ok have "chain_depth L db (parentBlock (bl_header b)) k" unfolding numbers_ok_def by metis
  with r n b have "chain_depth L db (pp_hash r) (Suc k)" by (blast intro: chain_depth.child)
  with db' show ?thesis using set_canonical_ok [OF ok] by simp
qed (use ok in simp)

lemma canonical_loop_numbers: "numbers_ok L db \<Longrightarrow> numbers_ok L (fst (canonical_loop L xs db))"
  by (induction xs arbitrary: db) (auto intro: calc_height_numbers split: sum.split)

lemma number_blocks_numbers:
  "numbers_ok (pc_lib p) (pc_db p) \<Longrightarrow> numbers_ok (pc_lib p) (pc_db (fst (number_blocks n p)))"
  using canonical_loop_numbers [of "pc_lib p" "pc_db p"]
  by (auto simp: number_blocks_def calcCanonicalBlockHeights_def case_prod_beta split: option.splits)

lemma processBlock_numbers:
  assumes ok: "numbers_ok (pc_lib p) (pc_db p)" and step: "processBlock P validate u p = (p1, Ok n)"
  shows "numbers_ok (pc_lib p) (pc_db p1)"
proof -
  from processBlock_marks [OF step] obtain f where f: "marks f (un_block u) p p1"
    "f = mark_uncle \<or> f = mark_slashed \<or> f = mark_verified" by metis
  have rows: "l2_Proposal (pc_db p1) = map (\<lambda>r. if pp_hash r = bl_hash (un_block u) then f r else r) (l2_Proposal (pc_db p))"
    using f(1) by (simp add: marks_def update_rows_def)
  have kept: "chain_columns (f r) = chain_columns r \<and> pp_canonicalNum (f r) = pp_canonicalNum r \<and> pp_hash (f r) = pp_hash r" for r
    using f(2) by (auto simp: chain_columns_def)
  then have cols: "chain_columns ` set (l2_Proposal (pc_db p)) = chain_columns ` set (l2_Proposal (pc_db p1))"
    unfolding rows set_map image_image by (intro image_cong) auto
  show ?thesis
    unfolding numbers_ok_def
  proof (intro ballI allI impI)
    fix r k assume r: "r \<in> set (l2_Proposal (pc_db p1))" "pp_canonicalNum r = Some k"
    then obtain s where s: "s \<in> set (l2_Proposal (pc_db p))" "r = (if pp_hash s = bl_hash (un_block u) then f s else s)"
      by (auto simp: rows)
    then have "pp_canonicalNum s = Some k" "pp_hash r = pp_hash s" using r(2) kept by (auto split: if_splits)
    with ok s(1) have "chain_depth (pc_lib p) (pc_db p) (pp_hash r) k" by (simp add: numbers_ok_def)
    then show "chain_depth (pc_lib p) (pc_db p1) (pp_hash r) k" by (rule chain_depth_columns) (rule cols)
  qed
qed

lemma processBlocks_numbers:
  assumes "processBlocks P validate p = Some p'" and "numbers_ok (pc_lib p) (pc_db p)"
  shows "numbers_ok (pc_lib p') (pc_db p')"
  using assms by (rule chain_invariant) (use processBlock_numbers number_blocks_numbers in blast)+

section \<open>No block is left out\<close>

definition has_block :: "proposal_row \<Rightarrow> bool" where
  "has_block r \<longleftrightarrow> pp_proposalNum r = Some 0 \<or> (\<exists>d. pp_proposalData r = Some d \<and> d \<noteq> [])"

lemma has_block_erase [simp]: "has_block (erase_number r) = has_block r"
  by (simp add: has_block_def)

definition all_numbered :: "(nat \<Rightarrow> bool) \<Rightarrow> l2_db \<Rightarrow> bool" where
  "all_numbered c db \<longleftrightarrow> (\<forall>r\<in>set (l2_Proposal db). \<forall>m. pp_proposalNum r = Some m \<and> c m \<and> has_block r \<longrightarrow>
     pp_canonicalNum r \<noteq> None)"

lemma all_numbered_mono: "all_numbered c db \<Longrightarrow> (\<And>m. c' m \<Longrightarrow> c m) \<Longrightarrow> all_numbered c' db"
  by (auto simp: all_numbered_def)

lemma set_canonical_numbered: "all_numbered c db \<Longrightarrow> all_numbered c (set_canonical h n db)"
  by (auto simp: all_numbered_def set_canonical_def update_rows_def has_block_def)

lemma calc_height_numbered:
  assumes run: "calcCanonicalBlockHeight L n db = Ok db'" and ok: "all_numbered c db"
  shows "all_numbered (\<lambda>m. c m \<or> m = n) db'"
proof -
  obtain r where row: "filter (\<lambda>r. pp_proposalNum r = Some n) (l2_Proposal db) = [r]"
    using run by (auto simp: calcCanonicalBlockHeight_def split: list.split_asm)
  have only: "s = r" if "s \<in> set (l2_Proposal db)" "pp_proposalNum s = Some n" for s
  proof -
    have "s \<in> set (filter (\<lambda>r. pp_proposalNum r = Some n) (l2_Proposal db))" using that by simp
    then show ?thesis unfolding row by simp
  qed
  note def = run [unfolded calcCanonicalBlockHeight_def row list.case]
  show ?thesis
  proof (cases "has_block r")
    case True
    have "\<exists>k. db' = set_canonical (pp_hash r) k db"
    proof (cases "n = 0")
      case False
      moreover have "pp_proposalNum r = Some n" using only_row [OF row] by simp
      ultimately obtain d where d: "pp_proposalData r = Some d" "d \<noteq> []" using True by (auto simp: has_block_def)
      with def False show ?thesis by (auto split: option.splits)
    qed (use def in auto)
    then obtain k where db': "db' = set_canonical (pp_hash r) k db" by blast
    show ?thesis
      unfolding all_numbered_def
    proof (intro ballI allI impI)
      fix s m assume s: "s \<in> set (l2_Proposal db')" "pp_proposalNum s = Some m \<and> (c m \<or> m = n) \<and> has_block s"
      then obtain s0 where s0: "s0 \<in> set (l2_Proposal db)" "s = (if pp_hash s0 = pp_hash r then s0\<lparr>pp_canonicalNum := Some k\<rparr> else s0)"
        by (auto simp: db' set_canonical_def update_rows_def)
      show "pp_canonicalNum s \<noteq> None"
      proof (cases "pp_hash s0 = pp_hash r")
        case no: False
        then have same: "s = s0" by (simp add: s0(2))
        have "m \<noteq> n" using only [OF s0(1)] no s(2) same by auto
        with s(2) same have "pp_proposalNum s0 = Some m \<and> c m \<and> has_block s0" by simp
        with ok s0(1) show ?thesis unfolding same all_numbered_def by blast
      qed (simp add: s0(2))
    qed
  next
    case False
    have out: "db' = db \<or> (\<exists>k. db' = set_canonical (pp_hash r) k db)" using calc_height_Ok [OF run] row by auto
    then have "all_numbered c db'" using ok set_canonical_numbered by auto
    moreover have "\<not> has_block s" if "s \<in> set (l2_Proposal db')" "pp_proposalNum s = Some n" for s
    proof -
      from out that(1) obtain s0 where "s0 \<in> set (l2_Proposal db)" "pp_proposalNum s0 = pp_proposalNum s" "has_block s0 = has_block s"
        by (auto simp: set_canonical_def update_rows_def has_block_def)
      with only [of s0] that(2) False show ?thesis by simp
    qed
    ultimately show ?thesis unfolding all_numbered_def by blast
  qed
qed

lemma canonical_loop_numbered:
  assumes "canonical_loop L xs db = (db', Ok ())" and "all_numbered c db"
  shows "all_numbered (\<lambda>m. c m \<or> m \<in> set xs) db'"
  using assms
proof (induction xs arbitrary: db c)
  case (Cons x xs)
  then obtain db1 where step: "calcCanonicalBlockHeight L x db = Ok db1" "canonical_loop L xs db1 = (db', Ok ())"
    by (auto split: sum.splits)
  from Cons.IH [OF step(2) calc_height_numbered [OF step(1) Cons.prems(2)]] show ?case by (simp add: disj_assoc)
qed auto

definition to_number :: "proposal_row \<Rightarrow> bool" where
  "to_number r \<longleftrightarrow> pp_canonicalNum r = None \<and> (pp_proposalData r \<noteq> None \<or> pp_proposalNum r = Some 0)"

lemma heights_cases:
  assumes "calcCanonicalBlockHeights L latest db = (db', Ok ())"
  obtains (finished) "filter to_number (l2_Proposal db) = []" "db' = db"
  | (loop) start where "\<forall>r\<in>set (filter to_number (l2_Proposal db)). Some start \<le> pp_proposalNum r"
    "canonical_loop L [start..<Suc (min (length (l2_Proposal db)) latest)] db = (db', Ok ())"
proof -
  let ?rows = "sort_key pp_proposalNum (filter to_number (l2_Proposal db))"
  have run: "(case first_row ?rows of None \<Rightarrow> (db, Ok ()) | Some r \<Rightarrow>
      (case pp_proposalNum r of None \<Rightarrow> (db, Throw ''Proposal number is null'')
       | Some start \<Rightarrow> canonical_loop L [start..<Suc (min (length (l2_Proposal db)) latest)] db)) = (db', Ok ())"
    using assms unfolding calcCanonicalBlockHeights_def order_asc_def to_number_def [abs_def] .
  show thesis
  proof (cases ?rows)
    case Nil
    then have "filter to_number (l2_Proposal db) = []" by (metis length_0_conv length_sort)
    moreover from run Nil have "db' = db" by (simp add: first_row_def)
    ultimately show thesis by (rule finished)
  next
    case (Cons q rest)
    obtain start where num: "pp_proposalNum q = Some start"
      using run Cons by (cases "pp_proposalNum q") (simp_all add: first_row_def)
    have start: "canonical_loop L [start..<Suc (min (length (l2_Proposal db)) latest)] db = (db', Ok ())"
      using run unfolding Cons first_row_def list.case option.case num .
    have "set (filter to_number (l2_Proposal db)) = set (q # rest)" unfolding Cons [symmetric] by (rule set_sort [symmetric])
    moreover have "sorted (map pp_proposalNum (q # rest))" unfolding Cons [symmetric] by (rule sorted_sort_key)
    ultimately have "\<forall>r\<in>set (filter to_number (l2_Proposal db)). Some start \<le> pp_proposalNum r"
      using num by (simp del: set_filter)
    from loop [OF this start] show thesis .
  qed
qed

lemma number_blocks_complete:
  assumes "number_blocks latest p = (p', Ok ())"
  shows "all_numbered (\<lambda>m. m \<le> latest \<and> m \<le> length (l2_Proposal (pc_db p))) (pc_db p')"
proof -
  from assms obtain db' where run: "calcCanonicalBlockHeights (pc_lib p) latest (pc_db p) = (db', Ok ())" and db': "pc_db p' = db'"
    by (auto simp: number_blocks_def split: prod.splits)
  from run show ?thesis
  proof (cases rule: heights_cases)
    case finished
    then have "\<forall>r\<in>set (l2_Proposal db'). has_block r \<longrightarrow> pp_canonicalNum r \<noteq> None"
      by (auto simp: filter_empty_conv has_block_def to_number_def)
    then show ?thesis by (simp add: all_numbered_def db')
  next
    case (loop start)
    have "all_numbered (\<lambda>m. m < start) (pc_db p)"
      unfolding all_numbered_def
    proof (intro ballI allI impI notI)
      fix r m assume r: "r \<in> set (l2_Proposal (pc_db p))" "pp_proposalNum r = Some m \<and> m < start \<and> has_block r" "pp_canonicalNum r = None"
      then have "r \<in> set (filter to_number (l2_Proposal (pc_db p)))" by (auto simp: has_block_def to_number_def)
      with loop(1) have "Some start \<le> pp_proposalNum r" by blast
      with r(2) show False by simp
    qed
    from canonical_loop_numbered [OF loop(2) this] show ?thesis
      unfolding db' by (rule all_numbered_mono) auto
  qed
qed

text \<open>C29: When the numbers set so far are depths, proposals have distinct hashes and the numbering of the
  canonical blocks ends without an error, every proposal whose block is stored and whose proposal number
  is bounded by the processed one and by the number of rows of the table, which is where the loop ends, has a
  canonical number, and it is the length of its chain of parents down to the genesis block, which is the
  only depth it has.\<close>

theorem canonical_numbers:
  assumes "number_blocks latest p = (p', Ok ())" and "numbers_ok (pc_lib p) (pc_db p)"
    and "distinct (map pp_hash (l2_Proposal (pc_db p)))"
    and "r \<in> set (l2_Proposal (pc_db p'))" and "pp_proposalNum r = Some m"
    and "m \<le> latest" and "m \<le> length (l2_Proposal (pc_db p))" and "has_block r"
  shows "\<exists>k. pp_canonicalNum r = Some k \<and> (\<forall>j. chain_depth (pc_lib p) (pc_db p') (pp_hash r) j \<longleftrightarrow> j = k)"
proof -
  from number_blocks_complete [OF assms(1)] assms(4-8) obtain k where k: "pp_canonicalNum r = Some k"
    unfolding all_numbered_def by blast
  have p': "p' = fst (number_blocks latest p)" using assms(1) by simp
  have depth: "chain_depth (pc_lib p) (pc_db p') (pp_hash r) k"
    using number_blocks_numbers [OF assms(2), of latest] assms(4) k unfolding p' numbers_ok_def by blast
  have "map pp_hash (l2_Proposal (pc_db p')) = map pp_hash (l2_Proposal (pc_db p))"
    using number_blocks_same(1) [of p latest] unfolding p' by (rule same_but_numbers_hashes)
  with assms(3) chain_depth_unique [of "pc_db p'"] depth k show ?thesis by metis
qed

theorem canonical_numbers_witness:
  "\<exists>p'. number_blocks 2 (chain_processor None []) = (p', Ok ()) \<and>
    map pp_canonicalNum (l2_Proposal (pc_db p')) = [Some 0, Some 1, Some 1] \<and>
    (\<forall>r\<in>set (l2_Proposal (pc_db p')). \<exists>k. pp_canonicalNum r = Some k \<and>
      (\<forall>j. chain_depth chain_lib (pc_db p') (pp_hash r) j \<longleftrightarrow> j = k))"
proof -
  let ?p = "chain_processor None []"
  have stored: "stored_block chain_lib ''1'' None = Ok (chain_block 1)" "stored_block chain_lib ''2'' None = Ok (chain_block 2)"
    using chain_stored [of 1 "''1''" None] chain_stored [of 2 "''2''" None] by (simp_all add: chain_block_def)
  let ?db = "set_canonical 2 1 (set_canonical 1 1 (set_canonical 0 0 (chain_db None [])))"
  have "calcCanonicalBlockHeights chain_lib 2 (chain_db None []) = (?db, Ok ())"
    by (simp add: calcCanonicalBlockHeights_def order_asc_def first_row_def chain_db_parts chain_row_simps
        calcCanonicalBlockHeight_def stored chain_block_parts set_canonical_def update_rows_def getProposal_def upt_rec numeral_2_eq_2)
  then obtain p' where p': "number_blocks 2 ?p = (p', Ok ())" "pc_db p' = ?db"
    by (simp add: number_blocks_def chain_processor_parts)
  have rows: "l2_Proposal ?db = [(chain_row 0 0 None (Some True))\<lparr>pp_canonicalNum := Some 0\<rparr>,
      (chain_row 1 1 (Some ''1'') None)\<lparr>pp_canonicalNum := Some 1\<rparr>, (chain_row 2 2 (Some ''2'') None)\<lparr>pp_canonicalNum := Some 1\<rparr>]"
    by (simp add: set_canonical_def update_rows_def chain_db_parts chain_row_simps)
  have "\<exists>k. pp_canonicalNum r = Some k \<and> (\<forall>j. chain_depth (pc_lib ?p) (pc_db p') (pp_hash r) j \<longleftrightarrow> j = k)"
    if r: "r \<in> set (l2_Proposal (pc_db p'))" for r
  proof -
    from r obtain m where m: "pp_proposalNum r = Some m" "m \<le> 2" "has_block r"
      unfolding p'(2) rows by (auto simp: has_block_def chain_row_def)
    have "numbers_ok (pc_lib ?p) (pc_db ?p)" "distinct (map pp_hash (l2_Proposal (pc_db ?p)))"
      by (simp_all add: numbers_ok_def chain_processor_parts chain_db_parts chain_row_simps)
    from canonical_numbers [OF p'(1) this r m(1,2) _ m(3)] m(2) show ?thesis
      by (simp add: chain_processor_parts chain_db_parts chain_rows_def)
  qed
  with p' rows show ?thesis by (simp add: chain_processor_parts)
qed

text \<open>
  The loop ends at the number of rows, not at the highest proposal number. A node that started from a
  bootstrap block whose number exceeds the number of its rows ends the numbering at once, without an
  error and without a number.
\<close>

theorem late_start_not_numbered:
  assumes "\<forall>r\<in>set (l2_Proposal (pc_db p)). to_number r \<longrightarrow> (\<exists>m. pp_proposalNum r = Some m \<and> length (l2_Proposal (pc_db p)) < m)"
  shows "snd (number_blocks latest p) = Ok () \<and> pc_db (fst (number_blocks latest p)) = pc_db p"
proof -
  have "calcCanonicalBlockHeights (pc_lib p) latest (pc_db p) = (pc_db p, Ok ())"
  proof (cases "order_asc pp_proposalNum (filter to_number (l2_Proposal (pc_db p)))")
    case Nil
    then show ?thesis by (simp add: calcCanonicalBlockHeights_def first_row_def to_number_def [abs_def])
  next
    case (Cons q rest)
    have "set (q # rest) = set (filter to_number (l2_Proposal (pc_db p)))"
      unfolding Cons [symmetric] order_asc_def by (rule set_sort)
    then have "q \<in> set (filter to_number (l2_Proposal (pc_db p)))" by (metis list.set_intros(1))
    then obtain m where "pp_proposalNum q = Some m" "length (l2_Proposal (pc_db p)) < m"
      using assms by auto
    with Cons show ?thesis by (simp add: calcCanonicalBlockHeights_def first_row_def to_number_def [abs_def])
  qed
  then show ?thesis by (simp add: number_blocks_def)
qed

end
