(* ===== verification/Processor_Trees.thy ===== *)
theory Processor_Trees
  imports Processor_Numbers Generator_Proofs
begin

text \<open>
  The trees of a node that processes blocks: while it validates in full, every block it accepts leaves
  its three trees with the roots and indices of the header of that block, up to the nullifier root of a
  block that spends nothing, which the validators do not compare.
\<close>

section \<open>The writes of a block, table by table\<close>

lemma fold_tree_effect_none:
  "\<forall>w\<in>set ws. \<forall>q. w \<noteq> Tree_Write q \<Longrightarrow> fold tree_effect ws t = t"
proof (induction ws arbitrary: t)
  case (Cons w ws)
  then show ?case by (cases w) simp_all
qed simp

lemma fold_tree_writes: "fold tree_effect (map Tree_Write ops) t = commit ops t"
  by (induction ops arbitrary: t) (simp_all add: commit_def)

definition untracked_rows :: "l2_db \<Rightarrow> bool" where
  "untracked_rows db \<longleftrightarrow> (\<forall>r\<in>set (l2_Utxo db). ur_treeId r = None) \<and> (\<forall>r\<in>set (l2_Withdrawal db). wr_treeId r = None)"

definition notes_positive :: "deposit_row list \<Rightarrow> bool" where
  "notes_positive rows \<longleftrightarrow> (\<forall>d\<in>set rows. 0 \<le> dp_note d)"

abbreviation block_kind :: "l2_write \<Rightarrow> bool" where
  "block_kind w \<equiv> tx_kind w \<or> note_kind w \<or> withdrawal_kind w \<or> patch_kind w"

lemma update_rows_ball: "(\<And>r. k r \<Longrightarrow> k (f r)) \<Longrightarrow> \<forall>r\<in>set rows. k r \<Longrightarrow> \<forall>r\<in>set (update_rows c f rows). k r"
  by (auto simp: update_rows_def)

lemma utxo_effect_untracked:
  assumes "block_kind w" and "\<forall>r\<in>set rows. ur_treeId r = None"
  shows "\<forall>r\<in>set (utxo_effect w rows). ur_treeId r = None"
proof (cases w)
  case (Update_Utxo c f)
  with assms(1) have "ur_treeId (f r) = ur_treeId r" for r
    by (auto simp: tx_kind_def note_kind_def withdrawal_kind_def patch_kind_def)
  with Update_Utxo assms(2) show ?thesis by (auto simp: update_rows_def)
next
  case (Upsert_Utxo r)
  with assms(1) have "ur_treeId r = None" by (auto simp: tx_kind_def note_kind_def withdrawal_kind_def patch_kind_def)
  with Upsert_Utxo assms(2) show ?thesis by (auto simp: upsert_row_def update_rows_def set_utxo_def)
qed (use assms(2) in simp_all)

lemma withdrawal_effect_untracked:
  assumes "block_kind w" and "\<forall>r\<in>set rows. wr_treeId r = None"
  shows "\<forall>r\<in>set (withdrawal_effect w rows). wr_treeId r = None"
proof (cases w)
  case (Update_Withdrawal c f)
  with assms(1) have "wr_treeId (f r) = wr_treeId r" for r
    by (auto simp: tx_kind_def note_kind_def withdrawal_kind_def patch_kind_def)
  with Update_Withdrawal assms(2) show ?thesis by (auto simp: update_rows_def)
next
  case (Upsert_Withdrawal r)
  with assms(1) have "wr_treeId r = None" by (auto simp: tx_kind_def note_kind_def withdrawal_kind_def patch_kind_def)
  with Upsert_Withdrawal assms(2) show ?thesis by (auto simp: upsert_row_def update_rows_def set_withdrawal_def)
qed (use assms(2) in simp_all)

lemma deposit_effect_positive:
  assumes "block_kind w" and "notes_positive rows"
  shows "notes_positive (deposit_effect w rows)"
proof (cases w)
  case (Update_Deposit c f)
  with assms(1) have "dp_note (f r) = dp_note r" for r
    by (auto simp: tx_kind_def note_kind_def withdrawal_kind_def patch_kind_def)
  with Update_Deposit assms(2) show ?thesis by (auto simp: notes_positive_def update_rows_def)
qed (use assms(2) in simp_all)

lemma fold_keeps:
  assumes "\<forall>w\<in>set ws. K w" and "\<And>w rows. K w \<Longrightarrow> I rows \<Longrightarrow> I (e w rows)" and "I rows"
  shows "I (fold e ws rows)"
  using assms by (induction ws arbitrary: rows) auto

text \<open>What an accepted block does to the trees and to the rows they track.\<close>

lemma accept_block_trees:
  assumes "accept_block P parent b p = (p', Ok ())"
  obtains patch ur wr g ops where
    "getGrovePatch (pc_lib p) (pc_db p) b = Ok patch"
    and "applyGrovePatch (nd_trees (pc_node p)) (trees_utxos (pc_db p)) (trees_withdrawals (pc_db p))
      (start_cache (nd_grove (pc_node p))) patch = Ok (g, ops)"
    and "nd_grove (pc_node p') = stop_cache g" and "nd_trees (pc_node p') = commit ops (nd_trees (pc_node p))"
    and "untracked_rows (pc_db p) \<Longrightarrow> untracked_rows (pc_db p')"
    and "notes_positive (l2_Deposit (pc_db p)) \<Longrightarrow> notes_positive (l2_Deposit (pc_db p'))"
    and "nd_layer2 (pc_node p') = (nd_layer2 (pc_node p))\<lparr>la_db := pc_db p'\<rparr>"
proof -
  let ?reg = "getTokenRegistry (pc_lib p) (pc_db p) (pc_registry p)" let ?p = "p\<lparr>pc_registry := ?reg\<rparr>"
  from accept_block_Ok [OF assms] obtain bpatch ws g db' t' where
    patch: "makePatch (pc_lib p) (pc_db p) parent b = Ok bpatch"
    and ws: "block_writes P ?reg bpatch b ?p = Ok (ws, g)"
    and run: "exec_writes ws (pc_db p, nd_trees (pc_node p)) = Ok (db', t')"
    and p': "p' = set_grove (stop_cache g) (p\<lparr>pc_registry := ?reg, pc_node := set_dbs (db', t') (pc_node p)\<rparr>)" by metis
  from patch have tp: "getGrovePatch (pc_lib p) (pc_db p) b = Ok (bp_treePatch bpatch)"
    by (auto simp: makePatch_def)
  from block_writes_parts [OF ws] obtain tw uw ww pw where parts: "saveTransactions (pc_lib ?p) b False = Ok tw"
    "decryptMyUtxos P (pc_lib ?p) (pc_db ?p) ?reg (transferTrackers (pc_tracker ?p)) (bp_prevHeader bpatch)
      (gp_utxos (bp_treePatch bpatch)) (body_txs (bl_body b)) = Ok uw"
    "saveWithdrawals P (pc_lib ?p) b (withdrawalTrackers (pc_tracker ?p)) = Ok ww"
    "applyPatch P ((pc_node ?p)\<lparr>nd_grove := start_cache (nd_grove (pc_node ?p))\<rparr>) (pc_tracker ?p) bpatch = Ok (pw, g)"
    "ws = tw @ uw @ ww @ pw @ [Update_Proposal (\<lambda>r. pp_hash r = bl_hash b) (\<lambda>r. r\<lparr>pp_verified := Some True, pp_isUncle := None\<rparr>)]"
    by metis
  obtain included ops myu myw where ap:
    "markMassDepositsAsIncludedIn (pc_lib p) (pc_db p) (bp_massDeposits bpatch) (bp_block bpatch) = Ok included"
    "applyGrovePatch (nd_trees (pc_node p)) (trees_utxos (pc_db p)) (trees_withdrawals (pc_db p))
      (start_cache (nd_grove (pc_node p))) (bp_treePatch bpatch) = Ok (g, ops)"
    "updateMyUtxos P (pc_db p) (transferTrackers (pc_tracker p)) bpatch = Ok myu"
    "updateMyWithdrawals (pc_lib p) (pc_db p) (nd_trees (pc_node p)) g (withdrawalTrackers (pc_tracker p)) bpatch = Ok myw"
    "pw = markUsedUtxosAsNullified (gp_nullifiers (bp_treePatch bpatch)) (bp_block bpatch) # included @
      [markNewUtxosAsUnspent (map lf_hash (gp_utxos (bp_treePatch bpatch))),
       markNewWithdrawalsAsUnfinalized (bp_noteHashes bpatch)] @ map Tree_Write ops @ myu @ myw"
    by (rule applyPatch_parts [OF parts(4)], rule that) simp_all
  have none: "\<forall>w\<in>set tw. \<forall>q. w \<noteq> Tree_Write q" "\<forall>w\<in>set uw. \<forall>q. w \<noteq> Tree_Write q" "\<forall>w\<in>set ww. \<forall>q. w \<noteq> Tree_Write q"
    "\<forall>w\<in>set included. \<forall>q. w \<noteq> Tree_Write q" "\<forall>w\<in>set myu. \<forall>q. w \<noteq> Tree_Write q" "\<forall>w\<in>set myw. \<forall>q. w \<noteq> Tree_Write q"
  proof -
    show "\<forall>w\<in>set tw. \<forall>q. w \<noteq> Tree_Write q" using saveTransactions_writes [OF parts(1)] by blast
    show "\<forall>w\<in>set uw. \<forall>q. w \<noteq> Tree_Write q" using decryptMyUtxos_kind [OF parts(2)] by (fastforce simp: note_kind_def)
    show "\<forall>w\<in>set ww. \<forall>q. w \<noteq> Tree_Write q" using saveWithdrawals_kind [OF parts(3)] by (fastforce simp: withdrawal_kind_def)
    show "\<forall>w\<in>set included. \<forall>q. w \<noteq> Tree_Write q"
      using ap(1) by (auto simp: markMassDepositsAsIncludedIn_def Let_def split: if_splits)
    show "\<forall>w\<in>set myu. \<forall>q. w \<noteq> Tree_Write q"
      using map_result_back [OF ap(3) [unfolded updateMyUtxos_def Let_def]] by (fastforce split: option.splits)
    show "\<forall>w\<in>set myw. \<forall>q. w \<noteq> Tree_Write q"
      using map_result_back [OF ap(4) [unfolded updateMyWithdrawals_def Let_def]] by fastforce
  qed
  have trees: "t' = commit ops (nd_trees (pc_node p))"
    unfolding exec_writes_effects(5) [OF run] parts(5) ap(5)
    by (simp add: fold_tree_effect_none none fold_tree_writes markUsedUtxosAsNullified_def markNewUtxosAsUnspent_def
        markNewWithdrawalsAsUnfinalized_def)
  from block_writes_kinds [OF ws] obtain ws0 where ws0: "ws = ws0 @
      [Update_Proposal (\<lambda>r. pp_hash r = bl_hash b) (\<lambda>r. r\<lparr>pp_verified := Some True, pp_isUncle := None\<rparr>)]"
    and kinds: "\<forall>w\<in>set ws0. block_kind w" by metis
  have rows: "l2_Utxo db' = fold utxo_effect ws0 (l2_Utxo (pc_db p))"
    "l2_Withdrawal db' = fold withdrawal_effect ws0 (l2_Withdrawal (pc_db p))"
    "l2_Deposit db' = fold deposit_effect ws0 (l2_Deposit (pc_db p))"
    using exec_writes_effects(2-4) [OF run] by (simp_all add: ws0)
  show thesis
  proof (rule that [OF tp ap(2)])
    show "nd_grove (pc_node p') = stop_cache g" "nd_trees (pc_node p') = commit ops (nd_trees (pc_node p))"
      by (simp_all add: p' set_grove_def trees)
    show "nd_layer2 (pc_node p') = (nd_layer2 (pc_node p))\<lparr>la_db := pc_db p'\<rparr>"
      by (simp add: p' set_grove_def set_dbs_def)
    have db': "pc_db p' = db'" by (simp add: p' set_grove_def)
    show "untracked_rows (pc_db p')" if "untracked_rows (pc_db p)"
    proof -
      have "\<forall>r\<in>set (fold utxo_effect ws0 (l2_Utxo (pc_db p))). ur_treeId r = None"
        by (rule fold_keeps [where I = "\<lambda>rows. \<forall>r\<in>set rows. ur_treeId r = None", OF kinds utxo_effect_untracked])
          (use that in \<open>simp_all add: untracked_rows_def\<close>)
      moreover have "\<forall>r\<in>set (fold withdrawal_effect ws0 (l2_Withdrawal (pc_db p))). wr_treeId r = None"
        by (rule fold_keeps [where I = "\<lambda>rows. \<forall>r\<in>set rows. wr_treeId r = None", OF kinds withdrawal_effect_untracked])
          (use that in \<open>simp_all add: untracked_rows_def\<close>)
      ultimately show ?thesis by (simp add: untracked_rows_def db' rows)
    qed
    show "notes_positive (l2_Deposit (pc_db p'))" if "notes_positive (l2_Deposit (pc_db p))"
      unfolding db' rows
      by (rule fold_keeps [where I = notes_positive, OF kinds deposit_effect_positive that])
  qed
qed

section \<open>Trees and headers\<close>

text \<open>
  A full node whose trees belong to the block with the header \<open>h\<close>: the trees are consistent, they have its
  roots and indices, and the used nullifiers are \<open>S\<close>. No row of a note names a tree.
\<close>

definition trees_in_sync ::
  "(int \<Rightarrow> int \<Rightarrow> int) \<Rightarrow> (int \<Rightarrow> int \<Rightarrow> int) \<Rightarrow> (int \<Rightarrow> int \<Rightarrow> int) \<Rightarrow> node \<Rightarrow> header \<Rightarrow> nat set \<Rightarrow> bool" where
  "trees_in_sync pu pw pn nd h S \<longleftrightarrow>
     (\<exists>ut wt nt fu Tu fw Tw. grove_inv pu pw pn (nd_grove nd) ut wt nt (nd_trees nd) fu Tu fw Tw S \<and>
        kept (gc_fullSync (gr_config (nd_grove nd))) [] \<subseteq> Tu \<inter> Tw \<and>
        utxo_sizes_ok pu nd ut \<and> withdrawal_sizes_ok pw nd wt \<and>
        la_nullifierHasher (nd_layer2 nd) = hasher_of 0 pn (nl_depth nt) \<and>
        nl_depth nt = cf_nullifierTreeDepth (la_config (nd_layer2 nd)) \<and>
        header_matches h ut wt (fst (getRootNode (nd_trees nd) nt))) \<and>
     untracked_rows (la_db (nd_layer2 nd))"

lemma grove_inv_cache:
  "grove_inv pu pw pn (g\<lparr>gr_treeCache := c\<rparr>) ut wt nt db fu Tu fw Tw S = grove_inv pu pw pn g ut wt nt db fu Tu fw Tw S"
  by (simp add: grove_inv_def)

lemma untracked_indexes:
  assumes "untracked_rows db"
  shows "utxo_indexesOfTrackingLeaves (trees_utxos db) keys t = []"
    and "withdrawal_indexesOfTrackingLeaves (trees_withdrawals db) keys t = []"
  using assms
  by (simp_all add: utxo_indexesOfTrackingLeaves_def withdrawal_indexesOfTrackingLeaves_def trees_utxos_def
      trees_withdrawals_def untracked_rows_def utxo_row.truncate_def withdrawal_row.truncate_def filter_empty_conv)

lemma sizes_keep:
  assumes "lt_depth t' = lt_depth t" and "nd_layer2 nd' = (nd_layer2 nd)\<lparr>la_db := db\<rparr>"
    and "gr_config (nd_grove nd') = gr_config (nd_grove nd)"
  shows "utxo_sizes_ok p nd t \<Longrightarrow> notes_positive (l2_Deposit db) \<Longrightarrow> utxo_sizes_ok p nd' t'"
    and "withdrawal_sizes_ok p nd t \<Longrightarrow> withdrawal_sizes_ok p nd' t'"
  using assms by (simp_all add: utxo_sizes_ok_def withdrawal_sizes_ok_def Let_def notes_positive_def)

lemma kept_all: "kept sync [] \<subseteq> kept sync xs"
  by (simp add: kept_def)

text \<open>
  What an accepted block states of the trees: its header, but the root of the nullifier tree is that of the
  parent when the block spends nothing, because then full validation compares nothing with the root in the header.
\<close>

definition stated_header :: "header \<Rightarrow> block \<Rightarrow> header" where
  "stated_header parent b =
     (if tx_nullifiers (body_txs (bl_body b)) = [] then (bl_header b)\<lparr>nullifierRoot := nullifierRoot parent\<rparr>
      else bl_header b)"

lemma accepted_in_sync:
  assumes sync: "trees_in_sync pu pw pn (pc_node p) tip S"
    and inj: "\<And>a b a' b'. pn a b = pn a' b' \<Longrightarrow> a = a' \<and> b = b'"
    and range: "\<forall>n\<in>set (tx_nullifiers (body_txs (bl_body b))). 0 \<le> n \<and> 
      n < 2 ^ cf_nullifierTreeDepth (la_config (nd_layer2 (pc_node p)))"
    and valid: "full_validate onchain (pc_node p) parent b = Ok v" "\<not> slashable v"
    and run: "accept_block P parent b p = (p', Ok ())"
  shows "trees_in_sync pu pw pn (pc_node p') (stated_header parent b) (S \<union> set (map nat (tx_nullifiers (body_txs (bl_body b)))))"
proof -
  let ?nd = "pc_node p" and ?ns = "tx_nullifiers (body_txs (bl_body b))"
  from sync obtain ut wt nt fu Tu fw Tw where
    inv: "grove_inv pu pw pn (nd_grove ?nd) ut wt nt (nd_trees ?nd) fu Tu fw Tw S"
    and Ts: "kept (gc_fullSync (gr_config (nd_grove ?nd))) [] \<subseteq> Tu" "kept (gc_fullSync (gr_config (nd_grove ?nd))) [] \<subseteq> Tw"
    and sizes: "utxo_sizes_ok pu ?nd ut" "withdrawal_sizes_ok pw ?nd wt"
      "la_nullifierHasher (nd_layer2 ?nd) = hasher_of 0 pn (nl_depth nt)"
    and depth: "nl_depth nt = cf_nullifierTreeDepth (la_config (nd_layer2 ?nd))" and rows: "untracked_rows (pc_db p)"
    unfolding trees_in_sync_def by blast
  from inv have trees: "gr_utxoTree (nd_grove ?nd) = Some ut" "gr_withdrawalTree (nd_grove ?nd) = Some wt"
    "gr_nullifierTree (nd_grove ?nd) = Some nt" by (simp_all add: grove_inv_def)
  have range': "\<forall>n\<in>set ?ns. 0 \<le> n \<and> n < 2 ^ nl_depth nt" using range depth by simp
  have positive: "notes_positive (l2_Deposit (pc_db p))"
    using sizes(1) by (simp add: utxo_sizes_ok_def Let_def notes_positive_def)
  from accept_block_trees [OF run] obtain patch g ops where
    patch: "getGrovePatch (pc_lib p) (pc_db p) b = Ok patch"
    and apply': "applyGrovePatch (nd_trees ?nd) (trees_utxos (pc_db p)) (trees_withdrawals (pc_db p))
      (start_cache (nd_grove ?nd)) patch = Ok (g, ops)"
    and after: "nd_grove (pc_node p') = stop_cache g" "nd_trees (pc_node p') = commit ops (nd_trees ?nd)"
    and rows': "untracked_rows (pc_db p')" and positive': "notes_positive (l2_Deposit (pc_db p'))"
    and layer2: "nd_layer2 (pc_node p') = (nd_layer2 ?nd)\<lparr>la_db := pc_db p'\<rparr>" using rows positive by metis
  from full_validate_trees [OF inv sizes inj range' valid patch apply' [unfolded start_cache_def]] obtain ut1 wt1 nt1 r where
    new: "gr_utxoTree g = Some ut1" "gr_withdrawalTree g = Some wt1" "gr_nullifierTree g = Some nt1" "nl_rootNode nt1 = Some r"
    and hd: "uint (utxoRoot (bl_header b)) = lt_root ut1" "uint (utxoIndex (bl_header b)) = int (latestLeafIndex ut1)"
      "uint (withdrawalRoot (bl_header b)) = lt_root wt1" "uint (withdrawalIndex (bl_header b)) = int (latestLeafIndex wt1)"
      "?ns \<noteq> [] \<longrightarrow> uint (nullifierRoot (bl_header b)) = r" by blast
  have nulls: "gp_nullifiers patch = map nat ?ns" using getGrovePatch_parts [OF patch] by metis
  have start: "grove_inv pu pw pn (start_cache (nd_grove ?nd)) ut wt nt (nd_trees ?nd) fu Tu fw Tw S"
    using inv by (simp add: start_cache_def grove_inv_cache)
  have cfg: "gr_config (start_cache (nd_grove ?nd)) = gr_config (nd_grove ?nd)" by (simp add: start_cache_def)
  have below: "set (gp_nullifiers patch) \<subseteq> {..<2 ^ nl_depth nt}" using range' by (auto simp: nulls nat_less_iff)
  have keptu: "kept (gc_fullSync (gr_config (start_cache (nd_grove ?nd)))) [] \<subseteq> Tu"
    and keptw: "kept (gc_fullSync (gr_config (start_cache (nd_grove ?nd)))) [] \<subseteq> Tw" using Ts by (simp_all add: cfg)
  have none: "\<forall>i\<in>set []. i < (2::nat) ^ d" for d by simp
  let ?Tu = "tracked_leaves ut [] (pad_leaves (gc_utxoSubTreeSize (gr_config (nd_grove ?nd))) 0 (gp_utxos patch))"
  let ?Tw = "tracked_leaves wt [] (pad_leaves (gc_withdrawalSubTreeSize (gr_config (nd_grove ?nd))) 0 (gp_withdrawals patch))"
  let ?fu = "append_leaves fu (latestLeafIndex ut) (map lf_hash (gp_utxos patch))"
  let ?fw = "append_leaves fw (latestLeafIndex wt) (map lf_hash (gp_withdrawals patch))"
  from grove_patch_inv [OF start apply' untracked_indexes(1) [OF rows, symmetric] keptu none
      untracked_indexes(2) [OF rows, symmetric] keptw none below, unfolded cfg nulls]
  obtain ut' wt' nt' where
    inv': "grove_inv pu pw pn g ut' wt' nt' (commit ops (nd_trees ?nd)) ?fu ?Tu ?fw ?Tw (S \<union> set (map nat ?ns))"
    and same: "lt_depth ut' = lt_depth ut" "lt_depth wt' = lt_depth wt" "nl_depth nt' = nl_depth nt" "gr_config g = gr_config (nd_grove ?nd)"
    by blast
  have "gr_utxoTree g = Some ut'" "gr_withdrawalTree g = Some wt'" "gr_nullifierTree g = Some nt'"
    using inv' by (simp_all add: grove_inv_def)
  then have eq: "ut1 = ut'" "wt1 = wt'" "nt1 = nt'" using new(1-3) by simp_all
  have sync': "tg_fullSync (lt_config ut) = gc_fullSync (gr_config (nd_grove ?nd))"
    "tg_fullSync (lt_config wt) = gc_fullSync (gr_config (nd_grove ?nd))"
    by (rule history_facts(2), rule inv [unfolded grove_inv_def, THEN conjunct2, THEN conjunct2, THEN conjunct2, THEN conjunct1])
      (rule history_facts(2), rule inv [unfolded grove_inv_def, THEN conjunct2, THEN conjunct2, THEN conjunct2, THEN conjunct2, THEN conjunct1])
  have "grove_inv pu pw pn (nd_grove (pc_node p')) ut' wt' nt' (nd_trees (pc_node p')) ?fu ?Tu ?fw ?Tw (S \<union> set (map nat ?ns))"
    using inv' by (simp add: after stop_cache_def grove_inv_cache)
  moreover have "kept (gc_fullSync (gr_config (nd_grove (pc_node p')))) [] \<subseteq> ?Tu \<inter> ?Tw"
    using kept_all by (simp add: after stop_cache_def same tracked_leaves_def sync')
  moreover have config: "gr_config (nd_grove (pc_node p')) = gr_config (nd_grove ?nd)" by (simp add: after stop_cache_def same)
  moreover have "utxo_sizes_ok pu (pc_node p') ut'"
    by (rule sizes_keep(1) [OF same(1) layer2 config sizes(1) positive'])
  moreover have "withdrawal_sizes_ok pw (pc_node p') wt'"
    by (rule sizes_keep(2) [OF same(2) layer2 config sizes(2)])
  moreover have "la_nullifierHasher (nd_layer2 (pc_node p')) = hasher_of 0 pn (nl_depth nt')"
    using sizes(3) arg_cong [OF layer2, of la_nullifierHasher] by (simp add: same)
  moreover have "nl_depth nt' = cf_nullifierTreeDepth (la_config (nd_layer2 (pc_node p')))"
    using depth arg_cong [OF layer2, of la_config] by (simp add: same)
  moreover have "header_matches (stated_header parent b) ut' wt' (fst (getRootNode (nd_trees (pc_node p')) nt'))"
  proof -
    have "fst (getRootNode (nd_trees (pc_node p')) nt') = r" using new(4) by (simp add: eq getRootNode_def)
    moreover have "uint (nullifierRoot (stated_header parent b)) = r"
    proof (cases "?ns = []")
      case True
      obtain calls where "validateNullifierTree ?nd b parent = Ok calls"
        using full_groups_pass [OF valid, of "validateNullifierTree ?nd b parent"] by (auto simp: full_groups_def)
      then have "uint (nullifierRoot parent) = fst (getRootNode (nd_trees ?nd) nt)"
        by (auto simp: validateNullifierTree_def trees(3))
      also have "\<dots> = fst (getRootNode (commit ops (nd_trees ?nd)) nt')"
        using inv inv' True same(3) by (simp add: grove_inv_def nl_inv_def)
      also have "\<dots> = r" using new(4) by (simp add: eq getRootNode_def)
      finally show ?thesis by (simp add: stated_header_def True)
    qed (use hd(5) in \<open>simp add: stated_header_def\<close>)
    moreover have "utxoRoot (stated_header parent b) = utxoRoot (bl_header b)" "utxoIndex (stated_header parent b) = utxoIndex (bl_header b)"
      "withdrawalRoot (stated_header parent b) = withdrawalRoot (bl_header b)"
      "withdrawalIndex (stated_header parent b) = withdrawalIndex (bl_header b)" by (simp_all add: stated_header_def)
    ultimately show ?thesis using hd by (simp add: header_matches_def eq)
  qed
  ultimately show ?thesis using rows' unfolding trees_in_sync_def by blast
qed

text \<open>Uncles and slashed blocks touch neither the trees nor the notes.\<close>

definition quiet_kind :: "l2_write \<Rightarrow> bool" where
  "quiet_kind w \<longleftrightarrow> tx_kind w \<or> (\<exists>c f. w = Update_Proposal c f) \<or> (\<exists>c f. w = Update_MassDeposit c f)"

lemma quiet_effect:
  assumes "quiet_kind w"
  shows "utxo_effect w us = us" and "withdrawal_effect w ww = ww" and "deposit_effect w ds = ds" and "tree_effect w t = t"
  using assms by (cases w; simp add: quiet_kind_def tx_kind_def)+

lemma quiet_effects:
  assumes "\<forall>w\<in>set ws. quiet_kind w"
  shows "fold utxo_effect ws us = us" and "fold withdrawal_effect ws ww = ww" and "fold deposit_effect ws ds = ds"
    and "fold tree_effect ws t = t"
  using assms by (induction ws) (simp_all add: quiet_effect)

lemma quiet_in_sync:
  assumes run: "transaction (Ok ws) p = Ok p'" and quiet: "\<forall>w\<in>set ws. quiet_kind w"
    and sync: "trees_in_sync pu pw pn (pc_node p) h S"
  shows "trees_in_sync pu pw pn (pc_node p') h S"
proof -
  from transaction_run [OF run] obtain db' t' where exec: "exec_writes ws (pc_db p, nd_trees (pc_node p)) = Ok (db', t')"
    and p': "p' = p\<lparr>pc_node := set_dbs (db', t') (pc_node p)\<rparr>" by blast
  have same: "l2_Utxo db' = l2_Utxo (pc_db p)" "l2_Withdrawal db' = l2_Withdrawal (pc_db p)"
    "l2_Deposit db' = l2_Deposit (pc_db p)" "t' = nd_trees (pc_node p)"
    using exec_writes_effects(2-5) [OF exec] by (simp_all add: quiet_effects [OF quiet])
  have "untracked_rows db' = untracked_rows (pc_db p)" by (simp add: untracked_rows_def same)
  moreover have "utxo_sizes_ok pu (pc_node p') t = utxo_sizes_ok pu (pc_node p) t"
    "withdrawal_sizes_ok pw (pc_node p') t = withdrawal_sizes_ok pw (pc_node p) t" for t
    by (simp_all add: utxo_sizes_ok_def withdrawal_sizes_ok_def p' set_dbs_def same Let_def)
  ultimately show ?thesis using sync unfolding trees_in_sync_def by (simp add: p' same)
qed

lemma slash_quiet:
  assumes "slash_block b v p = Ok p'"
  obtains ws p1 where "transaction (Ok ws) p = Ok p1" and "\<forall>w\<in>set ws. quiet_kind w" and "pc_node p' = pc_node p1"
proof -
  from assms obtain txs p1 where txs: "saveTransactions (pc_lib p) b True = Ok txs"
    and run: "transaction (Ok ([Update_Proposal (\<lambda>r. pp_hash r = bl_hash b) (\<lambda>r. r\<lparr>pp_verified := Some False\<rparr>),
            Update_MassDeposit (\<lambda>r. mdr_includedIn r = Some (bl_hash b)) (\<lambda>r. r\<lparr>mdr_includedIn := None\<rparr>)] @ txs)) p = Ok p1"
    and p': "p' = emit (Slash_event v b) p1"
    by (cases "saveTransactions (pc_lib p) b True") (auto simp: slash_block_def transaction_def)
  show thesis
    by (rule that [OF run]) (use saveTransactions_writes [OF txs] in \<open>auto simp: quiet_kind_def tx_kind_def p' emit_def\<close>)
qed

text \<open>C30: A full node keeps its trees in step with the blocks. When its trees are in step with a header, the
  hash of the nullifier tree is collision-free and the nullifiers of the next processed block are leaves
  of that tree, then afterwards the roots and indices of the UTXO and the withdrawal tree are those of the
  header of that block if it was accepted, and those from before if it was slashed or is an uncle. The root
  of the nullifier tree is, with the nullifiers of an accepted block added, that of its header if the block
  spends something, and that of the parent header if it spends nothing, whatever its own header says.\<close>

theorem processed_in_sync:
  assumes sync: "trees_in_sync pu pw pn (pc_node p) tip S"
    and inj: "\<And>a b a' b'. pn a b = pn a' b' \<Longrightarrow> a = a' \<and> b = b'"
    and range: "\<forall>n\<in>set (tx_nullifiers (body_txs (bl_body (un_block u)))). 0 \<le> n \<and>
      n < 2 ^ cf_nullifierTreeDepth (la_config (nd_layer2 (pc_node p)))"
    and run: "processBlock P (full_validate onchain) u p = (p', Ok n)"
  shows "if \<not> isUncleBlock (pc_db p) (parentBlock (bl_header (un_block u))) n \<and>
      (\<exists>v. full_validate onchain (pc_node p) (un_parent u) (un_block u) = Ok v \<and> \<not> slashable v)
    then trees_in_sync pu pw pn (pc_node p') (stated_header (un_parent u) (un_block u))
      (S \<union> set (map nat (tx_nullifiers (body_txs (bl_body (un_block u))))))
    else trees_in_sync pu pw pn (pc_node p') tip S"
proof (cases "isUncleBlock (pc_db p) (parentBlock (bl_header (un_block u))) n")
  case True
  with processBlock_Ok(2) [OF run] have drop: "drop_uncle (un_block u) p = Ok p'" by simp
  have "trees_in_sync pu pw pn (pc_node p') tip S"
    by (rule quiet_in_sync [OF drop [unfolded drop_uncle_def] _ sync]) (simp add: quiet_kind_def)
  with True show ?thesis by simp
next
  case False
  with processBlock_Ok(2) [OF run] obtain v where valid: "full_validate onchain (pc_node p) (un_parent u) (un_block u) = Ok v"
    and out: "if slashable v then slash_block (un_block u) v p = Ok p'
      else accept_block P (un_parent u) (un_block u) p = (p', Ok ())" by auto
  show ?thesis
  proof (cases "slashable v")
    case True
    with out have "slash_block (un_block u) v p = Ok p'" by simp
    from slash_quiet [OF this] obtain ws p1 where "transaction (Ok ws) p = Ok p1" "\<forall>w\<in>set ws. quiet_kind w"
      "pc_node p' = pc_node p1" by metis
    with quiet_in_sync [OF _ _ sync] have "trees_in_sync pu pw pn (pc_node p') tip S" by simp
    with True valid show ?thesis by simp
  next
    case no: False
    with out have "accept_block P (un_parent u) (un_block u) p = (p', Ok ())" by simp
    from accepted_in_sync [OF sync inj range valid no this] no valid False show ?thesis by simp
  qed
qed

text \<open>The node of the witness of full validation processes its block.\<close>

definition sync_processor :: processor where
  "sync_processor = \<lparr>pc_node = demo_node, pc_registry = \<lparr>reg_blockNumber = 0, erc20s = [], erc721s = []\<rparr>,
     pc_tracker = new_Tracker [], pc_lastEmitted = Some (-1), pc_events = []\<rparr>"

definition sync_unprocessed :: unprocessed where
  "sync_unprocessed = \<lparr>un_parent = demo_parent, un_block = demo_block, un_proposal = chain_row 0 1 (Some ''1'') None\<rparr>"

lemma sync_parts: "pc_node (sync_processor\<lparr>pc_registry := r\<rparr>) = demo_node" "pc_node sync_processor = demo_node"
  "transferTrackers (pc_tracker sync_processor) = []" "withdrawalTrackers (pc_tracker sync_processor) = []"
  "pc_tracker (sync_processor\<lparr>pc_registry := r\<rparr>) = pc_tracker sync_processor"
  by (simp_all add: sync_processor_def new_Tracker_def)

lemma demo_layer2_parts: "la_db demo_layer2 = demo_l2_db" "lib_keccak (la_lib demo_layer2) = (\<lambda>_. 0)"
  by (simp_all add: demo_layer2_def)

lemma demo_l2_db_parts: "l2_Utxo demo_l2_db = []" "l2_Withdrawal demo_l2_db = []" "l2_MassDeposit demo_l2_db = []"
  "l2_Proposal demo_l2_db = []" "l2_Tx demo_l2_db = []"
  by (simp_all add: demo_l2_db_def)

lemma demo_tx_parts: "tx_memo demo_tx = None" "tx_hash (la_lib demo_layer2) demo_tx = Ok 0"
  "list_ex (\<lambda>out. out_type out = WITHDRAWAL) (tx_outflow demo_tx) = False"
  by (simp_all add: demo_tx_def new_ZkTx_def tx_hash_def zkTx_hash_def UTXO_def WITHDRAWAL_def)

lemma exec_writes_succeeds:
  assumes "\<forall>w\<in>set ws. \<forall>d. w \<noteq> Create_Tx d"
  shows "\<exists>r. exec_writes ws dbs = Ok r"
  using assms
proof (induction ws arbitrary: dbs)
  case (Cons w ws)
  obtain db t where dbs: "dbs = (db, t)" by fastforce
  have "\<exists>r. exec_write w (db, t) = Ok r" using Cons.prems by (cases w) simp_all
  with Cons dbs show ?case by fastforce
qed simp

lemma demo_start_run: "\<exists>g ops. applyGrovePatch demo_db [] [] (start_cache demo_grove) demo_patch = Ok (g, ops)"
proof -
  have "(case applyGrovePatch demo_db [] [] (start_cache demo_grove) demo_patch of Inr _ \<Rightarrow> True | Inl _ \<Rightarrow> False)"
    by code_simp
  then show ?thesis by (auto split: sum.splits)
qed

lemma sync_accepted: "\<exists>p'. accept_block P demo_parent demo_block sync_processor = (p', Ok ())"
proof -
  let ?la = "demo_layer2"
  let ?bp = "\<lparr>bp_block = bl_hash demo_block, bp_treePatch = demo_patch, bp_massDeposits = [], bp_header = bl_header demo_block,
    bp_prevHeader = demo_parent, bp_noteHashes = map out_note (withdrawal_outflows [demo_tx])\<rparr>"
  have patch: "makePatch (la_lib ?la) demo_l2_db demo_parent demo_block = Ok ?bp"
    using demo_getGrovePatch by (simp add: makePatch_def demo_node_layer2 demo_layer2_parts demo_body)
  obtain d where tw: "saveTransactions (la_lib ?la) demo_block False = Ok [Create_Tx d, Delete_PendingTx (\<lambda>k. k = 0)]"
    by (simp add: saveTransactions_def demo_body tx_writes_def demo_tx_parts)
  have uw: "decryptMyUtxos P (la_lib ?la) demo_l2_db reg [] prev us [demo_tx] = Ok []" for reg prev us
    by (simp add: decryptMyUtxos_def decrypt_all_def demo_tx_parts)
  have ww: "saveWithdrawals P (la_lib ?la) demo_block [] = Ok []"
    by (simp add: saveWithdrawals_def demo_body demo_tx_parts demo_leaves Let_def map_filter_simps)
  obtain g ops where run: "applyGrovePatch demo_db [] [] (start_cache demo_grove) demo_patch = Ok (g, ops)"
    using demo_start_run by blast
  obtain pw where pw: "applyPatch P (demo_node\<lparr>nd_grove := start_cache demo_grove\<rparr>) (pc_tracker sync_processor) ?bp = Ok (pw, g)"
    "\<forall>w\<in>set pw. \<forall>d. w \<noteq> Create_Tx d"
    by (simp add: applyPatch_def Let_def demo_node_layer2 demo_layer2_parts demo_l2_db_parts trees_utxos_def trees_withdrawals_def
        markMassDepositsAsIncludedIn_def updateMyUtxos_def updateMyWithdrawals_def run sync_parts map_filter_def
        markUsedUtxosAsNullified_def markNewUtxosAsUnspent_def markNewWithdrawalsAsUnfinalized_def)
  let ?last = "Update_Proposal (\<lambda>r. pp_hash r = bl_hash demo_block) (\<lambda>r. r\<lparr>pp_verified := Some True, pp_isUncle := None\<rparr>)"
  have ws: "block_writes P reg ?bp demo_block (sync_processor\<lparr>pc_registry := reg\<rparr>) =
      Ok ([Create_Tx d, Delete_PendingTx (\<lambda>k. k = 0)] @ pw @ [?last], g)" for reg
    unfolding block_writes_def Let_def
    by (simp add: sync_parts demo_node_layer2 demo_layer2_parts demo_body tw uw ww pw(1))
  have "\<exists>dbs. exec_writes ([Create_Tx d, Delete_PendingTx (\<lambda>k. k = 0)] @ pw @ [?last]) (demo_l2_db, demo_db) = Ok dbs"
  proof -
    obtain db t where first: "exec_write (Create_Tx d) (demo_l2_db, demo_db) = Ok (db, t)" by (simp add: demo_l2_db_parts)
    have "\<exists>dbs. exec_writes ([Delete_PendingTx (\<lambda>k. k = 0)] @ pw @ [?last]) (db, t) = Ok dbs"
      by (rule exec_writes_succeeds) (use pw(2) in auto)
    with first show ?thesis by simp
  qed
  then obtain dbs where "exec_writes ([Create_Tx d, Delete_PendingTx (\<lambda>k. k = 0)] @ pw @ [?last]) (demo_l2_db, demo_db) = Ok dbs" by blast
  then have tr: "transaction (Ok ([Create_Tx d, Delete_PendingTx (\<lambda>k. k = 0)] @ pw @ [?last])) (sync_processor\<lparr>pc_registry := reg\<rparr>) =
      Ok ((sync_processor\<lparr>pc_registry := reg\<rparr>)\<lparr>pc_node := set_dbs dbs (pc_node (sync_processor\<lparr>pc_registry := reg\<rparr>))\<rparr>)" for reg
    unfolding transaction_def by (simp only: bind_result.simps sync_parts demo_node_layer2 demo_layer2_parts)
  have lib: "pc_lib sync_processor = la_lib ?la" "pc_db sync_processor = demo_l2_db"
    "pc_lib (sync_processor\<lparr>pc_registry := reg\<rparr>) = la_lib ?la" "pc_db (sync_processor\<lparr>pc_registry := reg\<rparr>) = demo_l2_db" for reg
    by (simp_all add: sync_parts demo_node_layer2 demo_layer2_parts)
  show ?thesis
    unfolding accept_block_def Let_def lib patch
    by (simp only: sum.case ws bind_result.simps prod.case tr) blast
qed

theorem processed_in_sync_witness:
  "\<forall>P. \<exists>p'. processBlock P (full_validate (\<lambda>_. Ok not_slashable)) sync_unprocessed sync_processor = (p', Ok 1) \<and>
    trees_in_sync demo_hash demo_hash demo_pair (pc_node p') (bl_header demo_block) {1}"
proof
  fix P
  have fresh: "\<not> isUncleBlock demo_l2_db h 1" for h by (simp add: isUncleBlock_def demo_l2_db_parts)
  have valid: "full_validate (\<lambda>_. Ok not_slashable) demo_node demo_parent demo_block = Ok not_slashable" "\<not> slashable not_slashable"
    using demo_accepted by simp_all
  obtain p' where "accept_block P demo_parent demo_block sync_processor = (p', Ok ())" using sync_accepted by blast
  then have run: "processBlock P (full_validate (\<lambda>_. Ok not_slashable)) sync_unprocessed sync_processor = (p', Ok 1)"
    using fresh valid by (simp add: processBlock_def sync_unprocessed_def chain_row_def sync_parts demo_node_layer2 demo_layer2_parts)
  have sync: "trees_in_sync demo_hash demo_hash demo_pair (pc_node sync_processor) demo_parent {}"
    unfolding trees_in_sync_def sync_parts
  proof (intro conjI exI)
    show "grove_inv demo_hash demo_hash demo_pair (nd_grove demo_node) (demo_tree ''utxo'' SPECIES_UTXO)
      (demo_tree ''withdrawal'' SPECIES_WITHDRAWAL) demo_smt (nd_trees demo_node) (\<lambda>_. 0) UNIV (\<lambda>_. 0) UNIV {}" by (rule demo_inv)
    show "utxo_sizes_ok demo_hash demo_node (demo_tree ''utxo'' SPECIES_UTXO)"
      "withdrawal_sizes_ok demo_hash demo_node (demo_tree ''withdrawal'' SPECIES_WITHDRAWAL)"
      by (simp_all add: utxo_sizes_ok_def withdrawal_sizes_ok_def demo_node_layer2 demo_depth demo_layer2_def demo_grove_def demo_l2_db_def
        demo_config_def FP_ORDER_def demo_hash_def Let_def) (smt (verit) pos_mod_bound pos_mod_sign)+
    show "la_nullifierHasher (nd_layer2 demo_node) = hasher_of 0 demo_pair (nl_depth demo_smt)"
      "nl_depth demo_smt = cf_nullifierTreeDepth (la_config (nd_layer2 demo_node))"
      by (simp_all add: demo_node_layer2 demo_layer2_def demo_smt_def)
    show "header_matches demo_parent (demo_tree ''utxo'' SPECIES_UTXO) (demo_tree ''withdrawal'' SPECIES_WITHDRAWAL)
      (fst (getRootNode (nd_trees demo_node) demo_smt))"
    proof -
      have "fst (getRootNode demo_db demo_smt) = 0"
        by (simp add: getRootNode_def demo_db_def demo_smt_def genesisRoot_def hasher_of_def Let_def) code_simp
      then show ?thesis by (simp add: header_matches_def demo_parent_def gen_index demo_node_layer2)
    qed
  qed (simp_all add: demo_node_layer2 demo_layer2_parts untracked_rows_def demo_l2_db_parts)
  have "trees_in_sync demo_hash demo_hash demo_pair (pc_node p') (bl_header demo_block) ({} \<union> set (map nat [1]))"
    using processed_in_sync [OF sync demo_pair_inj _ run] valid fresh
    by (simp add: stated_header_def sync_unprocessed_def sync_parts demo_node_layer2 demo_layer2_parts demo_body demo_leaves) (simp add: demo_layer2_def)
  with run show "\<exists>p'. processBlock P (full_validate (\<lambda>_. Ok not_slashable)) sync_unprocessed sync_processor = (p', Ok 1) \<and>
    trees_in_sync demo_hash demo_hash demo_pair (pc_node p') (bl_header demo_block) {1}" by auto
qed

end
