(* ===== verification/Processor_Notes.thy ===== *)
theory Processor_Notes
  imports Processor_Trees Zk_Keys_Proofs
begin

text \<open>
  The rows of the accounts a node tracks: the index it saves for a note is the position of its leaf, and
  the withdrawals it discovers in a block stay without an index.
\<close>

section \<open>Own notes\<close>

lemma find_index_Some:
  "find_index c xs = Some i \<Longrightarrow> i < length xs \<and> c (xs ! i) \<and> (\<forall>j<i. \<not> c (xs ! j))"
proof (induction xs arbitrary: i)
  case (Cons x xs)
  show ?case
  proof (cases "c x")
    case False
    with Cons.prems obtain k where k: "find_index c xs = Some k" "i = Suc k" by auto
    have "\<not> c ((x # xs) ! j)" if "j < i" for j
      using Cons.IH [OF k(1)] False that k(2) by (cases j) auto
    with Cons.IH [OF k(1)] k(2) show ?thesis by auto
  qed (use Cons.prems in auto)
qed simp

lemma leaf_number_exact:
  assumes "uint start = int n" and "int (n + k) < FP_ORDER"
  shows "leaf_number start k = n + k"
proof -
  have "fp_new (int (n + k)) = int (n + k)" using assms(2) by (simp add: ff_valid_def)
  with assms(1) show ?thesis by (simp add: leaf_number_def)
qed

lemma same_viewing_key_member: "same_viewing_key k ts = Ok (Some v) \<Longrightarrow> v \<in> set ts"
  by (induction ts) (auto split: if_splits)

lemma my_utxo_row_index:
  assumes "my_utxo_row P accounts prev utxos n = Ok r" and "uint (utxoIndex prev) = int start"
    and "int (start + length utxos) < FP_ORDER"
  obtains k v where "k < length utxos" and "lf_hash (utxos ! k) = fp_new (ur_hash r)" and "ur_index r = Some (start + k)"
    and "v \<in> set accounts"
    and "ud_nullifier r = Some (utxo_nullifier_static (poseidon_hash (pl_address P)) (vw_v v) (int (start + k)))"
proof -
  obtain k v where k: "find_index (\<lambda>leaf. lf_hash leaf = fp_new (note_hash (poseidon_hash (pl_address P)) PubSK n)) utxos = Some k"
    and v: "same_viewing_key (viewing_N (owner n)) accounts = Ok (Some v)"
    and r: "ur_hash r = note_hash (poseidon_hash (pl_address P)) PubSK n" "ur_index r = Some (leaf_number (utxoIndex prev) k)"
      "ud_nullifier r = Some (utxo_nullifier_static (poseidon_hash (pl_address P)) (vw_v v) (int (leaf_number (utxoIndex prev) k)))"
    using assms(1) by (auto simp: my_utxo_row_def order_in_def Let_def split: option.splits)
  from find_index_Some [OF k] have pos: "k < length utxos"
    "lf_hash (utxos ! k) = fp_new (note_hash (poseidon_hash (pl_address P)) PubSK n)" by auto
  have "leaf_number (utxoIndex prev) k = start + k"
    by (rule leaf_number_exact [OF assms(2)]) (use pos(1) assms(3) in simp)
  with pos r same_viewing_key_member [OF v] show thesis by (intro that [of k v]) simp_all
qed

text \<open>C31: The row of an own note points to its leaf: when the previous header has the index of the UTXO
  tree, each note that the decryption of a block saves gets the position its hash has in the tree after
  the block, and the nullifier of that position under the viewing key of a tracked account.\<close>

theorem own_note_position:
  assumes "decryptMyUtxos P L db reg accounts prev utxos txs = Ok ws" and "Upsert_Utxo r \<in> set ws"
    and "uint (utxoIndex prev) = int (latestLeafIndex ut)" and "int (latestLeafIndex ut + length utxos) < FP_ORDER"
  shows "\<exists>i v. ur_index r = Some i \<and> latestLeafIndex ut \<le> i \<and> i < latestLeafIndex ut + length utxos \<and>
    append_leaves fu (latestLeafIndex ut) (map lf_hash utxos) i = fp_new (ur_hash r) \<and> v \<in> set accounts \<and>
    ud_nullifier r = Some (utxo_nullifier_static (poseidon_hash (pl_address P)) (vw_v v) (int i))"
proof -
  obtain ns ws1 inputs where parts: "decrypt_all P L db reg accounts txs = Ok (ns, ws1)"
    "map_result (my_utxo_row P accounts prev utxos) ns = Ok inputs" "ws = ws1 @ map Upsert_Utxo inputs"
    using assms(1) by (auto simp: decryptMyUtxos_def)
  have "Upsert_Utxo r \<notin> set ws1" using decrypt_all_writes [OF parts(1)] by (auto simp: tx_updates_def)
  with assms(2) parts(3) have "r \<in> set inputs" by auto
  from map_result_back [OF parts(2) this] obtain n where n: "my_utxo_row P accounts prev utxos n = Ok r" by blast
  from my_utxo_row_index [OF n assms(3,4)] obtain k v where kv: "k < length utxos" "lf_hash (utxos ! k) = fp_new (ur_hash r)"
    "ur_index r = Some (latestLeafIndex ut + k)" "v \<in> set accounts"
    "ud_nullifier r = Some (utxo_nullifier_static (poseidon_hash (pl_address P)) (vw_v v) (int (latestLeafIndex ut + k)))" by metis
  then show ?thesis by (intro exI [of _ "latestLeafIndex ut + k"] exI [of _ v]) (simp add: append_leaves_nth)
qed

section \<open>Withdrawals\<close>

text \<open>
  The writes of a block for withdrawals whose notes are not in \<open>H\<close>: none of them sets an index or the
  siblings of a proof.
\<close>

definition no_index :: "withdrawal_doc \<Rightarrow> bool" where
  "no_index r \<longleftrightarrow> wr_index r = None \<and> wd_siblings r = None"

definition index_only :: "int set \<Rightarrow> l2_write \<Rightarrow> bool" where
  "index_only H w \<longleftrightarrow>
     (\<forall>c f. w = Update_Withdrawal c f \<longrightarrow> (\<forall>r. wr_hash (f r) = wr_hash r \<and> (c r \<and> wr_hash r \<notin> H \<and> no_index r \<longrightarrow> no_index (f r)))) \<and>
     (\<forall>r. w = Upsert_Withdrawal r \<longrightarrow> no_index r)"

lemma index_only_effect:
  assumes "index_only H w" and "\<forall>r\<in>set rows. wr_hash r \<notin> H \<longrightarrow> no_index r"
  shows "\<forall>r\<in>set (withdrawal_effect w rows). wr_hash r \<notin> H \<longrightarrow> no_index r"
proof (cases w)
  case (Update_Withdrawal c f)
  with assms show ?thesis by (auto simp: index_only_def update_rows_def)
next
  case (Upsert_Withdrawal r)
  with assms have "no_index r" by (simp add: index_only_def)
  moreover have "no_index (set_withdrawal r s)" if "s \<in> set rows" "wr_hash s = wr_hash r" "wr_hash s \<notin> H" for s
    using assms(2) that by (simp add: no_index_def set_withdrawal_def)
  moreover have "wr_hash (set_withdrawal r s) = wr_hash r" for s by (simp add: set_withdrawal_def)
  ultimately have "\<forall>s\<in>set (upsert_row (\<lambda>u. wr_hash u = wr_hash r) (set_withdrawal r) r rows). wr_hash s \<notin> H \<longrightarrow> no_index s"
    using assms(2) by (auto simp: upsert_row_def update_rows_def)
  then show ?thesis by (simp add: Upsert_Withdrawal)
qed (use assms(2) in simp_all)

text \<open>Every update of the indices is for a row that was there before the block.\<close>

lemma updateMyWithdrawals_index_only:
  assumes "updateMyWithdrawals L db trees g accounts patch = Ok ws" and "w \<in> set ws"
  shows "index_only (wr_hash ` set (l2_Withdrawal db)) w"
proof -
  from map_result_back [OF assms(1) [unfolded updateMyWithdrawals_def Let_def] assms(2)] obtain r f where
    r: "r \<in> set (l2_Withdrawal db)" "w = Update_Withdrawal (\<lambda>u. wr_hash u = wr_hash r) f" "\<forall>u. wr_hash (f u) = wr_hash u"
    by (auto split: option.splits) 
  then show ?thesis by (auto simp: index_only_def)
qed

lemma other_writes_index_only:
  "tx_kind w \<Longrightarrow> index_only H w" "note_kind w \<Longrightarrow> index_only H w"
  "\<forall>c f. w \<noteq> Update_Withdrawal c f \<Longrightarrow> \<forall>r. w \<noteq> Upsert_Withdrawal r \<Longrightarrow> index_only H w"
  "index_only H (markNewWithdrawalsAsUnfinalized hs)"
  by (auto simp: index_only_def tx_kind_def note_kind_def markNewWithdrawalsAsUnfinalized_def no_index_def)

lemma saved_withdrawals_no_index:
  assumes "saveWithdrawals P L b accounts = Ok ws" and "w \<in> set ws"
  shows "index_only H w"
proof -
  obtain instant rows outs where parts: "map_result (instant_writes P L (bl_hash b))
      (filter (\<lambda>tx. list_ex (\<lambda>out. out_type out = WITHDRAWAL) (tx_outflow tx)) (body_txs (bl_body b))) = Ok instant"
    "map_result (\<lambda>(out, d). withdrawal_row_of L (bl_hash b) out d (pd_fee d)) outs = Ok rows"
    "ws = concat instant @ map Upsert_Withdrawal rows"
    using assms(1) by (auto simp: saveWithdrawals_def Let_def)
  have none: "withdrawal_row_of L h out d fee = Ok r \<Longrightarrow> no_index r" for h out d fee r
    using withdrawal_row_of_fields by (auto simp: no_index_def)
  have "index_only H x" if "ys \<in> set instant" "x \<in> set ys" for x ys
  proof -
    from map_result_back [OF parts(1) that(1)] obtain tx where tx: "instant_writes P L (bl_hash b) tx = Ok ys" by blast
    show ?thesis
    proof (cases "only_one (filter (\<lambda>out. out_type out = WITHDRAWAL) (tx_outflow tx))")
      case (Some outflow)
      with tx that(2) none show ?thesis
        by (cases "out_data outflow") (auto simp: instant_writes_def index_only_def)
    qed (use tx that(2) in \<open>auto simp: instant_writes_def\<close>)
  qed
  moreover have "no_index r" if "r \<in> set rows" for r using map_result_back [OF parts(2) that] none by auto
  ultimately show ?thesis using assms(2) parts(3) by (auto simp: index_only_def)
qed

text \<open>A node never learns the position of a withdrawal that it discovers in a block: the rows to index
  are read before the rows of the block are written, so that every withdrawal without a row before the
  block is stored without an index and without the siblings a claim on the first layer needs.\<close>

theorem new_withdrawals_unindexed:
  assumes "accept_block P parent b p = (p', Ok ())"
    and "r \<in> set (l2_Withdrawal (pc_db p'))" and "wr_hash r \<notin> wr_hash ` set (l2_Withdrawal (pc_db p))"
  shows "wr_index r = None \<and> wd_siblings r = None"
proof -
  let ?reg = "getTokenRegistry (pc_lib p) (pc_db p) (pc_registry p)" let ?p = "p\<lparr>pc_registry := ?reg\<rparr>"
  let ?H = "wr_hash ` set (l2_Withdrawal (pc_db p))"
  from accept_block_Ok [OF assms(1)] obtain bpatch ws g db' t' where
    ws: "block_writes P ?reg bpatch b ?p = Ok (ws, g)"
    and run: "exec_writes ws (pc_db p, nd_trees (pc_node p)) = Ok (db', t')"
    and p': "p' = set_grove (stop_cache g) (p\<lparr>pc_registry := ?reg, pc_node := set_dbs (db', t') (pc_node p)\<rparr>)" by metis
  from block_writes_parts [OF ws] obtain tw uw ww pw where parts: "saveTransactions (pc_lib ?p) b False = Ok tw"
    "decryptMyUtxos P (pc_lib ?p) (pc_db ?p) ?reg (transferTrackers (pc_tracker ?p)) (bp_prevHeader bpatch)
      (gp_utxos (bp_treePatch bpatch)) (body_txs (bl_body b)) = Ok uw"
    "saveWithdrawals P (pc_lib ?p) b (withdrawalTrackers (pc_tracker ?p)) = Ok ww"
    "applyPatch P ((pc_node ?p)\<lparr>nd_grove := start_cache (nd_grove (pc_node ?p))\<rparr>) (pc_tracker ?p) bpatch = Ok (pw, g)"
    "ws = tw @ uw @ ww @ pw @ [Update_Proposal (\<lambda>r. pp_hash r = bl_hash b) (\<lambda>r. r\<lparr>pp_verified := Some True, pp_isUncle := None\<rparr>)]"
    by metis
  obtain included ops myu myw where ap:
    "markMassDepositsAsIncludedIn (pc_lib p) (pc_db p) (bp_massDeposits bpatch) (bp_block bpatch) = Ok included"
    "updateMyUtxos P (pc_db p) (transferTrackers (pc_tracker p)) bpatch = Ok myu"
    "updateMyWithdrawals (pc_lib p) (pc_db p) (nd_trees (pc_node p)) g (withdrawalTrackers (pc_tracker p)) bpatch = Ok myw"
    "pw = markUsedUtxosAsNullified (gp_nullifiers (bp_treePatch bpatch)) (bp_block bpatch) # included @
      [markNewUtxosAsUnspent (map lf_hash (gp_utxos (bp_treePatch bpatch))),
       markNewWithdrawalsAsUnfinalized (bp_noteHashes bpatch)] @ map Tree_Write ops @ myu @ myw"
    by (rule applyPatch_parts [OF parts(4)], rule that) simp_all
  have "index_only ?H w" if "w \<in> set tw" for w
    using saveTransactions_writes [OF parts(1) that] other_writes_index_only(1) by (auto simp: tx_kind_def)
  moreover have "index_only ?H w" if "w \<in> set uw" for w
    by (rule other_writes_index_only(2) [OF decryptMyUtxos_kind [OF parts(2) that]])
  moreover have "index_only ?H w" if "w \<in> set ww" for w by (rule saved_withdrawals_no_index [OF parts(3) that])
  moreover have "index_only ?H w" if "w \<in> set included" for w
    using ap(1) that by (auto simp: markMassDepositsAsIncludedIn_def Let_def index_only_def split: if_splits)
  moreover have "index_only ?H w" if "w \<in> set myu" for w
    using map_result_back [OF ap(2) [unfolded updateMyUtxos_def Let_def] that]
    by (auto simp: index_only_def split: option.splits)
  moreover have "index_only ?H w" if "w \<in> set myw" for w by (rule updateMyWithdrawals_index_only [OF ap(3) that])
  moreover have "index_only ?H (markUsedUtxosAsNullified ns h)" "index_only ?H (markNewUtxosAsUnspent us)"
    "index_only ?H (Tree_Write q)" "index_only ?H (Update_Proposal c f)" for ns h us q c f
    by (simp_all add: index_only_def markUsedUtxosAsNullified_def markNewUtxosAsUnspent_def)
  ultimately have "\<forall>w\<in>set ws. index_only ?H w"
    unfolding parts(5) ap(4) using other_writes_index_only(4) by auto
  then have "\<forall>r\<in>set (fold withdrawal_effect ws (l2_Withdrawal (pc_db p))). wr_hash r \<notin> ?H \<longrightarrow> no_index r"
    by (rule fold_keeps [where I = "\<lambda>rows. \<forall>r\<in>set rows. wr_hash r \<notin> ?H \<longrightarrow> no_index r", OF _ index_only_effect]) auto
  moreover have "l2_Withdrawal (pc_db p') = fold withdrawal_effect ws (l2_Withdrawal (pc_db p))"
    using exec_writes_effects(3) [OF run] by (simp add: p' set_grove_def)
  ultimately show ?thesis using assms(2,3) by (simp add: no_index_def)
qed

section \<open>Witnesses\<close>

text \<open>
  An account that every memo decrypts for, with hash functions that are constant; a transaction with its
  memo and one new note.
\<close>

definition note_tx :: zk_tx where
  "note_tx = (new_ZkTx [\<lparr>in_nullifier = 1, in_root = 0\<rparr>] [\<lparr>out_note = 9, out_type = UTXO, out_data = None\<rparr>]
     3 (Some \<lparr>pi_a = [], pi_b = [], pi_c = []\<rparr>) None (Some \<lparr>memo_version = 1, memo_data = replicate 81 0\<rparr>))\<lparr>cache_hash := Some 0\<rparr>"

definition note_lib :: processor_lib where
  "note_lib = \<lparr>pl_curve = toy_curve, pl_address = toy_addresses,
     pl_crypto = \<lparr>shared = \<lambda>_ _. [], public = \<lambda>_. [], decode_point = \<lambda>_. Ok \<lparr>px = 0, py = 1\<rparr>, chacha = \<lambda>_ bs. bs\<rparr>,
     pl_default_abi = 0, pl_withdraw_abi = 0\<rparr>"

lemma note_lib_parts: "pl_curve note_lib = toy_curve" "pl_address note_lib = toy_addresses"
  "poseidon_hash toy_addresses = (\<lambda>_. 9)" "decode_point (pl_crypto note_lib) bs = Ok \<lparr>px = 0, py = 1\<rparr>"
  "chacha (pl_crypto note_lib) k bs = bs"
  by (simp_all add: note_lib_def toy_addresses_def)

lemma toy_hash: "note_hash (\<lambda>_. 9) spk n = 9"
  using toy_valid(1) by (simp add: note_hash_def)

lemma note_found:
  obtains own n where "account_decrypt note_lib (la_lib demo_layer2) reg toy_viewer note_tx = Ok [n]"
    and "owner n = own" and "viewing_N own = \<lparr>px = 0, py = 1\<rparr>"
proof -
  obtain own where own: "ZkAddress_from toy_curve toy_addresses 9 \<lparr>px = 0, py = 1\<rparr> = Ok own" "viewing_N own = \<lparr>px = 0, py = 1\<rparr>"
    using address_from [OF toy_base58 toy_valid(4,1)] by (elim exE conjE)
  have P: "Point_from toy_curve 0 1 = Ok \<lparr>px = 0, py = 1\<rparr>"
    using toy_valid by (simp add: Point_from_def new_Point_def) (simp add: toy_curve_def)
  then have mul: "Point_mul toy_curve \<lparr>px = fst (Base8 toy_curve), py = snd (Base8 toy_curve)\<rparr> v = Ok \<lparr>px = 0, py = 1\<rparr>" for v
    by (simp add: Point_mul_def) (simp add: toy_curve_def)
  have viewer: "PubSK (vw_zkAddress toy_viewer) = 9" by (simp add: toy_viewer_def)
  have "\<exists>n. account_decrypt note_lib (la_lib demo_layer2) reg toy_viewer note_tx = Ok [n] \<and> owner n = own"
    by (simp add: account_decrypt_def viewer_decrypt_def parseMemo_def note_tx_def new_ZkTx_def note_lib_parts mul viewer own(1)
        utxo_decrypt_def toy_hash Let_def newEtherNote_def Utxo_from_def)
  with own(2) that show thesis by blast
qed


theorem own_note_position_witness:
  "\<exists>ws r. decryptMyUtxos note_lib (la_lib demo_layer2) demo_l2_db \<lparr>reg_blockNumber = 0, erc20s = [], erc721s = []\<rparr> [toy_viewer] demo_parent
      [\<lparr>lf_hash = 9, lf_shouldTrack = False\<rparr>] [note_tx] = Ok ws \<and> Upsert_Utxo r \<in> set ws \<and> ur_index r = Some 0"
proof -
  obtain own n where n: "account_decrypt note_lib (la_lib demo_layer2) \<lparr>reg_blockNumber = 0, erc20s = [], erc721s = []\<rparr> toy_viewer note_tx = Ok [n]"
    "owner n = own" "viewing_N own = \<lparr>px = 0, py = 1\<rparr>" by (rule note_found)
  have tx: "tx_memo note_tx \<noteq> None" "tx_inflow note_tx = [\<lparr>in_nullifier = 1, in_root = 0\<rparr>]" "tx_hash (la_lib demo_layer2) note_tx = Ok 0"
    "list_ex (\<lambda>out. out_type out = WITHDRAWAL) (tx_outflow note_tx) = False"
    by (simp_all add: note_tx_def new_ZkTx_def tx_hash_def zkTx_hash_def UTXO_def WITHDRAWAL_def)
  obtain ws1 where ws1: "determineTxOwnership (la_lib demo_layer2) demo_l2_db note_tx toy_viewer [n] = Ok ws1"
    by (simp add: determineTxOwnership_def tx demo_l2_db_parts Let_def case_prod_beta)
  have all: "decrypt_all note_lib (la_lib demo_layer2) demo_l2_db \<lparr>reg_blockNumber = 0, erc20s = [], erc721s = []\<rparr> [toy_viewer] [note_tx] = Ok ([n], ws1)"
    by (simp add: decrypt_all_def tx decrypt_step_def n ws1)
  have hex: "\<exists>ds. Point_toHex \<lparr>px = 0, py = 1\<rparr> = Ok ds"
    using point_decode_encode [OF toy_valid(4)] by (auto simp: Point_toHex_def)
  then have key: "same_viewing_key (viewing_N own) [toy_viewer] = Ok (Some toy_viewer)"
    by (auto simp: Point_eq_def n(3) toy_viewer_def)
  have nine: "fp_new 9 = 9" using toy_valid(1) by simp
  obtain r where row: "my_utxo_row note_lib [toy_viewer] demo_parent [\<lparr>lf_hash = 9, lf_shouldTrack = False\<rparr>] n = Ok r"
    by (simp add: my_utxo_row_def Let_def note_lib_parts toy_hash nine order_in_def key n(2) del: same_viewing_key.simps)
  have run: "decryptMyUtxos note_lib (la_lib demo_layer2) demo_l2_db \<lparr>reg_blockNumber = 0, erc20s = [], erc721s = []\<rparr> [toy_viewer] demo_parent
      [\<lparr>lf_hash = 9, lf_shouldTrack = False\<rparr>] [note_tx] = Ok (ws1 @ [Upsert_Utxo r])"
    by (simp add: decryptMyUtxos_def all row)
  have start: "uint (utxoIndex demo_parent) = int (latestLeafIndex (demo_tree ''utxo'' SPECIES_UTXO))"
    by (simp add: demo_parent_def gen_index)
  have "ur_index r = Some 0"
    using own_note_position [OF run _ start, of r] by (auto simp: gen_index FP_ORDER_def)
  with run show ?thesis by auto
qed

text \<open>A block with one withdrawal to a tracked address on the node of the other witnesses.\<close>

definition wd_data :: public_data where
  "wd_data = \<lparr>pd_to = 7, pd_eth = 1, pd_tokenAddr = 0, pd_erc20Amount = 0, pd_nft = 0, pd_fee = 0\<rparr>"

definition wd_tx :: zk_tx where
  "wd_tx = (new_ZkTx [\<lparr>in_nullifier = 1, in_root = 0\<rparr>] [\<lparr>out_note = 5, out_type = WITHDRAWAL, out_data = Some wd_data\<rparr>]
     3 (Some \<lparr>pi_a = [], pi_b = [], pi_c = []\<rparr>) None None)\<lparr>cache_hash := Some 0\<rparr>"

definition wd_block :: block where
  "wd_block = demo_block\<lparr>bl_body := \<lparr>body_txs = [wd_tx], massDeposits = [], massMigrations = []\<rparr>\<rparr>"

definition wd_processor :: processor where
  "wd_processor = sync_processor\<lparr>pc_tracker := (new_Tracker [])\<lparr>withdrawalTrackers := [7]\<rparr>\<rparr>"

definition wd_patch :: "int grove_patch" where
  "wd_patch = \<lparr>gp_header = Some [], gp_utxos = [], gp_withdrawals = [\<lparr>lf_hash = 0, lf_shouldTrack = False\<rparr>], gp_nullifiers = [1]\<rparr>"

definition wd_row :: withdrawal_doc where
  "wd_row = \<lparr>wr_hash = 5, wr_withdrawalHash = 0, wr_to = [], wr_prepayer = None, wr_index = None, wr_treeId = None,
     wd_eth = 1, wd_tokenAddr = 0, wd_erc20Amount = 0, wd_nft = 0, wd_fee = 0, wd_status = None,
     wd_includedIn = Some (bl_hash wd_block), wd_siblings = None\<rparr>"

lemma wd_hash: "withdrawalHash (lib_keccak (la_lib demo_layer2)) 5 wd_data = Ok 0"
proof -
  have "toBuffer 32 5 = Ok (be_bytes 32 5)" "toBuffer 20 7 = Ok (be_bytes 20 7)" "toBuffer 32 1 = Ok (be_bytes 32 1)"
    "toBuffer 20 0 = Ok (be_bytes 20 0)" "toBuffer 32 0 = Ok (be_bytes 32 0)"
    by (simp_all add: toBuffer_Ok del: be_bytes.simps)
  then show ?thesis by (simp add: withdrawalHash_def wd_data_def demo_layer2_parts del: be_bytes.simps)
qed

lemma wd_parts: "body_txs (bl_body wd_block) = [wd_tx]" "massDeposits (bl_body wd_block) = []" "massMigrations (bl_body wd_block) = []"
  "bl_header wd_block = bl_header demo_block" "bl_hash wd_block = 0"
  "withdrawal_outflows [wd_tx] = [\<lparr>out_note = 5, out_type = WITHDRAWAL, out_data = Some wd_data\<rparr>]"
  "utxo_notes [wd_tx] = []" "tx_nullifiers [wd_tx] = [1]" "tx_memo wd_tx = None" "tx_hash (la_lib demo_layer2) wd_tx = Ok 0"
  "tx_outflow wd_tx = [\<lparr>out_note = 5, out_type = WITHDRAWAL, out_data = Some wd_data\<rparr>]" "tx_fee wd_tx = 3"
  "lib_addr_str (la_lib demo_layer2) = (\<lambda>_. [])" "lib_hash_str (la_lib demo_layer2) = (\<lambda>_. [])"
  by (simp_all add: wd_block_def wd_tx_def new_ZkTx_def demo_block_def withdrawal_outflows_def utxo_notes_def tx_nullifiers_def
      outflow_types tx_hash_def zkTx_hash_def demo_layer2_def)

lemma wd_start_run: "\<exists>g ops. applyGrovePatch demo_db [] [] (start_cache demo_grove) wd_patch = Ok (g, ops)"
proof -
  have "(case applyGrovePatch demo_db [] [] (start_cache demo_grove) wd_patch of Inr _ \<Rightarrow> True | Inl _ \<Rightarrow> False)"
    by code_simp
  then show ?thesis by (auto split: sum.splits)
qed

lemma wd_accepted:
  "\<exists>p'. accept_block P demo_parent wd_block wd_processor = (p', Ok ()) \<and> wd_row\<lparr>wd_status := Some WAITING_FINALIZATION\<rparr> \<in> set (l2_Withdrawal (pc_db p'))"
proof -
  let ?la = "demo_layer2" and ?reg = "getTokenRegistry (la_lib demo_layer2) demo_l2_db (pc_registry wd_processor)"
  let ?bp = "\<lparr>bp_block = bl_hash wd_block, bp_treePatch = wd_patch, bp_massDeposits = [], bp_header = bl_header wd_block,
    bp_prevHeader = demo_parent, bp_noteHashes = [5]\<rparr>"
  have parts: "pc_node wd_processor = demo_node" "pc_node (wd_processor\<lparr>pc_registry := r\<rparr>) = demo_node"
    "pc_tracker (wd_processor\<lparr>pc_registry := r\<rparr>) = (new_Tracker [])\<lparr>withdrawalTrackers := [7]\<rparr>" for r
    by (simp_all add: wd_processor_def sync_processor_def)
  have trk: "transferTrackers ((new_Tracker [])\<lparr>withdrawalTrackers := [7]\<rparr>) = []" "withdrawalTrackers ((new_Tracker [])\<lparr>withdrawalTrackers := [7]\<rparr>) = [7]"
    by (simp_all add: new_Tracker_def)
  have patch: "makePatch (la_lib ?la) demo_l2_db demo_parent wd_block = Ok ?bp"
    by (simp add: makePatch_def getGrovePatch_def wd_parts getDeposits_def order_asc_def demo_l2_db_parts wd_patch_def
        outflow_withdrawal_def wd_hash)
  obtain d where tw: "saveTransactions (la_lib ?la) wd_block False = Ok [Create_Tx d, Delete_PendingTx (\<lambda>k. k = 0)]"
    by (simp add: saveTransactions_def wd_parts tx_writes_def)
  have uw: "decryptMyUtxos P (la_lib ?la) demo_l2_db reg [] prev us [wd_tx] = Ok []" for reg prev us
    by (simp add: decryptMyUtxos_def decrypt_all_def wd_parts)
  have row: "withdrawal_row_of (la_lib ?la) 0 \<lparr>out_note = 5, out_type = WITHDRAWAL, out_data = Some wd_data\<rparr> wd_data fee = Ok (wd_row\<lparr>wd_fee := fee\<rparr>)" for fee
    by (simp add: withdrawal_row_of_def wd_hash wd_parts) (simp add: wd_row_def wd_data_def wd_parts)
  have ww: "saveWithdrawals P (la_lib ?la) wd_block [7] = Ok [Upsert_Withdrawal (wd_row\<lparr>wd_fee := 3\<rparr>), Upsert_Withdrawal wd_row]"
    by (simp add: saveWithdrawals_def wd_parts Let_def map_filter_simps instant_writes_def only_one_def parseMemo_def row)
      (simp add: wd_data_def wd_row_def)
  obtain g ops where run: "applyGrovePatch demo_db [] [] (start_cache demo_grove) wd_patch = Ok (g, ops)"
    using wd_start_run by blast
  define pw1 where "pw1 = [markUsedUtxosAsNullified (gp_nullifiers wd_patch) (bl_hash wd_block),
    markNewUtxosAsUnspent (map lf_hash (gp_utxos wd_patch))]"
  have pw: "applyPatch P (demo_node\<lparr>nd_grove := start_cache demo_grove\<rparr>) ((new_Tracker [])\<lparr>withdrawalTrackers := [7]\<rparr>) ?bp =
      Ok (pw1 @ [markNewWithdrawalsAsUnfinalized [5]] @ map Tree_Write ops, g)" "\<forall>w\<in>set pw1. \<exists>c f. w = Update_Utxo c f"
    by (simp add: applyPatch_def Let_def demo_node_layer2 demo_layer2_parts demo_l2_db_parts trees_utxos_def trees_withdrawals_def
        markMassDepositsAsIncludedIn_def updateMyUtxos_def updateMyWithdrawals_def run trk map_filter_def pw1_def)
      (simp add: pw1_def markUsedUtxosAsNullified_def markNewUtxosAsUnspent_def)
  let ?last = "Update_Proposal (\<lambda>r. pp_hash r = bl_hash wd_block) (\<lambda>r. r\<lparr>pp_verified := Some True, pp_isUncle := None\<rparr>)"
  let ?ws = "[Create_Tx d, Delete_PendingTx (\<lambda>k. k = 0)] @ [Upsert_Withdrawal (wd_row\<lparr>wd_fee := 3\<rparr>), Upsert_Withdrawal wd_row] @
    (pw1 @ [markNewWithdrawalsAsUnfinalized [5]] @ map Tree_Write ops) @ [?last]"
  have ws: "block_writes P reg ?bp wd_block (wd_processor\<lparr>pc_registry := reg\<rparr>) = Ok (?ws, g)" for reg
    unfolding block_writes_def Let_def
    by (simp add: parts trk demo_node_layer2 demo_layer2_parts wd_parts(1) tw uw ww pw(1))
  have "\<exists>dbs. exec_writes ?ws (demo_l2_db, demo_db) = Ok dbs"
  proof -
    obtain db t where first: "exec_write (Create_Tx d) (demo_l2_db, demo_db) = Ok (db, t)" by (simp add: demo_l2_db_parts)
    have "\<exists>dbs. exec_writes (tl ?ws) (db, t) = Ok dbs"
      by (rule exec_writes_succeeds) (use pw(2) in \<open>auto simp: markNewWithdrawalsAsUnfinalized_def\<close>)
    with first show ?thesis by simp
  qed
  then obtain db' t' where exec: "exec_writes ?ws (demo_l2_db, demo_db) = Ok (db', t')" by auto
  have quiet: "fold withdrawal_effect pw1 rows = rows" for rows
    using pw(2) by (induction pw1) auto
  have quiet_trees: "fold withdrawal_effect (map Tree_Write ops) rows = rows" for rows by (induction ops) auto
  have rows: "l2_Withdrawal db' = [wd_row\<lparr>wd_status := Some WAITING_FINALIZATION\<rparr>]"
    unfolding exec_writes_effects(3) [OF exec]
    by (simp add: quiet quiet_trees demo_l2_db_parts markNewWithdrawalsAsUnfinalized_def upsert_row_def update_rows_def)
      (simp add: set_withdrawal_def wd_row_def)
  have tr: "transaction (Ok ?ws) (wd_processor\<lparr>pc_registry := reg\<rparr>) =
      Ok ((wd_processor\<lparr>pc_registry := reg\<rparr>)\<lparr>pc_node := set_dbs (db', t') (pc_node (wd_processor\<lparr>pc_registry := reg\<rparr>))\<rparr>)" for reg
    using exec unfolding transaction_def by (simp only: bind_result.simps parts demo_node_layer2 demo_layer2_parts)
  have lib: "pc_lib wd_processor = la_lib ?la" "pc_db wd_processor = demo_l2_db"
    "pc_lib (wd_processor\<lparr>pc_registry := reg\<rparr>) = la_lib ?la" "pc_db (wd_processor\<lparr>pc_registry := reg\<rparr>) = demo_l2_db" for reg
    by (simp_all add: parts demo_node_layer2 demo_layer2_parts)
  have out: "accept_block P demo_parent wd_block wd_processor =
      (set_grove (stop_cache g) ((wd_processor\<lparr>pc_registry := ?reg\<rparr>)\<lparr>pc_node := set_dbs (db', t') (pc_node (wd_processor\<lparr>pc_registry := ?reg\<rparr>))\<rparr>), Ok ())"
    unfolding accept_block_def Let_def lib patch by (simp only: sum.case ws bind_result.simps prod.case tr)
  show ?thesis unfolding out by (simp add: set_grove_def rows)
qed

theorem new_withdrawals_unindexed_witness:
  "\<forall>P. \<exists>p' r. accept_block P demo_parent wd_block wd_processor = (p', Ok ()) \<and> r \<in> set (l2_Withdrawal (pc_db p')) \<and>
    wd_status r = Some WAITING_FINALIZATION \<and> wr_index r = None \<and> wd_siblings r = None"
proof
  fix P
  from wd_accepted [of P] obtain p' where p': "accept_block P demo_parent wd_block wd_processor = (p', Ok ())"
    "wd_row\<lparr>wd_status := Some WAITING_FINALIZATION\<rparr> \<in> set (l2_Withdrawal (pc_db p'))" by blast
  have "wr_hash (wd_row\<lparr>wd_status := Some WAITING_FINALIZATION\<rparr>) \<notin> wr_hash ` set (l2_Withdrawal (pc_db wd_processor))"
    by (simp add: wd_processor_def sync_processor_def demo_node_layer2 demo_layer2_parts demo_l2_db_parts)
  from new_withdrawals_unindexed [OF p'(1,2) this] p' show "\<exists>p' r. accept_block P demo_parent wd_block wd_processor = (p', Ok ()) \<and>
    r \<in> set (l2_Withdrawal (pc_db p')) \<and> wd_status r = Some WAITING_FINALIZATION \<and> wr_index r = None \<and> wd_siblings r = None"
    by (intro exI conjI) auto
qed

end
