(* ===== verification/Synchronizer.thy ===== *)
theory Synchronizer
  imports Block_Processor
begin

text \<open>
  \<open>Synchronizer\<close> of \<open>packages/core/src/node/synchronizer.ts\<close>: what the events of the first layer write into
  the tables of a node, how the calldata of proposals is fetched, and the status a node announces. The
  block cache delays a write until it is confirmed and hands it to the database as it is, see
  \<open>Block_Cache\<close>; here a handler is the write it stands for.
\<close>

section \<open>Events\<close>

text \<open>Where an event was logged, and the values it returns.\<close>

record event_log =
  ev_blockNumber :: nat
  ev_transactionHash :: string
  ev_transactionIndex :: nat
  ev_logIndex :: nat

record deposit_utxo =
  du_spendingPubKey :: int
  du_salt :: int
  du_eth :: int
  du_token :: "160 word"
  du_amount :: int
  du_nft :: int

datatype l1_event =
    Ev_GenesisBlock (gb_hash: "256 word") (gb_proposer: "160 word") (gb_parent: "256 word")
  | Ev_NewErc20 string
  | Ev_NewErc721 string
  | Ev_Deposit (ed_note: "256 word") (ed_fee: "256 word") (ed_queuedAt: "256 word")
  | Ev_DepositUtxo deposit_utxo
  | Ev_MassDepositCommit (em_index: "256 word") (em_merged: "256 word") (em_fee: "256 word")
  | Ev_NewProposal (en_num: nat) (en_hash: "256 word")
  | Ev_Slash (es_hash: "256 word") (es_proposer: "160 word") (es_reason: string)
  | Ev_Finalized "256 word"

text \<open>
  What the handlers ask for: the time of a block of the first layer, the sender of a transaction (an
  error when it cannot be loaded), the depths of the trees, the hashes, and the tracked addresses.
\<close>

record sync_lib =
  sy_timestamp :: "nat \<Rightarrow> nat"
  sy_sender :: "string \<Rightarrow> string result"
  sy_config :: chain_config
  sy_poseidon :: "int list \<Rightarrow> int"
  sy_soliditySha3 :: "int \<Rightarrow> int \<Rightarrow> int option"
  sy_addresses :: "zk_address list"

section \<open>The genesis block\<close>

text \<open>\<open>packages/core/src/block/genesis.ts\<close>.\<close>

definition genesis :: "sync_lib \<Rightarrow> 160 word \<Rightarrow> 256 word \<Rightarrow> header" where
  "genesis S address parent =
     (let config = sy_config S;
          utxoHasher = poseidonHasher (sy_poseidon S) (cf_utxoTreeDepth config);
          withdrawalHasher = keccakHasher (sy_soliditySha3 S) (cf_withdrawalTreeDepth config);
          nullifierHasher = keccakHasher (sy_soliditySha3 S) (cf_nullifierTreeDepth config) in
      \<lparr>proposer = address, parentBlock = parent, hd_fee = 0,
       utxoRoot = fp_word (genesisRoot utxoHasher), utxoIndex = 0,
       nullifierRoot = word_of_int (genesisRoot nullifierHasher),
       withdrawalRoot = word_of_int (genesisRoot withdrawalHasher), withdrawalIndex = 0,
       txRoot = 0, depositRoot = 0, migrationRoot = 0\<rparr>)"

text \<open>A row with nothing but its hash, as the columns that a saved object leaves out.\<close>

definition empty_proposal :: "256 word \<Rightarrow> proposal_row" where
  "empty_proposal h =
     \<lparr>pp_hash = h, pp_proposalNum = None, pp_canonicalNum = None, pp_proposalData = None, pp_verified = None,
      pp_finalized = None, pp_isUncle = None, pp_proposedAt = None, pp_proposalTx = None, pp_timestamp = None\<rparr>"

definition genesis_proposal :: "sync_lib \<Rightarrow> event_log \<Rightarrow> 256 word \<Rightarrow> proposal_row" where
  "genesis_proposal S ev h = (empty_proposal h)
     \<lparr>pp_proposalNum := Some 0, pp_canonicalNum := Some 0, pp_proposedAt := Some (ev_blockNumber ev),
      pp_proposalTx := Some (ev_transactionHash ev), pp_finalized := Some True, pp_verified := Some True,
      pp_proposalData := Some [], pp_timestamp := Some (sy_timestamp S (ev_blockNumber ev))\<rparr>"

text \<open>The three rows are created one after another; an error leaves those before it.\<close>

definition on_genesis :: "l2_lib \<Rightarrow> sync_lib \<Rightarrow> event_log \<Rightarrow> 256 word \<Rightarrow> 160 word \<Rightarrow> 256 word \<Rightarrow> l2_db \<Rightarrow> l2_db \<times> unit result" where
  "on_genesis L S ev blockHash address parent db =
     (let genesisHeader = genesis S address parent in
      if blockHash \<noteq> headerHash (lib_keccak L) genesisHeader then (db, Throw ''Failed to set up the genesis block'')
      else
        create_row (blockHash \<in> pp_hash ` set (l2_Proposal db)) db
          (db\<lparr>l2_Proposal := l2_Proposal db @ [genesis_proposal S ev blockHash]\<rparr>)
        (\<lambda>db. create_row (blockHash \<in> set (l2_Block db)) db (db\<lparr>l2_Block := l2_Block db @ [blockHash]\<rparr>)
        (\<lambda>db. create_row (blockHash \<in> fst ` set (l2_Header db)) db
          (db\<lparr>l2_Header := l2_Header db @ [(blockHash, genesisHeader)]\<rparr>) (\<lambda>db. (db, Ok ())))))"

section \<open>Tokens, deposits and mass deposits\<close>

definition token_row_of :: "l2_lib \<Rightarrow> bool \<Rightarrow> string \<Rightarrow> event_log \<Rightarrow> token_row" where
  "token_row_of L erc20 tokenAddr ev =
     \<lparr>tk_address = tokenAddr, tk_isERC20 = erc20, tk_isERC721 = (\<not> erc20), tk_blockNumber = ev_blockNumber ev,
      tk_identifier = nat (lib_addr_of L tokenAddr mod 256)\<rparr>"

definition on_token :: "l2_lib \<Rightarrow> bool \<Rightarrow> string \<Rightarrow> event_log \<Rightarrow> l2_db \<Rightarrow> l2_db" where
  "on_token L erc20 tokenAddr ev db =
     (let row = token_row_of L erc20 tokenAddr ev in
      db\<lparr>l2_TokenRegistry :=
        upsert_row (\<lambda>r. tk_address r = tokenAddr) (\<lambda>_. row) row (l2_TokenRegistry db)\<rparr>)"

definition deposit_of :: "256 word \<Rightarrow> 256 word \<Rightarrow> 256 word \<Rightarrow> event_log \<Rightarrow> deposit_row" where
  "deposit_of note fee queuedAt ev =
     \<lparr>dp_note = uint note, dp_fee = uint fee, dp_queuedAt = unat queuedAt, dp_blockNumber = ev_blockNumber ev,
      dp_transactionIndex = ev_transactionIndex ev, dp_logIndex = ev_logIndex ev, dp_includedIn = None,
      dp_ownerAddress = None, dp_from = None\<rparr>"

definition set_deposit :: "deposit_row \<Rightarrow> deposit_row \<Rightarrow> deposit_row" where
  "set_deposit new r =
     new\<lparr>dp_includedIn := dp_includedIn r, dp_ownerAddress := dp_ownerAddress r, dp_from := dp_from r\<rparr>"

definition on_deposit :: "256 word \<Rightarrow> 256 word \<Rightarrow> 256 word \<Rightarrow> event_log \<Rightarrow> l2_db \<Rightarrow> l2_db" where
  "on_deposit note fee queuedAt ev db =
     (let deposit = deposit_of note fee queuedAt ev in
      db\<lparr>l2_Deposit := upsert_row (\<lambda>r. dp_note r = uint note) (set_deposit deposit) deposit (l2_Deposit db),
         l2_PendingDeposit := filter (\<lambda>n. n \<noteq> uint note) (l2_PendingDeposit db)\<rparr>)"

definition mass_deposit_of :: "256 word \<Rightarrow> 256 word \<Rightarrow> 256 word \<Rightarrow> event_log \<Rightarrow> mass_deposit_row" where
  "mass_deposit_of index merged fee ev =
     \<lparr>mdr_index = unat index, mdr_merged = merged, mdr_fee = fee, mdr_blockNumber = ev_blockNumber ev,
      mdr_includedIn = None\<rparr>"

text \<open>Nothing is updated of a mass deposit that is known.\<close>

definition on_massDeposit :: "256 word \<Rightarrow> 256 word \<Rightarrow> 256 word \<Rightarrow> event_log \<Rightarrow> l2_db \<Rightarrow> l2_db" where
  "on_massDeposit index merged fee ev db =
     db\<lparr>l2_MassDeposit := upsert_row (\<lambda>r. mdr_index r = unat index) (\<lambda>r. r)
       (mass_deposit_of index merged fee ev) (l2_MassDeposit db)\<rparr>"

text \<open>
  The note of a deposit to a tracked address. The owner and the sender are added to the row of the
  deposit if there is one.
\<close>

definition deposit_note :: "zk_address \<Rightarrow> deposit_utxo \<Rightarrow> zk_address zk_note" where
  "deposit_note addr d =
     \<lparr>owner = addr, salt = fp_new (du_salt d),
      asset_of = \<lparr>as_eth = fp_new (du_eth d), as_tokenAddr = fp_new (uint (du_token d)),
        as_erc20Amount = fp_new (du_amount d), as_nft = fp_new (du_nft d)\<rparr>,
      note_class = Utxo_class, status = NON_INCLUDED\<rparr>"

definition deposit_utxo_row :: "sync_lib \<Rightarrow> zk_address zk_note \<Rightarrow> event_log \<Rightarrow> utxo_doc" where
  "deposit_utxo_row S n ev =
     \<lparr>ur_hash = note_hash (sy_poseidon S) PubSK n, ur_owner = address_text (owner n), ur_index = None, ur_treeId = None,
      ud_eth = Some (eth_of n), ud_salt = Some (salt n), ud_tokenAddr = Some (tokenAddr_of n),
      ud_erc20Amount = Some (erc20_of n), ud_nft = Some (nft_of n), ud_status = None, ud_nullifier = None,
      ud_usedAt = None, ud_depositedAt = Some (ev_blockNumber ev)\<rparr>"

definition set_deposit_utxo :: "utxo_doc \<Rightarrow> utxo_doc \<Rightarrow> utxo_doc" where
  "set_deposit_utxo new r =
     new\<lparr>ur_index := ur_index r, ur_treeId := ur_treeId r, ud_status := ud_status r,
       ud_nullifier := ud_nullifier r, ud_usedAt := ud_usedAt r\<rparr>"

definition on_depositUtxo :: "sync_lib \<Rightarrow> deposit_utxo \<Rightarrow> event_log \<Rightarrow> l2_db \<Rightarrow> l2_db" where
  "on_depositUtxo S d ev db =
     (case find (\<lambda>a. fp_new (du_spendingPubKey d) = PubSK a) (sy_addresses S) of
        None \<Rightarrow> db
      | Some addr \<Rightarrow>
          let n = deposit_note addr d; utxo = deposit_utxo_row S n ev; sender = sy_sender S (ev_transactionHash ev) in
          db\<lparr>l2_Utxo := upsert_row (\<lambda>r. ur_hash r = ur_hash utxo) (set_deposit_utxo utxo) utxo (l2_Utxo db),
             l2_Deposit := update_rows (\<lambda>r. dp_note r = ur_hash utxo)
               (\<lambda>r. r\<lparr>dp_ownerAddress := Some (address_text addr),
                  dp_from := (case sender of Inl _ \<Rightarrow> dp_from r | Inr tx_from \<Rightarrow> Some tx_from)\<rparr>) (l2_Deposit db)\<rparr>)"

section \<open>Proposals\<close>

definition set_proposed :: "sync_lib \<Rightarrow> nat \<Rightarrow> event_log \<Rightarrow> proposal_row \<Rightarrow> proposal_row" where
  "set_proposed S num ev r =
     r\<lparr>pp_proposalNum := Some num, pp_proposedAt := Some (ev_blockNumber ev),
       pp_proposalTx := Some (ev_transactionHash ev), pp_timestamp := Some (sy_timestamp S (ev_blockNumber ev))\<rparr>"

definition upsert_proposal :: "256 word \<Rightarrow> (proposal_row \<Rightarrow> proposal_row) \<Rightarrow> l2_db \<Rightarrow> l2_db" where
  "upsert_proposal h f db =
     db\<lparr>l2_Proposal := upsert_row (\<lambda>r. pp_hash r = h) f (f (empty_proposal h)) (l2_Proposal db)\<rparr>"

definition on_proposal :: "sync_lib \<Rightarrow> nat \<Rightarrow> 256 word \<Rightarrow> event_log \<Rightarrow> l2_db \<Rightarrow> l2_db" where
  "on_proposal S num blockHash ev = upsert_proposal blockHash (set_proposed S num ev)"

definition on_finalized :: "256 word \<Rightarrow> l2_db \<Rightarrow> l2_db" where
  "on_finalized blockHash = upsert_proposal blockHash (\<lambda>r. r\<lparr>pp_finalized := Some True\<rparr>)"

text \<open>A slash also marks the transactions of the block that are saved by then.\<close>

definition slash_of :: "l2_lib \<Rightarrow> 256 word \<Rightarrow> 160 word \<Rightarrow> string \<Rightarrow> event_log \<Rightarrow> slash_row" where
  "slash_of L blockHash address why ev =
     \<lparr>sl_hash = blockHash, sl_proposer = lib_addr_str L (uint address), sl_reason = why,
      sl_executionTx = ev_transactionHash ev, sl_slashedAt = ev_blockNumber ev\<rparr>"

definition on_slash :: "l2_lib \<Rightarrow> 256 word \<Rightarrow> 160 word \<Rightarrow> string \<Rightarrow> event_log \<Rightarrow> l2_db \<Rightarrow> l2_db" where
  "on_slash L blockHash address why ev db =
     (let row = slash_of L blockHash address why ev in
      db\<lparr>l2_Slash := upsert_row (\<lambda>r. sl_hash r = blockHash) (\<lambda>_. row) row (l2_Slash db),
         l2_Tx := update_rows (\<lambda>r. td_blockHash r = blockHash) (\<lambda>r. r\<lparr>td_slashed := True\<rparr>) (l2_Tx db)\<rparr>)"

text \<open>The handler of an event; only that of the genesis block can fail.\<close>

fun on_event :: "l2_lib \<Rightarrow> sync_lib \<Rightarrow> event_log \<times> l1_event \<Rightarrow> l2_db \<Rightarrow> l2_db" where
  "on_event L S (ev, Ev_GenesisBlock h address parent) db = fst (on_genesis L S ev h address parent db)"
| "on_event L S (ev, Ev_NewErc20 a) db = on_token L True a ev db"
| "on_event L S (ev, Ev_NewErc721 a) db = on_token L False a ev db"
| "on_event L S (ev, Ev_Deposit note fee queuedAt) db = on_deposit note fee queuedAt ev db"
| "on_event L S (ev, Ev_DepositUtxo d) db = on_depositUtxo S d ev db"
| "on_event L S (ev, Ev_MassDepositCommit index merged fee) db = on_massDeposit index merged fee ev db"
| "on_event L S (ev, Ev_NewProposal num h) db = on_proposal S num h ev db"
| "on_event L S (ev, Ev_Slash h address why) db = on_slash L h address why ev db"
| "on_event L S (ev, Ev_Finalized h) db = on_finalized h db"

section \<open>Where a listener starts\<close>

text \<open>
  The block of the latest row, zero without one. The rows of notes have no column \<open>blockNumber\<close>, so that
  the listener of deposit details always starts at zero; both token listeners share their start.
\<close>

definition from_block :: "('r \<Rightarrow> nat option) \<Rightarrow> 'r list \<Rightarrow> nat" where
  "from_block col rows =
     (case first_row (order_desc col rows) of
        None \<Rightarrow> 0
      | Some r \<Rightarrow> (case col r of None \<Rightarrow> 0 | Some n \<Rightarrow> n))"

definition tokens_from :: "l2_db \<Rightarrow> nat" where
  "tokens_from db = from_block (\<lambda>r. Some (tk_blockNumber r)) (l2_TokenRegistry db)"

definition deposits_from :: "l2_db \<Rightarrow> nat" where
  "deposits_from db = from_block (\<lambda>r. Some (dp_blockNumber r)) (l2_Deposit db)"

definition depositUtxos_from :: "l2_db \<Rightarrow> nat" where
  "depositUtxos_from db = 0"

definition massDeposits_from :: "l2_db \<Rightarrow> nat" where
  "massDeposits_from db = from_block (\<lambda>r. Some (mdr_blockNumber r)) (l2_MassDeposit db)"

definition proposals_from :: "l2_db \<Rightarrow> nat" where
  "proposals_from db = from_block pp_proposedAt (l2_Proposal db)"

definition slashes_from :: "l2_db \<Rightarrow> nat" where
  "slashes_from db = from_block (\<lambda>r. Some (sl_slashedAt r)) (l2_Slash db)"

definition finalized_from :: "l2_db \<Rightarrow> nat" where
  "finalized_from db = from_block pp_proposedAt (filter (\<lambda>r. pp_finalized r = Some True) (l2_Proposal db))"

section \<open>The state of a synchronizer\<close>

datatype network_status = STOPPED | ON_SYNCING | ON_FETCHED | ON_PROCESSING | SYNCED | FULLY_SYNCED | ON_ERROR

datatype sync_emission = Status_event network_status | Fetched_event block

text \<open>
  A call of \<open>fetch\<close> awaits the transaction of the proposal and then three writes; between them other code
  runs. \<open>ss_flights\<close> holds the calls in progress, \<open>ss_fetching\<close> the keys of the object \<open>fetching\<close>.
\<close>

datatype fetch_stage =
    Asked
  | Fetched block string
  | Block_saved block string
  | Header_saved block string

record sync_state =
  ss_status :: network_status
  ss_latestProcessed :: "nat option"
  ss_isListening :: bool
  ss_fetching :: "string list"
  ss_flights :: "(string \<times> fetch_stage) list"
  ss_emitted :: "sync_emission list"

definition new_Synchronizer :: sync_state where
  "new_Synchronizer =
     \<lparr>ss_status = STOPPED, ss_latestProcessed = None, ss_isListening = False, ss_fetching = [], ss_flights = [],
      ss_emitted = []\<rparr>"

definition setStatus :: "network_status \<Rightarrow> sync_state \<Rightarrow> sync_state" where
  "setStatus st s =
     (if ss_status s \<noteq> st then s\<lparr>ss_status := st, ss_emitted := ss_emitted s @ [Status_event st]\<rparr> else s)"

definition sync_start :: "sync_state \<Rightarrow> sync_state" where
  "sync_start s = (setStatus ON_SYNCING s)\<lparr>ss_isListening := True\<rparr>"

definition sync_stop :: "sync_state \<Rightarrow> sync_state" where
  "sync_stop s = (setStatus STOPPED s)\<lparr>ss_isListening := False\<rparr>"

definition isSynced :: "sync_state \<Rightarrow> bool" where
  "isSynced s \<longleftrightarrow> ss_status s = FULLY_SYNCED"

definition processed_num :: "sync_state \<Rightarrow> nat" where
  "processed_num s = (case ss_latestProcessed s of None \<Rightarrow> 0 | Some n \<Rightarrow> n)"

text \<open>\<open>proposed\<close> is the answer of \<open>proposedBlocks\<close>; the numbers start at zero.\<close>

definition updateStatus :: "256 word \<Rightarrow> l2_db \<Rightarrow> sync_state \<Rightarrow> sync_state" where
  "updateStatus proposed db s =
     (let unfetched = length (filter (\<lambda>r. pp_proposalData r = None) (l2_Proposal db));
          unprocessed = length (filter (\<lambda>r. pp_verified r = None \<and> pp_isUncle r = None) (l2_Proposal db)) in
      if unfetched \<noteq> 0 then setStatus ON_SYNCING s
      else if unprocessed \<noteq> 0 then setStatus ON_PROCESSING s
      else
        let layer1ProposedBlocks = uint proposed - 1 in
        if layer1ProposedBlocks = int (processed_num s) then setStatus FULLY_SYNCED s
        else if layer1ProposedBlocks < int (processed_num s + 2) then setStatus SYNCED s
        else setStatus ON_SYNCING s)"

definition setLatestProcessed :: "nat \<Rightarrow> sync_state \<Rightarrow> sync_state" where
  "setLatestProcessed proposalNum s =
     (if processed_num s < proposalNum then s\<lparr>ss_latestProcessed := Some proposalNum\<rparr> else s)"

section \<open>Fetching proposals\<close>

definition fetch_candidates :: "sync_state \<Rightarrow> l2_db \<Rightarrow> string list" where
  "fetch_candidates s db =
     (let availableFetchJob = 10 - length (ss_fetching s) in
      map (\<lambda>r. the (pp_proposalTx r)) (take availableFetchJob (order_asc pp_proposalNum
        (filter (\<lambda>r. pp_proposalData r = None \<and> pp_proposalTx r \<noteq> None) (l2_Proposal db)))))"

text \<open>The calls up to the first await; an empty hash fails the assertion and ends the round.\<close>

definition fetch_start :: "string \<Rightarrow> sync_state \<Rightarrow> sync_state" where
  "fetch_start tx s =
     (if tx \<in> set (ss_fetching s) then s else s\<lparr>ss_flights := ss_flights s @ [(tx, Asked)]\<rparr>)"

definition fetchUnfetchedProposals :: "l2_db \<Rightarrow> sync_state \<Rightarrow> sync_state" where
  "fetchUnfetchedProposals db s = fold fetch_start (takeWhile (\<lambda>tx. tx \<noteq> []) (fetch_candidates s db)) s"

definition end_flight :: "nat \<Rightarrow> sync_state \<Rightarrow> sync_state" where
  "end_flight i s = s\<lparr>ss_flights := take i (ss_flights s) @ drop (Suc i) (ss_flights s)\<rparr>"

definition set_stage :: "nat \<Rightarrow> fetch_stage \<Rightarrow> sync_state \<Rightarrow> sync_state" where
  "set_stage i st s = s\<lparr>ss_flights := (ss_flights s)[i := (fst (ss_flights s ! i), st)]\<rparr>"

text \<open>
  The next part of the call \<open>i\<close>. \<open>answer\<close> is the transaction, as the text that \<open>JSON.stringify\<close> writes of it,
  or nothing while it is not in a block. When its calldata is no block the call throws; the key stays.
\<close>

definition fetch_continue :: "l2_lib \<Rightarrow> string option \<Rightarrow> nat \<Rightarrow> sync_state \<times> l2_db \<Rightarrow> sync_state \<times> l2_db" where
  "fetch_continue L answer i = (\<lambda>(s, db).
     (case ss_flights s ! i of (tx, stage) \<Rightarrow>
        (case stage of
           Asked \<Rightarrow>
             (case answer of
                None \<Rightarrow> (end_flight i s, db)
              | Some data \<Rightarrow>
                  let s = s\<lparr>ss_fetching := List.insert tx (ss_fetching s)\<rparr> in
                  (case stored_block L data None of
                     Inl _ \<Rightarrow> (end_flight i s, db)
                   | Inr b \<Rightarrow> (set_stage i (Fetched b data) s, db)))
         | Fetched b data \<Rightarrow>
             (set_stage i (Block_saved b data) s, db\<lparr>l2_Block := upsert_row (\<lambda>h. h = bl_hash b) (\<lambda>h. h) (bl_hash b) (l2_Block db)\<rparr>)
         | Block_saved b data \<Rightarrow>
             (set_stage i (Header_saved b data) s,
              db\<lparr>l2_Header := upsert_row (\<lambda>x. fst x = bl_hash b) (\<lambda>_. (bl_hash b, bl_header b))
                (bl_hash b, bl_header b) (l2_Header db)\<rparr>)
         | Header_saved b data \<Rightarrow>
             (end_flight i (s\<lparr>ss_fetching := removeAll tx (ss_fetching s),
                ss_emitted := ss_emitted s @ [Fetched_event b]\<rparr>),
              db\<lparr>l2_Proposal := update_rows (\<lambda>r. pp_hash r = bl_hash b) (\<lambda>r. r\<lparr>pp_proposalData := Some data\<rparr>)
                (l2_Proposal db)\<rparr>))))"

section \<open>The node\<close>

text \<open>
  The synchronizer and the block processor over the same tables. Events, status updates, rounds of
  fetching, answers and rounds of the processor come in any order; the events the processor emits go to
  \<open>setLatestProcessed\<close>.
\<close>

record full_node =
  fn_sync :: sync_state
  fn_processor :: processor

definition with_tables :: "l2_db \<Rightarrow> full_node \<Rightarrow> full_node" where
  "with_tables db n =
     n\<lparr>fn_processor := (fn_processor n)\<lparr>pc_node := set_dbs (db, nd_trees (pc_node (fn_processor n))) (pc_node (fn_processor n))\<rparr>\<rparr>"

abbreviation fn_db :: "full_node \<Rightarrow> l2_db" where
  "fn_db n \<equiv> pc_db (fn_processor n)"

abbreviation fn_lib :: "full_node \<Rightarrow> l2_lib" where
  "fn_lib n \<equiv> pc_lib (fn_processor n)"

definition announced :: "processor_event list \<Rightarrow> sync_state \<Rightarrow> sync_state" where
  "announced es s =
     fold (\<lambda>e. case e of Processed_event num _ \<Rightarrow> setLatestProcessed num | Slash_event _ _ \<Rightarrow> id) es s"

inductive node_step :: "processor_lib \<Rightarrow> sync_lib \<Rightarrow> block_validator \<Rightarrow> full_node \<Rightarrow> full_node \<Rightarrow> bool" for P S validate where
  l1_event: "node_step P S validate n (with_tables (on_event (fn_lib n) S e (fn_db n)) n)"
| status: "node_step P S validate n (n\<lparr>fn_sync := updateStatus proposed (fn_db n) (fn_sync n)\<rparr>)"
| fetch_round: "node_step P S validate n (n\<lparr>fn_sync := fetchUnfetchedProposals (fn_db n) (fn_sync n)\<rparr>)"
| fetch_part: "i < length (ss_flights (fn_sync n)) \<Longrightarrow> fetch_continue (fn_lib n) answer i (fn_sync n, fn_db n) = (s, db) \<Longrightarrow>
    node_step P S validate n (with_tables db (n\<lparr>fn_sync := s\<rparr>))"
| processor_round: "process_round P validate (fn_processor n) = (p, goes_on) \<Longrightarrow>
    node_step P S validate n
      (n\<lparr>fn_processor := p, fn_sync := announced (drop (length (pc_events (fn_processor n))) (pc_events p)) (fn_sync n)\<rparr>)"

inductive node_reaches :: "processor_lib \<Rightarrow> sync_lib \<Rightarrow> block_validator \<Rightarrow> full_node \<Rightarrow> full_node \<Rightarrow> bool" for P S validate where
  here: "node_reaches P S validate n n"
| further: "node_reaches P S validate n n' \<Longrightarrow> node_step P S validate n' n'' \<Longrightarrow> node_reaches P S validate n n''"

inductive_cases node_stepE: "node_step P S validate n n'"

end
