(* ===== verification/Sync_Proofs.thy ===== *)
theory Sync_Proofs
  imports Synchronizer Processor_Forks
begin

text \<open>
  The synchronizer keeps the tables consistent: whatever events arrive, however the parts of fetches and
  the rounds of the block processor interleave, the stored calldata of a proposal is the block of its row.
\<close>

section \<open>Upserts\<close>

lemma upsert_row_cases:
  "r \<in> set (upsert_row same f new rows) \<Longrightarrow> r = new \<or> r \<in> set rows \<or> (\<exists>s\<in>set rows. same s \<and> r = f s)"
  by (auto simp: upsert_row_def update_rows_def split: if_splits)

lemma map_of_upsert_pair:
  "map_of (upsert_row (\<lambda>x. fst x = k) (\<lambda>_. (k, v)) (k, v) rows) = (map_of rows)(k \<mapsto> v)"
proof -
  have *: "map_of (map (\<lambda>x. if fst x = k then (k, v) else x) rows) =
      (if list_ex (\<lambda>x. fst x = k) rows then (map_of rows)(k \<mapsto> v) else map_of rows)"
    by (induction rows) (auto simp: fun_eq_iff list_ex_iff)
  have "map_of rows k = None" if "\<not> list_ex (\<lambda>x. fst x = k) rows"
    using that by (auto simp: list_ex_iff map_of_eq_None_iff)
  then show ?thesis by (auto simp: upsert_row_def update_rows_def * fun_eq_iff map_add_def split: option.splits)
qed

section \<open>What the tables say of fetched proposals\<close>

text \<open>No two of the given texts decode to blocks with one hash and different headers: a collision of the hash function.\<close>

definition no_collisions :: "l2_lib \<Rightarrow> string set \<Rightarrow> bool" where
  "no_collisions L D \<longleftrightarrow> (\<forall>d\<in>D. \<forall>d'\<in>D. \<forall>b b'. stored_block L d None = Ok b \<longrightarrow> stored_block L d' None = Ok b' \<longrightarrow>
     bl_hash b = bl_hash b' \<longrightarrow> bl_header b = bl_header b')"

lemma no_collisions_subset: "no_collisions L D \<Longrightarrow> D' \<subseteq> D \<Longrightarrow> no_collisions L D'"
  unfolding no_collisions_def by (meson subsetD)

text \<open>The texts that the calls in progress hold, and those of a history.\<close>

fun stage_texts :: "fetch_stage \<Rightarrow> string set" where
  "stage_texts Asked = {}"
| "stage_texts (Fetched b d) = {d}"
| "stage_texts (Block_saved b d) = {d}"
| "stage_texts (Header_saved b d) = {d}"

definition held_texts :: "sync_state \<Rightarrow> string set" where
  "held_texts s = (\<Union>f\<in>set (ss_flights s). stage_texts (snd f))"

text \<open>Histories as \<open>node_reaches\<close> has them, with the set of the texts fetched in them.\<close>

inductive node_runs :: "processor_lib \<Rightarrow> sync_lib \<Rightarrow> block_validator \<Rightarrow> full_node \<Rightarrow> string set \<Rightarrow> full_node \<Rightarrow> bool"
  for P S validate n where
  start: "node_runs P S validate n (held_texts (fn_sync n)) n"
| step: "node_runs P S validate n D n' \<Longrightarrow> node_step P S validate n' n'' \<Longrightarrow>
    node_runs P S validate n (D \<union> held_texts (fn_sync n'')) n''"

lemma node_runs_reaches: "(\<exists>D. node_runs P S validate n D n') \<longleftrightarrow> node_reaches P S validate n n'"
proof
  assume "\<exists>D. node_runs P S validate n D n'"
  then obtain D where "node_runs P S validate n D n'" ..
  then show "node_reaches P S validate n n'"
    by (induction rule: node_runs.induct) (auto intro: node_reaches.intros)
next
  assume "node_reaches P S validate n n'"
  then show "\<exists>D. node_runs P S validate n D n'"
    by (induction rule: node_reaches.induct) (blast intro: node_runs.intros)+
qed

text \<open>The calldata that the rows of proposals hold.\<close>

definition calldata_of :: "proposal_row list \<Rightarrow> (256 word \<times> string) set" where
  "calldata_of rows = {(pp_hash r, d) | r d. r \<in> set rows \<and> pp_proposalData r = Some d \<and> d \<noteq> []}"

lemma calldata_of_map:
  "(\<And>r. pp_hash (f r) = pp_hash r \<and> pp_proposalData (f r) = pp_proposalData r) \<Longrightarrow> calldata_of (map f rows) = calldata_of rows"
  unfolding calldata_of_def by (auto simp: image_iff) metis+

text \<open>Stored calldata was fetched and is a block.\<close>

definition texts_ok :: "l2_lib \<Rightarrow> string set \<Rightarrow> proposal_row list \<Rightarrow> bool" where
  "texts_ok L D rows \<longleftrightarrow> (\<forall>x\<in>calldata_of rows. snd x \<in> D \<and> (\<exists>b. stored_block L (snd x) None = Ok b))"

lemma texts_ok_subset: "texts_ok L D rows \<Longrightarrow> calldata_of rows' \<subseteq> calldata_of rows \<Longrightarrow> D \<subseteq> D' \<Longrightarrow> texts_ok L D' rows'"
  unfolding texts_ok_def by blast

lemma texts_okD:
  "texts_ok L D rows \<Longrightarrow> r \<in> set rows \<Longrightarrow> pp_proposalData r = Some d \<Longrightarrow> d \<noteq> [] \<Longrightarrow> d \<in> D \<and> (\<exists>b. stored_block L d None = Ok b)"
  unfolding texts_ok_def calldata_of_def by force

fun flight_ok :: "l2_lib \<Rightarrow> l2_db \<Rightarrow> string \<times> fetch_stage \<Rightarrow> bool" where
  "flight_ok L db (tx, Asked) = True"
| "flight_ok L db (tx, Fetched b d) = (stored_block L d None = Ok b)"
| "flight_ok L db (tx, Block_saved b d) = (stored_block L d None = Ok b)"
| "flight_ok L db (tx, Header_saved b d) =
     (stored_block L d None = Ok b \<and> map_of (l2_Header db) (bl_hash b) = Some (bl_header b))"

definition flights_ok :: "l2_lib \<Rightarrow> l2_db \<Rightarrow> sync_state \<Rightarrow> bool" where
  "flights_ok L db s \<longleftrightarrow> (\<forall>f\<in>set (ss_flights s). flight_ok L db f)"

lemma flight_ok_headers:
  assumes "flight_ok L db f"
    and "\<And>b d. d \<in> stage_texts (snd f) \<Longrightarrow> stored_block L d None = Ok b \<Longrightarrow>
      map_of (l2_Header db) (bl_hash b) = Some (bl_header b) \<Longrightarrow> map_of (l2_Header db') (bl_hash b) = Some (bl_header b)"
  shows "flight_ok L db' f"
  using assms by (cases "(L, db, f)" rule: flight_ok.cases) auto

lemma flights_ok_same: "l2_Header db' = l2_Header db \<Longrightarrow> flights_ok L db' s = flights_ok L db s"
  unfolding flights_ok_def by (auto intro: flight_ok_headers [where db = db] flight_ok_headers [where db = db'])

text \<open>Tables in which no header is lost and every row has the calldata of an old row, or none that is a block.\<close>

lemma rows_consistent_keep:
  assumes "rows_consistent L db"
    and rows: "\<And>r. r \<in> set (l2_Proposal db') \<Longrightarrow>
      (\<exists>r0\<in>set (l2_Proposal db). pp_hash r0 = pp_hash r \<and> pp_proposalData r0 = pp_proposalData r) \<or>
      (\<forall>d. pp_proposalData r = Some d \<longrightarrow> (\<forall>b. stored_block L d None \<noteq> Ok b))"
    and headers: "\<And>r b d. r \<in> set (l2_Proposal db) \<Longrightarrow> pp_proposalData r = Some d \<Longrightarrow> stored_block L d None = Ok b \<Longrightarrow>
      map_of (l2_Header db) (bl_hash b) = Some (bl_header b) \<Longrightarrow> map_of (l2_Header db') (bl_hash b) = Some (bl_header b)"
  shows "rows_consistent L db'"
  unfolding rows_consistent_def
proof (intro ballI allI impI)
  fix r d b
  assume r: "r \<in> set (l2_Proposal db')" "pp_proposalData r = Some d" "stored_block L d None = Ok b"
  with rows [OF r(1)] obtain r0 where r0: "r0 \<in> set (l2_Proposal db)" "pp_hash r0 = pp_hash r"
    "pp_proposalData r0 = Some d" by fastforce
  with assms(1) r(3) have "bl_hash b = pp_hash r0" "map_of (l2_Header db) (pp_hash r0) = Some (bl_header b)"
    by (auto simp: rows_consistent_def)
  with headers [OF r0(1,3) r(3)] r0(2) show "bl_hash b = pp_hash r \<and> map_of (l2_Header db') (pp_hash r) = Some (bl_header b)"
    by simp
qed

section \<open>Events\<close>

lemma on_event_headers:
  assumes "map_of (l2_Header db) h = Some x"
  shows "map_of (l2_Header (on_event L S e db)) h = Some x"
proof (cases e)
  case (Pair ev k)
  show ?thesis
    using assms unfolding Pair
    by (cases k) (auto simp: on_genesis_def create_row_def Let_def on_token_def on_deposit_def on_depositUtxo_def
        on_massDeposit_def on_proposal_def on_finalized_def upsert_proposal_def on_slash_def map_add_def split: option.splits)
qed

lemma upsert_proposal_rows:
  assumes "r \<in> set (l2_Proposal (upsert_proposal h f db))" and "\<And>r. pp_hash (f r) = pp_hash r \<and> pp_proposalData (f r) = pp_proposalData r"
  shows "(\<exists>r0\<in>set (l2_Proposal db). pp_hash r0 = pp_hash r \<and> pp_proposalData r0 = pp_proposalData r) \<or> pp_proposalData r = None"
  using upsert_row_cases [of r "\<lambda>r. pp_hash r = h" f "f (empty_proposal h)" "l2_Proposal db"] assms
  by (auto simp: upsert_proposal_def empty_proposal_def)

lemma on_event_rows:
  assumes "r \<in> set (l2_Proposal (on_event L S e db))"
  shows "(\<exists>r0\<in>set (l2_Proposal db). pp_hash r0 = pp_hash r \<and> pp_proposalData r0 = pp_proposalData r) \<or>
    pp_proposalData r = None \<or> pp_proposalData r = Some []"
proof (cases e)
  case (Pair ev k)
  show ?thesis
  proof (cases k)
    case (Ev_NewProposal num h)
    from upsert_proposal_rows [of r h "set_proposed S num ev" db] assms show ?thesis
      by (auto simp: Pair Ev_NewProposal on_proposal_def set_proposed_def)
  next
    case (Ev_Finalized h)
    from upsert_proposal_rows [of r h "\<lambda>r. r\<lparr>pp_finalized := Some True\<rparr>" db] assms show ?thesis
      by (auto simp: Pair Ev_Finalized on_finalized_def)
  qed (use assms in \<open>auto simp: Pair on_genesis_def create_row_def Let_def on_token_def on_deposit_def on_depositUtxo_def
      on_massDeposit_def on_slash_def genesis_proposal_def split: option.splits if_splits\<close>)
qed

lemma on_event_consistent:
  assumes "rows_consistent L db" and "\<And>b. stored_block L [] None \<noteq> Ok b"
  shows "rows_consistent L (on_event L S e db)"
proof (rule rows_consistent_keep [OF assms(1)])
  fix r assume "r \<in> set (l2_Proposal (on_event L S e db))"
  from on_event_rows [OF this] assms(2)
  show "(\<exists>r0\<in>set (l2_Proposal db). pp_hash r0 = pp_hash r \<and> pp_proposalData r0 = pp_proposalData r) \<or>
      (\<forall>d. pp_proposalData r = Some d \<longrightarrow> (\<forall>b. stored_block L d None \<noteq> Ok b))" by auto
qed (rule on_event_headers)

section \<open>Fetches\<close>

lemma fetch_start_flights:
  "flights_ok L db (fold fetch_start txs s) = flights_ok L db s"
  by (induction txs arbitrary: s) (auto simp: fetch_start_def flights_ok_def)

lemma end_flight_ok: "flights_ok L db s \<Longrightarrow> flights_ok L db (end_flight i s)"
  by (auto simp: flights_ok_def end_flight_def dest: in_set_takeD in_set_dropD)

lemma set_stage_ok:
  "flights_ok L db s \<Longrightarrow> flight_ok L db (fst (ss_flights s ! i), st) \<Longrightarrow> flights_ok L db (set_stage i st s)"
  using set_update_subset_insert [of "ss_flights s" i "(fst (ss_flights s ! i), st)"]
  by (auto simp: flights_ok_def set_stage_def)

lemma header_saved_consistent:
  assumes "rows_consistent L db" and "stored_block L d None = Ok b"
    and "map_of (l2_Header db) (bl_hash b) = Some (bl_header b)"
  shows "rows_consistent L (db\<lparr>l2_Proposal := update_rows (\<lambda>r. pp_hash r = bl_hash b)
    (\<lambda>r. r\<lparr>pp_proposalData := Some d\<rparr>) (l2_Proposal db)\<rparr>)"
  using assms by (auto simp: rows_consistent_def update_rows_def split: if_splits)

text \<open>A part of a fetch keeps the tables consistent.\<close>

lemma fetch_continue_consistent:
  assumes run: "fetch_continue L answer i (s, db) = (s', db')" and i: "i < length (ss_flights s)"
    and db: "rows_consistent L db" and s: "flights_ok L db s" and coll: "no_collisions L D"
    and held: "held_texts s \<subseteq> D" and texts: "texts_ok L D (l2_Proposal db)" and empty: "\<And>b. stored_block L [] None \<noteq> Ok b"
  shows "rows_consistent L db' \<and> flights_ok L db' s' \<and> texts_ok L D (l2_Proposal db')"
proof -
  obtain tx stage where f: "ss_flights s ! i = (tx, stage)" by fastforce
  have own: "flight_ok L db (tx, stage)" using s i f by (metis flights_ok_def nth_mem)
  have own_texts: "stage_texts stage \<subseteq> D" using held i f nth_mem [OF i] by (force simp: held_texts_def)
  have with_keys: "flights_ok L db (s\<lparr>ss_fetching := k\<rparr>)" "flights_ok L db (s\<lparr>ss_fetching := k, ss_emitted := e\<rparr>)"
    "fst (ss_flights (s\<lparr>ss_fetching := k\<rparr>) ! i) = tx" for k e
    using s f by (simp_all add: flights_ok_def)
  show ?thesis
  proof (cases stage)
    case Asked
    show ?thesis
    proof (cases answer)
      case None
      with run f Asked db s texts end_flight_ok show ?thesis by (auto simp: fetch_continue_def)
    next
      case (Some data)
      show ?thesis
      proof (cases "stored_block L data None")
        case (Inl e)
        with run f Asked Some db texts end_flight_ok [OF with_keys(1)] show ?thesis by (auto simp: fetch_continue_def Let_def)
      next
        case (Inr b)
        with run f Asked Some db texts set_stage_ok [OF with_keys(1)] show ?thesis
          by (auto simp: fetch_continue_def Let_def)
      qed
    qed
  next
    case (Fetched b d)
    let ?db = "db\<lparr>l2_Block := upsert_row (\<lambda>h. h = bl_hash b) (\<lambda>h. h) (bl_hash b) (l2_Block db)\<rparr>"
    have "s' = set_stage i (Block_saved b d) s" "db' = ?db" using run f Fetched by (auto simp: fetch_continue_def)
    moreover have "rows_consistent L ?db" using db by (simp add: rows_consistent_def)
    moreover have "flights_ok L ?db s" using s by (simp add: flights_ok_same [of ?db db])
    ultimately show ?thesis using set_stage_ok own f Fetched texts by auto
  next
    case (Block_saved b d)
    let ?db = "db\<lparr>l2_Header := upsert_row (\<lambda>x. fst x = bl_hash b) (\<lambda>_. (bl_hash b, bl_header b))
        (bl_hash b, bl_header b) (l2_Header db)\<rparr>"
    have new: "s' = set_stage i (Header_saved b d) s" "db' = ?db" using run f Block_saved by (auto simp: fetch_continue_def)
    have b: "stored_block L d None = Ok b" using own Block_saved by simp
    have headers: "map_of (l2_Header ?db) (bl_hash b0) = Some (bl_header b0)"
      if "d0 \<in> D" "stored_block L d0 None = Ok b0" "map_of (l2_Header db) (bl_hash b0) = Some (bl_header b0)" for b0 d0
    proof (cases "bl_hash b0 = bl_hash b")
      case True
      have "d \<in> D" using own_texts Block_saved by simp
      with coll b that(1,2) True have "bl_header b0 = bl_header b" unfolding no_collisions_def by blast
      with True show ?thesis by (simp add: map_of_upsert_pair)
    qed (simp add: map_of_upsert_pair that(3))
    have "rows_consistent L ?db"
    proof (rule rows_consistent_keep [OF db])
      fix r b0 d0 assume r: "r \<in> set (l2_Proposal db)" "pp_proposalData r = Some d0" "stored_block L d0 None = Ok b0"
        "map_of (l2_Header db) (bl_hash b0) = Some (bl_header b0)"
      then have "d0 \<in> D" using texts_okD [OF texts r(1,2)] empty by blast
      with headers r show "map_of (l2_Header ?db) (bl_hash b0) = Some (bl_header b0)" by blast
    qed auto
    moreover have "flights_ok L ?db s"
      unfolding flights_ok_def
    proof
      fix x assume x: "x \<in> set (ss_flights s)"
      then have x: "flight_ok L db x" "stage_texts (snd x) \<subseteq> D" using s held by (auto simp: flights_ok_def held_texts_def)
      show "flight_ok L ?db x" by (rule flight_ok_headers [OF x(1)]) (use headers x(2) in blast)
    qed
    ultimately show ?thesis using set_stage_ok b f texts unfolding new by (auto simp: map_of_upsert_pair)
  next
    case (Header_saved b d)
    let ?db = "db\<lparr>l2_Proposal := update_rows (\<lambda>r. pp_hash r = bl_hash b) (\<lambda>r. r\<lparr>pp_proposalData := Some d\<rparr>) (l2_Proposal db)\<rparr>"
    have new: "s' = end_flight i (s\<lparr>ss_fetching := removeAll tx (ss_fetching s), ss_emitted := ss_emitted s @ [Fetched_event b]\<rparr>)"
      "db' = ?db" using run f Header_saved by (auto simp: fetch_continue_def)
    have "flights_ok L ?db (s\<lparr>ss_fetching := k, ss_emitted := e\<rparr>)" for k e
      using with_keys(2) by (simp add: flights_ok_same [of ?db db])
    moreover have "texts_ok L D (l2_Proposal ?db)"
      unfolding texts_ok_def
    proof
      fix x assume "x \<in> calldata_of (l2_Proposal ?db)"
      then have "x \<in> calldata_of (l2_Proposal db) \<or> snd x = d"
        by (auto simp: calldata_of_def update_rows_def split: if_splits)
      moreover have "d \<in> D" "stored_block L d None = Ok b" using own own_texts Header_saved by auto
      ultimately show "snd x \<in> D \<and> (\<exists>b. stored_block L (snd x) None = Ok b)" using texts unfolding texts_ok_def by blast
    qed
    ultimately show ?thesis unfolding new using header_saved_consistent [OF db] own Header_saved end_flight_ok by auto
  qed
qed

section \<open>The node\<close>

definition node_consistent :: "string set \<Rightarrow> full_node \<Rightarrow> bool" where
  "node_consistent D n \<longleftrightarrow> rows_consistent (fn_lib n) (fn_db n) \<and> flights_ok (fn_lib n) (fn_db n) (fn_sync n) \<and>
     held_texts (fn_sync n) \<subseteq> D \<and> texts_ok (fn_lib n) D (l2_Proposal (fn_db n))"

lemma with_tables_simps [simp]:
  "fn_db (with_tables db n) = db" "fn_lib (with_tables db n) = fn_lib n" "fn_sync (with_tables db n) = fn_sync n"
  by (simp_all add: with_tables_def set_dbs_def)

lemma updateStatus_flights [simp]: "ss_flights (updateStatus k db s) = ss_flights s"
  by (simp add: updateStatus_def Let_def setStatus_def)

lemma announced_flights [simp]: "ss_flights (announced es s) = ss_flights s"
  unfolding announced_def
  by (induction es arbitrary: s) (auto simp: setLatestProcessed_def split: processor_event.splits)

lemma round_consistent:
  assumes "rows_consistent (pc_lib p) (pc_db p)" and "process_round P validate p = (p', goes_on)"
  shows "rows_consistent (pc_lib p') (pc_db p') \<and> pc_lib p' = pc_lib p \<and>
    l2_Header (pc_db p') = l2_Header (pc_db p)"
proof -
  let ?I = "\<lambda>L db. rows_consistent L db \<and> l2_Header db = l2_Header (pc_db p)"
  have "?I (pc_lib p) (pc_db (fst (process_round P validate p))) \<and> pc_lib (fst (process_round P validate p)) = pc_lib p"
  proof (rule round_keeps [of ?I])
    fix q u n q1
    assume q: "?I (pc_lib q) (pc_db q)" and step: "processBlock P validate u q = (q1, Ok n)"
    from processBlock_marks [OF step] obtain f where "marks f (un_block u) q q1"
      "f = mark_uncle \<or> f = mark_slashed \<or> f = mark_verified" by metis
    with q rows_consistent_marks [of f "un_block u" q q1] show "?I (pc_lib q) (pc_db q1)" by (simp add: marks_def)
  next
    fix q k assume "?I (pc_lib q) (pc_db q)"
    with rows_consistent_numbers [OF number_blocks_same(1)] same_but_numbers_header [OF number_blocks_same(1)]
    show "?I (pc_lib q) (pc_db (fst (number_blocks k q)))" by metis
  qed (use assms in simp)
  with assms(2) show ?thesis by auto
qed

lemma round_calldata:
  assumes "process_round P validate p = (p', goes_on)"
  shows "calldata_of (l2_Proposal (pc_db p')) = calldata_of (l2_Proposal (pc_db p))"
proof -
  let ?I = "\<lambda>L db. calldata_of (l2_Proposal db) = calldata_of (l2_Proposal (pc_db p))"
  have "?I (pc_lib p) (pc_db (fst (process_round P validate p))) \<and> pc_lib (fst (process_round P validate p)) = pc_lib p"
  proof (rule round_keeps [of ?I])
    fix q u n q1
    assume q: "?I (pc_lib q) (pc_db q)" and step: "processBlock P validate u q = (q1, Ok n)"
    from processBlock_marks [OF step] obtain f where f: "marks f (un_block u) q q1"
      "f = mark_uncle \<or> f = mark_slashed \<or> f = mark_verified" by metis
    have "calldata_of (update_rows c f (l2_Proposal (pc_db q))) = calldata_of (l2_Proposal (pc_db q))" for c
      unfolding update_rows_def using f(2)
      by (intro calldata_of_map) (auto simp: mark_uncle_def mark_slashed_def mark_verified_def)
    with f(1) q show "?I (pc_lib q) (pc_db q1)" by (simp add: marks_def)
  next
    fix q k assume q: "?I (pc_lib q) (pc_db q)"
    from number_blocks_same(1) [of q k] obtain rows where
      rows: "l2_Proposal (pc_db (fst (number_blocks k q))) = rows"
      "map erase_number rows = map erase_number (l2_Proposal (pc_db q))" unfolding same_but_numbers_def by auto
    have erased: "calldata_of (map erase_number rs) = calldata_of rs" for rs by (rule calldata_of_map) simp
    from erased [of rows] erased [of "l2_Proposal (pc_db q)"] rows q
    show "?I (pc_lib q) (pc_db (fst (number_blocks k q)))" by simp
  qed simp
  with assms show ?thesis by simp
qed

lemma event_calldata: "calldata_of (l2_Proposal (on_event L S e db)) \<subseteq> calldata_of (l2_Proposal db)"
proof
  fix x assume "x \<in> calldata_of (l2_Proposal (on_event L S e db))"
  then obtain r d where x: "x = (pp_hash r, d)" "r \<in> set (l2_Proposal (on_event L S e db))" "pp_proposalData r = Some d" "d \<noteq> []"
    by (auto simp: calldata_of_def)
  from on_event_rows [OF x(2)] x(3,4) obtain r0 where "r0 \<in> set (l2_Proposal db)" "pp_hash r0 = pp_hash r"
    "pp_proposalData r0 = Some d" by auto
  with x(4) have "(pp_hash r, d) \<in> calldata_of (l2_Proposal db)"
    unfolding calldata_of_def by (metis (mono_tags, lifting) mem_Collect_eq)
  with x(1) show "x \<in> calldata_of (l2_Proposal db)" by simp
qed

lemma node_step_consistent:
  assumes "node_step P S validate n n'" and inv: "node_consistent D n" and coll: "no_collisions (fn_lib n) D"
    and empty: "\<And>b. stored_block (fn_lib n) [] None \<noteq> Ok b"
  shows "node_consistent (D \<union> held_texts (fn_sync n')) n' \<and> fn_lib n' = fn_lib n"
proof -
  note inv = inv [unfolded node_consistent_def]
  have "rows_consistent (fn_lib n') (fn_db n') \<and> flights_ok (fn_lib n') (fn_db n') (fn_sync n') \<and>
      texts_ok (fn_lib n') D (l2_Proposal (fn_db n')) \<and> fn_lib n' = fn_lib n"
    using assms(1)
  proof (cases rule: node_step.cases)
    case (l1_event e)
    have "flights_ok (fn_lib n) (on_event (fn_lib n) S e (fn_db n)) (fn_sync n)"
      using inv on_event_headers unfolding flights_ok_def by (metis flight_ok_headers)
    with l1_event inv on_event_consistent [OF _ empty] texts_ok_subset [OF _ event_calldata order_refl] show ?thesis by auto
  next
    case (status proposed)
    with inv show ?thesis by (simp add: flights_ok_def)
  next
    case fetch_round
    with inv show ?thesis by (simp add: fetchUnfetchedProposals_def fetch_start_flights)
  next
    case (fetch_part i answer s db)
    with fetch_continue_consistent [OF fetch_part(3,2) _ _ coll _ _ empty] inv show ?thesis by auto
  next
    case (processor_round p goes_on)
    from round_consistent [OF _ processor_round(2)] inv
    have p: "rows_consistent (pc_lib p) (pc_db p)" "pc_lib p = fn_lib n" "l2_Header (pc_db p) = l2_Header (fn_db n)"
      by auto
    moreover have "flights_ok (fn_lib n) (pc_db p) (fn_sync n)"
      using inv flights_ok_same [OF p(3)] by simp
    moreover have "texts_ok (fn_lib n) D (l2_Proposal (pc_db p))"
      using inv texts_ok_subset round_calldata [OF processor_round(2)] by blast
    ultimately show ?thesis unfolding processor_round(1) by (simp add: flights_ok_def)
  qed
  then show ?thesis using texts_ok_subset unfolding node_consistent_def by blast
qed

lemma node_runs_consistent:
  assumes "node_runs P S validate n D n'" and "node_consistent (held_texts (fn_sync n)) n" and "no_collisions (fn_lib n) D"
    and "\<And>b. stored_block (fn_lib n) [] None \<noteq> Ok b"
  shows "node_consistent D n' \<and> fn_lib n' = fn_lib n"
  using assms
proof (induction rule: node_runs.induct)
  case (step D n' n'')
  have sub: "no_collisions (fn_lib n) D" by (rule no_collisions_subset [OF step.prems(2)]) simp
  with step.IH step.prems have IH: "node_consistent D n'" "fn_lib n' = fn_lib n" by blast+
  from node_step_consistent [OF step.hyps(2) IH(1)] sub step.prems(3) show ?case by (simp add: IH(2))
qed simp

end
