(* ===== verification/Sync_Properties.thy ===== *)
theory Sync_Properties
  imports Sync_Proofs Processor_Demo
begin

text \<open>
  What holds in every state that the synchronizer and the block processor reach together, and how
  proposals that are no blocks stop the fetching of all others.
\<close>

section \<open>A new node\<close>

definition new_tables :: "full_node \<Rightarrow> bool" where
  "new_tables n \<longleftrightarrow> l2_Proposal (fn_db n) = [] \<and> ss_flights (fn_sync n) = []"

lemma new_tables_consistent: "new_tables n \<Longrightarrow> node_consistent (held_texts (fn_sync n)) n"
  by (simp add: new_tables_def node_consistent_def rows_consistent_def flights_ok_def texts_ok_def calldata_of_def)

text \<open>C32: A node stores and processes the blocks that were proposed. In every history that starts with no
  proposal and no fetch, with events, status updates, fetches and rounds of the processor in any order,
  in which no two of the texts that were fetched decode to different headers with one hash, and if the
  empty text is no transaction: every calldata stored with a proposal is a text that was fetched and decodes
  to a block whose hash is that of the row and whose header is stored; the loop of the processor returns;
  and the block that it takes next is that of its row, on the stored header of its parent.\<close>

theorem node_processes_proposed:
  assumes run: "node_runs P S validate n D n'" and new: "new_tables n"
    and coll: "no_collisions (fn_lib n) D" and empty: "\<And>b. stored_block (fn_lib n) [] None \<noteq> Ok b"
  shows "(\<forall>r\<in>set (l2_Proposal (fn_db n')). \<forall>d. pp_proposalData r = Some d \<and> d \<noteq> [] \<longrightarrow>
      d \<in> D \<and> (\<exists>b. stored_block (fn_lib n) d None = Ok b \<and> bl_hash b = pp_hash r \<and>
        map_of (l2_Header (fn_db n')) (pp_hash r) = Some (bl_header b))) \<and>
    (\<exists>p'. processBlocks P validate (fn_processor n') = Some p') \<and>
    (\<forall>u. getOldestUnprocessedBlock (fn_lib n') (fn_db n') = Ok (Some u) \<longrightarrow>
      bl_hash (un_block u) = pp_hash (un_proposal u) \<and> un_proposal u \<in> set (l2_Proposal (fn_db n')) \<and>
      map_of (l2_Header (fn_db n')) (bl_hash (un_block u)) = Some (bl_header (un_block u)) \<and>
      map_of (l2_Header (fn_db n')) (parentBlock (bl_header (un_block u))) = Some (un_parent u))"
proof (intro conjI allI impI ballI)
  from node_runs_consistent [OF run new_tables_consistent [OF new] coll empty]
  have ok: "rows_consistent (fn_lib n') (fn_db n')" "texts_ok (fn_lib n) D (l2_Proposal (fn_db n'))" "fn_lib n' = fn_lib n"
    unfolding node_consistent_def by auto
  show "\<exists>p'. processBlocks P validate (fn_processor n') = Some p'" by (rule processBlocks_returns [OF ok(1)])
  fix r d assume r: "r \<in> set (l2_Proposal (fn_db n'))" and d: "pp_proposalData r = Some d \<and> d \<noteq> []"
  then have fetched: "d \<in> D \<and> (\<exists>b. stored_block (fn_lib n) d None = Ok b)" using texts_okD [OF ok(2) r] by blast
  then show "d \<in> D" ..
  from fetched obtain b where "stored_block (fn_lib n) d None = Ok b" by blast
  with ok(1,3) r d show "\<exists>b. stored_block (fn_lib n) d None = Ok b \<and> bl_hash b = pp_hash r \<and>
      map_of (l2_Header (fn_db n')) (pp_hash r) = Some (bl_header b)" unfolding rows_consistent_def by auto
next
  from node_runs_consistent [OF run new_tables_consistent [OF new] coll empty]
  have ok: "rows_consistent (fn_lib n') (fn_db n')" unfolding node_consistent_def by auto
  fix u assume u: "getOldestUnprocessedBlock (fn_lib n') (fn_db n') = Ok (Some u)"
  note old = oldest_unprocessed [OF u]
  from old(4) ok old(1) have b: "bl_hash (un_block u) = pp_hash (un_proposal u)"
    "map_of (l2_Header (fn_db n')) (pp_hash (un_proposal u)) = Some (bl_header (un_block u))"
    by (auto simp: rows_consistent_def)
  with old show "bl_hash (un_block u) = pp_hash (un_proposal u)" "un_proposal u \<in> set (l2_Proposal (fn_db n'))"
    "map_of (l2_Header (fn_db n')) (bl_hash (un_block u)) = Some (bl_header (un_block u))"
    "map_of (l2_Header (fn_db n')) (parentBlock (bl_header (un_block u))) = Some (un_parent u)" by auto
qed

section \<open>Failed fetches\<close>

text \<open>While ten keys are left and no fetch is under way, nothing is fetched.\<close>

definition starved :: "sync_state \<Rightarrow> bool" where
  "starved s \<longleftrightarrow> ss_flights s = [] \<and> 10 \<le> length (ss_fetching s)"

lemma starved_fetch: "starved s \<Longrightarrow> fetchUnfetchedProposals db s = s"
  by (simp add: starved_def fetchUnfetchedProposals_def fetch_candidates_def)

lemma starved_keys:
  "ss_fetching (updateStatus k db s) = ss_fetching s" "ss_fetching (announced es s) = ss_fetching s"
proof -
  show "ss_fetching (updateStatus k db s) = ss_fetching s" by (simp add: updateStatus_def Let_def setStatus_def)
  show "ss_fetching (announced es s) = ss_fetching s"
    unfolding announced_def
    by (induction es arbitrary: s) (auto simp: setLatestProcessed_def split: processor_event.splits)
qed

lemma starved_step:
  assumes "node_step P S validate n n'" and "starved (fn_sync n)"
  shows "starved (fn_sync n') \<and> calldata_of (l2_Proposal (fn_db n')) \<subseteq> calldata_of (l2_Proposal (fn_db n))"
  using assms(1)
proof (cases rule: node_step.cases)
  case (l1_event e)
  with event_calldata assms(2) show ?thesis by simp
next
  case (status proposed)
  with assms(2) show ?thesis by (simp add: starved_def starved_keys(1))
next
  case fetch_round
  with assms(2) show ?thesis by (simp add: starved_fetch)
next
  case (fetch_part i answer s db)
  from fetch_part(2) assms(2) have False by (simp add: starved_def)
  then show ?thesis ..
next
  case (processor_round p goes_on)
  with round_calldata [OF processor_round(2)] assms(2) show ?thesis by (simp add: starved_def starved_keys(2))
qed

lemma starved_reaches:
  assumes "node_reaches P S validate n n'" and "starved (fn_sync n)"
  shows "starved (fn_sync n') \<and> calldata_of (l2_Proposal (fn_db n')) \<subseteq> calldata_of (l2_Proposal (fn_db n))"
  using assms
proof (induction rule: node_reaches.induct)
  case (further n n' n'')
  then show ?case using starved_step [of P S validate n' n''] by blast
qed simp

lemma node_reaches_first:
  assumes "node_step P S validate n n'" and "node_reaches P S validate n' n''"
  shows "node_reaches P S validate n n''"
  using assms(2,1)
proof (induction rule: node_reaches.induct)
  case (here n')
  then show ?case using node_reaches.further [OF node_reaches.here] by blast
qed (blast intro: node_reaches.further)

text \<open>The answers to the calls in progress, one after another, when none is a block.\<close>

lemma failed_answers:
  assumes "ss_flights (fn_sync n) = map (\<lambda>tx. (tx, Asked)) txs"
    and "\<And>tx. tx \<in> set txs \<Longrightarrow> \<exists>e. stored_block (fn_lib n) (answer tx) None = Inl e"
  shows "\<exists>n1. node_reaches P S validate n n1 \<and> fn_db n1 = fn_db n \<and> ss_flights (fn_sync n1) = [] \<and>
    set (ss_fetching (fn_sync n1)) = set (ss_fetching (fn_sync n)) \<union> set txs \<and>
    (distinct (ss_fetching (fn_sync n)) \<longrightarrow> distinct (ss_fetching (fn_sync n1)))"
  using assms
proof (induction txs arbitrary: n)
  case Nil
  then show ?case by (auto intro: node_reaches.here)
next
  case (Cons tx txs)
  let ?s = "end_flight 0 (fn_sync n\<lparr>ss_fetching := List.insert tx (ss_fetching (fn_sync n))\<rparr>)"
  let ?n = "with_tables (fn_db n) (n\<lparr>fn_sync := ?s\<rparr>)"
  obtain e where "stored_block (fn_lib n) (answer tx) None = Inl e" using Cons.prems(2) by fastforce
  then have "fetch_continue (fn_lib n) (Some (answer tx)) 0 (fn_sync n, fn_db n) = (?s, fn_db n)"
    using Cons.prems(1) by (simp add: fetch_continue_def)
  then have step: "node_step P S validate n ?n" using Cons.prems(1) by (intro node_step.fetch_part) simp_all
  have "ss_flights (fn_sync ?n) = map (\<lambda>tx. (tx, Asked)) txs" using Cons.prems(1) by (simp add: end_flight_def)
  moreover have "\<exists>e. stored_block (fn_lib ?n) (answer t) None = Inl e" if "t \<in> set txs" for t
    using Cons.prems(2) that by simp
  ultimately obtain n1 where n1: "node_reaches P S validate ?n n1" "fn_db n1 = fn_db ?n" "ss_flights (fn_sync n1) = []"
    "set (ss_fetching (fn_sync n1)) = set (ss_fetching (fn_sync ?n)) \<union> set txs"
    "distinct (ss_fetching (fn_sync ?n)) \<longrightarrow> distinct (ss_fetching (fn_sync n1))"
    using Cons.IH [of ?n] by blast
  from node_reaches_first [OF step n1(1)] have "node_reaches P S validate n n1" .
  with n1 show ?case by (intro exI [of _ n1]) (auto simp: end_flight_def)
qed

text \<open>C35: Ten proposals whose calldata is no block stop a node: the key of a failed fetch is never removed, so
  that after ten failures no proposal is fetched any more and none that has no calldata then gets it,
  whatever else happens.\<close>

theorem failed_fetches_starve:
  assumes "ss_flights (fn_sync n) = map (\<lambda>tx. (tx, Asked)) txs" and "distinct txs" and "10 \<le> length txs"
    and "distinct (ss_fetching (fn_sync n))"
    and "\<And>tx. tx \<in> set txs \<Longrightarrow> \<exists>e. stored_block (fn_lib n) (answer tx) None = Inl e"
  shows "\<exists>n1. node_reaches P S validate n n1 \<and> fn_db n1 = fn_db n \<and>
    (\<forall>n2. node_reaches P S validate n1 n2 \<longrightarrow>
      fetchUnfetchedProposals (fn_db n2) (fn_sync n2) = fn_sync n2 \<and> calldata_of (l2_Proposal (fn_db n2)) \<subseteq> calldata_of (l2_Proposal (fn_db n)))"
proof -
  from failed_answers [of n txs answer P S validate] assms(1,5) obtain n1 where n1: "node_reaches P S validate n n1" "fn_db n1 = fn_db n"
    "ss_flights (fn_sync n1) = []" "set (ss_fetching (fn_sync n1)) = set (ss_fetching (fn_sync n)) \<union> set txs"
    "distinct (ss_fetching (fn_sync n1))" using assms(4) by blast
  have "length txs = card (set txs)" using assms(2) by (simp add: distinct_card)
  also have "\<dots> \<le> card (set (ss_fetching (fn_sync n1)))" unfolding n1(4) by (rule card_mono) auto
  also have "\<dots> = length (ss_fetching (fn_sync n1))" using n1(5) by (simp add: distinct_card)
  finally have "starved (fn_sync n1)" using assms(3) n1(3) by (simp add: starved_def)
  then show ?thesis using n1(1,2) starved_reaches starved_fetch by metis
qed

section \<open>The example\<close>

text \<open>The library of the example chain, where the empty text is no transaction, and a node with empty tables.\<close>

definition fetch_lib :: l2_lib where
  "fetch_lib = chain_lib\<lparr>lib_parseTx := \<lambda>s. if s = [] then Throw ''SyntaxError'' else lib_parseTx chain_lib s\<rparr>"

definition fetch_node :: "sync_state \<Rightarrow> full_node" where
  "fetch_node s = \<lparr>fn_sync = s, fn_processor = (chain_processor None [])\<lparr>pc_node := \<lparr>nd_layer2 = demo_layer2
       \<lparr>la_db := (chain_db None [])\<lparr>l2_Proposal := [], l2_Header := [], l2_Block := []\<rparr>, la_lib := fetch_lib\<rparr>,
     nd_grove = demo_grove, nd_trees = demo_db, nd_treeIds = []\<rparr>\<rparr>\<rparr>"

lemma fetch_node_parts: "fn_lib (fetch_node s) = fetch_lib" "fn_sync (fetch_node s) = s" "l2_Proposal (fn_db (fetch_node s)) = []"
  by (simp_all add: fetch_node_def)

lemma fetch_lib_empty: "stored_block fetch_lib [] v = Inl (Error ''SyntaxError'')"
  by (simp add: stored_block_def fetch_lib_def)

lemma fetch_lib_stored:
  assumes "stored_block fetch_lib d None = Ok b"
  shows "b = chain_block 1 \<or> b = chain_block 2"
proof -
  have d: "d \<noteq> []" using assms by (auto simp: fetch_lib_empty)
  have "stored_block fetch_lib d None = stored_block chain_lib (if d = ''1'' then ''1'' else ''2'') None"
    using d by (simp add: stored_block_def fetch_lib_def chain_lib_def)
  moreover have "stored_block chain_lib ''1'' None = Ok (chain_block 1)" "stored_block chain_lib ''2'' None = Ok (chain_block 2)"
    using chain_stored [of 1 "''1''" None] chain_stored [of 2 "''2''" None] by (simp_all add: chain_block_def)
  ultimately show ?thesis using assms by (auto split: if_splits)
qed

lemma fetch_lib_collisions: "no_collisions fetch_lib D"
  unfolding no_collisions_def
  by (intro ballI allI impI) (auto dest!: fetch_lib_stored simp: chain_block_def)

text \<open>A history of that node in which a proposal arrives, is fetched and stored.\<close>

definition fetch_event :: "event_log \<times> l1_event" where
  "fetch_event = (\<lparr>ev_blockNumber = 1, ev_transactionHash = ''1'', ev_transactionIndex = 0, ev_logIndex = 0\<rparr>, Ev_NewProposal 1 1)"

definition fetch_rows :: "sync_lib \<Rightarrow> string option \<Rightarrow> proposal_row list" where
  "fetch_rows S d = [set_proposed S 1 (fst fetch_event) (empty_proposal 1)\<lparr>pp_proposalData := d\<rparr>]"

lemma fetch_one: "stored_block fetch_lib ''1'' None = Ok (chain_block 1)"
proof -
  have "stored_block fetch_lib ''1'' None = stored_block chain_lib ''1'' None"
    by (simp add: stored_block_def fetch_lib_def chain_lib_def)
  then show ?thesis using chain_stored [of 1 "''1''" None] by (simp add: chain_block_def)
qed

lemma run_event:
  "node_runs P S validate n D n' \<Longrightarrow> node_runs P S validate n (D \<union> held_texts (fn_sync n')) (with_tables (on_event (fn_lib n') S e (fn_db n')) n')"
  using node_runs.step [OF _ node_step.l1_event [of P S validate n' e]] by simp

lemma run_round:
  assumes "node_runs P S validate n D n'" and "fetchUnfetchedProposals (fn_db n') (fn_sync n') = s"
  shows "node_runs P S validate n (D \<union> held_texts s) (n'\<lparr>fn_sync := s\<rparr>)"
  using node_runs.step [OF assms(1) node_step.fetch_round] by (simp add: assms(2))

lemma run_part:
  assumes "node_runs P S validate n D n'" and "0 < length (ss_flights (fn_sync n'))"
    and "fetch_continue (fn_lib n') answer 0 (fn_sync n', fn_db n') = (s, db)"
  shows "node_runs P S validate n (D \<union> held_texts s) (with_tables db (n'\<lparr>fn_sync := s\<rparr>))"
  using node_runs.step [OF assms(1) node_step.fetch_part [OF assms(2,3)]] by simp

lemma fetch_history:
  "\<exists>n. node_runs P S validate (fetch_node new_Synchronizer) {''1''} n \<and> l2_Proposal (fn_db n) = fetch_rows S (Some ''1'')"
proof -
  let ?n0 = "fetch_node new_Synchronizer" and ?b = "chain_block 1"
  let ?s = "\<lambda>st. new_Synchronizer\<lparr>ss_flights := [(''1'', st)]\<rparr>"
  let ?k = "\<lambda>st. new_Synchronizer\<lparr>ss_fetching := [''1''], ss_flights := [(''1'', st)]\<rparr>"
  have s0: "held_texts new_Synchronizer = {}" by (simp add: held_texts_def new_Synchronizer_def)
  have held: "held_texts (?s st) = stage_texts st" "held_texts (?k st) = stage_texts st" for st
    by (simp_all add: held_texts_def)
  have empty_db: "l2_Proposal (fn_db ?n0) = []" "fn_lib ?n0 = fetch_lib" "fn_sync ?n0 = new_Synchronizer" by (simp_all add: fetch_node_parts)
  have r0: "node_runs P S validate ?n0 {} ?n0" using node_runs.start [of P S validate ?n0] by (simp add: empty_db s0)
  define db1 where "db1 = on_event fetch_lib S fetch_event (fn_db ?n0)"
  define n1 where "n1 = with_tables db1 ?n0"
  have r1: "node_runs P S validate ?n0 {} n1"
    using run_event [OF r0, of fetch_event] by (simp add: n1_def db1_def empty_db s0)
  have n1: "fn_db n1 = db1" "fn_lib n1 = fetch_lib" "fn_sync n1 = new_Synchronizer" by (simp_all add: n1_def empty_db)
  have db1: "l2_Proposal db1 = fetch_rows S None"
    by (simp add: db1_def fetch_event_def on_proposal_def upsert_proposal_def upsert_row_def empty_db fetch_rows_def set_proposed_def empty_proposal_def)
  have "fetchUnfetchedProposals db1 new_Synchronizer = ?s Asked"
    by (simp add: fetchUnfetchedProposals_def fetch_candidates_def db1 fetch_rows_def set_proposed_def order_asc_def fetch_event_def
        fetch_start_def new_Synchronizer_def)
  then have r2: "node_runs P S validate ?n0 {} (n1\<lparr>fn_sync := ?s Asked\<rparr>)"
    using run_round [OF r1] by (simp add: n1 held)
  have "fetch_continue fetch_lib (Some ''1'') 0 (?s Asked, db1) = (?k (Fetched ?b ''1''), db1)"
    by (simp add: fetch_continue_def fetch_one set_stage_def new_Synchronizer_def)
  then have r3: "node_runs P S validate ?n0 {''1''} (with_tables db1 (n1\<lparr>fn_sync := ?k (Fetched ?b ''1'')\<rparr>))" (is "node_runs _ _ _ _ _ ?n3")
    using run_part [OF r2, of "Some ''1''"] by (simp add: n1 held)
  have n3: "fn_db ?n3 = db1" "fn_lib ?n3 = fetch_lib" "fn_sync ?n3 = ?k (Fetched ?b ''1'')" by (simp_all add: n1)
  obtain db2 where c4: "fetch_continue fetch_lib None 0 (?k (Fetched ?b ''1''), db1) = (?k (Block_saved ?b ''1''), db2)"
    and db2: "l2_Proposal db2 = fetch_rows S None" by (simp add: fetch_continue_def set_stage_def db1)
  have r4: "node_runs P S validate ?n0 {''1''} (with_tables db2 (?n3\<lparr>fn_sync := ?k (Block_saved ?b ''1'')\<rparr>))" (is "node_runs _ _ _ _ _ ?n4")
    using run_part [OF r3, of None "?k (Block_saved ?b ''1'')" db2] c4 by (simp add: n1 held)
  have n4: "fn_db ?n4 = db2" "fn_lib ?n4 = fetch_lib" "fn_sync ?n4 = ?k (Block_saved ?b ''1'')" by (simp_all add: n1)
  obtain db3 where c5: "fetch_continue fetch_lib None 0 (?k (Block_saved ?b ''1''), db2) = (?k (Header_saved ?b ''1''), db3)"
    and db3: "l2_Proposal db3 = fetch_rows S None" by (simp add: fetch_continue_def set_stage_def db2)
  have r5: "node_runs P S validate ?n0 {''1''} (with_tables db3 (?n4\<lparr>fn_sync := ?k (Header_saved ?b ''1'')\<rparr>))" (is "node_runs _ _ _ _ _ ?n5")
    using run_part [OF r4, of None "?k (Header_saved ?b ''1'')" db3] c5 by (simp add: n1 held)
  have n5: "fn_db ?n5 = db3" "fn_lib ?n5 = fetch_lib" "fn_sync ?n5 = ?k (Header_saved ?b ''1'')" by (simp_all add: n1)
  obtain s db4 where c6: "fetch_continue fetch_lib None 0 (?k (Header_saved ?b ''1''), db3) = (s, db4)"
    and s: "ss_flights s = []" and db4: "l2_Proposal db4 = fetch_rows S (Some ''1'')"
    by (simp add: fetch_continue_def end_flight_def db3 fetch_rows_def update_rows_def chain_block_def set_proposed_def empty_proposal_def)
  have "held_texts s = {}" by (simp add: held_texts_def s)
  then have "node_runs P S validate ?n0 {''1''} (with_tables db4 (?n5\<lparr>fn_sync := s\<rparr>))"
    using run_part [OF r5, of None s db4] c6 by (simp add: n1)
  with db4 show ?thesis by (intro exI [of _ "with_tables db4 (?n5\<lparr>fn_sync := s\<rparr>)"]) simp
qed

theorem node_processes_proposed_witness:
  "\<forall>P S validate. \<exists>n. node_runs P S validate (fetch_node new_Synchronizer) {''1''} n \<and>
    l2_Proposal (fn_db n) = fetch_rows S (Some ''1'') \<and> map_of (l2_Header (fn_db n)) 1 = Some (chain_header 1) \<and>
    (\<exists>p'. processBlocks P validate (fn_processor n) = Some p')"
proof (intro allI)
  fix P :: processor_lib and S :: sync_lib and validate :: block_validator
  from fetch_history obtain n where n: "node_runs P S validate (fetch_node new_Synchronizer) {''1''} n"
    "l2_Proposal (fn_db n) = fetch_rows S (Some ''1'')" by blast
  have new: "new_tables (fetch_node new_Synchronizer)" by (simp add: new_tables_def fetch_node_parts new_Synchronizer_def)
  have coll: "no_collisions (fn_lib (fetch_node new_Synchronizer)) {''1''}" by (simp add: fetch_node_parts fetch_lib_collisions)
  have "stored_block (fn_lib (fetch_node new_Synchronizer)) [] None \<noteq> Ok b" for b by (simp add: fetch_node_parts fetch_lib_empty)
  from node_processes_proposed [OF n(1) new coll this]
  have "map_of (l2_Header (fn_db n)) 1 = Some (bl_header (chain_block 1)) \<and> (\<exists>p'. processBlocks P validate (fn_processor n) = Some p')"
    by (simp add: n(2) fetch_rows_def fetch_node_parts fetch_one set_proposed_def empty_proposal_def)
  with n show "\<exists>n. node_runs P S validate (fetch_node new_Synchronizer) {''1''} n \<and>
    l2_Proposal (fn_db n) = fetch_rows S (Some ''1'') \<and> map_of (l2_Header (fn_db n)) 1 = Some (chain_header 1) \<and>
    (\<exists>p'. processBlocks P validate (fn_processor n) = Some p')" by (auto simp: chain_block_def)
qed

theorem failed_fetches_starve_witness:
  "\<forall>P S validate. \<exists>n1. node_reaches P S validate
      (fetch_node (new_Synchronizer\<lparr>ss_flights := map (\<lambda>k. (replicate k CHR ''0'', Asked)) [1..<11]\<rparr>)) n1 \<and>
    (\<forall>n2. node_reaches P S validate n1 n2 \<longrightarrow> calldata_of (l2_Proposal (fn_db n2)) = {})"
proof (intro allI)
  fix P :: processor_lib and S :: sync_lib and validate :: block_validator
  let ?txs = "map (\<lambda>k. replicate k CHR ''0'') [1..<11]"
  let ?n = "fetch_node (new_Synchronizer\<lparr>ss_flights := map (\<lambda>k. (replicate k CHR ''0'', Asked)) [1..<11]\<rparr>)"
  have "distinct ?txs" by (simp add: distinct_map inj_on_def)
  moreover have "ss_flights (fn_sync ?n) = map (\<lambda>tx. (tx, Asked)) ?txs" by (simp add: fetch_node_parts comp_def)
  moreover have "distinct (ss_fetching (fn_sync ?n))" by (simp add: fetch_node_parts new_Synchronizer_def)
  moreover have "\<exists>e. stored_block (fn_lib ?n) [] None = Inl e" by (simp add: fetch_node_parts fetch_lib_empty)
  ultimately obtain n1 where n1: "node_reaches P S validate ?n n1"
    "\<And>n2. node_reaches P S validate n1 n2 \<Longrightarrow> calldata_of (l2_Proposal (fn_db n2)) \<subseteq> calldata_of (l2_Proposal (fn_db ?n))"
    using failed_fetches_starve [of ?n ?txs "\<lambda>_. []" P S validate] by auto
  moreover have "calldata_of (l2_Proposal (fn_db ?n)) = {}" by (simp add: fetch_node_parts calldata_of_def)
  ultimately show "\<exists>n1. node_reaches P S validate ?n n1 \<and>
    (\<forall>n2. node_reaches P S validate n1 n2 \<longrightarrow> calldata_of (l2_Proposal (fn_db n2)) = {})" by blast
qed

end
