(* ===== verification/Sync_Listeners.thy ===== *)
theory Sync_Listeners
  imports Synchronizer
begin

text \<open>
  Four listeners of the synchronizer after a restart. Each starts at the block of the latest row of its own
  table and gets the events from there on, some of them again; the contract of a listener says why its
  table is then the one of a node that never stopped.
\<close>

section \<open>The contract of a listener\<close>

text \<open>Handling events is an upsert by the key of the event.\<close>

definition listen :: "('r \<Rightarrow> 'k) \<Rightarrow> ('e \<Rightarrow> 'k) \<Rightarrow> ('e \<Rightarrow> 'r) \<Rightarrow> ('e \<Rightarrow> 'r \<Rightarrow> 'r) \<Rightarrow> 'e list \<Rightarrow> 'r list \<Rightarrow> 'r list" where
  "listen key_of key create change es rows =
     fold (\<lambda>e. upsert_row (\<lambda>r. key_of r = key e) (change e) (create e)) es rows"

text \<open>The last event with a key.\<close>

definition last_event :: "('e \<Rightarrow> 'k) \<Rightarrow> 'e list \<Rightarrow> 'k \<Rightarrow> 'e option" where
  "last_event key es k = find (\<lambda>e. key e = k) (rev es)"

lemma last_event_snoc: "last_event key (es @ [e]) k = (if key e = k then Some e else last_event key es k)"
  by (simp add: last_event_def)

lemma last_event_key: "last_event key es k = Some e \<Longrightarrow> key e = k"
  by (auto simp: last_event_def find_Some_iff)

lemma from_block_le:
  assumes "\<And>r b. r \<in> set rows \<Longrightarrow> col r = Some b \<Longrightarrow> b \<le> n"
  shows "from_block col rows \<le> n"
proof (cases "rev (sort_key col rows)")
  case Nil
  then show ?thesis by (simp add: from_block_def order_desc_def first_row_def)
next
  case (Cons r rs)
  have "set (rev (sort_key col rows)) = set rows" by simp
  then have "r \<in> set rows" unfolding Cons by auto
  with assms show ?thesis by (auto simp: from_block_def order_desc_def first_row_def Cons split: option.splits)
qed

locale listener =
  fixes key_of :: "'r \<Rightarrow> 'k" and key :: "'e \<Rightarrow> 'k" and create :: "'e \<Rightarrow> 'r" and change :: "'e \<Rightarrow> 'r \<Rightarrow> 'r"
    and block_of :: "'r \<Rightarrow> nat option" and block :: "'e \<Rightarrow> nat"
  assumes key_create: "key_of (create e) = key e"
    and key_change: "key_of r = key e \<Longrightarrow> key_of (change e r) = key_of r"
    and change_change: "key_of r = key e \<Longrightarrow> key e' = key e \<Longrightarrow> change e (change e' r) = change e r"
    and change_create: "change e (create e) = create e"
    and block_create: "block_of (create e) = Some (block e)"
    and block_change: "block_of (change e r) = block_of r \<or> block_of (change e r) = Some (block e)"
begin

abbreviation handle_all :: "'e list \<Rightarrow> 'r list \<Rightarrow> 'r list" where
  "handle_all \<equiv> listen key_of key create change"

lemma handle_all_append: "handle_all (es @ es') rows = handle_all es' (handle_all es rows)"
  by (simp add: listen_def)

lemma handle_all_Nil: "handle_all [] rows = rows"
  by (simp add: listen_def)

lemma handle_all_snoc:
  "handle_all (es @ [e]) rows =
    (if \<exists>r\<in>set (handle_all es rows). key_of r = key e
     then map (\<lambda>r. if key_of r = key e then change e r else r) (handle_all es rows)
     else handle_all es rows @ [create e])"
  by (simp add: listen_def upsert_row_def update_rows_def list_ex_iff)

lemma key_changed: "key_of (if key_of r = key e then change e r else r) = key_of r"
  by (simp add: key_change)

text \<open>The keys of a table only grow, by those of the events.\<close>

lemma keys: "key_of ` set (handle_all es rows) = key_of ` set rows \<union> key ` set es"
proof (induction es rule: rev_induct)
  case (snoc e es)
  let ?rows = "handle_all es rows"
  have same: "key_of ` set (map (\<lambda>r. if key_of r = key e then change e r else r) ?rows) = key_of ` set ?rows"
    by (simp only: set_map image_image key_changed)
  show ?case
  proof (cases "\<exists>r\<in>set ?rows. key_of r = key e")
    case True
    then have "key e \<in> key_of ` set ?rows" by (metis image_eqI)
    with True same snoc show ?thesis by (simp add: handle_all_snoc insert_absorb)
  next
    case False
    with snoc show ?thesis by (simp add: handle_all_snoc key_create)
  qed
qed (simp add: handle_all_Nil)

text \<open>Events whose keys are known change rows where they are.\<close>

definition after :: "'e list \<Rightarrow> 'r \<Rightarrow> 'r" where
  "after es r = (case last_event key es (key_of r) of None \<Rightarrow> r | Some e \<Rightarrow> change e r)"

lemma after_snoc: "after (es @ [e]) r = (if key_of (after es r) = key e then change e (after es r) else after es r)"
  by (auto simp: after_def last_event_snoc key_change change_change dest: last_event_key split: option.splits)

lemma known_keys:
  assumes "key ` set es \<subseteq> key_of ` set rows"
  shows "handle_all es rows = map (after es) rows"
  using assms
proof (induction es rule: rev_induct)
  case Nil
  show ?case by (simp add: handle_all_Nil last_event_def after_def map_idI)
next
  case (snoc e es)
  then have IH: "handle_all es rows = map (after es) rows" and "key e \<in> key_of ` set rows" by auto
  then have "\<exists>r\<in>set (handle_all es rows). key_of r = key e" using keys [of es rows] by (metis UnI1 imageE)
  then have "handle_all (es @ [e]) rows = map (\<lambda>r. if key_of r = key e then change e r else r) (handle_all es rows)"
    by (simp only: handle_all_snoc if_True)
  also have "\<dots> = map (after (es @ [e])) rows" unfolding IH by (simp add: after_snoc comp_def)
  finally show ?case .
qed

text \<open>After an event its row is settled: the event would not change it.\<close>

lemma settled:
  assumes "r \<in> set (handle_all (es @ es') rows)" and "last_event key es' (key_of r) = Some e"
  shows "change e r = r"
  using assms
proof (induction es' arbitrary: r rule: rev_induct)
  case Nil
  then show ?case by (simp add: last_event_def)
next
  case (snoc f es')
  let ?rows = "handle_all (es @ es') rows"
  have rows: "handle_all (es @ es' @ [f]) rows = (if \<exists>r\<in>set ?rows. key_of r = key f
     then map (\<lambda>r. if key_of r = key f then change f r else r) ?rows else ?rows @ [create f])"
    using handle_all_snoc [of "es @ es'" f rows] by simp
  show ?case
  proof (cases "key_of r = key f")
    case True
    with snoc.prems(2) have "e = f" by (simp add: last_event_snoc)
    moreover have "r = create f \<or> (\<exists>s. r = change f s \<and> key_of s = key f)"
      using snoc.prems(1) True unfolding rows by (auto simp: key_create key_change split: if_splits)
    ultimately show ?thesis by (auto simp: change_create change_change)
  next
    case False
    have "r \<in> set ?rows" using snoc.prems(1) False unfolding rows
      by (auto simp: key_create key_change split: if_splits)
    with snoc.IH snoc.prems(2) False show ?thesis by (simp add: last_event_snoc)
  qed
qed

lemma replay: "handle_all es' (handle_all (es @ es') rows) = handle_all (es @ es') rows"
proof -
  have "key ` set es' \<subseteq> key_of ` set (handle_all (es @ es') rows)" unfolding keys by auto
  moreover have "after es' r = r" if "r \<in> set (handle_all (es @ es') rows)" for r
    using settled [OF that] by (simp add: after_def split: option.splits)
  ultimately show ?thesis by (simp add: known_keys map_idI)
qed

lemma blocks_bound:
  assumes "r \<in> set (handle_all es [])" and "block_of r = Some b"
  shows "b \<in> block ` set es"
  using assms
proof (induction es arbitrary: r b rule: rev_induct)
  case (snoc e es)
  then consider "r \<in> set (handle_all es [])" | "r = create e" | s where "s \<in> set (handle_all es [])" "r = change e s"
    by (auto simp: handle_all_snoc split: if_splits)
  then show ?case
  proof cases
    case 1
    with snoc show ?thesis by simp
  next
    case 2
    with snoc.prems(2) show ?thesis by (simp add: block_create)
  next
    case 3
    with snoc.prems(2) block_change [of e s] have "block_of s = Some b \<or> b = block e" by auto
    with snoc.IH [OF 3(1)] show ?thesis by auto
  qed
qed (simp add: handle_all_Nil)

text \<open>A listener starts no later than at the last event it handled, so that no event is left out.\<close>

lemma start_bound:
  assumes "sorted (map block es)" and ne: "take k es \<noteq> []" and rows: "rows = handle_all (take k es) []"
  shows "from_block block_of rows \<le> block (last (take k es))"
proof (rule from_block_le)
  fix r b assume "r \<in> set rows" "block_of r = Some b"
  then obtain e where e: "e \<in> set (take k es)" "b = block e" unfolding rows using blocks_bound by blast
  have "sorted (map block (butlast (take k es) @ [last (take k es)]))"
    unfolding append_butlast_last_id [OF ne] using assms(1) by (simp add: take_map [symmetric] sorted_wrt_take)
  moreover have "e \<in> set (butlast (take k es) @ [last (take k es)])" unfolding append_butlast_last_id [OF ne] by (rule e(1))
  ultimately have "block e \<le> block (last (take k es))" by (auto simp: sorted_append)
  with e show "b \<le> block (last (take k es))" by simp
qed

lemma covers:
  assumes sorted: "sorted (map block es)" and rows: "rows = handle_all (take k es) []"
  shows "set (take k es) \<union> set (filter (\<lambda>e. from_block block_of rows \<le> block e) es) = set es"
proof (cases "take k es = []")
  case True
  have "rows = []" unfolding rows True by (rule handle_all_Nil)
  then show ?thesis unfolding True by (simp add: from_block_def order_desc_def first_row_def)
next
  case False
  have "from_block block_of rows \<le> block e" if "e \<in> set (drop k es)" for e
  proof -
    have "sorted (map block (take k es @ drop k es))" using sorted by simp
    moreover have "last (take k es) \<in> set (take k es)" using False by (rule last_in_set)
    ultimately have "block (last (take k es)) \<le> block e" using that by (auto simp: sorted_append simp del: append_take_drop_id)
    with start_bound [OF sorted False rows] show ?thesis by simp
  qed
  moreover have "set es = set (take k es) \<union> set (drop k es)" by (metis append_take_drop_id set_append)
  ultimately show ?thesis by auto
qed

text \<open>A table that started empty is after a restart the one of all events.\<close>

lemma catches_up:
  assumes "sorted (map block es)" and rows: "rows = handle_all (take k es) []"
  shows "handle_all (filter (\<lambda>e. from_block block_of rows \<le> block e) es) rows = handle_all es []"
proof (cases "take k es = []")
  case True
  have "rows = []" unfolding rows True by (rule handle_all_Nil)
  then show ?thesis by (simp add: from_block_def order_desc_def first_row_def)
next
  case False
  let ?c = "from_block block_of rows" and ?l = "last (take k es)"
  define m where "m = length (takeWhile (\<lambda>e. block e < ?c) es)"
  have bound: "?c \<le> block ?l" by (rule start_bound [OF assms(1) False rows])
  have sorted_filter: "filter (\<lambda>e. ?c \<le> block e) es = drop m es"
    using assms(1) unfolding m_def
  proof (induction es)
    case (Cons e es)
    show ?case
    proof (cases "block e < ?c")
      case False
      then have "\<forall>f\<in>set (e # es). ?c \<le> block f" using Cons.prems by auto
      then have "filter (\<lambda>e. ?c \<le> block e) (e # es) = e # es" by (simp add: filter_id_conv)
      with False show ?thesis by simp
    qed (use Cons in simp)
  qed simp
  have "m \<le> length (take k es)"
  proof (rule ccontr)
    assume "\<not> m \<le> length (take k es)"
    then have i: "length (take k es) - 1 < m" by linarith
    then have "es ! (length (take k es) - 1) = takeWhile (\<lambda>e. block e < ?c) es ! (length (take k es) - 1)"
      unfolding m_def by (simp add: takeWhile_nth)
    with i have "block (es ! (length (take k es) - 1)) < ?c" unfolding m_def by (metis nth_mem set_takeWhileD)
    moreover have "length (take k es) - 1 < k" using False by auto
    then have "es ! (length (take k es) - 1) = take k es ! (length (take k es) - 1)" by (simp only: nth_take)
    then have "es ! (length (take k es) - 1) = ?l" by (simp only: last_conv_nth [OF False])
    ultimately show False using bound by simp
  qed
  then have split: "take k es = take m es @ drop m (take k es)" "drop m es = drop m (take k es) @ drop k es"
    by (metis append_take_drop_id min_absorb1 take_take length_take min.bounded_iff)
      (metis \<open>m \<le> length (take k es)\<close> append_take_drop_id drop_append length_take diff_is_0_eq drop0 min.bounded_iff)
  have "handle_all (drop m es) rows = handle_all (drop k es) (handle_all (drop m (take k es)) (handle_all (take m es @ drop m (take k es)) []))"
    unfolding rows by (subst split(2)) (simp only: handle_all_append split(1) [symmetric])
  also have "\<dots> = handle_all (drop k es) (handle_all (take k es) [])"
    using replay [of "drop m (take k es)" "take m es" "[]"] by (simp only: split(1) [symmetric])
  also have "\<dots> = handle_all es []" by (simp flip: handle_all_append)
  finally show ?thesis unfolding sorted_filter .
qed

end

section \<open>The listeners of the synchronizer\<close>

abbreviation log_block :: "event_log \<times> l1_event \<Rightarrow> nat" where
  "log_block e \<equiv> ev_blockNumber (fst e)"

definition row_of_deposit :: "event_log \<times> l1_event \<Rightarrow> deposit_row" where
  "row_of_deposit e = deposit_of (ed_note (snd e)) (ed_fee (snd e)) (ed_queuedAt (snd e)) (fst e)"

definition row_of_mass_deposit :: "event_log \<times> l1_event \<Rightarrow> mass_deposit_row" where
  "row_of_mass_deposit e = mass_deposit_of (em_index (snd e)) (em_merged (snd e)) (em_fee (snd e)) (fst e)"

definition row_of_slash :: "l2_lib \<Rightarrow> event_log \<times> l1_event \<Rightarrow> slash_row" where
  "row_of_slash L e = slash_of L (es_hash (snd e)) (es_proposer (snd e)) (es_reason (snd e)) (fst e)"

definition proposed :: "sync_lib \<Rightarrow> event_log \<times> l1_event \<Rightarrow> proposal_row \<Rightarrow> proposal_row" where
  "proposed S e = set_proposed S (en_num (snd e)) (fst e)"

interpretation deposits: listener dp_note "\<lambda>e. uint (ed_note (snd e))" row_of_deposit "\<lambda>e. set_deposit (row_of_deposit e)"
  "\<lambda>r. Some (dp_blockNumber r)" log_block
  by unfold_locales (simp_all add: row_of_deposit_def deposit_of_def set_deposit_def)

interpretation mass_deposits: listener mdr_index "\<lambda>e. unat (em_index (snd e))" row_of_mass_deposit "\<lambda>e r. r"
  "\<lambda>r. Some (mdr_blockNumber r)" log_block
  by unfold_locales (simp_all add: row_of_mass_deposit_def mass_deposit_of_def)

interpretation slashes: listener sl_hash "\<lambda>e. es_hash (snd e)" "row_of_slash L" "\<lambda>e r. row_of_slash L e"
  "\<lambda>r. Some (sl_slashedAt r)" log_block for L
  by unfold_locales (auto simp: row_of_slash_def slash_of_def)

interpretation proposals: listener pp_hash "\<lambda>e. en_hash (snd e)" "\<lambda>e. proposed S e (empty_proposal (en_hash (snd e)))" "proposed S"
  pp_proposedAt log_block for S
  by unfold_locales (simp_all add: proposed_def set_proposed_def empty_proposal_def)

text \<open>What the events of one listener do to the tables.\<close>

lemma deposit_events:
  assumes "\<forall>e\<in>set es. is_Ev_Deposit (snd e)"
  shows "fold (on_event L S) es db = db\<lparr>l2_Deposit := deposits.handle_all es (l2_Deposit db),
    l2_PendingDeposit := filter (\<lambda>n. \<forall>e\<in>set es. n \<noteq> uint (ed_note (snd e))) (l2_PendingDeposit db)\<rparr>"
  using assms
proof (induction es arbitrary: db)
  case (Cons e es)
  obtain ev nt fee queuedAt where e: "e = (ev, Ev_Deposit nt fee queuedAt)"
    using Cons.prems by (cases e) (auto simp: is_Ev_Deposit_def)
  have one: "on_event L S e db = db\<lparr>l2_Deposit := upsert_row (\<lambda>r. dp_note r = uint nt) (set_deposit (row_of_deposit e))
      (row_of_deposit e) (l2_Deposit db), l2_PendingDeposit := filter (\<lambda>n. n \<noteq> uint nt) (l2_PendingDeposit db)\<rparr>"
    by (simp add: e on_deposit_def row_of_deposit_def Let_def)
  have "\<forall>e\<in>set es. is_Ev_Deposit (snd e)" using Cons.prems by simp
  from Cons.IH [OF this, of "on_event L S e db"] show ?case by (simp add: one) (simp add: listen_def e conj_commute)
qed (simp add: listen_def)

lemma mass_deposit_events:
  assumes "\<forall>e\<in>set es. is_Ev_MassDepositCommit (snd e)"
  shows "fold (on_event L S) es db = db\<lparr>l2_MassDeposit := mass_deposits.handle_all es (l2_MassDeposit db)\<rparr>"
  using assms
proof (induction es arbitrary: db)
  case (Cons e es)
  obtain ev index merged fee where e: "e = (ev, Ev_MassDepositCommit index merged fee)"
    using Cons.prems by (cases e) (auto simp: is_Ev_MassDepositCommit_def)
  have one: "on_event L S e db = db\<lparr>l2_MassDeposit := upsert_row (\<lambda>r. mdr_index r = unat index) (\<lambda>r. r)
      (row_of_mass_deposit e) (l2_MassDeposit db)\<rparr>"
    by (simp add: e on_massDeposit_def row_of_mass_deposit_def)
  have "\<forall>e\<in>set es. is_Ev_MassDepositCommit (snd e)" using Cons.prems by simp
  from Cons.IH [OF this, of "on_event L S e db"] show ?case by (simp add: one) (simp add: listen_def e)
qed (simp add: listen_def)

lemma proposal_events:
  assumes "\<forall>e\<in>set es. is_Ev_NewProposal (snd e)"
  shows "fold (on_event L S) es db = db\<lparr>l2_Proposal := proposals.handle_all S es (l2_Proposal db)\<rparr>"
  using assms
proof (induction es arbitrary: db)
  case (Cons e es)
  obtain ev num h where e: "e = (ev, Ev_NewProposal num h)"
    using Cons.prems by (cases e) (auto simp: is_Ev_NewProposal_def)
  have one: "on_event L S e db = db\<lparr>l2_Proposal := upsert_row (\<lambda>r. pp_hash r = h) (proposed S e)
      (proposed S e (empty_proposal h)) (l2_Proposal db)\<rparr>"
    by (simp add: e on_proposal_def upsert_proposal_def proposed_def)
  have "\<forall>e\<in>set es. is_Ev_NewProposal (snd e)" using Cons.prems by simp
  from Cons.IH [OF this, of "on_event L S e db"] show ?case by (simp add: one) (simp add: listen_def e)
qed (simp add: listen_def)

definition slashed_txs :: "(event_log \<times> l1_event) list \<Rightarrow> tx_doc list \<Rightarrow> tx_doc list" where
  "slashed_txs es = map (\<lambda>r. if td_blockHash r \<in> (\<lambda>e. es_hash (snd e)) ` set es then r\<lparr>td_slashed := True\<rparr> else r)"

lemma slash_events:
  assumes "\<forall>e\<in>set es. is_Ev_Slash (snd e)"
  shows "fold (on_event L S) es db = db\<lparr>l2_Slash := slashes.handle_all L es (l2_Slash db), l2_Tx := slashed_txs es (l2_Tx db)\<rparr>"
  using assms
proof (induction es arbitrary: db)
  case Nil
  show ?case by (simp add: listen_def slashed_txs_def)
next
  case (Cons e es)
  obtain ev h address reason where e: "e = (ev, Ev_Slash h address reason)"
    using Cons.prems by (cases e) (auto simp: is_Ev_Slash_def)
  have one: "on_event L S e db = db\<lparr>l2_Slash := upsert_row (\<lambda>r. sl_hash r = h) (\<lambda>_. row_of_slash L e) (row_of_slash L e) (l2_Slash db),
      l2_Tx := slashed_txs [e] (l2_Tx db)\<rparr>"
    by (simp add: e on_slash_def row_of_slash_def slashed_txs_def update_rows_def Let_def)
  have txs: "slashed_txs es (slashed_txs [e] rows) = slashed_txs (e # es) rows" for rows
    by (auto simp: slashed_txs_def comp_def)
  have "\<forall>e\<in>set es. is_Ev_Slash (snd e)" using Cons.prems by simp
  from Cons.IH [OF this, of "on_event L S e db"] show ?case by (simp add: one txs) (simp add: listen_def e)
qed

lemma filter_covers:
  assumes "set es0 \<union> set es1 = set es"
  shows "filter (\<lambda>n. \<forall>e\<in>set es1. c n e) (filter (\<lambda>n. \<forall>e\<in>set es0. c n e) xs) = filter (\<lambda>n. \<forall>e\<in>set es. c n e) xs"
  unfolding filter_filter assms [symmetric] by (rule filter_cong) auto

lemma slashed_txs_covers:
  assumes "set es0 \<union> set es1 = set es"
  shows "slashed_txs es1 (l2_Tx (db\<lparr>l2_Slash := rows, l2_Tx := slashed_txs es0 txs\<rparr>)) = slashed_txs es txs"
  unfolding slashed_txs_def assms [symmetric] by (simp add: image_Un)

section \<open>Restarts\<close>

lemma deposits_restart:
  assumes sorted: "sorted (map log_block es)" and before: "db' = fold (on_event L S) (take k es) db"
    and only: "\<forall>e\<in>set es. is_Ev_Deposit (snd e)" and new: "l2_Deposit db = []"
  shows "fold (on_event L S) (filter (\<lambda>e. deposits_from db' \<le> log_block e) es) db' = fold (on_event L S) es db"
proof -
  define again where "again = filter (\<lambda>e. deposits_from db' \<le> log_block e) es"
  have all: "\<forall>e\<in>set (take k es). is_Ev_Deposit (snd e)" "\<forall>e\<in>set again. is_Ev_Deposit (snd e)"
    using only by (auto simp: again_def dest: in_set_takeD)
  note db' = before [unfolded deposit_events [OF all(1)]]
  have table: "l2_Deposit db' = deposits.handle_all (take k es) []" using new by (simp add: db')
  have "deposits.handle_all again (l2_Deposit db') = deposits.handle_all es []"
    using deposits.catches_up [OF sorted table] by (simp add: again_def deposits_from_def)
  moreover have "set (take k es) \<union> set again = set es"
    using deposits.covers [OF sorted table] by (simp add: again_def deposits_from_def)
  ultimately show ?thesis
    unfolding again_def [symmetric] deposit_events [OF all(2)] deposit_events [OF only]
    using new filter_covers [of "take k es" again es "\<lambda>n e. n \<noteq> uint (ed_note (snd e))"]
    by (simp add: db')
qed

lemma mass_deposits_restart:
  assumes sorted: "sorted (map log_block es)" and before: "db' = fold (on_event L S) (take k es) db"
    and only: "\<forall>e\<in>set es. is_Ev_MassDepositCommit (snd e)" and new: "l2_MassDeposit db = []"
  shows "fold (on_event L S) (filter (\<lambda>e. massDeposits_from db' \<le> log_block e) es) db' = fold (on_event L S) es db"
proof -
  define again where "again = filter (\<lambda>e. massDeposits_from db' \<le> log_block e) es"
  have all: "\<forall>e\<in>set (take k es). is_Ev_MassDepositCommit (snd e)" "\<forall>e\<in>set again. is_Ev_MassDepositCommit (snd e)"
    using only by (auto simp: again_def dest: in_set_takeD)
  note db' = before [unfolded mass_deposit_events [OF all(1)]]
  have table: "l2_MassDeposit db' = mass_deposits.handle_all (take k es) []" using new by (simp add: db')
  have "mass_deposits.handle_all again (l2_MassDeposit db') = mass_deposits.handle_all es []"
    using mass_deposits.catches_up [OF sorted table] by (simp add: again_def massDeposits_from_def)
  then show ?thesis
    unfolding again_def [symmetric] mass_deposit_events [OF all(2)] mass_deposit_events [OF only]
    using new by (simp add: db')
qed

lemma proposals_restart:
  assumes sorted: "sorted (map log_block es)" and before: "db' = fold (on_event L S) (take k es) db"
    and only: "\<forall>e\<in>set es. is_Ev_NewProposal (snd e)" and new: "l2_Proposal db = []"
  shows "fold (on_event L S) (filter (\<lambda>e. proposals_from db' \<le> log_block e) es) db' = fold (on_event L S) es db"
proof -
  define again where "again = filter (\<lambda>e. proposals_from db' \<le> log_block e) es"
  have all: "\<forall>e\<in>set (take k es). is_Ev_NewProposal (snd e)" "\<forall>e\<in>set again. is_Ev_NewProposal (snd e)"
    using only by (auto simp: again_def dest: in_set_takeD)
  note db' = before [unfolded proposal_events [OF all(1)]]
  have table: "l2_Proposal db' = proposals.handle_all S (take k es) []" using new by (simp add: db')
  have "proposals.handle_all S again (l2_Proposal db') = proposals.handle_all S es []"
    using proposals.catches_up [OF sorted table] by (simp add: again_def proposals_from_def)
  then show ?thesis
    unfolding again_def [symmetric] proposal_events [OF all(2)] proposal_events [OF only]
    using new by (simp add: db')
qed

lemma slashes_restart:
  assumes sorted: "sorted (map log_block es)" and before: "db' = fold (on_event L S) (take k es) db"
    and only: "\<forall>e\<in>set es. is_Ev_Slash (snd e)" and new: "l2_Slash db = []"
  shows "fold (on_event L S) (filter (\<lambda>e. slashes_from db' \<le> log_block e) es) db' = fold (on_event L S) es db"
proof -
  define again where "again = filter (\<lambda>e. slashes_from db' \<le> log_block e) es"
  have all: "\<forall>e\<in>set (take k es). is_Ev_Slash (snd e)" "\<forall>e\<in>set again. is_Ev_Slash (snd e)"
    using only by (auto simp: again_def dest: in_set_takeD)
  note db' = before [unfolded slash_events [OF all(1)]]
  have table: "l2_Slash db' = slashes.handle_all L (take k es) []" using new by (simp add: db')
  have "slashes.handle_all L again (l2_Slash db') = slashes.handle_all L es []"
    using slashes.catches_up [OF sorted table] by (simp add: again_def slashes_from_def)
  moreover have "set (take k es) \<union> set again = set es"
    using slashes.covers [OF sorted table] by (simp add: again_def slashes_from_def)
  ultimately show ?thesis
    unfolding again_def [symmetric] slash_events [OF all(2)] slash_events [OF only]
    using new slashed_txs_covers [of "take k es" again es] by (simp add: db')
qed

text \<open>
  The two listeners of tokens share their start: when an ERC721 registration of a later block was handled
  before a stop, an ERC20 registration of an earlier block is not delivered any more.
\<close>

lemma shared_start_skips_token:
  assumes "ev_blockNumber ev < ev_blockNumber ev'" and "db' = on_event L S (ev', Ev_NewErc721 b) db"
  shows "(ev, Ev_NewErc20 a) \<notin> set (filter (\<lambda>e. tokens_from db' \<le> log_block e) es)"
proof -
  let ?col = "\<lambda>r. Some (tk_blockNumber r)"
  have "token_row_of L False b ev' \<in> set (l2_TokenRegistry db')"
    by (auto simp: assms(2) on_token_def upsert_row_def update_rows_def list_ex_iff image_iff Let_def)
  then have "token_row_of L False b ev' \<in> set (rev (sort_key ?col (l2_TokenRegistry db')))" by simp
  moreover have "sorted (map ?col (sort_key ?col (l2_TokenRegistry db')))" by (rule sorted_sort_key)
  then have "sorted_wrt (\<ge>) (map ?col (rev (sort_key ?col (l2_TokenRegistry db'))))"
    by (simp add: rev_map [symmetric] sorted_wrt_rev)
  ultimately have "ev_blockNumber ev' \<le> tokens_from db'"
    by (cases "rev (sort_key ?col (l2_TokenRegistry db'))")
      (auto simp: tokens_from_def from_block_def order_desc_def first_row_def token_row_of_def)
  with assms(1) show ?thesis by auto
qed

text \<open>C33: Four listeners of a node that stops and starts again miss nothing. Let the table of a listener of
  deposits, mass deposits, proposals or slashes be empty, the events of its kind come in the order of their
  blocks, and the node stop after any first part of them. Each of these listeners starts again at the
  block of the latest row of its own table, and the tables after it got the events from there on, some of
  them for the second time, are those of a node that handled every event once. The two listeners of tokens
  share a start and are excluded.\<close>

theorem restart_catches_up:
  assumes "sorted (map log_block es)" and "db' = fold (on_event L S) (take k es) db"
    and "(\<forall>e\<in>set es. is_Ev_Deposit (snd e)) \<and> start = deposits_from \<and> l2_Deposit db = [] \<or>
      (\<forall>e\<in>set es. is_Ev_MassDepositCommit (snd e)) \<and> start = massDeposits_from \<and> l2_MassDeposit db = [] \<or>
      (\<forall>e\<in>set es. is_Ev_NewProposal (snd e)) \<and> start = proposals_from \<and> l2_Proposal db = [] \<or>
      (\<forall>e\<in>set es. is_Ev_Slash (snd e)) \<and> start = slashes_from \<and> l2_Slash db = []"
  shows "fold (on_event L S) (filter (\<lambda>e. start db' \<le> log_block e) es) db' = fold (on_event L S) es db"
  using assms deposits_restart mass_deposits_restart proposals_restart slashes_restart by metis

text \<open>
  Two proposals in blocks 5 and 7; the node stops after the first, which it gets again.
\<close>

theorem restart_catches_up_witness:
  "\<forall>L S. \<exists>es db. length (filter (\<lambda>e. proposals_from (fold (on_event L S) (take 1 es) db) \<le> log_block e) es) = 2 \<and>
    fold (on_event L S) (filter (\<lambda>e. proposals_from (fold (on_event L S) (take 1 es) db) \<le> log_block e) es)
      (fold (on_event L S) (take 1 es) db) = fold (on_event L S) es db"
proof (intro allI)
  fix L :: l2_lib and S :: sync_lib
  let ?ev = "\<lambda>n. \<lparr>ev_blockNumber = n, ev_transactionHash = ''0'', ev_transactionIndex = 0, ev_logIndex = 0\<rparr>"
  let ?es = "[(?ev 5, Ev_NewProposal 1 1), (?ev 7, Ev_NewProposal 2 2)]"
  let ?db = "undefined\<lparr>l2_Proposal := []\<rparr> :: l2_db"
  have "proposals_from (fold (on_event L S) (take 1 ?es) ?db) = 5"
    by (simp add: on_proposal_def upsert_proposal_def upsert_row_def proposals_from_def from_block_def order_desc_def
        first_row_def set_proposed_def)
  then show "\<exists>es db. length (filter (\<lambda>e. proposals_from (fold (on_event L S) (take 1 es) db) \<le> log_block e) es) = 2 \<and>
    fold (on_event L S) (filter (\<lambda>e. proposals_from (fold (on_event L S) (take 1 es) db) \<le> log_block e) es)
      (fold (on_event L S) (take 1 es) db) = fold (on_event L S) es db"
    using restart_catches_up [of ?es _ L S 1 ?db proposals_from, OF _ refl]
    by (intro exI [of _ ?es] exI [of _ ?db]) simp
qed

end
