(* ===== verification/Sync_Order.thy ===== *)
theory Sync_Order
  imports Synchronizer "HOL-Library.Multiset"
begin

text \<open>
  The listeners of the synchronizer run side by side, so that events of the first layer are handled in
  any order. The tables do not depend on it, except for the owner and the sender of a deposit, which are
  lost when they arrive before the deposit.
\<close>

section \<open>Operations in any order\<close>

locale reorderable =
  fixes same :: "'s \<Rightarrow> 's \<Rightarrow> bool" and act :: "'e \<Rightarrow> 's \<Rightarrow> 's" and apart :: "'e \<Rightarrow> 'e \<Rightarrow> bool"
  assumes same_refl: "same s s"
    and same_trans: "same s t \<Longrightarrow> same t u \<Longrightarrow> same s u"
    and respects: "apart e e \<Longrightarrow> same s t \<Longrightarrow> same (act e s) (act e t)"
    and commutes: "apart e f \<Longrightarrow> same (act e (act f s)) (act f (act e s))"
begin

definition all_apart :: "'e list \<Rightarrow> bool" where
  "all_apart es \<longleftrightarrow> (\<forall>e\<in>set es. \<forall>f\<in>set es. apart e f)"

lemma fold_respects: "all_apart es \<Longrightarrow> same s t \<Longrightarrow> same (fold act es s) (fold act es t)"
  by (induction es arbitrary: s t) (auto simp: all_apart_def respects)

lemma move_last: "all_apart (e # es) \<Longrightarrow> same (fold act (e # es) s) (fold act (es @ [e]) s)"
proof (induction es arbitrary: s)
  case (Cons f es)
  have "all_apart (e # es)" "all_apart es" "apart f e" using Cons.prems by (auto simp: all_apart_def)
  then have "same (fold act es (act f (act e s))) (fold act es (act e (act f s)))"
    "same (fold act (e # es) (act f s)) (fold act (es @ [e]) (act f s))"
    using Cons.IH fold_respects commutes by blast+
  then show ?case using same_trans by simp
qed (simp add: same_refl)

lemma order_irrelevant:
  assumes "mset es = mset es'" and "all_apart es"
  shows "same (fold act es s) (fold act es' s)"
  using assms
proof (induction es' arbitrary: es rule: rev_induct)
  case Nil
  then show ?case by (simp add: same_refl)
next
  case (snoc e es')
  have "set es = set (es' @ [e])" using snoc.prems(1) by (rule mset_eq_setD)
  then obtain a b where es: "es = a @ e # b" by (metis in_set_conv_decomp)
  have "set (e # b) \<subseteq> set es" "set (a @ b) \<subseteq> set es" by (auto simp: es)
  then have parts: "all_apart (e # b)" "all_apart (a @ b)" "apart e e" using snoc.prems(2) es unfolding all_apart_def by auto
  have "mset (a @ b) = mset es'" using snoc.prems(1) by (simp add: es)
  then have "same (fold act (a @ b) s) (fold act es' s)" using snoc.IH parts(2) by blast
  from respects [OF parts(3) this] have "same (fold act (b @ [e]) (fold act a s)) (act e (fold act es' s))" by simp
  with move_last [OF parts(1), of "fold act a s"] same_trans show ?case by (simp add: es)
qed

end

section \<open>Upserts in any order\<close>

lemma mset_upsert_row:
  "mset (upsert_row c f r rows) =
    (if \<exists>x\<in>#mset rows. c x then image_mset (\<lambda>x. if c x then f x else x) (mset rows) else add_mset r (mset rows))"
  by (simp add: upsert_row_def update_rows_def list_ex_iff)

lemma upsert_row_respects: "mset rows = mset rows' \<Longrightarrow> mset (upsert_row c f r rows) = mset (upsert_row c f r rows')"
  by (simp only: mset_upsert_row)

lemma update_rows_respects: "mset rows = mset rows' \<Longrightarrow> mset (update_rows c f rows) = mset (update_rows c f rows')"
  by (simp add: update_rows_def)

text \<open>Two upserts of rows with different keys.\<close>

lemma upserts_apart:
  assumes "\<And>x. c x \<Longrightarrow> c (f x) \<and> \<not> c' x" and "\<And>x. c' x \<Longrightarrow> c' (f' x) \<and> \<not> c x"
    and "c r" "c' r'" and "\<And>x. c x \<Longrightarrow> \<not> c' (f x)" and "\<And>x. c' x \<Longrightarrow> \<not> c (f' x)"
  shows "mset (upsert_row c f r (upsert_row c' f' r' rows)) = mset (upsert_row c' f' r' (upsert_row c f r rows))"
proof -
  let ?u = "\<lambda>x. if c x then f x else x" and ?u' = "\<lambda>x. if c' x then f' x else x"
  have known: "list_ex d xs \<Longrightarrow> upsert_row d g a xs = map (\<lambda>x. if d x then g x else x) xs"
    and new: "\<not> list_ex d xs \<Longrightarrow> upsert_row d g a xs = xs @ [a]" for d g a and xs :: "'a list"
    by (simp_all add: upsert_row_def update_rows_def)
  have "c (?u' x) = c x" "c' (?u x) = c' x" for x using assms by auto
  then have ex: "list_ex c (map ?u' rows) = list_ex c rows" "list_ex c' (map ?u rows) = list_ex c' rows"
    by (simp_all only: list_ex_iff set_map bex_simps)
  have "?u (?u' x) = ?u' (?u x)" for x using assms(1,2,5,6) [of x] by auto
  then have maps: "map ?u (map ?u' rows) = map ?u' (map ?u rows)" by simp
  have r: "\<not> c r'" "\<not> c' r" using assms(1) [of r] assms(2) [of r'] assms(3,4) by auto
  then have ends: "list_ex c (rows @ [r']) = list_ex c rows" "list_ex c' (rows @ [r]) = list_ex c' rows"
    "map ?u (rows @ [r']) = map ?u rows @ [r']" "map ?u' (rows @ [r]) = map ?u' rows @ [r]" by simp_all
  show ?thesis
    by (cases "list_ex c rows"; cases "list_ex c' rows") (simp_all only: known new ex maps ends mset_append mset.simps union_ac not_False_eq_True)
qed

text \<open>Two upserts of one row whose changes commute.\<close>

lemma upserts_same:
  assumes "\<And>x. c (f x) = c x" "\<And>x. c (g x) = c x" and "\<And>x. c x \<Longrightarrow> f (g x) = g (f x)" and "c a" "c b" and "f b = g a"
  shows "upsert_row c f a (upsert_row c g b rows) = upsert_row c g b (upsert_row c f a rows)"
proof (cases "list_ex c rows")
  case True
  then have "list_ex c (map (\<lambda>x. if c x then f x else x) rows)" "list_ex c (map (\<lambda>x. if c x then g x else x) rows)"
    using assms(1,2) by (auto simp: list_ex_iff)
  with True assms(1-3) show ?thesis by (simp add: upsert_row_def update_rows_def)
next
  case False
  then have "map (\<lambda>x. if c x then h x else x) rows = rows" for h by (auto simp: list_ex_iff intro: map_idI)
  with False assms show ?thesis by (simp add: upsert_row_def update_rows_def)
qed

text \<open>The upsert of an event on one table, if it has one.\<close>

type_synonym 'r upsert = "(('r \<Rightarrow> bool) \<times> ('r \<Rightarrow> 'r) \<times> 'r) option"

definition ups :: "'r upsert \<Rightarrow> 'r list \<Rightarrow> 'r list" where
  "ups u rows = (case u of None \<Rightarrow> rows | Some (c, f, r) \<Rightarrow> upsert_row c f r rows)"

lemma ups_simps: "ups None rows = rows" "ups (Some (c, f, r)) rows = upsert_row c f r rows"
  by (simp_all add: ups_def)

lemma ups_respects: "mset rows = mset rows' \<Longrightarrow> mset (ups u rows) = mset (ups u rows')"
  by (cases u) (auto simp: ups_simps intro: upsert_row_respects)

lemma map_upsert_row:
  assumes "\<And>x. c (h x) = c x" and "\<And>x. h (f x) = f' (h x)"
  shows "map h (upsert_row c f r rows) = upsert_row c f' (h r) (map h rows)"
  using assms by (simp add: upsert_row_def update_rows_def list_ex_iff)

text \<open>Upserts by keys that differ commute, and so do equal ones.\<close>

definition upsert_by :: "('r \<Rightarrow> 'k) \<Rightarrow> 'k \<Rightarrow> 'r upsert \<Rightarrow> bool" where
  "upsert_by key k u \<longleftrightarrow> (\<exists>f r. u = Some (\<lambda>x. key x = k, f, r) \<and> key r = k \<and> (\<forall>x. key x = k \<longrightarrow> key (f x) = k))"

lemma ups_apart:
  assumes "upsert_by key k u" and "upsert_by key k' v" and "k \<noteq> k'"
  shows "mset (ups u (ups v rows)) = mset (ups v (ups u rows))"
proof -
  obtain f r f' r' where u: "u = Some (\<lambda>x. key x = k, f, r)" "key r = k" "\<forall>x. key x = k \<longrightarrow> key (f x) = k"
    and v: "v = Some (\<lambda>x. key x = k', f', r')" "key r' = k'" "\<forall>x. key x = k' \<longrightarrow> key (f' x) = k'"
    using assms(1,2) unfolding upsert_by_def by blast
  show ?thesis unfolding ups_def u(1) v(1) option.case prod.case by (rule upserts_apart) (use u v assms(3) in auto)
qed

lemma ups_none: "u = None \<or> v = None \<or> u = v \<Longrightarrow> mset (ups u (ups v rows)) = mset (ups v (ups u rows))"
  by (elim disjE) (simp_all add: ups_simps)

section \<open>The tables an event writes\<close>

definition token_upsert :: "l2_lib \<Rightarrow> event_log \<times> l1_event \<Rightarrow> token_row upsert" where
  "token_upsert L e =
     (case snd e of
        Ev_NewErc20 a \<Rightarrow> Some (\<lambda>r. tk_address r = a, \<lambda>_. token_row_of L True a (fst e), token_row_of L True a (fst e))
      | Ev_NewErc721 a \<Rightarrow> Some (\<lambda>r. tk_address r = a, \<lambda>_. token_row_of L False a (fst e), token_row_of L False a (fst e))
      | _ \<Rightarrow> None)"

text \<open>Of deposits, without the owner and the sender that the details of a deposit add.\<close>

definition erase_owner :: "deposit_row \<Rightarrow> deposit_row" where
  "erase_owner r = r\<lparr>dp_ownerAddress := None, dp_from := None\<rparr>"

definition deposit_upsert :: "event_log \<times> l1_event \<Rightarrow> deposit_row upsert" where
  "deposit_upsert e =
     (case snd e of
        Ev_Deposit n fee queuedAt \<Rightarrow>
          let d = deposit_of n fee queuedAt (fst e) in
          Some (\<lambda>r. dp_note r = uint n, \<lambda>r. d\<lparr>dp_includedIn := dp_includedIn r\<rparr>, d)
      | _ \<Rightarrow> None)"

definition mass_upsert :: "event_log \<times> l1_event \<Rightarrow> mass_deposit_row upsert" where
  "mass_upsert e =
     (case snd e of
        Ev_MassDepositCommit index merged fee \<Rightarrow>
          Some (\<lambda>r. mdr_index r = unat index, \<lambda>r. r, mass_deposit_of index merged fee (fst e))
      | _ \<Rightarrow> None)"

definition proposal_upsert :: "sync_lib \<Rightarrow> event_log \<times> l1_event \<Rightarrow> proposal_row upsert" where
  "proposal_upsert S e =
     (case snd e of
        Ev_NewProposal num h \<Rightarrow>
          Some (\<lambda>r. pp_hash r = h, set_proposed S num (fst e), set_proposed S num (fst e) (empty_proposal h))
      | Ev_Finalized h \<Rightarrow>
          Some (\<lambda>r. pp_hash r = h, \<lambda>r. r\<lparr>pp_finalized := Some True\<rparr>, (empty_proposal h)\<lparr>pp_finalized := Some True\<rparr>)
      | _ \<Rightarrow> None)"

definition slash_upsert :: "l2_lib \<Rightarrow> event_log \<times> l1_event \<Rightarrow> slash_row upsert" where
  "slash_upsert L e =
     (case snd e of
        Ev_Slash h address why \<Rightarrow>
          let row = slash_of L h address why (fst e) in Some (\<lambda>r. sl_hash r = h, \<lambda>_. row, row)
      | _ \<Rightarrow> None)"

text \<open>The row of a deposit to a tracked address.\<close>

definition own_deposit :: "sync_lib \<Rightarrow> event_log \<times> l1_event \<Rightarrow> utxo_doc option" where
  "own_deposit S e =
     (case snd e of
        Ev_DepositUtxo d \<Rightarrow>
          (case find (\<lambda>a. fp_new (du_spendingPubKey d) = PubSK a) (sy_addresses S) of
             None \<Rightarrow> None
           | Some addr \<Rightarrow> Some (deposit_utxo_row S (deposit_note addr d) (fst e)))
      | _ \<Rightarrow> None)"

definition utxo_upsert :: "sync_lib \<Rightarrow> event_log \<times> l1_event \<Rightarrow> utxo_doc upsert" where
  "utxo_upsert S e =
     (case own_deposit S e of None \<Rightarrow> None | Some u \<Rightarrow> Some (\<lambda>r. ur_hash r = ur_hash u, set_deposit_utxo u, u))"

definition slash_mark :: "event_log \<times> l1_event \<Rightarrow> tx_doc list \<Rightarrow> tx_doc list" where
  "slash_mark e =
     (case snd e of
        Ev_Slash h address why \<Rightarrow> update_rows (\<lambda>r. td_blockHash r = h) (\<lambda>r. r\<lparr>td_slashed := True\<rparr>)
      | _ \<Rightarrow> id)"

definition pending_left :: "event_log \<times> l1_event \<Rightarrow> int list \<Rightarrow> int list" where
  "pending_left e =
     (case snd e of Ev_Deposit n fee queuedAt \<Rightarrow> filter (\<lambda>k. k \<noteq> uint n) | _ \<Rightarrow> id)"

definition other_tables :: "l2_db \<Rightarrow> (256 word \<times> header) list \<times> (256 word) list \<times> withdrawal_doc list \<times> instant_doc list \<times> (256 word) list" where
  "other_tables db = (l2_Header db, l2_Block db, l2_Withdrawal db, l2_InstantWithdrawal db, l2_PendingTx db)"

lemma on_event_tables:
  assumes "\<not> is_Ev_GenesisBlock (snd e)"
  shows "l2_TokenRegistry (on_event L S e db) = ups (token_upsert L e) (l2_TokenRegistry db)"
    and "map erase_owner (l2_Deposit (on_event L S e db)) = ups (deposit_upsert e) (map erase_owner (l2_Deposit db))"
    and "l2_MassDeposit (on_event L S e db) = ups (mass_upsert e) (l2_MassDeposit db)"
    and "l2_Proposal (on_event L S e db) = ups (proposal_upsert S e) (l2_Proposal db)"
    and "l2_Slash (on_event L S e db) = ups (slash_upsert L e) (l2_Slash db)"
    and "l2_Utxo (on_event L S e db) = ups (utxo_upsert S e) (l2_Utxo db)"
    and "l2_Tx (on_event L S e db) = slash_mark e (l2_Tx db)"
    and "l2_PendingDeposit (on_event L S e db) = pending_left e (l2_PendingDeposit db)"
    and "other_tables (on_event L S e db) = other_tables db"
proof -
  obtain ev k where e: "e = (ev, k)" by fastforce
  note defs = token_upsert_def deposit_upsert_def mass_upsert_def proposal_upsert_def slash_upsert_def utxo_upsert_def
    own_deposit_def slash_mark_def pending_left_def ups_def on_token_def on_deposit_def on_depositUtxo_def on_massDeposit_def
    on_proposal_def on_finalized_def upsert_proposal_def on_slash_def Let_def other_tables_def
  have erased: "map erase_owner (upsert_row (\<lambda>r. dp_note r = uint n) (set_deposit (deposit_of n fee q ev)) (deposit_of n fee q ev) rows) =
      upsert_row (\<lambda>r. dp_note r = uint n) (\<lambda>r. (deposit_of n fee q ev)\<lparr>dp_includedIn := dp_includedIn r\<rparr>)
        (deposit_of n fee q ev) (map erase_owner rows)" for n fee q rows
    using map_upsert_row [of "\<lambda>r. dp_note r = uint n" erase_owner "set_deposit (deposit_of n fee q ev)"
        "\<lambda>r. (deposit_of n fee q ev)\<lparr>dp_includedIn := dp_includedIn r\<rparr>" "deposit_of n fee q ev" rows]
    by (simp add: erase_owner_def set_deposit_def deposit_of_def)
  have owned: "map erase_owner (update_rows c (\<lambda>r. r\<lparr>dp_ownerAddress := a r, dp_from := b r\<rparr>) rows) = map erase_owner rows"
    for c a b rows by (simp add: update_rows_def erase_owner_def)
  show "l2_TokenRegistry (on_event L S e db) = ups (token_upsert L e) (l2_TokenRegistry db)"
    "map erase_owner (l2_Deposit (on_event L S e db)) = ups (deposit_upsert e) (map erase_owner (l2_Deposit db))"
    "l2_MassDeposit (on_event L S e db) = ups (mass_upsert e) (l2_MassDeposit db)"
    "l2_Proposal (on_event L S e db) = ups (proposal_upsert S e) (l2_Proposal db)"
    "l2_Slash (on_event L S e db) = ups (slash_upsert L e) (l2_Slash db)"
    "l2_Utxo (on_event L S e db) = ups (utxo_upsert S e) (l2_Utxo db)"
    "l2_Tx (on_event L S e db) = slash_mark e (l2_Tx db)"
    "l2_PendingDeposit (on_event L S e db) = pending_left e (l2_PendingDeposit db)"
    "other_tables (on_event L S e db) = other_tables db"
    using assms unfolding e by (cases k; simp add: defs erased owned split: option.split)+
qed

section \<open>The same tables\<close>

text \<open>
  Tables as sets of rows with their numbers; the owner and the sender of a deposit are left out, which
  are only set when the row of the deposit came first.
\<close>

definition same_tables :: "l2_db \<Rightarrow> l2_db \<Rightarrow> bool" where
  "same_tables db db' \<longleftrightarrow>
     mset (l2_TokenRegistry db) = mset (l2_TokenRegistry db') \<and>
     mset (map erase_owner (l2_Deposit db)) = mset (map erase_owner (l2_Deposit db')) \<and>
     mset (l2_MassDeposit db) = mset (l2_MassDeposit db') \<and> mset (l2_Proposal db) = mset (l2_Proposal db') \<and>
     mset (l2_Slash db) = mset (l2_Slash db') \<and> mset (l2_Utxo db) = mset (l2_Utxo db') \<and>
     mset (l2_Tx db) = mset (l2_Tx db') \<and> mset (l2_PendingDeposit db) = mset (l2_PendingDeposit db') \<and>
     other_tables db = other_tables db'"

text \<open>What an event is about; events about the same row must be the same event.\<close>

datatype event_key =
    Token_key string | Deposit_key "256 word" | Mass_key "256 word" | Proposal_key "256 word" | Slash_key "256 word"
  | Note_key int | Free_key

definition event_key :: "sync_lib \<Rightarrow> event_log \<times> l1_event \<Rightarrow> event_key" where
  "event_key S e =
     (case snd e of
        Ev_NewErc20 a \<Rightarrow> Token_key a
      | Ev_NewErc721 a \<Rightarrow> Token_key a
      | Ev_Deposit n fee queuedAt \<Rightarrow> Deposit_key n
      | Ev_MassDepositCommit index merged fee \<Rightarrow> Mass_key index
      | Ev_NewProposal num h \<Rightarrow> Proposal_key h
      | Ev_Slash h address why \<Rightarrow> Slash_key h
      | Ev_DepositUtxo d \<Rightarrow> (case own_deposit S e of None \<Rightarrow> Free_key | Some u \<Rightarrow> Note_key (ur_hash u))
      | _ \<Rightarrow> Free_key)"

definition apart_events :: "sync_lib \<Rightarrow> event_log \<times> l1_event \<Rightarrow> event_log \<times> l1_event \<Rightarrow> bool" where
  "apart_events S e f \<longleftrightarrow> \<not> is_Ev_GenesisBlock (snd e) \<and> \<not> is_Ev_GenesisBlock (snd f) \<and>
     (event_key S e = event_key S f \<longrightarrow> event_key S e = Free_key \<or> e = f)"

lemma keyed_commutes:
  assumes key: "\<And>e. u e = None \<or> (\<exists>k. event_key S e = K k \<and> upsert_by col (g k) (u e))"
    and inj: "\<And>a b. g a = g b \<Longrightarrow> a = b" and keyed: "\<And>k. K k \<noteq> Free_key" and apart: "apart_events S e f"
  shows "mset (ups (u e) (ups (u f) rows)) = mset (ups (u f) (ups (u e) rows))"
proof (cases "u e = None \<or> u f = None \<or> u e = u f")
  case False
  obtain k k' where k: "event_key S e = K k" "upsert_by col (g k) (u e)" and k': "event_key S f = K k'" "upsert_by col (g k') (u f)"
    using key [of e] key [of f] False by auto
  have "e \<noteq> f" using False by auto
  with apart k(1) k'(1) keyed have "k \<noteq> k'" by (auto simp: apart_events_def)
  with inj have "g k \<noteq> g k'" by blast
  from ups_apart [OF k(2) k'(2) this] show ?thesis .
qed (rule ups_none)

lemma token_key:
  "token_upsert L e = None \<or> (\<exists>a. event_key S e = Token_key a \<and> upsert_by tk_address a (token_upsert L e))"
  by (cases "snd e") (auto simp: token_upsert_def event_key_def upsert_by_def token_row_of_def)

lemma deposit_key:
  "deposit_upsert e = None \<or> (\<exists>n. event_key S e = Deposit_key n \<and> upsert_by dp_note (uint n) (deposit_upsert e))"
  by (cases "snd e") (auto simp: deposit_upsert_def event_key_def upsert_by_def deposit_of_def Let_def)

lemma mass_key:
  "mass_upsert e = None \<or> (\<exists>n. event_key S e = Mass_key n \<and> upsert_by mdr_index (unat n) (mass_upsert e))"
  by (cases "snd e") (auto simp: mass_upsert_def event_key_def upsert_by_def mass_deposit_of_def)

lemma slash_key:
  "slash_upsert L e = None \<or> (\<exists>h. event_key S e = Slash_key h \<and> upsert_by sl_hash h (slash_upsert L e))"
  by (cases "snd e") (auto simp: slash_upsert_def event_key_def upsert_by_def slash_of_def Let_def)

lemma utxo_key:
  "utxo_upsert S e = None \<or> (\<exists>h. event_key S e = Note_key h \<and> upsert_by ur_hash h (utxo_upsert S e))"
  by (cases "snd e") (auto simp: utxo_upsert_def own_deposit_def event_key_def upsert_by_def set_deposit_utxo_def split: option.splits)

text \<open>A proposal and its finalization are about one row, and set different columns.\<close>

lemma proposal_upsert_cases:
  assumes "proposal_upsert S e \<noteq> None"
  obtains num h where "snd e = Ev_NewProposal num h" | h where "snd e = Ev_Finalized h"
  using assms by (cases "snd e") (simp_all add: proposal_upsert_def)

definition proposal_hash :: "event_log \<times> l1_event \<Rightarrow> 256 word" where
  "proposal_hash e = (case snd e of Ev_NewProposal num h \<Rightarrow> h | Ev_Finalized h \<Rightarrow> h | _ \<Rightarrow> 0)"

lemma proposal_by_hash:
  assumes "proposal_upsert S e \<noteq> None"
  shows "upsert_by pp_hash (proposal_hash e) (proposal_upsert S e)"
  using assms by (cases rule: proposal_upsert_cases)
    (simp_all add: proposal_upsert_def upsert_by_def proposal_hash_def set_proposed_def empty_proposal_def)

lemma proposed_and_finalized:
  assumes "snd e = Ev_NewProposal num h" and "snd f = Ev_Finalized h"
  shows "ups (proposal_upsert S e) (ups (proposal_upsert S f) rows) = ups (proposal_upsert S f) (ups (proposal_upsert S e) rows)"
  unfolding proposal_upsert_def assms l1_event.case ups_simps
  by (rule upserts_same) (simp_all add: set_proposed_def empty_proposal_def)

lemma proposal_commutes:
  assumes apart: "apart_events S e f"
  shows "mset (ups (proposal_upsert S e) (ups (proposal_upsert S f) rows)) = mset (ups (proposal_upsert S f) (ups (proposal_upsert S e) rows))"
proof (cases "proposal_upsert S e = None \<or> proposal_upsert S f = None \<or> proposal_upsert S e = proposal_upsert S f")
  case False
  then have some: "proposal_upsert S e \<noteq> None" "proposal_upsert S f \<noteq> None" and diff: "proposal_upsert S e \<noteq> proposal_upsert S f" by auto
  show ?thesis
  proof (cases "proposal_hash e = proposal_hash f")
    case same: True
    from some(1) show ?thesis
    proof (cases rule: proposal_upsert_cases)
      case e: (1 num h)
      from some(2) show ?thesis
      proof (cases rule: proposal_upsert_cases)
        case (1 num' h')
        with e same apart have "e = f" by (simp add: proposal_hash_def apart_events_def event_key_def)
        with diff show ?thesis by simp
      next
        case (2 h')
        with e same have "snd f = Ev_Finalized h" by (simp add: proposal_hash_def)
        from proposed_and_finalized [OF e this] show ?thesis by simp
      qed
    next
      case e: (2 h)
      from some(2) show ?thesis
      proof (cases rule: proposal_upsert_cases)
        case (1 num h')
        with e same have "snd e = Ev_Finalized h'" by (simp add: proposal_hash_def)
        from proposed_and_finalized [OF 1 this] show ?thesis by simp
      next
        case (2 h')
        with e same diff show ?thesis by (simp add: proposal_hash_def proposal_upsert_def)
      qed
    qed
  next
    case other: False
    from ups_apart [OF proposal_by_hash proposal_by_hash other] some show ?thesis by blast
  qed
qed (rule ups_none)

section \<open>The order of events\<close>

lemma slash_mark_maps: "slash_mark e = id \<or> (\<exists>h. slash_mark e = map (\<lambda>r. if td_blockHash r = h then r\<lparr>td_slashed := True\<rparr> else r))"
  by (cases "snd e") (auto simp: slash_mark_def update_rows_def fun_eq_iff)

lemma pending_left_filters: "pending_left e = id \<or> (\<exists>h. pending_left e = filter h)"
  by (cases "snd e") (auto simp: pending_left_def)

lemma slash_mark_respects: "mset rows = mset rows' \<Longrightarrow> mset (slash_mark e rows) = mset (slash_mark e rows')"
  using slash_mark_maps [of e] by (elim disjE exE) (simp_all add: mset_map)

lemma pending_left_respects: "mset rows = mset rows' \<Longrightarrow> mset (pending_left e rows) = mset (pending_left e rows')"
  using pending_left_filters [of e] by (elim disjE exE) (simp_all add: mset_filter)

lemma same_tables_respects:
  assumes "apart_events S e e" and same: "same_tables s t"
  shows "same_tables (on_event L S e s) (on_event L S e t)"
proof -
  have e: "\<not> is_Ev_GenesisBlock (snd e)" using assms(1) by (simp add: apart_events_def)
  note tables = same [unfolded same_tables_def]
  show ?thesis
    unfolding same_tables_def on_event_tables [OF e]
    using tables by (elim conjE) (intro conjI ups_respects slash_mark_respects pending_left_respects; assumption)
qed

lemma slash_marks_commute: "slash_mark e (slash_mark f rows) = slash_mark f (slash_mark e rows)"
  using slash_mark_maps [of e] slash_mark_maps [of f] by (elim disjE exE) simp_all

lemma pending_lefts_commute: "pending_left e (pending_left f rows) = pending_left f (pending_left e rows)"
  using pending_left_filters [of e] pending_left_filters [of f] by (elim disjE exE) (simp_all add: conj_commute)

lemma same_tables_commute:
  assumes apart: "apart_events S e f"
  shows "same_tables (on_event L S e (on_event L S f s)) (on_event L S f (on_event L S e s))"
proof -
  have e: "\<not> is_Ev_GenesisBlock (snd e)" and f: "\<not> is_Ev_GenesisBlock (snd f)"
    using apart by (simp_all add: apart_events_def)
  note unsigned = word_uint_eqI word_unat_eq_iff [THEN iffD2]
  note [simp] = event_key.distinct
  show ?thesis
    unfolding same_tables_def on_event_tables [OF e] on_event_tables [OF f]
    by (intro conjI keyed_commutes [OF token_key _ _ apart] keyed_commutes [OF deposit_key _ _ apart]
        keyed_commutes [OF mass_key _ _ apart] keyed_commutes [OF slash_key _ _ apart] keyed_commutes [OF utxo_key _ _ apart]
        proposal_commutes [OF apart] arg_cong [where f = mset] slash_marks_commute pending_lefts_commute refl unsigned) simp_all
qed

interpretation events: reorderable same_tables "on_event L S" "apart_events S" for L S
proof
  show "same_tables s s" for s by (simp add: same_tables_def)
  show "same_tables s u" if "same_tables s t" "same_tables t u" for s t u using that by (simp add: same_tables_def)
qed (rule same_tables_respects, assumption+, rule same_tables_commute)

section \<open>Owners of deposits\<close>

text \<open>
  The rows of deposits with all columns. An event is about the deposit of a note when it is that deposit or
  the details of it for a tracked address; what becomes of the row depends on these events alone.
\<close>

definition about_note :: "sync_lib \<Rightarrow> int \<Rightarrow> event_log \<times> l1_event \<Rightarrow> bool" where
  "about_note S n e =
     (case snd e of
        Ev_Deposit m fee queuedAt \<Rightarrow> uint m = n
      | _ \<Rightarrow> (case own_deposit S e of None \<Rightarrow> False | Some u \<Rightarrow> ur_hash u = n))"

definition deposit_rows :: "sync_lib \<Rightarrow> event_log \<times> l1_event \<Rightarrow> deposit_row list \<Rightarrow> deposit_row list" where
  "deposit_rows S e rows = l2_Deposit (on_event undefined S e (undefined\<lparr>l2_Deposit := rows\<rparr>))"

lemma upsert_row_filter:
  assumes "\<And>x. key x = k \<Longrightarrow> key (f x) = k" and "key r = k"
  shows "filter (\<lambda>x. key x = n) (upsert_row (\<lambda>x. key x = k) f r rows) =
    (if k = n then upsert_row (\<lambda>x. key x = k) f r (filter (\<lambda>x. key x = n) rows) else filter (\<lambda>x. key x = n) rows)"
proof -
  have upd: "filter (\<lambda>x. key x = n) (map (\<lambda>x. if key x = k then f x else x) rows) =
      map (\<lambda>x. if key x = k then f x else x) (filter (\<lambda>x. key x = n) rows)"
    using assms(1) by (induction rows) auto
  moreover have "map (\<lambda>x. if key x = k then f x else x) (filter (\<lambda>x. key x = n) rows) = filter (\<lambda>x. key x = n) rows" if "k \<noteq> n"
    using that by (induction rows) auto
  moreover have "list_ex (\<lambda>x. key x = k) (filter (\<lambda>x. key x = k) rows) = list_ex (\<lambda>x. key x = k) rows"
    by (auto simp: list_ex_iff)
  ultimately show ?thesis using assms(2) by (auto simp: upsert_row_def update_rows_def)
qed

lemma update_rows_filter:
  assumes "\<And>x. key (f x) = key x"
  shows "filter (\<lambda>x. key x = n) (update_rows (\<lambda>x. key x = k) f rows) =
    (if k = n then update_rows (\<lambda>x. key x = k) f (filter (\<lambda>x. key x = n) rows) else filter (\<lambda>x. key x = n) rows)"
  using assms by (induction rows) (auto simp: update_rows_def)

lemma on_event_deposits:
  assumes "\<not> is_Ev_GenesisBlock (snd e)"
  shows "l2_Deposit (on_event L S e db) = deposit_rows S e (l2_Deposit db)"
    and "filter (\<lambda>r. dp_note r = n) (deposit_rows S e rows) =
      (if about_note S n e then deposit_rows S e (filter (\<lambda>r. dp_note r = n) rows) else filter (\<lambda>r. dp_note r = n) rows)"
proof -
  obtain ev k where e: "e = (ev, k)" by fastforce
  note defs = deposit_rows_def on_token_def on_deposit_def on_depositUtxo_def on_massDeposit_def
    on_proposal_def on_finalized_def upsert_proposal_def on_slash_def Let_def
  show "l2_Deposit (on_event L S e db) = deposit_rows S e (l2_Deposit db)"
    using assms unfolding e by (cases k) (simp_all add: defs split: option.split)
  show "filter (\<lambda>r. dp_note r = n) (deposit_rows S e rows) =
      (if about_note S n e then deposit_rows S e (filter (\<lambda>r. dp_note r = n) rows) else filter (\<lambda>r. dp_note r = n) rows)"
  proof (cases k)
    case (Ev_Deposit m fee queuedAt)
    have "filter (\<lambda>r. dp_note r = n) (upsert_row (\<lambda>r. dp_note r = uint m) (set_deposit (deposit_of m fee queuedAt ev)) (deposit_of m fee queuedAt ev) rows) =
      (if uint m = n then upsert_row (\<lambda>r. dp_note r = uint m) (set_deposit (deposit_of m fee queuedAt ev)) (deposit_of m fee queuedAt ev)
          (filter (\<lambda>r. dp_note r = n) rows) else filter (\<lambda>r. dp_note r = n) rows)"
      by (rule upsert_row_filter) (simp_all add: set_deposit_def deposit_of_def)
    then show ?thesis unfolding e Ev_Deposit by (simp add: defs about_note_def)
  next
    case (Ev_DepositUtxo d)
    show ?thesis unfolding e Ev_DepositUtxo
      by (cases "find (\<lambda>a. fp_new (du_spendingPubKey d) = PubSK a) (sy_addresses S)")
        (simp_all add: defs about_note_def own_deposit_def update_rows_filter)
  qed (use assms e in \<open>simp_all add: defs about_note_def own_deposit_def\<close>)
qed

lemma deposits_by_note:
  assumes "\<forall>e\<in>set es. \<not> is_Ev_GenesisBlock (snd e)"
  shows "filter (\<lambda>r. dp_note r = n) (l2_Deposit (fold (on_event L S) es db)) =
    fold (deposit_rows S) (filter (about_note S n) es) (filter (\<lambda>r. dp_note r = n) (l2_Deposit db))"
  using assms by (induction es arbitrary: db) (simp_all add: on_event_deposits)

lemma mset_by_key:
  assumes "\<And>n. filter (\<lambda>x. key x = n) xs = filter (\<lambda>x. key x = n) ys"
  shows "mset xs = mset ys"
proof (rule multiset_eqI)
  fix x
  have "count (mset zs) x = count (mset (filter (\<lambda>y. key y = key x) zs)) x" for zs by (simp add: mset_filter)
  then show "count (mset xs) x = count (mset ys) x" using assms by metis
qed

text \<open>C34: The order in which the listeners get the events of the first layer does not matter, with one
  exception. Take events without the genesis block of which two about the same row are the same event, and any
  two orders of them. Then the two leave the same rows in every table, up to the positions of the rows and
  up to the owner and the sender noted with a deposit. The deposits agree in these columns as well when, for
  every note, its deposit and the details of it come in the same order in both.\<close>

theorem event_order_irrelevant:
  assumes "mset es = mset es'" and "\<forall>e\<in>set es. \<forall>f\<in>set es. apart_events S e f"
  shows "same_tables (fold (on_event L S) es db) (fold (on_event L S) es' db) \<and>
    ((\<forall>n. filter (about_note S n) es = filter (about_note S n) es') \<longrightarrow>
      mset (l2_Deposit (fold (on_event L S) es db)) = mset (l2_Deposit (fold (on_event L S) es' db)))"
proof
  show "same_tables (fold (on_event L S) es db) (fold (on_event L S) es' db)"
    using events.order_irrelevant [OF assms(1)] assms(2) by (simp add: events.all_apart_def)
  have set: "set es' = set es" using assms(1) by (metis set_mset_mset)
  have plain: "\<forall>e\<in>set es. \<not> is_Ev_GenesisBlock (snd e)" using assms(2) by (auto simp: apart_events_def)
  show "(\<forall>n. filter (about_note S n) es = filter (about_note S n) es') \<longrightarrow>
      mset (l2_Deposit (fold (on_event L S) es db)) = mset (l2_Deposit (fold (on_event L S) es' db))"
    by (intro impI mset_by_key [of dp_note]) (simp add: deposits_by_note plain set)
qed

text \<open>The exception: details that come first are lost.\<close>

lemma details_first_lost:
  assumes "find (\<lambda>a. fp_new (du_spendingPubKey d) = PubSK a) (sy_addresses S) = Some addr"
    and "ur_hash (deposit_utxo_row S (deposit_note addr d) ev') = uint n" and "l2_Deposit db = []"
  shows "map dp_ownerAddress (l2_Deposit (fold (on_event L S) [(ev', Ev_DepositUtxo d), (ev, Ev_Deposit n fee q)] db)) = [None]"
    and "map dp_ownerAddress (l2_Deposit (fold (on_event L S) [(ev, Ev_Deposit n fee q), (ev', Ev_DepositUtxo d)] db)) =
      [Some (address_text addr)]"
  using assms by (simp_all add: on_deposit_def on_depositUtxo_def upsert_row_def update_rows_def deposit_of_def Let_def)

text \<open>Two deposits and the finalization of a proposal, in both orders.\<close>

theorem event_order_irrelevant_witness:
  "\<forall>ev L S db. same_tables
     (fold (on_event L S) [(ev, Ev_NewProposal 1 7), (ev, Ev_Deposit 5 1 2), (ev, Ev_Finalized 7)] db)
     (fold (on_event L S) [(ev, Ev_Finalized 7), (ev, Ev_Deposit 5 1 2), (ev, Ev_NewProposal 1 7)] db) \<and>
   mset (l2_Deposit (fold (on_event L S) [(ev, Ev_NewProposal 1 7), (ev, Ev_Deposit 5 1 2), (ev, Ev_Finalized 7)] db)) =
   mset (l2_Deposit (fold (on_event L S) [(ev, Ev_Finalized 7), (ev, Ev_Deposit 5 1 2), (ev, Ev_NewProposal 1 7)] db))"
proof (intro allI)
  fix ev :: event_log and L :: l2_lib and S :: sync_lib and db :: l2_db
  let ?es = "[(ev, Ev_NewProposal 1 7), (ev, Ev_Deposit 5 1 2), (ev, Ev_Finalized 7)]"
  let ?es' = "[(ev, Ev_Finalized 7), (ev, Ev_Deposit 5 1 2), (ev, Ev_NewProposal 1 7)]"
  have "mset ?es = mset ?es'" by simp
  moreover have "\<forall>e\<in>set ?es. \<forall>f\<in>set ?es. apart_events S e f" by (simp add: apart_events_def event_key_def)
  moreover have "\<forall>n. filter (about_note S n) ?es = filter (about_note S n) ?es'" by (simp add: about_note_def own_deposit_def)
  ultimately show "same_tables (fold (on_event L S) ?es db) (fold (on_event L S) ?es' db) \<and>
      mset (l2_Deposit (fold (on_event L S) ?es db)) = mset (l2_Deposit (fold (on_event L S) ?es' db))"
    using event_order_irrelevant [of ?es ?es' S L db] by blast
qed

end
