(* ===== verification/Js_Values.thy ===== *)
theory Js_Values
  imports Prelude
begin

text \<open>
  The values that documents and queries of the database hold, as JavaScript has them: what \<open>===\<close>, the
  comparisons, the spread of objects, string conversion and \<open>JSON.stringify\<close> do with them. Numbers are
  integers, objects lists of their properties in the order in which they were set.
\<close>

section \<open>Values and objects\<close>

datatype js =
    JUndefined
  | JNull
  | JBool bool
  | JNum int
  | JStr string
  | JArr "js list"
  | JObj "(string \<times> js) list"

type_synonym js_object = "(string \<times> js) list"

text \<open>\<open>Object.keys(d)\<close>.\<close>

primrec js_keys :: "(string \<times> 'v) list \<Rightarrow> string list" where
  "js_keys [] = []"
| "js_keys (p # d) = fst p # js_keys d"

text \<open>\<open>d[k]\<close>.\<close>

definition js_get :: "js_object \<Rightarrow> string \<Rightarrow> js" where
  "js_get d k = (case map_of d k of None \<Rightarrow> JUndefined | Some v \<Rightarrow> v)"

text \<open>\<open>d[k] = v\<close>.\<close>

fun js_put :: "string \<Rightarrow> 'v \<Rightarrow> (string \<times> 'v) list \<Rightarrow> (string \<times> 'v) list" where
  "js_put k v [] = [(k, v)]"
| "js_put k v ((k', v') # d) = (if k' = k then (k, v) # d else (k', v') # js_put k v d)"

text \<open>\<open>{ ...d, ...e }\<close>, also \<open>Object.assign(d, e)\<close>.\<close>

definition js_spread :: "js_object \<Rightarrow> js_object \<Rightarrow> js_object" where
  "js_spread d e = fold (\<lambda>(k, v). js_put k v) e d"

text \<open>The properties that a spread of any value copies; of strings and lists they are numbered.\<close>

definition own_props :: "js \<Rightarrow> js_object" where
  "own_props v =
     (case v of
        JObj d \<Rightarrow> d
      | JArr vs \<Rightarrow> map (\<lambda>(i, v). (decimal i, v)) (enumerate 0 vs)
      | JStr s \<Rightarrow> map (\<lambda>(i, c). (decimal i, JStr [c])) (enumerate 0 s)
      | _ \<Rightarrow> [])"

definition nullish :: "js \<Rightarrow> bool" where
  "nullish v \<longleftrightarrow> v = JUndefined \<or> v = JNull"

fun truthy :: "js \<Rightarrow> bool" where
  "truthy JUndefined = False"
| "truthy JNull = False"
| "truthy (JBool b) = b"
| "truthy (JNum n) = (n \<noteq> 0)"
| "truthy (JStr s) = (s \<noteq> [])"
| "truthy (JArr vs) = True"
| "truthy (JObj d) = True"

lemma js_keys_map: "js_keys d = map fst d"
  by (induction d) simp_all

lemma js_get_simps [simp]:
  "js_get [] k = JUndefined"
  "js_get ((k', v) # d) k = (if k' = k then v else js_get d k)"
  by (simp_all add: js_get_def)

lemma js_get_put [simp]: "js_get (js_put k v d) k' = (if k' = k then v else js_get d k')"
  by (induction d) auto

lemma js_keys_put: "set (js_keys (js_put k v d)) = insert k (set (js_keys d))"
  by (induction k v d rule: js_put.induct) (simp_all add: insert_commute)

lemma js_get_absent: "k \<notin> set (js_keys d) \<Longrightarrow> js_get d k = JUndefined"
  by (induction d) auto

lemma js_spread_simps [simp]:
  "js_spread d [] = d"
  "js_spread d ((k, v) # e) = js_spread (js_put k v d) e"
  by (simp_all add: js_spread_def)

lemma js_get_spread:
  "distinct (js_keys e) \<Longrightarrow> js_get (js_spread d e) k = (if k \<in> set (js_keys e) then js_get e k else js_get d k)"
  by (induction e arbitrary: d) auto

lemma js_keys_spread: "set (js_keys (js_spread d e)) = set (js_keys d) \<union> set (js_keys e)"
  by (induction e arbitrary: d) (auto simp: js_keys_put)

lemma distinct_js_put: "distinct (js_keys d) \<Longrightarrow> distinct (js_keys (js_put k v d))"
  by (induction k v d rule: js_put.induct) (auto simp: js_keys_put)

lemma distinct_js_spread: "distinct (js_keys d) \<Longrightarrow> distinct (js_keys (js_spread d e))"
  by (induction e arbitrary: d) (auto simp: distinct_js_put)

lemma decimal_digits: "set (decimal n) \<subseteq> set ''0123456789''"
proof (induction n rule: decimal.induct)
  case (1 n)
  have digit: "char_of (48 + m) \<in> set ''0123456789''" if "m < 10" for m :: nat
  proof -
    have "m \<in> {0, 1, 2, 3, 4, 5, 6, 7, 8, 9}" using that by auto
    then show ?thesis by (elim insertE emptyE) (simp_all add: char_of_eq_iff take_bit_eq_mod)
  qed
  show ?case
  proof (cases "n < 10")
    case True
    then show ?thesis using digit [of n] by (subst decimal.simps) simp
  next
    case False
    then show ?thesis using digit [of "n mod 10"] 1 by (subst decimal.simps) simp
  qed
qed

lemma decimal_neq: "k \<notin> lists (set ''0123456789'') \<Longrightarrow> decimal n \<noteq> k"
  using decimal_digits by (auto simp: in_lists_conv_set)

lemma js_put_new: "k \<notin> set (js_keys d) \<Longrightarrow> js_put k v d = d @ [(k, v)]"
  by (induction k v d rule: js_put.induct) auto

text \<open>A loop that puts entries with different keys.\<close>

lemma fold_put:
  "distinct (map f rs) \<Longrightarrow> set (js_keys d) \<inter> f ` set rs = {} \<Longrightarrow>
    fold (\<lambda>r. js_put (f r) (g r)) rs d = d @ map (\<lambda>r. (f r, g r)) rs"
proof (induction rs arbitrary: d)
  case (Cons r rs)
  then have "js_put (f r) (g r) d = d @ [(f r, g r)]" by (auto intro: js_put_new)
  moreover have "set (js_keys (d @ [(f r, g r)])) \<inter> f ` set rs = {}" using Cons.prems by (auto simp: js_keys_map)
  ultimately show ?case using Cons by simp
qed simp

section \<open>Text\<close>

definition number_text :: "int \<Rightarrow> string" where
  "number_text n = (if n < 0 then CHR ''-'' # decimal (nat (- n)) else decimal (nat n))"

definition join :: "string \<Rightarrow> string list \<Rightarrow> string" where
  "join sep ss = (case ss of [] \<Rightarrow> [] | s # ss \<Rightarrow> s @ concat (map (\<lambda>t. sep @ t) ss))"

lemma join_simps [simp]:
  "join sep [] = []"
  "join sep [s] = s"
  "join sep (s # t # ss) = s @ sep @ join sep (t # ss)"
  by (simp_all add: join_def)

text \<open>\<open>String(v)\<close>, as a template or a comparison does.\<close>

fun js_text :: "js \<Rightarrow> string" where
  "js_text JUndefined = ''undefined''"
| "js_text JNull = ''null''"
| "js_text (JBool b) = (if b then ''true'' else ''false'')"
| "js_text (JNum n) = number_text n"
| "js_text (JStr s) = s"
| "js_text (JArr vs) = join '','' (map (\<lambda>v. if nullish v then [] else js_text v) vs)"
| "js_text (JObj d) = ''[object Object]''"

definition hex_digit :: "nat \<Rightarrow> char" where
  "hex_digit n = ''0123456789abcdef'' ! n"

definition json_char :: "char \<Rightarrow> string" where
  "json_char c =
     (let n = of_char c :: nat in
      if c = CHR 0x22 then [CHR 0x5C, c]
      else if c = CHR 0x5C then [CHR 0x5C, c]
      else if n = 8 then [CHR 0x5C, CHR ''b'']
      else if n = 9 then [CHR 0x5C, CHR ''t'']
      else if n = 10 then [CHR 0x5C, CHR ''n'']
      else if n = 12 then [CHR 0x5C, CHR ''f'']
      else if n = 13 then [CHR 0x5C, CHR ''r'']
      else if n < 32 then CHR 0x5C # ''u00'' @ [hex_digit (n div 16), hex_digit (n mod 16)]
      else [c])"

definition json_string :: "string \<Rightarrow> string" where
  "json_string s = [CHR 0x22] @ concat (map json_char s) @ [CHR 0x22]"

text \<open>\<open>JSON.stringify(v)\<close>; undefined properties are left out, undefined elements are written as null.\<close>

fun js_json :: "js \<Rightarrow> string" where
  "js_json JUndefined = ''undefined''"
| "js_json JNull = ''null''"
| "js_json (JBool b) = (if b then ''true'' else ''false'')"
| "js_json (JNum n) = number_text n"
| "js_json (JStr s) = json_string s"
| "js_json (JArr vs) = ''['' @ join '','' (map (\<lambda>v. if v = JUndefined then ''null'' else js_json v) vs) @ '']''"
| "js_json (JObj d) = CHR 0x7B # join '',''
     (map (\<lambda>(k, s). json_string k @ '':'' @ s)
       (filter (\<lambda>(k, s). js_get d k \<noteq> JUndefined) (map (\<lambda>(k, v). (k, js_json v)) d))) @ [CHR 0x7D]"

section \<open>Comparison\<close>

text \<open>\<open>===\<close>; arrays and objects are equal when they are the same object, which values of a query and of a
  document never are.\<close>

definition strict_equal :: "js \<Rightarrow> js \<Rightarrow> bool" where
  "strict_equal v w \<longleftrightarrow> v = w \<and> (case v of JArr _ \<Rightarrow> False | JObj _ \<Rightarrow> False | _ \<Rightarrow> True)"

text \<open>Strings by their codes.\<close>

fun text_less :: "string \<Rightarrow> string \<Rightarrow> bool" where
  "text_less s [] = False"
| "text_less [] (c # t) = True"
| "text_less (b # s) (c # t) =
     ((of_char b :: nat) < of_char c \<or> b = c \<and> text_less s t)"

text \<open>\<open>ToPrimitive\<close> and \<open>ToNumber\<close>; \<open>N\<close> is \<open>Number(s)\<close> of a string, nothing for \<open>NaN\<close>.\<close>

definition to_primitive :: "js \<Rightarrow> js" where
  "to_primitive v = (case v of JArr _ \<Rightarrow> JStr (js_text v) | JObj _ \<Rightarrow> JStr (js_text v) | _ \<Rightarrow> v)"

fun to_number :: "(string \<Rightarrow> int option) \<Rightarrow> js \<Rightarrow> int option" where
  "to_number N JUndefined = None"
| "to_number N JNull = Some 0"
| "to_number N (JBool b) = Some (if b then 1 else 0)"
| "to_number N (JNum n) = Some n"
| "to_number N (JStr s) = N s"
| "to_number N (JArr vs) = N (js_text (JArr vs))"
| "to_number N (JObj d) = N (js_text (JObj d))"

text \<open>\<open>v < w\<close>, nothing when one of them is \<open>NaN\<close>: then every comparison is false.\<close>

definition js_less :: "(string \<Rightarrow> int option) \<Rightarrow> js \<Rightarrow> js \<Rightarrow> bool option" where
  "js_less N v w =
     (case (to_primitive v, to_primitive w) of
        (JStr s, JStr t) \<Rightarrow> Some (text_less s t)
      | (p, q) \<Rightarrow> (case (to_number N p, to_number N q) of (Some m, Some n) \<Rightarrow> Some (m < n) | _ \<Rightarrow> None))"

definition js_lt :: "(string \<Rightarrow> int option) \<Rightarrow> js \<Rightarrow> js \<Rightarrow> bool" where
  "js_lt N v w \<longleftrightarrow> js_less N v w = Some True"

definition js_ge :: "(string \<Rightarrow> int option) \<Rightarrow> js \<Rightarrow> js \<Rightarrow> bool" where
  "js_ge N v w \<longleftrightarrow> js_less N v w = Some False"

lemma text_less_irrefl: "\<not> text_less s s"
  by (induction s) auto

lemma text_less_trans: "text_less s t \<Longrightarrow> text_less t u \<Longrightarrow> text_less s u"
  by (induction s t arbitrary: u rule: text_less.induct) (auto elim: text_less.elims)

lemma text_less_total: "text_less s t \<or> s = t \<or> text_less t s"
proof (induction s t rule: text_less.induct)
  case (2 c t)
  show ?case by simp
next
  case (3 b s c t)
  show ?case
  proof (cases "b = c")
    case False
    then have "(of_char b :: nat) \<noteq> of_char c" by simp
    then have "(of_char b :: nat) < of_char c \<or> (of_char c :: nat) < of_char b" by linarith
    with False show ?thesis by auto
  qed (use 3 in auto)
next
  case (1 s)
  show ?case by (cases s) simp_all
qed

end
