(* ===== verification/Database.thy ===== *)
theory Database
  imports Js_Values
begin

text \<open>
  The parts of \<open>packages/database/src\<close> that all connectors share: \<open>types.ts\<close> with the description of
  tables, \<open>helpers/memory.ts\<close> with the check and the matching of documents in memory, \<open>helpers/sql.ts\<close>
  with the SQL texts of the same operations, and \<open>helpers/shared.ts\<close> with the loading of related rows.
  Documents and queries are the values of \<open>Js_Values\<close>.
\<close>

section \<open>Tables\<close>

datatype data_type = Int_type | Bool_type | String_type | Object_type

record relation =
  rel_localField :: string
  rel_foreignField :: string
  rel_foreignTable :: string

text \<open>A default is a value, or a function that is called for each document.\<close>

datatype column_default = Default_value js | Default_call string

text \<open>Some rows for relations leave their type out.\<close>

record row_def =
  rd_name :: string
  rd_unique :: bool
  rd_optional :: bool
  rd_index :: bool
  rd_type :: "data_type option"
  rd_relation :: "relation option"
  rd_default :: "column_default option"

record row_options =
  ro_index :: bool
  ro_optional :: bool
  ro_unique :: bool

datatype row_decl = Row row_def | Short_row string data_type "row_options option"

record table_index =
  ti_name :: string
  ti_keys :: "string list"
  ti_unique :: bool
  ti_optional :: bool

record table_data =
  td_name :: string
  td_primaryKey :: "string list"
  td_rows :: "row_decl list"
  td_indexes :: "table_index list"

record schema_table =
  st_name :: string
  st_primaryKey :: "string list"
  st_rows :: "row_def list"
  st_rowsByName :: "(string \<times> row_def) list"
  st_relations :: "(string \<times> relation) list"
  st_indexes :: "table_index list"

type_synonym schema = "(string \<times> schema_table) list"

fun normalizeRowDef :: "row_decl \<Rightarrow> row_def" where
  "normalizeRowDef (Row r) = r"
| "normalizeRowDef (Short_row name type options) =
     \<lparr>rd_name = name,
      rd_unique = (case options of None \<Rightarrow> False | Some ro \<Rightarrow> ro_unique ro),
      rd_optional = (case options of None \<Rightarrow> False | Some ro \<Rightarrow> ro_optional ro),
      rd_index = (case options of None \<Rightarrow> False | Some ro \<Rightarrow> ro_index ro),
      rd_type = Some type, rd_relation = None, rd_default = None\<rparr>"

definition named_index :: "table_index \<Rightarrow> table_index" where
  "named_index i = (if ti_name i \<noteq> [] then i else i\<lparr>ti_name := join ''-'' (ti_keys i) @ ''-index''\<rparr>)"

definition indexed_row :: "string list \<Rightarrow> row_def \<Rightarrow> bool" where
  "indexed_row primaryKey r \<longleftrightarrow> rd_type r \<noteq> Some Bool_type \<and>
     (rd_optional r \<or> rd_unique r \<or> rd_index r \<or> rd_name r \<in> set primaryKey)"

definition row_index :: "row_def \<Rightarrow> table_index" where
  "row_index r =
     \<lparr>ti_name = rd_name r @ ''-index'', ti_keys = [rd_name r], ti_unique = rd_unique r, ti_optional = rd_optional r\<rparr>"

definition construct_table :: "table_data \<Rightarrow> schema_table" where
  "construct_table t =
     (let rows = map normalizeRowDef (td_rows t) in
      \<lparr>st_name = td_name t, st_primaryKey = td_primaryKey t, st_rows = rows,
       st_rowsByName = fold (\<lambda>r. js_put (rd_name r) r) rows [],
       st_relations = fold (\<lambda>r. case rd_relation r of None \<Rightarrow> id | Some rel \<Rightarrow> js_put (rd_name r) rel) rows [],
       st_indexes = map named_index (td_indexes t) @ map row_index (filter (indexed_row (td_primaryKey t)) rows)\<rparr>)"

definition constructSchema :: "table_data list \<Rightarrow> schema" where
  "constructSchema tables = fold (\<lambda>t. js_put (td_name t) (construct_table t)) tables []"

definition row_of :: "schema_table \<Rightarrow> string \<Rightarrow> row_def option" where
  "row_of t k = map_of (st_rowsByName t) k"

definition column_type :: "schema_table \<Rightarrow> string \<Rightarrow> data_type option" where
  "column_type t k = (case row_of t k of None \<Rightarrow> None | Some r \<Rightarrow> rd_type r)"

section \<open>Checking documents\<close>

text \<open>\<open>typeof v\<close> against the type of a column.\<close>

fun has_type :: "data_type \<Rightarrow> js \<Rightarrow> bool" where
  "has_type Bool_type v = (case v of JBool _ \<Rightarrow> True | _ \<Rightarrow> False)"
| "has_type Int_type v = (case v of JNum _ \<Rightarrow> True | _ \<Rightarrow> False)"
| "has_type String_type v = (case v of JStr _ \<Rightarrow> True | _ \<Rightarrow> False)"
| "has_type Object_type v = (case v of JNull \<Rightarrow> True | JArr _ \<Rightarrow> True | JObj _ \<Rightarrow> True | _ \<Rightarrow> False)"

fun type_name :: "data_type option \<Rightarrow> string" where
  "type_name None = ''undefined''"
| "type_name (Some Bool_type) = ''Bool''"
| "type_name (Some Int_type) = ''Int''"
| "type_name (Some String_type) = ''String''"
| "type_name (Some Object_type) = ''Object''"

text \<open>\<open>G f\<close> is what the call of the default function \<open>f\<close> returns. A falsy default counts as none.\<close>

definition has_default :: "row_def \<Rightarrow> bool" where
  "has_default r =
     (case rd_default r of None \<Rightarrow> False | Some (Default_value v) \<Rightarrow> truthy v | Some (Default_call f) \<Rightarrow> True)"

definition default_of :: "(string \<Rightarrow> js) \<Rightarrow> row_def \<Rightarrow> js" where
  "default_of G r =
     (case rd_default r of None \<Rightarrow> JUndefined | Some (Default_value v) \<Rightarrow> v | Some (Default_call f) \<Rightarrow> G f)"

text \<open>One round of the loop over the columns; the state is \<open>defaults\<close>.\<close>

definition check_column :: "(string \<Rightarrow> js) \<Rightarrow> js_object \<Rightarrow> row_def \<Rightarrow> js_object \<Rightarrow> js_object result" where
  "check_column G doc r defaults =
     (let defaults = (if has_default r \<and> nullish (js_get doc (rd_name r))
                      then js_put (rd_name r) (default_of G r) defaults else defaults);
          v = js_get (js_spread defaults doc) (rd_name r) in
      if \<not> rd_optional r \<and> rd_relation r = None \<and> nullish v
      then Throw (''NULL received for non-optional field '' @ rd_name r)
      else
        (case rd_type r of
           None \<Rightarrow> Ok defaults
         | Some t \<Rightarrow>
             if \<not> nullish v \<and> \<not> has_type t v
             then Throw (''Unrecognized value '' @ js_text v @ '' for type '' @ type_name (Some t))
             else Ok defaults))"

definition validate_doc :: "(string \<Rightarrow> js) \<Rightarrow> schema_table \<Rightarrow> js_object \<Rightarrow> js_object result" where
  "validate_doc G t doc =
     bind_result (foldM (check_column G doc) (map snd (st_rowsByName t)) []) (\<lambda>defaults. Ok (js_spread defaults doc))"

definition validateDocuments :: "(nat \<Rightarrow> string \<Rightarrow> js) \<Rightarrow> schema_table \<Rightarrow> js_object list \<Rightarrow> js_object list result" where
  "validateDocuments G t docs = map_result (\<lambda>(i, doc). validate_doc (G i) t doc) (enumerate 0 docs)"

section \<open>Matching documents\<close>

text \<open>An object of operators against the value of a document; \<open>eq\<close> is not among them.\<close>

definition match_operators :: "(string \<Rightarrow> int option) \<Rightarrow> js_object \<Rightarrow> js \<Rightarrow> bool result" where
  "match_operators N val x =
     (let ne = js_get val ''ne''; lt = js_get val ''lt''; lte = js_get val ''lte'';
          gt = js_get val ''gt''; gte = js_get val ''gte''; nin = js_get val ''nin'' in
      if ne = JNull \<and> nullish x then Ok False
      else if ne \<noteq> JUndefined \<and> strict_equal x ne then Ok False
      else if lt \<noteq> JUndefined \<and> js_ge N x lt then Ok False
      else if lte \<noteq> JUndefined \<and> js_lt N lte x then Ok False
      else if gt \<noteq> JUndefined \<and> js_ge N gt x then Ok False
      else if gte \<noteq> JUndefined \<and> js_lt N x gte then Ok False
      else
        (case nin of
           JUndefined \<Rightarrow> Ok True
         | JArr vs \<Rightarrow> Ok (\<forall>v\<in>set vs. \<not> (x = JNull \<and> nullish v) \<and> \<not> strict_equal x v)
         | _ \<Rightarrow> Throw ''Invalid nin value provided, must be array''))"

definition match_value :: "(string \<Rightarrow> int option) \<Rightarrow> js \<Rightarrow> js \<Rightarrow> bool result" where
  "match_value N val x =
     (case val of
        JObj ops \<Rightarrow> match_operators N ops x
      | JArr vs \<Rightarrow> Ok (\<exists>v\<in>set vs. v = JNull \<and> x = JUndefined \<or> strict_equal x v)
      | JNull \<Rightarrow> Ok (nullish x)
      | _ \<Rightarrow> Ok (strict_equal x val))"

fun match_entries :: "(string \<Rightarrow> int option) \<Rightarrow> js_object \<Rightarrow> js_object \<Rightarrow> bool result" where
  "match_entries N [] doc = Ok True"
| "match_entries N ((k, val) # w) doc =
     bind_result (match_value N val (js_get doc k)) (\<lambda>b. if b then match_entries N w doc else Ok False)"

text \<open>Loops that stop at the first clause that does not match, and at the first that does.\<close>

fun all_match :: "('a \<Rightarrow> bool result) \<Rightarrow> 'a list \<Rightarrow> bool result" where
  "all_match f [] = Ok True"
| "all_match f (w # ws) = bind_result (f w) (\<lambda>b. if b then all_match f ws else Ok False)"

fun any_match :: "('a \<Rightarrow> bool result) \<Rightarrow> 'a list \<Rightarrow> bool result" where
  "any_match f [] = Ok False"
| "any_match f (w # ws) = bind_result (f w) (\<lambda>b. if b then Ok True else any_match f ws)"

lemma all_match_cong [fundef_cong]: "ws = ws' \<Longrightarrow> (\<And>w. w \<in> set ws' \<Longrightarrow> f w = g w) \<Longrightarrow> all_match f ws = all_match g ws'"
  by (induction ws' arbitrary: ws) (simp_all cong: if_cong)

lemma any_match_cong [fundef_cong]: "ws = ws' \<Longrightarrow> (\<And>w. w \<in> set ws' \<Longrightarrow> f w = g w) \<Longrightarrow> any_match f ws = any_match g ws'"
  by (induction ws' arbitrary: ws) (simp_all cong: if_cong)

lemma map_result_cong [fundef_cong]: "ws = ws' \<Longrightarrow> (\<And>w. w \<in> set ws' \<Longrightarrow> f w = g w) \<Longrightarrow> map_result f ws = map_result g ws'"
  by (induction ws' arbitrary: ws) (simp_all cong: if_cong)

text \<open>What \<open>for (const c of v)\<close> runs over; a falsy \<open>AND\<close> is an empty list.\<close>

definition clause_list :: "js \<Rightarrow> js list result" where
  "clause_list v =
     (if \<not> truthy v then Ok []
      else case v of
        JArr vs \<Rightarrow> Ok vs
      | JStr s \<Rightarrow> Ok (map (\<lambda>c. JStr [c]) s)
      | _ \<Rightarrow> Throw ''and is not iterable'')"

definition clause_depth :: "js \<Rightarrow> nat" where
  "clause_depth w = (case w of JObj d \<Rightarrow> size w | _ \<Rightarrow> 0)"

lemma size_js_get: "k \<in> set (js_keys d) \<Longrightarrow> size (js_get d k) < size (JObj d)"
  by (induction d) auto

lemma clause_depth_le: "clause_depth w \<le> size w"
  by (simp add: clause_depth_def split: js.split)

lemma numbered_props: "k \<in> {''OR'', ''AND''} \<Longrightarrow> js_get (map (\<lambda>(i, v). (decimal i, f v)) ps) k = JUndefined"
  by (induction ps) (auto simp: decimal_neq)

lemma clause_depth_smaller:
  assumes "js_get (own_props w) k = JArr vs \<or> clause_list (js_get (own_props w) k) = Ok vs"
    and "k \<in> {''OR'', ''AND''}" and "v \<in> set vs"
  shows "clause_depth v < clause_depth w"
proof -
  let ?c = "js_get (own_props w) k"
  have c: "?c \<noteq> JUndefined" using assms(1,3) by (auto simp: clause_list_def)
  then obtain d where w: "w = JObj d"
    using numbered_props [OF assms(2), of "\<lambda>c. JStr [c]"] numbered_props [OF assms(2), of "\<lambda>v. v"]
    by (cases w) (auto simp: own_props_def)
  have "k \<in> set (js_keys d)" using c js_get_absent by (force simp: w own_props_def)
  then have smaller: "size ?c < clause_depth w" using size_js_get by (simp add: w own_props_def clause_depth_def)
  show ?thesis
  proof (cases "?c = JArr vs")
    case True
    have "size v < size (JArr vs)" using assms(3) using size_list_estimation' [OF assms(3), of "size v" size] by simp
    with smaller clause_depth_le [of v] show ?thesis by (simp add: True)
  next
    case False
    then obtain s where "?c = JStr s" using assms c by (cases ?c) (auto simp: clause_list_def split: if_splits)
    then have "clause_depth v = 0" using assms False by (auto simp: clause_list_def clause_depth_def split: if_splits)
    then show ?thesis using w by (simp add: clause_depth_def)
  qed
qed

function matchDocument :: "(string \<Rightarrow> int option) \<Rightarrow> js \<Rightarrow> js_object \<Rightarrow> bool result" where
  "matchDocument N w doc =
     (if nullish w then Throw ''Cannot read property of null''
      else
        (let fields = own_props w; topWhere = js_put ''AND'' JUndefined (js_put ''OR'' JUndefined fields) in
         bind_result (match_entries N topWhere doc) (\<lambda>matched.
         if \<not> matched then Ok False
         else
           bind_result (clause_list (js_get fields ''AND'')) (\<lambda>and.
           bind_result (all_match (\<lambda>v. matchDocument N v doc) and) (\<lambda>all.
           if \<not> all then Ok False
           else (case js_get fields ''OR'' of JArr vs \<Rightarrow> any_match (\<lambda>v. matchDocument N v doc) vs | _ \<Rightarrow> Ok True))))))"
  by pat_completeness auto
termination
  by (relation "measure (\<lambda>(N, w, doc). clause_depth w)") (auto intro: clause_depth_smaller)

declare matchDocument.simps [simp del]

end
