(* ===== verification/Database_Sql.thy ===== *)
theory Database_Sql
  imports Database
begin

text \<open>
  \<open>packages/database/src/helpers/sql.ts\<close>: the SQL texts of the operations, character by character, and
  \<open>helpers/shared.ts\<close>.
\<close>

section \<open>Values\<close>

abbreviation quote :: char where "quote \<equiv> CHR 0x27"
abbreviation dquote :: char where "dquote \<equiv> CHR 0x22"

definition escapeQuotes :: "string \<Rightarrow> string" where
  "escapeQuotes s = concat (map (\<lambda>c. if c = dquote then [dquote, dquote] else [c]) s)"

definition escapeSingleQuotes :: "string \<Rightarrow> string" where
  "escapeSingleQuotes s = concat (map (\<lambda>c. if c = quote then [quote, quote] else [c]) s)"

definition sql_text :: "string \<Rightarrow> string" where
  "sql_text s = quote # escapeSingleQuotes s @ [quote]"

text \<open>\<open>`"${key}"`\<close>.\<close>

definition quoted :: "string \<Rightarrow> string" where
  "quoted k = dquote # k @ [dquote]"

definition parseType :: "data_type option \<Rightarrow> js \<Rightarrow> string result" where
  "parseType t v =
     (let unrecognized = Throw (''Unrecognized value '' @ quoted (js_text v) @ '' for type '' @ type_name t) in
      if nullish v then Ok ''NULL''
      else
        (case (t, v) of
           (Some String_type, JStr s) \<Rightarrow> Ok (sql_text s)
         | (Some Int_type, JNum n) \<Rightarrow> Ok (number_text n)
         | (Some Bool_type, JBool b) \<Rightarrow> Ok (if b then ''true'' else ''false'')
         | (Some Object_type, JArr vs) \<Rightarrow> Ok (sql_text (js_json v))
         | (Some Object_type, JObj d) \<Rightarrow> Ok (sql_text (js_json v))
         | _ \<Rightarrow> unrecognized))"

definition column_of :: "schema_table \<Rightarrow> string \<Rightarrow> row_def result" where
  "column_of t k =
     (case row_of t k of
        None \<Rightarrow> Throw (''Unable to find row definition for key: '' @ quoted k)
      | Some r \<Rightarrow> Ok r)"

section \<open>Conditions\<close>

fun operatorMap :: "string \<Rightarrow> string option" where
  "operatorMap k = map_of [(''lt'', ''<''), (''gt'', ''>''), (''lte'', ''<=''), (''gte'', ''>=''), (''ne'', ''!=''), (''eq'', ''='')] k"

fun nullOperatorMap :: "string \<Rightarrow> string option" where
  "nullOperatorMap k = map_of [(''ne'', ''IS NOT''), (''eq'', ''IS'')] k"

text \<open>The condition of one operator of \<open>{ op: v, ... }\<close>.\<close>

definition operator_sql :: "data_type option \<Rightarrow> string \<Rightarrow> string \<times> js \<Rightarrow> string result" where
  "operator_sql type key = (\<lambda>(k, v).
     if k = ''nin'' then
       (case v of
          JArr vs \<Rightarrow> bind_result (map_result (parseType type) vs) (\<lambda>values.
            Ok (quoted key @ '' NOT IN ('' @ join '','' values @ '')''))
        | _ \<Rightarrow> Throw ''Non array value provided for nin operator'')
     else
       (case (if v = JNull then nullOperatorMap k else operatorMap k) of
          None \<Rightarrow> Throw (''Invalid operator '' @ k)
        | Some operator \<Rightarrow> bind_result (parseType type v) (\<lambda>parsed.
            Ok (quoted key @ '' '' @ operator @ '' '' @ parsed))))"

text \<open>The conditions of one key of the query.\<close>

definition key_sql :: "schema_table \<Rightarrow> string \<times> js \<Rightarrow> string list result" where
  "key_sql t = (\<lambda>(key, val).
     if key = ''OR'' \<or> key = ''AND'' then Ok []
     else
       bind_result (column_of t key) (\<lambda>r.
       (case val of
          JArr [] \<Rightarrow> Ok [''(false)'']
        | JArr vs \<Rightarrow> bind_result (map_result (parseType (rd_type r)) vs) (\<lambda>values.
            Ok [quoted key @ '' IN ('' @ join '','' values @ '')''])
        | JObj ops \<Rightarrow> map_result (operator_sql (rd_type r) key) ops
        | _ \<Rightarrow> bind_result (parseType (rd_type r) val) (\<lambda>parsed.
            Ok [quoted key @ '' '' @ (if parsed = ''NULL'' then ''IS'' else ''='') @ '' '' @ parsed]))))"

text \<open>
  \<open>whereToSql(table, doc, sqlOnly)\<close>. A string or a list stands for the object of its numbered properties,
  none of which is a column.
\<close>

lemma clause_depth_JArr: "js_get d k = JArr vs \<Longrightarrow> k \<in> {''OR'', ''AND''} \<Longrightarrow> v \<in> set vs \<Longrightarrow> clause_depth v < clause_depth (JObj d)"
  using clause_depth_smaller [of "JObj d" k vs v] by (simp add: own_props_def)

definition joined :: "string \<Rightarrow> string list result \<Rightarrow> string result" where
  "joined sep ss = bind_result ss (\<lambda>ss. Ok (join sep ss))"

text \<open>The errors are those of the keys first, then those of \<open>OR\<close>, then those of \<open>AND\<close>.\<close>

definition where_text :: "bool \<Rightarrow> string list list result \<Rightarrow> string result \<Rightarrow> string result \<Rightarrow> string result" where
  "where_text sqlOnly conditions orConditions andConditions =
     bind_result conditions (\<lambda>conditions.
     bind_result orConditions (\<lambda>orConditions.
     bind_result andConditions (\<lambda>andConditions.
     let sql = join '' AND '' (concat conditions) in
     Ok ('' '' @ (if sqlOnly then [] else ''WHERE'') @ '' ('' @ (if sql = [] then ''true'' else sql) @
         '') AND ('' @ orConditions @ '') AND ('' @ andConditions @ '')''))))"

function whereToSql :: "schema_table \<Rightarrow> js \<Rightarrow> bool \<Rightarrow> string result" where
  "whereToSql t w sqlOnly =
     (case w of
        JNull \<Rightarrow> Throw ''Cannot convert undefined or null to object''
      | JStr s \<Rightarrow> if s = [] then Ok [] else Throw (''Unable to find row definition for key: '' @ quoted ''0'')
      | JArr vs \<Rightarrow> if vs = [] then Ok [] else Throw (''Unable to find row definition for key: '' @ quoted ''0'')
      | JObj d \<Rightarrow>
          if d = [] then Ok []
          else
            where_text sqlOnly (map_result (key_sql t) d)
              (case js_get d ''OR'' of
                 JArr vs \<Rightarrow> if vs = [] then Ok ''false'' else joined '' OR '' (map_result (\<lambda>v. whereToSql t v True) vs)
               | _ \<Rightarrow> Ok ''true'')
              (case js_get d ''AND'' of
                 JArr vs \<Rightarrow> if vs = [] then Ok ''true'' else joined '' AND '' (map_result (\<lambda>v. whereToSql t v True) vs)
               | _ \<Rightarrow> Ok ''true'')
      | _ \<Rightarrow> Ok [])"
  by pat_completeness auto
termination
  by (relation "measure (\<lambda>(t, w, b). clause_depth w)") (auto intro: clause_depth_JArr)

declare whereToSql.simps [simp del]

section \<open>Tables\<close>

definition sql_type :: "data_type option \<Rightarrow> string" where
  "sql_type t =
     (case t of
        None \<Rightarrow> ''undefined''
      | Some String_type \<Rightarrow> ''TEXT''
      | Some Int_type \<Rightarrow> ''INTEGER''
      | Some Bool_type \<Rightarrow> ''BOOLEAN''
      | Some Object_type \<Rightarrow> ''TEXT'')"

definition row_sql :: "row_def \<Rightarrow> string" where
  "row_sql r = quoted (rd_name r) @ '' '' @ sql_type (rd_type r) @ '' '' @
     (if rd_optional r then [] else ''NOT NULL'') @ '' '' @ (if rd_unique r then ''UNIQUE'' else [])"

definition line_break :: "nat \<Rightarrow> string" where
  "line_break n = CHR 0x0A # replicate n CHR '' ''"

definition tableCreationSql :: "table_data list \<Rightarrow> string" where
  "tableCreationSql tables =
     join '' '' (map (\<lambda>t.
       let rowCommands = map row_sql (filter (\<lambda>r. rd_relation r = None) (map normalizeRowDef (td_rows t)));
           relationCommands = [''PRIMARY KEY ('' @ join '','' (map quoted (td_primaryKey t)) @ '')''] in
       ''CREATE TABLE IF NOT EXISTS '' @ quoted (td_name t) @ '' ('' @ line_break 6 @
       join '','' (filter (\<lambda>s. s \<noteq> []) [join '','' rowCommands, join '','' relationCommands]) @
       line_break 4 @ '');'') tables)"

section \<open>Creation\<close>

text \<open>Defaults are assigned to the documents, null and undefined properties included.\<close>

definition assign_default :: "(string \<Rightarrow> js) \<Rightarrow> row_def \<Rightarrow> js_object \<Rightarrow> js_object" where
  "assign_default G r doc =
     (if \<not> has_default r \<or> \<not> nullish (js_get doc (rd_name r)) then doc
      else js_put (rd_name r) (default_of G r) doc)"

definition with_defaults :: "(string \<Rightarrow> js) \<Rightarrow> schema_table \<Rightarrow> js_object \<Rightarrow> js_object" where
  "with_defaults G t doc = fold (assign_default G) (st_rows t) doc"

text \<open>The keys of all documents, each at its first place.\<close>

definition first_places :: "'a list \<Rightarrow> 'a list" where
  "first_places xs = rev (remdups (rev xs))"

definition values_sql :: "schema_table \<Rightarrow> string list \<Rightarrow> js_object \<Rightarrow> string result" where
  "values_sql t keys doc =
     bind_result (map_result (\<lambda>k. bind_result (column_of t k) (\<lambda>r. parseType (rd_type r) (js_get doc k))) keys)
       (\<lambda>values. Ok (''('' @ join '','' values @ '')''))"

text \<open>The query that finds the created documents by their primary and unique keys.\<close>

definition created_query :: "schema_table \<Rightarrow> string list \<Rightarrow> js_object list \<Rightarrow> js_object" where
  "created_query t keys docs =
     (let uniqueKeys = filter (\<lambda>k. case row_of t k of None \<Rightarrow> False | Some r \<Rightarrow> rd_unique r) keys in
      map (\<lambda>k. (k, JArr (if k \<in> set keys then map (\<lambda>doc. js_get doc k) docs else [])))
        (first_places (st_primaryKey t @ uniqueKeys)))"

definition createSql :: "(nat \<Rightarrow> string \<Rightarrow> js) \<Rightarrow> schema_table \<Rightarrow> js_object list \<Rightarrow> (string \<times> js_object) result" where
  "createSql G t docs =
     (let docs = map (\<lambda>(i, doc). with_defaults (G i) t doc) (enumerate 0 docs);
          keys = first_places (concat (map js_keys docs)) in
      bind_result (map_result (values_sql t keys) docs) (\<lambda>allValues.
      Ok (''INSERT INTO '' @ quoted (st_name t) @ '' ('' @ join '','' (map quoted keys) @ '') VALUES '' @
          join '', '' allValues @ '';'',
          created_query t keys docs)))"

section \<open>Queries and updates\<close>

definition upper_case :: "string \<Rightarrow> string" where
  "upper_case s = map (\<lambda>c. let n = of_char c :: nat in if 97 \<le> n \<and> n \<le> 122 then char_of (n - 32) else c) s"

record find_options =
  fo_where :: js
  fo_orderBy :: "(string \<times> string) list"
  fo_limit :: "nat option"

text \<open>A limit of zero is none.\<close>

definition findManySql :: "schema_table \<Rightarrow> find_options \<Rightarrow> string result" where
  "findManySql t fo =
     (let orderBy = (if fo_orderBy fo \<noteq> []
            then '' ORDER BY '' @ join '', '' (map (\<lambda>(k, dir). quoted k @ '' '' @ upper_case dir) (fo_orderBy fo)) else []);
          limit = (case fo_limit fo of None \<Rightarrow> [] | Some n \<Rightarrow> if n = 0 then [] else '' LIMIT '' @ decimal n @ '' '') in
      bind_result (whereToSql t (fo_where fo) False) (\<lambda>cond.
      Ok (''SELECT * FROM '' @ quoted (st_name t) @ '' '' @ cond @ '' '' @ orderBy @ '' '' @ limit @ '';'')))"

definition countSql :: "schema_table \<Rightarrow> js \<Rightarrow> string result" where
  "countSql t w = bind_result (whereToSql t w False) (\<lambda>cond.
     Ok (''SELECT COUNT(*) FROM '' @ quoted (st_name t) @ '' '' @ cond @ '';''))"

definition set_sql :: "schema_table \<Rightarrow> string \<times> js \<Rightarrow> string result" where
  "set_sql t = (\<lambda>(k, v). bind_result (column_of t k) (\<lambda>r. bind_result (parseType (rd_type r) v) (\<lambda>parsed.
     Ok (quoted k @ '' = '' @ parsed))))"

definition updateSql :: "schema_table \<Rightarrow> js \<Rightarrow> js_object \<Rightarrow> string result" where
  "updateSql t w update =
     bind_result (map_result (set_sql t) update) (\<lambda>sets.
     bind_result (whereToSql t w False) (\<lambda>cond.
     Ok (''UPDATE '' @ quoted (st_name t) @ '' SET '' @ join '', '' sets @ '' '' @ cond @ '';'')))"

definition deleteManySql :: "schema_table \<Rightarrow> js \<Rightarrow> string result" where
  "deleteManySql t w =
     (if w = JObj [] then Ok (''DELETE FROM '' @ quoted (st_name t) @ '';'')
      else bind_result (whereToSql t w False) (\<lambda>cond. Ok (''DELETE FROM '' @ quoted (st_name t) @ '' '' @ cond @ '';'')))"

text \<open>\<open>sql.replace(';', '')\<close> drops the first semicolon of the text, wherever it is.\<close>

definition drop_semicolon :: "string \<Rightarrow> string" where
  "drop_semicolon s = remove1 CHR '';'' s"

definition conflict_columns :: "schema_table \<Rightarrow> js_object \<Rightarrow> string list \<Rightarrow> string list" where
  "conflict_columns t w constraintKey =
     (if constraintKey \<noteq> [] then constraintKey
      else map rd_name (filter (\<lambda>r. (rd_name r \<in> set (st_primaryKey t) \<or> rd_unique r) \<and> js_get w (rd_name r) \<noteq> JUndefined)
        (st_rows t)))"

definition upsertSql :: "(nat \<Rightarrow> string \<Rightarrow> js) \<Rightarrow> schema_table \<Rightarrow> js_object \<Rightarrow> js_object \<Rightarrow> js_object list \<Rightarrow> string list \<Rightarrow> string result" where
  "upsertSql G t w update create constraintKey =
     bind_result (createSql G t create) (\<lambda>(sql, query).
     let creationSql = drop_semicolon sql;
         conflictConstraint = join '','' (map quoted (conflict_columns t w constraintKey)) in
     bind_result (map_result (set_sql t) update) (\<lambda>sets.
     let conflictClause = (if update = [] then ''DO NOTHING;'' else ''DO UPDATE SET '' @ join '', '' sets @ '';'') in
     Ok (creationSql @ line_break 2 @ ''ON CONFLICT('' @ conflictConstraint @ '')'' @ line_break 2 @ conflictClause)))"

section \<open>Related rows\<close>

text \<open>
  \<open>findMany table field values\<close> are the rows of another table whose field is among the values. The last of
  them with a key counts.
\<close>

definition loadIncludedModels :: "(string \<Rightarrow> string \<Rightarrow> js list \<Rightarrow> js_object list) \<Rightarrow> string \<Rightarrow> relation \<Rightarrow> js_object list \<Rightarrow> js_object list" where
  "loadIncludedModels findMany name rel models =
     (let values = map (\<lambda>model. js_get model (rel_localField rel)) models;
          submodels = findMany (rel_foreignTable rel) (rel_foreignField rel) values;
          keyedSubmodels = fold (\<lambda>sub. js_put (js_text (js_get sub (rel_foreignField rel))) sub) submodels [] in
      map (\<lambda>model.
        let sub = map_of keyedSubmodels (js_text (js_get model (rel_localField rel))) in
        js_put name (case sub of None \<Rightarrow> JNull | Some s \<Rightarrow> JObj s) model) models)"

definition loadIncluded :: "(string \<Rightarrow> string \<Rightarrow> js list \<Rightarrow> js_object list) \<Rightarrow> schema_table \<Rightarrow> (string \<times> bool) list \<Rightarrow> js_object list \<Rightarrow> js_object list result" where
  "loadIncluded findMany t include models =
     foldM (\<lambda>(key, wanted) models.
       case map_of (st_relations t) key of
         None \<Rightarrow> Throw (''Unable to findMany relation '' @ key @ '' in '' @ st_name t)
       | Some rel \<Rightarrow> Ok (if wanted then loadIncludedModels findMany key rel models else models)) include models"

end
