(* ===== verification/Database_Schema.thy ===== *)
theory Database_Schema
  imports Database
begin

text \<open>
  \<open>packages/database/src/schema.ts\<close>: the tables of a node and a wallet, one definition each, with the keys, relations and orderings of the
  queries checked against them.
\<close>

definition no_options :: row_options where
  "no_options = \<lparr>ro_index = False, ro_optional = False, ro_unique = False\<rparr>"

definition bare_row :: "string \<Rightarrow> row_def" where
  "bare_row name =
     \<lparr>rd_name = name, rd_unique = False, rd_optional = False, rd_index = False, rd_type = None, rd_relation = None,
      rd_default = None\<rparr>"

definition to :: "string \<Rightarrow> string \<Rightarrow> string \<Rightarrow> relation" where
  "to localField foreignField foreignTable =
     \<lparr>rel_localField = localField, rel_foreignField = foreignField, rel_foreignTable = foreignTable\<rparr>"

definition EncryptedWallet_table :: table_data where
  "EncryptedWallet_table =
     \<lparr>td_name = ''EncryptedWallet'', td_primaryKey = [''id''],
      td_rows =
       [Row ((bare_row ''id'')\<lparr>rd_unique := True, rd_type := Some String_type, rd_default := Some (Default_call ''uuid'')\<rparr>),
        Short_row ''ciphertext'' String_type None,
        Short_row ''iv'' String_type None,
        Short_row ''algorithm'' String_type None,
        Short_row ''keylen'' Int_type None,
        Short_row ''kdf'' String_type None,
        Short_row ''N'' Int_type None,
        Short_row ''r'' Int_type None,
        Short_row ''p'' Int_type None,
        Short_row ''salt'' String_type None],
      td_indexes = []\<rparr>"

definition Keystore_table :: table_data where
  "Keystore_table =
     \<lparr>td_name = ''Keystore'', td_primaryKey = [''address''],
      td_rows =
       [Short_row ''address'' String_type None,
        Short_row ''zkAddress'' String_type None,
        Short_row ''encrypted'' String_type None],
      td_indexes = []\<rparr>"

definition Config_table :: table_data where
  "Config_table =
     \<lparr>td_name = ''Config'', td_primaryKey = [''networkId'', ''chainId'', ''address''],
      td_rows =
       [Short_row ''id'' String_type (Some (no_options\<lparr>ro_unique := True\<rparr>)),
        Short_row ''networkId'' Int_type None,
        Short_row ''chainId'' Int_type None,
        Short_row ''address'' String_type None,
        Short_row ''utxoTreeDepth'' Int_type None,
        Short_row ''withdrawalTreeDepth'' Int_type None,
        Short_row ''nullifierTreeDepth'' Int_type None,
        Short_row ''challengePeriod'' Int_type None,
        Short_row ''minimumStake'' String_type None,
        Short_row ''referenceDepth'' Int_type None,
        Short_row ''maxUtxo'' String_type None,
        Short_row ''maxWithdrawal'' String_type None,
        Short_row ''utxoSubTreeDepth'' Int_type None,
        Short_row ''utxoSubTreeSize'' Int_type None,
        Short_row ''withdrawalSubTreeDepth'' Int_type None,
        Short_row ''withdrawalSubTreeSize'' Int_type None],
      td_indexes = []\<rparr>"

definition Tracker_table :: table_data where
  "Tracker_table =
     \<lparr>td_name = ''Tracker'', td_primaryKey = [''id''],
      td_rows =
       [Row ((bare_row ''id'')\<lparr>rd_type := Some Int_type, rd_default := Some (Default_call ''random'')\<rparr>),
        Row ((bare_row ''viewer'')\<lparr>rd_optional := True, rd_unique := True, rd_type := Some String_type\<rparr>),
        Row ((bare_row ''address'')\<lparr>rd_optional := True, rd_unique := True, rd_type := Some String_type\<rparr>)],
      td_indexes = []\<rparr>"

definition Header_table :: table_data where
  "Header_table =
     \<lparr>td_name = ''Header'', td_primaryKey = [''hash''],
      td_rows =
       [Short_row ''hash'' String_type None,
        Short_row ''proposer'' String_type None,
        Short_row ''parentBlock'' String_type None,
        Short_row ''fee'' String_type None,
        Short_row ''utxoRoot'' String_type None,
        Short_row ''utxoIndex'' String_type None,
        Short_row ''nullifierRoot'' String_type None,
        Short_row ''withdrawalRoot'' String_type None,
        Short_row ''withdrawalIndex'' String_type None,
        Short_row ''txRoot'' String_type None,
        Short_row ''depositRoot'' String_type None,
        Short_row ''migrationRoot'' String_type None],
      td_indexes = []\<rparr>"

definition Block_table :: table_data where
  "Block_table =
     \<lparr>td_name = ''Block'', td_primaryKey = [''hash''],
      td_rows =
       [Short_row ''hash'' String_type None,
        Row ((bare_row ''header'')\<lparr>rd_type := Some Object_type, rd_relation := Some (to ''hash'' ''hash'' ''Header'')\<rparr>),
        Row ((bare_row ''proposal'')\<lparr>rd_type := Some Object_type, rd_relation := Some (to ''hash'' ''hash'' ''Proposal'')\<rparr>),
        Short_row ''bootstrap'' Object_type (Some (no_options\<lparr>ro_optional := True\<rparr>)),
        Row ((bare_row ''slash'')\<lparr>rd_optional := True, rd_type := Some Object_type, rd_relation := Some (to ''hash'' ''hash'' ''Slash'')\<rparr>)],
      td_indexes = []\<rparr>"

definition Proposal_table :: table_data where
  "Proposal_table =
     \<lparr>td_name = ''Proposal'', td_primaryKey = [''hash''],
      td_rows =
       [Short_row ''hash'' String_type None,
        Short_row ''proposalNum'' Int_type (Some (no_options\<lparr>ro_index := True, ro_optional := True\<rparr>)),
        Short_row ''canonicalNum'' Int_type (Some (no_options\<lparr>ro_optional := True\<rparr>)),
        Short_row ''proposedAt'' Int_type (Some (no_options\<lparr>ro_index := True, ro_optional := True\<rparr>)),
        Short_row ''proposalTx'' String_type (Some (no_options\<lparr>ro_optional := True\<rparr>)),
        Short_row ''proposalData'' String_type (Some (no_options\<lparr>ro_optional := True\<rparr>)),
        Short_row ''timestamp'' Int_type (Some (no_options\<lparr>ro_optional := True\<rparr>)),
        Short_row ''fetched'' String_type (Some (no_options\<lparr>ro_optional := True\<rparr>)),
        Short_row ''finalized'' Bool_type (Some (no_options\<lparr>ro_optional := True\<rparr>)),
        Short_row ''verified'' Bool_type (Some (no_options\<lparr>ro_optional := True\<rparr>)),
        Short_row ''isUncle'' Bool_type (Some (no_options\<lparr>ro_optional := True\<rparr>)),
        Row ((bare_row ''header'')\<lparr>rd_type := Some Object_type, rd_relation := Some (to ''hash'' ''hash'' ''Header'')\<rparr>),
        Row ((bare_row ''block'')\<lparr>rd_optional := True, rd_type := Some Object_type, rd_relation := Some (to ''hash'' ''hash'' ''Block'')\<rparr>)],
      td_indexes = []\<rparr>"

definition Slash_table :: table_data where
  "Slash_table =
     \<lparr>td_name = ''Slash'', td_primaryKey = [''hash''],
      td_rows =
       [Short_row ''hash'' String_type None,
        Short_row ''proposer'' String_type None,
        Short_row ''reason'' String_type None,
        Short_row ''executionTx'' String_type None,
        Short_row ''slashedAt'' Int_type (Some (no_options\<lparr>ro_index := True\<rparr>)),
        Row ((bare_row ''block'')\<lparr>rd_relation := Some (to ''hash'' ''hash'' ''Block'')\<rparr>)],
      td_indexes = []\<rparr>"

definition Bootstrap_table :: table_data where
  "Bootstrap_table =
     \<lparr>td_name = ''Bootstrap'', td_primaryKey = [''id''],
      td_rows =
       [Row ((bare_row ''id'')\<lparr>rd_type := Some String_type, rd_default := Some (Default_call ''uuid'')\<rparr>),
        Row ((bare_row ''blockHash'')\<lparr>rd_optional := True, rd_unique := True, rd_type := Some String_type\<rparr>),
        Short_row ''utxoBootstrap'' String_type None,
        Short_row ''withdrawalBootstrap'' String_type None,
        Row ((bare_row ''block'')\<lparr>rd_type := Some Object_type, rd_relation := Some (to ''blockHash'' ''hash'' ''Block'')\<rparr>)],
      td_indexes = []\<rparr>"

definition Tx_table :: table_data where
  "Tx_table =
     \<lparr>td_name = ''Tx'', td_primaryKey = [''hash''],
      td_rows =
       [Short_row ''hash'' String_type None,
        Short_row ''blockHash'' String_type None,
        Short_row ''inflowCount'' Int_type None,
        Short_row ''outflowCount'' Int_type None,
        Short_row ''fee'' String_type None,
        Short_row ''challenged'' Bool_type None,
        Short_row ''slashed'' Bool_type None,
        Short_row ''senderAddress'' String_type (Some (no_options\<lparr>ro_optional := True\<rparr>)),
        Short_row ''receiverAddress'' String_type (Some (no_options\<lparr>ro_optional := True\<rparr>)),
        Short_row ''tokenAddr'' String_type (Some (no_options\<lparr>ro_optional := True\<rparr>)),
        Short_row ''erc20Amount'' String_type (Some (no_options\<lparr>ro_optional := True\<rparr>)),
        Short_row ''eth'' String_type (Some (no_options\<lparr>ro_optional := True\<rparr>)),
        Row ((bare_row ''proposal'')\<lparr>rd_relation := Some (to ''blockHash'' ''hash'' ''Proposal'')\<rparr>)],
      td_indexes = []\<rparr>"

definition PendingTx_table :: table_data where
  "PendingTx_table =
     \<lparr>td_name = ''PendingTx'', td_primaryKey = [''hash''],
      td_rows =
       [Short_row ''hash'' String_type None,
        Short_row ''fee'' String_type None,
        Short_row ''proof'' Object_type None,
        Short_row ''memoVersion'' Int_type (Some (no_options\<lparr>ro_optional := True\<rparr>)),
        Short_row ''memoData'' String_type (Some (no_options\<lparr>ro_optional := True\<rparr>)),
        Short_row ''swap'' String_type (Some (no_options\<lparr>ro_optional := True\<rparr>)),
        Short_row ''inflow'' Object_type None,
        Short_row ''outflow'' Object_type None,
        Short_row ''senderAddress'' String_type (Some (no_options\<lparr>ro_optional := True\<rparr>)),
        Short_row ''receiverAddress'' String_type (Some (no_options\<lparr>ro_optional := True\<rparr>)),
        Short_row ''tokenAddr'' String_type (Some (no_options\<lparr>ro_optional := True\<rparr>)),
        Short_row ''erc20Amount'' String_type (Some (no_options\<lparr>ro_optional := True\<rparr>)),
        Short_row ''eth'' String_type (Some (no_options\<lparr>ro_optional := True\<rparr>))],
      td_indexes = []\<rparr>"

definition MassDeposit_table :: table_data where
  "MassDeposit_table =
     \<lparr>td_name = ''MassDeposit'', td_primaryKey = [''index''],
      td_rows =
       [Short_row ''index'' String_type None,
        Short_row ''merged'' String_type None,
        Short_row ''fee'' String_type None,
        Short_row ''blockNumber'' Int_type (Some (no_options\<lparr>ro_index := True\<rparr>)),
        Row ((bare_row ''includedIn'')\<lparr>rd_optional := True, rd_type := Some String_type\<rparr>)],
      td_indexes = []\<rparr>"

definition PendingDeposit_table :: table_data where
  "PendingDeposit_table =
     \<lparr>td_name = ''PendingDeposit'', td_primaryKey = [''note''],
      td_rows =
       [Short_row ''note'' String_type None,
        Short_row ''fee'' String_type None,
        Row ((bare_row ''utxo'')\<lparr>rd_relation := Some (to ''note'' ''hash'' ''Utxo'')\<rparr>)],
      td_indexes = []\<rparr>"

definition Deposit_table :: table_data where
  "Deposit_table =
     \<lparr>td_name = ''Deposit'', td_primaryKey = [''note''],
      td_rows =
       [Short_row ''note'' String_type None,
        Short_row ''fee'' String_type None,
        Short_row ''transactionIndex'' Int_type None,
        Short_row ''logIndex'' Int_type None,
        Short_row ''blockNumber'' Int_type (Some (no_options\<lparr>ro_index := True\<rparr>)),
        Short_row ''queuedAt'' String_type None,
        Short_row ''ownerAddress'' String_type (Some (no_options\<lparr>ro_optional := True\<rparr>)),
        Short_row ''includedIn'' String_type (Some (no_options\<lparr>ro_optional := True\<rparr>)),
        Short_row ''from'' String_type (Some (no_options\<lparr>ro_optional := True\<rparr>)),
        Row ((bare_row ''utxo'')\<lparr>rd_relation := Some (to ''note'' ''hash'' ''Utxo'')\<rparr>),
        Row ((bare_row ''proposal'')\<lparr>rd_relation := Some (to ''includedIn'' ''hash'' ''Proposal'')\<rparr>)],
      td_indexes = []\<rparr>"

definition Utxo_table :: table_data where
  "Utxo_table =
     \<lparr>td_name = ''Utxo'', td_primaryKey = [''hash''],
      td_rows =
       [Short_row ''hash'' String_type None,
        Short_row ''eth'' String_type (Some (no_options\<lparr>ro_optional := True\<rparr>)),
        Short_row ''owner'' String_type (Some (no_options\<lparr>ro_optional := True\<rparr>)),
        Short_row ''salt'' String_type (Some (no_options\<lparr>ro_optional := True\<rparr>)),
        Short_row ''tokenAddr'' String_type (Some (no_options\<lparr>ro_optional := True\<rparr>)),
        Short_row ''erc20Amount'' String_type (Some (no_options\<lparr>ro_optional := True\<rparr>)),
        Short_row ''nft'' String_type (Some (no_options\<lparr>ro_optional := True\<rparr>)),
        Short_row ''status'' Int_type (Some (no_options\<lparr>ro_optional := True\<rparr>)),
        Short_row ''treeId'' String_type (Some (no_options\<lparr>ro_optional := True\<rparr>)),
        Short_row ''index'' String_type (Some (no_options\<lparr>ro_optional := True\<rparr>)),
        Short_row ''nullifier'' String_type (Some (no_options\<lparr>ro_optional := True\<rparr>)),
        Short_row ''usedAt'' String_type (Some (no_options\<lparr>ro_optional := True\<rparr>)),
        Short_row ''depositedAt'' Int_type (Some (no_options\<lparr>ro_index := True, ro_optional := True\<rparr>))],
      td_indexes = []\<rparr>"

definition Withdrawal_table :: table_data where
  "Withdrawal_table =
     \<lparr>td_name = ''Withdrawal'', td_primaryKey = [''hash''],
      td_rows =
       [Short_row ''hash'' String_type None,
        Short_row ''withdrawalHash'' String_type None,
        Short_row ''eth'' String_type None,
        Short_row ''owner'' String_type (Some (no_options\<lparr>ro_optional := True\<rparr>)),
        Short_row ''salt'' String_type (Some (no_options\<lparr>ro_optional := True\<rparr>)),
        Short_row ''tokenAddr'' String_type None,
        Short_row ''erc20Amount'' String_type None,
        Short_row ''nft'' String_type None,
        Short_row ''to'' String_type None,
        Short_row ''fee'' String_type None,
        Short_row ''status'' Int_type (Some (no_options\<lparr>ro_optional := True\<rparr>)),
        Short_row ''treeId'' String_type (Some (no_options\<lparr>ro_optional := True\<rparr>)),
        Short_row ''index'' String_type (Some (no_options\<lparr>ro_optional := True\<rparr>)),
        Short_row ''includedIn'' String_type (Some (no_options\<lparr>ro_optional := True\<rparr>)),
        Short_row ''prepayer'' String_type (Some (no_options\<lparr>ro_optional := True\<rparr>)),
        Short_row ''expiration'' Int_type (Some (no_options\<lparr>ro_optional := True\<rparr>)),
        Short_row ''siblings'' String_type (Some (no_options\<lparr>ro_optional := True\<rparr>)),
        Row ((bare_row ''proposal'')\<lparr>rd_relation := Some (to ''includedIn'' ''hash'' ''Proposal'')\<rparr>)],
      td_indexes = []\<rparr>"

definition InstantWithdrawal_table :: table_data where
  "InstantWithdrawal_table =
     \<lparr>td_name = ''InstantWithdrawal'', td_primaryKey = [''signature''],
      td_rows =
       [Short_row ''signature'' String_type None,
        Short_row ''withdrawalHash'' String_type None,
        Short_row ''prepayFeeInEth'' String_type None,
        Short_row ''prepayFeeInToken'' String_type None,
        Short_row ''expiration'' Int_type None,
        Short_row ''prepayer'' String_type None,
        Row ((bare_row ''withdrawal'')\<lparr>rd_relation := Some (to ''withdrawalHash'' ''withdrawalHash'' ''Withdrawal'')\<rparr>)],
      td_indexes = []\<rparr>"

definition Migration_table :: table_data where
  "Migration_table =
     \<lparr>td_name = ''Migration'', td_primaryKey = [''hash''],
      td_rows =
       [Short_row ''hash'' String_type None,
        Short_row ''eth'' String_type (Some (no_options\<lparr>ro_optional := True\<rparr>)),
        Short_row ''owner'' String_type (Some (no_options\<lparr>ro_optional := True\<rparr>)),
        Short_row ''salt'' String_type (Some (no_options\<lparr>ro_optional := True\<rparr>)),
        Short_row ''tokenAddr'' String_type (Some (no_options\<lparr>ro_optional := True\<rparr>)),
        Short_row ''erc20Amount'' String_type (Some (no_options\<lparr>ro_optional := True\<rparr>)),
        Short_row ''nft'' String_type (Some (no_options\<lparr>ro_optional := True\<rparr>)),
        Short_row ''to'' String_type (Some (no_options\<lparr>ro_optional := True\<rparr>)),
        Short_row ''fee'' String_type (Some (no_options\<lparr>ro_optional := True\<rparr>)),
        Short_row ''status'' Int_type (Some (no_options\<lparr>ro_optional := True\<rparr>)),
        Short_row ''treeId'' String_type (Some (no_options\<lparr>ro_optional := True\<rparr>)),
        Short_row ''index'' String_type (Some (no_options\<lparr>ro_optional := True\<rparr>)),
        Short_row ''usedFor'' String_type (Some (no_options\<lparr>ro_optional := True\<rparr>))],
      td_indexes = []\<rparr>"

definition TreeNode_table :: table_data where
  "TreeNode_table =
     \<lparr>td_name = ''TreeNode'', td_primaryKey = [''treeId'', ''nodeIndex''],
      td_rows =
       [Short_row ''treeId'' String_type None,
        Short_row ''nodeIndex'' String_type None,
        Short_row ''value'' String_type None],
      td_indexes = [\<lparr>ti_name = [], ti_keys = [''nodeIndex'', ''treeId''], ti_unique = False, ti_optional = False\<rparr>]\<rparr>"

definition LightTree_table :: table_data where
  "LightTree_table =
     \<lparr>td_name = ''LightTree'', td_primaryKey = [''id''],
      td_rows =
       [Row ((bare_row ''id'')\<lparr>rd_type := Some String_type, rd_default := Some (Default_call ''uuid'')\<rparr>),
        Short_row ''species'' Int_type (Some (no_options\<lparr>ro_unique := True\<rparr>)),
        Short_row ''start'' String_type None,
        Short_row ''end'' String_type None,
        Short_row ''root'' String_type None,
        Short_row ''index'' String_type None,
        Short_row ''siblings'' String_type None],
      td_indexes = []\<rparr>"

definition TokenRegistry_table :: table_data where
  "TokenRegistry_table =
     \<lparr>td_name = ''TokenRegistry'', td_primaryKey = [''address''],
      td_rows =
       [Short_row ''address'' String_type None,
        Short_row ''isERC20'' Bool_type None,
        Short_row ''isERC721'' Bool_type None,
        Short_row ''identifier'' Int_type None,
        Short_row ''blockNumber'' Int_type (Some (no_options\<lparr>ro_index := True\<rparr>))],
      td_indexes = []\<rparr>"

definition ERC20Info_table :: table_data where
  "ERC20Info_table =
     \<lparr>td_name = ''ERC20Info'', td_primaryKey = [''address''],
      td_rows =
       [Short_row ''address'' String_type None,
        Short_row ''symbol'' String_type None,
        Short_row ''decimals'' Int_type None],
      td_indexes = []\<rparr>"

definition schema_tables :: "table_data list" where
  "schema_tables =
     [EncryptedWallet_table, Keystore_table, Config_table, Tracker_table, Header_table, Block_table,
      Proposal_table, Slash_table, Bootstrap_table, Tx_table, PendingTx_table, MassDeposit_table,
      PendingDeposit_table, Deposit_table, Utxo_table, Withdrawal_table, InstantWithdrawal_table, Migration_table,
      TreeNode_table, LightTree_table, TokenRegistry_table, ERC20Info_table]"

definition node_schema :: schema where
  "node_schema = constructSchema schema_tables"

section \<open>Consistency\<close>

text \<open>A column that is stored, and its type.\<close>

definition stored_type :: "schema_table \<Rightarrow> string \<Rightarrow> data_type option" where
  "stored_type t k =
     (case row_of t k of
        None \<Rightarrow> None
      | Some r \<Rightarrow> if rd_relation r = None then rd_type r else None)"

text \<open>A relation joins stored columns of one type.\<close>

definition relation_ok :: "schema \<Rightarrow> schema_table \<Rightarrow> relation \<Rightarrow> bool" where
  "relation_ok S t rel \<longleftrightarrow>
     (case map_of S (rel_foreignTable rel) of
        None \<Rightarrow> False
      | Some f \<Rightarrow> stored_type t (rel_localField rel) \<noteq> None \<and>
          stored_type t (rel_localField rel) = stored_type f (rel_foreignField rel))"

text \<open>The keys of a table are stored and not optional, a column has a type or is a relation.\<close>

definition table_ok :: "schema \<Rightarrow> schema_table \<Rightarrow> bool" where
  "table_ok S t \<longleftrightarrow>
     st_primaryKey t \<noteq> [] \<and>
     list_all (\<lambda>k. case row_of t k of None \<Rightarrow> False | Some r \<Rightarrow> rd_relation r = None \<and> rd_type r \<noteq> None \<and> \<not> rd_optional r)
       (st_primaryKey t) \<and>
     distinct (map rd_name (st_rows t)) \<and>
     list_all (\<lambda>r. rd_type r \<noteq> None \<or> rd_relation r \<noteq> None) (st_rows t) \<and>
     list_all (\<lambda>(k, rel). relation_ok S t rel) (st_relations t)"

text \<open>
  \<open>findUsingScan\<close> of \<open>connectors/indexed-db.ts\<close> orders by an index of the one column, and throws without
  one.
\<close>

definition ordering_index :: "schema_table \<Rightarrow> string \<Rightarrow> string result" where
  "ordering_index t key =
     (case filter (\<lambda>i. ti_keys i = [key]) (st_indexes t) of
        [] \<Rightarrow> Throw (''Unable to find index for ordering by '' @ key)
      | i # is \<Rightarrow> Ok (ti_name i))"

text \<open>The ordered queries: \<open>node/synchronizer.ts\<close>, \<open>node/block-processor.ts\<close>, \<open>context/layer2.ts\<close> and \<open>api.ts\<close> of the coordinator.\<close>

definition node_orders :: "(string \<times> string) list" where
  "node_orders =
     [(''TokenRegistry'', ''blockNumber''), (''Deposit'', ''blockNumber''), (''Utxo'', ''depositedAt''),
      (''MassDeposit'', ''blockNumber''), (''Proposal'', ''proposedAt''), (''Slash'', ''slashedAt''),
      (''Proposal'', ''proposalNum''), (''InstantWithdrawal'', ''expiration'')]"

definition orders_ok :: "schema \<Rightarrow> (string \<times> string) list \<Rightarrow> bool" where
  "orders_ok S = list_all (\<lambda>(table, key).
     case map_of S table of None \<Rightarrow> False | Some t \<Rightarrow> (case ordering_index t key of Inl _ \<Rightarrow> False | Inr _ \<Rightarrow> True))"

lemmas table_defs =
  EncryptedWallet_table_def Keystore_table_def Config_table_def Tracker_table_def Header_table_def Block_table_def
  Proposal_table_def Slash_table_def Bootstrap_table_def Tx_table_def PendingTx_table_def MassDeposit_table_def
  PendingDeposit_table_def Deposit_table_def Utxo_table_def Withdrawal_table_def InstantWithdrawal_table_def Migration_table_def
  TreeNode_table_def LightTree_table_def TokenRegistry_table_def ERC20Info_table_def

lemma table_names:
  "td_name EncryptedWallet_table = ''EncryptedWallet''"
  "td_name Keystore_table = ''Keystore''"
  "td_name Config_table = ''Config''"
  "td_name Tracker_table = ''Tracker''"
  "td_name Header_table = ''Header''"
  "td_name Block_table = ''Block''"
  "td_name Proposal_table = ''Proposal''"
  "td_name Slash_table = ''Slash''"
  "td_name Bootstrap_table = ''Bootstrap''"
  "td_name Tx_table = ''Tx''"
  "td_name PendingTx_table = ''PendingTx''"
  "td_name MassDeposit_table = ''MassDeposit''"
  "td_name PendingDeposit_table = ''PendingDeposit''"
  "td_name Deposit_table = ''Deposit''"
  "td_name Utxo_table = ''Utxo''"
  "td_name Withdrawal_table = ''Withdrawal''"
  "td_name InstantWithdrawal_table = ''InstantWithdrawal''"
  "td_name Migration_table = ''Migration''"
  "td_name TreeNode_table = ''TreeNode''"
  "td_name LightTree_table = ''LightTree''"
  "td_name TokenRegistry_table = ''TokenRegistry''"
  "td_name ERC20Info_table = ''ERC20Info''"
  by (simp_all add: table_defs)

lemma node_schema_tables: "node_schema = map (\<lambda>t. (td_name t, construct_table t)) schema_tables"
  using fold_put [of td_name schema_tables "[]" construct_table]
  by (simp add: node_schema_def constructSchema_def schema_tables_def table_names)

lemma node_table: "map_of node_schema k = map_option construct_table (find (\<lambda>t. td_name t = k) schema_tables)"
proof -
  have "map_of (map (\<lambda>t. (td_name t, construct_table t)) ts) k = map_option construct_table (find (\<lambda>t. td_name t = k) ts)" for ts
    by (induction ts) auto
  then show ?thesis by (simp add: node_schema_tables)
qed

text \<open>Rows and relations without the loop that builds the schema.\<close>

lemma row_of_find:
  assumes "distinct (map rd_name (map normalizeRowDef (td_rows td)))"
  shows "row_of (construct_table td) k = find (\<lambda>r. rd_name r = k) (map normalizeRowDef (td_rows td))"
proof -
  let ?rs = "map normalizeRowDef (td_rows td)"
  have "map_of (map (\<lambda>r. (rd_name r, r)) rs) k = find (\<lambda>r. rd_name r = k) rs" for rs by (induction rs) auto
  moreover have "st_rowsByName (construct_table td) = map (\<lambda>r. (rd_name r, r)) ?rs"
    using fold_put [OF assms, of "[]" "\<lambda>r. r"] by (simp add: construct_table_def Let_def)
  ultimately show ?thesis by (simp only: row_of_def)
qed

lemma relations_of_rows:
  assumes "(k, rel) \<in> set (st_relations (construct_table td))"
  shows "\<exists>r\<in>set (map normalizeRowDef (td_rows td)). rd_relation r = Some rel"
proof -
  let ?put = "\<lambda>r. case rd_relation r of None \<Rightarrow> id | Some rel \<Rightarrow> js_put (rd_name r) rel"
  have put: "p \<in> insert (k, v) (set d)" if "p \<in> set (js_put k v d)" for p k and v :: relation and d
    using that by (induction k v d rule: js_put.induct) (auto split: if_splits)
  have "p \<in> set d \<or> (\<exists>r\<in>set rs. rd_relation r = Some (snd p))" if "p \<in> set (fold ?put rs d)" for p rs d
    using that
  proof (induction rs arbitrary: d)
    case (Cons r rs)
    then have "p \<in> set (?put r d) \<or> (\<exists>r\<in>set rs. rd_relation r = Some (snd p))" by simp
    moreover have "p \<in> set d \<or> rd_relation r = Some (snd p)" if "p \<in> set (?put r d)"
      using that by (cases "rd_relation r") (auto dest: put)
    ultimately show ?case by auto
  qed simp
  from this [of "(k, rel)" "map normalizeRowDef (td_rows td)" "[]"] assms show ?thesis
    by (simp add: construct_table_def Let_def)
qed

lemma table_okI:
  assumes "td_primaryKey td \<noteq> []" and "distinct (map rd_name (map normalizeRowDef (td_rows td)))"
    and "list_all (\<lambda>k. case find (\<lambda>r. rd_name r = k) (map normalizeRowDef (td_rows td)) of
      None \<Rightarrow> False | Some r \<Rightarrow> rd_relation r = None \<and> rd_type r \<noteq> None \<and> \<not> rd_optional r) (td_primaryKey td)"
    and "list_all (\<lambda>r. (rd_type r \<noteq> None \<or> rd_relation r \<noteq> None) \<and>
      (case rd_relation r of None \<Rightarrow> True | Some rel \<Rightarrow> relation_ok node_schema (construct_table td) rel)) (map normalizeRowDef (td_rows td))"
  shows "table_ok node_schema (construct_table td)"
proof -
  have st: "st_rows (construct_table td) = map normalizeRowDef (td_rows td)" "st_primaryKey (construct_table td) = td_primaryKey td"
    by (simp_all add: construct_table_def Let_def)
  have "relation_ok node_schema (construct_table td) rel" if rel: "(k, rel) \<in> set (st_relations (construct_table td))" for k rel
    using relations_of_rows [OF rel] assms(4) by (auto simp: list_all_iff)
  then show ?thesis using assms by (auto simp: table_ok_def st row_of_find [OF assms(2)] list_all_iff)
qed

text \<open>The rows and the keys of each table.\<close>

lemmas table_rows =
  arg_cong [OF EncryptedWallet_table_def, of td_rows, simplified table_data.simps]
  arg_cong [OF Keystore_table_def, of td_rows, simplified table_data.simps]
  arg_cong [OF Config_table_def, of td_rows, simplified table_data.simps]
  arg_cong [OF Tracker_table_def, of td_rows, simplified table_data.simps]
  arg_cong [OF Header_table_def, of td_rows, simplified table_data.simps]
  arg_cong [OF Block_table_def, of td_rows, simplified table_data.simps]
  arg_cong [OF Proposal_table_def, of td_rows, simplified table_data.simps]
  arg_cong [OF Slash_table_def, of td_rows, simplified table_data.simps]
  arg_cong [OF Bootstrap_table_def, of td_rows, simplified table_data.simps]
  arg_cong [OF Tx_table_def, of td_rows, simplified table_data.simps]
  arg_cong [OF PendingTx_table_def, of td_rows, simplified table_data.simps]
  arg_cong [OF MassDeposit_table_def, of td_rows, simplified table_data.simps]
  arg_cong [OF PendingDeposit_table_def, of td_rows, simplified table_data.simps]
  arg_cong [OF Deposit_table_def, of td_rows, simplified table_data.simps]
  arg_cong [OF Utxo_table_def, of td_rows, simplified table_data.simps]
  arg_cong [OF Withdrawal_table_def, of td_rows, simplified table_data.simps]
  arg_cong [OF InstantWithdrawal_table_def, of td_rows, simplified table_data.simps]
  arg_cong [OF Migration_table_def, of td_rows, simplified table_data.simps]
  arg_cong [OF TreeNode_table_def, of td_rows, simplified table_data.simps]
  arg_cong [OF LightTree_table_def, of td_rows, simplified table_data.simps]
  arg_cong [OF TokenRegistry_table_def, of td_rows, simplified table_data.simps]
  arg_cong [OF ERC20Info_table_def, of td_rows, simplified table_data.simps]

lemmas table_keys =
  arg_cong [OF EncryptedWallet_table_def, of td_primaryKey, simplified table_data.simps]
  arg_cong [OF Keystore_table_def, of td_primaryKey, simplified table_data.simps]
  arg_cong [OF Config_table_def, of td_primaryKey, simplified table_data.simps]
  arg_cong [OF Tracker_table_def, of td_primaryKey, simplified table_data.simps]
  arg_cong [OF Header_table_def, of td_primaryKey, simplified table_data.simps]
  arg_cong [OF Block_table_def, of td_primaryKey, simplified table_data.simps]
  arg_cong [OF Proposal_table_def, of td_primaryKey, simplified table_data.simps]
  arg_cong [OF Slash_table_def, of td_primaryKey, simplified table_data.simps]
  arg_cong [OF Bootstrap_table_def, of td_primaryKey, simplified table_data.simps]
  arg_cong [OF Tx_table_def, of td_primaryKey, simplified table_data.simps]
  arg_cong [OF PendingTx_table_def, of td_primaryKey, simplified table_data.simps]
  arg_cong [OF MassDeposit_table_def, of td_primaryKey, simplified table_data.simps]
  arg_cong [OF PendingDeposit_table_def, of td_primaryKey, simplified table_data.simps]
  arg_cong [OF Deposit_table_def, of td_primaryKey, simplified table_data.simps]
  arg_cong [OF Utxo_table_def, of td_primaryKey, simplified table_data.simps]
  arg_cong [OF Withdrawal_table_def, of td_primaryKey, simplified table_data.simps]
  arg_cong [OF InstantWithdrawal_table_def, of td_primaryKey, simplified table_data.simps]
  arg_cong [OF Migration_table_def, of td_primaryKey, simplified table_data.simps]
  arg_cong [OF TreeNode_table_def, of td_primaryKey, simplified table_data.simps]
  arg_cong [OF LightTree_table_def, of td_primaryKey, simplified table_data.simps]
  arg_cong [OF TokenRegistry_table_def, of td_primaryKey, simplified table_data.simps]
  arg_cong [OF ERC20Info_table_def, of td_primaryKey, simplified table_data.simps]

text \<open>The columns that relations join, and the tables they lead to.\<close>

lemma joined_columns:
  "stored_type (construct_table Block_table) ''hash'' = Some String_type"
  "stored_type (construct_table Bootstrap_table) ''blockHash'' = Some String_type"
  "stored_type (construct_table Deposit_table) ''includedIn'' = Some String_type"
  "stored_type (construct_table Deposit_table) ''note'' = Some String_type"
  "stored_type (construct_table Header_table) ''hash'' = Some String_type"
  "stored_type (construct_table InstantWithdrawal_table) ''withdrawalHash'' = Some String_type"
  "stored_type (construct_table PendingDeposit_table) ''note'' = Some String_type"
  "stored_type (construct_table Proposal_table) ''hash'' = Some String_type"
  "stored_type (construct_table Slash_table) ''hash'' = Some String_type"
  "stored_type (construct_table Tx_table) ''blockHash'' = Some String_type"
  "stored_type (construct_table Utxo_table) ''hash'' = Some String_type"
  "stored_type (construct_table Withdrawal_table) ''includedIn'' = Some String_type"
  "stored_type (construct_table Withdrawal_table) ''withdrawalHash'' = Some String_type"
  by (simp_all add: stored_type_def row_of_find table_rows bare_row_def)

lemma foreign_tables:
  "map_of node_schema ''Block'' = Some (construct_table Block_table)"
  "map_of node_schema ''Header'' = Some (construct_table Header_table)"
  "map_of node_schema ''Proposal'' = Some (construct_table Proposal_table)"
  "map_of node_schema ''Slash'' = Some (construct_table Slash_table)"
  "map_of node_schema ''Utxo'' = Some (construct_table Utxo_table)"
  "map_of node_schema ''Withdrawal'' = Some (construct_table Withdrawal_table)"
  by (simp_all add: node_table schema_tables_def table_names)

lemmas table_facts = table_rows table_keys bare_row_def no_options_def relation_ok_def joined_columns foreign_tables to_def

lemma table_ok_each:
  "table_ok node_schema (construct_table EncryptedWallet_table)"
  "table_ok node_schema (construct_table Keystore_table)"
  "table_ok node_schema (construct_table Config_table)"
  "table_ok node_schema (construct_table Tracker_table)"
  "table_ok node_schema (construct_table Header_table)"
  "table_ok node_schema (construct_table Block_table)"
  "table_ok node_schema (construct_table Proposal_table)"
  "table_ok node_schema (construct_table Slash_table)"
  "table_ok node_schema (construct_table Bootstrap_table)"
  "table_ok node_schema (construct_table Tx_table)"
  "table_ok node_schema (construct_table PendingTx_table)"
  "table_ok node_schema (construct_table MassDeposit_table)"
  "table_ok node_schema (construct_table PendingDeposit_table)"
  "table_ok node_schema (construct_table Deposit_table)"
  "table_ok node_schema (construct_table Utxo_table)"
  "table_ok node_schema (construct_table Withdrawal_table)"
  "table_ok node_schema (construct_table InstantWithdrawal_table)"
  "table_ok node_schema (construct_table Migration_table)"
  "table_ok node_schema (construct_table TreeNode_table)"
  "table_ok node_schema (construct_table LightTree_table)"
  "table_ok node_schema (construct_table TokenRegistry_table)"
  "table_ok node_schema (construct_table ERC20Info_table)"
  by (rule table_okI; simp add: table_facts)+

lemma tables_ok: "t \<in> set schema_tables \<Longrightarrow> table_ok node_schema (construct_table t)"
  by (auto simp: schema_tables_def table_ok_each)

text \<open>
  The schema fits together: the keys of every table are stored columns that are not optional, and every
  relation joins stored columns of the same type of tables that exist.
\<close>

lemma schema_consistent:
  "list_all (\<lambda>(name, t). st_name t = name \<and> table_ok node_schema t) node_schema \<and> length node_schema = 22"
proof
  show "list_all (\<lambda>(name, t). st_name t = name \<and> table_ok node_schema t) node_schema"
    using tables_ok by (auto simp: node_schema_tables list_all_iff) (simp add: construct_table_def Let_def)
  show "length node_schema = 22" by (simp add: node_schema_tables schema_tables_def)
qed

text \<open>
  Of the columns by which queries are ordered all but one have the index that the browser's connector asks
  for; the coordinator orders instant withdrawals by a column without one.
\<close>

lemma ordered_columns:
  "filter (\<lambda>o'. \<not> orders_ok node_schema [o']) node_orders = [(''InstantWithdrawal'', ''expiration'')]"
  by (simp add: orders_ok_def node_orders_def node_table schema_tables_def ordering_index_def construct_table_def table_defs
      bare_row_def no_options_def indexed_row_def row_index_def)

end
