(* ===== verification/Database_Types.thy ===== *)
theory Database_Types
  imports Database_Sql Database_Schema
begin

text \<open>
  What the check of documents guarantees: the types of the columns. Documents of stored columns that pass
  it also have an SQL text; further properties pass the check and have none.
\<close>

section \<open>Tables by their rows\<close>

definition columns :: "table_data \<Rightarrow> row_def list" where
  "columns td = map snd (st_rowsByName (construct_table td))"

lemma put_names:
  assumes "distinct (js_keys d)" and "\<forall>(k, r)\<in>set d. rd_name r = k"
  shows "distinct (js_keys (fold (\<lambda>r. js_put (rd_name r) r) rs d)) \<and>
    (\<forall>(k, r)\<in>set (fold (\<lambda>r. js_put (rd_name r) r) rs d). rd_name r = k)"
  using assms
proof (induction rs arbitrary: d)
  case (Cons r rs)
  have sub: "set (js_put (rd_name r) r d) \<subseteq> insert (rd_name r, r) (set d)"
    by (induction "rd_name r" r d rule: js_put.induct) auto
  have "\<forall>(k, r)\<in>set (js_put (rd_name r) r d). rd_name r = k"
    using Cons.prems(2) by (auto dest!: subsetD [OF sub])
  from Cons.IH [OF distinct_js_put [OF Cons.prems(1)] this] show ?case by simp
qed simp

lemma columns_distinct: "distinct (map rd_name (columns td))"
  and columns_rows: "map_of (st_rowsByName (construct_table td)) k = Some r \<longleftrightarrow> r \<in> set (columns td) \<and> rd_name r = k"
proof -
  let ?d = "st_rowsByName (construct_table td)"
  have d: "distinct (js_keys ?d)" "\<forall>(k, r)\<in>set ?d. rd_name r = k"
    using put_names [of "[]" "map normalizeRowDef (td_rows td)"] by (simp_all add: construct_table_def Let_def)
  have "map rd_name (columns td) = map fst ?d" using d(2) by (auto simp: columns_def)
  with d(1) show "distinct (map rd_name (columns td))" by (simp add: js_keys_map)
  show "map_of ?d k = Some r \<longleftrightarrow> r \<in> set (columns td) \<and> rd_name r = k"
    using d by (auto simp: columns_def js_keys_map map_of_eq_Some_iff rev_image_eqI intro: rev_image_eqI)
qed

lemma columns_of_distinct:
  assumes "distinct (map rd_name (map normalizeRowDef (td_rows td)))"
  shows "columns td = map normalizeRowDef (td_rows td)"
  using fold_put [OF assms, of "[]" "\<lambda>r. r"] by (simp add: columns_def construct_table_def Let_def comp_def)

section \<open>The types of a document\<close>

definition column_typed :: "row_def \<Rightarrow> js \<Rightarrow> bool" where
  "column_typed r v \<longleftrightarrow>
     (if nullish v then rd_optional r \<or> rd_relation r \<noteq> None
      else case rd_type r of None \<Rightarrow> True | Some t \<Rightarrow> has_type t v)"

definition well_typed :: "table_data \<Rightarrow> js_object \<Rightarrow> bool" where
  "well_typed td doc \<longleftrightarrow> (\<forall>r\<in>set (columns td). column_typed r (js_get doc (rd_name r)))"

text \<open>The document with the defaults of the columns it has no value for.\<close>

definition defaults_for :: "(string \<Rightarrow> js) \<Rightarrow> js_object \<Rightarrow> row_def list \<Rightarrow> js_object" where
  "defaults_for G doc rs =
     map (\<lambda>r. (rd_name r, default_of G r)) (filter (\<lambda>r. has_default r \<and> nullish (js_get doc (rd_name r))) rs)"

definition filled :: "(string \<Rightarrow> js) \<Rightarrow> table_data \<Rightarrow> js_object \<Rightarrow> js_object" where
  "filled G td doc = js_spread (defaults_for G doc (columns td)) doc"

lemma js_get_append: "js_get (d @ e) k = (if k \<in> set (js_keys d) then js_get d k else js_get e k)"
  by (induction d) auto

lemma defaults_for_keys: "set (js_keys (defaults_for G doc rs)) \<subseteq> rd_name ` set rs"
  by (auto simp: defaults_for_def js_keys_map)

lemma check_column_cases:
  assumes "rd_name r \<notin> set (js_keys defaults)" and "distinct (js_keys doc)"
  shows "check_column G doc r defaults = Ok d' \<longleftrightarrow>
    d' = defaults @ defaults_for G doc [r] \<and> column_typed r (js_get (js_spread (defaults @ defaults_for G doc [r]) doc) (rd_name r))"
proof -
  have "(if has_default r \<and> nullish (js_get doc (rd_name r)) then js_put (rd_name r) (default_of G r) defaults else defaults) =
      defaults @ defaults_for G doc [r]"
    using js_put_new [OF assms(1)] by (simp add: defaults_for_def)
  then show ?thesis unfolding check_column_def Let_def column_typed_def by (auto split: option.split)
qed

lemma check_columns:
  assumes "distinct (map rd_name rs)" and "set (js_keys defaults) \<inter> rd_name ` set rs = {}" and "distinct (js_keys doc)"
  shows "foldM (check_column G doc) rs defaults = Ok d' \<longleftrightarrow>
    d' = defaults @ defaults_for G doc rs \<and> (\<forall>r\<in>set rs. column_typed r (js_get (js_spread d' doc) (rd_name r)))"
  using assms
proof (induction rs arbitrary: defaults)
  case Nil
  show ?case by (auto simp: defaults_for_def)
next
  case (Cons r rs)
  let ?d = "defaults @ defaults_for G doc [r]"
  have keys: "js_keys (d @ e) = js_keys d @ js_keys e" for d e :: js_object by (simp add: js_keys_map)
  have single: "set (js_keys (defaults_for G doc [r])) \<subseteq> {rd_name r}" using defaults_for_keys [of G doc "[r]"] by simp
  have fresh: "rd_name x \<noteq> rd_name r" if "x \<in> set rs" for x using Cons.prems(1) that by (auto simp: image_iff)
  have later: "js_get (js_spread (?d @ defaults_for G doc rs) doc) (rd_name r) = js_get (js_spread ?d doc) (rd_name r)"
    using Cons.prems defaults_for_keys [of G doc rs]
    by (auto simp: js_get_spread js_get_append js_get_absent keys) (metis image_eqI js_get_absent subsetD)+
  have "foldM (check_column G doc) rs ?d = Ok d' \<longleftrightarrow>
      d' = ?d @ defaults_for G doc rs \<and> (\<forall>r\<in>set rs. column_typed r (js_get (js_spread d' doc) (rd_name r)))"
    using Cons.prems fresh by (intro Cons.IH) (auto simp: keys dest!: subsetD [OF single])
  moreover have "?d @ defaults_for G doc rs = defaults @ defaults_for G doc (r # rs)" by (simp add: defaults_for_def)
  ultimately show ?case
    using check_column_cases [of r defaults doc G] Cons.prems later by auto
qed

lemma validate_doc_iff:
  assumes "distinct (js_keys doc)"
  shows "validate_doc G (construct_table td) doc = Ok d \<longleftrightarrow> d = filled G td doc \<and> well_typed td d"
proof -
  have "foldM (check_column G doc) (columns td) [] = Ok d' \<longleftrightarrow>
      d' = defaults_for G doc (columns td) \<and> (\<forall>r\<in>set (columns td). column_typed r (js_get (js_spread d' doc) (rd_name r)))" for d'
    using check_columns [OF columns_distinct _ assms, of "[]"] by simp
  then show ?thesis by (auto simp: validate_doc_def columns_def [symmetric] filled_def well_typed_def)
qed

lemma enumerate_in: "(i, x) \<in> set (enumerate n xs) \<Longrightarrow> x \<in> set xs"
  by (auto simp: enumerate_eq_zip dest: set_zip_rightD)

text \<open>C36: The check of documents decides their types: documents are accepted exactly when, with the defaults
  filled in, every column that is not optional has a value and every value has the type of its column; they
  are returned with the defaults.\<close>

theorem validateDocuments_decides_types:
  assumes "\<forall>doc\<in>set docs. distinct (js_keys doc)"
  shows "validateDocuments G (construct_table td) docs = Ok ds \<longleftrightarrow>
    ds = map (\<lambda>(i, doc). filled (G i) td doc) (enumerate 0 docs) \<and> (\<forall>d\<in>set ds. well_typed td d)"
proof -
  have one: "(case x of (i, doc) \<Rightarrow> validate_doc (G i) (construct_table td) doc) = Ok d \<longleftrightarrow>
      d = (case x of (i, doc) \<Rightarrow> filled (G i) td doc) \<and> well_typed td d" if "x \<in> set (enumerate 0 docs)" for x d
    using validate_doc_iff [of "snd x" "G (fst x)" td d] enumerate_in [of "fst x" "snd x"] that assms
    by (simp add: case_prod_beta)
  have "list_all2 (\<lambda>x y. f x = Ok y) xs ds \<longleftrightarrow> ds = map g xs \<and> (\<forall>d\<in>set ds. P d)"
    if "\<And>x d. x \<in> set xs \<Longrightarrow> f x = Ok d \<longleftrightarrow> d = g x \<and> P d" for f :: "nat \<times> js_object \<Rightarrow> js_object result" and g P xs
    using that by (induction xs arbitrary: ds) (auto simp: list_all2_Cons1)
  then show ?thesis unfolding validateDocuments_def map_result_Ok_iff using one by blast
qed

text \<open>A tracked account, whose missing number is made up.\<close>

theorem validateDocuments_decides_types_witness:
  "validateDocuments (\<lambda>i f. JNum (int i)) (construct_table Tracker_table) [[(''address'', JStr ''0x1'')]] =
     Ok [[(''id'', JNum 0), (''address'', JStr ''0x1'')]]"
proof -
  have "distinct (js_keys [(''address'', JStr ''0x1'')])" by simp
  then show ?thesis
    by (subst validateDocuments_decides_types)
      (simp_all add: filled_def defaults_for_def well_typed_def columns_of_distinct Tracker_table_def bare_row_def has_default_def
        default_of_def nullish_def column_typed_def)
qed

section \<open>The text of a document\<close>

text \<open>The values for which \<open>parseType\<close> has a text.\<close>

lemma parseType_typed: "nullish v \<or> (\<exists>t. ty = Some t \<and> has_type t v) \<Longrightarrow> \<exists>s. parseType ty v = Ok s"
  by (auto simp: parseType_def Let_def nullish_def split: option.splits data_type.splits js.splits elim!: has_type.elims)

lemma row_of_columns: "row_of (construct_table td) k = Some r \<longleftrightarrow> r \<in> set (columns td) \<and> rd_name r = k"
  by (simp add: row_of_def columns_rows)

text \<open>The defaults of a table have the types of their columns.\<close>

definition defaults_typed :: "(string \<Rightarrow> js) \<Rightarrow> table_data \<Rightarrow> bool" where
  "defaults_typed G td \<longleftrightarrow> (\<forall>r\<in>set (columns td). has_default r \<longrightarrow>
     (\<exists>t. rd_type r = Some t \<and> has_type t (default_of G r)))"

text \<open>The columns that are stored: those of a relation are virtual.\<close>

definition stored_column :: "table_data \<Rightarrow> string \<Rightarrow> bool" where
  "stored_column td k \<longleftrightarrow> (\<exists>r\<in>set (columns td). rd_name r = k \<and> rd_relation r = None \<and> rd_type r \<noteq> None)"

lemma fold_defaults:
  "js_get (fold (assign_default G) rs doc) k \<in> insert (js_get doc k) {default_of G r | r. r \<in> set rs \<and> rd_name r = k \<and> has_default r}"
proof (induction rs arbitrary: doc)
  case (Cons r rs)
  show ?case using Cons.IH [of "assign_default G r doc"] by (auto simp: assign_default_def split: if_splits)
qed simp

lemma fold_defaults_keys:
  "set (js_keys (fold (assign_default G) rs doc)) \<subseteq> set (js_keys doc) \<union> rd_name ` {r \<in> set rs. has_default r}"
proof (induction rs arbitrary: doc)
  case (Cons r rs)
  show ?case using Cons.IH [of "assign_default G r doc"] by (auto simp: assign_default_def js_keys_put split: if_splits)
qed simp

lemma map_result_exists: "\<forall>x\<in>set xs. \<exists>y. f x = Ok y \<Longrightarrow> \<exists>ys. map_result f xs = Ok ys"
  by (induction xs) force+

lemma map_result_each: "map_result f xs = Ok ys \<Longrightarrow> x \<in> set xs \<Longrightarrow> \<exists>y. f x = Ok y"
  by (induction xs arbitrary: ys) auto

lemma first_places_set [simp]: "set (first_places xs) = set xs"
  by (simp add: first_places_def)

definition names_distinct :: "table_data \<Rightarrow> bool" where
  "names_distinct td \<longleftrightarrow> distinct (map rd_name (map normalizeRowDef (td_rows td)))"

lemma st_rows_columns: "names_distinct td \<Longrightarrow> st_rows (construct_table td) = columns td"
  by (simp add: names_distinct_def columns_of_distinct) (simp add: construct_table_def Let_def)

text \<open>The value of a document that passed the check has a text in its column.\<close>

lemma written_value:
  assumes "well_typed td (filled G td doc)" and "distinct (js_keys doc)" and "names_distinct td"
    and "r \<in> set (columns td)" and "rd_type r = Some t" and "defaults_typed G td"
  shows "nullish (js_get (with_defaults G (construct_table td) doc) (rd_name r)) \<or>
    has_type t (js_get (with_defaults G (construct_table td) doc) (rd_name r))"
proof -
  let ?v = "js_get (with_defaults G (construct_table td) doc) (rd_name r)"
  consider "?v = js_get doc (rd_name r)" | r' where "?v = default_of G r'" "r' \<in> set (columns td)" "rd_name r' = rd_name r" "has_default r'"
    using fold_defaults [of G "columns td" doc "rd_name r"] by (auto simp: with_defaults_def st_rows_columns assms(3))
  then show ?thesis
  proof cases
    case 1
    show ?thesis
    proof (cases "nullish ?v")
      case False
      then have "rd_name r \<in> set (js_keys doc)" using 1 js_get_absent by (force simp: nullish_def)
      then have "js_get (filled G td doc) (rd_name r) = ?v" using 1 assms(2) by (simp add: filled_def js_get_spread)
      moreover have "column_typed r (js_get (filled G td doc) (rd_name r))" using assms(1,4) by (simp add: well_typed_def)
      ultimately show ?thesis using False assms(5) by (simp add: column_typed_def)
    qed simp
  next
    case 2
    have "r' = r" using 2(2,3) assms(4) columns_distinct [of td] by (auto simp: distinct_map dest: inj_onD)
    with 2 assms(4-6) show ?thesis by (auto simp: defaults_typed_def)
  qed
qed

lemma written_values:
  assumes "well_typed td (filled G td doc)" and "distinct (js_keys doc)" and "names_distinct td" and "defaults_typed G td"
    and "\<forall>k\<in>set keys. \<exists>r\<in>set (columns td). rd_name r = k \<and> rd_type r \<noteq> None"
  shows "\<exists>s. values_sql (construct_table td) keys (with_defaults G (construct_table td) doc) = Ok s"
proof -
  let ?t = "construct_table td" and ?doc = "with_defaults G (construct_table td) doc"
  have "\<exists>s. bind_result (column_of ?t k) (\<lambda>r. parseType (rd_type r) (js_get ?doc k)) = Ok s" if k: "k \<in> set keys" for k
  proof -
    obtain r t where r: "r \<in> set (columns td)" "rd_name r = k" "rd_type r = Some t" using bspec [OF assms(5) k] by blast
    have "nullish (js_get ?doc k) \<or> has_type t (js_get ?doc k)"
      using written_value [OF assms(1-3) r(1,3) assms(4)] unfolding r(2) .
    with r(3) have "nullish (js_get ?doc k) \<or> (\<exists>t. rd_type r = Some t \<and> has_type t (js_get ?doc k))" by blast
    from parseType_typed [OF this] obtain s where s: "parseType (rd_type r) (js_get ?doc k) = Ok s" ..
    have "row_of ?t k = Some r" using r(1,2) by (simp add: row_of_columns)
    with s show ?thesis by (simp add: column_of_def)
  qed
  from map_result_exists [OF ballI, OF this]
  obtain ys where "map_result (\<lambda>k. bind_result (column_of ?t k) (\<lambda>r. parseType (rd_type r) (js_get ?doc k))) keys = Ok ys" ..
  then show ?thesis by (simp add: values_sql_def)
qed

text \<open>A property without a column, which the check does not look at, has no SQL text.\<close>

lemma fold_defaults_keep: "set (js_keys doc) \<subseteq> set (js_keys (fold (assign_default G) rs doc))"
proof (induction rs arbitrary: doc)
  case (Cons r rs)
  show ?case using Cons.IH [of "assign_default G r doc"] by (auto simp: assign_default_def js_keys_put split: if_splits)
qed simp

lemma written_keys_are_columns:
  assumes "createSql G t docs = Ok r" and "doc \<in> set docs" and "k \<in> set (js_keys doc)"
  shows "row_of t k \<noteq> None"
proof -
  let ?docs = "map (\<lambda>(i, doc). with_defaults (G i) t doc) (enumerate 0 docs)"
  let ?keys = "first_places (concat (map js_keys ?docs))"
  obtain vs where vs: "map_result (values_sql t ?keys) ?docs = Ok vs" using assms(1) by (auto simp: createSql_def Let_def)
  have "doc \<in> snd ` set (enumerate 0 docs)" using assms(2) by (simp flip: set_map)
  then obtain i where i: "(i, doc) \<in> set (enumerate 0 docs)" by auto
  then have d: "with_defaults (G i) t doc \<in> set ?docs" by force
  have "k \<in> set (js_keys (with_defaults (G i) t doc))" using assms(3) fold_defaults_keep by (auto simp: with_defaults_def)
  with d have key: "k \<in> set ?keys" unfolding first_places_set set_concat set_map by blast
  obtain v where "values_sql t ?keys (with_defaults (G i) t doc) = Ok v" using map_result_each [OF vs d] by blast
  then obtain ws where "map_result (\<lambda>k. bind_result (column_of t k) (\<lambda>r. parseType (rd_type r) (js_get (with_defaults (G i) t doc) k))) ?keys = Ok ws"
    by (auto simp: values_sql_def)
  from map_result_each [OF this key] show ?thesis by (auto simp: column_of_def split: option.splits)
qed

text \<open>C37: Documents that pass the check of the memory connectors can be written to SQL. When the columns of a
  table have different names, every default has the type of its column, and each document names every
  property once and only properties that are stored columns, then a list of documents that the check
  accepts has an SQL text. The check itself accepts further properties, for which there is none.\<close>

theorem checked_documents_written:
  assumes "validateDocuments G (construct_table td) docs = Ok ds" and "names_distinct td"
    and docs: "\<forall>doc\<in>set docs. distinct (js_keys doc) \<and> (\<forall>k\<in>set (js_keys doc). stored_column td k)"
    and "\<forall>i. defaults_typed (G i) td"
  shows "\<exists>sql query. createSql G (construct_table td) docs = Ok (sql, query)"
proof -
  let ?t = "construct_table td"
  let ?docs = "map (\<lambda>(i, doc). with_defaults (G i) ?t doc) (enumerate 0 docs)"
  let ?keys = "first_places (concat (map js_keys ?docs))"
  have sub: "set (js_keys (with_defaults (G i) ?t doc)) \<subseteq> set (js_keys doc) \<union> rd_name ` {r \<in> set (columns td). has_default r}" for i doc
    unfolding with_defaults_def st_rows_columns [OF assms(2)] by (rule fold_defaults_keys)
  have keys: "\<exists>r\<in>set (columns td). rd_name r = k \<and> rd_type r \<noteq> None" if k: "k \<in> set ?keys" for k
  proof -
    obtain i doc where "doc \<in> set docs" "k \<in> set (js_keys (with_defaults (G i) ?t doc))"
      using k by (auto dest: enumerate_in)
    with subsetD [OF sub] consider "k \<in> set (js_keys doc)" | r where "r \<in> set (columns td)" "has_default r" "rd_name r = k" by blast
    then show ?thesis
    proof cases
      case 1
      with docs \<open>doc \<in> set docs\<close> have "stored_column td k" by blast
      then show ?thesis unfolding stored_column_def by blast
    next
      case 2
      then show ?thesis using assms(4) unfolding defaults_typed_def by blast
    qed
  qed
  have "\<exists>s. values_sql ?t ?keys d = Ok s" if d: "d \<in> set ?docs" for d
  proof -
    obtain p where p: "p \<in> set (enumerate 0 docs)" "d = (case p of (i, doc) \<Rightarrow> with_defaults (G i) ?t doc)"
      using d unfolding set_map by blast
    obtain i doc where "p = (i, doc)" by fastforce
    with p have x: "(i, doc) \<in> set (enumerate 0 docs)" "d = with_defaults (G i) ?t doc" by simp_all
    then have doc: "doc \<in> set docs" by (auto dest: enumerate_in)
    obtain d' where "validate_doc (G i) ?t doc = Ok d'"
      using map_result_each [OF assms(1) [unfolded validateDocuments_def] x(1)] by auto
    then have "well_typed td (filled (G i) td doc)"
      using validate_doc_iff [OF bspec [OF docs doc, THEN conjunct1], of "G i" td d'] by blast
    from written_values [OF this bspec [OF docs doc, THEN conjunct1] assms(2) spec [OF assms(4)] ballI [OF keys]]
    show ?thesis unfolding x(2) .
  qed
  from map_result_exists [OF ballI, OF this] obtain ys where "map_result (values_sql ?t ?keys) ?docs = Ok ys" ..
  then show ?thesis by (simp add: createSql_def Let_def)
qed

text \<open>Two accounts, one of them without its number.\<close>

theorem checked_documents_written_witness:
  "\<exists>sql query. createSql (\<lambda>i f. JNum (int i)) (construct_table Tracker_table)
     [[(''address'', JStr ''0x1'')], [(''viewer'', JStr ''v''), (''id'', JNum 7)]] = Ok (sql, query)"
proof -
  have names: "names_distinct Tracker_table" by (simp add: names_distinct_def Tracker_table_def bare_row_def)
  note cols = columns_of_distinct
  have doc: "validate_doc G (construct_table Tracker_table) d = Ok (filled G Tracker_table d)"
    if "d \<in> {[(''address'', JStr ''0x1'')], [(''viewer'', JStr ''v''), (''id'', JNum 7)]}" "G = (\<lambda>f. JNum n)" for d G n
    using that by (subst validate_doc_iff) (auto simp: filled_def defaults_for_def well_typed_def cols Tracker_table_def bare_row_def
      has_default_def default_of_def nullish_def column_typed_def)
  have "validateDocuments (\<lambda>i f. JNum (int i)) (construct_table Tracker_table)
      [[(''address'', JStr ''0x1'')], [(''viewer'', JStr ''v''), (''id'', JNum 7)]] =
    Ok [filled (\<lambda>f. JNum 0) Tracker_table [(''address'', JStr ''0x1'')],
        filled (\<lambda>f. JNum 1) Tracker_table [(''viewer'', JStr ''v''), (''id'', JNum 7)]]"
    by (simp add: validateDocuments_def doc)
  then show ?thesis
    by (rule checked_documents_written)
      (simp_all add: names, simp_all add: stored_column_def cols defaults_typed_def Tracker_table_def bare_row_def default_of_def has_default_def)
qed

end
