(* ===== verification/Database_Match.thy ===== *)
theory Database_Match
  imports Database_Sql Database_Schema
begin

text \<open>
  A query in memory and as SQL. The text of a query is that of a condition; a condition is read as SQL
  does: a comparison with NULL is not true. For rows and queries that keep to what both sides mean alike,
  they select the same rows.
\<close>

section \<open>Conditions\<close>

datatype sql_op = Eq_op | Ne_op | Lt_op | Le_op | Gt_op | Ge_op

text \<open>The second argument of \<open>Null_test\<close> and \<open>Member\<close> says whether they are negated.\<close>

datatype sql_cond =
    No_row
  | Compare string sql_op "data_type option" js
  | Null_test string bool
  | Member string bool "data_type option" "js list"
  | Where "sql_cond list" "sql_cond list option" "sql_cond list option"

fun op_text :: "sql_op \<Rightarrow> string" where
  "op_text Eq_op = ''=''"
| "op_text Ne_op = ''!=''"
| "op_text Lt_op = ''<''"
| "op_text Le_op = ''<=''"
| "op_text Gt_op = ''>''"
| "op_text Ge_op = ''>=''"

definition literal :: "data_type option \<Rightarrow> js \<Rightarrow> string" where
  "literal ty v = (case parseType ty v of Inl _ \<Rightarrow> [] | Inr s \<Rightarrow> s)"

fun cond_text :: "sql_cond \<Rightarrow> string" where
  "cond_text No_row = ''(false)''"
| "cond_text (Compare k op ty v) = quoted k @ '' '' @ op_text op @ '' '' @ literal ty v"
| "cond_text (Null_test k neg) = quoted k @ '' '' @ (if neg then ''IS NOT'' else ''IS'') @ '' NULL''"
| "cond_text (Member k neg ty vs) = quoted k @ (if neg then '' NOT IN ('' else '' IN ('') @ join '','' (map (literal ty) vs) @ '')''"
| "cond_text (Where cs ors ands) =
     '' ('' @ (if cs = [] then ''true'' else join '' AND '' (map cond_text cs)) @ '') AND ('' @
     (case ors of None \<Rightarrow> ''true'' | Some os \<Rightarrow> if os = [] then ''false'' else join '' OR '' (map (\<lambda>c. '' '' @ cond_text c) os)) @ '') AND ('' @
     (case ands of None \<Rightarrow> ''true'' | Some as \<Rightarrow> if as = [] then ''true'' else join '' AND '' (map (\<lambda>c. '' '' @ cond_text c) as)) @ '')''"

text \<open>Values of one column type are ordered; false comes before true.\<close>

fun sql_less :: "js \<Rightarrow> js \<Rightarrow> bool" where
  "sql_less (JNum m) (JNum n) = (m < n)"
| "sql_less (JStr s) (JStr t) = text_less s t"
| "sql_less (JBool a) (JBool b) = (\<not> a \<and> b)"
| "sql_less _ _ = False"

definition compares :: "sql_op \<Rightarrow> js \<Rightarrow> js \<Rightarrow> bool" where
  "compares op x v \<longleftrightarrow> \<not> nullish x \<and> \<not> nullish v \<and>
     (case op of
        Eq_op \<Rightarrow> x = v
      | Ne_op \<Rightarrow> x \<noteq> v
      | Lt_op \<Rightarrow> sql_less x v
      | Le_op \<Rightarrow> sql_less x v \<or> x = v
      | Gt_op \<Rightarrow> sql_less v x
      | Ge_op \<Rightarrow> sql_less v x \<or> x = v)"

text \<open>A row is selected when the condition is true of it, neither false nor unknown.\<close>

fun selects :: "js_object \<Rightarrow> sql_cond \<Rightarrow> bool" where
  "selects row No_row = False"
| "selects row (Compare k op ty v) = compares op (js_get row k) v"
| "selects row (Null_test k neg) = (nullish (js_get row k) \<noteq> neg)"
| "selects row (Member k neg ty vs) = (\<not> nullish (js_get row k) \<and>
     (if neg then \<forall>v\<in>set vs. \<not> nullish v \<and> js_get row k \<noteq> v else js_get row k \<in> set vs))"
| "selects row (Where cs ors ands) = ((\<forall>c\<in>set cs. selects row c) \<and>
     (case ors of None \<Rightarrow> True | Some os \<Rightarrow> \<exists>c\<in>set os. selects row c) \<and>
     (case ands of None \<Rightarrow> True | Some as \<Rightarrow> \<forall>c\<in>set as. selects row c))"

section \<open>The condition of a query\<close>

definition op_cond :: "string \<Rightarrow> data_type option \<Rightarrow> string \<times> js \<Rightarrow> sql_cond" where
  "op_cond k ty = (\<lambda>(op, v).
     if op = ''nin'' then (case v of JArr vs \<Rightarrow> Member k True ty vs | _ \<Rightarrow> No_row)
     else if op = ''ne'' then (if v = JNull then Null_test k True else Compare k Ne_op ty v)
     else if op = ''lt'' then Compare k Lt_op ty v
     else if op = ''lte'' then Compare k Le_op ty v
     else if op = ''gt'' then Compare k Gt_op ty v
     else Compare k Ge_op ty v)"

definition key_conds :: "schema_table \<Rightarrow> string \<times> js \<Rightarrow> sql_cond list" where
  "key_conds t = (\<lambda>(k, v).
     if k = ''OR'' \<or> k = ''AND'' then []
     else
       (case v of
          JArr vs \<Rightarrow> if vs = [] then [No_row] else [Member k False (column_type t k) vs]
        | JObj ops \<Rightarrow> map (op_cond k (column_type t k)) ops
        | _ \<Rightarrow> if nullish v then [Null_test k False] else [Compare k Eq_op (column_type t k) v]))"

function where_cond :: "schema_table \<Rightarrow> js \<Rightarrow> sql_cond" where
  "where_cond t w =
     (case w of
        JObj d \<Rightarrow> Where (concat (map (key_conds t) d))
          (case js_get d ''OR'' of JArr vs \<Rightarrow> Some (map (where_cond t) vs) | _ \<Rightarrow> None)
          (case js_get d ''AND'' of JArr vs \<Rightarrow> Some (map (where_cond t) vs) | _ \<Rightarrow> None)
      | _ \<Rightarrow> No_row)"
  by pat_completeness auto
termination
  by (relation "measure (\<lambda>(t, w). clause_depth w)") (auto intro: clause_depth_JArr)

declare where_cond.simps [simp del]

section \<open>Queries that mean the same\<close>

text \<open>
  Values of the column's type; no comparison but that of equality for a value of the row that is NULL, no NULL
  in a list that such a value is compared with, and none of the operators that only one side knows.
\<close>

definition op_ok :: "data_type \<Rightarrow> js \<Rightarrow> string \<times> js \<Rightarrow> bool" where
  "op_ok ty x = (\<lambda>(op, v).
     if op = ''nin'' then (case v of JArr vs \<Rightarrow> vs \<noteq> [] \<and> (\<forall>v\<in>set vs. has_type ty v) \<and> \<not> nullish x | _ \<Rightarrow> False)
     else if op = ''ne'' then v = JNull \<or> has_type ty v \<and> \<not> nullish x
     else op \<in> {''lt'', ''lte'', ''gt'', ''gte''} \<and> has_type ty v \<and> \<not> nullish x)"

definition val_ok :: "data_type \<Rightarrow> js \<Rightarrow> js \<Rightarrow> bool" where
  "val_ok ty x v =
     (case v of
        JObj ops \<Rightarrow> distinct (js_keys ops) \<and> (\<forall>p\<in>set ops. op_ok ty x p)
      | JArr vs \<Rightarrow> (\<forall>v\<in>set vs. has_type ty v \<or> v = JNull \<and> \<not> nullish x)
      | JNull \<Rightarrow> True
      | _ \<Rightarrow> has_type ty v)"

definition key_ok :: "schema_table \<Rightarrow> js_object \<Rightarrow> string \<times> js \<Rightarrow> bool" where
  "key_ok t row = (\<lambda>(k, v).
     (case column_type t k of
        None \<Rightarrow> False
      | Some ty \<Rightarrow> ty \<noteq> Object_type \<and> (nullish (js_get row k) \<or> has_type ty (js_get row k)) \<and> val_ok ty (js_get row k) v))"

inductive comparable :: "schema_table \<Rightarrow> js_object \<Rightarrow> js \<Rightarrow> bool" for t row where
  "d \<noteq> [] \<Longrightarrow> distinct (js_keys d) \<Longrightarrow>
   \<forall>(k, v)\<in>set d. k \<noteq> ''OR'' \<and> k \<noteq> ''AND'' \<longrightarrow> key_ok t row (k, v) \<Longrightarrow>
   \<forall>(k, v)\<in>set d. k = ''OR'' \<or> k = ''AND'' \<longrightarrow> (\<exists>ws. v = JArr ws \<and> (\<forall>w\<in>set ws. comparable t row w)) \<Longrightarrow>
   comparable t row (JObj d)"

section \<open>Values\<close>

lemma text_less_asym: "text_less s t \<Longrightarrow> \<not> text_less t s"
  using text_less_trans text_less_irrefl by blast

lemma typed_values:
  assumes "has_type ty v" and "ty \<noteq> Object_type"
  obtains n where "ty = Int_type" "v = JNum n" | b where "ty = Bool_type" "v = JBool b" | s where "ty = String_type" "v = JStr s"
  using assms by (cases ty; cases v) auto

lemma typed_compare:
  assumes "has_type ty x" and "has_type ty v" and "ty \<noteq> Object_type"
  shows "js_less N x v = Some (sql_less x v)" and "strict_equal x v \<longleftrightarrow> x = v"
    and "\<not> sql_less v x \<longleftrightarrow> sql_less x v \<or> x = v" and "\<not> nullish v"
proof -
  have "js_less N x v = Some (sql_less x v) \<and> (strict_equal x v \<longleftrightarrow> x = v) \<and> (\<not> sql_less v x \<longleftrightarrow> sql_less x v \<or> x = v) \<and> \<not> nullish v"
    using assms(1,3)
  proof (cases rule: typed_values)
    case (1 m)
    then show ?thesis using assms(2) by (cases v) (auto simp: js_less_def to_primitive_def strict_equal_def nullish_def)
  next
    case (2 b)
    then show ?thesis using assms(2) by (cases v) (auto simp: js_less_def to_primitive_def strict_equal_def nullish_def)
  next
    case (3 s)
    then show ?thesis using assms(2) text_less_total text_less_asym text_less_irrefl
      by (cases v) (auto simp: js_less_def to_primitive_def strict_equal_def nullish_def)
  qed
  then show "js_less N x v = Some (sql_less x v)" "strict_equal x v \<longleftrightarrow> x = v"
    "\<not> sql_less v x \<longleftrightarrow> sql_less x v \<or> x = v" "\<not> nullish v" by blast+
qed

lemma typed_literal:
  assumes "nullish v \<or> has_type ty v" and "ty \<noteq> Object_type"
  shows "parseType (Some ty) v = Ok (literal (Some ty) v)" and "literal (Some ty) v = ''NULL'' \<longleftrightarrow> nullish v"
proof -
  have "parseType (Some ty) v = Ok (literal (Some ty) v) \<and> (literal (Some ty) v = ''NULL'' \<longleftrightarrow> nullish v)"
  proof (cases "nullish v")
    case True
    then show ?thesis by (simp add: literal_def parseType_def)
  next
    case False
    have digits: "number_text n \<noteq> ''NULL''" for n
      using decimal_neq [of "''NULL''"] by (simp add: number_text_def)
    from False assms have "has_type ty v" by simp
    from this assms(2) show ?thesis
      by (cases rule: typed_values) (simp_all add: literal_def parseType_def nullish_def sql_text_def digits)
  qed
  then show "parseType (Some ty) v = Ok (literal (Some ty) v)" "literal (Some ty) v = ''NULL'' \<longleftrightarrow> nullish v" by blast+
qed

section \<open>One key\<close>

lemma map_result_texts:
  "\<forall>x\<in>set xs. f x = Ok (g x) \<Longrightarrow> map_result f xs = Ok (map g xs)"
  by (rule map_result_map) blast

lemma operator_text:
  assumes "op_ok ty x p" and "ty \<noteq> Object_type"
  shows "operator_sql (Some ty) k p = Ok (cond_text (op_cond k (Some ty) p))"
proof -
  obtain op v where p: "p = (op, v)" by fastforce
  show ?thesis
  proof (cases "op = ''nin''")
    case True
    with assms obtain vs where vs: "v = JArr vs" "\<forall>v\<in>set vs. has_type ty v" by (auto simp: p op_ok_def split: js.splits)
    then have "map_result (parseType (Some ty)) vs = Ok (map (literal (Some ty)) vs)"
      using typed_literal(1) assms(2) by (intro map_result_texts) blast
    with True vs(1) show ?thesis by (simp add: p operator_sql_def op_cond_def)
  next
    case False
    with assms(1) have "v = JNull \<and> op = ''ne'' \<or> has_type ty v" "op \<in> {''ne'', ''lt'', ''lte'', ''gt'', ''gte''}"
      by (auto simp: p op_ok_def split: if_splits)
    moreover have "has_type ty v \<Longrightarrow> v \<noteq> JNull" using assms(2) by (cases ty) auto
    ultimately consider "v = JNull" "op = ''ne''" | "has_type ty v" "v \<noteq> JNull" "op \<in> {''ne'', ''lt'', ''lte'', ''gt'', ''gte''}" by blast
    then show ?thesis
    proof cases
      case 1
      have "parseType (Some ty) JNull = Ok ''NULL''" by (simp add: parseType_def nullish_def)
      then show ?thesis by (simp add: p 1 operator_sql_def op_cond_def)
    next
      case 2
      have "parseType (Some ty) v = Ok (literal (Some ty) v)" using typed_literal(1) 2(1) assms(2) by blast
      with 2(3) show ?thesis by (elim insertE emptyE) (simp_all add: p 2(2) operator_sql_def op_cond_def)
    qed
  qed
qed

lemma key_text:
  assumes "key_ok t row (k, v)" and "k \<noteq> ''OR''" "k \<noteq> ''AND''"
  shows "key_sql t (k, v) = Ok (map cond_text (key_conds t (k, v)))"
proof -
  obtain ty where ty: "column_type t k = Some ty" "ty \<noteq> Object_type" "val_ok ty (js_get row k) v"
    using assms(1) by (auto simp: key_ok_def split: option.splits)
  then obtain r where r: "column_of t k = Ok r" "rd_type r = Some ty"
    by (auto simp: column_type_def column_of_def split: option.splits)
  have scalar: "nullish v \<or> has_type ty v \<Longrightarrow> (\<forall>vs. v \<noteq> JArr vs) \<Longrightarrow> (\<forall>ops. v \<noteq> JObj ops) \<Longrightarrow> ?thesis"
    using r ty(1) typed_literal [of v ty] ty(2) assms(2,3)
    by (cases v) (auto simp: key_sql_def key_conds_def nullish_def)
  show ?thesis
  proof (cases v)
    case (JArr vs)
    then have "\<forall>v\<in>set vs. nullish v \<or> has_type ty v" using ty(3) by (auto simp: val_ok_def nullish_def)
    then have "map_result (parseType (Some ty)) vs = Ok (map (literal (Some ty)) vs)"
      using typed_literal(1) ty(2) by (intro map_result_texts) blast
    then show ?thesis using r ty(1) assms(2,3) JArr by (cases vs) (simp_all add: key_sql_def key_conds_def)
  next
    case (JObj ops)
    then have "\<forall>p\<in>set ops. operator_sql (Some ty) k p = Ok (cond_text (op_cond k (Some ty) p))"
      using ty(2,3) by (auto simp: val_ok_def intro!: operator_text)
    then have "map_result (operator_sql (Some ty) k) ops = Ok (map (\<lambda>p. cond_text (op_cond k (Some ty) p)) ops)"
      by (rule map_result_texts)
    then show ?thesis using r ty(1) assms(2,3) JObj by (simp add: key_sql_def key_conds_def comp_def)
  qed (use ty(3) scalar in \<open>auto simp: val_ok_def nullish_def\<close>)
qed

text \<open>In memory an operator that is set is one test, and the tests are independent.\<close>

definition op_test :: "(string \<Rightarrow> int option) \<Rightarrow> js \<Rightarrow> string \<times> js \<Rightarrow> bool" where
  "op_test N x = (\<lambda>(op, v).
     if op = ''ne'' then \<not> (v = JNull \<and> nullish x) \<and> \<not> strict_equal x v
     else if op = ''lt'' then \<not> js_ge N x v
     else if op = ''lte'' then \<not> js_lt N v x
     else if op = ''gt'' then \<not> js_ge N v x
     else if op = ''gte'' then \<not> js_lt N x v
     else (case v of JArr vs \<Rightarrow> \<forall>w\<in>set vs. \<not> (x = JNull \<and> nullish w) \<and> \<not> strict_equal x w | _ \<Rightarrow> True))"

lemma js_get_in: "distinct (js_keys d) \<Longrightarrow> (k, v) \<in> set d \<Longrightarrow> js_get d k = v"
  by (simp add: js_get_def js_keys_map)

lemma in_js_get: "js_get d k \<noteq> JUndefined \<Longrightarrow> (k, js_get d k) \<in> set d"
  by (simp add: js_get_def map_of_SomeD split: option.splits)

lemma match_operators_tests:
  assumes "distinct (js_keys ops)"
    and "\<forall>(op, v)\<in>set ops. v \<noteq> JUndefined \<and> op \<in> {''ne'', ''lt'', ''lte'', ''gt'', ''gte'', ''nin''} \<and> (op = ''nin'' \<longrightarrow> (\<exists>vs. v = JArr vs))"
  shows "match_operators N ops x = Ok (\<forall>p\<in>set ops. op_test N x p)"
proof -
  let ?test = "\<lambda>op. js_get ops op \<noteq> JUndefined \<longrightarrow> op_test N x (op, js_get ops op)"
  have nin: "js_get ops ''nin'' = JUndefined \<or> (\<exists>vs. js_get ops ''nin'' = JArr vs)"
    using bspec [OF assms(2) in_js_get, of "''nin''"] by auto
  have "(\<forall>p\<in>set ops. op_test N x p) \<longleftrightarrow> (\<forall>op. ?test op)"
  proof
    assume "\<forall>p\<in>set ops. op_test N x p"
    with in_js_get show "\<forall>op. ?test op" by blast
  next
    assume r: "\<forall>op. ?test op"
    show "\<forall>p\<in>set ops. op_test N x p"
    proof
      fix p assume p: "p \<in> set ops"
      obtain op v where e: "p = (op, v)" by fastforce
      have "js_get ops op = v" "v \<noteq> JUndefined" using js_get_in [OF assms(1)] assms(2) p e by blast+
      with r [THEN spec, of op] show "op_test N x p" by (simp add: e)
    qed
  qed
  also have "\<dots> \<longleftrightarrow> ?test ''ne'' \<and> ?test ''lt'' \<and> ?test ''lte'' \<and> ?test ''gt'' \<and> ?test ''gte'' \<and> ?test ''nin''"
  proof
    assume r: "?test ''ne'' \<and> ?test ''lt'' \<and> ?test ''lte'' \<and> ?test ''gt'' \<and> ?test ''gte'' \<and> ?test ''nin''"
    show "\<forall>op. ?test op"
    proof (intro allI impI)
      fix op assume op: "js_get ops op \<noteq> JUndefined"
      then have "op \<in> {''ne'', ''lt'', ''lte'', ''gt'', ''gte'', ''nin''}"
        using bspec [OF assms(2) in_js_get [OF op]] by simp
      with r op show "op_test N x (op, js_get ops op)" by blast
    qed
  qed blast
  finally have tests: "(\<forall>p\<in>set ops. op_test N x p) \<longleftrightarrow>
    ?test ''ne'' \<and> ?test ''lt'' \<and> ?test ''lte'' \<and> ?test ''gt'' \<and> ?test ''gte'' \<and> ?test ''nin''" .
  have t: "?test ''ne'' \<longleftrightarrow> \<not> (js_get ops ''ne'' = JNull \<and> nullish x) \<and> \<not> (js_get ops ''ne'' \<noteq> JUndefined \<and> strict_equal x (js_get ops ''ne''))"
    "?test ''lt'' \<longleftrightarrow> \<not> (js_get ops ''lt'' \<noteq> JUndefined \<and> js_ge N x (js_get ops ''lt''))"
    "?test ''lte'' \<longleftrightarrow> \<not> (js_get ops ''lte'' \<noteq> JUndefined \<and> js_lt N (js_get ops ''lte'') x)"
    "?test ''gt'' \<longleftrightarrow> \<not> (js_get ops ''gt'' \<noteq> JUndefined \<and> js_ge N (js_get ops ''gt'') x)"
    "?test ''gte'' \<longleftrightarrow> \<not> (js_get ops ''gte'' \<noteq> JUndefined \<and> js_lt N x (js_get ops ''gte''))"
    by (auto simp: op_test_def)
  from nin show ?thesis
  proof
    assume "js_get ops ''nin'' = JUndefined"
    then show ?thesis unfolding tests t match_operators_def Let_def by simp
  next
    assume "\<exists>vs. js_get ops ''nin'' = JArr vs"
    then obtain vs where "js_get ops ''nin'' = JArr vs" ..
    then show ?thesis unfolding tests t match_operators_def Let_def by (simp add: op_test_def)
  qed
qed

lemma op_agrees:
  assumes "op_ok ty (js_get row k) p" and "ty \<noteq> Object_type" and "nullish (js_get row k) \<or> has_type ty (js_get row k)"
  shows "op_test N (js_get row k) p \<longleftrightarrow> selects row (op_cond k (Some ty) p)"
proof -
  obtain op v where p: "p = (op, v)" by fastforce
  let ?x = "js_get row k"
  consider vs where "op = ''nin''" "v = JArr vs" "\<forall>v\<in>set vs. has_type ty v" "\<not> nullish ?x"
    | "op = ''ne''" "v = JNull"
    | "op \<in> {''ne'', ''lt'', ''lte'', ''gt'', ''gte''}" "has_type ty v" "\<not> nullish ?x"
    using assms(1) by (auto simp: p op_ok_def split: if_splits js.splits)
  then show ?thesis
  proof cases
    case 1
    have "strict_equal ?x w \<longleftrightarrow> ?x = w" "\<not> nullish w" if "w \<in> set vs" for w
      using typed_compare(2,4) [of ty ?x w] assms(2,3) 1(3,4) that by auto
    with 1(4) show ?thesis by (auto simp: p 1(1,2) op_test_def op_cond_def nullish_def)
  next
    case 2
    then show ?thesis by (auto simp: p op_test_def op_cond_def nullish_def strict_equal_def)
  next
    case 3
    have x: "has_type ty ?x" using assms(3) 3(3) by blast
    have v: "v \<noteq> JNull" using typed_compare(4) [OF x 3(2) assms(2)] by (auto simp: nullish_def)
    note facts = typed_compare [OF x 3(2) assms(2)] typed_compare [OF 3(2) x assms(2)]
    from 3(1) show ?thesis
      by (elim insertE emptyE)
        (simp_all add: p op_test_def op_cond_def compares_def js_lt_def js_ge_def facts(1,2,4,5) 3(3) v, use facts(3) facts(7) in auto)+
  qed
qed

lemma key_agrees:
  assumes "key_ok t row (k, v)" and "k \<noteq> ''OR''" "k \<noteq> ''AND''"
  shows "match_value N v (js_get row k) = Ok (\<forall>c\<in>set (key_conds t (k, v)). selects row c)"
proof -
  let ?x = "js_get row k"
  obtain ty where ty: "column_type t k = Some ty" "ty \<noteq> Object_type" "nullish ?x \<or> has_type ty ?x" "val_ok ty ?x v"
    using assms(1) by (auto simp: key_ok_def split: option.splits)
  have scalar: ?thesis if "has_type ty v"
  proof -
    have eq: "strict_equal ?x v \<longleftrightarrow> ?x = v" if "has_type ty ?x" using typed_compare(2) [OF that \<open>has_type ty v\<close> ty(2)] .
    from \<open>has_type ty v\<close> ty(2) show ?thesis
    proof (cases rule: typed_values)
      case (1 n)
      then show ?thesis using eq ty(3) assms(2,3)
        by (auto simp: match_value_def key_conds_def compares_def nullish_def strict_equal_def)
    next
      case (2 b)
      then show ?thesis using eq ty(3) assms(2,3)
        by (auto simp: match_value_def key_conds_def compares_def nullish_def strict_equal_def)
    next
      case (3 s)
      then show ?thesis using eq ty(3) assms(2,3)
        by (auto simp: match_value_def key_conds_def compares_def nullish_def strict_equal_def)
    qed
  qed
  show ?thesis
  proof (cases v)
    case (JArr vs)
    have vs: "has_type ty w \<or> w = JNull \<and> \<not> nullish ?x" if "w \<in> set vs" for w using ty(4) that by (auto simp: JArr val_ok_def)
    have one: "w = JNull \<and> ?x = JUndefined \<or> strict_equal ?x w \<longleftrightarrow> \<not> nullish ?x \<and> ?x = w" if "w \<in> set vs" for w
    proof (cases "nullish ?x")
      case True
      with vs [OF that] have "has_type ty w" by blast
      from this ty(2) show ?thesis using True by (cases rule: typed_values) (auto simp: strict_equal_def nullish_def)
    next
      case False
      then have x: "has_type ty ?x" using ty(3) by blast
      have "strict_equal ?x w \<longleftrightarrow> ?x = w"
        using vs [OF that] typed_compare(2) [OF x _ ty(2)] False by (auto simp: strict_equal_def nullish_def)
      with False show ?thesis by (auto simp: nullish_def)
    qed
    have "(\<exists>w\<in>set vs. w = JNull \<and> ?x = JUndefined \<or> strict_equal ?x w) \<longleftrightarrow> (\<exists>w\<in>set vs. \<not> nullish ?x \<and> ?x = w)"
      by (rule bex_cong [OF refl one])
    then show ?thesis using assms(2,3) by (simp add: JArr match_value_def key_conds_def)
  next
    case (JObj ops)
    have ops: "distinct (js_keys ops)" "\<forall>p\<in>set ops. op_ok ty ?x p" using ty(4) by (simp_all add: JObj val_ok_def)
    have known: "\<forall>(op, v)\<in>set ops. v \<noteq> JUndefined \<and> op \<in> {''ne'', ''lt'', ''lte'', ''gt'', ''gte'', ''nin''} \<and> (op = ''nin'' \<longrightarrow> (\<exists>vs. v = JArr vs))"
    proof clarify
      fix op v assume "(op, v) \<in> set ops"
      with ops(2) have "op_ok ty ?x (op, v)" by blast
      moreover have "\<not> has_type ty JUndefined" by (cases ty) simp_all
      ultimately show "v \<noteq> JUndefined \<and> op \<in> {''ne'', ''lt'', ''lte'', ''gt'', ''gte'', ''nin''} \<and> (op = ''nin'' \<longrightarrow> (\<exists>vs. v = JArr vs))"
        by (auto simp: op_ok_def split: if_splits js.splits)
    qed
    have "op_test N ?x p \<longleftrightarrow> selects row (op_cond k (Some ty) p)" if "p \<in> set ops" for p
      by (rule op_agrees) (use ops(2) that ty(2,3) in auto)
    then show ?thesis using match_operators_tests [OF ops(1) known, of N ?x] assms(2,3)
      by (simp add: JObj match_value_def key_conds_def ty(1))
  next
    case JNull
    then show ?thesis using assms(2,3) by (simp add: match_value_def key_conds_def nullish_def)
  qed (use ty(2,4) scalar in \<open>auto simp: val_ok_def\<close>)
qed

section \<open>The same rows\<close>

lemma match_entries_all:
  "\<forall>(k, v)\<in>set w. match_value N v (js_get doc k) = Ok (P k v) \<Longrightarrow> match_entries N w doc = Ok (\<forall>(k, v)\<in>set w. P k v)"
  by (induction w) auto

lemma set_js_put: "distinct (js_keys d) \<Longrightarrow> set (js_put k v d) = insert (k, v) {p \<in> set d. fst p \<noteq> k}"
  by (induction k v d rule: js_put.induct) (auto simp: js_keys_map rev_image_eqI)

lemma all_match_Ok: "\<forall>w\<in>set ws. f w = Ok (P w) \<Longrightarrow> all_match f ws = Ok (\<forall>w\<in>set ws. P w)"
  by (induction ws) auto

lemma any_match_Ok: "\<forall>w\<in>set ws. f w = Ok (P w) \<Longrightarrow> any_match f ws = Ok (\<exists>w\<in>set ws. P w)"
  by (induction ws) auto

lemma key_condsI: "(\<forall>c\<in>set (concat (map (key_conds t) d)). selects row c) \<longleftrightarrow> (\<forall>(k, v)\<in>set d. \<forall>c\<in>set (key_conds t (k, v)). selects row c)"
  by auto

lemma top_where:
  assumes "distinct (js_keys d)"
  shows "set (js_put ''AND'' JUndefined (js_put ''OR'' JUndefined d)) =
    {(''AND'', JUndefined), (''OR'', JUndefined)} \<union> {p \<in> set d. fst p \<noteq> ''OR'' \<and> fst p \<noteq> ''AND''}"
  using assms by (auto simp: set_js_put distinct_js_put)

text \<open>The clauses of \<open>OR\<close> and \<open>AND\<close>.\<close>

lemma clauses_of:
  assumes "distinct (js_keys d)" and "k = ''OR'' \<or> k = ''AND''"
    and "\<forall>(k, v)\<in>set d. k = ''OR'' \<or> k = ''AND'' \<longrightarrow> (\<exists>ws. v = JArr ws \<and> (\<forall>w\<in>set ws. P w))"
  obtains "js_get d k = JUndefined" | ws where "js_get d k = JArr ws" "\<forall>w\<in>set ws. P w"
proof (cases "js_get d k = JUndefined")
  case False
  with in_js_get [of d k] assms(2,3) that show ?thesis by blast
qed (use that in blast)

definition agrees :: "(string \<Rightarrow> int option) \<Rightarrow> schema_table \<Rightarrow> js_object \<Rightarrow> js \<Rightarrow> bool" where
  "agrees N t row w \<longleftrightarrow>
     (\<forall>sqlOnly. whereToSql t w sqlOnly = Ok ('' '' @ (if sqlOnly then [] else ''WHERE'') @ cond_text (where_cond t w))) \<and>
     matchDocument N w row = Ok (selects row (where_cond t w))"

lemma join_empty: "join sep ss = [] \<longleftrightarrow> ss = [] \<or> ss = [[]] \<or> (sep = [] \<and> (\<forall>s\<in>set ss. s = []))"
  by (cases ss) (auto simp: join_def)

lemma cond_text_nonempty: "cond_text c \<noteq> []"
  by (cases c) (simp_all add: quoted_def)

lemma conditions_text:
  "(let sql = join '' AND '' (map cond_text cs) in if sql = [] then ''true'' else sql) =
    (if cs = [] then ''true'' else join '' AND '' (map cond_text cs))"
  by (cases cs) (auto simp: join_empty cond_text_nonempty)

lemma clause_texts:
  assumes "\<forall>w\<in>set ws. agrees N t row w"
  shows "joined sep (map_result (\<lambda>v. whereToSql t v True) ws) = Ok (join sep (map (\<lambda>c. '' '' @ cond_text c) (map (where_cond t) ws)))"
proof -
  have "map_result (\<lambda>v. whereToSql t v True) ws = Ok (map (\<lambda>w. '' '' @ cond_text (where_cond t w)) ws)"
    using assms by (intro map_result_texts) (simp add: agrees_def)
  then show ?thesis by (simp add: joined_def comp_def)
qed

lemma keys_text:
  assumes "\<forall>(k, v)\<in>set d. k \<noteq> ''OR'' \<and> k \<noteq> ''AND'' \<longrightarrow> key_ok t row (k, v)"
  shows "map_result (key_sql t) d = Ok (map (\<lambda>p. map cond_text (key_conds t p)) d)"
proof (rule map_result_texts, clarify)
  fix k v assume "(k, v) \<in> set d"
  with assms have "k \<noteq> ''OR'' \<Longrightarrow> k \<noteq> ''AND'' \<Longrightarrow> key_ok t row (k, v)" by blast
  with key_text show "key_sql t (k, v) = Ok (map cond_text (key_conds t (k, v)))"
    by (cases "k = ''OR'' \<or> k = ''AND''") (auto simp: key_sql_def key_conds_def)
qed

lemma keys_match:
  assumes "\<forall>(k, v)\<in>set d. k \<noteq> ''OR'' \<and> k \<noteq> ''AND'' \<longrightarrow> key_ok t row (k, v)" and "distinct (js_keys d)"
    and "js_get row ''OR'' = JUndefined" "js_get row ''AND'' = JUndefined"
  shows "match_entries N (js_put ''AND'' JUndefined (js_put ''OR'' JUndefined d)) row =
    Ok (\<forall>c\<in>set (concat (map (key_conds t) d)). selects row c)"
proof -
  let ?P = "\<lambda>k v. \<forall>c\<in>set (key_conds t (k, v)). selects row c"
  have none: "match_value N JUndefined JUndefined = Ok True" by (simp add: match_value_def strict_equal_def)
  have key: "match_value N v (js_get row k) = Ok (?P k v)" if "(k, v) \<in> set (js_put ''AND'' JUndefined (js_put ''OR'' JUndefined d))" for k v
  proof (cases "k = ''OR'' \<or> k = ''AND''")
    case True
    with that have "v = JUndefined" by (auto simp: top_where [OF assms(2)])
    with True none assms(3,4) show ?thesis by (auto simp: key_conds_def)
  next
    case False
    with that have "(k, v) \<in> set d" by (auto simp: top_where [OF assms(2)])
    with False assms(1) key_agrees show ?thesis by fast
  qed
  have "match_entries N (js_put ''AND'' JUndefined (js_put ''OR'' JUndefined d)) row =
      Ok (\<forall>(k, v)\<in>set (js_put ''AND'' JUndefined (js_put ''OR'' JUndefined d)). ?P k v)"
    by (rule match_entries_all) (use key in blast)
  also have "(\<forall>(k, v)\<in>set (js_put ''AND'' JUndefined (js_put ''OR'' JUndefined d)). ?P k v) \<longleftrightarrow> (\<forall>(k, v)\<in>set d. ?P k v)"
    unfolding top_where [OF assms(2)] by (auto simp: key_conds_def)
  finally show ?thesis unfolding key_condsI .
qed

text \<open>What \<open>OR\<close> and \<open>AND\<close> hold: nothing, or clauses that agree.\<close>

definition clauses_agree :: "(string \<Rightarrow> int option) \<Rightarrow> schema_table \<Rightarrow> js_object \<Rightarrow> js \<Rightarrow> bool" where
  "clauses_agree N t row v \<longleftrightarrow> v = JUndefined \<or> (\<exists>ws. v = JArr ws \<and> (\<forall>w\<in>set ws. agrees N t row w))"

lemma clauses_agree_cases:
  assumes "clauses_agree N t row v"
  obtains "v = JUndefined" | ws where "v = JArr ws" "\<forall>w\<in>set ws. agrees N t row w"
  using assms by (auto simp: clauses_agree_def)

lemma clause_conditions:
  assumes "clauses_agree N t row v"
  shows "(case v of JArr vs \<Rightarrow> if vs = [] then Ok none else joined sep (map_result (\<lambda>v. whereToSql t v True) vs) | _ \<Rightarrow> Ok ''true'') =
    Ok (case (case v of JArr vs \<Rightarrow> Some (map (where_cond t) vs) | _ \<Rightarrow> None) of
          None \<Rightarrow> ''true'' | Some cs \<Rightarrow> if cs = [] then none else join sep (map (\<lambda>c. '' '' @ cond_text c) cs))"
  using assms by (cases rule: clauses_agree_cases) (simp_all add: clause_texts)

lemma or_matches:
  assumes "clauses_agree N t row v"
  shows "(case v of JArr vs \<Rightarrow> any_match (\<lambda>v. matchDocument N v row) vs | _ \<Rightarrow> Ok True) =
    Ok (case (case v of JArr vs \<Rightarrow> Some (map (where_cond t) vs) | _ \<Rightarrow> None) of
          None \<Rightarrow> True | Some cs \<Rightarrow> \<exists>c\<in>set cs. selects row c)"
  using assms
proof (cases rule: clauses_agree_cases)
  case (2 ws)
  then show ?thesis using any_match_Ok [of ws "\<lambda>v. matchDocument N v row" "\<lambda>w. selects row (where_cond t w)"]
    by (simp add: agrees_def)
qed simp

lemma and_matches:
  assumes "clauses_agree N t row v"
  shows "\<exists>vs. clause_list v = Ok vs \<and> all_match (\<lambda>v. matchDocument N v row) vs =
    Ok (case (case v of JArr vs \<Rightarrow> Some (map (where_cond t) vs) | _ \<Rightarrow> None) of
          None \<Rightarrow> True | Some cs \<Rightarrow> \<forall>c\<in>set cs. selects row c)"
  using assms
proof (cases rule: clauses_agree_cases)
  case (2 ws)
  then show ?thesis using all_match_Ok [of ws "\<lambda>v. matchDocument N v row" "\<lambda>w. selects row (where_cond t w)"]
    by (simp add: agrees_def clause_list_def)
qed (simp add: clause_list_def)

lemma where_cond_JObj:
  "where_cond t (JObj d) = Where (concat (map (key_conds t) d))
     (case js_get d ''OR'' of JArr vs \<Rightarrow> Some (map (where_cond t) vs) | _ \<Rightarrow> None)
     (case js_get d ''AND'' of JArr vs \<Rightarrow> Some (map (where_cond t) vs) | _ \<Rightarrow> None)"
  by (simp only: where_cond.simps [of t "JObj d"] js.case)

lemma where_text_agrees:
  assumes "d \<noteq> []" and "\<forall>(k, v)\<in>set d. k \<noteq> ''OR'' \<and> k \<noteq> ''AND'' \<longrightarrow> key_ok t row (k, v)"
    and or: "clauses_agree N t row (js_get d ''OR'')" and "and": "clauses_agree N t row (js_get d ''AND'')"
  shows "whereToSql t (JObj d) sqlOnly = Ok ('' '' @ (if sqlOnly then [] else ''WHERE'') @ cond_text (where_cond t (JObj d)))"
proof -
  have concats: "concat (map (\<lambda>p. map cond_text (key_conds t p)) d) = map cond_text (concat (map (key_conds t) d))"
    by (simp add: map_concat comp_def)
  show ?thesis
    unfolding whereToSql.simps [of t "JObj d"] js.case where_cond_JObj cond_text.simps clause_conditions [OF or]
      clause_conditions [OF "and"] keys_text [OF assms(2)] where_text_def bind_result.simps concats conditions_text
    by (simp only: if_not_P [OF assms(1)] Let_def conditions_text [unfolded Let_def] append_assoc)
qed

lemma where_match_agrees:
  assumes "\<forall>(k, v)\<in>set d. k \<noteq> ''OR'' \<and> k \<noteq> ''AND'' \<longrightarrow> key_ok t row (k, v)" and "distinct (js_keys d)"
    and row: "js_get row ''OR'' = JUndefined" "js_get row ''AND'' = JUndefined"
    and or: "clauses_agree N t row (js_get d ''OR'')" and "and": "clauses_agree N t row (js_get d ''AND'')"
  shows "matchDocument N (JObj d) row = Ok (selects row (where_cond t (JObj d)))"
proof -
  obtain vs where vs: "clause_list (js_get d ''AND'') = Ok vs" "all_match (\<lambda>v. matchDocument N v row) vs =
    Ok (case (case js_get d ''AND'' of JArr vs \<Rightarrow> Some (map (where_cond t) vs) | _ \<Rightarrow> None) of
          None \<Rightarrow> True | Some cs \<Rightarrow> \<forall>c\<in>set cs. selects row c)"
    using and_matches [OF "and"] by blast
  have d: "own_props (JObj d) = d" "\<not> nullish (JObj d)" by (simp_all add: own_props_def nullish_def)
  have and3: "bind_result (Ok a) (\<lambda>a. if \<not> a then Ok False else bind_result (Ok xs) (\<lambda>xs. bind_result (Ok b) (\<lambda>b. if \<not> b then Ok False else Ok c))) =
      Ok (a \<and> c \<and> b)" for a b c and xs :: "js list" by auto
  show ?thesis
    unfolding matchDocument.simps [of N "JObj d"] where_cond_JObj selects.simps Let_def d(1) if_not_P [OF d(2)]
      keys_match [OF assms(1,2) row] vs(1) or_matches [OF or]
    using and3 vs(2) by simp
qed

lemma where_agrees:
  assumes "comparable t row w" and "js_get row ''OR'' = JUndefined" "js_get row ''AND'' = JUndefined"
  shows "agrees N t row w"
  using assms(1)
proof (induction rule: comparable.induct)
  case (1 d)
  have sub: "\<forall>(k, v)\<in>set d. k = ''OR'' \<or> k = ''AND'' \<longrightarrow> (\<exists>ws. v = JArr ws \<and> (\<forall>w\<in>set ws. agrees N t row w))"
  proof clarify
    fix k v assume kv: "(k, v) \<in> set d" "k = ''OR'' \<or> k = ''AND''"
    from bspec [OF 1(4) kv(1)] kv(2) obtain ws where "v = JArr ws" "\<forall>w\<in>set ws. comparable t row w \<and> agrees N t row w"
      by auto
    then show "\<exists>ws. v = JArr ws \<and> (\<forall>w\<in>set ws. agrees N t row w)" by blast
  qed
  have clauses: "clauses_agree N t row (js_get d k)" if "k = ''OR'' \<or> k = ''AND''" for k
    by (rule clauses_of [OF 1(2) that sub]) (auto simp: clauses_agree_def)
  have or: "clauses_agree N t row (js_get d ''OR'')" by (rule clauses) simp
  have "and": "clauses_agree N t row (js_get d ''AND'')" by (rule clauses) simp
  show ?case unfolding agrees_def
    using where_text_agrees [OF 1(1,3) or "and"] where_match_agrees [OF 1(3,2) assms(2,3) or "and"] by (intro conjI allI)
qed

text \<open>C38: A query selects the same rows in memory and in SQL: for a comparable row and query the text is that of
  the condition of the query, and the matching in memory returns whether this condition is true of the
  row.\<close>

theorem where_backends_agree:
  assumes "comparable t row w" and "js_get row ''OR'' = JUndefined" and "js_get row ''AND'' = JUndefined"
  shows "whereToSql t w sqlOnly = Ok ('' '' @ (if sqlOnly then [] else ''WHERE'') @ cond_text (where_cond t w)) \<and>
    matchDocument N w row = Ok (selects row (where_cond t w))"
  using where_agrees [OF assms] by (simp add: agrees_def)

text \<open>A proposal with its number that is verified or an uncle.\<close>

theorem where_backends_agree_witness:
  "let w = JObj [(''proposalNum'', JObj [(''lt'', JNum 5)]),
                 (''OR'', JArr [JObj [(''verified'', JObj [(''ne'', JNull)])], JObj [(''isUncle'', JObj [(''ne'', JNull)])]])];
       row = [(''hash'', JStr ''a''), (''proposalNum'', JNum 3), (''verified'', JBool True)] in
   matchDocument (\<lambda>_. None) w row = Ok True \<and>
   whereToSql (construct_table Proposal_table) w True = Ok ('' '' @ cond_text (where_cond (construct_table Proposal_table) w))"
proof -
  let ?t = "construct_table Proposal_table"
  let ?row = "[(''hash'', JStr ''a''), (''proposalNum'', JNum 3), (''verified'', JBool True)]"
  let ?v = "JObj [(''verified'', JObj [(''ne'', JNull)])]" and ?u = "JObj [(''isUncle'', JObj [(''ne'', JNull)])]"
  let ?w = "JObj [(''proposalNum'', JObj [(''lt'', JNum 5)]), (''OR'', JArr [?v, ?u])]"
  have types: "column_type ?t ''proposalNum'' = Some Int_type" "column_type ?t ''verified'' = Some Bool_type"
    "column_type ?t ''isUncle'' = Some Bool_type"
    by (simp_all add: column_type_def row_of_def construct_table_def Proposal_table_def bare_row_def no_options_def)
  have "comparable ?t ?row ?v" "comparable ?t ?row ?u"
    by (rule comparable.intros; simp add: key_ok_def types val_ok_def op_ok_def nullish_def)+
  then have w: "comparable ?t ?row ?w"
    by (intro comparable.intros) (simp_all add: key_ok_def types val_ok_def op_ok_def nullish_def)
  have "selects ?row (where_cond ?t ?w)"
    by (simp add: where_cond.simps key_conds_def types op_cond_def compares_def nullish_def)
  then show ?thesis
    using where_backends_agree [OF w, of True "\<lambda>_. None"] by simp
qed

text \<open>
  Where the sides differ: a missing value is below every bound in memory, \<open>eq\<close> is no operator there, and NULL
  in a list matches NULL.
\<close>

lemma where_backends_differ:
  "matchDocument N (JObj [(''proposedAt'', JObj [(''lt'', JNum n)])]) [] = Ok True"
  "\<not> selects [] (where_cond t (JObj [(''proposedAt'', JObj [(''lt'', JNum n)])]))"
  "matchDocument N (JObj [(''proposedAt'', JObj [(''eq'', JNum 1)])]) [(''proposedAt'', JNum 2)] = Ok True"
  "matchDocument N (JObj [(''proposedAt'', JArr [JNull])]) [] = Ok True"
  "\<not> selects [] (where_cond t (JObj [(''proposedAt'', JArr [JNull])]))"
  by (simp_all add: matchDocument.simps [of N "JObj d" for d] where_cond.simps nullish_def own_props_def match_value_def
      match_operators_def Let_def js_ge_def js_less_def to_primitive_def clause_list_def strict_equal_def key_conds_def op_cond_def
      compares_def)

end
