(* ===== verification/Database_Literals.thy ===== *)
theory Database_Literals
  imports Database_Sql Database_Schema
begin

text \<open>
  The literals of the SQL texts. They are read here as SQL delimits them: a text runs to the first quote
  that is not doubled, a number to the first character that is no digit.
\<close>

section \<open>Reading literals\<close>

fun read_text :: "string \<Rightarrow> (string \<times> string) option" where
  "read_text [] = None"
| "read_text [c] = (if c = quote then Some ([], []) else None)"
| "read_text (c # c' # s) =
     (if c = quote
      then if c' = quote then map_option (\<lambda>(t, r). (quote # t, r)) (read_text s) else Some ([], c' # s)
      else map_option (\<lambda>(t, r). (c # t, r)) (read_text (c' # s)))"

abbreviation is_digit :: "char \<Rightarrow> bool" where
  "is_digit c \<equiv> c \<in> set ''0123456789''"

definition digits_value :: "string \<Rightarrow> nat" where
  "digits_value s = foldl (\<lambda>n c. 10 * n + (of_char c - 48)) 0 s"

definition read_digits :: "string \<Rightarrow> (nat \<times> string) option" where
  "read_digits s = (let ds = takeWhile is_digit s in if ds = [] then None else Some (digits_value ds, dropWhile is_digit s))"

definition read_number :: "string \<Rightarrow> (int \<times> string) option" where
  "read_number s =
     (case s of
        [] \<Rightarrow> None
      | c # s' \<Rightarrow> if c = CHR ''-'' then map_option (\<lambda>(n, r). (- int n, r)) (read_digits s')
                  else map_option (\<lambda>(n, r). (int n, r)) (read_digits s))"

fun read_quoted :: "string \<Rightarrow> (js \<times> string) option" where
  "read_quoted [] = None"
| "read_quoted (c # s) = (if c = quote then map_option (\<lambda>(t, r). (JStr t, r)) (read_text s) else None)"

definition read_literal :: "data_type \<Rightarrow> string \<Rightarrow> (js \<times> string) option" where
  "read_literal ty s =
     (if take 4 s = ''NULL'' then Some (JNull, drop 4 s)
      else
        (case ty of
           String_type \<Rightarrow> read_quoted s
         | Object_type \<Rightarrow> read_quoted s
         | Int_type \<Rightarrow> map_option (\<lambda>(n, r). (JNum n, r)) (read_number s)
         | Bool_type \<Rightarrow>
             if take 4 s = ''true'' then Some (JBool True, drop 4 s)
             else if take 5 s = ''false'' then Some (JBool False, drop 5 s) else None))"

fun read_list :: "data_type list \<Rightarrow> string \<Rightarrow> (js list \<times> string) option" where
  "read_list [] s = Some ([], s)"
| "read_list [ty] s = map_option (\<lambda>(v, r). ([v], r)) (read_literal ty s)"
| "read_list (ty # ty' # tys) s =
     (case read_literal ty s of
        Some (v, c # r) \<Rightarrow> if c = CHR '','' then map_option (\<lambda>(vs, r). (v # vs, r)) (read_list (ty' # tys) r) else None
      | _ \<Rightarrow> None)"

fun read_tuple :: "data_type list \<Rightarrow> string \<Rightarrow> (js list \<times> string) option" where
  "read_tuple tys [] = None"
| "read_tuple tys (c # s) =
     (if c \<noteq> CHR ''('' then None
      else case read_list tys s of
        Some (vs, c' # r) \<Rightarrow> if c' = CHR '')'' then Some (vs, r) else None
      | _ \<Rightarrow> None)"

text \<open>What is stored of a value: an object as its JSON text.\<close>

definition stored_value :: "data_type \<Rightarrow> js \<Rightarrow> js" where
  "stored_value ty v = (if nullish v then JNull else if ty = Object_type then JStr (js_json v) else v)"

section \<open>Round trips\<close>

lemma read_text_escaped: "rest = [] \<or> hd rest \<noteq> quote \<Longrightarrow> read_text (escapeSingleQuotes s @ quote # rest) = Some (s, rest)"
proof (induction s)
  case Nil
  then show ?case by (cases rest) (simp_all add: escapeSingleQuotes_def)
next
  case (Cons c s)
  obtain d ds where ds: "escapeSingleQuotes s @ quote # rest = d # ds" by (cases "escapeSingleQuotes s") auto
  have e: "escapeSingleQuotes (c # s) @ quote # rest = (if c = quote then [quote, quote] else [c]) @ escapeSingleQuotes s @ quote # rest"
    by (simp add: escapeSingleQuotes_def)
  show ?case using Cons unfolding e by (auto simp: ds)
qed

lemma is_digit_of: "m < 10 \<Longrightarrow> (of_char (char_of (48 + m) :: char) :: nat) = 48 + m"
  by (simp add: of_char_of take_bit_eq_mod)

lemma digits_value_decimal: "digits_value (decimal n) = n"
proof (induction n rule: decimal.induct)
  case (1 n)
  show ?case
  proof (cases "n < 10")
    case True
    then show ?thesis by (subst decimal.simps) (simp add: digits_value_def is_digit_of)
  next
    case False
    with 1 have "digits_value (decimal (n div 10)) = n div 10" by simp
    with False show ?thesis by (subst decimal.simps) (simp add: digits_value_def is_digit_of)
  qed
qed

lemma decimal_nonempty: "decimal n \<noteq> []"
  by (subst decimal.simps) simp

lemma read_digits_decimal:
  assumes "rest = [] \<or> \<not> is_digit (hd rest)"
  shows "read_digits (decimal n @ rest) = Some (n, rest)"
proof -
  have all: "\<forall>c\<in>set (decimal n). is_digit c" using decimal_digits by blast
  have rest: "takeWhile is_digit rest = []" "dropWhile is_digit rest = rest" using assms by (cases rest; simp)+
  have "takeWhile is_digit (decimal n @ rest) = decimal n" "dropWhile is_digit (decimal n @ rest) = rest"
    using all rest by (simp_all add: takeWhile_append dropWhile_append)
  then show ?thesis by (simp only: read_digits_def Let_def decimal_nonempty digits_value_decimal if_False)
qed

lemma read_number_text:
  assumes "rest = [] \<or> \<not> is_digit (hd rest)"
  shows "read_number (number_text n @ rest) = Some (n, rest)"
proof (cases "n < 0")
  case True
  then show ?thesis using read_digits_decimal [OF assms] by (simp add: read_number_def number_text_def)
next
  case False
  obtain c s where d: "decimal (nat n) = c # s" "is_digit c"
    using decimal_nonempty [of "nat n"] decimal_digits [of "nat n"] by (cases "decimal (nat n)") auto
  then have "c \<noteq> CHR ''-''" by auto
  with False d(1) show ?thesis using read_digits_decimal [OF assms, of "nat n"] by (simp add: read_number_def number_text_def)
qed

text \<open>What follows a literal in a list.\<close>

definition follows :: "string \<Rightarrow> bool" where
  "follows rest \<longleftrightarrow> (\<exists>c r. rest = c # r \<and> c \<in> {CHR '','', CHR '')''})"

lemma number_text_start: "take 4 (number_text n @ rest) \<noteq> ''NULL''"
proof -
  obtain c s where d: "decimal (nat n) = c # s" "is_digit c"
    using decimal_nonempty [of "nat n"] decimal_digits [of "nat n"] by (cases "decimal (nat n)") auto
  then show ?thesis by (auto simp: number_text_def)
qed

lemma literal_roundtrip:
  assumes "parseType (Some ty) v = Ok s" and "follows rest"
  shows "read_literal ty (s @ rest) = Some (stored_value ty v, rest)"
proof (cases "nullish v")
  case True
  with assms(1) show ?thesis by (auto simp: parseType_def read_literal_def stored_value_def)
next
  case False
  have rest: "rest = [] \<or> hd rest \<noteq> quote" "rest = [] \<or> \<not> is_digit (hd rest)" using assms(2) by (auto simp: follows_def)
  note reads = read_text_escaped [OF rest(1)] read_number_text [OF rest(2)]
  have text_read: "read_literal ty (sql_text t @ rest) = Some (JStr t, rest)" if "ty \<in> {String_type, Object_type}" for ty t
    using that by (auto simp: read_literal_def sql_text_def reads)
  have held: "stored_value ty v = (if ty = Object_type then JStr (js_json v) else v)" using False by (simp add: stored_value_def)
  consider t where "ty = String_type" "v = JStr t" "s = sql_text t"
    | n where "ty = Int_type" "v = JNum n" "s = number_text n"
    | b where "ty = Bool_type" "v = JBool b" "s = (if b then ''true'' else ''false'')"
    | "ty = Object_type" "s = sql_text (js_json v)"
    using assms(1) False by (cases ty; cases v) (simp_all add: parseType_def)
  then show ?thesis
  proof cases
    case 2
    then show ?thesis unfolding held using number_text_start by (simp add: read_literal_def reads del: take_append)
  next
    case (3 b)
    then show ?thesis unfolding held by (cases b) (simp_all add: read_literal_def)
  qed (unfold held, simp_all add: text_read)
qed

lemma list_roundtrip:
  assumes "list_all2 (\<lambda>(ty, v) s. parseType (Some ty) v = Ok s) tvs ss" and "follows rest"
  shows "read_list (map fst tvs) (join '','' ss @ rest) = Some (map (\<lambda>(ty, v). stored_value ty v) tvs, rest)"
  using assms(1)
proof (induction tvs ss rule: list_all2_induct)
  case step: (Cons tv tvs s ss)
  obtain ty v where tv: "tv = (ty, v)" by fastforce
  show ?case
  proof (cases tvs)
    case Nil
    then have "ss = []" using step.hyps by simp
    with Nil step.hyps literal_roundtrip [OF _ assms(2)] show ?thesis by (simp add: tv)
  next
    case (Cons tv' tvs')
    then obtain s' ss' where ss: "ss = s' # ss'" using step.hyps(2) by (cases ss) auto
    have "follows ('','' @ join '','' (s' # ss') @ rest)" by (simp add: follows_def)
    from literal_roundtrip [OF _ this] have "read_literal ty (s @ '','' @ join '','' (s' # ss') @ rest) =
        Some (stored_value ty v, '','' @ join '','' (s' # ss') @ rest)" using step.hyps(1) by (simp add: tv)
    then show ?thesis using step.IH by (simp add: tv ss Cons)
  qed
qed simp

section \<open>Written documents\<close>

text \<open>C39: No value of a document leaves its place in the SQL text: the tuple that the creation writes for a
  document is read back, whatever text follows it, as the values of its keys, a missing value as NULL and
  an object as its JSON text.\<close>

theorem values_roundtrip:
  assumes "values_sql t keys doc = Ok s" and "map (column_type t) keys = map Some tys"
  shows "read_tuple tys (s @ rest) = Some (map (\<lambda>(ty, k). stored_value ty (js_get doc k)) (zip tys keys), rest)"
proof -
  obtain ss where ss: "map_result (\<lambda>k. bind_result (column_of t k) (\<lambda>r. parseType (rd_type r) (js_get doc k))) keys = Ok ss"
    and s: "s = ''('' @ join '','' ss @ '')''"
    using assms(1) by (auto simp: values_sql_def)
  have len: "length tys = length keys" "length ss = length keys"
    using map_eq_imp_length_eq [OF assms(2)] ss by (auto simp: map_result_Ok_iff dest: list_all2_lengthD)
  have "list_all2 (\<lambda>(ty, v) s. parseType (Some ty) v = Ok s) (map (\<lambda>(ty, k). (ty, js_get doc k)) (zip tys keys)) ss"
  proof (rule list_all2_all_nthI)
    fix i assume "i < length (map (\<lambda>(ty, k). (ty, js_get doc k)) (zip tys keys))"
    then have i: "i < length keys" by (simp add: len)
    from ss i have "bind_result (column_of t (keys ! i)) (\<lambda>r. parseType (rd_type r) (js_get doc (keys ! i))) = Ok (ss ! i)"
      using list_all2_nthD [OF ss [unfolded map_result_Ok_iff], of i] by simp
    moreover have "column_type t (keys ! i) = Some (tys ! i)"
      using arg_cong [OF assms(2), of "\<lambda>l. l ! i"] i len by simp
    ultimately show "(\<lambda>(ty, v) s. parseType (Some ty) v = Ok s) (map (\<lambda>(ty, k). (ty, js_get doc k)) (zip tys keys) ! i) (ss ! i)"
      using i len by (auto simp: column_type_def column_of_def split: option.splits)
  qed (simp add: len)
  from list_roundtrip [OF this, of "'')'' @ rest"]
  have "read_list tys (join '','' ss @ '')'' @ rest) = Some (map (\<lambda>(ty, k). stored_value ty (js_get doc k)) (zip tys keys), '')'' @ rest)"
    using len by (simp add: follows_def comp_def case_prod_beta zip_map_fst_snd)
  then show ?thesis by (simp add: s)
qed

text \<open>A reason with a quote, and the end of a statement in it.\<close>

theorem values_roundtrip_witness:
  "\<exists>s. values_sql (construct_table Slash_table) [''hash'', ''slashedAt'', ''reason'']
      [(''reason'', JStr [quote, CHR '')'', CHR '';'']), (''slashedAt'', JNum (- 12)), (''hash'', JStr ''ab'')] = Ok s \<and>
    read_tuple [String_type, Int_type, String_type] (s @ '';'') =
      Some ([JStr ''ab'', JNum (- 12), JStr [quote, CHR '')'', CHR '';'']], '';'')"
proof -
  let ?t = "construct_table Slash_table" and ?keys = "[''hash'', ''slashedAt'', ''reason'']"
  let ?doc = "[(''reason'', JStr [quote, CHR '')'', CHR '';'']), (''slashedAt'', JNum (- 12)), (''hash'', JStr ''ab'')]"
  have rows: "row_of ?t ''hash'' = Some (normalizeRowDef (Short_row ''hash'' String_type None))"
    "row_of ?t ''slashedAt'' = Some (normalizeRowDef (Short_row ''slashedAt'' Int_type (Some (no_options\<lparr>ro_index := True\<rparr>))))"
    "row_of ?t ''reason'' = Some (normalizeRowDef (Short_row ''reason'' String_type None))"
    by (simp_all add: row_of_def construct_table_def Slash_table_def bare_row_def no_options_def)
  then obtain s where s: "values_sql ?t ?keys ?doc = Ok s"
    by (simp add: values_sql_def column_of_def parseType_def nullish_def)
  have "map (column_type ?t) ?keys = map Some [String_type, Int_type, String_type]"
    by (simp add: column_type_def rows)
  from values_roundtrip [OF s this, of "'';''"] s show ?thesis by (simp add: stored_value_def nullish_def)
qed

section \<open>Upserts\<close>

text \<open>
  \<open>upsertSql\<close> cuts the last character of the creation off by dropping the first semicolon. With a semicolon in
  a value it loses that one and keeps the end of the statement, before \<open>ON CONFLICT\<close>.
\<close>

lemma drop_semicolon_end: "CHR '';'' \<notin> set s \<Longrightarrow> drop_semicolon (s @ '';'') = s"
  and drop_semicolon_inside: "CHR '';'' \<in> set s \<Longrightarrow> drop_semicolon (s @ '';'') = remove1 CHR '';'' s @ '';''"
  by (simp_all add: drop_semicolon_def remove1_append)

lemma upsert_splits:
  assumes "createSql G t create = Ok (s @ '';'', query)" and "CHR '';'' \<in> set s" and "upsertSql G t w update create constraintKey = Ok sql"
  shows "\<exists>rest. sql = remove1 CHR '';'' s @ '';'' @ line_break 2 @ ''ON CONFLICT('' @ rest"
  using assms drop_semicolon_inside by (auto simp: upsertSql_def Let_def)

end
