(* ===== verification/Spec2Isabelle.thy ===== *)
theory Spec2Isabelle
  imports Field_Ops Zk_Memo Tx_Builder_Ether Tx_Pool_Proofs Block_Data Block_Cache_Proofs Grove_Properties
    Smt_Sol Sol_Append Validator_Soundness Generator_Proofs Zk_Keys_Proofs Processor_Notes
    Sync_Properties Sync_Listeners Sync_Order Database_Types Database_Match Database_Literals
begin

text \<open>
  A model of the rollup core of Zkopru, the packages under \<open>src/packages\<close>. Zkopru is an optimistic
  rollup: coordinators bundle private transactions into blocks, nodes apply the blocks to three Merkle
  trees and validate them, and a block that breaks a rule is slashed on the first layer. The parts below
  are in the order in which they build on each other.

  \<^bold>\<open>Trees\<close> (\<open>packages/tree\<close>). \<open>Hasher\<close>, \<open>Merkle_Proof\<close>: hash functions with their empty roots, Merkle
  proofs. \<open>Tree_Store\<close>: the tables of the database that trees use, the writes of a transaction, the node
  cache. \<open>Rollup_Tree\<close>: the append-only \<open>LightRollUpTree\<close> with its frontier; \<open>Rollup_Append\<close>,
  \<open>Rollup_Tracking\<close>, \<open>Rollup_Proofs\<close>, \<open>Rollup_Merkle\<close>, \<open>Rollup_Sync\<close> build up its invariant against the
  mathematical tree \<open>mnode\<close>, and \<open>Rollup_History\<close> states what holds in every state that appends can
  reach. \<open>Nullifier_Tree\<close>, \<open>Nullifier_Proofs\<close>, \<open>Nullifier_History\<close>: the sparse tree of used nullifiers
  against a set. \<open>Grove\<close>, \<open>Grove_Proofs\<close>, \<open>Grove_Properties\<close>: the three trees together, patches and dry
  runs, and where a patch stops that fails, with the handlers that put the trees back. \<open>Merkle_Tree_Sol\<close>, \<open>Sol_Subtrees\<close>, \<open>Sol_Append\<close>, \<open>Smt_Sol\<close>: the TypeScript twins of the libraries
  of the contracts, refined to the same mathematical trees.

  \<^bold>\<open>Data\<close> (\<open>packages/babyjubjub\<close>, \<open>utils\<close>, \<open>transaction\<close>, \<open>core/src/block\<close>). \<open>Field\<close>, \<open>Field_Ops\<close>: the two
  prime fields as integers with their checks. \<open>Bytes\<close>, \<open>Utils\<close>: queues, buffers and roots of lists.
  \<open>Zk_Tx\<close>, \<open>Zk_Tx_Proofs\<close>, \<open>Zk_Tx_Properties\<close>, \<open>Zk_Memo\<close>: the transaction, its binary form, hash, size and
  memos. \<open>Block_Codec\<close>, \<open>Block_Properties\<close>, \<open>Block_Data\<close>, \<open>Mass_Migration\<close>: blocks, their codec, hashes,
  and the mass migrations they must hold. The readers are proved over any queue by a locale, which both
  queues of the code interpret.

  \<^bold>\<open>Wallet and coordinator\<close> (\<open>transaction\<close>, \<open>coordinator/src/tx-pool.ts\<close>). \<open>Note\<close>: notes, their hashes,
  nullifiers and encryption. \<open>Tx_Builder\<close>, \<open>Tx_Builder_Proofs\<close>, \<open>Tx_Builder_Ether\<close>: the choice of notes
  to spend, conservation of Ether, tokens and NFTs, and when the builder ends with a transaction, for any
  builder whose notes for the tokens are found. \<open>Tx_Pool\<close>,
  \<open>Tx_Pool_Proofs\<close>: the pool of pending transactions and what is picked for a block. \<open>Block_Generator\<close>,
  \<open>Generator_Proofs\<close>: the block a coordinator makes of deposits and picked transactions over a dry run,
  and why the nodes accept it. \<open>Zk_Keys\<close>, \<open>Zk_Keys_Proofs\<close> (\<open>babyjubjub/src/point.ts\<close>,
  \<open>transaction/src/zk-address.ts\<close>, \<open>account/src/viewer.ts\<close>, \<open>core/src/node/tracker.ts\<close>): points, addresses,
  viewing keys and tracked accounts with their encodings.

  \<^bold>\<open>Nodes\<close> (\<open>core/src/context\<close>, \<open>core/src/validator\<close>, \<open>core/src/node\<close>, \<open>database/src\<close>). \<open>Block_Cache\<close>,
  \<open>Block_Cache_Proofs\<close>: writes that wait for confirmations, as interleaved steps. \<open>Layer2\<close>: what a node
  reads of its database, and the patch of a block. \<open>Validators\<close>, \<open>Validator_Calls\<close>, \<open>Validator_Proofs\<close>,
  \<open>Validator_Soundness\<close>: the checks of a block, how full and light nodes call them and decide, and what
  an accepted block says of the trees. \<open>Block_Processor\<close> (\<open>core/src/node/block-processor.ts\<close>): the worker
  of a node, which takes the proposals in their order, drops uncles, slashes or applies a block with the
  writes of one transaction, finds the notes and withdrawals of tracked accounts, and numbers the
  canonical blocks. \<open>Processor_Writes\<close>, \<open>Processor_Loop\<close>: what each write changes and keeps, and the
  rounds of the loop; \<open>Processor_Demo\<close>: a small node on which the witnesses run. \<open>Processor_Properties\<close>:
  a failed block leaves nothing behind once the handlers of its transaction have run, the loop ends, and
  when it stalls; \<open>Processor_Forks\<close>,
  \<open>Processor_Numbers\<close>: the fork choice and the canonical numbers; \<open>Processor_Trees\<close>: the trees agree with
  the last accepted header, up to the unchecked nullifier root of a block that spends nothing; \<open>Processor_Notes\<close>: the rows of own notes and withdrawals.
  \<open>Synchronizer\<close> (\<open>core/src/node/synchronizer.ts\<close>): what the events of the first layer write, where a
  listener starts, the fetching of calldata as interleaved parts, the status, and the steps of a node that
  runs it beside the processor. \<open>Sync_Proofs\<close>, \<open>Sync_Properties\<close>: in every history of such a node the
  processor returns and every stored calldata is the block of its row, and when the fetching starves;
  \<open>Sync_Listeners\<close>: four of the listeners catch up when they start again; \<open>Sync_Order\<close>: the order of
  events does not matter but for the owner and sender of deposits, by a locale of operations that commute.

  \<^bold>\<open>Database\<close> (\<open>packages/database/src\<close>). \<open>Js_Values\<close>: the JavaScript values that documents and queries hold.
  \<open>Database\<close> (\<open>types.ts\<close>, \<open>helpers/memory.ts\<close>): the description of tables, the check of documents, the
  matching of queries in memory. \<open>Database_Sql\<close> (\<open>helpers/sql.ts\<close>, \<open>helpers/shared.ts\<close>): the SQL texts,
  character by character, and related rows. \<open>Database_Schema\<close> (\<open>schema.ts\<close>): the tables, how they fit
  together, and the columns by which queries are ordered, one of which has no index. \<open>Database_Types\<close>: the check decides the types of the columns, and what passes it can be written
  as SQL. \<open>Database_Match\<close>: on comparable rows a query selects the same in memory and as SQL. SQL is there
  a condition over values in which a comparison with NULL is not true. \<open>Database_Literals\<close>: a tuple of
  literals reads back as the values it was written for.

  \<^bold>\<open>Correspondence.\<close> Classes are records, enums and unions datatypes, a method is a definition from the
  state to the new state, exceptions are the left summand of \<open>result\<close> with their message. Field
  elements and \<open>BN\<close> values are integers, \<open>Bytes32\<close>, \<open>Uint256\<close> and \<open>Address\<close> words of their width,
  hexadecimal strings lists of digits, numbers that the code keeps as doubles are rounded as doubles
  where they are read. A database is a record of its tables, a transaction the list of its writes, which
  are committed together. Asynchronous code is one step where a lock or a single caller orders it, and
  explicit interleaved steps in the block cache and the pool.

  \<^bold>\<open>Parameters.\<close> Hash functions (keccak, poseidon), the ABI coder, the constructors of \<open>soltypes\<close>, curve
  operations, ciphers, the snark verifier, the contracts and the sort of the runtime are not under
  \<open>src\<close>: they are arguments, with hypotheses such as \<open>soltypes_documented\<close> or injectivity of a hash
  where a property needs one (of a block header only among the calldata that a history fetches), and witnesses that apply the property to a concrete function.

  \<^bold>\<open>Bounds.\<close> No fuel is used: loops over levels and lists are structural, the loops that collect notes
  and pick transactions have measures, the walk along parents is bounded by the reference depth of the
  code, and the loop of the block processor is a \<open>partial_function (option)\<close> that is proved to return.
  Depths, sizes of subtrees and widths are those of the configuration, with the bounds a property needs
  as hypotheses.

  \<^bold>\<open>Not modelled.\<close> Solidity and its bindings; web3 calls and event subscriptions; processes, timers,
  servers and user interfaces; the connectors that run the SQL texts or store the documents, whose
  queries have their documented meaning; signatures, key derivation and the prover, which wrap libraries
  outside \<open>src\<close>; the storage of wallet accounts; the challenge transactions that a failed check
  prepares for the contracts; fixtures of the tests.
\<close>

end
